(* ===== verification/Kim_Prelude.thy ===== *)
theory Kim_Prelude
  imports
    Main
    "HOL-Library.AList"
    "HOL-Library.Word"
    "HOL-Library.Char_ord"
    "HOL-Library.List_Lexorder"
    "HOL-Library.Product_Lexorder"
    "HOL-Library.Multiset"
begin

text \<open>
  Shared vocabulary of the development: Rust results as sums, hash maps as association lists,
  strings as UTF-8 byte sequences, the little- and big-endian integer codecs, saturating
  arithmetic, and the order-preserving deduplication loop that several components use.

  A Rust \<open>String\<close> is modelled by its UTF-8 bytes, so \<open>length\<close> is \<open>str::len\<close> and the
  order of \<open>HOL-Library.List_Lexorder\<close> over \<open>Char_ord\<close> is the byte order of \<open>str::cmp\<close>.
  A \<open>HashMap\<close> is an association list with distinct keys: the list is one iteration order of the
  map, and every theorem quantifies over the list, so it holds for every iteration order.
\<close>

unbundle bit_operations_syntax

named_theorems kim_map \<open>lookup after insert, remove and retain on hash maps\<close>
named_theorems kim_codec \<open>decoding what an encoder wrote\<close>
named_theorems kim_inv \<open>preservation of a component's invariant by its operations\<close>

section \<open>Results\<close>

type_synonym ('e, 'a) result = "'e + 'a"

abbreviation Ok :: "'a \<Rightarrow> ('e, 'a) result" where "Ok \<equiv> Inr"
abbreviation Err :: "'e \<Rightarrow> ('e, 'a) result" where "Err \<equiv> Inl"

definition res_bind :: "('e, 'a) result \<Rightarrow> ('a \<Rightarrow> ('e, 'b) result) \<Rightarrow> ('e, 'b) result" where
  "res_bind r f = (case r of Inl e \<Rightarrow> Inl e | Inr a \<Rightarrow> f a)"

lemma res_bind_simps [simp]:
  "res_bind (Inl e) f = Inl e"
  "res_bind (Inr a) f = f a"
  by (simp_all add: res_bind_def)

lemma res_bind_eq_Inr: "res_bind r f = Inr b \<longleftrightarrow> (\<exists>a. r = Inr a \<and> f a = Inr b)"
  by (cases r) simp_all

section \<open>Hash maps\<close>

type_synonym ('k, 'v) hmap = "('k \<times> 'v) list"

abbreviation hget :: "('k, 'v) hmap \<Rightarrow> 'k \<Rightarrow> 'v option" where "hget \<equiv> map_of"
abbreviation hput :: "'k \<Rightarrow> 'v \<Rightarrow> ('k, 'v) hmap \<Rightarrow> ('k, 'v) hmap" where "hput \<equiv> AList.update"
abbreviation hdel :: "'k \<Rightarrow> ('k, 'v) hmap \<Rightarrow> ('k, 'v) hmap" where "hdel \<equiv> AList.delete"
abbreviation hkeys :: "('k, 'v) hmap \<Rightarrow> 'k set" where "hkeys m \<equiv> fst ` set m"
abbreviation hwf :: "('k, 'v) hmap \<Rightarrow> bool" where "hwf m \<equiv> distinct (map fst m)"

definition hretain :: "('k \<Rightarrow> 'v \<Rightarrow> bool) \<Rightarrow> ('k, 'v) hmap \<Rightarrow> ('k, 'v) hmap" where
  "hretain P m = filter (\<lambda>(k, v). P k v) m"

definition hor_insert :: "'k \<Rightarrow> 'v \<Rightarrow> ('k, 'v) hmap \<Rightarrow> ('k, 'v) hmap" where
  "hor_insert k v m = (case hget m k of None \<Rightarrow> hput k v m | Some _ \<Rightarrow> m)"

text \<open>Lookups stay lookups: the library would turn them into membership of the entry list.\<close>

declare map_of_eq_Some_iff [simp del]

lemma hget_hput [kim_map, simp]: "hget (hput k v m) k' = (if k' = k then Some v else hget m k')"
  by (simp add: update_conv')

lemma hget_hdel [kim_map, simp]: "hget (hdel k m) k' = (if k' = k then None else hget m k')"
  by (simp add: delete_conv')

lemma hget_hor_insert [kim_map]:
  "hget (hor_insert k v m) k' =
     (if k' = k then Some (case hget m k of None \<Rightarrow> v | Some w \<Rightarrow> w) else hget m k')"
  by (simp add: hor_insert_def split: option.split)

lemma hget_None_iff: "hget m k = None \<longleftrightarrow> k \<notin> hkeys m"
  by (induction m) auto

lemma hget_hretain [kim_map]:
  "hwf m \<Longrightarrow> hget (hretain P m) k =
     (case hget m k of None \<Rightarrow> None | Some v \<Rightarrow> if P k v then Some v else None)"
proof (induction m)
  case Nil
  then show ?case by (simp add: hretain_def)
next
  case (Cons kv m)
  obtain k' v' where kv: "kv = (k', v')" by fastforce
  have notin: "hget m k' = None" using Cons.prems kv by (simp add: map_of_eq_None_iff)
  have ih: "hget (hretain P m) k =
      (case hget m k of None \<Rightarrow> None | Some v \<Rightarrow> if P k v then Some v else None)"
    using Cons by simp
  show ?case
    using notin ih kv by (auto simp: hretain_def split: option.splits)
qed

lemma hwf_hput [kim_inv, intro]: "hwf m \<Longrightarrow> hwf (hput k v m)"
  by (rule distinct_update)

lemma hwf_hdel [kim_inv, intro]: "hwf m \<Longrightarrow> hwf (hdel k m)"
  by (rule distinct_delete)

lemma hwf_hretain [kim_inv, intro]: "hwf m \<Longrightarrow> hwf (hretain P m)"
  by (simp add: hretain_def distinct_map_filter)

lemma hwf_hor_insert [kim_inv, intro]: "hwf m \<Longrightarrow> hwf (hor_insert k v m)"
  by (auto simp: hor_insert_def split: option.splits intro: distinct_update)

lemma hget_in_set: "hwf m \<Longrightarrow> hget m k = Some v \<longleftrightarrow> (k, v) \<in> set m"
  by (rule map_of_eq_Some_iff)

lemma hget_SomeD: "hget m k = Some v \<Longrightarrow> (k, v) \<in> set m"
  by (rule map_of_SomeD)

section \<open>Prefixes of a concatenation\<close>

lemma append_eq_shorter:
  "xs @ ys = us @ vs \<Longrightarrow> length xs < length us \<Longrightarrow> \<exists>q. us = xs @ q \<and> q \<noteq> [] \<and> ys = q @ vs"
  by (auto simp: append_eq_append_conv2)

lemma append_eq_longer:
  "xs @ ys = us @ vs \<Longrightarrow> \<not> length xs < length us \<Longrightarrow> \<exists>b. xs = us @ b \<and> b @ ys = vs"
  by (auto simp: append_eq_append_conv2)

section \<open>Strings\<close>

type_synonym byte = "8 word"

definition byte_of_char :: "char \<Rightarrow> byte" where
  "byte_of_char c = word_of_nat (of_char c)"

definition char_of_byte :: "byte \<Rightarrow> char" where
  "char_of_byte b = char_of (unat b)"

abbreviation bytes_of_str :: "string \<Rightarrow> byte list" where "bytes_of_str \<equiv> map byte_of_char"
abbreviation str_of_bytes :: "byte list \<Rightarrow> string" where "str_of_bytes \<equiv> map char_of_byte"

lemma char_of_byte_of_char [kim_codec, simp]: "char_of_byte (byte_of_char c) = c"
  by (simp add: byte_of_char_def char_of_byte_def unsigned_of_nat take_bit_eq_mod)

lemma str_of_bytes_of_str [kim_codec, simp]: "str_of_bytes (bytes_of_str s) = s"
  by (simp add: comp_def)

text \<open>
  \<open>str::trim\<close> strips Unicode \<open>White_Space\<close> at both ends. On UTF-8 bytes these are the five ASCII
  controls from U+0009 to U+000D, the space, and the encodings of U+0085, U+00A0, U+1680, U+2000 to
  U+200A, U+2028, U+2029, U+202F, U+205F and U+3000. A lead byte never occurs inside another
  character, so matching the encodings against the end of a valid string finds whole characters.
\<close>

definition ws1 :: "char \<Rightarrow> bool" where
  "ws1 a \<longleftrightarrow> (let n = (of_char a :: nat) in (9 \<le> n \<and> n \<le> 13) \<or> n = 32)"

definition ws2 :: "char \<Rightarrow> char \<Rightarrow> bool" where
  "ws2 a b \<longleftrightarrow> of_char a = (194::nat) \<and> of_char b \<in> {133, 160 :: nat}"

definition ws3 :: "char \<Rightarrow> char \<Rightarrow> char \<Rightarrow> bool" where
  "ws3 a b c \<longleftrightarrow> (let x = (of_char a :: nat); y = (of_char b :: nat); z = (of_char c :: nat) in
     (x = 225 \<and> y = 154 \<and> z = 128)
     \<or> (x = 226 \<and> y = 128 \<and> (128 \<le> z \<and> z \<le> 138 \<or> z = 168 \<or> z = 169 \<or> z = 175))
     \<or> (x = 226 \<and> y = 129 \<and> z = 159)
     \<or> (x = 227 \<and> y = 128 \<and> z = 128))"

fun trim_start :: "string \<Rightarrow> string" where
  "trim_start [] = []"
| "trim_start [a] = (if ws1 a then [] else [a])"
| "trim_start [a, b] =
     (if ws1 a then trim_start [b] else if ws2 a b then [] else [a, b])"
| "trim_start (a # b # c # s) =
     (if ws1 a then trim_start (b # c # s)
      else if ws2 a b then trim_start (c # s)
      else if ws3 a b c then trim_start s
      else a # b # c # s)"

fun trim_end_rev :: "string \<Rightarrow> string" where
  "trim_end_rev [] = []"
| "trim_end_rev [a] = (if ws1 a then [] else [a])"
| "trim_end_rev [b, a] =
     (if ws1 b then trim_end_rev [a] else if ws2 a b then [] else [b, a])"
| "trim_end_rev (c # b # a # s) =
     (if ws1 c then trim_end_rev (b # a # s)
      else if ws2 b c then trim_end_rev (a # s)
      else if ws3 a b c then trim_end_rev s
      else c # b # a # s)"

definition trim :: "string \<Rightarrow> string" where
  "trim s = rev (trim_end_rev (rev (trim_start s)))"

lemma set_trim_start: "set (trim_start s) \<subseteq> set s"
  by (induction s rule: trim_start.induct) auto

lemma set_trim_end_rev: "set (trim_end_rev s) \<subseteq> set s"
  by (induction s rule: trim_end_rev.induct) auto

lemma set_trim: "set (trim s) \<subseteq> set s"
  using set_trim_start[of s] set_trim_end_rev[of "rev (trim_start s)"] by (auto simp: trim_def)

lemma length_trim_start: "length (trim_start s) \<le> length s"
  by (induction s rule: trim_start.induct) auto

lemma length_trim_end_rev: "length (trim_end_rev s) \<le> length s"
  by (induction s rule: trim_end_rev.induct) auto

lemma length_trim: "length (trim s) \<le> length s"
  using length_trim_start[of s] length_trim_end_rev[of "rev (trim_start s)"]
  by (simp add: trim_def)

text \<open>A string without white-space bytes at the ends and without lead bytes is left alone.\<close>

definition plain_char :: "char \<Rightarrow> bool" where
  "plain_char a \<longleftrightarrow> \<not> ws1 a \<and> of_char a < (128::nat)"

lemma plain_not_ws: "plain_char a \<Longrightarrow> \<not> ws1 a \<and> \<not> ws2 a b \<and> \<not> ws3 a b c"
  by (auto simp: plain_char_def ws2_def ws3_def Let_def)

lemma plain_not_ws_end: "plain_char c \<Longrightarrow> \<not> ws1 c \<and> \<not> ws2 b c \<and> \<not> ws3 a b c"
  by (auto simp: plain_char_def ws2_def ws3_def Let_def)

lemma trim_start_plain: "list_all plain_char s \<Longrightarrow> trim_start s = s"
  by (cases s rule: trim_start.cases) (auto dest: plain_not_ws)

lemma trim_end_rev_plain: "list_all plain_char s \<Longrightarrow> trim_end_rev s = s"
  by (cases s rule: trim_end_rev.cases) (auto dest: plain_not_ws_end)

lemma trim_plain: "list_all plain_char s \<Longrightarrow> trim s = s"
  by (simp add: trim_def trim_start_plain trim_end_rev_plain list_all_iff)

definition is_ascii_alnum :: "char \<Rightarrow> bool" where
  "is_ascii_alnum c \<longleftrightarrow> (let n = (of_char c :: nat) in
     (48 \<le> n \<and> n \<le> 57) \<or> (65 \<le> n \<and> n \<le> 90) \<or> (97 \<le> n \<and> n \<le> 122))"

definition to_ascii_lower :: "char \<Rightarrow> char" where
  "to_ascii_lower c = (let n = (of_char c :: nat) in
     if 65 \<le> n \<and> n \<le> 90 then char_of (n + 32) else c)"

abbreviation to_ascii_lowercase :: "string \<Rightarrow> string" where
  "to_ascii_lowercase \<equiv> map to_ascii_lower"

definition eq_ignore_ascii_case :: "string \<Rightarrow> string \<Rightarrow> bool" where
  "eq_ignore_ascii_case s t \<longleftrightarrow> to_ascii_lowercase s = to_ascii_lowercase t"

text \<open>\<open>str::chars().count()\<close>: one character per byte that is not a UTF-8 continuation byte.\<close>

definition char_count :: "string \<Rightarrow> nat" where
  "char_count s = length (filter (\<lambda>c. let n = (of_char c :: nat) in \<not> (128 \<le> n \<and> n < 192)) s)"

lemma char_count_le: "char_count s \<le> length s"
  by (simp add: char_count_def)

text \<open>\<open>str::split_once\<close> and \<open>str::rsplit_once\<close> on an ASCII separator.\<close>

fun split_once :: "char \<Rightarrow> string \<Rightarrow> (string \<times> string) option" where
  "split_once d [] = None"
| "split_once d (c # s) =
     (if c = d then Some ([], s)
      else case split_once d s of None \<Rightarrow> None | Some (a, b) \<Rightarrow> Some (c # a, b))"

definition rsplit_once :: "char \<Rightarrow> string \<Rightarrow> (string \<times> string) option" where
  "rsplit_once d s = (case split_once d (rev s) of None \<Rightarrow> None | Some (b, a) \<Rightarrow> Some (rev a, rev b))"

lemma split_once_append: "d \<notin> set a \<Longrightarrow> split_once d (a @ d # b) = Some (a, b)"
  by (induction a) auto

lemma split_once_Some: "split_once d s = Some (a, b) \<Longrightarrow> s = a @ d # b \<and> d \<notin> set a"
  by (induction s arbitrary: a) (auto split: if_splits option.splits)

lemma rsplit_once_append: "d \<notin> set b \<Longrightarrow> rsplit_once d (a @ d # b) = Some (a, b)"
  using split_once_append[of d "rev b" "rev a"] by (simp add: rsplit_once_def)

section \<open>Integer codecs\<close>

definition put_u16_le :: "16 word \<Rightarrow> byte list" where
  "put_u16_le w = [ucast w, ucast (drop_bit 8 w)]"

definition from_u16_le :: "byte \<Rightarrow> byte \<Rightarrow> 16 word" where
  "from_u16_le a b = ucast a OR push_bit 8 (ucast b)"

definition put_u32_le :: "32 word \<Rightarrow> byte list" where
  "put_u32_le w = [ucast w, ucast (drop_bit 8 w), ucast (drop_bit 16 w), ucast (drop_bit 24 w)]"

definition from_u32_le :: "byte \<Rightarrow> byte \<Rightarrow> byte \<Rightarrow> byte \<Rightarrow> 32 word" where
  "from_u32_le a b c d =
     ucast a OR push_bit 8 (ucast b) OR push_bit 16 (ucast c) OR push_bit 24 (ucast d)"

definition put_u32_be :: "32 word \<Rightarrow> byte list" where
  "put_u32_be w = rev (put_u32_le w)"

definition from_u32_be :: "byte \<Rightarrow> byte \<Rightarrow> byte \<Rightarrow> byte \<Rightarrow> 32 word" where
  "from_u32_be a b c d = from_u32_le d c b a"

lemma length_put [simp]:
  "length (put_u16_le w) = 2" "length (put_u32_le v) = 4" "length (put_u32_be v) = 4"
  by (simp_all add: put_u16_le_def put_u32_le_def put_u32_be_def)

lemma from_put_u16_le [kim_codec, simp]:
  "from_u16_le (ucast w) (ucast (drop_bit 8 w)) = w"
  by (rule bit_word_eqI) (auto simp: from_u16_le_def bit_simps)

lemma from_put_u32_le [kim_codec, simp]:
  "from_u32_le (ucast w) (ucast (drop_bit 8 w)) (ucast (drop_bit 16 w)) (ucast (drop_bit 24 w)) = w"
proof (rule bit_word_eqI)
  fix n assume "n < LENGTH(32)"
  then have "n < 32" by simp
  then consider "n < 8" | "8 \<le> n" "n < 16" | "16 \<le> n" "n < 24" | "24 \<le> n" "n < 32"
    by linarith
  then show "bit (from_u32_le (ucast w) (ucast (drop_bit 8 w)) (ucast (drop_bit 16 w))
      (ucast (drop_bit 24 w))) n = bit w n"
    by cases (auto simp: from_u32_le_def bit_simps)
qed

lemma put_from_u32_le [kim_codec]:
  "put_u32_le (from_u32_le a b c d) = [a, b, c, d]"
proof -
  have "ucast (drop_bit k (from_u32_le a b c d)) = x"
    if "(k, x) \<in> {(0, a), (8, b), (16, c), (24, d)}" for k and x :: byte
    using that by (intro bit_word_eqI) (auto simp: from_u32_le_def bit_simps dest: bit_imp_le_length)
  from this[of 0 a] this[of 8 b] this[of 16 c] this[of 24 d] show ?thesis
    by (simp add: put_u32_le_def)
qed

lemma unat_u16_of_len: "n \<le> 65535 \<Longrightarrow> unat (word_of_nat n :: 16 word) = n"
  by (simp add: unsigned_of_nat take_bit_eq_mod)

lemma unat_u32_of_len: "n < 4294967296 \<Longrightarrow> unat (word_of_nat n :: 32 word) = n"
  by (simp add: unsigned_of_nat take_bit_eq_mod)

section \<open>Bounded integers\<close>

abbreviation i64_min :: int where "i64_min \<equiv> - 9223372036854775808"
abbreviation i64_max :: int where "i64_max \<equiv> 9223372036854775807"
abbreviation i32_max :: int where "i32_max \<equiv> 2147483647"
abbreviation u32_max :: nat where "u32_max \<equiv> 4294967295"
abbreviation u64_max :: nat where "u64_max \<equiv> 18446744073709551615"

definition i64_saturating_sub :: "int \<Rightarrow> int \<Rightarrow> int" where
  "i64_saturating_sub a b = max i64_min (min i64_max (a - b))"

definition i32_saturating_add :: "int \<Rightarrow> int \<Rightarrow> int" where
  "i32_saturating_add a b = max (- 2147483648) (min i32_max (a + b))"

definition u32_saturating_add :: "nat \<Rightarrow> nat \<Rightarrow> nat" where
  "u32_saturating_add a b = min u32_max (a + b)"

definition u64_saturating_add :: "nat \<Rightarrow> nat \<Rightarrow> nat" where
  "u64_saturating_add a b = min u64_max (a + b)"

section \<open>Filter-map and sorting\<close>

lemma set_map_filter: "set (List.map_filter f xs) = {y. \<exists>x \<in> set xs. f x = Some y}"
  by (induction xs) (auto split: option.splits)

lemma map_filter_all: "(\<And>x. x \<in> set xs \<Longrightarrow> f x = Some (g x)) \<Longrightarrow> List.map_filter f xs = map g xs"
  by (induction xs) auto

lemma take_sorted_le:
  assumes "sorted (map f xs)" "x \<in> set (take n xs)" "y \<in> set (drop n xs)"
  shows "f x \<le> f y"
proof -
  have "sorted (map f (take n xs @ drop n xs))" using assms(1) by simp
  then show ?thesis using assms(2,3) unfolding map_append sorted_append by auto
qed

section \<open>The deduplication loop\<close>

text \<open>
  \<open>for x in xs { if seen.insert(x) { out.push(x) } }\<close>: keeps the first occurrence of each element,
  in order. It is the loop of \<open>unique_accounts\<close>, \<open>normalize_members\<close> and \<open>collect_ack_ids\<close>.
\<close>

fun dedup_loop :: "'a list \<Rightarrow> 'a set \<Rightarrow> 'a list \<Rightarrow> 'a list" where
  "dedup_loop [] seen out = out"
| "dedup_loop (x # xs) seen out =
     (if x \<in> seen then dedup_loop xs seen out else dedup_loop xs (insert x seen) (out @ [x]))"

lemma set_dedup_loop: "set (dedup_loop xs seen out) = set out \<union> (set xs - seen)"
  by (induction xs seen out rule: dedup_loop.induct) auto

lemma distinct_dedup_loop:
  "distinct out \<Longrightarrow> set out \<subseteq> seen \<Longrightarrow> distinct (dedup_loop xs seen out)"
  by (induction xs seen out rule: dedup_loop.induct) auto

lemma dedup_loop_distinct:
  "distinct xs \<Longrightarrow> set xs \<inter> seen = {} \<Longrightarrow> dedup_loop xs seen out = out @ xs"
  by (induction xs seen out rule: dedup_loop.induct) auto

lemma dedup_loop_out: "dedup_loop xs seen out = out @ dedup_loop xs seen []"
proof (induction xs arbitrary: seen out)
  case Nil
  then show ?case by simp
next
  case (Cons x xs)
  show ?case
    by (simp add: Cons.IH[of "insert x seen" "out @ [x]"] Cons.IH[of "insert x seen" "[x]"]
        Cons.IH[of seen out])
qed

section \<open>Decimal numbers\<close>

text \<open>\<open>ToString\<close> of an integer, and \<open>str::parse\<close> for the signed integer types: an optional sign,
  at least one digit, nothing else, and a value within the type's range.\<close>

definition digit :: "nat \<Rightarrow> char" where
  "digit n = char_of (48 + n)"

fun show_nat :: "nat \<Rightarrow> string" where
  "show_nat n = (if n < 10 then [digit n] else show_nat (n div 10) @ [digit (n mod 10)])"

declare show_nat.simps [simp del]

definition show_int :: "int \<Rightarrow> string" where
  "show_int i = (if i < 0 then CHR ''-'' # show_nat (nat (- i)) else show_nat (nat i))"

definition is_digit :: "char \<Rightarrow> bool" where
  "is_digit c \<longleftrightarrow> (let n = (of_char c :: nat) in 48 \<le> n \<and> n \<le> 57)"

definition digits_value :: "string \<Rightarrow> nat" where
  "digits_value s = foldl (\<lambda>acc c. 10 * acc + (of_char c - 48)) 0 s"

definition parse_digits :: "string \<Rightarrow> nat option" where
  "parse_digits s = (if s \<noteq> [] \<and> list_all is_digit s then Some (digits_value s) else None)"

definition parse_int :: "int \<Rightarrow> int \<Rightarrow> string \<Rightarrow> int option" where
  "parse_int lo hi s =
     (let v = (case s of
          [] \<Rightarrow> None
        | c # ds \<Rightarrow>
            if c = CHR ''-'' then map_option (\<lambda>n. - int n) (parse_digits ds)
            else if c = CHR ''+'' then map_option int (parse_digits ds)
            else map_option int (parse_digits s))
      in case v of None \<Rightarrow> None | Some i \<Rightarrow> if lo \<le> i \<and> i \<le> hi then Some i else None)"

lemma of_char_digit: "n < 10 \<Longrightarrow> of_char (digit n) = 48 + n"
  by (simp add: digit_def)

lemma is_digit_digit: "n < 10 \<Longrightarrow> is_digit (digit n)"
  by (simp add: is_digit_def of_char_digit)

lemma show_nat_digits: "show_nat n \<noteq> [] \<and> list_all is_digit (show_nat n)"
proof (induction n rule: show_nat.induct)
  case (1 n)
  then show ?case
    by (simp add: show_nat.simps[of n] is_digit_digit)
qed

lemma digits_value_show_nat: "digits_value (show_nat n) = n"
proof (induction n rule: show_nat.induct)
  case (1 n)
  then show ?case
    by (simp add: show_nat.simps[of n] digits_value_def of_char_digit)
qed

lemma parse_digits_show_nat [kim_codec, simp]: "parse_digits (show_nat n) = Some n"
  using show_nat_digits[of n] by (simp add: parse_digits_def digits_value_show_nat)

lemma show_nat_not_sign: "show_nat n = c # s \<Longrightarrow> c \<noteq> CHR ''-'' \<and> c \<noteq> CHR ''+''"
  using show_nat_digits[of n] by (auto simp: is_digit_def)

lemma parse_int_show_int [kim_codec]:
  assumes "lo \<le> i" "i \<le> hi"
  shows "parse_int lo hi (show_int i) = Some i"
proof (cases "i < 0")
  case True
  then show ?thesis using assms by (simp add: parse_int_def show_int_def)
next
  case False
  obtain c s where cs: "show_nat (nat i) = c # s"
    using show_nat_digits[of "nat i"] by (cases "show_nat (nat i)") auto
  then have "parse_digits (c # s) = Some (nat i)" by (metis parse_digits_show_nat)
  then show ?thesis
    using False cs show_nat_not_sign[OF cs] assms by (simp add: parse_int_def show_int_def)
qed

lemma show_nat_no_char: "\<not> is_digit c \<Longrightarrow> c \<notin> set (show_nat n)"
  using show_nat_digits[of n] unfolding list_all_iff by metis

lemma show_int_no_char: "\<not> is_digit c \<Longrightarrow> c \<noteq> CHR ''-'' \<Longrightarrow> c \<notin> set (show_int i)"
  unfolding show_int_def by (cases "i < 0") (use show_nat_no_char in \<open>metis set_ConsD\<close>)+

lemma show_int_inj: "show_int i = show_int j \<Longrightarrow> i = j"
  using parse_int_show_int[of "min i j" i "max i j"] parse_int_show_int[of "min i j" j "max i j"]
  by (metis max.cobounded1 max.cobounded2 min.cobounded1 min.cobounded2 option.inject)

end
