(* ===== verification/Kim_Protocol.thy ===== *)
theory Kim_Protocol
  imports Kim_Prelude
begin

text \<open>
  The packets of \<open>crates/kim-protocol\<close> and the TCP framing of \<open>crates/kim-tcp/src/codec.rs\<close>:
  opcodes, frames and the resynchronising \<open>decode_frame\<close>; \<open>BasicPkt\<close>, \<open>LogicPkt\<close> and the
  magic-number dispatch of \<open>read\<close>; the closed command vocabulary; the identity parsers.
  The protobuf codec of the packet header is generated by a third-party crate: it is the pair of
  parameters \<open>enc_header\<close>, \<open>dec_header\<close>, and round trips assume that decoding undoes encoding.
\<close>

section \<open>Opcodes and frames\<close>

datatype OpCode = Continuation | Text | Binary | Close | Ping | Pong

definition OpCode_from_u8 :: "byte \<Rightarrow> OpCode option" where
  "OpCode_from_u8 n =
     (if n = 0 then Some Continuation
      else if n = 1 then Some Text
      else if n = 2 then Some Binary
      else if n = 8 then Some Close
      else if n = 9 then Some Ping
      else if n = 10 then Some Pong
      else None)"

fun u8_from_OpCode :: "OpCode \<Rightarrow> byte" where
  "u8_from_OpCode Continuation = 0"
| "u8_from_OpCode Text = 1"
| "u8_from_OpCode Binary = 2"
| "u8_from_OpCode Close = 8"
| "u8_from_OpCode Ping = 9"
| "u8_from_OpCode Pong = 10"

lemma OpCode_roundtrip [kim_codec, simp]: "OpCode_from_u8 (u8_from_OpCode c) = Some c"
  by (cases c) (simp_all add: OpCode_from_u8_def)

lemma OpCode_from_u8_Some: "OpCode_from_u8 n = Some c \<Longrightarrow> n = u8_from_OpCode c"
  by (auto simp: OpCode_from_u8_def split: if_splits)

record Frame =
  opcode :: OpCode
  payload :: "byte list"

datatype CoreError =
    FrameTooLarge nat nat
  | Closed
  | CoreOther string

definition HEADER_LEN :: nat where "HEADER_LEN = 5"
definition MAX_PAYLOAD :: nat where "MAX_PAYLOAD = 1024 * 1024"

definition header_bytes :: "OpCode \<Rightarrow> nat \<Rightarrow> byte list" where
  "header_bytes oc payload_len = u8_from_OpCode oc # put_u32_le (word_of_nat payload_len)"

definition encode_frame :: "OpCode \<Rightarrow> byte list \<Rightarrow> byte list" where
  "encode_frame oc pl = [u8_from_OpCode oc] @ put_u32_le (word_of_nat (length pl)) @ pl"

definition peek_len :: "byte list \<Rightarrow> nat" where
  "peek_len buf = unat (from_u32_le (buf ! 1) (buf ! 2) (buf ! 3) (buf ! 4))"

text \<open>The buffer is threaded: the second component is what \<open>decode_frame\<close> leaves in it. An unknown
  opcode has already consumed its byte when the error is returned.\<close>

definition decode_frame :: "byte list \<Rightarrow> (CoreError, Frame option) result \<times> byte list" where
  "decode_frame buf =
     (if length buf < HEADER_LEN then (Ok None, buf)
      else let len = peek_len buf in
        if len > MAX_PAYLOAD then (Err (FrameTooLarge len MAX_PAYLOAD), buf)
        else if length buf < HEADER_LEN + len then (Ok None, buf)
        else let opcode_raw = buf ! 0; buf1 = drop 1 buf in
          (case OpCode_from_u8 opcode_raw of
             None \<Rightarrow> (Err (CoreOther (''unknown opcode '' @ show_nat (unat opcode_raw))), buf1)
           | Some oc \<Rightarrow>
               let buf2 = drop 4 buf1 in
               (Ok (Some \<lparr>opcode = oc, payload = take len buf2\<rparr>), drop len buf2)))"

text \<open>
  \<open>fill_and_decode\<close> of \<open>kim-tcp/src/conn.rs\<close>: try to cut a frame, otherwise read more. The socket is
  the list of byte chunks its successive reads return; an empty chunk, or the end of the list, is the
  read of zero bytes that means the peer closed.
\<close>

fun fill_and_decode ::
  "byte list list \<Rightarrow> byte list \<Rightarrow> (CoreError, Frame) result \<times> byte list list \<times> byte list" where
  "fill_and_decode [] buf =
     (case decode_frame buf of
        (Inl e, buf') \<Rightarrow> (Err e, [], buf')
      | (Inr (Some f), buf') \<Rightarrow> (Ok f, [], buf')
      | (Inr None, buf') \<Rightarrow> (Err Closed, [], buf'))"
| "fill_and_decode (c # cs) buf =
     (case decode_frame buf of
        (Inl e, buf') \<Rightarrow> (Err e, c # cs, buf')
      | (Inr (Some f), buf') \<Rightarrow> (Ok f, c # cs, buf')
      | (Inr None, buf') \<Rightarrow>
          if c = [] then (Err Closed, cs, buf') else fill_and_decode cs (buf' @ c))"

text \<open>\<open>write_frame_parts\<close>: the header, then the payload.\<close>

definition write_frame_parts :: "byte list \<Rightarrow> OpCode \<Rightarrow> byte list \<Rightarrow> byte list" where
  "write_frame_parts out oc pl = (out @ header_bytes oc (length pl)) @ pl"

text \<open>\<open>n\<close> successive \<open>read_frame\<close> calls on one connection.\<close>

fun read_frames :: "nat \<Rightarrow> byte list list \<Rightarrow> byte list \<Rightarrow> (CoreError, Frame) result list" where
  "read_frames 0 cs buf = []"
| "read_frames (Suc n) cs buf =
     (let (r, cs', buf') = fill_and_decode cs buf in r # read_frames n cs' buf')"

lemma encode_frame_header: "encode_frame oc pl = header_bytes oc (length pl) @ pl"
  by (simp add: encode_frame_def header_bytes_def)

lemma length_encode_frame: "length (encode_frame oc pl) = HEADER_LEN + length pl"
  by (simp add: encode_frame_def HEADER_LEN_def)

lemma peek_len_encode:
  "length pl < 4294967296 \<Longrightarrow> peek_len (encode_frame oc pl @ tl_bytes) = length pl"
  by (simp add: peek_len_def encode_frame_def put_u32_le_def unat_u32_of_len)

lemma decode_encode_frame:
  assumes "length pl \<le> MAX_PAYLOAD"
  shows "decode_frame (encode_frame oc pl @ r) = (Ok (Some \<lparr>opcode = oc, payload = pl\<rparr>), r)"
proof -
  have peek: "peek_len (encode_frame oc pl @ r) = length pl"
    using assms by (intro peek_len_encode) (simp add: MAX_PAYLOAD_def)
  have parts: "(encode_frame oc pl @ r) ! 0 = u8_from_OpCode oc"
    "drop 5 (encode_frame oc pl @ r) = pl @ r"
    by (simp_all add: encode_frame_def put_u32_le_def)
  show ?thesis
    using assms peek parts
    by (simp add: decode_frame_def length_encode_frame HEADER_LEN_def Let_def)
qed

lemma peek_len_prefix: "5 \<le> length p \<Longrightarrow> peek_len (p @ q) = peek_len p"
  by (simp add: peek_len_def nth_append)

lemma decode_frame_proper_prefix:
  assumes "length pl \<le> MAX_PAYLOAD" and "encode_frame oc pl = p @ q" and "q \<noteq> []"
  shows "decode_frame p = (Ok None, p)"
proof (cases "length p < HEADER_LEN")
  case True
  then show ?thesis by (simp add: decode_frame_def)
next
  case False
  have len: "peek_len (p @ q) = length pl"
    using peek_len_encode[of pl oc "[]"] assms by (simp add: MAX_PAYLOAD_def)
  then have len': "peek_len p = length pl"
    using False by (simp add: peek_len_prefix HEADER_LEN_def)
  have "length p + length q = HEADER_LEN + length pl"
    using length_encode_frame[of oc pl] assms(2) by simp
  then have "length p < HEADER_LEN + length pl" using assms(3) by (cases q) auto
  then show ?thesis using False len' assms(1) by (simp add: decode_frame_def)
qed

definition encode_frames :: "Frame list \<Rightarrow> byte list" where
  "encode_frames fs = foldl (\<lambda>out f. write_frame_parts out (opcode f) (payload f)) [] fs"

lemma foldl_write_frames:
  "foldl (\<lambda>out f. write_frame_parts out (opcode f) (payload f)) out fs
     = out @ concat (map (\<lambda>f. encode_frame (opcode f) (payload f)) fs)"
  by (induction fs arbitrary: out) (simp_all add: write_frame_parts_def encode_frame_header)

lemma encode_frames_simps [simp]:
  "encode_frames [] = []"
  "encode_frames (f # fs) = encode_frame (opcode f) (payload f) @ encode_frames fs"
  by (simp_all only: encode_frames_def foldl_write_frames) simp_all

lemma fill_and_decode_frame:
  assumes "length pl \<le> MAX_PAYLOAD" and "[] \<notin> set cs"
    and "buf @ concat cs = encode_frame oc pl @ r"
  shows "\<exists>cs' buf'. fill_and_decode cs buf = (Ok \<lparr>opcode = oc, payload = pl\<rparr>, cs', buf')
    \<and> buf' @ concat cs' = r \<and> [] \<notin> set cs'"
  using assms(2,3)
proof (induction cs arbitrary: buf)
  case Nil
  then show ?case using decode_encode_frame[OF assms(1)] by simp
next
  case (Cons c cs)
  show ?case
  proof (cases "length buf < length (encode_frame oc pl)")
    case True
    then obtain q where q: "encode_frame oc pl = buf @ q" "q \<noteq> []"
      using append_eq_shorter[OF Cons.prems(2)] by blast
    have "decode_frame buf = (Ok None, buf)"
      by (rule decode_frame_proper_prefix[OF assms(1) q])
    then show ?thesis using Cons.IH[of "buf @ c"] Cons.prems by auto
  next
    case False
    then obtain b where b: "buf = encode_frame oc pl @ b" "b @ concat (c # cs) = r"
      using append_eq_longer[OF Cons.prems(2)] by blast
    then show ?thesis using Cons.prems(1) decode_encode_frame[OF assms(1)] by simp
  qed
qed

text \<open>C13: Framing round trip: whatever frames are written to a connection (each within the payload
  limit), and however the transport cuts the byte stream into chunks, the reader returns exactly
  those frames in order and then reports the close.\<close>

theorem read_frames_stream:
  assumes "\<forall>f \<in> set fs. length (payload f) \<le> MAX_PAYLOAD" and "[] \<notin> set cs"
    and "buf @ concat cs = encode_frames fs"
  shows "read_frames (Suc (length fs)) cs buf = map Ok fs @ [Err Closed]"
  using assms
proof (induction fs arbitrary: cs buf)
  case Nil
  then have "buf = []" "cs = []" by (cases cs; auto)+
  then show ?case by (simp add: decode_frame_def HEADER_LEN_def)
next
  case (Cons f fs)
  obtain cs' buf' where step: "fill_and_decode cs buf = (Ok f, cs', buf')"
    "buf' @ concat cs' = encode_frames fs" "[] \<notin> set cs'"
    using fill_and_decode_frame[of "payload f" cs buf "opcode f" "encode_frames fs"] Cons.prems
    by auto
  then have "read_frames (Suc (length fs)) cs' buf' = map Ok fs @ [Err Closed]"
    using Cons by auto
  then show ?case using step(1) by simp
qed

theorem read_frames_stream_witness:
  "read_frames 3 [[1, 3, 0], [0, 0, 10, 20], [30, 9, 0, 0, 0, 0]] []
     = [Ok \<lparr>opcode = Text, payload = [10, 20, 30]\<rparr>, Ok \<lparr>opcode = Ping, payload = []\<rparr>, Err Closed]"
  using read_frames_stream[of "[\<lparr>opcode = Text, payload = [10, 20, 30]\<rparr>, \<lparr>opcode = Ping, payload = []\<rparr>]"
      "[[1, 3, 0], [0, 0, 10, 20], [30, 9, 0, 0, 0, 0]]" "[]"]
  by (simp add: MAX_PAYLOAD_def encode_frame_def put_u32_le_def numeral_3_eq_3)

lemma decode_frame_cases:
  assumes "decode_frame buf = (Ok (Some f), r)"
  shows "HEADER_LEN + peek_len buf \<le> length buf" "peek_len buf \<le> MAX_PAYLOAD"
    "OpCode_from_u8 (buf ! 0) = Some (opcode f)" "payload f = take (peek_len buf) (drop 5 buf)"
    "r = drop (peek_len buf) (drop 5 buf)"
  using assms
  by (auto simp: decode_frame_def Let_def HEADER_LEN_def split: if_splits option.splits)

lemma five_bytes: "5 \<le> length xs \<Longrightarrow> xs = [xs ! 0, xs ! 1, xs ! 2, xs ! 3, xs ! 4] @ drop 5 xs"
  by (cases xs; cases "tl xs"; cases "tl (tl xs)"; cases "tl (tl (tl xs))"; cases "tl (tl (tl (tl xs)))") auto

text \<open>Decoder soundness on arbitrary (hostile) input: a frame is returned only when the buffer
  begins with exactly that frame's encoding, what is left in the buffer is the rest, and the
  payload respects the limit.\<close>

theorem decode_frame_sound:
  assumes "decode_frame buf = (Ok (Some f), r)"
  shows "buf = encode_frame (opcode f) (payload f) @ r \<and> length (payload f) \<le> MAX_PAYLOAD"
proof -
  note dc = decode_frame_cases[OF assms]
  have len: "length (payload f) = peek_len buf" using dc(1,4) by (simp add: HEADER_LEN_def)
  have "word_of_nat (peek_len buf) = from_u32_le (buf ! 1) (buf ! 2) (buf ! 3) (buf ! 4)"
    by (simp add: peek_len_def)
  then have "put_u32_le (word_of_nat (length (payload f))) = [buf ! 1, buf ! 2, buf ! 3, buf ! 4]"
    by (simp add: len put_from_u32_le)
  moreover have "buf ! 0 = u8_from_OpCode (opcode f)" using OpCode_from_u8_Some[OF dc(3)] by simp
  moreover have "payload f @ r = drop 5 buf" unfolding dc(4,5) by (rule append_take_drop_id)
  ultimately have "encode_frame (opcode f) (payload f) @ r
      = [buf ! 0, buf ! 1, buf ! 2, buf ! 3, buf ! 4] @ drop 5 buf"
    by (simp add: encode_frame_def)
  then show ?thesis using dc(1,2) len five_bytes[of buf] by (simp add: HEADER_LEN_def)
qed

theorem decode_frame_sound_witness:
  "([8, 1, 0, 0, 0, 7, 5] :: byte list) = encode_frame Close [7] @ [5] \<and> length ([7] :: byte list) \<le> MAX_PAYLOAD"
  using decode_frame_sound[of "[8, 1, 0, 0, 0, 7, 5]" "\<lparr>opcode = Close, payload = [7]\<rparr>" "[5]"]
  by (simp add: decode_frame_def HEADER_LEN_def MAX_PAYLOAD_def peek_len_def from_u32_le_def
      OpCode_from_u8_def Let_def)

section \<open>Packet errors, magic numbers\<close>

datatype 'e ProtocolError =
    BadMagic
  | Incomplete
  | BasicTooLarge nat
  | NotLogic
  | Prost 'e
  | TokenExpired
  | TokenSignature
  | InvalidToken
  | InvalidAccount
  | InvalidChannelId
  | InvalidGatewayId
  | InvalidDest
  | InvalidHmacSecret

definition MAGIC_LOGIC_PKT :: "byte list" where "MAGIC_LOGIC_PKT = [0xc3, 0x11, 0xa3, 0x65]"
definition MAGIC_BASIC_PKT :: "byte list" where "MAGIC_BASIC_PKT = [0xc3, 0x15, 0xa7, 0x65]"

section \<open>Basic packets\<close>

record BasicPkt =
  bp_code :: "16 word"
  bp_body :: "byte list"

definition CODE_PING :: "16 word" where "CODE_PING = 1"
definition CODE_PONG :: "16 word" where "CODE_PONG = 2"
definition MAX_BASIC_BODY :: nat where "MAX_BASIC_BODY = 4096"

definition BasicPkt_ping :: BasicPkt where
  "BasicPkt_ping = \<lparr>bp_code = CODE_PING, bp_body = []\<rparr>"

definition BasicPkt_pong :: BasicPkt where
  "BasicPkt_pong = \<lparr>bp_code = CODE_PONG, bp_body = []\<rparr>"

definition BasicPkt_encode :: "BasicPkt \<Rightarrow> byte list" where
  "BasicPkt_encode p = MAGIC_BASIC_PKT @ put_u16_le (bp_code p)
     @ put_u16_le (word_of_nat (length (bp_body p))) @ bp_body p"

definition BasicPkt_decode :: "byte list \<Rightarrow> ('e ProtocolError, BasicPkt) result" where
  "BasicPkt_decode rest =
     (if length rest < 4 then Err Incomplete
      else let code = from_u16_le (rest ! 0) (rest ! 1);
               len = unat (from_u16_le (rest ! 2) (rest ! 3)) in
        if len > MAX_BASIC_BODY then Err (BasicTooLarge len)
        else if length rest < 4 + len then Err Incomplete
        else Ok \<lparr>bp_code = code, bp_body = take len (drop 4 rest)\<rparr>)"

lemma BasicPkt_roundtrip [kim_codec]:
  assumes "length (bp_body p) \<le> MAX_BASIC_BODY"
  shows "BasicPkt_decode (drop 4 (BasicPkt_encode p) @ extra) = Ok p"
proof -
  have "unat (word_of_nat (length (bp_body p)) :: 16 word) = length (bp_body p)"
    using assms by (intro unat_u16_of_len) (simp add: MAX_BASIC_BODY_def)
  then show ?thesis
    using assms
    by (simp add: BasicPkt_decode_def BasicPkt_encode_def MAGIC_BASIC_PKT_def put_u16_le_def Let_def)
qed

section \<open>Logic packets\<close>

record Meta =
  m_key :: string
  m_value :: string

datatype Flag = Request | Response | Push

datatype Status =
    Success | InvalidPacket | CommandNotFound | ServiceUnavailable | SystemException
  | InvalidPacketBody | InvalidCommand | Unauthorized | ContentBlocked | NotGroupMember
  | UserNotFound | NotFriends | Blocked | IdempotencyConflict | NotBotOwner | BotSocialDenied
  | NoDestination | SessionNotFound

record Header =
  h_command :: string
  h_channel_id :: string
  h_sequence :: "32 word"
  h_flag :: Flag
  h_status :: Status
  h_dest :: string
  h_body_length :: "32 word"
  h_meta :: "Meta list"

definition Header_default :: Header where
  "Header_default = \<lparr>h_command = [], h_channel_id = [], h_sequence = 0, h_flag = Request,
     h_status = Success, h_dest = [], h_body_length = 0, h_meta = []\<rparr>"

record LogicPkt =
  lp_header :: Header
  lp_body :: "byte list"

definition LogicPkt_new :: "string \<Rightarrow> 32 word \<Rightarrow> byte list \<Rightarrow> LogicPkt" where
  "LogicPkt_new command sequence body =
     \<lparr>lp_header = Header_default\<lparr>h_command := command, h_sequence := sequence,
        h_body_length := word_of_nat (length body)\<rparr>, lp_body = body\<rparr>"

definition LogicPkt_new_from :: "Header \<Rightarrow> LogicPkt" where
  "LogicPkt_new_from h = \<lparr>lp_header = h\<lparr>h_body_length := 0\<rparr>, lp_body = []\<rparr>"

text \<open>\<open>write_body\<close> takes the encoded message: the encoder is generated code.\<close>

definition LogicPkt_write_body :: "byte list \<Rightarrow> LogicPkt \<Rightarrow> LogicPkt" where
  "LogicPkt_write_body buf p =
     p\<lparr>lp_header := (lp_header p)\<lparr>h_body_length := word_of_nat (length buf)\<rparr>, lp_body := buf\<rparr>"

definition set_meta :: "string \<Rightarrow> string \<Rightarrow> LogicPkt \<Rightarrow> LogicPkt" where
  "set_meta key value p =
     p\<lparr>lp_header := (lp_header p)\<lparr>h_meta :=
        filter (\<lambda>m. m_key m \<noteq> key) (h_meta (lp_header p)) @ [\<lparr>m_key = key, m_value = value\<rparr>]\<rparr>\<rparr>"

definition get_meta :: "LogicPkt \<Rightarrow> string \<Rightarrow> string option" where
  "get_meta p key = map_option m_value (List.find (\<lambda>m. m_key m = key) (h_meta (lp_header p)))"

definition del_meta :: "string \<Rightarrow> LogicPkt \<Rightarrow> LogicPkt" where
  "del_meta key p =
     p\<lparr>lp_header := (lp_header p)\<lparr>h_meta := filter (\<lambda>m. m_key m \<noteq> key) (h_meta (lp_header p))\<rparr>\<rparr>"

definition set_dest :: "string \<Rightarrow> LogicPkt \<Rightarrow> LogicPkt" where
  "set_dest dest p = p\<lparr>lp_header := (lp_header p)\<lparr>h_dest := dest\<rparr>\<rparr>"

definition LogicPkt_encode :: "(Header \<Rightarrow> byte list) \<Rightarrow> LogicPkt \<Rightarrow> byte list" where
  "LogicPkt_encode enc_header p =
     (let header = enc_header (lp_header p) in
      MAGIC_LOGIC_PKT @ put_u32_be (word_of_nat (length header)) @ header @ lp_body p)"

definition LogicPkt_decode ::
  "(byte list \<Rightarrow> ('e, Header) result) \<Rightarrow> byte list \<Rightarrow> ('e ProtocolError, LogicPkt) result" where
  "LogicPkt_decode dec_header rest =
     (if length rest < 4 then Err Incomplete
      else let header_len = unat (from_u32_be (rest ! 0) (rest ! 1) (rest ! 2) (rest ! 3)) in
        if length rest < 4 + header_len then Err Incomplete
        else case dec_header (take header_len (drop 4 rest)) of
            Inl e \<Rightarrow> Err (Prost e)
          | Inr header \<Rightarrow>
              let body_start = 4 + header_len; need = unat (h_body_length header) in
              if length rest < body_start + need then Err Incomplete
              else Ok \<lparr>lp_header = header, lp_body = take need (drop body_start rest)\<rparr>)"

text \<open>The length field agrees with the body. Every constructor and setter keeps it.\<close>

definition logic_wf :: "LogicPkt \<Rightarrow> bool" where
  "logic_wf p \<longleftrightarrow> length (lp_body p) < 4294967296
     \<and> h_body_length (lp_header p) = word_of_nat (length (lp_body p))"

lemma logic_wf_intros [kim_inv]:
  "length body < 4294967296 \<Longrightarrow> logic_wf (LogicPkt_new command sequence body)"
  "logic_wf (LogicPkt_new_from h)"
  "length body < 4294967296 \<Longrightarrow> logic_wf (LogicPkt_write_body body p)"
  "logic_wf p \<Longrightarrow> logic_wf (set_meta k v p)"
  "logic_wf p \<Longrightarrow> logic_wf (del_meta k p)"
  "logic_wf p \<Longrightarrow> logic_wf (set_dest d p)"
  by (simp_all add: logic_wf_def LogicPkt_new_def LogicPkt_new_from_def LogicPkt_write_body_def
      set_meta_def del_meta_def set_dest_def)

lemma from_put_u32_be [kim_codec]:
  "from_u32_be (put_u32_be w ! 0) (put_u32_be w ! 1) (put_u32_be w ! 2) (put_u32_be w ! 3) = w"
  by (simp add: from_u32_be_def put_u32_be_def put_u32_le_def numeral_3_eq_3 numeral_2_eq_2)

lemma LogicPkt_roundtrip [kim_codec]:
  assumes codec: "dec_header (enc_header (lp_header p)) = Inr (lp_header p)"
    and small: "length (enc_header (lp_header p)) < 4294967296"
    and wf: "logic_wf p"
  shows "LogicPkt_decode dec_header (drop 4 (LogicPkt_encode enc_header p) @ extra) = Ok p"
proof -
  define h where "h = enc_header (lp_header p)"
  let ?hd = "put_u32_be (word_of_nat (length h))"
  have buf: "drop 4 (LogicPkt_encode enc_header p) @ extra = ?hd @ h @ lp_body p @ extra"
    by (simp add: LogicPkt_encode_def MAGIC_LOGIC_PKT_def h_def Let_def)
  have "(?hd @ h @ lp_body p @ extra) ! i = ?hd ! i" if "i < 4" for i
    using that by (simp add: nth_append)
  then have hlen: "unat (from_u32_be ((?hd @ h @ lp_body p @ extra) ! 0)
      ((?hd @ h @ lp_body p @ extra) ! 1) ((?hd @ h @ lp_body p @ extra) ! 2)
      ((?hd @ h @ lp_body p @ extra) ! 3)) = length h"
    using small by (simp add: from_put_u32_be[simplified] unat_u32_of_len h_def)
  have blen: "unat (h_body_length (lp_header p)) = length (lp_body p)"
    using wf by (simp add: logic_wf_def unat_u32_of_len)
  show ?thesis
    unfolding buf LogicPkt_decode_def hlen
    using codec blen by (simp add: h_def Let_def)
qed

section \<open>Dispatch on the magic number\<close>

datatype Packet = BasicPacket BasicPkt | LogicPacket LogicPkt

definition read_packet ::
  "(byte list \<Rightarrow> ('e, Header) result) \<Rightarrow> byte list \<Rightarrow> ('e ProtocolError, Packet) result" where
  "read_packet dec_header buf =
     (if length buf < 4 then Err Incomplete
      else let magic = take 4 buf; rest = drop 4 buf in
        if magic = MAGIC_BASIC_PKT then res_bind (BasicPkt_decode rest) (\<lambda>p. Ok (BasicPacket p))
        else if magic = MAGIC_LOGIC_PKT
          then res_bind (LogicPkt_decode dec_header rest) (\<lambda>p. Ok (LogicPacket p))
        else Err BadMagic)"

fun marshal :: "(Header \<Rightarrow> byte list) \<Rightarrow> Packet \<Rightarrow> byte list" where
  "marshal enc_header (BasicPacket p) = BasicPkt_encode p"
| "marshal enc_header (LogicPacket p) = LogicPkt_encode enc_header p"

definition read_logic ::
  "(byte list \<Rightarrow> ('e, Header) result) \<Rightarrow> byte list \<Rightarrow> ('e ProtocolError, LogicPkt) result" where
  "read_logic dec_header buf =
     res_bind (read_packet dec_header buf)
       (\<lambda>pkt. case pkt of LogicPacket p \<Rightarrow> Ok p | BasicPacket _ \<Rightarrow> Err NotLogic)"

definition logic_channel_id ::
  "(byte list \<Rightarrow> ('e, Header) result) \<Rightarrow> byte list \<Rightarrow> string option" where
  "logic_channel_id dec_header buf =
     (case read_logic dec_header buf of
        Inl _ \<Rightarrow> None
      | Inr p \<Rightarrow> if h_channel_id (lp_header p) = [] then None else Some (h_channel_id (lp_header p)))"

fun packet_wf :: "(Header \<Rightarrow> byte list) \<Rightarrow> Packet \<Rightarrow> bool" where
  "packet_wf enc_header (BasicPacket p) \<longleftrightarrow> length (bp_body p) \<le> MAX_BASIC_BODY"
| "packet_wf enc_header (LogicPacket p) \<longleftrightarrow>
     logic_wf p \<and> length (enc_header (lp_header p)) < 4294967296"

text \<open>Packet round trip: for any header codec that decodes what it encoded, reading a marshalled
  basic or logic packet (with arbitrary trailing bytes) gives the packet back, dispatching on the
  magic number.\<close>

theorem read_marshal:
  assumes codec: "\<forall>p. pkt = LogicPacket p \<longrightarrow> dec_header (enc_header (lp_header p)) = Inr (lp_header p)"
    and wf: "packet_wf enc_header pkt"
  shows "read_packet dec_header (marshal enc_header pkt @ extra) = Ok pkt"
proof (cases pkt)
  case (BasicPacket p)
  have "take 4 (BasicPkt_encode p @ extra) = MAGIC_BASIC_PKT"
    "drop 4 (BasicPkt_encode p @ extra) = drop 4 (BasicPkt_encode p) @ extra"
    "4 \<le> length (BasicPkt_encode p @ extra)"
    by (simp_all add: BasicPkt_encode_def MAGIC_BASIC_PKT_def)
  then show ?thesis
    using wf BasicPacket by (simp add: read_packet_def BasicPkt_roundtrip)
next
  case (LogicPacket p)
  have "take 4 (LogicPkt_encode enc_header p @ extra) = MAGIC_LOGIC_PKT"
    "drop 4 (LogicPkt_encode enc_header p @ extra) = drop 4 (LogicPkt_encode enc_header p) @ extra"
    "4 \<le> length (LogicPkt_encode enc_header p @ extra)"
    by (simp_all add: LogicPkt_encode_def MAGIC_LOGIC_PKT_def Let_def)
  moreover have "MAGIC_LOGIC_PKT \<noteq> MAGIC_BASIC_PKT"
    by (simp add: MAGIC_LOGIC_PKT_def MAGIC_BASIC_PKT_def)
  ultimately show ?thesis
    using wf LogicPacket codec by (simp add: read_packet_def LogicPkt_roundtrip)
qed

text \<open>A header codec for the witness: it carries the dest and the body length only.\<close>

definition demo_enc :: "Header \<Rightarrow> byte list" where
  "demo_enc h = put_u32_be (h_body_length h) @ bytes_of_str (h_dest h)"

definition demo_dec :: "byte list \<Rightarrow> (string, Header) result" where
  "demo_dec b = (if length b < 4 then Err ''short'' else
     Ok (Header_default\<lparr>h_body_length := from_u32_be (b ! 0) (b ! 1) (b ! 2) (b ! 3),
                        h_dest := str_of_bytes (drop 4 b)\<rparr>))"

theorem read_marshal_witness:
  "read_packet demo_dec (marshal demo_enc
      (LogicPacket \<lparr>lp_header = Header_default\<lparr>h_body_length := 2, h_dest := ''bob''\<rparr>, lp_body = [1, 2]\<rparr>) @ [9, 9])
   = Ok (LogicPacket \<lparr>lp_header = Header_default\<lparr>h_body_length := 2, h_dest := ''bob''\<rparr>, lp_body = [1, 2]\<rparr>)"
  by (rule read_marshal)
    (simp_all add: demo_enc_def demo_dec_def logic_wf_def from_u32_be_def put_u32_be_def
      put_u32_le_def from_u32_le_def Header_default_def)

section \<open>Meta entries\<close>

lemma find_filter_neq: "key \<noteq> k \<Longrightarrow>
  List.find (\<lambda>m. m_key m = key) (filter (\<lambda>m. m_key m \<noteq> k) ms) = List.find (\<lambda>m. m_key m = key) ms"
  by (induction ms) auto

lemma find_filter_eq: "List.find (\<lambda>m. m_key m = k) (filter (\<lambda>m. m_key m \<noteq> k) ms) = None"
  by (induction ms) auto

lemma find_append: "List.find P (xs @ ys) =
  (case List.find P xs of None \<Rightarrow> List.find P ys | Some x \<Rightarrow> Some x)"
  by (induction xs) auto

lemma get_set_meta: "get_meta (set_meta k v p) key = (if key = k then Some v else get_meta p key)"
  by (simp add: get_meta_def set_meta_def find_append find_filter_eq find_filter_neq split: option.split)

lemma get_del_meta: "get_meta (del_meta k p) key = (if key = k then None else get_meta p key)"
  by (simp add: get_meta_def del_meta_def find_filter_eq find_filter_neq)

lemma set_meta_unique:
  "length (filter (\<lambda>m. m_key m = k) (h_meta (lp_header (set_meta k v p)))) = 1"
  by (simp add: set_meta_def filter_filter)

section \<open>The command vocabulary\<close>

datatype Command =
    LoginSignIn
  | LoginSignOut
  | LoginRenew
  | DemoEcho
  | UserTalk
  | GroupTalk
  | GroupCreate
  | GroupJoin
  | GroupQuit
  | GroupInvite
  | GroupDetail
  | GroupMembers
  | TalkAck
  | OfflineIndex
  | OfflineContent
  | UserProfile
  | UserUpdate
  | UserUpdated
  | UserSearch
  | FriendRequest
  | FriendAccept
  | FriendReject
  | FriendRemove
  | FriendList
  | FriendIncoming
  | BlockAdd
  | BlockRemove
  | BlockList
  | InboxList
  | InboxRead
  | InboxStates
  | InboxReadSync
  | History
  | RoomEnter
  | RoomLeave
  | Presence
  | Typing
  | ReceiptRead
  | BotCreate
  | BotDelete
  | BotUpdate
  | BotReply
  | BotPending
  | BotTyping
  | AgentSpecSync
  | AgentSpecUpsert

fun Command_as_str :: "Command \<Rightarrow> string" where
  "Command_as_str LoginSignIn = ''login.signin''"
| "Command_as_str LoginSignOut = ''login.signout''"
| "Command_as_str LoginRenew = ''login.renew''"
| "Command_as_str DemoEcho = ''chat.demo.echo''"
| "Command_as_str UserTalk = ''chat.user.talk''"
| "Command_as_str GroupTalk = ''chat.group.talk''"
| "Command_as_str GroupCreate = ''chat.group.create''"
| "Command_as_str GroupJoin = ''chat.group.join''"
| "Command_as_str GroupQuit = ''chat.group.quit''"
| "Command_as_str GroupInvite = ''chat.group.invite''"
| "Command_as_str GroupDetail = ''chat.group.detail''"
| "Command_as_str GroupMembers = ''chat.group.members''"
| "Command_as_str TalkAck = ''chat.talk.ack''"
| "Command_as_str OfflineIndex = ''chat.offline.index''"
| "Command_as_str OfflineContent = ''chat.offline.content''"
| "Command_as_str UserProfile = ''chat.user.profile''"
| "Command_as_str UserUpdate = ''chat.user.update''"
| "Command_as_str UserUpdated = ''chat.user.updated''"
| "Command_as_str UserSearch = ''chat.user.search''"
| "Command_as_str FriendRequest = ''chat.friend.request''"
| "Command_as_str FriendAccept = ''chat.friend.accept''"
| "Command_as_str FriendReject = ''chat.friend.reject''"
| "Command_as_str FriendRemove = ''chat.friend.remove''"
| "Command_as_str FriendList = ''chat.friend.list''"
| "Command_as_str FriendIncoming = ''chat.friend.incoming''"
| "Command_as_str BlockAdd = ''chat.block.add''"
| "Command_as_str BlockRemove = ''chat.block.remove''"
| "Command_as_str BlockList = ''chat.block.list''"
| "Command_as_str InboxList = ''chat.inbox.list''"
| "Command_as_str InboxRead = ''chat.inbox.read''"
| "Command_as_str InboxStates = ''chat.inbox.states''"
| "Command_as_str InboxReadSync = ''chat.inbox.read.sync''"
| "Command_as_str History = ''chat.history''"
| "Command_as_str RoomEnter = ''chat.room.enter''"
| "Command_as_str RoomLeave = ''chat.room.leave''"
| "Command_as_str Presence = ''chat.presence''"
| "Command_as_str Typing = ''chat.typing''"
| "Command_as_str ReceiptRead = ''chat.receipt.read''"
| "Command_as_str BotCreate = ''chat.bot.create''"
| "Command_as_str BotDelete = ''chat.bot.delete''"
| "Command_as_str BotUpdate = ''chat.bot.update''"
| "Command_as_str BotReply = ''chat.bot.reply''"
| "Command_as_str BotPending = ''chat.bot.pending''"
| "Command_as_str BotTyping = ''chat.bot.typing''"
| "Command_as_str AgentSpecSync = ''chat.agent.spec.sync''"
| "Command_as_str AgentSpecUpsert = ''chat.agent.spec.upsert''"

definition Command_ALL :: "Command list" where
  "Command_ALL =
    [LoginSignIn, LoginSignOut, LoginRenew, DemoEcho, UserTalk, GroupTalk,
     GroupCreate, GroupJoin, GroupQuit, GroupInvite, GroupDetail, GroupMembers,
     TalkAck, OfflineIndex, OfflineContent, UserProfile, UserUpdate, UserUpdated,
     UserSearch, FriendRequest, FriendAccept, FriendReject, FriendRemove, FriendList,
     FriendIncoming, BlockAdd, BlockRemove, BlockList, InboxList, InboxRead,
     InboxStates, InboxReadSync, History, RoomEnter, RoomLeave, Presence,
     Typing, ReceiptRead, BotCreate, BotDelete, BotUpdate, BotReply,
     BotPending, BotTyping, AgentSpecSync, AgentSpecUpsert]"

definition Command_parse :: "string \<Rightarrow> Command option" where
  "Command_parse s =
    (if s = ''login.signin'' then Some LoginSignIn
     else if s = ''login.signout'' then Some LoginSignOut
     else if s = ''login.renew'' then Some LoginRenew
     else if s = ''chat.demo.echo'' then Some DemoEcho
     else if s = ''chat.user.talk'' then Some UserTalk
     else if s = ''chat.group.talk'' then Some GroupTalk
     else if s = ''chat.group.create'' then Some GroupCreate
     else if s = ''chat.group.join'' then Some GroupJoin
     else if s = ''chat.group.quit'' then Some GroupQuit
     else if s = ''chat.group.invite'' then Some GroupInvite
     else if s = ''chat.group.detail'' then Some GroupDetail
     else if s = ''chat.group.members'' then Some GroupMembers
     else if s = ''chat.talk.ack'' then Some TalkAck
     else if s = ''chat.offline.index'' then Some OfflineIndex
     else if s = ''chat.offline.content'' then Some OfflineContent
     else if s = ''chat.user.profile'' then Some UserProfile
     else if s = ''chat.user.update'' then Some UserUpdate
     else if s = ''chat.user.updated'' then Some UserUpdated
     else if s = ''chat.user.search'' then Some UserSearch
     else if s = ''chat.friend.request'' then Some FriendRequest
     else if s = ''chat.friend.accept'' then Some FriendAccept
     else if s = ''chat.friend.reject'' then Some FriendReject
     else if s = ''chat.friend.remove'' then Some FriendRemove
     else if s = ''chat.friend.list'' then Some FriendList
     else if s = ''chat.friend.incoming'' then Some FriendIncoming
     else if s = ''chat.block.add'' then Some BlockAdd
     else if s = ''chat.block.remove'' then Some BlockRemove
     else if s = ''chat.block.list'' then Some BlockList
     else if s = ''chat.inbox.list'' then Some InboxList
     else if s = ''chat.inbox.read'' then Some InboxRead
     else if s = ''chat.inbox.states'' then Some InboxStates
     else if s = ''chat.inbox.read.sync'' then Some InboxReadSync
     else if s = ''chat.history'' then Some History
     else if s = ''chat.room.enter'' then Some RoomEnter
     else if s = ''chat.room.leave'' then Some RoomLeave
     else if s = ''chat.presence'' then Some Presence
     else if s = ''chat.typing'' then Some Typing
     else if s = ''chat.receipt.read'' then Some ReceiptRead
     else if s = ''chat.bot.create'' then Some BotCreate
     else if s = ''chat.bot.delete'' then Some BotDelete
     else if s = ''chat.bot.update'' then Some BotUpdate
     else if s = ''chat.bot.reply'' then Some BotReply
     else if s = ''chat.bot.pending'' then Some BotPending
     else if s = ''chat.bot.typing'' then Some BotTyping
     else if s = ''chat.agent.spec.sync'' then Some AgentSpecSync
     else if s = ''chat.agent.spec.upsert'' then Some AgentSpecUpsert
     else None)"

lemma Command_parse_as_str: "Command_parse (Command_as_str c) = Some c"
  by (cases c) (simp_all add: Command_parse_def)

lemma Command_parse_Some: "Command_parse s = Some c \<Longrightarrow> Command_as_str c = s"
  by (simp add: Command_parse_def split: if_splits)

lemma Command_ALL_complete: "set Command_ALL = UNIV" "distinct Command_ALL"
proof -
  have "c \<in> set Command_ALL" for c by (cases c) (simp_all add: Command_ALL_def)
  then show "set Command_ALL = UNIV" by blast
  show "distinct Command_ALL" by (simp add: Command_ALL_def)
qed

text \<open>The command vocabulary is closed: a string parses as a command exactly when it is the wire
  name of that command, so parsing and printing are inverse and no two commands share a name.\<close>

theorem Command_parse_iff: "Command_parse s = Some c \<longleftrightarrow> s = Command_as_str c"
  using Command_parse_as_str Command_parse_Some by metis

text \<open>\<open>service_name\<close>: the path segment before the first dot.\<close>

definition service_name :: "string \<Rightarrow> string" where
  "service_name command =
     (case split_once (CHR ''.'') command of None \<Rightarrow> ''default'' | Some (s, _) \<Rightarrow> s)"

definition SN_CHAT :: string where "SN_CHAT = ''chat''"
definition SN_LOGIN :: string where "SN_LOGIN = ''chat''"

definition PROFILE_KIND_USER :: int where "PROFILE_KIND_USER = 1"
definition PROFILE_KIND_BOT :: int where "PROFILE_KIND_BOT = 2"

definition profile_kind :: "int \<Rightarrow> int" where
  "profile_kind kind = (if kind = PROFILE_KIND_BOT then PROFILE_KIND_BOT else PROFILE_KIND_USER)"

definition META_DEST_SERVER :: string where "META_DEST_SERVER = ''dest.server''"
definition META_DEST_CHANNELS :: string where "META_DEST_CHANNELS = ''dest.channels''"
definition META_APP :: string where "META_APP = ''app''"
definition META_ACCOUNT :: string where "META_ACCOUNT = ''account''"

lemma service_name_login_or_chat:
  "service_name (Command_as_str c) =
     (if c \<in> {LoginSignIn, LoginSignOut, LoginRenew} then ''login'' else SN_CHAT)"
  by (cases c) (simp_all add: service_name_def SN_CHAT_def)

section \<open>Identities\<close>

definition ACCOUNT_MIN :: nat where "ACCOUNT_MIN = 3"
definition ACCOUNT_MAX :: nat where "ACCOUNT_MAX = 32"

definition account_char :: "char \<Rightarrow> bool" where
  "account_char c \<longleftrightarrow> is_ascii_alnum c \<or> c = CHR ''_''"

definition AccountId_parse :: "string \<Rightarrow> ('e ProtocolError, string) result" where
  "AccountId_parse s0 =
     (let s = trim s0 in
      if length s < ACCOUNT_MIN \<or> length s > ACCOUNT_MAX then Err InvalidAccount
      else if \<not> list_all account_char s then Err InvalidAccount
      else Ok s)"

definition nonempty_id_parse ::
  "'e ProtocolError \<Rightarrow> string \<Rightarrow> ('e ProtocolError, string) result" where
  "nonempty_id_parse err s0 = (let s = trim s0 in if s = [] then Err err else Ok s)"

definition ChannelId_parse :: "string \<Rightarrow> ('e ProtocolError, string) result" where
  "ChannelId_parse = nonempty_id_parse InvalidChannelId"

definition GatewayId_parse :: "string \<Rightarrow> ('e ProtocolError, string) result" where
  "GatewayId_parse = nonempty_id_parse InvalidGatewayId"

definition DestId_parse :: "string \<Rightarrow> ('e ProtocolError, string) result" where
  "DestId_parse = nonempty_id_parse InvalidDest"

lemma account_char_plain: "account_char c \<Longrightarrow> plain_char c"
  by (auto simp: account_char_def plain_char_def is_ascii_alnum_def ws1_def Let_def)

lemma AccountId_parse_Ok:
  "AccountId_parse s0 = Ok a \<Longrightarrow>
     3 \<le> length a \<and> length a \<le> 32 \<and> list_all account_char a \<and> trim s0 = a"
  by (auto simp: AccountId_parse_def ACCOUNT_MIN_def ACCOUNT_MAX_def Let_def split: if_splits)

lemma AccountId_parse_idem: "AccountId_parse s0 = Ok a \<Longrightarrow> AccountId_parse a = Ok a"
proof -
  assume h: "AccountId_parse s0 = Ok a"
  then have "list_all plain_char a"
    using AccountId_parse_Ok[OF h] by (auto simp: list_all_iff account_char_plain)
  then have "trim a = a" by (rule trim_plain)
  then show "AccountId_parse a = Ok a"
    using AccountId_parse_Ok[OF h]
    by (simp add: AccountId_parse_def ACCOUNT_MIN_def ACCOUNT_MAX_def)
qed

text \<open>Account identifiers: what the parser accepts is trimmed, between 3 and 32 characters of
  the allowed alphabet, and parsing an accepted identifier again changes nothing.\<close>

theorem AccountId_parse_canonical:
  assumes "AccountId_parse s0 = Ok a"
  shows "3 \<le> length a \<and> length a \<le> 32 \<and> list_all account_char a \<and> trim s0 = a \<and> AccountId_parse a = Ok a"
  using AccountId_parse_Ok[OF assms] AccountId_parse_idem[OF assms] by simp

theorem AccountId_parse_canonical_witness:
  "3 \<le> length ''alice'' \<and> length ''alice'' \<le> 32 \<and> list_all account_char ''alice''
   \<and> trim '' alice '' = ''alice'' \<and> AccountId_parse ''alice'' = (Ok ''alice'' :: (unit ProtocolError, string) result)"
  by (rule AccountId_parse_canonical)
    (simp add: AccountId_parse_def trim_def ws1_def ws2_def ws3_def Let_def ACCOUNT_MIN_def
      ACCOUNT_MAX_def account_char_def is_ascii_alnum_def)

end
