(* ===== verification/Kim_Session.thy ===== *)
theory Kim_Session
  imports Kim_Protocol
begin

text \<open>
  Sessions and locations: the \<open>Location\<close> wire codec of \<open>kim-router/src/location.rs\<close>, the
  \<open>SessionStorage\<close> contract of \<open>kim-router/src/storage.rs\<close> as a locale over an abstract registry
  (the list of live sessions in login order), the in-memory store of \<open>kim-session/src/memory.rs\<close> and
  the dual-write store of \<open>kim-session/src/dual.rs\<close> as its interpretations, and the device classes of
  \<open>kim-session/src/lib.rs\<close>.
\<close>

section \<open>UTF-8 validation\<close>

text \<open>\<open>std::str::from_utf8\<close>: the well-formed byte sequences of the Unicode standard.\<close>

definition utf8_cont :: "nat \<Rightarrow> bool" where
  "utf8_cont b \<longleftrightarrow> 128 \<le> b \<and> b \<le> 191"

definition utf8_second :: "nat \<Rightarrow> nat \<Rightarrow> bool" where
  "utf8_second a b \<longleftrightarrow>
     (if a = 224 then 160 \<le> b \<and> b \<le> 191
      else if a = 237 then 128 \<le> b \<and> b \<le> 159
      else if a = 240 then 144 \<le> b \<and> b \<le> 191
      else if a = 244 then 128 \<le> b \<and> b \<le> 143
      else utf8_cont b)"

fun utf8_ok :: "nat list \<Rightarrow> bool" where
  "utf8_ok [] = True"
| "utf8_ok (a # s) =
     (if a < 128 then utf8_ok s
      else if 194 \<le> a \<and> a \<le> 223 then
        (case s of b # s' \<Rightarrow> utf8_cont b \<and> utf8_ok s' | _ \<Rightarrow> False)
      else if 224 \<le> a \<and> a \<le> 239 then
        (case s of b # c # s' \<Rightarrow> utf8_second a b \<and> utf8_cont c \<and> utf8_ok s' | _ \<Rightarrow> False)
      else if 240 \<le> a \<and> a \<le> 244 then
        (case s of b # c # d # s' \<Rightarrow>
           utf8_second a b \<and> utf8_cont c \<and> utf8_cont d \<and> utf8_ok s' | _ \<Rightarrow> False)
      else False)"

definition from_utf8 :: "byte list \<Rightarrow> string option" where
  "from_utf8 bs = (if utf8_ok (map unat bs) then Some (str_of_bytes bs) else None)"

definition str_utf8 :: "string \<Rightarrow> bool" where
  "str_utf8 s \<longleftrightarrow> utf8_ok (map of_char s)"

lemma unat_byte_of_char: "unat (byte_of_char c) = of_char c"
  by (simp add: byte_of_char_def unsigned_of_nat take_bit_eq_mod)

lemma from_utf8_bytes_of_str [kim_codec]: "str_utf8 s \<Longrightarrow> from_utf8 (bytes_of_str s) = Some s"
  by (simp add: from_utf8_def str_utf8_def comp_def unat_byte_of_char)

lemma utf8_ok_ascii: "list_all (\<lambda>b. b < 128) bs \<Longrightarrow> utf8_ok bs"
  by (induction bs) auto

section \<open>Sessions and locations\<close>

record Session =
  s_channel_id :: string
  s_gate_id :: string
  s_account :: string
  s_zone :: string
  s_isp :: string
  s_remote_ip :: string
  s_device :: string
  s_app :: string
  s_tags :: "string list"
  s_jti :: string
  s_device_id :: string

record Location =
  l_channel_id :: string
  l_gate_id :: string
  l_device :: string
  l_jti :: string

datatype SessionError = NotFound | Truncated | InvalidUtf8 | OtherSession string

text \<open>One length-prefixed field: the prefix saturates at \<open>u16::MAX\<close> and the bytes are cut to it.\<close>

definition put_short :: "string \<Rightarrow> byte list" where
  "put_short s =
     (let len = min 65535 (length s) in
      put_u16_le (word_of_nat len) @ take len (bytes_of_str s))"

definition Location_encode :: "Location \<Rightarrow> byte list" where
  "Location_encode l =
     put_short (l_channel_id l) @ put_short (l_gate_id l) @ put_short (l_device l) @ put_short (l_jti l)"

definition read_short_string :: "byte list \<Rightarrow> (SessionError, string \<times> byte list) result" where
  "read_short_string buf =
     (if length buf < 2 then Err Truncated
      else let n = unat (from_u16_le (buf ! 0) (buf ! 1)); rest = drop 2 buf in
        if length rest < n then Err Truncated
        else case from_utf8 (take n rest) of
            None \<Rightarrow> Err InvalidUtf8
          | Some s \<Rightarrow> Ok (s, drop n rest))"

definition Location_decode :: "byte list \<Rightarrow> (SessionError, Location) result" where
  "Location_decode buf =
     res_bind (read_short_string buf) (\<lambda>(channel_id, rest).
     res_bind (read_short_string rest) (\<lambda>(gate_id, rest).
     res_bind (if rest = [] then Ok ([], rest) else read_short_string rest) (\<lambda>(device, rest).
     res_bind (if rest = [] then Ok [] else res_bind (read_short_string rest) (\<lambda>(j, _). Ok j)) (\<lambda>jti.
       Ok \<lparr>l_channel_id = channel_id, l_gate_id = gate_id, l_device = device, l_jti = jti\<rparr>))))"

definition field_ok :: "string \<Rightarrow> bool" where
  "field_ok s \<longleftrightarrow> length s \<le> 65535 \<and> str_utf8 s"

lemma put_short_ne [simp]: "put_short s \<noteq> []"
  by (simp add: put_short_def put_u16_le_def Let_def)

lemma read_put_short [kim_codec]:
  assumes "field_ok s"
  shows "read_short_string (put_short s @ rest) = Ok (s, rest)"
  using assms from_utf8_bytes_of_str[of s] unat_u16_of_len[of "length s"]
  by (simp add: read_short_string_def put_short_def put_u16_le_def field_ok_def Let_def)

lemma read_put_short_end [kim_codec]: "field_ok s \<Longrightarrow> read_short_string (put_short s) = Ok (s, [])"
  using read_put_short[of s "[]"] by simp

text \<open>Location round trip: a location whose fields are UTF-8 strings of at most 65535 bytes is
  decoded from its encoding unchanged.\<close>

theorem Location_roundtrip:
  assumes "field_ok (l_channel_id l)" "field_ok (l_gate_id l)" "field_ok (l_device l)" "field_ok (l_jti l)"
  shows "Location_decode (Location_encode l) = Ok l"
  using assms by (simp add: Location_decode_def Location_encode_def kim_codec)

theorem Location_roundtrip_witness:
  "Location_decode (Location_encode \<lparr>l_channel_id = ''c1'', l_gate_id = ''g1'', l_device = ''web'', l_jti = []\<rparr>)
     = Ok \<lparr>l_channel_id = ''c1'', l_gate_id = ''g1'', l_device = ''web'', l_jti = []\<rparr>"
  by (rule Location_roundtrip) (simp_all add: field_ok_def str_utf8_def)

lemma Location_decode_legacy:
  assumes "field_ok c" "field_ok g" "field_ok d"
  shows "Location_decode (put_short c @ put_short g)
      = Ok \<lparr>l_channel_id = c, l_gate_id = g, l_device = [], l_jti = []\<rparr>"
    and "Location_decode (put_short c @ put_short g @ put_short d)
      = Ok \<lparr>l_channel_id = c, l_gate_id = g, l_device = d, l_jti = []\<rparr>"
  using assms by (simp_all add: Location_decode_def kim_codec)

section \<open>Device classes\<close>

definition exclusive_device :: "string \<Rightarrow> bool" where
  "exclusive_device device \<longleftrightarrow>
     to_ascii_lowercase (trim device)
       \<in> {''mobile'', ''android'', ''ios'', ''iphone'', ''ipad'', ''phone''}"

section \<open>The registry behind the storage contract\<close>

text \<open>
  What a session store stands for: the live sessions, oldest login first, at most one per channel.
\<close>

definition loc_of :: "Session \<Rightarrow> Location" where
  "loc_of s = \<lparr>l_channel_id = s_channel_id s, l_gate_id = s_gate_id s, l_device = s_device s, l_jti = s_jti s\<rparr>"

definition reg_add :: "Session \<Rightarrow> Session list \<Rightarrow> Session list" where
  "reg_add s r = filter (\<lambda>t. s_channel_id t \<noteq> s_channel_id s) r @ [s]"

definition reg_delete :: "string \<Rightarrow> Session list \<Rightarrow> Session list" where
  "reg_delete c r = filter (\<lambda>t. s_channel_id t \<noteq> c) r"

definition reg_get :: "string \<Rightarrow> Session list \<Rightarrow> (SessionError, Session) result" where
  "reg_get c r = (case List.find (\<lambda>t. s_channel_id t = c) r of None \<Rightarrow> Err NotFound | Some s \<Rightarrow> Ok s)"

definition reg_slots :: "string \<Rightarrow> Session list \<Rightarrow> Location list" where
  "reg_slots a r = map loc_of (filter (\<lambda>t. s_account t = a) r)"

definition reg_get_locations :: "string list \<Rightarrow> Session list \<Rightarrow> (SessionError, Location list) result" where
  "reg_get_locations as r =
     (let out = concat (map (\<lambda>a. reg_slots a r) as) in if out = [] then Err NotFound else Ok out)"

definition pick :: "Location list \<Rightarrow> string \<Rightarrow> Location option" where
  "pick slots device =
     (if device = [] then (case slots of [] \<Rightarrow> None | l # _ \<Rightarrow> Some l)
      else List.find (\<lambda>l. l_device l = device) slots)"

definition reg_get_location :: "string \<Rightarrow> string \<Rightarrow> Session list \<Rightarrow> (SessionError, Location) result" where
  "reg_get_location a device r =
     (case pick (reg_slots a r) device of None \<Rightarrow> Err NotFound | Some l \<Rightarrow> Ok l)"

text \<open>
  A channel identifier is minted for one login of one account, so a channel in the registry belongs
  to the account that adds or deletes it.
\<close>

definition owns :: "string \<Rightarrow> string \<Rightarrow> Session list \<Rightarrow> bool" where
  "owns a c r \<longleftrightarrow> list_all (\<lambda>t. s_channel_id t = c \<longrightarrow> s_account t = a) r"

abbreviation reg_ok :: "Session list \<Rightarrow> bool" where
  "reg_ok r \<equiv> distinct (map s_channel_id r)"

lemma loc_of_simps [simp]: "l_channel_id (loc_of s) = s_channel_id s" "l_device (loc_of s) = s_device s"
  by (simp_all add: loc_of_def)

lemma reg_ok_add [kim_inv]: "reg_ok r \<Longrightarrow> reg_ok (reg_add s r)"
  by (auto simp: reg_add_def distinct_map_filter)

lemma reg_ok_delete [kim_inv]: "reg_ok r \<Longrightarrow> reg_ok (reg_delete c r)"
  by (simp add: reg_delete_def distinct_map_filter)

lemma find_other_channel:
  "c \<noteq> d \<Longrightarrow> List.find (\<lambda>t. s_channel_id t = c) (filter (\<lambda>t. s_channel_id t \<noteq> d) r)
     = List.find (\<lambda>t. s_channel_id t = c) r"
  by (induction r) auto

lemma find_same_channel:
  "List.find (\<lambda>t. s_channel_id t = c) (filter (\<lambda>t. s_channel_id t \<noteq> c) r) = None"
  by (induction r) auto

lemma reg_get_add: "reg_get c (reg_add s r) = (if c = s_channel_id s then Ok s else reg_get c r)"
  by (auto simp: reg_get_def reg_add_def find_append find_other_channel find_same_channel
      split: option.split)

lemma reg_get_delete: "reg_get c (reg_delete d r) = (if c = d then Err NotFound else reg_get c r)"
  by (auto simp: reg_get_def reg_delete_def find_other_channel find_same_channel)

lemma reg_slots_add:
  assumes "owns (s_account s) (s_channel_id s) r"
  shows "reg_slots a (reg_add s r) =
    (if a = s_account s
     then filter (\<lambda>l. l_channel_id l \<noteq> s_channel_id s) (reg_slots a r) @ [loc_of s]
     else reg_slots a r)"
  using assms
  by (induction r) (auto simp: reg_slots_def reg_add_def owns_def)

lemma reg_slots_delete:
  assumes "owns a' c r"
  shows "reg_slots a (reg_delete c r) =
    (if a = a' then filter (\<lambda>l. l_channel_id l \<noteq> c) (reg_slots a r) else reg_slots a r)"
  using assms
  by (induction r) (auto simp: reg_slots_def reg_delete_def owns_def)

section \<open>Sequences of operations\<close>

datatype store_op =
    OpAdd Session
  | OpDelete string string
  | OpGet string
  | OpLocations "string list"
  | OpLocation string string

datatype store_answer =
    AnsDone "(SessionError, unit) result"
  | AnsSession "(SessionError, Session) result"
  | AnsLocations "(SessionError, Location list) result"
  | AnsLocation "(SessionError, Location) result"

fun reg_step :: "store_op \<Rightarrow> Session list \<Rightarrow> store_answer \<times> Session list" where
  "reg_step (OpAdd s) r = (AnsDone (Ok ()), reg_add s r)"
| "reg_step (OpDelete a c) r = (AnsDone (Ok ()), reg_delete c r)"
| "reg_step (OpGet c) r = (AnsSession (reg_get c r), r)"
| "reg_step (OpLocations as) r = (AnsLocations (reg_get_locations as r), r)"
| "reg_step (OpLocation a d) r = (AnsLocation (reg_get_location a d r), r)"

fun op_allowed :: "store_op \<Rightarrow> Session list \<Rightarrow> bool" where
  "op_allowed (OpAdd s) r = owns (s_account s) (s_channel_id s) r"
| "op_allowed (OpDelete a c) r = owns a c r"
| "op_allowed _ r = True"

fun reg_run :: "store_op list \<Rightarrow> Session list \<Rightarrow> store_answer list" where
  "reg_run [] r = []"
| "reg_run (op # ops) r = (let (x, r') = reg_step op r in x # reg_run ops r')"

fun ops_allowed :: "store_op list \<Rightarrow> Session list \<Rightarrow> bool" where
  "ops_allowed [] r = True"
| "ops_allowed (op # ops) r = (op_allowed op r \<and> ops_allowed ops (snd (reg_step op r)))"

fun store_step ::
  "(Session \<Rightarrow> 'st \<Rightarrow> (SessionError, unit) result \<times> 'st)
   \<Rightarrow> (string \<Rightarrow> string \<Rightarrow> 'st \<Rightarrow> (SessionError, unit) result \<times> 'st)
   \<Rightarrow> (string \<Rightarrow> 'st \<Rightarrow> (SessionError, Session) result)
   \<Rightarrow> (string list \<Rightarrow> 'st \<Rightarrow> (SessionError, Location list) result)
   \<Rightarrow> (string \<Rightarrow> string \<Rightarrow> 'st \<Rightarrow> (SessionError, Location) result)
   \<Rightarrow> store_op \<Rightarrow> 'st \<Rightarrow> store_answer \<times> 'st" where
  "store_step add del get gls gl (OpAdd s) m = (case add s m of (x, m') \<Rightarrow> (AnsDone x, m'))"
| "store_step add del get gls gl (OpDelete a c) m = (case del a c m of (x, m') \<Rightarrow> (AnsDone x, m'))"
| "store_step add del get gls gl (OpGet c) m = (AnsSession (get c m), m)"
| "store_step add del get gls gl (OpLocations as) m = (AnsLocations (gls as m), m)"
| "store_step add del get gls gl (OpLocation a d) m = (AnsLocation (gl a d m), m)"

fun store_run :: "(store_op \<Rightarrow> 'st \<Rightarrow> store_answer \<times> 'st) \<Rightarrow> store_op list \<Rightarrow> 'st \<Rightarrow> store_answer list" where
  "store_run step [] m = []"
| "store_run step (op # ops) m = (let (x, m') = step op m in x # store_run step ops m')"

section \<open>The contract of a session store\<close>

locale session_storage =
  fixes sim :: "'st \<Rightarrow> Session list \<Rightarrow> bool"
    and add :: "Session \<Rightarrow> 'st \<Rightarrow> (SessionError, unit) result \<times> 'st"
    and delete :: "string \<Rightarrow> string \<Rightarrow> 'st \<Rightarrow> (SessionError, unit) result \<times> 'st"
    and get :: "string \<Rightarrow> 'st \<Rightarrow> (SessionError, Session) result"
    and get_locations :: "string list \<Rightarrow> 'st \<Rightarrow> (SessionError, Location list) result"
    and get_location :: "string \<Rightarrow> string \<Rightarrow> 'st \<Rightarrow> (SessionError, Location) result"
  assumes add_ok: "fst (add s m) = Ok ()"
    and delete_ok: "fst (delete a c m) = Ok ()"
    and sim_reg_ok: "sim m r \<Longrightarrow> reg_ok r"
    and sim_add: "sim m r \<Longrightarrow> owns (s_account s) (s_channel_id s) r \<Longrightarrow> sim (snd (add s m)) (reg_add s r)"
    and sim_delete: "sim m r \<Longrightarrow> owns a c r \<Longrightarrow> sim (snd (delete a c m)) (reg_delete c r)"
    and sim_get: "sim m r \<Longrightarrow> get c m = reg_get c r"
    and sim_get_locations: "sim m r \<Longrightarrow> get_locations as m = reg_get_locations as r"
    and sim_get_location: "sim m r \<Longrightarrow> get_location a d m = reg_get_location a d r"
begin

lemma step_refines:
  assumes "sim m r" "op_allowed op r"
  shows "fst (store_step add delete get get_locations get_location op m) = fst (reg_step op r)
    \<and> sim (snd (store_step add delete get get_locations get_location op m)) (snd (reg_step op r))"
proof (cases op)
  case (OpAdd s)
  then show ?thesis using assms add_ok[of s m] sim_add[of m r s] by (cases "add s m") simp
next
  case (OpDelete a c)
  then show ?thesis using assms delete_ok[of a c m] sim_delete[of m r a c] by (cases "delete a c m") simp
qed (use assms sim_get sim_get_locations sim_get_location in simp_all)

lemma run_refines:
  "sim m r \<Longrightarrow> ops_allowed ops r \<Longrightarrow>
   store_run (store_step add delete get get_locations get_location) ops m = reg_run ops r"
proof (induction ops arbitrary: m r)
  case (Cons op ops)
  then show ?case using step_refines[of m r op]
    by (auto simp: split_beta Let_def)
qed simp

lemma get_after_add:
  assumes "sim m r" "owns (s_account s) (s_channel_id s) r"
  shows "get c (snd (add s m)) = (if c = s_channel_id s then Ok s else get c m)"
  using sim_get[OF sim_add[OF assms]] sim_get[OF assms(1)] by (simp add: reg_get_add)

lemma get_after_delete:
  assumes "sim m r" "owns a d r"
  shows "get c (snd (delete a d m)) = (if c = d then Err NotFound else get c m)"
  using sim_get[OF sim_delete[OF assms]] sim_get[OF assms(1)] by (simp add: reg_get_delete)

lemma located_after_add:
  assumes "sim m r" "owns (s_account s) (s_channel_id s) r"
  shows "\<exists>ls. get_locations [s_account s] (snd (add s m)) = Ok (ls @ [loc_of s])"
  using sim_get_locations[OF sim_add[OF assms], of "[s_account s]"]
  by (simp add: reg_get_locations_def reg_slots_add[OF assms(2)])

lemma not_located_after_delete:
  assumes "sim m r" "owns a c r" "get_locations as (snd (delete a c m)) = Ok ls"
  shows "c \<notin> l_channel_id ` set ls"
  using sim_get_locations[OF sim_delete[OF assms(1,2)], of as] assms(3)
  by (auto simp: reg_get_locations_def reg_delete_def reg_slots_def split: if_splits)

lemma location_of_live_session:
  assumes "sim m r" "get_locations as m = Ok ls" "l \<in> set ls"
  shows "\<exists>s. get (l_channel_id l) m = Ok s \<and> loc_of s = l \<and> s_account s \<in> set as"
proof -
  from assms(2) have ls: "ls = concat (map (\<lambda>a. reg_slots a r) as)"
    using sim_get_locations[OF assms(1), of as]
    by (auto simp: reg_get_locations_def Let_def split: if_splits)
  then obtain s where s: "s \<in> set r" "loc_of s = l" "s_account s \<in> set as"
    using assms(3) by (auto simp: reg_slots_def)
  have "List.find (\<lambda>t. s_channel_id t = s_channel_id s) r = Some s"
    using s(1) sim_reg_ok[OF assms(1)]
    by (induction r) (auto simp: rev_image_eqI)
  then have "get (l_channel_id l) m = Ok s"
    using sim_get[OF assms(1), of "l_channel_id l"] s(2) by (auto simp: reg_get_def)
  then show ?thesis using s by blast
qed

end

section \<open>The in-memory store\<close>

definition key_session :: "string \<Rightarrow> string" where
  "key_session channel = ''login:sn:v2:'' @ channel"

definition key_location :: "string \<Rightarrow> string \<Rightarrow> string" where
  "key_location account device = ''login:loc:v2:'' @ account"

record MemorySessionStore =
  ms_sessions :: "(string, Session) hmap"
  ms_locations :: "(string, Location list) hmap"

definition mem_new :: MemorySessionStore where
  "mem_new = \<lparr>ms_sessions = [], ms_locations = []\<rparr>"

definition mem_add ::
  "Session \<Rightarrow> MemorySessionStore \<Rightarrow> (SessionError, unit) result \<times> MemorySessionStore" where
  "mem_add session m =
     (let loc = loc_of session;
          loc_key = key_location (s_account session) [];
          slots = (case hget (ms_locations m) loc_key of None \<Rightarrow> [] | Some l \<Rightarrow> l);
          slots = filter (\<lambda>l. l_channel_id l \<noteq> l_channel_id loc) slots @ [loc]
      in (Ok (), m\<lparr>ms_locations := hput loc_key slots (ms_locations m),
                   ms_sessions := hput (s_channel_id session) session (ms_sessions m)\<rparr>))"

definition mem_delete ::
  "string \<Rightarrow> string \<Rightarrow> MemorySessionStore \<Rightarrow> (SessionError, unit) result \<times> MemorySessionStore" where
  "mem_delete account channel_id m =
     (let loc_key = key_location account [];
          sessions = hdel channel_id (ms_sessions m);
          locations = (case hget (ms_locations m) loc_key of
              None \<Rightarrow> ms_locations m
            | Some slots \<Rightarrow>
                let slots = filter (\<lambda>l. l_channel_id l \<noteq> channel_id) slots in
                if slots = [] then hdel loc_key (ms_locations m)
                else hput loc_key slots (ms_locations m))
      in (Ok (), m\<lparr>ms_sessions := sessions, ms_locations := locations\<rparr>))"

definition mem_get :: "string \<Rightarrow> MemorySessionStore \<Rightarrow> (SessionError, Session) result" where
  "mem_get channel_id m =
     (case hget (ms_sessions m) channel_id of None \<Rightarrow> Err NotFound | Some s \<Rightarrow> Ok s)"

definition mem_get_locations ::
  "string list \<Rightarrow> MemorySessionStore \<Rightarrow> (SessionError, Location list) result" where
  "mem_get_locations accounts m =
     (let out = concat (map (\<lambda>account.
          case hget (ms_locations m) (key_location account []) of None \<Rightarrow> [] | Some l \<Rightarrow> l) accounts)
      in if out = [] then Err NotFound else Ok out)"

definition mem_get_location ::
  "string \<Rightarrow> string \<Rightarrow> MemorySessionStore \<Rightarrow> (SessionError, Location) result" where
  "mem_get_location account device m =
     (case hget (ms_locations m) (key_location account []) of
        None \<Rightarrow> Err NotFound
      | Some slots \<Rightarrow> (case pick slots device of None \<Rightarrow> Err NotFound | Some l \<Rightarrow> Ok l))"

definition mem_list_locations ::
  "string \<Rightarrow> MemorySessionStore \<Rightarrow> (SessionError, Location list) result" where
  "mem_list_locations account m = mem_get_locations [account] m"

text \<open>The simulation: the session table is the registry indexed by channel, and the location table
  holds exactly the accounts with a live session, each with its locations in login order.\<close>

definition slots_opt :: "Location list \<Rightarrow> Location list option" where
  "slots_opt ls = (if ls = [] then None else Some ls)"

definition mem_sim :: "MemorySessionStore \<Rightarrow> Session list \<Rightarrow> bool" where
  "mem_sim m r \<longleftrightarrow> reg_ok r
     \<and> (\<forall>c. hget (ms_sessions m) c = List.find (\<lambda>t. s_channel_id t = c) r)
     \<and> (\<forall>a. hget (ms_locations m) (key_location a []) = slots_opt (reg_slots a r))"

lemma key_location_inj [simp]: "key_location a d = key_location b e \<longleftrightarrow> a = b"
  by (simp add: key_location_def)

lemma slots_opt_get: "(case slots_opt ls of None \<Rightarrow> [] | Some l \<Rightarrow> l) = ls"
  by (simp add: slots_opt_def)

lemma find_reg_add:
  "List.find (\<lambda>t. s_channel_id t = c) (reg_add s r) =
     (if c = s_channel_id s then Some s else List.find (\<lambda>t. s_channel_id t = c) r)"
  by (auto simp: reg_add_def find_append find_other_channel find_same_channel split: option.split)

lemma find_reg_delete:
  "List.find (\<lambda>t. s_channel_id t = c) (reg_delete d r) =
     (if c = d then None else List.find (\<lambda>t. s_channel_id t = c) r)"
  by (auto simp: reg_delete_def find_other_channel find_same_channel)

lemma mem_sim_new: "mem_sim mem_new []"
  by (simp add: mem_sim_def mem_new_def slots_opt_def reg_slots_def)

lemma mem_sim_add:
  assumes "mem_sim m r" "owns (s_account s) (s_channel_id s) r"
  shows "mem_sim (snd (mem_add s m)) (reg_add s r)"
proof -
  have slots: "hget (ms_locations m) (key_location (s_account s) []) = slots_opt (reg_slots (s_account s) r)"
    using assms(1) by (simp add: mem_sim_def)
  have loc: "hget (ms_locations (snd (mem_add s m))) (key_location a []) = slots_opt (reg_slots a (reg_add s r))"
    for a
    using assms(1) unfolding mem_add_def Let_def slots slots_opt_get
    by (simp add: mem_sim_def reg_slots_add[OF assms(2)] slots_opt_def)
  have ses: "hget (ms_sessions (snd (mem_add s m))) c = List.find (\<lambda>t. s_channel_id t = c) (reg_add s r)" for c
    using assms(1) by (simp add: mem_add_def mem_sim_def find_reg_add Let_def)
  show ?thesis
    using loc ses assms(1) by (simp add: mem_sim_def reg_ok_add)
qed

lemma mem_sim_delete:
  assumes "mem_sim m r" "owns a c r"
  shows "mem_sim (snd (mem_delete a c m)) (reg_delete c r)"
proof -
  have slots: "hget (ms_locations m) (key_location b []) = slots_opt (reg_slots b r)" for b
    using assms(1) by (simp add: mem_sim_def)
  have loc: "hget (ms_locations (snd (mem_delete a c m))) (key_location b []) = slots_opt (reg_slots b (reg_delete c r))"
    for b
    using slots[of a] slots[of b]
    by (auto simp: mem_delete_def Let_def reg_slots_delete[OF assms(2)] slots_opt_def split: option.splits if_splits)
  have ses: "hget (ms_sessions (snd (mem_delete a c m))) d = List.find (\<lambda>t. s_channel_id t = d) (reg_delete c r)" for d
    using assms(1) by (simp add: mem_delete_def mem_sim_def find_reg_delete Let_def)
  show ?thesis
    using loc ses assms(1) by (simp add: mem_sim_def reg_ok_delete)
qed

lemma mem_sim_get: "mem_sim m r \<Longrightarrow> mem_get c m = reg_get c r"
  by (simp add: mem_get_def reg_get_def mem_sim_def)

lemma mem_sim_get_locations: "mem_sim m r \<Longrightarrow> mem_get_locations as m = reg_get_locations as r"
  by (simp add: mem_get_locations_def reg_get_locations_def mem_sim_def slots_opt_get)

lemma mem_sim_get_location: "mem_sim m r \<Longrightarrow> mem_get_location a d m = reg_get_location a d r"
  by (auto simp: mem_get_location_def reg_get_location_def mem_sim_def slots_opt_def pick_def)

interpretation mem: session_storage mem_sim mem_add mem_delete mem_get mem_get_locations mem_get_location
proof unfold_locales
  show "fst (mem_add s m) = Ok ()" for s m by (simp add: mem_add_def Let_def)
  show "fst (mem_delete a c m) = Ok ()" for a c m by (simp add: mem_delete_def Let_def)
  show "reg_ok r" if "mem_sim m r" for m r using that by (simp add: mem_sim_def)
qed (rule mem_sim_add mem_sim_delete mem_sim_get mem_sim_get_locations mem_sim_get_location; assumption)+

section \<open>The dual-write store\<close>

text \<open>
  \<open>DualWriteStore\<close> writes the primary, then the mirror, and swallows the mirror's errors; it reads the
  primary. The mirror's two write operations are arguments.
\<close>

definition dual_add ::
  "(Session \<Rightarrow> 'p \<Rightarrow> (SessionError, unit) result \<times> 'p) \<Rightarrow> (Session \<Rightarrow> 'q \<Rightarrow> (SessionError, unit) result \<times> 'q)
   \<Rightarrow> Session \<Rightarrow> 'p \<times> 'q \<Rightarrow> (SessionError, unit) result \<times> ('p \<times> 'q)" where
  "dual_add padd madd session st =
     (let (r, p) = padd session (fst st) in
      case r of Inl e \<Rightarrow> (Err e, (p, snd st))
      | Inr _ \<Rightarrow> (Ok (), (p, snd (madd session (snd st)))))"

definition dual_delete ::
  "(string \<Rightarrow> string \<Rightarrow> 'p \<Rightarrow> (SessionError, unit) result \<times> 'p)
   \<Rightarrow> (string \<Rightarrow> string \<Rightarrow> 'q \<Rightarrow> (SessionError, unit) result \<times> 'q)
   \<Rightarrow> string \<Rightarrow> string \<Rightarrow> 'p \<times> 'q \<Rightarrow> (SessionError, unit) result \<times> ('p \<times> 'q)" where
  "dual_delete pdel mdel account channel_id st =
     (let (r, p) = pdel account channel_id (fst st) in
      case r of Inl e \<Rightarrow> (Err e, (p, snd st))
      | Inr _ \<Rightarrow> (Ok (), (p, snd (mdel account channel_id (snd st)))))"

definition dual_get where "dual_get pget channel_id st = pget channel_id (fst st)"
definition dual_get_locations where "dual_get_locations pgl accounts st = pgl accounts (fst st)"
definition dual_get_location where "dual_get_location pgl account device st = pgl account device (fst st)"
definition dual_sim where "dual_sim psim st r \<longleftrightarrow> psim (fst st) r"

locale mirrored_storage = session_storage +
  fixes madd :: "Session \<Rightarrow> 'q \<Rightarrow> (SessionError, unit) result \<times> 'q"
    and mdel :: "string \<Rightarrow> string \<Rightarrow> 'q \<Rightarrow> (SessionError, unit) result \<times> 'q"
begin

lemma dual_add_snd: "dual_add add madd s st = (Ok (), (snd (add s (fst st)), snd (madd s (snd st))))"
  using add_ok[of s "fst st"] by (cases "add s (fst st)") (simp add: dual_add_def)

lemma dual_delete_snd:
  "dual_delete delete mdel a c st = (Ok (), (snd (delete a c (fst st)), snd (mdel a c (snd st))))"
  using delete_ok[of a c "fst st"] by (cases "delete a c (fst st)") (simp add: dual_delete_def)

lemma dual_storage:
  "session_storage (dual_sim sim) (dual_add add madd) (dual_delete delete mdel)
     (dual_get get) (dual_get_locations get_locations) (dual_get_location get_location)"
  by unfold_locales
    (simp_all add: dual_add_snd dual_delete_snd dual_sim_def dual_get_def dual_get_locations_def
      dual_get_location_def sim_reg_ok sim_add sim_delete sim_get sim_get_locations sim_get_location)

end

sublocale mirrored_storage \<subseteq> dual: session_storage "dual_sim sim" "dual_add add madd"
  "dual_delete delete mdel" "dual_get get" "dual_get_locations get_locations" "dual_get_location get_location"
  by (rule dual_storage)

interpretation memdual: mirrored_storage mem_sim mem_add mem_delete mem_get mem_get_locations
  mem_get_location mem_add mem_delete
  by unfold_locales

section \<open>Properties\<close>

text \<open>C36: The in-memory session store implements the registry: started empty and given any sequence
  of adds, deletes and lookups (a channel always used by the account it was minted for), every
  answer is the registry's.\<close>

theorem memory_store_implements_registry:
  assumes "ops_allowed ops []"
  shows "store_run (store_step mem_add mem_delete mem_get mem_get_locations mem_get_location) ops mem_new
    = reg_run ops []"
  by (rule mem.run_refines[OF mem_sim_new assms])

definition demo_session :: Session where
  "demo_session = \<lparr>s_channel_id = ''c1'', s_gate_id = ''g'', s_account = ''alice'', s_zone = [],
     s_isp = [], s_remote_ip = [], s_device = ''web'', s_app = [], s_tags = [], s_jti = [],
     s_device_id = []\<rparr>"

theorem memory_store_implements_registry_witness:
  "store_run (store_step mem_add mem_delete mem_get mem_get_locations mem_get_location)
     [OpAdd demo_session, OpLocation ''alice'' ''web'', OpDelete ''alice'' ''c1'', OpGet ''c1''] mem_new
   = [AnsDone (Ok ()), AnsLocation (Ok (loc_of demo_session)), AnsDone (Ok ()), AnsSession (Err NotFound)]"
proof -
  have "ops_allowed [OpAdd demo_session, OpLocation ''alice'' ''web'', OpDelete ''alice'' ''c1'', OpGet ''c1''] []"
    by code_simp
  moreover have "reg_run [OpAdd demo_session, OpLocation ''alice'' ''web'', OpDelete ''alice'' ''c1'', OpGet ''c1''] []
      = [AnsDone (Ok ()), AnsLocation (Ok (loc_of demo_session)), AnsDone (Ok ()), AnsSession (Err NotFound)]"
    by code_simp
  ultimately show ?thesis using memory_store_implements_registry by metis
qed

text \<open>A dual-write store answers exactly as its primary would, whatever the mirror does: any
  mirror, failing or not, leaves the answers of every operation sequence unchanged.\<close>

theorem dual_write_transparent:
  assumes "ops_allowed ops []"
  shows "store_run (store_step (dual_add mem_add madd) (dual_delete mem_delete mdel) (dual_get mem_get)
      (dual_get_locations mem_get_locations) (dual_get_location mem_get_location)) ops (mem_new, q)
    = reg_run ops []"
proof -
  have "mirrored_storage mem_sim mem_add mem_delete mem_get mem_get_locations mem_get_location"
    by (simp add: mirrored_storage_def mem.session_storage_axioms)
  then have "session_storage (dual_sim mem_sim) (dual_add mem_add madd) (dual_delete mem_delete mdel)
      (dual_get mem_get) (dual_get_locations mem_get_locations) (dual_get_location mem_get_location)"
    by (rule mirrored_storage.dual_storage)
  then show ?thesis
    by (rule session_storage.run_refines) (simp_all add: dual_sim_def mem_sim_new assms)
qed

theorem dual_write_transparent_witness:
  "store_run (store_step (dual_add mem_add (\<lambda>s (n::nat). (Err NotFound, n)))
      (dual_delete mem_delete (\<lambda>a c n. (Err NotFound, n))) (dual_get mem_get)
      (dual_get_locations mem_get_locations) (dual_get_location mem_get_location))
     [OpAdd demo_session, OpGet ''c1''] (mem_new, 0)
   = [AnsDone (Ok ()), AnsSession (Ok demo_session)]"
proof -
  have "ops_allowed [OpAdd demo_session, OpGet ''c1''] []"
    "reg_run [OpAdd demo_session, OpGet ''c1''] [] = [AnsDone (Ok ()), AnsSession (Ok demo_session)]"
    by code_simp+
  then show ?thesis using dual_write_transparent by metis
qed

end
