(* ===== verification/Kim_Session_Cache.thy ===== *)
theory Kim_Session_Cache
  imports Kim_Session
begin

text \<open>
  The write-through cache of \<open>kim-session/src/cache.rs\<close>. The three Moka caches are hash maps from
  which entries may vanish at any time (capacity and time-to-live eviction), so every operation is
  also considered after arbitrary evictions. The operations are first run one after another over a
  lawful inner store; then their lock-delimited segments are interleaved as a step relation, where
  the fill epoch decides whether a slow miss fill may still install what it read.
\<close>

section \<open>State and the atomic segments\<close>

record SessionCache =
  cs_sessions :: "(string, Session) hmap"
  cs_locs :: "(string, Location list) hmap"
  cs_neg :: "(string, unit) hmap"
  cs_channels :: "(string, string set) hmap"
  cs_fill_epoch :: "64 word"

definition cache_wrap :: SessionCache where
  "cache_wrap = \<lparr>cs_sessions = [], cs_locs = [], cs_neg = [], cs_channels = [], cs_fill_epoch = 0\<rparr>"

definition track_channel :: "string \<Rightarrow> string \<Rightarrow> SessionCache \<Rightarrow> SessionCache" where
  "track_channel account channel_id c =
     (let chans = (case hget (cs_channels c) account of None \<Rightarrow> {} | Some s \<Rightarrow> s) in
      c\<lparr>cs_channels := hput account (insert channel_id chans) (cs_channels c)\<rparr>)"

definition untrack_channel :: "string \<Rightarrow> string \<Rightarrow> SessionCache \<Rightarrow> SessionCache" where
  "untrack_channel account channel_id c =
     (case hget (cs_channels c) account of
        None \<Rightarrow> c
      | Some chans \<Rightarrow>
          let chans' = chans - {channel_id} in
          c\<lparr>cs_channels := (if chans' = {} then hdel account (cs_channels c)
                            else hput account chans' (cs_channels c))\<rparr>)"

definition fill_stamp :: "SessionCache \<Rightarrow> 64 word" where
  "fill_stamp c = cs_fill_epoch c"

definition bump_fill_epoch :: "SessionCache \<Rightarrow> SessionCache" where
  "bump_fill_epoch c = c\<lparr>cs_fill_epoch := cs_fill_epoch c + 1\<rparr>"

definition remember_locs :: "string \<Rightarrow> Location list \<Rightarrow> 64 word \<Rightarrow> SessionCache \<Rightarrow> SessionCache" where
  "remember_locs account slots stamp c =
     (if cs_fill_epoch c \<noteq> stamp then c
      else c\<lparr>cs_channels := hput account (l_channel_id ` set slots) (cs_channels c),
             cs_neg := hdel account (cs_neg c),
             cs_locs := hput account slots (cs_locs c)\<rparr>)"

definition remember_empty :: "string \<Rightarrow> 64 word \<Rightarrow> SessionCache \<Rightarrow> SessionCache" where
  "remember_empty account stamp c =
     (if cs_fill_epoch c \<noteq> stamp then c
      else c\<lparr>cs_channels := hdel account (cs_channels c),
             cs_locs := hdel account (cs_locs c),
             cs_neg := hput account () (cs_neg c)\<rparr>)"

definition invalidate_account :: "string \<Rightarrow> SessionCache \<Rightarrow> SessionCache" where
  "invalidate_account account c =
     (if account = [] then c
      else let c1 = bump_fill_epoch c;
               channels = (case hget (cs_channels c1) account of None \<Rightarrow> {} | Some s \<Rightarrow> s);
               slots = (case hget (cs_locs c1) account of None \<Rightarrow> [] | Some ls \<Rightarrow> ls);
               dropped = channels \<union> l_channel_id ` set slots
           in c1\<lparr>cs_channels := hdel account (cs_channels c1),
                 cs_sessions := hretain (\<lambda>ch _. ch \<notin> dropped) (cs_sessions c1),
                 cs_locs := hdel account (cs_locs c1),
                 cs_neg := hdel account (cs_neg c1)\<rparr>)"

definition invalidate_all :: "SessionCache \<Rightarrow> SessionCache" where
  "invalidate_all c =
     (bump_fill_epoch c)\<lparr>cs_sessions := [], cs_locs := [], cs_neg := [], cs_channels := []\<rparr>"

text \<open>The second half of \<open>add\<close> and of \<open>delete\<close>, under the epoch lock.\<close>

definition add_commit :: "Session \<Rightarrow> SessionCache \<Rightarrow> SessionCache" where
  "add_commit session c =
     (let c1 = bump_fill_epoch c;
          c2 = c1\<lparr>cs_sessions := hput (s_channel_id session) session (cs_sessions c1)\<rparr>;
          c3 = track_channel (s_account session) (s_channel_id session) c2
      in c3\<lparr>cs_locs := hdel (s_account session) (cs_locs c3),
            cs_neg := hdel (s_account session) (cs_neg c3)\<rparr>)"

definition delete_commit :: "string \<Rightarrow> string \<Rightarrow> SessionCache \<Rightarrow> SessionCache" where
  "delete_commit account channel_id c =
     (let c1 = bump_fill_epoch c;
          c2 = c1\<lparr>cs_sessions := hdel channel_id (cs_sessions c1)\<rparr>;
          c3 = untrack_channel account channel_id c2
      in c3\<lparr>cs_locs := hdel account (cs_locs c3), cs_neg := hdel account (cs_neg c3)\<rparr>)"

text \<open>The miss path of \<open>get\<close> installs what it read; it takes no stamp.\<close>

definition get_install :: "string \<Rightarrow> Session \<Rightarrow> SessionCache \<Rightarrow> SessionCache" where
  "get_install channel_id s c =
     (let c1 = track_channel (s_account s) channel_id c in
      c1\<lparr>cs_sessions := hput channel_id s (cs_sessions c1)\<rparr>)"

section \<open>The operations, run to completion\<close>

definition cached_add ::
  "(Session \<Rightarrow> 'st \<Rightarrow> (SessionError, unit) result \<times> 'st)
   \<Rightarrow> Session \<Rightarrow> 'st \<times> SessionCache \<Rightarrow> (SessionError, unit) result \<times> ('st \<times> SessionCache)" where
  "cached_add iadd session st =
     (let (r, m) = iadd session (fst st) in
      case r of Inl e \<Rightarrow> (Err e, (m, snd st)) | Inr _ \<Rightarrow> (Ok (), (m, add_commit session (snd st))))"

definition cached_delete ::
  "(string \<Rightarrow> string \<Rightarrow> 'st \<Rightarrow> (SessionError, unit) result \<times> 'st)
   \<Rightarrow> string \<Rightarrow> string \<Rightarrow> 'st \<times> SessionCache \<Rightarrow> (SessionError, unit) result \<times> ('st \<times> SessionCache)" where
  "cached_delete idel account channel_id st =
     (let (r, m) = idel account channel_id (fst st) in
      case r of Inl e \<Rightarrow> (Err e, (m, snd st))
      | Inr _ \<Rightarrow> (Ok (), (m, delete_commit account channel_id (snd st))))"

definition cached_get ::
  "(string \<Rightarrow> 'st \<Rightarrow> (SessionError, Session) result)
   \<Rightarrow> string \<Rightarrow> 'st \<times> SessionCache \<Rightarrow> (SessionError, Session) result \<times> ('st \<times> SessionCache)" where
  "cached_get iget channel_id st =
     (case hget (cs_sessions (snd st)) channel_id of
        Some s \<Rightarrow> (Ok s, st)
      | None \<Rightarrow>
          (case iget channel_id (fst st) of
             Inr s \<Rightarrow> (Ok s, (fst st, get_install channel_id s (snd st)))
           | Inl e \<Rightarrow> (Err e, st)))"

fun classify :: "SessionCache \<Rightarrow> string list \<Rightarrow> Location list \<times> string list" where
  "classify c [] = ([], [])"
| "classify c (a # as) =
     (let (hits, misses) = classify c as in
      if hget (cs_neg c) a \<noteq> None then (hits, misses)
      else case hget (cs_locs c) a of
          Some slots \<Rightarrow> (slots @ hits, misses)
        | None \<Rightarrow> (hits, a # misses))"

text \<open>The per-account refill of a multi-account miss; an inner error other than \<open>NotFound\<close> aborts.\<close>

fun refill ::
  "(string list \<Rightarrow> 'st \<Rightarrow> (SessionError, Location list) result) \<Rightarrow> 'st \<Rightarrow> 64 word
   \<Rightarrow> string list \<Rightarrow> SessionCache \<Rightarrow> (SessionError, unit) result \<times> SessionCache" where
  "refill igl m stamp [] c = (Ok (), c)"
| "refill igl m stamp (a # as) c =
     (case igl [a] m of
        Inr v \<Rightarrow> refill igl m stamp as (remember_locs a v stamp c)
      | Inl NotFound \<Rightarrow> refill igl m stamp as (remember_empty a stamp c)
      | Inl e \<Rightarrow> (Err e, c))"

definition cached_get_locations ::
  "(string list \<Rightarrow> 'st \<Rightarrow> (SessionError, Location list) result)
   \<Rightarrow> string list \<Rightarrow> 'st \<times> SessionCache
   \<Rightarrow> (SessionError, Location list) result \<times> ('st \<times> SessionCache)" where
  "cached_get_locations igl accounts st =
     (let (m, c) = st; (hits, misses) = classify c accounts;
          finish = (\<lambda>out c'. (if out = [] then Err NotFound else Ok out, (m, c')))
      in if misses = [] then finish hits c
         else let stamp = fill_stamp c in
           case igl misses m of
             Inr slots \<Rightarrow>
               (case misses of
                  [a] \<Rightarrow> finish (hits @ slots) (remember_locs a slots stamp c)
                | _ \<Rightarrow>
                    (case refill igl m stamp misses c of
                       (Inl e, c') \<Rightarrow> (Err e, (m, c'))
                     | (Inr _, c') \<Rightarrow> finish (hits @ slots) c'))
           | Inl NotFound \<Rightarrow> finish hits (foldl (\<lambda>c a. remember_empty a stamp c) c misses)
           | Inl e \<Rightarrow> (Err e, (m, c)))"

definition cached_get_location ::
  "(string list \<Rightarrow> 'st \<Rightarrow> (SessionError, Location list) result)
   \<Rightarrow> string \<Rightarrow> string \<Rightarrow> 'st \<times> SessionCache
   \<Rightarrow> (SessionError, Location) result \<times> ('st \<times> SessionCache)" where
  "cached_get_location igl account device st =
     (let (m, c) = st;
          miss = (if hget (cs_neg c) account \<noteq> None then (Err NotFound, (m, c))
                  else let stamp = fill_stamp c in
                    case igl [account] m of
                      Inl NotFound \<Rightarrow> (Err NotFound, (m, remember_empty account stamp c))
                    | Inl e \<Rightarrow> (Err e, (m, c))
                    | Inr slots \<Rightarrow>
                        (case pick slots device of
                           None \<Rightarrow> (Err NotFound, (m, c))
                         | Some l \<Rightarrow> (Ok l, (m, remember_locs account slots stamp c))))
      in case hget (cs_locs c) account of
           None \<Rightarrow> miss
         | Some slots \<Rightarrow>
             (case pick slots device of
                Some l \<Rightarrow> (Ok l, (m, c))
              | None \<Rightarrow> if device \<noteq> [] then (Err NotFound, (m, c)) else miss))"

fun cached_step ::
  "(Session \<Rightarrow> 'st \<Rightarrow> (SessionError, unit) result \<times> 'st)
   \<Rightarrow> (string \<Rightarrow> string \<Rightarrow> 'st \<Rightarrow> (SessionError, unit) result \<times> 'st)
   \<Rightarrow> (string \<Rightarrow> 'st \<Rightarrow> (SessionError, Session) result)
   \<Rightarrow> (string list \<Rightarrow> 'st \<Rightarrow> (SessionError, Location list) result)
   \<Rightarrow> store_op \<Rightarrow> 'st \<times> SessionCache \<Rightarrow> store_answer \<times> ('st \<times> SessionCache)" where
  "cached_step add del get gls (OpAdd s) st = (case cached_add add s st of (x, st') \<Rightarrow> (AnsDone x, st'))"
| "cached_step add del get gls (OpDelete a c) st = (case cached_delete del a c st of (x, st') \<Rightarrow> (AnsDone x, st'))"
| "cached_step add del get gls (OpGet c) st = (case cached_get get c st of (x, st') \<Rightarrow> (AnsSession x, st'))"
| "cached_step add del get gls (OpLocations as) st =
     (case cached_get_locations gls as st of (x, st') \<Rightarrow> (AnsLocations x, st'))"
| "cached_step add del get gls (OpLocation a d) st =
     (case cached_get_location gls a d st of (x, st') \<Rightarrow> (AnsLocation x, st'))"

text \<open>A run in which the caches evict as they please before every operation.\<close>

fun cached_run ::
  "(store_op \<Rightarrow> 'st \<times> SessionCache \<Rightarrow> store_answer \<times> ('st \<times> SessionCache))
   \<Rightarrow> (nat \<Rightarrow> SessionCache \<Rightarrow> SessionCache) \<Rightarrow> store_op list \<Rightarrow> 'st \<times> SessionCache \<Rightarrow> store_answer list" where
  "cached_run step ev [] st = []"
| "cached_run step ev (op # ops) st =
     (let (x, st') = step op (fst st, ev (length ops) (snd st)) in x # cached_run step ev ops st')"

text \<open>A batch lookup may list hits before misses, so its answer is compared as a multiset.\<close>

fun ans_eq :: "store_answer \<Rightarrow> store_answer \<Rightarrow> bool" where
  "ans_eq (AnsLocations (Inr xs)) (AnsLocations (Inr ys)) \<longleftrightarrow> mset xs = mset ys"
| "ans_eq x y \<longleftrightarrow> x = y"

section \<open>Coherence with the registry\<close>

definition locs_coherent :: "SessionCache \<Rightarrow> Session list \<Rightarrow> string \<Rightarrow> bool" where
  "locs_coherent c r a \<longleftrightarrow>
     (\<forall>ls. hget (cs_locs c) a = Some ls \<longrightarrow> ls = reg_slots a r)
     \<and> (hget (cs_neg c) a \<noteq> None \<longrightarrow> reg_slots a r = [])"

definition coherent :: "SessionCache \<Rightarrow> Session list \<Rightarrow> bool" where
  "coherent c r \<longleftrightarrow> (\<forall>a. locs_coherent c r a) \<and> hwf (cs_sessions c)
     \<and> (\<forall>ch s. hget (cs_sessions c) ch = Some s \<longrightarrow> reg_get ch r = Ok s)"

lemma coherent_wrap: "coherent cache_wrap r"
  by (simp add: coherent_def locs_coherent_def cache_wrap_def)

lemma segment_sessions [simp]:
  "cs_sessions (track_channel a ch c) = cs_sessions c"
  "cs_locs (track_channel a ch c) = cs_locs c"
  "cs_neg (track_channel a ch c) = cs_neg c"
  "cs_fill_epoch (track_channel a ch c) = cs_fill_epoch c"
  "cs_sessions (untrack_channel a ch c) = cs_sessions c"
  "cs_locs (untrack_channel a ch c) = cs_locs c"
  "cs_neg (untrack_channel a ch c) = cs_neg c"
  "cs_fill_epoch (untrack_channel a ch c) = cs_fill_epoch c"
  by (auto simp: track_channel_def untrack_channel_def Let_def split: option.splits)

lemma bump_simps [simp]:
  "cs_sessions (bump_fill_epoch c) = cs_sessions c"
  "cs_locs (bump_fill_epoch c) = cs_locs c"
  "cs_neg (bump_fill_epoch c) = cs_neg c"
  "cs_channels (bump_fill_epoch c) = cs_channels c"
  "cs_fill_epoch (bump_fill_epoch c) = cs_fill_epoch c + 1"
  by (simp_all add: bump_fill_epoch_def)

lemma remember_sessions [simp]:
  "cs_sessions (remember_locs a ls st c) = cs_sessions c"
  "cs_sessions (remember_empty a st c) = cs_sessions c"
  "cs_fill_epoch (remember_locs a ls st c) = cs_fill_epoch c"
  "cs_fill_epoch (remember_empty a st c) = cs_fill_epoch c"
  by (simp_all add: remember_locs_def remember_empty_def)

lemma locs_coherent_remember_locs [kim_inv]:
  "locs_coherent c r b \<Longrightarrow> ls = reg_slots a r \<Longrightarrow> locs_coherent (remember_locs a ls st c) r b"
  by (auto simp: locs_coherent_def remember_locs_def)

lemma locs_coherent_remember_empty [kim_inv]:
  "locs_coherent c r b \<Longrightarrow> reg_slots a r = [] \<Longrightarrow> locs_coherent (remember_empty a st c) r b"
  by (auto simp: locs_coherent_def remember_empty_def)

lemma coherent_remember_locs [kim_inv]:
  "coherent c r \<Longrightarrow> ls = reg_slots a r \<Longrightarrow> coherent (remember_locs a ls st c) r"
  by (simp add: coherent_def locs_coherent_remember_locs)

lemma coherent_remember_empty [kim_inv]:
  "coherent c r \<Longrightarrow> reg_slots a r = [] \<Longrightarrow> coherent (remember_empty a st c) r"
  by (simp add: coherent_def locs_coherent_remember_empty)

lemma coherent_get_install [kim_inv]:
  "coherent c r \<Longrightarrow> reg_get ch r = Ok s \<Longrightarrow> coherent (get_install ch s c) r"
  by (auto simp: coherent_def locs_coherent_def get_install_def Let_def intro: distinct_update)

lemma coherent_add_commit [kim_inv]:
  assumes "coherent c r" "owns (s_account s) (s_channel_id s) r"
  shows "coherent (add_commit s c) (reg_add s r)"
  using assms
  by (auto simp: coherent_def locs_coherent_def add_commit_def Let_def reg_get_add
      reg_slots_add[OF assms(2)] intro: distinct_update split: if_splits)

lemma coherent_delete_commit [kim_inv]:
  assumes "coherent c r" "owns a ch r"
  shows "coherent (delete_commit a ch c) (reg_delete ch r)"
  using assms
  by (auto simp: coherent_def locs_coherent_def delete_commit_def Let_def reg_get_delete
      reg_slots_delete[OF assms(2)] intro: distinct_delete split: if_splits)

lemma coherent_invalidate [kim_inv]:
  "coherent c r \<Longrightarrow> coherent (invalidate_account a c) r"
  "coherent c r \<Longrightarrow> coherent (invalidate_all c) r"
  by (auto simp: coherent_def locs_coherent_def invalidate_account_def invalidate_all_def Let_def
      hget_hretain intro: hwf_hretain split: option.splits if_splits)

text \<open>Eviction drops entries of the three caches.\<close>

definition evicted :: "SessionCache \<Rightarrow> SessionCache \<Rightarrow> bool" where
  "evicted c c' \<longleftrightarrow> cs_channels c' = cs_channels c \<and> cs_fill_epoch c' = cs_fill_epoch c
     \<and> (hwf (cs_sessions c) \<longrightarrow> hwf (cs_sessions c'))
     \<and> hget (cs_sessions c') \<subseteq>\<^sub>m hget (cs_sessions c)
     \<and> hget (cs_locs c') \<subseteq>\<^sub>m hget (cs_locs c) \<and> hget (cs_neg c') \<subseteq>\<^sub>m hget (cs_neg c)"

lemma submap_Some: "m' \<subseteq>\<^sub>m m \<Longrightarrow> m' k = Some v \<Longrightarrow> m k = Some v"
  by (auto simp: map_le_def dom_def)

lemma evicted_locs_coherent: "evicted c c' \<Longrightarrow> locs_coherent c r a \<Longrightarrow> locs_coherent c' r a"
  unfolding evicted_def locs_coherent_def by (blast dest: submap_Some)

lemma coherent_evicted [kim_inv]: "evicted c c' \<Longrightarrow> coherent c r \<Longrightarrow> coherent c' r"
  by (auto simp: coherent_def evicted_locs_coherent) (auto simp: evicted_def dest: submap_Some)

lemma classify_coherent:
  assumes "coherent c r"
  shows "mset (fst (classify c as)) + mset (concat (map (\<lambda>a. reg_slots a r) (snd (classify c as))))
    = mset (concat (map (\<lambda>a. reg_slots a r) as))"
proof (induction as)
  case Nil
  then show ?case by simp
next
  case (Cons a as)
  have co: "locs_coherent c r a" using assms by (simp add: coherent_def)
  show ?case
    using Cons.IH co
    by (cases "classify c as")
      (auto simp: locs_coherent_def Let_def ac_simps split: option.splits)
qed

section \<open>The cached store over a lawful store\<close>

context session_storage
begin

lemma inner_get_locations_single:
  "sim m r \<Longrightarrow> get_locations [a] m = (if reg_slots a r = [] then Err NotFound else Ok (reg_slots a r))"
  by (simp add: sim_get_locations reg_get_locations_def)

lemma refill_coherent:
  assumes "sim m r" "coherent c r"
  shows "\<exists>c'. refill get_locations m st as c = (Ok (), c') \<and> coherent c' r"
  using assms(2)
  by (induction as arbitrary: c)
    (auto simp: inner_get_locations_single[OF assms(1)] coherent_remember_locs coherent_remember_empty)

lemma remember_empty_all_coherent:
  "coherent c r \<Longrightarrow> (\<forall>a \<in> set as. reg_slots a r = []) \<Longrightarrow>
   coherent (foldl (\<lambda>c a. remember_empty a st c) c as) r"
  by (induction as arbitrary: c) (auto intro: coherent_remember_empty)

lemma cached_get_locations_spec:
  assumes "sim m r" "coherent c r"
  shows "\<exists>c' out. cached_get_locations get_locations as (m, c)
      = (if out = [] then Err NotFound else Ok out, (m, c'))
    \<and> coherent c' r \<and> mset out = mset (concat (map (\<lambda>a. reg_slots a r) as))"
proof -
  obtain hits misses where cl: "classify c as = (hits, misses)" by fastforce
  define all where "all = concat (map (\<lambda>a. reg_slots a r) misses)"
  have ms: "mset hits + mset all = mset (concat (map (\<lambda>a. reg_slots a r) as))"
    using classify_coherent[OF assms(2), of as] cl by (simp add: all_def)
  have inner: "get_locations misses m = (if all = [] then Err NotFound else Ok all)"
    by (simp add: sim_get_locations[OF assms(1)] reg_get_locations_def all_def)
  show ?thesis
  proof (cases "misses = []")
    case True
    then show ?thesis using cl ms assms(2) by (auto simp: cached_get_locations_def all_def)
  next
    case nonempty: False
    show ?thesis
    proof (cases "all = []")
      case True
      then have "\<forall>a \<in> set misses. reg_slots a r = []" by (simp add: all_def)
      then show ?thesis
        using nonempty True inner cl ms remember_empty_all_coherent[OF assms(2)]
        by (auto simp: cached_get_locations_def Let_def)
    next
      case False
      obtain c' where rf: "refill get_locations m (fill_stamp c) misses c = (Ok (), c')" "coherent c' r"
        using refill_coherent[OF assms] by blast
      show ?thesis
      proof (cases "\<exists>a. misses = [a]")
        case True
        then obtain a where "misses = [a]" "all = reg_slots a r" by (auto simp: all_def)
        then show ?thesis
          using inner cl ms False coherent_remember_locs[OF assms(2)]
          by (auto simp: cached_get_locations_def Let_def)
      next
        case several: False
        then obtain a b rest where "misses = a # b # rest"
          using nonempty by (cases misses rule: remdups_adj.cases) auto
        then have "cached_get_locations get_locations as (m, c)
            = (if hits @ all = [] then Err NotFound else Ok (hits @ all), (m, c'))"
          using inner cl rf(1) False by (simp add: cached_get_locations_def Let_def del: refill.simps)
        then show ?thesis using ms rf(2) by (intro exI[of _ c'] exI[of _ "hits @ all"]) simp
      qed
    qed
  qed
qed

lemma cached_get_spec:
  assumes "sim m r" "coherent c r"
  shows "\<exists>c'. cached_get get ch (m, c) = (reg_get ch r, (m, c')) \<and> coherent c' r"
proof (cases "hget (cs_sessions c) ch")
  case None
  then show ?thesis
    using assms(2) coherent_get_install[OF assms(2)] sim_get[OF assms(1), of ch]
    by (cases "reg_get ch r") (auto simp: cached_get_def)
next
  case (Some s)
  then have "reg_get ch r = Ok s" using assms(2) by (simp add: coherent_def)
  then show ?thesis using Some assms(2) by (simp add: cached_get_def)
qed

lemma cached_get_location_spec:
  assumes "sim m r" "coherent c r"
  shows "\<exists>c'. cached_get_location get_locations a d (m, c) = (reg_get_location a d r, (m, c')) \<and> coherent c' r"
proof -
  have co: "locs_coherent c r a" using assms(2) by (simp add: coherent_def)
  have single: "get_locations [a] m = (if reg_slots a r = [] then Err NotFound else Ok (reg_slots a r))"
    by (rule inner_get_locations_single[OF assms(1)])
  have nil: "pick [] d = None" by (simp add: pick_def)
  note defs = cached_get_location_def reg_get_location_def Let_def
  have miss: "\<exists>c'. cached_get_location get_locations a d (m, c) = (reg_get_location a d r, (m, c')) \<and> coherent c' r"
    if "hget (cs_locs c) a = None \<or> (hget (cs_locs c) a = Some (reg_slots a r) \<and> pick (reg_slots a r) d = None)"
  proof (cases "reg_slots a r = []")
    case True
    then show ?thesis
      using that assms(2) single nil coherent_remember_empty[OF assms(2) True] by (auto simp: defs)
  next
    case False
    then have neg: "hget (cs_neg c) a = None" using co by (cases "hget (cs_neg c) a") (auto simp: locs_coherent_def)
    show ?thesis
      using that False neg assms(2) single coherent_remember_locs[OF assms(2) refl]
      by (cases "pick (reg_slots a r) d") (auto simp: defs)
  qed
  show ?thesis
  proof (cases "hget (cs_locs c) a")
    case None
    then show ?thesis using miss by blast
  next
    case (Some ls)
    then have ls: "ls = reg_slots a r" using co by (simp add: locs_coherent_def)
    show ?thesis
    proof (cases "pick ls d")
      case None
      then show ?thesis using Some ls miss by blast
    next
      case hit: (Some l)
      then show ?thesis using Some ls assms(2) by (simp add: defs)
    qed
  qed
qed

lemma ans_eq_refl [simp]: "ans_eq x x"
proof (cases x)
  case (AnsLocations res)
  then show ?thesis by (cases res) simp_all
qed simp_all

lemma cached_step_refines:
  assumes "sim m r" "coherent c r" "op_allowed op r"
  shows "\<exists>x m' c'. cached_step add delete get get_locations op (m, c) = (x, (m', c'))
    \<and> ans_eq x (fst (reg_step op r)) \<and> sim m' (snd (reg_step op r)) \<and> coherent c' (snd (reg_step op r))"
proof (cases op)
  case (OpAdd s)
  then show ?thesis
    using assms add_ok[of s m] sim_add[of m r s] coherent_add_commit[OF assms(2), of s]
    by (cases "add s m") (simp add: cached_add_def)
next
  case (OpDelete a ch)
  then show ?thesis
    using assms delete_ok[of a ch m] sim_delete[of m r a ch] coherent_delete_commit[OF assms(2), of a ch]
    by (cases "delete a ch m") (simp add: cached_delete_def)
next
  case (OpGet ch)
  then show ?thesis using cached_get_spec[OF assms(1,2), of ch] assms(1) by auto
next
  case (OpLocations as)
  obtain c' out where out: "cached_get_locations get_locations as (m, c)
      = (if out = [] then Err NotFound else Ok out, (m, c'))" "coherent c' r"
      "mset out = mset (concat (map (\<lambda>a. reg_slots a r) as))"
    using cached_get_locations_spec[OF assms(1,2)] by blast
  have "out = [] \<longleftrightarrow> concat (map (\<lambda>a. reg_slots a r) as) = []"
    using out(3) by (metis mset_zero_iff)
  then show ?thesis using OpLocations out assms(1) by (simp add: reg_get_locations_def Let_def)
next
  case (OpLocation a d)
  then show ?thesis using cached_get_location_spec[OF assms(1,2), of a d] assms(1) by auto
qed

lemma cached_run_refines:
  assumes "\<And>n c. evicted c (ev n c)"
  shows "sim m r \<Longrightarrow> coherent c r \<Longrightarrow> ops_allowed ops r \<Longrightarrow>
    list_all2 ans_eq (cached_run (cached_step add delete get get_locations) ev ops (m, c)) (reg_run ops r)"
proof (induction ops arbitrary: m r c)
  case (Cons op ops)
  have "coherent (ev (length ops) c) r" using coherent_evicted[OF assms Cons.prems(2)] .
  then obtain x m' c' where "cached_step add delete get get_locations op (m, ev (length ops) c) = (x, (m', c'))"
    "ans_eq x (fst (reg_step op r))" "sim m' (snd (reg_step op r))" "coherent c' (snd (reg_step op r))"
    using cached_step_refines[OF Cons.prems(1)] Cons.prems(3) by fastforce
  then show ?case using Cons by (simp add: split_beta Let_def)
qed simp

end

section \<open>Interleaved callers\<close>

text \<open>
  Concurrent calls interleave at the awaits on the inner store. A write is in flight from the moment
  the inner store changed until its segment under the epoch lock ran; another instance's write stays
  in flight until its invalidation message is handled. A location fill takes its stamp, reads the
  inner store, and installs; the bump count at its start is kept as a ghost value.
\<close>

datatype in_flight = InAdd Session | InDelete string string | InRemote string

fun write_account :: "in_flight \<Rightarrow> string" where
  "write_account (InAdd s) = s_account s"
| "write_account (InDelete a ch) = a"
| "write_account (InRemote a) = a"

fun write_commit :: "in_flight \<Rightarrow> SessionCache \<Rightarrow> SessionCache" where
  "write_commit (InAdd s) = add_commit s"
| "write_commit (InDelete a ch) = delete_commit a ch"
| "write_commit (InRemote a) = invalidate_account a"

datatype fill = FillStarted string "64 word" nat | FillRead string "Location list" "64 word" nat

record cache_sys =
  y_reg :: "Session list"
  y_cache :: SessionCache
  y_writes :: "in_flight list"
  y_fills :: "fill list"
  y_gets :: "(string \<times> Session) list"
  y_bumps :: nat

definition cache_sys_init :: cache_sys where
  "cache_sys_init = \<lparr>y_reg = [], y_cache = cache_wrap, y_writes = [], y_fills = [], y_gets = [], y_bumps = 0\<rparr>"

definition fill_install :: "string \<Rightarrow> Location list \<Rightarrow> 64 word \<Rightarrow> SessionCache \<Rightarrow> SessionCache" where
  "fill_install a ls stamp c = (if ls = [] then remember_empty a stamp c else remember_locs a ls stamp c)"

inductive cache_step :: "cache_sys \<Rightarrow> cache_sys \<Rightarrow> bool" where
  add_inner: "owns (s_account s) (s_channel_id s) (y_reg y) \<Longrightarrow>
    cache_step y (y\<lparr>y_reg := reg_add s (y_reg y), y_writes := InAdd s # y_writes y\<rparr>)"
| delete_inner: "owns a ch (y_reg y) \<Longrightarrow>
    cache_step y (y\<lparr>y_reg := reg_delete ch (y_reg y), y_writes := InDelete a ch # y_writes y\<rparr>)"
| remote_add: "owns (s_account s) (s_channel_id s) (y_reg y) \<Longrightarrow> s_account s \<noteq> [] \<Longrightarrow>
    cache_step y (y\<lparr>y_reg := reg_add s (y_reg y), y_writes := InRemote (s_account s) # y_writes y\<rparr>)"
| remote_delete: "owns a ch (y_reg y) \<Longrightarrow> a \<noteq> [] \<Longrightarrow>
    cache_step y (y\<lparr>y_reg := reg_delete ch (y_reg y), y_writes := InRemote a # y_writes y\<rparr>)"
| commit: "w \<in> set (y_writes y) \<Longrightarrow>
    cache_step y (y\<lparr>y_cache := write_commit w (y_cache y), y_writes := remove1 w (y_writes y),
      y_bumps := Suc (y_bumps y)\<rparr>)"
| invalidate: "a \<noteq> [] \<Longrightarrow>
    cache_step y (y\<lparr>y_cache := invalidate_account a (y_cache y), y_bumps := Suc (y_bumps y)\<rparr>)"
| resubscribed: "cache_step y (y\<lparr>y_cache := invalidate_all (y_cache y), y_bumps := Suc (y_bumps y)\<rparr>)"
| evict: "evicted (y_cache y) c' \<Longrightarrow> cache_step y (y\<lparr>y_cache := c'\<rparr>)"
| fill_start: "cache_step y (y\<lparr>y_fills := FillStarted a (fill_stamp (y_cache y)) (y_bumps y) # y_fills y\<rparr>)"
| fill_read: "FillStarted a stamp b \<in> set (y_fills y) \<Longrightarrow>
    cache_step y (y\<lparr>y_fills := FillRead a (reg_slots a (y_reg y)) stamp b
      # remove1 (FillStarted a stamp b) (y_fills y)\<rparr>)"
| fill_end: "FillRead a ls stamp b \<in> set (y_fills y) \<Longrightarrow>
    cache_step y (y\<lparr>y_cache := fill_install a ls stamp (y_cache y),
      y_fills := remove1 (FillRead a ls stamp b) (y_fills y)\<rparr>)"
| fill_drop: "cache_step y (y\<lparr>y_fills := remove1 f (y_fills y)\<rparr>)"
| get_read: "hget (cs_sessions (y_cache y)) ch = None \<Longrightarrow> reg_get ch (y_reg y) = Ok s \<Longrightarrow>
    cache_step y (y\<lparr>y_gets := (ch, s) # y_gets y\<rparr>)"
| get_end: "(ch, s) \<in> set (y_gets y) \<Longrightarrow>
    cache_step y (y\<lparr>y_cache := get_install ch s (y_cache y), y_gets := remove1 (ch, s) (y_gets y)\<rparr>)"

inductive cache_reach :: "cache_sys \<Rightarrow> bool" where
  init: "cache_reach cache_sys_init"
| step: "cache_reach y \<Longrightarrow> cache_step y y' \<Longrightarrow> cache_reach y'"

definition quiet :: "string \<Rightarrow> cache_sys \<Rightarrow> bool" where
  "quiet a y \<longleftrightarrow> (\<forall>w \<in> set (y_writes y). write_account w \<noteq> a)"

text \<open>
  Until the 64-bit epoch wraps: stamps name their bump count, what a fill of the current epoch read
  is still true of an account with no write in flight, and so is what the cache holds.
\<close>

fun fill_inv :: "cache_sys \<Rightarrow> fill \<Rightarrow> bool" where
  "fill_inv y (FillStarted a stamp b) \<longleftrightarrow> stamp = of_nat b \<and> b \<le> y_bumps y"
| "fill_inv y (FillRead a ls stamp b) \<longleftrightarrow> stamp = of_nat b \<and> b \<le> y_bumps y
     \<and> (b = y_bumps y \<longrightarrow> quiet a y \<longrightarrow> ls = reg_slots a (y_reg y))"

definition cache_inv :: "cache_sys \<Rightarrow> bool" where
  "cache_inv y \<longleftrightarrow> cs_fill_epoch (y_cache y) = of_nat (y_bumps y)
     \<and> (\<forall>f \<in> set (y_fills y). fill_inv y f)
     \<and> (\<forall>a. quiet a y \<longrightarrow> locs_coherent (y_cache y) (y_reg y) a)
     \<and> (\<forall>w \<in> set (y_writes y). \<forall>a. w = InRemote a \<longrightarrow> a \<noteq> [])"

lemma write_commit_locs:
  "(\<And>a. w = InRemote a \<Longrightarrow> a \<noteq> []) \<Longrightarrow> hget (cs_locs (write_commit w c)) a = (if a = write_account w then None else hget (cs_locs c) a)
   \<and> hget (cs_neg (write_commit w c)) a = (if a = write_account w then None else hget (cs_neg c) a)
   \<and> cs_fill_epoch (write_commit w c) = cs_fill_epoch c + 1"
  by (cases w) (auto simp: add_commit_def delete_commit_def invalidate_account_def Let_def)

lemma fill_inv_mono:
  "fill_inv y f \<Longrightarrow> y_bumps y' = Suc (y_bumps y) \<Longrightarrow> fill_inv y' f"
  by (cases f) auto

lemma cache_inv_write:
  assumes "cache_inv y" "write_account w = a" "\<And>b. b \<noteq> a \<Longrightarrow> reg_slots b r' = reg_slots b (y_reg y)"
    "\<And>b. w = InRemote b \<Longrightarrow> b \<noteq> []"
  shows "cache_inv (y\<lparr>y_reg := r', y_writes := w # y_writes y\<rparr>)"
proof -
  let ?y = "y\<lparr>y_reg := r', y_writes := w # y_writes y\<rparr>"
  have q: "quiet b ?y \<longleftrightarrow> b \<noteq> a \<and> quiet b y" for b using assms(2) by (auto simp: quiet_def)
  have "fill_inv ?y f" if "fill_inv y f" for f
    using that by (cases f) (auto simp: q assms(3))
  moreover have "locs_coherent (y_cache y) r' b" if "quiet b ?y" for b
    using that assms(1,3) by (auto simp: q cache_inv_def locs_coherent_def)
  ultimately show ?thesis using assms(1,4) by (auto simp: cache_inv_def)
qed

lemma cache_inv_bump:
  assumes "cache_inv y" "cs_fill_epoch c' = cs_fill_epoch (y_cache y) + 1" "set ws \<subseteq> set (y_writes y)"
    "\<And>a. quiet a (y\<lparr>y_writes := ws\<rparr>) \<Longrightarrow> locs_coherent c' (y_reg y) a"
  shows "cache_inv (y\<lparr>y_cache := c', y_writes := ws, y_bumps := Suc (y_bumps y)\<rparr>)"
proof -
  let ?y = "y\<lparr>y_cache := c', y_writes := ws, y_bumps := Suc (y_bumps y)\<rparr>"
  have "fill_inv ?y f" if "f \<in> set (y_fills y)" for f
    using that assms(1) by (auto simp: cache_inv_def intro: fill_inv_mono)
  then show ?thesis using assms by (auto simp: cache_inv_def quiet_def)
qed

lemma cache_inv_fills:
  assumes "cache_inv y" "\<And>f. f \<in> set fs \<Longrightarrow> f \<in> set (y_fills y) \<or> fill_inv y f"
  shows "cache_inv (y\<lparr>y_fills := fs\<rparr>)"
proof -
  have "fill_inv (y\<lparr>y_fills := fs\<rparr>) f \<longleftrightarrow> fill_inv y f" for f by (cases f) (auto simp: quiet_def)
  then show ?thesis using assms by (auto simp: cache_inv_def quiet_def)
qed

lemma cache_inv_cache:
  assumes "cache_inv y" "cs_fill_epoch c' = cs_fill_epoch (y_cache y)"
    "\<And>a. quiet a y \<Longrightarrow> locs_coherent (y_cache y) (y_reg y) a \<Longrightarrow> locs_coherent c' (y_reg y) a"
  shows "cache_inv (y\<lparr>y_cache := c'\<rparr>)"
proof -
  have "fill_inv (y\<lparr>y_cache := c'\<rparr>) f \<longleftrightarrow> fill_inv y f" for f by (cases f) (auto simp: quiet_def)
  then show ?thesis using assms by (auto simp: cache_inv_def quiet_def)
qed

lemma cache_inv_gets [simp]: "cache_inv (y\<lparr>y_gets := g\<rparr>) \<longleftrightarrow> cache_inv y"
proof -
  have "fill_inv (y\<lparr>y_gets := g\<rparr>) f \<longleftrightarrow> fill_inv y f" for f by (cases f) (auto simp: quiet_def)
  then show ?thesis by (auto simp: cache_inv_def quiet_def)
qed

lemma fill_install_current:
  assumes "cache_inv y" "FillRead a ls stamp b \<in> set (y_fills y)" "y_bumps y < 2 ^ 64" "quiet d y"
    "locs_coherent (y_cache y) (y_reg y) d"
  shows "locs_coherent (fill_install a ls stamp (y_cache y)) (y_reg y) d"
proof (cases "stamp = cs_fill_epoch (y_cache y)")
  case True
  have fi: "stamp = of_nat b" "b \<le> y_bumps y" "b = y_bumps y \<longrightarrow> quiet a y \<longrightarrow> ls = reg_slots a (y_reg y)"
    using assms(1,2) by (auto simp: cache_inv_def)
  have "(of_nat b :: 64 word) = of_nat (y_bumps y)" using True fi(1) assms(1) by (simp add: cache_inv_def)
  then have "unat (of_nat b :: 64 word) = unat (of_nat (y_bumps y) :: 64 word)" by simp
  then have "b = y_bumps y" using fi(2) assms(3) by (simp add: unat_of_nat take_bit_eq_mod)
  then have "d = a \<Longrightarrow> ls = reg_slots a (y_reg y)" using fi(3) assms(4) by blast
  then show ?thesis using assms(5)
    by (auto simp: fill_install_def locs_coherent_def remember_locs_def remember_empty_def)
next
  case False
  then show ?thesis using assms(5) by (auto simp: fill_install_def remember_locs_def remember_empty_def)
qed

lemma quiet_remove1:
  "quiet a (y\<lparr>y_writes := remove1 w (y_writes y)\<rparr>) \<Longrightarrow> a \<noteq> write_account w \<Longrightarrow> quiet a y"
  by (auto simp: quiet_def) (metis in_set_remove1)

lemma cache_inv_step:
  assumes "cache_step y y'" "cache_inv y" "y_bumps y' < 2 ^ 64"
  shows "cache_inv y'"
  using assms
proof (induction rule: cache_step.induct)
  case (add_inner s y)
  then show ?case by (intro cache_inv_write) (auto simp: reg_slots_add)
next
  case (delete_inner a ch y)
  then show ?case by (intro cache_inv_write) (auto simp: reg_slots_delete)
next
  case (remote_add s y)
  then show ?case by (intro cache_inv_write) (auto simp: reg_slots_add)
next
  case (remote_delete a ch y)
  then show ?case by (intro cache_inv_write) (auto simp: reg_slots_delete)
next
  case (commit w y)
  have w: "\<And>a. w = InRemote a \<Longrightarrow> a \<noteq> []" using commit by (auto simp: cache_inv_def)
  show ?case
  proof (rule cache_inv_bump)
    fix a assume q: "quiet a (y\<lparr>y_writes := remove1 w (y_writes y)\<rparr>)"
    have co: "a \<noteq> write_account w \<Longrightarrow> locs_coherent (y_cache y) (y_reg y) a"
      using quiet_remove1[OF q] commit.prems by (auto simp: cache_inv_def)
    show "locs_coherent (write_commit w (y_cache y)) (y_reg y) a"
      using co write_commit_locs[of w "y_cache y" a, OF w] unfolding locs_coherent_def by auto
  qed (use commit write_commit_locs[of w "y_cache y", OF w] set_remove1_subset[of w "y_writes y"] in auto)
next
  case (invalidate a y)
  have "cache_inv (y\<lparr>y_cache := invalidate_account a (y_cache y), y_writes := y_writes y, y_bumps := Suc (y_bumps y)\<rparr>)"
    by (rule cache_inv_bump)
      (use invalidate in \<open>auto simp: cache_inv_def locs_coherent_def invalidate_account_def Let_def\<close>)
  then show ?case by simp
next
  case (resubscribed y)
  have "cache_inv (y\<lparr>y_cache := invalidate_all (y_cache y), y_writes := y_writes y, y_bumps := Suc (y_bumps y)\<rparr>)"
    by (rule cache_inv_bump) (use resubscribed in \<open>auto simp: locs_coherent_def invalidate_all_def\<close>)
  then show ?case by simp
next
  case (evict y c')
  then show ?case by (intro cache_inv_cache) (auto simp: evicted_locs_coherent, simp add: evicted_def)
next
  case (fill_start y a)
  then show ?case by (intro cache_inv_fills) (auto simp: fill_stamp_def cache_inv_def)
next
  case (fill_read a stamp b y)
  then have "fill_inv y (FillStarted a stamp b)" unfolding cache_inv_def by blast
  then show ?case using fill_read by (intro cache_inv_fills) (auto dest: set_remove1_subset[THEN subsetD])
next
  case (fill_end a ls stamp b y)
  have "cache_inv (y\<lparr>y_cache := fill_install a ls stamp (y_cache y)\<rparr>)"
    by (rule cache_inv_cache)
      (use fill_end fill_install_current in \<open>auto simp: fill_install_def\<close>)
  then have "cache_inv (y\<lparr>y_cache := fill_install a ls stamp (y_cache y)\<rparr>
      \<lparr>y_fills := remove1 (FillRead a ls stamp b) (y_fills y)\<rparr>)"
    by (rule cache_inv_fills) (auto dest: set_remove1_subset[THEN subsetD])
  then show ?case by simp
next
  case (fill_drop y f)
  then show ?case by (intro cache_inv_fills) (auto dest: set_remove1_subset[THEN subsetD])
next
  case (get_read y ch s)
  then show ?case by simp
next
  case (get_end ch s y)
  have "cache_inv (y\<lparr>y_cache := get_install ch s (y_cache y)\<rparr>)"
    by (rule cache_inv_cache) (use get_end in \<open>auto simp: get_install_def Let_def locs_coherent_def\<close>)
  then have "cache_inv (y\<lparr>y_cache := get_install ch s (y_cache y)\<rparr>
      \<lparr>y_gets := remove1 (ch, s) (y_gets y)\<rparr>)" by (simp only: cache_inv_gets)
  then show ?case by simp
qed

lemma cache_step_bumps: "cache_step y y' \<Longrightarrow> y_bumps y \<le> y_bumps y'"
  by (induction rule: cache_step.induct) auto

lemma cache_reach_inv: "cache_reach y \<Longrightarrow> y_bumps y < 2 ^ 64 \<Longrightarrow> cache_inv y"
proof (induction rule: cache_reach.induct)
  case init
  then show ?case by (simp add: cache_inv_def cache_sys_init_def cache_wrap_def locs_coherent_def)
next
  case (step y y')
  then show ?case using cache_step_bumps[OF step(2)] cache_inv_step[OF step(2)] by simp
qed

section \<open>Properties\<close>

text \<open>The write-through cache is transparent: over the in-memory store, for any operation sequence
  and whatever entries the caches evict in between, every answer is the registry's (a batch of
  locations up to order).\<close>

theorem cached_store_transparent:
  assumes "ops_allowed ops []" "\<And>n c. evicted c (ev n c)"
  shows "list_all2 ans_eq
    (cached_run (cached_step mem_add mem_delete mem_get mem_get_locations) ev ops (mem_new, cache_wrap))
    (reg_run ops [])"
  by (rule mem.cached_run_refines[OF assms(2) mem_sim_new coherent_wrap assms(1)])

theorem cached_store_transparent_witness:
  "list_all2 ans_eq
    (cached_run (cached_step mem_add mem_delete mem_get mem_get_locations) (\<lambda>n c. c\<lparr>cs_sessions := []\<rparr>)
      [OpAdd demo_session, OpLocations [''bob'', ''alice''], OpLocations [''alice''], OpDelete ''alice'' ''c1'', OpGet ''c1'']
      (mem_new, cache_wrap))
    [AnsDone (Ok ()), AnsLocations (Ok [loc_of demo_session]), AnsLocations (Ok [loc_of demo_session]),
     AnsDone (Ok ()), AnsSession (Err NotFound)]"
proof -
  let ?ops = "[OpAdd demo_session, OpLocations [''bob'', ''alice''], OpLocations [''alice''],
    OpDelete ''alice'' ''c1'', OpGet ''c1'']"
  have "ops_allowed ?ops []"
    "reg_run ?ops [] = [AnsDone (Ok ()), AnsLocations (Ok [loc_of demo_session]),
      AnsLocations (Ok [loc_of demo_session]), AnsDone (Ok ()), AnsSession (Err NotFound)]"
    by code_simp+
  moreover have "evicted c (c\<lparr>cs_sessions := []\<rparr>)" for c by (simp add: evicted_def)
  ultimately show ?thesis using cached_store_transparent[of ?ops "\<lambda>n c. c\<lparr>cs_sessions := []\<rparr>"] by simp
qed

text \<open>C35: Under any interleaving of local writes, writes of other instances, location fills, session
  lookups, invalidations and evictions, and as long as the 64-bit fill epoch has not wrapped, what
  the cache holds about an account with no write in flight (its location list, or the negative
  entry) is exactly what the inner store holds.\<close>

theorem cached_locations_never_stale:
  assumes "cache_reach y" "y_bumps y < 2 ^ 64" "quiet a y"
  shows "locs_coherent (y_cache y) (y_reg y) a"
  using cache_reach_inv[OF assms(1,2)] assms(3) by (simp add: cache_inv_def)

definition demo_added :: cache_sys where
  "demo_added = cache_sys_init\<lparr>y_reg := [demo_session], y_cache := add_commit demo_session cache_wrap, y_bumps := 1\<rparr>"

lemmas cache_reach_next = cache_reach.step[OF _ cache_step.add_inner]
  cache_reach.step[OF _ cache_step.delete_inner] cache_reach.step[OF _ cache_step.commit]
  cache_reach.step[OF _ cache_step.invalidate] cache_reach.step[OF _ cache_step.fill_start]
  cache_reach.step[OF _ cache_step.fill_read] cache_reach.step[OF _ cache_step.fill_end]
  cache_reach.step[OF _ cache_step.get_read] cache_reach.step[OF _ cache_step.get_end]

lemma demo_added_reach: "cache_reach demo_added"
proof -
  have "cache_reach (cache_sys_init\<lparr>y_reg := [demo_session], y_writes := [InAdd demo_session]\<rparr>)"
    using cache_reach_next(1)[OF cache_reach.init, of demo_session]
    by (simp add: cache_sys_init_def owns_def reg_add_def)
  from cache_reach_next(3)[OF this, of "InAdd demo_session"] show ?thesis
    by (simp add: demo_added_def cache_sys_init_def)
qed

definition demo_filled :: cache_sys where
  "demo_filled = demo_added\<lparr>y_cache := remember_locs ''alice'' [loc_of demo_session] 1 (y_cache demo_added), y_fills := []\<rparr>"

lemma demo_filled_reach: "cache_reach demo_filled"
proof -
  have st: "fill_stamp (y_cache demo_added) = 1" "y_bumps demo_added = 1" "y_fills demo_added = []"
    "reg_slots ''alice'' (y_reg demo_added) = [loc_of demo_session]"
    by (simp_all add: demo_added_def fill_stamp_def add_commit_def Let_def cache_wrap_def
        cache_sys_init_def reg_slots_def demo_session_def)
  have "cache_reach (demo_added\<lparr>y_fills := [FillStarted ''alice'' 1 1]\<rparr>)"
    using cache_reach_next(5)[OF demo_added_reach, of "''alice''"] by (simp add: st)
  from cache_reach_next(6)[OF this, of "''alice''" 1 1]
  have "cache_reach (demo_added\<lparr>y_fills := [FillRead ''alice'' [loc_of demo_session] 1 1]\<rparr>)" by (simp add: st)
  from cache_reach_next(7)[OF this, of "''alice''" "[loc_of demo_session]" 1 1] show ?thesis
    by (simp add: demo_filled_def fill_install_def st)
qed

theorem cached_locations_never_stale_witness:
  "locs_coherent (y_cache demo_filled) (y_reg demo_filled) ''alice''
   \<and> hget (cs_locs (y_cache demo_filled)) ''alice'' = Some [loc_of demo_session]"
proof
  show "locs_coherent (y_cache demo_filled) (y_reg demo_filled) ''alice''"
    by (rule cached_locations_never_stale[OF demo_filled_reach])
      (simp_all add: demo_filled_def demo_added_def cache_sys_init_def quiet_def)
  show "hget (cs_locs (y_cache demo_filled)) ''alice'' = Some [loc_of demo_session]"
    by (simp add: demo_filled_def demo_added_def cache_sys_init_def remember_locs_def add_commit_def
        cache_wrap_def Let_def)
qed

text \<open>A session lookup has no such protection: its miss path installs what it read without looking
  at the fill epoch. There is a reachable state with nothing in flight in which the cache still
  returns a session that has been deleted from the inner store.\<close>

theorem cached_session_can_be_stale:
  "\<exists>y ch. cache_reach y \<and> y_writes y = [] \<and> y_gets y = [] \<and> y_fills y = [] \<and> y_bumps y < 2 ^ 64
     \<and> reg_get ch (y_reg y) = Err NotFound
     \<and> fst (cached_get reg_get ch (y_reg y, y_cache y)) = Ok demo_session"
proof -
  note sd = demo_added_def demo_session_def cache_sys_init_def cache_wrap_def Let_def
  let ?ca = "invalidate_account ''alice'' (y_cache demo_added)"
  let ?y1 = "demo_added\<lparr>y_cache := ?ca, y_bumps := Suc 1\<rparr>"
  have "cache_reach ?y1"
    using cache_reach_next(4)[OF demo_added_reach, of "''alice''"] by (simp add: demo_added_def)
  from cache_reach_next(8)[OF this, of "''c1''" demo_session]
  have "cache_reach (?y1\<lparr>y_gets := [(''c1'', demo_session)]\<rparr>)"
    by (simp add: sd invalidate_account_def add_commit_def track_channel_def hretain_def reg_get_def)
  from cache_reach_next(2)[OF this, of "''alice''" "''c1''"]
  have "cache_reach (?y1\<lparr>y_gets := [(''c1'', demo_session)], y_reg := [], y_writes := [InDelete ''alice'' ''c1'']\<rparr>)"
    by (simp add: sd owns_def reg_delete_def)
  from cache_reach_next(3)[OF this, of "InDelete ''alice'' ''c1''"]
  have "cache_reach (?y1\<lparr>y_gets := [(''c1'', demo_session)], y_reg := [], y_writes := [],
      y_cache := delete_commit ''alice'' ''c1'' ?ca, y_bumps := Suc (Suc 1)\<rparr>)"
    by (simp add: demo_added_def cache_sys_init_def)
  from cache_reach_next(9)[OF this, of "''c1''" demo_session]
  have "cache_reach (?y1\<lparr>y_gets := [], y_reg := [], y_writes := [],
      y_cache := get_install ''c1'' demo_session (delete_commit ''alice'' ''c1'' ?ca), y_bumps := Suc (Suc 1)\<rparr>)"
    by (simp add: demo_added_def cache_sys_init_def)
  then show ?thesis
    by (rule_tac exI, rule_tac exI[of _ "''c1''"], rule_tac conjI, assumption)
      (simp add: reg_get_def cached_get_def get_install_def Let_def demo_added_def cache_sys_init_def)
qed

end
