(* ===== verification/Kim_Message_Store.thy ===== *)
theory Kim_Message_Store
  imports Kim_Prelude
begin

text \<open>
  The in-memory message store of \<open>services/chat/src/store/mod.rs\<close>: the write-fanout index (one row per
  account that sees a message), the message contents, idempotency keys, read watermarks, state
  versions, delivery receipts and bot turns. Every operation that changes the state is here, with the
  invariant that ties the tables together: both indexes are views of one log of rows. The queries and
  their properties are in \<open>Kim_Message_Query\<close>.

  An operation's clock readings (\<open>Instant::now\<close>, \<open>now_unix_nano\<close>) and the values its calls of the
  identifier generator return are arguments; instants count nanoseconds of the monotonic clock.
\<close>

section \<open>Data\<close>

definition DIRECTION_RECV :: int where "DIRECTION_RECV = 0"
definition DIRECTION_SEND :: int where "DIRECTION_SEND = 1"
definition OFFLINE_SYNC_INDEX_COUNT :: nat where "OFFLINE_SYNC_INDEX_COUNT = 2000"
definition MESSAGE_MAX_COUNT_PER_PAGE :: nat where "MESSAGE_MAX_COUNT_PER_PAGE = 200"
definition DAY_NANOS :: int where "DAY_NANOS = 24 * 60 * 60 * 1000000000"
definition EXPIRES_NANOS :: int where "EXPIRES_NANOS = 15 * DAY_NANOS"
definition ACK_TTL :: nat where "ACK_TTL = 30 * 24 * 3600 * 1000000000"
definition RECEIPT_TTL :: nat where "RECEIPT_TTL = 15 * 24 * 3600 * 1000000000"

datatype IdError = IdInit string | IdNext string | IdOverflow

datatype StoreError =
    StoreId IdError
  | StoreHttp nat string
  | StoreInvalid string
  | StoreNotFound
  | StoreBackend string

datatype MessageKind = UserMsg | GroupMsg

record DeliveryTarget =
  dt_account :: string
  dt_target_id :: string

record InsertMessage =
  im_sender :: string
  im_dest :: string
  im_send_time :: int
  im_msg_type :: int
  im_body :: string
  im_extra :: string
  im_client_id :: string
  im_online_targets :: "DeliveryTarget list"

record Fanout =
  fo_msg_type :: int
  fo_body :: string
  fo_extra :: string
  fo_sender :: string
  fo_dest :: string
  fo_kind :: MessageKind
  fo_recipients :: "string list"

record InsertResult =
  res_message_id :: int
  res_send_time :: int
  res_duplicate :: bool
  res_fanout :: Fanout

record StoredMessage =
  sm_message_id :: int
  sm_app :: string
  sm_kind :: MessageKind
  sm_sender :: string
  sm_dest :: string
  sm_send_time :: int
  sm_msg_type :: int
  sm_body :: string
  sm_extra :: string

record InboxRow =
  ir_app :: string
  ir_account_a :: string
  ir_account_b :: string
  ir_direction :: int
  ir_message_id :: int
  ir_group_id :: string
  ir_send_time :: int

record PendingEntry =
  pe_created_at :: nat
  pe_expires_at :: nat
  pe_acked_at :: "nat option"

record AckEntry =
  ae_message_id :: int
  ae_expires_at :: nat

record ConversationReadState =
  cr_dest :: string
  cr_kind :: MessageKind
  cr_last_read_message_id :: int
  cr_max_message_id :: int
  cr_unread :: int
  cr_version :: nat
  cr_exists :: bool

record Inner =
  in_contents :: "(int, StoredMessage) hmap"
  in_by_account :: "(string, (string, InboxRow list) hmap) hmap"
  in_by_message :: "(int, InboxRow list) hmap"
  in_idempotency :: "(string \<times> string \<times> string, int \<times> int) hmap"
  in_reads :: "(string \<times> string \<times> string \<times> string, int) hmap"
  in_versions :: "(string \<times> string \<times> string \<times> int, nat) hmap"
  in_next_version :: nat
  in_pending :: "(string \<times> string \<times> string \<times> int, PendingEntry) hmap"
  in_bot_turns :: "(string \<times> string \<times> int, int) hmap"

record MemoryMessageStore =
  mm_pending_receipt :: bool
  mm_ack :: "(string, AckEntry) hmap"
  mm_inner :: Inner

definition Inner_default :: Inner where
  "Inner_default = \<lparr>in_contents = [], in_by_account = [], in_by_message = [], in_idempotency = [],
     in_reads = [], in_versions = [], in_next_version = 0, in_pending = [], in_bot_turns = []\<rparr>"

definition message_store_new :: "bool \<Rightarrow> MemoryMessageStore" where
  "message_store_new pending_receipt =
     \<lparr>mm_pending_receipt = pending_receipt, mm_ack = [], mm_inner = Inner_default\<rparr>"

section \<open>Helpers\<close>

definition collect_ack_ids :: "int \<Rightarrow> int list \<Rightarrow> int list" where
  "collect_ack_ids message_id extra =
     (let seen = (if message_id \<noteq> 0 then {message_id} else {});
          out = (if message_id \<noteq> 0 then [message_id] else [])
      in dedup_loop (filter (\<lambda>i. i \<noteq> 0) extra) seen out)"

definition unique_accounts :: "string list \<Rightarrow> string list" where
  "unique_accounts accounts = dedup_loop accounts {} []"

definition recv_accounts :: "InsertMessage \<Rightarrow> string list option \<Rightarrow> string list" where
  "recv_accounts req members =
     (case members of
        None \<Rightarrow> [im_dest req]
      | Some ms \<Rightarrow> unique_accounts (filter (\<lambda>m. m \<noteq> im_sender req) ms))"

text \<open>The tuples \<open>(account_a, account_b, direction, group_id)\<close> of the index rows of one message.\<close>

type_synonym fan_row = "string \<times> string \<times> int \<times> string"

definition fanout_from_index_rows :: "int \<Rightarrow> string \<Rightarrow> string \<Rightarrow> fan_row list \<Rightarrow> Fanout" where
  "fanout_from_index_rows msg_type body extra rows =
     (let mk = (\<lambda>sender dest kind recipients. \<lparr>fo_msg_type = msg_type, fo_body = body, fo_extra = extra,
            fo_sender = sender, fo_dest = dest, fo_kind = kind, fo_recipients = recipients\<rparr>)
      in case rows of
           [] \<Rightarrow> mk [] [] UserMsg []
         | (a0, b0, _, _) # _ \<Rightarrow>
             let recipients = unique_accounts (map fst rows) in
             case List.find (\<lambda>(_, _, _, g). g \<noteq> []) rows of
               Some (_, account_b, _, group_id) \<Rightarrow> mk account_b group_id GroupMsg recipients
             | None \<Rightarrow>
                 (case List.find (\<lambda>(_, _, d, _). d = DIRECTION_SEND) rows of
                    Some (a, b, _, _) \<Rightarrow> mk a b UserMsg recipients
                  | None \<Rightarrow> mk b0 a0 UserMsg recipients))"

definition fanout_from_write :: "MessageKind \<Rightarrow> InsertMessage \<Rightarrow> string list \<Rightarrow> Fanout" where
  "fanout_from_write kind req members =
     fanout_from_index_rows (im_msg_type req) (im_body req) (im_extra req)
       (case kind of
          UserMsg \<Rightarrow> [(im_sender req, im_dest req, DIRECTION_SEND, []),
                      (im_dest req, im_sender req, DIRECTION_RECV, [])]
        | GroupMsg \<Rightarrow> map (\<lambda>m. (m, im_sender req,
            if m = im_sender req then DIRECTION_SEND else DIRECTION_RECV, im_dest req)) members)"

definition clamp_start :: "int \<Rightarrow> int \<Rightarrow> int" where
  "clamp_start start now =
     (let earliest = i64_saturating_sub now EXPIRES_NANOS in
      if start = 0 \<or> start < earliest then earliest else start)"

section \<open>The acknowledgement index\<close>

definition ack_get :: "nat \<Rightarrow> string \<Rightarrow> (string, AckEntry) hmap \<Rightarrow> int" where
  "ack_get now account m =
     (case hget m account of
        Some e \<Rightarrow> if ae_expires_at e > now then ae_message_id e else 0
      | None \<Rightarrow> 0)"

definition ack_set :: "nat \<Rightarrow> string \<Rightarrow> int \<Rightarrow> (string, AckEntry) hmap \<Rightarrow> (string, AckEntry) hmap" where
  "ack_set now account message_id m =
     hput account \<lparr>ae_message_id = message_id, ae_expires_at = now + ACK_TTL\<rparr> m"

section \<open>The tables\<close>

fun kind_i :: "MessageKind \<Rightarrow> int" where
  "kind_i UserMsg = 0"
| "kind_i GroupMsg = 1"

definition bump_version :: "string \<Rightarrow> string \<Rightarrow> string \<Rightarrow> int \<Rightarrow> Inner \<Rightarrow> Inner" where
  "bump_version app account dest kind s =
     (let version = u64_saturating_add (in_next_version s) 1 in
      s\<lparr>in_next_version := version,
        in_versions := hput (app, account, dest, kind) version (in_versions s)\<rparr>)"

definition push_index :: "InboxRow \<Rightarrow> Inner \<Rightarrow> Inner" where
  "push_index row s =
     (let msg_rows = (case hget (in_by_message s) (ir_message_id row) of None \<Rightarrow> [] | Some rs \<Rightarrow> rs);
          by_app = (case hget (in_by_account s) (ir_app row) of None \<Rightarrow> [] | Some m \<Rightarrow> m);
          acc_rows = (case hget by_app (ir_account_a row) of None \<Rightarrow> [] | Some rs \<Rightarrow> rs);
          s1 = s\<lparr>in_by_message := hput (ir_message_id row) (msg_rows @ [row]) (in_by_message s),
                 in_by_account := hput (ir_app row)
                   (hput (ir_account_a row) (acc_rows @ [row]) by_app) (in_by_account s)\<rparr>;
          (dest, kind) = (if ir_group_id row = [] then (ir_account_b row, 0) else (ir_group_id row, 1))
      in bump_version (ir_app row) (ir_account_a row) dest kind s1)"

definition read_key :: "string \<Rightarrow> string \<Rightarrow> string \<Rightarrow> MessageKind \<Rightarrow> string \<times> string \<times> string \<times> string" where
  "read_key app account dest kind =
     (case kind of UserMsg \<Rightarrow> (app, account, dest, []) | GroupMsg \<Rightarrow> (app, account, [], dest))"

definition account_rows :: "string \<Rightarrow> string \<Rightarrow> Inner \<Rightarrow> InboxRow list" where
  "account_rows app account s =
     (case hget (in_by_account s) app of
        None \<Rightarrow> []
      | Some m \<Rightarrow> (case hget m account of None \<Rightarrow> [] | Some rs \<Rightarrow> rs))"

definition dest_ok :: "string \<Rightarrow> MessageKind \<Rightarrow> InboxRow \<Rightarrow> bool" where
  "dest_ok dest kind row =
     (case kind of
        UserMsg \<Rightarrow> ir_group_id row = [] \<and> ir_account_b row = dest
      | GroupMsg \<Rightarrow> ir_group_id row = dest)"

definition last_read_of :: "string \<Rightarrow> string \<Rightarrow> string \<Rightarrow> MessageKind \<Rightarrow> Inner \<Rightarrow> int" where
  "last_read_of app account dest kind s =
     (case hget (in_reads s) (read_key app account dest kind) of None \<Rightarrow> 0 | Some i \<Rightarrow> i)"

definition conversation_state ::
  "string \<Rightarrow> string \<Rightarrow> string \<Rightarrow> MessageKind \<Rightarrow> Inner \<Rightarrow> ConversationReadState" where
  "conversation_state app account dest kind s =
     (let last_read = last_read_of app account dest kind s;
          (mx, unread, ex) = foldl (\<lambda>(mx, unread, ex) row.
             if \<not> dest_ok dest kind row then (mx, unread, ex)
             else (max mx (ir_message_id row),
                   if ir_direction row = DIRECTION_RECV \<and> ir_message_id row > last_read
                   then i32_saturating_add unread 1 else unread, True))
             (0, 0, False) (account_rows app account s);
          version = (case hget (in_versions s) (app, account, dest, kind_i kind) of None \<Rightarrow> 0 | Some v \<Rightarrow> v)
      in \<lparr>cr_dest = dest, cr_kind = kind, cr_last_read_message_id = last_read, cr_max_message_id = mx,
          cr_unread = unread, cr_version = version, cr_exists = ex\<rparr>)"

definition missing_state :: "string \<Rightarrow> MessageKind \<Rightarrow> ConversationReadState" where
  "missing_state dest kind = \<lparr>cr_dest = dest, cr_kind = kind, cr_last_read_message_id = 0,
     cr_max_message_id = 0, cr_unread = 0, cr_version = 0, cr_exists = False\<rparr>"

section \<open>Receipts\<close>

definition upsert_receipts ::
  "nat \<Rightarrow> string \<Rightarrow> int \<Rightarrow> InsertMessage \<Rightarrow> string list option \<Rightarrow> Inner \<Rightarrow> Inner" where
  "upsert_receipts now app message_id req members s =
     (let recv = set (recv_accounts req members);
          fresh = \<lparr>pe_created_at = now, pe_expires_at = now + RECEIPT_TTL, pe_acked_at = None\<rparr>
      in s\<lparr>in_pending := foldl (\<lambda>m t.
             if dt_target_id t = [] \<or> dt_account t \<notin> recv then m
             else hor_insert (app, dt_account t, dt_target_id t, message_id) fresh m)
             (in_pending s) (im_online_targets req)\<rparr>)"

definition fanout_from_memory :: "Inner \<Rightarrow> int \<Rightarrow> (StoreError, Fanout) result" where
  "fanout_from_memory s message_id =
     (case hget (in_contents s) message_id of
        None \<Rightarrow> Err (StoreBackend ''fanout missing'')
      | Some c \<Rightarrow>
          let rows = map (\<lambda>r. (ir_account_a r, ir_account_b r, ir_direction r, ir_group_id r))
                (case hget (in_by_message s) message_id of None \<Rightarrow> [] | Some rs \<Rightarrow> rs)
          in Ok (fanout_from_index_rows (sm_msg_type c) (sm_body c) (sm_extra c) rows))"

section \<open>Insertion\<close>

definition insert_content :: "string \<Rightarrow> MessageKind \<Rightarrow> InsertMessage \<Rightarrow> int \<Rightarrow> StoredMessage" where
  "insert_content app kind req message_id =
     \<lparr>sm_message_id = message_id, sm_app = app, sm_kind = kind, sm_sender = im_sender req,
      sm_dest = im_dest req, sm_send_time = im_send_time req, sm_msg_type = im_msg_type req,
      sm_body = im_body req, sm_extra = im_extra req\<rparr>"

definition insert_rows ::
  "string \<Rightarrow> MessageKind \<Rightarrow> InsertMessage \<Rightarrow> string list \<Rightarrow> int \<Rightarrow> InboxRow list" where
  "insert_rows app kind req members message_id =
     (let row = (\<lambda>a b d g. \<lparr>ir_app = app, ir_account_a = a, ir_account_b = b, ir_direction = d,
            ir_message_id = message_id, ir_group_id = g, ir_send_time = im_send_time req\<rparr>)
      in case kind of
           UserMsg \<Rightarrow> [row (im_sender req) (im_dest req) DIRECTION_SEND [],
                       row (im_dest req) (im_sender req) DIRECTION_RECV []]
         | GroupMsg \<Rightarrow> map (\<lambda>m. row m (im_sender req)
             (if m = im_sender req then DIRECTION_SEND else DIRECTION_RECV) (im_dest req)) members)"

definition members_opt :: "MessageKind \<Rightarrow> string list \<Rightarrow> string list option" where
  "members_opt kind members = (if kind = GroupMsg then Some members else None)"

abbreviation idem_key :: "string \<Rightarrow> InsertMessage \<Rightarrow> string \<times> string \<times> string" where
  "idem_key app req \<equiv> (app, im_sender req, im_client_id req)"

text \<open>The answer to a repeated request: the stored identifiers and the fanout of the stored message.\<close>

definition duplicate_result :: "int \<Rightarrow> int \<Rightarrow> Inner \<Rightarrow> (StoreError, InsertResult) result" where
  "duplicate_result message_id send_time s =
     res_bind (fanout_from_memory s message_id) (\<lambda>fanout.
       Ok \<lparr>res_message_id = message_id, res_send_time = send_time, res_duplicate = True, res_fanout = fanout\<rparr>)"

text \<open>The segment of \<open>insert\<close> under the write lock, after the identifiers have been drawn.\<close>

definition insert_commit ::
  "bool \<Rightarrow> nat \<Rightarrow> string \<Rightarrow> MessageKind \<Rightarrow> InsertMessage \<Rightarrow> string list \<Rightarrow> int \<Rightarrow> Inner
   \<Rightarrow> (StoreError, InsertResult) result \<times> Inner" where
  "insert_commit receipts now app kind req members message_id s =
     (let receipt = (\<lambda>mid s. if receipts then upsert_receipts now app mid req (members_opt kind members) s else s)
      in case (if im_client_id req \<noteq> [] then hget (in_idempotency s) (idem_key app req) else None) of
           Some (mid, send_time) \<Rightarrow>
             let s1 = receipt mid s in (duplicate_result mid send_time s1, s1)
         | None \<Rightarrow>
             let s1 = (if im_client_id req \<noteq> []
                       then s\<lparr>in_idempotency := hput (idem_key app req) (message_id, im_send_time req) (in_idempotency s)\<rparr>
                       else s);
                 s2 = s1\<lparr>in_contents := hput message_id (insert_content app kind req message_id) (in_contents s1)\<rparr>;
                 s3 = foldl (\<lambda>s row. push_index row s) s2 (insert_rows app kind req members message_id);
                 s4 = receipt message_id s3
             in (Ok \<lparr>res_message_id = message_id, res_send_time = im_send_time req, res_duplicate = False,
                     res_fanout = fanout_from_write kind req members\<rparr>, s4))"

text \<open>
  The segment under the read lock: a known client identifier is answered from the stored message, and
  only then are receipts written. Otherwise one identifier is drawn for the message and one, unused,
  per index row; \<open>gen k\<close> is the result of the call's \<open>k\<close>-th draw.
\<close>

fun draw_ids :: "(nat \<Rightarrow> (IdError, int) result) \<Rightarrow> nat \<Rightarrow> nat \<Rightarrow> (StoreError, unit) result" where
  "draw_ids gen k 0 = Ok ()"
| "draw_ids gen k (Suc n) =
     (case gen k of Inl e \<Rightarrow> Err (StoreId e) | Inr _ \<Rightarrow> draw_ids gen (Suc k) n)"

definition insert_msg ::
  "bool \<Rightarrow> nat \<Rightarrow> (nat \<Rightarrow> (IdError, int) result) \<Rightarrow> string \<Rightarrow> MessageKind \<Rightarrow> InsertMessage \<Rightarrow> string list \<Rightarrow> Inner
   \<Rightarrow> (StoreError, InsertResult) result \<times> Inner" where
  "insert_msg receipts now gen app kind req members s =
     (case (if im_client_id req \<noteq> [] then hget (in_idempotency s) (idem_key app req) else None) of
        Some (mid, send_time) \<Rightarrow>
          (case fanout_from_memory s mid of
             Inl e \<Rightarrow> (Err e, s)
           | Inr fanout \<Rightarrow>
               (Ok \<lparr>res_message_id = mid, res_send_time = send_time, res_duplicate = True, res_fanout = fanout\<rparr>,
                if receipts then upsert_receipts now app mid req (members_opt kind members) s else s))
      | None \<Rightarrow>
          (case gen 0 of
             Inl e \<Rightarrow> (Err (StoreId e), s)
           | Inr message_id \<Rightarrow>
               (case draw_ids gen 1 (length (insert_rows app kind req members message_id)) of
                  Inl e \<Rightarrow> (Err e, s)
                | Inr _ \<Rightarrow> insert_commit receipts now app kind req members message_id s)))"

section \<open>The other state-changing operations\<close>

fun ack_one ::
  "nat \<Rightarrow> string \<times> string \<times> string \<times> int
   \<Rightarrow> (string \<times> string \<times> string \<times> int, PendingEntry) hmap \<times> nat list
   \<Rightarrow> (string \<times> string \<times> string \<times> int, PendingEntry) hmap \<times> nat list" where
  "ack_one now key (pending, observed) =
     (case hget pending key of
        Some row \<Rightarrow>
          if pe_acked_at row = None
          then (hput key (row\<lparr>pe_acked_at := Some now\<rparr>) pending, observed @ [now - pe_created_at row])
          else (pending, observed)
      | None \<Rightarrow> (pending, observed))"

definition store_ack ::
  "nat \<Rightarrow> string \<Rightarrow> string \<Rightarrow> string \<Rightarrow> int list \<Rightarrow> MemoryMessageStore
   \<Rightarrow> (StoreError, unit) result \<times> nat list \<times> MemoryMessageStore" where
  "store_ack now app account target_id message_ids m =
     (if \<not> mm_pending_receipt m \<or> target_id = [] then
        let id = (case message_ids of [] \<Rightarrow> 0 | i # _ \<Rightarrow> i) in
        if id = 0 then (Ok (), [], m)
        else (Ok (), [], m\<lparr>mm_ack := ack_set now account id (mm_ack m)\<rparr>)
      else if message_ids = [] then (Ok (), [], m)
      else
        let s = mm_inner m;
            (pending, observed) = foldl (\<lambda>acc i. ack_one now (app, account, target_id, i) acc)
               (in_pending s, []) message_ids
        in (Ok (), observed, m\<lparr>mm_inner := s\<lparr>in_pending := pending\<rparr>\<rparr>))"

definition backfill_delivery ::
  "nat \<Rightarrow> int \<Rightarrow> string \<Rightarrow> string \<Rightarrow> string \<Rightarrow> MemoryMessageStore \<Rightarrow> MemoryMessageStore" where
  "backfill_delivery now unix_now app account target_id m =
     (if \<not> mm_pending_receipt m \<or> target_id = [] then m
      else let s = mm_inner m;
               cutoff = i64_saturating_sub unix_now EXPIRES_NANOS;
               ids = map ir_message_id (filter (\<lambda>r. ir_send_time r \<ge> cutoff) (account_rows app account s));
               fresh = \<lparr>pe_created_at = now, pe_expires_at = now + RECEIPT_TTL, pe_acked_at = None\<rparr>
           in m\<lparr>mm_inner := s\<lparr>in_pending :=
                  foldl (\<lambda>p id. hor_insert (app, account, target_id, id) fresh p) (in_pending s) ids\<rparr>\<rparr>)"

definition gc_expired_deliveries :: "nat \<Rightarrow> int \<Rightarrow> Inner \<Rightarrow> nat \<times> Inner" where
  "gc_expired_deliveries now limit s =
     (let keys = map (\<lambda>(k, e). (pe_expires_at e, k)) (filter (\<lambda>(_, e). pe_expires_at e < now) (in_pending s));
          keys = take (nat (max limit 0)) (sort_key fst keys)
      in (length keys, s\<lparr>in_pending := foldl (\<lambda>p (_, k). hdel k p) (in_pending s) keys\<rparr>))"

definition mark_read ::
  "string \<Rightarrow> string \<Rightarrow> string \<Rightarrow> MessageKind \<Rightarrow> int \<Rightarrow> Inner \<Rightarrow> ConversationReadState \<times> Inner" where
  "mark_read app account dest kind message_id s =
     (if dest = [] then (missing_state dest kind, s)
      else
        let s' = (if message_id > 0 then
              let slot = last_read_of app account dest kind s;
                  s1 = s\<lparr>in_reads := hput (read_key app account dest kind)
                           (if message_id > slot then message_id else slot) (in_reads s)\<rparr>
              in bump_version app account dest (kind_i kind) s1
            else s)
        in (conversation_state app account dest kind s', s'))"

text \<open>\<open>insert_bot_reply\<close>: the message replied to must be one the owner sent to the bot.\<close>

definition bot_reply_target :: "string \<Rightarrow> string \<Rightarrow> string \<Rightarrow> int \<Rightarrow> Inner \<Rightarrow> bool" where
  "bot_reply_target app owner bot_acc in_reply_to s =
     (case hget (in_contents s) in_reply_to of
        None \<Rightarrow> False
      | Some orig \<Rightarrow>
          sm_app orig = app \<and> sm_kind orig = UserMsg \<and> sm_sender orig = owner \<and> sm_dest orig = bot_acc
          \<and> list_ex (\<lambda>r. ir_account_a r = owner \<and> ir_account_b r = bot_acc
               \<and> ir_direction r = DIRECTION_SEND \<and> ir_group_id r = [])
               (case hget (in_by_message s) in_reply_to of None \<Rightarrow> [] | Some rs \<Rightarrow> rs))"

text \<open>The rest of it: an answered turn or a known client identifier is answered from the store,
  otherwise the reply is stored and the turn recorded.\<close>

definition bot_reply_commit ::
  "bool \<Rightarrow> nat \<Rightarrow> (nat \<Rightarrow> (IdError, int) result) \<Rightarrow> string \<Rightarrow> string \<Rightarrow> int \<Rightarrow> InsertMessage \<Rightarrow> Inner
   \<Rightarrow> (StoreError, InsertResult) result \<times> Inner" where
  "bot_reply_commit receipts now gen app bot_acc in_reply_to req s =
     (let receipt = (\<lambda>mid s. if receipts then upsert_receipts now app mid req None s else s);
          turn_key = (app, bot_acc, in_reply_to)
      in case hget (in_bot_turns s) turn_key of
           Some reply_id \<Rightarrow>
             (duplicate_result reply_id
                (case hget (in_contents s) reply_id of None \<Rightarrow> 0 | Some c \<Rightarrow> sm_send_time c) s, s)
         | None \<Rightarrow>
             (case (if im_client_id req \<noteq> [] then hget (in_idempotency s) (idem_key app req) else None) of
                Some (mid, send_time) \<Rightarrow>
                  let s1 = receipt mid (s\<lparr>in_bot_turns := hput turn_key mid (in_bot_turns s)\<rparr>)
                  in (duplicate_result mid send_time s1, s1)
              | None \<Rightarrow>
                  (case gen 0 of
                     Inl e \<Rightarrow> (Err (StoreId e), s)
                   | Inr message_id \<Rightarrow>
                       let s1 = (if im_client_id req \<noteq> []
                           then s\<lparr>in_idempotency := hput (idem_key app req) (message_id, im_send_time req) (in_idempotency s)\<rparr>
                           else s);
                           s2 = s1\<lparr>in_contents := hput message_id (insert_content app UserMsg req message_id) (in_contents s1)\<rparr>;
                           s3 = foldl (\<lambda>s row. push_index row s) s2 (insert_rows app UserMsg req [] message_id);
                           s4 = s3\<lparr>in_bot_turns := hput turn_key message_id (in_bot_turns s3)\<rparr>;
                           s5 = receipt message_id s4
                       in (Ok \<lparr>res_message_id = message_id, res_send_time = im_send_time req,
                               res_duplicate = False, res_fanout = fanout_from_write UserMsg req []\<rparr>, s5))))"

definition insert_bot_reply ::
  "bool \<Rightarrow> nat \<Rightarrow> (nat \<Rightarrow> (IdError, int) result) \<Rightarrow> string \<Rightarrow> string \<Rightarrow> string \<Rightarrow> int \<Rightarrow> InsertMessage \<Rightarrow> Inner
   \<Rightarrow> (StoreError, InsertResult) result \<times> Inner" where
  "insert_bot_reply receipts now gen app owner bot_acc in_reply_to req s =
     (if im_sender req \<noteq> bot_acc \<or> im_dest req \<noteq> owner
        then (Err (StoreInvalid ''sender must be bot, dest must be owner''), s)
      else if in_reply_to \<le> 0 then (Err (StoreInvalid ''in_reply_to''), s)
      else if \<not> bot_reply_target app owner bot_acc in_reply_to s then (Err (StoreInvalid ''in_reply_to''), s)
      else bot_reply_commit receipts now gen app bot_acc in_reply_to req s)"

subsection \<open>Purging a direct conversation\<close>

definition dm_row :: "string \<Rightarrow> string \<Rightarrow> InboxRow \<Rightarrow> bool" where
  "dm_row account peer r \<longleftrightarrow> ir_group_id r = []
     \<and> ((ir_account_a r = account \<and> ir_account_b r = peer) \<or> (ir_account_a r = peer \<and> ir_account_b r = account))"

definition purge_account_index ::
  "string \<Rightarrow> string \<Rightarrow> string \<Rightarrow> string \<Rightarrow> Inner \<times> int list \<Rightarrow> Inner \<times> int list" where
  "purge_account_index app account peer who st =
     (let (s, ids) = st in
      case hget (in_by_account s) app of
        None \<Rightarrow> (s, ids)
      | Some by_acct \<Rightarrow>
          (case hget by_acct who of
             None \<Rightarrow> (s, ids)
           | Some rows \<Rightarrow>
               let (keep, dropped) = partition (\<lambda>r. \<not> dm_row account peer r) rows in
               (s\<lparr>in_by_account := hput app (hput who keep by_acct) (in_by_account s)\<rparr>,
                ids @ map ir_message_id dropped)))"

definition purge_message :: "string \<Rightarrow> string \<Rightarrow> string \<Rightarrow> int \<Rightarrow> Inner \<Rightarrow> Inner" where
  "purge_message app account peer msg s =
     (let s1 = (case hget (in_by_message s) msg of
          Some rows \<Rightarrow>
            let rows' = filter (\<lambda>r. \<not> (ir_app r = app \<and> dm_row account peer r)) rows in
            if rows' = []
            then s\<lparr>in_by_message := hdel msg (in_by_message s), in_contents := hdel msg (in_contents s)\<rparr>
            else s\<lparr>in_by_message := hput msg rows' (in_by_message s)\<rparr>
        | None \<Rightarrow> s\<lparr>in_contents := hdel msg (in_contents s)\<rparr>)
      in s1\<lparr>in_pending := hretain (\<lambda>(a, _, _, mid) _. \<not> (a = app \<and> mid = msg)) (in_pending s1)\<rparr>)"

definition purge_peer_dm :: "string \<Rightarrow> string \<Rightarrow> string \<Rightarrow> Inner \<Rightarrow> Inner" where
  "purge_peer_dm app account peer s =
     (if account = [] \<or> peer = [] \<or> account = peer then s
      else
        let (s1, ids0) = purge_account_index app account peer peer
                           (purge_account_index app account peer account (s, []));
            ids = remdups_adj (sort ids0);
            s2 = foldl (\<lambda>s id. purge_message app account peer id s) s1 ids
        in s2\<lparr>in_reads := hretain (\<lambda>(a, acct, p, gid) _. \<not> (a = app \<and> gid = []
                 \<and> ((acct = account \<and> p = peer) \<or> (acct = peer \<and> p = account)))) (in_reads s2),
              in_versions := hretain (\<lambda>(a, acct, dest, kind) _. \<not> (a = app \<and> kind = 0
                 \<and> ((acct = account \<and> dest = peer) \<or> (acct = peer \<and> dest = account)))) (in_versions s2),
              in_bot_turns := hretain (\<lambda>(a, bot_acc, _) _. \<not> (a = app \<and> (bot_acc = peer \<or> bot_acc = account)))
                 (in_bot_turns s2),
              in_idempotency := hretain (\<lambda>(a, sender, _) (mid, _).
                 \<not> (a = app \<and> mid \<in> set ids \<and> (sender = account \<or> sender = peer))) (in_idempotency s2)\<rparr>)"

section \<open>The log behind the indexes\<close>

text \<open>
  Both indexes are views of one log of rows in insertion order: the rows of an account and the rows of
  a message. A row always has its content, and agrees with it.
\<close>

definition msg_rows :: "int \<Rightarrow> Inner \<Rightarrow> InboxRow list" where
  "msg_rows mid s = (case hget (in_by_message s) mid of None \<Rightarrow> [] | Some rs \<Rightarrow> rs)"

definition idx_sim :: "Inner \<Rightarrow> InboxRow list \<Rightarrow> bool" where
  "idx_sim s log \<longleftrightarrow>
     (\<forall>app a. account_rows app a s = filter (\<lambda>r. ir_app r = app \<and> ir_account_a r = a) log)
     \<and> (\<forall>mid. msg_rows mid s = filter (\<lambda>r. ir_message_id r = mid) log)"

definition user_rows :: "StoredMessage \<Rightarrow> InboxRow list" where
  "user_rows c =
     (let row = (\<lambda>a b d. \<lparr>ir_app = sm_app c, ir_account_a = a, ir_account_b = b, ir_direction = d,
            ir_message_id = sm_message_id c, ir_group_id = [], ir_send_time = sm_send_time c\<rparr>)
      in [row (sm_sender c) (sm_dest c) DIRECTION_SEND, row (sm_dest c) (sm_sender c) DIRECTION_RECV])"

definition group_row :: "StoredMessage \<Rightarrow> InboxRow \<Rightarrow> bool" where
  "group_row c r \<longleftrightarrow> ir_app r = sm_app c \<and> ir_message_id r = sm_message_id c
     \<and> ir_send_time r = sm_send_time c \<and> ir_group_id r = sm_dest c \<and> sm_dest c \<noteq> []
     \<and> ir_account_b r = sm_sender c
     \<and> ir_direction r = (if ir_account_a r = sm_sender c then DIRECTION_SEND else DIRECTION_RECV)"

definition content_rows :: "StoredMessage \<Rightarrow> InboxRow list \<Rightarrow> bool" where
  "content_rows c rows \<longleftrightarrow>
     (case sm_kind c of UserMsg \<Rightarrow> rows = user_rows c | GroupMsg \<Rightarrow> (\<forall>r \<in> set rows. group_row c r))"

definition store_inv :: "Inner \<Rightarrow> InboxRow list \<Rightarrow> bool" where
  "store_inv s log \<longleftrightarrow> idx_sim s log
     \<and> (\<forall>r \<in> set log. hget (in_contents s) (ir_message_id r) \<noteq> None)
     \<and> (\<forall>mid c. hget (in_contents s) mid = Some c \<longrightarrow>
          sm_message_id c = mid \<and> content_rows c (msg_rows mid s))
     \<and> (\<forall>app sender cid mid st. hget (in_idempotency s) (app, sender, cid) = Some (mid, st) \<longrightarrow>
          (\<exists>c. hget (in_contents s) mid = Some c \<and> sm_app c = app \<and> sm_sender c = sender \<and> sm_send_time c = st))
     \<and> (\<forall>app bot_acc irt mid. hget (in_bot_turns s) (app, bot_acc, irt) = Some mid \<longrightarrow>
          (\<exists>c. hget (in_contents s) mid = Some c \<and> sm_app c = app \<and> sm_sender c = bot_acc))
     \<and> hwf (in_idempotency s) \<and> hwf (in_bot_turns s) \<and> hwf (in_reads s) \<and> hwf (in_versions s)
     \<and> hwf (in_pending s)"

lemma store_invD:
  assumes "store_inv s log"
  shows "idx_sim s log"
    and "r \<in> set log \<Longrightarrow> hget (in_contents s) (ir_message_id r) \<noteq> None"
    and "hget (in_contents s) mid = Some c \<Longrightarrow> sm_message_id c = mid \<and> content_rows c (msg_rows mid s)"
    and "hget (in_idempotency s) (app, sender, cid) = Some (mid, st) \<Longrightarrow>
      \<exists>c. hget (in_contents s) mid = Some c \<and> sm_app c = app \<and> sm_sender c = sender \<and> sm_send_time c = st"
    and "hget (in_bot_turns s) (app, b, irt) = Some mid \<Longrightarrow>
      \<exists>c. hget (in_contents s) mid = Some c \<and> sm_app c = app \<and> sm_sender c = b"
  using assms unfolding store_inv_def by blast+

lemma store_inv_default: "store_inv Inner_default []"
  by (simp add: store_inv_def idx_sim_def Inner_default_def account_rows_def msg_rows_def)

lemma bump_version_simps [simp]:
  "in_contents (bump_version a b c d s) = in_contents s"
  "in_by_account (bump_version a b c d s) = in_by_account s"
  "in_by_message (bump_version a b c d s) = in_by_message s"
  "in_idempotency (bump_version a b c d s) = in_idempotency s"
  "in_reads (bump_version a b c d s) = in_reads s"
  "in_pending (bump_version a b c d s) = in_pending s"
  "in_bot_turns (bump_version a b c d s) = in_bot_turns s"
  by (simp_all add: bump_version_def Let_def)

lemma push_index_simps [simp]:
  "in_contents (push_index r s) = in_contents s"
  "in_idempotency (push_index r s) = in_idempotency s"
  "in_reads (push_index r s) = in_reads s"
  "in_pending (push_index r s) = in_pending s"
  "in_bot_turns (push_index r s) = in_bot_turns s"
  by (simp_all add: push_index_def Let_def)

lemma account_rows_cong: "in_by_account s = in_by_account t \<Longrightarrow> account_rows app a s = account_rows app a t"
  by (simp add: account_rows_def)

lemma msg_rows_cong: "in_by_message s = in_by_message t \<Longrightarrow> msg_rows mid s = msg_rows mid t"
  by (simp add: msg_rows_def)

lemma account_rows_push:
  "account_rows app a (push_index r s) =
     account_rows app a s @ (if app = ir_app r \<and> a = ir_account_a r then [r] else [])"
  by (auto simp: account_rows_def push_index_def Let_def split: option.splits)

lemma msg_rows_push:
  "msg_rows mid (push_index r s) = msg_rows mid s @ (if mid = ir_message_id r then [r] else [])"
  by (auto simp: msg_rows_def push_index_def Let_def split: option.splits)

lemma idx_sim_push: "idx_sim s log \<Longrightarrow> idx_sim (push_index r s) (log @ [r])"
  by (auto simp: idx_sim_def account_rows_push msg_rows_push)

lemma push_rows_simps [simp]:
  "in_contents (foldl (\<lambda>s r. push_index r s) s rs) = in_contents s"
  "in_idempotency (foldl (\<lambda>s r. push_index r s) s rs) = in_idempotency s"
  "in_reads (foldl (\<lambda>s r. push_index r s) s rs) = in_reads s"
  "in_pending (foldl (\<lambda>s r. push_index r s) s rs) = in_pending s"
  "in_bot_turns (foldl (\<lambda>s r. push_index r s) s rs) = in_bot_turns s"
  by (induction rs arbitrary: s) simp_all

lemma idx_sim_push_rows:
  "idx_sim s log \<Longrightarrow> idx_sim (foldl (\<lambda>s r. push_index r s) s rs) (log @ rs)"
proof (induction rs arbitrary: s log)
  case (Cons r rs)
  from Cons.IH[OF idx_sim_push[OF Cons.prems]] show ?case by simp
qed simp

lemma hwf_versions_push: "hwf (in_versions s) \<Longrightarrow> hwf (in_versions (push_index r s))"
  by (simp add: push_index_def bump_version_def Let_def distinct_update split: prod.split)

lemma hwf_versions_push_rows:
  "hwf (in_versions s) \<Longrightarrow> hwf (in_versions (foldl (\<lambda>s r. push_index r s) s rs))"
  by (induction rs arbitrary: s) (simp_all add: hwf_versions_push)

lemma idx_sim_cong:
  "in_by_account s = in_by_account t \<Longrightarrow> in_by_message s = in_by_message t \<Longrightarrow> idx_sim s log = idx_sim t log"
  by (simp add: idx_sim_def account_rows_def msg_rows_def)

text \<open>Operations that only touch receipts, watermarks and versions keep the invariant.\<close>

lemma store_inv_other_tables:
  assumes "store_inv s log" "in_contents t = in_contents s" "in_by_account t = in_by_account s"
    "in_by_message t = in_by_message s" "in_idempotency t = in_idempotency s"
    "in_bot_turns t = in_bot_turns s" "hwf (in_reads t)" "hwf (in_versions t)" "hwf (in_pending t)"
  shows "store_inv t log"
  using assms idx_sim_cong[of t s log] msg_rows_cong[of t s] by (simp add: store_inv_def)

lemma hwf_foldl: "(\<And>m x. hwf m \<Longrightarrow> hwf (f m x)) \<Longrightarrow> hwf m \<Longrightarrow> hwf (foldl f m xs)"
  by (induction xs arbitrary: m) auto

lemma upsert_receipts_simps [simp]:
  "in_contents (upsert_receipts now app mid req ms s) = in_contents s"
  "in_by_account (upsert_receipts now app mid req ms s) = in_by_account s"
  "in_by_message (upsert_receipts now app mid req ms s) = in_by_message s"
  "in_idempotency (upsert_receipts now app mid req ms s) = in_idempotency s"
  "in_reads (upsert_receipts now app mid req ms s) = in_reads s"
  "in_versions (upsert_receipts now app mid req ms s) = in_versions s"
  "in_next_version (upsert_receipts now app mid req ms s) = in_next_version s"
  "in_bot_turns (upsert_receipts now app mid req ms s) = in_bot_turns s"
  by (simp_all add: upsert_receipts_def Let_def)

lemma store_inv_upsert [kim_inv]:
  assumes "store_inv s log"
  shows "store_inv (upsert_receipts now app mid req ms s) log"
proof (rule store_inv_other_tables[OF assms])
  show "hwf (in_pending (upsert_receipts now app mid req ms s))"
    using assms unfolding upsert_receipts_def Let_def store_inv_def
    by (simp, intro hwf_foldl) (auto intro: hwf_hor_insert)
qed (use assms in \<open>simp_all add: store_inv_def\<close>)

definition store_ok :: "Inner \<Rightarrow> bool" where
  "store_ok s \<longleftrightarrow> (\<exists>log. store_inv s log)"

lemma store_okI [intro]: "store_inv s log \<Longrightarrow> store_ok s"
  by (auto simp: store_ok_def)

lemma store_ok_upsert [kim_inv, intro]: "store_ok s \<Longrightarrow> store_ok (upsert_receipts now app mid req ms s)"
  by (auto simp: store_ok_def intro: store_inv_upsert)

subsection \<open>Insertion\<close>

lemma insert_rows_ids: "r \<in> set (insert_rows app kind req ms mid) \<Longrightarrow> ir_message_id r = mid"
  by (auto simp: insert_rows_def Let_def split: MessageKind.splits)

lemma insert_rows_content:
  "(kind = GroupMsg \<longrightarrow> im_dest req \<noteq> []) \<Longrightarrow>
   content_rows (insert_content app kind req mid) (insert_rows app kind req ms mid)"
  by (auto simp: content_rows_def insert_content_def insert_rows_def user_rows_def group_row_def
      Let_def split: MessageKind.splits)

lemma fresh_no_rows:
  "store_inv s log \<Longrightarrow> hget (in_contents s) mid = None \<Longrightarrow> filter (\<lambda>r. ir_message_id r = mid) log = []"
  by (auto simp: store_inv_def filter_empty_conv)

definition idem_points :: "(string \<times> string \<times> string, int \<times> int) hmap \<Rightarrow> (int \<Rightarrow> StoredMessage option) \<Rightarrow> bool" where
  "idem_points m cs \<longleftrightarrow> hwf m \<and> (\<forall>app sender cid mid st. hget m (app, sender, cid) = Some (mid, st) \<longrightarrow>
     (\<exists>c. cs mid = Some c \<and> sm_app c = app \<and> sm_sender c = sender \<and> sm_send_time c = st))"

lemma store_inv_idem: "store_inv s log \<Longrightarrow> idem_points (in_idempotency s) (hget (in_contents s))"
  by (simp add: store_inv_def idem_points_def)

lemma store_inv_add_message:
  fixes app kind req ms mid s
  defines "c \<equiv> insert_content app kind req mid" and "rs \<equiv> insert_rows app kind req ms mid"
  assumes inv: "store_inv s log" and fresh: "hget (in_contents s) mid = None"
    and dest: "kind = GroupMsg \<longrightarrow> im_dest req \<noteq> []"
    and idem: "idem_points m ((hget (in_contents s))(mid \<mapsto> c))"
  shows "store_inv (foldl (\<lambda>s r. push_index r s)
    (s\<lparr>in_idempotency := m, in_contents := hput mid c (in_contents s)\<rparr>) rs) (log @ rs)"
proof -
  let ?s = "s\<lparr>in_idempotency := m, in_contents := hput mid c (in_contents s)\<rparr>"
  let ?t = "foldl (\<lambda>s r. push_index r s) ?s rs"
  have sim: "idx_sim ?t (log @ rs)"
    using inv idx_sim_cong[of ?s s log] idx_sim_push_rows[of ?s log rs] by (simp add: store_inv_def)
  have rs: "\<And>r. r \<in> set rs \<Longrightarrow> ir_message_id r = mid" unfolding rs_def by (rule insert_rows_ids)
  have mrows: "msg_rows i ?t = (if i = mid then rs else msg_rows i s)" for i
    using sim inv fresh_no_rows[OF inv fresh] rs
    by (auto simp: idx_sim_def store_inv_def filter_empty_conv filter_id_conv)
  have crow: "content_rows c rs" unfolding c_def rs_def using dest by (rule insert_rows_content)
  have cid: "sm_message_id c = mid" by (simp add: c_def insert_content_def)
  have cs: "\<forall>i d. hget (in_contents ?t) i = Some d \<longrightarrow> sm_message_id d = i \<and> content_rows d (msg_rows i ?t)"
    using inv crow cid by (auto simp: store_inv_def mrows)
  have ib: "\<forall>app' sender cid i st. hget (in_idempotency ?t) (app', sender, cid) = Some (i, st) \<longrightarrow>
      (\<exists>d. hget (in_contents ?t) i = Some d \<and> sm_app d = app' \<and> sm_sender d = sender \<and> sm_send_time d = st)"
    using idem by (simp add: idem_points_def fun_upd_def)
  have bt: "\<forall>app' b irt i. hget (in_bot_turns ?t) (app', b, irt) = Some i \<longrightarrow>
      (\<exists>d. hget (in_contents ?t) i = Some d \<and> sm_app d = app' \<and> sm_sender d = b)"
  proof (intro allI impI)
    fix app' b irt i assume "hget (in_bot_turns ?t) (app', b, irt) = Some i"
    then obtain d where "hget (in_contents s) i = Some d" "sm_app d = app'" "sm_sender d = b"
      using store_invD(5)[OF inv, of app' b irt i] by auto
    moreover from this fresh have "i \<noteq> mid" by auto
    ultimately show "\<exists>d. hget (in_contents ?t) i = Some d \<and> sm_app d = app' \<and> sm_sender d = b" by simp
  qed
  have wf: "hwf (in_idempotency ?t)" "hwf (in_versions ?t)"
    using idem inv hwf_versions_push_rows[of ?s rs] by (simp_all add: idem_points_def store_inv_def)
  have live: "\<forall>r \<in> set (log @ rs). hget (in_contents ?t) (ir_message_id r) \<noteq> None"
    using store_invD(2)[OF inv] rs by auto
  have wf': "hwf (in_bot_turns ?t)" "hwf (in_reads ?t)" "hwf (in_pending ?t)"
    using inv by (simp_all add: store_inv_def)
  show ?thesis
    unfolding store_inv_def by (intro conjI sim live cs ib bt wf wf')
qed

lemma store_inv_bot_turn:
  assumes "store_inv s log" "hget (in_contents s) mid = Some c" "sm_app c = app" "sm_sender c = b"
  shows "store_inv (s\<lparr>in_bot_turns := hput (app, b, irt) mid (in_bot_turns s)\<rparr>) log"
  using assms idx_sim_cong[of "s\<lparr>in_bot_turns := hput (app, b, irt) mid (in_bot_turns s)\<rparr>" s log]
    msg_rows_cong[of "s\<lparr>in_bot_turns := hput (app, b, irt) mid (in_bot_turns s)\<rparr>" s]
  by (auto simp: store_inv_def distinct_update)

lemma idem_points_put:
  assumes "store_inv s log" "hget (in_contents s) mid = None"
  shows "idem_points (hput (idem_key app req) (mid, im_send_time req) (in_idempotency s))
      ((hget (in_contents s))(mid \<mapsto> insert_content app kind req mid))"
    and "idem_points (in_idempotency s) ((hget (in_contents s))(mid \<mapsto> insert_content app kind req mid))"
  using store_inv_idem[OF assms(1)] assms(2)
  by (fastforce simp: idem_points_def insert_content_def distinct_update)+

lemma store_inv_insert_commit [kim_inv]:
  assumes inv: "store_inv s log" and fresh: "hget (in_contents s) mid = None"
    and dest: "kind = GroupMsg \<longrightarrow> im_dest req \<noteq> []"
  shows "store_ok (snd (insert_commit receipts now app kind req ms mid s))"
proof (cases "if im_client_id req \<noteq> [] then hget (in_idempotency s) (idem_key app req) else None")
  case None
  let ?m = "if im_client_id req \<noteq> [] then hput (idem_key app req) (mid, im_send_time req) (in_idempotency s)
    else in_idempotency s"
  have "idem_points ?m ((hget (in_contents s))(mid \<mapsto> insert_content app kind req mid))"
    using idem_points_put[OF inv fresh] by simp
  from store_inv_add_message[OF inv fresh dest this, of ms]
  have "store_ok (foldl (\<lambda>s r. push_index r s) (s\<lparr>in_idempotency := ?m,
      in_contents := hput mid (insert_content app kind req mid) (in_contents s)\<rparr>)
      (insert_rows app kind req ms mid))" by blast
  moreover have "(if im_client_id req \<noteq> [] then s\<lparr>in_idempotency := ?m\<rparr> else s) = s\<lparr>in_idempotency := ?m\<rparr>" by simp
  ultimately show ?thesis
    using None by (auto simp: insert_commit_def Let_def)
next
  case (Some p)
  then show ?thesis
    using inv by (cases p) (auto simp: insert_commit_def Let_def)
qed

lemma store_inv_insert_msg [kim_inv]:
  assumes "store_inv s log" "\<And>mid. gen 0 = Inr mid \<Longrightarrow> hget (in_contents s) mid = None"
    "kind = GroupMsg \<longrightarrow> im_dest req \<noteq> []"
  shows "store_ok (snd (insert_msg receipts now gen app kind req ms s))"
proof (cases "if im_client_id req \<noteq> [] then hget (in_idempotency s) (idem_key app req) else None")
  case None
  then show ?thesis
    using assms(1) store_inv_insert_commit[OF assms(1) assms(2) assms(3)]
    by (auto simp: insert_msg_def split: sum.splits)
next
  case (Some p)
  then show ?thesis
    using assms(1) by (cases p) (auto simp: insert_msg_def split: sum.splits)
qed

subsection \<open>Receipts, watermarks and bot turns\<close>

lemma store_ok_pending:
  assumes "store_ok s" "hwf p"
  shows "store_ok (s\<lparr>in_pending := p\<rparr>)"
proof -
  obtain log where inv: "store_inv s log" using assms(1) by (auto simp: store_ok_def)
  show ?thesis
    by (rule store_okI, rule store_inv_other_tables[OF inv]) (use inv assms(2) in \<open>simp_all add: store_inv_def\<close>)
qed

lemma store_ok_hwf_pending: "store_ok s \<Longrightarrow> hwf (in_pending s)"
  by (auto simp: store_ok_def store_inv_def)

lemma hwf_ack_fold: "hwf (fst acc) \<Longrightarrow> hwf (fst (foldl (\<lambda>acc i. ack_one now (k i) acc) acc xs))"
proof (induction xs arbitrary: acc)
  case (Cons x xs)
  have "hwf (fst (ack_one now (k x) acc))"
    using Cons.prems by (cases acc) (auto simp: distinct_update split: option.splits)
  then show ?case using Cons.IH by simp
qed simp

lemma store_ok_ack [kim_inv]:
  assumes "store_ok (mm_inner m)"
  shows "store_ok (mm_inner (snd (snd (store_ack now app account target ids m))))"
  using assms store_ok_hwf_pending[OF assms]
  by (simp add: store_ack_def Let_def split_beta store_ok_pending hwf_ack_fold)

lemma store_ok_backfill [kim_inv]:
  assumes "store_ok (mm_inner m)"
  shows "store_ok (mm_inner (backfill_delivery now unow app account target m))"
proof -
  have "hwf (foldl (\<lambda>p i. hor_insert (app, account, target, i) e p) (in_pending (mm_inner m)) xs)" for e xs
    using store_ok_hwf_pending[OF assms] by (intro hwf_foldl) (auto intro: hwf_hor_insert)
  then show ?thesis using assms by (simp add: backfill_delivery_def Let_def store_ok_pending)
qed

lemma store_ok_gc [kim_inv]:
  assumes "store_ok s"
  shows "store_ok (snd (gc_expired_deliveries now limit s))"
  unfolding gc_expired_deliveries_def Let_def snd_conv
  by (rule store_ok_pending[OF assms], rule hwf_foldl[OF _ store_ok_hwf_pending[OF assms]])
    (auto intro: distinct_delete)

lemma store_ok_mark_read [kim_inv]:
  assumes "store_ok s"
  shows "store_ok (snd (mark_read app account dest kind mid s))"
proof -
  obtain log where inv: "store_inv s log" using assms by (auto simp: store_ok_def)
  have "store_inv (bump_version app account dest (kind_i kind) (s\<lparr>in_reads := hput k v (in_reads s)\<rparr>)) log" for k v
    by (rule store_inv_other_tables[OF inv])
      (use inv in \<open>simp_all add: store_inv_def distinct_update bump_version_def Let_def\<close>)
  then have "store_ok (bump_version app account dest (kind_i kind) (s\<lparr>in_reads := hput k v (in_reads s)\<rparr>))" for k v
    by blast
  then show ?thesis using assms by (simp add: mark_read_def Let_def)
qed

lemma store_ok_bot_reply_commit [kim_inv]:
  assumes "store_ok s" "\<And>mid. gen 0 = Inr mid \<Longrightarrow> hget (in_contents s) mid = None" "im_sender req = b"
  shows "store_ok (snd (bot_reply_commit receipts now gen app b irt req s))"
proof -
  obtain log where inv: "store_inv s log" using assms(1) by (auto simp: store_ok_def)
  let ?known = "if im_client_id req \<noteq> [] then hget (in_idempotency s) (idem_key app req) else None"
  show ?thesis
  proof (cases "hget (in_bot_turns s) (app, b, irt)")
    case (Some i)
    then show ?thesis using assms(1) by (simp add: bot_reply_commit_def)
  next
    case no_turn: None
    show ?thesis
    proof (cases ?known)
      case (Some p)
      obtain mid st where p: "p = (mid, st)" by (cases p)
      then have "hget (in_idempotency s) (app, b, im_client_id req) = Some (mid, st)"
        using Some assms(3) by (auto split: if_splits)
      from store_invD(4)[OF inv this] obtain c where
        "hget (in_contents s) mid = Some c" "sm_app c = app" "sm_sender c = b" by blast
      then have "store_ok (s\<lparr>in_bot_turns := hput (app, b, irt) mid (in_bot_turns s)\<rparr>)"
        using store_inv_bot_turn[OF inv] by blast
      then show ?thesis using no_turn Some p by (auto simp: bot_reply_commit_def Let_def)
    next
      case unknown: None
      show ?thesis
      proof (cases "gen 0")
        case (Inl e)
        then show ?thesis using no_turn unknown assms(1) by (simp add: bot_reply_commit_def Let_def)
      next
        case (Inr mid)
        let ?m = "if im_client_id req \<noteq> [] then hput (idem_key app req) (mid, im_send_time req) (in_idempotency s)
          else in_idempotency s"
        let ?t = "foldl (\<lambda>s r. push_index r s) (s\<lparr>in_idempotency := ?m,
            in_contents := hput mid (insert_content app UserMsg req mid) (in_contents s)\<rparr>)
            (insert_rows app UserMsg req [] mid)"
        have ip: "idem_points ?m ((hget (in_contents s))(mid \<mapsto> insert_content app UserMsg req mid))"
          using idem_points_put[OF inv assms(2)[OF Inr]] by simp
        have add: "store_inv ?t (log @ insert_rows app UserMsg req [] mid)"
          by (rule store_inv_add_message[OF inv assms(2)[OF Inr] _ ip]) simp
        have turn: "store_ok (?t\<lparr>in_bot_turns := hput (app, b, irt) mid (in_bot_turns ?t)\<rparr>)"
          by (rule store_okI, rule store_inv_bot_turn[OF add, where c = "insert_content app UserMsg req mid"])
            (simp_all add: insert_content_def assms(3))
        have upd: "(if im_client_id req \<noteq> [] then s\<lparr>in_idempotency := ?m\<rparr> else s) = s\<lparr>in_idempotency := ?m\<rparr>"
          by simp
        show ?thesis
          using no_turn unknown Inr turn by (auto simp: bot_reply_commit_def Let_def)
      qed
    qed
  qed
qed

lemma store_ok_bot_reply [kim_inv]:
  assumes "store_ok s" "\<And>mid. gen 0 = Inr mid \<Longrightarrow> hget (in_contents s) mid = None"
  shows "store_ok (snd (insert_bot_reply receipts now gen app owner b irt req s))"
  using assms store_ok_bot_reply_commit[OF assms, of gen req b]
  by (simp add: insert_bot_reply_def)

subsection \<open>Purge\<close>

lemma purge_account_index_simps [simp]:
  "in_contents (fst (purge_account_index app account peer who st)) = in_contents (fst st)"
  "in_by_message (fst (purge_account_index app account peer who st)) = in_by_message (fst st)"
  "in_idempotency (fst (purge_account_index app account peer who st)) = in_idempotency (fst st)"
  "in_reads (fst (purge_account_index app account peer who st)) = in_reads (fst st)"
  "in_versions (fst (purge_account_index app account peer who st)) = in_versions (fst st)"
  "in_pending (fst (purge_account_index app account peer who st)) = in_pending (fst st)"
  "in_bot_turns (fst (purge_account_index app account peer who st)) = in_bot_turns (fst st)"
  by (auto simp: purge_account_index_def split_beta split: option.splits)

lemma purge_account_index_rows:
  "account_rows app' a (fst (purge_account_index app account peer who st)) =
     (if app' = app \<and> a = who then filter (\<lambda>r. \<not> dm_row account peer r) (account_rows app' a (fst st))
      else account_rows app' a (fst st))"
  by (auto simp: purge_account_index_def account_rows_def split_beta comp_def split: option.splits)

lemma purge_account_index_ids:
  "snd (purge_account_index app account peer who st)
     = snd st @ map ir_message_id (filter (dm_row account peer) (account_rows app who (fst st)))"
  by (auto simp: purge_account_index_def account_rows_def split_beta comp_def split: option.splits)

lemma purge_message_simps [simp]:
  "in_by_account (purge_message app account peer i s) = in_by_account s"
  "in_idempotency (purge_message app account peer i s) = in_idempotency s"
  "in_reads (purge_message app account peer i s) = in_reads s"
  "in_versions (purge_message app account peer i s) = in_versions s"
  "in_bot_turns (purge_message app account peer i s) = in_bot_turns s"
  by (auto simp: purge_message_def Let_def split: option.splits)

lemma purge_messages_simps [simp]:
  "in_by_account (foldl (\<lambda>s i. purge_message app account peer i s) s ids) = in_by_account s"
  "in_idempotency (foldl (\<lambda>s i. purge_message app account peer i s) s ids) = in_idempotency s"
  "in_reads (foldl (\<lambda>s i. purge_message app account peer i s) s ids) = in_reads s"
  "in_versions (foldl (\<lambda>s i. purge_message app account peer i s) s ids) = in_versions s"
  "in_bot_turns (foldl (\<lambda>s i. purge_message app account peer i s) s ids) = in_bot_turns s"
  by (induction ids arbitrary: s) simp_all

definition purged :: "string \<Rightarrow> string \<Rightarrow> string \<Rightarrow> InboxRow \<Rightarrow> bool" where
  "purged app account peer r \<longleftrightarrow> ir_app r = app \<and> dm_row account peer r"

lemma purge_message_rows:
  "msg_rows i (purge_message app account peer j s) =
     (if i = j then filter (\<lambda>r. \<not> purged app account peer r) (msg_rows i s) else msg_rows i s)"
  "hget (in_contents (purge_message app account peer j s)) i =
     (if i = j \<and> filter (\<lambda>r. \<not> purged app account peer r) (msg_rows i s) = [] then None
      else hget (in_contents s) i)"
  "hwf (in_pending s) \<Longrightarrow> hwf (in_pending (purge_message app account peer j s))"
  by (auto simp: purge_message_def msg_rows_def purged_def Let_def hwf_hretain split: option.splits)

lemma purge_messages_rows:
  "msg_rows i (foldl (\<lambda>s j. purge_message app account peer j s) s ids) =
     (if i \<in> set ids then filter (\<lambda>r. \<not> purged app account peer r) (msg_rows i s) else msg_rows i s)"
  by (induction ids arbitrary: s) (auto simp: purge_message_rows(1))

lemma purge_messages_contents:
  "hget (in_contents (foldl (\<lambda>s j. purge_message app account peer j s) s ids)) i =
     (if i \<in> set ids \<and> filter (\<lambda>r. \<not> purged app account peer r) (msg_rows i s) = [] then None
      else hget (in_contents s) i)"
  by (induction ids arbitrary: s) (auto simp: purge_message_rows)

lemma purge_messages_pending:
  "hwf (in_pending s) \<Longrightarrow> hwf (in_pending (foldl (\<lambda>s j. purge_message app account peer j s) s ids))"
  by (induction ids arbitrary: s) (simp_all add: purge_message_rows(3))

text \<open>The identifiers of the purged rows, and the state before the four side tables are cleaned.\<close>

definition purge_ids :: "string \<Rightarrow> string \<Rightarrow> string \<Rightarrow> Inner \<Rightarrow> int list" where
  "purge_ids app account peer s = remdups_adj (sort (snd
     (purge_account_index app account peer peer (purge_account_index app account peer account (s, [])))))"

definition purge_tables :: "string \<Rightarrow> string \<Rightarrow> string \<Rightarrow> Inner \<Rightarrow> Inner" where
  "purge_tables app account peer s =
     foldl (\<lambda>s i. purge_message app account peer i s)
       (fst (purge_account_index app account peer peer (purge_account_index app account peer account (s, []))))
       (purge_ids app account peer s)"

lemma purge_ids_set:
  assumes "idx_sim s log" "account \<noteq> peer"
  shows "set (purge_ids app account peer s) = ir_message_id ` {r \<in> set log. purged app account peer r}"
  using assms
  by (auto simp: purge_ids_def purge_account_index_ids purge_account_index_rows idx_sim_def purged_def
      dm_row_def image_iff)

lemma purge_idsD:
  assumes "idx_sim s log" "account \<noteq> peer" "i \<in> set (purge_ids app account peer s)"
  shows "\<exists>r \<in> set log. purged app account peer r \<and> ir_message_id r = i"
  using assms(3) unfolding purge_ids_set[OF assms(1,2)] by blast

lemma purge_tables_sim:
  assumes "idx_sim s log" "account \<noteq> peer"
  shows "idx_sim (purge_tables app account peer s) (filter (\<lambda>r. \<not> purged app account peer r) log)"
proof -
  have acc: "account_rows app' a (purge_tables app account peer s)
      = filter (\<lambda>r. ir_app r = app' \<and> ir_account_a r = a) (filter (\<lambda>r. \<not> purged app account peer r) log)" for app' a
    using assms
    by (auto simp: purge_tables_def account_rows_cong[OF purge_messages_simps(1)] purge_account_index_rows
        idx_sim_def filter_filter purged_def dm_row_def intro!: filter_cong)
  have msg: "msg_rows i (purge_tables app account peer s)
      = filter (\<lambda>r. ir_message_id r = i) (filter (\<lambda>r. \<not> purged app account peer r) log)" for i
  proof -
    have "msg_rows i (fst (purge_account_index app account peer peer
        (purge_account_index app account peer account (s, [])))) = msg_rows i s"
      by (rule msg_rows_cong) simp
    then show ?thesis
      using purge_ids_set[OF assms, of app] assms(1)
      by (auto simp: purge_tables_def purge_messages_rows idx_sim_def filter_filter intro!: filter_cong)
  qed
  show ?thesis using acc msg by (simp add: idx_sim_def)
qed

text \<open>A purged message is a direct message between the two accounts, so all its rows are purged.\<close>

lemma purged_content:
  assumes inv: "store_inv s log" and r: "r \<in> set log" "purged app account peer r"
    and c: "hget (in_contents s) (ir_message_id r) = Some c"
  shows "sm_kind c = UserMsg \<and> sm_app c = app \<and> {sm_sender c, sm_dest c} = {account, peer}
    \<and> filter (\<lambda>r. \<not> purged app account peer r) (msg_rows (ir_message_id r) s) = []"
proof -
  have "r \<in> set (msg_rows (ir_message_id r) s)" using store_invD(1)[OF inv] r(1) by (simp add: idx_sim_def)
  moreover have "content_rows c (msg_rows (ir_message_id r) s)" using store_invD(3)[OF inv c] by simp
  ultimately show ?thesis
    using r(2)
    by (cases "sm_kind c")
      (auto simp: content_rows_def user_rows_def group_row_def purged_def dm_row_def Let_def
        DIRECTION_SEND_def DIRECTION_RECV_def)
qed

lemma purge_tables_contents:
  assumes inv: "store_inv s log" and ne: "account \<noteq> peer"
  shows "hget (in_contents (purge_tables app account peer s)) i =
    (if i \<in> set (purge_ids app account peer s) then None else hget (in_contents s) i)"
proof -
  let ?t = "fst (purge_account_index app account peer peer (purge_account_index app account peer account (s, [])))"
  have rows: "msg_rows i ?t = msg_rows i s" by (rule msg_rows_cong) simp
  have "filter (\<lambda>r. \<not> purged app account peer r) (msg_rows i s) = []"
    if i: "i \<in> set (purge_ids app account peer s)"
  proof -
    obtain r where r: "r \<in> set log" "purged app account peer r" "i = ir_message_id r"
      using purge_idsD[OF store_invD(1)[OF inv] ne i] by blast
    then obtain c where "hget (in_contents s) (ir_message_id r) = Some c"
      using store_invD(2)[OF inv r(1)] by blast
    from purged_content[OF inv r(1,2) this] r(3) show ?thesis by simp
  qed
  then show ?thesis by (simp add: purge_tables_def purge_messages_contents rows)
qed

lemma purge_peer_dm_eq:
  assumes "account \<noteq> []" "peer \<noteq> []" "account \<noteq> peer"
  shows "purge_peer_dm app account peer s = (purge_tables app account peer s)
    \<lparr>in_reads := hretain (\<lambda>(a, acct, p, gid) _. \<not> (a = app \<and> gid = []
         \<and> ((acct = account \<and> p = peer) \<or> (acct = peer \<and> p = account)))) (in_reads s),
     in_versions := hretain (\<lambda>(a, acct, dest, kind) _. \<not> (a = app \<and> kind = 0
         \<and> ((acct = account \<and> dest = peer) \<or> (acct = peer \<and> dest = account)))) (in_versions s),
     in_bot_turns := hretain (\<lambda>(a, bot_acc, _) _. \<not> (a = app \<and> (bot_acc = peer \<or> bot_acc = account)))
         (in_bot_turns s),
     in_idempotency := hretain (\<lambda>(a, sender, _) (mid, _).
         \<not> (a = app \<and> mid \<in> set (purge_ids app account peer s) \<and> (sender = account \<or> sender = peer)))
         (in_idempotency s)\<rparr>"
  using assms by (simp add: purge_peer_dm_def purge_tables_def purge_ids_def Let_def split_beta)

lemma hget_hretain_SomeD: "hwf m \<Longrightarrow> hget (hretain P m) k = Some v \<Longrightarrow> hget m k = Some v \<and> P k v"
  by (auto simp: hget_hretain split: option.splits if_splits)

lemma store_inv_purge:
  assumes inv: "store_inv s log" and args: "account \<noteq> []" "peer \<noteq> []" "account \<noteq> peer"
  shows "store_inv (purge_peer_dm app account peer s) (filter (\<lambda>r. \<not> purged app account peer r) log)"
proof -
  let ?t = "purge_peer_dm app account peer s"
  let ?ids = "purge_ids app account peer s"
  note sim = store_invD(1)[OF inv]
  have wf: "hwf (in_idempotency s)" "hwf (in_bot_turns s)" "hwf (in_reads s)" "hwf (in_versions s)" "hwf (in_pending s)"
    using inv by (simp_all add: store_inv_def)
  have sim': "idx_sim ?t (filter (\<lambda>r. \<not> purged app account peer r) log)"
    using purge_tables_sim[OF sim args(3), of app] idx_sim_cong[of ?t "purge_tables app account peer s"]
    by (simp add: purge_peer_dm_eq[OF args])
  have cont: "hget (in_contents ?t) i = (if i \<in> set ?ids then None else hget (in_contents s) i)" for i
    using purge_tables_contents[OF inv args(3)] by (simp add: purge_peer_dm_eq[OF args])
  have ids: "\<exists>r. r \<in> set log \<and> purged app account peer r \<and> i = ir_message_id r" if "i \<in> set ?ids" for i
    using purge_idsD[OF sim args(3) that] by blast
  have dm: "sm_app c = app \<and> sm_kind c = UserMsg \<and> sm_sender c \<in> {account, peer}"
    if i: "i \<in> set ?ids" and c: "hget (in_contents s) i = Some c" for i c
  proof -
    obtain r where r: "r \<in> set log" "purged app account peer r" "i = ir_message_id r" using ids[OF i] by blast
    have "{sm_sender c, sm_dest c} = {account, peer}" "sm_app c = app" "sm_kind c = UserMsg"
      using purged_content[OF inv r(1,2)] c r(3) by auto
    then show ?thesis by blast
  qed
  have live: "hget (in_contents ?t) (ir_message_id r) \<noteq> None" if r: "r \<in> set log" "\<not> purged app account peer r" for r
  proof -
    obtain c where c: "hget (in_contents s) (ir_message_id r) = Some c" using store_invD(2)[OF inv r(1)] by blast
    have "ir_message_id r \<notin> set ?ids"
    proof
      assume "ir_message_id r \<in> set ?ids"
      then obtain r' where "r' \<in> set log" "purged app account peer r'" "ir_message_id r' = ir_message_id r"
        using ids by metis
      with purged_content[OF inv this(1,2)] c
      have "filter (\<lambda>r. \<not> purged app account peer r) (msg_rows (ir_message_id r) s) = []" by simp
      then show False using sim r by (auto simp: idx_sim_def filter_empty_conv)
    qed
    then show ?thesis using c cont by simp
  qed
  have rows: "content_rows c (msg_rows i ?t)" if "hget (in_contents s) i = Some c" "i \<notin> set ?ids" for i c
  proof -
    have "filter (\<lambda>r. \<not> purged app account peer r) (msg_rows i s) = msg_rows i s"
      using that(2) sim purge_ids_set[OF sim args(3), of app]
      by (auto simp: idx_sim_def filter_filter intro!: filter_cong)
    moreover have "msg_rows i ?t = filter (\<lambda>r. \<not> purged app account peer r) (msg_rows i s)"
      using sim sim' by (auto simp: idx_sim_def filter_filter intro: filter_cong)
    ultimately show ?thesis using store_invD(3)[OF inv that(1)] by simp
  qed
  have "\<forall>app' sender cid mid st. hget (in_idempotency ?t) (app', sender, cid) = Some (mid, st) \<longrightarrow>
      (\<exists>c. hget (in_contents ?t) mid = Some c \<and> sm_app c = app' \<and> sm_sender c = sender \<and> sm_send_time c = st)"
  proof (intro allI impI)
    fix app' sender cid mid st assume "hget (in_idempotency ?t) (app', sender, cid) = Some (mid, st)"
    then have h: "hget (in_idempotency s) (app', sender, cid) = Some (mid, st)"
      "\<not> (app' = app \<and> mid \<in> set ?ids \<and> (sender = account \<or> sender = peer))"
      by (auto simp: purge_peer_dm_eq[OF args] dest!: hget_hretain_SomeD[OF wf(1)])
    from store_invD(4)[OF inv h(1)] obtain c where
      c: "hget (in_contents s) mid = Some c" "sm_app c = app'" "sm_sender c = sender" "sm_send_time c = st" by blast
    with dm[OF _ c(1)] h(2) have "mid \<notin> set ?ids" by auto
    then show "\<exists>c. hget (in_contents ?t) mid = Some c \<and> sm_app c = app' \<and> sm_sender c = sender \<and> sm_send_time c = st"
      using c cont by simp
  qed
  moreover have "\<forall>app' b irt mid. hget (in_bot_turns ?t) (app', b, irt) = Some mid \<longrightarrow>
      (\<exists>c. hget (in_contents ?t) mid = Some c \<and> sm_app c = app' \<and> sm_sender c = b)"
  proof (intro allI impI)
    fix app' b irt mid assume "hget (in_bot_turns ?t) (app', b, irt) = Some mid"
    then have h: "hget (in_bot_turns s) (app', b, irt) = Some mid" "\<not> (app' = app \<and> (b = peer \<or> b = account))"
      by (auto simp: purge_peer_dm_eq[OF args] dest!: hget_hretain_SomeD[OF wf(2)])
    from store_invD(5)[OF inv h(1)] obtain c where
      c: "hget (in_contents s) mid = Some c" "sm_app c = app'" "sm_sender c = b" by blast
    with dm[OF _ c(1)] h(2) have "mid \<notin> set ?ids" by auto
    then show "\<exists>c. hget (in_contents ?t) mid = Some c \<and> sm_app c = app' \<and> sm_sender c = b"
      using c cont by simp
  qed
  moreover have "hwf (in_idempotency ?t)" "hwf (in_bot_turns ?t)" "hwf (in_reads ?t)" "hwf (in_versions ?t)"
    "hwf (in_pending ?t)"
    using wf purge_messages_pending by (simp_all add: purge_peer_dm_eq[OF args] hwf_hretain purge_tables_def)
  moreover have "\<forall>i c. hget (in_contents ?t) i = Some c \<longrightarrow> sm_message_id c = i \<and> content_rows c (msg_rows i ?t)"
    using cont rows store_invD(3)[OF inv] by (auto split: if_splits)
  moreover have "\<forall>r \<in> set (filter (\<lambda>r. \<not> purged app account peer r) log). hget (in_contents ?t) (ir_message_id r) \<noteq> None"
    using live by simp
  ultimately show ?thesis using sim' unfolding store_inv_def by blast
qed

lemma store_ok_purge [kim_inv]:
  assumes "store_ok s"
  shows "store_ok (purge_peer_dm app account peer s)"
proof (cases "account = [] \<or> peer = [] \<or> account = peer")
  case True
  then show ?thesis using assms by (auto simp: purge_peer_dm_def)
next
  case False
  obtain log where "store_inv s log" using assms by (auto simp: store_ok_def)
  with False show ?thesis using store_inv_purge by blast
qed

end
