(* ===== verification/Kim_Message_Query.thy ===== *)
theory Kim_Message_Query
  imports Kim_Message_Store
begin

text \<open>
  The queries of the in-memory message store (\<open>services/chat/src/store/mod.rs\<close>): offline index and
  contents, inbox, history, conversation states, pending bot turns, delivery statistics; the
  reachable states of the store as a step relation; and the properties of both.
\<close>

section \<open>Rows handed to clients\<close>

definition INBOX_PAGE :: nat where "INBOX_PAGE = 50"
definition INBOX_MAX :: nat where "INBOX_MAX = 100"
definition HISTORY_PAGE :: nat where "HISTORY_PAGE = 50"
definition HISTORY_MAX :: nat where "HISTORY_MAX = 100"

record MessageIndexRow =
  mi_message_id :: int
  mi_direction :: int
  mi_send_time :: int
  mi_account_b :: string
  mi_group :: string

record MessageContentRow =
  mc_message_id :: int
  mc_msg_type :: int
  mc_body :: string
  mc_extra :: string

record InboxEntry =
  ie_dest :: string
  ie_kind :: MessageKind
  ie_last_message_id :: int
  ie_last_send_time :: int
  ie_last_body :: string
  ie_last_sender :: string
  ie_last_msg_type :: int
  ie_unread :: int
  ie_last_read_message_id :: int
  ie_max_message_id :: int
  ie_state_version :: nat

record HistoryEntry =
  hi_message_id :: int
  hi_msg_type :: int
  hi_body :: string
  hi_extra :: string
  hi_sender :: string
  hi_send_time :: int
  hi_direction :: int

record BotPendingItem =
  bi_message_id :: int
  bi_body :: string
  bi_send_time :: int

record ConversationStateKey =
  ck_dest :: string
  ck_kind :: MessageKind

definition clamp_page :: "int \<Rightarrow> nat \<Rightarrow> nat \<Rightarrow> nat" where
  "clamp_page requested dflt mx = (if requested \<le> 0 then dflt else min (nat requested) mx)"

definition index_row :: "InboxRow \<Rightarrow> MessageIndexRow" where
  "index_row r = \<lparr>mi_message_id = ir_message_id r, mi_direction = ir_direction r,
     mi_send_time = ir_send_time r, mi_account_b = ir_account_b r, mi_group = ir_group_id r\<rparr>"

section \<open>The queries\<close>

definition sent_time :: "nat \<Rightarrow> int \<Rightarrow> string \<Rightarrow> int \<Rightarrow> MemoryMessageStore \<Rightarrow> int" where
  "sent_time now unix_now account message_id m =
     (let i = (if message_id = 0 then ack_get now account (mm_ack m) else message_id);
          start = (if i > 0 then
                     (case hget (in_contents (mm_inner m)) i of
                        Some c \<Rightarrow> sm_send_time c
                      | None \<Rightarrow> i64_saturating_sub unix_now DAY_NANOS)
                   else 0)
      in clamp_start start unix_now)"

definition pending_keys ::
  "nat \<Rightarrow> string \<Rightarrow> string \<Rightarrow> string \<Rightarrow> Inner \<Rightarrow> (nat \<times> int) list" where
  "pending_keys now app account target_id s =
     map (\<lambda>((_, _, _, i), e). (pe_created_at e, i))
       (filter (\<lambda>((a, acc, tid, _), e). a = app \<and> acc = account \<and> tid = target_id
          \<and> pe_acked_at e = None \<and> pe_expires_at e > now) (in_pending s))"

definition offline_index ::
  "nat \<Rightarrow> int \<Rightarrow> string \<Rightarrow> string \<Rightarrow> string \<Rightarrow> int \<Rightarrow> bool \<Rightarrow> MemoryMessageStore
   \<Rightarrow> (MessageIndexRow list \<times> bool) \<times> MemoryMessageStore" where
  "offline_index now unix_now app account target_id message_id resume m =
     (let s = mm_inner m in
      if \<not> mm_pending_receipt m \<or> target_id = [] then
        let start = sent_time now unix_now account message_id m;
            rows = map index_row (filter (\<lambda>r. ir_send_time r > start) (account_rows app account s));
            rows = take OFFLINE_SYNC_INDEX_COUNT (sort_key mi_send_time rows);
            m' = (if message_id > 0 then m\<lparr>mm_ack := ack_set now account message_id (mm_ack m)\<rparr> else m)
        in ((rows, False), m')
      else if \<not> resume \<and> message_id \<noteq> 0 then (([], False), m)
      else
        let pending = sort (pending_keys now app account target_id s);
            cap = MESSAGE_MAX_COUNT_PER_PAGE;
            has_more = (resume \<and> length pending > cap);
            pending = take cap (if resume then take (cap + 1) pending else pending);
            rows = List.map_filter (\<lambda>(_, i). map_option index_row
                     (List.find (\<lambda>r. ir_message_id r = i) (account_rows app account s))) pending
        in ((rows, has_more), m))"

definition offline_content ::
  "string \<Rightarrow> string \<Rightarrow> int list \<Rightarrow> Inner \<Rightarrow> MessageContentRow list" where
  "offline_content app account message_ids s =
     List.map_filter (\<lambda>i.
       case hget (in_contents s) i of
         None \<Rightarrow> None
       | Some c \<Rightarrow>
           if sm_app c \<noteq> app then None
           else if \<not> list_ex (\<lambda>r. ir_message_id r = i) (account_rows app account s) then None
           else Some \<lparr>mc_message_id = sm_message_id c, mc_msg_type = sm_msg_type c,
                      mc_body = sm_body c, mc_extra = sm_extra c\<rparr>) message_ids"

definition pending_delivery_stats :: "nat \<Rightarrow> Inner \<Rightarrow> int \<times> int" where
  "pending_delivery_stats now s =
     (let live = filter (\<lambda>e. pe_acked_at e = None \<and> pe_expires_at e > now) (map snd (in_pending s));
          count = int (length live);
          oldest = foldl (\<lambda>o' e. case o' of None \<Rightarrow> Some (pe_created_at e)
                                  | Some t \<Rightarrow> Some (min t (pe_created_at e))) None live;
          age = (case oldest of
                   None \<Rightarrow> 0
                 | Some t \<Rightarrow> let secs = int ((now - t) div 1000000000) in if secs \<le> i64_max then secs else 0)
      in (count, age))"

fun inbox_row ::
  "string \<Rightarrow> string \<Rightarrow> Inner \<Rightarrow> (MessageKind \<times> string, InboxEntry) hmap \<Rightarrow> InboxRow
   \<Rightarrow> (MessageKind \<times> string, InboxEntry) hmap" where
  "inbox_row app account s latest row =
     (let (kind, dest) = (if ir_group_id row = [] then (UserMsg, ir_account_b row) else (GroupMsg, ir_group_id row));
          sender = (if ir_direction row = DIRECTION_SEND then account else ir_account_b row);
          last_read = last_read_of app account dest kind s;
          unread_inc = (if ir_direction row = DIRECTION_RECV \<and> ir_message_id row > last_read then 1 else 0);
          version = (case hget (in_versions s) (app, account, dest, kind_i kind) of None \<Rightarrow> 0 | Some v \<Rightarrow> v);
          entry = (case hget latest (kind, dest) of
              Some e \<Rightarrow> e
            | None \<Rightarrow> \<lparr>ie_dest = dest, ie_kind = kind, ie_last_message_id = 0, ie_last_send_time = 0,
                ie_last_body = [], ie_last_sender = [], ie_last_msg_type = 0, ie_unread = 0,
                ie_last_read_message_id = last_read, ie_max_message_id = 0, ie_state_version = version\<rparr>);
          entry = entry\<lparr>ie_unread := i32_saturating_add (ie_unread entry) unread_inc,
            ie_max_message_id := max (ie_max_message_id entry) (ir_message_id row),
            ie_last_read_message_id := last_read, ie_state_version := version\<rparr>;
          newer = (ir_send_time row > ie_last_send_time entry
            \<or> (ir_send_time row = ie_last_send_time entry \<and> ir_message_id row > ie_last_message_id entry));
          entry = (if newer then
              let e1 = entry\<lparr>ie_last_message_id := ir_message_id row, ie_last_send_time := ir_send_time row,
                             ie_last_sender := sender\<rparr>
              in (case hget (in_contents s) (ir_message_id row) of
                    Some c \<Rightarrow> e1\<lparr>ie_last_body := sm_body c, ie_last_msg_type := sm_msg_type c\<rparr>
                  | None \<Rightarrow> e1)
            else entry)
      in hput (kind, dest) entry latest)"

definition inbox :: "string \<Rightarrow> string \<Rightarrow> int \<Rightarrow> Inner \<Rightarrow> InboxEntry list" where
  "inbox app account limit s =
     (let latest = foldl (inbox_row app account s) [] (account_rows app account s)
      in take (clamp_page limit INBOX_PAGE INBOX_MAX)
           (sort_key (\<lambda>e. (- ie_last_send_time e, - ie_last_message_id e)) (map snd latest)))"

definition history_rows ::
  "string \<Rightarrow> string \<Rightarrow> string \<Rightarrow> MessageKind \<Rightarrow> int \<Rightarrow> Inner \<Rightarrow> HistoryEntry list" where
  "history_rows app account dest kind before_id s =
     List.map_filter (\<lambda>r. map_option (\<lambda>c. \<lparr>hi_message_id = ir_message_id r, hi_msg_type = sm_msg_type c,
           hi_body = sm_body c, hi_extra = sm_extra c,
           hi_sender = (if ir_direction r = DIRECTION_SEND then account else ir_account_b r),
           hi_send_time = ir_send_time r, hi_direction = ir_direction r\<rparr>)
         (hget (in_contents s) (ir_message_id r)))
       (filter (\<lambda>r. dest_ok dest kind r \<and> (before_id \<le> 0 \<or> ir_message_id r < before_id))
         (account_rows app account s))"

definition history ::
  "string \<Rightarrow> string \<Rightarrow> string \<Rightarrow> MessageKind \<Rightarrow> int \<Rightarrow> int \<Rightarrow> Inner \<Rightarrow> HistoryEntry list" where
  "history app account dest kind before_id limit s =
     take (clamp_page limit HISTORY_PAGE HISTORY_MAX)
       (sort_key (\<lambda>h. - hi_message_id h) (history_rows app account dest kind before_id s))"

definition conversation_states ::
  "string \<Rightarrow> string \<Rightarrow> ConversationStateKey list \<Rightarrow> Inner \<Rightarrow> ConversationReadState list" where
  "conversation_states app account keys s =
     map (\<lambda>k. conversation_state app account (ck_dest k) (ck_kind k) s) keys"

definition bot_pending :: "string \<Rightarrow> string \<Rightarrow> string \<Rightarrow> int \<Rightarrow> Inner \<Rightarrow> BotPendingItem list" where
  "bot_pending app owner bot_acc limit s =
     (let items = List.map_filter (\<lambda>r.
          case hget (in_contents s) (ir_message_id r) of
            None \<Rightarrow> None
          | Some c \<Rightarrow> if sm_sender c = owner
              then Some \<lparr>bi_message_id = ir_message_id r, bi_body = sm_body c, bi_send_time = ir_send_time r\<rparr>
              else None)
          (filter (\<lambda>r. ir_account_b r = bot_acc \<and> ir_direction r = DIRECTION_SEND \<and> ir_group_id r = []
             \<and> hget (in_bot_turns s) (app, bot_acc, ir_message_id r) = None)
             (account_rows app owner s))
      in take (clamp_page limit 20 50) (sort_key bi_message_id items))"

section \<open>Reachable states\<close>

text \<open>
  \<open>write_step\<close> are the operations that add or update; \<open>msg_step\<close> adds the purge. The identifier
  generator is used only through what it promises: the identifier it returns is not stored yet. A
  group message has a non-empty group identifier, which the handlers check.
\<close>

inductive write_step :: "MemoryMessageStore \<Rightarrow> MemoryMessageStore \<Rightarrow> bool" where
  insert: "(\<And>mid. gen 0 = Inr mid \<Longrightarrow> hget (in_contents (mm_inner m)) mid = None) \<Longrightarrow>
    (kind = GroupMsg \<longrightarrow> im_dest req \<noteq> []) \<Longrightarrow>
    write_step m (m\<lparr>mm_inner := snd (insert_msg (mm_pending_receipt m) now gen app kind req ms (mm_inner m))\<rparr>)"
| commit: "hget (in_contents (mm_inner m)) mid = None \<Longrightarrow> (kind = GroupMsg \<longrightarrow> im_dest req \<noteq> []) \<Longrightarrow>
    write_step m (m\<lparr>mm_inner := snd (insert_commit (mm_pending_receipt m) now app kind req ms mid (mm_inner m))\<rparr>)"
| bot_reply: "(\<And>mid. gen 0 = Inr mid \<Longrightarrow> hget (in_contents (mm_inner m)) mid = None) \<Longrightarrow>
    write_step m (m\<lparr>mm_inner := snd (insert_bot_reply (mm_pending_receipt m) now gen app owner b irt req (mm_inner m))\<rparr>)"
| ack: "write_step m (snd (snd (store_ack now app account target ids m)))"
| offline: "write_step m (snd (offline_index now unow app account target mid resume m))"
| backfill: "write_step m (backfill_delivery now unow app account target m)"
| gc: "write_step m (m\<lparr>mm_inner := snd (gc_expired_deliveries now limit (mm_inner m))\<rparr>)"
| read: "write_step m (m\<lparr>mm_inner := snd (mark_read app account dest kind mid (mm_inner m))\<rparr>)"

inductive msg_step :: "MemoryMessageStore \<Rightarrow> MemoryMessageStore \<Rightarrow> bool" where
  wstep: "write_step m m' \<Longrightarrow> msg_step m m'"
| purge: "msg_step m (m\<lparr>mm_inner := purge_peer_dm app account peer (mm_inner m)\<rparr>)"

inductive msg_reach :: "MemoryMessageStore \<Rightarrow> bool" where
  start: "msg_reach (message_store_new pr)"
| step: "msg_reach m \<Longrightarrow> msg_step m m' \<Longrightarrow> msg_reach m'"

lemma offline_index_inner: "mm_inner (snd (offline_index now unow app account target mid resume m)) = mm_inner m"
  by (simp add: offline_index_def Let_def)

lemma write_step_ok: "write_step m m' \<Longrightarrow> store_ok (mm_inner m) \<Longrightarrow> store_ok (mm_inner m')"
proof (induction rule: write_step.induct)
  case (insert gen m kind req now app ms)
  then show ?case using store_inv_insert_msg by (auto simp: store_ok_def)
next
  case (commit m mid kind req now app ms)
  then show ?case using store_inv_insert_commit by (auto simp: store_ok_def)
qed (simp_all add: store_ok_bot_reply store_ok_ack offline_index_inner store_ok_backfill store_ok_gc
  store_ok_mark_read)

lemma msg_reach_ok: "msg_reach m \<Longrightarrow> store_ok (mm_inner m)"
proof (induction rule: msg_reach.induct)
  case (start pr)
  then show ?case using store_inv_default by (auto simp: message_store_new_def)
next
  case (step m m')
  then show ?case by (auto elim!: msg_step.cases simp: write_step_ok store_ok_purge)
qed

section \<open>What a write never takes back\<close>

definition extends :: "Inner \<Rightarrow> Inner \<Rightarrow> bool" where
  "extends s s' \<longleftrightarrow>
     (\<forall>mid c. hget (in_contents s) mid = Some c \<longrightarrow>
        hget (in_contents s') mid = Some c \<and> msg_rows mid s' = msg_rows mid s)
     \<and> (\<forall>k v. hget (in_idempotency s) k = Some v \<longrightarrow> hget (in_idempotency s') k = Some v)
     \<and> (\<forall>k v. hget (in_bot_turns s) k = Some v \<longrightarrow> hget (in_bot_turns s') k = Some v)
     \<and> (\<forall>app a dest kind. last_read_of app a dest kind s \<le> last_read_of app a dest kind s')"

lemma extends_refl [simp]: "extends s s"
  by (simp add: extends_def)

lemma extendsD:
  assumes "extends s t"
  shows "hget (in_contents s) mid = Some c \<Longrightarrow> hget (in_contents t) mid = Some c"
    and "hget (in_contents s) mid = Some c \<Longrightarrow> msg_rows mid t = msg_rows mid s"
    and "hget (in_idempotency s) k = Some v \<Longrightarrow> hget (in_idempotency t) k = Some v"
    and "hget (in_bot_turns s) k' = Some v' \<Longrightarrow> hget (in_bot_turns t) k' = Some v'"
    and "last_read_of app a dest kind s \<le> last_read_of app a dest kind t"
  using assms unfolding extends_def by blast+

lemma extends_trans:
  assumes "extends s t" "extends t u"
  shows "extends s u"
proof -
  have "msg_rows mid u = msg_rows mid s" if "hget (in_contents s) mid = Some c" for mid c
    using extendsD(2)[OF assms(2) extendsD(1)[OF assms(1) that]] extendsD(2)[OF assms(1) that] by simp
  moreover have "last_read_of app a dest kind s \<le> last_read_of app a dest kind u" for app a dest kind
    using extendsD(5)[OF assms(1)] extendsD(5)[OF assms(2)] by (rule order_trans)
  ultimately show ?thesis
    using extendsD(1,3,4)[OF assms(1)] extendsD(1,3,4)[OF assms(2)] unfolding extends_def by blast
qed

lemma last_read_cong: "in_reads t = in_reads s \<Longrightarrow> last_read_of app a d k t = last_read_of app a d k s"
  by (simp add: last_read_of_def)

lemma extends_same_tables:
  "in_contents t = in_contents s \<Longrightarrow> in_by_message t = in_by_message s \<Longrightarrow>
   in_idempotency t = in_idempotency s \<Longrightarrow> in_bot_turns t = in_bot_turns s \<Longrightarrow> in_reads t = in_reads s \<Longrightarrow>
   extends s t"
  using msg_rows_cong[of t s] last_read_cong[of t s] by (simp add: extends_def)

lemma msg_rows_push_rows:
  "(\<And>r. r \<in> set rs \<Longrightarrow> ir_message_id r = mid) \<Longrightarrow> i \<noteq> mid \<Longrightarrow>
   msg_rows i (foldl (\<lambda>s r. push_index r s) s rs) = msg_rows i s"
  by (induction rs arbitrary: s) (auto simp: msg_rows_push)

lemma extends_add_message:
  fixes app kind req ms mid s m
  defines "t \<equiv> foldl (\<lambda>s r. push_index r s)
     (s\<lparr>in_idempotency := m, in_contents := hput mid (insert_content app kind req mid) (in_contents s)\<rparr>)
     (insert_rows app kind req ms mid)"
  assumes "hget (in_contents s) mid = None"
    "\<And>k v. hget (in_idempotency s) k = Some v \<Longrightarrow> hget m k = Some v"
  shows "extends s t"
proof -
  have "msg_rows i t = msg_rows i s" if "i \<noteq> mid" for i
    using msg_rows_push_rows[OF insert_rows_ids that] unfolding t_def by (simp add: msg_rows_def)
  then show ?thesis
    using assms(2,3) last_read_cong[of t s] unfolding extends_def by (auto simp: t_def)
qed

lemma extends_upsert: "extends s t \<Longrightarrow> extends s (upsert_receipts now app mid req ms t)"
  by (rule extends_trans, assumption, rule extends_same_tables) simp_all

lemma extends_receipt:
  "extends s t \<Longrightarrow> extends s (if b then upsert_receipts now app mid req ms t else t)"
  by (simp add: extends_upsert)

lemma extends_insert_commit:
  assumes fresh: "hget (in_contents s) mid = None"
  shows "extends s (snd (insert_commit receipts now app kind req ms mid s))"
proof (cases "if im_client_id req \<noteq> [] then hget (in_idempotency s) (idem_key app req) else None")
  case None
  let ?m = "if im_client_id req \<noteq> [] then hput (idem_key app req) (mid, im_send_time req) (in_idempotency s)
    else in_idempotency s"
  have "extends s (foldl (\<lambda>s r. push_index r s)
      (s\<lparr>in_idempotency := ?m, in_contents := hput mid (insert_content app kind req mid) (in_contents s)\<rparr>)
      (insert_rows app kind req ms mid))"
    by (rule extends_add_message[OF fresh]) (use None in \<open>auto split: if_splits\<close>)
  then show ?thesis
    using None by (auto simp: insert_commit_def Let_def extends_upsert split: if_splits)
next
  case (Some p)
  then show ?thesis by (cases p) (auto simp: insert_commit_def Let_def extends_upsert)
qed

lemma extends_insert_msg:
  assumes "\<And>mid. gen 0 = Inr mid \<Longrightarrow> hget (in_contents s) mid = None"
  shows "extends s (snd (insert_msg receipts now gen app kind req ms s))"
  using assms extends_insert_commit
  by (auto simp: insert_msg_def extends_upsert split: option.splits sum.splits prod.splits)

lemma extends_bot_turn:
  "hget (in_bot_turns s) k = None \<Longrightarrow> extends s (s\<lparr>in_bot_turns := hput k v (in_bot_turns s)\<rparr>)"
  by (auto simp: extends_def msg_rows_def last_read_of_def)

lemma extends_bot_reply:
  assumes "\<And>mid. gen 0 = Inr mid \<Longrightarrow> hget (in_contents s) mid = None"
  shows "extends s (snd (insert_bot_reply receipts now gen app owner b irt req s))"
proof -
  have "extends s (snd (bot_reply_commit receipts now gen app b irt req s))"
  proof (cases "hget (in_bot_turns s) (app, b, irt)")
    case (Some i)
    then show ?thesis by (simp add: bot_reply_commit_def)
  next
    case no_turn: None
    let ?known = "if im_client_id req \<noteq> [] then hget (in_idempotency s) (idem_key app req) else None"
    show ?thesis
    proof (cases ?known)
      case (Some p)
      then show ?thesis using no_turn
        by (cases p) (auto simp: bot_reply_commit_def Let_def intro!: extends_upsert extends_bot_turn)
    next
      case unknown: None
      show ?thesis
      proof (cases "gen 0")
        case (Inr mid)
        let ?m = "if im_client_id req \<noteq> [] then hput (idem_key app req) (mid, im_send_time req) (in_idempotency s)
          else in_idempotency s"
        let ?t = "foldl (\<lambda>s r. push_index r s)
          (s\<lparr>in_idempotency := ?m, in_contents := hput mid (insert_content app UserMsg req mid) (in_contents s)\<rparr>)
          (insert_rows app UserMsg req [] mid)"
        have "extends s ?t"
          by (rule extends_add_message[OF assms[OF Inr]]) (use unknown in \<open>auto split: if_splits\<close>)
        moreover have "extends ?t (?t\<lparr>in_bot_turns := hput (app, b, irt) mid (in_bot_turns ?t)\<rparr>)"
          by (rule extends_bot_turn) (simp add: no_turn)
        ultimately have "extends s (?t\<lparr>in_bot_turns := hput (app, b, irt) mid (in_bot_turns ?t)\<rparr>)"
          by (rule extends_trans)
        then show ?thesis using no_turn unknown Inr
          by (auto simp: bot_reply_commit_def Let_def extends_upsert split: if_splits)
      qed (use no_turn unknown in \<open>simp add: bot_reply_commit_def Let_def\<close>)
    qed
  qed
  then show ?thesis by (simp add: insert_bot_reply_def)
qed

lemma read_key_inj: "dest \<noteq> [] \<Longrightarrow> read_key app a dest kind = read_key app' a' dest' kind' \<longleftrightarrow>
    app = app' \<and> a = a' \<and> dest = dest' \<and> kind = kind'"
  by (cases kind; cases kind') (auto simp: read_key_def)

lemma extends_mark_read: "extends s (snd (mark_read app a dest kind mid s))"
  by (auto simp: mark_read_def Let_def extends_def msg_rows_def last_read_of_def)

lemma write_step_extends: "write_step m m' \<Longrightarrow> extends (mm_inner m) (mm_inner m')"
proof (induction rule: write_step.induct)
  case (ack m now app account target ids)
  then show ?case
    by (auto simp: store_ack_def Let_def split_beta intro: extends_same_tables)
next
  case (backfill m now unow app account target)
  then show ?case by (auto simp: backfill_delivery_def Let_def intro: extends_same_tables)
next
  case (gc m now limit)
  then show ?case by (auto simp: gc_expired_deliveries_def Let_def intro: extends_same_tables)
qed (simp_all add: extends_insert_msg extends_insert_commit extends_bot_reply offline_index_inner
  extends_mark_read)

lemma write_steps_extend: "write_step\<^sup>*\<^sup>* m m' \<Longrightarrow> extends (mm_inner m) (mm_inner m')"
  by (induction rule: rtranclp_induct) (auto intro: extends_trans write_step_extends)

section \<open>Idempotent insertion\<close>

lemma fanout_from_memory_rows:
  "hget (in_contents s) mid = Some c \<Longrightarrow>
   fanout_from_memory s mid = Ok (fanout_from_index_rows (sm_msg_type c) (sm_body c) (sm_extra c)
     (map (\<lambda>r. (ir_account_a r, ir_account_b r, ir_direction r, ir_group_id r)) (msg_rows mid s)))"
  by (simp add: fanout_from_memory_def msg_rows_def Let_def)

lemma fanout_of_insert:
  "fanout_from_write kind req ms = fanout_from_index_rows (im_msg_type req) (im_body req) (im_extra req)
     (map (\<lambda>r. (ir_account_a r, ir_account_b r, ir_direction r, ir_group_id r)) (insert_rows app kind req ms mid))"
  by (simp add: fanout_from_write_def insert_rows_def Let_def comp_def split: MessageKind.split)

lemma msg_rows_add_message:
  assumes "store_ok s" "hget (in_contents s) mid = None" "in_by_message s' = in_by_message s"
  shows "msg_rows mid (foldl (\<lambda>s r. push_index r s) s' (insert_rows app kind req ms mid))
    = insert_rows app kind req ms mid"
proof -
  obtain log where inv: "store_inv s log" using assms(1) by (auto simp: store_ok_def)
  have "msg_rows mid s' = []"
    using fresh_no_rows[OF inv assms(2)] store_invD(1)[OF inv] msg_rows_cong[OF assms(3)] by (simp add: idx_sim_def)
  moreover have "(\<And>r. r \<in> set rs \<Longrightarrow> ir_message_id r = mid) \<Longrightarrow>
      msg_rows mid (foldl (\<lambda>s r. push_index r s) t rs) = msg_rows mid t @ rs" for t rs
    by (induction rs arbitrary: t) (auto simp: msg_rows_push)
  ultimately show ?thesis using insert_rows_ids by (metis append_Nil)
qed

lemma insert_commit_stored:
  assumes "store_ok s" "hget (in_contents s) mid = None"
    and "insert_commit receipts now app kind req ms mid s = (Ok res, t)" "\<not> res_duplicate res"
  shows "res = \<lparr>res_message_id = mid, res_send_time = im_send_time req, res_duplicate = False,
      res_fanout = fanout_from_write kind req ms\<rparr>
    \<and> hget (in_contents t) mid = Some (insert_content app kind req mid)
    \<and> msg_rows mid t = insert_rows app kind req ms mid
    \<and> (im_client_id req \<noteq> [] \<longrightarrow> hget (in_idempotency t) (idem_key app req) = Some (mid, im_send_time req))"
proof -
  have unknown: "(if im_client_id req \<noteq> [] then hget (in_idempotency s) (idem_key app req) else None) = None"
    using assms(3,4)
    by (auto simp: insert_commit_def Let_def duplicate_result_def res_bind_eq_Inr split: if_splits option.splits)
  let ?m = "if im_client_id req \<noteq> [] then hput (idem_key app req) (mid, im_send_time req) (in_idempotency s)
    else in_idempotency s"
  let ?t = "foldl (\<lambda>s r. push_index r s)
    (s\<lparr>in_idempotency := ?m, in_contents := hput mid (insert_content app kind req mid) (in_contents s)\<rparr>)
    (insert_rows app kind req ms mid)"
  have t: "t = (if receipts then upsert_receipts now app mid req (members_opt kind ms) ?t else ?t)"
    and res: "res = \<lparr>res_message_id = mid, res_send_time = im_send_time req, res_duplicate = False,
      res_fanout = fanout_from_write kind req ms\<rparr>"
    using assms(3) unknown by (auto simp: insert_commit_def Let_def split: if_splits)
  have "msg_rows mid ?t = insert_rows app kind req ms mid"
    by (rule msg_rows_add_message[OF assms(1,2)]) simp
  moreover have "msg_rows mid t = msg_rows mid ?t" by (rule msg_rows_cong) (simp add: t)
  moreover have "in_contents t = in_contents ?t" "in_idempotency t = in_idempotency ?t" by (simp_all add: t)
  ultimately show ?thesis using res by simp
qed

lemma insert_msg_stored:
  assumes "insert_msg receipts now gen app kind req ms s = (Ok res, t)" "\<not> res_duplicate res"
  shows "\<exists>mid. gen 0 = Inr mid \<and> insert_commit receipts now app kind req ms mid s = (Ok res, t)"
  using assms
  by (auto simp: insert_msg_def split: option.splits sum.splits prod.splits if_splits)

lemma upsert_receipts_only: "upsert_receipts now app mid req ms s = s\<lparr>in_pending := in_pending (upsert_receipts now app mid req ms s)\<rparr>"
  by (simp add: upsert_receipts_def Let_def)

lemma insert_known:
  assumes "hget (in_idempotency s) (idem_key app req) = Some (mid, st)" "im_client_id req \<noteq> []"
    "fanout_from_memory s mid = Ok fo"
  shows "insert_msg receipts now gen app kind req ms s
      = (Ok \<lparr>res_message_id = mid, res_send_time = st, res_duplicate = True, res_fanout = fo\<rparr>,
         if receipts then upsert_receipts now app mid req (members_opt kind ms) s else s)"
    and "insert_commit receipts now app kind req ms mid' s
      = (Ok \<lparr>res_message_id = mid, res_send_time = st, res_duplicate = True, res_fanout = fo\<rparr>,
         if receipts then upsert_receipts now app mid req (members_opt kind ms) s else s)"
proof -
  have "fanout_from_memory (upsert_receipts now app mid req (members_opt kind ms) s) mid = Ok fo"
    using assms(3) unfolding fanout_from_memory_def upsert_receipts_simps .
  then show "insert_commit receipts now app kind req ms mid' s
      = (Ok \<lparr>res_message_id = mid, res_send_time = st, res_duplicate = True, res_fanout = fo\<rparr>,
         if receipts then upsert_receipts now app mid req (members_opt kind ms) s else s)"
    using assms(1-3) by (simp add: insert_commit_def Let_def duplicate_result_def)
qed (use assms in \<open>simp add: insert_msg_def\<close>)

text \<open>C14: Idempotent sends. Once a message with a client identifier has been stored, any later
  request of the same sender with that identifier, whatever its body, and also one that raced past
  the first check and reaches the write lock late, is answered with the identifier, time and
  fanout of the stored message, marked as a duplicate, and leaves the store as it was but for the
  delivery receipts of the stored message, which are written for the devices the retry names when the
  store keeps receipts; any operations other than a purge may happen in between.\<close>

theorem insert_retry_same_message:
  assumes "msg_reach m" and fresh: "\<And>mid. gen 0 = Inr mid \<Longrightarrow> hget (in_contents (mm_inner m)) mid = None"
    and first: "insert_msg receipts now gen app kind req ms (mm_inner m) = (Ok res, s1)" "\<not> res_duplicate res"
    and between: "write_step\<^sup>*\<^sup>* (m\<lparr>mm_inner := s1\<rparr>) m2"
    and same: "im_sender req2 = im_sender req" "im_client_id req2 = im_client_id req" "im_client_id req \<noteq> []"
  shows "\<exists>pending. (\<not> receipts2 \<longrightarrow> pending = in_pending (mm_inner m2))
    \<and> (receipts2 \<longrightarrow> pending = in_pending (upsert_receipts now2 app (res_message_id res) req2 (members_opt kind2 ms2) (mm_inner m2)))
    \<and> insert_msg receipts2 now2 gen2 app kind2 req2 ms2 (mm_inner m2)
        = (Ok (res\<lparr>res_duplicate := True\<rparr>), (mm_inner m2)\<lparr>in_pending := pending\<rparr>)
    \<and> insert_commit receipts2 now2 app kind2 req2 ms2 mid2 (mm_inner m2)
        = (Ok (res\<lparr>res_duplicate := True\<rparr>), (mm_inner m2)\<lparr>in_pending := pending\<rparr>)"
proof -
  let ?s2 = "mm_inner m2"
  obtain mid where mid: "gen 0 = Inr mid" "insert_commit receipts now app kind req ms mid (mm_inner m) = (Ok res, s1)"
    using insert_msg_stored[OF first] by blast
  note st = insert_commit_stored[OF msg_reach_ok[OF assms(1)] fresh[OF mid(1)] mid(2) first(2)]
  have ext: "extends s1 ?s2" using write_steps_extend[OF between] by simp
  have c2: "hget (in_contents ?s2) mid = Some (insert_content app kind req mid)"
    "msg_rows mid ?s2 = insert_rows app kind req ms mid"
    using extendsD(1,2)[OF ext] st by auto
  have key: "hget (in_idempotency ?s2) (idem_key app req2) = Some (mid, im_send_time req)"
    using extendsD(3)[OF ext] st same by auto
  have fo: "fanout_from_memory ?s2 mid = Ok (fanout_from_write kind req ms)"
    using fanout_from_memory_rows[OF c2(1)]
    by (simp add: c2(2) fanout_of_insert[of kind req ms app mid] insert_content_def)
  have ne: "im_client_id req2 \<noteq> []" using same by simp
  let ?t = "if receipts2 then upsert_receipts now2 app mid req2 (members_opt kind2 ms2) ?s2 else ?s2"
  have r: "Ok \<lparr>res_message_id = mid, res_send_time = im_send_time req, res_duplicate = True, res_fanout = fanout_from_write kind req ms\<rparr>
      = (Ok (res\<lparr>res_duplicate := True\<rparr>) :: (StoreError, InsertResult) result)" "res_message_id res = mid"
    using st by auto
  have t: "?t = ?s2\<lparr>in_pending := in_pending ?t\<rparr>" using upsert_receipts_only[of now2 app mid req2 "members_opt kind2 ms2" ?s2] by simp
  show ?thesis
    using insert_known[OF key ne fo, of receipts2 now2, unfolded r(1)] t r(2) by (intro exI[of _ "in_pending ?t"]) (simp split: if_splits)
qed

definition demo_req :: InsertMessage where
  "demo_req = \<lparr>im_sender = ''alice'', im_dest = ''bob'', im_send_time = 1000, im_msg_type = 1, im_body = ''hi'',
     im_extra = [], im_client_id = ''k1'', im_online_targets = []\<rparr>"

definition demo_sent :: Inner where
  "demo_sent = snd (insert_msg False 0 (\<lambda>k. Ok (100 + int k)) ''kim'' UserMsg demo_req [] Inner_default)"

definition demo_result :: InsertResult where
  "demo_result = \<lparr>res_message_id = 100, res_send_time = 1000, res_duplicate = False,
     res_fanout = \<lparr>fo_msg_type = 1, fo_body = ''hi'', fo_extra = [], fo_sender = ''alice'', fo_dest = ''bob'',
       fo_kind = UserMsg, fo_recipients = [''alice'', ''bob'']\<rparr>\<rparr>"

lemma demo_insert:
  "insert_msg False 0 (\<lambda>k. Ok (100 + int k)) ''kim'' UserMsg demo_req [] Inner_default = (Ok demo_result, demo_sent)"
proof -
  have "fst (insert_msg False 0 (\<lambda>k. Ok (100 + int k)) ''kim'' UserMsg demo_req [] Inner_default) = Ok demo_result"
    by (simp add: insert_msg_def insert_commit_def demo_req_def demo_result_def Inner_default_def Let_def
        insert_rows_def fanout_from_write_def fanout_from_index_rows_def unique_accounts_def
        DIRECTION_SEND_def DIRECTION_RECV_def eval_nat_numeral)
  then show ?thesis by (simp add: demo_sent_def prod_eq_iff)
qed

theorem insert_retry_same_message_witness:
  "\<exists>pending. insert_msg True 7 (\<lambda>k. Ok 900) ''kim'' UserMsg (demo_req\<lparr>im_body := ''again''\<rparr>) [] demo_sent
       = (Ok (demo_result\<lparr>res_duplicate := True\<rparr>), demo_sent\<lparr>in_pending := pending\<rparr>)
   \<and> insert_commit True 7 ''kim'' UserMsg (demo_req\<lparr>im_body := ''again''\<rparr>) [] 900 demo_sent
       = (Ok (demo_result\<lparr>res_duplicate := True\<rparr>), demo_sent\<lparr>in_pending := pending\<rparr>)"
proof -
  have c: "(\<And>mid. (Ok (100 + int 0) :: (IdError, int) result) = Inr mid
      \<Longrightarrow> hget (in_contents (mm_inner (message_store_new False))) mid = None)" "\<not> res_duplicate demo_result" "im_client_id demo_req \<noteq> []"
    by (simp_all add: message_store_new_def Inner_default_def demo_result_def demo_req_def)
  show ?thesis
    using insert_retry_same_message[OF msg_reach.start[of False] c(1), of "\<lambda>k. Ok (100 + int k)" False 0 "''kim''" UserMsg
        demo_req "[]" demo_result demo_sent "(message_store_new False)\<lparr>mm_inner := demo_sent\<rparr>"
        "demo_req\<lparr>im_body := ''again''\<rparr>" True 7 UserMsg "[]" "\<lambda>k. Ok 900" 900] demo_insert c
    by (simp add: message_store_new_def) blast
qed

section \<open>Who sees a message\<close>

text \<open>C15: Write fanout is exact. In every reachable state a stored direct message appears in the index of
  an account exactly once as the sender's copy and once as the recipient's copy, addressed to the
  other side, and in no other account's index, whatever other messages, purges and reads happened.\<close>

theorem direct_message_visibility:
  assumes "msg_reach m" "hget (in_contents (mm_inner m)) mid = Some c" "sm_kind c = UserMsg"
  shows "map (\<lambda>r. (ir_account_b r, ir_direction r))
      (filter (\<lambda>r. ir_message_id r = mid) (account_rows app a (mm_inner m)))
    = (if app = sm_app c \<and> a = sm_sender c then [(sm_dest c, DIRECTION_SEND)] else [])
      @ (if app = sm_app c \<and> a = sm_dest c then [(sm_sender c, DIRECTION_RECV)] else [])"
proof -
  obtain log where inv: "store_inv (mm_inner m) log" using msg_reach_ok[OF assms(1)] by (auto simp: store_ok_def)
  have rows: "filter (\<lambda>r. ir_message_id r = mid) log = user_rows c"
    using store_invD(3)[OF inv assms(2)] store_invD(1)[OF inv] assms(3)
    by (simp add: content_rows_def idx_sim_def)
  have "filter (\<lambda>r. ir_message_id r = mid) (account_rows app a (mm_inner m))
      = filter (\<lambda>r. ir_app r = app \<and> ir_account_a r = a) (filter (\<lambda>r. ir_message_id r = mid) log)"
    using store_invD(1)[OF inv] by (simp add: idx_sim_def filter_filter conj_commute)
  then show ?thesis unfolding rows by (auto simp: user_rows_def Let_def)
qed

lemma demo_sent_eq:
  fixes r1 r2
  defines "r1 \<equiv> \<lparr>ir_app = ''kim'', ir_account_a = ''alice'', ir_account_b = ''bob'', ir_direction = 1,
      ir_message_id = 100, ir_group_id = [], ir_send_time = 1000\<rparr>"
    and "r2 \<equiv> \<lparr>ir_app = ''kim'', ir_account_a = ''bob'', ir_account_b = ''alice'', ir_direction = 0,
      ir_message_id = 100, ir_group_id = [], ir_send_time = 1000\<rparr>"
  shows "demo_sent = \<lparr>in_contents = [(100, insert_content ''kim'' UserMsg demo_req 100)],
     in_by_account = [(''kim'', [(''alice'', [r1]), (''bob'', [r2])])], in_by_message = [(100, [r1, r2])],
     in_idempotency = [((''kim'', ''alice'', ''k1''), (100, 1000))], in_reads = [],
     in_versions = [((''kim'', ''alice'', ''bob'', 0), 1), ((''kim'', ''bob'', ''alice'', 0), 2)],
     in_next_version = 2, in_pending = [], in_bot_turns = []\<rparr>"
  unfolding r1_def r2_def
  by (simp add: demo_sent_def insert_msg_def insert_commit_def demo_req_def Inner_default_def Let_def
      insert_rows_def push_index_def bump_version_def u64_saturating_add_def DIRECTION_SEND_def DIRECTION_RECV_def)

lemma demo_sent_reach: "msg_reach ((message_store_new False)\<lparr>mm_inner := demo_sent\<rparr>)"
proof -
  have "write_step (message_store_new False) ((message_store_new False)\<lparr>mm_inner := demo_sent\<rparr>)"
    using write_step.insert[of "\<lambda>k. Ok (100 + int k)" "message_store_new False" UserMsg demo_req 0 "''kim''" "[]"]
    by (simp add: message_store_new_def demo_insert) (simp add: Inner_default_def)
  then show ?thesis by (intro msg_reach.step[OF msg_reach.start[of False]] msg_step.wstep)
qed

lemma demo_sent_content: "hget (in_contents demo_sent) 100 = Some (insert_content ''kim'' UserMsg demo_req 100)"
  by (simp add: demo_sent_eq)

theorem direct_message_visibility_witness:
  "map (\<lambda>r. (ir_account_b r, ir_direction r))
     (filter (\<lambda>r. ir_message_id r = 100) (account_rows ''kim'' ''bob'' demo_sent)) = [(''alice'', DIRECTION_RECV)]
   \<and> filter (\<lambda>r. ir_message_id r = 100) (account_rows ''kim'' ''carol'' demo_sent) = []"
  using direct_message_visibility[OF demo_sent_reach, of 100 "insert_content ''kim'' UserMsg demo_req 100" "''kim''" "''bob''"]
    direct_message_visibility[OF demo_sent_reach, of 100 "insert_content ''kim'' UserMsg demo_req 100" "''kim''" "''carol''"]
  by (simp add: demo_sent_content insert_content_def demo_req_def)

text \<open>Contents are private. A content row is handed to an account only for a message of that
  application that is in the account's own index: a direct message it sent or received, or a group
  message of which it was a recipient.\<close>

theorem offline_content_private:
  assumes "msg_reach m" "x \<in> set (offline_content app a ids (mm_inner m))"
  shows "\<exists>c. hget (in_contents (mm_inner m)) (mc_message_id x) = Some c \<and> sm_app c = app
    \<and> mc_message_id x \<in> set ids \<and> mc_body x = sm_body c
    \<and> (sm_kind c = UserMsg \<longrightarrow> a = sm_sender c \<or> a = sm_dest c)
    \<and> (sm_kind c = GroupMsg \<longrightarrow> (\<exists>r \<in> set (account_rows app a (mm_inner m)).
         ir_message_id r = mc_message_id x \<and> ir_group_id r = sm_dest c))"
proof -
  obtain log where inv: "store_inv (mm_inner m) log" using msg_reach_ok[OF assms(1)] by (auto simp: store_ok_def)
  obtain i c r where i: "i \<in> set ids" "hget (in_contents (mm_inner m)) i = Some c" "sm_app c = app"
    "r \<in> set (account_rows app a (mm_inner m))" "ir_message_id r = i"
    "x = \<lparr>mc_message_id = sm_message_id c, mc_msg_type = sm_msg_type c, mc_body = sm_body c, mc_extra = sm_extra c\<rparr>"
    using assms(2)
    by (auto simp: offline_content_def set_map_filter list_ex_iff split: option.splits if_splits)
  have c: "sm_message_id c = i" "content_rows c (msg_rows i (mm_inner m))" using store_invD(3)[OF inv i(2)] by auto
  have r: "r \<in> set (msg_rows i (mm_inner m))" "ir_account_a r = a"
    using i(4,5) store_invD(1)[OF inv] by (auto simp: idx_sim_def)
  have u: "sm_kind c = UserMsg \<longrightarrow> a = sm_sender c \<or> a = sm_dest c"
    using c(2) r by (auto simp: content_rows_def user_rows_def Let_def)
  have g: "sm_kind c = GroupMsg \<longrightarrow> ir_group_id r = sm_dest c"
    using c(2) r by (auto simp: content_rows_def group_row_def)
  have x: "mc_message_id x = i" "mc_body x = sm_body c" using i(6) c(1) by simp_all
  show ?thesis unfolding x using i(1-5) u g by blast
qed

theorem offline_content_private_witness:
  "\<exists>c. hget (in_contents demo_sent) 100 = Some c \<and> sm_app c = ''kim'' \<and> (''bob'' = sm_sender c \<or> ''bob'' = sm_dest c)"
proof -
  let ?x = "\<lparr>mc_message_id = 100, mc_msg_type = 1, mc_body = ''hi'', mc_extra = []\<rparr>"
  have "list_ex (\<lambda>r. ir_message_id r = 100) (account_rows ''kim'' ''bob'' demo_sent)"
    by (simp add: demo_sent_eq account_rows_def)
  then have "?x \<in> set (offline_content ''kim'' ''bob'' [100] demo_sent)"
    by (simp add: offline_content_def List.map_filter_def demo_sent_content insert_content_def demo_req_def)
  then show ?thesis
    using offline_content_private[OF demo_sent_reach, of ?x "''kim''" "''bob''" "[100]"]
    by (auto simp: demo_sent_content insert_content_def)
qed

section \<open>Conversation states\<close>

definition conv_rows :: "string \<Rightarrow> string \<Rightarrow> string \<Rightarrow> MessageKind \<Rightarrow> Inner \<Rightarrow> InboxRow list" where
  "conv_rows app a dest kind s = filter (dest_ok dest kind) (account_rows app a s)"

definition unread_rows :: "string \<Rightarrow> string \<Rightarrow> string \<Rightarrow> MessageKind \<Rightarrow> int \<Rightarrow> Inner \<Rightarrow> InboxRow list" where
  "unread_rows app a dest kind mark s =
     filter (\<lambda>r. ir_direction r = DIRECTION_RECV \<and> ir_message_id r > mark) (conv_rows app a dest kind s)"

lemma conversation_fold:
  assumes "0 \<le> un" "un \<le> i32_max"
  shows "foldl (\<lambda>(mx, unread, ex) row.
             if \<not> dest_ok dest kind row then (mx, unread, ex)
             else (max mx (ir_message_id row),
                   if ir_direction row = DIRECTION_RECV \<and> ir_message_id row > mark
                   then i32_saturating_add unread 1 else unread, True)) (mx, un, ex) rows
    = (foldl (\<lambda>m r. max m (ir_message_id r)) mx (filter (dest_ok dest kind) rows),
       min i32_max (un + int (length (filter (\<lambda>r. ir_direction r = DIRECTION_RECV \<and> ir_message_id r > mark)
         (filter (dest_ok dest kind) rows)))),
       ex \<or> filter (dest_ok dest kind) rows \<noteq> [])"
  using assms
proof (induction rows arbitrary: mx un ex)
  case (Cons r rows)
  have "0 \<le> i32_saturating_add un 1" "i32_saturating_add un 1 \<le> i32_max"
    "i32_saturating_add un 1 = min i32_max (un + 1)"
    using Cons.prems by (auto simp: i32_saturating_add_def)
  then show ?case
    using Cons.prems Cons.IH[of "i32_saturating_add un 1"] Cons.IH[of un]
    by (auto simp: min_def)
qed simp

definition version_of :: "string \<Rightarrow> string \<Rightarrow> string \<Rightarrow> MessageKind \<Rightarrow> Inner \<Rightarrow> nat" where
  "version_of app a dest kind s =
     (case hget (in_versions s) (app, a, dest, kind_i kind) of None \<Rightarrow> 0 | Some v \<Rightarrow> v)"

lemma conversation_state_fields:
  "cr_last_read_message_id (conversation_state app a dest kind s) = last_read_of app a dest kind s"
  "cr_max_message_id (conversation_state app a dest kind s)
     = foldl (\<lambda>m r. max m (ir_message_id r)) 0 (conv_rows app a dest kind s)"
  "cr_unread (conversation_state app a dest kind s)
     = min i32_max (int (length (unread_rows app a dest kind (last_read_of app a dest kind s) s)))"
  "cr_version (conversation_state app a dest kind s) = version_of app a dest kind s"
  "cr_exists (conversation_state app a dest kind s) \<longleftrightarrow> conv_rows app a dest kind s \<noteq> []"
  by (simp_all add: conversation_state_def conversation_fold Let_def conv_rows_def unread_rows_def version_of_def)

lemma foldl_max_ge:
  "m \<le> foldl (\<lambda>m r. max m (ir_message_id r)) m rs"
  "r \<in> set rs \<Longrightarrow> ir_message_id r \<le> foldl (\<lambda>m r. max m (ir_message_id r)) m rs"
proof (induction rs arbitrary: m)
  case (Cons x rs)
  {
    case 1
    then show ?case using Cons.IH(1)[of "max m (ir_message_id x)"] by simp
  next
    case 2
    then show ?case using Cons.IH[of "max m (ir_message_id x)"] by (auto simp: max_def split: if_splits)
  }
qed simp_all

text \<open>State versions are stamped from one counter.\<close>

definition versions_ok :: "Inner \<Rightarrow> bool" where
  "versions_ok s \<longleftrightarrow> in_next_version s \<le> u64_max \<and> (\<forall>k v. hget (in_versions s) k = Some v \<longrightarrow> v \<le> in_next_version s)"

lemma versions_ok_cong:
  "in_next_version t = in_next_version s \<Longrightarrow> in_versions t = in_versions s \<Longrightarrow> versions_ok t = versions_ok s"
  by (simp add: versions_ok_def)

lemma versions_ok_bump: "versions_ok s \<Longrightarrow> versions_ok (bump_version app a d k s)"
proof -
  assume ok: "versions_ok s"
  have v: "in_next_version s \<le> u64_saturating_add (in_next_version s) 1"
    "u64_saturating_add (in_next_version s) 1 \<le> u64_max"
    using ok by (auto simp: versions_ok_def u64_saturating_add_def)
  have "w \<le> u64_saturating_add (in_next_version s) 1" if "hget (in_versions s) k' = Some w" for k' w
    using ok that v(1) unfolding versions_ok_def by (meson order_trans)
  then show ?thesis using v(2) by (auto simp: versions_ok_def bump_version_def Let_def)
qed

lemma versions_ok_push: "versions_ok s \<Longrightarrow> versions_ok (push_index r s)"
  unfolding push_index_def Let_def split_beta
  by (rule versions_ok_bump) (simp add: versions_ok_def)

lemma versions_ok_push_rows: "versions_ok s \<Longrightarrow> versions_ok (foldl (\<lambda>s r. push_index r s) s rs)"
  by (induction rs arbitrary: s) (simp_all add: versions_ok_push)

lemma versions_ok_upsert [simp]: "versions_ok (upsert_receipts now app mid req ms s) = versions_ok s"
  by (rule versions_ok_cong) simp_all

lemma versions_ok_same: "versions_ok s \<Longrightarrow> in_next_version t = in_next_version s \<Longrightarrow> in_versions t = in_versions s \<Longrightarrow> versions_ok t"
  using versions_ok_cong by blast

lemma versions_ok_insert_commit: "versions_ok s \<Longrightarrow> versions_ok (snd (insert_commit receipts now app kind req ms mid s))"
  by (auto simp: insert_commit_def Let_def split: option.splits
      intro!: versions_ok_push_rows intro: versions_ok_same[of s])

lemma versions_ok_insert_msg: "versions_ok s \<Longrightarrow> versions_ok (snd (insert_msg receipts now gen app kind req ms s))"
  by (auto simp: insert_msg_def versions_ok_insert_commit split: option.splits sum.splits)

lemma versions_ok_turns [simp]: "versions_ok (s\<lparr>in_bot_turns := x\<rparr>) = versions_ok s"
  by (simp add: versions_ok_def)

lemma versions_ok_bot_reply:
  "versions_ok s \<Longrightarrow> versions_ok (snd (insert_bot_reply receipts now gen app owner b irt req s))"
  by (auto simp: insert_bot_reply_def bot_reply_commit_def Let_def split: option.splits sum.splits
      intro!: versions_ok_push_rows intro: versions_ok_same[of s])

lemma purge_next_version: "in_next_version (purge_peer_dm app a p s) = in_next_version s"
proof -
  have m: "in_next_version (purge_message app a p i s) = in_next_version s" for i s
    by (auto simp: purge_message_def Let_def split: option.splits)
  have ms: "in_next_version (foldl (\<lambda>s i. purge_message app a p i s) s ids) = in_next_version s" for ids s
    by (induction ids arbitrary: s) (simp_all add: m)
  have acc: "in_next_version (fst (purge_account_index app a p who st)) = in_next_version (fst st)" for who st
    by (auto simp: purge_account_index_def split_beta split: option.splits)
  show ?thesis by (simp add: purge_peer_dm_def Let_def split_beta ms acc)
qed

lemma versions_ok_purge:
  assumes "versions_ok s" "hwf (in_versions s)"
  shows "versions_ok (purge_peer_dm app a p s)"
proof (cases "a = [] \<or> p = [] \<or> a = p")
  case True
  then show ?thesis using assms(1) by (auto simp: purge_peer_dm_def)
next
  case False
  then have args: "a \<noteq> []" "p \<noteq> []" "a \<noteq> p" by auto
  have "hget (in_versions s) k = Some v" if "hget (in_versions (purge_peer_dm app a p s)) k = Some v" for k v
    using that hget_hretain_SomeD[OF assms(2)] by (auto simp: purge_peer_dm_eq[OF args])
  then show ?thesis using assms(1) unfolding versions_ok_def purge_next_version by blast
qed

lemma write_step_versions: "write_step m m' \<Longrightarrow> versions_ok (mm_inner m) \<Longrightarrow> versions_ok (mm_inner m')"
proof (induction rule: write_step.induct)
  case (read m app account dest kind mid)
  then show ?case
    by (auto simp: mark_read_def Let_def intro!: versions_ok_bump intro: versions_ok_same)
qed (auto simp: versions_ok_insert_msg versions_ok_insert_commit versions_ok_bot_reply store_ack_def
  backfill_delivery_def gc_expired_deliveries_def offline_index_inner Let_def split_beta
  intro: versions_ok_same)

lemma msg_reach_versions: "msg_reach m \<Longrightarrow> versions_ok (mm_inner m)"
proof (induction rule: msg_reach.induct)
  case (start pr)
  then show ?case by (simp add: message_store_new_def versions_ok_def Inner_default_def)
next
  case (step m m')
  have "hwf (in_versions (mm_inner m))" using msg_reach_ok[OF step(1)] by (auto simp: store_ok_def store_inv_def)
  then show ?case using step by (auto elim!: msg_step.cases simp: write_step_versions versions_ok_purge)
qed

lemma version_le_next: "versions_ok s \<Longrightarrow> version_of app a dest kind s \<le> in_next_version s"
  by (auto simp: versions_ok_def version_of_def split: option.split)

lemma mark_read_state:
  assumes "dest \<noteq> []" "0 < mid"
  shows "last_read_of app a dest kind (snd (mark_read app a dest kind mid s)) = max (last_read_of app a dest kind s) mid"
    and "conv_rows app' a' dest' kind' (snd (mark_read app a dest kind mid s)) = conv_rows app' a' dest' kind' s"
    and "version_of app a dest kind (snd (mark_read app a dest kind mid s)) = u64_saturating_add (in_next_version s) 1"
    and "fst (mark_read app a dest kind mid s) = conversation_state app a dest kind (snd (mark_read app a dest kind mid s))"
  using assms
  by (simp_all add: mark_read_def Let_def last_read_of_def conv_rows_def account_rows_def version_of_def
      bump_version_def max_def)

text \<open>C34: Reading a conversation. Marking a conversation read up to a message moves its watermark to the
  larger of the two (never back), leaves exactly the received messages above the watermark unread,
  so none when the newest message is marked, keeps the watermark of every other conversation,
  and gives the conversation a version above every version handed out before.\<close>

theorem mark_read_correct:
  fixes app a dest kind mid m
  defines "s \<equiv> mm_inner m"
  defines "st \<equiv> fst (mark_read app a dest kind mid s)" and "s' \<equiv> snd (mark_read app a dest kind mid s)"
  assumes "msg_reach m" "dest \<noteq> []" "0 < mid" "in_next_version s < u64_max"
  shows "cr_last_read_message_id st = max (last_read_of app a dest kind s) mid
    \<and> cr_unread st = min i32_max (int (length (unread_rows app a dest kind (max (last_read_of app a dest kind s) mid) s)))
    \<and> (cr_max_message_id (conversation_state app a dest kind s) \<le> mid \<longrightarrow> cr_unread st = 0)
    \<and> (\<forall>app' a' dest' kind'. (app', a', dest', kind') \<noteq> (app, a, dest, kind) \<longrightarrow> dest' \<noteq> [] \<longrightarrow>
         last_read_of app' a' dest' kind' s' = last_read_of app' a' dest' kind' s)
    \<and> (\<forall>app' a' dest' kind'. version_of app' a' dest' kind' s < cr_version st)"
proof -
  note mr = mark_read_state(1)[OF assms(5,6), of app a kind s] mark_read_state(3,4)[OF assms(5,6), of app a kind s]
  have st: "st = conversation_state app a dest kind s'" unfolding st_def s'_def by (rule mr(3))
  have lr: "last_read_of app a dest kind s' = max (last_read_of app a dest kind s) mid"
    unfolding s'_def by (rule mr(1))
  have ur: "unread_rows app a dest kind k s' = unread_rows app a dest kind k s" for k
    unfolding unread_rows_def s'_def mark_read_state(2)[OF assms(5,6)] ..
  have unread: "cr_unread st = min i32_max (int (length (unread_rows app a dest kind (max (last_read_of app a dest kind s) mid) s)))"
    by (simp add: st conversation_state_fields lr ur)
  have zero: "cr_unread st = 0" if top: "cr_max_message_id (conversation_state app a dest kind s) \<le> mid"
  proof -
    have "ir_message_id r \<le> mid" if "r \<in> set (conv_rows app a dest kind s)" for r
      using foldl_max_ge(2)[OF that, of 0] top by (simp add: conversation_state_fields)
    then have "unread_rows app a dest kind (max (last_read_of app a dest kind s) mid) s = []"
      by (auto simp: unread_rows_def filter_empty_conv not_less le_max_iff_disj)
    then show ?thesis by (simp add: unread)
  qed
  have others: "last_read_of app' a' dest' kind' s' = last_read_of app' a' dest' kind' s"
    if "(app', a', dest', kind') \<noteq> (app, a, dest, kind)" "dest' \<noteq> []" for app' a' dest' kind'
    using that assms(5,6) read_key_inj[OF that(2), of app' a' kind' app a dest kind]
    by (auto simp: s'_def mark_read_def Let_def last_read_of_def)
  have version: "version_of app' a' dest' kind' s < cr_version st" for app' a' dest' kind'
  proof -
    have "version_of app' a' dest' kind' s \<le> in_next_version s"
      using msg_reach_versions[OF assms(4)] version_le_next by (simp add: s_def)
    moreover have "cr_version st = u64_saturating_add (in_next_version s) 1"
      by (simp add: st conversation_state_fields s'_def mr(2))
    ultimately show ?thesis using assms(7) by (auto simp: u64_saturating_add_def)
  qed
  show ?thesis using st conversation_state_fields(1) lr unread zero others version by simp
qed

theorem mark_read_correct_witness:
  "cr_last_read_message_id (fst (mark_read ''kim'' ''bob'' ''alice'' UserMsg 100 demo_sent)) = 100
   \<and> version_of ''kim'' ''bob'' ''alice'' UserMsg demo_sent
     < cr_version (fst (mark_read ''kim'' ''bob'' ''alice'' UserMsg 100 demo_sent))"
proof -
  have "last_read_of ''kim'' ''bob'' ''alice'' UserMsg demo_sent = 0"
    by (simp add: demo_sent_eq last_read_of_def)
  then show ?thesis
    using mark_read_correct[OF demo_sent_reach, of "''alice''" 100 "''kim''" "''bob''" UserMsg]
    by (simp add: demo_sent_eq)
qed

text \<open>Read watermarks only move forward: whatever the store does between two moments, short of
  purging the conversation, the watermark of a conversation is never below what it was.\<close>

theorem read_watermark_monotone:
  assumes "write_step\<^sup>*\<^sup>* m m'"
  shows "last_read_of app a dest kind (mm_inner m) \<le> last_read_of app a dest kind (mm_inner m')"
  by (rule extendsD(5)[OF write_steps_extend[OF assms]])

theorem read_watermark_monotone_witness:
  "last_read_of ''kim'' ''bob'' ''alice'' UserMsg (mm_inner (message_store_new False))
   \<le> last_read_of ''kim'' ''bob'' ''alice'' UserMsg (snd (mark_read ''kim'' ''bob'' ''alice'' UserMsg 7 Inner_default))"
proof -
  let ?m = "message_store_new False"
  have "write_step\<^sup>*\<^sup>* ?m (?m\<lparr>mm_inner := snd (mark_read ''kim'' ''bob'' ''alice'' UserMsg 7 (mm_inner ?m))\<rparr>)"
    by (rule r_into_rtranclp) (rule write_step.read)
  from read_watermark_monotone[OF this] show ?thesis by (simp add: message_store_new_def)
qed

section \<open>Unread counts\<close>

lemma account_rows_push_rows:
  "account_rows app a (foldl (\<lambda>s r. push_index r s) s rs)
     = account_rows app a s @ filter (\<lambda>r. ir_app r = app \<and> ir_account_a r = a) rs"
  by (induction rs arbitrary: s) (auto simp: account_rows_push)

lemma insert_commit_rows:
  assumes "insert_commit receipts now app kind req ms mid s = (Ok res, t)" "\<not> res_duplicate res"
  shows "account_rows app' a t = account_rows app' a s
      @ filter (\<lambda>r. ir_app r = app' \<and> ir_account_a r = a) (insert_rows app kind req ms mid)"
    and "last_read_of app' a dest kind' t = last_read_of app' a dest kind' s"
proof -
  have unknown: "(if im_client_id req \<noteq> [] then hget (in_idempotency s) (idem_key app req) else None) = None"
    using assms
    by (auto simp: insert_commit_def Let_def duplicate_result_def res_bind_eq_Inr split: if_splits option.splits)
  have acc: "account_rows app' a (s\<lparr>in_idempotency := x, in_contents := y\<rparr>) = account_rows app' a s"
    "account_rows app' a (s\<lparr>in_contents := y\<rparr>) = account_rows app' a s" for x y
    by (simp_all add: account_rows_def)
  have up: "account_rows app' a (upsert_receipts now app mid req ms' u) = account_rows app' a u" for ms' u
    by (simp add: account_rows_def)
  show "account_rows app' a t = account_rows app' a s
      @ filter (\<lambda>r. ir_app r = app' \<and> ir_account_a r = a) (insert_rows app kind req ms mid)"
    using assms(1) unknown
    by (auto simp: insert_commit_def Let_def up acc account_rows_push_rows split: if_splits)
  show "last_read_of app' a dest kind' t = last_read_of app' a dest kind' s"
    using assms(1) unknown by (auto simp: insert_commit_def Let_def last_read_of_def split: if_splits)
qed

text \<open>A new direct message counts once. Storing a message from one account to another raises the
  recipient's unread count of that conversation by one (saturating at the largest 32-bit integer, and
  only if the message is above the watermark), raises its newest message to the new identifier,
  and changes neither the sender's own unread count nor any other conversation of the recipient.\<close>

theorem new_message_unread:
  assumes "insert_commit receipts now app UserMsg req ms mid s = (Ok res, t)" "\<not> res_duplicate res"
    "im_sender req \<noteq> im_dest req"
  shows "cr_unread (conversation_state app (im_dest req) (im_sender req) UserMsg t)
      = (if last_read_of app (im_dest req) (im_sender req) UserMsg s < mid
         then i32_saturating_add (cr_unread (conversation_state app (im_dest req) (im_sender req) UserMsg s)) 1
         else cr_unread (conversation_state app (im_dest req) (im_sender req) UserMsg s))
    \<and> cr_max_message_id (conversation_state app (im_dest req) (im_sender req) UserMsg t)
      = max (cr_max_message_id (conversation_state app (im_dest req) (im_sender req) UserMsg s)) mid
    \<and> cr_unread (conversation_state app (im_sender req) (im_dest req) UserMsg t)
      = cr_unread (conversation_state app (im_sender req) (im_dest req) UserMsg s)
    \<and> (\<forall>dest kind. dest \<noteq> [] \<longrightarrow> (dest, kind) \<noteq> (im_sender req, UserMsg) \<longrightarrow>
         cr_unread (conversation_state app (im_dest req) dest kind t)
           = cr_unread (conversation_state app (im_dest req) dest kind s))"
proof -
  note rows = insert_commit_rows[OF assms(1,2)]
  have new: "conv_rows app (im_dest req) dest kind t = conv_rows app (im_dest req) dest kind s
      @ (if dest = im_sender req \<and> kind = UserMsg \<or> dest = [] \<and> kind = GroupMsg then
         [\<lparr>ir_app = app, ir_account_a = im_dest req, ir_account_b = im_sender req, ir_direction = DIRECTION_RECV,
          ir_message_id = mid, ir_group_id = [], ir_send_time = im_send_time req\<rparr>] else [])" for dest kind
    using assms(3) by (cases kind) (auto simp: conv_rows_def rows insert_rows_def Let_def dest_ok_def)
  have own: "conv_rows app (im_sender req) (im_dest req) UserMsg t = conv_rows app (im_sender req) (im_dest req) UserMsg s
      @ [\<lparr>ir_app = app, ir_account_a = im_sender req, ir_account_b = im_dest req, ir_direction = DIRECTION_SEND,
          ir_message_id = mid, ir_group_id = [], ir_send_time = im_send_time req\<rparr>]"
    using assms(3) by (auto simp: conv_rows_def rows insert_rows_def Let_def dest_ok_def)
  have sat: "min i32_max (int n + 1) = i32_saturating_add (min i32_max (int n)) 1" for n
    by (auto simp: i32_saturating_add_def min_def)
  have "\<forall>dest kind. dest \<noteq> [] \<longrightarrow> (dest, kind) \<noteq> (im_sender req, UserMsg) \<longrightarrow>
      cr_unread (conversation_state app (im_dest req) dest kind t)
        = cr_unread (conversation_state app (im_dest req) dest kind s)"
    by (auto simp: conversation_state_fields unread_rows_def new rows(2))
  moreover have "cr_unread (conversation_state app (im_sender req) (im_dest req) UserMsg t)
      = cr_unread (conversation_state app (im_sender req) (im_dest req) UserMsg s)"
    by (simp add: conversation_state_fields unread_rows_def own rows(2) DIRECTION_SEND_def DIRECTION_RECV_def)
  moreover have "cr_max_message_id (conversation_state app (im_dest req) (im_sender req) UserMsg t)
      = max (cr_max_message_id (conversation_state app (im_dest req) (im_sender req) UserMsg s)) mid"
    by (simp add: conversation_state_fields new)
  moreover have "cr_unread (conversation_state app (im_dest req) (im_sender req) UserMsg t)
      = (if last_read_of app (im_dest req) (im_sender req) UserMsg s < mid
         then i32_saturating_add (cr_unread (conversation_state app (im_dest req) (im_sender req) UserMsg s)) 1
         else cr_unread (conversation_state app (im_dest req) (im_sender req) UserMsg s))"
    by (simp add: conversation_state_fields unread_rows_def new rows(2) add.commute sat[symmetric])
  ultimately show ?thesis by blast
qed

theorem new_message_unread_witness:
  "cr_unread (conversation_state ''kim'' ''bob'' ''alice'' UserMsg demo_sent) = 1"
proof -
  have c: "insert_commit False 0 ''kim'' UserMsg demo_req [] 100 Inner_default = (Ok demo_result, demo_sent)"
    using insert_msg_stored[OF demo_insert] by (simp add: demo_result_def)
  have old: "cr_unread (conversation_state ''kim'' ''bob'' ''alice'' UserMsg Inner_default) = 0"
    "last_read_of ''kim'' ''bob'' ''alice'' UserMsg Inner_default = 0"
    by (simp_all add: conversation_state_def account_rows_def Inner_default_def last_read_of_def)
  show ?thesis
    using new_message_unread[OF c] old
    by (simp add: demo_req_def demo_result_def i32_saturating_add_def)
qed

end
