(* ===== verification/Kim_Message_Delivery.thy ===== *)
theory Kim_Message_Delivery
  imports Kim_Message_Query
begin

text \<open>
  What clients of the message store rely on over several calls: paging through a history, draining
  the pending deliveries of a device, answering a bot turn once, and purging a conversation.
\<close>

section \<open>Paging through a history\<close>

text \<open>A client walks back: it asks for a page before the last identifier it holds until a page is
  empty. The fuel bounds the number of calls.\<close>

fun walk_history ::
  "nat \<Rightarrow> string \<Rightarrow> string \<Rightarrow> string \<Rightarrow> MessageKind \<Rightarrow> int \<Rightarrow> int \<Rightarrow> Inner \<Rightarrow> HistoryEntry list" where
  "walk_history 0 app a dest kind before limit s = []"
| "walk_history (Suc n) app a dest kind before limit s =
     (let page = history app a dest kind before limit s in
      if page = [] then [] else page @ walk_history n app a dest kind (hi_message_id (last page)) limit s)"

lemma clamp_page_pos: "0 < clamp_page limit HISTORY_PAGE HISTORY_MAX"
  by (simp add: clamp_page_def HISTORY_PAGE_def HISTORY_MAX_def)

lemma filter_map_filter:
  "(\<And>x y. f x = Some y \<Longrightarrow> Q y = P x) \<Longrightarrow> filter Q (List.map_filter f xs) = List.map_filter f (filter P xs)"
  by (induction xs) (auto split: option.splits)

lemma history_rows_before:
  "0 < before \<Longrightarrow> history_rows app a dest kind before s
     = filter (\<lambda>h. hi_message_id h < before) (history_rows app a dest kind 0 s)"
proof -
  let ?f = "\<lambda>r. map_option (\<lambda>c. \<lparr>hi_message_id = ir_message_id r, hi_msg_type = sm_msg_type c,
      hi_body = sm_body c, hi_extra = sm_extra c,
      hi_sender = (if ir_direction r = DIRECTION_SEND then a else ir_account_b r),
      hi_send_time = ir_send_time r, hi_direction = ir_direction r\<rparr>) (hget (in_contents s) (ir_message_id r))"
  assume "0 < before"
  then have "history_rows app a dest kind before s
      = List.map_filter ?f (filter (\<lambda>r. ir_message_id r < before) (filter (dest_ok dest kind) (account_rows app a s)))"
    by (simp add: history_rows_def filter_filter conj_commute)
  also have "\<dots> = filter (\<lambda>h. hi_message_id h < before) (List.map_filter ?f (filter (dest_ok dest kind) (account_rows app a s)))"
    by (rule filter_map_filter[symmetric]) auto
  finally show ?thesis by (simp add: history_rows_def)
qed

definition full_history :: "string \<Rightarrow> string \<Rightarrow> string \<Rightarrow> MessageKind \<Rightarrow> Inner \<Rightarrow> HistoryEntry list" where
  "full_history app a dest kind s = sort_key (\<lambda>h. - hi_message_id h) (history_rows app a dest kind 0 s)"

lemma history_page:
  "history app a dest kind before limit s = take (clamp_page limit HISTORY_PAGE HISTORY_MAX)
     (filter (\<lambda>h. before \<le> 0 \<or> hi_message_id h < before) (full_history app a dest kind s))"
  by (cases "0 < before")
    (simp_all add: history_def history_rows_before full_history_def filter_sort,
     simp add: history_rows_def)

lemma filter_below_last:
  assumes "sorted_wrt (\<lambda>x y. hi_message_id y < hi_message_id x) (xs @ ys)" "xs \<noteq> []"
  shows "filter (\<lambda>h. hi_message_id h < hi_message_id (last xs)) (xs @ ys) = ys"
proof -
  obtain zs z where xs: "xs = zs @ [z]" using assms(2) by (cases xs rule: rev_cases) auto
  have "\<forall>h \<in> set zs. \<not> hi_message_id h < hi_message_id z" "\<forall>h \<in> set ys. hi_message_id h < hi_message_id z"
    using assms(1) by (auto simp: xs sorted_wrt_append)
  then show ?thesis by (auto simp: xs filter_empty_conv filter_id_conv)
qed

lemma walk_history_from:
  assumes strict: "sorted_wrt (\<lambda>x y. hi_message_id y < hi_message_id x) (full_history app a dest kind s)"
    and pos: "\<forall>h \<in> set (full_history app a dest kind s). 0 < hi_message_id h"
  shows "filter (\<lambda>h. before \<le> 0 \<or> hi_message_id h < before) (full_history app a dest kind s) = rest \<Longrightarrow>
    full_history app a dest kind s = seen @ rest \<Longrightarrow> length rest < n \<Longrightarrow>
    walk_history n app a dest kind before limit s = rest"
proof (induction n arbitrary: before rest seen)
  case (Suc n)
  let ?cap = "clamp_page limit HISTORY_PAGE HISTORY_MAX"
  have page: "history app a dest kind before limit s = take ?cap rest"
    using Suc.prems(1) by (simp add: history_page)
  show ?case
  proof (cases "rest = []")
    case True
    then show ?thesis by (simp add: page)
  next
    case False
    let ?p = "take ?cap rest" and ?r = "drop ?cap rest"
    have ne: "?p \<noteq> []" using False clamp_page_pos by simp
    have split: "full_history app a dest kind s = (seen @ ?p) @ ?r" using Suc.prems(2) by simp
    have lastp: "last (seen @ ?p) = last ?p" using ne by simp
    have "last ?p \<in> set (full_history app a dest kind s)" using ne split by (metis UnI1 UnI2 last_in_set set_append)
    then have "0 < hi_message_id (last ?p)" using pos by blast
    moreover have "filter (\<lambda>h. hi_message_id h < hi_message_id (last ?p)) (full_history app a dest kind s) = ?r"
      using filter_below_last[of "seen @ ?p" ?r] strict ne unfolding split lastp by simp
    ultimately have "filter (\<lambda>h. hi_message_id (last ?p) \<le> 0 \<or> hi_message_id h < hi_message_id (last ?p))
        (full_history app a dest kind s) = ?r"
      by (simp add: not_le)
    moreover have "length ?r < n" using Suc.prems(3) False clamp_page_pos[of limit] by (cases rest) auto
    ultimately have "walk_history n app a dest kind (hi_message_id (last ?p)) limit s = ?r"
      using Suc.IH split by blast
    then show ?thesis using ne by (simp add: page)
  qed
qed simp

lemma distinct_map_filter:
  assumes "distinct (map g rs)" "\<And>r h. f r = Some h \<Longrightarrow> k h = g r"
  shows "distinct (map k (List.map_filter f rs))"
  using assms(1)
proof (induction rs)
  case (Cons r rs)
  have sub: "k ` set (List.map_filter f rs) \<subseteq> g ` set rs"
    using assms(2) by (auto simp: set_map_filter)
  show ?case
  proof (cases "f r")
    case (Some h)
    then have "k h \<notin> k ` set (List.map_filter f rs)"
      using sub Cons.prems assms(2) by auto
    then show ?thesis using Cons Some by simp
  qed (use Cons in simp)
qed simp

lemma full_history_strict:
  assumes "distinct (map ir_message_id (conv_rows app a dest kind s))"
  shows "sorted_wrt (\<lambda>x y. hi_message_id y < hi_message_id x) (full_history app a dest kind s)"
proof -
  have d: "distinct (map hi_message_id (history_rows app a dest kind 0 s))"
    unfolding history_rows_def
    by (rule distinct_map_filter) (use assms in \<open>auto simp: conv_rows_def\<close>)
  let ?H = "full_history app a dest kind s"
  have "mset ?H = mset (history_rows app a dest kind 0 s)" by (simp add: full_history_def)
  then have "mset (map hi_message_id ?H) = mset (map hi_message_id (history_rows app a dest kind 0 s))" by simp
  then have dh: "distinct (map hi_message_id ?H)" using d mset_eq_imp_distinct_iff by blast
  have "sorted (map (\<lambda>h. - hi_message_id h) ?H)" by (simp add: full_history_def)
  then have so: "sorted_wrt (\<lambda>x y. hi_message_id y \<le> hi_message_id x) ?H"
    by (simp add: sorted_wrt_map)
  show ?thesis
    unfolding sorted_wrt_iff_nth_less
  proof (intro allI impI)
    fix i j assume ij: "i < j" "j < length ?H"
    then have "hi_message_id (?H ! j) \<le> hi_message_id (?H ! i)" using so by (simp add: sorted_wrt_iff_nth_less)
    moreover have "hi_message_id (?H ! j) \<noteq> hi_message_id (?H ! i)"
      using ij nth_eq_iff_index_eq[OF dh, of j i] by simp
    ultimately show "hi_message_id (?H ! j) < hi_message_id (?H ! i)" by simp
  qed
qed

lemma distinct_by_filter: "(\<And>k. length (filter (\<lambda>x. f x = k) xs) \<le> 1) \<Longrightarrow> distinct (map f xs)"
proof (induction xs)
  case (Cons x xs)
  have "length (filter (\<lambda>y. f y = k) xs) \<le> 1" for k using Cons.prems[of k] by (auto split: if_splits)
  moreover have "filter (\<lambda>y. f y = f x) xs = []" using Cons.prems[of "f x"] by simp
  ultimately show ?case using Cons.IH by (auto simp: filter_empty_conv)
qed simp

text \<open>A direct conversation with another account has one row for each message; one with oneself has two.\<close>

lemma direct_rows_distinct:
  assumes "store_ok s" "a \<noteq> dest"
  shows "distinct (map ir_message_id (conv_rows app a dest UserMsg s))"
proof -
  obtain log where inv: "store_inv s log" using assms(1) by (auto simp: store_ok_def)
  have rows: "conv_rows app a dest UserMsg s
      = filter (\<lambda>r. ir_app r = app \<and> ir_account_a r = a \<and> ir_group_id r = [] \<and> ir_account_b r = dest) log"
    using store_invD(1)[OF inv] by (simp add: conv_rows_def idx_sim_def dest_ok_def filter_filter conj_ac)
  have "length (filter (\<lambda>r. ir_message_id r = mid) (conv_rows app a dest UserMsg s)) \<le> 1" for mid
  proof (cases "hget (in_contents s) mid")
    case None
    then have "filter (\<lambda>r. ir_message_id r = mid) log = []"
      unfolding filter_empty_conv using store_invD(2)[OF inv] by blast
    then have "filter (\<lambda>r. ir_message_id r = mid) (conv_rows app a dest UserMsg s) = []"
      unfolding rows by (auto simp: filter_empty_conv)
    then show ?thesis by simp
  next
    case (Some c)
    have m: "filter (\<lambda>r. ir_message_id r = mid) (conv_rows app a dest UserMsg s)
        = filter (\<lambda>r. ir_app r = app \<and> ir_account_a r = a \<and> ir_group_id r = [] \<and> ir_account_b r = dest) (msg_rows mid s)"
      using store_invD(1)[OF inv] unfolding rows by (simp add: idx_sim_def filter_filter conj_ac)
    have c: "content_rows c (msg_rows mid s)" using store_invD(3)[OF inv Some] by simp
    show ?thesis
    proof (cases "sm_kind c")
      case UserMsg
      then show ?thesis using c assms(2) unfolding m by (auto simp: content_rows_def user_rows_def Let_def)
    next
      case GroupMsg
      then have "filter (\<lambda>r. ir_app r = app \<and> ir_account_a r = a \<and> ir_group_id r = [] \<and> ir_account_b r = dest) (msg_rows mid s) = []"
        using c by (auto simp: content_rows_def group_row_def filter_empty_conv)
      then show ?thesis unfolding m by simp
    qed
  qed
  then show ?thesis by (intro distinct_by_filter)
qed

text \<open>C29: Paging is complete. In a message store reached by any operations, a client that walks back through a direct
  conversation with another account page by page, always asking for what lies before the last identifier it got, with any
  page size, receives every message of the conversation exactly once, newest first, and then an empty page; \<open>n\<close> calls are
  enough when \<open>n\<close> exceeds the number of messages. The same holds for a group as long as no message of it has two
  rows for the account. Identifiers are assumed positive, as the generator's are. A conversation with oneself is left
  out: there the two rows of a message share its identifier.\<close>

theorem history_paging_complete:
  assumes "msg_reach m" "kind = UserMsg \<and> a \<noteq> dest \<or> distinct (map ir_message_id (conv_rows app a dest kind (mm_inner m)))"
    and pos: "\<And>mid c. hget (in_contents (mm_inner m)) mid = Some c \<Longrightarrow> 0 < mid"
    and fuel: "length (full_history app a dest kind (mm_inner m)) < n"
  shows "walk_history n app a dest kind 0 limit (mm_inner m) = full_history app a dest kind (mm_inner m)
    \<and> mset (full_history app a dest kind (mm_inner m)) = mset (history_rows app a dest kind 0 (mm_inner m))
    \<and> sorted_wrt (\<lambda>h h'. hi_message_id h' < hi_message_id h) (full_history app a dest kind (mm_inner m))"
proof -
  let ?s = "mm_inner m"
  have d: "distinct (map ir_message_id (conv_rows app a dest kind ?s))"
    using assms(2) direct_rows_distinct[OF msg_reach_ok[OF assms(1)]] by blast
  have "\<exists>c. hget (in_contents ?s) (hi_message_id h) = Some c" if "h \<in> set (history_rows app a dest kind 0 ?s)" for h
    using that by (auto simp: history_rows_def set_map_filter)
  then have p: "\<forall>h \<in> set (full_history app a dest kind ?s). 0 < hi_message_id h"
    using pos by (fastforce simp: full_history_def)
  have "walk_history n app a dest kind 0 limit ?s = full_history app a dest kind ?s"
    by (rule walk_history_from[OF full_history_strict[OF d] p _ _ fuel, of 0 "[]"]) simp_all
  then show ?thesis using full_history_strict[OF d] by (simp add: full_history_def)
qed

theorem history_paging_complete_witness:
  "map hi_message_id (walk_history 2 ''kim'' ''bob'' ''alice'' UserMsg 0 1 demo_sent) = [100]"
proof -
  have full: "full_history ''kim'' ''bob'' ''alice'' UserMsg demo_sent
      = [\<lparr>hi_message_id = 100, hi_msg_type = 1, hi_body = ''hi'', hi_extra = [], hi_sender = ''alice'',
          hi_send_time = 1000, hi_direction = 0\<rparr>]"
    by (simp add: full_history_def history_rows_def demo_sent_eq account_rows_def dest_ok_def
        insert_content_def demo_req_def DIRECTION_SEND_def)
  have pos: "0 < mid" if "hget (in_contents demo_sent) mid = Some c" for mid c
    using that by (simp add: demo_sent_eq split: if_splits)
  show ?thesis
    using history_paging_complete[OF demo_sent_reach, of UserMsg "''bob''" "''alice''" "''kim''" 2 1] pos full by simp
qed

section \<open>Draining a device\<close>

text \<open>A device that comes online fetches a page of its pending deliveries, acknowledges it, and repeats.\<close>

fun drain ::
  "nat \<Rightarrow> nat \<Rightarrow> int \<Rightarrow> string \<Rightarrow> string \<Rightarrow> string \<Rightarrow> MemoryMessageStore \<Rightarrow> int list \<times> MemoryMessageStore" where
  "drain 0 now unow app a tid m = ([], m)"
| "drain (Suc n) now unow app a tid m =
     (let ((rows, has_more), m1) = offline_index now unow app a tid 0 True m;
          ids = map mi_message_id rows;
          m2 = snd (snd (store_ack now app a tid ids m1));
          (rest, m3) = drain n now unow app a tid m2
      in (ids @ rest, m3))"

lemma update_existing:
  "hwf p \<Longrightarrow> k \<in> fst ` set p \<Longrightarrow> hput k v p = map (\<lambda>(k', e). (k', if k' = k then v else e)) p"
proof (induction p)
  case (Cons x p)
  obtain k0 e0 where x: "x = (k0, e0)" by (cases x)
  show ?case
  proof (cases "k0 = k")
    case True
    then have "map (\<lambda>(k', e). (k', if k' = k then v else e)) p = p"
      using Cons.prems(1) x by (intro map_idI) (auto simp: rev_image_eqI)
    then show ?thesis using True x by simp
  qed (use Cons x in auto)
qed simp

definition acked :: "nat \<Rightarrow> PendingEntry \<Rightarrow> PendingEntry" where
  "acked now e = (if pe_acked_at e = None then e\<lparr>pe_acked_at := Some now\<rparr> else e)"

lemma ack_one_map:
  assumes "hwf p"
  shows "fst (ack_one now k (p, obs)) = map (\<lambda>(k', e). (k', if k' = k then acked now e else e)) p"
proof (cases "hget p k")
  case None
  then have "k \<notin> fst ` set p" by (simp add: map_of_eq_None_iff)
  then have "map (\<lambda>(k', e). (k', if k' = k then acked now e else e)) p = p"
    by (intro map_idI) (auto simp: rev_image_eqI)
  then show ?thesis using None by simp
next
  case (Some row)
  then have key: "k \<in> fst ` set p" and val: "\<And>e. (k, e) \<in> set p \<Longrightarrow> e = row"
    using assms by (auto simp: map_of_eq_Some_iff dest: eq_key_imp_eq_value intro: rev_image_eqI map_of_SomeD)
  show ?thesis
  proof (cases "pe_acked_at row = None")
    case True
    then show ?thesis
      using Some val update_existing[OF assms key] by (auto simp: acked_def)
  next
    case False
    then have "map (\<lambda>(k', e). (k', if k' = k then acked now e else e)) p = p"
      using val by (intro map_idI) (auto simp: acked_def)
    then show ?thesis using Some False by auto
  qed
qed

lemma acked_acked: "acked now (acked now e) = acked now e"
  by (simp add: acked_def)

lemma ack_fold_map:
  "hwf p \<Longrightarrow> fst (foldl (\<lambda>acc i. ack_one now (f i) acc) (p, obs) ids)
     = map (\<lambda>(k, e). (k, if k \<in> f ` set ids then acked now e else e)) p"
proof (induction ids arbitrary: p obs)
  case (Cons i ids)
  obtain p' obs' where p': "ack_one now (f i) (p, obs) = (p', obs')" by fastforce
  have eq: "p' = map (\<lambda>(k', e). (k', if k' = f i then acked now e else e)) p"
    using ack_one_map[OF Cons.prems, of now "f i" obs] p' by simp
  have "hwf p'" using Cons.prems by (simp add: eq comp_def split_beta)
  then show ?case
    using Cons.IH[of p' obs'] p' by (auto simp: eq acked_acked)
qed (simp add: map_idI split_beta)

lemma pending_after_ack:
  assumes "hwf (in_pending (mm_inner m))" "mm_pending_receipt m" "tid \<noteq> []"
  shows "pending_keys now app a tid (mm_inner (snd (snd (store_ack now2 app a tid ids m))))
    = filter (\<lambda>(_, i). i \<notin> set ids) (pending_keys now app a tid (mm_inner m))"
proof -
  let ?f = "\<lambda>i. (app, a, tid, i)"
  let ?p = "in_pending (mm_inner m)"
  have p': "in_pending (mm_inner (snd (snd (store_ack now2 app a tid ids m))))
      = map (\<lambda>(k, e). (k, if k \<in> ?f ` set ids then acked now2 e else e)) ?p"
    using ack_fold_map[OF assms(1), of now2 ?f "[]" ids] assms(2,3)
    by (auto simp: store_ack_def Let_def split_beta map_idI)
  have "map (\<lambda>((_, _, _, i), e). (pe_created_at e, i))
        (filter (\<lambda>((ap, acc, t, _), e). ap = app \<and> acc = a \<and> t = tid \<and> pe_acked_at e = None \<and> pe_expires_at e > now)
          (map (\<lambda>(k, e). (k, if k \<in> ?f ` set ids then acked now2 e else e)) p))
      = filter (\<lambda>(_, i). i \<notin> set ids) (map (\<lambda>((_, _, _, i), e). (pe_created_at e, i))
          (filter (\<lambda>((ap, acc, t, _), e). ap = app \<and> acc = a \<and> t = tid \<and> pe_acked_at e = None \<and> pe_expires_at e > now) p))" for p
    by (induction p) (auto simp: acked_def split: if_splits)
  then show ?thesis unfolding pending_keys_def p' .
qed

lemma distinct_map_filter_keys: "distinct (map f xs) \<Longrightarrow> distinct (map f (filter P xs))"
  by (rule List.distinct_map_filter)

lemma pending_list_keys:
  "map fst (filter (\<lambda>((ap, acc, t, _), e). ap = app \<and> acc = a \<and> t = tid \<and> pe_acked_at e = None \<and> pe_expires_at e > now) p)
   = map (\<lambda>i. (app, a, tid, i)) (map snd (map (\<lambda>((_, _, _, i), e). (pe_created_at e, i))
       (filter (\<lambda>((ap, acc, t, _), e). ap = app \<and> acc = a \<and> t = tid \<and> pe_acked_at e = None \<and> pe_expires_at e > now) p)))"
  by (induction p) auto

lemma pending_keys_distinct:
  assumes "hwf (in_pending s)"
  shows "distinct (map snd (pending_keys now app a tid s))"
proof -
  let ?sel = "filter (\<lambda>((ap, acc, t, _), e). ap = app \<and> acc = a \<and> t = tid
     \<and> pe_acked_at e = None \<and> pe_expires_at e > now) (in_pending s)"
  have "distinct (map fst ?sel)" using assms by (simp add: distinct_map_filter_keys)
  moreover have "map fst ?sel = map (\<lambda>i. (app, a, tid, i)) (map snd (pending_keys now app a tid s))"
    unfolding pending_keys_def by (rule pending_list_keys)
  ultimately have "distinct (map (\<lambda>i. (app, a, tid, i)) (map snd (pending_keys now app a tid s)))" by simp
  then show ?thesis by (rule conjunct1[OF iffD1[OF distinct_map]])
qed

lemma filter_take_drop:
  "distinct (map snd xs) \<Longrightarrow> filter (\<lambda>(_, i). i \<notin> set (map snd (take n xs))) xs = drop n xs"
proof -
  assume "distinct (map snd xs)"
  then have "distinct (map snd (take n xs) @ map snd (drop n xs))"
    by (simp add: take_map[symmetric] drop_map[symmetric])
  then have disj: "set (map snd (take n xs)) \<inter> set (map snd (drop n xs)) = {}" by simp
  have "filter (\<lambda>(_, i). i \<notin> set (map snd (take n xs))) (take n xs) = []"
    by (auto simp: filter_empty_conv rev_image_eqI)
  moreover have "filter (\<lambda>(_, i). i \<notin> set (map snd (take n xs))) (drop n xs) = drop n xs"
    using disj by (auto simp: filter_id_conv rev_image_eqI)
  ultimately show ?thesis by (metis append_Nil append_take_drop_id filter_append)
qed

definition no_ghosts :: "string \<Rightarrow> string \<Rightarrow> string \<Rightarrow> Inner \<Rightarrow> bool" where
  "no_ghosts app a tid s \<longleftrightarrow>
     (\<forall>k \<in> fst ` set (in_pending s). case k of (app', a', tid', i) \<Rightarrow>
        app' = app \<and> a' = a \<and> tid' = tid \<longrightarrow> i \<in> ir_message_id ` set (account_rows app a s))"

lemma no_ghosts_pending:
  "no_ghosts app a tid s \<Longrightarrow> x \<in> set (pending_keys now app a tid s) \<Longrightarrow>
   snd x \<in> ir_message_id ` set (account_rows app a s)"
  by (force simp: no_ghosts_def pending_keys_def)

lemma find_row_some:
  "i \<in> ir_message_id ` set rs \<Longrightarrow> \<exists>r. List.find (\<lambda>r. ir_message_id r = i) rs = Some r \<and> ir_message_id r = i"
  by (induction rs) auto

lemma page_ids:
  assumes "mm_pending_receipt m" "tid \<noteq> []" "no_ghosts app a tid (mm_inner m)"
  shows "map mi_message_id (fst (fst (offline_index now unow app a tid 0 True m)))
      = map snd (take MESSAGE_MAX_COUNT_PER_PAGE (sort (pending_keys now app a tid (mm_inner m))))"
    and "snd (offline_index now unow app a tid 0 True m) = m"
proof -
  let ?rows = "account_rows app a (mm_inner m)"
  let ?f = "\<lambda>(_, i). map_option index_row (List.find (\<lambda>r. ir_message_id r = i) ?rows)"
  have all: "map mi_message_id (List.map_filter ?f xs) = map snd xs"
    if "set xs \<subseteq> set (pending_keys now app a tid (mm_inner m))" for xs
    using that
  proof (induction xs)
    case (Cons x xs)
    obtain r where "List.find (\<lambda>r. ir_message_id r = snd x) ?rows = Some r" "ir_message_id r = snd x"
      using find_row_some no_ghosts_pending[OF assms(3)] Cons.prems by (metis list.set_intros(1) subsetD)
    then show ?case using Cons by (auto simp: index_row_def split_beta)
  qed simp
  have "set (take MESSAGE_MAX_COUNT_PER_PAGE (sort (pending_keys now app a tid (mm_inner m))))
      \<subseteq> set (pending_keys now app a tid (mm_inner m))"
    by (metis set_sort set_take_subset)
  from all[OF this] show "map mi_message_id (fst (fst (offline_index now unow app a tid 0 True m)))
      = map snd (take MESSAGE_MAX_COUNT_PER_PAGE (sort (pending_keys now app a tid (mm_inner m))))"
    using assms(1,2) by (simp add: offline_index_def Let_def min_def)
  show "snd (offline_index now unow app a tid 0 True m) = m"
    using assms(1,2) by (simp add: offline_index_def Let_def)
qed

lemma store_ack_keeps:
  fixes now app a tid ids m
  assumes "hwf (in_pending (mm_inner m))" "mm_pending_receipt m" "tid \<noteq> []"
  defines "m' \<equiv> snd (snd (store_ack now app a tid ids m))"
  shows "mm_pending_receipt m'" "hwf (in_pending (mm_inner m'))"
    "account_rows app' a' (mm_inner m') = account_rows app' a' (mm_inner m)"
    "no_ghosts app a tid (mm_inner m) \<Longrightarrow> no_ghosts app a tid (mm_inner m')"
proof -
  let ?f = "\<lambda>i. (app, a, tid, i)"
  have p': "in_pending (mm_inner m')
      = map (\<lambda>(k, e). (k, if k \<in> ?f ` set ids then acked now e else e)) (in_pending (mm_inner m))"
    using ack_fold_map[OF assms(1), of now ?f "[]" ids] assms(2,3)
    by (auto simp: m'_def store_ack_def Let_def split_beta map_idI)
  then have keys: "map fst (in_pending (mm_inner m')) = map fst (in_pending (mm_inner m))"
    by (simp add: comp_def split_beta)
  show rows: "account_rows app' a' (mm_inner m') = account_rows app' a' (mm_inner m)" for app' a'
    by (simp add: m'_def store_ack_def Let_def split_beta account_rows_def)
  show "mm_pending_receipt m'" using assms(2) by (simp add: m'_def store_ack_def Let_def split_beta)
  show "hwf (in_pending (mm_inner m'))" using assms(1) keys by simp
  have "fst ` set (in_pending (mm_inner m')) = fst ` set (in_pending (mm_inner m))"
    using keys by (metis set_map)
  then show "no_ghosts app a tid (mm_inner m) \<Longrightarrow> no_ghosts app a tid (mm_inner m')"
    by (simp add: no_ghosts_def rows)
qed

text \<open>Pending deliveries drain. In receipt mode, a device that repeatedly fetches a page and
  acknowledges what it got receives every pending, unexpired message of its account exactly once,
  oldest first; after enough rounds (one per started page of 200) nothing is pending for it.\<close>

theorem drain_delivers_all:
  assumes "hwf (in_pending (mm_inner m))" "mm_pending_receipt m" "tid \<noteq> []" "no_ghosts app a tid (mm_inner m)"
    "length (pending_keys now app a tid (mm_inner m)) \<le> MESSAGE_MAX_COUNT_PER_PAGE * n"
  shows "fst (drain n now unow app a tid m) = map snd (sort (pending_keys now app a tid (mm_inner m)))
    \<and> pending_keys now app a tid (mm_inner (snd (drain n now unow app a tid m))) = []"
  using assms
proof (induction n arbitrary: m)
  case (Suc n)
  let ?P = "pending_keys now app a tid (mm_inner m)"
  let ?cap = "MESSAGE_MAX_COUNT_PER_PAGE"
  let ?ids = "map snd (take ?cap (sort ?P))"
  let ?m2 = "snd (snd (store_ack now app a tid ?ids m))"
  note keep = store_ack_keeps[OF Suc.prems(1,2,3), where now = now and app = app and a = a and ids = ?ids]
  have "filter (\<lambda>(_, i). i \<notin> set ?ids) (sort ?P) = drop ?cap (sort ?P)"
    by (rule filter_take_drop)
      (metis pending_keys_distinct[OF Suc.prems(1)] mset_map mset_sort mset_eq_imp_distinct_iff)
  then have rest: "sort (pending_keys now app a tid (mm_inner ?m2)) = drop ?cap (sort ?P)"
    by (simp only: pending_after_ack[OF Suc.prems(1,2,3)] filter_sort[symmetric])
  have "length (pending_keys now app a tid (mm_inner ?m2)) \<le> ?cap * n"
    using arg_cong[OF rest, of length] Suc.prems(5) by simp
  from Suc.IH[OF keep(2) keep(1) Suc.prems(3) keep(4)[OF Suc.prems(4)] this]
  have ih: "fst (drain n now unow app a tid ?m2) = map snd (drop ?cap (sort ?P))"
    "pending_keys now app a tid (mm_inner (snd (drain n now unow app a tid ?m2))) = []"
    unfolding rest by auto
  have step: "drain (Suc n) now unow app a tid m
      = (?ids @ fst (drain n now unow app a tid ?m2), snd (drain n now unow app a tid ?m2))"
    using page_ids[OF Suc.prems(2,3,4), of now unow] by (simp add: Let_def split_beta)
  have "?ids @ map snd (drop ?cap (sort ?P)) = map snd (sort ?P)"
    by (metis append_take_drop_id map_append)
  then show ?case unfolding step using ih by simp
qed simp

definition demo_pending :: MemoryMessageStore where
  "demo_pending = \<lparr>mm_pending_receipt = True, mm_ack = [], mm_inner = demo_sent\<lparr>in_pending :=
     [((''kim'', ''bob'', ''d1'', 100), \<lparr>pe_created_at = 5, pe_expires_at = 50, pe_acked_at = None\<rparr>)]\<rparr>\<rparr>"

theorem drain_delivers_all_witness:
  "fst (drain 1 10 0 ''kim'' ''bob'' ''d1'' demo_pending) = [100]
   \<and> pending_keys 10 ''kim'' ''bob'' ''d1'' (mm_inner (snd (drain 1 10 0 ''kim'' ''bob'' ''d1'' demo_pending))) = []"
proof -
  have k: "pending_keys 10 ''kim'' ''bob'' ''d1'' (mm_inner demo_pending) = [(5, 100)]"
    by (simp add: pending_keys_def demo_pending_def)
  have g: "no_ghosts ''kim'' ''bob'' ''d1'' (mm_inner demo_pending)"
    by (simp add: no_ghosts_def demo_pending_def demo_sent_eq account_rows_def)
  show ?thesis
    using drain_delivers_all[of demo_pending "''d1''" "''kim''" "''bob''" 10 1 0] g
    by (simp add: k) (simp add: demo_pending_def MESSAGE_MAX_COUNT_PER_PAGE_def)
qed

section \<open>Purging a conversation\<close>

lemma purge_account_rows:
  assumes "store_inv s log" "account \<noteq> []" "peer \<noteq> []" "account \<noteq> peer"
  shows "account_rows app' a (purge_peer_dm app account peer s)
    = filter (\<lambda>r. \<not> purged app account peer r) (account_rows app' a s)"
  using store_invD(1)[OF store_inv_purge[OF assms, of app]] store_invD(1)[OF assms(1)]
  by (auto simp: idx_sim_def filter_filter intro: filter_cong)

text \<open>A purge removes exactly one conversation. Afterwards neither side has a message, an unread count,
  a watermark or a version of the other, no content of the purged messages is left, and every other
  row of every account is unchanged, in its place.\<close>

theorem purge_exact:
  assumes "msg_reach m" "account \<noteq> []" "peer \<noteq> []" "account \<noteq> peer"
  shows "conversation_state app account peer UserMsg (purge_peer_dm app account peer (mm_inner m)) = missing_state peer UserMsg
    \<and> conversation_state app peer account UserMsg (purge_peer_dm app account peer (mm_inner m)) = missing_state account UserMsg
    \<and> history app account peer UserMsg before limit (purge_peer_dm app account peer (mm_inner m)) = []
    \<and> (\<forall>r \<in> set (account_rows app account (mm_inner m)). dm_row account peer r \<longrightarrow>
         hget (in_contents (purge_peer_dm app account peer (mm_inner m))) (ir_message_id r) = None)
    \<and> (\<forall>app' a. account_rows app' a (purge_peer_dm app account peer (mm_inner m))
         = filter (\<lambda>r. \<not> (ir_app r = app \<and> dm_row account peer r)) (account_rows app' a (mm_inner m)))"
proof -
  let ?s = "mm_inner m"
  let ?t = "purge_peer_dm app account peer ?s"
  obtain log where inv: "store_inv ?s log" using msg_reach_ok[OF assms(1)] by (auto simp: store_ok_def)
  note args = assms(2-4)
  note rows = purge_account_rows[OF inv args]
  have app_rows: "r \<in> set (account_rows app' a ?s) \<Longrightarrow> ir_app r = app' \<and> ir_account_a r = a \<and> r \<in> set log" for r app' a
    using store_invD(1)[OF inv] by (auto simp: idx_sim_def)
  have gone: "conv_rows app x y UserMsg ?t = []" if "{x, y} = {account, peer}" for x y
    using that app_rows
    by (auto simp: conv_rows_def rows filter_empty_conv dest_ok_def purged_def dm_row_def doubleton_eq_iff)
  have wf: "hwf (in_reads ?s)" "hwf (in_versions ?s)" using inv by (simp_all add: store_inv_def)
  have lr: "last_read_of app x y UserMsg ?t = 0" if "{x, y} = {account, peer}" for x y
    using that wf
    by (auto simp: last_read_of_def read_key_def purge_peer_dm_eq[OF args] hget_hretain doubleton_eq_iff
        split: option.splits)
  have ver: "version_of app x y UserMsg ?t = 0" if "{x, y} = {account, peer}" for x y
    using that wf
    by (auto simp: version_of_def purge_peer_dm_eq[OF args] hget_hretain doubleton_eq_iff split: option.splits)
  have state: "conversation_state app x y UserMsg ?t = missing_state y UserMsg" if "{x, y} = {account, peer}" for x y
  proof -
    have "cr_dest (conversation_state app x y UserMsg ?t) = y" "cr_kind (conversation_state app x y UserMsg ?t) = UserMsg"
      by (simp_all add: conversation_state_def Let_def split_beta)
    then show ?thesis
      using conversation_state_fields[of app x y UserMsg ?t] gone[OF that] lr[OF that] ver[OF that]
      by (simp add: missing_state_def unread_rows_def)
  qed
  have "hget (in_contents ?t) (ir_message_id r) = None"
    if "r \<in> set (account_rows app account ?s)" "dm_row account peer r" for r
  proof -
    have "r \<in> set log" "purged app account peer r" using app_rows[OF that(1)] that(2) by (simp_all add: purged_def)
    then have "ir_message_id r \<in> set (purge_ids app account peer ?s)"
      unfolding purge_ids_set[OF store_invD(1)[OF inv] args(3)] by blast
    then show ?thesis using purge_tables_contents[OF inv args(3)] by (simp add: purge_peer_dm_eq[OF args])
  qed
  moreover have "history app account peer UserMsg before limit ?t = []"
  proof -
    have "filter (dest_ok peer UserMsg) (account_rows app account ?t) = []"
      using gone[of account peer] by (simp add: conv_rows_def)
    then have "filter (\<lambda>r. dest_ok peer UserMsg r \<and> (before \<le> 0 \<or> ir_message_id r < before)) (account_rows app account ?t) = []"
      by (auto simp: filter_empty_conv)
    then show ?thesis by (simp add: history_def history_rows_def)
  qed
  moreover have "account_rows app' a ?t
      = filter (\<lambda>r. \<not> (ir_app r = app \<and> dm_row account peer r)) (account_rows app' a ?s)" for app' a
    using rows by (simp add: purged_def)
  ultimately show ?thesis using state[of account peer] state[of peer account] by blast
qed

theorem purge_exact_witness:
  "conversation_state ''kim'' ''alice'' ''bob'' UserMsg (purge_peer_dm ''kim'' ''alice'' ''bob'' demo_sent)
     = missing_state ''bob'' UserMsg
   \<and> account_rows ''kim'' ''bob'' (purge_peer_dm ''kim'' ''alice'' ''bob'' demo_sent) = []"
proof -
  note pe = purge_exact[OF demo_sent_reach, of "''alice''" "''bob''" "''kim''" 0 0]
  have "filter (\<lambda>r. \<not> (ir_app r = ''kim'' \<and> dm_row ''alice'' ''bob'' r)) (account_rows ''kim'' ''bob'' demo_sent) = []"
    by (simp add: demo_sent_eq account_rows_def dm_row_def)
  then show ?thesis using pe by simp
qed

section \<open>Bot turns\<close>

lemma bot_reply_target_msg_rows:
  "bot_reply_target app owner b irt s \<longleftrightarrow> (\<exists>c. hget (in_contents s) irt = Some c \<and> sm_app c = app \<and> sm_kind c = UserMsg
     \<and> sm_sender c = owner \<and> sm_dest c = b \<and> list_ex (\<lambda>r. ir_account_a r = owner \<and> ir_account_b r = b
         \<and> ir_direction r = DIRECTION_SEND \<and> ir_group_id r = []) (msg_rows irt s))"
  by (auto simp: bot_reply_target_def msg_rows_def split: option.split)

lemma bot_reply_target_extends:
  assumes "bot_reply_target app owner b irt s" "extends s t"
  shows "bot_reply_target app owner b irt t"
proof -
  obtain c where c: "hget (in_contents s) irt = Some c"
    using assms(1) unfolding bot_reply_target_msg_rows by blast
  show ?thesis
    using assms(1) extendsD(1)[OF assms(2) c] extendsD(2)[OF assms(2) c] c
    unfolding bot_reply_target_msg_rows by simp
qed

lemma bot_reply_records_turn:
  assumes "insert_bot_reply receipts now gen app owner b irt req s = (Ok res, t)"
  shows "hget (in_bot_turns t) (app, b, irt) = Some (res_message_id res)"
    and "bot_reply_target app owner b irt s" "0 < irt" "im_sender req = b" "im_dest req = owner"
proof -
  have com: "bot_reply_commit receipts now gen app b irt req s = (Ok res, t)"
    and ok: "bot_reply_target app owner b irt s" "0 < irt" "im_sender req = b" "im_dest req = owner"
    using assms by (auto simp: insert_bot_reply_def split: if_splits)
  show "bot_reply_target app owner b irt s" "0 < irt" "im_sender req = b" "im_dest req = owner" by (rule ok)+
  show "hget (in_bot_turns t) (app, b, irt) = Some (res_message_id res)"
    using com
    by (auto simp: bot_reply_commit_def Let_def duplicate_result_def res_bind_eq_Inr
        split: option.splits sum.splits if_splits)
qed

lemma bot_pending_open:
  assumes "x \<in> set (bot_pending app owner b limit s)"
  shows "hget (in_bot_turns s) (app, b, bi_message_id x) = None"
proof -
  obtain r :: InboxRow where r: "hget (in_bot_turns s) (app, b, ir_message_id r) = None"
    "(case hget (in_contents s) (ir_message_id r) of None \<Rightarrow> None
      | Some c \<Rightarrow> if sm_sender c = owner
          then Some \<lparr>bi_message_id = ir_message_id r, bi_body = sm_body c, bi_send_time = ir_send_time r\<rparr>
          else None) = Some x"
    using assms unfolding bot_pending_def Let_def
    by (auto simp: set_map_filter dest!: in_set_takeD)
  have "bi_message_id x = ir_message_id r" using r(2) by (auto split: option.splits if_splits)
  then show ?thesis using r(1) by simp
qed

lemma write_steps_reach: "write_step\<^sup>*\<^sup>* m m' \<Longrightarrow> msg_reach m \<Longrightarrow> msg_reach m'"
  by (induction rule: rtranclp_induct) (auto intro: msg_reach.step msg_step.wstep)

text \<open>C33: A bot answers a turn once. After a reply to a message has been accepted, any further reply to
  the same message (retried, reworded, or raced by another host) returns the first reply's
  identifier as a duplicate and changes nothing, and the message is no longer listed as pending.\<close>

theorem bot_turn_answered_once:
  assumes "msg_reach m" and fresh: "\<And>mid. gen 0 = Inr mid \<Longrightarrow> hget (in_contents (mm_inner m)) mid = None"
    and first: "insert_bot_reply (mm_pending_receipt m) now gen app owner b irt req (mm_inner m) = (Ok res, s1)"
    and between: "write_step\<^sup>*\<^sup>* (m\<lparr>mm_inner := s1\<rparr>) m2"
    and again: "im_sender req2 = b" "im_dest req2 = owner"
  shows "\<exists>res2. insert_bot_reply receipts2 now2 gen2 app owner b irt req2 (mm_inner m2) = (Ok res2, mm_inner m2)
      \<and> res_message_id res2 = res_message_id res \<and> res_duplicate res2
      \<and> irt \<notin> bi_message_id ` set (bot_pending app owner b limit (mm_inner m2))"
proof -
  let ?s2 = "mm_inner m2"
  have w: "write_step m (m\<lparr>mm_inner := s1\<rparr>)"
    using write_step.bot_reply[where gen = gen and m = m and now = now and app = app and owner = owner
        and b = b and irt = irt and req = req, OF fresh] first by simp
  have m1: "msg_reach (m\<lparr>mm_inner := s1\<rparr>)" "extends (mm_inner m) s1"
    using msg_reach.step[OF assms(1) msg_step.wstep[OF w]] write_step_extends[OF w] by simp_all
  have ext: "extends s1 ?s2" using write_steps_extend[OF between] by simp
  note rec = bot_reply_records_turn[OF first]
  have turn: "hget (in_bot_turns ?s2) (app, b, irt) = Some (res_message_id res)"
    using extendsD(4)[OF ext rec(1)] .
  have target: "bot_reply_target app owner b irt ?s2"
    using bot_reply_target_extends[OF rec(2) extends_trans[OF m1(2) ext]] .
  obtain log where inv: "store_inv ?s2 log"
    using msg_reach_ok[OF write_steps_reach[OF between m1(1)]] by (auto simp: store_ok_def)
  obtain c where c: "hget (in_contents ?s2) (res_message_id res) = Some c"
    using store_invD(5)[OF inv turn] by blast
  have "irt \<notin> bi_message_id ` set (bot_pending app owner b limit ?s2)"
    using bot_pending_open turn by fastforce
  then show ?thesis
    using again target rec(3) turn fanout_from_memory_rows[OF c]
    by (simp add: insert_bot_reply_def bot_reply_commit_def Let_def duplicate_result_def)
qed

definition demo_bot_req :: InsertMessage where
  "demo_bot_req = \<lparr>im_sender = ''bob'', im_dest = ''alice'', im_send_time = 2000, im_msg_type = 1, im_body = ''yes'',
     im_extra = [], im_client_id = [], im_online_targets = []\<rparr>"

definition demo_answered :: Inner where
  "demo_answered = snd (insert_bot_reply False 0 (\<lambda>k. Ok 200) ''kim'' ''alice'' ''bob'' 100 demo_bot_req demo_sent)"

theorem bot_turn_answered_once_witness:
  "\<exists>res2. insert_bot_reply True 9 (\<lambda>k. Ok 300) ''kim'' ''alice'' ''bob'' 100 (demo_bot_req\<lparr>im_body := ''no''\<rparr>) demo_answered
     = (Ok res2, demo_answered) \<and> res_message_id res2 = 200 \<and> res_duplicate res2"
proof -
  let ?m = "(message_store_new False)\<lparr>mm_inner := demo_sent\<rparr>"
  let ?r = "\<lparr>res_message_id = 200, res_send_time = 2000, res_duplicate = False,
    res_fanout = fanout_from_write UserMsg demo_bot_req []\<rparr>"
  have "fst (insert_bot_reply False 0 (\<lambda>k. Ok 200) ''kim'' ''alice'' ''bob'' 100 demo_bot_req demo_sent) = Ok ?r"
    by (simp add: insert_bot_reply_def bot_reply_commit_def bot_reply_target_def demo_bot_req_def demo_sent_eq
        insert_content_def demo_req_def DIRECTION_SEND_def)
  then have first: "insert_bot_reply (mm_pending_receipt ?m) 0 (\<lambda>k. Ok 200) ''kim'' ''alice'' ''bob'' 100 demo_bot_req (mm_inner ?m)
      = (Ok ?r, demo_answered)"
    by (simp add: message_store_new_def demo_answered_def prod_eq_iff)
  have fresh: "hget (in_contents (mm_inner ?m)) mid = None" if "(Ok 200 :: (IdError, int) result) = Inr mid" for mid
    using that by (auto simp: demo_sent_eq)
  show ?thesis
    using bot_turn_answered_once[OF demo_sent_reach fresh first rtranclp.rtrancl_refl,
        of "demo_bot_req\<lparr>im_body := ''no''\<rparr>" True 9 "\<lambda>k. Ok 300" 0]
    by (auto simp: demo_bot_req_def)
qed

end
