(* ===== verification/Kim_Social.thy ===== *)
theory Kim_Social
  imports Kim_Prelude
begin

text \<open>
  Friend requests, friendships and blocks: the in-memory directory of
  \<open>services/chat/src/social.rs\<close>. Its three hash sets are lists without repetitions; their iteration
  order is the list's, and every answer is sorted, so no result depends on it.
\<close>

section \<open>State and operations\<close>

datatype SocialError = SelfOp | SocialNotFound | SocialBlocked | BotSocialDenied | SocialBackend string

datatype FriendRequestOutcome = Sent | AutoAccepted | AlreadyFriends

type_synonym triple = "string \<times> string \<times> string"

record MemorySocialDirectory =
  so_requests :: "triple list"
  so_friends :: "triple list"
  so_blocks :: "triple list"

definition social_new :: MemorySocialDirectory where
  "social_new = \<lparr>so_requests = [], so_friends = [], so_blocks = []\<rparr>"

definition ordered_pair :: "string \<Rightarrow> string \<Rightarrow> string \<times> string" where
  "ordered_pair a b = (if a \<le> b then (a, b) else (b, a))"

definition friend_key :: "string \<Rightarrow> string \<Rightarrow> string \<Rightarrow> triple" where
  "friend_key app a b = (app, ordered_pair a b)"

definition social_request ::
  "string \<Rightarrow> string \<Rightarrow> string \<Rightarrow> MemorySocialDirectory
   \<Rightarrow> (SocialError, FriendRequestOutcome) result \<times> MemorySocialDirectory" where
  "social_request app from to s =
     (if from = [] \<or> to = [] \<or> from = to then (Err SelfOp, s)
      else if (app, from, to) \<in> set (so_blocks s) \<or> (app, to, from) \<in> set (so_blocks s) then (Err SocialBlocked, s)
      else if friend_key app from to \<in> set (so_friends s) then (Ok AlreadyFriends, s)
      else if (app, to, from) \<in> set (so_requests s) then
        (Ok AutoAccepted,
         s\<lparr>so_requests := removeAll (app, from, to) (removeAll (app, to, from) (so_requests s)),
           so_friends := List.insert (friend_key app from to) (so_friends s)\<rparr>)
      else (Ok Sent, s\<lparr>so_requests := List.insert (app, from, to) (so_requests s)\<rparr>))"

definition social_accept ::
  "string \<Rightarrow> string \<Rightarrow> string \<Rightarrow> MemorySocialDirectory \<Rightarrow> (SocialError, unit) result \<times> MemorySocialDirectory" where
  "social_accept app account from s =
     (if account = from then (Err SelfOp, s)
      else if (app, account, from) \<in> set (so_blocks s) \<or> (app, from, account) \<in> set (so_blocks s)
        then (Err SocialBlocked, s)
      else
        let had = (app, from, account) \<in> set (so_requests s);
            s1 = s\<lparr>so_requests := removeAll (app, from, account) (so_requests s)\<rparr>
        in if \<not> had \<and> friend_key app account from \<notin> set (so_friends s) then (Err SocialNotFound, s1)
           else (Ok (), s1\<lparr>so_friends := List.insert (friend_key app account from) (so_friends s1)\<rparr>))"

definition social_reject :: "string \<Rightarrow> string \<Rightarrow> string \<Rightarrow> MemorySocialDirectory \<Rightarrow> MemorySocialDirectory" where
  "social_reject app account from s = s\<lparr>so_requests := removeAll (app, from, account) (so_requests s)\<rparr>"

definition social_remove :: "string \<Rightarrow> string \<Rightarrow> string \<Rightarrow> MemorySocialDirectory \<Rightarrow> MemorySocialDirectory" where
  "social_remove app account peer s = s\<lparr>so_friends := removeAll (friend_key app account peer) (so_friends s)\<rparr>"

definition list_friends :: "string \<Rightarrow> string \<Rightarrow> MemorySocialDirectory \<Rightarrow> string list" where
  "list_friends app account s =
     sort (map (\<lambda>(_, a, b). if a = account then b else a)
       (filter (\<lambda>(row_app, a, b). row_app = app \<and> (a = account \<or> b = account)) (so_friends s)))"

definition incoming :: "string \<Rightarrow> string \<Rightarrow> MemorySocialDirectory \<Rightarrow> string list" where
  "incoming app account s =
     sort (map (\<lambda>(_, from, _). from) (filter (\<lambda>(row_app, _, to). row_app = app \<and> to = account) (so_requests s)))"

definition is_friend :: "string \<Rightarrow> string \<Rightarrow> string \<Rightarrow> MemorySocialDirectory \<Rightarrow> bool" where
  "is_friend app a b s = (a = b \<or> friend_key app a b \<in> set (so_friends s))"

definition social_block ::
  "string \<Rightarrow> string \<Rightarrow> string \<Rightarrow> MemorySocialDirectory \<Rightarrow> (SocialError, unit) result \<times> MemorySocialDirectory" where
  "social_block app account peer s =
     (if account = peer then (Err SelfOp, s)
      else (Ok (), s\<lparr>so_blocks := List.insert (app, account, peer) (so_blocks s),
                     so_friends := removeAll (friend_key app account peer) (so_friends s),
                     so_requests := removeAll (app, peer, account) (removeAll (app, account, peer) (so_requests s))\<rparr>))"

definition social_unblock :: "string \<Rightarrow> string \<Rightarrow> string \<Rightarrow> MemorySocialDirectory \<Rightarrow> MemorySocialDirectory" where
  "social_unblock app account peer s = s\<lparr>so_blocks := removeAll (app, account, peer) (so_blocks s)\<rparr>"

definition list_blocked :: "string \<Rightarrow> string \<Rightarrow> MemorySocialDirectory \<Rightarrow> string list" where
  "list_blocked app account s =
     sort (map (\<lambda>(_, _, blocked). blocked) (filter (\<lambda>(row_app, acc, _). row_app = app \<and> acc = account) (so_blocks s)))"

definition is_blocked_either :: "string \<Rightarrow> string \<Rightarrow> string \<Rightarrow> MemorySocialDirectory \<Rightarrow> bool" where
  "is_blocked_either app a b s = ((app, a, b) \<in> set (so_blocks s) \<or> (app, b, a) \<in> set (so_blocks s))"

definition ensure_friends ::
  "string \<Rightarrow> string \<Rightarrow> string \<Rightarrow> MemorySocialDirectory \<Rightarrow> (SocialError, unit) result \<times> MemorySocialDirectory" where
  "ensure_friends app a b s =
     (if a = [] \<or> b = [] \<or> a = b then (Err SelfOp, s)
      else (Ok (), s\<lparr>so_friends := List.insert (friend_key app a b) (so_friends s)\<rparr>))"

section \<open>Reachable states\<close>

text \<open>\<open>ensure_friends\<close> does not look at blocks. Its callers befriend an owner with a bot, and the
  block handler refuses to block a bot, so the pair is not blocked; that is its guard here.\<close>

inductive social_step :: "MemorySocialDirectory \<Rightarrow> MemorySocialDirectory \<Rightarrow> bool" where
  request: "social_step s (snd (social_request app from to s))"
| accept: "social_step s (snd (social_accept app account from s))"
| reject: "social_step s (social_reject app account from s)"
| remove: "social_step s (social_remove app account peer s)"
| block: "social_step s (snd (social_block app account peer s))"
| unblock: "social_step s (social_unblock app account peer s)"
| ensure: "\<not> is_blocked_either app a b s \<Longrightarrow> social_step s (snd (ensure_friends app a b s))"

inductive social_reach :: "MemorySocialDirectory \<Rightarrow> bool" where
  start: "social_reach social_new"
| step: "social_reach s \<Longrightarrow> social_step s s' \<Longrightarrow> social_reach s'"

definition social_inv :: "MemorySocialDirectory \<Rightarrow> bool" where
  "social_inv s \<longleftrightarrow> distinct (so_requests s) \<and> distinct (so_friends s) \<and> distinct (so_blocks s)
     \<and> (\<forall>app a b. (app, a, b) \<in> set (so_friends s) \<longrightarrow> a < b)
     \<and> (\<forall>app a b. (app, a, b) \<in> set (so_blocks s) \<longrightarrow>
          friend_key app a b \<notin> set (so_friends s) \<and> (app, a, b) \<notin> set (so_requests s)
          \<and> (app, b, a) \<notin> set (so_requests s))"

lemma friend_key_sym: "friend_key app a b = friend_key app b a"
  by (auto simp: friend_key_def ordered_pair_def)

lemma friend_key_eq:
  "friend_key app a b = friend_key app' c d \<longleftrightarrow> app = app' \<and> (a = c \<and> b = d \<or> a = d \<and> b = c)"
  by (auto simp: friend_key_def ordered_pair_def split: if_splits)

lemma friend_key_less: "friend_key app a b = (app', c, d) \<Longrightarrow> a \<noteq> b \<Longrightarrow> c < d"
  by (auto simp: friend_key_def ordered_pair_def split: if_splits)

lemma friend_key_ordered: "a < b \<Longrightarrow> friend_key app a b = (app, a, b)"
  by (simp add: friend_key_def ordered_pair_def less_imp_le)

lemma social_invD:
  assumes "social_inv s"
  shows "(app, a, b) \<in> set (so_friends s) \<Longrightarrow> a < b"
    and "(app, a, b) \<in> set (so_blocks s) \<Longrightarrow> friend_key app a b \<notin> set (so_friends s)"
    and "(app, a, b) \<in> set (so_blocks s) \<Longrightarrow> (app, a, b) \<notin> set (so_requests s) \<and> (app, b, a) \<notin> set (so_requests s)"
  using assms unfolding social_inv_def by blast+

lemma social_inv_add_friend:
  assumes "social_inv s" "a \<noteq> b" "\<not> is_blocked_either app a b s"
  shows "social_inv (s\<lparr>so_friends := List.insert (friend_key app a b) (so_friends s)\<rparr>)"
proof -
  have "c < d" if "(app', c, d) = friend_key app a b" for app' c d
    by (rule friend_key_less[OF that[symmetric] assms(2)])
  then show ?thesis
    using assms(1,3) unfolding social_inv_def is_blocked_either_def by (auto simp: friend_key_eq)
qed

lemma social_inv_fewer_requests:
  "social_inv s \<Longrightarrow> social_inv (s\<lparr>so_requests := removeAll x (so_requests s)\<rparr>)"
  by (auto simp: social_inv_def distinct_removeAll)

lemma social_inv_request: "social_inv s \<Longrightarrow> social_inv (snd (social_request app from to s))"
proof -
  assume inv: "social_inv s"
  let ?t = "s\<lparr>so_requests := removeAll (app, from, to) (removeAll (app, to, from) (so_requests s))\<rparr>"
  have t: "social_inv ?t"
    using social_inv_fewer_requests[OF social_inv_fewer_requests[OF inv, of "(app, to, from)"], of "(app, from, to)"] by simp
  have acc: "social_inv (?t\<lparr>so_friends := List.insert (friend_key app from to) (so_friends ?t)\<rparr>)"
    if "from \<noteq> to" "\<not> is_blocked_either app from to s"
    by (rule social_inv_add_friend[OF t that(1)]) (use that(2) in \<open>simp add: is_blocked_either_def\<close>)
  have new: "social_inv (s\<lparr>so_requests := List.insert (app, from, to) (so_requests s)\<rparr>)"
    if "\<not> is_blocked_either app from to s"
    using inv that unfolding social_inv_def is_blocked_either_def by auto
  show ?thesis
    using inv acc new by (simp add: social_request_def is_blocked_either_def del: not_in_set_insert in_set_insert)
qed

lemma social_inv_accept: "social_inv s \<Longrightarrow> social_inv (snd (social_accept app account from s))"
proof -
  assume inv: "social_inv s"
  let ?t = "s\<lparr>so_requests := removeAll (app, from, account) (so_requests s)\<rparr>"
  have t: "social_inv ?t" by (rule social_inv_fewer_requests[OF inv])
  have acc: "social_inv (?t\<lparr>so_friends := List.insert (friend_key app account from) (so_friends ?t)\<rparr>)"
    if "account \<noteq> from" "\<not> is_blocked_either app account from s"
    by (rule social_inv_add_friend[OF t that(1)]) (use that(2) in \<open>simp add: is_blocked_either_def\<close>)
  show ?thesis
    using inv t acc by (simp add: social_accept_def is_blocked_either_def Let_def del: not_in_set_insert in_set_insert)
qed

lemma social_inv_block: "social_inv s \<Longrightarrow> social_inv (snd (social_block app account peer s))"
  by (auto simp: social_inv_def social_block_def distinct_removeAll friend_key_eq)

lemma social_step_inv: "social_step s s' \<Longrightarrow> social_inv s \<Longrightarrow> social_inv s'"
proof (induction rule: social_step.induct)
  case (ensure app a b s)
  then show ?case by (auto simp: ensure_friends_def intro: social_inv_add_friend)
qed (simp_all add: social_inv_request social_inv_accept social_inv_block,
     auto simp: social_inv_def social_reject_def social_remove_def social_unblock_def distinct_removeAll)

lemma social_reach_inv: "social_reach s \<Longrightarrow> social_inv s"
proof (induction rule: social_reach.induct)
  case start
  then show ?case by (simp add: social_inv_def social_new_def)
next
  case (step s s')
  then show ?case by (blast intro: social_step_inv)
qed

section \<open>Properties\<close>

text \<open>C37: A block wins. In every reachable state two accounts of which one has blocked the other are not
  friends and have no request between them, in either direction; and while the block stands neither
  a request nor an acceptance by either side succeeds or changes anything.\<close>

theorem block_wins:
  assumes "social_reach s" "is_blocked_either app a b s" "a \<noteq> b"
  shows "\<not> is_friend app a b s \<and> \<not> is_friend app b a s
    \<and> (app, a, b) \<notin> set (so_requests s) \<and> (app, b, a) \<notin> set (so_requests s)
    \<and> snd (social_request app a b s) = s \<and> (\<forall>r. fst (social_request app a b s) \<noteq> Ok r)
    \<and> social_accept app a b s = (Err SocialBlocked, s)"
proof -
  note inv = social_invD[OF social_reach_inv[OF assms(1)]]
  have nf: "friend_key app a b \<notin> set (so_friends s)"
    using assms(2) inv(2)[of app a b] inv(2)[of app b a] unfolding is_blocked_either_def friend_key_sym[of app b a]
    by blast
  moreover have "(app, a, b) \<notin> set (so_requests s) \<and> (app, b, a) \<notin> set (so_requests s)"
    using assms(2) inv(3) by (auto simp: is_blocked_either_def)
  ultimately show ?thesis
    using assms(2,3) friend_key_sym[of app a b]
    by (auto simp: is_friend_def social_request_def social_accept_def is_blocked_either_def)
qed

theorem block_wins_witness:
  "social_accept ''kim'' ''bob'' ''alice'' (snd (social_block ''kim'' ''alice'' ''bob''
      (snd (social_request ''kim'' ''alice'' ''bob'' social_new))))
    = (Err SocialBlocked, snd (social_block ''kim'' ''alice'' ''bob'' (snd (social_request ''kim'' ''alice'' ''bob'' social_new))))"
proof -
  let ?s = "snd (social_block ''kim'' ''alice'' ''bob'' (snd (social_request ''kim'' ''alice'' ''bob'' social_new)))"
  have "social_reach ?s"
    by (rule social_reach.step[OF social_reach.step[OF social_reach.start social_step.request] social_step.block])
  moreover have "is_blocked_either ''kim'' ''bob'' ''alice'' ?s"
    by (simp add: social_block_def is_blocked_either_def)
  ultimately show ?thesis using block_wins[of ?s "''kim''" "''bob''" "''alice''"] by simp
qed

text \<open>Friendship is mutual and listed exactly: in every reachable state the list of friends of an
  account is sorted, has no repetition, and contains an account exactly when the two are friends;
  friendship is symmetric, so each is in the other's list.\<close>

theorem list_friends_exact:
  assumes "social_reach s"
  shows "sorted (list_friends app a s) \<and> distinct (list_friends app a s)
    \<and> set (list_friends app a s) = {b. b \<noteq> a \<and> is_friend app a b s}
    \<and> (\<forall>b. b \<in> set (list_friends app a s) \<longleftrightarrow> a \<in> set (list_friends app b s))"
proof -
  have inv: "social_inv s" by (rule social_reach_inv[OF assms])
  note less = social_invD(1)[OF inv]
  have set_eq: "set (list_friends app a s) = {b. b \<noteq> a \<and> is_friend app a b s}" for a
  proof (intro set_eqI iffI)
    fix b assume "b \<in> set (list_friends app a s)"
    then obtain x y where xy: "(app, x, y) \<in> set (so_friends s)" "x = a \<or> y = a" "b = (if x = a then y else x)"
      by (auto simp: list_friends_def)
    have "friend_key app x y = (app, x, y)" "x < y"
      using less[OF xy(1)] friend_key_ordered[of x y app] by auto
    then show "b \<in> {b. b \<noteq> a \<and> is_friend app a b s}"
      using xy friend_key_sym[of app x y] by (auto simp: is_friend_def split: if_splits)
  next
    fix b assume b: "b \<in> {b. b \<noteq> a \<and> is_friend app a b s}"
    then have f: "friend_key app a b \<in> set (so_friends s)" by (auto simp: is_friend_def)
    have "friend_key app a b = (app, a, b) \<or> friend_key app a b = (app, b, a)"
      by (auto simp: friend_key_def ordered_pair_def)
    with f b show "b \<in> set (list_friends app a s)"
      unfolding list_friends_def set_sort set_map set_filter
      by (elim disjE) (auto intro: rev_image_eqI[of "(app, a, b)"] rev_image_eqI[of "(app, b, a)"])
  qed
  let ?other = "\<lambda>(_, x, y). if x = a then y else x"
  let ?sel = "filter (\<lambda>(row_app, x, y). row_app = app \<and> (x = a \<or> y = a)) (so_friends s)"
  have inj: "inj_on ?other (set ?sel)"
  proof (rule inj_onI)
    fix p q assume pq: "p \<in> set ?sel" "q \<in> set ?sel" "?other p = ?other q"
    obtain x y x' y' where e: "p = (app, x, y)" "q = (app, x', y')" "x = a \<or> y = a" "x' = a \<or> y' = a"
      using pq(1,2) by auto
    have "x < y" "x' < y'" using pq(1,2) less e by auto
    then show "p = q" using pq(3) e by (auto split: if_splits dest: order_less_asym)
  qed
  have "distinct (list_friends app a s)"
    using inj inv by (simp add: list_friends_def distinct_map social_inv_def)
  moreover have "sorted (list_friends app a s)" by (simp add: list_friends_def)
  ultimately show ?thesis
    using set_eq friend_key_sym by (auto simp: is_friend_def)
qed

theorem list_friends_exact_witness:
  "list_friends ''kim'' ''bob'' (snd (social_accept ''kim'' ''bob'' ''alice'' (snd (social_request ''kim'' ''alice'' ''bob'' social_new))))
     = [''alice'']
   \<and> ''bob'' \<in> set (list_friends ''kim'' ''alice'' (snd (social_accept ''kim'' ''bob'' ''alice'' (snd (social_request ''kim'' ''alice'' ''bob'' social_new)))))"
proof -
  let ?s = "snd (social_accept ''kim'' ''bob'' ''alice'' (snd (social_request ''kim'' ''alice'' ''bob'' social_new)))"
  have r: "social_reach ?s"
    by (rule social_reach.step[OF social_reach.step[OF social_reach.start social_step.request] social_step.accept])
  have "list_friends ''kim'' ''bob'' ?s = [''alice'']" by code_simp
  moreover have "''bob'' \<in> set (list_friends ''kim'' ''alice'' ?s) \<longleftrightarrow> ''alice'' \<in> set (list_friends ''kim'' ''bob'' ?s)"
    using list_friends_exact[OF r, of "''kim''" "''bob''"] by blast
  ultimately show ?thesis by simp
qed

text \<open>Two requests that cross make a friendship: whichever side asks first, when the other side asks
  back both are friends and no request is left between them.\<close>

theorem crossing_requests_befriend:
  assumes "social_request app a b s = (Ok Sent, s1)"
  shows "\<exists>s2. social_request app b a s1 = (Ok AutoAccepted, s2) \<and> is_friend app a b s2 \<and> is_friend app b a s2
    \<and> (app, a, b) \<notin> set (so_requests s2) \<and> (app, b, a) \<notin> set (so_requests s2)"
proof -
  have h: "a \<noteq> []" "b \<noteq> []" "a \<noteq> b" "(app, a, b) \<notin> set (so_blocks s)" "(app, b, a) \<notin> set (so_blocks s)"
    "friend_key app a b \<notin> set (so_friends s)" "s1 = s\<lparr>so_requests := List.insert (app, a, b) (so_requests s)\<rparr>"
    using assms by (auto simp: social_request_def split: if_splits)
  then show ?thesis
    using friend_key_sym[of app a b] by (auto simp: social_request_def is_friend_def)
qed

theorem crossing_requests_befriend_witness:
  "\<exists>s2. social_request ''kim'' ''bob'' ''alice'' (snd (social_request ''kim'' ''alice'' ''bob'' social_new)) = (Ok AutoAccepted, s2)
     \<and> is_friend ''kim'' ''alice'' ''bob'' s2 \<and> is_friend ''kim'' ''bob'' ''alice'' s2"
proof -
  have "social_request ''kim'' ''alice'' ''bob'' social_new
      = (Ok Sent, snd (social_request ''kim'' ''alice'' ''bob'' social_new))"
    by (simp add: social_request_def social_new_def)
  from crossing_requests_befriend[OF this] show ?thesis by blast
qed

end
