(* ===== verification/Kim_Groups.thy ===== *)
theory Kim_Groups
  imports Kim_Message_Store
begin

text \<open>
  Identifier generation (\<open>services/chat/src/idgen.rs\<close>) and the in-memory group directory
  (\<open>services/chat/src/directory.rs\<close>). The snowflake generator itself is a library; the sequence
  generator and the choice of the snowflake node are the code's own.
\<close>

section \<open>Identifier generators\<close>

definition parse_unsigned :: "nat \<Rightarrow> string \<Rightarrow> nat option" where
  "parse_unsigned hi s =
     (case s of
        [] \<Rightarrow> None
      | c # _ \<Rightarrow> if c = CHR ''-'' then None else map_option nat (parse_int 0 (int hi) s))"

text \<open>The environment variable is an argument: \<open>None\<close> when it is unset or not valid Unicode.\<close>

definition resolve_snowflake_node :: "string option \<Rightarrow> nat option \<Rightarrow> (IdError, nat) result" where
  "resolve_snowflake_node env cfg =
     (let from_env = (case env of
            Some s \<Rightarrow> if trim s \<noteq> [] then parse_unsigned 65535 (trim s) else None
          | None \<Rightarrow> None);
          n = (case from_env of Some n \<Rightarrow> n | None \<Rightarrow> (case cfg of Some n \<Rightarrow> n | None \<Rightarrow> 1))
      in if n > 31 then Err (IdInit (''snowflake node '' @ show_nat n @ '' out of 0..=31'')) else Ok n)"

text \<open>\<open>SequenceIdGen\<close>: an atomic 64-bit counter; \<open>fetch_add\<close> wraps.\<close>

definition SequenceIdGen_next :: "64 word \<Rightarrow> (IdError, int) result \<times> 64 word" where
  "SequenceIdGen_next n =
     (let i = sint n in (if i < 0 then Err IdOverflow else Ok i, n + 1))"

fun SequenceIdGen_draws :: "nat \<Rightarrow> 64 word \<Rightarrow> (IdError, int) result list" where
  "SequenceIdGen_draws 0 n = []"
| "SequenceIdGen_draws (Suc k) n = (let (r, n') = SequenceIdGen_next n in r # SequenceIdGen_draws k n')"

lemma SequenceIdGen_draws_nth:
  "i < k \<Longrightarrow> SequenceIdGen_draws k n ! i = fst (SequenceIdGen_next (n + of_nat i))"
proof (induction k arbitrary: n i)
  case (Suc k)
  then show ?case
    by (cases i) (simp_all add: SequenceIdGen_next_def Let_def add.assoc)
qed simp

lemma length_SequenceIdGen_draws [simp]: "length (SequenceIdGen_draws k n) = k"
  by (induction k arbitrary: n) (simp_all add: split_beta Let_def)

text \<open>Fresh identifiers. Fewer than 2^64 successive draws of one sequence generator never return the
  same identifier twice, and never a negative one.\<close>

theorem sequence_ids_fresh:
  assumes "k \<le> 2 ^ 64" "i < k" "j < k" "SequenceIdGen_draws k n ! i = Ok a" "SequenceIdGen_draws k n ! j = Ok b"
  shows "0 \<le> a \<and> (a = b \<longrightarrow> i = j)"
proof -
  have ab: "a = sint (n + of_nat i)" "b = sint (n + of_nat j)" "0 \<le> a"
    using assms(2-5) by (auto simp: SequenceIdGen_draws_nth SequenceIdGen_next_def Let_def split: if_splits)
  have "i = j" if "a = b"
  proof -
    have "sint (n + of_nat i) = sint (n + of_nat j)" using that ab(1,2) by simp
    then have "n + of_nat i = n + of_nat j" by (rule signed_word_eqI)
    then have "(of_nat i :: 64 word) = of_nat j" by simp
    then have "unat (of_nat i :: 64 word) = unat (of_nat j :: 64 word)" by simp
    then show ?thesis using assms(1-3) by (simp add: unat_of_nat take_bit_eq_mod)
  qed
  then show ?thesis using ab(3) by blast
qed

theorem sequence_ids_fresh_witness:
  "SequenceIdGen_draws 3 7 ! 1 = Ok 8 \<and> SequenceIdGen_draws 3 7 ! 2 = Ok 9 \<and> (0::int) \<le> 8 \<and> (8::int) \<noteq> 9"
proof -
  have d: "SequenceIdGen_draws 3 7 ! 1 = Ok 8" "SequenceIdGen_draws 3 7 ! 2 = Ok 9"
    by (simp_all add: numeral_3_eq_3 numeral_2_eq_2 SequenceIdGen_next_def Let_def)
  have "(0::int) \<le> 8 \<and> ((8::int) = 9 \<longrightarrow> (1::nat) = 2)"
    by (rule sequence_ids_fresh[of 3 1 2 7 8 9]) (use d in simp_all)
  then show ?thesis using d by simp
qed

section \<open>Groups\<close>

datatype GroupError = GroupId IdError | GroupNotFound | GroupBackend string

record CreateGroup =
  cg_name :: string
  cg_avatar :: string
  cg_introduction :: string
  cg_owner :: string
  cg_members :: "string list"

record GroupInfo =
  gi_id :: string
  gi_name :: string
  gi_avatar :: string
  gi_introduction :: string
  gi_owner :: string
  gi_members :: "string list"

record GroupSummary =
  gs_id :: string
  gs_name :: string
  gs_avatar :: string

record Group =
  g_name :: string
  g_avatar :: string
  g_introduction :: string
  g_owner :: string
  g_members :: "string list"

type_synonym MemoryGroupDirectory = "(string \<times> string, Group) hmap"

definition normalize_members :: "string \<Rightarrow> string list \<Rightarrow> string list" where
  "normalize_members owner members =
     (let out = dedup_loop members {} [] in
      if owner \<noteq> [] \<and> owner \<notin> set members then owner # out else out)"

definition base36_digit :: "nat \<Rightarrow> char" where
  "base36_digit d = (if d < 10 then char_of (48 + d) else char_of (55 + d))"

fun base36_loop :: "nat \<Rightarrow> string \<Rightarrow> string" where
  "base36_loop v buf = (if v > 0 then base36_loop (v div 36) (buf @ [base36_digit (v mod 36)]) else buf)"

declare base36_loop.simps [simp del]

definition base36_upper :: "int \<Rightarrow> string" where
  "base36_upper n = (if n = 0 then ''0'' else rev (base36_loop (nat \<bar>n\<bar>) []))"

definition group_seed :: "string \<Rightarrow> string \<Rightarrow> string list \<Rightarrow> MemoryGroupDirectory \<Rightarrow> MemoryGroupDirectory" where
  "group_seed app group_id members d =
     hput (app, group_id) \<lparr>g_name = [], g_avatar = [], g_introduction = [], g_owner = [], g_members = members\<rparr> d"

definition group_create ::
  "(IdError, int) result \<Rightarrow> string \<Rightarrow> CreateGroup \<Rightarrow> MemoryGroupDirectory
   \<Rightarrow> (GroupError, string) result \<times> MemoryGroupDirectory" where
  "group_create next_id app req d =
     (case next_id of
        Inl e \<Rightarrow> (Err (GroupId e), d)
      | Inr i \<Rightarrow>
          let group_id = base36_upper i;
              group = \<lparr>g_name = cg_name req, g_avatar = cg_avatar req, g_introduction = cg_introduction req,
                       g_owner = cg_owner req, g_members = normalize_members (cg_owner req) (cg_members req)\<rparr>
          in (Ok group_id, hput (app, group_id) group d))"

definition group_members :: "string \<Rightarrow> string \<Rightarrow> MemoryGroupDirectory \<Rightarrow> (GroupError, string list) result" where
  "group_members app group_id d =
     (case hget d (app, group_id) of None \<Rightarrow> Err GroupNotFound | Some g \<Rightarrow> Ok (g_members g))"

definition group_join ::
  "string \<Rightarrow> string \<Rightarrow> string \<Rightarrow> MemoryGroupDirectory \<Rightarrow> (GroupError, unit) result \<times> MemoryGroupDirectory" where
  "group_join app group_id account d =
     (if account = [] then (Err (GroupBackend ''empty account''), d)
      else case hget d (app, group_id) of
          None \<Rightarrow> (Err GroupNotFound, d)
        | Some g \<Rightarrow>
            (Ok (), if account \<notin> set (g_members g)
                    then hput (app, group_id) (g\<lparr>g_members := g_members g @ [account]\<rparr>) d else d))"

definition group_quit ::
  "string \<Rightarrow> string \<Rightarrow> string \<Rightarrow> MemoryGroupDirectory \<Rightarrow> (GroupError, unit) result \<times> MemoryGroupDirectory" where
  "group_quit app group_id account d =
     (case hget d (app, group_id) of
        None \<Rightarrow> (Err GroupNotFound, d)
      | Some g \<Rightarrow>
          (Ok (), hput (app, group_id) (g\<lparr>g_members := filter (\<lambda>m. m \<noteq> account) (g_members g)\<rparr>) d))"

definition group_detail :: "string \<Rightarrow> string \<Rightarrow> MemoryGroupDirectory \<Rightarrow> (GroupError, GroupInfo) result" where
  "group_detail app group_id d =
     (case hget d (app, group_id) of
        None \<Rightarrow> Err GroupNotFound
      | Some g \<Rightarrow> Ok \<lparr>gi_id = group_id, gi_name = g_name g, gi_avatar = g_avatar g,
          gi_introduction = g_introduction g, gi_owner = g_owner g, gi_members = g_members g\<rparr>)"

fun group_summaries ::
  "(string \<Rightarrow> (GroupError, GroupInfo) result) \<Rightarrow> string list \<Rightarrow> (GroupError, GroupSummary list) result" where
  "group_summaries detail [] = Ok []"
| "group_summaries detail (i # is) =
     (case detail i of
        Inr g \<Rightarrow> res_bind (group_summaries detail is) (\<lambda>out.
          Ok (\<lparr>gs_id = gi_id g, gs_name = gi_name g, gs_avatar = gi_avatar g\<rparr> # out))
      | Inl GroupNotFound \<Rightarrow> group_summaries detail is
      | Inl e \<Rightarrow> Err e)"

section \<open>Identifiers in base 36\<close>

definition undigit36 :: "char \<Rightarrow> nat" where
  "undigit36 c = (if of_char c < (65::nat) then of_char c - 48 else of_char c - 55)"

lemma undigit36: "d < 36 \<Longrightarrow> undigit36 (base36_digit d) = d"
  by (auto simp: undigit36_def base36_digit_def)

lemma base36_loop_value:
  "foldr (\<lambda>c v. undigit36 c + 36 * v) (base36_loop v buf) 0
     = foldr (\<lambda>c v. undigit36 c + 36 * v) buf v"
proof (induction v buf rule: base36_loop.induct)
  case (1 v buf)
  show ?case
  proof (cases "v > 0")
    case True
    then show ?thesis
      using 1 by (simp add: base36_loop.simps[of v] undigit36 mult.commute[of 36])
  next
    case False
    then show ?thesis by (simp add: base36_loop.simps[of 0])
  qed
qed

lemma base36_loop_nonempty: "v > 0 \<Longrightarrow> base36_loop v [] \<noteq> []"
proof -
  have grow: "length buf \<le> length (base36_loop v buf)" for v buf
    by (induction v buf rule: base36_loop.induct)
      (subst base36_loop.simps, auto)
  assume "v > 0"
  then have "base36_loop v [] = base36_loop (v div 36) [base36_digit (v mod 36)]" by (simp add: base36_loop.simps[of v])
  then show ?thesis using grow[of "[base36_digit (v mod 36)]" "v div 36"] by auto
qed

lemma base36_upper_value:
  "foldl (\<lambda>v c. undigit36 c + 36 * v) 0 (base36_upper n) = nat \<bar>n\<bar>"
proof (cases "n = 0")
  case True
  then show ?thesis by (simp add: base36_upper_def undigit36_def)
next
  case False
  have "foldl (\<lambda>v c. undigit36 c + 36 * v) 0 (rev (base36_loop (nat \<bar>n\<bar>) []))
      = foldr (\<lambda>c v. undigit36 c + 36 * v) (base36_loop (nat \<bar>n\<bar>) []) 0"
    by (simp add: foldl_conv_foldr)
  then show ?thesis using False base36_loop_value[of "nat \<bar>n\<bar>" "[]"] by (simp add: base36_upper_def)
qed

lemma base36_upper_inj: "0 \<le> m \<Longrightarrow> 0 \<le> n \<Longrightarrow> base36_upper m = base36_upper n \<Longrightarrow> m = n"
  using base36_upper_value[of m] base36_upper_value[of n] by simp

lemma base36_upper_nonempty: "base36_upper n \<noteq> []"
  using base36_loop_nonempty[of "nat \<bar>n\<bar>"] by (simp add: base36_upper_def)

lemma normalize_members_props:
  "distinct (normalize_members owner ms)"
  "set (normalize_members owner ms) = set ms \<union> (if owner = [] then {} else {owner})"
  using distinct_dedup_loop[of "[]" "{}" ms] set_dedup_loop[of ms "{}" "[]"]
  by (auto simp: normalize_members_def Let_def)

section \<open>The directory\<close>

inductive group_step :: "MemoryGroupDirectory \<Rightarrow> MemoryGroupDirectory \<Rightarrow> bool" where
  create: "group_step d (snd (group_create next_id app req d))"
| join: "group_step d (snd (group_join app gid account d))"
| quit: "group_step d (snd (group_quit app gid account d))"

inductive group_reach :: "MemoryGroupDirectory \<Rightarrow> bool" where
  start: "group_reach []"
| step: "group_reach d \<Longrightarrow> group_step d d' \<Longrightarrow> group_reach d'"

definition groups_ok :: "MemoryGroupDirectory \<Rightarrow> bool" where
  "groups_ok d \<longleftrightarrow> (\<forall>k g. hget d k = Some g \<longrightarrow> distinct (g_members g))"

lemma groups_ok_step: "group_step d d' \<Longrightarrow> groups_ok d \<Longrightarrow> groups_ok d'"
  by (induction rule: group_step.induct)
    (auto simp: groups_ok_def group_create_def group_join_def group_quit_def normalize_members_props Let_def
      split: sum.splits option.splits)

text \<open>A member receives a group message once: in every reachable directory, whatever creations, joins
  and quits happened, no group lists an account twice, so the write fanout of a group message has at
  most one index row per account.\<close>

theorem group_members_distinct:
  assumes "group_reach d" "group_members app gid d = Ok ms"
  shows "distinct ms \<and> distinct (map ir_account_a (insert_rows app GroupMsg req ms mid))"
proof -
  have "groups_ok d" using assms(1)
  proof (induction rule: group_reach.induct)
    case start
    then show ?case by (simp add: groups_ok_def)
  next
    case (step d d')
    then show ?case by (blast intro: groups_ok_step)
  qed
  then have "distinct ms" using assms(2) by (auto simp: groups_ok_def group_members_def split: option.splits)
  moreover have "map ir_account_a (insert_rows app GroupMsg req ms mid) = ms"
    by (simp add: insert_rows_def Let_def comp_def)
  ultimately show ?thesis by simp
qed

definition demo_group :: CreateGroup where
  "demo_group = \<lparr>cg_name = ''team'', cg_avatar = [], cg_introduction = [], cg_owner = ''alice'',
     cg_members = [''bob'', ''bob'', ''carol'']\<rparr>"

theorem group_members_distinct_witness:
  "group_members ''kim'' ''2S'' (snd (group_join ''kim'' ''2S'' ''bob'' (snd (group_create (Ok 100) ''kim'' demo_group []))))
     = Ok [''alice'', ''bob'', ''carol'']
   \<and> distinct [''alice'', ''bob'', ''carol'']"
proof -
  let ?d = "snd (group_join ''kim'' ''2S'' ''bob'' (snd (group_create (Ok 100) ''kim'' demo_group [])))"
  have r: "group_reach ?d"
    by (rule group_reach.step[OF group_reach.step[OF group_reach.start group_step.create] group_step.join])
  have i: "base36_upper 100 = ''2S''"
    by (simp add: base36_upper_def base36_loop.simps base36_digit_def char_of_def bit_simps)
  have "group_members ''kim'' ''2S'' ?d = Ok [''alice'', ''bob'', ''carol'']"
    by (simp add: group_create_def i group_join_def group_members_def demo_group_def normalize_members_def Let_def)
  with group_members_distinct[OF r this] show ?thesis by simp
qed

text \<open>Creating a group never replaces another one: two groups created from different non-negative
  identifiers have different group identifiers (the base-36 spelling is injective), every earlier
  group keeps its record, and the new group has its owner and every requested member, each once.\<close>

theorem group_create_fresh:
  assumes "0 \<le> i" "0 \<le> j" "i \<noteq> j"
    and first: "group_create (Ok i) app req d = (Ok gid, d1)"
    and second: "group_create (Ok j) app req' d1 = (Ok gid', d2)"
  shows "gid \<noteq> gid' \<and> gid' \<noteq> [] \<and> group_detail app gid d2 = group_detail app gid d1
    \<and> (\<exists>ms. group_members app gid' d2 = Ok ms \<and> distinct ms
        \<and> set ms = set (cg_members req') \<union> (if cg_owner req' = [] then {} else {cg_owner req'}))"
proof -
  have g: "gid = base36_upper i" "gid' = base36_upper j" using first second by (simp_all add: group_create_def Let_def)
  then have ne: "gid \<noteq> gid'" using base36_upper_inj[OF assms(1,2)] assms(3) by blast
  have d2: "d2 = hput (app, gid') \<lparr>g_name = cg_name req', g_avatar = cg_avatar req', g_introduction = cg_introduction req',
      g_owner = cg_owner req', g_members = normalize_members (cg_owner req') (cg_members req')\<rparr> d1"
    using second by (auto simp: group_create_def Let_def)
  show ?thesis
    using ne g base36_upper_nonempty normalize_members_props[of "cg_owner req'" "cg_members req'"]
    by (simp add: d2 group_detail_def group_members_def)
qed

theorem group_create_fresh_witness:
  "\<exists>ms. group_members ''kim'' (base36_upper 101)
      (snd (group_create (Ok 101) ''kim'' demo_group (snd (group_create (Ok 100) ''kim'' demo_group [])))) = Ok ms
    \<and> set ms = {''alice'', ''bob'', ''carol''}"
proof -
  have "group_create (Ok 100) ''kim'' demo_group [] = (Ok (base36_upper 100), snd (group_create (Ok 100) ''kim'' demo_group []))"
    "group_create (Ok 101) ''kim'' demo_group (snd (group_create (Ok 100) ''kim'' demo_group []))
      = (Ok (base36_upper 101), snd (group_create (Ok 101) ''kim'' demo_group (snd (group_create (Ok 100) ''kim'' demo_group []))))"
    by (simp_all add: group_create_def Let_def)
  from group_create_fresh[OF _ _ _ this] show ?thesis by (auto simp: demo_group_def)
qed

end
