(* ===== verification/Kim_Interest.thy ===== *)
theory Kim_Interest
  imports Kim_Prelude
begin

text \<open>
  Room interest: which connections are viewing a conversation, \<open>services/chat/src/interest.rs\<close>. The
  in-memory store keeps two indexes of strings, from a room to \<open>account#channel\<close> members and from a
  connection to \<open>dest:kind\<close> tokens. It is shown to implement one set of viewing facts.
\<close>

section \<open>Encodings\<close>

record ViewerRef =
  vr_account :: string
  vr_channel_id :: string

definition ViewerRef_encode :: "ViewerRef \<Rightarrow> string" where
  "ViewerRef_encode v = vr_account v @ ''#'' @ vr_channel_id v"

definition ViewerRef_decode :: "string \<Rightarrow> ViewerRef option" where
  "ViewerRef_decode raw =
     (case split_once (CHR ''#'') raw of
        None \<Rightarrow> None
      | Some (account, channel_id) \<Rightarrow>
          if account = [] \<or> channel_id = [] then None
          else Some \<lparr>vr_account = account, vr_channel_id = channel_id\<rparr>)"

definition interest_key :: "string \<Rightarrow> string \<Rightarrow> int \<Rightarrow> string" where
  "interest_key app dest kind = ''room:interest:'' @ app @ '':'' @ dest @ '':'' @ show_int kind"

definition viewing_key :: "string \<Rightarrow> string \<Rightarrow> string \<Rightarrow> string" where
  "viewing_key app account channel = ''room:viewing:'' @ app @ '':'' @ account @ '':'' @ channel"

definition dest_token :: "string \<Rightarrow> int \<Rightarrow> string" where
  "dest_token dest kind = dest @ '':'' @ show_int kind"

definition parse_dest_token :: "string \<Rightarrow> (string \<times> int) option" where
  "parse_dest_token raw =
     (case rsplit_once (CHR '':'') raw of
        None \<Rightarrow> None
      | Some (dest, k) \<Rightarrow>
          (case parse_int (- 2147483648) i32_max k of
             None \<Rightarrow> None
           | Some kind \<Rightarrow> if dest = [] then None else Some (dest, kind)))"

section \<open>The store\<close>

record MemoryRoomInterest =
  ri_interest :: "(string, string list) hmap"
  ri_viewing :: "(string, string list) hmap"

definition interest_new :: MemoryRoomInterest where
  "interest_new = \<lparr>ri_interest = [], ri_viewing = []\<rparr>"

definition members_at :: "(string, string list) hmap \<Rightarrow> string \<Rightarrow> string list" where
  "members_at m k = (case hget m k of None \<Rightarrow> [] | Some ms \<Rightarrow> ms)"

definition add_member :: "string \<Rightarrow> string \<Rightarrow> (string, string list) hmap \<Rightarrow> (string, string list) hmap" where
  "add_member k x m = hput k (List.insert x (members_at m k)) m"

definition remove_member :: "string \<Rightarrow> string \<Rightarrow> (string, string list) hmap \<Rightarrow> (string, string list) hmap" where
  "remove_member k x m =
     (case hget m k of
        None \<Rightarrow> m
      | Some ms \<Rightarrow> let ms' = removeAll x ms in if ms' = [] then hdel k m else hput k ms' m)"

definition room_enter :: "string \<Rightarrow> string \<Rightarrow> string \<Rightarrow> string \<Rightarrow> int \<Rightarrow> MemoryRoomInterest \<Rightarrow> MemoryRoomInterest" where
  "room_enter app viewer channel dest kind s =
     (let member = ViewerRef_encode \<lparr>vr_account = viewer, vr_channel_id = channel\<rparr> in
      s\<lparr>ri_interest := add_member (interest_key app dest kind) member (ri_interest s),
        ri_viewing := add_member (viewing_key app viewer channel) (dest_token dest kind) (ri_viewing s)\<rparr>)"

definition room_leave :: "string \<Rightarrow> string \<Rightarrow> string \<Rightarrow> string \<Rightarrow> int \<Rightarrow> MemoryRoomInterest \<Rightarrow> MemoryRoomInterest" where
  "room_leave app viewer channel dest kind s =
     (let member = ViewerRef_encode \<lparr>vr_account = viewer, vr_channel_id = channel\<rparr> in
      s\<lparr>ri_interest := remove_member (interest_key app dest kind) member (ri_interest s),
        ri_viewing := remove_member (viewing_key app viewer channel) (dest_token dest kind) (ri_viewing s)\<rparr>)"

definition clear_channel :: "string \<Rightarrow> string \<Rightarrow> string \<Rightarrow> MemoryRoomInterest \<Rightarrow> MemoryRoomInterest" where
  "clear_channel app viewer channel s =
     (let vk = viewing_key app viewer channel;
          tokens = members_at (ri_viewing s) vk;
          member = ViewerRef_encode \<lparr>vr_account = viewer, vr_channel_id = channel\<rparr>
      in s\<lparr>ri_viewing := hdel vk (ri_viewing s),
           ri_interest := foldl (\<lambda>m token.
              case parse_dest_token token of
                None \<Rightarrow> m
              | Some (dest, kind) \<Rightarrow> remove_member (interest_key app dest kind) member m) (ri_interest s) tokens\<rparr>)"

definition viewers :: "string \<Rightarrow> string \<Rightarrow> int \<Rightarrow> MemoryRoomInterest \<Rightarrow> ViewerRef list" where
  "viewers app dest kind s = List.map_filter ViewerRef_decode (members_at (ri_interest s) (interest_key app dest kind))"

section \<open>Names and keys\<close>

text \<open>The names the callers use: applications and accounts are identifiers without the separators,
  rooms and channels are not empty, kinds are 32-bit.\<close>

definition names_ok :: "string \<Rightarrow> string \<Rightarrow> string \<Rightarrow> string \<Rightarrow> int \<Rightarrow> bool" where
  "names_ok app v c dest kind \<longleftrightarrow> CHR '':'' \<notin> set app \<and> CHR '':'' \<notin> set v \<and> CHR ''#'' \<notin> set v \<and> v \<noteq> []
     \<and> c \<noteq> [] \<and> dest \<noteq> [] \<and> - 2147483648 \<le> kind \<and> kind \<le> i32_max"

lemma colon_not_digit: "CHR '':'' \<notin> set (show_int kind)"
  by (rule show_int_no_char) (simp_all add: is_digit_def)

lemma append_sep_inj:
  fixes a a' :: string
  assumes "d \<notin> set a" "d \<notin> set a'"
  shows "a @ d # b = a' @ d # b' \<longleftrightarrow> a = a' \<and> b = b'"
proof
  assume "a @ d # b = a' @ d # b'"
  then have "split_once d (a @ d # b) = split_once d (a' @ d # b')" by (rule arg_cong)
  then show "a = a' \<and> b = b'" unfolding split_once_append[OF assms(1)] split_once_append[OF assms(2)] by simp
qed (simp only:)

lemma append_rsep_inj:
  fixes b b' :: string
  assumes "d \<notin> set b" "d \<notin> set b'"
  shows "a @ d # b = a' @ d # b' \<longleftrightarrow> a = a' \<and> b = b'"
proof
  assume "a @ d # b = a' @ d # b'"
  then have "rsplit_once d (a @ d # b) = rsplit_once d (a' @ d # b')" by (rule arg_cong)
  then show "a = a' \<and> b = b'" unfolding rsplit_once_append[OF assms(1)] rsplit_once_append[OF assms(2)] by simp
qed (simp only:)

lemma dest_token_inj [simp]: "dest_token d k = dest_token d' k' \<longleftrightarrow> d = d' \<and> k = k'"
  using append_rsep_inj[OF colon_not_digit colon_not_digit, of d k d' k'] show_int_inj
  by (auto simp: dest_token_def)

lemma interest_key_inj:
  assumes "CHR '':'' \<notin> set app" "CHR '':'' \<notin> set app'"
  shows "interest_key app d k = interest_key app' d' k' \<longleftrightarrow> app = app' \<and> d = d' \<and> k = k'"
  using append_sep_inj[OF assms, of "dest_token d k" "dest_token d' k'"] dest_token_inj[of d k d' k']
  by (auto simp: interest_key_def dest_token_def)

lemma viewing_key_inj:
  assumes "CHR '':'' \<notin> set app" "CHR '':'' \<notin> set app'" "CHR '':'' \<notin> set v" "CHR '':'' \<notin> set v'"
  shows "viewing_key app v c = viewing_key app' v' c' \<longleftrightarrow> app = app' \<and> v = v' \<and> c = c'"
  using append_sep_inj[OF assms(1,2), of "v @ '':'' @ c" "v' @ '':'' @ c'"] append_sep_inj[OF assms(3,4), of c c']
  by (auto simp: viewing_key_def)

lemma encode_inj:
  assumes "CHR ''#'' \<notin> set v" "CHR ''#'' \<notin> set v'"
  shows "ViewerRef_encode \<lparr>vr_account = v, vr_channel_id = c\<rparr> = ViewerRef_encode \<lparr>vr_account = v', vr_channel_id = c'\<rparr>
    \<longleftrightarrow> v = v' \<and> c = c'"
  using append_sep_inj[OF assms, of c c'] by (simp add: ViewerRef_encode_def)

lemma decode_encode:
  "CHR ''#'' \<notin> set v \<Longrightarrow> v \<noteq> [] \<Longrightarrow> c \<noteq> [] \<Longrightarrow>
   ViewerRef_decode (ViewerRef_encode \<lparr>vr_account = v, vr_channel_id = c\<rparr>) = Some \<lparr>vr_account = v, vr_channel_id = c\<rparr>"
  using split_once_append[of "CHR ''#''" v c] by (simp add: ViewerRef_decode_def ViewerRef_encode_def)

lemma parse_token: "dest \<noteq> [] \<Longrightarrow> - 2147483648 \<le> kind \<Longrightarrow> kind \<le> i32_max \<Longrightarrow>
  parse_dest_token (dest_token dest kind) = Some (dest, kind)"
  using rsplit_once_append[OF colon_not_digit, of dest kind]
  by (simp add: parse_dest_token_def dest_token_def parse_int_show_int)

section \<open>Refinement to a set of viewing facts\<close>

type_synonym fact = "string \<times> string \<times> string \<times> string \<times> int"

definition facts_ok :: "fact set \<Rightarrow> bool" where
  "facts_ok A \<longleftrightarrow> (\<forall>(app, v, c, dest, kind) \<in> A. names_ok app v c dest kind)"

definition room_members :: "fact set \<Rightarrow> string \<Rightarrow> string \<Rightarrow> int \<Rightarrow> string set" where
  "room_members A app dest kind = {ViewerRef_encode \<lparr>vr_account = v, vr_channel_id = c\<rparr> | v c. (app, v, c, dest, kind) \<in> A}"

definition channel_tokens :: "fact set \<Rightarrow> string \<Rightarrow> string \<Rightarrow> string \<Rightarrow> string set" where
  "channel_tokens A app v c = {dest_token dest kind | dest kind. (app, v, c, dest, kind) \<in> A}"

definition room_sim :: "MemoryRoomInterest \<Rightarrow> fact set \<Rightarrow> bool" where
  "room_sim s A \<longleftrightarrow> facts_ok A
     \<and> (\<forall>app dest kind. CHR '':'' \<notin> set app \<longrightarrow>
          set (members_at (ri_interest s) (interest_key app dest kind)) = room_members A app dest kind)
     \<and> (\<forall>app v c. CHR '':'' \<notin> set app \<longrightarrow> CHR '':'' \<notin> set v \<longrightarrow>
          set (members_at (ri_viewing s) (viewing_key app v c)) = channel_tokens A app v c)"

lemma members_at_simps:
  "members_at (add_member k x m) k' = (if k' = k then List.insert x (members_at m k) else members_at m k')"
  "members_at (remove_member k x m) k' = (if k' = k then removeAll x (members_at m k) else members_at m k')"
  "members_at (hdel k m) k' = (if k' = k then [] else members_at m k')"
proof -
  show "members_at (add_member k x m) k' = (if k' = k then List.insert x (members_at m k) else members_at m k')"
    by (simp add: members_at_def add_member_def)
  show "members_at (remove_member k x m) k' = (if k' = k then removeAll x (members_at m k) else members_at m k')"
    by (cases "hget m k") (simp_all add: members_at_def remove_member_def Let_def)
  show "members_at (hdel k m) k' = (if k' = k then [] else members_at m k')"
    by (simp add: members_at_def)
qed

lemma room_sim_new: "room_sim interest_new {}"
  by (simp add: room_sim_def facts_ok_def interest_new_def members_at_def room_members_def channel_tokens_def)

lemma room_sim_enter:
  assumes "room_sim s A" "names_ok app v c dest kind"
  shows "room_sim (room_enter app v c dest kind s) (insert (app, v, c, dest, kind) A)"
proof -
  have n: "CHR '':'' \<notin> set app" "CHR '':'' \<notin> set v" using assms(2) by (auto simp: names_ok_def)
  have rm: "room_members (insert (app, v, c, dest, kind) A) app' d' k'
      = (if app' = app \<and> d' = dest \<and> k' = kind
         then insert (ViewerRef_encode \<lparr>vr_account = v, vr_channel_id = c\<rparr>) (room_members A app' d' k')
         else room_members A app' d' k')" for app' d' k'
    by (auto simp: room_members_def)
  have ct: "channel_tokens (insert (app, v, c, dest, kind) A) app' v' c'
      = (if app' = app \<and> v' = v \<and> c' = c then insert (dest_token dest kind) (channel_tokens A app' v' c')
         else channel_tokens A app' v' c')" for app' v' c'
    by (auto simp: channel_tokens_def)
  show ?thesis
    using assms unfolding room_sim_def
    by (auto simp: room_enter_def Let_def members_at_simps facts_ok_def interest_key_inj[OF _ n(1)]
        viewing_key_inj[OF _ n(1) _ n(2)] rm ct)
qed

lemma room_sim_leave:
  assumes "room_sim s A" "names_ok app v c dest kind"
  shows "room_sim (room_leave app v c dest kind s) (A - {(app, v, c, dest, kind)})"
proof -
  have n: "CHR '':'' \<notin> set app" "CHR '':'' \<notin> set v" "CHR ''#'' \<notin> set v" using assms(2) by (auto simp: names_ok_def)
  have hash: "CHR ''#'' \<notin> set v'" if "(app', v', c', d', k') \<in> A" for app' v' c' d' k'
    using assms(1) that by (auto simp: room_sim_def facts_ok_def names_ok_def)
  have rm: "room_members (A - {(app, v, c, dest, kind)}) app' d' k'
      = (if app' = app \<and> d' = dest \<and> k' = kind
         then room_members A app' d' k' - {ViewerRef_encode \<lparr>vr_account = v, vr_channel_id = c\<rparr>}
         else room_members A app' d' k')" for app' d' k'
    using encode_inj[OF hash n(3)] by (auto simp: room_members_def)
  have ct: "channel_tokens (A - {(app, v, c, dest, kind)}) app' v' c'
      = (if app' = app \<and> v' = v \<and> c' = c then channel_tokens A app' v' c' - {dest_token dest kind}
         else channel_tokens A app' v' c')" for app' v' c'
    by (auto simp: channel_tokens_def)
  show ?thesis
    using assms(1) unfolding room_sim_def
    by (auto simp: room_leave_def Let_def members_at_simps facts_ok_def interest_key_inj[OF _ n(1)]
        viewing_key_inj[OF _ n(1) _ n(2)] rm ct)
qed

lemma members_at_clear_fold:
  "set (members_at (foldl (\<lambda>m token. case parse_dest_token token of None \<Rightarrow> m
       | Some (dest, kind) \<Rightarrow> remove_member (interest_key app dest kind) x m) m tokens) k)
   = set (members_at m k) - (if \<exists>t \<in> set tokens. \<exists>d n. parse_dest_token t = Some (d, n) \<and> interest_key app d n = k then {x} else {})"
proof (induction tokens arbitrary: m)
  case (Cons t ts)
  show ?case
  proof (cases "parse_dest_token t")
    case None
    then show ?thesis using Cons.IH[of m] by simp
  next
    case (Some p)
    obtain d n where p: "p = (d, n)" by (cases p)
    then show ?thesis
      using Some Cons.IH[of "remove_member (interest_key app d n) x m"] by (auto simp: members_at_simps)
  qed
qed simp

definition drop_channel :: "string \<Rightarrow> string \<Rightarrow> string \<Rightarrow> fact set \<Rightarrow> fact set" where
  "drop_channel app v c A = {f \<in> A. case f of (app', v', c', _, _) \<Rightarrow> (app', v', c') \<noteq> (app, v, c)}"

lemma drop_channel_mem [simp]:
  "(app', v', c', d, k) \<in> drop_channel app v c A \<longleftrightarrow> (app', v', c', d, k) \<in> A \<and> (app', v', c') \<noteq> (app, v, c)"
  by (simp add: drop_channel_def)

lemma channel_tokens_drop:
  "channel_tokens (drop_channel app v c A) a v' c' = (if a = app \<and> v' = v \<and> c' = c then {} else channel_tokens A a v' c')"
  by (simp add: channel_tokens_def)

lemma facts_okD: "facts_ok A \<Longrightarrow> (app, v, c, d, k) \<in> A \<Longrightarrow> names_ok app v c d k"
  by (auto simp: facts_ok_def)

lemma facts_ok_drop: "facts_ok A \<Longrightarrow> facts_ok (drop_channel app v c A)"
  by (auto simp: facts_ok_def)

lemma room_members_drop:
  assumes "facts_ok A" "CHR ''#'' \<notin> set v"
  shows "room_members (drop_channel app v c A) a d k = room_members A a d k
      - (if a = app \<and> (app, v, c, d, k) \<in> A then {ViewerRef_encode \<lparr>vr_account = v, vr_channel_id = c\<rparr>} else {})"
proof -
  have "ViewerRef_encode \<lparr>vr_account = v', vr_channel_id = c'\<rparr> = ViewerRef_encode \<lparr>vr_account = v, vr_channel_id = c\<rparr>
      \<longleftrightarrow> v' = v \<and> c' = c" if "(a, v', c', d, k) \<in> A" for v' c'
    using encode_inj[OF _ assms(2)] facts_okD[OF assms(1) that] by (simp add: names_ok_def)
  then show ?thesis by (auto simp: room_members_def)
qed

lemma channel_tokens_hit:
  assumes "facts_ok A" "CHR '':'' \<notin> set app" "CHR '':'' \<notin> set a"
  shows "(\<exists>t \<in> channel_tokens A app v c. \<exists>d' n'. parse_dest_token t = Some (d', n') \<and> interest_key app d' n' = interest_key a d k)
      \<longleftrightarrow> a = app \<and> (app, v, c, d, k) \<in> A"
proof -
  have "parse_dest_token (dest_token d' k') = Some (d', k')" if "(app, v, c, d', k') \<in> A" for d' k'
    using facts_okD[OF assms(1) that] by (simp add: parse_token names_ok_def)
  then show ?thesis by (force simp: channel_tokens_def interest_key_inj[OF assms(2,3)])
qed

lemma room_sim_clear:
  assumes sim: "room_sim s A" and n: "CHR '':'' \<notin> set app" "CHR '':'' \<notin> set v" "CHR ''#'' \<notin> set v"
  shows "room_sim (clear_channel app v c s) (drop_channel app v c A)"
proof -
  have ok: "facts_ok A" using sim by (simp add: room_sim_def)
  have toks: "set (members_at (ri_viewing s) (viewing_key app v c)) = channel_tokens A app v c"
    using sim n by (simp add: room_sim_def)
  show ?thesis
    using sim unfolding room_sim_def
    by (simp add: clear_channel_def Let_def members_at_simps members_at_clear_fold toks channel_tokens_hit[OF ok n(1)]
        viewing_key_inj[OF _ n(1) _ n(2)] facts_ok_drop room_members_drop[OF ok n(3)] channel_tokens_drop)
qed

lemma viewers_sim:
  assumes "room_sim s A" "CHR '':'' \<notin> set app"
  shows "set (viewers app dest kind s) = {\<lparr>vr_account = v, vr_channel_id = c\<rparr> | v c. (app, v, c, dest, kind) \<in> A}"
proof -
  have dec: "ViewerRef_decode (ViewerRef_encode \<lparr>vr_account = v, vr_channel_id = c\<rparr>) = Some \<lparr>vr_account = v, vr_channel_id = c\<rparr>"
    if "(app, v, c, dest, kind) \<in> A" for v c
    using assms(1) that decode_encode by (auto simp: room_sim_def facts_ok_def names_ok_def)
  have "set (viewers app dest kind s) = {y. \<exists>x \<in> room_members A app dest kind. ViewerRef_decode x = Some y}"
    using assms by (simp add: viewers_def set_map_filter room_sim_def)
  also have "\<dots> = {\<lparr>vr_account = v, vr_channel_id = c\<rparr> | v c. (app, v, c, dest, kind) \<in> A}"
    using dec by (fastforce simp: room_members_def)
  finally show ?thesis .
qed

section \<open>Any history of room operations\<close>

datatype room_op =
    REnter string string string string int
  | RLeave string string string string int
  | RClear string string string

fun room_step :: "room_op \<Rightarrow> MemoryRoomInterest \<Rightarrow> MemoryRoomInterest" where
  "room_step (REnter app v c dest kind) s = room_enter app v c dest kind s"
| "room_step (RLeave app v c dest kind) s = room_leave app v c dest kind s"
| "room_step (RClear app v c) s = clear_channel app v c s"

fun room_op_ok :: "room_op \<Rightarrow> bool" where
  "room_op_ok (REnter app v c dest kind) = names_ok app v c dest kind"
| "room_op_ok (RLeave app v c dest kind) = names_ok app v c dest kind"
| "room_op_ok (RClear app v c) = (CHR '':'' \<notin> set app \<and> CHR '':'' \<notin> set v \<and> CHR ''#'' \<notin> set v)"

text \<open>Whether a connection views a room is decided by the last operation that concerns it.\<close>

fun viewing_after :: "room_op list \<Rightarrow> string \<Rightarrow> string \<Rightarrow> string \<Rightarrow> string \<Rightarrow> int \<Rightarrow> bool \<Rightarrow> bool" where
  "viewing_after [] app v c dest kind b = b"
| "viewing_after (REnter app' v' c' dest' kind' # ops) app v c dest kind b =
     viewing_after ops app v c dest kind (b \<or> (app', v', c', dest', kind') = (app, v, c, dest, kind))"
| "viewing_after (RLeave app' v' c' dest' kind' # ops) app v c dest kind b =
     viewing_after ops app v c dest kind (b \<and> (app', v', c', dest', kind') \<noteq> (app, v, c, dest, kind))"
| "viewing_after (RClear app' v' c' # ops) app v c dest kind b =
     viewing_after ops app v c dest kind (b \<and> (app', v', c') \<noteq> (app, v, c))"

lemma room_run_sim:
  "room_sim s A \<Longrightarrow> list_all room_op_ok ops \<Longrightarrow>
   room_sim (fold room_step ops s) {(app, v, c, dest, kind). viewing_after ops app v c dest kind ((app, v, c, dest, kind) \<in> A)}"
proof (induction ops arbitrary: s A)
  case (Cons opn ops)
  have ok: "room_op_ok opn" "list_all room_op_ok ops" using Cons.prems(2) by simp_all
  show ?case
  proof (cases opn)
    case (REnter app v c dest kind)
    have "room_sim (room_step opn s) (insert (app, v, c, dest, kind) A)"
      using room_sim_enter[OF Cons.prems(1)] ok(1) by (simp add: REnter)
    from Cons.IH[OF this ok(2)] show ?thesis by (simp add: REnter disj_commute eq_commute)
  next
    case (RLeave app v c dest kind)
    have "room_sim (room_step opn s) (A - {(app, v, c, dest, kind)})"
      using room_sim_leave[OF Cons.prems(1)] ok(1) by (simp add: RLeave)
    from Cons.IH[OF this ok(2)] show ?thesis by (simp add: RLeave eq_commute)
  next
    case (RClear app v c)
    have "room_sim (room_step opn s) (drop_channel app v c A)"
      using room_sim_clear[OF Cons.prems(1)] ok(1) by (simp add: RClear)
    from Cons.IH[OF this ok(2)] show ?thesis by (simp add: RClear eq_commute)
  qed
qed simp

text \<open>After any history of enters, leaves and connection teardowns, the viewers of a room are
  exactly the connections whose last relevant operation was entering it: nobody who left or whose
  channel was cleared receives room traffic, nobody who entered is missed. This is for names which the
  string encodings of the two indexes keep apart: non-empty, no colon in an application, no colon and no
  hash sign in an account. The code does not check them.\<close>

theorem viewers_exact:
  assumes "list_all room_op_ok ops" "CHR '':'' \<notin> set app"
  shows "\<lparr>vr_account = v, vr_channel_id = c\<rparr> \<in> set (viewers app dest kind (fold room_step ops interest_new))
    \<longleftrightarrow> viewing_after ops app v c dest kind False"
  using viewers_sim[OF room_run_sim[OF room_sim_new assms(1)] assms(2), of dest kind] by simp

theorem viewers_exact_witness:
  "(\<lparr>vr_account = ''bob'', vr_channel_id = ''c2''\<rparr>
      \<in> set (viewers ''kim'' ''g'' 1 (fold room_step
          [REnter ''kim'' ''bob'' ''c2'' ''g'' 1, REnter ''kim'' ''amy'' ''c1'' ''g'' 1, RClear ''kim'' ''amy'' ''c1''] interest_new))
    \<longleftrightarrow> viewing_after [REnter ''kim'' ''bob'' ''c2'' ''g'' 1, REnter ''kim'' ''amy'' ''c1'' ''g'' 1, RClear ''kim'' ''amy'' ''c1'']
          ''kim'' ''bob'' ''c2'' ''g'' 1 False)
   \<and> viewing_after [REnter ''kim'' ''bob'' ''c2'' ''g'' 1, REnter ''kim'' ''amy'' ''c1'' ''g'' 1, RClear ''kim'' ''amy'' ''c1'']
          ''kim'' ''bob'' ''c2'' ''g'' 1 False"
proof -
  have "list_all room_op_ok [REnter ''kim'' ''bob'' ''c2'' ''g'' 1, REnter ''kim'' ''amy'' ''c1'' ''g'' 1, RClear ''kim'' ''amy'' ''c1'']"
    by (simp add: names_ok_def)
  from viewers_exact[OF this, of "''kim''" "''bob''" "''c2''" "''g''" 1] show ?thesis by simp
qed

end
