(* ===== verification/Kim_Users.thy ===== *)
theory Kim_Users
  imports Kim_Groups Kim_Social Kim_Protocol
begin

text \<open>
  Accounts, profiles and bots: the in-memory user directory of \<open>services/chat/src/users.rs\<close>. A bot
  is an account owned by a user, named by the owner's own \<open>client_profile_id\<close>, and befriended with
  its owner in the social directory.
\<close>

section \<open>Data\<close>

definition NICKNAME_MAX_CHARS :: nat where "NICKNAME_MAX_CHARS = 32"
definition BIO_MAX_CHARS :: nat where "BIO_MAX_CHARS = 160"
definition AVATAR_MAX_CHARS :: nat where "AVATAR_MAX_CHARS = 512"
definition SEARCH_LIMIT :: nat where "SEARCH_LIMIT = 20"
definition BOT_MAX_PER_OWNER :: nat where "BOT_MAX_PER_OWNER = 20"
definition BOT_MODEL_MAX_CHARS :: nat where "BOT_MODEL_MAX_CHARS = 256"
definition BOT_THINKING_MAX_CHARS :: nat where "BOT_THINKING_MAX_CHARS = 32"
definition BOT_CONTEXT_TOKENS_MAX :: int where "BOT_CONTEXT_TOKENS_MAX = 2000000"

datatype UserError = UserConflict | UserMissing | InvalidProfile | UserLimit | UserNotBotOwner | UserBackend string

fun IdError_show :: "IdError \<Rightarrow> string" where
  "IdError_show (IdInit s) = ''snowflake init: '' @ s"
| "IdError_show (IdNext s) = ''snowflake next: '' @ s"
| "IdError_show IdOverflow = ''snowflake id overflows i64''"

fun SocialError_show :: "SocialError \<Rightarrow> string" where
  "SocialError_show SelfOp = ''self''"
| "SocialError_show SocialNotFound = ''not found''"
| "SocialError_show SocialBlocked = ''blocked''"
| "SocialError_show SocialError.BotSocialDenied = ''bot social denied''"
| "SocialError_show (SocialBackend s) = s"

record BotConfig =
  bc_model :: string
  bc_thinking_effort :: string
  bc_context_tokens :: "int option"
  bc_visibility :: string

record CreateBot =
  cb_owner :: string
  cb_client_profile_id :: string
  cb_nickname :: string
  cb_avatar :: string
  cb_bio :: string
  cb_model :: string
  cb_thinking_effort :: string
  cb_context_tokens :: "int option"
  cb_visibility :: string

record ProfilePatch =
  pp_nickname :: string
  pp_avatar :: string
  pp_bio :: string

record BotPatch =
  bpa_nickname :: string
  bpa_avatar :: string
  bpa_bio :: string
  bpa_model :: string
  bpa_thinking_effort :: string
  bpa_context_tokens :: "int option"
  bpa_visibility :: string

definition CreateBot_config :: "CreateBot \<Rightarrow> BotConfig" where
  "CreateBot_config r = \<lparr>bc_model = cb_model r, bc_thinking_effort = cb_thinking_effort r,
     bc_context_tokens = cb_context_tokens r, bc_visibility = cb_visibility r\<rparr>"

definition BotPatch_config :: "BotPatch \<Rightarrow> BotConfig" where
  "BotPatch_config p = \<lparr>bc_model = bpa_model p, bc_thinking_effort = bpa_thinking_effort p,
     bc_context_tokens = bpa_context_tokens p, bc_visibility = bpa_visibility p\<rparr>"

definition BotPatch_profile_patch :: "BotPatch \<Rightarrow> ProfilePatch" where
  "BotPatch_profile_patch p = \<lparr>pp_nickname = bpa_nickname p, pp_avatar = bpa_avatar p, pp_bio = bpa_bio p\<rparr>"

record UserPresence =
  up_exists :: bool
  up_kind :: int
  up_owner_account :: string

record UserProfile =
  uf_account :: string
  uf_nickname :: string
  uf_avatar :: string
  uf_bio :: string
  uf_kind :: int

record BotRecord =
  br_profile :: UserProfile
  br_config :: BotConfig

record UserRecord =
  ur_password_hash :: "string option"
  ur_nickname :: string
  ur_avatar :: string
  ur_bio :: string
  ur_token_epoch :: nat
  ur_kind :: int
  ur_owner_account :: string
  ur_client_profile_id :: string
  ur_bot_config :: "BotConfig option"

record MemoryUserDirectory =
  ud_inner :: "(string \<times> string, UserRecord) hmap"
  ud_social :: "MemorySocialDirectory option"

section \<open>Validation\<close>

definition normalize_bot_config :: "BotConfig \<Rightarrow> (UserError, BotConfig) result" where
  "normalize_bot_config raw =
     (let v = trim (bc_visibility raw);
          visibility = (if v = [] \<or> v = ''private'' then Some ''private''
                        else if v = ''owner_card'' then Some ''owner_card''
                        else if v = ''public'' then Some ''public'' else None)
      in case visibility of
           None \<Rightarrow> Err InvalidProfile
         | Some vis \<Rightarrow>
             if char_count (bc_model raw) > BOT_MODEL_MAX_CHARS
               \<or> char_count (bc_thinking_effort raw) > BOT_THINKING_MAX_CHARS then Err InvalidProfile
             else res_bind (case bc_context_tokens raw of
                    Some n \<Rightarrow> if n \<le> 0 then Ok None
                              else if n > BOT_CONTEXT_TOKENS_MAX then Err InvalidProfile else Ok (Some n)
                  | None \<Rightarrow> Ok None) (\<lambda>context_tokens.
               Ok \<lparr>bc_model = trim (bc_model raw), bc_thinking_effort = trim (bc_thinking_effort raw),
                   bc_context_tokens = context_tokens, bc_visibility = vis\<rparr>))"

definition validate_patch :: "ProfilePatch \<Rightarrow> (UserError, ProfilePatch) result" where
  "validate_patch patch =
     (let nickname = trim (pp_nickname patch) in
      if nickname = [] \<or> char_count nickname > NICKNAME_MAX_CHARS then Err InvalidProfile
      else if char_count (pp_avatar patch) > AVATAR_MAX_CHARS then Err InvalidProfile
      else if char_count (pp_bio patch) > BIO_MAX_CHARS then Err InvalidProfile
      else Ok \<lparr>pp_nickname = nickname, pp_avatar = trim (pp_avatar patch), pp_bio = trim (pp_bio patch)\<rparr>)"

definition valid_client_profile_id :: "string \<Rightarrow> bool" where
  "valid_client_profile_id raw \<longleftrightarrow> 1 \<le> length raw \<and> length raw \<le> 64
     \<and> list_all (\<lambda>c. is_ascii_alnum c \<or> c = CHR ''_'' \<or> c = CHR ''-'') raw"

definition human_record :: "string \<Rightarrow> string option \<Rightarrow> UserRecord" where
  "human_record account password_hash =
     \<lparr>ur_password_hash = password_hash, ur_nickname = account, ur_avatar = [], ur_bio = [], ur_token_epoch = 0,
      ur_kind = PROFILE_KIND_USER, ur_owner_account = [], ur_client_profile_id = [], ur_bot_config = None\<rparr>"

definition presence_from_record :: "UserRecord \<Rightarrow> UserPresence" where
  "presence_from_record rec = \<lparr>up_exists = True, up_kind = ur_kind rec, up_owner_account = ur_owner_account rec\<rparr>"

definition record_to_profile :: "string \<Rightarrow> UserRecord \<Rightarrow> UserProfile" where
  "record_to_profile account rec =
     \<lparr>uf_account = account, uf_nickname = (if ur_nickname rec = [] then account else ur_nickname rec),
      uf_avatar = ur_avatar rec, uf_bio = ur_bio rec, uf_kind = ur_kind rec\<rparr>"

section \<open>Accounts\<close>

definition user_dir_new :: "MemorySocialDirectory option \<Rightarrow> MemoryUserDirectory" where
  "user_dir_new social = \<lparr>ud_inner = [], ud_social = social\<rparr>"

definition user_upsert :: "string \<Rightarrow> string \<Rightarrow> MemoryUserDirectory \<Rightarrow> MemoryUserDirectory" where
  "user_upsert app account d = d\<lparr>ud_inner := hor_insert (app, account) (human_record account None) (ud_inner d)\<rparr>"

definition user_create ::
  "string \<Rightarrow> string \<Rightarrow> string \<Rightarrow> MemoryUserDirectory \<Rightarrow> (UserError, unit) result \<times> MemoryUserDirectory" where
  "user_create app account password_hash d =
     (case hget (ud_inner d) (app, account) of
        Some _ \<Rightarrow> (Err UserConflict, d)
      | None \<Rightarrow> (Ok (), d\<lparr>ud_inner := hput (app, account) (human_record account (Some password_hash)) (ud_inner d)\<rparr>))"

definition user_password_hash :: "string \<Rightarrow> string \<Rightarrow> MemoryUserDirectory \<Rightarrow> string option" where
  "user_password_hash app account d =
     (case hget (ud_inner d) (app, account) of None \<Rightarrow> None | Some r \<Rightarrow> ur_password_hash r)"

definition user_exists :: "string \<Rightarrow> string \<Rightarrow> MemoryUserDirectory \<Rightarrow> bool" where
  "user_exists app account d = (hget (ud_inner d) (app, account) \<noteq> None)"

definition user_profile :: "string \<Rightarrow> string \<Rightarrow> MemoryUserDirectory \<Rightarrow> UserProfile option" where
  "user_profile app account d = map_option (record_to_profile account) (hget (ud_inner d) (app, account))"

text \<open>The operations that edit one record: \<open>get_mut\<close> or \<open>NotFound\<close>.\<close>

definition with_record ::
  "string \<Rightarrow> string \<Rightarrow> (UserRecord \<Rightarrow> UserRecord) \<Rightarrow> (UserRecord \<Rightarrow> 'a) \<Rightarrow> MemoryUserDirectory
   \<Rightarrow> (UserError, 'a) result \<times> MemoryUserDirectory" where
  "with_record app account f g d =
     (case hget (ud_inner d) (app, account) of
        None \<Rightarrow> (Err UserMissing, d)
      | Some rec \<Rightarrow> (Ok (g (f rec)), d\<lparr>ud_inner := hput (app, account) (f rec) (ud_inner d)\<rparr>))"

definition update_profile ::
  "string \<Rightarrow> string \<Rightarrow> ProfilePatch \<Rightarrow> MemoryUserDirectory \<Rightarrow> (UserError, UserProfile) result \<times> MemoryUserDirectory" where
  "update_profile app account patch d =
     (case validate_patch patch of
        Inl e \<Rightarrow> (Err e, d)
      | Inr patch \<Rightarrow>
          with_record app account
            (\<lambda>rec. rec\<lparr>ur_nickname := pp_nickname patch, ur_avatar := pp_avatar patch, ur_bio := pp_bio patch\<rparr>)
            (record_to_profile account) d)"

definition user_profiles :: "string \<Rightarrow> string list \<Rightarrow> MemoryUserDirectory \<Rightarrow> UserProfile list" where
  "user_profiles app accounts d = List.map_filter (\<lambda>acc. user_profile app acc d) accounts"

text \<open>The search loop stops as soon as \<open>cap\<close> hits are collected; \<open>cap\<close> is never 0.\<close>

fun search_loop ::
  "string \<Rightarrow> string \<Rightarrow> string list \<Rightarrow> nat \<Rightarrow> ((string \<times> string) \<times> UserRecord) list \<Rightarrow> UserProfile list \<Rightarrow> UserProfile list" where
  "search_loop app q exclude cap [] out = out"
| "search_loop app q exclude cap (((row_app, account), rec) # rows) out =
     (if row_app \<noteq> app \<or> ur_kind rec = PROFILE_KIND_BOT \<or> account \<in> set exclude
      then search_loop app q exclude cap rows out
      else
        let nick = (if ur_nickname rec = [] then account else ur_nickname rec);
            hit = eq_ignore_ascii_case account q
              \<or> take (length q) (to_ascii_lowercase nick) = to_ascii_lowercase q;
            out' = (if hit then out @ [record_to_profile account rec] else out)
        in if length out' \<ge> cap then out' else search_loop app q exclude cap rows out')"

definition user_search :: "string \<Rightarrow> string \<Rightarrow> string list \<Rightarrow> nat \<Rightarrow> MemoryUserDirectory \<Rightarrow> UserProfile list" where
  "user_search app query exclude limit d =
     (let q = trim query in
      if q = [] then []
      else sort_key uf_account (search_loop app q exclude (if limit = 0 then SEARCH_LIMIT else limit) (ud_inner d) []))"

definition set_password ::
  "string \<Rightarrow> string \<Rightarrow> string \<Rightarrow> MemoryUserDirectory \<Rightarrow> (UserError, unit) result \<times> MemoryUserDirectory" where
  "set_password app account password_hash =
     with_record app account (\<lambda>rec. rec\<lparr>ur_password_hash := Some password_hash\<rparr>) (\<lambda>_. ())"

definition token_epoch :: "string \<Rightarrow> string \<Rightarrow> MemoryUserDirectory \<Rightarrow> nat" where
  "token_epoch app account d =
     (case hget (ud_inner d) (app, account) of None \<Rightarrow> 0 | Some r \<Rightarrow> ur_token_epoch r)"

definition bump_token_epoch ::
  "string \<Rightarrow> string \<Rightarrow> MemoryUserDirectory \<Rightarrow> (UserError, nat) result \<times> MemoryUserDirectory" where
  "bump_token_epoch app account =
     with_record app account (\<lambda>rec. rec\<lparr>ur_token_epoch := u32_saturating_add (ur_token_epoch rec) 1\<rparr>) ur_token_epoch"

definition set_password_and_bump_epoch ::
  "string \<Rightarrow> string \<Rightarrow> string \<Rightarrow> MemoryUserDirectory \<Rightarrow> (UserError, nat) result \<times> MemoryUserDirectory" where
  "set_password_and_bump_epoch app account password_hash =
     with_record app account
       (\<lambda>rec. rec\<lparr>ur_password_hash := Some password_hash,
                  ur_token_epoch := u32_saturating_add (ur_token_epoch rec) 1\<rparr>) ur_token_epoch"

definition lookup :: "string \<Rightarrow> string \<Rightarrow> MemoryUserDirectory \<Rightarrow> UserPresence option" where
  "lookup app account d = map_option presence_from_record (hget (ud_inner d) (app, account))"

section \<open>Bots\<close>

definition is_bot_of :: "string \<Rightarrow> string \<Rightarrow> (string \<times> string) \<times> UserRecord \<Rightarrow> bool" where
  "is_bot_of app owner row \<longleftrightarrow> fst (fst row) = app \<and> ur_kind (snd row) = PROFILE_KIND_BOT \<and> ur_owner_account (snd row) = owner"

definition find_bot_by_profile ::
  "(string \<times> string, UserRecord) hmap \<Rightarrow> string \<Rightarrow> string \<Rightarrow> string \<Rightarrow> (string \<times> UserRecord) option" where
  "find_bot_by_profile inner app owner client_profile_id =
     map_option (\<lambda>((_, account), rec). (account, rec))
       (List.find (\<lambda>row. is_bot_of app owner row \<and> ur_client_profile_id (snd row) = client_profile_id) inner)"

definition count_bots :: "string \<Rightarrow> string \<Rightarrow> MemoryUserDirectory \<Rightarrow> (UserError, nat) result" where
  "count_bots app owner d =
     (let n = length (filter (is_bot_of app owner) (ud_inner d)) in
      if n \<le> u32_max then Ok n else Err (UserBackend ''out of range integral type conversion attempted''))"

definition befriend_bot ::
  "string \<Rightarrow> string \<Rightarrow> string \<Rightarrow> 'a \<Rightarrow> MemoryUserDirectory \<Rightarrow> (UserError, 'a) result \<times> MemoryUserDirectory" where
  "befriend_bot app owner account answer d =
     (case ud_social d of
        None \<Rightarrow> (Err (UserBackend ''create_bot requires social''), d)
      | Some so \<Rightarrow>
          let (r, so') = ensure_friends app owner account so in
          (case r of Inl e \<Rightarrow> Err (UserBackend (SocialError_show e)) | Inr _ \<Rightarrow> Ok answer, d\<lparr>ud_social := Some so'\<rparr>))"

text \<open>A second call for a known profile: the configuration is replaced and the friendship restored.\<close>

definition touch_bot ::
  "string \<Rightarrow> string \<Rightarrow> string \<Rightarrow> UserRecord \<Rightarrow> BotConfig \<Rightarrow> MemoryUserDirectory
   \<Rightarrow> (UserError, BotRecord) result \<times> MemoryUserDirectory" where
  "touch_bot app owner account rec config d =
     (let inner = (case hget (ud_inner d) (app, account) of
            None \<Rightarrow> ud_inner d
          | Some row \<Rightarrow> hput (app, account) (row\<lparr>ur_bot_config := Some config\<rparr>) (ud_inner d))
      in befriend_bot app owner account \<lparr>br_profile = record_to_profile account rec, br_config = config\<rparr>
           (d\<lparr>ud_inner := inner\<rparr>))"

text \<open>Before the write lock: the limit, a fresh account name and the validated profile. \<open>next_id\<close> is
  the draw of the identifier generator.\<close>

definition draft_bot ::
  "(IdError, int) result \<Rightarrow> string \<Rightarrow> CreateBot \<Rightarrow> BotConfig \<Rightarrow> MemoryUserDirectory
   \<Rightarrow> (UserError, string \<times> UserRecord) result" where
  "draft_bot next_id app req config d =
     res_bind (count_bots app (cb_owner req) d) (\<lambda>count.
     if count \<ge> BOT_MAX_PER_OWNER then Err UserLimit
     else res_bind (case next_id of Inl e \<Rightarrow> Err (UserBackend (IdError_show e)) | Inr i \<Rightarrow> Ok (''b_'' @ base36_upper i)) (\<lambda>account.
     res_bind (if trim (cb_nickname req) = [] then Ok account
               else res_bind (validate_patch \<lparr>pp_nickname = cb_nickname req, pp_avatar = cb_avatar req, pp_bio = cb_bio req\<rparr>)
                      (\<lambda>p. Ok (pp_nickname p))) (\<lambda>nickname.
     let avatar = trim (cb_avatar req); bio = trim (cb_bio req) in
     if char_count avatar > AVATAR_MAX_CHARS \<or> char_count bio > BIO_MAX_CHARS then Err InvalidProfile
     else Ok (account,
       \<lparr>ur_password_hash = None, ur_nickname = nickname, ur_avatar = avatar, ur_bio = bio, ur_token_epoch = 0,
        ur_kind = PROFILE_KIND_BOT, ur_owner_account = cb_owner req, ur_client_profile_id = cb_client_profile_id req,
        ur_bot_config = Some config\<rparr>))))"

text \<open>Under the write lock the profile is looked up again: a bot created in the meantime wins.\<close>

definition commit_bot ::
  "string \<Rightarrow> CreateBot \<Rightarrow> BotConfig \<Rightarrow> string \<times> UserRecord \<Rightarrow> MemoryUserDirectory
   \<Rightarrow> (UserError, BotRecord) result \<times> MemoryUserDirectory" where
  "commit_bot app req config draft d =
     (case find_bot_by_profile (ud_inner d) app (cb_owner req) (cb_client_profile_id req) of
        Some (existing, rec) \<Rightarrow> touch_bot app (cb_owner req) existing rec config d
      | None \<Rightarrow>
          let (account, rec) = draft in
          if hget (ud_inner d) (app, account) \<noteq> None then (Err UserConflict, d)
          else befriend_bot app (cb_owner req) account
            \<lparr>br_profile = \<lparr>uf_account = account, uf_nickname = ur_nickname rec, uf_avatar = ur_avatar rec,
               uf_bio = ur_bio rec, uf_kind = PROFILE_KIND_BOT\<rparr>, br_config = config\<rparr>
            (d\<lparr>ud_inner := hput (app, account) rec (ud_inner d)\<rparr>))"

definition create_bot ::
  "(IdError, int) result option \<Rightarrow> string \<Rightarrow> CreateBot \<Rightarrow> MemoryUserDirectory
   \<Rightarrow> (UserError, BotRecord) result \<times> MemoryUserDirectory" where
  "create_bot idgen app req d =
     (case ud_social d of
        None \<Rightarrow> (Err (UserBackend ''create_bot requires social''), d)
      | Some _ \<Rightarrow>
     (case idgen of
        None \<Rightarrow> (Err (UserBackend ''create_bot requires idgen''), d)
      | Some next_id \<Rightarrow>
          if \<not> valid_client_profile_id (cb_client_profile_id req) then (Err InvalidProfile, d)
          else if cb_owner req = [] then (Err InvalidProfile, d)
          else case normalize_bot_config (CreateBot_config req) of
              Inl e \<Rightarrow> (Err e, d)
            | Inr config \<Rightarrow>
                (case find_bot_by_profile (ud_inner d) app (cb_owner req) (cb_client_profile_id req) of
                   Some (account, rec) \<Rightarrow> touch_bot app (cb_owner req) account rec config d
                 | None \<Rightarrow>
                     (case draft_bot next_id app req config d of
                        Inl e \<Rightarrow> (Err e, d)
                      | Inr draft \<Rightarrow> commit_bot app req config draft d))))"

definition owned_bot ::
  "string \<Rightarrow> string \<Rightarrow> string \<Rightarrow> MemoryUserDirectory \<Rightarrow> (UserError, UserRecord) result" where
  "owned_bot app owner account d =
     (case hget (ud_inner d) (app, account) of
        None \<Rightarrow> Err UserMissing
      | Some rec \<Rightarrow>
          if ur_kind rec \<noteq> PROFILE_KIND_BOT then Err UserMissing
          else if ur_owner_account rec \<noteq> owner then Err UserNotBotOwner else Ok rec)"

definition write_bot ::
  "string \<Rightarrow> string \<Rightarrow> ProfilePatch \<Rightarrow> BotConfig \<Rightarrow> MemoryUserDirectory
   \<Rightarrow> (UserError, BotRecord) result \<times> MemoryUserDirectory" where
  "write_bot app account p config =
     with_record app account
       (\<lambda>rec. rec\<lparr>ur_nickname := pp_nickname p, ur_avatar := pp_avatar p, ur_bio := pp_bio p, ur_bot_config := Some config\<rparr>)
       (\<lambda>rec. \<lparr>br_profile = record_to_profile account rec, br_config = config\<rparr>)"

definition update_bot ::
  "string \<Rightarrow> string \<Rightarrow> string \<Rightarrow> BotPatch \<Rightarrow> MemoryUserDirectory
   \<Rightarrow> (UserError, BotRecord) result \<times> MemoryUserDirectory" where
  "update_bot app owner account patch d =
     (case res_bind (owned_bot app owner account d) (\<lambda>_.
        res_bind (validate_patch (BotPatch_profile_patch patch)) (\<lambda>p.
        res_bind (normalize_bot_config (BotPatch_config patch)) (\<lambda>config. Ok (p, config)))) of
        Inl e \<Rightarrow> (Err e, d)
      | Inr (p, config) \<Rightarrow> write_bot app account p config d)"

definition bot_config :: "string \<Rightarrow> string \<Rightarrow> string \<Rightarrow> MemoryUserDirectory \<Rightarrow> (UserError, BotConfig) result" where
  "bot_config app owner account d =
     res_bind (owned_bot app owner account d) (\<lambda>rec.
       Ok (case ur_bot_config rec of
             Some c \<Rightarrow> c
           | None \<Rightarrow> \<lparr>bc_model = [], bc_thinking_effort = [], bc_context_tokens = None, bc_visibility = ''private''\<rparr>))"

definition bot_owner :: "string \<Rightarrow> string \<Rightarrow> MemoryUserDirectory \<Rightarrow> string option" where
  "bot_owner app account d =
     (case lookup app account d of
        None \<Rightarrow> None
      | Some p \<Rightarrow> if up_kind p = PROFILE_KIND_BOT \<and> up_owner_account p \<noteq> [] then Some (up_owner_account p) else None)"

definition delete_bot ::
  "string \<Rightarrow> string \<Rightarrow> string \<Rightarrow> MemoryUserDirectory \<Rightarrow> (UserError, unit) result \<times> MemoryUserDirectory" where
  "delete_bot app owner account d =
     (case owned_bot app owner account d of
        Inl e \<Rightarrow> (Err e, d)
      | Inr _ \<Rightarrow>
          (Ok (), d\<lparr>ud_inner := hdel (app, account) (ud_inner d),
                    ud_social := map_option (social_remove app owner account) (ud_social d)\<rparr>))"

section \<open>Steps and the invariant\<close>

text \<open>
  What concurrent callers can do to the directory. The two halves of \<open>create_bot\<close> and of
  \<open>update_bot\<close> take the lock separately, so the writing half is a step of its own: it may run on a
  directory that has changed since the draft was made.
\<close>

inductive user_step :: "MemoryUserDirectory \<Rightarrow> MemoryUserDirectory \<Rightarrow> bool" where
  upsert: "user_step d (user_upsert app account d)"
| create: "user_step d (snd (user_create app account hash d))"
| profile: "user_step d (snd (update_profile app account patch d))"
| password: "user_step d (snd (set_password app account hash d))"
| bump: "user_step d (snd (bump_token_epoch app account d))"
| password_bump: "user_step d (snd (set_password_and_bump_epoch app account hash d))"
| touch: "user_step d (snd (touch_bot app owner account rec config d))"
| commit: "draft_bot next_id app req config d0 = Ok draft \<Longrightarrow> user_step d (snd (commit_bot app req config draft d))"
| write_bot: "user_step d (snd (write_bot app account p config d))"
| delete: "user_step d (snd (delete_bot app owner account d))"

definition bots_unique :: "(string \<times> string, UserRecord) hmap \<Rightarrow> bool" where
  "bots_unique m \<longleftrightarrow> (\<forall>app a a' r r'. hget m (app, a) = Some r \<longrightarrow> hget m (app, a') = Some r'
     \<longrightarrow> ur_kind r = PROFILE_KIND_BOT \<longrightarrow> ur_kind r' = PROFILE_KIND_BOT \<longrightarrow> ur_owner_account r = ur_owner_account r'
     \<longrightarrow> ur_client_profile_id r = ur_client_profile_id r' \<longrightarrow> a = a')"

definition users_inv :: "MemoryUserDirectory \<Rightarrow> bool" where
  "users_inv d \<longleftrightarrow> hwf (ud_inner d) \<and> bots_unique (ud_inner d)
     \<and> (\<forall>k r. hget (ud_inner d) k = Some r \<longrightarrow> ur_token_epoch r \<le> u32_max)"

text \<open>No edit of a record touches the fields that name a bot, and none lowers the token epoch.\<close>

definition edit_ok :: "UserRecord \<Rightarrow> UserRecord \<Rightarrow> bool" where
  "edit_ok r r' \<longleftrightarrow> ur_kind r' = ur_kind r \<and> ur_owner_account r' = ur_owner_account r
     \<and> ur_client_profile_id r' = ur_client_profile_id r
     \<and> (ur_token_epoch r \<le> u32_max \<longrightarrow> ur_token_epoch r \<le> ur_token_epoch r' \<and> ur_token_epoch r' \<le> u32_max)"

lemma bots_unique_edit:
  assumes "bots_unique m" "hget m k = Some r" "edit_ok r r'"
  shows "bots_unique (hput k r' m)"
  using assms unfolding bots_unique_def edit_ok_def by (auto split: if_splits)

lemma bots_unique_human:
  "bots_unique m \<Longrightarrow> ur_kind r \<noteq> PROFILE_KIND_BOT \<Longrightarrow> bots_unique (hput k r m)"
  unfolding bots_unique_def by (auto split: if_splits)

lemma bots_unique_hdel: "bots_unique m \<Longrightarrow> bots_unique (hdel k m)"
  unfolding bots_unique_def by (auto split: if_splits)

lemma find_bot_None:
  assumes "hwf inner" "find_bot_by_profile inner app owner pid = None" "hget inner (app, a) = Some r"
    "ur_kind r = PROFILE_KIND_BOT" "ur_owner_account r = owner"
  shows "ur_client_profile_id r \<noteq> pid"
  using assms hget_SomeD[OF assms(3)] by (auto simp: find_bot_by_profile_def find_None_iff is_bot_of_def)

lemma find_mem: "List.find P xs = Some x \<Longrightarrow> x \<in> set xs \<and> P x"
  by (auto simp: find_Some_iff)

lemma find_bot_Some:
  assumes "hwf inner" "find_bot_by_profile inner app owner pid = Some (a, r)"
  shows "hget inner (app, a) = Some r \<and> ur_kind r = PROFILE_KIND_BOT \<and> ur_owner_account r = owner
    \<and> ur_client_profile_id r = pid"
  using assms(2) hget_in_set[OF assms(1)] by (auto simp: find_bot_by_profile_def is_bot_of_def dest!: find_mem)

lemma bots_unique_add:
  assumes "hwf m" "bots_unique m" "find_bot_by_profile m app owner pid = None"
    "ur_owner_account r = owner" "ur_client_profile_id r = pid"
  shows "bots_unique (hput (app, a) r m)"
  using assms(2,4,5) find_bot_None[OF assms(1,3)] unfolding bots_unique_def
  by (auto split: if_splits) (metis)+

lemma edit_ok_epoch: "edit_ok r r' \<Longrightarrow> ur_token_epoch r \<le> u32_max \<Longrightarrow> ur_token_epoch r' \<le> u32_max"
  by (simp add: edit_ok_def)

lemma with_record_inv:
  assumes "users_inv d" "\<And>r. edit_ok r (f r)"
  shows "users_inv (snd (with_record app account f g d))"
  using assms(1) edit_ok_epoch[OF assms(2)] bots_unique_edit[OF _ _ assms(2)]
  by (auto simp: users_inv_def with_record_def split: option.splits)

lemma ud_inner_befriend [simp]: "ud_inner (snd (befriend_bot app owner account x d)) = ud_inner d"
  by (auto simp: befriend_bot_def split: option.splits prod.splits)

lemma touch_bot_inv: "users_inv d \<Longrightarrow> users_inv (snd (touch_bot app owner account rec config d))"
  using bots_unique_edit by (auto simp: users_inv_def touch_bot_def Let_def edit_ok_def split: option.splits)

lemma draft_bot_fields:
  "draft_bot next_id app req config d = Ok (a, r) \<Longrightarrow>
   ur_kind r = PROFILE_KIND_BOT \<and> ur_owner_account r = cb_owner req \<and> ur_client_profile_id r = cb_client_profile_id req
   \<and> ur_token_epoch r = 0"
  by (auto simp: draft_bot_def res_bind_eq_Inr Let_def split: if_splits)

lemma commit_bot_inv:
  assumes "users_inv d" "draft_bot next_id app req config d0 = Ok draft"
  shows "users_inv (snd (commit_bot app req config draft d))"
proof (cases "find_bot_by_profile (ud_inner d) app (cb_owner req) (cb_client_profile_id req)")
  case (Some p)
  then show ?thesis using touch_bot_inv[OF assms(1)] by (auto simp: commit_bot_def split: prod.splits)
next
  case None
  obtain a r where dr: "draft = (a, r)" by (cases draft)
  have "bots_unique (hput (app, a) r (ud_inner d))"
    using bots_unique_add[OF _ _ None] assms(1) draft_bot_fields[OF assms(2)[unfolded dr]] by (simp add: users_inv_def)
  then show ?thesis
    using assms(1) None draft_bot_fields[OF assms(2)[unfolded dr]] by (auto simp: users_inv_def commit_bot_def dr split: if_splits)
qed

lemma user_step_inv [kim_inv]: "user_step d d' \<Longrightarrow> users_inv d \<Longrightarrow> users_inv d'"
proof (induction rule: user_step.induct)
  case (upsert d app account)
  then show ?case
    using bots_unique_human[of "ud_inner d" "human_record account None"]
    by (auto simp: users_inv_def user_upsert_def hor_insert_def human_record_def PROFILE_KIND_USER_def PROFILE_KIND_BOT_def
        split: option.splits)
next
  case (create d app account hash)
  then show ?case
    using bots_unique_human[of "ud_inner d" "human_record account (Some hash)"]
    by (auto simp: users_inv_def user_create_def human_record_def PROFILE_KIND_USER_def PROFILE_KIND_BOT_def
        split: option.splits)
next
  case (commit next_id app req config d0 draft d)
  then show ?case using commit_bot_inv by blast
next
  case (delete d app owner account)
  then show ?case
    using bots_unique_hdel by (auto simp: users_inv_def delete_bot_def split: sum.splits)
qed (auto intro!: with_record_inv touch_bot_inv split: sum.splits
      simp: update_profile_def set_password_def bump_token_epoch_def set_password_and_bump_epoch_def write_bot_def edit_ok_def u32_saturating_add_def)

inductive user_reach :: "MemoryUserDirectory \<Rightarrow> bool" where
  start: "user_reach (user_dir_new social)"
| step: "user_reach d \<Longrightarrow> user_step d d' \<Longrightarrow> user_reach d'"

lemma user_reach_inv: "user_reach d \<Longrightarrow> users_inv d"
proof (induction rule: user_reach.induct)
  case (start social)
  then show ?case by (simp add: users_inv_def user_dir_new_def bots_unique_def)
next
  case (step d d')
  then show ?case by (blast intro: user_step_inv)
qed

section \<open>Bots are created once\<close>

definition friends_of_owner :: "string \<Rightarrow> string \<Rightarrow> string \<Rightarrow> MemoryUserDirectory \<Rightarrow> bool" where
  "friends_of_owner app owner account d = (case ud_social d of None \<Rightarrow> False | Some so \<Rightarrow> is_friend app owner account so)"

lemma befriend_bot_Ok:
  assumes "befriend_bot app owner account x d = (Ok y, d')"
  shows "y = x \<and> owner \<noteq> [] \<and> account \<noteq> [] \<and> owner \<noteq> account \<and> friends_of_owner app owner account d'
    \<and> ud_inner d' = ud_inner d"
  using assms by (auto simp: befriend_bot_def ensure_friends_def friends_of_owner_def is_friend_def
      split: option.splits if_splits)

lemma touch_bot_Ok:
  assumes "touch_bot app owner account rec config d = (Ok b, d')" "hget (ud_inner d) (app, account) = Some rec"
  shows "b = \<lparr>br_profile = record_to_profile account rec, br_config = config\<rparr> \<and> owner \<noteq> [] \<and> account \<noteq> []
    \<and> owner \<noteq> account \<and> friends_of_owner app owner account d'
    \<and> ud_inner d' = hput (app, account) (rec\<lparr>ur_bot_config := Some config\<rparr>) (ud_inner d)"
proof -
  have "befriend_bot app owner account \<lparr>br_profile = record_to_profile account rec, br_config = config\<rparr>
      (d\<lparr>ud_inner := hput (app, account) (rec\<lparr>ur_bot_config := Some config\<rparr>) (ud_inner d)\<rparr>) = (Ok b, d')"
    using assms by (simp add: touch_bot_def)
  from befriend_bot_Ok[OF this] show ?thesis by simp
qed

text \<open>What a successful call leaves behind: the bot under its profile, with its owner's friendship.\<close>

definition bot_installed :: "string \<Rightarrow> CreateBot \<Rightarrow> string \<Rightarrow> MemoryUserDirectory \<Rightarrow> bool" where
  "bot_installed app req account d \<longleftrightarrow> friends_of_owner app (cb_owner req) account d
     \<and> account \<noteq> [] \<and> cb_owner req \<noteq> account \<and> cb_owner req \<noteq> []
     \<and> (\<exists>rec. find_bot_by_profile (ud_inner d) app (cb_owner req) (cb_client_profile_id req) = Some (account, rec)
          \<and> hget (ud_inner d) (app, account) = Some rec)"

lemma find_bot_installed:
  assumes "hwf m" "bots_unique m" "hget m (app, a) = Some r" "ur_kind r = PROFILE_KIND_BOT"
    "ur_owner_account r = owner" "ur_client_profile_id r = pid"
  shows "find_bot_by_profile m app owner pid = Some (a, r)"
proof (cases "find_bot_by_profile m app owner pid")
  case None
  then show ?thesis using find_bot_None[OF assms(1) None assms(3-5)] assms(6) by simp
next
  case (Some p)
  obtain a' r' where p: "p = (a', r')" by (cases p)
  have f: "hget m (app, a') = Some r' \<and> ur_kind r' = PROFILE_KIND_BOT \<and> ur_owner_account r' = owner \<and> ur_client_profile_id r' = pid"
    by (rule find_bot_Some[OF assms(1)]) (simp add: Some p)
  then have "a' = a" using assms unfolding bots_unique_def by metis
  then show ?thesis using f assms(3) Some p by simp
qed

lemma touch_bot_installed:
  assumes "users_inv d" "find_bot_by_profile (ud_inner d) app (cb_owner req) (cb_client_profile_id req) = Some (account, rec)"
    "touch_bot app (cb_owner req) account rec config d = (Ok b, d')"
  shows "bot_installed app req account d' \<and> uf_account (br_profile b) = account \<and> hkeys (ud_inner d') = hkeys (ud_inner d)"
proof -
  have f: "hget (ud_inner d) (app, account) = Some rec" "ur_kind rec = PROFILE_KIND_BOT"
    "ur_owner_account rec = cb_owner req" "ur_client_profile_id rec = cb_client_profile_id req"
    using find_bot_Some[OF _ assms(2)] assms(1) by (auto simp: users_inv_def)
  note t = touch_bot_Ok[OF assms(3) f(1)]
  have "users_inv d'" using touch_bot_inv[OF assms(1), of app "cb_owner req" account rec config] assms(3) by simp
  then have "find_bot_by_profile (ud_inner d') app (cb_owner req) (cb_client_profile_id req)
      = Some (account, rec\<lparr>ur_bot_config := Some config\<rparr>)"
    by (intro find_bot_installed) (use f t in \<open>auto simp: users_inv_def\<close>)
  moreover have "(app, account) \<in> hkeys (ud_inner d)" using hget_SomeD[OF f(1)] by force
  ultimately show ?thesis using t f by (auto simp: bot_installed_def record_to_profile_def dom_update)
qed

lemma commit_bot_installed:
  assumes "users_inv d" "draft_bot next_id app req config d0 = Ok draft" "commit_bot app req config draft d = (Ok b, d')"
  shows "bot_installed app req (uf_account (br_profile b)) d'"
proof (cases "find_bot_by_profile (ud_inner d) app (cb_owner req) (cb_client_profile_id req)")
  case (Some p)
  obtain a r where p: "p = (a, r)" by (cases p)
  have "touch_bot app (cb_owner req) a r config d = (Ok b, d')" using assms(3) Some p by (simp add: commit_bot_def)
  then show ?thesis using touch_bot_installed[OF assms(1)] Some p by blast
next
  case None
  obtain a r where dr: "draft = (a, r)" by (cases draft)
  let ?b = "\<lparr>br_profile = \<lparr>uf_account = a, uf_nickname = ur_nickname r, uf_avatar = ur_avatar r,
     uf_bio = ur_bio r, uf_kind = PROFILE_KIND_BOT\<rparr>, br_config = config\<rparr>"
  have "befriend_bot app (cb_owner req) a ?b (d\<lparr>ud_inner := hput (app, a) r (ud_inner d)\<rparr>) = (Ok b, d')"
    using assms(3) None dr by (auto simp: commit_bot_def split: if_splits)
  note t = befriend_bot_Ok[OF this]
  have "users_inv d'" using commit_bot_inv[OF assms(1,2)] assms(3) by (simp add: dr)
  then have "find_bot_by_profile (ud_inner d') app (cb_owner req) (cb_client_profile_id req) = Some (a, r)"
    by (intro find_bot_installed) (use draft_bot_fields[OF assms(2)[unfolded dr]] t in \<open>auto simp: users_inv_def\<close>)
  then show ?thesis using t by (auto simp: bot_installed_def)
qed

lemma create_bot_installed:
  assumes "users_inv d" "create_bot idgen app req d = (Ok b, d')"
  shows "bot_installed app req (uf_account (br_profile b)) d' \<and> users_inv d' \<and> valid_client_profile_id (cb_client_profile_id req)
    \<and> ud_social d' \<noteq> None"
proof -
  obtain so next_id config where v: "ud_social d = Some so" "idgen = Some next_id" "valid_client_profile_id (cb_client_profile_id req)"
    "cb_owner req \<noteq> []" "normalize_bot_config (CreateBot_config req) = Ok config"
    using assms(2) by (auto simp: create_bot_def split: option.splits if_splits sum.splits)
  have soc: "ud_social d' \<noteq> None" if "bot_installed app req (uf_account (br_profile b)) d'"
    using that by (auto simp: bot_installed_def friends_of_owner_def split: option.splits)
  show ?thesis
  proof (cases "find_bot_by_profile (ud_inner d) app (cb_owner req) (cb_client_profile_id req)")
    case (Some p)
    obtain a r where p: "p = (a, r)" by (cases p)
    have t: "touch_bot app (cb_owner req) a r config d = (Ok b, d')" using assms(2) Some p v by (simp add: create_bot_def)
    show ?thesis
      using touch_bot_installed[OF assms(1) _ t] touch_bot_inv[OF assms(1), of app "cb_owner req" a r config] t Some p v(3) soc
      by auto
  next
    case None
    obtain draft where c: "draft_bot next_id app req config d = Ok draft" "commit_bot app req config draft d = (Ok b, d')"
      using assms(2) None v by (auto simp: create_bot_def split: sum.splits)
    show ?thesis
      using commit_bot_installed[OF assms(1) c] commit_bot_inv[OF assms(1) c(1)] c(2) v(3) soc by simp
  qed
qed

lemma create_bot_again:
  assumes "users_inv d" "bot_installed app req account d" "valid_client_profile_id (cb_client_profile_id req)"
    and "normalize_bot_config (CreateBot_config req) = Ok config"
  shows "\<exists>b d'. create_bot (Some next_id) app req d = (Ok b, d') \<and> uf_account (br_profile b) = account
    \<and> hkeys (ud_inner d') = hkeys (ud_inner d) \<and> bot_installed app req account d'"
proof -
  obtain rec where f: "find_bot_by_profile (ud_inner d) app (cb_owner req) (cb_client_profile_id req) = Some (account, rec)"
    using assms(2) by (auto simp: bot_installed_def)
  obtain so where so: "ud_social d = Some so" using assms(2) by (auto simp: bot_installed_def friends_of_owner_def split: option.splits)
  have c: "create_bot (Some next_id) app req d = touch_bot app (cb_owner req) account rec config d"
    using assms(2-4) f so by (simp add: create_bot_def bot_installed_def)
  have "\<exists>b d'. touch_bot app (cb_owner req) account rec config d = (Ok b, d')"
    using assms(2) so by (auto simp: touch_bot_def befriend_bot_def ensure_friends_def bot_installed_def)
  then show ?thesis using touch_bot_installed[OF assms(1) f] c by metis
qed

text \<open>A bot is created once per owner and profile. Whatever interleaving of directory operations led
  to the directory, a successful \<open>create_bot\<close> leaves the bot befriended with its owner and the only
  bot of that owner under that profile; a repetition of the call, with any draw of the identifier
  generator and any valid configuration, answers the same account and adds no account.\<close>

theorem create_bot_idempotent:
  assumes "user_reach d" "create_bot idgen app req d = (Ok b, d1)"
    and "cb_owner req2 = cb_owner req" "cb_client_profile_id req2 = cb_client_profile_id req"
    and "normalize_bot_config (CreateBot_config req2) = Ok config2"
  shows "friends_of_owner app (cb_owner req) (uf_account (br_profile b)) d1
    \<and> (\<forall>a r. hget (ud_inner d1) (app, a) = Some r \<longrightarrow> ur_kind r = PROFILE_KIND_BOT \<longrightarrow> ur_owner_account r = cb_owner req
         \<longrightarrow> ur_client_profile_id r = cb_client_profile_id req \<longrightarrow> a = uf_account (br_profile b))
    \<and> (\<exists>b2 d2. create_bot (Some next_id) app req2 d1 = (Ok b2, d2)
         \<and> uf_account (br_profile b2) = uf_account (br_profile b) \<and> hkeys (ud_inner d2) = hkeys (ud_inner d1)
         \<and> friends_of_owner app (cb_owner req) (uf_account (br_profile b)) d2)"
proof -
  note i = create_bot_installed[OF user_reach_inv[OF assms(1)] assms(2)]
  then have inst: "bot_installed app req2 (uf_account (br_profile b)) d1" by (simp add: bot_installed_def assms(3,4))
  obtain rec where f: "find_bot_by_profile (ud_inner d1) app (cb_owner req) (cb_client_profile_id req) = Some (uf_account (br_profile b), rec)"
    using i by (auto simp: bot_installed_def)
  have "a = uf_account (br_profile b)" if "hget (ud_inner d1) (app, a) = Some r" "ur_kind r = PROFILE_KIND_BOT"
    "ur_owner_account r = cb_owner req" "ur_client_profile_id r = cb_client_profile_id req" for a r
    using find_bot_installed[OF _ _ that] f i by (simp add: users_inv_def)
  moreover have "friends_of_owner app (cb_owner req) (uf_account (br_profile b)) d1" using i by (simp add: bot_installed_def)
  ultimately show ?thesis
    using create_bot_again[OF _ inst _ assms(5), of next_id] i by (auto simp: bot_installed_def assms(3,4))
qed

definition demo_bot :: CreateBot where
  "demo_bot = \<lparr>cb_owner = ''alice'', cb_client_profile_id = ''p1'', cb_nickname = [], cb_avatar = [], cb_bio = [],
     cb_model = ''m'', cb_thinking_effort = [], cb_context_tokens = Some 0, cb_visibility = []\<rparr>"

definition demo_config :: BotConfig where
  "demo_config = \<lparr>bc_model = ''m'', bc_thinking_effort = [], bc_context_tokens = None, bc_visibility = ''private''\<rparr>"

lemma demo_bot_config: "normalize_bot_config (CreateBot_config demo_bot) = Ok demo_config"
  by (simp add: normalize_bot_config_def CreateBot_config_def demo_bot_def demo_config_def trim_def ws1_def char_count_def
      BOT_MODEL_MAX_CHARS_def BOT_THINKING_MAX_CHARS_def)

lemma demo_bot_created:
  "\<exists>b d. create_bot (Some (Ok 100)) ''kim'' demo_bot (user_dir_new (Some social_new)) = (Ok b, d)
     \<and> uf_account (br_profile b) = ''b_2S''"
proof -
  let ?d = "user_dir_new (Some social_new)"
  have i: "base36_upper 100 = ''2S''"
    by (simp add: base36_upper_def base36_loop.simps base36_digit_def char_of_def bit_simps)
  have t: "trim [] = []" by (simp add: trim_def)
  have n: "find_bot_by_profile (ud_inner ?d) a b c = None" for a b c by (simp add: user_dir_new_def find_bot_by_profile_def)
  obtain rec where "draft_bot (Ok 100) ''kim'' demo_bot demo_config ?d = Ok (''b_2S'', rec)"
    by (simp add: draft_bot_def count_bots_def user_dir_new_def i demo_bot_def t BOT_MAX_PER_OWNER_def char_count_def)
  moreover have "\<exists>b d. commit_bot ''kim'' demo_bot demo_config (''b_2S'', rec) ?d = (Ok b, d) \<and> uf_account (br_profile b) = ''b_2S''"
    unfolding commit_bot_def n
    by (simp add: user_dir_new_def befriend_bot_def ensure_friends_def demo_bot_def)
  ultimately show ?thesis
    using n by (simp add: create_bot_def demo_bot_config user_dir_new_def)
      (simp add: demo_bot_def valid_client_profile_id_def is_ascii_alnum_def)
qed

theorem create_bot_idempotent_witness:
  "\<exists>b2 d2. create_bot (Some (Ok 7)) ''kim'' demo_bot
      (snd (create_bot (Some (Ok 100)) ''kim'' demo_bot (user_dir_new (Some social_new)))) = (Ok b2, d2)
    \<and> uf_account (br_profile b2) = ''b_2S''"
proof -
  obtain b d where b: "create_bot (Some (Ok 100)) ''kim'' demo_bot (user_dir_new (Some social_new)) = (Ok b, d)"
    "uf_account (br_profile b) = ''b_2S''"
    using demo_bot_created by blast
  show ?thesis
    using create_bot_idempotent[OF user_reach.start b(1) refl refl demo_bot_config, of "Ok 7"] b by auto
qed

section \<open>Token epochs\<close>

lemma with_record_keeps:
  assumes "hget (ud_inner d) k = Some r" "\<And>r. edit_ok r (f r)" "ur_token_epoch r \<le> u32_max"
  shows "\<exists>r'. hget (ud_inner (snd (with_record app account f g d))) k = Some r' \<and> ur_kind r' = ur_kind r
    \<and> ur_token_epoch r \<le> ur_token_epoch r'"
  using assms(1,3) assms(2)[of r] by (auto simp: with_record_def edit_ok_def split: option.splits)

lemma user_step_keeps:
  assumes "user_step d d'" "users_inv d" "hget (ud_inner d) k = Some r" "ur_kind r \<noteq> PROFILE_KIND_BOT"
  shows "\<exists>r'. hget (ud_inner d') k = Some r' \<and> ur_kind r' = ur_kind r \<and> ur_token_epoch r \<le> ur_token_epoch r'"
proof -
  have e: "ur_token_epoch r \<le> u32_max" using assms(2,3) by (cases k) (auto simp: users_inv_def)
  have tb: "\<exists>r'. hget (ud_inner (snd (touch_bot app owner a rec config d))) k = Some r' \<and> ur_kind r' = ur_kind r
      \<and> ur_token_epoch r \<le> ur_token_epoch r'" for app owner a rec config
    using assms(3) by (auto simp: touch_bot_def Let_def split: option.splits)
  note wr = with_record_keeps[OF assms(3) _ e]
  show ?thesis
    using assms(1)
  proof (cases rule: user_step.cases)
    case (commit next_id app req config d0 draft)
    then show ?thesis
      using tb assms(3) by (auto simp: commit_bot_def split: option.splits prod.splits)
  next
    case (profile app account patch)
    then show ?thesis
      using assms(3) by (cases "validate_patch patch") (auto simp: update_profile_def edit_ok_def intro!: wr)
  next
    case (delete app owner account)
    then show ?thesis
      using assms(3,4) by (auto simp: delete_bot_def owned_bot_def split: sum.splits option.splits if_splits)
  next
    case (upsert app account)
    then show ?thesis using assms(3) by (auto simp: user_upsert_def hget_hor_insert)
  next
    case (create app account hash)
    then show ?thesis using assms(3) by (auto simp: user_create_def split: option.splits)
  next
    case (touch app owner account rec config)
    then show ?thesis using tb by simp
  qed (auto simp: set_password_def bump_token_epoch_def set_password_and_bump_epoch_def write_bot_def edit_ok_def
        u32_saturating_add_def intro!: wr)
qed

text \<open>Changing a password invalidates every earlier token, and no later operation revives one. The
  epoch answered by \<open>set_password_and_bump_epoch\<close> for a user account is above the epoch of every token
  issued before it (unless the 32-bit counter is saturated), and after any further operations on the
  directory the account's epoch is still at least that large.\<close>

theorem password_change_revokes:
  assumes "user_reach d" "set_password_and_bump_epoch app account hash d = (Ok e, d1)"
    and "lookup app account d = Some p" "up_kind p \<noteq> PROFILE_KIND_BOT" "token_epoch app account d < u32_max"
    and "user_step\<^sup>*\<^sup>* d1 d2"
  shows "token_epoch app account d < e \<and> e \<le> token_epoch app account d2"
proof -
  obtain r where r: "hget (ud_inner d) (app, account) = Some r" "ur_kind r \<noteq> PROFILE_KIND_BOT"
    using assms(3,4) by (auto simp: lookup_def presence_from_record_def)
  have t: "token_epoch app account d = ur_token_epoch r" using r(1) by (simp add: token_epoch_def)
  have "u32_saturating_add (ur_token_epoch r) 1 = Suc (ur_token_epoch r)"
    using assms(5) unfolding t by (simp add: u32_saturating_add_def)
  then have e: "e = Suc (ur_token_epoch r)"
    and r1: "\<exists>r1. hget (ud_inner d1) (app, account) = Some r1 \<and> ur_kind r1 = ur_kind r \<and> e \<le> ur_token_epoch r1"
    using assms(2) r(1) by (auto simp: set_password_and_bump_epoch_def with_record_def)
  have reach1: "users_inv d1"
    using user_step_inv[OF user_step.password_bump user_reach_inv[OF assms(1)], of app account hash] assms(2) by simp
  have "\<exists>r2. hget (ud_inner d2) (app, account) = Some r2 \<and> ur_kind r2 = ur_kind r \<and> e \<le> ur_token_epoch r2 \<and> users_inv d2"
    using assms(6) r1 reach1
  proof (induction rule: rtranclp_induct)
    case (step y z)
    obtain r2 where r2: "hget (ud_inner y) (app, account) = Some r2" "ur_kind r2 = ur_kind r" "e \<le> ur_token_epoch r2" "users_inv y"
      using step by blast
    then show ?case
      using user_step_keeps[OF step.hyps(2) r2(4,1)] r(2) user_step_inv[OF step.hyps(2) r2(4)] by (auto intro: le_trans)
  qed auto
  then show ?thesis using e t by (auto simp: token_epoch_def)
qed

theorem password_change_revokes_witness:
  "token_epoch ''kim'' ''amy'' (user_upsert ''kim'' ''amy'' (user_dir_new None)) < 1
   \<and> 1 \<le> token_epoch ''kim'' ''amy'' (user_upsert ''kim'' ''amy''
        (snd (set_password_and_bump_epoch ''kim'' ''amy'' ''h'' (user_upsert ''kim'' ''amy'' (user_dir_new None)))))"
proof -
  let ?d = "user_upsert ''kim'' ''amy'' (user_dir_new None)"
  let ?d1 = "snd (set_password_and_bump_epoch ''kim'' ''amy'' ''h'' ?d)"
  have a: "user_reach ?d" by (rule user_reach.step[OF user_reach.start user_step.upsert])
  have b: "set_password_and_bump_epoch ''kim'' ''amy'' ''h'' ?d = (Ok 1, ?d1)"
    by (simp add: set_password_and_bump_epoch_def with_record_def user_upsert_def user_dir_new_def hor_insert_def human_record_def
        u32_saturating_add_def)
  have c: "lookup ''kim'' ''amy'' ?d = Some \<lparr>up_exists = True, up_kind = PROFILE_KIND_USER, up_owner_account = []\<rparr>"
    by (simp add: lookup_def user_upsert_def user_dir_new_def hor_insert_def human_record_def presence_from_record_def)
  have e: "token_epoch ''kim'' ''amy'' ?d < u32_max"
    by (simp add: token_epoch_def user_upsert_def user_dir_new_def hor_insert_def human_record_def)
  show ?thesis
    by (rule password_change_revokes[OF a b c _ e r_into_rtranclp[of user_step, OF user_step.upsert]])
      (simp add: PROFILE_KIND_USER_def PROFILE_KIND_BOT_def)
qed

end
