(* ===== verification/Kim_Router.thy ===== *)
theory Kim_Router
  imports Kim_Protocol Kim_Session
begin

text \<open>
  The request context handed to every command handler and the command router:
  \<open>crates/kim-router/src/context.rs\<close>, \<open>router.rs\<close> and \<open>dispatcher.rs\<close>. A handler's effects on the
  network are the pushes it makes; they are threaded as a log, oldest first. The dispatcher is an
  argument: it decides, from the pushes made so far, whether the next one is accepted. Its real
  implementations are network code.
\<close>

section \<open>Pushes\<close>

datatype RouterError =
    RouterDispatcher string
  | RouterSession SessionError
  | RouterProtocol "string ProtocolError"
  | RouterOther string

record push =
  pu_gateway :: string
  pu_channels :: "string list"
  pu_pkt :: LogicPkt

type_synonym dispatcher = "push list \<Rightarrow> push \<Rightarrow> (RouterError, unit) result"

definition dispatcher_push :: "dispatcher \<Rightarrow> push \<Rightarrow> push list \<Rightarrow> (RouterError, unit) result \<times> push list" where
  "dispatcher_push disp p log = (disp log p, log @ [p])"

record Context =
  cx_request :: LogicPkt
  cx_session :: Session

abbreviation cx_header :: "Context \<Rightarrow> Header" where "cx_header c \<equiv> lp_header (cx_request c)"

section \<open>Responses\<close>

definition response_packet :: "Context \<Rightarrow> Status \<Rightarrow> LogicPkt" where
  "response_packet ctx status =
     (let packet = LogicPkt_new_from (cx_header ctx) in
      packet\<lparr>lp_header := (lp_header packet)\<lparr>h_status := status, h_flag := Response\<rparr>\<rparr>)"

definition push_to_sender :: "dispatcher \<Rightarrow> Context \<Rightarrow> LogicPkt \<Rightarrow> push list \<Rightarrow> (RouterError, unit) result \<times> push list" where
  "push_to_sender disp ctx packet =
     dispatcher_push disp \<lparr>pu_gateway = s_gate_id (cx_session ctx), pu_channels = [s_channel_id (cx_session ctx)], pu_pkt = packet\<rparr>"

text \<open>\<open>resp\<close> takes the encoded body: the encoder is generated code.\<close>

definition resp ::
  "dispatcher \<Rightarrow> Context \<Rightarrow> Status \<Rightarrow> byte list option \<Rightarrow> push list \<Rightarrow> (RouterError, unit) result \<times> push list" where
  "resp disp ctx status body =
     (let packet = response_packet ctx status in
      push_to_sender disp ctx (case body of None \<Rightarrow> packet | Some b \<Rightarrow> LogicPkt_write_body b packet))"

definition resp_bytes ::
  "dispatcher \<Rightarrow> Context \<Rightarrow> Status \<Rightarrow> byte list \<Rightarrow> push list \<Rightarrow> (RouterError, unit) result \<times> push list" where
  "resp_bytes disp ctx status body =
     (let packet = response_packet ctx status in
      push_to_sender disp ctx
        (packet\<lparr>lp_header := (lp_header packet)\<lparr>h_body_length := word_of_nat (length body)\<rparr>, lp_body := body\<rparr>))"

definition resp_with_error ::
  "dispatcher \<Rightarrow> Context \<Rightarrow> Status \<Rightarrow> push list \<Rightarrow> (RouterError, unit) result \<times> push list" where
  "resp_with_error disp ctx status = resp_bytes disp ctx status []"

section \<open>Dispatching to locations\<close>

fun group_recvs ::
  "string \<Rightarrow> Location list \<Rightarrow> (string, string list) hmap \<times> string list \<Rightarrow> (string, string list) hmap \<times> string list" where
  "group_recvs own [] (grp, order) = (grp, order)"
| "group_recvs own (recv # recvs) (grp, order) =
     (if l_channel_id recv = own then group_recvs own recvs (grp, order)
      else case hget grp (l_gate_id recv) of
          None \<Rightarrow> group_recvs own recvs (hput (l_gate_id recv) [l_channel_id recv] grp, order @ [l_gate_id recv])
        | Some ids \<Rightarrow> group_recvs own recvs (hput (l_gate_id recv) (ids @ [l_channel_id recv]) grp, order))"

fun push_gateways ::
  "dispatcher \<Rightarrow> LogicPkt \<Rightarrow> (string, string list) hmap \<Rightarrow> string list \<Rightarrow> RouterError option \<Rightarrow> push list
   \<Rightarrow> RouterError option \<times> push list" where
  "push_gateways disp packet grp [] first_err log = (first_err, log)"
| "push_gateways disp packet grp (gw # order) first_err log =
     (case hget grp gw of
        None \<Rightarrow> push_gateways disp packet grp order first_err log
      | Some ids \<Rightarrow>
          let (r, log') = dispatcher_push disp \<lparr>pu_gateway = gw, pu_channels = ids, pu_pkt = packet\<rparr> log in
          push_gateways disp packet grp order
            (case (r, first_err) of (Inl e, None) \<Rightarrow> Some e | _ \<Rightarrow> first_err) log')"

definition push_packet :: "Context \<Rightarrow> string \<Rightarrow> byte list \<Rightarrow> LogicPkt" where
  "push_packet ctx command body =
     (let packet = LogicPkt_new_from (cx_header ctx) in
      LogicPkt_write_body body (packet\<lparr>lp_header := (lp_header packet)\<lparr>h_command := command, h_flag := Push\<rparr>\<rparr>))"

definition dispatch_cmd ::
  "dispatcher \<Rightarrow> Context \<Rightarrow> string \<Rightarrow> byte list \<Rightarrow> Location list \<Rightarrow> push list
   \<Rightarrow> (RouterError, unit) result \<times> push list" where
  "dispatch_cmd disp ctx command body recvs log =
     (if recvs = [] then (Ok (), log)
      else
        let packet = push_packet ctx command body;
            (grp, order) = group_recvs (s_channel_id (cx_session ctx)) recvs ([], []);
            (first_err, log') = push_gateways disp packet grp order None log
        in (case first_err of Some e \<Rightarrow> Err e | None \<Rightarrow> Ok (), log'))"

definition dispatch ::
  "dispatcher \<Rightarrow> Context \<Rightarrow> byte list \<Rightarrow> Location list \<Rightarrow> push list \<Rightarrow> (RouterError, unit) result \<times> push list" where
  "dispatch disp ctx = dispatch_cmd disp ctx (h_command (cx_header ctx))"

section \<open>The router\<close>

text \<open>A handler works on some state \<open>'s\<close> of the service; the router's table maps commands to handlers.\<close>

type_synonym 's handler = "Context \<Rightarrow> 's \<Rightarrow> push list \<Rightarrow> (RouterError, unit) result \<times> 's \<times> push list"

definition router_handle :: "Command \<Rightarrow> 's handler \<Rightarrow> (Command, 's handler) hmap \<Rightarrow> (Command, 's handler) hmap" where
  "router_handle command f handlers = hput command f handlers"

definition serve :: "dispatcher \<Rightarrow> (Command, 's handler) hmap \<Rightarrow> LogicPkt \<Rightarrow> Session \<Rightarrow> 's \<Rightarrow> push list
   \<Rightarrow> (RouterError, unit) result \<times> 's \<times> push list" where
  "serve disp handlers packet session s log =
     (let ctx = \<lparr>cx_request = packet, cx_session = session\<rparr>;
          handler = (case Command_parse (h_command (lp_header packet)) of None \<Rightarrow> None | Some cmd \<Rightarrow> hget handlers cmd)
      in case handler of
           Some f \<Rightarrow> f ctx s log
         | None \<Rightarrow> let (r, log') = resp_bytes disp ctx CommandNotFound [] log in (r, s, log'))"

section \<open>What a dispatch sends\<close>

text \<open>The channels of one gateway among the receivers, the sender's own channel left out.\<close>

definition gateway_channels :: "string \<Rightarrow> Location list \<Rightarrow> string \<Rightarrow> string list" where
  "gateway_channels own recvs gw = map l_channel_id (filter (\<lambda>l. l_channel_id l \<noteq> own \<and> l_gate_id l = gw) recvs)"

definition group_ok :: "(string, string list) hmap \<times> string list \<Rightarrow> bool" where
  "group_ok st \<longleftrightarrow> distinct (snd st) \<and> (\<forall>gw. hget (fst st) gw \<noteq> None \<longleftrightarrow> gw \<in> set (snd st))"

lemma group_okD: "group_ok (grp, order) \<Longrightarrow> gw \<in> set order \<Longrightarrow> \<exists>ids. hget grp gw = Some ids"
  by (auto simp: group_ok_def)

lemma group_recvs_spec:
  assumes "group_ok (grp, order)" "group_recvs own recvs (grp, order) = (grp', order')"
  shows "group_ok (grp', order') \<and> set order' = set order \<union> l_gate_id ` {l \<in> set recvs. l_channel_id l \<noteq> own}
    \<and> (\<forall>gw \<in> set order'. hget grp' gw
         = Some ((case hget grp gw of None \<Rightarrow> [] | Some ids \<Rightarrow> ids) @ gateway_channels own recvs gw))"
  using assms
proof (induction own recvs "(grp, order)" arbitrary: grp order rule: group_recvs.induct)
  case (1 own grp order)
  then show ?case using group_okD[OF 1(1)] by (auto simp: gateway_channels_def split: option.split)
next
  case (2 own recv recvs grp order)
  show ?case
  proof (cases "l_channel_id recv = own")
    case True
    then show ?thesis using 2 by (auto simp: gateway_channels_def)
  next
    case own: False
    show ?thesis
    proof (cases "hget grp (l_gate_id recv)")
      case None
      have ok: "group_ok (hput (l_gate_id recv) [l_channel_id recv] grp, order @ [l_gate_id recv])"
        using 2(4) None group_okD[OF 2(4), of "l_gate_id recv"] by (auto simp: group_ok_def)
      show ?thesis using 2(2)[OF own None ok] 2(5) own None by (auto simp: gateway_channels_def)
    next
      case (Some ids)
      have ok: "group_ok (hput (l_gate_id recv) (ids @ [l_channel_id recv]) grp, order)"
        using 2(4) Some by (auto simp: group_ok_def)
      have "l_gate_id recv \<in> set order" using 2(4) Some by (auto simp: group_ok_def)
      then show ?thesis using 2(3)[OF own Some ok] 2(5) own Some by (auto simp: gateway_channels_def)
    qed
  qed
qed

lemma push_gateways_log:
  assumes "\<And>gw. gw \<in> set order \<Longrightarrow> hget grp gw = Some (ids gw)"
  shows "snd (push_gateways disp packet grp order e log)
    = log @ map (\<lambda>gw. \<lparr>pu_gateway = gw, pu_channels = ids gw, pu_pkt = packet\<rparr>) order"
  using assms
proof (induction order arbitrary: e log)
  case (Cons gw order)
  then show ?case by (simp add: dispatcher_push_def Let_def)
qed simp

lemma push_gateways_err:
  "fst (push_gateways disp packet grp order (Some e) log) = Some e"
  by (induction order arbitrary: log) (auto simp: dispatcher_push_def Let_def split: option.splits sum.splits)

lemma push_gateways_ok:
  assumes "\<And>gw. gw \<in> set order \<Longrightarrow> hget grp gw = Some (ids gw)"
  shows "fst (push_gateways disp packet grp order None log) = None \<longleftrightarrow>
    (\<forall>i < length order. disp (log @ map (\<lambda>gw. \<lparr>pu_gateway = gw, pu_channels = ids gw, pu_pkt = packet\<rparr>) (take i order))
        \<lparr>pu_gateway = order ! i, pu_channels = ids (order ! i), pu_pkt = packet\<rparr> = Ok ())"
  using assms
proof (induction order arbitrary: log)
  case (Cons gw order)
  let ?p = "\<lparr>pu_gateway = gw, pu_channels = ids gw, pu_pkt = packet\<rparr>"
  show ?case
    using Cons.IH[of "log @ [?p]"] Cons.prems
    by (cases "disp log ?p") (auto simp: dispatcher_push_def Let_def push_gateways_err nth_Cons' less_Suc_eq_0_disj)
qed simp

abbreviation gateway_push :: "Context \<Rightarrow> string \<Rightarrow> byte list \<Rightarrow> Location list \<Rightarrow> string \<Rightarrow> push" where
  "gateway_push ctx command body recvs gw \<equiv>
     \<lparr>pu_gateway = gw, pu_channels = gateway_channels (s_channel_id (cx_session ctx)) recvs gw,
      pu_pkt = push_packet ctx command body\<rparr>"

lemma dispatch_cmd_gateways:
  "\<exists>gws. distinct gws
     \<and> set gws = l_gate_id ` {l \<in> set recvs. l_channel_id l \<noteq> s_channel_id (cx_session ctx)}
     \<and> snd (dispatch_cmd disp ctx command body recvs log) = log @ map (gateway_push ctx command body recvs) gws
     \<and> (fst (dispatch_cmd disp ctx command body recvs log) = Ok () \<longleftrightarrow>
          (\<forall>i < length gws. disp (log @ map (gateway_push ctx command body recvs) (take i gws))
             (gateway_push ctx command body recvs (gws ! i)) = Ok ()))"
proof (cases "recvs = []")
  case True
  then show ?thesis by (intro exI[of _ "[]"]) (simp add: dispatch_cmd_def)
next
  case False
  let ?own = "s_channel_id (cx_session ctx)"
  obtain grp order where g: "group_recvs ?own recvs ([], []) = (grp, order)" by fastforce
  have sp: "group_ok (grp, order)" "set order = l_gate_id ` {l \<in> set recvs. l_channel_id l \<noteq> ?own}"
    "\<And>gw. gw \<in> set order \<Longrightarrow> hget grp gw = Some (gateway_channels ?own recvs gw)"
    using group_recvs_spec[OF _ g] by (simp_all add: group_ok_def)
  obtain fe log' where pg: "push_gateways disp (push_packet ctx command body) grp order None log = (fe, log')" by fastforce
  have d: "dispatch_cmd disp ctx command body recvs log = (case fe of Some e \<Rightarrow> Err e | None \<Rightarrow> Ok (), log')"
    using False by (simp add: dispatch_cmd_def Let_def g pg)
  have ok: "fst (dispatch_cmd disp ctx command body recvs log) = Ok () \<longleftrightarrow> fe = None"
    by (simp add: d split: option.splits)
  have l: "snd (push_gateways disp (push_packet ctx command body) grp order None log)
      = log @ map (gateway_push ctx command body recvs) order"
    by (rule push_gateways_log) (rule sp(3))
  have k: "fst (push_gateways disp (push_packet ctx command body) grp order None log) = None \<longleftrightarrow>
      (\<forall>i < length order. disp (log @ map (gateway_push ctx command body recvs) (take i order))
         (gateway_push ctx command body recvs (order ! i)) = Ok ())"
    by (rule push_gateways_ok) (rule sp(3))
  show ?thesis
    using sp(1,2) l k pg unfolding ok by (intro exI[of _ order]) (simp add: d group_ok_def)
qed

text \<open>A dispatch reaches every addressed device exactly once. The pushes it makes are one per gateway
  that has a receiver other than the sender's own channel, in some order without repetition; the push
  to a gateway carries exactly that gateway's receiving channels in the order given, with the request's
  header, the given command, the push flag and the body; a rejected push does not stop the others, and
  the answer is an error exactly when some push was rejected.\<close>

theorem dispatch_exact:
  "\<exists>gws. distinct gws
     \<and> set gws = l_gate_id ` {l \<in> set recvs. l_channel_id l \<noteq> s_channel_id (cx_session ctx)}
     \<and> snd (dispatch_cmd disp ctx command body recvs log) = log @ map (\<lambda>gw.
          \<lparr>pu_gateway = gw,
           pu_channels = map l_channel_id (filter (\<lambda>l. l_channel_id l \<noteq> s_channel_id (cx_session ctx) \<and> l_gate_id l = gw) recvs),
           pu_pkt = \<lparr>lp_header = (cx_header ctx)\<lparr>h_command := command, h_flag := Push, h_body_length := word_of_nat (length body)\<rparr>,
                    lp_body = body\<rparr>\<rparr>) gws
     \<and> (fst (dispatch_cmd disp ctx command body recvs log) = Ok () \<longleftrightarrow>
          (\<forall>i < length gws. disp (take (length log + i) (snd (dispatch_cmd disp ctx command body recvs log)))
             (snd (dispatch_cmd disp ctx command body recvs log) ! (length log + i)) = Ok ()))"
proof -
  obtain gws where g: "distinct gws" "set gws = l_gate_id ` {l \<in> set recvs. l_channel_id l \<noteq> s_channel_id (cx_session ctx)}"
    "snd (dispatch_cmd disp ctx command body recvs log) = log @ map (gateway_push ctx command body recvs) gws"
    "fst (dispatch_cmd disp ctx command body recvs log) = Ok () \<longleftrightarrow>
       (\<forall>i < length gws. disp (log @ map (gateway_push ctx command body recvs) (take i gws))
          (gateway_push ctx command body recvs (gws ! i)) = Ok ())"
    using dispatch_cmd_gateways by blast
  show ?thesis
    by (rule exI[of _ gws])
      (simp add: g take_map push_packet_def LogicPkt_new_from_def LogicPkt_write_body_def Let_def gateway_channels_def)
qed

definition demo_ctx :: Context where
  "demo_ctx = \<lparr>cx_request = LogicPkt_new ''chat.user.talk'' 1 [], cx_session = demo_session\<rparr>"

definition demo_loc :: Location where
  "demo_loc = \<lparr>l_channel_id = ''x'', l_gate_id = ''g'', l_device = [], l_jti = []\<rparr>"

theorem dispatch_exact_witness:
  "map pu_channels (snd (dispatch_cmd (\<lambda>_ _. Ok ()) demo_ctx ''c'' [] [demo_loc] [])) = [[''x'']]"
proof -
  have own: "s_channel_id (cx_session demo_ctx) \<noteq> ''x''" by (simp add: demo_ctx_def demo_session_def)
  have one: "{l \<in> set [demo_loc]. l_channel_id l \<noteq> s_channel_id (cx_session demo_ctx)} = {demo_loc}"
    using own by (auto simp: demo_loc_def)
  obtain gws where "distinct gws" "set gws = {''g''}"
    "map pu_channels (snd (dispatch_cmd (\<lambda>_ _. Ok ()) demo_ctx ''c'' [] [demo_loc] []))
       = map (\<lambda>gw. if gw = ''g'' then [''x''] else []) gws"
    using dispatch_exact[of "[demo_loc]" demo_ctx "\<lambda>_ _. Ok ()" "''c''" "[]" "[]"] own unfolding one
    by (fastforce simp: demo_loc_def comp_def)
  then show ?thesis by (cases gws; cases "tl gws") auto
qed

end
