(* ===== verification/Kim_Talk.thy ===== *)
theory Kim_Talk
  imports Kim_Router Kim_Users Kim_Message_Query
begin

text \<open>
  Sending a message: the content filters of \<open>services/chat/src/filter.rs\<close> and the talk handlers of
  \<open>services/chat/src/talk.rs\<close>. A handler reads the directories, stores the message, answers the
  sender and pushes to the recipients' devices. What it calls through trait objects (directories,
  store, filter, dispatcher), the generated codecs of message bodies and the outcomes of its timers
  are the fields of one record; the record is then built from the in-memory components.
\<close>

section \<open>Messages and filters\<close>

record MessageReq =
  mr_type :: int
  mr_body :: string
  mr_extra :: string
  mr_client_id :: string

record MessageResp =
  mrs_message_id :: int
  mrs_send_time :: int

record MessagePush =
  mp_message_id :: int
  mp_type :: int
  mp_body :: string
  mp_extra :: string
  mp_sender :: string
  mp_send_time :: int

definition MESSAGE_TYPE_TEXT :: int where "MESSAGE_TYPE_TEXT = 1"
definition MESSAGE_TYPE_IMAGE :: int where "MESSAGE_TYPE_IMAGE = 2"

type_synonym content_filter = "MessageReq \<Rightarrow> (Status, unit) result"

text \<open>\<open>str::contains\<close>.\<close>

fun str_contains :: "string \<Rightarrow> string \<Rightarrow> bool" where
  "str_contains [] w = (w = [])"
| "str_contains (c # s) w = (take (length w) (c # s) = w \<or> str_contains s w)"

definition NoopFilter :: content_filter where
  "NoopFilter req = Ok ()"

definition TextWordFilter :: "string list \<Rightarrow> content_filter" where
  "TextWordFilter words req =
     (if mr_type req \<noteq> MESSAGE_TYPE_TEXT then Ok ()
      else if list_ex (\<lambda>w. str_contains (mr_body req) w) (filter (\<lambda>w. w \<noteq> []) words) then Err ContentBlocked
      else Ok ())"

definition ImageFilter :: "string list \<Rightarrow> content_filter" where
  "ImageFilter blocked req =
     (if mr_type req \<noteq> MESSAGE_TYPE_IMAGE then Ok ()
      else if list_ex (\<lambda>w. str_contains (mr_body req) w \<or> str_contains (mr_extra req) w) (filter (\<lambda>w. w \<noteq> []) blocked)
        then Err ContentBlocked
      else Ok ())"

fun FilterChain :: "content_filter list \<Rightarrow> content_filter" where
  "FilterChain [] req = Ok ()"
| "FilterChain (f # fs) req = res_bind (f req) (\<lambda>_. FilterChain fs req)"

definition builtin_talk_filter :: "string list \<Rightarrow> string list \<Rightarrow> content_filter" where
  "builtin_talk_filter text_words image_blocked = FilterChain [TextWordFilter text_words, ImageFilter image_blocked]"

section \<open>What a handler calls\<close>

text \<open>
  The timers: \<open>td_directory_late\<close> says that the 800 ms budget passes during the directory calls,
  \<open>td_targets_late\<close> that the 200 ms of the target lookup pass, and \<open>td_push_cut = Some n\<close> that the
  push budget ends after \<open>n\<close> gateway pushes.
\<close>

record 's talk_deps =
  td_filter :: content_filter
  td_lookup :: "string \<Rightarrow> string \<Rightarrow> (UserError, UserPresence option) result"
  td_is_blocked_either :: "string \<Rightarrow> string \<Rightarrow> string \<Rightarrow> (SocialError, bool) result"
  td_is_friend :: "string \<Rightarrow> string \<Rightarrow> string \<Rightarrow> (SocialError, bool) result"
  td_members :: "string \<Rightarrow> string \<Rightarrow> (GroupError, string list) result"
  td_get_locations :: "string list \<Rightarrow> (SessionError, Location list) result"
  td_insert :: "string \<Rightarrow> MessageKind \<Rightarrow> InsertMessage \<Rightarrow> string list \<Rightarrow> 's \<Rightarrow> (StoreError, InsertResult) result \<times> 's"
  td_dispatcher :: dispatcher
  td_dec_req :: "byte list \<Rightarrow> (string ProtocolError, MessageReq) result"
  td_enc_resp :: "MessageResp \<Rightarrow> byte list"
  td_enc_push :: "MessagePush \<Rightarrow> byte list"
  td_unix_nano :: int
  td_directory_late :: bool
  td_targets_late :: bool
  td_push_cut :: "nat option"

definition talk_fail :: "'s talk_deps \<Rightarrow> Status \<Rightarrow> 's handler" where
  "talk_fail deps status ctx s log =
     (let (r, log') = resp_with_error (td_dispatcher deps) ctx status log in (r, s, log'))"

definition fanout_matches_req :: "MessageKind \<Rightarrow> string \<Rightarrow> MessageReq \<Rightarrow> Fanout \<Rightarrow> bool" where
  "fanout_matches_req kind dest req f \<longleftrightarrow> fo_kind f = kind \<and> fo_dest f = dest \<and> fo_msg_type f = mr_type req
     \<and> fo_body f = mr_body req \<and> fo_extra f = mr_extra req"

definition account_targets :: "'s talk_deps \<Rightarrow> string \<Rightarrow> DeliveryTarget list" where
  "account_targets deps account =
     (case td_get_locations deps [account] of
        Inl _ \<Rightarrow> []
      | Inr locs \<Rightarrow> map (\<lambda>l. \<lparr>dt_account = account, dt_target_id = l_jti l\<rparr>) (filter (\<lambda>l. l_jti l \<noteq> []) locs))"

definition fallback_targets :: "'s talk_deps \<Rightarrow> string list \<Rightarrow> DeliveryTarget list" where
  "fallback_targets deps accounts =
     (if td_targets_late deps then [] else concat (map (account_targets deps) accounts))"

text \<open>The push phase: what has been pushed when it ends or its budget does.\<close>

definition push_recipients :: "'s talk_deps \<Rightarrow> Context \<Rightarrow> InsertResult \<Rightarrow> string \<Rightarrow> push list \<Rightarrow> push list" where
  "push_recipients deps ctx inserted push_command log =
     (let f = res_fanout inserted;
          body = td_enc_push deps \<lparr>mp_message_id = res_message_id inserted, mp_type = fo_msg_type f, mp_body = fo_body f,
            mp_extra = fo_extra f, mp_sender = fo_sender f, mp_send_time = res_send_time inserted\<rparr>;
          accounts = unique_accounts (fo_recipients f)
      in if accounts = [] then log
         else
           let locs = (case td_get_locations deps accounts of Inr v \<Rightarrow> v | Inl _ \<Rightarrow> []) in
           if locs = [] then log
           else
             let log' = snd (dispatch_cmd (td_dispatcher deps) ctx push_command body locs log) in
             case td_push_cut deps of None \<Rightarrow> log' | Some n \<Rightarrow> take (length log + n) log')"

definition persist_then_push :: "'s talk_deps \<Rightarrow> InsertResult \<Rightarrow> string \<Rightarrow> 's handler" where
  "persist_then_push deps inserted push_command ctx s log =
     (case resp (td_dispatcher deps) ctx Success
          (Some (td_enc_resp deps \<lparr>mrs_message_id = res_message_id inserted, mrs_send_time = res_send_time inserted\<rparr>)) log of
        (Inl e, log') \<Rightarrow> (Err e, s, log')
      | (Inr _, log') \<Rightarrow> (Ok (), s, push_recipients deps ctx inserted push_command log'))"

text \<open>The part both handlers share: insert, refuse a reused client identifier with other content,
  answer and push.\<close>

definition talk_insert ::
  "'s talk_deps \<Rightarrow> MessageKind \<Rightarrow> MessageReq \<Rightarrow> string list \<Rightarrow> DeliveryTarget list \<Rightarrow> 's handler" where
  "talk_insert deps kind req members online_targets ctx s log =
     (let dest = h_dest (cx_header ctx);
          (r, s') = td_insert deps (s_app (cx_session ctx)) kind
            \<lparr>im_sender = s_account (cx_session ctx), im_dest = dest, im_send_time = td_unix_nano deps,
             im_msg_type = mr_type req, im_body = mr_body req, im_extra = mr_extra req,
             im_client_id = mr_client_id req, im_online_targets = online_targets\<rparr> members s
      in case r of
           Inl _ \<Rightarrow> talk_fail deps SystemException ctx s' log
         | Inr inserted \<Rightarrow>
             if res_duplicate inserted \<and> \<not> fanout_matches_req kind dest req (res_fanout inserted) then
               (let (r, log') = resp (td_dispatcher deps) ctx IdempotencyConflict None log in (r, s', log'))
             else persist_then_push deps inserted (h_command (cx_header ctx)) ctx s' log)"

section \<open>The handlers\<close>

text \<open>The directory checks of \<open>do_user_talk\<close>: a status to refuse with, or whether the receiver is the
  sender's own bot.\<close>

definition user_directory_check :: "'s talk_deps \<Rightarrow> Context \<Rightarrow> string \<Rightarrow> (Status, bool) result" where
  "user_directory_check deps ctx receiver =
     (let app = s_app (cx_session ctx); account = s_account (cx_session ctx) in
      res_bind
        (case td_lookup deps app receiver of
           Inr (Some p) \<Rightarrow>
             if up_exists p then
               if up_kind p = PROFILE_KIND_BOT \<and> up_owner_account p \<noteq> account then Err UserNotFound
               else Ok (up_kind p = PROFILE_KIND_BOT \<and> up_owner_account p = account)
             else Err UserNotFound
         | Inr None \<Rightarrow> Err UserNotFound
         | Inl _ \<Rightarrow> Err SystemException)
        (\<lambda>own_bot.
           if receiver = account then Ok own_bot
           else case td_is_blocked_either deps app account receiver of
               Inr True \<Rightarrow> Err Blocked
             | Inl _ \<Rightarrow> Err SystemException
             | Inr False \<Rightarrow>
                 (case td_is_friend deps app account receiver of
                    Inr True \<Rightarrow> Ok own_bot
                  | Inr False \<Rightarrow> Err NotFriends
                  | Inl _ \<Rightarrow> Err SystemException)))"

definition do_user_talk :: "'s talk_deps \<Rightarrow> 's handler" where
  "do_user_talk deps ctx s log =
     (if h_dest (cx_header ctx) = [] then talk_fail deps NoDestination ctx s log
      else case td_dec_req deps (lp_body (cx_request ctx)) of
          Inl _ \<Rightarrow> talk_fail deps InvalidPacketBody ctx s log
        | Inr req \<Rightarrow>
            (case td_filter deps req of
               Inl status \<Rightarrow> talk_fail deps status ctx s log
             | Inr _ \<Rightarrow>
                 let receiver = h_dest (cx_header ctx) in
                 if td_directory_late deps then talk_fail deps SystemException ctx s log
                 else case user_directory_check deps ctx receiver of
                     Inl status \<Rightarrow> talk_fail deps status ctx s log
                   | Inr own_bot \<Rightarrow>
                       let target_account = (if own_bot then s_account (cx_session ctx) else receiver) in
                       talk_insert deps UserMsg req [] (fallback_targets deps [target_account]) ctx s log))"

definition do_group_talk :: "'s talk_deps \<Rightarrow> 's handler" where
  "do_group_talk deps ctx s log =
     (if h_dest (cx_header ctx) = [] then talk_fail deps NoDestination ctx s log
      else case td_dec_req deps (lp_body (cx_request ctx)) of
          Inl _ \<Rightarrow> talk_fail deps InvalidPacketBody ctx s log
        | Inr req \<Rightarrow>
            (case td_filter deps req of
               Inl status \<Rightarrow> talk_fail deps status ctx s log
             | Inr _ \<Rightarrow>
                 (case td_members deps (s_app (cx_session ctx)) (h_dest (cx_header ctx)) of
                    Inl GroupNotFound \<Rightarrow> talk_fail deps NotGroupMember ctx s log
                  | Inl _ \<Rightarrow> talk_fail deps SystemException ctx s log
                  | Inr members \<Rightarrow>
                      if s_account (cx_session ctx) \<notin> set members then talk_fail deps NotGroupMember ctx s log
                      else
                        let recv = filter (\<lambda>m. m \<noteq> s_account (cx_session ctx)) members in
                        talk_insert deps GroupMsg req members (fallback_targets deps recv) ctx s log)))"

section \<open>Responses\<close>

definition error_response :: "Context \<Rightarrow> Status \<Rightarrow> push" where
  "error_response ctx status = \<lparr>pu_gateway = s_gate_id (cx_session ctx), pu_channels = [s_channel_id (cx_session ctx)],
     pu_pkt = response_packet ctx status\<rparr>"

definition ack_response :: "'s talk_deps \<Rightarrow> Context \<Rightarrow> int \<Rightarrow> int \<Rightarrow> push" where
  "ack_response deps ctx mid send_time =
     \<lparr>pu_gateway = s_gate_id (cx_session ctx), pu_channels = [s_channel_id (cx_session ctx)],
      pu_pkt = LogicPkt_write_body (td_enc_resp deps \<lparr>mrs_message_id = mid, mrs_send_time = send_time\<rparr>) (response_packet ctx Success)\<rparr>"

lemma response_packet_simps [simp]:
  "lp_body (response_packet ctx status) = []" "h_body_length (lp_header (response_packet ctx status)) = 0"
  "h_status (lp_header (response_packet ctx status)) = status"
  by (simp_all add: response_packet_def LogicPkt_new_from_def Let_def)

lemma resp_simps:
  "snd (resp_with_error disp ctx status log) = log @ [error_response ctx status]"
  "snd (resp disp ctx status None log) = log @ [error_response ctx status]"
  "snd (resp (td_dispatcher deps) ctx Success (Some (td_enc_resp deps \<lparr>mrs_message_id = m, mrs_send_time = t\<rparr>)) log) = log @ [ack_response deps ctx m t]"
  by (simp_all add: resp_with_error_def resp_bytes_def resp_def push_to_sender_def dispatcher_push_def Let_def
      error_response_def ack_response_def LogicPkt.defs)

lemma talk_fail_eq: "talk_fail deps status ctx s log = (r, s', log') \<Longrightarrow> s' = s \<and> log' = log @ [error_response ctx status]"
  using resp_simps(1)[of "td_dispatcher deps" ctx status log] by (auto simp: talk_fail_def split: prod.splits)

lemma dispatch_cmd_log: "\<exists>rest. snd (dispatch_cmd disp ctx command body recvs log) = log @ rest"
  using dispatch_cmd_gateways[of recvs ctx disp command body log] by blast

lemma push_recipients_log: "\<exists>rest. push_recipients deps ctx inserted command log = log @ rest"
proof -
  define body where "body = td_enc_push deps \<lparr>mp_message_id = res_message_id inserted, mp_type = fo_msg_type (res_fanout inserted),
     mp_body = fo_body (res_fanout inserted), mp_extra = fo_extra (res_fanout inserted), mp_sender = fo_sender (res_fanout inserted),
     mp_send_time = res_send_time inserted\<rparr>"
  define locs where "locs = (case td_get_locations deps (unique_accounts (fo_recipients (res_fanout inserted))) of Inr v \<Rightarrow> v | Inl _ \<Rightarrow> [])"
  obtain rest where r: "snd (dispatch_cmd (td_dispatcher deps) ctx command body locs log) = log @ rest"
    using dispatch_cmd_log by blast
  have "push_recipients deps ctx inserted command log
      = (if unique_accounts (fo_recipients (res_fanout inserted)) = [] \<or> locs = [] then log
         else case td_push_cut deps of None \<Rightarrow> log @ rest | Some n \<Rightarrow> log @ take n rest)"
    by (simp add: push_recipients_def Let_def body_def[symmetric] locs_def[symmetric] r split: option.split)
  then show ?thesis by (cases "td_push_cut deps") auto
qed

lemma persist_then_push_log:
  assumes "persist_then_push deps inserted command ctx s log = (r, s', log')"
  shows "s' = s \<and> (\<exists>rest. log' = log @ ack_response deps ctx (res_message_id inserted) (res_send_time inserted) # rest)"
proof -
  let ?a = "ack_response deps ctx (res_message_id inserted) (res_send_time inserted)"
  obtain q log1 where q: "resp (td_dispatcher deps) ctx Success (Some (td_enc_resp deps
      \<lparr>mrs_message_id = res_message_id inserted, mrs_send_time = res_send_time inserted\<rparr>)) log = (q, log1)" by fastforce
  then have l: "log1 = log @ [?a]"
    using resp_simps(3)[of deps ctx "res_message_id inserted" "res_send_time inserted" log] by simp
  obtain rest where rest: "push_recipients deps ctx inserted command log1 = log1 @ rest" using push_recipients_log by blast
  show ?thesis
  proof (cases q)
    case (Inl e)
    then have "s' = s" "log' = log @ [?a]" using assms q l by (auto simp: persist_then_push_def)
    then show ?thesis by simp
  next
    case (Inr u)
    then show ?thesis using assms q rest by (auto simp: persist_then_push_def l)
  qed
qed

section \<open>The store as the handlers see it\<close>

text \<open>A fanout describes a stored message; one without a destination is the fanout of a message whose
  index rows are gone, and then it names neither sides nor kind.\<close>

definition fanout_describes :: "StoredMessage \<Rightarrow> Fanout \<Rightarrow> bool" where
  "fanout_describes c f \<longleftrightarrow> fo_msg_type f = sm_msg_type c \<and> fo_body f = sm_body c \<and> fo_extra f = sm_extra c
     \<and> (fo_dest f \<noteq> [] \<longrightarrow> fo_kind f = sm_kind c \<and> fo_dest f = sm_dest c \<and> fo_sender f = sm_sender c)"

locale message_sink =
  fixes insert_m :: "string \<Rightarrow> MessageKind \<Rightarrow> InsertMessage \<Rightarrow> string list \<Rightarrow> 's \<Rightarrow> (StoreError, InsertResult) result \<times> 's"
    and good :: "'s \<Rightarrow> bool"
    and stored :: "'s \<Rightarrow> int \<Rightarrow> StoredMessage option"
  assumes insert_new: "good s \<Longrightarrow> insert_m app kind im ms s = (Ok res, s') \<Longrightarrow> \<not> res_duplicate res \<Longrightarrow>
      stored s (res_message_id res) = None \<and> stored s' = (stored s)(res_message_id res \<mapsto> insert_content app kind im (res_message_id res))
      \<and> res_send_time res = im_send_time im"
    and insert_dup: "good s \<Longrightarrow> insert_m app kind im ms s = (Ok res, s') \<Longrightarrow> res_duplicate res \<Longrightarrow>
      stored s' = stored s \<and> (\<exists>c. stored s (res_message_id res) = Some c \<and> sm_app c = app \<and> sm_sender c = im_sender im
        \<and> sm_send_time c = res_send_time res \<and> fanout_describes c (res_fanout res))"
    and insert_err: "good s \<Longrightarrow> insert_m app kind im ms s = (Err e, s') \<Longrightarrow> stored s' = stored s"

definition message_of :: "Context \<Rightarrow> MessageKind \<Rightarrow> MessageReq \<Rightarrow> StoredMessage \<Rightarrow> bool" where
  "message_of ctx kind req c \<longleftrightarrow> sm_app c = s_app (cx_session ctx) \<and> sm_kind c = kind
     \<and> sm_sender c = s_account (cx_session ctx) \<and> sm_dest c = h_dest (cx_header ctx)
     \<and> sm_msg_type c = mr_type req \<and> sm_body c = mr_body req \<and> sm_extra c = mr_extra req"

text \<open>The two outcomes of a talk request, in terms of the messages stored before and after.\<close>

definition talk_refused :: "Context \<Rightarrow> (int \<Rightarrow> StoredMessage option) \<Rightarrow> (int \<Rightarrow> StoredMessage option) \<Rightarrow> push list \<Rightarrow> push list \<Rightarrow> bool" where
  "talk_refused ctx m m' log log' \<longleftrightarrow> m' = m \<and> (\<exists>status. status \<noteq> Success \<and> log' = log @ [error_response ctx status])"

definition talk_acknowledged ::
  "'s talk_deps \<Rightarrow> Context \<Rightarrow> MessageKind \<Rightarrow> MessageReq \<Rightarrow> (int \<Rightarrow> StoredMessage option) \<Rightarrow> (int \<Rightarrow> StoredMessage option)
   \<Rightarrow> push list \<Rightarrow> push list \<Rightarrow> bool" where
  "talk_acknowledged deps ctx kind req m m' log log' \<longleftrightarrow>
     (\<exists>mid c rest. m' mid = Some c \<and> message_of ctx kind req c \<and> (m' = m \<or> m mid = None \<and> m' = m(mid \<mapsto> c))
        \<and> log' = log @ ack_response deps ctx mid (sm_send_time c) # rest)"

lemma talk_refused_fail:
  "talk_fail deps status ctx s log = (r, s', log') \<Longrightarrow> status \<noteq> Success \<Longrightarrow> talk_refused ctx (st s) (st s') log log'"
  by (auto simp: talk_refused_def dest!: talk_fail_eq)

lemma talk_acknowledgedI:
  "m' mid = Some c \<Longrightarrow> message_of ctx kind req c \<Longrightarrow> m' = m \<or> m mid = None \<and> m' = m(mid \<mapsto> c) \<Longrightarrow>
   log' = log @ ack_response deps ctx mid t # rest \<Longrightarrow> t = sm_send_time c \<Longrightarrow>
   talk_acknowledged deps ctx kind req m m' log log'"
  unfolding talk_acknowledged_def by blast

context message_sink
begin

lemma talk_insert_outcome:
  assumes "good s" "td_insert deps = insert_m" "h_dest (cx_header ctx) \<noteq> []"
    and t: "talk_insert deps kind req ms ot ctx s log = (r, s', log')"
  shows "talk_refused ctx (stored s) (stored s') log log' \<or> talk_acknowledged deps ctx kind req (stored s) (stored s') log log'"
proof -
  define im where "im = \<lparr>im_sender = s_account (cx_session ctx), im_dest = h_dest (cx_header ctx), im_send_time = td_unix_nano deps,
     im_msg_type = mr_type req, im_body = mr_body req, im_extra = mr_extra req,
     im_client_id = mr_client_id req, im_online_targets = ot\<rparr>"
  obtain q s1 where q: "insert_m (s_app (cx_session ctx)) kind im ms s = (q, s1)" by fastforce
  have content: "message_of ctx kind req (insert_content (s_app (cx_session ctx)) kind im mid)" for mid
    by (simp add: message_of_def insert_content_def im_def)
  show ?thesis
  proof (cases q)
    case (Inl e)
    then have "talk_fail deps SystemException ctx s1 log = (r, s', log')"
      using t q assms(2) by (simp add: talk_insert_def Let_def im_def)
    then show ?thesis
      using talk_refused_fail[of deps SystemException ctx s1 log r s' log' stored] insert_err[OF assms(1)] q Inl by simp
  next
    case (Inr res)
    note ins = q[unfolded Inr]
    show ?thesis
    proof (cases "res_duplicate res \<and> \<not> fanout_matches_req kind (h_dest (cx_header ctx)) req (res_fanout res)")
      case True
      then have "s' = s1 \<and> log' = log @ [error_response ctx IdempotencyConflict]"
        using t ins assms(2) resp_simps(2)[of "td_dispatcher deps" ctx IdempotencyConflict log]
        by (auto simp: talk_insert_def Let_def im_def split: prod.splits)
      then show ?thesis using insert_dup[OF assms(1) ins] True by (auto simp: talk_refused_def)
    next
      case False
      then have "persist_then_push deps res (h_command (cx_header ctx)) ctx s1 log = (r, s', log')"
        using t ins assms(2) unfolding talk_insert_def Let_def im_def[symmetric] by (simp split: if_splits)
      from persist_then_push_log[OF this] obtain rest where
        l: "s' = s1" "log' = log @ ack_response deps ctx (res_message_id res) (res_send_time res) # rest" by blast
      show ?thesis
      proof (cases "res_duplicate res")
        case dup: True
        obtain c where c: "stored s1 = stored s" "stored s (res_message_id res) = Some c" "sm_app c = s_app (cx_session ctx)"
          "sm_sender c = s_account (cx_session ctx)" "sm_send_time c = res_send_time res" "fanout_describes c (res_fanout res)"
          using insert_dup[OF assms(1) ins dup] by (auto simp: im_def)
        have "message_of ctx kind req c"
          using c False dup assms(3) by (auto simp: message_of_def fanout_describes_def fanout_matches_req_def)
        then show ?thesis using talk_acknowledgedI[OF _ _ _ l(2)] c l(1) by auto
      next
        case new: False
        show ?thesis
          using insert_new[OF assms(1) ins new] talk_acknowledgedI[OF _ content _ l(2)] l(1)
          by (auto simp: insert_content_def im_def)
      qed
    qed
  qed
qed

end

text \<open>Every run of a talk handler either refuses or reaches the shared insertion with its checks passed.\<close>

lemma do_user_talk_cases:
  assumes "do_user_talk deps ctx s log = (r, s', log')"
  obtains (refused) status where "talk_fail deps status ctx s log = (r, s', log')"
      "status \<in> {NoDestination, InvalidPacketBody, SystemException} \<or> (\<exists>req. td_filter deps req = Err status)
        \<or> user_directory_check deps ctx (h_dest (cx_header ctx)) = Err status"
  | (inserted) req own ot where "h_dest (cx_header ctx) \<noteq> []" "td_dec_req deps (lp_body (cx_request ctx)) = Ok req"
      "td_filter deps req = Ok ()" "user_directory_check deps ctx (h_dest (cx_header ctx)) = Ok own"
      "talk_insert deps UserMsg req [] ot ctx s log = (r, s', log')"
  using assms unfolding do_user_talk_def Let_def by (simp split: if_splits sum.splits) blast+

lemma do_group_talk_cases:
  assumes "do_group_talk deps ctx s log = (r, s', log')"
  obtains (refused) status where "talk_fail deps status ctx s log = (r, s', log')"
      "status \<in> {NoDestination, InvalidPacketBody, SystemException, NotGroupMember} \<or> (\<exists>req. td_filter deps req = Err status)"
  | (inserted) req ms ot where "h_dest (cx_header ctx) \<noteq> []" "td_dec_req deps (lp_body (cx_request ctx)) = Ok req"
      "td_filter deps req = Ok ()" "td_members deps (s_app (cx_session ctx)) (h_dest (cx_header ctx)) = Ok ms"
      "s_account (cx_session ctx) \<in> set ms" "talk_insert deps GroupMsg req ms ot ctx s log = (r, s', log')"
  using assms unfolding do_group_talk_def Let_def by (simp split: if_splits sum.splits GroupError.splits) blast+

section \<open>The in-memory store is such a store\<close>

lemma fanout_describes_memory:
  assumes "store_ok s" "hget (in_contents s) mid = Some c" "fanout_from_memory s mid = Ok fo"
  shows "fanout_describes c fo"
proof -
  obtain log where "store_inv s log" using assms(1) by (auto simp: store_ok_def)
  note rows = conjunct2[OF store_invD(3)[OF this assms(2)]]
  note fo = fanout_from_memory_rows[OF assms(2)] assms(3)
  show ?thesis
  proof (cases "sm_kind c")
    case UserMsg
    then have "msg_rows mid s = user_rows c" using rows by (simp add: content_rows_def)
    then show ?thesis
      using fo UserMsg by (auto simp: fanout_describes_def fanout_from_index_rows_def user_rows_def Let_def)
  next
    case GroupMsg
    then have g: "\<forall>r \<in> set (msg_rows mid s). group_row c r" using rows by (simp add: content_rows_def)
    show ?thesis
    proof (cases "msg_rows mid s")
      case Nil
      then show ?thesis using fo by (auto simp: fanout_describes_def fanout_from_index_rows_def)
    next
      case (Cons r rs)
      then have "ir_group_id r = sm_dest c" "sm_dest c \<noteq> []" "ir_account_b r = sm_sender c"
        using g by (auto simp: group_row_def)
      then show ?thesis
        using fo GroupMsg Cons by (auto simp: fanout_describes_def fanout_from_index_rows_def Let_def)
    qed
  qed
qed

definition id_fresh :: "(nat \<Rightarrow> (IdError, int) result) \<Rightarrow> Inner \<Rightarrow> bool" where
  "id_fresh gen s \<longleftrightarrow> (\<forall>mid. gen 0 = Inr mid \<longrightarrow> hget (in_contents s) mid = None)"

lemma insert_msg_new_contents:
  assumes "insert_msg receipts now gen app kind req ms s = (Ok res, t)" "\<not> res_duplicate res"
  shows "gen 0 = Inr (res_message_id res) \<and> res_send_time res = im_send_time req
    \<and> in_contents t = hput (res_message_id res) (insert_content app kind req (res_message_id res)) (in_contents s)"
proof -
  obtain mid where m: "gen 0 = Inr mid" "insert_commit receipts now app kind req ms mid s = (Ok res, t)"
    using insert_msg_stored[OF assms] by blast
  have "(if im_client_id req \<noteq> [] then hget (in_idempotency s) (idem_key app req) else None) = None"
    using m(2) assms(2)
    by (auto simp: insert_commit_def Let_def duplicate_result_def res_bind_eq_Inr split: if_splits option.splits)
  then show ?thesis using m by (auto simp: insert_commit_def Let_def split: if_splits)
qed

lemma insert_msg_dup_contents:
  assumes "insert_msg receipts now gen app kind req ms s = (Ok res, t)" "res_duplicate res"
  shows "hget (in_idempotency s) (idem_key app req) = Some (res_message_id res, res_send_time res)
    \<and> fanout_from_memory s (res_message_id res) = Ok (res_fanout res) \<and> in_contents t = in_contents s"
  using assms
  by (auto simp: insert_msg_def insert_commit_def Let_def split: option.splits sum.splits if_splits)

lemma insert_msg_err_contents:
  "insert_msg receipts now gen app kind req ms s = (Err e, t) \<Longrightarrow> in_contents t = in_contents s"
  by (auto simp: insert_msg_def insert_commit_def Let_def split: option.splits sum.splits if_splits)

interpretation memory_sink: message_sink "insert_msg receipts now gen" "\<lambda>s. store_ok s \<and> id_fresh gen s" "\<lambda>s. hget (in_contents s)"
  for receipts now gen
proof (unfold_locales, goal_cases)
  case (1 s app kind im ms res s')
  then show ?case
    using insert_msg_new_contents[OF 1(2,3)] by (auto simp: id_fresh_def)
next
  case (2 s app kind im ms res s')
  obtain log where inv: "store_inv s log" using 2(1) by (auto simp: store_ok_def)
  note d = insert_msg_dup_contents[OF 2(2,3)]
  obtain c where "hget (in_contents s) (res_message_id res) = Some c" "sm_app c = app" "sm_sender c = im_sender im"
    "sm_send_time c = res_send_time res"
    using store_invD(4)[OF inv] d by blast
  then show ?case using fanout_describes_memory[OF conjunct1[OF 2(1)]] d by auto
next
  case (3 s app kind im ms e s')
  then show ?case using insert_msg_err_contents by (metis (no_types))
qed

section \<open>Talking through the in-memory components\<close>

definition memory_talk ::
  "MemoryUserDirectory \<Rightarrow> MemorySocialDirectory \<Rightarrow> MemoryGroupDirectory \<Rightarrow> MemorySessionStore
   \<Rightarrow> bool \<Rightarrow> nat \<Rightarrow> (nat \<Rightarrow> (IdError, int) result) \<Rightarrow> string list \<Rightarrow> string list \<Rightarrow> Inner talk_deps \<Rightarrow> Inner talk_deps" where
  "memory_talk users social groups sessions receipts now gen text_words image_blocked base =
     base\<lparr>td_filter := builtin_talk_filter text_words image_blocked,
          td_lookup := \<lambda>app account. Ok (lookup app account users),
          td_is_blocked_either := \<lambda>app a b. Ok (is_blocked_either app a b social),
          td_is_friend := \<lambda>app a b. Ok (is_friend app a b social),
          td_members := \<lambda>app g. group_members app g groups,
          td_get_locations := \<lambda>accounts. mem_get_locations accounts sessions,
          td_insert := insert_msg receipts now gen\<rparr>"

lemma memory_talk_simps [simp]:
  "td_insert (memory_talk u so g se rc now gen tw ib base) = insert_msg rc now gen"
  "td_dec_req (memory_talk u so g se rc now gen tw ib base) = td_dec_req base"
  "td_filter (memory_talk u so g se rc now gen tw ib base) = builtin_talk_filter tw ib"
  "td_members (memory_talk u so g se rc now gen tw ib base) = (\<lambda>app gid. group_members app gid g)"
  "td_get_locations (memory_talk u so g se rc now gen tw ib base) = (\<lambda>as. mem_get_locations as se)"
  "td_dispatcher (memory_talk u so g se rc now gen tw ib base) = td_dispatcher base"
  "td_push_cut (memory_talk u so g se rc now gen tw ib base) = td_push_cut base"
  "td_enc_push (memory_talk u so g se rc now gen tw ib base) = td_enc_push base"
  "td_unix_nano (memory_talk u so g se rc now gen tw ib base) = td_unix_nano base"
  by (simp_all add: memory_talk_def)

lemma filter_status: "builtin_talk_filter tw ib req = Err st \<Longrightarrow> st = ContentBlocked"
  by (auto simp: builtin_talk_filter_def TextWordFilter_def ImageFilter_def split: if_splits)

lemma memory_directory_check:
  "user_directory_check (memory_talk u so g se rc now gen tw ib base) ctx receiver = Ok own \<Longrightarrow>
   \<exists>p. lookup (s_app (cx_session ctx)) receiver u = Some p
     \<and> (up_kind p = PROFILE_KIND_BOT \<longrightarrow> up_owner_account p = s_account (cx_session ctx))
     \<and> (receiver \<noteq> s_account (cx_session ctx) \<longrightarrow>
          \<not> is_blocked_either (s_app (cx_session ctx)) (s_account (cx_session ctx)) receiver so
          \<and> is_friend (s_app (cx_session ctx)) (s_account (cx_session ctx)) receiver so)"
  "user_directory_check (memory_talk u so g se rc now gen tw ib base) ctx receiver = Err st \<Longrightarrow> st \<noteq> Success"
  by (auto simp: user_directory_check_def memory_talk_def Let_def res_bind_def split: sum.splits option.splits if_splits bool.splits)

text \<open>C10: A direct message is acknowledged only when it is stored and allowed. Whatever the request, the
  directories and the timers: either the sender gets one error response, nothing is pushed to anybody
  else and no stored message appears or changes; or the body decoded and passed the filters, the
  receiver exists, is not somebody else's bot, and, unless it is the sender, is a friend with no block
  on either side, and the first thing sent is a success response carrying the identifier and time of a
  stored message with exactly the request's application, sender, receiver, type, body and extra. A
  reused client identifier is acknowledged with the earlier message only if all these agree.\<close>

theorem user_talk_correct:
  assumes "msg_reach m" "id_fresh gen (mm_inner m)"
    and "do_user_talk (memory_talk users social groups sessions receipts now gen words images base) ctx (mm_inner m) log
           = (r, s', log')"
  shows "talk_refused ctx (hget (in_contents (mm_inner m))) (hget (in_contents s')) log log'
    \<or> (\<exists>req p. td_dec_req base (lp_body (cx_request ctx)) = Ok req \<and> builtin_talk_filter words images req = Ok ()
         \<and> lookup (s_app (cx_session ctx)) (h_dest (cx_header ctx)) users = Some p
         \<and> (up_kind p = PROFILE_KIND_BOT \<longrightarrow> up_owner_account p = s_account (cx_session ctx))
         \<and> (h_dest (cx_header ctx) \<noteq> s_account (cx_session ctx) \<longrightarrow>
              \<not> is_blocked_either (s_app (cx_session ctx)) (s_account (cx_session ctx)) (h_dest (cx_header ctx)) social
              \<and> is_friend (s_app (cx_session ctx)) (s_account (cx_session ctx)) (h_dest (cx_header ctx)) social)
         \<and> talk_acknowledged (memory_talk users social groups sessions receipts now gen words images base) ctx UserMsg req
              (hget (in_contents (mm_inner m))) (hget (in_contents s')) log log')"
proof -
  let ?deps = "memory_talk users social groups sessions receipts now gen words images base"
  have good: "store_ok (mm_inner m) \<and> id_fresh gen (mm_inner m)" using msg_reach_ok[OF assms(1)] assms(2) by simp
  show ?thesis
    using assms(3)
  proof (cases rule: do_user_talk_cases)
    case (refused status)
    have "status \<noteq> Success" using refused(2) by (auto dest: filter_status memory_directory_check(2))
    then show ?thesis using talk_refused_fail[OF refused(1), of "\<lambda>s. hget (in_contents s)"] by simp
  next
    case (inserted req own ot)
    show ?thesis
      using memory_sink.talk_insert_outcome[OF good _ inserted(1,5)] memory_directory_check(1)[OF inserted(4)] inserted(2,3)
      by simp blast
  qed
qed

definition demo_message :: MessageReq where
  "demo_message = \<lparr>mr_type = 1, mr_body = ''hi'', mr_extra = [], mr_client_id = []\<rparr>"

definition demo_base :: "Inner talk_deps" where
  "demo_base = \<lparr>td_filter = NoopFilter, td_lookup = \<lambda>_ _. Ok None, td_is_blocked_either = \<lambda>_ _ _. Ok False,
     td_is_friend = \<lambda>_ _ _. Ok False, td_members = \<lambda>_ _. Err GroupNotFound, td_get_locations = \<lambda>_. Err NotFound,
     td_insert = \<lambda>_ _ _ _ s. (Err StoreNotFound, s), td_dispatcher = \<lambda>_ _. Ok (), td_dec_req = \<lambda>_. Ok demo_message,
     td_enc_resp = \<lambda>_. [], td_enc_push = \<lambda>_. [], td_unix_nano = 5, td_directory_late = False, td_targets_late = False,
     td_push_cut = None\<rparr>"

definition demo_talk_ctx :: "string \<Rightarrow> Context" where
  "demo_talk_ctx dest = \<lparr>cx_request = set_dest dest (LogicPkt_new ''chat.user.talk'' 1 []), cx_session = demo_session\<rparr>"

definition demo_talk :: "Inner talk_deps" where
  "demo_talk = memory_talk (user_upsert [] ''bob'' (user_dir_new None))
     (snd (ensure_friends [] ''alice'' ''bob'' social_new)) [(([], ''g''),
        \<lparr>g_name = [], g_avatar = [], g_introduction = [], g_owner = ''alice'', g_members = [''alice'', ''bob'']\<rparr>)]
     mem_new False 0 (\<lambda>k. Ok (100 + int k)) [''spam''] [] demo_base"

lemma demo_filter: "builtin_talk_filter [''spam''] [] demo_message = Ok ()"
  by (simp add: builtin_talk_filter_def TextWordFilter_def ImageFilter_def demo_message_def MESSAGE_TYPE_TEXT_def MESSAGE_TYPE_IMAGE_def)

lemma demo_directory: "user_directory_check demo_talk (demo_talk_ctx ''bob'') ''bob'' = Ok False"
  by (simp add: user_directory_check_def demo_talk_def demo_base_def memory_talk_def demo_talk_ctx_def demo_session_def lookup_def
      user_upsert_def user_dir_new_def hor_insert_def human_record_def presence_from_record_def ensure_friends_def social_new_def
      is_blocked_either_def is_friend_def PROFILE_KIND_USER_def PROFILE_KIND_BOT_def)

lemma demo_user_talk_ack:
  "\<exists>r s' rest. do_user_talk demo_talk (demo_talk_ctx ''bob'') Inner_default [] = (r, s', ack_response demo_talk (demo_talk_ctx ''bob'') 100 5 # rest)"
proof -
  have dest: "h_dest (cx_header (demo_talk_ctx ''bob'')) = ''bob''" by (simp add: demo_talk_ctx_def set_dest_def LogicPkt_new_def)
  obtain ot where t: "do_user_talk demo_talk (demo_talk_ctx ''bob'') Inner_default []
      = talk_insert demo_talk UserMsg demo_message [] ot (demo_talk_ctx ''bob'') Inner_default []"
    using demo_directory demo_filter dest
    by (auto simp: do_user_talk_def Let_def demo_talk_def demo_base_def memory_talk_def)
  define im where "im = \<lparr>im_sender = ''alice'', im_dest = ''bob'', im_send_time = 5, im_msg_type = 1, im_body = ''hi'', im_extra = [],
     im_client_id = [], im_online_targets = ot\<rparr>"
  have "\<exists>res s1. insert_msg False 0 (\<lambda>k. Ok (100 + int k)) [] UserMsg im [] Inner_default = (Ok res, s1)
      \<and> \<not> res_duplicate res \<and> res_message_id res = 100 \<and> res_send_time res = 5"
    by (simp add: insert_msg_def insert_commit_def im_def Inner_default_def Let_def insert_rows_def eval_nat_numeral)
  then obtain res s1 where i: "insert_msg False 0 (\<lambda>k. Ok (100 + int k)) [] UserMsg im [] Inner_default = (Ok res, s1)"
    "\<not> res_duplicate res" "res_message_id res = 100" "res_send_time res = 5" by blast
  obtain r s' log' where p: "persist_then_push demo_talk res (h_command (cx_header (demo_talk_ctx ''bob''))) (demo_talk_ctx ''bob'') s1 [] = (r, s', log')"
    by (metis prod_cases3)
  have "do_user_talk demo_talk (demo_talk_ctx ''bob'') Inner_default [] = (r, s', log')"
    unfolding t using i p dest
    by (simp add: talk_insert_def demo_talk_def im_def demo_message_def) (simp add: demo_talk_ctx_def demo_session_def demo_base_def)
  then show ?thesis using persist_then_push_log[OF p] i by auto
qed

lemma id_fresh_demo: "id_fresh gen Inner_default" by (simp add: id_fresh_def Inner_default_def)

lemma ack_not_refused: "\<not> talk_refused ctx m m' [] (ack_response deps ctx mid t # rest)"
proof
  assume "talk_refused ctx m m' [] (ack_response deps ctx mid t # rest)"
  then obtain status where "status \<noteq> Success" "ack_response deps ctx mid t = error_response ctx status"
    by (auto simp: talk_refused_def)
  then have "h_status (lp_header (pu_pkt (ack_response deps ctx mid t))) = status" by (simp add: error_response_def)
  then show False using \<open>status \<noteq> Success\<close> by (simp add: ack_response_def LogicPkt_write_body_def)
qed

theorem user_talk_correct_witness:
  "\<exists>mid c. hget (in_contents (fst (snd (do_user_talk demo_talk (demo_talk_ctx ''bob'') Inner_default [])))) mid = Some c
     \<and> message_of (demo_talk_ctx ''bob'') UserMsg demo_message c"
proof -
  obtain r s' rest where d: "do_user_talk demo_talk (demo_talk_ctx ''bob'') Inner_default []
      = (r, s', ack_response demo_talk (demo_talk_ctx ''bob'') 100 5 # rest)" using demo_user_talk_ack by blast
  have i: "Inner_default = mm_inner (message_store_new False)" by (simp add: message_store_new_def)
  from user_talk_correct[OF msg_reach.start id_fresh_demo[unfolded i] d[unfolded i demo_talk_def]]
  show ?thesis
    using ack_not_refused[of "demo_talk_ctx ''bob''" _ _ demo_talk 100 5 rest] d
    by (auto simp: talk_acknowledged_def demo_base_def demo_talk_def)
qed

text \<open>C12: A group message is accepted from members only, and an acknowledged one is stored. Either the
  sender gets one error response, nothing is pushed to anybody else and no stored message appears or
  changes; or the sender is a member of the group, the body passed the filters, and the first thing
  sent is a success response with the identifier and time of a stored group message with exactly the
  request's application, sender, group, type, body and extra.\<close>

theorem group_talk_correct:
  assumes "msg_reach m" "id_fresh gen (mm_inner m)"
    and "do_group_talk (memory_talk users social groups sessions receipts now gen words images base) ctx (mm_inner m) log
           = (r, s', log')"
  shows "talk_refused ctx (hget (in_contents (mm_inner m))) (hget (in_contents s')) log log'
    \<or> (\<exists>req ms. td_dec_req base (lp_body (cx_request ctx)) = Ok req \<and> builtin_talk_filter words images req = Ok ()
         \<and> group_members (s_app (cx_session ctx)) (h_dest (cx_header ctx)) groups = Ok ms \<and> s_account (cx_session ctx) \<in> set ms
         \<and> talk_acknowledged (memory_talk users social groups sessions receipts now gen words images base) ctx GroupMsg req
              (hget (in_contents (mm_inner m))) (hget (in_contents s')) log log')"
proof -
  have good: "store_ok (mm_inner m) \<and> id_fresh gen (mm_inner m)" using msg_reach_ok[OF assms(1)] assms(2) by simp
  show ?thesis
    using assms(3)
  proof (cases rule: do_group_talk_cases)
    case (refused status)
    have "status \<noteq> Success" using refused(2) by (auto dest: filter_status)
    then show ?thesis using talk_refused_fail[OF refused(1), of "\<lambda>s. hget (in_contents s)"] by simp
  next
    case (inserted req ms ot)
    show ?thesis
      using memory_sink.talk_insert_outcome[OF good _ inserted(1,6)] inserted(2-5) by simp
  qed
qed

section \<open>Who is pushed to\<close>

definition message_push :: "int \<Rightarrow> Context \<Rightarrow> MessageReq \<Rightarrow> int \<Rightarrow> MessagePush" where
  "message_push mid ctx req send_time = \<lparr>mp_message_id = mid, mp_type = mr_type req, mp_body = mr_body req, mp_extra = mr_extra req,
     mp_sender = s_account (cx_session ctx), mp_send_time = send_time\<rparr>"

lemma push_recipients_uncut:
  assumes "td_push_cut deps = None" "td_get_locations deps [] = Err e"
  shows "\<exists>gws. push_recipients deps ctx inserted command log = log @ map (gateway_push ctx command
      (td_enc_push deps \<lparr>mp_message_id = res_message_id inserted, mp_type = fo_msg_type (res_fanout inserted),
         mp_body = fo_body (res_fanout inserted), mp_extra = fo_extra (res_fanout inserted),
         mp_sender = fo_sender (res_fanout inserted), mp_send_time = res_send_time inserted\<rparr>)
      (case td_get_locations deps (unique_accounts (fo_recipients (res_fanout inserted))) of Inr v \<Rightarrow> v | Inl _ \<Rightarrow> [])) gws
    \<and> set gws = l_gate_id ` {l \<in> set (case td_get_locations deps (unique_accounts (fo_recipients (res_fanout inserted))) of Inr v \<Rightarrow> v | Inl _ \<Rightarrow> []).
        l_channel_id l \<noteq> s_channel_id (cx_session ctx)}"
    (is "\<exists>gws. _ = log @ map (gateway_push ctx command ?body ?locs) gws \<and> _")
proof (cases "unique_accounts (fo_recipients (res_fanout inserted)) = [] \<or> ?locs = []")
  case True
  then have "?locs = []" using assms(2) by auto
  then show ?thesis using True by (intro exI[of _ "[]"]) (auto simp: push_recipients_def Let_def)
next
  case False
  then have "push_recipients deps ctx inserted command log = snd (dispatch_cmd (td_dispatcher deps) ctx command ?body ?locs log)"
    using assms(1) by (simp add: push_recipients_def Let_def)
  then have eq: "push_recipients deps ctx inserted command log = snd (dispatch_cmd (td_dispatcher deps) ctx command ?body ?locs log)" .
  obtain gws where "snd (dispatch_cmd (td_dispatcher deps) ctx command ?body ?locs log) = log @ map (gateway_push ctx command ?body ?locs) gws"
    "set gws = l_gate_id ` {l \<in> set ?locs. l_channel_id l \<noteq> s_channel_id (cx_session ctx)}"
    using dispatch_cmd_gateways[of ?locs ctx "td_dispatcher deps" command ?body log] by blast
  then show ?thesis unfolding eq by (intro exI[of _ gws] conjI)
qed

lemma draw_ids_all: "(\<And>k. \<exists>i. gen k = Inr i) \<Longrightarrow> draw_ids gen k n = Ok ()"
proof (induction n arbitrary: k)
  case (Suc n)
  obtain i where "gen k = Inr i" using Suc.prems by blast
  then show ?case using Suc by simp
qed simp

lemma insert_msg_unknown:
  assumes "gen 0 = Inr mid" "\<And>k. \<exists>i. gen k = Inr i"
    and "im_client_id req = [] \<or> hget (in_idempotency s) (idem_key app req) = None"
  shows "fst (insert_msg receipts now gen app kind req ms s) = Ok \<lparr>res_message_id = mid, res_send_time = im_send_time req,
    res_duplicate = False, res_fanout = fanout_from_write kind req ms\<rparr>"
  using assms(3) by (auto simp: insert_msg_def assms(1) draw_ids_all[OF assms(2)] insert_commit_def Let_def)

lemma unique_accounts_set [simp]: "set (unique_accounts xs) = set xs"
  using set_dedup_loop[of xs "{}" "[]"] by (simp add: unique_accounts_def)

lemma group_fanout:
  assumes "ms \<noteq> []" "im_dest req \<noteq> []"
  shows "fo_msg_type (fanout_from_write GroupMsg req ms) = im_msg_type req" "fo_body (fanout_from_write GroupMsg req ms) = im_body req"
    "fo_extra (fanout_from_write GroupMsg req ms) = im_extra req" "fo_sender (fanout_from_write GroupMsg req ms) = im_sender req"
    "set (fo_recipients (fanout_from_write GroupMsg req ms)) = set ms"
  using assms by (cases ms; auto simp: fanout_from_write_def fanout_from_index_rows_def Let_def image_image)+

lemma mem_locations_set:
  "set (case mem_get_locations as se of Inr v \<Rightarrow> v | Inl _ \<Rightarrow> []) = {l. \<exists>a \<in> set as. \<exists>ls. mem_get_locations [a] se = Ok ls \<and> l \<in> set ls}"
proof -
  define slots where "slots = (\<lambda>a. case hget (ms_locations se) (key_location a []) of None \<Rightarrow> [] | Some l \<Rightarrow> l)"
  have "mem_get_locations as se = (if concat (map slots as) = [] then Err NotFound else Ok (concat (map slots as)))"
    "mem_get_locations [a] se = (if slots a = [] then Err NotFound else Ok (slots a))" for as a
    by (simp_all add: mem_get_locations_def slots_def Let_def)
  note m = this
  have "set (case mem_get_locations as se of Inr v \<Rightarrow> v | Inl _ \<Rightarrow> []) = set (concat (map slots as))"
    unfolding m(1) by (simp split: if_split del: set_concat)
  moreover have "(\<exists>ls. mem_get_locations [a] se = Ok ls \<and> l \<in> set ls) \<longleftrightarrow> l \<in> set (slots a)" for a l
    by (cases "slots a") (simp_all add: m(2))
  ultimately show ?thesis by auto
qed

lemma mem_locations_nil: "mem_get_locations [] se = Err NotFound"
  by (simp add: mem_get_locations_def)

text \<open>What a complete push phase sends to a set of accounts.\<close>

definition pushes_to ::
  "Context \<Rightarrow> MemorySessionStore \<Rightarrow> string set \<Rightarrow> LogicPkt \<Rightarrow> push list \<Rightarrow> bool" where
  "pushes_to ctx sessions accounts pkt pushes \<longleftrightarrow>
     (\<forall>a \<in> accounts. \<forall>ls l. mem_get_locations [a] sessions = Ok ls \<longrightarrow> l \<in> set ls \<longrightarrow> l_channel_id l \<noteq> s_channel_id (cx_session ctx)
        \<longrightarrow> (\<exists>p \<in> set pushes. pu_gateway p = l_gate_id l \<and> l_channel_id l \<in> set (pu_channels p)))
     \<and> (\<forall>p \<in> set pushes. pu_pkt p = pkt \<and> (\<forall>ch \<in> set (pu_channels p). ch \<noteq> s_channel_id (cx_session ctx)
          \<and> (\<exists>a \<in> accounts. \<exists>ls l. mem_get_locations [a] sessions = Ok ls \<and> l \<in> set ls
               \<and> l_channel_id l = ch \<and> l_gate_id l = pu_gateway p)))"

lemma pushes_to_gateways:
  assumes "set locs = {l. \<exists>a \<in> accounts. \<exists>ls. mem_get_locations [a] sessions = Ok ls \<and> l \<in> set ls}"
    and "set gws = l_gate_id ` {l \<in> set locs. l_channel_id l \<noteq> s_channel_id (cx_session ctx)}"
  shows "pushes_to ctx sessions accounts (push_packet ctx command body) (map (gateway_push ctx command body locs) gws)"
  unfolding pushes_to_def
proof (intro conjI ballI allI impI)
  fix a ls l assume l: "a \<in> accounts" "mem_get_locations [a] sessions = Ok ls" "l \<in> set ls" "l_channel_id l \<noteq> s_channel_id (cx_session ctx)"
  then have "l \<in> set locs" using assms(1) by blast
  then show "\<exists>p \<in> set (map (gateway_push ctx command body locs) gws). pu_gateway p = l_gate_id l \<and> l_channel_id l \<in> set (pu_channels p)"
    using l assms(2) by (auto simp: gateway_channels_def)
next
  fix p assume "p \<in> set (map (gateway_push ctx command body locs) gws)"
  then obtain gw where p: "p = gateway_push ctx command body locs gw" by auto
  show "pu_pkt p = push_packet ctx command body" by (simp add: p)
  fix ch assume "ch \<in> set (pu_channels p)"
  then obtain l where l: "l \<in> set locs" "l_channel_id l = ch" "l_gate_id l = gw" "ch \<noteq> s_channel_id (cx_session ctx)"
    by (auto simp: p gateway_channels_def)
  then show "ch \<noteq> s_channel_id (cx_session ctx)"
    "\<exists>a \<in> accounts. \<exists>ls l. mem_get_locations [a] sessions = Ok ls \<and> l \<in> set ls \<and> l_channel_id l = ch \<and> l_gate_id l = pu_gateway p"
    using assms(1) by (auto simp: p)
qed

text \<open>C11: An accepted group message reaches every connected member. When a member's message with an unused
  client identifier passes the filters, identifiers can be drawn, the acknowledgement goes through and
  the push budget is not exceeded, then after the acknowledgement every device of every member except
  the sending one is in a push to its own gateway, every push carries the message, and no device of a
  non-member and not the sending device is in any push.\<close>

theorem group_talk_reaches_members:
  assumes deps_def: "deps = memory_talk users social groups sessions receipts now gen words images base"
    and dest: "h_dest (cx_header ctx) \<noteq> []"
    and req: "td_dec_req base (lp_body (cx_request ctx)) = Ok req" "builtin_talk_filter words images req = Ok ()"
    and members: "group_members (s_app (cx_session ctx)) (h_dest (cx_header ctx)) groups = Ok ms" "s_account (cx_session ctx) \<in> set ms"
    and ids: "gen 0 = Ok mid" "\<And>k. \<exists>i. gen k = Ok i"
    and unused: "mr_client_id req = [] \<or> hget (in_idempotency s) (s_app (cx_session ctx), s_account (cx_session ctx), mr_client_id req) = None"
    and network: "td_push_cut base = None" "td_dispatcher base log (ack_response deps ctx mid (td_unix_nano base)) = Ok ()"
  shows "\<exists>pushes. snd (snd (do_group_talk deps ctx s log)) = log @ ack_response deps ctx mid (td_unix_nano base) # pushes
    \<and> pushes_to ctx sessions (set ms)
        (push_packet ctx (h_command (cx_header ctx)) (td_enc_push base (message_push mid ctx req (td_unix_nano base)))) pushes"
proof -
  define ot where "ot = fallback_targets deps (filter (\<lambda>m. m \<noteq> s_account (cx_session ctx)) ms)"
  define im where "im = \<lparr>im_sender = s_account (cx_session ctx), im_dest = h_dest (cx_header ctx), im_send_time = td_unix_nano deps,
     im_msg_type = mr_type req, im_body = mr_body req, im_extra = mr_extra req,
     im_client_id = mr_client_id req, im_online_targets = ot\<rparr>"
  define res where "res = \<lparr>res_message_id = mid, res_send_time = td_unix_nano base, res_duplicate = False,
     res_fanout = fanout_from_write GroupMsg im ms\<rparr>"
  let ?cmd = "h_command (cx_header ctx)" and ?ack = "ack_response deps ctx mid (td_unix_nano base)"
  obtain s1 where ins: "insert_msg receipts now gen (s_app (cx_session ctx)) GroupMsg im ms s = (Ok res, s1)"
    using insert_msg_unknown[where gen = gen, OF ids, of im s "s_app (cx_session ctx)" receipts now GroupMsg ms] unused
    by (auto simp: res_def im_def deps_def prod_eq_iff)
  have r: "resp (td_dispatcher deps) ctx Success (Some (td_enc_resp deps
      \<lparr>mrs_message_id = res_message_id res, mrs_send_time = res_send_time res\<rparr>)) log = (Ok (), log @ [?ack])"
    using network(2) by (simp add: resp_def push_to_sender_def dispatcher_push_def Let_def ack_response_def res_def deps_def)
  have "do_group_talk deps ctx s log = (Ok (), s1, push_recipients deps ctx res ?cmd (log @ [?ack]))"
    using dest req members ins r
    by (simp add: do_group_talk_def deps_def talk_insert_def persist_then_push_def im_def ot_def res_def)
  moreover have ne: "ms \<noteq> []" using members(2) by auto
  moreover obtain gws where "push_recipients deps ctx res ?cmd (log @ [?ack]) = (log @ [?ack]) @ map (gateway_push ctx ?cmd
      (td_enc_push base (message_push mid ctx req (td_unix_nano base)))
      (case mem_get_locations (unique_accounts (fo_recipients (res_fanout res))) sessions of Inr v \<Rightarrow> v | Inl _ \<Rightarrow> [])) gws"
    "set gws = l_gate_id ` {l \<in> set (case mem_get_locations (unique_accounts (fo_recipients (res_fanout res))) sessions of Inr v \<Rightarrow> v | Inl _ \<Rightarrow> []).
        l_channel_id l \<noteq> s_channel_id (cx_session ctx)}"
    using push_recipients_uncut[of deps NotFound ctx res ?cmd "log @ [?ack]"] network(1) mem_locations_nil group_fanout[OF ne, of im] dest
    by (auto simp: deps_def res_def im_def message_push_def)
  moreover note pushes_to_gateways[OF mem_locations_set this(2)]
  ultimately show ?thesis
    using group_fanout(5)[OF ne, of im] dest by (simp add: res_def im_def)
qed

definition demo_groups :: MemoryGroupDirectory where
  "demo_groups = [(([], ''g''), \<lparr>g_name = [], g_avatar = [], g_introduction = [], g_owner = ''alice'', g_members = [''alice'', ''bob'']\<rparr>)]"

definition demo_sessions :: MemorySessionStore where
  "demo_sessions = snd (mem_add (demo_session\<lparr>s_account := ''bob'', s_channel_id := ''c2''\<rparr>) mem_new)"

definition demo_group_talk :: "Inner talk_deps" where
  "demo_group_talk = memory_talk (user_dir_new None) social_new demo_groups demo_sessions False 0 (\<lambda>k. Ok (100 + int k)) [''spam''] [] demo_base"

lemma demo_group_ctx:
  "h_dest (cx_header (demo_talk_ctx ''g'')) = ''g''" "s_app (cx_session (demo_talk_ctx ''g'')) = []"
  "s_account (cx_session (demo_talk_ctx ''g'')) = ''alice''" "s_channel_id (cx_session (demo_talk_ctx ''g'')) = ''c1''"
  by (simp_all add: demo_talk_ctx_def set_dest_def LogicPkt_new_def demo_session_def)

theorem group_talk_reaches_members_witness:
  "\<exists>pushes. snd (snd (do_group_talk demo_group_talk (demo_talk_ctx ''g'') Inner_default []))
       = ack_response demo_group_talk (demo_talk_ctx ''g'') 100 5 # pushes
     \<and> (\<exists>p \<in> set pushes. pu_gateway p = ''g'' \<and> ''c2'' \<in> set (pu_channels p))"
proof -
  let ?ctx = "demo_talk_ctx ''g''"
  have loc: "mem_get_locations [''bob''] demo_sessions = Ok [\<lparr>l_channel_id = ''c2'', l_gate_id = ''g'', l_device = ''web'', l_jti = []\<rparr>]"
    by (simp add: demo_sessions_def mem_add_def mem_new_def mem_get_locations_def loc_of_def demo_session_def key_location_def)
  have ms: "group_members [] ''g'' demo_groups = Ok [''alice'', ''bob'']" by (simp add: demo_groups_def group_members_def)
  have base: "td_dec_req demo_base b = Ok demo_message" "td_push_cut demo_base = None" "td_dispatcher demo_base l q = Ok ()"
    "td_unix_nano demo_base = 5" for b l q by (simp_all add: demo_base_def)
  obtain pushes where "snd (snd (do_group_talk demo_group_talk ?ctx Inner_default [])) = ack_response demo_group_talk ?ctx 100 5 # pushes"
    "pushes_to ?ctx demo_sessions {''alice'', ''bob''} (push_packet ?ctx (h_command (cx_header ?ctx))
        (td_enc_push demo_base (message_push 100 ?ctx demo_message 5))) pushes"
    using group_talk_reaches_members[OF demo_group_talk_def, of ?ctx demo_message "[''alice'', ''bob'']" 100 Inner_default "[]"]
      demo_group_ctx ms demo_filter base by (auto simp: Inner_default_def)
  moreover from this(2) loc have "\<exists>p \<in> set pushes. pu_gateway p = ''g'' \<and> ''c2'' \<in> set (pu_channels p)"
    unfolding pushes_to_def by (fastforce simp: demo_group_ctx)
  ultimately show ?thesis by blast
qed

theorem group_talk_correct_witness:
  "talk_refused (demo_talk_ctx ''g'') (hget (in_contents Inner_default))
      (hget (in_contents (fst (snd (do_group_talk demo_group_talk (demo_talk_ctx ''g'') Inner_default []))))) []
      (snd (snd (do_group_talk demo_group_talk (demo_talk_ctx ''g'') Inner_default [])))
   \<or> talk_acknowledged demo_group_talk (demo_talk_ctx ''g'') GroupMsg demo_message (hget (in_contents Inner_default))
      (hget (in_contents (fst (snd (do_group_talk demo_group_talk (demo_talk_ctx ''g'') Inner_default []))))) []
      (snd (snd (do_group_talk demo_group_talk (demo_talk_ctx ''g'') Inner_default [])))"
proof -
  have i: "Inner_default = mm_inner (message_store_new False)" by (simp add: message_store_new_def)
  obtain r s' log' where d: "do_group_talk demo_group_talk (demo_talk_ctx ''g'') Inner_default [] = (r, s', log')" by (metis prod_cases3)
  have dec: "td_dec_req demo_base b = Ok q \<Longrightarrow> q = demo_message" for b q by (simp add: demo_base_def)
  note c = group_talk_correct[OF msg_reach.start id_fresh_demo[unfolded i] d[unfolded i demo_group_talk_def]]
  show ?thesis using c[folded demo_group_talk_def i] dec unfolding d by auto
qed

end
