(* ===== verification/Kim_Hmac.thy ===== *)
theory Kim_Hmac
  imports Kim_Protocol
begin

text \<open>
  Authentication of internal HTTP requests: signing and verification of
  \<open>crates/kim-protocol/src/internal_hmac.rs\<close>, the nonce guard of \<open>services/chat/src/hmac_nonce.rs\<close>
  and the middleware \<open>require_hmac\<close> of \<open>services/royal/src/lib.rs\<close>. The keyed hash HMAC-SHA256 is a
  library function and the parameter \<open>mac\<close>; it accepts keys of any length.
\<close>

section \<open>Signatures\<close>

definition MAX_SKEW_SECS :: int where "MAX_SKEW_SECS = 60"
definition HMAC_NONCE_TTL_SECS :: nat where "HMAC_NONCE_TTL_SECS = 2 * nat MAX_SKEW_SECS + 1"
definition NONCE_MIN :: nat where "NONCE_MIN = 8"
definition NONCE_MAX :: nat where "NONCE_MAX = 128"

record HmacHeaders =
  hh_timestamp :: string
  hh_nonce :: string
  hh_signature :: string

type_synonym mac_fun = "byte list \<Rightarrow> byte list \<Rightarrow> byte list"

definition update_canonical :: "string \<Rightarrow> string \<Rightarrow> string \<Rightarrow> string \<Rightarrow> byte list \<Rightarrow> byte list" where
  "update_canonical method path timestamp nonce body =
     bytes_of_str method @ [10] @ bytes_of_str path @ [10] @ bytes_of_str timestamp @ [10] @ bytes_of_str nonce @ [10] @ body"

definition valid_nonce :: "string \<Rightarrow> bool" where
  "valid_nonce n \<longleftrightarrow> NONCE_MIN \<le> length n \<and> length n \<le> NONCE_MAX \<and> list_all is_ascii_alnum n"

definition hex_lut :: "nat \<Rightarrow> char" where
  "hex_lut n = ''0123456789abcdef'' ! n"

definition hex_encode :: "byte list \<Rightarrow> string" where
  "hex_encode bytes = concat (map (\<lambda>b. [hex_lut (unat b div 16), hex_lut (unat b mod 16)]) bytes)"

definition from_hex :: "char \<Rightarrow> nat option" where
  "from_hex c =
     (let b = (of_char c :: nat) in
      if 48 \<le> b \<and> b \<le> 57 then Some (b - 48)
      else if 97 \<le> b \<and> b \<le> 102 then Some (b - 97 + 10)
      else if 65 \<le> b \<and> b \<le> 70 then Some (b - 65 + 10) else None)"

fun hex_pairs :: "string \<Rightarrow> byte list option" where
  "hex_pairs (a # b # s) =
     (case from_hex a of
        None \<Rightarrow> None
      | Some hi \<Rightarrow> (case from_hex b of
            None \<Rightarrow> None
          | Some lo \<Rightarrow> map_option (\<lambda>out. word_of_nat (hi * 16 + lo) # out) (hex_pairs s)))"
| "hex_pairs _ = Some []"

definition hex_decode :: "string \<Rightarrow> byte list option" where
  "hex_decode s = (if length s mod 2 \<noteq> 0 then None else hex_pairs s)"

definition sign_at ::
  "mac_fun \<Rightarrow> string \<Rightarrow> byte list \<Rightarrow> string \<Rightarrow> string \<Rightarrow> byte list \<Rightarrow> int \<Rightarrow> ('e ProtocolError, HmacHeaders) result" where
  "sign_at mac nonce secret method path body now_ts =
     (if secret = [] then Err InvalidHmacSecret
      else let timestamp = show_int now_ts in
        Ok \<lparr>hh_timestamp = timestamp, hh_nonce = nonce,
            hh_signature = hex_encode (mac secret (update_canonical method path timestamp nonce body))\<rparr>)"

definition verify_at ::
  "mac_fun \<Rightarrow> byte list \<Rightarrow> string \<Rightarrow> string \<Rightarrow> byte list \<Rightarrow> HmacHeaders \<Rightarrow> int \<Rightarrow> bool" where
  "verify_at mac secret method path body headers now_ts =
     (if secret = [] then False
      else if \<not> valid_nonce (hh_nonce headers) then False
      else case parse_int i64_min i64_max (hh_timestamp headers) of
          None \<Rightarrow> False
        | Some ts \<Rightarrow>
            if \<bar>now_ts - ts\<bar> > MAX_SKEW_SECS then False
            else case hex_decode (hh_signature headers) of
                None \<Rightarrow> False
              | Some sig \<Rightarrow>
                  mac secret (update_canonical method path (hh_timestamp headers) (hh_nonce headers) body) = sig)"

section \<open>The nonce guard\<close>

text \<open>Instants are nanoseconds of the monotonic clock.\<close>

abbreviation NANOS_PER_SEC :: nat where "NANOS_PER_SEC \<equiv> 1000000000"

definition nonce_live :: "nat \<Rightarrow> nat \<Rightarrow> bool" where
  "nonce_live now t \<longleftrightarrow> (if t \<le> now then (now - t) div NANOS_PER_SEC < HMAC_NONCE_TTL_SECS else True)"

definition claim_at :: "string \<Rightarrow> nat \<Rightarrow> (string, nat) hmap \<Rightarrow> (string, bool) result \<times> (string, nat) hmap" where
  "claim_at nonce now seen =
     (let seen = hretain (\<lambda>_ t. nonce_live now t) seen in
      if hget seen nonce \<noteq> None then (Ok False, seen) else (Ok True, hput nonce now seen))"

section \<open>The middleware\<close>

record HttpRequest =
  hr_method :: string
  hr_path :: string
  hr_body :: "byte list"
  hr_headers :: HmacHeaders

datatype HmacDenial = HmacUnauthorized | PayloadTooLarge | HmacUnavailable

text \<open>The wall clock is read as whole seconds; it runs \<open>epoch\<close> nanoseconds ahead of the monotonic one.\<close>

definition now_unix :: "nat \<Rightarrow> nat \<Rightarrow> int" where
  "now_unix epoch now = int ((epoch + now) div NANOS_PER_SEC)"

definition require_hmac ::
  "mac_fun \<Rightarrow> byte list \<Rightarrow> nat \<Rightarrow> nat \<Rightarrow> HttpRequest \<Rightarrow> (string, nat) hmap \<Rightarrow> (HmacDenial, unit) result \<times> (string, nat) hmap" where
  "require_hmac mac secret epoch now req seen =
     (if length (hr_body req) > 4 * 1024 * 1024 then (Err PayloadTooLarge, seen)
      else if \<not> verify_at mac secret (hr_method req) (hr_path req) (hr_body req) (hr_headers req) (now_unix epoch now)
        then (Err HmacUnauthorized, seen)
      else case claim_at (hh_nonce (hr_headers req)) now seen of
          (Inr True, seen') \<Rightarrow> (Ok (), seen')
        | (Inr False, seen') \<Rightarrow> (Err HmacUnauthorized, seen')
        | (Inl _, seen') \<Rightarrow> (Err HmacUnavailable, seen'))"

fun serve_requests :: "mac_fun \<Rightarrow> byte list \<Rightarrow> nat \<Rightarrow> (nat \<times> HttpRequest) list \<Rightarrow> (string, nat) hmap \<Rightarrow> (string, nat) hmap" where
  "serve_requests mac secret epoch [] seen = seen"
| "serve_requests mac secret epoch ((now, req) # reqs) seen =
     serve_requests mac secret epoch reqs (snd (require_hmac mac secret epoch now req seen))"

section \<open>A signed request verifies, a changed one does not\<close>

lemma hex_lut_inv: "n < 16 \<Longrightarrow> from_hex (hex_lut n) = Some n"
proof -
  assume "n < 16"
  then have "n \<in> {0, 1, 2, 3, 4, 5, 6, 7, 8, 9, 10, 11, 12, 13, 14, 15}" by simp presburger
  then show ?thesis by (auto simp: from_hex_def hex_lut_def Let_def)
qed

lemma hex_decode_encode [kim_codec]: "hex_decode (hex_encode bs) = Some bs"
proof -
  have "length (hex_encode bs) = 2 * length bs" by (induction bs) (simp_all add: hex_encode_def)
  moreover have "hex_pairs (hex_encode bs) = Some bs"
  proof (induction bs)
    case (Cons b bs)
    have lt: "unat b < 256" using unsigned_less[of b, where 'a = nat] by simp
    have "hex_encode (b # bs) = hex_lut (unat b div 16) # hex_lut (unat b mod 16) # hex_encode bs" by (simp add: hex_encode_def)
    moreover have "from_hex (hex_lut (unat b div 16)) = Some (unat b div 16)" by (rule hex_lut_inv) (use lt in auto)
    moreover have "from_hex (hex_lut (unat b mod 16)) = Some (unat b mod 16)" by (rule hex_lut_inv) simp
    ultimately show ?case using Cons by simp
  qed (simp add: hex_encode_def)
  ultimately show ?thesis by (simp add: hex_decode_def)
qed

lemma append_nl_inj:
  assumes "CHR 0x0A \<notin> set a" "CHR 0x0A \<notin> set a'"
  shows "bytes_of_str a @ 10 # x = bytes_of_str a' @ 10 # y \<longleftrightarrow> a = a' \<and> x = y"
proof -
  have nl: "(10::byte) \<notin> set (bytes_of_str s)" if "CHR 0x0A \<notin> set s" for s
  proof
    assume "(10::byte) \<in> set (bytes_of_str s)"
    then obtain c where c: "c \<in> set s" "byte_of_char c = 10" by auto
    have "char_of_byte (byte_of_char c) = CHR 0x0A" unfolding c(2) by (simp add: char_of_byte_def char_of_def bit_simps)
    then show False using c(1) that by simp
  qed
  have "takeWhile (\<lambda>b. b \<noteq> 10) (bytes_of_str s @ 10 # z) = bytes_of_str s" if "CHR 0x0A \<notin> set s" for s z
    using nl[OF that] by (subst takeWhile_append2) auto
  then have "bytes_of_str a = bytes_of_str a'" if "bytes_of_str a @ 10 # x = bytes_of_str a' @ 10 # y"
    using assms that by metis
  moreover have "a = a'" if "bytes_of_str a = bytes_of_str a'" using arg_cong[OF that, of str_of_bytes] by (simp add: comp_def)
  ultimately show ?thesis by auto
qed

lemma update_canonical_inj:
  assumes "CHR 0x0A \<notin> set m" "CHR 0x0A \<notin> set m'" "CHR 0x0A \<notin> set p" "CHR 0x0A \<notin> set p'"
    and "CHR 0x0A \<notin> set t" "CHR 0x0A \<notin> set n"
  shows "update_canonical m p t n b = update_canonical m' p' t n b' \<longleftrightarrow> m = m' \<and> p = p' \<and> b = b'"
  using append_nl_inj[OF assms(1,2)] append_nl_inj[OF assms(3,4)] by (auto simp: update_canonical_def)

lemma show_int_no_nl: "CHR 0x0A \<notin> set (show_int i)"
  by (rule show_int_no_char) (simp_all add: is_digit_def)

lemma valid_nonce_no_nl: "valid_nonce n \<Longrightarrow> CHR 0x0A \<notin> set n"
  by (auto simp: valid_nonce_def list_all_iff is_ascii_alnum_def)

text \<open>A signed request verifies exactly within the clock skew, and only as it was signed. Headers
  made by \<open>sign_at\<close> at time \<open>now\<close> verify for the signed method, path and body exactly at the times
  within 60 seconds of \<open>now\<close>; if they verify for another method, path or body (method and path without
  line breaks), the keyed hash has a collision between the two canonical strings.\<close>

theorem hmac_sign_verify:
  assumes sign: "sign_at mac nonce secret method path body now = (Ok h :: ('e ProtocolError, HmacHeaders) result)"
    and "valid_nonce nonce" "i64_min \<le> now" "now \<le> i64_max"
    and "CHR 0x0A \<notin> set method" "CHR 0x0A \<notin> set method'" "CHR 0x0A \<notin> set path" "CHR 0x0A \<notin> set path'"
  shows "(verify_at mac secret method path body h now' \<longleftrightarrow> \<bar>now' - now\<bar> \<le> MAX_SKEW_SECS)
    \<and> (verify_at mac secret method' path' body' h now' \<longrightarrow> (method', path', body') = (method, path, body) \<or>
         (\<exists>x y. x \<noteq> y \<and> mac secret x = mac secret y))"
proof -
  have s: "secret \<noteq> []" "hh_timestamp h = show_int now" "hh_nonce h = nonce"
    "hh_signature h = hex_encode (mac secret (update_canonical method path (show_int now) nonce body))"
    using sign by (auto simp: sign_at_def Let_def split: if_splits)
  have v: "verify_at mac secret m p b h now' \<longleftrightarrow> \<bar>now' - now\<bar> \<le> MAX_SKEW_SECS
      \<and> mac secret (update_canonical m p (show_int now) nonce b) = mac secret (update_canonical method path (show_int now) nonce body)" for m p b
    using assms(2-4) s by (auto simp: verify_at_def parse_int_show_int hex_decode_encode)
  have "(method', path', body') = (method, path, body) \<or> update_canonical method' path' (show_int now) nonce body'
      \<noteq> update_canonical method path (show_int now) nonce body"
    using update_canonical_inj[OF assms(6,5,8,7) show_int_no_nl valid_nonce_no_nl[OF assms(2)]] by auto
  then show ?thesis using v by blast
qed

theorem hmac_sign_verify_witness:
  "verify_at (\<lambda>k m. k @ m) [1] ''POST'' ''/a'' [7]
     \<lparr>hh_timestamp = show_int 100, hh_nonce = ''abcd1234'',
      hh_signature = hex_encode ([1] @ update_canonical ''POST'' ''/a'' (show_int 100) ''abcd1234'' [7])\<rparr> 160"
proof -
  have s: "sign_at (\<lambda>k m. k @ m) ''abcd1234'' [1] ''POST'' ''/a'' [7] 100 = (Ok \<lparr>hh_timestamp = show_int 100, hh_nonce = ''abcd1234'',
      hh_signature = hex_encode ([1] @ update_canonical ''POST'' ''/a'' (show_int 100) ''abcd1234'' [7])\<rparr> :: (unit ProtocolError, HmacHeaders) result)"
    by (simp add: sign_at_def Let_def)
  have n: "valid_nonce ''abcd1234''" by (simp add: valid_nonce_def NONCE_MIN_def NONCE_MAX_def is_ascii_alnum_def)
  show ?thesis
    using hmac_sign_verify[OF s n, of "''POST''" "''/a''" 160 "[7]"] by (simp add: MAX_SKEW_SECS_def)
qed

section \<open>A replayed request is refused\<close>

lemma claim_at_keeps:
  assumes "hget seen n = Some t" "t \<le> now" "(now - t) div NANOS_PER_SEC < HMAC_NONCE_TTL_SECS" "hwf seen"
  shows "hget (snd (claim_at n' now seen)) n = Some t \<and> fst (claim_at n now seen) = Ok False \<and> hwf (snd (claim_at n' now seen))"
proof -
  have "hget (hretain (\<lambda>_ t. nonce_live now t) seen) n = Some t" using assms by (simp add: hget_hretain nonce_live_def)
  then show ?thesis using assms(4) by (auto simp: claim_at_def Let_def)
qed

lemma require_hmac_seen:
  "snd (require_hmac mac secret epoch now req seen) \<in> {seen, snd (claim_at (hh_nonce (hr_headers req)) now seen)}"
  by (auto simp: require_hmac_def split: prod.splits sum.splits bool.splits)

lemma require_hmac_keeps:
  assumes "hget seen n = Some t" "t \<le> now" "(now - t) div NANOS_PER_SEC < HMAC_NONCE_TTL_SECS" "hwf seen"
  shows "hget (snd (require_hmac mac secret epoch now req seen)) n = Some t \<and> hwf (snd (require_hmac mac secret epoch now req seen))"
  using require_hmac_seen[of mac secret epoch now req seen] claim_at_keeps[OF assms] assms(1,4) by auto

lemma serve_requests_keeps:
  assumes "hget seen n = Some t" "hwf seen" "\<And>now req. (now, req) \<in> set reqs \<Longrightarrow> t \<le> now \<and> now \<le> t2"
    and "(t2 - t) div NANOS_PER_SEC < HMAC_NONCE_TTL_SECS"
  shows "hget (serve_requests mac secret epoch reqs seen) n = Some t \<and> hwf (serve_requests mac secret epoch reqs seen)"
  using assms(1-3)
proof (induction reqs arbitrary: seen)
  case (Cons r reqs)
  obtain now req where r: "r = (now, req)" by (cases r)
  have b: "t \<le> now" "now \<le> t2" using Cons.prems(3)[of now req] r by auto
  then have "(now - t) div NANOS_PER_SEC \<le> (t2 - t) div NANOS_PER_SEC" by (intro div_le_mono) simp
  then have k: "(now - t) div NANOS_PER_SEC < HMAC_NONCE_TTL_SECS" using assms(4) by simp
  note keep = require_hmac_keeps[OF Cons.prems(1) b(1) k Cons.prems(2), of mac secret epoch req]
  show ?case using Cons.IH[OF conjunct1[OF keep] conjunct2[OF keep]] Cons.prems(3) r by auto
qed simp

lemma skew_bound:
  assumes "\<bar>now_unix epoch t1 - ts\<bar> \<le> MAX_SKEW_SECS" "\<bar>now_unix epoch t2 - ts\<bar> \<le> MAX_SKEW_SECS" "t1 \<le> t2"
  shows "(t2 - t1) div NANOS_PER_SEC < HMAC_NONCE_TTL_SECS"
proof -
  have "(epoch + t2) div NANOS_PER_SEC - (epoch + t1) div NANOS_PER_SEC \<le> 120"
    using assms(1,2) by (simp add: now_unix_def MAX_SKEW_SECS_def)
  moreover have "(t2 - t1) div NANOS_PER_SEC \<le> (epoch + t2) div NANOS_PER_SEC - (epoch + t1) div NANOS_PER_SEC"
    using div_add1_eq[of "epoch + t1" "t2 - t1" NANOS_PER_SEC] assms(3) by simp
  ultimately show ?thesis by (simp add: HMAC_NONCE_TTL_SECS_def MAX_SKEW_SECS_def)
qed

lemma require_hmac_Ok:
  assumes "require_hmac mac secret epoch now req seen = (Ok (), seen')" "hwf seen"
  shows "verify_at mac secret (hr_method req) (hr_path req) (hr_body req) (hr_headers req) (now_unix epoch now)
    \<and> hget seen' (hh_nonce (hr_headers req)) = Some now \<and> hwf seen'"
  using assms by (auto simp: require_hmac_def claim_at_def Let_def split: if_splits)

lemma verify_at_skew:
  assumes "verify_at mac secret m p b h now"
  shows "\<exists>ts. parse_int i64_min i64_max (hh_timestamp h) = Some ts \<and> \<bar>now - ts\<bar> \<le> MAX_SKEW_SECS"
  using assms by (auto simp: verify_at_def split: if_splits option.splits)

text \<open>C39: A captured request cannot be replayed. Once a request has been accepted, every later request
  with the same timestamp and nonce headers is refused, however much later it comes and whatever other
  requests were served in between: the guard remembers a nonce for longer than any timestamp stays
  inside the accepted clock skew.\<close>

theorem hmac_replay_refused:
  assumes "hwf seen" and first: "require_hmac mac secret epoch t1 req seen = (Ok (), seen1)"
    and between: "\<And>now r. (now, r) \<in> set reqs \<Longrightarrow> t1 \<le> now \<and> now \<le> t2" "t1 \<le> t2"
    and same: "hh_timestamp (hr_headers req2) = hh_timestamp (hr_headers req)" "hh_nonce (hr_headers req2) = hh_nonce (hr_headers req)"
  shows "fst (require_hmac mac secret epoch t2 req2 (serve_requests mac secret epoch reqs seen1)) \<noteq> Ok ()"
proof
  let ?n = "hh_nonce (hr_headers req)" and ?seen2 = "serve_requests mac secret epoch reqs seen1"
  assume acc: "fst (require_hmac mac secret epoch t2 req2 ?seen2) = Ok ()"
  note ok1 = require_hmac_Ok[OF first assms(1)]
  have v2: "verify_at mac secret (hr_method req2) (hr_path req2) (hr_body req2) (hr_headers req2) (now_unix epoch t2)"
    using acc by (auto simp: require_hmac_def split: if_splits)
  obtain ts where "\<bar>now_unix epoch t1 - ts\<bar> \<le> MAX_SKEW_SECS" "\<bar>now_unix epoch t2 - ts\<bar> \<le> MAX_SKEW_SECS"
    using verify_at_skew[OF conjunct1[OF ok1]] verify_at_skew[OF v2] same(1) by auto
  then have ttl: "(t2 - t1) div NANOS_PER_SEC < HMAC_NONCE_TTL_SECS" using skew_bound between(2) by blast
  have k: "hget ?seen2 ?n = Some t1 \<and> hwf ?seen2"
    by (rule serve_requests_keeps[where ?t2.0 = t2]) (use ok1 ttl between in auto)
  have "fst (claim_at ?n t2 ?seen2) = Ok False" using claim_at_keeps[OF _ between(2) ttl] k by blast
  then show False using acc same(2) by (auto simp: require_hmac_def split: if_splits prod.splits)
qed

theorem hmac_replay_refused_witness:
  "\<exists>req seen1. require_hmac (\<lambda>k m. k) [1] 0 100000000000 req [] = (Ok (), seen1)
     \<and> fst (require_hmac (\<lambda>k m. k) [1] 0 150000000000 req (serve_requests (\<lambda>k m. k) [1] 0 [] seen1)) \<noteq> Ok ()"
proof -
  let ?req = "\<lparr>hr_method = [], hr_path = [], hr_body = [],
     hr_headers = \<lparr>hh_timestamp = show_int 100, hh_nonce = ''abcd1234'', hh_signature = hex_encode [1]\<rparr>\<rparr>"
  have a: "require_hmac (\<lambda>k m. k) [1] 0 100000000000 ?req [] = (Ok (), [(''abcd1234'', 100000000000)])"
    by (simp add: require_hmac_def verify_at_def parse_int_show_int hex_decode_encode claim_at_def hretain_def now_unix_def
        valid_nonce_def NONCE_MIN_def NONCE_MAX_def is_ascii_alnum_def MAX_SKEW_SECS_def Let_def)
  show ?thesis
    using a hmac_replay_refused[OF _ a, of "[]" 150000000000 ?req] by (intro exI[of _ ?req] exI) auto
qed

end
