(* ===== verification/Kim_Token.thy ===== *)
theory Kim_Token
  imports Kim_Protocol
begin

text \<open>
  The tokens of \<open>kim-protocol/src/token.rs\<close>: the claims, what is checked when a token is issued and when
  one is parsed, and the keys under which revocations are stored. Signing and verifying a JWT
  (\<open>jsonwebtoken\<close>, HS256 with expiry validation) are arguments.
\<close>

section \<open>Claims\<close>

record Claims =
  cl_account :: string
  cl_app :: string
  cl_exp :: int
  cl_jti :: "string option"
  cl_ver :: nat
  cl_did :: "string option"

datatype JwtErrorKind = ExpiredSignature | InvalidSignature | JwtOther

type_synonym jwt_encode = "string \<Rightarrow> Claims \<Rightarrow> (JwtErrorKind, string) result"
type_synonym jwt_decode = "string \<Rightarrow> string \<Rightarrow> (JwtErrorKind, Claims) result"

definition token_revoke_key :: "string \<Rightarrow> string" where
  "token_revoke_key jti = ''kim:revoke:'' @ jti"

definition token_epoch_key :: "string \<Rightarrow> string" where
  "token_epoch_key account = ''kim:token_epoch:'' @ account"

definition device_hot_key :: "string \<Rightarrow> string" where
  "device_hot_key device_id = ''kim:device:'' @ device_id"

fun map_jwt :: "JwtErrorKind \<Rightarrow> 'e ProtocolError" where
  "map_jwt ExpiredSignature = TokenExpired"
| "map_jwt InvalidSignature = TokenSignature"
| "map_jwt JwtOther = InvalidToken"

definition is_ascii_control :: "char \<Rightarrow> bool" where
  "is_ascii_control c \<longleftrightarrow> of_char c < (32 :: nat) \<or> of_char c = (127 :: nat)"

definition check_account :: "string \<Rightarrow> ('e ProtocolError, unit) result" where
  "check_account account = (if account = [] \<or> list_ex is_ascii_control account then Err InvalidAccount else Ok ())"

text \<open>\<open>map(str::trim).filter(|s| !s.is_empty())\<close>.\<close>

definition nonblank :: "string option \<Rightarrow> string option" where
  "nonblank v = (case v of None \<Rightarrow> None | Some s \<Rightarrow> if trim s = [] then None else Some (trim s))"

section \<open>Issuing and parsing\<close>

definition generate_with_device ::
  "jwt_encode \<Rightarrow> string \<Rightarrow> string \<Rightarrow> string \<Rightarrow> int \<Rightarrow> string \<Rightarrow> nat \<Rightarrow> string option \<Rightarrow> ('e ProtocolError, string) result" where
  "generate_with_device jwt_enc secret account app exp jti ver did =
     res_bind (check_account account) (\<lambda>_.
       case jwt_enc secret \<lparr>cl_account = account, cl_app = app, cl_exp = exp, cl_jti = nonblank (Some jti),
              cl_ver = ver, cl_did = nonblank did\<rparr> of
         Inl e \<Rightarrow> Err (map_jwt e)
       | Inr token \<Rightarrow> Ok token)"

definition generate_with_session ::
  "jwt_encode \<Rightarrow> string \<Rightarrow> string \<Rightarrow> string \<Rightarrow> int \<Rightarrow> string \<Rightarrow> nat \<Rightarrow> ('e ProtocolError, string) result" where
  "generate_with_session jwt_enc secret account app exp jti ver = generate_with_device jwt_enc secret account app exp jti ver None"

definition generate_with_jti ::
  "jwt_encode \<Rightarrow> string \<Rightarrow> string \<Rightarrow> string \<Rightarrow> int \<Rightarrow> string \<Rightarrow> ('e ProtocolError, string) result" where
  "generate_with_jti jwt_enc secret account app exp jti = generate_with_session jwt_enc secret account app exp jti 0"

definition parse_token :: "jwt_decode \<Rightarrow> string \<Rightarrow> string \<Rightarrow> ('e ProtocolError, Claims) result" where
  "parse_token jwt_dec secret token =
     (case jwt_dec secret token of
        Inl e \<Rightarrow> Err (map_jwt e)
      | Inr claims \<Rightarrow> res_bind (check_account (cl_account claims)) (\<lambda>_. Ok claims))"

section \<open>Lemmas\<close>

lemma check_account_Ok: "check_account a = Ok () \<longleftrightarrow> a \<noteq> [] \<and> list_all (\<lambda>c. \<not> is_ascii_control c) a"
  by (simp add: check_account_def list_ex_iff list_all_iff)

lemma parse_token_account: "parse_token jwt_dec secret token = Ok c \<Longrightarrow> jwt_dec secret token = Ok c \<and> cl_account c \<noteq> []"
  by (auto simp: parse_token_def check_account_def res_bind_eq_Inr split: sum.splits if_splits)

text \<open>A token that was issued parses to the claims it was issued for, when decoding undoes encoding: the
  account and application are unchanged, blank session and device identifiers are absent.\<close>

lemma token_roundtrip:
  assumes "generate_with_device jwt_enc secret account app exp jti ver did = (Ok token :: ('e ProtocolError, string) result)"
    and "\<And>c. jwt_enc secret c = Ok token \<Longrightarrow> jwt_dec secret token = Ok c"
  shows "parse_token jwt_dec secret token = Ok \<lparr>cl_account = account, cl_app = app, cl_exp = exp,
    cl_jti = nonblank (Some jti), cl_ver = ver, cl_did = nonblank did\<rparr>"
  using assms by (auto simp: generate_with_device_def parse_token_def check_account_def res_bind_eq_Inr split: sum.splits if_splits)

end
