(* ===== verification/Kim_Routing.thy ===== *)
theory Kim_Routing
  imports Kim_Token
begin

text \<open>
  Where a request goes: the static service registry of \<open>kim-naming\<close>, the choice of a chat instance by
  channel (\<open>kim-container/src/selector.rs\<close>) or by zone (\<open>services/gateway/src/selector.rs\<close>), and the choice
  of a gateway for a client (\<open>services/router/src/lookup.rs\<close>). The CRC-32 of \<open>crc32fast\<close> is an argument.
\<close>

section \<open>Registrations\<close>

record DefaultRegistration =
  rg_service_id :: string
  rg_service_name :: string
  rg_protocol :: string
  rg_public_address :: string
  rg_public_port :: "16 word"
  rg_tags :: "string list"
  rg_meta :: "(string, string) hmap"

definition dial_url :: "DefaultRegistration \<Rightarrow> string" where
  "dial_url r = rg_public_address r @ '':'' @ show_nat (unat (rg_public_port r))"

section \<open>The static registry\<close>

text \<open>A callback is a value of type \<open>'cb\<close>; an operation returns the calls it makes.\<close>

record 'cb StaticNaming =
  na_by_id :: "(string, DefaultRegistration) hmap"
  na_subs :: "(string, 'cb list) hmap"

definition naming_from_slice :: "DefaultRegistration list \<Rightarrow> 'cb StaticNaming" where
  "naming_from_slice regs = \<lparr>na_by_id = foldl (\<lambda>m r. hput (rg_service_id r) r m) [] regs, na_subs = []\<rparr>"

definition naming_snapshot :: "'cb StaticNaming \<Rightarrow> string \<Rightarrow> DefaultRegistration list" where
  "naming_snapshot n name = filter (\<lambda>r. rg_service_name r = name) (map snd (na_by_id n))"

definition tag_match :: "DefaultRegistration \<Rightarrow> string list \<Rightarrow> bool" where
  "tag_match reg tags \<longleftrightarrow> list_all (\<lambda>t. t \<in> set (rg_tags reg)) tags"

definition naming_find :: "string \<Rightarrow> string list \<Rightarrow> 'cb StaticNaming \<Rightarrow> DefaultRegistration list" where
  "naming_find name tags n =
     (let lst = naming_snapshot n name in if tags \<noteq> [] then filter (\<lambda>r. tag_match r tags) lst else lst)"

definition naming_calls :: "string \<Rightarrow> 'cb StaticNaming \<Rightarrow> ('cb \<times> DefaultRegistration list) list" where
  "naming_calls name n =
     map (\<lambda>cb. (cb, naming_snapshot n name)) (case hget (na_subs n) name of None \<Rightarrow> [] | Some cbs \<Rightarrow> cbs)"

definition naming_subscribe :: "string \<Rightarrow> 'cb \<Rightarrow> 'cb StaticNaming \<Rightarrow> 'cb StaticNaming" where
  "naming_subscribe name callback n =
     n\<lparr>na_subs := hput name ((case hget (na_subs n) name of None \<Rightarrow> [] | Some cbs \<Rightarrow> cbs) @ [callback]) (na_subs n)\<rparr>"

definition naming_unsubscribe :: "string \<Rightarrow> 'cb StaticNaming \<Rightarrow> 'cb StaticNaming" where
  "naming_unsubscribe name n = n\<lparr>na_subs := hdel name (na_subs n)\<rparr>"

definition naming_register ::
  "DefaultRegistration \<Rightarrow> 'cb StaticNaming \<Rightarrow> ('cb \<times> DefaultRegistration list) list \<times> 'cb StaticNaming" where
  "naming_register service n =
     (let n' = n\<lparr>na_by_id := hput (rg_service_id service) service (na_by_id n)\<rparr>
      in (naming_calls (rg_service_name service) n', n'))"

definition naming_deregister ::
  "string \<Rightarrow> 'cb StaticNaming \<Rightarrow> ('cb \<times> DefaultRegistration list) list \<times> 'cb StaticNaming" where
  "naming_deregister service_id n =
     (case hget (na_by_id n) service_id of
        None \<Rightarrow> ([], n)
      | Some old \<Rightarrow>
          let n' = n\<lparr>na_by_id := hdel service_id (na_by_id n)\<rparr> in (naming_calls (rg_service_name old) n', n'))"

section \<open>Slots\<close>

fun build_slots_from :: "nat \<Rightarrow> nat list \<Rightarrow> nat list" where
  "build_slots_from i [] = []"
| "build_slots_from i (w # ws) = replicate w i @ build_slots_from (Suc i) ws"

definition build_slots :: "nat list \<Rightarrow> nat list" where
  "build_slots weights = build_slots_from 0 weights"

lemma build_slots_from_count:
  "count_list (build_slots_from i ws) j = (if i \<le> j \<and> j < i + length ws then ws ! (j - i) else 0)"
proof (induction i ws rule: build_slots_from.induct)
  case (2 i w ws)
  have r: "count_list (replicate w i) j = (if j = i then w else 0)" by (induction w) auto
  show ?case using 2 by (auto simp: r nth_Cons')
qed simp

lemma build_slots_count: "count_list (build_slots ws) j = (if j < length ws then ws ! j else 0)"
  by (simp add: build_slots_def build_slots_from_count)

lemma build_slots_range: "j \<in> set (build_slots ws) \<Longrightarrow> j < length ws"
  using build_slots_count[of ws j] by (cases "j < length ws") (auto simp: count_list_0_iff)

section \<open>Choosing an instance\<close>

text \<open>Indexing that panics out of range is \<open>None\<close>.\<close>

definition index :: "'a list \<Rightarrow> nat \<Rightarrow> 'a option" where
  "index xs i = (if i < length xs then Some (xs ! i) else None)"

definition hash_pick :: "(byte list \<Rightarrow> 32 word) \<Rightarrow> string \<Rightarrow> DefaultRegistration list \<Rightarrow> string option" where
  "hash_pick crc key srvs =
     (if srvs = [] then None
      else Some (rg_service_id (srvs ! (unat (crc (bytes_of_str key)) mod length srvs))))"

definition HashSelector :: "(byte list \<Rightarrow> 32 word) \<Rightarrow> Header \<Rightarrow> DefaultRegistration list \<Rightarrow> string option" where
  "HashSelector crc header srvs =
     (if srvs = [] then None
      else Some (rg_service_id (srvs ! (unat (crc (bytes_of_str (h_channel_id header))) mod length srvs))))"

datatype RouteBy = RouteByAccount | RouteByApp

record ZoneFile =
  zf_id :: string
  zf_weight :: nat

record RouteFile =
  rf_route_by :: string
  rf_zones :: "ZoneFile list"
  rf_whitelist :: "(string, string) hmap"

record Route =
  rt_route_by :: RouteBy
  rt_zones :: "ZoneFile list"
  rt_whitelist :: "(string, string) hmap"
  rt_slots :: "nat list"

definition Route_from_config :: "RouteFile \<Rightarrow> Route" where
  "Route_from_config file =
     \<lparr>rt_route_by = (if eq_ignore_ascii_case (rf_route_by file) ''app'' then RouteByApp else RouteByAccount),
      rt_zones = rf_zones file, rt_whitelist = rf_whitelist file,
      rt_slots = build_slots (map zf_weight (rf_zones file))\<rparr>"

definition header_meta :: "Header \<Rightarrow> string \<Rightarrow> string" where
  "header_meta header key = (case List.find (\<lambda>m. m_key m = key) (h_meta header) of None \<Rightarrow> [] | Some m \<Rightarrow> m_value m)"

definition in_zone :: "DefaultRegistration \<Rightarrow> string \<Rightarrow> bool" where
  "in_zone reg zone \<longleftrightarrow> hget (rg_meta reg) ''zone'' = Some zone \<or> (''zone:'' @ zone) \<in> set (rg_tags reg)"

text \<open>The zone of a request: \<open>Inl\<close> when the instance is chosen without a zone, \<open>Inr (zone, whitelisted)\<close> otherwise;
  \<open>None\<close> is an index out of range.\<close>

definition route_zone ::
  "(byte list \<Rightarrow> 32 word) \<Rightarrow> Route \<Rightarrow> Header \<Rightarrow> (unit + string \<times> bool) option" where
  "route_zone crc route header =
     (let app = header_meta header META_APP; account = header_meta header META_ACCOUNT in
      if app = [] \<and> account = [] then Some (Inl ())
      else case hget (rt_whitelist route) account of
          Some z \<Rightarrow> Some (Inr (z, True))
        | None \<Rightarrow>
            if rt_slots route = [] \<or> rt_zones route = [] then Some (Inl ())
            else
              let key = (case rt_route_by route of
                           RouteByApp \<Rightarrow> app
                         | RouteByAccount \<Rightarrow> if account = [] then h_channel_id header else account);
                  slot = unat (crc (bytes_of_str key)) mod length (rt_slots route)
              in map_option (\<lambda>z. Inr (zf_id z, False)) (index (rt_zones route) (rt_slots route ! slot)))"

definition RouteSelector_lookup ::
  "(byte list \<Rightarrow> 32 word) \<Rightarrow> Route \<Rightarrow> Header \<Rightarrow> DefaultRegistration list \<Rightarrow> string option option" where
  "RouteSelector_lookup crc route header srvs =
     (if srvs = [] then Some None
      else map_option (\<lambda>zone. case zone of
          Inl _ \<Rightarrow> hash_pick crc (h_channel_id header) srvs
        | Inr (zone_id, from_whitelist) \<Rightarrow>
            let zone_srvs = filter (\<lambda>r. in_zone r zone_id) srvs;
                account = header_meta header META_ACCOUNT;
                pick_key = (if account = [] then h_channel_id header else account)
            in if zone_srvs = [] then (if from_whitelist then None else hash_pick crc pick_key srvs)
               else hash_pick crc pick_key zone_srvs)
        (route_zone crc route header))"

lemma hash_pick_in: "hash_pick crc key srvs = Some i \<Longrightarrow> \<exists>r \<in> set srvs. rg_service_id r = i"
  by (auto simp: hash_pick_def split: if_splits)

lemma hash_pick_None: "hash_pick crc key srvs = None \<longleftrightarrow> srvs = []"
  by (simp add: hash_pick_def)

lemma route_zone_in_range: "route_zone crc (Route_from_config file) header \<noteq> None"
proof -
  let ?r = "Route_from_config file"
  have "rt_slots ?r ! (n mod length (rt_slots ?r)) < length (rt_zones ?r)" if "rt_slots ?r \<noteq> []" for n
    using build_slots_range[OF nth_mem, of _ "map zf_weight (rf_zones file)"] that by (simp add: Route_from_config_def)
  then show ?thesis by (auto simp: route_zone_def Let_def index_def split: option.splits)
qed

lemma route_lookup_in:
  assumes "RouteSelector_lookup crc route header srvs = Some (Some i)"
  shows "\<exists>r \<in> set srvs. rg_service_id r = i"
proof -
  have ne: "srvs \<noteq> []" using assms by (auto simp: RouteSelector_lookup_def)
  then obtain z where z: "route_zone crc route header = Some z" using assms by (auto simp: RouteSelector_lookup_def)
  show ?thesis
    using assms z ne by (auto simp: RouteSelector_lookup_def Let_def split: sum.splits if_splits dest!: hash_pick_in) blast+
qed

text \<open>Zone routing is total and respects the zones. A selector built from any configuration never indexes
  out of range. While instances exist, an account on the whitelist is sent to an instance of its zone,
  and to none when the zone has no instance; every other request is sent to some instance. With an
  account in the header, and a configuration that has slots, the choice does not depend on the connection;
  without slots the request is hashed by its channel.\<close>

theorem zone_routing_sound:
  assumes "srvs \<noteq> []"
  shows "\<exists>choice. RouteSelector_lookup crc (Route_from_config file) header srvs = Some choice
    \<and> (\<forall>i. choice = Some i \<longrightarrow> (\<exists>r \<in> set srvs. rg_service_id r = i))
    \<and> (case hget (rf_whitelist file) (header_meta header META_ACCOUNT) of
         Some z \<Rightarrow> header_meta header META_ACCOUNT \<noteq> [] \<longrightarrow>
           (case choice of None \<Rightarrow> \<forall>r \<in> set srvs. \<not> in_zone r z | Some i \<Rightarrow> \<exists>r \<in> set srvs. in_zone r z \<and> rg_service_id r = i)
       | None \<Rightarrow> choice \<noteq> None)
    \<and> (header_meta header META_ACCOUNT \<noteq> [] \<longrightarrow> rt_slots (Route_from_config file) \<noteq> [] \<longrightarrow>
         RouteSelector_lookup crc (Route_from_config file) (header\<lparr>h_channel_id := c\<rparr>) srvs = Some choice)"
proof -
  let ?r = "Route_from_config file" and ?acc = "header_meta header META_ACCOUNT"
  obtain z where z: "route_zone crc ?r header = Some z"
    using route_zone_in_range by fastforce
  obtain choice where ch: "RouteSelector_lookup crc ?r header srvs = Some choice"
    using assms z by (simp add: RouteSelector_lookup_def)
  have wl: "rt_whitelist ?r = rf_whitelist file" by (simp add: Route_from_config_def)
  have meta: "header_meta (header\<lparr>h_channel_id := c\<rparr>) = header_meta header" by (simp add: header_meta_def fun_eq_iff)
  have "\<exists>r \<in> set srvs. rg_service_id r = i" if "choice = Some i" for i
    using ch that by (simp add: route_lookup_in)
  moreover have "case hget (rf_whitelist file) ?acc of
         Some z \<Rightarrow> ?acc \<noteq> [] \<longrightarrow>
           (case choice of None \<Rightarrow> \<forall>r \<in> set srvs. \<not> in_zone r z | Some i \<Rightarrow> \<exists>r \<in> set srvs. in_zone r z \<and> rg_service_id r = i)
       | None \<Rightarrow> choice \<noteq> None"
  proof (cases "hget (rf_whitelist file) ?acc")
    case None
    then have "z = Inl () \<or> (\<exists>w. z = Inr (w, False))"
      using z wl by (auto simp: route_zone_def Let_def split: if_splits)
    then show ?thesis
      using None ch z assms by (auto simp: RouteSelector_lookup_def Let_def hash_pick_def split: if_splits)
  next
    case (Some w)
    have "z = Inr (w, True)" if "?acc \<noteq> []" using z wl Some that by (auto simp: route_zone_def Let_def)
    then show ?thesis
      using Some ch z assms
      by (auto simp: RouteSelector_lookup_def Let_def filter_empty_conv hash_pick_None split: if_splits option.splits dest!: hash_pick_in)
  qed
  moreover have "RouteSelector_lookup crc ?r (header\<lparr>h_channel_id := c\<rparr>) srvs = Some choice"
    if "?acc \<noteq> []" "rt_slots ?r \<noteq> []"
  proof -
    have "rt_zones ?r \<noteq> []" using that(2) by (auto simp: Route_from_config_def build_slots_def)
    then have "route_zone crc ?r (header\<lparr>h_channel_id := c\<rparr>) = route_zone crc ?r header" "z \<noteq> Inl ()"
      using that z by (auto simp: route_zone_def Let_def meta split: option.splits RouteBy.splits)
    then show ?thesis using ch z assms that(1) by (auto simp: RouteSelector_lookup_def Let_def meta split: sum.splits)
  qed
  ultimately show ?thesis using ch by blast
qed

definition demo_reg :: "string \<Rightarrow> string \<Rightarrow> DefaultRegistration" where
  "demo_reg i tag = \<lparr>rg_service_id = i, rg_service_name = ''chat'', rg_protocol = ''ws'', rg_public_address = ''h'', rg_public_port = 1,
     rg_tags = [tag], rg_meta = []\<rparr>"

definition demo_route :: RouteFile where
  "demo_route = \<lparr>rf_route_by = ''account'', rf_zones = [\<lparr>zf_id = ''local'', zf_weight = 100\<rparr>, \<lparr>zf_id = ''gray'', zf_weight = 0\<rparr>],
     rf_whitelist = [(''alice'', ''gray'')]\<rparr>"

theorem zone_routing_sound_witness:
  "RouteSelector_lookup (\<lambda>_. 5) (Route_from_config demo_route) (Header_default\<lparr>h_meta := [\<lparr>m_key = META_ACCOUNT, m_value = ''alice''\<rparr>]\<rparr>)
     [demo_reg ''chat-1'' ''zone:local'', demo_reg ''chat-2'' ''zone:gray''] = Some (Some ''chat-2'')"
proof -
  let ?h = "Header_default\<lparr>h_meta := [\<lparr>m_key = META_ACCOUNT, m_value = ''alice''\<rparr>]\<rparr>"
  let ?s = "[demo_reg ''chat-1'' ''zone:local'', demo_reg ''chat-2'' ''zone:gray'']"
  have m: "header_meta ?h META_ACCOUNT = ''alice''" by (simp add: header_meta_def)
  have w: "hget (rf_whitelist demo_route) ''alice'' = Some ''gray''" by (simp add: demo_route_def)
  have z: "{r \<in> set ?s. in_zone r ''gray''} = {demo_reg ''chat-2'' ''zone:gray''}"
    by (auto simp: in_zone_def demo_reg_def)
  obtain ch where c: "RouteSelector_lookup (\<lambda>_. 5) (Route_from_config demo_route) ?h ?s = Some ch"
    "case ch of None \<Rightarrow> \<forall>r \<in> set ?s. \<not> in_zone r ''gray'' | Some i \<Rightarrow> \<exists>r \<in> set ?s. in_zone r ''gray'' \<and> rg_service_id r = i"
    using zone_routing_sound[of ?s "\<lambda>_. 5" demo_route ?h] m w by auto
  then have "ch = Some ''chat-2''" using z by (cases ch) (auto simp: demo_reg_def in_zone_def)
  then show ?thesis using c(1) by simp
qed

section \<open>Choosing a gateway\<close>

text \<open>Addresses are values of an abstract type with the operations the code uses.\<close>

record LookupResp =
  lr_utc :: int
  lr_location :: string
  lr_ws :: string
  lr_tcp :: string

record 'ip StaticIpRegion =
  ir_default_location :: string
  ir_map :: "('ip, string) hmap"

definition StaticIpRegion_country :: "('ip \<Rightarrow> bool) \<Rightarrow> 'ip StaticIpRegion \<Rightarrow> 'ip \<Rightarrow> string" where
  "StaticIpRegion_country is_loopback geo ip =
     (if is_loopback ip then ir_default_location geo
      else case hget (ir_map geo) ip of None \<Rightarrow> ir_default_location geo | Some l \<Rightarrow> l)"

record RegionMapping =
  mp_country :: string
  mp_region :: string

record Idc =
  idc_id :: string
  idc_weight :: nat

record Region =
  re_id :: string
  re_idcs :: "Idc list"
  re_slots :: "nat list"

definition Region_new :: "string \<Rightarrow> Idc list \<Rightarrow> Region" where
  "Region_new i idcs = \<lparr>re_id = i, re_idcs = idcs, re_slots = build_slots (map idc_weight idcs)\<rparr>"

datatype LookupError = NoGateway | BadConfig | LookupUnauthorized | LookupOther string

record 'ip Lookup =
  lk_find :: "string \<Rightarrow> string list \<Rightarrow> (string, DefaultRegistration list) result"
  lk_geo :: "'ip \<Rightarrow> string"
  lk_default_region :: string
  lk_mapping :: "RegionMapping list"
  lk_regions :: "Region list"
  lk_jwt_secret :: string

definition claims_hash_key :: "Claims \<Rightarrow> string" where
  "claims_hash_key claims =
     (case nonblank (cl_jti claims) of Some jti \<Rightarrow> cl_account claims @ '':'' @ jti | None \<Rightarrow> cl_account claims)"

definition hash_key :: "jwt_decode \<Rightarrow> ('ip \<Rightarrow> string) \<Rightarrow> 'ip \<Rightarrow> string \<Rightarrow> string \<Rightarrow> (LookupError, string) result" where
  "hash_key jwt_dec show_ip ip token secret =
     (if token = [] then Ok (show_ip ip)
      else case (parse_token jwt_dec secret token :: (unit ProtocolError, Claims) result) of
          Inl _ \<Rightarrow> Err LookupUnauthorized
        | Inr claims \<Rightarrow> if cl_app claims \<noteq> ''kim'' then Err LookupUnauthorized else Ok (claims_hash_key claims))"

text \<open>\<open>None\<close> is an index out of range; \<open>Some None\<close> a region without an IDC.\<close>

definition pick_idc :: "(byte list \<Rightarrow> 32 word) \<Rightarrow> Region \<Rightarrow> string \<Rightarrow> string option option" where
  "pick_idc crc region key =
     (if re_slots region = [] then Some (case re_idcs region of [] \<Rightarrow> None | i # _ \<Rightarrow> Some (idc_id i))
      else map_option (\<lambda>i. Some (idc_id i))
        (index (re_idcs region) (re_slots region ! (unat (crc (bytes_of_str key)) mod length (re_slots region)))))"

definition gateway_url :: "DefaultRegistration \<Rightarrow> string" where
  "gateway_url r =
     (case hget (rg_meta r) ''domain'' of
        Some d \<Rightarrow> d
      | None \<Rightarrow> if rg_protocol r = ''ws'' then ''ws://'' @ dial_url r @ ''/'' else dial_url r)"

definition pick_one :: "(byte list \<Rightarrow> 32 word) \<Rightarrow> DefaultRegistration list \<Rightarrow> string \<Rightarrow> string" where
  "pick_one crc lst key = gateway_url (lst ! (unat (crc (bytes_of_str key)) mod length lst))"

definition pick_gateways ::
  "(byte list \<Rightarrow> 32 word) \<Rightarrow> 'ip Lookup \<Rightarrow> string \<Rightarrow> string \<Rightarrow> (LookupError, string \<times> string) result" where
  "pick_gateways crc lk idc key =
     (case lk_find lk ''wgateway'' [''IDC:'' @ idc] of
        Inl e \<Rightarrow> Err (LookupOther e)
      | Inr ws_list \<Rightarrow>
          if ws_list = [] then Err NoGateway
          else case lk_find lk ''tgateway'' [''IDC:'' @ idc] of
              Inl e \<Rightarrow> Err (LookupOther e)
            | Inr tcp_list \<Rightarrow> Ok (pick_one crc ws_list key, if tcp_list = [] then [] else pick_one crc tcp_list key))"

definition region_of :: "'ip Lookup \<Rightarrow> string \<Rightarrow> string" where
  "region_of lk location =
     (case List.find (\<lambda>m. mp_country m = location) (lk_mapping lk) of None \<Rightarrow> lk_default_region lk | Some m \<Rightarrow> mp_region m)"

definition fallback_idc :: "'ip Lookup \<Rightarrow> string option" where
  "fallback_idc lk =
     (case List.find (\<lambda>r. re_id r = lk_default_region lk) (lk_regions lk) of
        None \<Rightarrow> None
      | Some r \<Rightarrow> (case re_idcs r of [] \<Rightarrow> None | i # _ \<Rightarrow> Some (idc_id i)))"

text \<open>The outer \<open>None\<close> is an index out of range.\<close>

definition gateway_lookup ::
  "jwt_decode \<Rightarrow> ('ip \<Rightarrow> string) \<Rightarrow> (byte list \<Rightarrow> 32 word) \<Rightarrow> int \<Rightarrow> 'ip Lookup \<Rightarrow> 'ip \<Rightarrow> string
   \<Rightarrow> (LookupError, LookupResp) result option" where
  "gateway_lookup jwt_dec show_ip crc now lk ip token =
     (let location = lk_geo lk ip in
      case List.find (\<lambda>r. re_id r = region_of lk location) (lk_regions lk) of
        None \<Rightarrow> Some (Err BadConfig)
      | Some reg \<Rightarrow>
          (case hash_key jwt_dec show_ip ip token (lk_jwt_secret lk) of
             Inl e \<Rightarrow> Some (Err e)
           | Inr key \<Rightarrow>
               map_option (\<lambda>idc. case idc of
                   None \<Rightarrow> Err BadConfig
                 | Some idc \<Rightarrow>
                     (case pick_gateways crc lk idc key of
                        Inr (ws, tcp) \<Rightarrow> Ok \<lparr>lr_utc = now, lr_location = location, lr_ws = ws, lr_tcp = tcp\<rparr>
                      | Inl NoGateway \<Rightarrow>
                          (case fallback_idc lk of
                             None \<Rightarrow> Err NoGateway
                           | Some fidc \<Rightarrow>
                               res_bind (pick_gateways crc lk fidc key)
                                 (\<lambda>(ws, tcp). Ok \<lparr>lr_utc = now, lr_location = location, lr_ws = ws, lr_tcp = tcp\<rparr>))
                      | Inl e \<Rightarrow> Err e))
                 (pick_idc crc reg key)))"

lemma pick_one_in: "lst \<noteq> [] \<Longrightarrow> \<exists>r \<in> set lst. pick_one crc lst key = gateway_url r"
  by (auto simp: pick_one_def)

text \<open>The two addresses are those of gateways registered in one data centre.\<close>

definition registered_at :: "'ip Lookup \<Rightarrow> string \<Rightarrow> string \<Rightarrow> string \<Rightarrow> bool" where
  "registered_at lk idc ws tcp \<longleftrightarrow>
     (case lk_find lk ''wgateway'' [''IDC:'' @ idc] of Inl _ \<Rightarrow> False | Inr l \<Rightarrow> ws \<in> gateway_url ` set l)
     \<and> (case lk_find lk ''tgateway'' [''IDC:'' @ idc] of
          Inl _ \<Rightarrow> False | Inr l \<Rightarrow> if l = [] then tcp = [] else tcp \<in> gateway_url ` set l)"

lemma pick_gateways_Ok:
  assumes "pick_gateways crc lk idc key = Ok (ws, tcp)"
  shows "registered_at lk idc ws tcp"
proof -
  obtain l m where l: "lk_find lk ''wgateway'' [''IDC:'' @ idc] = Ok l" "l \<noteq> []" "ws = pick_one crc l key"
    and m: "lk_find lk ''tgateway'' [''IDC:'' @ idc] = Ok m" "tcp = (if m = [] then [] else pick_one crc m key)"
    using assms by (auto simp: pick_gateways_def split: sum.splits if_splits)
  have "ws \<in> gateway_url ` set l" using pick_one_in[OF l(2)] l(3) by auto
  moreover have "m \<noteq> [] \<Longrightarrow> tcp \<in> gateway_url ` set m" using pick_one_in[of m] m(2) by auto
  ultimately show ?thesis using l(1) m by (simp add: registered_at_def)
qed

lemma pick_idc_in_range: "pick_idc crc (Region_new i idcs) key \<noteq> None"
proof -
  let ?s = "build_slots (map idc_weight idcs)"
  have "?s ! (n mod length ?s) < length idcs" if "?s \<noteq> []" for n
    using build_slots_range[OF nth_mem, of _ "map idc_weight idcs"] that by simp
  then show ?thesis by (auto simp: pick_idc_def Region_new_def index_def)
qed

text \<open>A client is sent to a registered gateway. With regions built from the configuration the lookup never
  indexes out of range. When it answers, the WebSocket address is that of an instance registered as
  \<open>wgateway\<close> in one data centre, the TCP address that of a \<open>tgateway\<close> of the same data centre, empty
  exactly when there is none; and a token that does not verify, or is for another application, is answered
  with an error.\<close>

theorem gateway_lookup_sound:
  assumes "\<forall>r \<in> set (lk_regions lk). \<exists>i idcs. r = Region_new i idcs"
  shows "\<exists>res. gateway_lookup jwt_dec show_ip crc now lk ip token = Some res
    \<and> (\<forall>resp. res = Ok resp \<longrightarrow>
        (\<exists>idc. registered_at lk idc (lr_ws resp) (lr_tcp resp))
        \<and> (token \<noteq> [] \<longrightarrow> (\<exists>c. jwt_dec (lk_jwt_secret lk) token = Ok c \<and> cl_app c = ''kim'')))"
proof (cases "List.find (\<lambda>r. re_id r = region_of lk (lk_geo lk ip)) (lk_regions lk)")
  case None
  then show ?thesis by (simp add: gateway_lookup_def Let_def)
next
  case (Some reg)
  then obtain i idcs where reg: "reg = Region_new i idcs" using assms by (metis find_Some_iff nth_mem)
  show ?thesis
  proof (cases "hash_key jwt_dec show_ip ip token (lk_jwt_secret lk)")
    case (Inl e)
    then show ?thesis using Some by (simp add: gateway_lookup_def Let_def)
  next
    case (Inr key)
    obtain idc where idc: "pick_idc crc reg key = Some idc" using pick_idc_in_range reg by blast
    have tok: "token \<noteq> [] \<longrightarrow> (\<exists>c. jwt_dec (lk_jwt_secret lk) token = Ok c \<and> cl_app c = ''kim'')"
      using Inr by (auto simp: hash_key_def split: if_splits sum.splits dest!: parse_token_account)
    show ?thesis
      using Some Inr idc tok pick_gateways_Ok[of crc lk _ key]
      by (auto simp: gateway_lookup_def Let_def res_bind_eq_Inr split: option.splits sum.splits LookupError.splits) blast+
  qed
qed

definition demo_lookup :: "nat Lookup" where
  "demo_lookup = \<lparr>lk_find = \<lambda>name tags. Ok (if name = ''wgateway'' then [demo_reg ''wg-1'' ''IDC:a''] else []), lk_geo = \<lambda>_. ''cn'',
     lk_default_region = ''r'', lk_mapping = [], lk_regions = [Region_new ''r'' [\<lparr>idc_id = ''a'', idc_weight = 1\<rparr>]],
     lk_jwt_secret = ''s''\<rparr>"

theorem gateway_lookup_sound_witness:
  "\<exists>resp. gateway_lookup (\<lambda>_ _. Err JwtOther) show_nat (\<lambda>_. 3) 9 demo_lookup 7 [] = Some (Ok resp)
    \<and> lr_ws resp = gateway_url (demo_reg ''wg-1'' ''IDC:a'') \<and> lr_tcp resp = []"
proof -
  have "\<exists>resp. gateway_lookup (\<lambda>_ _. Err JwtOther) show_nat (\<lambda>_. 3) 9 demo_lookup 7 [] = Some (Ok resp)"
    by (simp add: gateway_lookup_def demo_lookup_def region_of_def Region_new_def hash_key_def pick_idc_def build_slots_def
      index_def pick_gateways_def Let_def)
  moreover have "\<forall>r \<in> set (lk_regions demo_lookup). \<exists>i idcs. r = Region_new i idcs" by (auto simp: demo_lookup_def)
  ultimately show ?thesis
    using gateway_lookup_sound[of demo_lookup "\<lambda>_ _. Err JwtOther" show_nat "\<lambda>_. 3" 9 7 "[]"]
    by (auto simp: demo_lookup_def registered_at_def)
qed

end
