(* ===== verification/Kim_Container.thy ===== *)
theory Kim_Container
  imports Kim_Routing
begin

text \<open>
  The service container of \<open>kim-container\<close>: the outbound connections of a process to the instances of the
  services it depends on, forwarding a packet to one of them, and delivering the packets that come back to
  local connections. Dialling, reading, promotion and the removal of stale connections are tasks that
  interleave at their awaits; each task is cut there and its segments run in any order.
\<close>

section \<open>The state\<close>

text \<open>A connection is known by a number. \<open>sl_adult\<close> is the state \<open>ADULT\<close>.\<close>

record ClientSlot =
  sl_reg :: DefaultRegistration
  sl_client :: nat
  sl_adult :: bool

datatype dial_phase = PClaim | PLock | PRecheck | PDial | PInsert nat | PRelease bool

text \<open>The tasks: building the clients of a list of registrations (for a snapshot or for a reconnect), removing
  stale clients, reading from a client until it fails, and promoting an instance.\<close>

datatype ctask =
    Build string "DefaultRegistration list" dial_phase bool
  | StaleScan string
  | StaleRemove string "(string \<times> nat) list"
  | Reader string string nat
  | Promote string string

record Container =
  ct_clients :: "(string, (string, ClientSlot) hmap) hmap"
  ct_wanted :: "(string, (string, DefaultRegistration) hmap) hmap"
  ct_dialing :: "string set"
  ct_closed :: bool
  ct_next :: nat
  ct_tasks :: "ctask list"

definition container_new :: Container where
  "container_new = \<lparr>ct_clients = [], ct_wanted = [], ct_dialing = {}, ct_closed = False, ct_next = 0, ct_tasks = []\<rparr>"

definition cmap_of :: "string \<Rightarrow> Container \<Rightarrow> (string, ClientSlot) hmap" where
  "cmap_of service c = (case hget (ct_clients c) service of None \<Rightarrow> [] | Some m \<Rightarrow> m)"

definition slot_of :: "string \<Rightarrow> string \<Rightarrow> Container \<Rightarrow> ClientSlot option" where
  "slot_of service i c = hget (cmap_of service c) i"

definition update_cmap :: "string \<Rightarrow> ((string, ClientSlot) hmap \<Rightarrow> (string, ClientSlot) hmap) \<Rightarrow> Container \<Rightarrow> Container" where
  "update_cmap service f c =
     (case hget (ct_clients c) service of
        None \<Rightarrow> c
      | Some m \<Rightarrow> c\<lparr>ct_clients := hput service (f m) (ct_clients c)\<rparr>)"

definition wanted_of :: "string \<Rightarrow> Container \<Rightarrow> (string, DefaultRegistration) hmap" where
  "wanted_of service c = (case hget (ct_wanted c) service of None \<Rightarrow> [] | Some m \<Rightarrow> m)"

section \<open>Forwarding\<close>

datatype ContainerError = ContainerCore CoreError | ContainerOther string

definition adult_services :: "(string, ClientSlot) hmap \<Rightarrow> DefaultRegistration list" where
  "adult_services m = sort_key rg_service_id (map (sl_reg \<circ> snd) (filter (sl_adult \<circ> snd) m))"

text \<open>The client that is to send the packet, and the packet as it is sent. The selector is the container's own
  and is an argument.\<close>

definition forward_target ::
  "(Header \<Rightarrow> DefaultRegistration list \<Rightarrow> string option) \<Rightarrow> string \<Rightarrow> string \<Rightarrow> LogicPkt \<Rightarrow> Container
   \<Rightarrow> (ContainerError, nat \<times> LogicPkt) result" where
  "forward_target selector me name pkt c =
     (if h_channel_id (lp_header pkt) = [] \<or> h_command (lp_header pkt) = [] then Err (ContainerOther ''empty command or channel_id'')
      else
        let pkt = set_meta META_DEST_SERVER me pkt in
        case hget (ct_clients c) name of
          None \<Rightarrow> Err (ContainerOther ''no adult instances'')
        | Some cmap \<Rightarrow>
            let adult = adult_services cmap in
            if adult = [] then Err (ContainerOther ''no adult instances'')
            else case selector (lp_header pkt) adult of
                None \<Rightarrow> Err (ContainerOther ''no adult instances'')
              | Some i \<Rightarrow>
                  (case hget cmap i of
                     None \<Rightarrow> Err (ContainerOther ''selected instance missing'')
                   | Some slot \<Rightarrow> Ok (sl_client slot, pkt)))"

section \<open>Delivering to local connections\<close>

fun split_char :: "char \<Rightarrow> string \<Rightarrow> string list" where
  "split_char d [] = [[]]"
| "split_char d (c # s) =
     (if c = d then [] # split_char d s
      else case split_char d s of [] \<Rightarrow> [[c]] | x # xs \<Rightarrow> (c # x) # xs)"

text \<open>What a delivery does: the packets pushed to local connections, in order, and the hooks that run after the
  pushes that succeeded. The outcome of each push is an argument.\<close>

record delivery =
  dv_pushes :: "(string \<times> LogicPkt) list"
  dv_hooks :: "(string \<times> LogicPkt) list"

definition deliver_down ::
  "(byte list \<Rightarrow> (string, Header) result) \<Rightarrow> string \<Rightarrow> (string \<Rightarrow> bool) \<Rightarrow> byte list
   \<Rightarrow> (string ProtocolError, delivery) result" where
  "deliver_down dec_header me push_ok raw =
     res_bind (read_logic dec_header raw) (\<lambda>pkt.
       let dest = (case get_meta pkt META_DEST_SERVER of None \<Rightarrow> [] | Some d \<Rightarrow> d) in
       if dest \<noteq> me then Ok \<lparr>dv_pushes = [], dv_hooks = []\<rparr>
       else
         let channels = (case get_meta pkt META_DEST_CHANNELS of None \<Rightarrow> [] | Some cs \<Rightarrow> cs);
             pkt = del_meta META_DEST_CHANNELS (del_meta META_DEST_SERVER pkt);
             ids = filter (\<lambda>s. s \<noteq> []) (split_char (CHR '','') channels)
         in Ok \<lparr>dv_pushes = map (\<lambda>i. (i, pkt)) ids, dv_hooks = map (\<lambda>i. (i, pkt)) (filter push_ok ids)\<rparr>)"

section \<open>Tasks\<close>

definition dial_key :: "string \<Rightarrow> string \<Rightarrow> string" where
  "dial_key service i = service @ ''/'' @ i"

definition spawn_task :: "ctask \<Rightarrow> Container \<Rightarrow> Container" where
  "spawn_task t c = c\<lparr>ct_tasks := ct_tasks c @ [t]\<rparr>"

text \<open>The first segment of \<open>apply_snapshot\<close>; the task it leaves builds the clients and then removes the stale
  ones. A reconnect rebuilds what is wanted.\<close>

definition apply_snapshot :: "string \<Rightarrow> DefaultRegistration list \<Rightarrow> Container \<Rightarrow> Container" where
  "apply_snapshot service lst c =
     (let tcp = filter (\<lambda>r. rg_protocol r = ''tcp'') lst;
          c = (if tcp \<noteq> [] then
                 c\<lparr>ct_wanted := hput service (foldl (\<lambda>m r. hput (rg_service_id r) r m) [] tcp) (ct_wanted c)\<rparr>
               else c)
      in spawn_task (Build service tcp PClaim True) c)"

definition reconnect_missing :: "string \<Rightarrow> Container \<Rightarrow> Container" where
  "reconnect_missing service c =
     (if ct_closed c then c else spawn_task (Build service (map snd (wanted_of service c)) PClaim False) c)"

definition remove_client :: "string \<Rightarrow> string \<Rightarrow> nat \<Rightarrow> Container \<Rightarrow> Container" where
  "remove_client service i n c =
     update_cmap service (\<lambda>m. case hget m i of
         Some slot \<Rightarrow> if sl_client slot = n then hdel i m else m
       | None \<Rightarrow> m) c"

definition insert_client :: "string \<Rightarrow> DefaultRegistration \<Rightarrow> nat \<Rightarrow> Container \<Rightarrow> bool \<times> Container" where
  "insert_client service reg n c =
     (if slot_of service (rg_service_id reg) c \<noteq> None then (False, c)
      else (True, c\<lparr>ct_clients := hput service (hput (rg_service_id reg)
              \<lparr>sl_reg = reg, sl_client = n, sl_adult = False\<rparr> (cmap_of service c)) (ct_clients c)\<rparr>))"

definition promote :: "string \<Rightarrow> string \<Rightarrow> Container \<Rightarrow> Container" where
  "promote service i c =
     update_cmap service (\<lambda>m. case hget m i of
         Some slot \<Rightarrow> hput i (slot\<lparr>sl_adult := True\<rparr>) m
       | None \<Rightarrow> m) c"

text \<open>One segment of building the client of \<open>reg\<close>: the phase it goes on with, or \<open>None\<close> when it is done. The
  outcome of a dial is an argument; a dial that succeeds has its reader spawned at once.\<close>

fun dial_segment :: "bool \<Rightarrow> string \<Rightarrow> DefaultRegistration \<Rightarrow> dial_phase \<Rightarrow> Container \<Rightarrow> dial_phase option \<times> Container" where
  "dial_segment connects service reg PClaim c =
     (if ct_closed c \<or> rg_protocol reg \<noteq> ''tcp'' \<or> slot_of service (rg_service_id reg) c \<noteq> None then (None, c)
      else (Some PLock, c))"
| "dial_segment connects service reg PLock c =
     (let k = dial_key service (rg_service_id reg) in
      if k \<in> ct_dialing c then (None, c) else (Some PRecheck, c\<lparr>ct_dialing := insert k (ct_dialing c)\<rparr>))"
| "dial_segment connects service reg PRecheck c =
     (if slot_of service (rg_service_id reg) c \<noteq> None then (Some (PRelease False), c) else (Some PDial, c))"
| "dial_segment connects service reg PDial c =
     (if \<not> connects then (Some (PRelease False), c)
      else (Some (PInsert (ct_next c)),
            spawn_task (Reader service (rg_service_id reg) (ct_next c)) (c\<lparr>ct_next := Suc (ct_next c)\<rparr>)))"
| "dial_segment connects service reg (PInsert n) c =
     (let (inserted, c) = insert_client service reg n c in (Some (PRelease inserted), c))"
| "dial_segment connects service reg (PRelease done_ok) c =
     (let c = c\<lparr>ct_dialing := ct_dialing c - {dial_key service (rg_service_id reg)}\<rparr> in
      (None, if done_ok then spawn_task (Promote service (rg_service_id reg)) c else c))"

fun task_segment :: "bool \<Rightarrow> ctask \<Rightarrow> Container \<Rightarrow> ctask option \<times> Container" where
  "task_segment connects (Build service [] phase snapshot) c = (if snapshot then Some (StaleScan service) else None, c)"
| "task_segment connects (Build service (reg # regs) phase snapshot) c =
     (case dial_segment connects service reg phase c of
        (Some phase', c') \<Rightarrow> (Some (Build service (reg # regs) phase' snapshot), c')
      | (None, c') \<Rightarrow> (Some (Build service regs PClaim snapshot), c'))"
| "task_segment connects (StaleScan service) c =
     (let wanted_ids = map fst (wanted_of service c) in
      if wanted_ids = [] then (None, c)
      else (Some (StaleRemove service
              (map (\<lambda>(i, slot). (i, sl_client slot)) (filter (\<lambda>(i, _). i \<notin> set wanted_ids) (cmap_of service c)))), c))"
| "task_segment connects (StaleRemove service []) c = (None, c)"
| "task_segment connects (StaleRemove service ((i, n) # rest)) c = (Some (StaleRemove service rest), remove_client service i n c)"
| "task_segment connects (Reader service i n) c = (None, remove_client service i n c)"
| "task_segment connects (Promote service i) c = (None, promote service i c)"

definition run_task :: "bool \<Rightarrow> nat \<Rightarrow> Container \<Rightarrow> Container" where
  "run_task connects k c =
     (if k < length (ct_tasks c) then
        let t = ct_tasks c ! k;
            (next, c') = task_segment connects t (c\<lparr>ct_tasks := take k (ct_tasks c) @ drop (Suc k) (ct_tasks c)\<rparr>)
        in (case next of None \<Rightarrow> c' | Some t' \<Rightarrow> spawn_task t' c')
      else c)"

text \<open>The segments of \<open>shutdown\<close> that touch this state.\<close>

definition container_close :: "Container \<Rightarrow> Container" where
  "container_close c = c\<lparr>ct_closed := True\<rparr>"

definition drop_clients :: "Container \<Rightarrow> Container" where
  "drop_clients c = c\<lparr>ct_clients := map (\<lambda>(s, m). (s, [])) (ct_clients c)\<rparr>"

inductive container_step :: "Container \<Rightarrow> Container \<Rightarrow> bool" where
  snapshot: "container_step c (apply_snapshot service lst c)"
| reconnect: "container_step c (reconnect_missing service c)"
| task: "container_step c (run_task connects k c)"
| close: "container_step c (container_close c)"
| drop: "container_step c (drop_clients c)"

inductive container_reach :: "Container \<Rightarrow> bool" where
  start: "container_reach container_new"
| step: "container_reach c \<Longrightarrow> container_step c c' \<Longrightarrow> container_reach c'"

section \<open>What always holds\<close>

fun holds :: "string \<Rightarrow> ctask \<Rightarrow> bool" where
  "holds k (Build service (reg # regs) phase snapshot) \<longleftrightarrow>
     (case phase of PClaim \<Rightarrow> False | PLock \<Rightarrow> False | _ \<Rightarrow> True) \<and> dial_key service (rg_service_id reg) = k"
| "holds k _ \<longleftrightarrow> False"

definition owners :: "string \<Rightarrow> ctask list \<Rightarrow> nat" where
  "owners k ts = length (filter (holds k) ts)"

lemma owners_simps [simp]:
  "owners k [] = 0" "owners k (ts @ us) = owners k ts + owners k us"
  "owners k (t # ts) = (if holds k t then 1 else 0) + owners k ts"
  by (simp_all add: owners_def)

text \<open>The names being dialled are those of the tasks that dial, each held by one task.\<close>

definition dials_ok :: "Container \<Rightarrow> bool" where
  "dials_ok c \<longleftrightarrow> (\<forall>k. owners k (ct_tasks c) = (if k \<in> ct_dialing c then 1 else 0))"

definition slots_ok :: "Container \<Rightarrow> bool" where
  "slots_ok c \<longleftrightarrow> (\<forall>s. hwf (cmap_of s c)) \<and> (\<forall>s i slot. slot_of s i c = Some slot \<longrightarrow>
     rg_service_id (sl_reg slot) = i \<and> rg_protocol (sl_reg slot) = ''tcp'' \<and> sl_client slot < ct_next c)"

fun task_ok :: "nat \<Rightarrow> ctask \<Rightarrow> bool" where
  "task_ok n (Build service (reg # regs) phase snapshot) \<longleftrightarrow>
     (phase \<noteq> PClaim \<longrightarrow> rg_protocol reg = ''tcp'') \<and> (case phase of PInsert m \<Rightarrow> m < n | _ \<Rightarrow> True)"
| "task_ok n (Reader service i m) \<longleftrightarrow> m < n"
| "task_ok n _ \<longleftrightarrow> True"

lemma task_ok_mono: "task_ok n t \<Longrightarrow> n \<le> m \<Longrightarrow> task_ok m t"
  by (cases "(n, t)" rule: task_ok.cases) (auto split: dial_phase.splits)

definition container_ok :: "Container \<Rightarrow> bool" where
  "container_ok c \<longleftrightarrow> dials_ok c \<and> slots_ok c \<and> list_all (task_ok (ct_next c)) (ct_tasks c)"

lemma owners_remove_nth:
  assumes "n < length ts"
  shows "owners k ts = owners k (take n ts @ drop (Suc n) ts) + (if holds k (ts ! n) then 1 else 0)"
proof -
  have "owners k ts = owners k (take n ts @ ts ! n # drop (Suc n) ts)" using id_take_nth_drop[OF assms] by simp
  then show ?thesis by simp
qed

lemma slot_remove:
  "slot_of s j (remove_client service i n c) =
     (if s = service \<and> j = i \<and> (case slot_of s i c of None \<Rightarrow> False | Some x \<Rightarrow> sl_client x = n) then None else slot_of s j c)"
  by (auto simp: slot_of_def cmap_of_def remove_client_def update_cmap_def split: option.split)

lemma slot_promote:
  "slot_of s j (promote service i c) =
     (if s = service \<and> j = i then map_option (\<lambda>x. x\<lparr>sl_adult := True\<rparr>) (slot_of s i c) else slot_of s j c)"
  by (auto simp: slot_of_def cmap_of_def promote_def update_cmap_def split: option.split)

lemma slot_insert:
  "insert_client service reg n c = (b, c') \<Longrightarrow>
   slot_of s j c' = (if b \<and> s = service \<and> j = rg_service_id reg then Some \<lparr>sl_reg = reg, sl_client = n, sl_adult = False\<rparr> else slot_of s j c)"
  by (auto simp: slot_of_def cmap_of_def insert_client_def split: option.splits if_splits)

lemma cmap_fields [simp]:
  "ct_tasks (remove_client service i n c) = ct_tasks c" "ct_dialing (remove_client service i n c) = ct_dialing c"
  "ct_next (remove_client service i n c) = ct_next c"
  "ct_tasks (promote service i c) = ct_tasks c" "ct_dialing (promote service i c) = ct_dialing c"
  "ct_next (promote service i c) = ct_next c"
  by (simp_all add: remove_client_def promote_def update_cmap_def split: option.split)

lemma insert_fields:
  "insert_client service reg n c = (b, c') \<Longrightarrow> ct_tasks c' = ct_tasks c \<and> ct_dialing c' = ct_dialing c \<and> ct_next c' = ct_next c"
  by (auto simp: insert_client_def split: if_splits)

lemma cmap_wf:
  "hwf (cmap_of s c) \<Longrightarrow> hwf (cmap_of s (remove_client service i n c))"
  "hwf (cmap_of s c) \<Longrightarrow> hwf (cmap_of s (promote service i c))"
  "hwf (cmap_of s c) \<Longrightarrow> insert_client service reg n c = (b, c') \<Longrightarrow> hwf (cmap_of s c')"
  by (auto simp: cmap_of_def remove_client_def promote_def insert_client_def update_cmap_def split: option.splits if_splits)

lemma slots_ok_ops:
  "slots_ok c \<Longrightarrow> slots_ok (remove_client service i n c)"
  "slots_ok c \<Longrightarrow> slots_ok (promote service i c)"
  "slots_ok c \<Longrightarrow> rg_protocol reg = ''tcp'' \<Longrightarrow> n < ct_next c \<Longrightarrow> insert_client service reg n c = (b, c') \<Longrightarrow> slots_ok c'"
  by (auto simp: slots_ok_def slot_remove slot_promote slot_insert insert_fields split: if_splits intro: cmap_wf)

text \<open>One segment keeps the invariant of the state and the task together.\<close>

definition held :: "string \<Rightarrow> ctask option \<Rightarrow> nat" where
  "held k t = (case t of None \<Rightarrow> 0 | Some t \<Rightarrow> if holds k t then 1 else 0)"

definition with_task :: "ctask option \<Rightarrow> Container \<Rightarrow> bool" where
  "with_task t c \<longleftrightarrow> (\<forall>k. owners k (ct_tasks c) + held k t = (if k \<in> ct_dialing c then 1 else 0))
     \<and> slots_ok c \<and> list_all (task_ok (ct_next c)) (ct_tasks c) \<and> (case t of None \<Rightarrow> True | Some t \<Rightarrow> task_ok (ct_next c) t)"

lemma with_taskI:
  assumes "\<And>k. owners k (ct_tasks c) + held k t = (if k \<in> ct_dialing c then 1 else 0)" "slots_ok c"
    "list_all (task_ok (ct_next c)) (ct_tasks c)" "\<And>t'. t = Some t' \<Longrightarrow> task_ok (ct_next c) t'"
  shows "with_task t c"
  using assms by (simp add: with_task_def split: option.split)

lemma with_taskD:
  assumes "with_task t c"
  shows "owners k (ct_tasks c) + held k t = (if k \<in> ct_dialing c then 1 else 0)" "slots_ok c"
    "list_all (task_ok (ct_next c)) (ct_tasks c)" "t = Some t' \<Longrightarrow> task_ok (ct_next c) t'"
  using assms by (auto simp: with_task_def)

lemma claim_free [simp]: "holds k (Build service regs PClaim snapshot) = False" "task_ok n (Build service regs PClaim snapshot)"
  by (cases regs; simp)+

lemma slots_ok_same:
  "slots_ok c \<Longrightarrow> ct_clients c' = ct_clients c \<Longrightarrow> ct_next c \<le> ct_next c' \<Longrightarrow> slots_ok c'"
  by (fastforce simp: slots_ok_def slot_of_def cmap_of_def)

lemma tasks_ok_mono: "list_all (task_ok n) ts \<Longrightarrow> n \<le> m \<Longrightarrow> list_all (task_ok m) ts"
  by (auto simp: list_all_iff intro: task_ok_mono)

lemma dial_segment_ok:
  assumes "with_task (Some (Build service (reg # regs) phase snapshot)) c" "dial_segment connects service reg phase c = (next, c')"
  shows "with_task (Some (case next of None \<Rightarrow> Build service regs PClaim snapshot
    | Some phase' \<Rightarrow> Build service (reg # regs) phase' snapshot)) c'"
proof -
  note D = with_taskD[OF assms(1)]
  note o = D(1) and sl = D(2) and ts = D(3) and t = D(4)[OF refl]
  let ?k = "dial_key service (rg_service_id reg)"
  have free: "owners k (ct_tasks c) = (if k \<in> ct_dialing c then 1 else 0)" if "phase = PClaim \<or> phase = PLock" for k
    using o[of k] that by (auto simp: held_def)
  have busy: "owners k (ct_tasks c) = (if k \<in> ct_dialing c - {?k} then 1 else 0)" "?k \<in> ct_dialing c"
    if "phase \<noteq> PClaim" "phase \<noteq> PLock" for k
    using o[of k] o[of ?k] that by (auto simp: held_def split: if_splits dial_phase.splits)
  show ?thesis
  proof (cases phase)
    case PClaim
    then show ?thesis using assms(2) free sl ts by (intro with_taskI) (auto simp: held_def split: if_splits)
  next
    case PLock
    then show ?thesis
      using assms(2) free sl ts t by (intro with_taskI) (auto simp: held_def Let_def split: if_splits intro: slots_ok_same)
  next
    case PRecheck
    then show ?thesis using assms(2) busy sl ts t by (intro with_taskI) (auto simp: held_def split: if_splits)
  next
    case PDial
    then show ?thesis
      using assms(2) busy sl ts t tasks_ok_mono[OF ts, of "Suc (ct_next c)"]
      by (intro with_taskI) (auto simp: held_def spawn_task_def split: if_splits intro: slots_ok_same)
  next
    case (PInsert n)
    obtain b where i: "insert_client service reg n c = (b, c')" "next = Some (PRelease b)"
      using assms(2) PInsert by (auto split: prod.splits)
    have "slots_ok c'" using slots_ok_ops(3)[OF sl _ _ i(1)] t PInsert by simp
    then show ?thesis
      using busy ts t PInsert insert_fields[OF i(1)] i(2) by (intro with_taskI) (auto simp: held_def)
  next
    case (PRelease b)
    have nx: "next = None" and c': "c' = (if b then spawn_task (Promote service (rg_service_id reg)) (c\<lparr>ct_dialing := ct_dialing c - {?k}\<rparr>)
        else c\<lparr>ct_dialing := ct_dialing c - {?k}\<rparr>)"
      using assms(2) PRelease by (auto simp: Let_def)
    show ?thesis
      unfolding nx c' using busy PRelease sl ts
      by (intro with_taskI) (auto simp: held_def spawn_task_def intro: slots_ok_same split: if_splits)
  qed
qed

lemma segment_ok:
  assumes "with_task (Some t) c" "task_segment connects t c = (t', c')"
  shows "with_task t' c'"
proof -
  note D = with_taskD[OF assms(1)]
  show ?thesis
  proof (cases "(connects, t, c)" rule: task_segment.cases)
    case (2 connects service reg regs phase snapshot c)
    then show ?thesis using dial_segment_ok[of service reg regs phase snapshot c connects] assms
      by (auto split: prod.splits option.splits)
  qed (use assms(2) D in \<open>auto simp: held_def Let_def intro!: with_taskI slots_ok_ops split: if_splits\<close>)
qed

lemma with_none: "with_task None c \<longleftrightarrow> container_ok c"
  by (simp add: with_task_def held_def container_ok_def dials_ok_def)

lemma with_some: "with_task (Some t) c \<Longrightarrow> container_ok (spawn_task t c)"
  by (auto simp: with_task_def held_def container_ok_def dials_ok_def spawn_task_def slots_ok_def slot_of_def cmap_of_def)

lemma run_task_ok:
  assumes "container_ok c"
  shows "container_ok (run_task connects n c)"
proof (cases "n < length (ct_tasks c)")
  case True
  let ?rest = "take n (ct_tasks c) @ drop (Suc n) (ct_tasks c)"
  have "set ?rest \<subseteq> set (ct_tasks c)" by (auto dest: in_set_takeD in_set_dropD)
  then have "with_task (Some (ct_tasks c ! n)) (c\<lparr>ct_tasks := ?rest\<rparr>)"
    using assms True owners_remove_nth[OF True]
    by (intro with_taskI) (auto simp: container_ok_def dials_ok_def held_def list_all_iff slots_ok_def slot_of_def cmap_of_def)
  from segment_ok[OF this, of connects] True show ?thesis
    by (auto simp: run_task_def Let_def with_none split: prod.splits option.splits intro: with_some)
qed (simp add: run_task_def assms)

lemma hget_emptied: "hget (map (\<lambda>(s, m). (s, [])) cs) s = map_option (\<lambda>_. []) (hget cs s)"
  by (induction cs) auto

lemma drop_clients_slot: "slot_of s i (drop_clients c) = None"
  by (simp add: slot_of_def cmap_of_def drop_clients_def hget_emptied split: option.split)

lemma container_step_ok: "container_step c c' \<Longrightarrow> container_ok c \<Longrightarrow> container_ok c'"
proof (induction rule: container_step.induct)
  case (snapshot c service lst)
  then show ?case
    by (auto simp: container_ok_def dials_ok_def apply_snapshot_def Let_def spawn_task_def slots_ok_def slot_of_def cmap_of_def)
next
  case (reconnect c service)
  then show ?case
    by (auto simp: container_ok_def dials_ok_def reconnect_missing_def spawn_task_def slots_ok_def slot_of_def cmap_of_def)
next
  case (task c connects k)
  then show ?case by (rule run_task_ok)
next
  case (close c)
  then show ?case by (simp add: container_ok_def dials_ok_def container_close_def slots_ok_def slot_of_def cmap_of_def)
next
  case (drop c)
  have "cmap_of s (drop_clients c) = []" for s by (simp add: cmap_of_def drop_clients_def hget_emptied split: option.split)
  then show ?case using drop by (simp add: container_ok_def dials_ok_def slots_ok_def drop_clients_slot) (simp add: drop_clients_def)
qed

lemma container_reach_ok: "container_reach c \<Longrightarrow> container_ok c"
proof (induction rule: container_reach.induct)
  case start
  show ?case by (simp add: container_ok_def dials_ok_def slots_ok_def container_new_def slot_of_def cmap_of_def)
next
  case (step c c')
  then show ?case by (blast intro: container_step_ok)
qed

lemma owners_two: "i < j \<Longrightarrow> j < length ts \<Longrightarrow> holds k (ts ! i) \<Longrightarrow> holds k (ts ! j) \<Longrightarrow> owners k ts \<ge> 2"
proof -
  assume a: "i < j" "j < length ts" "holds k (ts ! i)" "holds k (ts ! j)"
  have "{i, j} \<subseteq> {n. n < length ts \<and> holds k (ts ! n)}" using a by auto
  then have "card {i, j} \<le> card {n. n < length ts \<and> holds k (ts ! n)}" by (rule card_mono[rotated]) simp
  then show "owners k ts \<ge> 2" using a(1) by (simp add: owners_def length_filter_conv_card)
qed

text \<open>However snapshots, reconnects, dials, failing connections, promotions and a shutdown interleave, no
  instance is dialled by two tasks at once, and every connection kept for a service is kept under the
  identifier its instance registered with, and is a TCP instance.\<close>

theorem container_sound:
  assumes "container_reach c"
  shows "(\<forall>i j k. i < length (ct_tasks c) \<longrightarrow> j < length (ct_tasks c) \<longrightarrow> holds k (ct_tasks c ! i) \<longrightarrow> holds k (ct_tasks c ! j) \<longrightarrow> i = j)
    \<and> (\<forall>s i slot. slot_of s i c = Some slot \<longrightarrow> rg_service_id (sl_reg slot) = i \<and> rg_protocol (sl_reg slot) = ''tcp'')"
proof -
  note ok = container_reach_ok[OF assms]
  have "owners k (ct_tasks c) \<le> 1" for k using ok by (simp add: container_ok_def dials_ok_def)
  then have "i = j" if "i < length (ct_tasks c)" "j < length (ct_tasks c)" "holds k (ct_tasks c ! i)" "holds k (ct_tasks c ! j)" for i j k
    using owners_two[of i j "ct_tasks c" k] owners_two[of j i "ct_tasks c" k] that
    by (metis Suc_1 linorder_neqE_nat not_less_eq_eq order_trans)
  then show ?thesis using ok by (auto simp: container_ok_def slots_ok_def)
qed

section \<open>Forwarding reaches an adult instance\<close>

text \<open>What forwarding needs of a selector: it picks one of the instances it is given.\<close>

locale selector =
  fixes sel :: "Header \<Rightarrow> DefaultRegistration list \<Rightarrow> string option"
  assumes sel_in: "sel h srvs = Some i \<Longrightarrow> \<exists>r \<in> set srvs. rg_service_id r = i"
begin

lemma forward_adult:
  assumes "container_reach c" "forward_target sel me name pkt c = r"
  shows "r \<noteq> Err (ContainerOther ''selected instance missing'')
    \<and> (\<forall>n p. r = Ok (n, p) \<longrightarrow> p = set_meta META_DEST_SERVER me pkt
         \<and> (\<exists>i slot. slot_of name i c = Some slot \<and> sl_adult slot \<and> sl_client slot = n))"
proof -
  have slots: "slots_ok c" using container_reach_ok[OF assms(1)] by (simp add: container_ok_def)
  have found: "\<exists>slot. hget m i = Some slot \<and> sl_adult slot"
    if m: "hget (ct_clients c) name = Some m" and i: "sel h (adult_services m) = Some i" for m i h
  proof -
    have eq: "cmap_of name c = m" using m by (simp add: cmap_of_def)
    obtain r where r: "r \<in> set (adult_services m)" "rg_service_id r = i" using sel_in[OF i] by blast
    then obtain j slot where s: "(j, slot) \<in> set m" "sl_adult slot" "sl_reg slot = r" by (auto simp: adult_services_def)
    then have g: "hget m j = Some slot" using hget_in_set[of m j slot] slots eq by (auto simp: slots_ok_def)
    then have "slot_of name j c = Some slot" using eq by (simp add: slot_of_def)
    then have "rg_service_id (sl_reg slot) = j" using slots by (simp add: slots_ok_def)
    then show ?thesis using g s r(2) by simp
  qed
  show ?thesis
  proof (cases "hget (ct_clients c) name")
    case (Some m)
    have eq: "slot_of name i c = hget m i" for i using Some by (simp add: slot_of_def cmap_of_def)
    show ?thesis
      using assms(2) Some found[OF Some] unfolding forward_target_def Let_def eq
      by (fastforce split: if_splits option.splits)
  qed (use assms(2) in \<open>auto simp: forward_target_def Let_def split: if_splits\<close>)
qed

end

text \<open>The gateway's selector, as its configuration asks for it: \<open>run_gateway\<close>.\<close>

definition gateway_selector ::
  "(byte list \<Rightarrow> 32 word) \<Rightarrow> RouteFile option \<Rightarrow> Header \<Rightarrow> DefaultRegistration list \<Rightarrow> string option" where
  "gateway_selector crc cfg h srvs =
     (case cfg of
        Some file \<Rightarrow> (case RouteSelector_lookup crc (Route_from_config file) h srvs of None \<Rightarrow> None | Some choice \<Rightarrow> choice)
      | None \<Rightarrow> HashSelector crc h srvs)"

interpretation gateway_sel: selector "gateway_selector crc cfg" for crc cfg
proof
  fix h srvs i
  assume g: "gateway_selector crc cfg h srvs = Some i"
  show "\<exists>r \<in> set srvs. rg_service_id r = i"
  proof (cases cfg)
    case None
    then show ?thesis using g by (auto simp: gateway_selector_def HashSelector_def split: if_splits)
  next
    case (Some conf)
    then show ?thesis
      using g by (auto simp: gateway_selector_def split: option.splits dest: route_lookup_in)
  qed
qed

text \<open>C40: A packet that is forwarded goes to an instance of the service that has grown up, over the connection
  kept for it, stamped with this process's own identifier; the selected instance is never missing. With
  the default selector a packet that names a connection and a command is forwarded whenever an adult
  instance is connected.\<close>

theorem forward_sound:
  assumes "container_reach c"
  shows "forward_target (gateway_selector crc cfg) me name pkt c \<noteq> Err (ContainerOther ''selected instance missing'')
    \<and> (\<forall>n p. forward_target (gateway_selector crc cfg) me name pkt c = Ok (n, p) \<longrightarrow>
         p = set_meta META_DEST_SERVER me pkt \<and> (\<exists>i slot. slot_of name i c = Some slot \<and> sl_adult slot \<and> sl_client slot = n))
    \<and> (cfg = None \<longrightarrow> h_channel_id (lp_header pkt) \<noteq> [] \<longrightarrow> h_command (lp_header pkt) \<noteq> [] \<longrightarrow>
         (\<exists>i slot. slot_of name i c = Some slot \<and> sl_adult slot) \<longrightarrow>
         (\<exists>n p. forward_target (gateway_selector crc cfg) me name pkt c = Ok (n, p)))"
proof (intro conjI impI)
  let ?f = "forward_target (gateway_selector crc cfg) me name pkt c"
  note ok = gateway_sel.forward_adult[OF assms, where r = ?f and crc = crc and cfg = cfg, OF refl]
  show "?f \<noteq> Err (ContainerOther ''selected instance missing'')" using ok by blast
  show "\<forall>n p. ?f = Ok (n, p) \<longrightarrow>
         p = set_meta META_DEST_SERVER me pkt \<and> (\<exists>i slot. slot_of name i c = Some slot \<and> sl_adult slot \<and> sl_client slot = n)"
    using ok by blast
  assume a: "cfg = None" "h_channel_id (lp_header pkt) \<noteq> []" "h_command (lp_header pkt) \<noteq> []"
    "\<exists>i slot. slot_of name i c = Some slot \<and> sl_adult slot"
  then obtain i slot where s: "slot_of name i c = Some slot" "sl_adult slot" by blast
  then obtain m where m: "hget (ct_clients c) name = Some m" "hget m i = Some slot"
    by (auto simp: slot_of_def cmap_of_def split: option.splits)
  then have "sl_reg slot \<in> set (adult_services m)" using s(2) hget_SomeD[OF m(2)] by (force simp: adult_services_def)
  then have "adult_services m \<noteq> []" by auto
  then show "\<exists>n p. ?f = Ok (n, p)"
    using ok a(1-3) m(1) by (auto simp: forward_target_def Let_def gateway_selector_def HashSelector_def split: option.splits)
qed

section \<open>A run\<close>

text \<open>One instance is announced, dialled, kept, and promoted.\<close>

definition demo_tcp :: DefaultRegistration where
  "demo_tcp = (demo_reg ''chat-1'' [])\<lparr>rg_protocol := ''tcp''\<rparr>"

definition demo_snapshot :: Container where
  "demo_snapshot = apply_snapshot ''chat'' [demo_tcp] container_new"

definition demo_dialled :: Container where
  "demo_dialled = foldl (\<lambda>c k. run_task True k c) demo_snapshot [0, 0, 0, 0]"

definition demo_adult :: Container where
  "demo_adult = foldl (\<lambda>c k. run_task True k c) demo_dialled [1, 1, 1]"

lemma run_reach: "container_reach c \<Longrightarrow> container_reach (foldl (\<lambda>c k. run_task b k c) c ks)"
  by (induction ks arbitrary: c) (auto intro: container_reach.step container_step.task)

lemma demo_reach: "container_reach demo_snapshot" "container_reach demo_dialled" "container_reach demo_adult"
  unfolding demo_snapshot_def demo_dialled_def demo_adult_def
  by (intro run_reach container_reach.step[OF container_reach.start] container_step.snapshot)+

lemmas demo_run = demo_tcp_def demo_reg_def demo_snapshot_def demo_dialled_def demo_adult_def container_new_def
  apply_snapshot_def spawn_task_def run_task_def insert_client_def promote_def update_cmap_def slot_of_def cmap_of_def
  remove_client_def wanted_of_def Let_def

lemma demo_states:
  "ct_tasks demo_dialled = [Reader ''chat'' ''chat-1'' 0, Build ''chat'' [demo_tcp] (PInsert 0) True]"
  "slot_of ''chat'' ''chat-1'' demo_adult = Some \<lparr>sl_reg = demo_tcp, sl_client = 0, sl_adult = True\<rparr>"
  by (simp_all add: demo_run)

theorem container_sound_witness:
  "{i. i < length (ct_tasks demo_dialled) \<and> holds ''chat/chat-1'' (ct_tasks demo_dialled ! i)} = {1}
   \<and> rg_service_id demo_tcp = ''chat-1'' \<and> rg_protocol demo_tcp = ''tcp''"
proof
  have "holds ''chat/chat-1'' (ct_tasks demo_dialled ! 1)" "1 < length (ct_tasks demo_dialled)"
    by (simp_all add: demo_states dial_key_def demo_tcp_def demo_reg_def)
  then show "{i. i < length (ct_tasks demo_dialled) \<and> holds ''chat/chat-1'' (ct_tasks demo_dialled ! i)} = {1}"
    using container_sound[OF demo_reach(2)] by blast
  show "rg_service_id demo_tcp = ''chat-1'' \<and> rg_protocol demo_tcp = ''tcp''"
    using container_sound[OF demo_reach(3)] demo_states(2) by force
qed

theorem forward_sound_witness:
  "\<exists>n p. forward_target (gateway_selector (\<lambda>_. 7) None) ''gw-1'' ''chat''
     \<lparr>lp_header = Header_default\<lparr>h_command := ''chat.user.talk'', h_channel_id := ''gw-1_alice_1''\<rparr>, lp_body = []\<rparr> demo_adult = Ok (n, p)"
proof -
  let ?p = "\<lparr>lp_header = Header_default\<lparr>h_command := ''chat.user.talk'', h_channel_id := ''gw-1_alice_1''\<rparr>, lp_body = []\<rparr>"
  have "\<exists>i slot. slot_of ''chat'' i demo_adult = Some slot \<and> sl_adult slot" using demo_states(2) by force
  then show ?thesis using forward_sound[OF demo_reach(3), of "\<lambda>_. 7" None "''gw-1''" "''chat''" ?p] by simp
qed

text \<open>A connection whose reader ends before the connection is recorded stays recorded with nothing reading from it,
  and while it is recorded the instance is not dialled again.\<close>

definition demo_dead :: Container where
  "demo_dead = foldl (\<lambda>c k. run_task True k c) demo_dialled [0, 0, 0]"

lemma dead_slot_reachable:
  "container_reach demo_dead \<and> slot_of ''chat'' ''chat-1'' demo_dead \<noteq> None
   \<and> Reader ''chat'' ''chat-1'' 0 \<notin> set (ct_tasks demo_dead)
   \<and> dial_segment b ''chat'' demo_tcp PClaim demo_dead = (None, demo_dead)"
proof -
  have "container_reach demo_dead" unfolding demo_dead_def by (rule run_reach[OF demo_reach(2)])
  moreover have "slot_of ''chat'' ''chat-1'' demo_dead \<noteq> None" "Reader ''chat'' ''chat-1'' 0 \<notin> set (ct_tasks demo_dead)"
    by (simp_all add: demo_dead_def demo_run)
  ultimately show ?thesis by (simp add: demo_tcp_def demo_reg_def)
qed

end
