(* ===== verification/Kim_Chat_Types.thy ===== *)
theory Kim_Chat_Types
  imports Kim_Talk Kim_Interest
begin

text \<open>
  The data of the chat service: the message bodies of requests, responses and pushes (generated from
  \<open>crates/kim-protocol/proto/pkt.proto\<close>), and the service record. The handlers of
  \<open>services/chat/src\<close> call the session storage, the user, social and group directories, the message
  store, the room interest and the agent specs through trait objects: each trait is a record of its
  operations over some state \<open>'s\<close>. The generated codecs, the dispatcher, the content filter, the clocks
  and the timers are the other fields.
\<close>

section \<open>Message bodies\<close>

definition INBOX_KIND_USER :: int where "INBOX_KIND_USER = 0"
definition INBOX_KIND_GROUP :: int where "INBOX_KIND_GROUP = 1"
definition ALLOWED_APP :: string where "ALLOWED_APP = ''kim''"

record MessageAckReq =
  akq_message_id :: int
  akq_message_ids :: "int list"

record MessageIndexReq =
  mxq_message_id :: int
  mxq_resume :: bool

record MessageContentReq =
  mcq_message_ids :: "int list"

record InboxReq =
  ibq_limit :: int

record HistoryReq =
  hsq_kind :: int
  hsq_before_id :: int
  hsq_limit :: int

record ConversationReadReq =
  crq_kind :: int
  crq_message_id :: int

record ConversationKey =
  cky_dest :: string
  cky_kind :: int

record ConversationStatesReq =
  csq_conversations :: "ConversationKey list"

record GroupCreateReq =
  gcq_name :: string
  gcq_avatar :: string
  gcq_introduction :: string
  gcq_owner :: string
  gcq_members :: "string list"

record GroupJoinReq =
  gjq_account :: string
  gjq_group_id :: string

record GroupQuitReq =
  gqq_account :: string
  gqq_group_id :: string

record GroupInviteReq =
  giq_group_id :: string
  giq_accounts :: "string list"

record UserProfileUpdate =
  puq_nickname :: string
  puq_avatar :: string
  puq_bio :: string

record UserSearchReq =
  usq_query :: string

record RoomEnterReq =
  rmq_dest :: string
  rmq_kind :: int

record RoomLeaveReq =
  rlq_dest :: string
  rlq_kind :: int

record TypingReq =
  tyq_dest :: string
  tyq_kind :: int
  tyq_active :: bool
  tyq_phase :: int

record BotCreateReq =
  bcq_client_profile_id :: string
  bcq_nickname :: string
  bcq_avatar :: string
  bcq_bio :: string
  bcq_model :: string
  bcq_thinking_effort :: string
  bcq_context_tokens :: "int option"
  bcq_visibility :: string

record BotUpdateReq =
  buq_nickname :: string
  buq_avatar :: string
  buq_bio :: string
  buq_model :: string
  buq_thinking_effort :: string
  buq_context_tokens :: "int option"
  buq_visibility :: string

record BotReplyReq =
  brq_in_reply_to :: int
  brq_message :: "MessageReq option"

record AgentSpecRecord =
  as_profile_id :: string
  as_nickname :: string
  as_server_account :: string
  as_spec :: "byte list"
  as_key_ciphertext :: "byte list"
  as_updated_at :: int
  as_deleted_at :: int

record AgentProviderAccount =
  aa_id :: string
  aa_vendor_id :: string
  aa_base_url :: string
  aa_key_ref :: string
  aa_display_name :: string
  aa_models :: "string list"
  aa_updated_at :: int
  aa_deleted_at :: int

record AgentSpecUpsertReq =
  auq_record :: "AgentSpecRecord option"
  auq_account :: "AgentProviderAccount option"

text \<open>The bodies the service sends. \<open>ReadStatePb\<close> is the wire form of a conversation's read state.\<close>

record ReadStatePb =
  rp_dest :: string
  rp_kind :: int
  rp_last_read_message_id :: int
  rp_max_message_id :: int
  rp_unread :: int
  rp_version :: nat
  rp_exists :: bool

record InboxItem =
  ii_dest :: string
  ii_kind :: int
  ii_title :: string
  ii_avatar :: string
  ii_last_body :: string
  ii_last_sender :: string
  ii_last_message_id :: int
  ii_last_send_time :: int
  ii_unread :: int
  ii_read_state :: ReadStatePb

datatype PresenceStatus = PresenceOffline | PresenceOnline

record PresenceEntry =
  pr_account :: string
  pr_status :: PresenceStatus
  pr_last_seen :: int

record TypingPush =
  tp_typer :: string
  tp_dest :: string
  tp_kind :: int
  tp_active :: bool
  tp_phase :: int

datatype chat_body =
    BMessageResp MessageResp
  | BMessagePush MessagePush
  | BMessageIndex "MessageIndexRow list" bool
  | BMessageContent "MessageContentRow list"
  | BInbox "InboxItem list"
  | BHistory "HistoryEntry list"
  | BReadState ReadStatePb
  | BReadStates "ReadStatePb list"
  | BReadReceipt string string int int
  | BReadSync string ReadStatePb
  | BFriendNotify string string
  | BUserList "UserProfile list"
  | BUserSearch "UserProfile list"
  | BProfile UserProfile
  | BRoomEnter "PresenceEntry list"
  | BPresencePush "PresenceEntry list"
  | BTyping TypingPush
  | BGroupCreate string
  | BGroupNotify string "string list"
  | BGroupMembers "string list"
  | BGroupDetail GroupInfo
  | BBotCreate UserProfile BotConfig
  | BBotPending "BotPendingItem list"
  | BAgentSync "AgentSpecRecord list" "AgentProviderAccount list"
  | BAgentUpsert "AgentSpecRecord option"
  | BKickout string
  | BLogin string

datatype AgentSpecError = AgentInvalid | AgentNotOwner | AgentBackend string

section \<open>The service\<close>

text \<open>The generated decoders, one per request type, and the encoder.\<close>

type_synonym 'a decoder = "byte list \<Rightarrow> (string ProtocolError, 'a) result"

record chat_codec =
  cd_message :: "MessageReq decoder"
  cd_ack :: "MessageAckReq decoder"
  cd_index :: "MessageIndexReq decoder"
  cd_content :: "MessageContentReq decoder"
  cd_inbox :: "InboxReq decoder"
  cd_history :: "HistoryReq decoder"
  cd_read :: "ConversationReadReq decoder"
  cd_states :: "ConversationStatesReq decoder"
  cd_group_create :: "GroupCreateReq decoder"
  cd_group_join :: "GroupJoinReq decoder"
  cd_group_quit :: "GroupQuitReq decoder"
  cd_group_invite :: "GroupInviteReq decoder"
  cd_profile_update :: "UserProfileUpdate decoder"
  cd_search :: "UserSearchReq decoder"
  cd_room_enter :: "RoomEnterReq decoder"
  cd_room_leave :: "RoomLeaveReq decoder"
  cd_typing :: "TypingReq decoder"
  cd_bot_create :: "BotCreateReq decoder"
  cd_bot_update :: "BotUpdateReq decoder"
  cd_bot_reply :: "BotReplyReq decoder"
  cd_agent_upsert :: "AgentSpecUpsertReq decoder"
  cd_session :: "Session decoder"
  cd_enc :: "chat_body \<Rightarrow> byte list"

text \<open>
  Reads of a backend are functions of the service's state, writes also return the new state; every
  call can fail with its trait's error. \<open>sv_members_late\<close> says that the member lookup budget of the
  group handlers passes while a lookup is pending; the other timers are those of the talk handlers.
\<close>

type_synonym ('s, 'e, 'a) read_op = "'s \<Rightarrow> ('e, 'a) result"
type_synonym ('s, 'e, 'a) write_op = "'s \<Rightarrow> ('e, 'a) result \<times> 's"

record 's SessionStorage =
  sn_sess_add :: "Session \<Rightarrow> ('s, SessionError, unit) write_op"
  sn_sess_delete :: "string \<Rightarrow> string \<Rightarrow> ('s, SessionError, unit) write_op"
  sn_sess_get :: "string \<Rightarrow> ('s, SessionError, Session) read_op"
  sn_get_locations :: "string list \<Rightarrow> ('s, SessionError, Location list) read_op"
  sn_list_locations :: "string \<Rightarrow> ('s, SessionError, Location list) read_op"

record 's UserDirectory =
  us_lookup :: "string \<Rightarrow> string \<Rightarrow> ('s, UserError, UserPresence option) read_op"
  us_exists :: "string \<Rightarrow> string \<Rightarrow> ('s, UserError, bool) read_op"
  us_profile :: "string \<Rightarrow> string \<Rightarrow> ('s, UserError, UserProfile option) read_op"
  us_profiles :: "string \<Rightarrow> string list \<Rightarrow> ('s, UserError, UserProfile list) read_op"
  us_search :: "string \<Rightarrow> string \<Rightarrow> string list \<Rightarrow> nat \<Rightarrow> ('s, UserError, UserProfile list) read_op"
  us_upsert :: "string \<Rightarrow> string \<Rightarrow> ('s, UserError, unit) write_op"
  us_update_profile :: "string \<Rightarrow> string \<Rightarrow> ProfilePatch \<Rightarrow> ('s, UserError, UserProfile) write_op"
  us_create_bot :: "string \<Rightarrow> CreateBot \<Rightarrow> ('s, UserError, BotRecord) write_op"
  us_update_bot :: "string \<Rightarrow> string \<Rightarrow> string \<Rightarrow> BotPatch \<Rightarrow> ('s, UserError, BotRecord) write_op"
  us_delete_bot :: "string \<Rightarrow> string \<Rightarrow> string \<Rightarrow> ('s, UserError, unit) write_op"

record 's SocialDirectory =
  sd_request :: "string \<Rightarrow> string \<Rightarrow> string \<Rightarrow> ('s, SocialError, FriendRequestOutcome) write_op"
  sd_accept :: "string \<Rightarrow> string \<Rightarrow> string \<Rightarrow> ('s, SocialError, unit) write_op"
  sd_reject :: "string \<Rightarrow> string \<Rightarrow> string \<Rightarrow> ('s, SocialError, unit) write_op"
  sd_remove :: "string \<Rightarrow> string \<Rightarrow> string \<Rightarrow> ('s, SocialError, unit) write_op"
  sd_block :: "string \<Rightarrow> string \<Rightarrow> string \<Rightarrow> ('s, SocialError, unit) write_op"
  sd_unblock :: "string \<Rightarrow> string \<Rightarrow> string \<Rightarrow> ('s, SocialError, unit) write_op"
  sd_list_friends :: "string \<Rightarrow> string \<Rightarrow> ('s, SocialError, string list) read_op"
  sd_incoming :: "string \<Rightarrow> string \<Rightarrow> ('s, SocialError, string list) read_op"
  sd_list_blocked :: "string \<Rightarrow> string \<Rightarrow> ('s, SocialError, string list) read_op"
  sd_is_friend :: "string \<Rightarrow> string \<Rightarrow> string \<Rightarrow> ('s, SocialError, bool) read_op"
  sd_is_blocked_either :: "string \<Rightarrow> string \<Rightarrow> string \<Rightarrow> ('s, SocialError, bool) read_op"

record 's GroupDirectory =
  gd_group_create :: "string \<Rightarrow> CreateGroup \<Rightarrow> ('s, GroupError, string) write_op"
  gd_group_join :: "string \<Rightarrow> string \<Rightarrow> string \<Rightarrow> ('s, GroupError, unit) write_op"
  gd_group_quit :: "string \<Rightarrow> string \<Rightarrow> string \<Rightarrow> ('s, GroupError, unit) write_op"
  gd_group_members :: "string \<Rightarrow> string \<Rightarrow> ('s, GroupError, string list) read_op"
  gd_group_detail :: "string \<Rightarrow> string \<Rightarrow> ('s, GroupError, GroupInfo) read_op"
  gd_group_summaries :: "string \<Rightarrow> string list \<Rightarrow> ('s, GroupError, GroupSummary list) read_op"

record 's MessageStore =
  mst_insert :: "string \<Rightarrow> MessageKind \<Rightarrow> InsertMessage \<Rightarrow> string list \<Rightarrow> ('s, StoreError, InsertResult) write_op"
  mst_insert_bot_reply :: "string \<Rightarrow> string \<Rightarrow> string \<Rightarrow> int \<Rightarrow> InsertMessage \<Rightarrow> ('s, StoreError, InsertResult) write_op"
  mst_store_ack :: "string \<Rightarrow> string \<Rightarrow> string \<Rightarrow> int list \<Rightarrow> ('s, StoreError, unit) write_op"
  mst_offline_index :: "string \<Rightarrow> string \<Rightarrow> string \<Rightarrow> int \<Rightarrow> bool \<Rightarrow> ('s, StoreError, MessageIndexRow list \<times> bool) write_op"
  mst_offline_content :: "string \<Rightarrow> string \<Rightarrow> int list \<Rightarrow> ('s, StoreError, MessageContentRow list) read_op"
  mst_backfill :: "string \<Rightarrow> string \<Rightarrow> string \<Rightarrow> ('s, StoreError, unit) write_op"
  mst_inbox :: "string \<Rightarrow> string \<Rightarrow> int \<Rightarrow> ('s, StoreError, InboxEntry list) read_op"
  mst_history :: "string \<Rightarrow> string \<Rightarrow> string \<Rightarrow> MessageKind \<Rightarrow> int \<Rightarrow> int \<Rightarrow> ('s, StoreError, HistoryEntry list) read_op"
  mst_mark_read :: "string \<Rightarrow> string \<Rightarrow> string \<Rightarrow> MessageKind \<Rightarrow> int \<Rightarrow> ('s, StoreError, ConversationReadState) write_op"
  mst_states :: "string \<Rightarrow> string \<Rightarrow> ConversationStateKey list \<Rightarrow> ('s, StoreError, ConversationReadState list) read_op"
  mst_bot_pending :: "string \<Rightarrow> string \<Rightarrow> string \<Rightarrow> int \<Rightarrow> ('s, StoreError, BotPendingItem list) read_op"
  mst_purge :: "string \<Rightarrow> string \<Rightarrow> string \<Rightarrow> ('s, StoreError, unit) write_op"

record 's RoomInterestStore =
  rs_room_enter :: "string \<Rightarrow> string \<Rightarrow> string \<Rightarrow> string \<Rightarrow> int \<Rightarrow> ('s, string, unit) write_op"
  rs_room_leave :: "string \<Rightarrow> string \<Rightarrow> string \<Rightarrow> string \<Rightarrow> int \<Rightarrow> ('s, string, unit) write_op"
  rs_clear_channel :: "string \<Rightarrow> string \<Rightarrow> string \<Rightarrow> ('s, string, unit) write_op"
  rs_viewers :: "string \<Rightarrow> string \<Rightarrow> int \<Rightarrow> ('s, string, ViewerRef list) read_op"

record 's AgentSpecStore =
  sp_spec_list :: "string \<Rightarrow> string \<Rightarrow> ('s, AgentSpecError, AgentSpecRecord list) read_op"
  sp_spec_upsert :: "string \<Rightarrow> string \<Rightarrow> AgentSpecRecord \<Rightarrow> ('s, AgentSpecError, AgentSpecRecord) write_op"
  sp_account_list :: "string \<Rightarrow> string \<Rightarrow> ('s, AgentSpecError, AgentProviderAccount list) read_op"
  sp_account_upsert :: "string \<Rightarrow> string \<Rightarrow> AgentProviderAccount \<Rightarrow> ('s, AgentSpecError, AgentProviderAccount) write_op"

text \<open>The service as the handlers see it; every field that is a record is one trait object of the source.\<close>

record 's ChatSvc =
  sv_codec :: chat_codec
  sv_disp :: dispatcher
  sv_filter :: content_filter
  sv_unix_nano :: int
  sv_now_ms :: int
  sv_pending_receipt :: bool
  sv_zone :: string
  sv_directory_late :: bool
  sv_targets_late :: bool
  sv_push_cut :: "nat option"
  sv_members_late :: bool
  sv_sessions :: "'s SessionStorage"
  sv_users :: "'s UserDirectory"
  sv_social :: "'s SocialDirectory"
  sv_groups :: "'s GroupDirectory"
  sv_store :: "'s MessageStore"
  sv_interest :: "'s RoomInterestStore"
  sv_agent_specs :: "'s AgentSpecStore"

abbreviation sv_sess_add where "sv_sess_add svc \<equiv> sn_sess_add (sv_sessions svc)"
abbreviation sv_sess_delete where "sv_sess_delete svc \<equiv> sn_sess_delete (sv_sessions svc)"
abbreviation sv_sess_get where "sv_sess_get svc \<equiv> sn_sess_get (sv_sessions svc)"
abbreviation sv_get_locations where "sv_get_locations svc \<equiv> sn_get_locations (sv_sessions svc)"
abbreviation sv_list_locations where "sv_list_locations svc \<equiv> sn_list_locations (sv_sessions svc)"
abbreviation sv_lookup where "sv_lookup svc \<equiv> us_lookup (sv_users svc)"
abbreviation sv_exists where "sv_exists svc \<equiv> us_exists (sv_users svc)"
abbreviation sv_profile where "sv_profile svc \<equiv> us_profile (sv_users svc)"
abbreviation sv_profiles where "sv_profiles svc \<equiv> us_profiles (sv_users svc)"
abbreviation sv_search where "sv_search svc \<equiv> us_search (sv_users svc)"
abbreviation sv_upsert where "sv_upsert svc \<equiv> us_upsert (sv_users svc)"
abbreviation sv_update_profile where "sv_update_profile svc \<equiv> us_update_profile (sv_users svc)"
abbreviation sv_create_bot where "sv_create_bot svc \<equiv> us_create_bot (sv_users svc)"
abbreviation sv_update_bot where "sv_update_bot svc \<equiv> us_update_bot (sv_users svc)"
abbreviation sv_delete_bot where "sv_delete_bot svc \<equiv> us_delete_bot (sv_users svc)"
abbreviation sv_request where "sv_request svc \<equiv> sd_request (sv_social svc)"
abbreviation sv_accept where "sv_accept svc \<equiv> sd_accept (sv_social svc)"
abbreviation sv_reject where "sv_reject svc \<equiv> sd_reject (sv_social svc)"
abbreviation sv_remove where "sv_remove svc \<equiv> sd_remove (sv_social svc)"
abbreviation sv_block where "sv_block svc \<equiv> sd_block (sv_social svc)"
abbreviation sv_unblock where "sv_unblock svc \<equiv> sd_unblock (sv_social svc)"
abbreviation sv_list_friends where "sv_list_friends svc \<equiv> sd_list_friends (sv_social svc)"
abbreviation sv_incoming where "sv_incoming svc \<equiv> sd_incoming (sv_social svc)"
abbreviation sv_list_blocked where "sv_list_blocked svc \<equiv> sd_list_blocked (sv_social svc)"
abbreviation sv_is_friend where "sv_is_friend svc \<equiv> sd_is_friend (sv_social svc)"
abbreviation sv_is_blocked_either where "sv_is_blocked_either svc \<equiv> sd_is_blocked_either (sv_social svc)"
abbreviation sv_group_create where "sv_group_create svc \<equiv> gd_group_create (sv_groups svc)"
abbreviation sv_group_join where "sv_group_join svc \<equiv> gd_group_join (sv_groups svc)"
abbreviation sv_group_quit where "sv_group_quit svc \<equiv> gd_group_quit (sv_groups svc)"
abbreviation sv_group_members where "sv_group_members svc \<equiv> gd_group_members (sv_groups svc)"
abbreviation sv_group_detail where "sv_group_detail svc \<equiv> gd_group_detail (sv_groups svc)"
abbreviation sv_group_summaries where "sv_group_summaries svc \<equiv> gd_group_summaries (sv_groups svc)"
abbreviation sv_insert where "sv_insert svc \<equiv> mst_insert (sv_store svc)"
abbreviation sv_insert_bot_reply where "sv_insert_bot_reply svc \<equiv> mst_insert_bot_reply (sv_store svc)"
abbreviation sv_store_ack where "sv_store_ack svc \<equiv> mst_store_ack (sv_store svc)"
abbreviation sv_offline_index where "sv_offline_index svc \<equiv> mst_offline_index (sv_store svc)"
abbreviation sv_offline_content where "sv_offline_content svc \<equiv> mst_offline_content (sv_store svc)"
abbreviation sv_backfill where "sv_backfill svc \<equiv> mst_backfill (sv_store svc)"
abbreviation sv_inbox where "sv_inbox svc \<equiv> mst_inbox (sv_store svc)"
abbreviation sv_history where "sv_history svc \<equiv> mst_history (sv_store svc)"
abbreviation sv_mark_read where "sv_mark_read svc \<equiv> mst_mark_read (sv_store svc)"
abbreviation sv_states where "sv_states svc \<equiv> mst_states (sv_store svc)"
abbreviation sv_bot_pending where "sv_bot_pending svc \<equiv> mst_bot_pending (sv_store svc)"
abbreviation sv_purge where "sv_purge svc \<equiv> mst_purge (sv_store svc)"
abbreviation sv_room_enter where "sv_room_enter svc \<equiv> rs_room_enter (sv_interest svc)"
abbreviation sv_room_leave where "sv_room_leave svc \<equiv> rs_room_leave (sv_interest svc)"
abbreviation sv_clear_channel where "sv_clear_channel svc \<equiv> rs_clear_channel (sv_interest svc)"
abbreviation sv_viewers where "sv_viewers svc \<equiv> rs_viewers (sv_interest svc)"
abbreviation sv_spec_list where "sv_spec_list svc \<equiv> sp_spec_list (sv_agent_specs svc)"
abbreviation sv_spec_upsert where "sv_spec_upsert svc \<equiv> sp_spec_upsert (sv_agent_specs svc)"
abbreviation sv_account_list where "sv_account_list svc \<equiv> sp_account_list (sv_agent_specs svc)"
abbreviation sv_account_upsert where "sv_account_upsert svc \<equiv> sp_account_upsert (sv_agent_specs svc)"

abbreviation sess_app :: "Context \<Rightarrow> string" where "sess_app ctx \<equiv> s_app (cx_session ctx)"
abbreviation sess_account :: "Context \<Rightarrow> string" where "sess_account ctx \<equiv> s_account (cx_session ctx)"
abbreviation sess_channel :: "Context \<Rightarrow> string" where "sess_channel ctx \<equiv> s_channel_id (cx_session ctx)"
abbreviation req_body :: "Context \<Rightarrow> byte list" where "req_body ctx \<equiv> lp_body (cx_request ctx)"
abbreviation req_dest :: "Context \<Rightarrow> string" where "req_dest ctx \<equiv> h_dest (cx_header ctx)"

end
