(* ===== verification/Kim_Gateway.thy ===== *)
theory Kim_Gateway
  imports Kim_Container Kim_Chat_Types
begin

text \<open>
  The gateway handler, \<open>services/gateway/src/lib.rs\<close>: the handshake that turns a token into a connection,
  the heartbeat that checks the token again and renews it, the forwarding of a client's packets to the
  chat service, and the end of a connection. The revocation store, the clock, the JWT library, the
  protobuf codecs and the outcome of a forward are an environment; each call has its own.
\<close>

section \<open>State and environment\<close>

definition HEARTBEAT_REVOKE_ERROR_GRACE :: nat where "HEARTBEAT_REVOKE_ERROR_GRACE = 3"

record ChannelMeta =
  cm_app :: string
  cm_account :: string
  cm_jti :: string
  cm_ver :: nat
  cm_did :: string
  cm_idle_exp :: int
  cm_jwt_exp :: int
  cm_revoke_errors :: nat

definition ChannelMeta_new :: "string \<Rightarrow> string \<Rightarrow> string \<Rightarrow> nat \<Rightarrow> string \<Rightarrow> int \<Rightarrow> ChannelMeta" where
  "ChannelMeta_new app account jti ver did jwt_exp =
     \<lparr>cm_app = app, cm_account = account, cm_jti = jti, cm_ver = ver, cm_did = did, cm_idle_exp = 0,
      cm_jwt_exp = jwt_exp, cm_revoke_errors = 0\<rparr>"

record RevokeCheck =
  rv_is_revoked :: "string \<Rightarrow> (string, bool) result"
  rv_token_epoch :: "string \<Rightarrow> (string, nat) result"
  rv_device_ok :: "string \<Rightarrow> string \<Rightarrow> (string, bool) result"

text \<open>The trait's default methods with a store that revokes nothing, and the store on Redis, whose \<open>GET\<close> is an
  argument.\<close>

definition AllowAllRevoke :: RevokeCheck where
  "AllowAllRevoke = \<lparr>rv_is_revoked = \<lambda>_. Ok False, rv_token_epoch = \<lambda>_. Ok 0, rv_device_ok = \<lambda>_ _. Ok True\<rparr>"

definition RevokeStore :: "(string \<Rightarrow> (string, string option) result) \<Rightarrow> RevokeCheck" where
  "RevokeStore redis_get =
     \<lparr>rv_is_revoked = \<lambda>jti. res_bind (redis_get (token_revoke_key jti)) (\<lambda>found. Ok (found \<noteq> None)),
      rv_token_epoch = \<lambda>account. res_bind (redis_get (token_epoch_key account)) (\<lambda>found.
        Ok (case found of None \<Rightarrow> 0 | Some s \<Rightarrow> (case parse_unsigned u32_max s of None \<Rightarrow> 0 | Some n \<Rightarrow> n))),
      rv_device_ok = \<lambda>account did. res_bind (redis_get (device_hot_key did)) (\<lambda>found. Ok (found = Some account))\<rparr>"

record LoginReq =
  lg_token :: string
  lg_device :: string
  lg_device_credential :: string

record AuthResp =
  ar_token :: string
  ar_exp :: int
  ar_account :: string
  ar_device_id :: string
  ar_device_credential :: string

record gateway_env =
  gv_dec_header :: "byte list \<Rightarrow> (string, Header) result"
  gv_dec_login :: "LoginReq decoder"
  gv_enc_session :: "Session \<Rightarrow> byte list"
  gv_enc_auth :: "AuthResp \<Rightarrow> byte list"
  gv_dec_kick :: "string decoder"
  gv_jwt_enc :: jwt_encode
  gv_jwt_dec :: jwt_decode
  gv_now :: int
  gv_revoke :: "RevokeCheck option"
  gv_redis :: bool
  gv_forward :: "string \<Rightarrow> LogicPkt \<Rightarrow> (string, unit) result"
  gv_write_ok :: bool

record GatewayHandler =
  gw_gateway_id :: string
  gw_jwt_secret :: string
  gw_token_ttl_secs :: int
  gw_require_jti :: bool
  gw_seq :: "64 word"
  gw_pending :: "(string, LogicPkt) hmap"
  gw_meta :: "(string, ChannelMeta) hmap"

definition gateway_with_ttl :: "bool \<Rightarrow> string \<Rightarrow> string \<Rightarrow> int \<Rightarrow> GatewayHandler" where
  "gateway_with_ttl require_jti gateway_id jwt_secret token_ttl_secs =
     \<lparr>gw_gateway_id = gateway_id, gw_jwt_secret = jwt_secret,
      gw_token_ttl_secs = (if token_ttl_secs > 0 then token_ttl_secs else 86400), gw_require_jti = require_jti,
      gw_seq = 1, gw_pending = [], gw_meta = []\<rparr>"

text \<open>What a call does to the outside: writing a status on a connection that is still shaking hands, pushing to a
  connection, giving a packet to the container, closing a connection, extending a stored session.\<close>

datatype gw_out =
    Wrote LogicPkt
  | Pushed string Packet
  | Forwarded string LogicPkt
  | Closing string
  | Touched string string

datatype GatewayError = Handshake string | HandshakeTimeout | WriteFailed | GatewayOther string

section \<open>Small operations\<close>

definition strip_port :: "string \<Rightarrow> string" where
  "strip_port peer =
     (case peer of
        [] \<Rightarrow> peer
      | c # rest \<Rightarrow>
          if c = CHR ''['' then (case split_once (CHR '']'') rest of Some (a, _) \<Rightarrow> a | None \<Rightarrow> peer)
          else case rsplit_once (CHR '':'') peer of Some (ip, _) \<Rightarrow> ip | None \<Rightarrow> peer)"

definition remote_ip :: "string option \<Rightarrow> string" where
  "remote_ip peer = (case peer of None \<Rightarrow> [] | Some p \<Rightarrow> strip_port p)"

definition i64_saturating_add :: "int \<Rightarrow> int \<Rightarrow> int" where
  "i64_saturating_add a b = max i64_min (min i64_max (a + b))"

definition status_packet :: "Header \<Rightarrow> Status \<Rightarrow> LogicPkt" where
  "status_packet header status =
     (let pkt = LogicPkt_new_from header in pkt\<lparr>lp_header := (lp_header pkt)\<lparr>h_status := status, h_flag := Response\<rparr>\<rparr>)"

definition channel_name :: "string \<Rightarrow> string \<Rightarrow> 64 word \<Rightarrow> string" where
  "channel_name gateway_id account n = gateway_id @ ''_'' @ account @ ''_'' @ show_nat (unat n)"

definition generate_channel_id :: "string \<Rightarrow> GatewayHandler \<Rightarrow> string \<times> GatewayHandler" where
  "generate_channel_id account h = (channel_name (gw_gateway_id h) account (gw_seq h), h\<lparr>gw_seq := gw_seq h + 1\<rparr>)"

definition insert_meta :: "gateway_env \<Rightarrow> string \<Rightarrow> ChannelMeta \<Rightarrow> GatewayHandler \<Rightarrow> GatewayHandler" where
  "insert_meta env channel_id meta h =
     h\<lparr>gw_meta := hput channel_id (meta\<lparr>cm_idle_exp := i64_saturating_add (gv_now env) (gw_token_ttl_secs h)\<rparr>) (gw_meta h)\<rparr>"

definition remove_meta :: "string \<Rightarrow> GatewayHandler \<Rightarrow> GatewayHandler" where
  "remove_meta channel_id h = h\<lparr>gw_meta := hdel channel_id (gw_meta h)\<rparr>"

definition note_revoke_error :: "string \<Rightarrow> GatewayHandler \<Rightarrow> nat \<times> GatewayHandler" where
  "note_revoke_error channel_id h =
     (case hget (gw_meta h) channel_id of
        Some m \<Rightarrow>
          let n = u32_saturating_add (cm_revoke_errors m) 1
          in (n, h\<lparr>gw_meta := hput channel_id (m\<lparr>cm_revoke_errors := n\<rparr>) (gw_meta h)\<rparr>)
      | None \<Rightarrow> (HEARTBEAT_REVOKE_ERROR_GRACE, h))"

definition clear_revoke_errors :: "string \<Rightarrow> GatewayHandler \<Rightarrow> GatewayHandler" where
  "clear_revoke_errors channel_id h =
     (case hget (gw_meta h) channel_id of
        Some m \<Rightarrow> h\<lparr>gw_meta := hput channel_id (m\<lparr>cm_revoke_errors := 0\<rparr>) (gw_meta h)\<rparr>
      | None \<Rightarrow> h)"

definition inject_meta :: "GatewayHandler \<Rightarrow> LogicPkt \<Rightarrow> LogicPkt" where
  "inject_meta h pkt =
     (case hget (gw_meta h) (h_channel_id (lp_header pkt)) of
        Some m \<Rightarrow> set_meta META_ACCOUNT (cm_account m) (set_meta META_APP (cm_app m) pkt)
      | None \<Rightarrow> pkt)"

text \<open>The packet as the container gets it, and the container's verdict.\<close>

definition forward_logic :: "gateway_env \<Rightarrow> string \<Rightarrow> LogicPkt \<Rightarrow> GatewayHandler \<Rightarrow> (string, unit) result \<times> gw_out list" where
  "forward_logic env service pkt h =
     (let pkt = inject_meta h pkt in (gv_forward env service pkt, [Forwarded service pkt]))"

section \<open>The heartbeat\<close>

text \<open>Each check keeps the connection, possibly without renewing its token, or closes it.\<close>

datatype hb_verdict = HbClose | HbKeep bool

definition hb_failed :: "string \<Rightarrow> GatewayHandler \<Rightarrow> hb_verdict \<times> GatewayHandler" where
  "hb_failed channel_id h =
     (let (consecutive, h') = note_revoke_error channel_id h
      in (if consecutive \<ge> HEARTBEAT_REVOKE_ERROR_GRACE then HbClose else HbKeep True, h'))"

definition hb_revoked :: "RevokeCheck \<Rightarrow> string \<Rightarrow> string \<Rightarrow> GatewayHandler \<Rightarrow> hb_verdict \<times> GatewayHandler" where
  "hb_revoked store jti channel_id h =
     (if jti = [] then (HbKeep False, h)
      else case rv_is_revoked store jti of
          Inr True \<Rightarrow> (HbClose, h)
        | Inr False \<Rightarrow> (HbKeep False, clear_revoke_errors channel_id h)
        | Inl _ \<Rightarrow> hb_failed channel_id h)"

definition hb_epoch :: "RevokeCheck \<Rightarrow> string \<Rightarrow> nat \<Rightarrow> string \<Rightarrow> GatewayHandler \<Rightarrow> hb_verdict \<times> GatewayHandler" where
  "hb_epoch store account ver channel_id h =
     (case rv_token_epoch store account of
        Inr epoch \<Rightarrow> (if ver < epoch then HbClose else HbKeep False, h)
      | Inl _ \<Rightarrow> hb_failed channel_id h)"

definition hb_device :: "RevokeCheck \<Rightarrow> string \<Rightarrow> string \<Rightarrow> string \<Rightarrow> GatewayHandler \<Rightarrow> hb_verdict \<times> GatewayHandler" where
  "hb_device store account did channel_id h =
     (if did = [] then (HbKeep False, h)
      else case rv_device_ok store account did of
          Inr True \<Rightarrow> (HbKeep False, h)
        | Inr False \<Rightarrow> (HbClose, h)
        | Inl _ \<Rightarrow> hb_failed channel_id h)"

fun hb_then :: "hb_verdict \<times> GatewayHandler \<Rightarrow> (GatewayHandler \<Rightarrow> hb_verdict \<times> GatewayHandler) \<Rightarrow> hb_verdict \<times> GatewayHandler" where
  "hb_then (HbClose, h) f = (HbClose, h)"
| "hb_then (HbKeep skip, h) f = (case f h of (HbClose, h') \<Rightarrow> (HbClose, h') | (HbKeep skip', h') \<Rightarrow> (HbKeep (skip \<or> skip'), h'))"

definition hb_checks :: "gateway_env \<Rightarrow> string \<Rightarrow> ChannelMeta \<Rightarrow> GatewayHandler \<Rightarrow> hb_verdict \<times> GatewayHandler" where
  "hb_checks env channel_id m h =
     (case gv_revoke env of
        None \<Rightarrow> (HbKeep False, h)
      | Some store \<Rightarrow>
          hb_then (hb_then (hb_revoked store (cm_jti m) channel_id h) (hb_epoch store (cm_account m) (cm_ver m) channel_id))
            (hb_device store (cm_account m) (cm_did m) channel_id))"

definition renew_packet :: "gateway_env \<Rightarrow> string \<Rightarrow> ChannelMeta \<Rightarrow> int \<Rightarrow> string \<Rightarrow> LogicPkt" where
  "renew_packet env channel_id m next_jwt token =
     (let pkt = LogicPkt_new (Command_as_str LoginRenew) 0 [];
          pkt = pkt\<lparr>lp_header := (lp_header pkt)\<lparr>h_flag := Push, h_channel_id := channel_id\<rparr>\<rparr>
      in LogicPkt_write_body (gv_enc_auth env \<lparr>ar_token = token, ar_exp = next_jwt, ar_account = cm_account m,
           ar_device_id = cm_did m, ar_device_credential = []\<rparr>) pkt)"

definition renew_token :: "gateway_env \<Rightarrow> GatewayHandler \<Rightarrow> ChannelMeta \<Rightarrow> int \<Rightarrow> (string ProtocolError, string) result" where
  "renew_token env h m next_jwt =
     generate_with_device (gv_jwt_enc env) (gw_jwt_secret h) (cm_account m) (cm_app m) next_jwt (cm_jti m) (cm_ver m)
       (if cm_did m = [] then None else Some (cm_did m))"

definition heartbeat :: "gateway_env \<Rightarrow> string \<Rightarrow> GatewayHandler \<Rightarrow> (unit, LogicPkt option) result \<times> GatewayHandler \<times> gw_out list" where
  "heartbeat env channel_id h =
     (case hget (gw_meta h) channel_id of
        None \<Rightarrow> (Ok None, h, [])
      | Some m \<Rightarrow>
          (case hb_checks env channel_id m h of
             (HbClose, h1) \<Rightarrow> (Err (), h1, [Closing channel_id])
           | (HbKeep skip_renew, h1) \<Rightarrow>
               let now = gv_now env in
               if cm_idle_exp m > 0 \<and> now \<ge> cm_idle_exp m then (Err (), h1, [Closing channel_id])
               else
                 let next_idle = i64_saturating_add now (gw_token_ttl_secs h);
                     remaining = i64_saturating_sub (cm_jwt_exp m) now;
                     half = gw_token_ttl_secs h div 2;
                     renew = (remaining < half \<and> cm_jti m \<noteq> [] \<and> \<not> skip_renew);
                     next_jwt = (if renew then next_idle else cm_jwt_exp m);
                     h2 = (case hget (gw_meta h1) channel_id of
                             Some m1 \<Rightarrow> h1\<lparr>gw_meta := hput channel_id (m1\<lparr>cm_idle_exp := next_idle, cm_jwt_exp := next_jwt\<rparr>) (gw_meta h1)\<rparr>
                           | None \<Rightarrow> h1);
                     touch = (if gv_redis env then [Touched (cm_account m) channel_id] else [])
                 in if \<not> renew then (Ok None, h2, touch)
                    else case renew_token env h m next_jwt of
                        Inr token \<Rightarrow> (Ok (Some (renew_packet env channel_id m next_jwt token)), h2, touch)
                      | Inl _ \<Rightarrow> (Ok None, h2, touch)))"

section \<open>The handshake\<close>

definition check_epoch :: "RevokeCheck \<Rightarrow> Claims \<Rightarrow> (string, unit) result" where
  "check_epoch store claims =
     (case rv_token_epoch store (cl_account claims) of
        Inr epoch \<Rightarrow> if cl_ver claims < epoch then Err ''revoked'' else Ok ()
      | Inl _ \<Rightarrow> Err ''revoke check failed'')"

definition check_jti :: "RevokeCheck \<Rightarrow> string option \<Rightarrow> (string, unit) result" where
  "check_jti store jti =
     (case jti of
        None \<Rightarrow> Ok ()
      | Some jti \<Rightarrow>
          (case rv_is_revoked store jti of
             Inr True \<Rightarrow> Err ''revoked''
           | Inr False \<Rightarrow> Ok ()
           | Inl _ \<Rightarrow> Err ''revoke check failed''))"

definition check_device :: "RevokeCheck \<Rightarrow> Claims \<Rightarrow> string option \<Rightarrow> string \<Rightarrow> (string, unit) result" where
  "check_device store claims did cred =
     (case did of
        None \<Rightarrow> if cred \<noteq> [] then Err ''unauthorized'' else Ok ()
      | Some did \<Rightarrow>
          (case rv_device_ok store (cl_account claims) did of
             Inr True \<Rightarrow> Ok ()
           | Inr False \<Rightarrow> Err ''unauthorized''
           | Inl _ \<Rightarrow> Err ''revoke check failed''))"

definition check_revocation :: "RevokeCheck option \<Rightarrow> Claims \<Rightarrow> string option \<Rightarrow> string option \<Rightarrow> string \<Rightarrow> (string, unit) result" where
  "check_revocation revoke claims jti did cred =
     (if jti \<noteq> None \<or> did \<noteq> None \<or> cred \<noteq> [] then
        case revoke of
          None \<Rightarrow> Err ''revoke store required''
        | Some store \<Rightarrow>
            res_bind (check_jti store jti) (\<lambda>_. res_bind (check_epoch store claims) (\<lambda>_. check_device store claims did cred))
      else case revoke of None \<Rightarrow> Ok () | Some store \<Rightarrow> check_epoch store claims)"

text \<open>A refusal is the status written to the client and the error of the handshake.\<close>

definition authenticate ::
  "gateway_env \<Rightarrow> GatewayHandler \<Rightarrow> LogicPkt \<Rightarrow> (Status \<times> string, LoginReq \<times> Claims) result" where
  "authenticate env h pkt =
     (if h_command (lp_header pkt) \<noteq> Command_as_str LoginSignIn then Err (InvalidCommand, ''invalid command'')
      else case gv_dec_login env (lp_body pkt) of
          Inl _ \<Rightarrow> Err (InvalidPacketBody, ''invalid packet body'')
        | Inr req \<Rightarrow>
            (case parse_token (gv_jwt_dec env) (gw_jwt_secret h) (lg_token req) :: (string ProtocolError, Claims) result of
               Inl _ \<Rightarrow> Err (Unauthorized, ''unauthorized'')
             | Inr claims \<Rightarrow>
                 if cl_app claims \<noteq> ALLOWED_APP then Err (Unauthorized, ''app not allowed'')
                 else if gw_require_jti h \<and> nonblank (cl_jti claims) = None then Err (Unauthorized, ''unauthorized'')
                 else case check_revocation (gv_revoke env) claims (nonblank (cl_jti claims)) (nonblank (cl_did claims))
                             (trim (lg_device_credential req)) of
                     Inl msg \<Rightarrow> Err (Unauthorized, msg)
                   | Inr _ \<Rightarrow> Ok (req, claims)))"

definition or_blank :: "string option \<Rightarrow> string" where
  "or_blank v = (case v of None \<Rightarrow> [] | Some s \<Rightarrow> s)"

definition login_body :: "GatewayHandler \<Rightarrow> string \<Rightarrow> string option \<Rightarrow> LoginReq \<Rightarrow> Claims \<Rightarrow> Session" where
  "login_body h channel peer req claims =
     \<lparr>s_channel_id = channel, s_gate_id = gw_gateway_id h, s_account = cl_account claims, s_zone = [], s_isp = [],
      s_remote_ip = remote_ip peer, s_device = lg_device req, s_app = cl_app claims, s_tags = [],
      s_jti = or_blank (nonblank (cl_jti claims)), s_device_id = or_blank (nonblank (cl_did claims))\<rparr>"

definition admit ::
  "gateway_env \<Rightarrow> string option \<Rightarrow> LogicPkt \<Rightarrow> LoginReq \<Rightarrow> Claims \<Rightarrow> GatewayHandler \<Rightarrow> string \<times> GatewayHandler" where
  "admit env peer pkt req claims h =
     (let (channel, h1) = generate_channel_id (cl_account claims) h;
          pkt1 = pkt\<lparr>lp_header := (lp_header pkt)\<lparr>h_channel_id := channel\<rparr>\<rparr>;
          pkt2 = LogicPkt_write_body (gv_enc_session env (login_body h channel peer req claims)) pkt1;
          h2 = insert_meta env channel (ChannelMeta_new (cl_app claims) (cl_account claims) (or_blank (nonblank (cl_jti claims)))
                 (cl_ver claims) (or_blank (nonblank (cl_did claims))) (cl_exp claims)) h1
      in (channel, h2\<lparr>gw_pending := hput channel pkt2 (gw_pending h2)\<rparr>))"

text \<open>The first frame, or why there was none, and the peer's address are arguments.\<close>

definition accept ::
  "gateway_env \<Rightarrow> (GatewayError, byte list) result \<Rightarrow> string option \<Rightarrow> GatewayHandler
   \<Rightarrow> (GatewayError, string) result \<times> GatewayHandler \<times> gw_out list" where
  "accept env frame peer h =
     (case frame of
        Inl e \<Rightarrow> (Err e, h, [])
      | Inr raw \<Rightarrow>
          (case read_logic (gv_dec_header env) raw of
             Inl _ \<Rightarrow> (Err (Handshake ''expected login.signin''), h, [])
           | Inr pkt \<Rightarrow>
               (case authenticate env h pkt of
                  Inl (status, msg) \<Rightarrow>
                    (Err (if gv_write_ok env then Handshake msg else WriteFailed), h, [Wrote (status_packet (lp_header pkt) status)])
                | Inr (req, claims) \<Rightarrow>
                    let (channel, h') = admit env peer pkt req claims h in (Ok channel, h', []))))"

definition on_accept_abandoned :: "string \<Rightarrow> GatewayHandler \<Rightarrow> GatewayHandler" where
  "on_accept_abandoned channel_id h =
     remove_meta channel_id (h\<lparr>gw_pending := hdel channel_id (gw_pending h)\<rparr>)"

definition on_channel_ready :: "gateway_env \<Rightarrow> string \<Rightarrow> GatewayHandler \<Rightarrow> (GatewayError, unit) result \<times> GatewayHandler \<times> gw_out list" where
  "on_channel_ready env channel_id h =
     (let h1 = h\<lparr>gw_pending := hdel channel_id (gw_pending h)\<rparr> in
      case hget (gw_pending h) channel_id of
        None \<Rightarrow> (Err (GatewayOther ''pending login missing''), h1, [])
      | Some pkt \<Rightarrow>
          (case forward_logic env SN_LOGIN pkt h1 of
             (Inl err, out) \<Rightarrow>
               (Err (GatewayOther err), remove_meta channel_id h1,
                out @ [Pushed channel_id (LogicPacket (status_packet (lp_header pkt) ServiceUnavailable))])
           | (Inr _, out) \<Rightarrow> (Ok (), h1, out)))"

section \<open>Messages, the end of a connection, kicks\<close>

definition gateway_receive :: "gateway_env \<Rightarrow> string \<Rightarrow> byte list \<Rightarrow> GatewayHandler \<Rightarrow> GatewayHandler \<times> gw_out list" where
  "gateway_receive env channel_id raw h =
     (case read_packet (gv_dec_header env) raw of
        Inl _ \<Rightarrow> (h, [])
      | Inr (BasicPacket p) \<Rightarrow>
          if bp_code p = CODE_PING then
            (case heartbeat env channel_id h of
               (Inl _, h', out) \<Rightarrow> (h', out)
             | (Inr renew, h', out) \<Rightarrow>
                 (h', out @ [Pushed channel_id (BasicPacket BasicPkt_pong)]
                   @ (case renew of None \<Rightarrow> [] | Some pkt \<Rightarrow> [Pushed channel_id (LogicPacket pkt)])))
          else (h, [])
      | Inr (LogicPacket p) \<Rightarrow>
          let logic = p\<lparr>lp_header := (lp_header p)\<lparr>h_channel_id := channel_id\<rparr>\<rparr>;
              svc = service_name (h_command (lp_header logic))
          in (case forward_logic env svc logic h of
                (Inl _, out) \<Rightarrow> (h, out @ [Pushed channel_id (LogicPacket (status_packet (lp_header logic) ServiceUnavailable))])
              | (Inr _, out) \<Rightarrow> (h, out)))"

definition gateway_disconnect :: "gateway_env \<Rightarrow> string \<Rightarrow> GatewayHandler \<Rightarrow> GatewayHandler \<times> gw_out list" where
  "gateway_disconnect env channel_id h =
     (let pkt = LogicPkt_new (Command_as_str LoginSignOut) 0 [];
          logout = pkt\<lparr>lp_header := (lp_header pkt)\<lparr>h_channel_id := channel_id\<rparr>\<rparr>;
          (_, out) = forward_logic env SN_LOGIN logout h
      in (remove_meta channel_id h, out))"

definition kick_after_push :: "gateway_env \<Rightarrow> string \<Rightarrow> LogicPkt \<Rightarrow> gw_out list" where
  "kick_after_push env channel_id pkt =
     (if h_flag (lp_header pkt) \<noteq> Push \<or> h_command (lp_header pkt) \<noteq> Command_as_str LoginSignIn then []
      else case gv_dec_kick env (lp_body pkt) of
          Inl _ \<Rightarrow> []
        | Inr notified \<Rightarrow> if notified \<noteq> channel_id then [] else [Closing channel_id])"

section \<open>The handshake admits exactly the entitled\<close>

text \<open>Who may connect: a login packet whose token the JWT library accepts for an account of the application, not
  revoked, of the current epoch, from a device that is still enrolled. Without a revocation store only a token
  that cannot be revoked is admitted.\<close>

definition revocation_clear :: "RevokeCheck option \<Rightarrow> Claims \<Rightarrow> string \<Rightarrow> bool" where
  "revocation_clear revoke claims cred \<longleftrightarrow>
     (case revoke of
        None \<Rightarrow> nonblank (cl_jti claims) = None \<and> nonblank (cl_did claims) = None \<and> cred = []
      | Some store \<Rightarrow>
          (\<forall>jti. nonblank (cl_jti claims) = Some jti \<longrightarrow> rv_is_revoked store jti = Ok False)
          \<and> (\<exists>epoch \<le> cl_ver claims. rv_token_epoch store (cl_account claims) = Ok epoch)
          \<and> (\<forall>did. nonblank (cl_did claims) = Some did \<longrightarrow> rv_device_ok store (cl_account claims) did = Ok True)
          \<and> (cred \<noteq> [] \<longrightarrow> nonblank (cl_did claims) \<noteq> None))"

definition admissible :: "gateway_env \<Rightarrow> GatewayHandler \<Rightarrow> LogicPkt \<Rightarrow> LoginReq \<Rightarrow> Claims \<Rightarrow> bool" where
  "admissible env h pkt req claims \<longleftrightarrow>
     h_command (lp_header pkt) = Command_as_str LoginSignIn
     \<and> gv_dec_login env (lp_body pkt) = Ok req
     \<and> gv_jwt_dec env (gw_jwt_secret h) (lg_token req) = Ok claims
     \<and> cl_account claims \<noteq> [] \<and> \<not> list_ex is_ascii_control (cl_account claims)
     \<and> cl_app claims = ALLOWED_APP
     \<and> (gw_require_jti h \<longrightarrow> nonblank (cl_jti claims) \<noteq> None)
     \<and> revocation_clear (gv_revoke env) claims (trim (lg_device_credential req))"

lemma check_epoch_Ok: "check_epoch store claims = Ok () \<longleftrightarrow> (\<exists>epoch \<le> cl_ver claims. rv_token_epoch store (cl_account claims) = Ok epoch)"
  by (auto simp: check_epoch_def split: sum.splits if_splits)

lemma check_jti_Ok: "check_jti store jti = Ok () \<longleftrightarrow> (\<forall>j. jti = Some j \<longrightarrow> rv_is_revoked store j = Ok False)"
  by (auto simp: check_jti_def split: option.splits sum.splits bool.splits)

lemma check_device_Ok:
  "check_device store claims did cred = Ok () \<longleftrightarrow>
     (\<forall>d. did = Some d \<longrightarrow> rv_device_ok store (cl_account claims) d = Ok True) \<and> (cred \<noteq> [] \<longrightarrow> did \<noteq> None)"
  by (auto simp: check_device_def split: option.splits sum.splits bool.splits if_splits)

lemma check_revocation_Ok:
  "check_revocation revoke claims (nonblank (cl_jti claims)) (nonblank (cl_did claims)) cred = Ok ()
     \<longleftrightarrow> revocation_clear revoke claims cred"
  by (cases revoke)
    (auto simp: check_revocation_def revocation_clear_def check_jti_Ok check_epoch_Ok check_device_Ok res_bind_eq_Inr)

lemma parse_token_Ok:
  "parse_token jwt_dec secret token = Ok claims \<longleftrightarrow>
     jwt_dec secret token = Ok claims \<and> cl_account claims \<noteq> [] \<and> \<not> list_ex is_ascii_control (cl_account claims)"
  by (auto simp: parse_token_def check_account_def res_bind_eq_Inr split: sum.splits)

lemma admissible_alt:
  "admissible env h pkt req claims \<longleftrightarrow>
     h_command (lp_header pkt) = Command_as_str LoginSignIn \<and> gv_dec_login env (lp_body pkt) = Ok req
     \<and> parse_token (gv_jwt_dec env) (gw_jwt_secret h) (lg_token req) = (Ok claims :: (string ProtocolError, Claims) result)
     \<and> cl_app claims = ALLOWED_APP \<and> (gw_require_jti h \<longrightarrow> nonblank (cl_jti claims) \<noteq> None)
     \<and> check_revocation (gv_revoke env) claims (nonblank (cl_jti claims)) (nonblank (cl_did claims)) (trim (lg_device_credential req)) = Ok ()"
  by (auto simp: admissible_def parse_token_Ok check_revocation_Ok)

lemma authenticate_Ok: "authenticate env h pkt = Ok (req, claims) \<longleftrightarrow> admissible env h pkt req claims"
  unfolding authenticate_def admissible_alt by (auto split: sum.splits if_splits)

text \<open>C6: The handshake admits exactly the entitled. A connection is accepted if and only if its first frame is a
  login whose token is verified for an account of this application, with a session identifier where one is
  required, and which no store reports revoked, outdated or from a withdrawn device; a store that fails
  refuses. The accepted connection is named after its account and remembered under it, and a refused one
  changes nothing and sends nothing to the chat service.\<close>

theorem accept_exact:
  assumes "accept env frame peer h = (r, h', out)"
  shows "(\<forall>channel. r = Ok channel \<longleftrightarrow>
      (\<exists>raw pkt req claims. frame = Ok raw \<and> read_logic (gv_dec_header env) raw = Ok pkt \<and> admissible env h pkt req claims
         \<and> channel = channel_name (gw_gateway_id h) (cl_account claims) (gw_seq h)
         \<and> map_option cm_account (hget (gw_meta h') channel) = Some (cl_account claims)
         \<and> map_option cm_app (hget (gw_meta h') channel) = Some ALLOWED_APP))
    \<and> (\<forall>e. r = Err e \<longrightarrow> h' = h)
    \<and> (\<forall>service p. Forwarded service p \<notin> set out)"
proof -
  consider (none) e where "frame = Err e" | (bad) raw e where "frame = Ok raw" "read_logic (gv_dec_header env) raw = Err e"
    | (refused) raw pkt st msg where "frame = Ok raw" "read_logic (gv_dec_header env) raw = Ok pkt" "authenticate env h pkt = Err (st, msg)"
    | (admitted) raw pkt req claims where "frame = Ok raw" "read_logic (gv_dec_header env) raw = Ok pkt" "authenticate env h pkt = Ok (req, claims)"
    by (metis sumE surj_pair)
  then show ?thesis
  proof cases
    case refused
    then have "\<not> admissible env h pkt req claims" for req claims using authenticate_Ok[of env h pkt req claims] by auto
    then show ?thesis using assms refused by (auto simp: accept_def)
  next
    case admitted
    then have adm: "admissible env h pkt req claims" by (simp add: authenticate_Ok)
    have "req' = req \<and> claims' = claims" if "admissible env h pkt req' claims'" for req' claims'
      using admitted(3) that by (simp add: authenticate_Ok[symmetric])
    then show ?thesis
      using assms admitted adm
      by (auto simp: accept_def admit_def generate_channel_id_def insert_meta_def ChannelMeta_new_def Let_def admissible_def)
  qed (use assms in \<open>auto simp: accept_def\<close>)
qed

section \<open>The heartbeat enforces revocation\<close>

text \<open>What identifies the holder of a connection. The heartbeat never changes it.\<close>

definition holder :: "ChannelMeta \<Rightarrow> string \<times> string \<times> string \<times> nat \<times> string" where
  "holder m = (cm_app m, cm_account m, cm_jti m, cm_ver m, cm_did m)"

definition same_holders :: "GatewayHandler \<Rightarrow> GatewayHandler \<Rightarrow> bool" where
  "same_holders h h' \<longleftrightarrow> gw_gateway_id h' = gw_gateway_id h \<and> gw_jwt_secret h' = gw_jwt_secret h
     \<and> gw_token_ttl_secs h' = gw_token_ttl_secs h \<and> gw_require_jti h' = gw_require_jti h \<and> gw_seq h' = gw_seq h
     \<and> gw_pending h' = gw_pending h
     \<and> (\<forall>c. map_option holder (hget (gw_meta h') c) = map_option holder (hget (gw_meta h) c))"

lemma same_holders_refl [simp]: "same_holders h h"
  by (simp add: same_holders_def)

lemma same_holders_trans: "same_holders h h' \<Longrightarrow> same_holders h' h'' \<Longrightarrow> same_holders h h''"
  by (simp add: same_holders_def)

lemma hb_failed_holders: "hb_failed c h = (v, h') \<Longrightarrow> same_holders h h' \<and> v \<noteq> HbKeep False"
  by (auto simp: hb_failed_def note_revoke_error_def same_holders_def holder_def Let_def split: option.splits if_splits)

lemma hb_check_holders:
  "hb_revoked store jti c h = (v, h') \<Longrightarrow> same_holders h h'"
  "hb_epoch store account ver c h = (v, h') \<Longrightarrow> same_holders h h'"
  "hb_device store account did c h = (v, h') \<Longrightarrow> same_holders h h'"
  by (auto simp: hb_revoked_def hb_epoch_def hb_device_def clear_revoke_errors_def dest: hb_failed_holders
        split: if_splits sum.splits bool.splits option.splits) (auto simp: same_holders_def holder_def)

lemma hb_then_eq:
  "hb_then p f = (v, h') \<Longrightarrow> (\<exists>h. p = (HbClose, h) \<and> v = HbClose \<and> h' = h)
     \<or> (\<exists>skip h v2. p = (HbKeep skip, h) \<and> f h = (v2, h') \<and> v = (case v2 of HbClose \<Rightarrow> HbClose | HbKeep s2 \<Rightarrow> HbKeep (skip \<or> s2)))"
  by (cases "(p, f)" rule: hb_then.cases) (auto split: prod.splits hb_verdict.splits)

lemma hb_checks_holders: "hb_checks env c m h = (v, h') \<Longrightarrow> same_holders h h'"
  unfolding hb_checks_def
  by (auto split: option.splits dest!: hb_then_eq) (meson hb_check_holders same_holders_trans)+

lemma hb_closes:
  "rv_is_revoked store jti = Ok True \<Longrightarrow> jti \<noteq> [] \<Longrightarrow> fst (hb_revoked store jti c h) = HbClose"
  "rv_token_epoch store account = Ok epoch \<Longrightarrow> ver < epoch \<Longrightarrow> fst (hb_epoch store account ver c h) = HbClose"
  "rv_device_ok store account did = Ok False \<Longrightarrow> did \<noteq> [] \<Longrightarrow> fst (hb_device store account did c h) = HbClose"
  by (simp_all add: hb_revoked_def hb_epoch_def hb_device_def)

lemma hb_clean:
  "hb_revoked store jti c h = (HbKeep False, h') \<Longrightarrow> jti \<noteq> [] \<Longrightarrow> rv_is_revoked store jti = Ok False"
  "hb_epoch store account ver c h = (HbKeep False, h') \<Longrightarrow> \<exists>epoch \<le> ver. rv_token_epoch store account = Ok epoch"
  "hb_device store account did c h = (HbKeep False, h') \<Longrightarrow> did \<noteq> [] \<Longrightarrow> rv_device_ok store account did = Ok True"
  by (auto simp: hb_revoked_def hb_epoch_def hb_device_def dest: hb_failed_holders split: if_splits sum.splits bool.splits)

text \<open>What a store that answers says against a connection, and for it.\<close>

definition withdrawn :: "RevokeCheck \<Rightarrow> ChannelMeta \<Rightarrow> bool" where
  "withdrawn store m \<longleftrightarrow> (cm_jti m \<noteq> [] \<and> rv_is_revoked store (cm_jti m) = Ok True)
     \<or> (\<exists>epoch > cm_ver m. rv_token_epoch store (cm_account m) = Ok epoch)
     \<or> (cm_did m \<noteq> [] \<and> rv_device_ok store (cm_account m) (cm_did m) = Ok False)"

definition confirmed :: "RevokeCheck \<Rightarrow> ChannelMeta \<Rightarrow> bool" where
  "confirmed store m \<longleftrightarrow> (cm_jti m \<noteq> [] \<longrightarrow> rv_is_revoked store (cm_jti m) = Ok False)
     \<and> (\<exists>epoch \<le> cm_ver m. rv_token_epoch store (cm_account m) = Ok epoch)
     \<and> (cm_did m \<noteq> [] \<longrightarrow> rv_device_ok store (cm_account m) (cm_did m) = Ok True)"

lemma hb_checks_withdrawn:
  assumes "gv_revoke env = Some store" "withdrawn store m" "hb_checks env c m h = (v, h')"
  shows "v = HbClose"
  using assms hb_closes[of store] unfolding hb_checks_def withdrawn_def
  by (auto dest!: hb_then_eq) (metis fst_conv hb_verdict.simps)+

lemma hb_checks_confirmed:
  assumes "gv_revoke env = Some store" "hb_checks env c m h = (HbKeep False, h')"
  shows "confirmed store m"
  using assms unfolding hb_checks_def confirmed_def
  by (auto dest!: hb_then_eq split: hb_verdict.splits dest: hb_clean)

lemma heartbeat_cases:
  assumes "hget (gw_meta h) c = Some m" "heartbeat env c h = (r, h', out)"
  obtains (checks) h1 where "hb_checks env c m h = (HbClose, h1)" "r = Err ()" "h' = h1" "out = [Closing c]"
  | (idle) skip h1 where "hb_checks env c m h = (HbKeep skip, h1)" "0 < cm_idle_exp m" "cm_idle_exp m \<le> gv_now env"
      "r = Err ()" "h' = h1" "out = [Closing c]"
  | (kept) skip h1 m1 next_jwt where "hb_checks env c m h = (HbKeep skip, h1)" "cm_idle_exp m \<le> 0 \<or> gv_now env < cm_idle_exp m"
      "hget (gw_meta h1) c = Some m1"
      "h' = h1\<lparr>gw_meta := hput c (m1\<lparr>cm_idle_exp := i64_saturating_add (gv_now env) (gw_token_ttl_secs h), cm_jwt_exp := next_jwt\<rparr>) (gw_meta h1)\<rparr>"
      "Closing c \<notin> set out" "\<forall>service p. Forwarded service p \<notin> set out"
      "r = Ok None \<or> (\<not> skip \<and> cm_jti m \<noteq> [] \<and> next_jwt = i64_saturating_add (gv_now env) (gw_token_ttl_secs h)
         \<and> i64_saturating_sub (cm_jwt_exp m) (gv_now env) < gw_token_ttl_secs h div 2
         \<and> (\<exists>token. renew_token env h m next_jwt = Ok token \<and> r = Ok (Some (renew_packet env c m next_jwt token))))"
proof (cases "hb_checks env c m h")
  case (Pair v h1)
  show thesis
  proof (cases v)
    case HbClose
    then show thesis using assms Pair by (intro checks[of h1]) (auto simp: heartbeat_def)
  next
    case (HbKeep skip)
    note hk = Pair[unfolded HbKeep]
    obtain m1 where m1: "hget (gw_meta h1) c = Some m1"
      using hb_checks_holders[OF hk] assms(1) by (auto simp: same_holders_def dest!: spec[of _ c])
    show thesis
    proof (cases "0 < cm_idle_exp m \<and> gv_now env \<ge> cm_idle_exp m")
      case True
      then show thesis using assms hk by (intro idle[of skip h1]) (auto simp: heartbeat_def)
    next
      case False
      let ?next = "i64_saturating_add (gv_now env) (gw_token_ttl_secs h)"
      let ?renew = "i64_saturating_sub (cm_jwt_exp m) (gv_now env) < gw_token_ttl_secs h div 2 \<and> cm_jti m \<noteq> [] \<and> \<not> skip"
      let ?jwt = "if ?renew then ?next else cm_jwt_exp m"
      have eq: "heartbeat env c h =
        (if \<not> ?renew then Ok None else case renew_token env h m ?jwt of Inr t \<Rightarrow> Ok (Some (renew_packet env c m ?jwt t)) | Inl _ \<Rightarrow> Ok None,
         h1\<lparr>gw_meta := hput c (m1\<lparr>cm_idle_exp := ?next, cm_jwt_exp := ?jwt\<rparr>) (gw_meta h1)\<rparr>,
         if gv_redis env then [Touched (cm_account m) c] else [])"
        using False by (cases ?renew) (simp_all add: heartbeat_def assms(1) hk m1 Let_def split: sum.split)
      show thesis
        by (rule kept[OF hk _ m1, of ?jwt]) (use assms(2) False in \<open>auto simp: eq split: if_splits sum.splits\<close>)
    qed
  qed
qed

lemma heartbeat_holders:
  assumes "heartbeat env c h = (r, h', out)"
  shows "same_holders h h'"
proof (cases "hget (gw_meta h) c")
  case (Some m)
  from Some assms show ?thesis
  proof (cases rule: heartbeat_cases)
    case (kept skip h1 m1 next_jwt)
    note sh = hb_checks_holders[OF kept(1)]
    show ?thesis by (rule same_holders_trans[OF sh]) (use kept(3,4) in \<open>simp add: same_holders_def holder_def\<close>)
  qed (use hb_checks_holders in auto)
qed (use assms in \<open>simp add: heartbeat_def\<close>)

text \<open>C7: The heartbeat enforces revocation. A ping on a connection whose token, epoch or device the store reports
  withdrawn, or which was idle past its limit, closes the connection and is not answered; a connection is
  not kept otherwise than with a new idle limit. A new token is issued only when every check was answered
  in favour, for the same account, session and device, and it runs no longer than the configured
  lifetime. No heartbeat changes who holds a connection.\<close>

theorem heartbeat_enforces:
  assumes "gv_revoke env = Some store" "hget (gw_meta h) c = Some m" "heartbeat env c h = (r, h', out)"
  shows "(withdrawn store m \<longrightarrow> r = Err ())
    \<and> (0 < cm_idle_exp m \<and> cm_idle_exp m \<le> gv_now env \<longrightarrow> r = Err ())
    \<and> (r = Err () \<longleftrightarrow> Closing c \<in> set out)
    \<and> (\<forall>x. r = Ok x \<longrightarrow> map_option cm_idle_exp (hget (gw_meta h') c) = Some (i64_saturating_add (gv_now env) (gw_token_ttl_secs h)))
    \<and> (\<forall>pkt. r = Ok (Some pkt) \<longrightarrow> cm_jti m \<noteq> [] \<and> confirmed store m
         \<and> (\<exists>token. renew_token env h m (i64_saturating_add (gv_now env) (gw_token_ttl_secs h)) = Ok token
              \<and> pkt = renew_packet env c m (i64_saturating_add (gv_now env) (gw_token_ttl_secs h)) token))
    \<and> same_holders h h'"
  using assms(2,3)
proof (cases rule: heartbeat_cases)
  case (kept skip h1 m1 next_jwt)
  have "\<not> withdrawn store m" using hb_checks_withdrawn[OF assms(1) _ kept(1)] by auto
  moreover have "confirmed store m" if "r = Ok (Some pkt)" for pkt
    using hb_checks_confirmed[OF assms(1)] kept(1,7) that by auto
  ultimately show ?thesis using kept heartbeat_holders[OF assms(3)] by auto
qed (use heartbeat_holders[OF assms(3)] in auto)

text \<open>Failures are counted over the connection and forgotten only when the revocation query is answered. So an
  outage of the epoch query alone never closes a connection, and one heartbeat on which the three queries
  fail closes it at once.\<close>

lemma epoch_outage_never_closes:
  assumes "gv_revoke env = Some store" "hget (gw_meta h) c = Some m" "cm_jti m \<noteq> []" "cm_did m = []"
    "rv_is_revoked store (cm_jti m) = Ok False" "rv_token_epoch store (cm_account m) = Err e"
  shows "fst (hb_checks env c m h) = HbKeep True"
  using assms
  by (simp add: hb_checks_def hb_revoked_def hb_epoch_def hb_device_def hb_failed_def clear_revoke_errors_def note_revoke_error_def
    HEARTBEAT_REVOKE_ERROR_GRACE_def u32_saturating_add_def)

lemma one_heartbeat_can_close:
  assumes "gv_revoke env = Some store" "hget (gw_meta h) c = Some m" "cm_jti m \<noteq> []" "cm_did m \<noteq> []" "cm_revoke_errors m = 0"
    "rv_is_revoked store (cm_jti m) = Err e1" "rv_token_epoch store (cm_account m) = Err e2" "rv_device_ok store (cm_account m) (cm_did m) = Err e3"
  shows "fst (hb_checks env c m h) = HbClose"
  using assms
  by (simp add: hb_checks_def hb_revoked_def hb_epoch_def hb_device_def hb_failed_def note_revoke_error_def
    HEARTBEAT_REVOKE_ERROR_GRACE_def u32_saturating_add_def Let_def)

section \<open>A gateway at work\<close>

text \<open>One call of the handler, with what it sends out. \<open>enc\<close> is the encoding of sessions, \<open>V\<close> the accounts for
  which the JWT library verifies a token.\<close>

definition gateway_env_ok :: "(string \<Rightarrow> bool) \<Rightarrow> (Session \<Rightarrow> byte list) \<Rightarrow> gateway_env \<Rightarrow> bool" where
  "gateway_env_ok V enc env \<longleftrightarrow> gv_enc_session env = enc
     \<and> (\<forall>secret token claims. gv_jwt_dec env secret token = Ok claims \<longrightarrow> V (cl_account claims))"

inductive gateway_step :: "gateway_env \<Rightarrow> GatewayHandler \<Rightarrow> gw_out list \<Rightarrow> GatewayHandler \<Rightarrow> bool" where
  accept: "accept env frame peer h = (r, h', out) \<Longrightarrow> gateway_step env h out h'"
| abandoned: "gateway_step env h [] (on_accept_abandoned c h)"
| ready: "on_channel_ready env c h = (r', h', out) \<Longrightarrow> gateway_step env h out h'"
| receive: "gateway_receive env c raw h = (h', out) \<Longrightarrow> gateway_step env h out h'"
| disconnect: "gateway_disconnect env c h = (h', out) \<Longrightarrow> gateway_step env h out h'"

text \<open>A session that names its gateway, and whose connection is named after its account.\<close>

definition named :: "(string \<Rightarrow> bool) \<Rightarrow> string \<Rightarrow> Session \<Rightarrow> bool" where
  "named V g se \<longleftrightarrow> s_gate_id se = g \<and> V (s_account se) \<and> s_app se = ALLOWED_APP
     \<and> (\<exists>n. s_channel_id se = channel_name g (s_account se) n)"

definition login_packet :: "(string \<Rightarrow> bool) \<Rightarrow> (Session \<Rightarrow> byte list) \<Rightarrow> string \<Rightarrow> LogicPkt \<Rightarrow> bool" where
  "login_packet V enc g pkt \<longleftrightarrow> (\<exists>se. lp_body pkt = enc se \<and> named V g se \<and> h_channel_id (lp_header pkt) = s_channel_id se)"

definition gateway_ok :: "(string \<Rightarrow> bool) \<Rightarrow> (Session \<Rightarrow> byte list) \<Rightarrow> string \<Rightarrow> GatewayHandler \<Rightarrow> bool" where
  "gateway_ok V enc g h \<longleftrightarrow> gw_gateway_id h = g
     \<and> (\<forall>c m. hget (gw_meta h) c = Some m \<longrightarrow> V (cm_account m) \<and> cm_app m = ALLOWED_APP \<and> (\<exists>n. c = channel_name g (cm_account m) n))
     \<and> (\<forall>c pkt. hget (gw_pending h) c = Some pkt \<longrightarrow> login_packet V enc g pkt)"

lemma gateway_okI:
  assumes "gw_gateway_id h = g"
    "\<And>c m. hget (gw_meta h) c = Some m \<Longrightarrow> V (cm_account m) \<and> cm_app m = ALLOWED_APP \<and> (\<exists>n. c = channel_name g (cm_account m) n)"
    "\<And>c pkt. hget (gw_pending h) c = Some pkt \<Longrightarrow> login_packet V enc g pkt"
  shows "gateway_ok V enc g h"
  using assms by (simp add: gateway_ok_def)

lemma gateway_okD:
  assumes "gateway_ok V enc g h"
  shows "gw_gateway_id h = g"
    "hget (gw_meta h) c = Some m \<Longrightarrow> V (cm_account m) \<and> cm_app m = ALLOWED_APP \<and> (\<exists>n. c = channel_name g (cm_account m) n)"
    "hget (gw_pending h) c = Some pkt \<Longrightarrow> login_packet V enc g pkt"
  using assms by (auto simp: gateway_ok_def)

lemma gateway_new_ok: "gateway_ok V enc g (gateway_with_ttl require_jti g secret ttl)"
  by (simp add: gateway_ok_def gateway_with_ttl_def)

lemma same_holders_ok:
  assumes "gateway_ok V enc g h" "same_holders h h'"
  shows "gateway_ok V enc g h'"
proof (rule gateway_okI)
  show "gw_gateway_id h' = g" using assms by (simp add: gateway_ok_def same_holders_def)
  show "login_packet V enc g pkt" if "hget (gw_pending h') c = Some pkt" for c pkt
    using assms that by (simp add: gateway_ok_def same_holders_def)
  fix c m' assume m': "hget (gw_meta h') c = Some m'"
  have "map_option holder (hget (gw_meta h) c) = map_option holder (hget (gw_meta h') c)"
    using assms(2) unfolding same_holders_def by metis
  with m' obtain m where m: "hget (gw_meta h) c = Some m" "holder m = holder m'" by auto
  then show "V (cm_account m') \<and> cm_app m' = ALLOWED_APP \<and> (\<exists>n. c = channel_name g (cm_account m') n)"
    using gateway_okD(2)[OF assms(1) m(1)] by (simp add: holder_def)
qed

lemma gateway_ok_removals [intro]:
  "gateway_ok V enc g h \<Longrightarrow> gateway_ok V enc g (remove_meta c h)"
  "gateway_ok V enc g h \<Longrightarrow> gateway_ok V enc g (h\<lparr>gw_pending := hdel c (gw_pending h)\<rparr>)"
  unfolding gateway_ok_def remove_meta_def by (auto split: if_splits)

lemma inject_meta_kept [simp]:
  "lp_body (inject_meta h pkt) = lp_body pkt"
  "h_channel_id (lp_header (inject_meta h pkt)) = h_channel_id (lp_header pkt)"
  "h_command (lp_header (inject_meta h pkt)) = h_command (lp_header pkt)"
  by (simp_all add: inject_meta_def set_meta_def split: option.split)

lemma login_packet_inject [simp]: "login_packet V enc g (inject_meta h pkt) = login_packet V enc g pkt"
  by (simp add: login_packet_def)

lemma gateway_step_ok:
  assumes "gateway_step env h out h'" "gateway_env_ok V enc env" "gateway_ok V enc g h"
  shows "gateway_ok V enc g h'"
  using assms
proof (induction rule: gateway_step.induct)
  case (accept env frame peer h r h' out)
  note ok = gateway_okD[OF accept(3)]
  show ?case
  proof (cases "\<exists>raw pkt req claims. frame = Ok raw \<and> read_logic (gv_dec_header env) raw = Ok pkt \<and> authenticate env h pkt = Ok (req, claims)")
    case True
    then obtain raw pkt req claims where a: "frame = Ok raw" "read_logic (gv_dec_header env) raw = Ok pkt" "authenticate env h pkt = Ok (req, claims)"
      by blast
    have adm: "V (cl_account claims)" "cl_app claims = ALLOWED_APP"
      using a(3) accept(2) by (auto simp: authenticate_Ok admissible_def gateway_env_ok_def)
    let ?c = "channel_name g (cl_account claims) (gw_seq h)"
    have n: "named V g (login_body h ?c peer req claims)" using adm ok(1) by (auto simp: named_def login_body_def)
    let ?p = "LogicPkt_write_body (enc (login_body h ?c peer req claims)) (pkt\<lparr>lp_header := (lp_header pkt)\<lparr>h_channel_id := ?c\<rparr>\<rparr>)"
    have p: "login_packet V enc g ?p"
      unfolding login_packet_def using n
      by (intro exI[of _ "login_body h ?c peer req claims"]) (simp add: LogicPkt_write_body_def login_body_def)
    have h': "gw_gateway_id h' = g" "gw_pending h' = hput ?c ?p (gw_pending h)"
      "\<exists>m. gw_meta h' = hput ?c m (gw_meta h) \<and> cm_account m = cl_account claims \<and> cm_app m = ALLOWED_APP"
      using accept(1,2) a ok(1) adm
      by (auto simp: accept_def admit_def generate_channel_id_def insert_meta_def ChannelMeta_new_def Let_def gateway_env_ok_def)
    show ?thesis
    proof (rule gateway_okI[OF h'(1)])
      fix c m assume "hget (gw_meta h') c = Some m"
      then show "V (cm_account m) \<and> cm_app m = ALLOWED_APP \<and> (\<exists>n. c = channel_name g (cm_account m) n)"
        using h'(3) ok(2)[of c m] adm(1) by (auto split: if_splits)
    next
      fix c q assume "hget (gw_pending h') c = Some q"
      then show "login_packet V enc g q" using h'(2) ok(3)[of c q] p by (auto split: if_splits)
    qed
  next
    case False
    then have "h' = h" using accept(1) by (auto simp: accept_def split: sum.splits)
    then show ?thesis using accept(3) by simp
  qed
next
  case (abandoned env h c)
  then show ?case by (auto simp: on_accept_abandoned_def)
next
  case (ready env c h r' h' out)
  then show ?case
    by (auto simp: on_channel_ready_def Let_def split: option.splits prod.splits sum.splits)
next
  case (receive env c raw h h' out)
  have "same_holders h h'"
    using receive(1) heartbeat_holders[of env c h]
    by (auto simp: gateway_receive_def Let_def split: sum.splits Packet.splits if_splits prod.splits)
  then show ?case by (rule same_holders_ok[OF receive(3)])
next
  case (disconnect env c h h' out)
  then show ?case by (auto simp: gateway_disconnect_def Let_def split: prod.splits)
qed

lemma login_goes_elsewhere: "service_name (Command_as_str LoginSignIn) \<noteq> SN_CHAT" "service_name (Command_as_str LoginSignOut) \<noteq> SN_CHAT"
  by (simp_all add: service_name_def SN_CHAT_def)

lemma heartbeat_no_forward: "heartbeat env c h = (r, h', out) \<Longrightarrow> Forwarded service p \<notin> set out"
  by (auto simp: heartbeat_def Let_def split: option.splits prod.splits hb_verdict.splits if_splits sum.splits)

text \<open>What can go up: a login that the handshake admitted, a sign-out of a closed connection, or a client's packet
  on its own connection for the service its command names.\<close>

lemma gateway_step_uplink:
  assumes "gateway_step env h out h'" "gateway_ok V enc g h" "Forwarded SN_CHAT p \<in> set out"
  shows "h_command (lp_header p) = Command_as_str LoginSignIn \<longrightarrow> login_packet V enc g p"
  using assms
proof (induction rule: gateway_step.induct)
  case (accept env frame peer h r h' out)
  then show ?case by (auto simp: accept_def Let_def split: sum.splits prod.splits)
next
  case (ready env c h r' h' out)
  then show ?case
    using gateway_okD(3)[OF ready(2), of c]
    by (auto simp: on_channel_ready_def forward_logic_def Let_def split: option.splits prod.splits sum.splits)
next
  case (receive env c raw h h' out)
  then show ?case
    using login_goes_elsewhere
    by (auto simp: gateway_receive_def forward_logic_def Let_def heartbeat_no_forward
        split: sum.splits Packet.splits if_splits prod.splits option.splits)
next
  case (disconnect env c h h' out)
  then show ?case by (auto simp: gateway_disconnect_def forward_logic_def Let_def LogicPkt_new_def)
qed simp

section \<open>A connection\<close>

text \<open>An encoding of sessions with its decoder: fields with their length in unary.\<close>

definition enc_field :: "string \<Rightarrow> byte list" where
  "enc_field s = replicate (length s) 1 @ 0 # bytes_of_str s"

definition dec_field :: "byte list \<Rightarrow> string \<times> byte list" where
  "dec_field bs = (let n = length (takeWhile (\<lambda>b. b = 1) bs) in (str_of_bytes (take n (drop (Suc n) bs)), drop (n + Suc n) bs))"

fun dec_fields :: "nat \<Rightarrow> byte list \<Rightarrow> string list" where
  "dec_fields 0 bs = []"
| "dec_fields (Suc k) bs = (let (s, r) = dec_field bs in s # dec_fields k r)"

definition enc_session :: "Session \<Rightarrow> byte list" where
  "enc_session se = enc_field (replicate (length (s_tags se)) CHR ''x'') @ concat (map enc_field
     ([s_channel_id se, s_gate_id se, s_account se, s_zone se, s_isp se, s_remote_ip se, s_device se, s_app se, s_jti se, s_device_id se]
      @ s_tags se))"

definition dec_session :: "Session decoder" where
  "dec_session bs =
     (let (c, r) = dec_field bs; fs = dec_fields (10 + length c) r in
      Ok \<lparr>s_channel_id = fs ! 0, s_gate_id = fs ! 1, s_account = fs ! 2, s_zone = fs ! 3, s_isp = fs ! 4, s_remote_ip = fs ! 5,
          s_device = fs ! 6, s_app = fs ! 7, s_tags = drop 10 fs, s_jti = fs ! 8, s_device_id = fs ! 9\<rparr>)"

lemma dec_enc_field: "dec_field (enc_field s @ r) = (s, r)"
proof -
  have "takeWhile (\<lambda>b. b = 1) (replicate n 1 @ (0 :: byte) # xs) = replicate n 1" for n xs
    by (induction n) auto
  then show ?thesis by (simp add: dec_field_def enc_field_def Let_def del: map_map)
qed

lemma dec_enc_fields: "dec_fields (length fs) (concat (map enc_field fs) @ r) = fs"
  by (induction fs) (simp_all add: dec_enc_field)

lemma dec_enc_session: "dec_session (enc_session se) = Ok se"
proof -
  let ?fs = "[s_channel_id se, s_gate_id se, s_account se, s_zone se, s_isp se, s_remote_ip se, s_device se, s_app se, s_jti se, s_device_id se]
      @ s_tags se"
  have l: "length ?fs = 10 + length (s_tags se)" by simp
  have "dec_fields (10 + length (s_tags se)) (concat (map enc_field ?fs)) = ?fs"
    using dec_enc_fields[of ?fs "[]"] unfolding l by (simp only: append_Nil2)
  then show ?thesis
    unfolding dec_session_def enc_session_def dec_enc_field by (simp del: dec_fields.simps)
qed

definition demo_claims :: Claims where
  "demo_claims = \<lparr>cl_account = ''alice'', cl_app = ''kim'', cl_exp = 100, cl_jti = None, cl_ver = 0, cl_did = None\<rparr>"

definition demo_login_header :: Header where
  "demo_login_header = Header_default\<lparr>h_command := ''login.signin'', h_sequence := 7\<rparr>"

definition demo_gateway_env :: gateway_env where
  "demo_gateway_env =
     \<lparr>gv_dec_header = \<lambda>_. Ok demo_login_header,
      gv_dec_login = \<lambda>_. Ok \<lparr>lg_token = ''t'', lg_device = ''web'', lg_device_credential = []\<rparr>,
      gv_enc_session = enc_session, gv_enc_auth = \<lambda>_. [], gv_dec_kick = \<lambda>_. Err Incomplete,
      gv_jwt_enc = \<lambda>_ _. Err JwtOther, gv_jwt_dec = \<lambda>_ _. Ok demo_claims, gv_now = 5, gv_revoke = None, gv_redis = False,
      gv_forward = \<lambda>_ _. Ok (), gv_write_ok = True\<rparr>"

definition demo_gw0 :: GatewayHandler where "demo_gw0 = gateway_with_ttl False ''gw'' ''s'' 0"

definition demo_accept where "demo_accept = accept demo_gateway_env (Ok (MAGIC_LOGIC_PKT @ [0, 0, 0, 0])) None demo_gw0"

definition demo_connection :: Session where
  "demo_connection = \<lparr>s_channel_id = ''gw_alice_1'', s_gate_id = ''gw'', s_account = ''alice'', s_zone = [], s_isp = [],
     s_remote_ip = [], s_device = ''web'', s_app = ''kim'', s_tags = [], s_jti = [], s_device_id = []\<rparr>"

lemma demo_channel: "channel_name ''gw'' ''alice'' 1 = ''gw_alice_1''"
  by (simp add: channel_name_def show_nat.simps digit_def char_of_def bit_simps)

lemma demo_first: "read_logic (\<lambda>_. Ok demo_login_header) (MAGIC_LOGIC_PKT @ [0, 0, 0, 0]) = Ok \<lparr>lp_header = demo_login_header, lp_body = []\<rparr>"
  by (simp add: read_logic_def read_packet_def MAGIC_LOGIC_PKT_def MAGIC_BASIC_PKT_def LogicPkt_decode_def demo_login_header_def
    Header_default_def from_u32_be_def from_u32_le_def Let_def res_bind_def)

lemma demo_admissible:
  "admissible demo_gateway_env demo_gw0 \<lparr>lp_header = demo_login_header, lp_body = []\<rparr>
     \<lparr>lg_token = ''t'', lg_device = ''web'', lg_device_credential = []\<rparr> demo_claims"
  by (simp add: admissible_def demo_login_header_def demo_gateway_env_def demo_claims_def is_ascii_control_def ALLOWED_APP_def
    demo_gw0_def gateway_with_ttl_def revocation_clear_def nonblank_def trim_def)

lemma demo_accepted:
  "\<exists>h m. demo_accept = (Ok ''gw_alice_1'', h, []) \<and> gw_gateway_id h = ''gw'' \<and> gw_meta h = [(''gw_alice_1'', m)]
     \<and> cm_account m = ''alice'' \<and> cm_app m = ''kim''
     \<and> gw_pending h = [(''gw_alice_1'', LogicPkt_write_body (enc_session demo_connection)
         \<lparr>lp_header = demo_login_header\<lparr>h_channel_id := ''gw_alice_1''\<rparr>, lp_body = []\<rparr>)]"
proof -
  note a = demo_admissible[unfolded authenticate_Ok[symmetric]]
  have j: "nonblank (cl_jti demo_claims) = None" "nonblank (cl_did demo_claims) = None" by (simp_all add: demo_claims_def nonblank_def)
  have r: "read_logic (gv_dec_header demo_gateway_env) (MAGIC_LOGIC_PKT @ [0, 0, 0, 0]) = Ok \<lparr>lp_header = demo_login_header, lp_body = []\<rparr>"
    using demo_first by (simp add: demo_gateway_env_def)
  have g: "gw_gateway_id demo_gw0 = ''gw''" "gw_seq demo_gw0 = 1" "gw_meta demo_gw0 = []" "gw_pending demo_gw0 = []"
    by (simp_all add: demo_gw0_def gateway_with_ttl_def)
  have c: "cl_account demo_claims = ''alice''" "cl_app demo_claims = ''kim''" by (simp_all add: demo_claims_def)
  show ?thesis
    by (simp add: demo_accept_def accept_def r a admit_def generate_channel_id_def insert_meta_def ChannelMeta_new_def g j c demo_channel
      login_body_def remote_ip_def or_blank_def demo_connection_def Let_def, simp add: demo_gateway_env_def)
qed

theorem accept_exact_witness:
  "\<exists>h. accept demo_gateway_env (Ok (MAGIC_LOGIC_PKT @ [0, 0, 0, 0])) None demo_gw0 = (Ok ''gw_alice_1'', h, [])
     \<and> map_option cm_account (hget (gw_meta h) ''gw_alice_1'') = Some ''alice''"
proof -
  obtain h where h: "accept demo_gateway_env (Ok (MAGIC_LOGIC_PKT @ [0, 0, 0, 0])) None demo_gw0 = (Ok ''gw_alice_1'', h, [])"
    using demo_accepted unfolding demo_accept_def by blast
  have r: "read_logic (gv_dec_header demo_gateway_env) (MAGIC_LOGIC_PKT @ [0, 0, 0, 0]) = Ok \<lparr>lp_header = demo_login_header, lp_body = []\<rparr>"
    using demo_first by (simp add: demo_gateway_env_def)
  obtain raw pkt req claims where x: "(Ok (MAGIC_LOGIC_PKT @ [0, 0, 0, 0]) :: (GatewayError, byte list) result) = Ok raw"
      "read_logic (gv_dec_header demo_gateway_env) raw = Ok pkt" "admissible demo_gateway_env demo_gw0 pkt req claims"
      "map_option cm_account (hget (gw_meta h) ''gw_alice_1'') = Some (cl_account claims)"
    using iffD1[OF accept_exact[OF h, THEN conjunct1, THEN spec] refl] by (elim exE conjE)
  have "raw = MAGIC_LOGIC_PKT @ [0, 0, 0, 0]" using x(1) by (simp only: sum.inject)
  then have "pkt = \<lparr>lp_header = demo_login_header, lp_body = []\<rparr>" using x(2) r by (simp only: sum.inject)
  then have "authenticate demo_gateway_env demo_gw0 \<lparr>lp_header = demo_login_header, lp_body = []\<rparr> = Ok (req, claims)"
    using x(3) by (simp only: authenticate_Ok)
  then have "claims = demo_claims" using demo_admissible[folded authenticate_Ok] by simp
  then show ?thesis using h x(4) by (simp add: demo_claims_def)
qed

text \<open>A connection whose session the store reports revoked.\<close>

definition demo_revoking_env :: gateway_env where
  "demo_revoking_env = demo_gateway_env\<lparr>gv_revoke := Some (AllowAllRevoke\<lparr>rv_is_revoked := \<lambda>_. Ok True\<rparr>)\<rparr>"

definition demo_meta :: ChannelMeta where
  "demo_meta = ChannelMeta_new ''kim'' ''alice'' ''j'' 0 [] 100"

theorem heartbeat_enforces_witness:
  "fst (heartbeat demo_revoking_env ''c'' (demo_gw0\<lparr>gw_meta := [(''c'', demo_meta)]\<rparr>)) = Err ()"
proof -
  let ?h = "demo_gw0\<lparr>gw_meta := [(''c'', demo_meta)]\<rparr>" and ?store = "AllowAllRevoke\<lparr>rv_is_revoked := \<lambda>_. Ok True\<rparr>"
  have "gv_revoke demo_revoking_env = Some ?store" "hget (gw_meta ?h) ''c'' = Some demo_meta"
    by (simp_all add: demo_revoking_env_def)
  moreover have "withdrawn ?store demo_meta" by (simp add: withdrawn_def demo_meta_def ChannelMeta_new_def)
  ultimately show ?thesis using heartbeat_enforces[of demo_revoking_env ?store ?h "''c''" demo_meta] by (metis prod.collapse)
qed

end
