(* ===== verification/Kim_Chat_Base.thy ===== *)
theory Kim_Chat_Base
  imports Kim_Chat_Types
begin

text \<open>
  The shape of a command handler: a program over the service's state and the log of pushes, built from
  reads and writes of the backends, replies and pushes; the notifications of
  \<open>services/chat/src/notify.rs\<close>; and the rules by which a program's answers and its effect on the state
  are read off its text.
\<close>

section \<open>Programs\<close>

type_synonym 's prog = "'s \<Rightarrow> push list \<Rightarrow> (RouterError, unit) result \<times> 's \<times> push list"

definition finish :: "'s prog" where
  "finish s log = (Ok (), s, log)"

definition ask :: "('s \<Rightarrow> 'a) \<Rightarrow> ('a \<Rightarrow> 's prog) \<Rightarrow> 's prog" where
  "ask m k s log = k (m s) s log"

definition call :: "('s \<Rightarrow> 'a \<times> 's) \<Rightarrow> ('a \<Rightarrow> 's prog) \<Rightarrow> 's prog" where
  "call m k s log = k (fst (m s)) (snd (m s)) log"

text \<open>A push whose outcome is only logged.\<close>

definition tell :: "(push list \<Rightarrow> 'b \<times> push list) \<Rightarrow> 's prog \<Rightarrow> 's prog" where
  "tell f k s log = k s (snd (f log))"

text \<open>A push whose failure the code looks at.\<close>

definition attempt :: "(push list \<Rightarrow> 'b \<times> push list) \<Rightarrow> ('b \<Rightarrow> 's prog) \<Rightarrow> 's prog" where
  "attempt f k s log = k (fst (f log)) s (snd (f log))"

text \<open>\<open>ctx.resp(..).await?\<close> as the last action, and followed by more.\<close>

definition reply :: "'s ChatSvc \<Rightarrow> Context \<Rightarrow> Status \<Rightarrow> chat_body \<Rightarrow> 's prog" where
  "reply svc ctx status body s log =
     (let (r, log') = resp (sv_disp svc) ctx status (Some (cd_enc (sv_codec svc) body)) log in (r, s, log'))"

definition fail :: "'s ChatSvc \<Rightarrow> Context \<Rightarrow> Status \<Rightarrow> 's prog" where
  "fail svc ctx status s log =
     (let (r, log') = resp_with_error (sv_disp svc) ctx status log in (r, s, log'))"

definition reply_bytes :: "'s ChatSvc \<Rightarrow> Context \<Rightarrow> Status \<Rightarrow> byte list \<Rightarrow> 's prog" where
  "reply_bytes svc ctx status body s log =
     (let (r, log') = resp_bytes (sv_disp svc) ctx status body log in (r, s, log'))"

definition followed :: "'s prog \<Rightarrow> 's prog \<Rightarrow> 's prog" where
  "followed p k s log =
     (case p s log of (Inl e, s', log') \<Rightarrow> (Err e, s', log') | (Inr _, s', log') \<Rightarrow> k s' log')"

definition done_ok :: "'s ChatSvc \<Rightarrow> Context \<Rightarrow> 's prog" where
  "done_ok svc ctx = reply_bytes svc ctx Success []"

section \<open>Notifications\<close>

definition notify_account :: "'s ChatSvc \<Rightarrow> Context \<Rightarrow> string \<Rightarrow> string \<Rightarrow> chat_body \<Rightarrow> 's prog \<Rightarrow> 's prog" where
  "notify_account svc ctx account command body k =
     ask (sv_list_locations svc account) (\<lambda>r. case r of
         Inr locs \<Rightarrow>
           if locs \<noteq> [] then tell (dispatch_cmd (sv_disp svc) ctx command (cd_enc (sv_codec svc) body) locs) k else k
       | Inl _ \<Rightarrow> k)"

fun group_skip ::
  "string \<Rightarrow> Location list \<Rightarrow> (string, string list) hmap \<times> string list \<Rightarrow> (string, string list) hmap \<times> string list" where
  "group_skip skip [] (grp, order) = (grp, order)"
| "group_skip skip (recv # recvs) (grp, order) =
     (if skip \<noteq> [] \<and> l_channel_id recv = skip then group_skip skip recvs (grp, order)
      else case hget grp (l_gate_id recv) of
          None \<Rightarrow> group_skip skip recvs (hput (l_gate_id recv) [l_channel_id recv] grp, order @ [l_gate_id recv])
        | Some ids \<Rightarrow> group_skip skip recvs (hput (l_gate_id recv) (ids @ [l_channel_id recv]) grp, order))"

definition notify_locations ::
  "dispatcher \<Rightarrow> string \<Rightarrow> string \<Rightarrow> byte list \<Rightarrow> Location list \<Rightarrow> push list \<Rightarrow> (RouterError, unit) result \<times> push list" where
  "notify_locations disp skip_channel command body recvs log =
     (if recvs = [] then (Ok (), log)
      else
        let packet0 = LogicPkt_new command 0 [];
            packet = LogicPkt_write_body body (packet0\<lparr>lp_header := (lp_header packet0)\<lparr>h_flag := Push\<rparr>\<rparr>);
            (grp, order) = group_skip skip_channel recvs ([], []);
            (first_err, log') = push_gateways disp packet grp order None log
        in (case first_err of Some e \<Rightarrow> Err e | None \<Rightarrow> Ok (), log'))"

section \<open>What a program sends\<close>

definition is_push :: "push \<Rightarrow> bool" where
  "is_push p \<longleftrightarrow> h_flag (lp_header (pu_pkt p)) = Push"

text \<open>The answer to a request: a response packet with the request's command and sequence number, for the
  requesting connection alone.\<close>

definition is_reply :: "Context \<Rightarrow> push \<Rightarrow> bool" where
  "is_reply ctx p \<longleftrightarrow> pu_gateway p = s_gate_id (cx_session ctx) \<and> pu_channels p = [sess_channel ctx]
     \<and> h_flag (lp_header (pu_pkt p)) = Response \<and> h_command (lp_header (pu_pkt p)) = h_command (cx_header ctx)
     \<and> h_sequence (lp_header (pu_pkt p)) = h_sequence (cx_header ctx)"

text \<open>Every run adds packets to the log, and the number of replies among them is one of \<open>N\<close>; all the others
  are pushes.\<close>

definition sends :: "nat set \<Rightarrow> Context \<Rightarrow> 's prog \<Rightarrow> bool" where
  "sends N ctx p \<longleftrightarrow> (\<forall>s log. \<exists>new. snd (snd (p s log)) = log @ new
     \<and> length (filter (is_reply ctx) new) \<in> N \<and> (\<forall>q \<in> set new. is_push q \<or> is_reply ctx q))"

abbreviation answers :: "Context \<Rightarrow> 's prog \<Rightarrow> bool" where "answers \<equiv> sends {Suc 0}"
abbreviation pushes :: "Context \<Rightarrow> 's prog \<Rightarrow> bool" where "pushes \<equiv> sends {0}"

named_theorems sends_rules

lemma sends_mono: "sends N ctx p \<Longrightarrow> N \<subseteq> N' \<Longrightarrow> sends N' ctx p"
  unfolding sends_def by (meson subsetD)

lemma push_not_reply: "is_push q \<Longrightarrow> \<not> is_reply ctx q"
  by (simp add: is_push_def is_reply_def)

lemma no_replies: "\<forall>q \<in> set new. is_push q \<Longrightarrow> filter (is_reply ctx) new = []"
  by (auto simp: filter_empty_conv push_not_reply)

text \<open>What the dispatcher's clients add to the log.\<close>

definition adds_pushes :: "(push list \<Rightarrow> 'b \<times> push list) \<Rightarrow> bool" where
  "adds_pushes f \<longleftrightarrow> (\<forall>log. \<exists>new. snd (f log) = log @ new \<and> (\<forall>q \<in> set new. is_push q))"

lemma push_gateways_adds:
  assumes "h_flag (lp_header packet) = Push"
  shows "\<exists>new. snd (push_gateways disp packet grp order e log) = log @ new \<and> (\<forall>q \<in> set new. is_push q)"
proof (induction order arbitrary: e log)
  case (Cons gw order)
  show ?case
  proof (cases "hget grp gw")
    case None
    then show ?thesis using Cons.IH by simp
  next
    case (Some ids)
    let ?p = "\<lparr>pu_gateway = gw, pu_channels = ids, pu_pkt = packet\<rparr>"
    obtain new where "snd (push_gateways disp packet grp order
        (case (disp log ?p, e) of (Inl e, None) \<Rightarrow> Some e | _ \<Rightarrow> e) (log @ [?p])) = (log @ [?p]) @ new" "\<forall>q \<in> set new. is_push q"
      using Cons.IH by blast
    then show ?thesis
      using Some assms by (intro exI[of _ "?p # new"]) (simp add: dispatcher_push_def Let_def is_push_def)
  qed
qed simp

lemma dispatch_cmd_adds [sends_rules]: "adds_pushes (dispatch_cmd disp ctx command body recvs)"
proof -
  have f: "h_flag (lp_header (push_packet ctx command body)) = Push"
    by (simp add: push_packet_def Let_def LogicPkt_write_body_def)
  have "\<exists>new. snd (dispatch_cmd disp ctx command body recvs log) = log @ new \<and> (\<forall>q \<in> set new. is_push q)" for log
    using push_gateways_adds[OF f] by (simp add: dispatch_cmd_def Let_def split_beta)
  then show ?thesis unfolding adds_pushes_def by blast
qed

lemma dispatch_adds [sends_rules]: "adds_pushes (dispatch disp ctx body recvs)"
  unfolding dispatch_def by (rule dispatch_cmd_adds)

lemma notify_locations_adds [sends_rules]: "adds_pushes (notify_locations disp skip command body recvs)"
proof -
  have f: "h_flag (lp_header (LogicPkt_write_body body (p\<lparr>lp_header := (lp_header p)\<lparr>h_flag := Push\<rparr>\<rparr>))) = Push" for p
    by (simp add: LogicPkt_write_body_def)
  have "\<exists>new. snd (notify_locations disp skip command body recvs log) = log @ new \<and> (\<forall>q \<in> set new. is_push q)" for log
    using push_gateways_adds[OF f] by (simp add: notify_locations_def Let_def split_beta)
  then show ?thesis unfolding adds_pushes_def by blast
qed

lemma resp_is_reply:
  "\<exists>p. snd (resp disp ctx status body log) = log @ [p] \<and> is_reply ctx p"
  "\<exists>p. snd (resp_bytes disp ctx status bytes log) = log @ [p] \<and> is_reply ctx p"
  by (auto simp: resp_def resp_bytes_def push_to_sender_def dispatcher_push_def Let_def is_reply_def response_packet_def
      LogicPkt_new_from_def LogicPkt_write_body_def split: option.split)

lemma sendsI:
  assumes "\<And>s log. \<exists>new. snd (snd (p s log)) = log @ new \<and> length (filter (is_reply ctx) new) \<in> N
     \<and> (\<forall>q \<in> set new. is_push q \<or> is_reply ctx q)"
  shows "sends N ctx p"
  using assms by (simp add: sends_def)

lemma sends_reply [sends_rules]: "1 \<in> N \<Longrightarrow> sends N ctx (reply svc ctx status body)"
proof (rule sendsI)
  fix s log
  assume "1 \<in> N"
  moreover obtain p where "snd (resp (sv_disp svc) ctx status (Some (cd_enc (sv_codec svc) body)) log) = log @ [p]" "is_reply ctx p"
    using resp_is_reply(1) by blast
  ultimately show "\<exists>new. snd (snd (reply svc ctx status body s log)) = log @ new \<and> length (filter (is_reply ctx) new) \<in> N
     \<and> (\<forall>q \<in> set new. is_push q \<or> is_reply ctx q)"
    by (intro exI[of _ "[p]"]) (simp add: reply_def split_beta Let_def)
qed

lemma sends_reply_bytes [sends_rules]: "1 \<in> N \<Longrightarrow> sends N ctx (reply_bytes svc ctx status body)"
proof (rule sendsI)
  fix s log
  assume "1 \<in> N"
  moreover obtain p where "snd (resp_bytes (sv_disp svc) ctx status body log) = log @ [p]" "is_reply ctx p"
    using resp_is_reply(2) by blast
  ultimately show "\<exists>new. snd (snd (reply_bytes svc ctx status body s log)) = log @ new \<and> length (filter (is_reply ctx) new) \<in> N
     \<and> (\<forall>q \<in> set new. is_push q \<or> is_reply ctx q)"
    by (intro exI[of _ "[p]"]) (simp add: reply_bytes_def split_beta Let_def)
qed

lemma fail_bytes: "fail svc ctx status = reply_bytes svc ctx status []"
  by (intro ext) (simp add: fail_def reply_bytes_def resp_with_error_def)

lemma sends_fail [sends_rules]: "1 \<in> N \<Longrightarrow> sends N ctx (fail svc ctx status)"
  unfolding fail_bytes by (rule sends_reply_bytes)

lemma sends_done_ok [sends_rules]: "1 \<in> N \<Longrightarrow> sends N ctx (done_ok svc ctx)"
  unfolding done_ok_def by (rule sends_reply_bytes)

lemma sends_finish [sends_rules]: "0 \<in> N \<Longrightarrow> sends N ctx finish"
  by (simp add: sends_def finish_def)

lemma sends_ask [sends_rules]: "(\<And>r. sends N ctx (k r)) \<Longrightarrow> sends N ctx (ask m k)"
  by (simp add: sends_def ask_def)

lemma sends_call [sends_rules]: "(\<And>r. sends N ctx (k r)) \<Longrightarrow> sends N ctx (call m k)"
  by (simp add: sends_def call_def)

lemma sends_attempt [sends_rules]:
  assumes f: "adds_pushes f" and k: "\<And>r. sends N ctx (k r)"
  shows "sends N ctx (attempt f k)"
proof (rule sendsI)
  fix s log
  obtain new1 where n1: "snd (f log) = log @ new1" "\<forall>q \<in> set new1. is_push q" using f by (auto simp: adds_pushes_def)
  obtain new2 where n2: "snd (snd (k (fst (f log)) s (log @ new1))) = (log @ new1) @ new2"
      "length (filter (is_reply ctx) new2) \<in> N" "\<forall>q \<in> set new2. is_push q \<or> is_reply ctx q"
    using k[of "fst (f log)"] unfolding sends_def by blast
  show "\<exists>new. snd (snd (attempt f k s log)) = log @ new \<and> length (filter (is_reply ctx) new) \<in> N
     \<and> (\<forall>q \<in> set new. is_push q \<or> is_reply ctx q)"
    using n1 n2 by (intro exI[of _ "new1 @ new2"]) (auto simp: attempt_def no_replies)
qed

lemma tell_attempt: "tell f k = attempt f (\<lambda>_. k)"
  by (intro ext) (simp add: tell_def attempt_def)

lemma sends_tell [sends_rules]: "adds_pushes f \<Longrightarrow> sends N ctx k \<Longrightarrow> sends N ctx (tell f k)"
  unfolding tell_attempt by (rule sends_attempt)

text \<open>After a reply that may fail, the rest either runs or does not.\<close>

lemma sends_followed:
  assumes p: "sends {Suc 0} ctx p" and k: "sends N ctx k" and "1 \<in> M" "\<And>n. n \<in> N \<Longrightarrow> Suc n \<in> M"
  shows "sends M ctx (followed p k)"
proof (rule sendsI)
  fix s log
  obtain r s1 log1 where r: "p s log = (r, s1, log1)" by (metis prod_cases3)
  obtain new1 where n1: "log1 = log @ new1" "length (filter (is_reply ctx) new1) = Suc 0" "\<forall>q \<in> set new1. is_push q \<or> is_reply ctx q"
    using p[unfolded sends_def, rule_format, of s log] r by auto
  obtain new2 where n2: "snd (snd (k s1 log1)) = log1 @ new2"
      "length (filter (is_reply ctx) new2) \<in> N" "\<forall>q \<in> set new2. is_push q \<or> is_reply ctx q"
    using k unfolding sends_def by blast
  show "\<exists>new. snd (snd (followed p k s log)) = log @ new \<and> length (filter (is_reply ctx) new) \<in> M
     \<and> (\<forall>q \<in> set new. is_push q \<or> is_reply ctx q)"
  proof (cases r)
    case (Inl e)
    then show ?thesis using r n1 assms(3) by (auto simp: followed_def)
  next
    case (Inr u)
    then show ?thesis using r n1 n2 assms(4) by (intro exI[of _ "new1 @ new2"]) (auto simp: followed_def)
  qed
qed

lemma answers_followed [sends_rules]: "sends {Suc 0} ctx p \<Longrightarrow> sends {0} ctx k \<Longrightarrow> sends {Suc 0} ctx (followed p k)"
  by (rule sends_followed) auto

lemma sends_cases [sends_rules]:
  "(\<And>e. r = Inl e \<Longrightarrow> sends N ctx (f e)) \<Longrightarrow> (\<And>v. r = Inr v \<Longrightarrow> sends N ctx (g v)) \<Longrightarrow>
     sends N ctx (case r of Inl e \<Rightarrow> f e | Inr v \<Rightarrow> g v)"
  "(o' = None \<Longrightarrow> sends N ctx n) \<Longrightarrow> (\<And>x. o' = Some x \<Longrightarrow> sends N ctx (h x)) \<Longrightarrow>
     sends N ctx (case o' of None \<Rightarrow> n | Some x \<Rightarrow> h x)"
  "(b \<Longrightarrow> sends N ctx p) \<Longrightarrow> (\<not> b \<Longrightarrow> sends N ctx q) \<Longrightarrow> sends N ctx (if b then p else q)"
  "(\<And>x y. c = (x, y) \<Longrightarrow> sends N ctx (w x y)) \<Longrightarrow> sends N ctx (case c of (x, y) \<Rightarrow> w x y)"
  "(b \<Longrightarrow> sends N ctx p) \<Longrightarrow> (\<not> b \<Longrightarrow> sends N ctx q) \<Longrightarrow> sends N ctx (case b of True \<Rightarrow> p | False \<Rightarrow> q)"
  by (auto split: sum.split option.split prod.split bool.split)

lemma sends_notify_account [sends_rules]: "sends N ctx k \<Longrightarrow> sends N ctx (notify_account svc ctx account command body k)"
  unfolding notify_account_def by (intro sends_rules)

section \<open>What a program does to the state\<close>

text \<open>The state after a run satisfies \<open>Q\<close>.\<close>

definition post :: "'s prog \<Rightarrow> ('s \<Rightarrow> bool) \<Rightarrow> 's \<Rightarrow> bool" where
  "post p Q s \<longleftrightarrow> (\<forall>log. Q (fst (snd (p s log))))"

named_theorems post_rules

lemma post_leaf [post_rules]:
  "Q s \<Longrightarrow> post finish Q s"
  "Q s \<Longrightarrow> post (reply svc ctx status body) Q s"
  "Q s \<Longrightarrow> post (fail svc ctx status) Q s"
  "Q s \<Longrightarrow> post (reply_bytes svc ctx status bytes) Q s"
  "Q s \<Longrightarrow> post (done_ok svc ctx) Q s"
  by (simp_all add: post_def finish_def reply_def fail_def reply_bytes_def done_ok_def split_beta Let_def)

lemma post_ask [post_rules]: "(\<And>r. m s = r \<Longrightarrow> post (k r) Q s) \<Longrightarrow> post (ask m k) Q s"
  by (simp add: post_def ask_def)

lemma post_call [post_rules]: "(\<And>r. fst (m s) = r \<Longrightarrow> post (k r) Q (snd (m s))) \<Longrightarrow> post (call m k) Q s"
  by (simp add: post_def call_def)

lemma post_tell [post_rules]: "post k Q s \<Longrightarrow> post (tell f k) Q s"
  by (simp add: post_def tell_def)

lemma post_attempt [post_rules]: "(\<And>r. post (k r) Q s) \<Longrightarrow> post (attempt f k) Q s"
  by (simp add: post_def attempt_def)

text \<open>A program that never touches the state: the replies.\<close>

lemma post_followed [post_rules]:
  assumes "post p (\<lambda>s'. s' = s) s" "Q s" "post k Q s"
  shows "post (followed p k) Q s"
  unfolding post_def
proof
  fix log
  obtain r s1 log1 where r: "p s log = (r, s1, log1)" by (metis prod_cases3)
  then have "s1 = s" using assms(1) unfolding post_def by (metis fst_conv snd_conv)
  then show "Q (fst (snd (followed p k s log)))"
    using assms(2,3) r by (auto simp: followed_def post_def split: sum.split)
qed

lemma post_cases [post_rules]:
  "(\<And>e. r = Inl e \<Longrightarrow> post (f e) Q s) \<Longrightarrow> (\<And>v. r = Inr v \<Longrightarrow> post (g v) Q s) \<Longrightarrow>
     post (case r of Inl e \<Rightarrow> f e | Inr v \<Rightarrow> g v) Q s"
  "(o' = None \<Longrightarrow> post n Q s) \<Longrightarrow> (\<And>x. o' = Some x \<Longrightarrow> post (h x) Q s) \<Longrightarrow>
     post (case o' of None \<Rightarrow> n | Some x \<Rightarrow> h x) Q s"
  "(b \<Longrightarrow> post p Q s) \<Longrightarrow> (\<not> b \<Longrightarrow> post q Q s) \<Longrightarrow> post (if b then p else q) Q s"
  "(\<And>x y. c = (x, y) \<Longrightarrow> post (w x y) Q s) \<Longrightarrow> post (case c of (x, y) \<Rightarrow> w x y) Q s"
  "(b \<Longrightarrow> post p Q s) \<Longrightarrow> (\<not> b \<Longrightarrow> post q Q s) \<Longrightarrow> post (case b of True \<Rightarrow> p | False \<Rightarrow> q) Q s"
  by (auto split: sum.split option.split prod.split bool.split)

lemma post_notify_account [post_rules]: "post k Q s \<Longrightarrow> post (notify_account svc ctx account command body k) Q s"
  unfolding notify_account_def by (intro post_rules) 

lemma postD: "post p Q s \<Longrightarrow> p s log = (r, s', log') \<Longrightarrow> Q s'"
  by (metis fst_conv post_def snd_conv)

end
