(* ===== verification/Kim_Chat_Messages.thy ===== *)
theory Kim_Chat_Messages
  imports Kim_Chat_Base
begin

text \<open>
  The handlers that read and acknowledge messages: \<open>services/chat/src/ack.rs\<close>, \<open>offline.rs\<close>,
  \<open>inbox.rs\<close> and \<open>echo.rs\<close>.
\<close>

section \<open>Echo and acknowledgements\<close>

definition do_echo :: "'s ChatSvc \<Rightarrow> Context \<Rightarrow> 's prog" where
  "do_echo svc ctx = reply_bytes svc ctx Success (req_body ctx)"

definition do_talk_ack :: "'s ChatSvc \<Rightarrow> Context \<Rightarrow> 's prog" where
  "do_talk_ack svc ctx =
     (case cd_ack (sv_codec svc) (req_body ctx) of
        Inl _ \<Rightarrow> fail svc ctx InvalidPacketBody
      | Inr req \<Rightarrow>
          let ids = collect_ack_ids (akq_message_id req) (akq_message_ids req);
              jti = trim (s_jti (cx_session ctx));
              ack = (\<lambda>target. call (sv_store_ack svc (sess_app ctx) (sess_account ctx) target ids)
                 (\<lambda>r. case r of Inl _ \<Rightarrow> fail svc ctx SystemException | Inr _ \<Rightarrow> done_ok svc ctx))
          in if length ids > MESSAGE_MAX_COUNT_PER_PAGE then fail svc ctx InvalidPacketBody
             else if sv_pending_receipt svc then
               (if ids = [] \<or> jti = [] then done_ok svc ctx else ack jti)
             else ack [])"

section \<open>Offline messages\<close>

definition do_offline_index :: "'s ChatSvc \<Rightarrow> Context \<Rightarrow> 's prog" where
  "do_offline_index svc ctx =
     (case cd_index (sv_codec svc) (req_body ctx) of
        Inl _ \<Rightarrow> fail svc ctx InvalidPacketBody
      | Inr req \<Rightarrow>
          let jti = trim (s_jti (cx_session ctx));
              answer = (\<lambda>(rows, has_more). reply svc ctx Success (BMessageIndex rows has_more));
              load = (\<lambda>target resume. call (sv_offline_index svc (sess_app ctx) (sess_account ctx) target (mxq_message_id req) resume)
                 (\<lambda>r. case r of Inl _ \<Rightarrow> fail svc ctx SystemException | Inr v \<Rightarrow> answer v))
          in if sv_pending_receipt svc then (if jti = [] then answer ([], False) else load jti (mxq_resume req))
             else load [] False)"

definition do_offline_content :: "'s ChatSvc \<Rightarrow> Context \<Rightarrow> 's prog" where
  "do_offline_content svc ctx =
     (case cd_content (sv_codec svc) (req_body ctx) of
        Inl _ \<Rightarrow> fail svc ctx InvalidPacketBody
      | Inr req \<Rightarrow>
          if length (mcq_message_ids req) > MESSAGE_MAX_COUNT_PER_PAGE then fail svc ctx InvalidPacketBody
          else ask (sv_offline_content svc (sess_app ctx) (sess_account ctx) (mcq_message_ids req))
            (\<lambda>r. case r of
                Inl _ \<Rightarrow> fail svc ctx SystemException
              | Inr rows \<Rightarrow> reply svc ctx Success (BMessageContent rows)))"

section \<open>The inbox\<close>

definition parse_kind :: "int \<Rightarrow> MessageKind option" where
  "parse_kind kind =
     (if kind = INBOX_KIND_USER then Some UserMsg
      else if kind = INBOX_KIND_GROUP then Some GroupMsg else None)"

fun inbox_kind :: "MessageKind \<Rightarrow> int" where
  "inbox_kind UserMsg = INBOX_KIND_USER"
| "inbox_kind GroupMsg = INBOX_KIND_GROUP"

definition to_proto :: "ConversationReadState \<Rightarrow> ReadStatePb" where
  "to_proto st = \<lparr>rp_dest = cr_dest st, rp_kind = inbox_kind (cr_kind st),
     rp_last_read_message_id = cr_last_read_message_id st, rp_max_message_id = cr_max_message_id st,
     rp_unread = cr_unread st, rp_version = cr_version st, rp_exists = cr_exists st\<rparr>"

definition read_state :: "InboxEntry \<Rightarrow> ConversationReadState" where
  "read_state e = \<lparr>cr_dest = ie_dest e, cr_kind = ie_kind e, cr_last_read_message_id = ie_last_read_message_id e,
     cr_max_message_id = max (ie_max_message_id e) (ie_last_message_id e), cr_unread = ie_unread e,
     cr_version = ie_state_version e, cr_exists = True\<rparr>"

definition display_name :: "UserProfile \<Rightarrow> string" where
  "display_name p = (if uf_nickname p = [] then uf_account p else uf_nickname p)"

text \<open>Title and avatar of a row: from the profile or the group, or the bare destination. The tables are
  built by inserting in order, so the last entry for a name counts.\<close>

definition inbox_title :: "UserProfile list \<Rightarrow> GroupSummary list \<Rightarrow> InboxEntry \<Rightarrow> string \<times> string" where
  "inbox_title profiles details row =
     (case ie_kind row of
        UserMsg \<Rightarrow>
          (case hget (foldl (\<lambda>m p. hput (uf_account p) p m) [] profiles) (ie_dest row) of
             Some p \<Rightarrow> (display_name p, uf_avatar p) | None \<Rightarrow> (ie_dest row, []))
      | GroupMsg \<Rightarrow>
          (case hget (foldl (\<lambda>m g. hput (gs_id g) (gs_name g, gs_avatar g) m) [] details) (ie_dest row) of
             Some (name, avatar) \<Rightarrow> (name, avatar) | None \<Rightarrow> (ie_dest row, [])))"

definition inbox_item :: "UserProfile list \<Rightarrow> GroupSummary list \<Rightarrow> InboxEntry \<Rightarrow> InboxItem" where
  "inbox_item profiles details row =
     (let (title, avatar) = inbox_title profiles details row in
      \<lparr>ii_dest = ie_dest row, ii_kind = inbox_kind (ie_kind row), ii_title = title, ii_avatar = avatar,
       ii_last_body = ie_last_body row, ii_last_sender = ie_last_sender row,
       ii_last_message_id = ie_last_message_id row, ii_last_send_time = ie_last_send_time row,
       ii_unread = ie_unread row, ii_read_state = to_proto (read_state row)\<rparr>)"

definition do_inbox_list :: "'s ChatSvc \<Rightarrow> Context \<Rightarrow> 's prog" where
  "do_inbox_list svc ctx =
     (let limit = (case cd_inbox (sv_codec svc) (req_body ctx) of Inr r \<Rightarrow> ibq_limit r | Inl _ \<Rightarrow> 0)
      in ask (sv_inbox svc (sess_app ctx) (sess_account ctx) limit) (\<lambda>r. case r of
           Inl _ \<Rightarrow> fail svc ctx SystemException
         | Inr rows \<Rightarrow>
             let user_dests = map ie_dest (filter (\<lambda>e. ie_kind e = UserMsg) rows);
                 group_dests = map ie_dest (filter (\<lambda>e. ie_kind e = GroupMsg) rows)
             in ask (\<lambda>s. if user_dests = [] then [] else case sv_profiles svc (sess_app ctx) user_dests s of Inr v \<Rightarrow> v | Inl _ \<Rightarrow> [])
                  (\<lambda>profiles.
                ask (\<lambda>s. if group_dests = [] then [] else case sv_group_summaries svc (sess_app ctx) group_dests s of Inr v \<Rightarrow> v | Inl _ \<Rightarrow> [])
                  (\<lambda>details. reply svc ctx Success (BInbox (map (inbox_item profiles details) rows))))))"

definition do_history :: "'s ChatSvc \<Rightarrow> Context \<Rightarrow> 's prog" where
  "do_history svc ctx =
     (if req_dest ctx = [] then fail svc ctx NoDestination
      else case cd_history (sv_codec svc) (req_body ctx) of
          Inl _ \<Rightarrow> fail svc ctx InvalidPacketBody
        | Inr req \<Rightarrow>
            (case parse_kind (hsq_kind req) of
               None \<Rightarrow> fail svc ctx InvalidPacketBody
             | Some kind \<Rightarrow>
                 ask (sv_history svc (sess_app ctx) (sess_account ctx) (req_dest ctx) kind (hsq_before_id req) (hsq_limit req))
                   (\<lambda>r. case r of
                       Inr rows \<Rightarrow> reply svc ctx Success (BHistory rows)
                     | Inl _ \<Rightarrow> fail svc ctx SystemException)))"

definition do_inbox_read :: "'s ChatSvc \<Rightarrow> Context \<Rightarrow> 's prog" where
  "do_inbox_read svc ctx =
     (if req_dest ctx = [] then fail svc ctx NoDestination
      else case cd_read (sv_codec svc) (req_body ctx) of
          Inl _ \<Rightarrow> fail svc ctx InvalidPacketBody
        | Inr req \<Rightarrow>
            (case parse_kind (crq_kind req) of
               None \<Rightarrow> fail svc ctx InvalidPacketBody
             | Some kind \<Rightarrow>
                 let dest = req_dest ctx; reader = sess_account ctx in
                 call (sv_mark_read svc (sess_app ctx) reader dest kind (crq_message_id req)) (\<lambda>r. case r of
                     Inl _ \<Rightarrow> fail svc ctx SystemException
                   | Inr state \<Rightarrow>
                       let sync = (if cr_exists state
                             then notify_account svc ctx reader (Command_as_str InboxReadSync) (BReadSync reader (to_proto state)) finish
                             else finish)
                       in followed (reply svc ctx Success (BReadState (to_proto state)))
                            (if kind = UserMsg \<and> cr_last_read_message_id state > 0
                             then notify_account svc ctx dest (Command_as_str ReceiptRead)
                                    (BReadReceipt reader dest INBOX_KIND_USER (cr_last_read_message_id state)) sync
                             else sync))))"

text \<open>The keys of a states request, or nothing when one of them is invalid.\<close>

fun state_keys :: "ConversationKey list \<Rightarrow> ConversationStateKey list option" where
  "state_keys [] = Some []"
| "state_keys (key # keys) =
     (case parse_kind (cky_kind key) of
        None \<Rightarrow> None
      | Some kind \<Rightarrow>
          if cky_dest key = [] then None
          else map_option (\<lambda>ks. \<lparr>ck_dest = cky_dest key, ck_kind = kind\<rparr> # ks) (state_keys keys))"

definition do_inbox_states :: "'s ChatSvc \<Rightarrow> Context \<Rightarrow> 's prog" where
  "do_inbox_states svc ctx =
     (case cd_states (sv_codec svc) (req_body ctx) of
        Inl _ \<Rightarrow> fail svc ctx InvalidPacketBody
      | Inr req \<Rightarrow>
          if length (csq_conversations req) > 100 then fail svc ctx InvalidPacketBody
          else case state_keys (csq_conversations req) of
              None \<Rightarrow> fail svc ctx InvalidPacketBody
            | Some keys \<Rightarrow>
                ask (sv_states svc (sess_app ctx) (sess_account ctx) keys) (\<lambda>r. case r of
                    Inr states \<Rightarrow> reply svc ctx Success (BReadStates (map to_proto states))
                  | Inl _ \<Rightarrow> fail svc ctx SystemException))"

section \<open>Each request is answered once\<close>

lemma message_handlers_answer [sends_rules]:
  "answers ctx (do_echo svc ctx)"
  "answers ctx (do_talk_ack svc ctx)"
  "answers ctx (do_offline_index svc ctx)"
  "answers ctx (do_offline_content svc ctx)"
  "answers ctx (do_inbox_list svc ctx)"
  "answers ctx (do_history svc ctx)"
  "answers ctx (do_inbox_read svc ctx)"
  "answers ctx (do_inbox_states svc ctx)"
  unfolding do_echo_def do_talk_ack_def do_offline_index_def do_offline_content_def do_inbox_list_def do_history_def
    do_inbox_read_def do_inbox_states_def Let_def
  by (intro sends_rules; simp)+

end
