(* ===== verification/Kim_Chat_Social.thy ===== *)
theory Kim_Chat_Social
  imports Kim_Chat_Messages
begin

text \<open>
  Friends, blocks, profiles, rooms and typing: the handlers of \<open>services/chat/src/friends.rs\<close>,
  \<open>profile.rs\<close>, \<open>room.rs\<close> and \<open>typing.rs\<close>.
\<close>

section \<open>Friends and blocks\<close>

text \<open>\<open>dest_account\<close>: the destination must be somebody else.\<close>

definition with_peer :: "'s ChatSvc \<Rightarrow> Context \<Rightarrow> (string \<Rightarrow> 's prog) \<Rightarrow> 's prog" where
  "with_peer svc ctx k =
     (if req_dest ctx = [] then fail svc ctx NoDestination
      else if req_dest ctx = sess_account ctx then fail svc ctx InvalidPacketBody
      else k (req_dest ctx))"

fun social_status :: "SocialError \<Rightarrow> Status" where
  "social_status SelfOp = InvalidPacketBody"
| "social_status SocialNotFound = UserNotFound"
| "social_status SocialBlocked = Status.Blocked"
| "social_status SocialError.BotSocialDenied = Status.BotSocialDenied"
| "social_status (SocialBackend _) = SystemException"

definition reject_bot_social :: "'s ChatSvc \<Rightarrow> Context \<Rightarrow> string \<Rightarrow> 's \<Rightarrow> (Status, unit) result" where
  "reject_bot_social svc ctx peer s =
     (case sv_lookup svc (sess_app ctx) peer s of
        Inr (Some p) \<Rightarrow>
          if up_kind p = PROFILE_KIND_BOT then
            (if up_owner_account p = sess_account ctx then Err Status.BotSocialDenied else Err UserNotFound)
          else Ok ()
      | Inr None \<Rightarrow> Ok ()
      | Inl _ \<Rightarrow> Err SystemException)"

definition not_bot :: "'s ChatSvc \<Rightarrow> Context \<Rightarrow> string \<Rightarrow> 's prog \<Rightarrow> 's prog" where
  "not_bot svc ctx peer k =
     ask (reject_bot_social svc ctx peer) (\<lambda>r. case r of Inl status \<Rightarrow> reply_bytes svc ctx status [] | Inr _ \<Rightarrow> k)"

definition require_user :: "'s ChatSvc \<Rightarrow> Context \<Rightarrow> string \<Rightarrow> 's prog \<Rightarrow> 's prog" where
  "require_user svc ctx peer k =
     ask (sv_exists svc (sess_app ctx) peer) (\<lambda>r. case r of
         Inr b \<Rightarrow> if b then k else reply_bytes svc ctx UserNotFound []
       | Inl _ \<Rightarrow> fail svc ctx SystemException)"

definition own_name :: "'s ChatSvc \<Rightarrow> Context \<Rightarrow> 's \<Rightarrow> string" where
  "own_name svc ctx s =
     (case sv_profile svc (sess_app ctx) (sess_account ctx) s of
        Inr (Some p) \<Rightarrow> display_name p
      | _ \<Rightarrow> sess_account ctx)"

definition notify_peer :: "'s ChatSvc \<Rightarrow> Context \<Rightarrow> string \<Rightarrow> string \<Rightarrow> 's prog \<Rightarrow> 's prog" where
  "notify_peer svc ctx peer nickname =
     notify_account svc ctx peer (h_command (cx_header ctx)) (BFriendNotify (sess_account ctx) nickname)"

definition social_answer :: "'s ChatSvc \<Rightarrow> Context \<Rightarrow> (SocialError, unit) result \<Rightarrow> 's prog" where
  "social_answer svc ctx r = (case r of Inr _ \<Rightarrow> done_ok svc ctx | Inl e \<Rightarrow> fail svc ctx (social_status e))"

definition do_friend_request :: "'s ChatSvc \<Rightarrow> Context \<Rightarrow> 's prog" where
  "do_friend_request svc ctx =
     with_peer svc ctx (\<lambda>peer. not_bot svc ctx peer (require_user svc ctx peer (ask (own_name svc ctx) (\<lambda>nickname.
       call (sv_request svc (sess_app ctx) (sess_account ctx) peer) (\<lambda>r. case r of
           Inr outcome \<Rightarrow>
             (case outcome of
                Sent \<Rightarrow> notify_peer svc ctx peer nickname (done_ok svc ctx)
              | AutoAccepted \<Rightarrow> notify_peer svc ctx peer nickname (done_ok svc ctx)
              | AlreadyFriends \<Rightarrow> done_ok svc ctx)
         | Inl e \<Rightarrow> fail svc ctx (social_status e))))))"

definition do_friend_accept :: "'s ChatSvc \<Rightarrow> Context \<Rightarrow> 's prog" where
  "do_friend_accept svc ctx =
     with_peer svc ctx (\<lambda>peer.
       call (sv_accept svc (sess_app ctx) (sess_account ctx) peer) (\<lambda>r. case r of
           Inr _ \<Rightarrow> ask (own_name svc ctx) (\<lambda>nickname. notify_peer svc ctx peer nickname (done_ok svc ctx))
         | Inl e \<Rightarrow> fail svc ctx (social_status e)))"

definition do_friend_reject :: "'s ChatSvc \<Rightarrow> Context \<Rightarrow> 's prog" where
  "do_friend_reject svc ctx =
     with_peer svc ctx (\<lambda>peer. call (sv_reject svc (sess_app ctx) (sess_account ctx) peer) (social_answer svc ctx))"

definition do_friend_remove :: "'s ChatSvc \<Rightarrow> Context \<Rightarrow> 's prog" where
  "do_friend_remove svc ctx =
     with_peer svc ctx (\<lambda>peer. not_bot svc ctx peer
       (call (sv_remove svc (sess_app ctx) (sess_account ctx) peer) (social_answer svc ctx)))"

definition to_pb :: "UserProfile \<Rightarrow> UserProfile" where
  "to_pb p = \<lparr>uf_account = uf_account p, uf_nickname = uf_nickname p, uf_avatar = uf_avatar p, uf_bio = uf_bio p,
     uf_kind = uf_kind p\<rparr>"

definition profiles_pb :: "'s ChatSvc \<Rightarrow> string \<Rightarrow> string list \<Rightarrow> 's \<Rightarrow> (UserError, UserProfile list) result" where
  "profiles_pb svc app accounts s = res_bind (sv_profiles svc app accounts s) (\<lambda>rows. Ok (map to_pb rows))"

definition list_answer :: "'s ChatSvc \<Rightarrow> Context \<Rightarrow> ('s \<Rightarrow> (SocialError, string list) result) \<Rightarrow> 's prog" where
  "list_answer svc ctx accounts =
     ask accounts (\<lambda>r. case r of
         Inr accs \<Rightarrow> ask (profiles_pb svc (sess_app ctx) accs) (\<lambda>r. case r of
             Inr ps \<Rightarrow> reply svc ctx Success (BUserList ps)
           | Inl _ \<Rightarrow> fail svc ctx SystemException)
       | Inl e \<Rightarrow> fail svc ctx (social_status e))"

definition do_friend_list :: "'s ChatSvc \<Rightarrow> Context \<Rightarrow> 's prog" where
  "do_friend_list svc ctx = list_answer svc ctx (sv_list_friends svc (sess_app ctx) (sess_account ctx))"

definition do_friend_incoming :: "'s ChatSvc \<Rightarrow> Context \<Rightarrow> 's prog" where
  "do_friend_incoming svc ctx = list_answer svc ctx (sv_incoming svc (sess_app ctx) (sess_account ctx))"

definition do_block_add :: "'s ChatSvc \<Rightarrow> Context \<Rightarrow> 's prog" where
  "do_block_add svc ctx =
     with_peer svc ctx (\<lambda>peer. not_bot svc ctx peer (require_user svc ctx peer
       (call (sv_block svc (sess_app ctx) (sess_account ctx) peer) (social_answer svc ctx))))"

definition do_block_remove :: "'s ChatSvc \<Rightarrow> Context \<Rightarrow> 's prog" where
  "do_block_remove svc ctx =
     with_peer svc ctx (\<lambda>peer. not_bot svc ctx peer
       (call (sv_unblock svc (sess_app ctx) (sess_account ctx) peer) (social_answer svc ctx)))"

definition do_block_list :: "'s ChatSvc \<Rightarrow> Context \<Rightarrow> 's prog" where
  "do_block_list svc ctx = list_answer svc ctx (sv_list_blocked svc (sess_app ctx) (sess_account ctx))"

section \<open>Profiles\<close>

definition do_user_profile :: "'s ChatSvc \<Rightarrow> Context \<Rightarrow> 's prog" where
  "do_user_profile svc ctx =
     (let dest = req_dest ctx;
          account = (if dest = [] then sess_account ctx else dest);
          load = ask (sv_profile svc (sess_app ctx) account) (\<lambda>r. case r of
              Inr o' \<Rightarrow> (case o' of Some p \<Rightarrow> reply svc ctx Success (BProfile (to_pb p)) | None \<Rightarrow> reply_bytes svc ctx UserNotFound [])
            | Inl _ \<Rightarrow> fail svc ctx SystemException)
      in if dest \<noteq> [] \<and> dest \<noteq> sess_account ctx then
           ask (sv_lookup svc (sess_app ctx) dest) (\<lambda>r. case r of
               Inr o' \<Rightarrow>
                 (case o' of
                    Some p \<Rightarrow> if up_kind p = PROFILE_KIND_BOT \<and> up_owner_account p \<noteq> sess_account ctx
                              then reply_bytes svc ctx UserNotFound [] else load
                  | None \<Rightarrow> load)
             | Inl _ \<Rightarrow> fail svc ctx SystemException)
         else load)"

definition push_profile_updated :: "'s ChatSvc \<Rightarrow> Context \<Rightarrow> UserProfile \<Rightarrow> 's prog" where
  "push_profile_updated svc ctx body =
     (let own = notify_account svc ctx (sess_account ctx) (Command_as_str UserUpdated) (BProfile body) finish in
      ask (sv_list_friends svc (sess_app ctx) (sess_account ctx)) (\<lambda>r. case r of
          Inr friends \<Rightarrow> foldr (\<lambda>peer. notify_account svc ctx peer (Command_as_str UserUpdated) (BProfile body)) friends own
        | Inl _ \<Rightarrow> own))"

definition do_user_update :: "'s ChatSvc \<Rightarrow> Context \<Rightarrow> 's prog" where
  "do_user_update svc ctx =
     (case cd_profile_update (sv_codec svc) (req_body ctx) of
        Inl _ \<Rightarrow> fail svc ctx InvalidPacketBody
      | Inr req \<Rightarrow>
          if req_dest ctx \<noteq> [] \<and> req_dest ctx \<noteq> sess_account ctx then reply_bytes svc ctx Unauthorized []
          else
            let patch = \<lparr>pp_nickname = puq_nickname req, pp_avatar = puq_avatar req, pp_bio = puq_bio req\<rparr> in
            if validate_patch patch = Err InvalidProfile then reply_bytes svc ctx InvalidPacketBody []
            else call (sv_update_profile svc (sess_app ctx) (sess_account ctx) patch) (\<lambda>r. case r of
                Inr p \<Rightarrow> followed (reply svc ctx Success (BProfile (to_pb p))) (push_profile_updated svc ctx (to_pb p))
              | Inl e \<Rightarrow>
                  if e = UserMissing then reply_bytes svc ctx UserNotFound []
                  else if e = InvalidProfile then reply_bytes svc ctx InvalidPacketBody []
                  else fail svc ctx SystemException))"

fun search_visible :: "'s ChatSvc \<Rightarrow> Context \<Rightarrow> UserProfile list \<Rightarrow> 's \<Rightarrow> (SocialError, UserProfile list) result" where
  "search_visible svc ctx [] s = Ok []"
| "search_visible svc ctx (p # ps) s =
     res_bind (sv_is_blocked_either svc (sess_app ctx) (sess_account ctx) (uf_account p) s) (\<lambda>blocked.
     res_bind (search_visible svc ctx ps s) (\<lambda>rest. Ok (if blocked then rest else to_pb p # rest)))"

definition do_user_search :: "'s ChatSvc \<Rightarrow> Context \<Rightarrow> 's prog" where
  "do_user_search svc ctx =
     (case cd_search (sv_codec svc) (req_body ctx) of
        Inl _ \<Rightarrow> fail svc ctx InvalidPacketBody
      | Inr req \<Rightarrow>
          ask (sv_list_blocked svc (sess_app ctx) (sess_account ctx)) (\<lambda>r. case r of
              Inl _ \<Rightarrow> fail svc ctx SystemException
            | Inr blocked \<Rightarrow>
                ask (sv_search svc (sess_app ctx) (usq_query req) (sess_account ctx # blocked) SEARCH_LIMIT) (\<lambda>r. case r of
                    Inl _ \<Rightarrow> fail svc ctx SystemException
                  | Inr rows \<Rightarrow>
                      ask (search_visible svc ctx rows) (\<lambda>r. case r of
                          Inl _ \<Rightarrow> fail svc ctx SystemException
                        | Inr visible \<Rightarrow> reply svc ctx Success (BUserSearch visible)))))"

section \<open>Rooms\<close>

definition snapshot_status :: "Location list \<Rightarrow> PresenceStatus" where
  "snapshot_status locs = (if locs = [] then PresenceOffline else PresenceOnline)"

definition presence_of :: "string \<Rightarrow> Location list \<Rightarrow> PresenceEntry" where
  "presence_of account locs = \<lparr>pr_account = account, pr_status = snapshot_status locs, pr_last_seen = 0\<rparr>"

text \<open>The checks that entering a room and typing in it share: not blocked, then friends.\<close>

definition unblocked :: "'s ChatSvc \<Rightarrow> Context \<Rightarrow> string \<Rightarrow> 's prog \<Rightarrow> 's prog" where
  "unblocked svc ctx dest k =
     ask (sv_is_blocked_either svc (sess_app ctx) (sess_account ctx) dest) (\<lambda>r. case r of
         Inr b \<Rightarrow> if b then reply_bytes svc ctx Status.Blocked [] else k
       | Inl _ \<Rightarrow> fail svc ctx SystemException)"

definition befriended :: "'s ChatSvc \<Rightarrow> Context \<Rightarrow> string \<Rightarrow> 's prog \<Rightarrow> 's prog" where
  "befriended svc ctx dest k =
     ask (sv_is_friend svc (sess_app ctx) (sess_account ctx) dest) (\<lambda>r. case r of
         Inr b \<Rightarrow> if b then k else reply_bytes svc ctx NotFriends []
       | Inl _ \<Rightarrow> fail svc ctx SystemException)"

definition do_room_enter :: "'s ChatSvc \<Rightarrow> Context \<Rightarrow> 's prog" where
  "do_room_enter svc ctx =
     (case cd_room_enter (sv_codec svc) (req_body ctx) of
        Inl _ \<Rightarrow> fail svc ctx InvalidPacketBody
      | Inr req \<Rightarrow>
          let dest = trim (rmq_dest req); kind = rmq_kind req in
          if dest = [] \<or> dest = sess_account ctx then reply_bytes svc ctx InvalidPacketBody []
          else if kind \<noteq> INBOX_KIND_USER then reply_bytes svc ctx InvalidPacketBody []
          else unblocked svc ctx dest (befriended svc ctx dest
            (call (sv_room_enter svc (sess_app ctx) (sess_account ctx) (sess_channel ctx) dest kind) (\<lambda>r. case r of
                Inl _ \<Rightarrow> fail svc ctx SystemException
              | Inr _ \<Rightarrow>
                  (case (AccountId_parse dest :: (unit ProtocolError, string) result) of
                     Inl _ \<Rightarrow> reply_bytes svc ctx InvalidPacketBody []
                   | Inr dest_id \<Rightarrow>
                       ask (sv_list_locations svc dest_id) (\<lambda>r.
                         if (case r of Inl e \<Rightarrow> e \<noteq> NotFound | Inr _ \<Rightarrow> False) then fail svc ctx SystemException
                         else reply svc ctx Success
                           (BRoomEnter [presence_of dest (case r of Inr v \<Rightarrow> v | Inl _ \<Rightarrow> [])])))))))"

definition do_room_leave :: "'s ChatSvc \<Rightarrow> Context \<Rightarrow> 's prog" where
  "do_room_leave svc ctx =
     (case cd_room_leave (sv_codec svc) (req_body ctx) of
        Inl _ \<Rightarrow> fail svc ctx InvalidPacketBody
      | Inr req \<Rightarrow>
          let dest = trim (rlq_dest req) in
          if dest = [] then reply_bytes svc ctx InvalidPacketBody []
          else call (sv_room_leave svc (sess_app ctx) (sess_account ctx) (sess_channel ctx) dest (rlq_kind req))
            (\<lambda>r. case r of Inl _ \<Rightarrow> fail svc ctx SystemException | Inr _ \<Rightarrow> done_ok svc ctx))"

section \<open>Typing\<close>

definition fanout_typing_to_account :: "'s ChatSvc \<Rightarrow> Context \<Rightarrow> string \<Rightarrow> TypingPush \<Rightarrow> 's prog" where
  "fanout_typing_to_account svc ctx account body =
     (case (AccountId_parse account :: (unit ProtocolError, string) result) of
        Inl _ \<Rightarrow> finish
      | Inr account_id \<Rightarrow>
          ask (sv_list_locations svc account_id) (\<lambda>r. case r of
              Inl _ \<Rightarrow> finish
            | Inr locs \<Rightarrow>
                if locs = [] then finish
                else tell (dispatch_cmd (sv_disp svc) ctx (Command_as_str Typing) (cd_enc (sv_codec svc) (BTyping body)) locs) finish))"

text \<open>The devices of the peer that are viewing the room with the typer.\<close>

definition fanout_typing_to_peer :: "'s ChatSvc \<Rightarrow> Context \<Rightarrow> string \<Rightarrow> TypingPush \<Rightarrow> 's prog" where
  "fanout_typing_to_peer svc ctx dest body =
     ask (sv_viewers svc (sess_app ctx) (sess_account ctx) INBOX_KIND_USER) (\<lambda>r. case r of
         Inl _ \<Rightarrow> finish
       | Inr vs \<Rightarrow>
           let peer_channels = map vr_channel_id (filter (\<lambda>v. vr_account v = dest) vs) in
           if peer_channels = [] then finish
           else case (AccountId_parse dest :: (unit ProtocolError, string) result) of
               Inl _ \<Rightarrow> reply_bytes svc ctx InvalidPacketBody []
             | Inr dest_id \<Rightarrow>
                 ask (sv_list_locations svc dest_id) (\<lambda>r. case r of
                     Inl _ \<Rightarrow> finish
                   | Inr locs \<Rightarrow>
                       let recvs = filter (\<lambda>l. l_channel_id l \<in> set peer_channels) locs in
                       if recvs = [] then finish
                       else tell (dispatch_cmd (sv_disp svc) ctx (Command_as_str Typing) (cd_enc (sv_codec svc) (BTyping body)) recvs) finish))"

definition do_typing :: "'s ChatSvc \<Rightarrow> Context \<Rightarrow> 's prog" where
  "do_typing svc ctx =
     (case cd_typing (sv_codec svc) (req_body ctx) of
        Inl _ \<Rightarrow> fail svc ctx InvalidPacketBody
      | Inr req \<Rightarrow>
          let me = sess_account ctx; dest = trim (tyq_dest req); kind = tyq_kind req;
              body = \<lparr>tp_typer = me, tp_dest = dest, tp_kind = kind, tp_active = tyq_active req, tp_phase = tyq_phase req\<rparr>
          in if dest = [] \<or> dest = me then reply_bytes svc ctx InvalidPacketBody []
             else if kind \<noteq> INBOX_KIND_USER then reply_bytes svc ctx InvalidPacketBody []
             else unblocked svc ctx dest
               (ask (\<lambda>s. case sv_lookup svc (sess_app ctx) dest s of
                      Inr (Some p) \<Rightarrow> up_exists p \<and> up_kind p = PROFILE_KIND_BOT \<and> up_owner_account p = me
                    | _ \<Rightarrow> False) (\<lambda>owned.
                befriended svc ctx dest (followed (done_ok svc ctx)
                  (if owned then fanout_typing_to_account svc ctx me body
                   else fanout_typing_to_peer svc ctx dest body)))))"

section \<open>Each request is answered once\<close>

lemma sends_peer [sends_rules]: "1 \<in> N \<Longrightarrow> (\<And>peer. sends N ctx (k peer)) \<Longrightarrow> sends N ctx (with_peer svc ctx k)"
  unfolding with_peer_def by (intro sends_rules)

lemma sends_checks [sends_rules]:
  "1 \<in> N \<Longrightarrow> sends N ctx k \<Longrightarrow> sends N ctx (not_bot svc ctx peer k)"
  "1 \<in> N \<Longrightarrow> sends N ctx k \<Longrightarrow> sends N ctx (require_user svc ctx peer k)"
  "1 \<in> N \<Longrightarrow> sends N ctx k \<Longrightarrow> sends N ctx (unblocked svc ctx peer k)"
  "1 \<in> N \<Longrightarrow> sends N ctx k \<Longrightarrow> sends N ctx (befriended svc ctx peer k)"
  "1 \<in> N \<Longrightarrow> sends N ctx (social_answer svc ctx r)"
  "1 \<in> N \<Longrightarrow> sends N ctx (list_answer svc ctx accs)"
  "sends N ctx k \<Longrightarrow> sends N ctx (notify_peer svc ctx peer nick k)"
  unfolding not_bot_def require_user_def unblocked_def befriended_def social_answer_def list_answer_def notify_peer_def
  by (intro sends_rules; assumption)+

lemma sends_notify_all:
  "sends N ctx k \<Longrightarrow> sends N ctx (foldr (\<lambda>peer. notify_account svc ctx peer command body) peers k)"
  by (induction peers) (auto intro: sends_rules)

lemma sends_profile_updated [sends_rules]: "0 \<in> N \<Longrightarrow> sends N ctx (push_profile_updated svc ctx body)"
  unfolding push_profile_updated_def Let_def by (intro sends_rules sends_notify_all)

lemma sends_outcome [sends_rules]:
  "sends N ctx a \<Longrightarrow> sends N ctx b \<Longrightarrow> sends N ctx c \<Longrightarrow>
   sends N ctx (case out of Sent \<Rightarrow> a | AutoAccepted \<Rightarrow> b | AlreadyFriends \<Rightarrow> c)"
  by (cases out) auto

lemma social_handlers_answer [sends_rules]:
  "answers ctx (do_friend_request svc ctx)"
  "answers ctx (do_friend_accept svc ctx)"
  "answers ctx (do_friend_reject svc ctx)"
  "answers ctx (do_friend_remove svc ctx)"
  "answers ctx (do_friend_list svc ctx)"
  "answers ctx (do_friend_incoming svc ctx)"
  "answers ctx (do_block_add svc ctx)"
  "answers ctx (do_block_remove svc ctx)"
  "answers ctx (do_block_list svc ctx)"
  "answers ctx (do_user_profile svc ctx)"
  "answers ctx (do_user_update svc ctx)"
  "answers ctx (do_user_search svc ctx)"
  "answers ctx (do_room_enter svc ctx)"
  "answers ctx (do_room_leave svc ctx)"
  unfolding do_friend_request_def do_friend_accept_def do_friend_reject_def do_friend_remove_def do_friend_list_def
    do_friend_incoming_def do_block_add_def do_block_remove_def do_block_list_def do_user_profile_def do_user_update_def
    do_user_search_def do_room_enter_def do_room_leave_def Let_def
  by (intro sends_rules; simp)+

lemma sends_typing_account [sends_rules]: "0 \<in> N \<Longrightarrow> sends N ctx (fanout_typing_to_account svc ctx account body)"
  unfolding fanout_typing_to_account_def by (intro sends_rules)

text \<open>A typing request is answered once, or twice: when the peer's name is not a valid account name but the
  peer views the room, a second, failing response follows the success.\<close>

definition account_name :: "string \<Rightarrow> bool" where
  "account_name a \<longleftrightarrow> (\<exists>b. AccountId_parse a = (Ok b :: (unit ProtocolError, string) result))"

lemma typing_answers_twice: "sends {1, 2} ctx (do_typing svc ctx)"
proof -
  have p: "sends {0, 1} ctx (fanout_typing_to_peer svc ctx dest body)" for dest body
    unfolding fanout_typing_to_peer_def Let_def by (intro sends_rules; simp)
  have a: "sends {0, 1} ctx (fanout_typing_to_account svc ctx account body)" for account body
    by (intro sends_rules) simp
  have f: "sends {1, 2} ctx (followed (done_ok svc ctx) k)" if "sends {0, 1} ctx k" for k
    by (rule sends_followed[OF _ that]) (auto intro: sends_rules)
  show ?thesis
    unfolding do_typing_def Let_def by (intro sends_rules f a p; simp)
qed

lemma typing_answers:
  assumes "\<And>req. cd_typing (sv_codec svc) (req_body ctx) = Ok req \<Longrightarrow> account_name (trim (tyq_dest req))"
  shows "answers ctx (do_typing svc ctx)"
proof -
  have p: "pushes ctx (fanout_typing_to_peer svc ctx dest body)" if "account_name dest" for dest body
    using that unfolding fanout_typing_to_peer_def Let_def account_name_def by (intro sends_rules; auto)
  show ?thesis
    unfolding do_typing_def Let_def by (intro sends_rules p; simp add: assms)
qed

end
