(* ===== verification/Kim_Chat_Bots.thy ===== *)
theory Kim_Chat_Bots
  imports Kim_Chat_Social
begin

text \<open>
  Bots and their agent specifications: the handlers of \<open>services/chat/src/bot.rs\<close>, the in-memory
  specification store and the handlers of \<open>services/chat/src/agent_spec.rs\<close>; and the talk handlers of
  \<open>talk.rs\<close> run on the service record.
\<close>

section \<open>Talking\<close>

definition talk_of :: "'s ChatSvc \<Rightarrow> 's \<Rightarrow> 's talk_deps" where
  "talk_of svc s =
     \<lparr>td_filter = sv_filter svc,
      td_lookup = \<lambda>app account. sv_lookup svc app account s,
      td_is_blocked_either = \<lambda>app a b. sv_is_blocked_either svc app a b s,
      td_is_friend = \<lambda>app a b. sv_is_friend svc app a b s,
      td_members = \<lambda>app g. sv_group_members svc app g s,
      td_get_locations = \<lambda>accounts. sv_get_locations svc accounts s,
      td_insert = sv_insert svc,
      td_dispatcher = sv_disp svc,
      td_dec_req = cd_message (sv_codec svc),
      td_enc_resp = \<lambda>r. cd_enc (sv_codec svc) (BMessageResp r),
      td_enc_push = \<lambda>p. cd_enc (sv_codec svc) (BMessagePush p),
      td_unix_nano = sv_unix_nano svc,
      td_directory_late = sv_directory_late svc,
      td_targets_late = sv_targets_late svc,
      td_push_cut = sv_push_cut svc\<rparr>"

definition user_talk :: "'s ChatSvc \<Rightarrow> Context \<Rightarrow> 's prog" where
  "user_talk svc ctx s log = do_user_talk (talk_of svc s) ctx s log"

definition group_talk :: "'s ChatSvc \<Rightarrow> Context \<Rightarrow> 's prog" where
  "group_talk svc ctx s log = do_group_talk (talk_of svc s) ctx s log"

section \<open>Bots\<close>

definition to_pb_config :: "BotConfig \<Rightarrow> BotConfig" where
  "to_pb_config c = \<lparr>bc_model = bc_model c, bc_thinking_effort = bc_thinking_effort c,
     bc_context_tokens = bc_context_tokens c, bc_visibility = bc_visibility c\<rparr>"

fun store_status :: "StoreError \<Rightarrow> Status" where
  "store_status (StoreInvalid _) = InvalidPacketBody"
| "store_status StoreNotFound = UserNotFound"
| "store_status (StoreHttp status _) =
     (if status = 400 then InvalidPacketBody else if status = 403 then NotBotOwner
      else if status = 404 then UserNotFound else SystemException)"
| "store_status _ = SystemException"

fun user_status :: "UserError \<Rightarrow> Status" where
  "user_status UserMissing = UserNotFound"
| "user_status InvalidProfile = InvalidPacketBody"
| "user_status UserLimit = InvalidPacketBody"
| "user_status UserNotBotOwner = NotBotOwner"
| "user_status UserConflict = InvalidPacketBody"
| "user_status (UserBackend _) = SystemException"

definition lookup_bot :: "'s ChatSvc \<Rightarrow> string \<Rightarrow> string \<Rightarrow> 's \<Rightarrow> (Status, UserPresence) result" where
  "lookup_bot svc app account s =
     (case sv_lookup svc app account s of
        Inr (Some p) \<Rightarrow> if up_exists p \<and> up_kind p = PROFILE_KIND_BOT then Ok p else Err UserNotFound
      | Inr None \<Rightarrow> Err UserNotFound
      | Inl _ \<Rightarrow> Err SystemException)"

text \<open>The caller must own the bot.\<close>

definition own_bot :: "'s ChatSvc \<Rightarrow> Context \<Rightarrow> string \<Rightarrow> 's prog \<Rightarrow> 's prog" where
  "own_bot svc ctx account k =
     ask (lookup_bot svc (sess_app ctx) account) (\<lambda>r. case r of
         Inl status \<Rightarrow> reply_bytes svc ctx status []
       | Inr p \<Rightarrow> if up_owner_account p \<noteq> sess_account ctx then reply_bytes svc ctx NotBotOwner [] else k)"

definition bot_answer :: "'s ChatSvc \<Rightarrow> Context \<Rightarrow> (UserError, BotRecord) result \<Rightarrow> 's prog" where
  "bot_answer svc ctx r =
     (case r of
        Inr rec \<Rightarrow> reply svc ctx Success (BBotCreate (to_pb (br_profile rec)) (to_pb_config (br_config rec)))
      | Inl e \<Rightarrow> fail svc ctx (user_status e))"

definition do_bot_create :: "'s ChatSvc \<Rightarrow> Context \<Rightarrow> 's prog" where
  "do_bot_create svc ctx =
     (case cd_bot_create (sv_codec svc) (req_body ctx) of
        Inl _ \<Rightarrow> fail svc ctx InvalidPacketBody
      | Inr req \<Rightarrow>
          if \<not> valid_client_profile_id (bcq_client_profile_id req) then reply_bytes svc ctx InvalidPacketBody []
          else call (sv_create_bot svc (sess_app ctx) \<lparr>cb_owner = sess_account ctx,
              cb_client_profile_id = bcq_client_profile_id req, cb_nickname = bcq_nickname req, cb_avatar = bcq_avatar req,
              cb_bio = bcq_bio req, cb_model = bcq_model req, cb_thinking_effort = bcq_thinking_effort req,
              cb_context_tokens = bcq_context_tokens req, cb_visibility = bcq_visibility req\<rparr>) (bot_answer svc ctx))"

definition do_bot_delete :: "'s ChatSvc \<Rightarrow> Context \<Rightarrow> 's prog" where
  "do_bot_delete svc ctx =
     (if req_dest ctx = [] then fail svc ctx NoDestination
      else own_bot svc ctx (req_dest ctx)
        (call (sv_delete_bot svc (sess_app ctx) (sess_account ctx) (req_dest ctx)) (\<lambda>r. case r of
            Inr _ \<Rightarrow> call (sv_purge svc (sess_app ctx) (sess_account ctx) (req_dest ctx)) (\<lambda>r. case r of
                Inl e \<Rightarrow> fail svc ctx (store_status e)
              | Inr _ \<Rightarrow> done_ok svc ctx)
          | Inl e \<Rightarrow> fail svc ctx (user_status e))))"

definition do_bot_update :: "'s ChatSvc \<Rightarrow> Context \<Rightarrow> 's prog" where
  "do_bot_update svc ctx =
     (if req_dest ctx = [] then fail svc ctx NoDestination
      else own_bot svc ctx (req_dest ctx)
        (case cd_bot_update (sv_codec svc) (req_body ctx) of
           Inl _ \<Rightarrow> fail svc ctx InvalidPacketBody
         | Inr req \<Rightarrow>
             call (sv_update_bot svc (sess_app ctx) (sess_account ctx) (req_dest ctx)
               \<lparr>bpa_nickname = buq_nickname req, bpa_avatar = buq_avatar req, bpa_bio = buq_bio req, bpa_model = buq_model req,
                bpa_thinking_effort = buq_thinking_effort req, bpa_context_tokens = buq_context_tokens req,
                bpa_visibility = buq_visibility req\<rparr>) (bot_answer svc ctx)))"

definition do_bot_reply :: "'s ChatSvc \<Rightarrow> Context \<Rightarrow> 's prog" where
  "do_bot_reply svc ctx =
     (if req_dest ctx = [] then fail svc ctx NoDestination
      else case cd_bot_reply (sv_codec svc) (req_body ctx) of
          Inl _ \<Rightarrow> fail svc ctx InvalidPacketBody
        | Inr req \<Rightarrow>
            if brq_in_reply_to req \<le> 0 then reply_bytes svc ctx InvalidPacketBody []
            else case brq_message req of
                None \<Rightarrow> reply_bytes svc ctx InvalidPacketBody []
              | Some message \<Rightarrow>
                  (case sv_filter svc message of
                     Inl status \<Rightarrow> fail svc ctx status
                   | Inr _ \<Rightarrow>
                       own_bot svc ctx (req_dest ctx)
                         (ask (\<lambda>s. fallback_targets (talk_of svc s) [sess_account ctx]) (\<lambda>targets.
                            call (sv_insert_bot_reply svc (sess_app ctx) (sess_account ctx) (req_dest ctx) (brq_in_reply_to req)
                              \<lparr>im_sender = req_dest ctx, im_dest = sess_account ctx, im_send_time = sv_unix_nano svc,
                               im_msg_type = mr_type message, im_body = mr_body message, im_extra = mr_extra message,
                               im_client_id = mr_client_id message, im_online_targets = targets\<rparr>) (\<lambda>r. case r of
                                Inl e \<Rightarrow> fail svc ctx (store_status e)
                              | Inr inserted \<Rightarrow>
                                  (\<lambda>s. persist_then_push (talk_of svc s) inserted (Command_as_str UserTalk) ctx s)))))) "

definition do_bot_pending :: "'s ChatSvc \<Rightarrow> Context \<Rightarrow> 's prog" where
  "do_bot_pending svc ctx =
     (if req_dest ctx = [] then fail svc ctx NoDestination
      else own_bot svc ctx (req_dest ctx)
        (let limit = (case cd_inbox (sv_codec svc) (req_body ctx) of Inr r \<Rightarrow> ibq_limit r | Inl _ \<Rightarrow> 20) in
         ask (sv_bot_pending svc (sess_app ctx) (sess_account ctx) (req_dest ctx) limit) (\<lambda>r. case r of
             Inr items \<Rightarrow> reply svc ctx Success (BBotPending items)
           | Inl e \<Rightarrow> fail svc ctx (store_status e))))"

definition do_bot_typing :: "'s ChatSvc \<Rightarrow> Context \<Rightarrow> 's prog" where
  "do_bot_typing svc ctx =
     (if req_dest ctx = [] then fail svc ctx NoDestination
      else case cd_typing (sv_codec svc) (req_body ctx) of
          Inl _ \<Rightarrow> fail svc ctx InvalidPacketBody
        | Inr req \<Rightarrow>
            if tyq_kind req \<noteq> INBOX_KIND_USER then reply_bytes svc ctx InvalidPacketBody []
            else own_bot svc ctx (req_dest ctx) (followed (done_ok svc ctx)
              (fanout_typing_to_account svc ctx (sess_account ctx)
                \<lparr>tp_typer = req_dest ctx, tp_dest = sess_account ctx, tp_kind = INBOX_KIND_USER,
                 tp_active = tyq_active req, tp_phase = tyq_phase req\<rparr>)))"

section \<open>Agent specifications\<close>

record MemoryAgentSpecStore =
  ag_inner :: "(string \<times> string \<times> string, AgentSpecRecord) hmap"
  ag_accounts :: "(string \<times> string \<times> string, AgentProviderAccount) hmap"

definition agent_store_new :: MemoryAgentSpecStore where
  "agent_store_new = \<lparr>ag_inner = [], ag_accounts = []\<rparr>"

definition agent_list :: "string \<Rightarrow> string \<Rightarrow> MemoryAgentSpecStore \<Rightarrow> AgentSpecRecord list" where
  "agent_list app owner st =
     sort_key as_profile_id (map snd (filter (\<lambda>((a, o', _), _). a = app \<and> o' = owner) (ag_inner st)))"

definition agent_upsert ::
  "string \<Rightarrow> string \<Rightarrow> AgentSpecRecord \<Rightarrow> MemoryAgentSpecStore \<Rightarrow> (AgentSpecError, AgentSpecRecord) result \<times> MemoryAgentSpecStore" where
  "agent_upsert app owner rec st =
     (if as_profile_id rec = [] \<or> as_spec rec = [] then (Err AgentInvalid, st)
      else
        let key = (app, owner, as_profile_id rec);
            install = (Ok rec, st\<lparr>ag_inner := hput key rec (ag_inner st)\<rparr>)
        in case hget (ag_inner st) key of
             Some stored \<Rightarrow> if as_updated_at rec < as_updated_at stored then (Ok stored, st) else install
           | None \<Rightarrow> install)"

definition agent_list_accounts :: "string \<Rightarrow> string \<Rightarrow> MemoryAgentSpecStore \<Rightarrow> AgentProviderAccount list" where
  "agent_list_accounts app owner st =
     sort_key aa_id (map snd (filter (\<lambda>((a, o', _), _). a = app \<and> o' = owner) (ag_accounts st)))"

definition agent_upsert_account ::
  "string \<Rightarrow> string \<Rightarrow> AgentProviderAccount \<Rightarrow> MemoryAgentSpecStore
   \<Rightarrow> (AgentSpecError, AgentProviderAccount) result \<times> MemoryAgentSpecStore" where
  "agent_upsert_account app owner rec st =
     (if aa_id rec = [] then (Err AgentInvalid, st)
      else
        let key = (app, owner, aa_id rec);
            install = (Ok rec, st\<lparr>ag_accounts := hput key rec (ag_accounts st)\<rparr>)
        in case hget (ag_accounts st) key of
             Some stored \<Rightarrow> if aa_updated_at rec < aa_updated_at stored then (Ok stored, st) else install
           | None \<Rightarrow> install)"

fun agent_status :: "AgentSpecError \<Rightarrow> Status" where
  "agent_status AgentInvalid = InvalidPacketBody"
| "agent_status AgentNotOwner = NotBotOwner"
| "agent_status (AgentBackend _) = SystemException"

definition owner_or_deny :: "'s ChatSvc \<Rightarrow> Context \<Rightarrow> 's prog \<Rightarrow> 's prog" where
  "owner_or_deny svc ctx k =
     (if req_dest ctx \<noteq> [] \<and> req_dest ctx \<noteq> sess_account ctx then reply_bytes svc ctx NotBotOwner [] else k)"

definition do_agent_spec_sync :: "'s ChatSvc \<Rightarrow> Context \<Rightarrow> 's prog" where
  "do_agent_spec_sync svc ctx =
     owner_or_deny svc ctx
       (ask (sv_spec_list svc (sess_app ctx) (sess_account ctx)) (\<lambda>r. case r of
           Inl e \<Rightarrow> fail svc ctx (agent_status e)
         | Inr records \<Rightarrow>
             ask (sv_account_list svc (sess_app ctx) (sess_account ctx)) (\<lambda>r. case r of
                 Inl e \<Rightarrow> fail svc ctx (agent_status e)
               | Inr accounts \<Rightarrow> reply svc ctx Success (BAgentSync records accounts))))"

definition upsert_record :: "'s ChatSvc \<Rightarrow> Context \<Rightarrow> AgentSpecRecord option \<Rightarrow> 's prog" where
  "upsert_record svc ctx pb =
     (case pb of
        None \<Rightarrow> reply svc ctx Success (BAgentUpsert None)
      | Some rec \<Rightarrow>
          if as_profile_id rec = [] \<or> as_spec rec = [] then reply_bytes svc ctx InvalidPacketBody []
          else call (sv_spec_upsert svc (sess_app ctx) (sess_account ctx) rec) (\<lambda>r. case r of
              Inr stored \<Rightarrow> reply svc ctx Success (BAgentUpsert (Some stored))
            | Inl e \<Rightarrow> fail svc ctx (agent_status e)))"

definition do_agent_spec_upsert :: "'s ChatSvc \<Rightarrow> Context \<Rightarrow> 's prog" where
  "do_agent_spec_upsert svc ctx =
     owner_or_deny svc ctx
       (case cd_agent_upsert (sv_codec svc) (req_body ctx) of
          Inl _ \<Rightarrow> fail svc ctx InvalidPacketBody
        | Inr req \<Rightarrow>
            if auq_record req = None \<and> auq_account req = None then reply_bytes svc ctx InvalidPacketBody []
            else case auq_account req of
                None \<Rightarrow> upsert_record svc ctx (auq_record req)
              | Some acc \<Rightarrow>
                  if aa_id acc = [] then reply_bytes svc ctx InvalidPacketBody []
                  else call (sv_account_upsert svc (sess_app ctx) (sess_account ctx) acc) (\<lambda>r. case r of
                      Inl e \<Rightarrow> fail svc ctx (agent_status e)
                    | Inr _ \<Rightarrow> upsert_record svc ctx (auq_record req)))"

section \<open>Each request is answered once\<close>

lemma error_is_reply: "is_reply ctx (error_response ctx status)"
  by (simp add: is_reply_def error_response_def response_packet_def LogicPkt_new_from_def Let_def)

lemma ack_is_reply: "is_reply ctx (ack_response deps ctx mid t)"
  by (simp add: is_reply_def ack_response_def response_packet_def LogicPkt_new_from_def LogicPkt_write_body_def Let_def)

lemma adds_pushes_take:
  "adds_pushes f \<Longrightarrow> \<exists>new. take (length log + n) (snd (f log)) = log @ new \<and> (\<forall>q \<in> set new. is_push q)"
proof -
  assume "adds_pushes f"
  then obtain new where new: "snd (f log) = log @ new" "\<forall>q \<in> set new. is_push q" by (auto simp: adds_pushes_def)
  then have "\<forall>q \<in> set (take n new). is_push q" by (meson in_set_takeD)
  then show ?thesis using new(1) by (intro exI[of _ "take n new"]) simp
qed

lemma push_recipients_adds:
  "\<exists>new. push_recipients deps ctx inserted command log = log @ new \<and> (\<forall>q \<in> set new. is_push q)"
proof -
  have d: "\<exists>new. snd (dispatch_cmd (td_dispatcher deps) ctx command body locs log) = log @ new \<and> (\<forall>q \<in> set new. is_push q)" for body locs
    using dispatch_cmd_adds by (auto simp: adds_pushes_def)
  show ?thesis
    unfolding push_recipients_def Let_def
    using d adds_pushes_take[OF dispatch_cmd_adds] by (auto split: option.split)
qed

lemma persist_then_push_answers: "answers ctx (\<lambda>s. persist_then_push (f s) inserted command ctx s)"
proof (rule sendsI)
  fix s log
  let ?a = "ack_response (f s) ctx (res_message_id inserted) (res_send_time inserted)"
  obtain r log1 where q: "resp (td_dispatcher (f s)) ctx Success (Some (td_enc_resp (f s)
      \<lparr>mrs_message_id = res_message_id inserted, mrs_send_time = res_send_time inserted\<rparr>)) log = (r, log1)" by fastforce
  then have l: "log1 = log @ [?a]"
    using resp_simps(3)[of "f s" ctx "res_message_id inserted" "res_send_time inserted" log] by simp
  obtain new where new: "push_recipients (f s) ctx inserted command log1 = log1 @ new" "\<forall>q \<in> set new. is_push q"
    using push_recipients_adds by blast
  show "\<exists>new. snd (snd (persist_then_push (f s) inserted command ctx s log)) = log @ new
      \<and> length (filter (is_reply ctx) new) \<in> {Suc 0} \<and> (\<forall>q \<in> set new. is_push q \<or> is_reply ctx q)"
  proof (cases r)
    case (Inl e)
    then show ?thesis using q l ack_is_reply by (intro exI[of _ "[?a]"]) (simp add: persist_then_push_def)
  next
    case (Inr u)
    then show ?thesis
      using q l ack_is_reply new by (intro exI[of _ "?a # new"]) (auto simp: persist_then_push_def no_replies)
  qed
qed

lemma talk_fail_answers: "answers ctx (\<lambda>s. talk_fail (f s) status ctx s)"
proof (rule sendsI)
  fix s log
  obtain r s' log' where e: "talk_fail (f s) status ctx s log = (r, s', log')" by (metis prod_cases3)
  show "\<exists>new. snd (snd (talk_fail (f s) status ctx s log)) = log @ new
      \<and> length (filter (is_reply ctx) new) \<in> {Suc 0} \<and> (\<forall>q \<in> set new. is_push q \<or> is_reply ctx q)"
    using talk_fail_eq[OF e] e error_is_reply by (intro exI[of _ "[error_response ctx status]"]) simp
qed

lemma talk_insert_answers: "answers ctx (\<lambda>s. talk_insert deps kind req members targets ctx s)"
proof (rule sendsI)
  fix s log
  define ins where "ins = td_insert deps (sess_app ctx) kind
     \<lparr>im_sender = sess_account ctx, im_dest = req_dest ctx, im_send_time = td_unix_nano deps,
      im_msg_type = mr_type req, im_body = mr_body req, im_extra = mr_extra req,
      im_client_id = mr_client_id req, im_online_targets = targets\<rparr> members s"
  obtain r s1 where i: "ins = (r, s1)" by fastforce
  define conflict where "conflict = resp (td_dispatcher deps) ctx IdempotencyConflict None log"
  have c: "snd conflict = log @ [error_response ctx IdempotencyConflict]"
    using resp_simps(2)[of "td_dispatcher deps" ctx IdempotencyConflict log] by (simp add: conflict_def)
  have e: "talk_insert deps kind req members targets ctx s log =
      (case r of Inl _ \<Rightarrow> talk_fail deps SystemException ctx s1 log
       | Inr inserted \<Rightarrow>
           if res_duplicate inserted \<and> \<not> fanout_matches_req kind (req_dest ctx) req (res_fanout inserted)
           then (fst conflict, s1, snd conflict)
           else persist_then_push deps inserted (h_command (cx_header ctx)) ctx s1 log)"
    using i by (simp add: talk_insert_def Let_def ins_def conflict_def split_beta split: sum.split)
  show "\<exists>new. snd (snd (talk_insert deps kind req members targets ctx s log)) = log @ new
      \<and> length (filter (is_reply ctx) new) \<in> {Suc 0} \<and> (\<forall>q \<in> set new. is_push q \<or> is_reply ctx q)"
    using talk_fail_answers[of ctx "\<lambda>_. deps" SystemException] persist_then_push_answers[of ctx "\<lambda>_. deps"]
      error_is_reply[of ctx IdempotencyConflict] c
    unfolding e sends_def by (cases r) (auto intro!: exI[of _ "[error_response ctx IdempotencyConflict]"])
qed

lemma talk_answers [sends_rules]:
  "answers ctx (user_talk svc ctx)"
  "answers ctx (group_talk svc ctx)"
proof -
  have "answers ctx (\<lambda>s. do_user_talk (f s) ctx s)" for f :: "'a \<Rightarrow> 'a talk_deps"
    unfolding sends_def
  proof (intro allI)
    fix s log
    obtain r s' log' where e: "do_user_talk (f s) ctx s log = (r, s', log')" by (metis prod_cases3)
    from e show "\<exists>new. snd (snd (do_user_talk (f s) ctx s log)) = log @ new
      \<and> length (filter (is_reply ctx) new) \<in> {Suc 0} \<and> (\<forall>q \<in> set new. is_push q \<or> is_reply ctx q)"
      using talk_fail_answers[of ctx f, unfolded sends_def] talk_insert_answers[of ctx "f s", unfolded sends_def]
      by (cases rule: do_user_talk_cases) (metis e)+
  qed
  then show "answers ctx (user_talk svc ctx)" by (simp add: user_talk_def[abs_def])
next
  have "answers ctx (\<lambda>s. do_group_talk (f s) ctx s)" for f :: "'a \<Rightarrow> 'a talk_deps"
    unfolding sends_def
  proof (intro allI)
    fix s log
    obtain r s' log' where e: "do_group_talk (f s) ctx s log = (r, s', log')" by (metis prod_cases3)
    from e show "\<exists>new. snd (snd (do_group_talk (f s) ctx s log)) = log @ new
      \<and> length (filter (is_reply ctx) new) \<in> {Suc 0} \<and> (\<forall>q \<in> set new. is_push q \<or> is_reply ctx q)"
      using talk_fail_answers[of ctx f, unfolded sends_def] talk_insert_answers[of ctx "f s", unfolded sends_def]
      by (cases rule: do_group_talk_cases) (metis e)+
  qed
  then show "answers ctx (group_talk svc ctx)" by (simp add: group_talk_def[abs_def])
qed

lemma sends_own_bot [sends_rules]: "1 \<in> N \<Longrightarrow> sends N ctx k \<Longrightarrow> sends N ctx (own_bot svc ctx account k)"
  unfolding own_bot_def by (intro sends_rules)

lemma sends_bot_parts [sends_rules]:
  "1 \<in> N \<Longrightarrow> sends N ctx (bot_answer svc ctx r)"
  "1 \<in> N \<Longrightarrow> sends N ctx k \<Longrightarrow> sends N ctx (owner_or_deny svc ctx k)"
  "1 \<in> N \<Longrightarrow> sends N ctx (upsert_record svc ctx pb)"
  unfolding bot_answer_def owner_or_deny_def upsert_record_def by (intro sends_rules; assumption)+

lemma bot_handlers_answer [sends_rules]:
  "answers ctx (do_bot_create svc ctx)"
  "answers ctx (do_bot_delete svc ctx)"
  "answers ctx (do_bot_update svc ctx)"
  "answers ctx (do_bot_reply svc ctx)"
  "answers ctx (do_bot_pending svc ctx)"
  "answers ctx (do_bot_typing svc ctx)"
  "answers ctx (do_agent_spec_sync svc ctx)"
  "answers ctx (do_agent_spec_upsert svc ctx)"
  unfolding do_bot_create_def do_bot_delete_def do_bot_update_def do_bot_reply_def do_bot_pending_def do_bot_typing_def
    do_agent_spec_sync_def do_agent_spec_upsert_def Let_def
  by (intro sends_rules persist_then_push_answers; simp)+

end
