(* ===== verification/Kim_Chat_Groups.thy ===== *)
theory Kim_Chat_Groups
  imports Kim_Chat_Base
begin

text \<open>
  The group handlers of \<open>services/chat/src/group.rs\<close>. A group is created with existing human accounts,
  grows only by an invitation from a member, and shows itself to members only.
\<close>

section \<open>Helpers\<close>

definition MAX_GROUP_MEMBERS :: nat where "MAX_GROUP_MEMBERS = 500"

definition dest_or_body_group :: "string \<Rightarrow> string \<Rightarrow> string" where
  "dest_or_body_group header_dest body_group = (if header_dest \<noteq> [] then header_dest else body_group)"

definition is_member :: "GroupInfo \<Rightarrow> string \<Rightarrow> bool" where
  "is_member info account = list_ex (\<lambda>m. m = account) (gi_members info)"

fun group_lookup_status :: "GroupError \<Rightarrow> Status" where
  "group_lookup_status GroupNotFound = NotGroupMember"
| "group_lookup_status (GroupId _) = SystemException"
| "group_lookup_status (GroupBackend _) = SystemException"

fun check_humans :: "'s ChatSvc \<Rightarrow> string \<Rightarrow> string list \<Rightarrow> 's \<Rightarrow> (Status, unit) result" where
  "check_humans svc app [] s = Ok ()"
| "check_humans svc app (account # accounts) s =
     (case sv_lookup svc app account s of
        Inr (Some p) \<Rightarrow>
          if up_exists p \<and> up_kind p \<noteq> PROFILE_KIND_BOT then check_humans svc app accounts s else Err UserNotFound
      | Inr None \<Rightarrow> Err UserNotFound
      | Inl _ \<Rightarrow> Err SystemException)"

text \<open>The lookups run under one budget; without lookups nothing waits and the budget cannot pass.\<close>

definition ensure_human_accounts :: "'s ChatSvc \<Rightarrow> Context \<Rightarrow> string list \<Rightarrow> 's prog \<Rightarrow> 's prog" where
  "ensure_human_accounts svc ctx accounts k =
     (if sv_members_late svc \<and> accounts \<noteq> [] then fail svc ctx SystemException
      else ask (check_humans svc (sess_app ctx) accounts) (\<lambda>r. case r of Inl status \<Rightarrow> fail svc ctx status | Inr _ \<Rightarrow> k))"

section \<open>The handlers\<close>

definition do_group_create :: "'s ChatSvc \<Rightarrow> Context \<Rightarrow> 's prog" where
  "do_group_create svc ctx =
     (case cd_group_create (sv_codec svc) (req_body ctx) of
        Inl _ \<Rightarrow> fail svc ctx InvalidPacketBody
      | Inr req \<Rightarrow>
          let owner = sess_account ctx; members = normalize_members owner (gcq_members req) in
          if length members > MAX_GROUP_MEMBERS then fail svc ctx InvalidPacketBody
          else ensure_human_accounts svc ctx (filter (\<lambda>m. m \<noteq> owner) members)
            (call (sv_group_create svc (sess_app ctx) \<lparr>cg_name = gcq_name req, cg_avatar = gcq_avatar req,
                cg_introduction = gcq_introduction req, cg_owner = owner, cg_members = members\<rparr>) (\<lambda>r. case r of
                Inl _ \<Rightarrow> fail svc ctx SystemException
              | Inr group_id \<Rightarrow>
                  ask (sv_get_locations svc members) (\<lambda>r.
                    if (case r of Inl e \<Rightarrow> e \<noteq> NotFound | Inr _ \<Rightarrow> False) then fail svc ctx SystemException
                    else
                      let locs = (case r of Inr v \<Rightarrow> v | Inl _ \<Rightarrow> []) in
                      if locs \<noteq> [] then
                        attempt (dispatch (sv_disp svc) ctx (cd_enc (sv_codec svc) (BGroupNotify group_id members)) locs)
                          (\<lambda>r. case r of
                              Inl _ \<Rightarrow> fail svc ctx SystemException
                            | Inr _ \<Rightarrow> reply svc ctx Success (BGroupCreate group_id))
                      else reply svc ctx Success (BGroupCreate group_id)))))"

text \<open>Requests on an existing group: the group named by the header or the body, for the caller itself.\<close>

definition with_group :: "'s ChatSvc \<Rightarrow> Context \<Rightarrow> string \<Rightarrow> Status \<Rightarrow> (GroupInfo \<Rightarrow> 's prog) \<Rightarrow> 's prog" where
  "with_group svc ctx group_id outsider k =
     ask (sv_group_detail svc (sess_app ctx) group_id) (\<lambda>r. case r of
         Inr info \<Rightarrow> if is_member info (sess_account ctx) then k info else reply_bytes svc ctx outsider []
       | Inl e \<Rightarrow> fail svc ctx (group_lookup_status e))"

definition do_group_join :: "'s ChatSvc \<Rightarrow> Context \<Rightarrow> 's prog" where
  "do_group_join svc ctx =
     (case cd_group_join (sv_codec svc) (req_body ctx) of
        Inl _ \<Rightarrow> fail svc ctx InvalidPacketBody
      | Inr req \<Rightarrow>
          let group_id = dest_or_body_group (req_dest ctx) (gjq_group_id req) in
          if group_id = [] then fail svc ctx NoDestination
          else if gjq_account req \<noteq> [] \<and> gjq_account req \<noteq> sess_account ctx then reply_bytes svc ctx Unauthorized []
          else with_group svc ctx group_id Unauthorized (\<lambda>_. done_ok svc ctx))"

fun invite_loop :: "string list \<Rightarrow> string set \<Rightarrow> string list \<Rightarrow> string list \<Rightarrow> string list" where
  "invite_loop existing seen [] added = added"
| "invite_loop existing seen (raw # raws) added =
     (let account = trim raw in
      if account = [] then invite_loop existing seen raws added
      else if account \<in> seen then invite_loop existing seen raws added
      else if account \<in> set existing then invite_loop existing (insert account seen) raws added
      else invite_loop existing (insert account seen) raws (added @ [account]))"

fun join_all :: "'s ChatSvc \<Rightarrow> Context \<Rightarrow> string \<Rightarrow> string list \<Rightarrow> 's prog \<Rightarrow> 's prog" where
  "join_all svc ctx group_id [] k = k"
| "join_all svc ctx group_id (account # accounts) k =
     call (sv_group_join svc (sess_app ctx) group_id account) (\<lambda>r. case r of
         Inl e \<Rightarrow> fail svc ctx (group_lookup_status e)
       | Inr _ \<Rightarrow> join_all svc ctx group_id accounts k)"

definition do_group_invite :: "'s ChatSvc \<Rightarrow> Context \<Rightarrow> 's prog" where
  "do_group_invite svc ctx =
     (case cd_group_invite (sv_codec svc) (req_body ctx) of
        Inl _ \<Rightarrow> fail svc ctx InvalidPacketBody
      | Inr req \<Rightarrow>
          let group_id = dest_or_body_group (req_dest ctx) (giq_group_id req) in
          if group_id = [] then fail svc ctx NoDestination
          else if giq_accounts req = [] then reply_bytes svc ctx InvalidPacketBody []
          else with_group svc ctx group_id NotGroupMember (\<lambda>info.
            let added = invite_loop (gi_members info) {} (giq_accounts req) [] in
            if length (gi_members info) + length added > MAX_GROUP_MEMBERS then fail svc ctx InvalidPacketBody
            else ensure_human_accounts svc ctx added (join_all svc ctx group_id added
              (if added = [] then done_ok svc ctx
               else ask (sv_group_members svc (sess_app ctx) group_id) (\<lambda>r. case r of
                   Inl e \<Rightarrow> fail svc ctx (group_lookup_status e)
                 | Inr members \<Rightarrow>
                     ask (sv_get_locations svc added) (\<lambda>r.
                       let locs = (case r of Inr v \<Rightarrow> v | Inl _ \<Rightarrow> []) in
                       if locs \<noteq> [] then
                         tell (dispatch (sv_disp svc) ctx (cd_enc (sv_codec svc) (BGroupNotify group_id members)) locs)
                           (done_ok svc ctx)
                       else done_ok svc ctx))))))"

definition do_group_quit :: "'s ChatSvc \<Rightarrow> Context \<Rightarrow> 's prog" where
  "do_group_quit svc ctx =
     (case cd_group_quit (sv_codec svc) (req_body ctx) of
        Inl _ \<Rightarrow> fail svc ctx InvalidPacketBody
      | Inr req \<Rightarrow>
          let group_id = dest_or_body_group (req_dest ctx) (gqq_group_id req) in
          if group_id = [] then fail svc ctx NoDestination
          else if gqq_account req \<noteq> [] \<and> gqq_account req \<noteq> sess_account ctx then reply_bytes svc ctx Unauthorized []
          else with_group svc ctx group_id NotGroupMember (\<lambda>_.
            call (sv_group_quit svc (sess_app ctx) group_id (sess_account ctx)) (\<lambda>r. case r of
                Inr _ \<Rightarrow> done_ok svc ctx
              | Inl e \<Rightarrow> fail svc ctx (group_lookup_status e))))"

definition do_group_detail :: "'s ChatSvc \<Rightarrow> Context \<Rightarrow> 's prog" where
  "do_group_detail svc ctx =
     (if req_dest ctx = [] then fail svc ctx NoDestination
      else with_group svc ctx (req_dest ctx) NotGroupMember (\<lambda>info. reply svc ctx Success (BGroupDetail info)))"

definition do_group_members :: "'s ChatSvc \<Rightarrow> Context \<Rightarrow> 's prog" where
  "do_group_members svc ctx =
     (if req_dest ctx = [] then fail svc ctx NoDestination
      else with_group svc ctx (req_dest ctx) NotGroupMember (\<lambda>info. reply svc ctx Success (BGroupMembers (gi_members info))))"

section \<open>Each request is answered once\<close>

lemma sends_group_parts [sends_rules]:
  "1 \<in> N \<Longrightarrow> sends N ctx k \<Longrightarrow> sends N ctx (ensure_human_accounts svc ctx accounts k)"
  "1 \<in> N \<Longrightarrow> (\<And>info. sends N ctx (f info)) \<Longrightarrow> sends N ctx (with_group svc ctx gid outsider f)"
  unfolding ensure_human_accounts_def with_group_def by (intro sends_rules; assumption)+

lemma sends_join_all [sends_rules]: "1 \<in> N \<Longrightarrow> sends N ctx k \<Longrightarrow> sends N ctx (join_all svc ctx gid accounts k)"
  by (induction accounts) (auto intro!: sends_rules)

lemma group_handlers_answer [sends_rules]:
  "answers ctx (do_group_create svc ctx)"
  "answers ctx (do_group_join svc ctx)"
  "answers ctx (do_group_invite svc ctx)"
  "answers ctx (do_group_quit svc ctx)"
  "answers ctx (do_group_detail svc ctx)"
  "answers ctx (do_group_members svc ctx)"
  unfolding do_group_create_def do_group_join_def do_group_invite_def do_group_quit_def do_group_detail_def
    do_group_members_def Let_def
  by (intro sends_rules; simp)+

section \<open>Who is added\<close>

lemma invite_loop_added:
  "a \<in> set (invite_loop existing seen raws added) \<Longrightarrow> a \<in> set added \<or> (a \<noteq> [] \<and> a \<notin> set existing \<and> a \<in> trim ` set raws)"
proof (induction raws arbitrary: seen added)
  case (Cons raw raws)
  consider "a \<in> set (invite_loop existing seen raws added)" | "a \<in> set (invite_loop existing (insert (trim raw) seen) raws added)"
    | "a \<in> set (invite_loop existing (insert (trim raw) seen) raws (added @ [trim raw]))" "trim raw \<noteq> []" "trim raw \<notin> set existing"
    using Cons.prems by (auto simp: Let_def split: if_splits)
  then show ?case by cases (auto dest!: Cons.IH)
qed simp

lemma invite_loop_distinct:
  "distinct added \<Longrightarrow> set added \<subseteq> seen \<Longrightarrow> distinct (invite_loop existing seen raws added)"
proof (induction existing seen raws added rule: invite_loop.induct)
  case (2 existing seen raw raws added)
  have d: "trim raw \<notin> seen \<Longrightarrow> distinct (added @ [trim raw])" using 2(5,6) by auto
  have i: "set added \<subseteq> insert (trim raw) seen" using 2(6) by blast
  show ?case using 2 d i by (simp add: Let_def)
qed simp

lemma check_humans_ok:
  "check_humans svc app accounts s = Ok () \<Longrightarrow> a \<in> set accounts \<Longrightarrow>
   \<exists>p. sv_lookup svc app a s = Ok (Some p) \<and> up_exists p \<and> up_kind p \<noteq> PROFILE_KIND_BOT"
  by (induction accounts) (auto split: sum.splits option.splits if_splits)

end
