(* ===== verification/Kim_Chat_Presence.thy ===== *)
theory Kim_Chat_Presence
  imports Kim_Chat_Social
begin

text \<open>
  Presence and sessions: the hub of \<open>services/chat/src/presence.rs\<close> and the login and logout handlers
  of \<open>login.rs\<close>. The hub's generation counters and its spawned tasks are part of the state of the
  service; a task runs in steps, one between two awaits, and is rescheduled in its next phase.
\<close>

section \<open>The hub\<close>

datatype presence_task =
    ReconnectPoll string string nat
  | OfflineWait string string "64 word"
  | OfflineCheck string string "64 word"
  | OfflineFanout string string "64 word"
  | OfflineCleanup string string "64 word"

record Hub =
  hb_gens :: "(string, 64 word) hmap"
  hb_tasks :: "presence_task list"

definition gen_key :: "string \<Rightarrow> string \<Rightarrow> string" where
  "gen_key app account = app @ '':'' @ account"

definition gen_of :: "string \<Rightarrow> string \<Rightarrow> 'm Hub_scheme \<Rightarrow> 64 word" where
  "gen_of app account s = (case hget (hb_gens s) (gen_key app account) of None \<Rightarrow> 0 | Some e \<Rightarrow> e)"

definition bump_gen :: "string \<Rightarrow> string \<Rightarrow> 'm Hub_scheme \<Rightarrow> 64 word \<times> 'm Hub_scheme" where
  "bump_gen app account s =
     (let g = gen_of app account s + 1 in (g, s\<lparr>hb_gens := hput (gen_key app account) g (hb_gens s)\<rparr>))"

definition spawn :: "presence_task \<Rightarrow> 'm Hub_scheme \<Rightarrow> unit \<times> 'm Hub_scheme" where
  "spawn t s = ((), s\<lparr>hb_tasks := hb_tasks s @ [t]\<rparr>)"

text \<open>The viewers' channels by account, in the order the table is walked.\<close>

definition group_viewers :: "ViewerRef list \<Rightarrow> (string, string list) hmap" where
  "group_viewers vs =
     foldl (\<lambda>m v. hput (vr_account v) ((case hget m (vr_account v) of None \<Rightarrow> [] | Some cs \<Rightarrow> cs) @ [vr_channel_id v]) m) [] vs"

definition fanout_viewer :: "'s ChatSvc \<Rightarrow> chat_body \<Rightarrow> string \<times> string list \<Rightarrow> 's prog \<Rightarrow> 's prog" where
  "fanout_viewer svc body vc k =
     ask (sv_list_locations svc (fst vc)) (\<lambda>r. case r of
         Inl _ \<Rightarrow> k
       | Inr locs \<Rightarrow>
           let recvs = filter (\<lambda>l. l_channel_id l \<in> set (snd vc)) locs in
           if recvs = [] then k
           else tell (notify_locations (sv_disp svc) [] (Command_as_str Command.Presence) (cd_enc (sv_codec svc) body) recvs) k)"

definition presence_fanout :: "'s ChatSvc \<Rightarrow> string \<Rightarrow> string \<Rightarrow> PresenceStatus \<Rightarrow> int \<Rightarrow> 's prog \<Rightarrow> 's prog" where
  "presence_fanout svc app account status last_seen k =
     ask (sv_viewers svc app account INBOX_KIND_USER) (\<lambda>r. case r of
         Inl _ \<Rightarrow> k
       | Inr vs \<Rightarrow>
           if vs = [] then k
           else foldr (fanout_viewer svc (BPresencePush
               [\<lparr>pr_account = account, pr_status = status, pr_last_seen = last_seen\<rparr>])) (group_viewers vs) k)"

definition on_location_added :: "'m Hub_scheme ChatSvc \<Rightarrow> string \<Rightarrow> string \<Rightarrow> 'm Hub_scheme prog \<Rightarrow> 'm Hub_scheme prog" where
  "on_location_added svc app account k =
     call (bump_gen app account) (\<lambda>_.
     ask (sv_list_locations svc account) (\<lambda>r.
       if (case r of Inl e \<Rightarrow> e \<noteq> NotFound | Inr _ \<Rightarrow> False) then k
       else
         let locs = (case r of Inr v \<Rightarrow> v | Inl _ \<Rightarrow> []) in
         if length locs = 1 then presence_fanout svc app account PresenceOnline 0 k
         else if length locs < 2 then k
         else call (spawn (ReconnectPoll app account 10)) (\<lambda>_. k)))"

definition on_location_removed ::
  "'m Hub_scheme ChatSvc \<Rightarrow> string \<Rightarrow> string \<Rightarrow> string \<Rightarrow> 'm Hub_scheme prog \<Rightarrow> 'm Hub_scheme prog" where
  "on_location_removed svc app account channel_id k =
     call (sv_clear_channel svc app account channel_id) (\<lambda>_.
     ask (sv_list_locations svc account) (\<lambda>r.
       if (case r of Inl e \<Rightarrow> e \<noteq> NotFound | Inr _ \<Rightarrow> False) then k
       else
         let locs = (case r of Inr v \<Rightarrow> v | Inl _ \<Rightarrow> []) in
         call (bump_gen app account) (\<lambda>g.
           if locs \<noteq> [] then k else call (spawn (OfflineWait app account g)) (\<lambda>_. k))))"

text \<open>One step of a task: the reconnect poll after its sleep, and the four segments of the offline task
  (after the debounce, after reading the generation, before the fanout, and the final cleanup).\<close>

definition forget_gen :: "string \<Rightarrow> string \<Rightarrow> 64 word \<Rightarrow> 'm Hub_scheme \<Rightarrow> unit \<times> 'm Hub_scheme" where
  "forget_gen app account g s =
     ((), if hget (hb_gens s) (gen_key app account) = Some g
          then s\<lparr>hb_gens := hdel (gen_key app account) (hb_gens s)\<rparr> else s)"

fun task_run :: "'m Hub_scheme ChatSvc \<Rightarrow> presence_task \<Rightarrow> 'm Hub_scheme prog" where
  "task_run svc (ReconnectPoll app account polls) =
     (if polls = 0 then finish
      else ask (sv_list_locations svc account) (\<lambda>r. case r of
          Inr locs \<Rightarrow>
            if length locs = 1 then presence_fanout svc app account PresenceOnline 0 finish
            else if length locs > 1 then call (spawn (ReconnectPoll app account (polls - 1))) (\<lambda>_. finish)
            else finish
        | Inl _ \<Rightarrow> finish))"
| "task_run svc (OfflineWait app account g) =
     ask (gen_of app account) (\<lambda>now.
       call (spawn (if now = g then OfflineCheck app account g else OfflineCleanup app account g)) (\<lambda>_. finish))"
| "task_run svc (OfflineCheck app account g) =
     ask (sv_list_locations svc account) (\<lambda>r.
       call (spawn (if (case r of Inr locs \<Rightarrow> locs = [] | Inl e \<Rightarrow> e = NotFound)
                    then OfflineFanout app account g else OfflineCleanup app account g)) (\<lambda>_. finish))"
| "task_run svc (OfflineFanout app account g) =
     presence_fanout svc app account PresenceOffline (sv_now_ms svc)
       (call (spawn (OfflineCleanup app account g)) (\<lambda>_. finish))"
| "task_run svc (OfflineCleanup app account g) = call (forget_gen app account g) (\<lambda>_. finish)"

definition task_take :: "nat \<Rightarrow> 'm Hub_scheme \<Rightarrow> presence_task option \<times> 'm Hub_scheme" where
  "task_take i s =
     (if i < length (hb_tasks s)
      then (Some (hb_tasks s ! i), s\<lparr>hb_tasks := take i (hb_tasks s) @ drop (Suc i) (hb_tasks s)\<rparr>) else (None, s))"

definition task_step :: "'m Hub_scheme ChatSvc \<Rightarrow> nat \<Rightarrow> 'm Hub_scheme prog" where
  "task_step svc i = call (task_take i) (\<lambda>t. case t of None \<Rightarrow> finish | Some t \<Rightarrow> task_run svc t)"

section \<open>Login and logout\<close>

definition kickout :: "'s ChatSvc \<Rightarrow> Context \<Rightarrow> Location list \<Rightarrow> 's prog \<Rightarrow> 's prog" where
  "kickout svc ctx victims k =
     foldr (\<lambda>old. tell (dispatch (sv_disp svc) ctx (cd_enc (sv_codec svc) (BKickout (l_channel_id old))) [old])) victims k"

text \<open>The end of a login once the session is stored: the backfill of undelivered messages, undoing the
  session when it fails, then the presence and the answer.\<close>

definition login_finish :: "'m Hub_scheme ChatSvc \<Rightarrow> Context \<Rightarrow> Session \<Rightarrow> 'm Hub_scheme prog" where
  "login_finish svc ctx body =
     (let undo = call (sv_sess_delete svc (s_account body) (s_channel_id body)) (\<lambda>_. reply_bytes svc ctx SystemException []);
          online = on_location_added svc (s_app body) (s_account body) (reply svc ctx Success (BLogin (s_channel_id body)));
          jti = trim (s_jti body)
      in if sv_pending_receipt svc then
           (if jti = [] then undo
            else call (sv_backfill svc (s_app body) (s_account body) jti)
              (\<lambda>r. case r of Inl _ \<Rightarrow> undo | Inr _ \<Rightarrow> online))
         else online)"

definition do_sys_login :: "'m Hub_scheme ChatSvc \<Rightarrow> Context \<Rightarrow> 'm Hub_scheme prog" where
  "do_sys_login svc ctx =
     (case cd_session (sv_codec svc) (req_body ctx) of
        Inl _ \<Rightarrow> reply_bytes svc ctx InvalidPacketBody []
      | Inr body0 \<Rightarrow>
          if s_account body0 = [] then reply_bytes svc ctx InvalidPacketBody []
          else
            let body = (if sv_zone svc \<noteq> [] then body0\<lparr>s_zone := sv_zone svc\<rparr> else body0) in
            ask (sv_lookup svc (s_app body) (s_account body)) (\<lambda>r.
              if (case r of Inl _ \<Rightarrow> True | Inr _ \<Rightarrow> False) then reply_bytes svc ctx SystemException []
              else if (case r of Inr (Some p) \<Rightarrow> up_kind p = PROFILE_KIND_BOT | _ \<Rightarrow> False)
                then reply_bytes svc ctx Unauthorized []
              else call (sv_upsert svc (s_app body) (s_account body)) (\<lambda>r. case r of
                  Inl _ \<Rightarrow> reply_bytes svc ctx SystemException []
                | Inr _ \<Rightarrow>
                    ask (sv_list_locations svc (s_account body)) (\<lambda>r.
                      if (case r of Inl e \<Rightarrow> e \<noteq> NotFound | Inr _ \<Rightarrow> False) then reply_bytes svc ctx SystemException []
                      else
                        let existing = (case r of Inr v \<Rightarrow> v | Inl _ \<Rightarrow> []);
                            victims = (if exclusive_device (s_device body)
                              then filter (\<lambda>l. l_channel_id l \<noteq> s_channel_id body \<and> exclusive_device (l_device l)) existing
                              else [])
                        in kickout svc ctx victims
                             (call (sv_sess_add svc body) (\<lambda>r. case r of
                                 Inl _ \<Rightarrow> reply_bytes svc ctx SystemException []
                               | Inr _ \<Rightarrow> login_finish svc ctx body))))))"

definition do_sys_logout :: "'m Hub_scheme ChatSvc \<Rightarrow> Context \<Rightarrow> 'm Hub_scheme prog" where
  "do_sys_logout svc ctx =
     call (sv_sess_delete svc (sess_account ctx) (sess_channel ctx)) (\<lambda>r. case r of
         Inr _ \<Rightarrow> on_location_removed svc (sess_app ctx) (sess_account ctx) (sess_channel ctx) (done_ok svc ctx)
       | Inl _ \<Rightarrow> reply_bytes svc ctx SystemException [])"

section \<open>What they send\<close>

lemma sends_foldr:
  "(\<And>x k. sends N ctx k \<Longrightarrow> sends N ctx (f x k)) \<Longrightarrow> sends N ctx k \<Longrightarrow> sends N ctx (foldr f xs k)"
  by (induction xs) auto

lemma sends_fanout [sends_rules]: "sends N ctx k \<Longrightarrow> sends N ctx (presence_fanout svc app account status t k)"
  unfolding presence_fanout_def fanout_viewer_def Let_def by (intro sends_rules sends_foldr)

lemma sends_location_hooks [sends_rules]:
  "sends N ctx k \<Longrightarrow> sends N ctx (on_location_added svc app account k)"
  "sends N ctx k \<Longrightarrow> sends N ctx (on_location_removed svc app account channel k)"
  unfolding on_location_added_def on_location_removed_def Let_def by (intro sends_rules; assumption)+

lemma sends_kickout [sends_rules]: "sends N ctx k \<Longrightarrow> sends N ctx (kickout svc ctx victims k)"
  unfolding kickout_def by (intro sends_rules sends_foldr)

lemma session_handlers_answer [sends_rules]:
  "answers ctx (do_sys_login svc ctx)"
  "answers ctx (do_sys_logout svc ctx)"
  unfolding do_sys_login_def do_sys_logout_def login_finish_def Let_def by (intro sends_rules; simp)+

lemma task_pushes: "pushes ctx (task_step svc i)"
proof -
  have "pushes ctx (task_run svc t)" for t
    by (cases t; simp only: task_run.simps; intro sends_rules; simp)
  then show ?thesis unfolding task_step_def by (intro sends_rules) simp_all
qed

end
