(* ===== verification/Kim_Chat_Service.thy ===== *)
theory Kim_Chat_Service
  imports Kim_Chat_Bots Kim_Chat_Groups Kim_Chat_Presence
begin

text \<open>
  The chat service itself, \<open>services/chat/src/lib.rs\<close>: the dispatcher over the container, the table of
  command handlers, and the treatment of a packet that arrives from a gateway.
\<close>

section \<open>The dispatcher\<close>

fun join_commas :: "string list \<Rightarrow> string" where
  "join_commas [] = []"
| "join_commas [x] = x"
| "join_commas (x # y # xs) = x @ '','' @ join_commas (y # xs)"

text \<open>The container's own push, by gateway and packet, is an argument.\<close>

definition ContainerDispatcher :: "(string \<Rightarrow> LogicPkt \<Rightarrow> (string, unit) result) \<Rightarrow> dispatcher" where
  "ContainerDispatcher container log p =
     (let pkt = set_meta META_DEST_SERVER (pu_gateway p) (pu_pkt p);
          pkt = set_meta META_DEST_CHANNELS (join_commas (pu_channels p)) pkt
      in case container (pu_gateway p) pkt of Inl e \<Rightarrow> Err (RouterDispatcher e) | Inr _ \<Rightarrow> Ok ())"

section \<open>The handlers\<close>

definition handler_list :: "'m Hub_scheme ChatSvc \<Rightarrow> (Command \<times> (Context \<Rightarrow> 'm Hub_scheme prog)) list" where
  "handler_list svc =
     [(LoginSignIn, do_sys_login svc), (LoginSignOut, do_sys_logout svc), (DemoEcho, do_echo svc),
      (UserTalk, user_talk svc), (GroupTalk, group_talk svc),
      (GroupCreate, do_group_create svc), (GroupJoin, do_group_join svc), (GroupInvite, do_group_invite svc),
      (GroupQuit, do_group_quit svc), (Command.GroupDetail, do_group_detail svc), (GroupMembers, do_group_members svc),
      (TalkAck, do_talk_ack svc), (OfflineIndex, do_offline_index svc), (OfflineContent, do_offline_content svc),
      (Command.UserProfile, do_user_profile svc), (UserUpdate, do_user_update svc), (UserSearch, do_user_search svc),
      (RoomEnter, do_room_enter svc), (RoomLeave, do_room_leave svc), (Typing, do_typing svc),
      (FriendRequest, do_friend_request svc), (FriendAccept, do_friend_accept svc), (FriendReject, do_friend_reject svc),
      (FriendRemove, do_friend_remove svc), (FriendList, do_friend_list svc), (FriendIncoming, do_friend_incoming svc),
      (BlockAdd, do_block_add svc), (BlockRemove, do_block_remove svc), (BlockList, do_block_list svc),
      (InboxList, do_inbox_list svc), (InboxRead, do_inbox_read svc), (InboxStates, do_inbox_states svc),
      (History, do_history svc),
      (BotCreate, do_bot_create svc), (BotDelete, do_bot_delete svc), (BotUpdate, do_bot_update svc),
      (BotReply, do_bot_reply svc), (BotPending, do_bot_pending svc), (BotTyping, do_bot_typing svc),
      (AgentSpecSync, do_agent_spec_sync svc), (AgentSpecUpsert, do_agent_spec_upsert svc)]"

definition chat_router :: "'m Hub_scheme ChatSvc \<Rightarrow> (Command, 'm Hub_scheme handler) hmap" where
  "chat_router svc = foldl (\<lambda>handlers (command, f). router_handle command f handlers) [] (handler_list svc)"

section \<open>Receiving a packet\<close>

text \<open>\<open>resp_err\<close> sends the request back to its gateway as a response, without a session.\<close>

definition bare_gateway :: "LogicPkt \<Rightarrow> string" where
  "bare_gateway pkt = (case get_meta pkt META_DEST_SERVER of None \<Rightarrow> [] | Some gw \<Rightarrow> gw)"

definition resp_err :: "'s ChatSvc \<Rightarrow> LogicPkt \<Rightarrow> Status \<Rightarrow> 's prog" where
  "resp_err svc pkt status s log =
     (let gw = bare_gateway pkt;
          ch = h_channel_id (lp_header pkt);
          pkt1 = pkt\<lparr>lp_header := (lp_header pkt)\<lparr>h_flag := Response, h_status := status\<rparr>\<rparr>;
          pkt2 = set_meta META_DEST_CHANNELS ch (set_meta META_DEST_SERVER gw pkt1);
          (_, log') = dispatcher_push (sv_disp svc) \<lparr>pu_gateway = gw, pu_channels = [ch], pu_pkt = pkt2\<rparr> log
      in (Ok (), s, log'))"

definition login_session :: "LogicPkt \<Rightarrow> Session" where
  "login_session pkt =
     \<lparr>s_channel_id = h_channel_id (lp_header pkt), s_gate_id = bare_gateway pkt, s_account = [], s_zone = [], s_isp = [],
      s_remote_ip = [], s_device = [], s_app = [], s_tags = [''AutoGenerated''], s_jti = [], s_device_id = []\<rparr>"

text \<open>The router's error is only logged.\<close>

definition serve_packet :: "'m Hub_scheme ChatSvc \<Rightarrow> LogicPkt \<Rightarrow> Session \<Rightarrow> 'm Hub_scheme prog" where
  "serve_packet svc pkt session s log =
     (let (_, s', log') = serve (sv_disp svc) (chat_router svc) pkt session s log in (Ok (), s', log'))"

definition receive_packet :: "'m Hub_scheme ChatSvc \<Rightarrow> LogicPkt \<Rightarrow> 'm Hub_scheme prog" where
  "receive_packet svc pkt =
     (if Command_parse (h_command (lp_header pkt)) = Some LoginSignIn then serve_packet svc pkt (login_session pkt)
      else ask (sv_sess_get svc (h_channel_id (lp_header pkt))) (\<lambda>r. case r of
          Inl e \<Rightarrow> resp_err svc pkt (if e = NotFound then SessionNotFound else SystemException)
        | Inr session \<Rightarrow>
            if s_app session \<noteq> ALLOWED_APP then resp_err svc pkt Unauthorized
            else serve_packet svc pkt session))"

definition receive ::
  "(byte list \<Rightarrow> (string, Header) result) \<Rightarrow> 'm Hub_scheme ChatSvc \<Rightarrow> byte list \<Rightarrow> 'm Hub_scheme prog" where
  "receive dec_header svc raw =
     (case read_logic dec_header raw of
        Inl _ \<Rightarrow> finish
      | Inr pkt \<Rightarrow> receive_packet svc pkt)"

section \<open>Every request is answered once\<close>

lemma chat_router_handler: "hget (chat_router svc) c = Some h \<Longrightarrow> (c, h) \<in> set (handler_list svc)"
proof -
  have "hget (foldl (\<lambda>handlers (command, f). router_handle command f handlers) m xs) c = Some h \<Longrightarrow>
      (c, h) \<in> set xs \<or> hget m c = Some h" for m xs and h :: "'b handler"
  proof (induction xs arbitrary: m)
    case (Cons x xs)
    have "(c, h) \<in> set xs \<or> hget (router_handle (fst x) (snd x) m) c = Some h"
      by (rule Cons.IH) (use Cons.prems in \<open>simp add: split_beta\<close>)
    then show ?case by (cases x) (auto simp: router_handle_def split: if_splits)
  qed simp
  then show "hget (chat_router svc) c = Some h \<Longrightarrow> (c, h) \<in> set (handler_list svc)"
    unfolding chat_router_def by fastforce
qed

lemma handlers_answer:
  assumes "(c, h) \<in> set (handler_list svc)" "c \<noteq> Typing"
  shows "answers ctx (h ctx)"
  using assms unfolding handler_list_def by (auto intro: sends_rules)

text \<open>Where the answer to a packet goes: to the stored session's gateway and connection, or, for a login and
  when there is no usable session, to the gateway and channel named by the packet.\<close>

definition requester :: "'s ChatSvc \<Rightarrow> LogicPkt \<Rightarrow> 's \<Rightarrow> string \<times> string" where
  "requester svc pkt s =
     (let bare = (bare_gateway pkt, h_channel_id (lp_header pkt)) in
      if Command_parse (h_command (lp_header pkt)) = Some LoginSignIn then bare
      else case sv_sess_get svc (h_channel_id (lp_header pkt)) s of
          Inl _ \<Rightarrow> bare
        | Inr session \<Rightarrow> if s_app session \<noteq> ALLOWED_APP then bare else (s_gate_id session, s_channel_id session))"

definition answer_to :: "string \<times> string \<Rightarrow> LogicPkt \<Rightarrow> push \<Rightarrow> bool" where
  "answer_to who pkt p \<longleftrightarrow> (pu_gateway p, pu_channels p) = (fst who, [snd who])
     \<and> h_flag (lp_header (pu_pkt p)) = Response \<and> h_command (lp_header (pu_pkt p)) = h_command (lp_header pkt)
     \<and> h_sequence (lp_header (pu_pkt p)) = h_sequence (lp_header pkt)"

lemma answer_to_reply:
  "is_reply \<lparr>cx_request = pkt, cx_session = session\<rparr> = answer_to (s_gate_id session, s_channel_id session) pkt"
  by (intro ext) (simp add: is_reply_def answer_to_def)

text \<open>A typing request names a well-formed account.\<close>

definition typing_named :: "'s ChatSvc \<Rightarrow> LogicPkt \<Rightarrow> bool" where
  "typing_named svc pkt \<longleftrightarrow> Command_parse (h_command (lp_header pkt)) = Some Typing \<longrightarrow>
     (case cd_typing (sv_codec svc) (lp_body pkt) of Inl _ \<Rightarrow> True | Inr req \<Rightarrow> account_name (trim (tyq_dest req)))"

lemma serve_packet_answers:
  assumes "typing_named svc pkt"
  shows "\<exists>new. snd (snd (serve_packet svc pkt session s log)) = log @ new
     \<and> length (filter (answer_to (s_gate_id session, s_channel_id session) pkt) new) = 1
     \<and> (\<forall>q \<in> set new. is_push q \<or> answer_to (s_gate_id session, s_channel_id session) pkt q)"
proof -
  define ctx where "ctx = \<lparr>cx_request = pkt, cx_session = session\<rparr>"
  define run where "run = (\<lambda>s log. serve (sv_disp svc) (chat_router svc) pkt session s log)"
  have "answers ctx run"
  proof (cases "case Command_parse (h_command (lp_header pkt)) of None \<Rightarrow> None | Some c \<Rightarrow> hget (chat_router svc) c")
    case None
    then have "run = reply_bytes svc ctx CommandNotFound []"
      by (intro ext) (simp add: run_def serve_def Let_def ctx_def reply_bytes_def)
    then show ?thesis by (simp add: sends_rules)
  next
    case (Some h)
    then obtain c where c: "Command_parse (h_command (lp_header pkt)) = Some c" "hget (chat_router svc) c = Some h"
      by (auto split: option.splits)
    have r: "run = h ctx" using c by (intro ext) (simp add: run_def serve_def Let_def ctx_def)
    note m = chat_router_handler[OF c(2)]
    show ?thesis
    proof (cases "c = Typing")
      case True
      then have "h = do_typing svc" using m by (auto simp: handler_list_def)
      moreover have "account_name (trim (tyq_dest req))" if "cd_typing (sv_codec svc) (req_body ctx) = Ok req" for req
        using assms that c(1) True by (simp add: typing_named_def ctx_def)
      ultimately show ?thesis unfolding r by (simp add: typing_answers)
    next
      case False
      then show ?thesis unfolding r by (rule handlers_answer[OF m])
    qed
  qed
  moreover have "snd (snd (serve_packet svc pkt session s log)) = snd (snd (run s log))"
    by (simp add: serve_packet_def run_def split_beta Let_def)
  ultimately show ?thesis unfolding sends_def ctx_def answer_to_reply by simp
qed

lemma resp_err_answers:
  "\<exists>p. snd (snd (resp_err svc pkt status s log)) = log @ [p]
     \<and> answer_to (bare_gateway pkt, h_channel_id (lp_header pkt)) pkt p \<and> h_status (lp_header (pu_pkt p)) = status"
  by (simp add: resp_err_def Let_def dispatcher_push_def answer_to_def set_meta_def)

end
