(* ===== verification/Kim_Chat_Contract.thy ===== *)
theory Kim_Chat_Contract
  imports Kim_Chat_Service
begin

text \<open>
  What the handlers rely on. A backend promises that its writes keep a good state, given what the
  handlers have checked before calling them: who is a human account, who owns a connection, how large a
  group is. Against this contract every handler, every presence task and the treatment of every
  received packet keeps a good state.
\<close>

section \<open>The contract\<close>

definition not_bot_account :: "'s ChatSvc \<Rightarrow> string \<Rightarrow> string \<Rightarrow> 's \<Rightarrow> bool" where
  "not_bot_account svc app a s \<longleftrightarrow>
     (\<exists>o'. sv_lookup svc app a s = Ok o' \<and> (\<forall>p. o' = Some p \<longrightarrow> up_kind p \<noteq> PROFILE_KIND_BOT))"

locale chat_backend =
  fixes svc :: "'m Hub_scheme ChatSvc"
    and good :: "'m Hub_scheme \<Rightarrow> bool"
    and human :: "string \<Rightarrow> string \<Rightarrow> 'm Hub_scheme \<Rightarrow> bool"
    and owned :: "Session \<Rightarrow> 'm Hub_scheme \<Rightarrow> bool"
    and gsize :: "string \<Rightarrow> string \<Rightarrow> 'm Hub_scheme \<Rightarrow> nat"
  assumes hub: "good s \<Longrightarrow> good (s\<lparr>hb_gens := gs\<rparr>)" "good s \<Longrightarrow> good (s\<lparr>hb_tasks := ts\<rparr>)"
    and lookup_human: "good s \<Longrightarrow> sv_lookup svc app a s = Ok (Some p) \<Longrightarrow> up_exists p \<Longrightarrow> up_kind p \<noteq> PROFILE_KIND_BOT \<Longrightarrow> human app a s"
    and exists_human: "good s \<Longrightarrow> sv_exists svc app a s = Ok True \<Longrightarrow> not_bot_account svc app a s \<Longrightarrow> human app a s"
    and session_human: "good s \<Longrightarrow> sv_sess_get svc ch s = Ok se \<Longrightarrow> human (s_app se) (s_account se) s \<and> owned se s"
    and upsert: "good s \<Longrightarrow> not_bot_account svc app a s \<Longrightarrow> good (snd (sv_upsert svc app a s))"
      "good s \<Longrightarrow> not_bot_account svc app a s \<Longrightarrow> fst (sv_upsert svc app a s) = Ok () \<Longrightarrow> human app a (snd (sv_upsert svc app a s))"
      "good s \<Longrightarrow> owned se s \<Longrightarrow> owned se (snd (sv_upsert svc app a s))"
    and sess_add: "good s \<Longrightarrow> owned se s \<Longrightarrow> human (s_app se) (s_account se) s \<Longrightarrow> good (snd (sv_sess_add svc se s))"
      "good s \<Longrightarrow> owned se s \<Longrightarrow> owned se (snd (sv_sess_add svc se s))"
    and sess_delete: "good s \<Longrightarrow> owned se s \<Longrightarrow> good (snd (sv_sess_delete svc (s_account se) (s_channel_id se) s))"
    and backfill: "good s \<Longrightarrow> good (snd (sv_backfill svc app a t s))"
      "good s \<Longrightarrow> owned se s \<Longrightarrow> owned se (snd (sv_backfill svc app a t s))"
    and rooms: "good s \<Longrightarrow> good (snd (sv_room_enter svc app a c d n s))"
      "good s \<Longrightarrow> good (snd (sv_room_leave svc app a c d n s))"
      "good s \<Longrightarrow> good (snd (sv_clear_channel svc app a c s))"
    and specs: "good s \<Longrightarrow> good (snd (sv_spec_upsert svc app a rec s))"
      "good s \<Longrightarrow> good (snd (sv_account_upsert svc app a acc s))"
    and insert: "good s \<Longrightarrow> (kind = GroupMsg \<longrightarrow> im_dest im \<noteq> []) \<Longrightarrow> good (snd (sv_insert svc app kind im ms s))"
    and store: "good s \<Longrightarrow> good (snd (sv_insert_bot_reply svc app a b irt im s))"
      "good s \<Longrightarrow> good (snd (sv_store_ack svc app a t ids s))"
      "good s \<Longrightarrow> good (snd (sv_offline_index svc app a t mid resume s))"
      "good s \<Longrightarrow> good (snd (sv_mark_read svc app a d kind mid s))"
      "good s \<Longrightarrow> good (snd (sv_purge svc app a b s))"
    and profile: "good s \<Longrightarrow> good (snd (sv_update_profile svc app a patch s))"
      "good s \<Longrightarrow> good (snd (sv_update_bot svc app a b bpatch s))"
    and create_bot: "good s \<Longrightarrow> human app (cb_owner req) s \<Longrightarrow> good (snd (sv_create_bot svc app req s))"
    and delete_bot: "good s \<Longrightarrow> good (snd (sv_delete_bot svc app a b s))"
    and request: "good s \<Longrightarrow> human app a s \<Longrightarrow> human app b s \<Longrightarrow> good (snd (sv_request svc app a b s))"
    and accept: "good s \<Longrightarrow> good (snd (sv_accept svc app a b s))"
      "good s \<Longrightarrow> good (snd (sv_reject svc app a b s))"
      "good s \<Longrightarrow> good (snd (sv_unblock svc app a b s))"
    and remove: "good s \<Longrightarrow> human app a s \<Longrightarrow> not_bot_account svc app b s \<Longrightarrow> good (snd (sv_remove svc app a b s))"
    and block: "good s \<Longrightarrow> human app a s \<Longrightarrow> human app b s \<Longrightarrow> good (snd (sv_block svc app a b s))"
    and group_create: "good s \<Longrightarrow> length (normalize_members (cg_owner greq) (cg_members greq)) \<le> MAX_GROUP_MEMBERS \<Longrightarrow>
      (\<forall>m \<in> set (normalize_members (cg_owner greq) (cg_members greq)). human app m s) \<Longrightarrow> good (snd (sv_group_create svc app greq s))"
    and group_detail: "good s \<Longrightarrow> sv_group_detail svc app g s = Ok info \<Longrightarrow> gsize app g s = length (gi_members info)"
    and group_join: "good s \<Longrightarrow> human app a s \<Longrightarrow> gsize app g s < MAX_GROUP_MEMBERS \<Longrightarrow> good (snd (sv_group_join svc app g a s))"
      "good s \<Longrightarrow> gsize app g (snd (sv_group_join svc app g a s)) \<le> Suc (gsize app g s)"
      "good s \<Longrightarrow> human app b s \<Longrightarrow> human app b (snd (sv_group_join svc app g a s))"
    and group_quit: "good s \<Longrightarrow> good (snd (sv_group_quit svc app g a s))"

section \<open>Rules for the shared parts\<close>

lemma post_not_bot [post_rules]:
  "Q s \<Longrightarrow> (not_bot_account svc (sess_app ctx) peer s \<Longrightarrow> post k Q s) \<Longrightarrow> post (not_bot svc ctx peer k) Q s"
  unfolding not_bot_def reject_bot_social_def
  by (intro post_rules) (auto simp: not_bot_account_def split: sum.splits option.splits if_splits)

lemma post_checks [post_rules]:
  "Q s \<Longrightarrow> (sv_exists svc (sess_app ctx) peer s = Ok True \<Longrightarrow> post k Q s) \<Longrightarrow> post (require_user svc ctx peer k) Q s"
  "Q s \<Longrightarrow> post k Q s \<Longrightarrow> post (unblocked svc ctx peer k) Q s"
  "Q s \<Longrightarrow> post k Q s \<Longrightarrow> post (befriended svc ctx peer k) Q s"
  "Q s \<Longrightarrow> (\<And>peer. post (f peer) Q s) \<Longrightarrow> post (with_peer svc ctx f) Q s"
  "Q s \<Longrightarrow> post (social_answer svc ctx r) Q s"
  "Q s \<Longrightarrow> post (list_answer svc ctx accs) Q s"
  "post k Q s \<Longrightarrow> post (notify_peer svc ctx peer nick k) Q s"
  "Q s \<Longrightarrow> post k Q s \<Longrightarrow> post (own_bot svc ctx account k) Q s"
  "Q s \<Longrightarrow> post (bot_answer svc ctx r1) Q s"
  "Q s \<Longrightarrow> post k Q s \<Longrightarrow> post (owner_or_deny svc ctx k) Q s"
  unfolding require_user_def unblocked_def befriended_def with_peer_def social_answer_def list_answer_def notify_peer_def
    own_bot_def bot_answer_def owner_or_deny_def
  by (intro post_rules; auto)+

lemma post_foldr: "(\<And>x k. post k Q s \<Longrightarrow> post (f x k) Q s) \<Longrightarrow> post k Q s \<Longrightarrow> post (foldr f xs k) Q s"
  by (induction xs) auto

lemma post_outcome [post_rules]:
  "post a Q s \<Longrightarrow> post b Q s \<Longrightarrow> post c Q s \<Longrightarrow> post (case out of Sent \<Rightarrow> a | AutoAccepted \<Rightarrow> b | AlreadyFriends \<Rightarrow> c) Q s"
  by (cases out) auto

lemma post_pushing [post_rules]:
  "Q s \<Longrightarrow> post (push_profile_updated svc ctx body) Q s"
  "Q s \<Longrightarrow> post (fanout_typing_to_account svc ctx account tbody) Q s"
  "Q s \<Longrightarrow> post (fanout_typing_to_peer svc ctx account tbody) Q s"
  "post k Q s \<Longrightarrow> post (presence_fanout svc app account status t k) Q s"
  "post k Q s \<Longrightarrow> post (kickout svc ctx victims k) Q s"
  unfolding push_profile_updated_def fanout_typing_to_account_def fanout_typing_to_peer_def presence_fanout_def
    fanout_viewer_def kickout_def Let_def
  by (intro post_rules post_foldr; simp)+

lemma post_group_parts [post_rules]:
  "Q s \<Longrightarrow> (check_humans svc (sess_app ctx) accounts s = Ok () \<Longrightarrow> post k Q s) \<Longrightarrow> post (ensure_human_accounts svc ctx accounts k) Q s"
  "Q s \<Longrightarrow> (\<And>info. sv_group_detail svc (sess_app ctx) gid s = Ok info \<Longrightarrow> is_member info (sess_account ctx) \<Longrightarrow> post (f info) Q s)
     \<Longrightarrow> post (with_group svc ctx gid outsider f) Q s"
  unfolding ensure_human_accounts_def with_group_def by (intro post_rules; simp)+

lemma post_persist [post_rules]: "Q s \<Longrightarrow> post (\<lambda>s. persist_then_push (f s) inserted command ctx s) Q s"
  unfolding post_def
  by (metis fst_conv persist_then_push_log prod_cases3 snd_conv)

lemma post_talk_fail: "Q s \<Longrightarrow> Q (fst (snd (talk_fail deps status ctx s log)))"
  by (metis fst_conv prod_cases3 snd_conv talk_fail_eq)

lemma talk_insert_state:
  "fst (snd (talk_insert deps kind req members targets ctx s log))
     = snd (td_insert deps (sess_app ctx) kind
         \<lparr>im_sender = sess_account ctx, im_dest = req_dest ctx, im_send_time = td_unix_nano deps,
          im_msg_type = mr_type req, im_body = mr_body req, im_extra = mr_extra req,
          im_client_id = mr_client_id req, im_online_targets = targets\<rparr> members s)"
proof -
  have p: "fst (snd (persist_then_push deps inserted command ctx s1 log)) = s1" for inserted command s1
    using post_persist[of "\<lambda>s'. s' = s1" s1 "\<lambda>_. deps" inserted command ctx] by (simp add: post_def)
  have f: "fst (snd (talk_fail deps SystemException ctx s1 log)) = s1" for s1
    using post_talk_fail[of "\<lambda>s'. s' = s1"] by simp
  show ?thesis by (simp add: talk_insert_def Let_def split_beta p f split: sum.split)
qed

lemma normalize_idem: "normalize_members owner (normalize_members owner ms) = normalize_members owner ms"
proof -
  let ?n = "normalize_members owner ms"
  have "distinct ?n" "owner = [] \<or> owner \<in> set ?n"
    by (auto simp: normalize_members_def Let_def distinct_dedup_loop set_dedup_loop)
  then have "dedup_loop ?n {} [] = ?n" "\<not> (owner \<noteq> [] \<and> owner \<notin> set ?n)" by (simp_all add: dedup_loop_distinct)
  then show ?thesis by (subst normalize_members_def) (simp add: Let_def)
qed

section \<open>The handlers keep it\<close>

context chat_backend
begin

definition known :: "Context \<Rightarrow> 'm Hub_scheme \<Rightarrow> bool" where
  "known ctx s \<longleftrightarrow> human (sess_app ctx) (sess_account ctx) s \<and> owned (cx_session ctx) s"

lemmas op_good = rooms specs store profile accept group_quit delete_bot

lemma message_handlers_keep:
  "good s \<Longrightarrow> post (do_echo svc ctx) good s"
  "good s \<Longrightarrow> post (do_talk_ack svc ctx) good s"
  "good s \<Longrightarrow> post (do_offline_index svc ctx) good s"
  "good s \<Longrightarrow> post (do_offline_content svc ctx) good s"
  "good s \<Longrightarrow> post (do_inbox_list svc ctx) good s"
  "good s \<Longrightarrow> post (do_history svc ctx) good s"
  "good s \<Longrightarrow> post (do_inbox_read svc ctx) good s"
  "good s \<Longrightarrow> post (do_inbox_states svc ctx) good s"
  unfolding do_echo_def do_talk_ack_def do_offline_index_def do_offline_content_def do_inbox_list_def do_history_def
    do_inbox_read_def do_inbox_states_def Let_def
  by (intro post_rules op_good; simp)+

lemma social_handlers_keep:
  assumes "good s" "known ctx s"
  shows "post (do_friend_request svc ctx) good s"
    "post (do_friend_accept svc ctx) good s"
    "post (do_friend_reject svc ctx) good s"
    "post (do_friend_remove svc ctx) good s"
    "post (do_friend_list svc ctx) good s"
    "post (do_friend_incoming svc ctx) good s"
    "post (do_block_add svc ctx) good s"
    "post (do_block_remove svc ctx) good s"
    "post (do_block_list svc ctx) good s"
    "post (do_user_profile svc ctx) good s"
    "post (do_user_update svc ctx) good s"
    "post (do_user_search svc ctx) good s"
    "post (do_room_enter svc ctx) good s"
    "post (do_room_leave svc ctx) good s"
    "post (do_typing svc ctx) good s"
  using assms unfolding do_friend_request_def do_friend_accept_def do_friend_reject_def do_friend_remove_def do_friend_list_def
    do_friend_incoming_def do_block_add_def do_block_remove_def do_block_list_def do_user_profile_def do_user_update_def
    do_user_search_def do_room_enter_def do_room_leave_def do_typing_def known_def Let_def
  by (intro post_rules op_good request remove block; auto intro: exists_human)+

lemma talk_keeps:
  assumes "good s"
  shows "post (user_talk svc ctx) good s" "post (group_talk svc ctx) good s"
proof -
  have ins: "td_insert (talk_of svc s) = sv_insert svc" by (simp add: talk_of_def)
  have "good (fst (snd (do_user_talk (talk_of svc s) ctx s log)))" for log
  proof -
    obtain r s' log' where e: "do_user_talk (talk_of svc s) ctx s log = (r, s', log')" by (metis prod_cases3)
    from e have "good s'"
    proof (cases rule: do_user_talk_cases)
      case (refused status)
      then show ?thesis using post_talk_fail[of good s, OF assms] by (metis fst_conv snd_conv)
    next
      case (inserted req own ot)
      then show ?thesis
        using talk_insert_state[of "talk_of svc s" UserMsg req "[]" ot ctx s log] insert[OF assms] by (simp add: ins)
    qed
    then show ?thesis using e by simp
  qed
  then show "post (user_talk svc ctx) good s" by (simp add: post_def user_talk_def)
  have "good (fst (snd (do_group_talk (talk_of svc s) ctx s log)))" for log
  proof -
    obtain r s' log' where e: "do_group_talk (talk_of svc s) ctx s log = (r, s', log')" by (metis prod_cases3)
    from e have "good s'"
    proof (cases rule: do_group_talk_cases)
      case (refused status)
      then show ?thesis using post_talk_fail[of good s, OF assms] by (metis fst_conv snd_conv)
    next
      case (inserted req ms ot)
      then show ?thesis
        using talk_insert_state[of "talk_of svc s" GroupMsg req ms ot ctx s log] insert[OF assms] by (simp add: ins)
    qed
    then show ?thesis using e by simp
  qed
  then show "post (group_talk svc ctx) good s" by (simp add: post_def group_talk_def)
qed

lemma bot_handlers_keep:
  assumes "good s" "known ctx s"
  shows "post (do_bot_create svc ctx) good s"
    "post (do_bot_delete svc ctx) good s"
    "post (do_bot_update svc ctx) good s"
    "post (do_bot_reply svc ctx) good s"
    "post (do_bot_pending svc ctx) good s"
    "post (do_bot_typing svc ctx) good s"
    "post (do_agent_spec_sync svc ctx) good s"
    "post (do_agent_spec_upsert svc ctx) good s"
  using assms unfolding do_bot_create_def do_bot_delete_def do_bot_update_def do_bot_reply_def do_bot_pending_def
    do_bot_typing_def do_agent_spec_sync_def do_agent_spec_upsert_def upsert_record_def known_def Let_def
  by (intro post_rules op_good create_bot; simp)+

lemma join_all_keeps:
  assumes "good s" "\<forall>a \<in> set accounts. human (sess_app ctx) a s" "gsize (sess_app ctx) g s + length accounts \<le> MAX_GROUP_MEMBERS"
    and k: "\<And>s. good s \<Longrightarrow> post k good s"
  shows "post (join_all svc ctx g accounts k) good s"
  using assms(1-3)
proof (induction accounts arbitrary: s)
  case Nil
  then show ?case by (simp add: k)
next
  case (Cons a accounts)
  let ?s' = "snd (sv_group_join svc (sess_app ctx) g a s)"
  have g: "good ?s'" using Cons.prems by (intro group_join) simp_all
  moreover have "\<forall>b \<in> set accounts. human (sess_app ctx) b ?s'" using Cons.prems group_join(3) by simp
  moreover have "gsize (sess_app ctx) g ?s' + length accounts \<le> MAX_GROUP_MEMBERS"
    using group_join(2)[OF Cons.prems(1), of "sess_app ctx" g a] Cons.prems(3) by simp
  ultimately have "post (join_all svc ctx g accounts k) good ?s'" by (rule Cons.IH)
  then show ?case using g by (simp, intro post_rules) simp_all
qed

lemma create_members:
  assumes "known ctx s" "good s" "check_humans svc (sess_app ctx) (filter (\<lambda>m. m \<noteq> sess_account ctx) (normalize_members (sess_account ctx) ms)) s = Ok ()"
  shows "\<forall>m \<in> set (normalize_members (sess_account ctx) ms). human (sess_app ctx) m s"
proof
  fix m
  assume m: "m \<in> set (normalize_members (sess_account ctx) ms)"
  show "human (sess_app ctx) m s"
  proof (cases "m = sess_account ctx")
    case True
    then show ?thesis using assms(1) by (simp add: known_def)
  next
    case False
    then show ?thesis using check_humans_ok[OF assms(3), of m] m lookup_human[OF assms(2)] by auto
  qed
qed

lemma group_create_keeps:
  assumes "good s" "known ctx s"
  shows "post (do_group_create svc ctx) good s"
proof -
  have c: "good (snd (sv_group_create svc (sess_app ctx) \<lparr>cg_name = n, cg_avatar = av, cg_introduction = i,
       cg_owner = sess_account ctx, cg_members = normalize_members (sess_account ctx) ms\<rparr> s))"
    if "check_humans svc (sess_app ctx) (filter (\<lambda>m. m \<noteq> sess_account ctx) (normalize_members (sess_account ctx) ms)) s = Ok ()"
      "\<not> length (normalize_members (sess_account ctx) ms) > MAX_GROUP_MEMBERS" for n av i ms
    using create_members[OF assms(2,1) that(1)] that(2) by (intro group_create[OF assms(1)]) (simp_all add: normalize_idem)
  show ?thesis
    using assms unfolding do_group_create_def Let_def by (intro post_rules c; simp)
qed

lemma invite_keeps:
  assumes "good s" "known ctx s"
  shows "post (do_group_invite svc ctx) good s"
proof -
  have j: "post (join_all svc ctx g added k) good s"
    if "check_humans svc (sess_app ctx) added s = Ok ()" "sv_group_detail svc (sess_app ctx) g s = Ok info"
      "\<not> length (gi_members info) + length added > MAX_GROUP_MEMBERS" "\<And>s. good s \<Longrightarrow> post k good s" for g added info k
  proof (rule join_all_keeps[OF assms(1)])
    show "\<forall>a \<in> set added. human (sess_app ctx) a s"
      using check_humans_ok[OF that(1)] lookup_human[OF assms(1)] by blast
    show "gsize (sess_app ctx) g s + length added \<le> MAX_GROUP_MEMBERS"
      using group_detail[OF assms(1) that(2)] that(3) by simp
  qed (rule that(4))
  show ?thesis
    unfolding do_group_invite_def Let_def
    by (intro post_rules assms(1); (rule j; assumption?)?; intro post_rules; simp)
qed

lemma group_handlers_keep:
  assumes "good s"
  shows "post (do_group_join svc ctx) good s"
    "post (do_group_quit svc ctx) good s"
    "post (do_group_detail svc ctx) good s"
    "post (do_group_members svc ctx) good s"
  using assms unfolding do_group_join_def do_group_quit_def do_group_detail_def do_group_members_def Let_def
  by (intro post_rules op_good; simp)+

lemma hub_ops:
  "good s \<Longrightarrow> good (snd (bump_gen app account s))"
  "good s \<Longrightarrow> good (snd (spawn t s))"
  "good s \<Longrightarrow> good (snd (forget_gen app account g s))"
  "good s \<Longrightarrow> good (snd (task_take i s))"
  using hub by (simp_all add: bump_gen_def Let_def spawn_def forget_gen_def task_take_def)

lemma location_hooks_keep:
  "good s \<Longrightarrow> (\<And>s. good s \<Longrightarrow> post k good s) \<Longrightarrow> post (on_location_added svc app account k) good s"
  "good s \<Longrightarrow> (\<And>s. good s \<Longrightarrow> post k good s) \<Longrightarrow> post (on_location_removed svc app account channel k) good s"
  unfolding on_location_added_def on_location_removed_def Let_def
  by (intro post_rules; simp add: hub_ops rooms)+

lemma login_finish_keeps:
  assumes "good s" "owned se s"
  shows "post (login_finish svc ctx se) good s"
proof -
  have u: "post (call (sv_sess_delete svc (s_account se) (s_channel_id se)) (\<lambda>_. reply_bytes svc ctx SystemException [])) good s"
    if "good s" "owned se s" for s
    by (intro post_rules sess_delete that)
  have o': "post (on_location_added svc (s_app se) (s_account se) (reply svc ctx Success (BLogin (s_channel_id se)))) good s"
    if "good s" for s
    using that by (intro location_hooks_keep post_rules)
  show ?thesis
    unfolding login_finish_def Let_def
    using assms backfill[OF assms(1)] by (intro post_cases post_call u o'; simp)
qed

definition zoned :: "Session \<Rightarrow> Session" where
  "zoned se = (if sv_zone svc \<noteq> [] then se\<lparr>s_zone := sv_zone svc\<rparr> else se)"

lemma login_keeps:
  assumes "good s" "\<And>se. cd_session (sv_codec svc) (req_body ctx) = Ok se \<Longrightarrow> owned (zoned se) s"
  shows "post (do_sys_login svc ctx) good s"
proof (cases "cd_session (sv_codec svc) (req_body ctx)")
  case (Inl e)
  then show ?thesis using assms(1) by (simp add: do_sys_login_def post_rules)
next
  case (Inr se0)
  define se where "se = zoned se0"
  let ?s = "snd (sv_upsert svc (s_app se) (s_account se) s)"
  let ?e = "reply_bytes svc ctx SystemException []"
  define rest where "rest = call (sv_sess_add svc se) (\<lambda>r. case r of Inl _ \<Rightarrow> ?e | Inr _ \<Rightarrow> login_finish svc ctx se)"
  have login: "do_sys_login svc ctx =
     (if s_account se0 = [] then reply_bytes svc ctx InvalidPacketBody []
      else ask (sv_lookup svc (s_app se) (s_account se)) (\<lambda>r.
        if (case r of Inl _ \<Rightarrow> True | Inr _ \<Rightarrow> False) then ?e
        else if (case r of Inr (Some p) \<Rightarrow> up_kind p = PROFILE_KIND_BOT | _ \<Rightarrow> False) then reply_bytes svc ctx Unauthorized []
        else call (sv_upsert svc (s_app se) (s_account se)) (\<lambda>r. case r of
            Inl _ \<Rightarrow> ?e
          | Inr _ \<Rightarrow> ask (sv_list_locations svc (s_account se)) (\<lambda>r.
              if (case r of Inl e \<Rightarrow> e \<noteq> NotFound | Inr _ \<Rightarrow> False) then ?e
              else kickout svc ctx (if exclusive_device (s_device se)
                then filter (\<lambda>l. l_channel_id l \<noteq> s_channel_id se \<and> exclusive_device (l_device l)) (case r of Inr v \<Rightarrow> v | Inl _ \<Rightarrow> [])
                else []) rest))))"
    unfolding do_sys_login_def Inr se_def zoned_def rest_def Let_def by simp
  have o': "owned se s" using assms(2)[OF Inr] by (simp add: se_def)
  have r: "post rest good ?s" if "not_bot_account svc (s_app se) (s_account se) s" "fst (sv_upsert svc (s_app se) (s_account se) s) = Ok u" for u
  proof -
    have g: "good ?s" "owned se ?s" "human (s_app se) (s_account se) ?s"
      using upsert[OF assms(1)] that o' by simp_all
    show ?thesis
      unfolding rest_def by (intro post_rules login_finish_keeps sess_add g)
  qed
  show ?thesis
    unfolding login
    by (intro post_rules assms(1) upsert(1) r; auto simp: not_bot_account_def split: sum.splits option.splits)
qed

lemma logout_keeps: "good s \<Longrightarrow> known ctx s \<Longrightarrow> post (do_sys_logout svc ctx) good s"
  unfolding do_sys_logout_def known_def
  by (intro post_rules location_hooks_keep sess_delete; simp)

lemma task_keeps: "good s \<Longrightarrow> post (task_step svc i) good s"
proof -
  have "good s \<Longrightarrow> post (task_run svc t) good s" for s t
    by (cases t; simp only: task_run.simps; intro post_rules hub_ops; assumption)
  then show "good s \<Longrightarrow> post (task_step svc i) good s"
    unfolding task_step_def by (intro post_rules) (simp_all add: hub_ops)
qed

lemma handlers_keep:
  assumes "(c, h) \<in> set (handler_list svc)" "c \<noteq> LoginSignIn" "good s" "known ctx s"
  shows "post (h ctx) good s"
  using assms unfolding handler_list_def
  by (auto intro: message_handlers_keep social_handlers_keep talk_keeps bot_handlers_keep group_create_keeps invite_keeps
      group_handlers_keep logout_keeps)

lemma serve_packet_keeps:
  assumes "good s"
    and "Command_parse (h_command (lp_header pkt)) = Some LoginSignIn \<Longrightarrow>
           (\<forall>se. cd_session (sv_codec svc) (lp_body pkt) = Ok se \<longrightarrow> owned (zoned se) s)"
    and "Command_parse (h_command (lp_header pkt)) \<noteq> Some LoginSignIn \<Longrightarrow>
           known \<lparr>cx_request = pkt, cx_session = session\<rparr> s"
  shows "post (serve_packet svc pkt session) good s"
proof -
  define ctx where "ctx = \<lparr>cx_request = pkt, cx_session = session\<rparr>"
  have "post (\<lambda>s log. serve (sv_disp svc) (chat_router svc) pkt session s log) good s"
  proof (cases "case Command_parse (h_command (lp_header pkt)) of None \<Rightarrow> None | Some c \<Rightarrow> hget (chat_router svc) c")
    case None
    then show ?thesis using assms(1) by (simp add: post_def serve_def Let_def split_beta)
  next
    case (Some h)
    then obtain c where c: "Command_parse (h_command (lp_header pkt)) = Some c" "hget (chat_router svc) c = Some h"
      by (auto split: option.splits)
    note m = chat_router_handler[OF c(2)]
    have "post (h ctx) good s"
    proof (cases "c = LoginSignIn")
      case True
      then have "h = do_sys_login svc" using m by (auto simp: handler_list_def)
      moreover have "owned (zoned se) s" if "cd_session (sv_codec svc) (req_body ctx) = Ok se" for se
        using assms(2) c(1) True that by (simp add: ctx_def)
      ultimately show ?thesis by (simp add: login_keeps[OF assms(1)])
    next
      case False
      then show ?thesis using handlers_keep[OF m False assms(1)] assms(3) c(1) by (simp add: ctx_def)
    qed
    then show ?thesis using c by (simp add: post_def serve_def Let_def ctx_def)
  qed
  then show ?thesis by (simp add: post_def serve_packet_def split_beta Let_def)
qed

text \<open>The treatment of any packet keeps a good state; a login must be for a connection of its own account.\<close>

lemma receive_packet_keeps:
  assumes "good s"
    and "\<And>se. Command_parse (h_command (lp_header pkt)) = Some LoginSignIn \<Longrightarrow> cd_session (sv_codec svc) (lp_body pkt) = Ok se \<Longrightarrow>
           owned (zoned se) s"
  shows "post (receive_packet svc pkt) good s"
proof (cases "Command_parse (h_command (lp_header pkt)) = Some LoginSignIn")
  case True
  then have "post (serve_packet svc pkt (login_session pkt)) good s"
    by (intro serve_packet_keeps[OF assms(1)]) (simp_all add: assms(2))
  then show ?thesis using True by (simp add: receive_packet_def)
next
  case False
  have e: "post (resp_err svc pkt status) good s" for status
    using assms(1) by (simp add: post_def resp_err_def Let_def split_beta)
  have k: "post (serve_packet svc pkt se) good s" if "sv_sess_get svc (h_channel_id (lp_header pkt)) s = Ok se" for se
    using session_human[OF assms(1) that] False by (intro serve_packet_keeps[OF assms(1)]) (simp_all add: known_def)
  show ?thesis
    using False unfolding receive_packet_def by (simp, intro post_rules e k) simp_all
qed

lemma receive_keeps:
  assumes "good s"
    and "\<And>pkt se. read_logic dec_header raw = Ok pkt \<Longrightarrow> Command_parse (h_command (lp_header pkt)) = Some LoginSignIn \<Longrightarrow>
           cd_session (sv_codec svc) (lp_body pkt) = Ok se \<Longrightarrow> owned (zoned se) s"
  shows "post (receive dec_header svc raw) good s"
  unfolding receive_def by (intro post_rules receive_packet_keeps assms)

end

end
