(* ===== verification/Kim_Chat_World.thy ===== *)
theory Kim_Chat_World
  imports Kim_Users
begin

text \<open>
  Accounts and the social graph together. Every account has a role, human or bot of an owner; a world is
  consistent when requests and blocks are between humans, a bot has exactly one friend, its owner, and
  the owner is human. Each operation of the two directories keeps it, under the conditions the handlers
  check.
\<close>

section \<open>Roles\<close>

type_synonym roles = "string \<Rightarrow> string \<Rightarrow> string option option"

definition role :: "MemoryUserDirectory \<Rightarrow> roles" where
  "role d app a =
     map_option (\<lambda>r. if ur_kind r = PROFILE_KIND_BOT then Some (ur_owner_account r) else None) (hget (ud_inner d) (app, a))"

abbreviation human_in :: "roles \<Rightarrow> string \<Rightarrow> string \<Rightarrow> bool" where "human_in R app a \<equiv> R app a = Some None"
abbreviation bot_in :: "roles \<Rightarrow> string \<Rightarrow> string \<Rightarrow> string \<Rightarrow> bool" where "bot_in R app b owner \<equiv> R app b = Some (Some owner)"

definition set_role :: "string \<Rightarrow> string \<Rightarrow> string option option \<Rightarrow> roles \<Rightarrow> roles" where
  "set_role app a v R = (\<lambda>app' a'. if app' = app \<and> a' = a then v else R app' a')"

definition pair_ok :: "roles \<Rightarrow> string \<Rightarrow> string \<Rightarrow> string \<Rightarrow> bool" where
  "pair_ok R app a b \<longleftrightarrow> (human_in R app a \<and> human_in R app b) \<or> bot_in R app a b \<or> bot_in R app b a"

definition social_world :: "roles \<Rightarrow> MemorySocialDirectory \<Rightarrow> bool" where
  "social_world R so \<longleftrightarrow>
     (\<forall>app a b. (app, a, b) \<in> set (so_requests so) \<longrightarrow> human_in R app a \<and> human_in R app b)
     \<and> (\<forall>app a b. (app, a, b) \<in> set (so_blocks so) \<longrightarrow> human_in R app a \<and> human_in R app b)
     \<and> (\<forall>app a b. (app, a, b) \<in> set (so_friends so) \<longrightarrow> pair_ok R app a b \<and> a \<le> b)
     \<and> (\<forall>app b owner. bot_in R app b owner \<longrightarrow> human_in R app owner \<and> friend_key app owner b \<in> set (so_friends so))"

lemma social_worldD:
  assumes "social_world R so"
  shows "(app, a, b) \<in> set (so_requests so) \<Longrightarrow> human_in R app a \<and> human_in R app b"
    and "(app, a, b) \<in> set (so_blocks so) \<Longrightarrow> human_in R app a \<and> human_in R app b"
    and "(app, a, b) \<in> set (so_friends so) \<Longrightarrow> pair_ok R app a b \<and> a \<le> b"
    and "bot_in R app b owner \<Longrightarrow> human_in R app owner \<and> friend_key app owner b \<in> set (so_friends so)"
  using assms unfolding social_world_def by blast+

lemma social_worldI:
  assumes "\<And>app a b. (app, a, b) \<in> set (so_requests so) \<Longrightarrow> human_in R app a \<and> human_in R app b"
    and "\<And>app a b. (app, a, b) \<in> set (so_blocks so) \<Longrightarrow> human_in R app a \<and> human_in R app b"
    and "\<And>app a b. (app, a, b) \<in> set (so_friends so) \<Longrightarrow> pair_ok R app a b \<and> a \<le> b"
    and "\<And>app b owner. bot_in R app b owner \<Longrightarrow> human_in R app owner \<and> friend_key app owner b \<in> set (so_friends so)"
  shows "social_world R so"
  using assms unfolding social_world_def by blast

lemma pair_ok_sym: "pair_ok R app a b \<longleftrightarrow> pair_ok R app b a"
  by (auto simp: pair_ok_def)

lemma friend_key_pair: "(app', c, d) = friend_key app a b \<Longrightarrow> pair_ok R app a b \<Longrightarrow> pair_ok R app' c d \<and> c \<le> d"
  by (auto simp: friend_key_def ordered_pair_def pair_ok_sym split: if_splits)

text \<open>A bot's only friend is its owner.\<close>

lemma bot_friend_owner:
  assumes "social_world R so" "bot_in R app b owner" "friend_key app x b \<in> set (so_friends so)"
  shows "x = owner"
proof -
  obtain c d where k: "friend_key app x b = (app, c, d)" "c = x \<and> d = b \<or> c = b \<and> d = x"
    by (cases "x \<le> b") (auto simp: friend_key_def ordered_pair_def)
  have "pair_ok R app x b" using social_worldD(3)[OF assms(1), of app c d] assms(3) k pair_ok_sym by auto
  then consider "bot_in R app x b" | "bot_in R app b x" using assms(2) by (auto simp: pair_ok_def)
  then show ?thesis
  proof cases
    case 1
    then show ?thesis using social_worldD(4)[OF assms(1) 1] assms(2) by simp
  qed (use assms(2) in simp)
qed

lemma bot_unblocked:
  "social_world R so \<Longrightarrow> bot_in R app b owner \<Longrightarrow> \<not> is_blocked_either app x b so"
  using social_worldD(2)[of R so app] by (fastforce simp: is_blocked_either_def)

section \<open>The social operations\<close>

lemma world_fewer_requests: "social_world R so \<Longrightarrow> set rs \<subseteq> set (so_requests so) \<Longrightarrow> social_world R (so\<lparr>so_requests := rs\<rparr>)"
  unfolding social_world_def by auto

lemma world_fewer_blocks: "social_world R so \<Longrightarrow> set bs \<subseteq> set (so_blocks so) \<Longrightarrow> social_world R (so\<lparr>so_blocks := bs\<rparr>)"
  unfolding social_world_def by auto

lemma world_add_request:
  "social_world R so \<Longrightarrow> human_in R app a \<Longrightarrow> human_in R app b \<Longrightarrow>
   social_world R (so\<lparr>so_requests := List.insert (app, a, b) (so_requests so)\<rparr>)"
  unfolding social_world_def by auto

lemma world_add_friend:
  "social_world R so \<Longrightarrow> pair_ok R app a b \<Longrightarrow> social_world R (so\<lparr>so_friends := List.insert (friend_key app a b) (so_friends so)\<rparr>)"
  unfolding social_world_def using friend_key_pair by auto

lemma world_remove_friend:
  assumes "social_world R so" "human_in R app a" "\<And>owner. \<not> bot_in R app b owner"
  shows "social_world R (so\<lparr>so_friends := removeAll (friend_key app a b) (so_friends so)\<rparr>)"
proof -
  have "friend_key app' owner c \<noteq> friend_key app a b" if "bot_in R app' c owner" for app' c owner
    using that assms by (auto simp: friend_key_eq)
  then show ?thesis using assms(1) unfolding social_world_def by auto
qed

lemma social_request_world:
  assumes "social_world R so" "human_in R app a" "human_in R app b"
  shows "social_world R (snd (social_request app a b so))"
proof -
  have "social_world R (so\<lparr>so_requests := removeAll (app, a, b) (removeAll (app, b, a) (so_requests so)),
      so_friends := List.insert (friend_key app a b) (so_friends so)\<rparr>)"
    using world_add_friend[OF world_fewer_requests[OF assms(1)], of "removeAll (app, a, b) (removeAll (app, b, a) (so_requests so))" app a b]
      assms(2,3) by (auto simp: pair_ok_def)
  then show ?thesis using assms world_add_request[OF assms] by (simp add: social_request_def del: not_in_set_insert)
qed

lemma social_accept_world:
  assumes w: "social_world R so"
  shows "social_world R (snd (social_accept app a b so))"
proof -
  let ?s1 = "so\<lparr>so_requests := removeAll (app, b, a) (so_requests so)\<rparr>"
  have s1: "social_world R ?s1" by (rule world_fewer_requests[OF w]) auto
  have "pair_ok R app a b" if "(app, b, a) \<in> set (so_requests so)"
    using social_worldD(1)[OF w that] by (simp add: pair_ok_def)
  moreover have "social_world R (?s1\<lparr>so_friends := List.insert (friend_key app a b) (so_friends so)\<rparr>)"
    if "friend_key app a b \<in> set (so_friends so)"
    using s1 that by (simp add: List.insert_def)
  moreover note world_add_friend[OF s1, of app a b]
  ultimately show ?thesis using w s1 by (auto simp: social_accept_def Let_def)
qed

lemma social_block_world:
  assumes w: "social_world R so" and h: "human_in R app a" "human_in R app b"
  shows "social_world R (snd (social_block app a b so))"
proof -
  have "social_world R (so\<lparr>so_friends := removeAll (friend_key app a b) (so_friends so)\<rparr>)"
    by (rule world_remove_friend[OF w]) (use h in simp_all)
  then have "social_world R (so\<lparr>so_friends := removeAll (friend_key app a b) (so_friends so),
      so_requests := removeAll (app, b, a) (removeAll (app, a, b) (so_requests so))\<rparr>)"
    by (rule world_fewer_requests) auto
  then show ?thesis using w h unfolding social_world_def by (auto simp: social_block_def)
qed

lemma social_shrink_world:
  "social_world R so \<Longrightarrow> social_world R (social_reject app a b so)"
  "social_world R so \<Longrightarrow> social_world R (social_unblock app a b so)"
  by (auto simp: social_reject_def social_unblock_def intro: world_fewer_requests world_fewer_blocks)

section \<open>The user operations\<close>

lemma world_new_human:
  assumes "social_world R so" "R app a = None"
  shows "social_world (set_role app a (Some None) R) so"
proof -
  let ?R = "set_role app a (Some None) R"
  have keep: "human_in R app' c \<Longrightarrow> human_in ?R app' c" "bot_in R app' c o' \<Longrightarrow> bot_in ?R app' c o'" for app' c o'
    using assms(2) by (auto simp: set_role_def)
  have old: "bot_in ?R app' c o' \<Longrightarrow> bot_in R app' c o'" for app' c o' by (auto simp: set_role_def split: if_splits)
  have pk: "pair_ok ?R app' x y" if "pair_ok R app' x y" for app' x y
    using that keep unfolding pair_ok_def by blast
  show ?thesis
  proof (rule social_worldI, goal_cases)
    case (4 app' c o')
    then show ?case using old[OF 4] social_worldD(4)[OF assms(1), of app' c o'] keep(1) by blast
  qed (use keep(1) pk social_worldD(1-3)[OF assms(1)] in auto)
qed

lemma world_new_bot:
  assumes w: "social_world R so" and "R app b = None" "human_in R app owner" "owner \<noteq> []" "b \<noteq> []"
  shows "social_world (set_role app b (Some (Some owner)) R) (snd (ensure_friends app owner b so))"
    and "\<not> is_blocked_either app owner b so"
proof -
  let ?R = "set_role app b (Some (Some owner)) R"
  have ne: "owner \<noteq> b" using assms(2,3) by auto
  have keep: "human_in R app' a \<Longrightarrow> human_in ?R app' a" "bot_in R app' a o' \<Longrightarrow> bot_in ?R app' a o'" for app' a o'
    using assms(2) by (auto simp: set_role_def)
  have old: "bot_in ?R app' c o' \<Longrightarrow> bot_in R app' c o' \<or> app' = app \<and> c = b \<and> o' = owner" for app' c o'
    by (auto simp: set_role_def split: if_splits)
  have new: "pair_ok ?R app owner b" using ne by (simp add: pair_ok_def set_role_def)
  have pk: "pair_ok ?R app' a c" if "pair_ok R app' a c" for app' a c
    using that keep unfolding pair_ok_def by blast
  have e: "snd (ensure_friends app owner b so) = so\<lparr>so_friends := List.insert (friend_key app owner b) (so_friends so)\<rparr>"
    using assms(4,5) ne by (simp add: ensure_friends_def)
  show "social_world ?R (snd (ensure_friends app owner b so))"
    unfolding e
  proof (rule social_worldI, goal_cases)
    case (3 app' x y)
    then show ?case using friend_key_pair[of app' x y app owner b ?R] new social_worldD(3)[OF w] pk by auto
  next
    case (4 app' c o')
    then show ?case using old[OF 4] social_worldD(4)[OF w, of app' c o'] keep(1) assms(3) by auto
  qed (use keep(1) social_worldD(1,2)[OF w] in auto)
  show "\<not> is_blocked_either app owner b so"
    using social_worldD(2)[OF w, of app] assms(2) by (auto simp: is_blocked_either_def)
qed

lemma world_touch_bot:
  assumes w: "social_world R so" and b: "bot_in R app b owner"
  shows "social_world R (snd (ensure_friends app owner b so))" "\<not> is_blocked_either app owner b so"
proof -
  show "social_world R (snd (ensure_friends app owner b so))"
    using world_add_friend[OF w, of app owner b] w b by (auto simp: ensure_friends_def pair_ok_def)
  show "\<not> is_blocked_either app owner b so" using bot_unblocked[OF w b] .
qed

lemma world_delete_bot:
  assumes w: "social_world R so" and b: "bot_in R app b owner"
  shows "social_world (set_role app b None R) (social_remove app owner b so)"
proof -
  let ?R = "set_role app b None R"
  have keep: "human_in R app' a \<Longrightarrow> human_in ?R app' a" for app' a using b by (auto simp: set_role_def)
  have old: "bot_in ?R app' c o' \<Longrightarrow> bot_in R app' c o' \<and> \<not> (app' = app \<and> c = b)" for app' c o'
    by (auto simp: set_role_def split: if_splits)
  have pair: "pair_ok ?R app' x y" if "(app', x, y) \<in> set (so_friends so)" "(app', x, y) \<noteq> friend_key app owner b" for app' x y
  proof -
    have "\<not> (app' = app \<and> x = b)" "\<not> (app' = app \<and> y = b)"
    proof -
      have only: "z = owner" if "pair_ok R app z b" for z
        using that b social_worldD(4)[OF w, of app z b] by (auto simp: pair_ok_def)
      have p: "pair_ok R app' x y" "x \<le> y" using social_worldD(3)[OF w that(1)] by simp_all
      show "\<not> (app' = app \<and> y = b)"
        using only[of x] p that(2) by (auto simp: friend_key_def ordered_pair_def split: if_splits)
      show "\<not> (app' = app \<and> x = b)"
        using only[of y] p that(2) by (auto simp: friend_key_def ordered_pair_def pair_ok_sym split: if_splits)
    qed
    then show ?thesis using social_worldD(3)[OF w that(1)] by (auto simp: pair_ok_def set_role_def)
  qed
  have other: "friend_key app' o' c \<noteq> friend_key app owner b" if "bot_in ?R app' c o'" for app' c o'
    using old[OF that] social_worldD(4)[OF w b] by (auto simp: friend_key_eq)
  show ?thesis
    unfolding social_remove_def
  proof (rule social_worldI, goal_cases)
    case (3 app' x y)
    then show ?case using pair[of app' x y] social_worldD(3)[OF w, of app' x y] by simp
  next
    case (4 app' c o')
    then show ?case using old[OF 4] other[OF 4] social_worldD(4)[OF w, of app' c o'] keep by simp
  qed (use keep social_worldD(1,2)[OF w] in auto)
qed

section \<open>The directory's operations\<close>

lemma role_edit:
  assumes "\<And>r. ur_kind (f r) = ur_kind r \<and> ur_owner_account (f r) = ur_owner_account r"
  shows "role (snd (with_record app account f g d)) = role d"
  using assms by (intro ext) (auto simp: role_def with_record_def split: option.split)

lemma role_upsert:
  "role (user_upsert app a d) = (if role d app a = None then set_role app a (Some None) (role d) else role d)"
  by (intro ext) (auto simp: role_def user_upsert_def hor_insert_def set_role_def human_record_def PROFILE_KIND_USER_def
      PROFILE_KIND_BOT_def split: option.split)

lemma role_update:
  "role (snd (update_profile app a patch d)) = role d"
  "role (snd (update_bot app owner a bpatch d)) = role d"
  using role_edit[of "\<lambda>rec. rec\<lparr>ur_nickname := n, ur_avatar := v, ur_bio := i\<rparr>" for n v i]
    role_edit[of "\<lambda>rec. rec\<lparr>ur_nickname := n, ur_avatar := v, ur_bio := i, ur_bot_config := c\<rparr>" for n v i c]
  by (auto simp: update_profile_def update_bot_def write_bot_def split: sum.split)

lemma role_delete_bot:
  assumes "delete_bot app owner b d = (r, d')"
  shows "d' = d \<or> bot_in (role d) app b owner \<and> role d' = set_role app b None (role d)
     \<and> ud_social d' = map_option (social_remove app owner b) (ud_social d)"
proof (cases "owned_bot app owner b d")
  case (Inl e)
  then show ?thesis using assms by (simp add: delete_bot_def)
next
  case (Inr rec)
  then have "bot_in (role d) app b owner"
    by (auto simp: owned_bot_def role_def split: option.splits if_splits)
  moreover have "role d' = set_role app b None (role d)"
    using assms Inr by (intro ext) (auto simp: delete_bot_def role_def set_role_def)
  ultimately show ?thesis using assms Inr by (auto simp: delete_bot_def)
qed

lemma create_bot_cases:
  assumes "create_bot idgen app req d = (r, d')"
  obtains (same) "d' = d"
  | (touch) account rec config where "find_bot_by_profile (ud_inner d) app (cb_owner req) (cb_client_profile_id req) = Some (account, rec)"
      "d' = snd (touch_bot app (cb_owner req) account rec config d)"
  | (new) next_id draft config where "idgen = Some next_id" "cb_owner req \<noteq> []"
      "find_bot_by_profile (ud_inner d) app (cb_owner req) (cb_client_profile_id req) = None"
      "draft_bot next_id app req config d = Ok draft" "d' = snd (commit_bot app req config draft d)"
proof -
  define find where "find = find_bot_by_profile (ud_inner d) app (cb_owner req) (cb_client_profile_id req)"
  define rest where "rest = (\<lambda>next_id config. case find of
      Some (account, rec) \<Rightarrow> touch_bot app (cb_owner req) account rec config d
    | None \<Rightarrow> (case draft_bot next_id app req config d of Inl e \<Rightarrow> (Err e, d) | Inr draft \<Rightarrow> commit_bot app req config draft d))"
  have "create_bot idgen app req d =
     (case ud_social d of None \<Rightarrow> (Err (UserBackend ''create_bot requires social''), d)
      | Some _ \<Rightarrow> (case idgen of None \<Rightarrow> (Err (UserBackend ''create_bot requires idgen''), d)
      | Some next_id \<Rightarrow> if \<not> valid_client_profile_id (cb_client_profile_id req) then (Err InvalidProfile, d)
          else if cb_owner req = [] then (Err InvalidProfile, d)
          else case normalize_bot_config (CreateBot_config req) of Inl e \<Rightarrow> (Err e, d) | Inr config \<Rightarrow> rest next_id config))"
    unfolding create_bot_def rest_def find_def by (rule refl)
  then consider "d' = d" | next_id config where "idgen = Some next_id" "cb_owner req \<noteq> []" "rest next_id config = (r, d')"
    using assms by (auto split: option.splits if_splits sum.splits)
  then show ?thesis
  proof cases
    case 1
    then show ?thesis by (rule same)
  next
    case (2 next_id config)
    show ?thesis
    proof (cases find)
      case None
      show ?thesis
      proof (cases "draft_bot next_id app req config d")
        case (Inl e)
        then show ?thesis using 2 None by (intro same) (simp add: rest_def)
      next
        case (Inr draft)
        then show ?thesis using 2 None by (intro new[of next_id config draft]) (simp_all add: rest_def find_def)
      qed
    next
      case (Some p)
      then show ?thesis using 2 by (cases p, intro touch[of "fst p" "snd p" config]) (simp_all add: rest_def find_def)
    qed
  qed
qed

lemma draft_bot_account: "draft_bot next_id app req config d = Ok (account, rec) \<Longrightarrow> account \<noteq> []"
  by (auto simp: draft_bot_def res_bind_eq_Inr Let_def split: if_splits sum.splits)

text \<open>Creating a bot in a consistent world keeps it consistent, makes it the friend of its owner, and takes
  no account away; in particular the friendship is never one the social directory would refuse.\<close>

lemma create_bot_world:
  assumes "create_bot idgen app req d = (r, d')" "ud_social d = Some so" "users_inv d" "social_reach so"
    "social_world (role d) so" "human_in (role d) app (cb_owner req)"
  shows "\<exists>so'. ud_social d' = Some so' \<and> social_reach so' \<and> social_world (role d') so' \<and> users_inv d'
     \<and> (\<forall>app' a. human_in (role d) app' a \<longrightarrow> human_in (role d') app' a)"
proof -
  let ?o = "cb_owner req"
  have ens: "social_reach (snd (ensure_friends app ?o b so))" if "\<not> is_blocked_either app ?o b so" for b
    using social_reach.step[OF assms(4) social_step.ensure[OF that]] .
  from assms(1) show ?thesis
  proof (cases rule: create_bot_cases)
    case same
    then show ?thesis using assms by auto
  next
    case (touch account rec config)
    have f: "hget (ud_inner d) (app, account) = Some rec" "ur_kind rec = PROFILE_KIND_BOT" "ur_owner_account rec = ?o"
      using find_bot_Some[OF _ touch(1)] assms(3) by (auto simp: users_inv_def)
    have b: "bot_in (role d) app account ?o" using f by (simp add: role_def)
    have "role d' = role d" using f unfolding touch(2)
      by (intro ext) (auto simp: role_def touch_bot_def befriend_bot_def assms(2) Let_def split_beta)
    moreover have "ud_social d' = Some (snd (ensure_friends app ?o account so))"
      using f unfolding touch(2) by (simp add: touch_bot_def befriend_bot_def assms(2) Let_def split_beta)
    moreover have "users_inv d'" unfolding touch(2) by (rule touch_bot_inv[OF assms(3)])
    ultimately show ?thesis using world_touch_bot[OF assms(5) b] ens by simp
  next
    case (new next_id draft config)
    obtain account rec where dr: "draft = (account, rec)" by (cases draft)
    note fields = draft_bot_fields[OF new(4)[unfolded dr]] draft_bot_account[OF new(4)[unfolded dr]]
    have inv: "users_inv d'" unfolding new(5) by (rule commit_bot_inv[OF assms(3) new(4)])
    show ?thesis
    proof (cases "hget (ud_inner d) (app, account)")
      case (Some x)
      then have "d' = d" using new(3,5) by (simp add: commit_bot_def dr)
      then show ?thesis using assms by auto
    next
      case None
      then have n: "role d app account = None" by (simp add: role_def)
      define d1 where "d1 = d\<lparr>ud_inner := hput (app, account) rec (ud_inner d)\<rparr>"
      have d': "d' = d1\<lparr>ud_social := Some (snd (ensure_friends app ?o account so))\<rparr>"
        using None new(3,5) by (simp add: commit_bot_def dr befriend_bot_def assms(2) d1_def Let_def split_beta)
      have "role d' = set_role app account (Some (Some ?o)) (role d)"
        using fields by (intro ext) (simp add: d' d1_def role_def set_role_def)
      then show ?thesis
        using world_new_bot[OF assms(5) n assms(6) new(2) fields(2)] ens inv n by (auto simp: d' set_role_def)
    qed
  qed
qed

end
