(* ===== verification/Kim_Chat_Memory.thy ===== *)
theory Kim_Chat_Memory
  imports Kim_Chat_Contract Kim_Chat_World
begin

text \<open>
  The chat service on its in-memory components, as \<open>ChatHandler::new\<close> builds it: one state with the
  session store, the directories, the message store, the room interest, the agent specifications, the
  presence hub and the shared identifier generator; and the proof that it fulfils the contract of the
  handlers, so that everything the service can reach is a consistent state.
\<close>

section \<open>The state\<close>

text \<open>\<open>ch_ids\<close> are the draws the identifier generator will still make.\<close>

record ChatState = Hub +
  ch_sessions :: MemorySessionStore
  ch_users :: MemoryUserDirectory
  ch_social :: MemorySocialDirectory
  ch_groups :: MemoryGroupDirectory
  ch_interest :: MemoryRoomInterest
  ch_store :: MemoryMessageStore
  ch_specs :: MemoryAgentSpecStore
  ch_ids :: "nat \<Rightarrow> (IdError, int) result"

definition chat_new :: "bool \<Rightarrow> (nat \<Rightarrow> (IdError, int) result) \<Rightarrow> ChatState" where
  "chat_new pending_receipt ids =
     \<lparr>hb_gens = [], hb_tasks = [], ch_sessions = mem_new, ch_users = user_dir_new None, ch_social = social_new,
      ch_groups = [], ch_interest = interest_new, ch_store = message_store_new pending_receipt,
      ch_specs = agent_store_new, ch_ids = ids\<rparr>"

text \<open>What differs from request to request: the clocks, the timers and the network.\<close>

record chat_env =
  en_codec :: chat_codec
  en_disp :: dispatcher
  en_filter :: content_filter
  en_pending_receipt :: bool
  en_zone :: string
  en_instant :: nat
  en_unix_nano :: int
  en_store_unix :: int
  en_now_ms :: int
  en_directory_late :: bool
  en_targets_late :: bool
  en_push_cut :: "nat option"
  en_members_late :: bool

section \<open>Draws\<close>

definition use_ids :: "nat \<Rightarrow> ChatState \<Rightarrow> ChatState" where
  "use_ids n s = s\<lparr>ch_ids := (\<lambda>k. ch_ids s (n + k))\<rparr>"

text \<open>How many identifiers a call draws: a failing draw is the last one.\<close>

fun draws_made :: "(nat \<Rightarrow> (IdError, int) result) \<Rightarrow> nat \<Rightarrow> nat \<Rightarrow> nat" where
  "draws_made gen k 0 = 0"
| "draws_made gen k (Suc n) = (case gen k of Inl _ \<Rightarrow> 1 | Inr _ \<Rightarrow> Suc (draws_made gen (Suc k) n))"

definition insert_draws ::
  "(nat \<Rightarrow> (IdError, int) result) \<Rightarrow> string \<Rightarrow> MessageKind \<Rightarrow> InsertMessage \<Rightarrow> string list \<Rightarrow> Inner \<Rightarrow> nat" where
  "insert_draws gen app kind req members s =
     (case (if im_client_id req \<noteq> [] then hget (in_idempotency s) (idem_key app req) else None) of
        Some _ \<Rightarrow> 0
      | None \<Rightarrow>
          (case gen 0 of
             Inl _ \<Rightarrow> 1
           | Inr mid \<Rightarrow> Suc (draws_made gen 1 (length (insert_rows app kind req members mid)))))"

definition bot_reply_draws :: "string \<Rightarrow> string \<Rightarrow> string \<Rightarrow> int \<Rightarrow> InsertMessage \<Rightarrow> Inner \<Rightarrow> nat" where
  "bot_reply_draws app owner bot_acc in_reply_to req s =
     (if im_sender req \<noteq> bot_acc \<or> im_dest req \<noteq> owner \<or> in_reply_to \<le> 0 \<or> \<not> bot_reply_target app owner bot_acc in_reply_to s
        \<or> hget (in_bot_turns s) (app, bot_acc, in_reply_to) \<noteq> None
        \<or> (im_client_id req \<noteq> [] \<and> hget (in_idempotency s) (idem_key app req) \<noteq> None) then 0 else 1)"

definition create_bot_draws :: "string \<Rightarrow> CreateBot \<Rightarrow> MemoryUserDirectory \<Rightarrow> nat" where
  "create_bot_draws app req d =
     (if \<not> valid_client_profile_id (cb_client_profile_id req) \<or> cb_owner req = []
        \<or> (case normalize_bot_config (CreateBot_config req) of Inl _ \<Rightarrow> True | Inr _ \<Rightarrow> False)
        \<or> find_bot_by_profile (ud_inner d) app (cb_owner req) (cb_client_profile_id req) \<noteq> None
        \<or> (case count_bots app (cb_owner req) d of Inl _ \<Rightarrow> True | Inr n \<Rightarrow> n \<ge> BOT_MAX_PER_OWNER) then 0 else 1)"

section \<open>The backends\<close>

definition memory_sessions :: "ChatState SessionStorage" where
  "memory_sessions =
     \<lparr>sn_sess_add = \<lambda>se s. let (r, m) = mem_add se (ch_sessions s) in (r, s\<lparr>ch_sessions := m\<rparr>),
      sn_sess_delete = \<lambda>a c s. let (r, m) = mem_delete a c (ch_sessions s) in (r, s\<lparr>ch_sessions := m\<rparr>),
      sn_sess_get = \<lambda>c s. mem_get c (ch_sessions s),
      sn_get_locations = \<lambda>as s. mem_get_locations as (ch_sessions s),
      sn_list_locations = \<lambda>a s. mem_list_locations a (ch_sessions s)\<rparr>"

text \<open>The user directory shares the social directory: it is passed in and taken out again.\<close>

definition with_social :: "(MemoryUserDirectory \<Rightarrow> ('e, 'a) result \<times> MemoryUserDirectory) \<Rightarrow> ChatState \<Rightarrow> ('e, 'a) result \<times> ChatState" where
  "with_social f s =
     (let (r, d) = f ((ch_users s)\<lparr>ud_social := Some (ch_social s)\<rparr>) in
      (r, s\<lparr>ch_users := d, ch_social := (case ud_social d of None \<Rightarrow> ch_social s | Some so \<Rightarrow> so)\<rparr>))"

definition memory_users :: "ChatState UserDirectory" where
  "memory_users =
     \<lparr>us_lookup = \<lambda>app a s. Ok (lookup app a (ch_users s)),
      us_exists = \<lambda>app a s. Ok (user_exists app a (ch_users s)),
      us_profile = \<lambda>app a s. Ok (user_profile app a (ch_users s)),
      us_profiles = \<lambda>app as s. Ok (user_profiles app as (ch_users s)),
      us_search = \<lambda>app q exclude limit s. Ok (user_search app q exclude limit (ch_users s)),
      us_upsert = \<lambda>app a s. (Ok (), s\<lparr>ch_users := user_upsert app a (ch_users s)\<rparr>),
      us_update_profile = \<lambda>app a patch s.
        let (r, d) = update_profile app a patch (ch_users s) in (r, s\<lparr>ch_users := d\<rparr>),
      us_create_bot = \<lambda>app req s.
        let n = create_bot_draws app req (ch_users s);
            (r, s') = with_social (create_bot (Some (ch_ids s 0)) app req) s
        in (r, use_ids n s'),
      us_update_bot = \<lambda>app owner a patch s.
        let (r, d) = update_bot app owner a patch (ch_users s) in (r, s\<lparr>ch_users := d\<rparr>),
      us_delete_bot = \<lambda>app owner a s. with_social (delete_bot app owner a) s\<rparr>"

definition memory_social :: "ChatState SocialDirectory" where
  "memory_social =
     \<lparr>sd_request = \<lambda>app a b s. let (r, so) = social_request app a b (ch_social s) in (r, s\<lparr>ch_social := so\<rparr>),
      sd_accept = \<lambda>app a b s. let (r, so) = social_accept app a b (ch_social s) in (r, s\<lparr>ch_social := so\<rparr>),
      sd_reject = \<lambda>app a b s. (Ok (), s\<lparr>ch_social := social_reject app a b (ch_social s)\<rparr>),
      sd_remove = \<lambda>app a b s. (Ok (), s\<lparr>ch_social := social_remove app a b (ch_social s)\<rparr>),
      sd_block = \<lambda>app a b s. let (r, so) = social_block app a b (ch_social s) in (r, s\<lparr>ch_social := so\<rparr>),
      sd_unblock = \<lambda>app a b s. (Ok (), s\<lparr>ch_social := social_unblock app a b (ch_social s)\<rparr>),
      sd_list_friends = \<lambda>app a s. Ok (list_friends app a (ch_social s)),
      sd_incoming = \<lambda>app a s. Ok (incoming app a (ch_social s)),
      sd_list_blocked = \<lambda>app a s. Ok (list_blocked app a (ch_social s)),
      sd_is_friend = \<lambda>app a b s. Ok (is_friend app a b (ch_social s)),
      sd_is_blocked_either = \<lambda>app a b s. Ok (is_blocked_either app a b (ch_social s))\<rparr>"

definition memory_groups :: "ChatState GroupDirectory" where
  "memory_groups =
     \<lparr>gd_group_create = \<lambda>app req s.
        let (r, d) = group_create (ch_ids s 0) app req (ch_groups s) in (r, use_ids 1 (s\<lparr>ch_groups := d\<rparr>)),
      gd_group_join = \<lambda>app g a s. let (r, d) = group_join app g a (ch_groups s) in (r, s\<lparr>ch_groups := d\<rparr>),
      gd_group_quit = \<lambda>app g a s. let (r, d) = group_quit app g a (ch_groups s) in (r, s\<lparr>ch_groups := d\<rparr>),
      gd_group_members = \<lambda>app g s. group_members app g (ch_groups s),
      gd_group_detail = \<lambda>app g s. group_detail app g (ch_groups s),
      gd_group_summaries = \<lambda>app gs s. group_summaries (\<lambda>g. group_detail app g (ch_groups s)) gs\<rparr>"

definition on_store :: "(MemoryMessageStore \<Rightarrow> 'a \<times> MemoryMessageStore) \<Rightarrow> ChatState \<Rightarrow> 'a \<times> ChatState" where
  "on_store f s = (let (r, m) = f (ch_store s) in (r, s\<lparr>ch_store := m\<rparr>))"

definition on_inner :: "(Inner \<Rightarrow> 'a \<times> Inner) \<Rightarrow> MemoryMessageStore \<Rightarrow> 'a \<times> MemoryMessageStore" where
  "on_inner f m = (let (r, i) = f (mm_inner m) in (r, m\<lparr>mm_inner := i\<rparr>))"

definition memory_store :: "nat \<Rightarrow> int \<Rightarrow> ChatState MessageStore" where
  "memory_store now unix_now =
     \<lparr>mst_insert = \<lambda>app kind req members s.
        let n = insert_draws (ch_ids s) app kind req members (mm_inner (ch_store s));
            (r, s') = on_store (on_inner (insert_msg (mm_pending_receipt (ch_store s)) now (ch_ids s) app kind req members)) s
        in (r, use_ids n s'),
      mst_insert_bot_reply = \<lambda>app owner b irt req s.
        let n = bot_reply_draws app owner b irt req (mm_inner (ch_store s));
            (r, s') = on_store (on_inner (insert_bot_reply (mm_pending_receipt (ch_store s)) now (ch_ids s) app owner b irt req)) s
        in (r, use_ids n s'),
      mst_store_ack = \<lambda>app a t ids. on_store (\<lambda>m. let (r, _, m') = store_ack now app a t ids m in (r, m')),
      mst_offline_index = \<lambda>app a t mid resume. on_store (\<lambda>m. let (r, m') = offline_index now unix_now app a t mid resume m in (Ok r, m')),
      mst_offline_content = \<lambda>app a ids s. Ok (offline_content app a ids (mm_inner (ch_store s))),
      mst_backfill = \<lambda>app a t. on_store (\<lambda>m. (Ok (), backfill_delivery now unix_now app a t m)),
      mst_inbox = \<lambda>app a limit s. Ok (inbox app a limit (mm_inner (ch_store s))),
      mst_history = \<lambda>app a d kind before limit s. Ok (history app a d kind before limit (mm_inner (ch_store s))),
      mst_mark_read = \<lambda>app a d kind mid. on_store (on_inner (\<lambda>i. let (r, i') = mark_read app a d kind mid i in (Ok r, i'))),
      mst_states = \<lambda>app a keys s. Ok (conversation_states app a keys (mm_inner (ch_store s))),
      mst_bot_pending = \<lambda>app owner b limit s. Ok (bot_pending app owner b limit (mm_inner (ch_store s))),
      mst_purge = \<lambda>app a peer. on_store (on_inner (\<lambda>i. (Ok (), purge_peer_dm app a peer i)))\<rparr>"

definition memory_interest :: "ChatState RoomInterestStore" where
  "memory_interest =
     \<lparr>rs_room_enter = \<lambda>app a c d kind s. (Ok (), s\<lparr>ch_interest := room_enter app a c d kind (ch_interest s)\<rparr>),
      rs_room_leave = \<lambda>app a c d kind s. (Ok (), s\<lparr>ch_interest := room_leave app a c d kind (ch_interest s)\<rparr>),
      rs_clear_channel = \<lambda>app a c s. (Ok (), s\<lparr>ch_interest := clear_channel app a c (ch_interest s)\<rparr>),
      rs_viewers = \<lambda>app d kind s. Ok (viewers app d kind (ch_interest s))\<rparr>"

definition memory_specs :: "ChatState AgentSpecStore" where
  "memory_specs =
     \<lparr>sp_spec_list = \<lambda>app owner s. Ok (agent_list app owner (ch_specs s)),
      sp_spec_upsert = \<lambda>app owner rec s. let (r, st) = agent_upsert app owner rec (ch_specs s) in (r, s\<lparr>ch_specs := st\<rparr>),
      sp_account_list = \<lambda>app owner s. Ok (agent_list_accounts app owner (ch_specs s)),
      sp_account_upsert = \<lambda>app owner acc s. let (r, st) = agent_upsert_account app owner acc (ch_specs s) in (r, s\<lparr>ch_specs := st\<rparr>)\<rparr>"

definition memory_svc :: "chat_env \<Rightarrow> ChatState ChatSvc" where
  "memory_svc env =
     \<lparr>sv_codec = en_codec env, sv_disp = en_disp env, sv_filter = en_filter env, sv_unix_nano = en_unix_nano env,
      sv_now_ms = en_now_ms env, sv_pending_receipt = en_pending_receipt env, sv_zone = en_zone env,
      sv_directory_late = en_directory_late env, sv_targets_late = en_targets_late env, sv_push_cut = en_push_cut env,
      sv_members_late = en_members_late env, sv_sessions = memory_sessions, sv_users = memory_users,
      sv_social = memory_social, sv_groups = memory_groups,
      sv_store = memory_store (en_instant env) (en_store_unix env), sv_interest = memory_interest,
      sv_agent_specs = memory_specs\<rparr>"

section \<open>Consistent states\<close>

definition human :: "string \<Rightarrow> string \<Rightarrow> ChatState \<Rightarrow> bool" where
  "human app a s \<longleftrightarrow> human_in (role (ch_users s)) app a"

definition owned :: "Session \<Rightarrow> ChatState \<Rightarrow> bool" where
  "owned se s \<longleftrightarrow> (\<forall>t. mem_get (s_channel_id se) (ch_sessions s) = Ok t \<longrightarrow> s_account t = s_account se)"

definition gsize :: "string \<Rightarrow> string \<Rightarrow> ChatState \<Rightarrow> nat" where
  "gsize app g s = (case hget (ch_groups s) (app, g) of None \<Rightarrow> 0 | Some gr \<Rightarrow> length (g_members gr))"

definition sessions_ok :: "roles \<Rightarrow> MemorySessionStore \<Rightarrow> bool" where
  "sessions_ok R m \<longleftrightarrow> (\<exists>reg. mem_sim m reg \<and> (\<forall>t \<in> set reg. human_in R (s_app t) (s_account t)))"

definition groups_world :: "roles \<Rightarrow> MemoryGroupDirectory \<Rightarrow> bool" where
  "groups_world R gs \<longleftrightarrow> (\<forall>app g gr. hget gs (app, g) = Some gr \<longrightarrow>
     distinct (g_members gr) \<and> length (g_members gr) \<le> MAX_GROUP_MEMBERS \<and> (\<forall>m \<in> set (g_members gr). human_in R app m))"

text \<open>The draws still to come are distinct and none is the identifier of a stored message.\<close>

definition ids_fresh :: "(nat \<Rightarrow> (IdError, int) result) \<Rightarrow> Inner \<Rightarrow> bool" where
  "ids_fresh ids i \<longleftrightarrow> (\<forall>j k a. ids j = Ok a \<longrightarrow> ids k = Ok a \<longrightarrow> j = k) \<and> (\<forall>j a. ids j = Ok a \<longrightarrow> hget (in_contents i) a = None)"

definition chat_ok :: "ChatState \<Rightarrow> bool" where
  "chat_ok s \<longleftrightarrow> sessions_ok (role (ch_users s)) (ch_sessions s) \<and> groups_world (role (ch_users s)) (ch_groups s)
     \<and> social_world (role (ch_users s)) (ch_social s) \<and> social_reach (ch_social s) \<and> users_inv (ch_users s)
     \<and> msg_reach (ch_store s) \<and> ids_fresh (ch_ids s) (mm_inner (ch_store s))"

lemma more_humans:
  assumes "\<And>app a. human_in R app a \<Longrightarrow> human_in R' app a"
  shows "sessions_ok R m \<Longrightarrow> sessions_ok R' m" "groups_world R gs \<Longrightarrow> groups_world R' gs"
  using assms unfolding sessions_ok_def groups_world_def by blast+

lemma chat_ok_users:
  assumes "chat_ok s" "users_inv d" "social_reach so" "social_world (role d) so"
    "\<And>app a. human_in (role (ch_users s)) app a \<Longrightarrow> human_in (role d) app a"
  shows "chat_ok (s\<lparr>ch_users := d, ch_social := so\<rparr>)"
  using assms(1-4) more_humans[of "role (ch_users s)" "role d", OF assms(5)] by (simp add: chat_ok_def)

section \<open>Users and the social graph\<close>

lemma ok_upsert:
  assumes "chat_ok s"
  shows "chat_ok (s\<lparr>ch_users := user_upsert app a (ch_users s)\<rparr>)"
proof -
  let ?R = "role (ch_users s)"
  have "social_world (role (user_upsert app a (ch_users s))) (ch_social s)"
    using assms world_new_human[of ?R "ch_social s" app a] by (simp add: role_upsert chat_ok_def)
  moreover have "human_in (role (user_upsert app a (ch_users s))) app' b" if "human_in ?R app' b" for app' b
    using that by (auto simp: role_upsert set_role_def)
  ultimately show ?thesis
    using chat_ok_users[OF assms, of "user_upsert app a (ch_users s)" "ch_social s"]
      user_step_inv[OF user_step.upsert] assms by (simp add: chat_ok_def)
qed

lemma ok_same_roles:
  assumes "chat_ok s" "role d = role (ch_users s)" "users_inv d"
  shows "chat_ok (s\<lparr>ch_users := d\<rparr>)"
  using assms by (simp add: chat_ok_def)

lemma users_inv_social: "users_inv (d\<lparr>ud_social := x\<rparr>) = users_inv d"
  by (simp add: users_inv_def)

lemma role_social: "role (d\<lparr>ud_social := x\<rparr>) = role d"
  by (intro ext) (simp add: role_def)

lemma ok_create_bot:
  assumes "chat_ok s" "human app (cb_owner req) s" "with_social (create_bot idgen app req) s = (r, s')"
  shows "chat_ok s'"
proof -
  let ?d = "(ch_users s)\<lparr>ud_social := Some (ch_social s)\<rparr>"
  obtain d' where d: "create_bot idgen app req ?d = (r, d')"
    "s' = s\<lparr>ch_users := d', ch_social := (case ud_social d' of None \<Rightarrow> ch_social s | Some so \<Rightarrow> so)\<rparr>"
    using assms(3) by (auto simp: with_social_def Let_def split: prod.splits)
  obtain so' where so: "ud_social d' = Some so'" "social_reach so'" "social_world (role d') so'" "users_inv d'"
    "\<forall>app' a. human_in (role ?d) app' a \<longrightarrow> human_in (role d') app' a"
    using create_bot_world[OF d(1), of "ch_social s"] assms(1,2)
    by (auto simp: chat_ok_def human_def users_inv_social role_social)
  then show ?thesis using chat_ok_users[OF assms(1) so(4,2,3)] d(2) by (simp add: role_social)
qed

lemma ok_delete_bot:
  assumes "chat_ok s" "with_social (delete_bot app owner b) s = (r, s')"
  shows "chat_ok s'"
proof -
  let ?d = "(ch_users s)\<lparr>ud_social := Some (ch_social s)\<rparr>"
  obtain d' where d: "delete_bot app owner b ?d = (r, d')"
    "s' = s\<lparr>ch_users := d', ch_social := (case ud_social d' of None \<Rightarrow> ch_social s | Some so \<Rightarrow> so)\<rparr>"
    using assms(2) by (auto simp: with_social_def Let_def split: prod.splits)
  have inv: "users_inv d'"
    using user_step_inv[OF user_step.delete[of ?d app owner b]] assms(1) d(1) by (simp add: chat_ok_def users_inv_social)
  from role_delete_bot[OF d(1)] show ?thesis
  proof
    assume "d' = ?d"
    then have "s' = s\<lparr>ch_users := ?d, ch_social := ch_social s\<rparr>" using d(2) by simp
    then show ?thesis using chat_ok_users[OF assms(1), of ?d "ch_social s"] assms(1)
      by (simp add: chat_ok_def users_inv_social role_social)
  next
    assume h: "bot_in (role ?d) app b owner \<and> role d' = set_role app b None (role ?d)
      \<and> ud_social d' = map_option (social_remove app owner b) (ud_social ?d)"
    then have s': "s' = s\<lparr>ch_users := d', ch_social := social_remove app owner b (ch_social s)\<rparr>" using d(2) by simp
    have "social_world (role d') (social_remove app owner b (ch_social s))"
      using h world_delete_bot[of "role (ch_users s)" "ch_social s" app b owner] assms(1) by (simp add: role_social chat_ok_def)
    moreover have "social_reach (social_remove app owner b (ch_social s))"
      using social_reach.step[OF _ social_step.remove] assms(1) by (simp add: chat_ok_def)
    moreover have "human_in (role d') app' a" if "human_in (role (ch_users s)) app' a" for app' a
      using that h by (auto simp: role_social set_role_def)
    ultimately show ?thesis using chat_ok_users[OF assms(1) inv] s' by simp
  qed
qed

lemma ok_social:
  assumes "chat_ok s" "social_step (ch_social s) so" "social_world (role (ch_users s)) so"
  shows "chat_ok (s\<lparr>ch_social := so\<rparr>)"
  using assms social_reach.step by (auto simp: chat_ok_def)

section \<open>Sessions and groups\<close>

lemma owns_get: "mem_sim m r \<Longrightarrow> owns a c r \<longleftrightarrow> (\<forall>t. mem_get c m = Ok t \<longrightarrow> s_account t = a)"
proof -
  assume m: "mem_sim m r"
  have d: "distinct (map s_channel_id r)" using m by (simp add: mem_sim_def)
  have "(\<exists>t \<in> set r. s_channel_id t = c \<and> s_account t \<noteq> a) \<longleftrightarrow> (\<exists>t. reg_get c r = Ok t \<and> s_account t \<noteq> a)"
    using d
  proof (induction r)
    case (Cons x r)
    then show ?case by (auto simp: reg_get_def image_iff)
  qed (simp add: reg_get_def)
  then show ?thesis by (auto simp: mem_sim_get[OF m] owns_def list_all_iff)
qed

lemma ok_sess_add:
  assumes "chat_ok s" "owned se s" "human (s_app se) (s_account se) s"
  shows "chat_ok (s\<lparr>ch_sessions := snd (mem_add se (ch_sessions s))\<rparr>)"
proof -
  obtain reg where r: "mem_sim (ch_sessions s) reg" "\<forall>t \<in> set reg. human_in (role (ch_users s)) (s_app t) (s_account t)"
    using assms(1) by (auto simp: chat_ok_def sessions_ok_def)
  have "owns (s_account se) (s_channel_id se) reg" using assms(2) owns_get[OF r(1)] by (simp add: owned_def)
  note sim = mem_sim_add[OF r(1) this]
  have "\<forall>t \<in> set (reg_add se reg). human_in (role (ch_users s)) (s_app t) (s_account t)"
    using r(2) assms(3) by (auto simp: reg_add_def human_def)
  then show ?thesis using assms(1) sim by (auto simp: chat_ok_def sessions_ok_def)
qed

lemma ok_sess_delete:
  assumes "chat_ok s" "owned se s"
  shows "chat_ok (s\<lparr>ch_sessions := snd (mem_delete (s_account se) (s_channel_id se) (ch_sessions s))\<rparr>)"
proof -
  obtain reg where r: "mem_sim (ch_sessions s) reg" "\<forall>t \<in> set reg. human_in (role (ch_users s)) (s_app t) (s_account t)"
    using assms(1) by (auto simp: chat_ok_def sessions_ok_def)
  have "owns (s_account se) (s_channel_id se) reg" using assms(2) owns_get[OF r(1)] by (simp add: owned_def)
  note sim = mem_sim_delete[OF r(1) this]
  have "\<forall>t \<in> set (reg_delete (s_channel_id se) reg). human_in (role (ch_users s)) (s_app t) (s_account t)"
    using r(2) by (auto simp: reg_delete_def)
  then show ?thesis using assms(1) sim by (auto simp: chat_ok_def sessions_ok_def)
qed

lemma get_session:
  assumes "chat_ok s" "mem_get c (ch_sessions s) = Ok se"
  shows "human (s_app se) (s_account se) s \<and> owned se s"
proof -
  obtain reg where r: "mem_sim (ch_sessions s) reg" "\<forall>t \<in> set reg. human_in (role (ch_users s)) (s_app t) (s_account t)"
    using assms(1) by (auto simp: chat_ok_def sessions_ok_def)
  have "reg_get c reg = Ok se" using assms(2) mem_sim_get[OF r(1)] by simp
  then have "se \<in> set reg \<and> s_channel_id se = c" by (auto simp: reg_get_def find_Some_iff split: option.splits)
  then show ?thesis using r(2) assms(2) by (auto simp: human_def owned_def)
qed

lemma mem_add_get: "mem_get (s_channel_id se) (snd (mem_add se m)) = Ok se"
  by (simp add: mem_get_def mem_add_def Let_def)

lemma ok_group:
  assumes "chat_ok s" "distinct (g_members gr)" "length (g_members gr) \<le> MAX_GROUP_MEMBERS" "\<forall>m \<in> set (g_members gr). human app m s"
  shows "chat_ok (s\<lparr>ch_groups := hput (app, g) gr (ch_groups s)\<rparr>)"
  using assms by (auto simp: chat_ok_def groups_world_def human_def split: if_splits)

section \<open>The message store\<close>

lemma ids_drop: "ids_fresh ids i \<Longrightarrow> ids_fresh (\<lambda>k. ids (n + k)) i"
  unfolding ids_fresh_def by (metis add_left_cancel)

lemma ok_use_ids: "chat_ok s \<Longrightarrow> chat_ok (use_ids n s)"
  by (simp add: chat_ok_def use_ids_def ids_drop)

lemma ids_fresh_grow:
  assumes "ids_fresh ids i" "\<And>a. hget (in_contents i') a \<noteq> None \<Longrightarrow> hget (in_contents i) a \<noteq> None \<or> (\<exists>k < n. ids k = Ok a)"
  shows "ids_fresh (\<lambda>k. ids (n + k)) i'"
proof -
  have "hget (in_contents i') a = None" if "ids (n + j) = Ok a" for j a
  proof (rule ccontr)
    assume "hget (in_contents i') a \<noteq> None"
    then consider "hget (in_contents i) a \<noteq> None" | k where "k < n" "ids k = Ok a" using assms(2) by blast
    then show False
    proof cases
      case 1
      then show ?thesis using assms(1) that by (auto simp: ids_fresh_def)
    next
      case (2 k)
      then have "k = n + j" using assms(1) that unfolding ids_fresh_def by blast
      then show ?thesis using 2(1) by simp
    qed
  qed
  then show ?thesis using ids_drop[OF assms(1), of n] unfolding ids_fresh_def by blast
qed

lemma ok_store:
  assumes "chat_ok s" "msg_step (ch_store s) m"
    "\<And>a. hget (in_contents (mm_inner m)) a \<noteq> None \<Longrightarrow> hget (in_contents (mm_inner (ch_store s))) a \<noteq> None \<or> (\<exists>k < n. ch_ids s k = Ok a)"
  shows "chat_ok (use_ids n (s\<lparr>ch_store := m\<rparr>))"
  using assms ids_fresh_grow[of "ch_ids s" "mm_inner (ch_store s)" "mm_inner m" n] msg_reach.step
  by (auto simp: chat_ok_def use_ids_def)

lemma use_none [simp]: "use_ids 0 s = s"
  by (simp add: use_ids_def)

lemma ok_store_same:
  assumes "chat_ok s" "msg_step (ch_store s) m" "\<And>a. hget (in_contents (mm_inner m)) a \<noteq> None \<Longrightarrow> hget (in_contents (mm_inner (ch_store s))) a \<noteq> None"
  shows "chat_ok (s\<lparr>ch_store := m\<rparr>)"
  using ok_store[OF assms(1,2), of 0] assms(3) by simp

lemma insert_msg_contents:
  assumes "hget (in_contents (snd (insert_msg receipts now gen app kind req members i))) a \<noteq> None"
  shows "hget (in_contents i) a \<noteq> None \<or> gen 0 = Ok a \<and> insert_draws gen app kind req members i > 0"
proof -
  obtain q t where e: "insert_msg receipts now gen app kind req members i = (q, t)" by fastforce
  show ?thesis
  proof (cases q)
    case (Inl err)
    then show ?thesis using insert_msg_err_contents[of receipts now gen app kind req members i err t] e assms by simp
  next
    case (Inr res)
    show ?thesis
    proof (cases "res_duplicate res")
      case True
      then show ?thesis using insert_msg_dup_contents[of receipts now gen app kind req members i res t] e Inr assms by simp
    next
      case False
      note n = insert_msg_new_contents[OF e[unfolded Inr] False]
      have none: "(if im_client_id req \<noteq> [] then hget (in_idempotency i) (idem_key app req) else None) = None"
        using e Inr False by (auto simp: insert_msg_def split: option.splits sum.splits if_splits prod.splits)
      have "insert_draws gen app kind req members i > 0" unfolding insert_draws_def none using n by simp
      then show ?thesis using n assms e by (auto split: if_splits)
    qed
  qed
qed

lemma Inner_of: "mm_inner (m\<lparr>mm_inner := i\<rparr>) = i"
  by simp

lemma ok_insert:
  assumes "chat_ok s" "kind = GroupMsg \<longrightarrow> im_dest req \<noteq> []"
  shows "chat_ok (snd (mst_insert (memory_store now unow) app kind req members s))"
proof -
  let ?i = "mm_inner (ch_store s)"
  let ?n = "insert_draws (ch_ids s) app kind req members ?i"
  let ?m = "(ch_store s)\<lparr>mm_inner := snd (insert_msg (mm_pending_receipt (ch_store s)) now (ch_ids s) app kind req members ?i)\<rparr>"
  have "write_step (ch_store s) ?m"
    using assms by (intro write_step.insert) (auto simp: chat_ok_def ids_fresh_def)
  then have "chat_ok (use_ids ?n (s\<lparr>ch_store := ?m\<rparr>))"
    by (rule ok_store[OF assms(1) msg_step.wstep]) (use insert_msg_contents in \<open>simp only: Inner_of, blast\<close>)
  then show ?thesis by (simp add: memory_store_def Let_def on_store_def on_inner_def split_beta)
qed

lemma bot_reply_contents:
  assumes "hget (in_contents (snd (insert_bot_reply receipts now gen app owner b irt req i))) a \<noteq> None"
  shows "hget (in_contents i) a \<noteq> None \<or> gen 0 = Ok a \<and> bot_reply_draws app owner b irt req i > 0"
proof (cases "bot_reply_draws app owner b irt req i > 0")
  case True
  then show ?thesis
    using assms by (auto simp: insert_bot_reply_def bot_reply_commit_def bot_reply_draws_def Let_def
        split: if_splits option.splits sum.splits)
next
  case False
  then have "in_contents (snd (insert_bot_reply receipts now gen app owner b irt req i)) = in_contents i"
    by (auto simp: insert_bot_reply_def bot_reply_commit_def bot_reply_draws_def Let_def split: option.split prod.split)
  then show ?thesis using assms by simp
qed

lemma ok_bot_reply:
  assumes "chat_ok s"
  shows "chat_ok (snd (mst_insert_bot_reply (memory_store now unow) app owner b irt req s))"
proof -
  let ?i = "mm_inner (ch_store s)"
  let ?n = "bot_reply_draws app owner b irt req ?i"
  let ?m = "(ch_store s)\<lparr>mm_inner := snd (insert_bot_reply (mm_pending_receipt (ch_store s)) now (ch_ids s) app owner b irt req ?i)\<rparr>"
  have "write_step (ch_store s) ?m"
    using assms by (intro write_step.bot_reply) (auto simp: chat_ok_def ids_fresh_def)
  then have "chat_ok (use_ids ?n (s\<lparr>ch_store := ?m\<rparr>))"
    by (rule ok_store[OF assms(1) msg_step.wstep]) (use bot_reply_contents in \<open>simp only: Inner_of, blast\<close>)
  then show ?thesis by (simp add: memory_store_def Let_def on_store_def on_inner_def split_beta)
qed

lemma store_contents:
  "in_contents (mm_inner (snd (snd (store_ack now app a t ids m)))) = in_contents (mm_inner m)"
  "in_contents (mm_inner (backfill_delivery now unow app a t m)) = in_contents (mm_inner m)"
  "in_contents (snd (mark_read app a d kind mid i)) = in_contents i"
  by (simp_all add: store_ack_def backfill_delivery_def mark_read_def bump_version_def Let_def split_beta)

lemma purge_contents:
  "hget (in_contents (purge_peer_dm app a peer i)) mid \<noteq> None \<Longrightarrow> hget (in_contents i) mid \<noteq> None"
  by (auto simp: purge_peer_dm_def Let_def split_beta purge_messages_contents split: if_splits)

lemma ok_store_ops:
  assumes "chat_ok s"
  shows "chat_ok (snd (mst_store_ack (memory_store now unow) app a t ids s))"
    "chat_ok (snd (mst_offline_index (memory_store now unow) app a t mid resume s))"
    "chat_ok (snd (mst_backfill (memory_store now unow) app a t s))"
    "chat_ok (snd (mst_mark_read (memory_store now unow) app a d kind mid s))"
    "chat_ok (snd (mst_purge (memory_store now unow) app a peer s))"
proof -
  note st = ok_store_same[OF assms msg_step.wstep]
  have "chat_ok (s\<lparr>ch_store := snd (snd (store_ack now app a t ids (ch_store s)))\<rparr>)"
    by (rule st[OF write_step.ack]) (simp add: store_contents)
  then show "chat_ok (snd (mst_store_ack (memory_store now unow) app a t ids s))"
    by (simp add: memory_store_def on_store_def split_beta Let_def)
  have "chat_ok (s\<lparr>ch_store := snd (offline_index now unow app a t mid resume (ch_store s))\<rparr>)"
    by (rule st[OF write_step.offline]) (simp add: offline_index_inner)
  then show "chat_ok (snd (mst_offline_index (memory_store now unow) app a t mid resume s))"
    by (simp add: memory_store_def on_store_def split_beta Let_def)
  have "chat_ok (s\<lparr>ch_store := backfill_delivery now unow app a t (ch_store s)\<rparr>)"
    by (rule st[OF write_step.backfill]) (simp add: store_contents)
  then show "chat_ok (snd (mst_backfill (memory_store now unow) app a t s))"
    by (simp add: memory_store_def on_store_def split_beta Let_def)
  have "chat_ok (s\<lparr>ch_store := (ch_store s)\<lparr>mm_inner := snd (mark_read app a d kind mid (mm_inner (ch_store s)))\<rparr>\<rparr>)"
    by (rule st[OF write_step.read]) (simp add: store_contents)
  then show "chat_ok (snd (mst_mark_read (memory_store now unow) app a d kind mid s))"
    by (simp add: memory_store_def on_store_def on_inner_def split_beta Let_def)
  have "chat_ok (s\<lparr>ch_store := (ch_store s)\<lparr>mm_inner := purge_peer_dm app a peer (mm_inner (ch_store s))\<rparr>\<rparr>)"
    by (rule ok_store_same[OF assms msg_step.purge]) (simp only: Inner_of, rule purge_contents)
  then show "chat_ok (snd (mst_purge (memory_store now unow) app a peer s))"
    by (simp add: memory_store_def on_store_def on_inner_def split_beta Let_def)
qed

section \<open>The contract is fulfilled\<close>

lemma memory_fields [simp]:
  "sv_codec (memory_svc env) = en_codec env" "sv_zone (memory_svc env) = en_zone env"
  "sv_sessions (memory_svc env) = memory_sessions" "sv_users (memory_svc env) = memory_users"
  "sv_social (memory_svc env) = memory_social" "sv_groups (memory_svc env) = memory_groups"
  "sv_store (memory_svc env) = memory_store (en_instant env) (en_store_unix env)"
  "sv_interest (memory_svc env) = memory_interest" "sv_agent_specs (memory_svc env) = memory_specs"
  by (simp_all add: memory_svc_def)

lemma frames:
  "chat_ok (s\<lparr>hb_gens := x\<rparr>) = chat_ok s" "chat_ok (s\<lparr>hb_tasks := ts\<rparr>) = chat_ok s"
  "chat_ok (s\<lparr>ch_interest := ri\<rparr>) = chat_ok s" "chat_ok (s\<lparr>ch_specs := sp\<rparr>) = chat_ok s"
  "human app a (s\<lparr>ch_groups := gs\<rparr>) = human app a s"
  by (simp_all add: chat_ok_def human_def)

lemma lookup_role:
  "lookup app a (ch_users s) = Some p \<Longrightarrow> up_kind p \<noteq> PROFILE_KIND_BOT \<Longrightarrow> human app a s"
  by (auto simp: lookup_def presence_from_record_def human_def role_def)

lemma not_bot_role: "not_bot_account (memory_svc env) app a s \<Longrightarrow> \<not> bot_in (role (ch_users s)) app a owner"
  by (auto simp: not_bot_account_def memory_users_def lookup_def presence_from_record_def role_def split: if_splits)

lemma ok_rooms_specs:
  assumes "chat_ok s"
  shows "chat_ok (snd (rs_room_enter memory_interest app a c d n s))"
    "chat_ok (snd (rs_room_leave memory_interest app a c d n s))"
    "chat_ok (snd (rs_clear_channel memory_interest app a c s))"
    "chat_ok (snd (sp_spec_upsert memory_specs app a rec s))"
    "chat_ok (snd (sp_account_upsert memory_specs app a acc s))"
  using assms by (simp_all add: memory_interest_def memory_specs_def split_beta Let_def frames)

lemma ok_user_ops:
  assumes "chat_ok s"
  shows "chat_ok (snd (us_update_profile memory_users app a patch s))"
    "chat_ok (snd (us_update_bot memory_users app a b bpatch s))"
    "human app (cb_owner req) s \<Longrightarrow> chat_ok (snd (us_create_bot memory_users app req s))"
    "chat_ok (snd (us_delete_bot memory_users app a b s))"
proof -
  have u: "users_inv (ch_users s)" using assms by (simp add: chat_ok_def)
  show "chat_ok (snd (us_update_profile memory_users app a patch s))"
    using ok_same_roles[OF assms role_update(1) user_step_inv[OF user_step.profile u]]
    by (simp add: memory_users_def split_beta Let_def)
  have "users_inv (snd (update_bot app a b bpatch (ch_users s)))"
    using user_step_inv[OF user_step.write_bot u] u by (auto simp: update_bot_def split: sum.split)
  from ok_same_roles[OF assms role_update(2) this] show "chat_ok (snd (us_update_bot memory_users app a b bpatch s))"
    by (simp add: memory_users_def split_beta Let_def)
  show "chat_ok (snd (us_delete_bot memory_users app a b s))"
    using ok_delete_bot[OF assms, of app a b] by (simp add: memory_users_def) (metis prod.collapse)
  assume "human app (cb_owner req) s"
  from ok_create_bot[OF assms this] show "chat_ok (snd (us_create_bot memory_users app req s))"
    by (simp add: memory_users_def split_beta Let_def ok_use_ids) (metis prod.collapse ok_use_ids)
qed

lemma ok_social_ops:
  assumes "chat_ok s"
  shows "human app a s \<Longrightarrow> human app b s \<Longrightarrow> chat_ok (snd (sd_request memory_social app a b s))"
    "chat_ok (snd (sd_accept memory_social app a b s))"
    "chat_ok (snd (sd_reject memory_social app a b s))"
    "chat_ok (snd (sd_unblock memory_social app a b s))"
    "human app a s \<Longrightarrow> (\<And>o'. \<not> bot_in (role (ch_users s)) app b o') \<Longrightarrow> chat_ok (snd (sd_remove memory_social app a b s))"
    "human app a s \<Longrightarrow> human app b s \<Longrightarrow> chat_ok (snd (sd_block memory_social app a b s))"
proof -
  note op = ok_social[OF assms]
  have w: "social_world (role (ch_users s)) (ch_social s)" using assms by (simp add: chat_ok_def)
  show "chat_ok (snd (sd_accept memory_social app a b s))" "chat_ok (snd (sd_reject memory_social app a b s))"
    "chat_ok (snd (sd_unblock memory_social app a b s))"
    using op[OF social_step.accept social_accept_world[OF w]] op[OF social_step.reject social_shrink_world(1)[OF w]]
      op[OF social_step.unblock social_shrink_world(2)[OF w]]
    by (simp_all add: memory_social_def split_beta Let_def)
  show "chat_ok (snd (sd_request memory_social app a b s))" if "human app a s" "human app b s"
    using op[OF social_step.request social_request_world[OF w]] that
    by (simp add: memory_social_def split_beta Let_def human_def)
  show "chat_ok (snd (sd_block memory_social app a b s))" if "human app a s" "human app b s"
    using op[OF social_step.block social_block_world[OF w]] that
    by (simp add: memory_social_def split_beta Let_def human_def)
  show "chat_ok (snd (sd_remove memory_social app a b s))"
    if "human app a s" "\<And>o'. \<not> bot_in (role (ch_users s)) app b o'"
  proof -
    have "social_world (role (ch_users s)) (social_remove app a b (ch_social s))"
      unfolding social_remove_def by (rule world_remove_friend[OF w]) (use that in \<open>simp_all add: human_def\<close>)
    from op[OF social_step.remove this] show ?thesis by (simp add: memory_social_def)
  qed
qed

lemma ok_group_create:
  assumes "chat_ok s" "length (normalize_members (cg_owner req) (cg_members req)) \<le> MAX_GROUP_MEMBERS"
    "\<forall>m \<in> set (normalize_members (cg_owner req) (cg_members req)). human app m s"
  shows "chat_ok (snd (gd_group_create memory_groups app req s))"
proof (cases "ch_ids s 0")
  case (Inl e)
  then show ?thesis using assms(1) by (simp add: memory_groups_def group_create_def ok_use_ids)
next
  case (Inr i)
  have "distinct (normalize_members (cg_owner req) (cg_members req))"
    by (auto simp: normalize_members_def Let_def distinct_dedup_loop set_dedup_loop)
  then show ?thesis
    using assms Inr by (simp add: memory_groups_def group_create_def Let_def ok_use_ids ok_group)
qed

lemma ok_group_ops:
  assumes "chat_ok s"
  shows "human app a s \<Longrightarrow> gsize app g s < MAX_GROUP_MEMBERS \<Longrightarrow> chat_ok (snd (gd_group_join memory_groups app g a s))"
    "chat_ok (snd (gd_group_quit memory_groups app g a s))"
proof -
  have old: "distinct (g_members gr) \<and> length (g_members gr) \<le> MAX_GROUP_MEMBERS \<and> (\<forall>m \<in> set (g_members gr). human app m s)"
    if "hget (ch_groups s) (app, g) = Some gr" for gr
    using assms that by (auto simp: chat_ok_def groups_world_def human_def)
  show "chat_ok (snd (gd_group_join memory_groups app g a s))" if "human app a s" "gsize app g s < MAX_GROUP_MEMBERS"
  proof (cases "a = [] \<or> hget (ch_groups s) (app, g) = None")
    case True
    then show ?thesis using assms by (auto simp: memory_groups_def group_join_def)
  next
    case False
    then obtain gr where gr: "hget (ch_groups s) (app, g) = Some gr" "a \<noteq> []" by auto
    then show ?thesis
      using assms old[OF gr(1)] that by (auto simp: memory_groups_def group_join_def gsize_def intro!: ok_group)
  qed
  show "chat_ok (snd (gd_group_quit memory_groups app g a s))"
  proof (cases "hget (ch_groups s) (app, g)")
    case None
    then show ?thesis using assms by (simp add: memory_groups_def group_quit_def)
  next
    case (Some gr)
    have "length (filter (\<lambda>m. m \<noteq> a) (g_members gr)) \<le> MAX_GROUP_MEMBERS"
      using old[OF Some] length_filter_le[of "\<lambda>m. m \<noteq> a" "g_members gr"] by linarith
    then show ?thesis using assms old[OF Some] Some by (auto simp: memory_groups_def group_quit_def intro!: ok_group)
  qed
qed

lemma group_join_effects:
  "gsize app g (snd (gd_group_join memory_groups app g a s)) \<le> Suc (gsize app g s)"
  "human app b (snd (gd_group_join memory_groups app g a s)) = human app b s"
  "gd_group_detail memory_groups app g s = Ok info \<Longrightarrow> gsize app g s = length (gi_members info)"
  by (auto simp: memory_groups_def group_join_def gsize_def human_def group_detail_def split_beta Let_def split: option.splits)

interpretation memory: chat_backend "memory_svc env" chat_ok human owned gsize for env
proof (unfold_locales, goal_cases)
  case (5 s ch se)
  then show ?case using get_session by (simp add: memory_sessions_def)
next
  case (6 s app a)
  then show ?case using ok_upsert by (simp add: memory_users_def)
next
  case (7 s app a)
  have "role (ch_users s) app a \<in> {None, Some None}"
    using not_bot_role[OF 7(2)] by (cases "role (ch_users s) app a"; cases "the (role (ch_users s) app a)") auto
  then show ?case by (auto simp: memory_users_def human_def role_upsert set_role_def)
next
  case (8 s se app a)
  then show ?case by (simp add: memory_users_def owned_def)
next
  case (9 s se)
  then show ?case using ok_sess_add by (simp add: memory_sessions_def split_beta Let_def)
next
  case (10 s se)
  then show ?case using mem_add_get by (simp add: memory_sessions_def split_beta Let_def owned_def)
next
  case (11 s se)
  then show ?case using ok_sess_delete by (simp add: memory_sessions_def split_beta Let_def)
next
  case (13 s se app a t)
  then show ?case by (simp add: memory_store_def on_store_def owned_def)
next
  case (3 s app a p)
  then show ?case using lookup_role by (simp add: memory_users_def)
next
  case (4 s app a)
  then show ?case using lookup_role by (auto simp: memory_users_def user_exists_def not_bot_account_def lookup_def)
qed (simp_all add: frames ok_store_ops ok_insert ok_bot_reply ok_rooms_specs ok_user_ops ok_social_ops ok_group_create
  ok_group_ops group_join_effects not_bot_role)

end
