(* ===== verification/Kim_Chat_System.thy ===== *)
theory Kim_Chat_System
  imports Kim_Chat_Memory
begin

text \<open>
  The running service: a state machine whose steps are the treatment of a packet and the steps of the
  presence tasks, in any order, each with its own clocks, timers and network outcomes. What holds in
  every state it reaches, and what an unauthenticated request can do.
\<close>

section \<open>The state machine\<close>

text \<open>The identifier generator never draws the same identifier twice.\<close>

definition distinct_draws :: "(nat \<Rightarrow> (IdError, int) result) \<Rightarrow> bool" where
  "distinct_draws ids \<longleftrightarrow> (\<forall>j k a. ids j = Ok a \<longrightarrow> ids k = Ok a \<longrightarrow> j = k)"

text \<open>Gateways name a connection after its account: a login's channel is not one of another account.\<close>

definition login_owned :: "(byte list \<Rightarrow> (string, Header) result) \<Rightarrow> chat_env \<Rightarrow> byte list \<Rightarrow> ChatState \<Rightarrow> bool" where
  "login_owned dec_header env raw s \<longleftrightarrow>
     (\<forall>pkt se. read_logic dec_header raw = Ok pkt \<longrightarrow> Command_parse (h_command (lp_header pkt)) = Some LoginSignIn \<longrightarrow>
        cd_session (en_codec env) (lp_body pkt) = Ok se \<longrightarrow> owned se s)"

inductive chat_step :: "ChatState \<Rightarrow> ChatState \<Rightarrow> bool" where
  packet: "login_owned dec_header env raw s \<Longrightarrow> receive dec_header (memory_svc env) raw s log = (r, s', log') \<Longrightarrow> chat_step s s'"
| task: "task_step (memory_svc env) i s log = (r, s', log') \<Longrightarrow> chat_step s s'"

inductive chat_reach :: "ChatState \<Rightarrow> bool" where
  start: "distinct_draws ids \<Longrightarrow> chat_reach (chat_new pending_receipt ids)"
| step: "chat_reach s \<Longrightarrow> chat_step s s' \<Longrightarrow> chat_reach s'"

lemma chat_new_ok: "distinct_draws ids \<Longrightarrow> chat_ok (chat_new pending_receipt ids)"
proof -
  assume ids: "distinct_draws ids"
  have r: "role (user_dir_new None) app a = None" for app a by (simp add: role_def user_dir_new_def)
  have "sessions_ok R mem_new" for R using mem_sim_new by (force simp: sessions_ok_def)
  moreover have "social_world (role (user_dir_new None)) social_new" by (simp add: social_world_def social_new_def r)
  moreover have "users_inv (user_dir_new None)" by (rule user_reach_inv[OF user_reach.start])
  ultimately show ?thesis
    using ids social_reach.start msg_reach.start
    by (simp add: chat_ok_def chat_new_def groups_world_def ids_fresh_def distinct_draws_def message_store_new_def Inner_default_def)
qed

lemma owned_zoned: "owned se s \<Longrightarrow> owned (memory.zoned env se) s"
  by (simp add: owned_def memory.zoned_def)

lemma chat_step_ok: "chat_step s s' \<Longrightarrow> chat_ok s \<Longrightarrow> chat_ok s'"
proof (induction rule: chat_step.induct)
  case (packet dec_header env raw s log r s' log')
  have "post (receive dec_header (memory_svc env) raw) chat_ok s"
    by (rule memory.receive_keeps[OF packet(3)]) (use packet(1) owned_zoned in \<open>auto simp: login_owned_def\<close>)
  then show ?case using packet(2) by (rule postD)
next
  case (task env i s log r s' log')
  then show ?case using postD[OF memory.task_keeps] by blast
qed

lemma chat_reach_ok: "chat_reach s \<Longrightarrow> chat_ok s"
  by (induction rule: chat_reach.induct) (auto intro: chat_new_ok chat_step_ok)

section \<open>A run\<close>

text \<open>A codec that decodes fixed bodies, and a network that takes every push: alice logs in and creates a bot
  and a group.\<close>

definition demo_codec :: chat_codec where
  "demo_codec =
     \<lparr>cd_message = \<lambda>_. Err Incomplete, cd_ack = \<lambda>_. Err Incomplete, cd_index = \<lambda>_. Err Incomplete, cd_content = \<lambda>_. Err Incomplete,
      cd_inbox = \<lambda>_. Err Incomplete, cd_history = \<lambda>_. Err Incomplete, cd_read = \<lambda>_. Err Incomplete, cd_states = \<lambda>_. Err Incomplete,
      cd_group_create = \<lambda>_. Ok \<lparr>gcq_name = ''team'', gcq_avatar = [], gcq_introduction = [], gcq_owner = [], gcq_members = []\<rparr>,
      cd_group_join = \<lambda>_. Err Incomplete, cd_group_quit = \<lambda>_. Err Incomplete, cd_group_invite = \<lambda>_. Err Incomplete,
      cd_profile_update = \<lambda>_. Err Incomplete, cd_search = \<lambda>_. Err Incomplete, cd_room_enter = \<lambda>_. Err Incomplete,
      cd_room_leave = \<lambda>_. Err Incomplete, cd_typing = \<lambda>_. Err Incomplete,
      cd_bot_create = \<lambda>_. Ok \<lparr>bcq_client_profile_id = ''p1'', bcq_nickname = [], bcq_avatar = [], bcq_bio = [],
        bcq_model = ''m'', bcq_thinking_effort = [], bcq_context_tokens = Some 0, bcq_visibility = []\<rparr>,
      cd_bot_update = \<lambda>_. Err Incomplete, cd_bot_reply = \<lambda>_. Err Incomplete, cd_agent_upsert = \<lambda>_. Err Incomplete,
      cd_session = \<lambda>_. Ok \<lparr>s_channel_id = ''alice_1'', s_gate_id = ''gw'', s_account = ''alice'', s_zone = [], s_isp = [],
        s_remote_ip = [], s_device = [], s_app = ''kim'', s_tags = [], s_jti = ''j'', s_device_id = []\<rparr>,
      cd_enc = \<lambda>_. []\<rparr>"

definition demo_env :: chat_env where
  "demo_env =
     \<lparr>en_codec = demo_codec, en_disp = \<lambda>_ _. Ok (), en_filter = \<lambda>_. Ok (), en_pending_receipt = False, en_zone = [],
      en_instant = 0, en_unix_nano = 1, en_store_unix = 1, en_now_ms = 1, en_directory_late = False,
      en_targets_late = False, en_push_cut = None, en_members_late = False\<rparr>"

definition demo_header :: "Command \<Rightarrow> Header" where
  "demo_header c = Header_default\<lparr>h_command := Command_as_str c, h_channel_id := ''alice_1'', h_sequence := 7\<rparr>"

definition demo_send :: "Command \<Rightarrow> ChatState \<Rightarrow> ChatState" where
  "demo_send c s = fst (snd (receive (\<lambda>_. Ok (demo_header c)) (memory_svc demo_env) (MAGIC_LOGIC_PKT @ [0, 0, 0, 0]) s []))"

definition demo_start :: ChatState where
  "demo_start = chat_new False (\<lambda>k. Ok (int k + 100))"

lemma demo_read: "read_logic (\<lambda>_. Ok (demo_header c)) (MAGIC_LOGIC_PKT @ [0, 0, 0, 0]) = Ok \<lparr>lp_header = demo_header c, lp_body = []\<rparr>"
  by (simp add: read_logic_def read_packet_def MAGIC_LOGIC_PKT_def MAGIC_BASIC_PKT_def LogicPkt_decode_def demo_header_def
    Header_default_def from_u32_be_def from_u32_le_def Let_def res_bind_def)

lemma demo_router:
  assumes "(c, h) \<in> set (handler_list svc)"
  shows "hget (chat_router svc) c = Some h"
proof -
  have d: "distinct (map fst (handler_list svc))" by (simp add: handler_list_def)
  have "(c, h) \<in> set xs \<Longrightarrow> distinct (map fst xs) \<Longrightarrow>
      hget (foldl (\<lambda>handlers (command, f). router_handle command f handlers) m xs) c = Some h" for xs m
  proof (induction xs rule: rev_induct)
    case (snoc x xs)
    then show ?case by (cases x) (force simp: router_handle_def)
  qed simp
  then show ?thesis using assms d unfolding chat_router_def by blast
qed

lemma demo_send_login:
  "demo_send LoginSignIn s =
     fst (snd (do_sys_login (memory_svc demo_env) \<lparr>cx_request = \<lparr>lp_header = demo_header LoginSignIn, lp_body = []\<rparr>,
       cx_session = login_session \<lparr>lp_header = demo_header LoginSignIn, lp_body = []\<rparr>\<rparr> s []))"
proof -
  have "Command_parse (h_command (demo_header LoginSignIn)) = Some LoginSignIn"
    by (simp add: demo_header_def Command_parse_as_str del: Command_as_str.simps)
  moreover have "hget (chat_router (memory_svc demo_env)) LoginSignIn = Some (do_sys_login (memory_svc demo_env))"
    by (rule demo_router) (simp add: handler_list_def)
  ultimately show ?thesis
    by (simp add: demo_send_def receive_def demo_read receive_packet_def serve_packet_def serve_def split_beta Let_def)
qed

lemma demo_send_session:
  assumes "mem_get ''alice_1'' (ch_sessions s) = Ok se" "s_app se = ''kim''" "(c, h) \<in> set (handler_list (memory_svc demo_env))" "c \<noteq> LoginSignIn"
  shows "demo_send c s = fst (snd (h \<lparr>cx_request = \<lparr>lp_header = demo_header c, lp_body = []\<rparr>, cx_session = se\<rparr> s []))"
proof -
  have "Command_parse (h_command (demo_header c)) = Some c" "h_channel_id (demo_header c) = ''alice_1''"
    by (simp_all add: demo_header_def Command_parse_as_str)
  then show ?thesis using assms demo_router[OF assms(3)]
    by (simp add: demo_send_def receive_def demo_read receive_packet_def serve_packet_def serve_def split_beta Let_def ask_def
      ALLOWED_APP_def memory_svc_def memory_sessions_def)
qed

definition demo_session :: Session where
  "demo_session = \<lparr>s_channel_id = ''alice_1'', s_gate_id = ''gw'', s_account = ''alice'', s_zone = [], s_isp = [],
     s_remote_ip = [], s_device = [], s_app = ''kim'', s_tags = [], s_jti = ''j'', s_device_id = []\<rparr>"

definition demo_logged_in :: ChatState where
  "demo_logged_in = demo_start\<lparr>hb_gens := [(''kim:alice'', 1)],
     ch_sessions := \<lparr>ms_sessions = [(''alice_1'', demo_session)], ms_locations = [(''login:loc:v2:alice'', [loc_of demo_session])]\<rparr>,
     ch_users := \<lparr>ud_inner = [((''kim'', ''alice''), human_record ''alice'' None)], ud_social = None\<rparr>\<rparr>"

lemmas demo_simps = memory_svc_def demo_env_def demo_codec_def ask_def call_def attempt_def reply_def Let_def split_beta
  memory_users_def memory_sessions_def memory_groups_def

lemma demo_login: "demo_send LoginSignIn demo_start = demo_logged_in"
  unfolding demo_send_login demo_start_def demo_logged_in_def demo_session_def
  by (simp add: demo_simps do_sys_login_def kickout_def login_finish_def on_location_added_def chat_new_def
     lookup_def user_dir_new_def mem_new_def mem_list_locations_def mem_add_def user_upsert_def exclusive_device_def
     bump_gen_def gen_of_def gen_key_def presence_fanout_def memory_interest_def viewers_def interest_new_def members_at_def
     map_filter_def mem_get_locations_def hor_insert_def loc_of_def key_location_def)

lemma demo_handle:
  assumes "(c, h) \<in> set (handler_list (memory_svc demo_env))" "c \<noteq> LoginSignIn"
  shows "demo_send c demo_logged_in = fst (snd (h \<lparr>cx_request = \<lparr>lp_header = demo_header c, lp_body = []\<rparr>, cx_session = demo_session\<rparr>
    demo_logged_in []))"
  by (rule demo_send_session[OF _ _ assms]) (simp_all add: demo_logged_in_def mem_get_def demo_session_def)

lemma demo_logged_in_fields:
  "ch_users demo_logged_in = user_upsert ''kim'' ''alice'' (user_dir_new None)" "ch_social demo_logged_in = social_new"
  "ch_ids demo_logged_in = (\<lambda>k. Ok (int k + 100))" "ch_groups demo_logged_in = []"
  "mem_get_locations [''alice''] (ch_sessions demo_logged_in) = Ok [loc_of demo_session]"
  by (simp_all add: demo_logged_in_def demo_start_def chat_new_def user_upsert_def user_dir_new_def hor_insert_def
      mem_get_locations_def key_location_def)

lemma demo_bot_made:
  "lookup ''kim'' ''b_2S'' (ch_users (demo_send BotCreate demo_logged_in)) = Some \<lparr>up_exists = True, up_kind = PROFILE_KIND_BOT, up_owner_account = ''alice''\<rparr>"
proof -
  let ?d = "(user_upsert ''kim'' ''alice'' (user_dir_new None))\<lparr>ud_social := Some social_new\<rparr>"
  have keeps: "fst (snd (bot_answer svc ctx r s log)) = s" for svc :: "ChatState ChatSvc" and ctx r s log
    by (simp add: bot_answer_def reply_def fail_def split_beta split: sum.split)
  have h: "demo_send BotCreate demo_logged_in = fst (snd (do_bot_create (memory_svc demo_env)
      \<lparr>cx_request = \<lparr>lp_header = demo_header BotCreate, lp_body = []\<rparr>, cx_session = demo_session\<rparr> demo_logged_in []))"
    by (rule demo_handle) (simp_all add: handler_list_def)
  have b: "ch_users (demo_send BotCreate demo_logged_in) = snd (create_bot (Some (Ok 100)) ''kim'' demo_bot ?d)"
    unfolding h do_bot_create_def
    by (simp add: demo_simps keeps demo_session_def valid_client_profile_id_def is_ascii_alnum_def with_social_def use_ids_def
        demo_logged_in_fields demo_bot_def)
  have i: "base36_upper 100 = ''2S''"
    by (simp add: base36_upper_def base36_loop.simps base36_digit_def char_of_def bit_simps)
  have t: "trim [] = []" by (simp add: trim_def)
  have n: "find_bot_by_profile (ud_inner ?d) a b c = None" for a b c
    by (simp add: user_dir_new_def find_bot_by_profile_def user_upsert_def hor_insert_def is_bot_of_def human_record_def PROFILE_KIND_USER_def PROFILE_KIND_BOT_def)
  obtain rec where "draft_bot (Ok 100) ''kim'' demo_bot demo_config ?d = Ok (''b_2S'', rec)" "ur_kind rec = PROFILE_KIND_BOT" "ur_owner_account rec = ''alice''"
    by (simp add: draft_bot_def count_bots_def user_dir_new_def i demo_bot_def t BOT_MAX_PER_OWNER_def char_count_def
      user_upsert_def hor_insert_def is_bot_of_def human_record_def PROFILE_KIND_USER_def PROFILE_KIND_BOT_def)
  moreover have "valid_client_profile_id ''p1''" by (simp add: valid_client_profile_id_def is_ascii_alnum_def)
  ultimately show ?thesis unfolding b create_bot_def commit_bot_def n
    by (simp add: demo_bot_config, simp add: demo_bot_def befriend_bot_def ensure_friends_def lookup_def presence_from_record_def
      user_upsert_def user_dir_new_def hor_insert_def)
qed

definition demo_team :: Group where
  "demo_team = \<lparr>g_name = ''team'', g_avatar = [], g_introduction = [], g_owner = ''alice'', g_members = [''alice'']\<rparr>"

lemma demo_group_made: "hget (ch_groups (demo_send GroupCreate demo_logged_in)) (''kim'', ''2S'') = Some demo_team"
proof -
  have h: "demo_send GroupCreate demo_logged_in = fst (snd (do_group_create (memory_svc demo_env)
      \<lparr>cx_request = \<lparr>lp_header = demo_header GroupCreate, lp_body = []\<rparr>, cx_session = demo_session\<rparr> demo_logged_in []))"
    by (rule demo_handle) (simp_all add: handler_list_def)
  have i: "base36_upper 100 = ''2S''"
    by (simp add: base36_upper_def base36_loop.simps base36_digit_def char_of_def bit_simps)
  show ?thesis
    unfolding h do_group_create_def
    by (simp add: demo_simps demo_session_def demo_team_def ensure_human_accounts_def normalize_members_def MAX_GROUP_MEMBERS_def
      group_create_def demo_logged_in_fields use_ids_def fail_def i split: sum.split)
qed

lemma demo_steps: "chat_reach demo_logged_in" "c \<noteq> LoginSignIn \<Longrightarrow> chat_reach (demo_send c demo_logged_in)"
proof -
  have "distinct_draws (\<lambda>k. Ok (int k + 100))" by (simp add: distinct_draws_def)
  then have s: "chat_reach demo_start" unfolding demo_start_def by (rule chat_reach.start)
  have st: "chat_step s (demo_send c s)" if "login_owned (\<lambda>_. Ok (demo_header c)) demo_env (MAGIC_LOGIC_PKT @ [0, 0, 0, 0]) s" for c s
    unfolding demo_send_def by (rule chat_step.packet[OF that]) (simp add: prod_eq_iff)
  have "chat_step demo_start (demo_send LoginSignIn demo_start)"
    by (rule st) (simp add: login_owned_def owned_def demo_start_def chat_new_def mem_get_def mem_new_def)
  then show l: "chat_reach demo_logged_in" using chat_reach.step[OF s] by (simp add: demo_login)
  show "chat_reach (demo_send c demo_logged_in)" if "c \<noteq> LoginSignIn"
  proof (rule chat_reach.step[OF l st])
    have "Command_parse (h_command (demo_header c)) \<noteq> Some LoginSignIn"
      using that by (simp add: demo_header_def Command_parse_as_str del: Command_as_str.simps)
    then show "login_owned (\<lambda>_. Ok (demo_header c)) demo_env (MAGIC_LOGIC_PKT @ [0, 0, 0, 0]) demo_logged_in"
      by (simp add: login_owned_def demo_read)
  qed
qed

section \<open>What holds in every state\<close>

text \<open>C30: The components stay in the states their own properties are proved for. In every state the
  service reaches, by whatever sequence of packets and task steps, the message store and the social
  directory are in states reachable by their own operations, the user directory and the groups satisfy
  their invariants, the session store implements one registry of sessions, and the identifiers still
  to be drawn are new.\<close>

theorem service_components_sound:
  assumes "chat_reach s"
  shows "msg_reach (ch_store s) \<and> social_reach (ch_social s) \<and> users_inv (ch_users s) \<and> groups_ok (ch_groups s)
    \<and> (\<exists>reg. mem_sim (ch_sessions s) reg) \<and> (\<forall>k. id_fresh (\<lambda>j. ch_ids s (k + j)) (mm_inner (ch_store s)))"
  using chat_reach_ok[OF assms]
  by (auto simp: chat_ok_def groups_ok_def groups_world_def sessions_ok_def ids_fresh_def id_fresh_def)

theorem service_components_sound_witness:
  "msg_reach (ch_store (demo_send BotCreate demo_logged_in)) \<and> (\<exists>reg. mem_sim (ch_sessions (demo_send BotCreate demo_logged_in)) reg)"
  using service_components_sound[OF demo_steps(2)[of BotCreate]] by simp

text \<open>C4: Groups hold people. In every state the service reaches by handling its packets one after the other
  (\<open>chat_step\<close> handles a packet in one step), a group has at most 500 members, no member twice, and every
  member is an existing account that is not a bot. The limit of 500 is a promise of \<open>do_group_create\<close> and
  \<open>do_group_invite\<close>, not of the directory, and needs the order: two invites handled at the same time can both
  pass the check and then both join, see \<open>concurrent_invites_exceed_limit\<close>.\<close>

theorem groups_hold_humans:
  assumes "chat_reach s" "hget (ch_groups s) (app, g) = Some gr"
  shows "length (g_members gr) \<le> 500 \<and> distinct (g_members gr)
    \<and> (\<forall>m \<in> set (g_members gr). \<exists>p. lookup app m (ch_users s) = Some p \<and> up_exists p \<and> up_kind p \<noteq> PROFILE_KIND_BOT)"
proof -
  have "groups_world (role (ch_users s)) (ch_groups s)" using chat_reach_ok[OF assms(1)] by (simp add: chat_ok_def)
  then have g: "length (g_members gr) \<le> MAX_GROUP_MEMBERS" "distinct (g_members gr)" "\<forall>m \<in> set (g_members gr). human_in (role (ch_users s)) app m"
    using assms(2) by (auto simp: groups_world_def)
  then show ?thesis
    by (auto simp: MAX_GROUP_MEMBERS_def role_def lookup_def presence_from_record_def split: if_splits)
qed

theorem groups_hold_humans_witness:
  "\<exists>p. lookup ''kim'' ''alice'' (ch_users (demo_send GroupCreate demo_logged_in)) = Some p \<and> up_exists p \<and> up_kind p \<noteq> PROFILE_KIND_BOT"
  using groups_hold_humans[OF demo_steps(2)[of GroupCreate] demo_group_made] by (simp add: demo_team_def)

text \<open>Why the limit needs packets one after the other: \<open>do_group_invite\<close> reads the group, compares its size with the
  limit, and joins later, each at an await of its own, and the directory accepts every member. Two invites that have
  both read a group of 499 members both pass, and the group has 501.\<close>

lemma concurrent_invites_exceed_limit:
  assumes "hget d (app, g) = Some gr" "length (g_members gr) = 499" "a \<notin> set (g_members gr)" "b \<notin> set (g_members gr)" "a \<noteq> b"
    "trim a = a" "trim b = b" "a \<noteq> []" "b \<noteq> []"
  shows "length (g_members gr) + length (invite_loop (g_members gr) {} [a] []) \<le> MAX_GROUP_MEMBERS"
    "length (g_members gr) + length (invite_loop (g_members gr) {} [b] []) \<le> MAX_GROUP_MEMBERS"
    "\<exists>gr'. hget (snd (group_join app g b (snd (group_join app g a d)))) (app, g) = Some gr' \<and> length (g_members gr') = 501"
  using assms by (simp_all add: group_join_def MAX_GROUP_MEMBERS_def)

text \<open>C3: A bot is confined to its owner. In every state the service reaches, a bot has an existing owner
  who is not a bot and is its friend; nobody else is its friend; nobody has blocked it and it has blocked
  nobody; it is in no group; and no connection is logged in as it.\<close>

theorem bots_confined:
  assumes "chat_reach s" "lookup app b (ch_users s) = Some p" "up_kind p = PROFILE_KIND_BOT"
  shows "(\<exists>q. lookup app (up_owner_account p) (ch_users s) = Some q \<and> up_kind q \<noteq> PROFILE_KIND_BOT)
    \<and> (\<forall>x. x \<noteq> b \<longrightarrow> (is_friend app x b (ch_social s) \<longleftrightarrow> x = up_owner_account p))
    \<and> (\<forall>x. \<not> is_blocked_either app x b (ch_social s))
    \<and> (\<forall>g gr. hget (ch_groups s) (app, g) = Some gr \<longrightarrow> b \<notin> set (g_members gr))
    \<and> (\<forall>c se. mem_get c (ch_sessions s) = Ok se \<longrightarrow> \<not> (s_app se = app \<and> s_account se = b))"
proof -
  let ?R = "role (ch_users s)"
  note ok = chat_reach_ok[OF assms(1)]
  have w: "social_world ?R (ch_social s)" and gw: "groups_world ?R (ch_groups s)" using ok by (simp_all add: chat_ok_def)
  have b: "bot_in ?R app b (up_owner_account p)"
    using assms(2,3) by (auto simp: lookup_def presence_from_record_def role_def)
  note owner = social_worldD(4)[OF w b]
  have "\<exists>q. lookup app (up_owner_account p) (ch_users s) = Some q \<and> up_kind q \<noteq> PROFILE_KIND_BOT"
    using owner by (auto simp: role_def lookup_def presence_from_record_def split: if_splits)
  moreover have "is_friend app x b (ch_social s) \<longleftrightarrow> x = up_owner_account p" if "x \<noteq> b" for x
    using bot_friend_owner[OF w b] owner that by (auto simp: is_friend_def)
  moreover have "b \<notin> set (g_members gr)" if "hget (ch_groups s) (app, g) = Some gr" for g gr
    using gw b that by (auto simp: groups_world_def)
  moreover have "\<not> (s_app se = app \<and> s_account se = b)" if "mem_get c (ch_sessions s) = Ok se" for c se
    using get_session[OF ok that] b by (auto simp: human_def)
  ultimately show ?thesis using bot_unblocked[OF w b] by blast
qed

theorem bots_confined_witness:
  "is_friend ''kim'' ''alice'' ''b_2S'' (ch_social (demo_send BotCreate demo_logged_in))
   \<and> \<not> is_blocked_either ''kim'' ''bob'' ''b_2S'' (ch_social (demo_send BotCreate demo_logged_in))"
  using bots_confined[OF demo_steps(2)[of BotCreate] demo_bot_made] by simp

section \<open>Requests are answered\<close>

text \<open>C1: Every request gets exactly one answer. Whatever the payload, the state, the backends and the
  network do: a payload that is not a logic packet changes nothing and sends nothing; for any other
  (a typing request having to name a well-formed account) the packets sent are pushes and exactly one
  response, which carries the request's command and sequence number and goes to the requesting
  connection alone.\<close>

theorem request_answered_once:
  assumes "\<And>pkt. read_logic dec_header raw = Ok pkt \<Longrightarrow> typing_named svc pkt"
  shows "case read_logic dec_header raw of
      Inl _ \<Rightarrow> receive dec_header svc raw s log = (Ok (), s, log)
    | Inr pkt \<Rightarrow> \<exists>new. snd (snd (receive dec_header svc raw s log)) = log @ new
        \<and> length (filter (answer_to (requester svc pkt s) pkt) new) = 1
        \<and> (\<forall>q \<in> set new. is_push q \<or> answer_to (requester svc pkt s) pkt q)"
proof (cases "read_logic dec_header raw")
  case (Inl e)
  then show ?thesis by (simp add: receive_def finish_def)
next
  case (Inr pkt)
  note named = assms[OF Inr]
  have r: "receive dec_header svc raw = receive_packet svc pkt" by (simp add: receive_def Inr)
  have err: "\<exists>new. snd (snd (resp_err svc pkt status s log)) = log @ new
      \<and> length (filter (answer_to (bare_gateway pkt, h_channel_id (lp_header pkt)) pkt) new) = 1
      \<and> (\<forall>q \<in> set new. is_push q \<or> answer_to (bare_gateway pkt, h_channel_id (lp_header pkt)) pkt q)" for status
    using resp_err_answers[of svc pkt status s log] by (force intro: exI[of _ "[_]"])
  show ?thesis
  proof (cases "Command_parse (h_command (lp_header pkt)) = Some LoginSignIn")
    case True
    then have "requester svc pkt s = (s_gate_id (login_session pkt), s_channel_id (login_session pkt))"
      by (simp add: requester_def login_session_def Let_def)
    then show ?thesis
      using serve_packet_answers[OF named, of "login_session pkt" s log] True
      by (simp add: Inr r receive_packet_def)
  next
    case False
    show ?thesis
      using False serve_packet_answers[OF named, of _ s log] err
      by (auto simp: Inr r receive_packet_def ask_def requester_def Let_def split: sum.split)
  qed
qed

theorem request_answered_once_witness:
  "\<exists>new. snd (snd (receive (\<lambda>_. Ok (demo_header GroupCreate)) (memory_svc demo_env) (MAGIC_LOGIC_PKT @ [0, 0, 0, 0]) demo_logged_in [])) = new
    \<and> length (filter (answer_to (''gw'', ''alice_1'') \<lparr>lp_header = demo_header GroupCreate, lp_body = []\<rparr>) new) = 1"
proof -
  let ?p = "\<lparr>lp_header = demo_header GroupCreate, lp_body = []\<rparr>"
  have c: "Command_parse (h_command (demo_header GroupCreate)) = Some GroupCreate" "h_channel_id (demo_header GroupCreate) = ''alice_1''"
    by (simp_all add: demo_header_def Command_parse_as_str del: Command_as_str.simps)
  have r: "requester (memory_svc demo_env) ?p demo_logged_in = (''gw'', ''alice_1'')"
    by (simp add: requester_def c memory_svc_def memory_sessions_def demo_logged_in_def mem_get_def demo_session_def ALLOWED_APP_def)
  show ?thesis
    using request_answered_once[of "\<lambda>_. Ok (demo_header GroupCreate)" "MAGIC_LOGIC_PKT @ [0, 0, 0, 0]" "memory_svc demo_env" demo_logged_in "[]"]
    by (auto simp: demo_read typing_named_def c r)
qed

section \<open>Requests without a session\<close>

text \<open>C5: Without a session of the application nothing happens. For any backends: a packet other than a
  login whose connection has no session, or a session of another application, leaves the state as it
  is, and the only thing sent is one response to the packet's own gateway and channel, with the status
  SessionNotFound or Unauthorized.\<close>

theorem unauthenticated_refused:
  assumes "read_logic dec_header raw = Ok pkt" "Command_parse (h_command (lp_header pkt)) \<noteq> Some LoginSignIn"
    and "sv_sess_get svc (h_channel_id (lp_header pkt)) s = Err NotFound
       \<or> (\<exists>se. sv_sess_get svc (h_channel_id (lp_header pkt)) s = Ok se \<and> s_app se \<noteq> ''kim'')"
  shows "\<exists>p. receive dec_header svc raw s log = (Ok (), s, log @ [p])
    \<and> answer_to (bare_gateway pkt, h_channel_id (lp_header pkt)) pkt p
    \<and> h_status (lp_header (pu_pkt p)) \<in> {SessionNotFound, Unauthorized}"
proof -
  obtain status where st: "receive dec_header svc raw s log = resp_err svc pkt status s log" "status \<in> {SessionNotFound, Unauthorized}"
    using assms by (auto simp: receive_def receive_packet_def ask_def ALLOWED_APP_def)
  obtain p where p: "snd (snd (resp_err svc pkt status s log)) = log @ [p]"
      "answer_to (bare_gateway pkt, h_channel_id (lp_header pkt)) pkt p" "h_status (lp_header (pu_pkt p)) = status"
    using resp_err_answers[of svc pkt status s log] by blast
  have "resp_err svc pkt status s log = (Ok (), s, snd (snd (resp_err svc pkt status s log)))"
    by (simp add: resp_err_def Let_def split_beta)
  then have "receive dec_header svc raw s log = (Ok (), s, log @ [p])" using st(1) p(1) by simp
  then show ?thesis using st(2) p(2,3) by blast
qed

theorem unauthenticated_refused_witness:
  "\<exists>p. receive (\<lambda>_. Ok (demo_header BotCreate)) (memory_svc demo_env) (MAGIC_LOGIC_PKT @ [0, 0, 0, 0]) demo_start [] = (Ok (), demo_start, [p])
    \<and> h_status (lp_header (pu_pkt p)) \<in> {SessionNotFound, Unauthorized}"
proof -
  have c: "Command_parse (h_command (demo_header BotCreate)) \<noteq> Some LoginSignIn"
    by (simp add: demo_header_def Command_parse_as_str del: Command_as_str.simps)
  have n: "sv_sess_get (memory_svc demo_env) (h_channel_id (demo_header BotCreate)) demo_start = Err NotFound"
    by (simp add: memory_svc_def memory_sessions_def demo_start_def chat_new_def mem_get_def mem_new_def)
  show ?thesis
    using unauthenticated_refused[OF demo_read[of BotCreate], of "memory_svc demo_env" demo_start "[]"] c n by auto
qed

end
