(* ===== verification/Kim_Deployment.thy ===== *)
theory Kim_Deployment
  imports Kim_Gateway Kim_Chat_System
begin

text \<open>
  Gateways and the chat service put together. Gateways accept connections and send packets up, the chat
  service treats them in any order, packets get lost, gateways restart. What the chat service has been
  told about a connection is what the connection's gateway verified, so nobody acts as somebody else,
  and every property of the chat service holds in the deployed system without assumptions on logins.
\<close>

section \<open>Names of connections\<close>

lemma channel_name_apart:
  assumes "channel_name g a n = channel_name g' a' n'" "CHR ''_'' \<notin> set g" "CHR ''_'' \<notin> set g'"
  shows "g = g' \<and> a = a'"
proof -
  have digits: "CHR ''_'' \<notin> set (show_nat k)" for k by (rule show_nat_no_char) (simp add: is_digit_def)
  have r: "rsplit_once (CHR ''_'') (channel_name x b k) = Some (x @ ''_'' @ b, show_nat (unat k))" for x b k
    unfolding channel_name_def using rsplit_once_append[OF digits, of "x @ ''_'' @ b"] by simp
  have "g @ ''_'' @ a = g' @ ''_'' @ a'" using r[of g a n] r[of g' a' n'] assms(1) by simp
  from arg_cong[OF this, of "split_once (CHR ''_'')"] show ?thesis by (simp add: split_once_append assms(2,3))
qed

section \<open>The chat service keeps what gateways verified\<close>

text \<open>A second reading of the contract of \<open>Kim_Chat_Contract\<close> on the in-memory backends: besides being good, every
  stored session has a property \<open>P\<close> that does not look at the zone.\<close>

definition sessions_all :: "(Session \<Rightarrow> bool) \<Rightarrow> ChatState \<Rightarrow> bool" where
  "sessions_all P s \<longleftrightarrow> (\<forall>c t. mem_get c (ch_sessions s) = Ok t \<longrightarrow> P t)"

lemma sessions_untouched:
  "ch_sessions (snd (us_upsert memory_users app a s)) = ch_sessions s"
  "ch_sessions (snd (us_update_profile memory_users app a patch s)) = ch_sessions s"
  "ch_sessions (snd (us_update_bot memory_users app a b bpatch s)) = ch_sessions s"
  "ch_sessions (snd (us_create_bot memory_users app req s)) = ch_sessions s"
  "ch_sessions (snd (us_delete_bot memory_users app a b s)) = ch_sessions s"
  "ch_sessions (snd (sd_request memory_social app a b s)) = ch_sessions s"
  "ch_sessions (snd (sd_accept memory_social app a b s)) = ch_sessions s"
  "ch_sessions (snd (sd_reject memory_social app a b s)) = ch_sessions s"
  "ch_sessions (snd (sd_remove memory_social app a b s)) = ch_sessions s"
  "ch_sessions (snd (sd_block memory_social app a b s)) = ch_sessions s"
  "ch_sessions (snd (sd_unblock memory_social app a b s)) = ch_sessions s"
  "ch_sessions (snd (gd_group_create memory_groups app greq s)) = ch_sessions s"
  "ch_sessions (snd (gd_group_join memory_groups app gid a s)) = ch_sessions s"
  "ch_sessions (snd (gd_group_quit memory_groups app gid a s)) = ch_sessions s"
  "ch_sessions (snd (rs_room_enter memory_interest app a c d kd s)) = ch_sessions s"
  "ch_sessions (snd (rs_room_leave memory_interest app a c d kd s)) = ch_sessions s"
  "ch_sessions (snd (rs_clear_channel memory_interest app a c s)) = ch_sessions s"
  "ch_sessions (snd (sp_spec_upsert memory_specs app a rec s)) = ch_sessions s"
  "ch_sessions (snd (sp_account_upsert memory_specs app a acc s)) = ch_sessions s"
  "ch_sessions (snd (mst_insert (memory_store now unix) app kind im ms s)) = ch_sessions s"
  "ch_sessions (snd (mst_insert_bot_reply (memory_store now unix) app a b irt im s)) = ch_sessions s"
  "ch_sessions (snd (mst_store_ack (memory_store now unix) app a t ids s)) = ch_sessions s"
  "ch_sessions (snd (mst_offline_index (memory_store now unix) app a t mid resume s)) = ch_sessions s"
  "ch_sessions (snd (mst_backfill (memory_store now unix) app a t s)) = ch_sessions s"
  "ch_sessions (snd (mst_mark_read (memory_store now unix) app a d mk mid s)) = ch_sessions s"
  "ch_sessions (snd (mst_purge (memory_store now unix) app a b s)) = ch_sessions s"
  by (simp_all add: memory_users_def memory_social_def memory_groups_def memory_interest_def memory_specs_def memory_store_def
    with_social_def use_ids_def on_store_def split_beta Let_def)

lemma sessions_all_same: "ch_sessions s' = ch_sessions s \<Longrightarrow> sessions_all P s \<Longrightarrow> sessions_all P s'"
  by (simp add: sessions_all_def)

lemma sessions_all_add: "sessions_all P s \<Longrightarrow> P se \<Longrightarrow> sessions_all P (snd (sn_sess_add memory_sessions se s))"
  by (auto simp: sessions_all_def memory_sessions_def mem_add_def mem_get_def Let_def split: if_splits)

lemma sessions_all_delete: "sessions_all P s \<Longrightarrow> sessions_all P (snd (sn_sess_delete memory_sessions a c s))"
  by (auto simp: sessions_all_def memory_sessions_def mem_delete_def mem_get_def Let_def split: if_splits option.splits)

lemma memory_parts [simp]:
  "sv_sessions (memory_svc env) = memory_sessions" "sv_users (memory_svc env) = memory_users"
  "sv_social (memory_svc env) = memory_social" "sv_groups (memory_svc env) = memory_groups"
  "sv_store (memory_svc env) = memory_store (en_instant env) (en_store_unix env)"
  "sv_interest (memory_svc env) = memory_interest" "sv_agent_specs (memory_svc env) = memory_specs"
  by (simp_all add: memory_svc_def)

definition good_all :: "(Session \<Rightarrow> bool) \<Rightarrow> ChatState \<Rightarrow> bool" where
  "good_all P s \<longleftrightarrow> chat_ok s \<and> sessions_all P s"

definition owned_all :: "(Session \<Rightarrow> bool) \<Rightarrow> Session \<Rightarrow> ChatState \<Rightarrow> bool" where
  "owned_all P se s \<longleftrightarrow> owned se s \<and> P se"

lemma good_allI: "chat_ok s' \<Longrightarrow> ch_sessions s' = ch_sessions s \<Longrightarrow> sessions_all P s \<Longrightarrow> good_all P s'"
  by (simp add: good_all_def sessions_all_def)

interpretation named_memory: chat_backend "memory_svc env" "good_all P" human "owned_all P" gsize for env P
proof (unfold_locales, goal_cases)
  case (5 s ch se)
  then show ?case using memory.session_human[of s env ch se]
    by (auto simp: good_all_def owned_all_def sessions_all_def memory_sessions_def)
next
  case (9 s se)
  then show ?case using memory.sess_add(1)[of s se env] sessions_all_add by (simp add: good_all_def owned_all_def)
next
  case (11 s se)
  then show ?case using memory.sess_delete[of s se env] sessions_all_delete by (simp add: good_all_def owned_all_def)
qed (insert memory.chat_backend_axioms[unfolded chat_backend_def],
  auto simp: good_all_def owned_all_def sessions_untouched elim!: sessions_all_same[rotated])

section \<open>The deployed system\<close>

record deployment =
  dp_gateways :: "(string, GatewayHandler) hmap"
  dp_chat :: ChatState
  dp_wire :: "LogicPkt list"

text \<open>What a gateway's container sends to the chat service, stamped with the gateway's identifier. A packet for
  another service does not get there: a gateway has connections to chat instances only (\<open>deps\<close> in \<open>run_gateway\<close>).\<close>

definition uplink :: "string \<Rightarrow> gw_out list \<Rightarrow> LogicPkt list" where
  "uplink g out = concat (map (\<lambda>x. case x of
       Forwarded service p \<Rightarrow> if service = SN_CHAT then [set_meta META_DEST_SERVER g p] else []
     | _ \<Rightarrow> []) out)"

definition session_codec :: "(Session \<Rightarrow> byte list) \<Rightarrow> chat_env \<Rightarrow> bool" where
  "session_codec enc env \<longleftrightarrow> (\<forall>se. cd_session (en_codec env) (enc se) = Ok se)"

text \<open>Identifiers of gateways contain no underscore.\<close>

definition gateway_name :: "string \<Rightarrow> bool" where
  "gateway_name g \<longleftrightarrow> CHR ''_'' \<notin> set g"

inductive deploy_step :: "(string \<Rightarrow> bool) \<Rightarrow> (Session \<Rightarrow> byte list) \<Rightarrow> deployment \<Rightarrow> deployment \<Rightarrow> bool" for V enc where
  gateway: "hget (dp_gateways d) g = Some h \<Longrightarrow> gateway_env_ok V enc env \<Longrightarrow> gateway_step env h out h' \<Longrightarrow>
    deploy_step V enc d (d\<lparr>dp_gateways := hput g h' (dp_gateways d), dp_wire := dp_wire d @ uplink g out\<rparr>)"
| gateway_start: "gateway_name g \<Longrightarrow>
    deploy_step V enc d (d\<lparr>dp_gateways := hput g (gateway_with_ttl require_jti g secret ttl) (dp_gateways d)\<rparr>)"
| gateway_stop: "deploy_step V enc d (d\<lparr>dp_gateways := hdel g (dp_gateways d)\<rparr>)"
| lost: "dp_wire d = xs @ p # ys \<Longrightarrow> deploy_step V enc d (d\<lparr>dp_wire := xs @ ys\<rparr>)"
| chat: "dp_wire d = xs @ p # ys \<Longrightarrow> read_logic dec_header raw = Ok p \<Longrightarrow> session_codec enc cenv \<Longrightarrow>
    receive dec_header (memory_svc cenv) raw (dp_chat d) log = (r, s', log') \<Longrightarrow>
    deploy_step V enc d (d\<lparr>dp_wire := xs @ ys, dp_chat := s'\<rparr>)"
| task: "task_step (memory_svc cenv) i (dp_chat d) log = (r, s', log') \<Longrightarrow> deploy_step V enc d (d\<lparr>dp_chat := s'\<rparr>)"

inductive deploy_reach :: "(string \<Rightarrow> bool) \<Rightarrow> (Session \<Rightarrow> byte list) \<Rightarrow> deployment \<Rightarrow> bool" for V enc where
  start: "distinct_draws ids \<Longrightarrow>
    deploy_reach V enc \<lparr>dp_gateways = [], dp_chat = chat_new pending_receipt ids, dp_wire = []\<rparr>"
| step: "deploy_reach V enc d \<Longrightarrow> deploy_step V enc d d' \<Longrightarrow> deploy_reach V enc d'"

section \<open>What gateways say holds\<close>

definition verified :: "(string \<Rightarrow> bool) \<Rightarrow> Session \<Rightarrow> bool" where
  "verified V se \<longleftrightarrow> (\<exists>g. gateway_name g \<and> named V g se)"

definition wire_ok :: "(string \<Rightarrow> bool) \<Rightarrow> (Session \<Rightarrow> byte list) \<Rightarrow> LogicPkt \<Rightarrow> bool" where
  "wire_ok V enc p \<longleftrightarrow> (h_command (lp_header p) = Command_as_str LoginSignIn \<longrightarrow> (\<exists>g. gateway_name g \<and> login_packet V enc g p))"

definition deploy_ok :: "(string \<Rightarrow> bool) \<Rightarrow> (Session \<Rightarrow> byte list) \<Rightarrow> deployment \<Rightarrow> bool" where
  "deploy_ok V enc d \<longleftrightarrow> (\<forall>g h. hget (dp_gateways d) g = Some h \<longrightarrow> gateway_name g \<and> gateway_ok V enc g h)
     \<and> list_all (wire_ok V enc) (dp_wire d) \<and> good_all (verified V) (dp_chat d) \<and> chat_reach (dp_chat d)"

lemma session_channel:
  assumes "chat_ok s" "mem_get c (ch_sessions s) = Ok t"
  shows "s_channel_id t = c"
proof -
  obtain reg where r: "mem_sim (ch_sessions s) reg" using assms(1) by (auto simp: chat_ok_def sessions_ok_def)
  have "reg_get c reg = Ok t" using assms(2) mem_sim_get[OF r] by simp
  then show ?thesis by (auto simp: reg_get_def find_Some_iff split: option.splits)
qed

lemma verified_apart:
  assumes "verified V se" "verified V t" "s_channel_id se = s_channel_id t"
  shows "s_account se = s_account t" "s_gate_id se = s_gate_id t"
  using assms channel_name_apart unfolding verified_def named_def gateway_name_def by metis+

lemma verified_owned: "good_all (verified V) s \<Longrightarrow> verified V se \<Longrightarrow> owned se s"
  using verified_apart session_channel unfolding owned_def good_all_def sessions_all_def by metis

lemma verified_zone: "verified V (se\<lparr>s_zone := z\<rparr>) = verified V se"
  by (simp add: verified_def named_def)

lemma uplink_ok:
  assumes "gateway_step env h out h'" "gateway_ok V enc g h" "gateway_name g" "p \<in> set (uplink g out)"
  shows "wire_ok V enc p"
proof -
  obtain q where q: "Forwarded SN_CHAT q \<in> set out" "p = set_meta META_DEST_SERVER g q"
    using assms(4) by (auto simp: uplink_def split: gw_out.splits if_splits)
  from gateway_step_uplink[OF assms(1,2) q(1)] show ?thesis
    using assms(3) q(2) by (auto simp: wire_ok_def login_packet_def set_meta_def)
qed

lemma chat_packet_ok:
  assumes "good_all (verified V) s" "wire_ok V enc p" "read_logic dec_header raw = Ok p" "session_codec enc cenv"
  shows "login_owned dec_header cenv raw s" "post (receive dec_header (memory_svc cenv) raw) (good_all (verified V)) s"
proof -
  have se: "verified V se" if r: "read_logic dec_header raw = Ok pkt" and l: "Command_parse (h_command (lp_header pkt)) = Some LoginSignIn"
    and c: "cd_session (en_codec cenv) (lp_body pkt) = Ok se" for pkt se
  proof -
    have "pkt = p" using r assms(3) by simp
    then obtain g se' where "gateway_name g" "lp_body p = enc se'" "named V g se'"
      using l assms(2) by (auto simp: wire_ok_def Command_parse_iff login_packet_def)
    then show ?thesis using c assms(4) \<open>pkt = p\<close> by (auto simp: session_codec_def verified_def)
  qed
  show "login_owned dec_header cenv raw s"
    unfolding login_owned_def using se verified_owned[OF assms(1)] by blast
  show "post (receive dec_header (memory_svc cenv) raw) (good_all (verified V)) s"
  proof (rule named_memory.receive_keeps[OF assms(1)])
    fix pkt se
    assume "read_logic dec_header raw = Ok pkt" "Command_parse (h_command (lp_header pkt)) = Some LoginSignIn"
      "cd_session (sv_codec (memory_svc cenv)) (lp_body pkt) = Ok se"
    then have v: "verified V se" using se by (simp add: memory_svc_def)
    then have "verified V (named_memory.zoned cenv se)" by (simp add: named_memory.zoned_def verified_zone)
    then show "owned_all (verified V) (named_memory.zoned cenv se) s"
      using verified_owned[OF assms(1)] by (simp add: owned_all_def)
  qed
qed

lemma deploy_step_ok:
  assumes "deploy_step V enc d d'" "deploy_ok V enc d"
  shows "deploy_ok V enc d'"
  using assms
proof (induction rule: deploy_step.induct)
  case (gateway d g h env out h')
  have ok: "gateway_name g" "gateway_ok V enc g h" using gateway(1,4) by (simp_all add: deploy_ok_def)
  have "list_all (wire_ok V enc) (uplink g out)" using uplink_ok[OF gateway(3) ok(2,1)] by (simp add: list_all_iff)
  then show ?case
    using gateway(4) ok(1) gateway_step_ok[OF gateway(3,2) ok(2)] by (simp add: deploy_ok_def)
next
  case (gateway_start g d require_jti secret ttl)
  then show ?case using gateway_new_ok by (simp add: deploy_ok_def)
next
  case (gateway_stop d g)
  then show ?case by (simp add: deploy_ok_def split: if_split)
next
  case (lost d xs p ys)
  then show ?case by (simp add: deploy_ok_def)
next
  case (chat d xs p ys dec_header raw cenv log r s' log')
  have g: "good_all (verified V) (dp_chat d)" and w: "wire_ok V enc p" using chat(1,5) by (simp_all add: deploy_ok_def)
  note keeps = chat_packet_ok[OF g w chat(2,3)]
  have "good_all (verified V) s'" using keeps(2) chat(4) by (rule postD)
  moreover have "chat_reach s'"
    using chat(5) chat_reach.step[OF _ chat_step.packet[OF keeps(1) chat(4)]] by (simp add: deploy_ok_def)
  ultimately show ?case using chat(1,5) by (simp add: deploy_ok_def)
next
  case (task cenv i d log r s' log')
  have "good_all (verified V) s'"
    using postD[OF named_memory.task_keeps task(1)] task(2) by (simp add: deploy_ok_def)
  moreover have "chat_reach s'"
    using task(2) chat_reach.step[OF _ chat_step.task[OF task(1)]] by (simp add: deploy_ok_def)
  ultimately show ?case using task(2) by (simp add: deploy_ok_def)
qed

lemma deploy_reach_ok: "deploy_reach V enc d \<Longrightarrow> deploy_ok V enc d"
proof (induction rule: deploy_reach.induct)
  case (start ids pending_receipt)
  have "chat_ok (chat_new pending_receipt ids)" by (rule chat_new_ok[OF start])
  moreover have "sessions_all P (chat_new pending_receipt ids)" for P
    by (simp add: sessions_all_def chat_new_def mem_new_def mem_get_def)
  ultimately show ?case
    using chat_reach.start[OF start] by (simp add: deploy_ok_def good_all_def)
next
  case (step d d')
  then show ?case by (blast intro: deploy_step_ok)
qed

lemma connection_session:
  assumes "deploy_reach V enc d" "hget (dp_gateways d) g = Some h" "hget (gw_meta h) c = Some m"
    and "deploy_reach V enc d'" "mem_get c (ch_sessions (dp_chat d')) = Ok se"
  shows "s_account se = cm_account m \<and> s_app se = cm_app m \<and> s_gate_id se = g \<and> s_channel_id se = c"
proof -
  note ok = deploy_reach_ok[OF assms(1)] and ok' = deploy_reach_ok[OF assms(4)]
  have g: "gateway_name g" "gateway_ok V enc g h" using ok assms(2) by (simp_all add: deploy_ok_def)
  obtain n where m: "cm_app m = ALLOWED_APP" "c = channel_name g (cm_account m) n"
    using gateway_okD(2)[OF g(2) assms(3)] by blast
  have se: "verified V se" "s_channel_id se = c"
    using ok' assms(5) session_channel by (auto simp: deploy_ok_def good_all_def sessions_all_def)
  then obtain g' k where "gateway_name g'" "s_gate_id se = g'" "s_app se = ALLOWED_APP" "c = channel_name g' (s_account se) k"
    by (auto simp: verified_def named_def)
  then show ?thesis
    using channel_name_apart[of g "cm_account m" n g' "s_account se" k] g(1) m se(2) by (auto simp: gateway_name_def)
qed

text \<open>What a client's frame makes the gateway send up: the client's packet under the name of its own connection, with the
  account and application of the handshake in its meta entries, and never a login.\<close>

lemma uplink_of_frame:
  assumes "gateway_receive env c raw h = (h', out)" "hget (gw_meta h) c = Some m" "p \<in> set (uplink g out)"
  shows "h_channel_id (lp_header p) = c" "h_command (lp_header p) \<noteq> Command_as_str LoginSignIn"
    "get_meta p META_ACCOUNT = Some (cm_account m)" "get_meta p META_APP = Some (cm_app m)"
proof -
  obtain q where q: "Forwarded SN_CHAT q \<in> set out" "p = set_meta META_DEST_SERVER g q"
    using assms(3) by (auto simp: uplink_def split: gw_out.splits if_splits)
  obtain l where l: "read_packet (gv_dec_header env) raw = Ok (LogicPacket l)"
    "q = inject_meta h (l\<lparr>lp_header := (lp_header l)\<lparr>h_channel_id := c\<rparr>\<rparr>)" "service_name (h_command (lp_header l)) = SN_CHAT"
    using assms(1) q(1)
    by (auto simp: gateway_receive_def forward_logic_def Let_def heartbeat_no_forward
        split: sum.splits Packet.splits if_splits prod.splits option.splits)
  have ne: "META_ACCOUNT \<noteq> META_DEST_SERVER" "META_APP \<noteq> META_DEST_SERVER" "META_APP \<noteq> META_ACCOUNT"
    by (simp_all add: META_ACCOUNT_def META_APP_def META_DEST_SERVER_def)
  show "h_channel_id (lp_header p) = c" using q(2) l(2) assms(2) by (simp add: inject_meta_def set_meta_def)
  show "get_meta p META_ACCOUNT = Some (cm_account m)" "get_meta p META_APP = Some (cm_app m)"
    using q(2) l(2) assms(2) ne by (simp_all add: inject_meta_def get_set_meta)
  have "h_command (lp_header p) = h_command (lp_header l)" using q(2) l(2) assms(2) by (simp add: inject_meta_def set_meta_def)
  then show "h_command (lp_header p) \<noteq> Command_as_str LoginSignIn" using l(3) login_goes_elsewhere(1) by auto
qed

text \<open>C2: Nobody acts as somebody else. Gateway identifiers without an underscore are assumed (\<open>gateway_name\<close>: the
  code does not check it), since connections are named \<open>gateway_account_number\<close>. Take a connection of a running
  gateway and any frame that its client sends. Whatever connection the client wrote into its packet, the packet that the
  gateway sends up carries the name of this connection; and in whatever state of the deployed system the chat service
  treats it, however connections, packets, losses and restarts of gateways interleave, it is either answered with
  \<open>SessionNotFound\<close> or served with a session of the account and application that this gateway verified in the
  handshake of this connection.\<close>

theorem no_impersonation:
  assumes "deploy_reach V enc d" "hget (dp_gateways d) g = Some h" "hget (gw_meta h) c = Some m"
    and "gateway_receive genv c raw h = (h', out)" "p \<in> set (uplink g out)" and "deploy_reach V enc d'"
  shows "h_channel_id (lp_header p) = c
    \<and> (case mem_get c (ch_sessions (dp_chat d')) of
         Inl e \<Rightarrow> e = NotFound
           \<and> receive_packet (memory_svc cenv) p (dp_chat d') log = resp_err (memory_svc cenv) p SessionNotFound (dp_chat d') log
       | Inr se \<Rightarrow> s_account se = cm_account m \<and> s_app se = cm_app m \<and> s_gate_id se = g \<and> s_channel_id se = c
           \<and> receive_packet (memory_svc cenv) p (dp_chat d') log = serve_packet (memory_svc cenv) p se (dp_chat d') log)"
proof -
  note up = uplink_of_frame[OF assms(4,3,5)]
  have nl: "Command_parse (h_command (lp_header p)) \<noteq> Some LoginSignIn" using up(2) by (simp add: Command_parse_iff)
  show ?thesis
  proof (cases "mem_get c (ch_sessions (dp_chat d'))")
    case (Inl e)
    then have "e = NotFound" by (simp add: mem_get_def split: option.splits)
    then show ?thesis using Inl up(1) nl by (simp add: receive_packet_def ask_def memory_sessions_def)
  next
    case (Inr se)
    note k = connection_session[OF assms(1-3,6) Inr]
    have "s_app se = ALLOWED_APP"
      using deploy_reach_ok[OF assms(6)] Inr by (auto simp: deploy_ok_def good_all_def sessions_all_def verified_def named_def)
    then show ?thesis using Inr up(1) nl k by (simp add: receive_packet_def ask_def memory_sessions_def)
  qed
qed

text \<open>C8: The chat service in the deployed system is in a state that the service reaches on its own, without any
  assumption on who logs in with which connection, and every session in it belongs to an account whose
  token a gateway verified: all properties proved of the service hold of the system.\<close>

theorem deployment_sound:
  assumes "deploy_reach V enc d"
  shows "chat_reach (dp_chat d)
    \<and> (\<forall>c se. mem_get c (ch_sessions (dp_chat d)) = Ok se \<longrightarrow> V (s_account se) \<and> s_app se = ALLOWED_APP)"
  using deploy_reach_ok[OF assms]
  by (auto simp: deploy_ok_def good_all_def sessions_all_def verified_def named_def)

section \<open>A run\<close>

definition demo_chat_env :: chat_env where
  "demo_chat_env = demo_env\<lparr>en_codec := demo_codec\<lparr>cd_session := dec_session\<rparr>\<rparr>"

definition demo_ready where "demo_ready = on_channel_ready demo_gateway_env ''gw_alice_1'' (fst (snd demo_accept))"

definition demo_uplink :: LogicPkt where
  "demo_uplink = \<lparr>lp_header = demo_login_header\<lparr>h_channel_id := ''gw_alice_1'', h_body_length := word_of_nat (length (enc_session demo_connection)),
     h_meta := [\<lparr>m_key = META_APP, m_value = ''kim''\<rparr>, \<lparr>m_key = META_ACCOUNT, m_value = ''alice''\<rparr>, \<lparr>m_key = META_DEST_SERVER, m_value = ''gw''\<rparr>]\<rparr>,
     lp_body = enc_session demo_connection\<rparr>"

lemma demo_sent:
  "\<exists>h m r. demo_ready = (Ok (), h, [Forwarded SN_CHAT r]) \<and> uplink ''gw'' [Forwarded SN_CHAT r] = [demo_uplink]
     \<and> gw_meta h = [(''gw_alice_1'', m)] \<and> cm_account m = ''alice''"
proof -
  obtain h m where h: "demo_accept = (Ok ''gw_alice_1'', h, [])" and a: "gw_meta h = [(''gw_alice_1'', m)]" "cm_account m = ''alice''" "cm_app m = ''kim''"
    "gw_pending h = [(''gw_alice_1'', LogicPkt_write_body (enc_session demo_connection)
         \<lparr>lp_header = demo_login_header\<lparr>h_channel_id := ''gw_alice_1''\<rparr>, lp_body = []\<rparr>)]"
    using demo_accepted by blast
  have f: "gv_forward demo_gateway_env s p = Ok ()" for s p by (simp add: demo_gateway_env_def)
  show ?thesis
    by (simp add: demo_ready_def h a on_channel_ready_def forward_logic_def inject_meta_def f uplink_def demo_uplink_def
      LogicPkt_write_body_def SN_LOGIN_def SN_CHAT_def set_meta_def demo_login_header_def Header_default_def
      META_APP_def META_ACCOUNT_def META_DEST_SERVER_def)
qed

definition demo_raw :: "byte list" where "demo_raw = MAGIC_LOGIC_PKT @ [0, 0, 0, 0] @ enc_session demo_connection"

lemma demo_length: "length (enc_session demo_connection) = 57"
  by (simp add: enc_session_def enc_field_def demo_connection_def)

lemma read_fixed:
  assumes "h_body_length (lp_header q) = word_of_nat (length (enc_session demo_connection))" "lp_body q = enc_session demo_connection"
  shows "read_logic (\<lambda>_. Ok (lp_header q)) (MAGIC_LOGIC_PKT @ [0, 0, 0, 0] @ enc_session demo_connection) = Ok q"
  using assms by (simp add: read_logic_def read_packet_def MAGIC_LOGIC_PKT_def MAGIC_BASIC_PKT_def LogicPkt_decode_def
    from_u32_be_def from_u32_le_def Let_def res_bind_def demo_length)

lemma demo_uplink_read: "read_logic (\<lambda>_. Ok (lp_header demo_uplink)) demo_raw = Ok demo_uplink"
  unfolding demo_raw_def by (rule read_fixed) (simp_all add: demo_uplink_def)

definition demo_served where
  "demo_served = receive (\<lambda>_. Ok (lp_header demo_uplink)) (memory_svc demo_chat_env) demo_raw demo_start []"

lemma demo_served_session: "mem_get ''gw_alice_1'' (ch_sessions (fst (snd demo_served))) = Ok demo_connection"
proof -
  have c: "Command_parse (h_command (lp_header demo_uplink)) = Some LoginSignIn"
    by (simp add: demo_uplink_def demo_login_header_def Command_parse_iff)
  have h: "hget (chat_router (memory_svc demo_chat_env)) LoginSignIn = Some (do_sys_login (memory_svc demo_chat_env))"
    by (rule demo_router) (simp add: handler_list_def)
  have d: "dec_session (lp_body demo_uplink) = Ok demo_connection"
    by (simp add: demo_uplink_def dec_enc_session)
  have f: "s_account demo_connection = ''alice''" "s_app demo_connection = ''kim''" "s_channel_id demo_connection = ''gw_alice_1''"
    "s_device demo_connection = ''web''" "s_jti demo_connection = []"
    by (simp_all add: demo_connection_def)
  have "fst (snd demo_served) = fst (snd (do_sys_login (memory_svc demo_chat_env)
      \<lparr>cx_request = demo_uplink, cx_session = login_session demo_uplink\<rparr> demo_start []))"
    by (simp add: demo_served_def receive_def demo_uplink_read receive_packet_def c serve_packet_def serve_def h split_beta Let_def)
  then show ?thesis
    by (simp add: demo_simps demo_chat_env_def do_sys_login_def d f kickout_def login_finish_def on_location_added_def demo_start_def chat_new_def
     lookup_def user_dir_new_def mem_new_def mem_list_locations_def mem_add_def user_upsert_def exclusive_device_def
     bump_gen_def gen_of_def gen_key_def presence_fanout_def memory_interest_def viewers_def interest_new_def members_at_def
     map_filter_def mem_get_locations_def hor_insert_def mem_get_def)
qed

lemma demo_deployed:
  "\<exists>d h m. deploy_reach (\<lambda>a. a = ''alice'') enc_session d \<and> hget (dp_gateways d) ''gw'' = Some h
     \<and> hget (gw_meta h) ''gw_alice_1'' = Some m \<and> cm_account m = ''alice''
     \<and> mem_get ''gw_alice_1'' (ch_sessions (dp_chat d)) = Ok demo_connection"
proof -
  let ?V = "\<lambda>a. a = ''alice''"
  have env: "gateway_env_ok ?V enc_session demo_gateway_env"
    by (simp add: gateway_env_ok_def demo_gateway_env_def demo_claims_def)
  have codec: "session_codec enc_session demo_chat_env" by (simp add: session_codec_def demo_chat_env_def dec_enc_session)
  obtain h1 where h1: "demo_accept = (Ok ''gw_alice_1'', h1, [])" using demo_accepted by blast
  obtain h2 m q where h2: "demo_ready = (Ok (), h2, [Forwarded SN_CHAT q])" "uplink ''gw'' [Forwarded SN_CHAT q] = [demo_uplink]"
    "gw_meta h2 = [(''gw_alice_1'', m)]" "cm_account m = ''alice''" using demo_sent by blast
  define d0 where "d0 = \<lparr>dp_gateways = [], dp_chat = demo_start, dp_wire = []\<rparr>"
  define d1 where "d1 = d0\<lparr>dp_gateways := hput ''gw'' demo_gw0 (dp_gateways d0)\<rparr>"
  define d2 where "d2 = d1\<lparr>dp_gateways := hput ''gw'' h1 (dp_gateways d1), dp_wire := dp_wire d1 @ uplink ''gw'' []\<rparr>"
  define d3 where "d3 = d2\<lparr>dp_gateways := hput ''gw'' h2 (dp_gateways d2), dp_wire := dp_wire d2 @ uplink ''gw'' [Forwarded SN_CHAT q]\<rparr>"
  define d4 where "d4 = d3\<lparr>dp_wire := [] @ [], dp_chat := fst (snd demo_served)\<rparr>"
  have "distinct_draws (\<lambda>k. Ok (int k + 100))" by (simp add: distinct_draws_def)
  then have r0: "deploy_reach ?V enc_session d0" unfolding d0_def demo_start_def by (rule deploy_reach.start)
  have r1: "deploy_reach ?V enc_session d1"
    unfolding d1_def demo_gw0_def by (intro deploy_reach.step[OF r0] deploy_step.gateway_start) (simp add: gateway_name_def)
  have "gateway_step demo_gateway_env demo_gw0 [] h1"
    using h1[unfolded demo_accept_def] by (rule gateway_step.accept)
  then have r2: "deploy_reach ?V enc_session d2"
    unfolding d2_def by (intro deploy_reach.step[OF r1] deploy_step.gateway[OF _ env]) (simp_all add: d1_def)
  have "gateway_step demo_gateway_env h1 [Forwarded SN_CHAT q] h2"
    using h2(1)[unfolded demo_ready_def h1] by (intro gateway_step.ready) simp
  then have r3: "deploy_reach ?V enc_session d3"
    unfolding d3_def by (intro deploy_reach.step[OF r2] deploy_step.gateway[OF _ env]) (simp_all add: d2_def)
  have w: "dp_wire d3 = [] @ demo_uplink # []" "dp_chat d3 = demo_start"
    by (simp_all add: d3_def d2_def d1_def d0_def h2(2)) (simp add: uplink_def)
  have r4: "deploy_reach ?V enc_session d4"
    unfolding d4_def
    by (rule deploy_reach.step[OF r3 deploy_step.chat[OF w(1) demo_uplink_read codec, where r = "fst demo_served" and log' = "snd (snd demo_served)"]])
      (simp add: w(2) demo_served_def)
  have "hget (dp_gateways d4) ''gw'' = Some h2" by (simp add: d4_def d3_def)
  then show ?thesis
    using r4 h2(3,4) demo_served_session by (intro exI[of _ d4] exI[of _ h2] exI[of _ m]) (simp add: d4_def)
qed

lemma read_logic_packet: "read_logic dec raw = Ok p \<Longrightarrow> read_packet dec raw = Ok (LogicPacket p)"
  by (cases "read_packet dec raw") (auto simp: read_logic_def res_bind_def split: Packet.splits)

text \<open>A packet that claims another connection's name.\<close>

definition demo_forged :: LogicPkt where
  "demo_forged = \<lparr>lp_header = Header_default\<lparr>h_command := ''chat.user.talk'', h_channel_id := ''gw_bob_2'',
     h_body_length := word_of_nat (length (enc_session demo_connection))\<rparr>, lp_body = enc_session demo_connection\<rparr>"

definition demo_client_env :: gateway_env where
  "demo_client_env = demo_gateway_env\<lparr>gv_dec_header := \<lambda>_. Ok (lp_header demo_forged)\<rparr>"

theorem no_impersonation_witness:
  "\<exists>d h h' m p out. deploy_reach (\<lambda>a. a = ''alice'') enc_session d \<and> hget (dp_gateways d) ''gw'' = Some h
     \<and> hget (gw_meta h) ''gw_alice_1'' = Some m \<and> cm_account m = ''alice''
     \<and> gateway_receive demo_client_env ''gw_alice_1'' demo_raw h = (h', out) \<and> uplink ''gw'' out = [p]
     \<and> h_channel_id (lp_header demo_forged) = ''gw_bob_2'' \<and> h_channel_id (lp_header p) = ''gw_alice_1''
     \<and> s_account demo_connection = ''alice''
     \<and> receive_packet (memory_svc demo_chat_env) p (dp_chat d) [] = serve_packet (memory_svc demo_chat_env) p demo_connection (dp_chat d) []"
proof -
  obtain d h m where d: "deploy_reach (\<lambda>a. a = ''alice'') enc_session d" "hget (dp_gateways d) ''gw'' = Some h"
    "hget (gw_meta h) ''gw_alice_1'' = Some m" "cm_account m = ''alice''" "mem_get ''gw_alice_1'' (ch_sessions (dp_chat d)) = Ok demo_connection"
    using demo_deployed by blast
  have "read_logic (gv_dec_header demo_client_env) demo_raw = Ok demo_forged"
    using read_fixed[of demo_forged] by (simp add: demo_raw_def demo_client_env_def) (simp add: demo_forged_def)
  then have r: "read_packet (gv_dec_header demo_client_env) demo_raw = Ok (LogicPacket demo_forged)" by (rule read_logic_packet)
  have c: "service_name (h_command (lp_header demo_forged)) = SN_CHAT" by (simp add: demo_forged_def service_name_def SN_CHAT_def)
  have f: "gv_forward demo_client_env s p = Ok ()" for s p by (simp add: demo_client_env_def demo_gateway_env_def)
  let ?q = "inject_meta h (demo_forged\<lparr>lp_header := (lp_header demo_forged)\<lparr>h_channel_id := ''gw_alice_1''\<rparr>\<rparr>)"
  let ?out = "[Forwarded SN_CHAT ?q]" and ?p = "set_meta META_DEST_SERVER ''gw'' ?q"
  have g: "gateway_receive demo_client_env ''gw_alice_1'' demo_raw h = (h, ?out)"
    using r c by (simp add: gateway_receive_def forward_logic_def f)
  have u: "uplink ''gw'' ?out = [?p]" by (simp add: uplink_def)
  have "s_account demo_connection = ''alice''" by (simp add: demo_connection_def)
  then show ?thesis
    using no_impersonation[OF d(1-3) g _ d(1), of ?p demo_chat_env "[]"] d u g
    by (intro exI[of _ d] exI[of _ h] exI[of _ m] exI[of _ ?p] exI[of _ ?out]) (simp add: demo_forged_def)
qed

theorem deployment_sound_witness:
  "\<exists>d. deploy_reach (\<lambda>a. a = ''alice'') enc_session d \<and> chat_reach (dp_chat d)
     \<and> mem_get ''gw_alice_1'' (ch_sessions (dp_chat d)) = Ok demo_connection \<and> s_account demo_connection = ''alice''"
proof -
  obtain d where d: "deploy_reach (\<lambda>a. a = ''alice'') enc_session d" "mem_get ''gw_alice_1'' (ch_sessions (dp_chat d)) = Ok demo_connection"
    using demo_deployed by blast
  from deployment_sound[OF d(1)] d show ?thesis by blast
qed

section \<open>The way down\<close>

lemma split_char_plain: "d \<notin> set a \<Longrightarrow> split_char d a = [a]"
  by (induction a) auto

lemma split_char_append: "d \<notin> set a \<Longrightarrow> split_char d (a @ d # b) = a # split_char d b"
  by (induction a) auto

lemma split_join: "list_all (\<lambda>c. CHR '','' \<notin> set c) cs \<Longrightarrow> cs \<noteq> [] \<Longrightarrow> split_char (CHR '','') (join_commas cs) = cs"
  by (induction cs rule: join_commas.induct) (simp_all add: split_char_plain split_char_append)


lemma del_set_meta: "del_meta k (set_meta k v p) = del_meta k p" "del_meta k (set_meta k' v p) = (if k = k' then del_meta k p else set_meta k' v (del_meta k p))"
  by (auto simp: del_meta_def set_meta_def conj_commute)

text \<open>The packet that the dispatcher hands to the container.\<close>

definition downlink_packet :: "push \<Rightarrow> LogicPkt" where
  "downlink_packet p = set_meta META_DEST_CHANNELS (join_commas (pu_channels p)) (set_meta META_DEST_SERVER (pu_gateway p) (pu_pkt p))"

text \<open>C9: A push reaches exactly the connections it names. What the chat service's dispatcher hands to the container
  for a push, when it arrives at the named gateway, is pushed to each of the named connections, once and in
  their order, without the routing entries, and the gateway's hooks run for exactly those that took it;
  any other gateway drops it.\<close>

theorem downlink_exact:
  assumes "list_all (\<lambda>c. c \<noteq> [] \<and> CHR '','' \<notin> set c) (pu_channels p)" "read_logic dec_header raw = Ok (downlink_packet p)"
  shows "ContainerDispatcher container log p = (case container (pu_gateway p) (downlink_packet p) of Inl e \<Rightarrow> Err (RouterDispatcher e) | Inr _ \<Rightarrow> Ok ())
    \<and> deliver_down dec_header me push_ok raw = Ok (
          let clean = del_meta META_DEST_CHANNELS (del_meta META_DEST_SERVER (pu_pkt p)) in
          if me = pu_gateway p
          then \<lparr>dv_pushes = map (\<lambda>c. (c, clean)) (pu_channels p), dv_hooks = map (\<lambda>c. (c, clean)) (filter push_ok (pu_channels p))\<rparr>
          else \<lparr>dv_pushes = [], dv_hooks = []\<rparr>)"
proof
  let ?q = "downlink_packet p"
  show "ContainerDispatcher container log p = (case container (pu_gateway p) ?q of Inl e \<Rightarrow> Err (RouterDispatcher e) | Inr _ \<Rightarrow> Ok ())"
    by (simp add: ContainerDispatcher_def downlink_packet_def Let_def)
  have ne: "META_DEST_SERVER \<noteq> META_DEST_CHANNELS" by (simp add: META_DEST_SERVER_def META_DEST_CHANNELS_def)
  have meta: "get_meta ?q META_DEST_SERVER = Some (pu_gateway p)" "get_meta ?q META_DEST_CHANNELS = Some (join_commas (pu_channels p))"
    "del_meta META_DEST_CHANNELS (del_meta META_DEST_SERVER ?q) = del_meta META_DEST_CHANNELS (del_meta META_DEST_SERVER (pu_pkt p))"
    using ne by (simp_all add: downlink_packet_def get_set_meta del_set_meta)
  have ids: "filter (\<lambda>s. s \<noteq> []) (split_char (CHR '','') (join_commas (pu_channels p))) = pu_channels p"
    using assms(1) split_join[of "pu_channels p"] by (cases "pu_channels p = []") (auto simp: list_all_iff filter_id_conv)
  show "deliver_down dec_header me push_ok raw = Ok (
          let clean = del_meta META_DEST_CHANNELS (del_meta META_DEST_SERVER (pu_pkt p)) in
          if me = pu_gateway p
          then \<lparr>dv_pushes = map (\<lambda>c. (c, clean)) (pu_channels p), dv_hooks = map (\<lambda>c. (c, clean)) (filter push_ok (pu_channels p))\<rparr>
          else \<lparr>dv_pushes = [], dv_hooks = []\<rparr>)"
    using assms(2) meta ids by (simp add: deliver_down_def res_bind_def Let_def del: filter_filter)
qed

definition demo_push :: push where
  "demo_push = \<lparr>pu_gateway = ''gw'', pu_channels = [''gw_alice_1'', ''gw_bob_2''], pu_pkt = demo_uplink\<rparr>"

theorem downlink_exact_witness:
  "(\<exists>d. deliver_down (\<lambda>_. Ok (lp_header (downlink_packet demo_push))) ''gw'' (\<lambda>_. True) demo_raw = Ok d
     \<and> map fst (dv_pushes d) = [''gw_alice_1'', ''gw_bob_2''])
   \<and> deliver_down (\<lambda>_. Ok (lp_header (downlink_packet demo_push))) ''gw-2'' (\<lambda>_. True) demo_raw = Ok \<lparr>dv_pushes = [], dv_hooks = []\<rparr>"
proof -
  have r: "read_logic (\<lambda>_. Ok (lp_header (downlink_packet demo_push))) demo_raw = Ok (downlink_packet demo_push)"
    unfolding demo_raw_def by (rule read_fixed) (simp_all add: downlink_packet_def demo_push_def set_meta_def demo_uplink_def)
  have c: "list_all (\<lambda>c. c \<noteq> [] \<and> CHR '','' \<notin> set c) (pu_channels demo_push)" by (simp add: demo_push_def)
  show ?thesis
    using downlink_exact[OF c r, of "\<lambda>_ _. Ok ()" "[]" "''gw''" "\<lambda>_. True"] downlink_exact[OF c r, of "\<lambda>_ _. Ok ()" "[]" "''gw-2''" "\<lambda>_. True"]
    by (simp add: demo_push_def Let_def)
qed

end
