(* ===== verification/Kim_Lanes.thy ===== *)
theory Kim_Lanes
  imports Kim_Protocol "HOL-Library.Sublist"
begin

text \<open>
  The read side of a connection, \<open>kim-core/src/channel.rs\<close>: the read loop puts each message into the lane of its
  key, a worker per lane hands the messages of the lane to the listener one after the other, and a
  semaphore bounds the messages in flight. The read loop and the workers are cut at their awaits and at
  the lock of the lane table, and their segments run in any order.
\<close>

section \<open>Frames\<close>

definition lane_id :: "(byte list \<Rightarrow> string option) option \<Rightarrow> string \<Rightarrow> byte list \<Rightarrow> string" where
  "lane_id lane_key self raw =
     (case lane_key of
        None \<Rightarrow> self
      | Some f \<Rightarrow> (case f raw of None \<Rightarrow> self | Some k \<Rightarrow> if k = [] then self else k))"

datatype read_action = StopClosed | ReplyPong | SkipFrame | Enqueue string "byte list"

definition read_action_of :: "(byte list \<Rightarrow> string option) option \<Rightarrow> string \<Rightarrow> Frame \<Rightarrow> read_action" where
  "read_action_of lane_key self frame =
     (case opcode frame of
        Close \<Rightarrow> StopClosed
      | Ping \<Rightarrow> ReplyPong
      | Pong \<Rightarrow> SkipFrame
      | Binary \<Rightarrow> if payload frame = [] then SkipFrame else Enqueue (lane_id lane_key self (payload frame)) (payload frame)
      | Text \<Rightarrow> if payload frame = [] then SkipFrame else Enqueue (lane_id lane_key self (payload frame)) (payload frame)
      | Continuation \<Rightarrow> SkipFrame)"

section \<open>The state\<close>

text \<open>A worker waits for a job, handles one, has left its loop, or has dropped its receiver.\<close>

datatype 'p worker = Waiting | Handling 'p | Retiring | Gone

record ('k, 'p) lane =
  ln_key :: 'k
  ln_queue :: "'p list"
  ln_worker :: "'p worker"

text \<open>Where the read loop is: reading, waiting for a permit, about to take the lock of the table with a permit, or
  waiting for room in the queue of a lane.\<close>

datatype ('k, 'p) enqueuer = Reading | Acquire 'k 'p | Admit 'k 'p | WaitSend nat 'k 'p

text \<open>Lanes are numbered in the order they are spawned. \<open>la_read\<close> and \<open>la_started\<close> record what was read and what
  the listener was given; \<open>la_others\<close> are the permits that other connections hold.\<close>

record ('k, 'p) lane_set =
  la_lanes :: "('k, 'p) lane list"
  la_txs :: "('k, nat) hmap"
  la_permits :: nat
  la_others :: nat
  la_cap :: nat
  la_enq :: "('k, 'p) enqueuer"
  la_draining :: bool
  la_read :: "('k \<times> 'p) list"
  la_started :: "('k \<times> 'p) list"

definition lanes_new :: "nat \<Rightarrow> nat \<Rightarrow> nat \<Rightarrow> ('k, 'p) lane_set" where
  "lanes_new permits others cap =
     \<lparr>la_lanes = [], la_txs = [], la_permits = permits, la_others = others, la_cap = cap, la_enq = Reading,
      la_draining = False, la_read = [], la_started = []\<rparr>"

definition with_lane :: "nat \<Rightarrow> (('k, 'p) lane \<Rightarrow> ('k, 'p) lane) \<Rightarrow> ('k, 'p) lane_set \<Rightarrow> ('k, 'p) lane_set" where
  "with_lane i f s = s\<lparr>la_lanes := (la_lanes s)[i := f (la_lanes s ! i)]\<rparr>"

definition spawn_lane :: "'k \<Rightarrow> ('k, 'p) lane_set \<Rightarrow> ('k, 'p) lane_set" where
  "spawn_lane k s =
     s\<lparr>la_lanes := la_lanes s @ [\<lparr>ln_key = k, ln_queue = [], ln_worker = Waiting\<rparr>], la_txs := hput k (length (la_lanes s)) (la_txs s)\<rparr>"

section \<open>The read loop\<close>

definition start_enqueue :: "'k \<Rightarrow> 'p \<Rightarrow> ('k, 'p) lane_set \<Rightarrow> ('k, 'p) lane_set" where
  "start_enqueue k p s = s\<lparr>la_enq := Acquire k p, la_read := la_read s @ [(k, p)]\<rparr>"

definition acquire :: "'k \<Rightarrow> 'p \<Rightarrow> ('k, 'p) lane_set \<Rightarrow> ('k, 'p) lane_set" where
  "acquire k p s = s\<lparr>la_permits := la_permits s - 1, la_enq := Admit k p\<rparr>"

text \<open>\<open>try_send\<close> to lane \<open>i\<close>: closed, full, or sent.\<close>

definition admit_to :: "nat \<Rightarrow> 'k \<Rightarrow> 'p \<Rightarrow> ('k, 'p) lane_set \<Rightarrow> ('k, 'p) lane_set" where
  "admit_to i k p s =
     (if ln_worker (la_lanes s ! i) = Gone then s\<lparr>la_txs := hdel k (la_txs s), la_enq := Admit k p\<rparr>
      else if length (ln_queue (la_lanes s ! i)) < la_cap s
        then (with_lane i (\<lambda>l. l\<lparr>ln_queue := ln_queue l @ [p]\<rparr>) s)\<lparr>la_enq := Reading\<rparr>
      else s\<lparr>la_enq := WaitSend i k p\<rparr>)"

definition admit_job :: "'k \<Rightarrow> 'p \<Rightarrow> ('k, 'p) lane_set \<Rightarrow> ('k, 'p) lane_set" where
  "admit_job k p s =
     (case hget (la_txs s) k of
        Some i \<Rightarrow> admit_to i k p s
      | None \<Rightarrow> let s = spawn_lane k s in admit_to (length (la_lanes s) - 1) k p s)"

text \<open>\<open>send\<close> on a lane that was full: it returns the job when the receiver is gone, and enqueues it when there is
  room; until then it waits.\<close>

definition wait_send :: "nat \<Rightarrow> 'k \<Rightarrow> 'p \<Rightarrow> ('k, 'p) lane_set \<Rightarrow> ('k, 'p) lane_set" where
  "wait_send i k p s =
     (if ln_worker (la_lanes s ! i) = Gone then s\<lparr>la_enq := Admit k p\<rparr>
      else if length (ln_queue (la_lanes s ! i)) < la_cap s
        then (with_lane i (\<lambda>l. l\<lparr>ln_queue := ln_queue l @ [p]\<rparr>) s)\<lparr>la_enq := Reading\<rparr>
      else s)"

definition drain :: "('k, 'p) lane_set \<Rightarrow> ('k, 'p) lane_set" where
  "drain s = s\<lparr>la_txs := [], la_draining := True\<rparr>"

section \<open>The workers\<close>

definition worker_take :: "nat \<Rightarrow> ('k, 'p) lane_set \<Rightarrow> ('k, 'p) lane_set" where
  "worker_take i s =
     (let l = la_lanes s ! i in
      case ln_queue l of
        [] \<Rightarrow> s
      | p # q \<Rightarrow> (with_lane i (\<lambda>l. l\<lparr>ln_queue := q, ln_worker := Handling p\<rparr>) s)\<lparr>la_started := la_started s @ [(ln_key l, p)]\<rparr>)"

text \<open>The permit of a job is dropped when its handling ends.\<close>

definition worker_finish :: "nat \<Rightarrow> ('k, 'p) lane_set \<Rightarrow> ('k, 'p) lane_set" where
  "worker_finish i s = (with_lane i (\<lambda>l. l\<lparr>ln_worker := Waiting\<rparr>) s)\<lparr>la_permits := la_permits s + 1\<rparr>"

text \<open>The idle time passes: a job that came in meanwhile is handled, otherwise the lane is taken out of the table.\<close>

definition worker_idle :: "nat \<Rightarrow> ('k, 'p) lane_set \<Rightarrow> ('k, 'p) lane_set" where
  "worker_idle i s =
     (if ln_queue (la_lanes s ! i) \<noteq> [] then worker_take i s
      else (let k = ln_key (la_lanes s ! i);
                s = (if hget (la_txs s) k = Some i then s\<lparr>la_txs := hdel k (la_txs s)\<rparr> else s)
            in with_lane i (\<lambda>l. l\<lparr>ln_worker := Retiring\<rparr>) s))"

text \<open>\<open>recv\<close> returns \<open>None\<close> when every sender is gone.\<close>

definition sender_held :: "nat \<Rightarrow> ('k, 'p) lane_set \<Rightarrow> bool" where
  "sender_held i s \<longleftrightarrow> (\<exists>k. hget (la_txs s) k = Some i) \<or> (\<exists>k p. la_enq s = WaitSend i k p)"

definition worker_stop :: "nat \<Rightarrow> ('k, 'p) lane_set \<Rightarrow> ('k, 'p) lane_set" where
  "worker_stop i s = with_lane i (\<lambda>l. l\<lparr>ln_worker := Retiring\<rparr>) s"

text \<open>The receiver is dropped, and with it what is left in the queue.\<close>

definition worker_exit :: "nat \<Rightarrow> ('k, 'p) lane_set \<Rightarrow> ('k, 'p) lane_set" where
  "worker_exit i s =
     (with_lane i (\<lambda>l. l\<lparr>ln_queue := [], ln_worker := Gone\<rparr>) s)\<lparr>la_permits := la_permits s + length (ln_queue (la_lanes s ! i))\<rparr>"

section \<open>Interleaving\<close>

definition lane_in :: "nat \<Rightarrow> ('k, 'p) lane_set \<Rightarrow> ('p worker \<Rightarrow> bool) \<Rightarrow> bool" where
  "lane_in i s W \<longleftrightarrow> i < length (la_lanes s) \<and> W (ln_worker (la_lanes s ! i))"

definition waited_on :: "nat \<Rightarrow> ('k, 'p) lane_set \<Rightarrow> bool" where
  "waited_on i s \<longleftrightarrow> (\<exists>k p. la_enq s = WaitSend i k p)"

inductive worker_step :: "bool \<Rightarrow> ('k, 'p) lane_set \<Rightarrow> ('k, 'p) lane_set \<Rightarrow> bool" for prompt where
  take: "lane_in i s (\<lambda>w. w = Waiting) \<Longrightarrow> ln_queue (la_lanes s ! i) \<noteq> [] \<Longrightarrow> worker_step prompt s (worker_take i s)"
| finish: "lane_in i s (\<lambda>w. w = Handling p) \<Longrightarrow> worker_step prompt s (worker_finish i s)"
| idle: "lane_in i s (\<lambda>w. w = Waiting) \<Longrightarrow> (prompt \<longrightarrow> \<not> waited_on i s) \<Longrightarrow> worker_step prompt s (worker_idle i s)"
| stop: "lane_in i s (\<lambda>w. w = Waiting) \<Longrightarrow> ln_queue (la_lanes s ! i) = [] \<Longrightarrow> \<not> sender_held i s \<Longrightarrow> worker_step prompt s (worker_stop i s)"
| exit: "lane_in i s (\<lambda>w. w = Retiring) \<Longrightarrow> worker_step prompt s (worker_exit i s)"

text \<open>With \<open>prompt\<close>, a sender that waits for room gets it before the lane has been idle for its whole idle time.\<close>

inductive lane_step :: "bool \<Rightarrow> ('k, 'p) lane_set \<Rightarrow> ('k, 'p) lane_set \<Rightarrow> bool" for prompt where
  read: "la_enq s = Reading \<Longrightarrow> \<not> la_draining s \<Longrightarrow> lane_step prompt s (start_enqueue k p s)"
| acquire: "la_enq s = Acquire k p \<Longrightarrow> la_permits s > 0 \<Longrightarrow> lane_step prompt s (acquire k p s)"
| admit: "la_enq s = Admit k p \<Longrightarrow> lane_step prompt s (admit_job k p s)"
| sent: "la_enq s = WaitSend i k p \<Longrightarrow> lane_step prompt s (wait_send i k p s)"
| drain: "la_enq s = Reading \<Longrightarrow> lane_step prompt s (drain s)"
| worker: "worker_step prompt s s' \<Longrightarrow> lane_step prompt s s'"
| others_take: "la_permits s > 0 \<Longrightarrow> lane_step prompt s (s\<lparr>la_permits := la_permits s - 1, la_others := la_others s + 1\<rparr>)"
| others_return: "la_others s > 0 \<Longrightarrow> lane_step prompt s (s\<lparr>la_permits := la_permits s + 1, la_others := la_others s - 1\<rparr>)"

inductive lane_reach :: "bool \<Rightarrow> nat \<Rightarrow> nat \<Rightarrow> ('k, 'p) lane_set \<Rightarrow> bool" for prompt budget cap where
  start: "permits + others = budget \<Longrightarrow> lane_reach prompt budget cap (lanes_new permits others cap)"
| step: "lane_reach prompt budget cap s \<Longrightarrow> lane_step prompt s s' \<Longrightarrow> lane_reach prompt budget cap s'"

section \<open>What always holds\<close>

fun live :: "'p worker \<Rightarrow> bool" where
  "live Waiting = True" | "live (Handling p) = True" | "live Retiring = False" | "live Gone = False"

definition kq :: "'k \<Rightarrow> ('k, 'p) lane list \<Rightarrow> 'p list" where
  "kq k L = concat (map ln_queue (filter (\<lambda>l. ln_key l = k) L))"

definition ks :: "'k \<Rightarrow> ('k \<times> 'p) list \<Rightarrow> 'p list" where
  "ks k xs = map snd (filter (\<lambda>x. fst x = k) xs)"

lemma ks_simps [simp]: "ks k [] = []" "ks k (xs @ ys) = ks k xs @ ks k ys" "ks k ((k', p) # xs) = (if k' = k then p # ks k xs else ks k xs)"
  by (simp_all add: ks_def)

fun pend :: "'k \<Rightarrow> ('k, 'p) enqueuer \<Rightarrow> 'p list" where
  "pend k Reading = []"
| "pend k (Acquire k' p) = (if k' = k then [p] else [])"
| "pend k (Admit k' p) = (if k' = k then [p] else [])"
| "pend k (WaitSend i k' p) = (if k' = k then [p] else [])"

fun enq_held :: "('k, 'p) enqueuer \<Rightarrow> nat" where
  "enq_held Reading = 0" | "enq_held (Acquire k p) = 0" | "enq_held (Admit k p) = 1" | "enq_held (WaitSend i k p) = 1"

definition lane_held :: "('k, 'p) lane \<Rightarrow> nat" where
  "lane_held l = length (ln_queue l) + (case ln_worker l of Handling p \<Rightarrow> 1 | _ \<Rightarrow> 0)"

text \<open>A lane is found in the table as long as its worker lives, and there is one live lane for a key. With prompt senders
  (\<open>b\<close>) the lane a sender waits for is alive.\<close>

definition table_ok :: "bool \<Rightarrow> ('k, 'p) lane_set \<Rightarrow> bool" where
  "table_ok b s \<longleftrightarrow>
     (\<forall>k i. hget (la_txs s) k = Some i \<longrightarrow> i < length (la_lanes s) \<and> ln_key (la_lanes s ! i) = k \<and> live (ln_worker (la_lanes s ! i)))
     \<and> (\<forall>i < length (la_lanes s). \<forall>j < length (la_lanes s). live (ln_worker (la_lanes s ! i)) \<longrightarrow> live (ln_worker (la_lanes s ! j)) \<longrightarrow>
          ln_key (la_lanes s ! i) = ln_key (la_lanes s ! j) \<longrightarrow> i = j)
     \<and> (\<not> la_draining s \<longrightarrow> (\<forall>i < length (la_lanes s). live (ln_worker (la_lanes s ! i)) \<longrightarrow> hget (la_txs s) (ln_key (la_lanes s ! i)) = Some i))
     \<and> (\<forall>i k p. la_enq s = WaitSend i k p \<longrightarrow> i < length (la_lanes s) \<and> ln_key (la_lanes s ! i) = k \<and> (b \<longrightarrow> live (ln_worker (la_lanes s ! i))))
     \<and> (la_draining s \<longrightarrow> la_enq s = Reading \<and> la_txs s = [])"

definition flow_ok :: "('k, 'p) lane_set \<Rightarrow> bool" where
  "flow_ok s \<longleftrightarrow>
     (\<forall>i < length (la_lanes s). \<not> live (ln_worker (la_lanes s ! i)) \<longrightarrow> ln_queue (la_lanes s ! i) = [])
     \<and> (\<forall>k. ks k (la_read s) = ks k (la_started s) @ kq k (la_lanes s) @ pend k (la_enq s))"

definition permits_ok :: "nat \<Rightarrow> nat \<Rightarrow> ('k, 'p) lane_set \<Rightarrow> bool" where
  "permits_ok budget cap s \<longleftrightarrow> la_cap s = cap
     \<and> la_permits s + la_others s + sum_list (map lane_held (la_lanes s)) + enq_held (la_enq s) = budget
     \<and> (\<forall>l \<in> set (la_lanes s). length (ln_queue l) \<le> cap \<and> (ln_worker l = Gone \<longrightarrow> ln_queue l = []))"

lemma with_lane_fields [simp]:
  "length (la_lanes (with_lane i f s)) = length (la_lanes s)"
  "la_txs (with_lane i f s) = la_txs s" "la_permits (with_lane i f s) = la_permits s" "la_others (with_lane i f s) = la_others s"
  "la_cap (with_lane i f s) = la_cap s" "la_enq (with_lane i f s) = la_enq s" "la_draining (with_lane i f s) = la_draining s"
  "la_read (with_lane i f s) = la_read s" "la_started (with_lane i f s) = la_started s"
  by (simp_all add: with_lane_def)

lemma with_lane_nth: "j < length (la_lanes s) \<Longrightarrow> la_lanes (with_lane i f s) ! j = (if j = i then f (la_lanes s ! i) else la_lanes s ! j)"
  by (simp add: with_lane_def nth_list_update)

lemma kq_Nil: "(\<forall>l \<in> set L. ln_key l = k \<longrightarrow> ln_queue l = []) \<Longrightarrow> kq k L = []"
  by (auto simp: kq_def)

lemma kq_append [simp]: "kq k (L @ M) = kq k L @ kq k M" "kq k (l # L) = (if ln_key l = k then ln_queue l else []) @ kq k L" "kq k [] = []"
  by (simp_all add: kq_def)

lemma kq_solo:
  assumes "i < length L" "\<forall>j < length L. j \<noteq> i \<longrightarrow> ln_key (L ! j) = ln_key (L ! i) \<longrightarrow> ln_queue (L ! j) = []" "ln_key l = ln_key (L ! i)"
  shows "kq (ln_key (L ! i)) (L[i := l]) = ln_queue l" "k \<noteq> ln_key (L ! i) \<Longrightarrow> kq k (L[i := l]) = kq k L"
proof -
  have L: "L = take i L @ L ! i # drop (Suc i) L" using id_take_nth_drop[OF assms(1)] .
  have U: "L[i := l] = take i L @ l # drop (Suc i) L" using upd_conv_take_nth_drop[OF assms(1)] .
  have e: "kq (ln_key (L ! i)) (take i L) = []" "kq (ln_key (L ! i)) (drop (Suc i) L) = []"
    using assms(2) by (auto intro!: kq_Nil simp: in_set_conv_nth)
  show "kq (ln_key (L ! i)) (L[i := l]) = ln_queue l" unfolding U using e assms(3) by simp
  show "kq k (L[i := l]) = kq k L" if "k \<noteq> ln_key (L ! i)"
    unfolding U using assms(3) that by (subst (3) L) simp
qed

lemma table_okD:
  assumes "table_ok b s"
  shows "hget (la_txs s) k = Some i \<Longrightarrow> i < length (la_lanes s) \<and> ln_key (la_lanes s ! i) = k \<and> live (ln_worker (la_lanes s ! i))"
    "i < length (la_lanes s) \<Longrightarrow> j < length (la_lanes s) \<Longrightarrow> live (ln_worker (la_lanes s ! i)) \<Longrightarrow> live (ln_worker (la_lanes s ! j)) \<Longrightarrow>
      ln_key (la_lanes s ! i) = ln_key (la_lanes s ! j) \<Longrightarrow> i = j"
    "\<not> la_draining s \<Longrightarrow> i < length (la_lanes s) \<Longrightarrow> live (ln_worker (la_lanes s ! i)) \<Longrightarrow> hget (la_txs s) (ln_key (la_lanes s ! i)) = Some i"
    "la_enq s = WaitSend i k p \<Longrightarrow> i < length (la_lanes s) \<and> ln_key (la_lanes s ! i) = k \<and> (b \<longrightarrow> live (ln_worker (la_lanes s ! i)))"
    "la_draining s \<Longrightarrow> la_enq s = Reading \<and> la_txs s = []"
  using assms unfolding table_ok_def by auto

lemma table_okI:
  assumes "\<And>k i. hget (la_txs s) k = Some i \<Longrightarrow> i < length (la_lanes s) \<and> ln_key (la_lanes s ! i) = k \<and> live (ln_worker (la_lanes s ! i))"
    "\<And>i j. i < length (la_lanes s) \<Longrightarrow> j < length (la_lanes s) \<Longrightarrow> live (ln_worker (la_lanes s ! i)) \<Longrightarrow> live (ln_worker (la_lanes s ! j)) \<Longrightarrow>
      ln_key (la_lanes s ! i) = ln_key (la_lanes s ! j) \<Longrightarrow> i = j"
    "\<And>i. \<not> la_draining s \<Longrightarrow> i < length (la_lanes s) \<Longrightarrow> live (ln_worker (la_lanes s ! i)) \<Longrightarrow> hget (la_txs s) (ln_key (la_lanes s ! i)) = Some i"
    "\<And>i k p. la_enq s = WaitSend i k p \<Longrightarrow> i < length (la_lanes s) \<and> ln_key (la_lanes s ! i) = k \<and> (b \<longrightarrow> live (ln_worker (la_lanes s ! i)))"
    "la_draining s \<Longrightarrow> la_enq s = Reading \<and> la_txs s = []"
  shows "table_ok b s"
  unfolding table_ok_def using assms by blast

lemma flow_okD:
  assumes "flow_ok s"
  shows "i < length (la_lanes s) \<Longrightarrow> \<not> live (ln_worker (la_lanes s ! i)) \<Longrightarrow> ln_queue (la_lanes s ! i) = []"
    "ks k (la_read s) = ks k (la_started s) @ kq k (la_lanes s) @ pend k (la_enq s)"
  using assms unfolding flow_ok_def by auto

lemma flow_okI:
  assumes "\<And>i. i < length (la_lanes s) \<Longrightarrow> \<not> live (ln_worker (la_lanes s ! i)) \<Longrightarrow> ln_queue (la_lanes s ! i) = []"
    "\<And>k. ks k (la_read s) = ks k (la_started s) @ kq k (la_lanes s) @ pend k (la_enq s)"
  shows "flow_ok s"
  unfolding flow_ok_def using assms by blast

text \<open>A change to one live lane: what the others see is unchanged.\<close>

lemma solo_live:
  assumes "table_ok b s" "flow_ok s" "i < length (la_lanes s)" "live (ln_worker (la_lanes s ! i))"
  shows "\<forall>j < length (la_lanes s). j \<noteq> i \<longrightarrow> ln_key (la_lanes s ! j) = ln_key (la_lanes s ! i) \<longrightarrow> ln_queue (la_lanes s ! j) = []"
proof (intro allI impI)
  fix j assume j: "j < length (la_lanes s)" "j \<noteq> i" "ln_key (la_lanes s ! j) = ln_key (la_lanes s ! i)"
  then have "\<not> live (ln_worker (la_lanes s ! j))" using table_okD(2)[OF assms(1) j(1) assms(3)] assms(4) by blast
  then show "ln_queue (la_lanes s ! j) = []" by (rule flow_okD(1)[OF assms(2) j(1)])
qed

lemma kq_with_lane:
  assumes "table_ok b s" "flow_ok s" "i < length (la_lanes s)" "live (ln_worker (la_lanes s ! i))" "ln_key (f (la_lanes s ! i)) = ln_key (la_lanes s ! i)"
  shows "kq k (la_lanes (with_lane i f s)) = (if k = ln_key (la_lanes s ! i) then ln_queue (f (la_lanes s ! i)) else kq k (la_lanes s))"
  using kq_solo[OF assms(3) solo_live[OF assms(1-4)] assms(5)] by (simp add: with_lane_def)

lemma kq_live:
  assumes "table_ok b s" "flow_ok s" "i < length (la_lanes s)" "live (ln_worker (la_lanes s ! i))"
  shows "kq (ln_key (la_lanes s ! i)) (la_lanes s) = ln_queue (la_lanes s ! i)"
  using kq_solo(1)[OF assms(3) solo_live[OF assms], of "la_lanes s ! i"] by simp

text \<open>The shapes of the steps: a live lane is changed and stays live, a lane stops living, a lane is added.\<close>

lemma table_change:
  assumes "table_ok b s" "i < length (la_lanes s)" "live (ln_worker (f (la_lanes s ! i))) = live (ln_worker (la_lanes s ! i))"
    "ln_key (f (la_lanes s ! i)) = ln_key (la_lanes s ! i)"
    "la_lanes s' = la_lanes (with_lane i f s)" "la_txs s' = la_txs s" "la_draining s' = la_draining s"
    "la_enq s' = la_enq s \<or> la_enq s' = Reading"
  shows "table_ok b s'"
proof -
  have len: "length (la_lanes s') = length (la_lanes s)" using assms(5) by simp
  have same: "ln_key (la_lanes s' ! j) = ln_key (la_lanes s ! j)" "live (ln_worker (la_lanes s' ! j)) = live (ln_worker (la_lanes s ! j))"
    if "j < length (la_lanes s)" for j
    using assms(3-5) that by (auto simp: with_lane_nth)
  note D = table_okD[OF assms(1)]
  show ?thesis
  proof (rule table_okI, unfold len assms(6,7))
    show "j < length (la_lanes s) \<and> ln_key (la_lanes s' ! j) = k \<and> live (ln_worker (la_lanes s' ! j))" if "hget (la_txs s) k = Some j" for k j
      using D(1)[OF that] same by auto
    show "j = j'" if "j < length (la_lanes s)" "j' < length (la_lanes s)" "live (ln_worker (la_lanes s' ! j))" "live (ln_worker (la_lanes s' ! j'))"
      "ln_key (la_lanes s' ! j) = ln_key (la_lanes s' ! j')" for j j'
      using D(2)[of j j'] same that by auto
    show "hget (la_txs s) (ln_key (la_lanes s' ! j)) = Some j" if "\<not> la_draining s" "j < length (la_lanes s)" "live (ln_worker (la_lanes s' ! j))" for j
      using D(3)[of j] same that by auto
    show "j < length (la_lanes s) \<and> ln_key (la_lanes s' ! j) = k \<and> (b \<longrightarrow> live (ln_worker (la_lanes s' ! j)))" if "la_enq s' = WaitSend j k p" for j k p
      using D(4)[of j k p] same assms(8) that by auto
    show "la_enq s' = Reading \<and> la_txs s = []" if "la_draining s" using D(5) that assms(8) by auto
  qed
qed

lemma table_retire:
  assumes "table_ok b s" "i < length (la_lanes s)" "ln_key (f (la_lanes s ! i)) = ln_key (la_lanes s ! i)" "\<not> live (ln_worker (f (la_lanes s ! i)))"
    "la_lanes s' = la_lanes (with_lane i f s)" "\<And>k. hget (la_txs s') k = (if hget (la_txs s) k = Some i then None else hget (la_txs s) k)"
    "la_draining s' = la_draining s" "la_enq s' = la_enq s" "b \<longrightarrow> \<not> waited_on i s"
  shows "table_ok b s'"
proof -
  have len: "length (la_lanes s') = length (la_lanes s)" using assms(5) by simp
  have same: "ln_key (la_lanes s' ! j) = ln_key (la_lanes s ! j)" "live (ln_worker (la_lanes s' ! j)) \<longleftrightarrow> j \<noteq> i \<and> live (ln_worker (la_lanes s ! j))"
    if "j < length (la_lanes s)" for j
    using assms(3-5) that by (auto simp: with_lane_nth)
  note D = table_okD[OF assms(1)]
  show ?thesis
  proof (rule table_okI, unfold len assms(7,8))
    show "j < length (la_lanes s) \<and> ln_key (la_lanes s' ! j) = k \<and> live (ln_worker (la_lanes s' ! j))" if "hget (la_txs s') k = Some j" for k j
      using D(1)[of k j] same that assms(6)[of k] by (auto split: if_splits)
    show "j = j'" if "j < length (la_lanes s)" "j' < length (la_lanes s)" "live (ln_worker (la_lanes s' ! j))" "live (ln_worker (la_lanes s' ! j'))"
      "ln_key (la_lanes s' ! j) = ln_key (la_lanes s' ! j')" for j j'
      using D(2)[of j j'] same that by auto
    show "hget (la_txs s') (ln_key (la_lanes s' ! j)) = Some j" if "\<not> la_draining s" "j < length (la_lanes s)" "live (ln_worker (la_lanes s' ! j))" for j
      using D(3)[of j] same that assms(6) by auto
    show "j < length (la_lanes s) \<and> ln_key (la_lanes s' ! j) = k \<and> (b \<longrightarrow> live (ln_worker (la_lanes s' ! j)))" if "la_enq s = WaitSend j k p" for j k p
      using D(4)[of j k p] same assms(9) that by (auto simp: waited_on_def)
    have "la_txs s' = []" if "la_txs s = []" using assms(6)[of "fst (hd (la_txs s'))"] that by (cases "la_txs s'") auto
    then show "la_enq s = Reading \<and> la_txs s' = []" if "la_draining s" using D(5) that by auto
  qed
qed

lemma table_enq:
  assumes "table_ok b s" "la_lanes s' = la_lanes s" "la_txs s' = la_txs s" "la_draining s' = la_draining s"
    "\<And>i k p. la_enq s' = WaitSend i k p \<Longrightarrow> hget (la_txs s) k = Some i" "la_draining s \<Longrightarrow> la_enq s' = Reading"
  shows "table_ok b s'"
  using assms(2-4,6) table_okD[OF assms(1)] assms(5) by (intro table_okI) metis+

lemma table_spawn:
  assumes "table_ok b s" "hget (la_txs s) k = None" "\<not> la_draining s"
  shows "table_ok b (spawn_lane k s)"
proof -
  let ?s = "spawn_lane k s"
  note D = table_okD[OF assms(1)]
  have nth: "la_lanes ?s ! j = (if j < length (la_lanes s) then la_lanes s ! j else \<lparr>ln_key = k, ln_queue = [], ln_worker = Waiting\<rparr>)"
    if "j < Suc (length (la_lanes s))" for j
    using that by (auto simp: spawn_lane_def nth_append less_Suc_eq)
  have new: "ln_key (la_lanes s ! j) \<noteq> k" if "j < length (la_lanes s)" "live (ln_worker (la_lanes s ! j))" for j
    using D(3)[OF assms(3) that] assms(2) by auto
  have f: "length (la_lanes ?s) = Suc (length (la_lanes s))" "la_draining ?s = la_draining s" "la_enq ?s = la_enq s"
    "hget (la_txs ?s) k' = (if k' = k then Some (length (la_lanes s)) else hget (la_txs s) k')" for k'
    by (simp_all add: spawn_lane_def)
  show ?thesis
  proof (rule table_okI, unfold f)
    show "j < Suc (length (la_lanes s)) \<and> ln_key (la_lanes ?s ! j) = k' \<and> live (ln_worker (la_lanes ?s ! j))"
      if "(if k' = k then Some (length (la_lanes s)) else hget (la_txs s) k') = Some j" for k' j
      using D(1)[of k' j] that by (auto simp: nth split: if_splits)
    show "i = j" if "i < Suc (length (la_lanes s))" "j < Suc (length (la_lanes s))" "live (ln_worker (la_lanes ?s ! i))" "live (ln_worker (la_lanes ?s ! j))"
      "ln_key (la_lanes ?s ! i) = ln_key (la_lanes ?s ! j)" for i j
      using D(2)[of i j] new[of i] new[of j] that by (auto simp: nth split: if_splits)
    show "(if ln_key (la_lanes ?s ! i) = k then Some (length (la_lanes s)) else hget (la_txs s) (ln_key (la_lanes ?s ! i))) = Some i"
      if "\<not> la_draining s" "i < Suc (length (la_lanes s))" "live (ln_worker (la_lanes ?s ! i))" for i
      using D(3)[of i] new[of i] that by (auto simp: nth split: if_splits)
    show "i < Suc (length (la_lanes s)) \<and> ln_key (la_lanes ?s ! i) = k' \<and> (b \<longrightarrow> live (ln_worker (la_lanes ?s ! i)))" if "la_enq s = WaitSend i k' p" for i k' p
      using D(4)[OF that] by (simp add: nth)
    show "la_enq s = Reading \<and> la_txs ?s = []" if "la_draining s" using assms(3) that by simp
  qed
qed

lemma flow_spawn:
  assumes "flow_ok s"
  shows "flow_ok (spawn_lane k s)"
proof (rule flow_okI)
  show "ln_queue (la_lanes (spawn_lane k s) ! i) = []" if "i < length (la_lanes (spawn_lane k s))" "\<not> live (ln_worker (la_lanes (spawn_lane k s) ! i))" for i
    using that flow_okD(1)[OF assms, of i] by (auto simp: spawn_lane_def nth_append less_Suc_eq)
  show "ks k' (la_read (spawn_lane k s)) = ks k' (la_started (spawn_lane k s)) @ kq k' (la_lanes (spawn_lane k s)) @ pend k' (la_enq (spawn_lane k s))" for k'
    using flow_okD(2)[OF assms, of k'] by (simp add: spawn_lane_def)
qed

lemma flow_change:
  assumes "table_ok b s" "flow_ok s" "i < length (la_lanes s)" "live (ln_worker (la_lanes s ! i))"
    "ln_key (f (la_lanes s ! i)) = ln_key (la_lanes s ! i)" "live (ln_worker (f (la_lanes s ! i))) \<or> ln_queue (f (la_lanes s ! i)) = []"
    "la_lanes s' = la_lanes (with_lane i f s)" "la_read s' = la_read s"
    "\<And>k. k \<noteq> ln_key (la_lanes s ! i) \<Longrightarrow> ks k (la_started s') = ks k (la_started s) \<and> pend k (la_enq s') = pend k (la_enq s)"
    "ks (ln_key (la_lanes s ! i)) (la_started s') @ ln_queue (f (la_lanes s ! i)) @ pend (ln_key (la_lanes s ! i)) (la_enq s')
     = ks (ln_key (la_lanes s ! i)) (la_started s) @ ln_queue (la_lanes s ! i) @ pend (ln_key (la_lanes s ! i)) (la_enq s)"
  shows "flow_ok s'"
proof (rule flow_okI)
  show "ln_queue (la_lanes s' ! j) = []" if "j < length (la_lanes s')" "\<not> live (ln_worker (la_lanes s' ! j))" for j
    using that assms(6,7) flow_okD(1)[OF assms(2), of j] by (auto simp: with_lane_nth split: if_splits)
  show "ks k (la_read s') = ks k (la_started s') @ kq k (la_lanes s') @ pend k (la_enq s')" for k
    using flow_okD(2)[OF assms(2), of k] assms(8-10) kq_live[OF assms(1-4)]
    by (cases "k = ln_key (la_lanes s ! i)") (simp_all add: assms(7) kq_with_lane[where f = f, OF assms(1-5)])
qed

lemma admit_to_ok:
  assumes "table_ok b s" "hget (la_txs s) k = Some i" "la_enq s = Admit k p" "\<not> la_draining s"
  shows "table_ok b (admit_to i k p s)" "flow_ok s \<Longrightarrow> flow_ok (admit_to i k p s)"
proof -
  have i: "i < length (la_lanes s)" "ln_key (la_lanes s ! i) = k" "live (ln_worker (la_lanes s ! i))"
    using table_okD(1)[OF assms(1,2)] by auto
  then have ng: "ln_worker (la_lanes s ! i) \<noteq> Gone" by auto
  have "table_ok b (admit_to i k p s) \<and> (flow_ok s \<longrightarrow> flow_ok (admit_to i k p s))"
  proof (cases "length (ln_queue (la_lanes s ! i)) < la_cap s")
    case True
    let ?f = "\<lambda>l. l\<lparr>ln_queue := ln_queue l @ [p]\<rparr>"
    have e: "admit_to i k p s = (with_lane i ?f s)\<lparr>la_enq := Reading\<rparr>" using True ng by (simp add: admit_to_def)
    have "table_ok b (admit_to i k p s)" unfolding e by (rule table_change[OF assms(1) i(1), of ?f]) (use i in simp_all)
    moreover have "flow_ok (admit_to i k p s)" if "flow_ok s"
      unfolding e by (rule flow_change[OF assms(1) that i(1,3), of ?f]) (use i assms(3) in simp_all)
    ultimately show ?thesis by blast
  next
    case False
    have e: "admit_to i k p s = s\<lparr>la_enq := WaitSend i k p\<rparr>" using False ng by (simp add: admit_to_def)
    have "table_ok b (admit_to i k p s)" unfolding e by (rule table_enq[OF assms(1)]) (use assms(2,4) in simp_all)
    moreover have "flow_ok (admit_to i k p s)" if "flow_ok s"
      unfolding e using flow_okD[OF that] assms(3) by (intro flow_okI) auto
    ultimately show ?thesis by blast
  qed
  then show "table_ok b (admit_to i k p s)" "flow_ok s \<Longrightarrow> flow_ok (admit_to i k p s)" by blast+
qed

lemma admit_job_eq:
  "\<exists>i s1. admit_job k p s = admit_to i k p s1 \<and> hget (la_txs s1) k = Some i \<and> la_enq s1 = la_enq s \<and> la_draining s1 = la_draining s
     \<and> (s1 = s \<or> (hget (la_txs s) k = None \<and> s1 = spawn_lane k s))"
proof (cases "hget (la_txs s) k")
  case None
  then show ?thesis
    by (intro exI[of _ "length (la_lanes s)"] exI[of _ "spawn_lane k s"]) (simp add: admit_job_def Let_def spawn_lane_def)
next
  case (Some i)
  then show ?thesis by (intro exI[of _ i] exI[of _ s]) (simp add: admit_job_def)
qed

lemma admit_job_ok:
  assumes "table_ok b s" "la_enq s = Admit k p"
  shows "table_ok b (admit_job k p s)" "flow_ok s \<Longrightarrow> flow_ok (admit_job k p s)"
proof -
  obtain i s1 where s1: "admit_job k p s = admit_to i k p s1" "hget (la_txs s1) k = Some i" "la_enq s1 = la_enq s" "la_draining s1 = la_draining s"
    "s1 = s \<or> (hget (la_txs s) k = None \<and> s1 = spawn_lane k s)" using admit_job_eq[of k p s] by (elim exE conjE)
  have nd: "\<not> la_draining s" using table_okD(5)[OF assms(1)] assms(2) by auto
  have t: "table_ok b s1" "flow_ok s \<Longrightarrow> flow_ok s1" using s1(5) assms(1) table_spawn[OF assms(1) _ nd] flow_spawn by auto
  have e: "la_enq s1 = Admit k p" "\<not> la_draining s1" using s1(3,4) assms(2) nd by simp_all
  show "table_ok b (admit_job k p s)" unfolding s1(1) by (rule admit_to_ok(1)[OF t(1) s1(2) e])
  show "flow_ok (admit_job k p s)" if "flow_ok s" unfolding s1(1) by (rule admit_to_ok(2)[OF t(1) s1(2) e t(2)[OF that]])
qed

text \<open>A sender that gets its room in a lane that has retired leaves its message there.\<close>

lemma wait_send_ok:
  assumes "table_ok b s" "la_enq s = WaitSend i k p"
  shows "table_ok b (wait_send i k p s)" "flow_ok s \<Longrightarrow> b \<Longrightarrow> flow_ok (wait_send i k p s)"
proof -
  have i: "i < length (la_lanes s)" "ln_key (la_lanes s ! i) = k" "b \<longrightarrow> live (ln_worker (la_lanes s ! i))"
    using table_okD(4)[OF assms] by auto
  let ?f = "\<lambda>l. l\<lparr>ln_queue := ln_queue l @ [p]\<rparr>"
  have nd: "\<not> la_draining s" using table_okD(5)[OF assms(1)] assms(2) by auto
  consider "ln_worker (la_lanes s ! i) = Gone" | "ln_worker (la_lanes s ! i) \<noteq> Gone" "length (ln_queue (la_lanes s ! i)) < la_cap s"
    | "ln_worker (la_lanes s ! i) \<noteq> Gone" "\<not> length (ln_queue (la_lanes s ! i)) < la_cap s" by blast
  then have "table_ok b (wait_send i k p s) \<and> (flow_ok s \<longrightarrow> b \<longrightarrow> flow_ok (wait_send i k p s))"
  proof cases
    case 1
    then have "\<not> b" using i(3) by auto
    moreover have "table_ok b (s\<lparr>la_enq := Admit k p\<rparr>)" by (rule table_enq[OF assms(1)]) (use nd in simp_all)
    ultimately show ?thesis using 1 by (simp add: wait_send_def)
  next
    case 2
    have e: "wait_send i k p s = (with_lane i ?f s)\<lparr>la_enq := Reading\<rparr>" using 2 by (simp add: wait_send_def)
    have "table_ok b (wait_send i k p s)" unfolding e by (rule table_change[OF assms(1) i(1), of ?f]) (use i in simp_all)
    moreover have "flow_ok (wait_send i k p s)" if "flow_ok s" "b"
      unfolding e by (rule flow_change[OF assms(1) that(1) i(1) _, of ?f]) (use i assms(2) that(2) in simp_all)
    ultimately show ?thesis by blast
  next
    case 3
    then show ?thesis using assms(1) by (simp add: wait_send_def)
  qed
  then show "table_ok b (wait_send i k p s)" "flow_ok s \<Longrightarrow> b \<Longrightarrow> flow_ok (wait_send i k p s)" by blast+
qed

lemma worker_take_ok:
  assumes "table_ok b s" "lane_in i s (\<lambda>w. w = Waiting)" "ln_queue (la_lanes s ! i) \<noteq> []"
  shows "table_ok b (worker_take i s)" "flow_ok s \<Longrightarrow> flow_ok (worker_take i s)"
proof -
  have i: "i < length (la_lanes s)" "live (ln_worker (la_lanes s ! i))" using assms(2) by (simp_all add: lane_in_def)
  obtain p q where pq: "ln_queue (la_lanes s ! i) = p # q" using assms(3) by (cases "ln_queue (la_lanes s ! i)") auto
  let ?f = "\<lambda>l. l\<lparr>ln_queue := q, ln_worker := Handling p\<rparr>"
  have e: "worker_take i s = (with_lane i ?f s)\<lparr>la_started := la_started s @ [(ln_key (la_lanes s ! i), p)]\<rparr>"
    using pq by (simp add: worker_take_def Let_def)
  show "table_ok b (worker_take i s)" unfolding e by (rule table_change[OF assms(1) i(1), of ?f]) (use i(2) in simp_all)
  show "flow_ok (worker_take i s)" if "flow_ok s" unfolding e by (rule flow_change[OF assms(1) that i, of ?f]) (use pq in simp_all)
qed

lemma worker_finish_ok:
  assumes "table_ok b s" "lane_in i s (\<lambda>w. w = Handling p)"
  shows "table_ok b (worker_finish i s)" "flow_ok s \<Longrightarrow> flow_ok (worker_finish i s)"
proof -
  have i: "i < length (la_lanes s)" "live (ln_worker (la_lanes s ! i))" using assms(2) by (simp_all add: lane_in_def)
  let ?f = "\<lambda>l. l\<lparr>ln_worker := Waiting\<rparr>"
  show "table_ok b (worker_finish i s)"
    unfolding worker_finish_def by (rule table_change[OF assms(1) i(1), of ?f]) (use i(2) in simp_all)
  show "flow_ok (worker_finish i s)" if "flow_ok s"
    unfolding worker_finish_def by (rule flow_change[OF assms(1) that i, of ?f]) simp_all
qed

lemma retire_ok:
  assumes "table_ok b s" "lane_in i s (\<lambda>w. w = Waiting)" "ln_queue (la_lanes s ! i) = []" "b \<longrightarrow> \<not> waited_on i s"
    "la_lanes s' = la_lanes (with_lane i (\<lambda>l. l\<lparr>ln_worker := Retiring\<rparr>) s)" "la_draining s' = la_draining s" "la_enq s' = la_enq s"
    "\<And>k. hget (la_txs s') k = (if hget (la_txs s) k = Some i then None else hget (la_txs s) k)"
    "la_read s' = la_read s" "la_started s' = la_started s"
  shows "table_ok b s'" "flow_ok s \<Longrightarrow> flow_ok s'"
proof -
  have i: "i < length (la_lanes s)" "live (ln_worker (la_lanes s ! i))" using assms(2) by (simp_all add: lane_in_def)
  show "table_ok b s'" by (rule table_retire[OF assms(1) i(1) _ _ assms(5,8,6,7,4)]) simp_all
  show "flow_ok s'" if "flow_ok s" by (rule flow_change[OF assms(1) that i _ _ assms(5)]) (use assms(3,7,9,10) in simp_all)
qed

lemma worker_idle_ok:
  assumes "table_ok b s" "lane_in i s (\<lambda>w. w = Waiting)" "b \<longrightarrow> \<not> waited_on i s"
  shows "table_ok b (worker_idle i s)" "flow_ok s \<Longrightarrow> flow_ok (worker_idle i s)"
proof -
  have "table_ok b (worker_idle i s) \<and> (flow_ok s \<longrightarrow> flow_ok (worker_idle i s))"
  proof (cases "ln_queue (la_lanes s ! i) = []")
    case True
    let ?k = "ln_key (la_lanes s ! i)"
    have only: "hget (la_txs s) k = Some i \<Longrightarrow> ?k = k" for k using table_okD(1)[OF assms(1)] by blast
    have txs: "hget (la_txs (worker_idle i s)) k = (if hget (la_txs s) k = Some i then None else hget (la_txs s) k)" for k
      using only[of k] True by (cases "k = ?k") (auto simp: worker_idle_def Let_def)
    have f: "la_lanes (worker_idle i s) = la_lanes (with_lane i (\<lambda>l. l\<lparr>ln_worker := Retiring\<rparr>) s)"
      "la_draining (worker_idle i s) = la_draining s" "la_enq (worker_idle i s) = la_enq s"
      "la_read (worker_idle i s) = la_read s" "la_started (worker_idle i s) = la_started s"
      by (simp_all add: worker_idle_def True Let_def with_lane_def)
    show ?thesis using retire_ok[OF assms(1,2) True assms(3) f(1-3) txs f(4,5)] by blast
  next
    case False
    then show ?thesis using worker_take_ok[OF assms(1,2)] by (simp add: worker_idle_def)
  qed
  then show "table_ok b (worker_idle i s)" "flow_ok s \<Longrightarrow> flow_ok (worker_idle i s)" by blast+
qed

lemma worker_stop_ok:
  assumes "table_ok b s" "lane_in i s (\<lambda>w. w = Waiting)" "ln_queue (la_lanes s ! i) = []" "\<not> sender_held i s"
  shows "table_ok b (worker_stop i s)" "flow_ok s \<Longrightarrow> flow_ok (worker_stop i s)"
proof -
  have f: "b \<longrightarrow> \<not> waited_on i s" "la_lanes (worker_stop i s) = la_lanes (with_lane i (\<lambda>l. l\<lparr>ln_worker := Retiring\<rparr>) s)"
    "la_draining (worker_stop i s) = la_draining s" "la_enq (worker_stop i s) = la_enq s"
    "la_read (worker_stop i s) = la_read s" "la_started (worker_stop i s) = la_started s"
    "hget (la_txs (worker_stop i s)) k = (if hget (la_txs s) k = Some i then None else hget (la_txs s) k)" for k
    using assms(4) by (auto simp: worker_stop_def sender_held_def waited_on_def)
  show "table_ok b (worker_stop i s)" "flow_ok s \<Longrightarrow> flow_ok (worker_stop i s)"
    using retire_ok[OF assms(1-3) f(1-4,7,5,6)] by blast+
qed

lemma kq_cong:
  assumes "map (\<lambda>l. (ln_key l, ln_queue l)) L = map (\<lambda>l. (ln_key l, ln_queue l)) M"
  shows "kq k L = kq k M"
proof -
  have "kq k N = concat (map snd (filter (\<lambda>x. fst x = k) (map (\<lambda>l. (ln_key l, ln_queue l)) N)))" for N :: "('a, 'b) lane list"
    by (induction N) auto
  then show ?thesis using assms by simp
qed

lemma worker_exit_ok:
  assumes "table_ok b s" "lane_in i s (\<lambda>w. w = Retiring)"
  shows "table_ok b (worker_exit i s)" "flow_ok s \<Longrightarrow> flow_ok (worker_exit i s)"
proof -
  let ?f = "\<lambda>l. l\<lparr>ln_queue := [], ln_worker := Gone\<rparr>"
  have i: "i < length (la_lanes s)" "\<not> live (ln_worker (la_lanes s ! i))" using assms(2) by (simp_all add: lane_in_def)
  have off: "hget (la_txs s) k \<noteq> Some i" "b \<longrightarrow> \<not> waited_on i s" for k
    using table_okD(1)[OF assms(1), of k i] table_okD(4)[OF assms(1)] i(2) by (auto simp: waited_on_def)
  show "table_ok b (worker_exit i s)"
    by (rule table_retire[OF assms(1) i(1), of ?f]) (use off in \<open>auto simp: worker_exit_def\<close>)
  assume fl: "flow_ok s"
  have q: "ln_queue (la_lanes s ! i) = []" using flow_okD(1)[OF fl i] .
  have "map (\<lambda>l. (ln_key l, ln_queue l)) (la_lanes (worker_exit i s)) = map (\<lambda>l. (ln_key l, ln_queue l)) (la_lanes s)"
    using i(1) q by (simp add: worker_exit_def with_lane_def map_update list_update_same_conv)
  note kq = kq_cong[OF this]
  show "flow_ok (worker_exit i s)"
  proof (rule flow_okI)
    show "ln_queue (la_lanes (worker_exit i s) ! j) = []"
      if "j < length (la_lanes (worker_exit i s))" "\<not> live (ln_worker (la_lanes (worker_exit i s) ! j))" for j
      using that flow_okD(1)[OF fl, of j] by (auto simp: worker_exit_def with_lane_nth split: if_splits)
    show "ks k (la_read (worker_exit i s)) = ks k (la_started (worker_exit i s)) @ kq k (la_lanes (worker_exit i s)) @ pend k (la_enq (worker_exit i s))" for k
      using flow_okD(2)[OF fl, of k] kq[of k] by (simp add: worker_exit_def)
  qed
qed

lemma worker_step_ok:
  assumes "worker_step b s s'" "table_ok b s"
  shows "table_ok b s' \<and> (b \<longrightarrow> flow_ok s \<longrightarrow> flow_ok s')"
  using assms
proof (induction rule: worker_step.induct)
  case (take i s)
  then show ?case using worker_take_ok[of b s i] by blast
next
  case (finish i s p)
  then show ?case using worker_finish_ok[of b s i p] by blast
next
  case (idle i s)
  then show ?case using worker_idle_ok[of b s i] by blast
next
  case (stop i s)
  then show ?case using worker_stop_ok[of b s i] by blast
next
  case (exit i s)
  then show ?case using worker_exit_ok[of b s i] by blast
qed

lemma lane_step_ok:
  assumes "lane_step b s s'" "table_ok b s"
  shows "table_ok b s' \<and> (b \<longrightarrow> flow_ok s \<longrightarrow> flow_ok s')"
  using assms
proof (induction rule: lane_step.induct)
  case (read s k p)
  have "table_ok b (start_enqueue k p s)" by (rule table_enq[OF read(3)]) (use read in \<open>simp_all add: start_enqueue_def\<close>)
  moreover have "flow_ok (start_enqueue k p s)" if "flow_ok s"
    using flow_okD[OF that] read(1) by (intro flow_okI) (auto simp: start_enqueue_def)
  ultimately show ?case by blast
next
  case (acquire s k p)
  have "table_ok b (acquire k p s)" by (rule table_enq[OF acquire(3)]) (use acquire(1) table_okD(5)[OF acquire(3)] in \<open>auto simp: acquire_def\<close>)
  moreover have "flow_ok (acquire k p s)" if "flow_ok s"
    using flow_okD[OF that] acquire(1) by (intro flow_okI) (auto simp: acquire_def)
  ultimately show ?case by blast
next
  case (drain s)
  note D = table_okD[OF drain(2)]
  have "table_ok b (drain s)"
    by (rule table_okI) (use drain(1) D(2) in \<open>auto simp: drain_def\<close>)
  moreover have "flow_ok (drain s)" if "flow_ok s"
    using flow_okD[OF that] drain(1) by (intro flow_okI) (auto simp: drain_def)
  ultimately show ?case by blast
next
  case (others_take s)
  have "table_ok b (s\<lparr>la_permits := la_permits s - 1, la_others := la_others s + 1\<rparr>)"
    using others_take(2) by (simp add: table_ok_def)
  moreover have "flow_ok (s\<lparr>la_permits := la_permits s - 1, la_others := la_others s + 1\<rparr>)" if "flow_ok s"
    using flow_okD[OF that] by (intro flow_okI) auto
  ultimately show ?case by blast
next
  case (others_return s)
  have "table_ok b (s\<lparr>la_permits := la_permits s + 1, la_others := la_others s - 1\<rparr>)"
    using others_return(2) by (simp add: table_ok_def)
  moreover have "flow_ok (s\<lparr>la_permits := la_permits s + 1, la_others := la_others s - 1\<rparr>)" if "flow_ok s"
    using flow_okD[OF that] by (intro flow_okI) auto
  ultimately show ?case by blast
next
  case (admit s k p)
  then show ?case using admit_job_ok[of b s k p] by blast
next
  case (sent s i k p)
  then show ?case using wait_send_ok[of b s i k p] by blast
next
  case (worker s s')
  then show ?case using worker_step_ok by blast
qed

section \<open>The budget\<close>

lemma held_update:
  assumes "i < length L"
  shows "sum_list (map lane_held (L[i := l])) + lane_held (L ! i) = sum_list (map lane_held L) + lane_held l"
proof -
  have "lane_held (L ! i) \<le> sum_list (map lane_held L)" using assms by (metis elem_le_sum_list length_map nth_map)
  then show ?thesis using assms by (simp add: map_update sum_list_update)
qed

lemma permits_change:
  assumes "permits_ok budget cap s" "i < length (la_lanes s)" "la_lanes s' = la_lanes (with_lane i f s)" "la_cap s' = la_cap s"
    "length (ln_queue (f (la_lanes s ! i))) \<le> cap \<and> (ln_worker (f (la_lanes s ! i)) = Gone \<longrightarrow> ln_queue (f (la_lanes s ! i)) = [])"
    "la_permits s' + la_others s' + enq_held (la_enq s') + lane_held (f (la_lanes s ! i))
     = la_permits s + la_others s + enq_held (la_enq s) + lane_held (la_lanes s ! i)"
  shows "permits_ok budget cap s'"
  using assms(1,3-6) held_update[OF assms(2), of "f (la_lanes s ! i)"] set_update_subset_insert[of "la_lanes s" i "f (la_lanes s ! i)"]
  by (auto simp: permits_ok_def with_lane_def)

lemma permits_push:
  assumes "permits_ok budget cap s" "i < length (la_lanes s)" "ln_worker (la_lanes s ! i) \<noteq> Gone"
    "length (ln_queue (la_lanes s ! i)) < la_cap s" "enq_held (la_enq s) = 1"
  shows "permits_ok budget cap ((with_lane i (\<lambda>l. l\<lparr>ln_queue := ln_queue l @ [p]\<rparr>) s)\<lparr>la_enq := Reading\<rparr>)"
  by (rule permits_change[OF assms(1,2), where f = "\<lambda>l. l\<lparr>ln_queue := ln_queue l @ [p]\<rparr>"])
    (use assms in \<open>simp_all add: lane_held_def permits_ok_def\<close>)

lemma permits_spawn: "permits_ok budget cap s \<Longrightarrow> permits_ok budget cap (spawn_lane k s)"
  by (simp add: permits_ok_def spawn_lane_def lane_held_def)

lemma permits_admit_to:
  assumes "permits_ok budget cap s" "i < length (la_lanes s)" "la_enq s = Admit k p"
  shows "permits_ok budget cap (admit_to i k p s)"
proof -
  consider "ln_worker (la_lanes s ! i) = Gone" | "ln_worker (la_lanes s ! i) \<noteq> Gone" "length (ln_queue (la_lanes s ! i)) < la_cap s"
    | "ln_worker (la_lanes s ! i) \<noteq> Gone" "\<not> length (ln_queue (la_lanes s ! i)) < la_cap s" by blast
  then show ?thesis
  proof cases
    case 1
    then show ?thesis using assms(1,3) by (simp add: admit_to_def permits_ok_def)
  next
    case 2
    then show ?thesis using permits_push[OF assms(1,2) 2, of p] assms(3) by (simp add: admit_to_def)
  next
    case 3
    then show ?thesis using assms(1,3) by (simp add: admit_to_def permits_ok_def)
  qed
qed

lemma permits_take:
  assumes "permits_ok budget cap s" "lane_in i s (\<lambda>w. w = Waiting)"
  shows "permits_ok budget cap (worker_take i s)"
proof (cases "ln_queue (la_lanes s ! i)")
  case (Cons p q)
  have i: "i < length (la_lanes s)" "ln_worker (la_lanes s ! i) = Waiting" using assms(2) by (simp_all add: lane_in_def)
  have "length (p # q) \<le> cap" using assms(1) i(1) Cons nth_mem[OF i(1)] unfolding permits_ok_def by (metis)
  then show ?thesis
    by (intro permits_change[OF assms(1) i(1), where f = "\<lambda>l. l\<lparr>ln_queue := q, ln_worker := Handling p\<rparr>"])
      (simp_all add: worker_take_def Cons lane_held_def i(2) with_lane_def Let_def)
qed (use assms(1) in \<open>simp add: worker_take_def\<close>)

lemma queue_bound: "permits_ok budget cap s \<Longrightarrow> i < length (la_lanes s) \<Longrightarrow> length (ln_queue (la_lanes s ! i)) \<le> cap"
  by (auto simp: permits_ok_def)

lemma worker_step_permits:
  assumes "worker_step prompt s s'" "permits_ok budget cap s"
  shows "permits_ok budget cap s'"
  using assms
proof (induction rule: worker_step.induct)
  case (take i s)
  then show ?case by (intro permits_take)
next
  case (finish i s p)
  then have i: "i < length (la_lanes s)" "ln_worker (la_lanes s ! i) = Handling p" by (simp_all add: lane_in_def)
  show ?case
    by (rule permits_change[OF finish(2) i(1), where f = "\<lambda>l. l\<lparr>ln_worker := Waiting\<rparr>"])
      (simp_all add: worker_finish_def lane_held_def i(2) queue_bound[OF finish(2) i(1)])
next
  case (idle i s)
  then have i: "i < length (la_lanes s)" "ln_worker (la_lanes s ! i) = Waiting" by (simp_all add: lane_in_def)
  show ?case
  proof (cases "ln_queue (la_lanes s ! i) = []")
    case True
    then show ?thesis
      by (intro permits_change[OF idle(3) i(1), where f = "\<lambda>l. l\<lparr>ln_worker := Retiring\<rparr>"])
        (simp_all add: worker_idle_def Let_def lane_held_def i(2) with_lane_def)
  next
    case False
    then show ?thesis using permits_take[OF idle(3,1)] by (simp add: worker_idle_def)
  qed
next
  case (stop i s)
  then have i: "i < length (la_lanes s)" "ln_worker (la_lanes s ! i) = Waiting" by (simp_all add: lane_in_def)
  show ?case
    by (rule permits_change[OF stop(4) i(1), where f = "\<lambda>l. l\<lparr>ln_worker := Retiring\<rparr>"])
      (use stop(2) in \<open>simp_all add: worker_stop_def lane_held_def i(2)\<close>)
next
  case (exit i s)
  then have i: "i < length (la_lanes s)" "ln_worker (la_lanes s ! i) = Retiring" by (simp_all add: lane_in_def)
  show ?case
    by (rule permits_change[OF exit(2) i(1), where f = "\<lambda>l. l\<lparr>ln_queue := [], ln_worker := Gone\<rparr>"])
      (simp_all add: worker_exit_def lane_held_def i(2))
qed

lemma lane_step_permits:
  assumes "lane_step prompt s s'" "table_ok b s" "permits_ok budget cap s"
  shows "permits_ok budget cap s'"
  using assms
proof (induction rule: lane_step.induct)
  case (admit s k p)
  obtain i s1 where s1: "admit_job k p s = admit_to i k p s1" "hget (la_txs s1) k = Some i" "la_enq s1 = la_enq s"
    "s1 = s \<or> (hget (la_txs s) k = None \<and> s1 = spawn_lane k s)" using admit_job_eq[of k p s] by (elim exE conjE)
  have nd: "\<not> la_draining s" using table_okD(5)[OF admit(2)] admit(1) by auto
  have t: "table_ok b s1" "permits_ok budget cap s1"
    using s1(4) admit(2,3) table_spawn[OF admit(2) _ nd] permits_spawn[OF admit(3)] by auto
  show ?case
    unfolding s1(1) by (rule permits_admit_to[OF t(2)]) (simp_all add: table_okD(1)[OF t(1) s1(2)] s1(3) admit(1))
next
  case (sent s i k p)
  have i: "i < length (la_lanes s)" using table_okD(4)[OF sent(2,1)] by simp
  note push = permits_push[OF sent(3) i]
  consider "ln_worker (la_lanes s ! i) = Gone" | "ln_worker (la_lanes s ! i) \<noteq> Gone" "length (ln_queue (la_lanes s ! i)) < la_cap s"
    | "ln_worker (la_lanes s ! i) \<noteq> Gone" "\<not> length (ln_queue (la_lanes s ! i)) < la_cap s" by blast
  then show ?case
  proof cases
    case 1
    then show ?thesis using sent(1,3) by (simp add: wait_send_def permits_ok_def)
  next
    case 2
    then show ?thesis using push[OF 2(1,2)] sent(1) by (simp add: wait_send_def)
  next
    case 3
    then show ?thesis using sent(3) by (simp add: wait_send_def)
  qed
next
  case (worker s s')
  then show ?case using worker_step_permits[OF worker(1)] by simp
qed (auto simp: permits_ok_def start_enqueue_def acquire_def drain_def)

lemma lane_reach_ok: "lane_reach b budget cap s \<Longrightarrow> table_ok b s \<and> permits_ok budget cap s \<and> (b \<longrightarrow> flow_ok s)"
proof (induction rule: lane_reach.induct)
  case (start permits others)
  then show ?case by (simp add: lanes_new_def table_ok_def flow_ok_def permits_ok_def)
next
  case (step s s')
  then show ?case using lane_step_ok[of b s s'] lane_step_permits[of b s s' b budget cap] by simp
qed

section \<open>Order without promptness\<close>

text \<open>What is in the queues of live lanes; the queue of a lane that has retired is thrown away.\<close>

definition lq :: "'k \<Rightarrow> ('k, 'p) lane list \<Rightarrow> 'p list" where
  "lq k L = kq k (filter (\<lambda>l. live (ln_worker l)) L)"

definition order_ok :: "('k, 'p) lane_set \<Rightarrow> bool" where
  "order_ok s \<longleftrightarrow> (\<forall>k. subseq (ks k (la_started s) @ lq k (la_lanes s) @ pend k (la_enq s)) (ks k (la_read s)))"

lemma order_okD: "order_ok s \<Longrightarrow> subseq (ks k (la_started s) @ lq k (la_lanes s) @ pend k (la_enq s)) (ks k (la_read s))"
  by (simp add: order_ok_def)

lemma lq_simps [simp]: "lq k (L @ M) = lq k L @ lq k M" "lq k (l # L) = (if ln_key l = k \<and> live (ln_worker l) then ln_queue l else []) @ lq k L" "lq k [] = []"
  by (auto simp: lq_def)

lemma lq_Nil: "(\<And>l. l \<in> set L \<Longrightarrow> ln_key l = k \<Longrightarrow> \<not> live (ln_worker l)) \<Longrightarrow> lq k L = []"
  by (auto simp: lq_def intro!: kq_Nil)

text \<open>A change to a lane: its key has no other live lane, so for a live lane the queues of its key are its queue.\<close>

lemma lq_update:
  assumes "table_ok b s" "i < length (la_lanes s)" "ln_key l = ln_key (la_lanes s ! i)" "live (ln_worker (la_lanes s ! i)) \<or> \<not> live (ln_worker l)"
  shows "lq k ((la_lanes s)[i := l]) = (if k = ln_key (la_lanes s ! i) \<and> live (ln_worker (la_lanes s ! i))
    then if live (ln_worker l) then ln_queue l else [] else lq k (la_lanes s))"
proof -
  let ?L = "la_lanes s"
  have L: "?L = take i ?L @ ?L ! i # drop (Suc i) ?L" using id_take_nth_drop[OF assms(2)] .
  have U: "?L[i := l] = take i ?L @ l # drop (Suc i) ?L" using upd_conv_take_nth_drop[OF assms(2)] .
  show ?thesis
  proof (cases "k = ln_key (?L ! i) \<and> live (ln_worker (?L ! i))")
    case True
    have dead: "\<not> live (ln_worker (?L ! j))" if "j < length ?L" "j \<noteq> i" "ln_key (?L ! j) = k" for j
      using table_okD(2)[OF assms(1) that(1) assms(2)] that True by auto
    have "lq k (take i ?L) = []" "lq k (drop (Suc i) ?L) = []"
      using dead assms(2) by (auto intro!: lq_Nil simp: in_set_conv_nth)
    then show ?thesis unfolding U using True assms(3) by simp
  next
    case False
    have "lq k (take i ?L @ l # drop (Suc i) ?L) = lq k (take i ?L @ ?L ! i # drop (Suc i) ?L)"
      using False assms(3,4) by auto
    then show ?thesis unfolding U using False L by auto
  qed
qed

lemma lq_live:
  assumes "table_ok b s" "i < length (la_lanes s)" "live (ln_worker (la_lanes s ! i))"
  shows "lq (ln_key (la_lanes s ! i)) (la_lanes s) = ln_queue (la_lanes s ! i)"
  using lq_update[OF assms(1,2) refl, of "ln_key (la_lanes s ! i)"] assms(3) by simp

text \<open>The steps either leave the messages of a key that are still to be handled as they are or drop the last of them.\<close>

lemma order_change:
  assumes "order_ok s" "table_ok b s" "i < length (la_lanes s)" "la_lanes s' = la_lanes (with_lane i f s)" "la_read s' = la_read s"
    "ln_key (f (la_lanes s ! i)) = ln_key (la_lanes s ! i)" "live (ln_worker (la_lanes s ! i)) \<or> \<not> live (ln_worker (f (la_lanes s ! i)))"
    "\<And>k. k \<noteq> ln_key (la_lanes s ! i) \<Longrightarrow> ks k (la_started s') = ks k (la_started s) \<and> pend k (la_enq s') = pend k (la_enq s)"
    "let k = ln_key (la_lanes s ! i); l = la_lanes s ! i in
       if live (ln_worker l)
       then ks k (la_started s') @ (if live (ln_worker (f l)) then ln_queue (f l) else []) @ pend k (la_enq s')
         = ks k (la_started s) @ ln_queue l @ pend k (la_enq s)
       else la_started s' = la_started s \<and> subseq (pend k (la_enq s')) (pend k (la_enq s))"
  shows "order_ok s'"
  unfolding order_ok_def
proof
  fix k
  let ?l = "la_lanes s ! i"
  have lq': "lq k (la_lanes s') = (if k = ln_key ?l \<and> live (ln_worker ?l) then if live (ln_worker (f ?l)) then ln_queue (f ?l) else [] else lq k (la_lanes s))"
    using lq_update[OF assms(2,3,6,7), of k] assms(4) by (simp add: with_lane_def)
  note o = order_okD[OF assms(1), of k]
  show "subseq (ks k (la_started s') @ lq k (la_lanes s') @ pend k (la_enq s')) (ks k (la_read s'))"
  proof (cases "k = ln_key ?l")
    case False
    then show ?thesis using o lq' assms(5) assms(8)[OF False] by simp
  next
    case True
    show ?thesis
    proof (cases "live (ln_worker ?l)")
      case live: True
      then show ?thesis using o lq' assms(5,9) True lq_live[OF assms(2,3) live] by (simp add: Let_def)
    next
      case dead: False
      then have "la_started s' = la_started s" "subseq (pend k (la_enq s')) (pend k (la_enq s))" "lq k (la_lanes s') = lq k (la_lanes s)"
        using assms(9) True lq' by (simp_all add: Let_def)
      then have "subseq (ks k (la_started s') @ lq k (la_lanes s') @ pend k (la_enq s')) (ks k (la_started s) @ lq k (la_lanes s) @ pend k (la_enq s))"
        by (simp add: list_emb_append_mono)
      then show ?thesis using o assms(5) subseq_order.order_trans by metis
    qed
  qed
qed

lemma order_same:
  assumes "order_ok s" "la_lanes s' = la_lanes s" "la_read s' = la_read s" "la_started s' = la_started s" "\<And>k. pend k (la_enq s') = pend k (la_enq s)"
  shows "order_ok s'"
  using assms by (simp add: order_ok_def)

lemma order_take:
  assumes "table_ok b s" "order_ok s" "lane_in i s (\<lambda>w. w = Waiting)" "ln_queue (la_lanes s ! i) \<noteq> []"
  shows "order_ok (worker_take i s)"
proof -
  obtain p q where pq: "ln_queue (la_lanes s ! i) = p # q" using assms(4) by (cases "ln_queue (la_lanes s ! i)") auto
  show ?thesis
    by (rule order_change[OF assms(2,1), of i _ "\<lambda>l. l\<lparr>ln_queue := q, ln_worker := Handling p\<rparr>"])
      (use assms(3) pq in \<open>auto simp: lane_in_def worker_take_def with_lane_def Let_def\<close>)
qed

lemma worker_step_order:
  assumes "worker_step b s s'" "table_ok b s" "order_ok s"
  shows "order_ok s'"
  using assms
proof (induction rule: worker_step.induct)
  case (take i s)
  then show ?case by (intro order_take)
next
  case (finish i s p)
  then show ?case
    by (intro order_change[OF finish(3,2), of i _ "\<lambda>l. l\<lparr>ln_worker := Waiting\<rparr>"]) (auto simp: lane_in_def worker_finish_def Let_def)
next
  case (idle i s)
  show ?case
  proof (cases "ln_queue (la_lanes s ! i) = []")
    case True
    then show ?thesis
      using idle(1) by (intro order_change[OF idle(4,3), of i _ "\<lambda>l. l\<lparr>ln_worker := Retiring\<rparr>"])
        (auto simp: lane_in_def worker_idle_def with_lane_def Let_def)
  next
    case False
    then show ?thesis using order_take[OF idle(3,4,1)] by (simp add: worker_idle_def)
  qed
next
  case (stop i s)
  then show ?case
    by (intro order_change[OF stop(5,4), of i _ "\<lambda>l. l\<lparr>ln_worker := Retiring\<rparr>"]) (auto simp: lane_in_def worker_stop_def Let_def)
next
  case (exit i s)
  then show ?case
    by (intro order_change[OF exit(3,2), of i _ "\<lambda>l. l\<lparr>ln_queue := [], ln_worker := Gone\<rparr>"]) (auto simp: lane_in_def worker_exit_def Let_def)
qed

lemma order_push:
  assumes "table_ok b s" "order_ok s" "i < length (la_lanes s)" "ln_key (la_lanes s ! i) = k" "pend k (la_enq s) = [p]" "\<And>k'. k' \<noteq> k \<Longrightarrow> pend k' (la_enq s) = []"
  shows "order_ok ((with_lane i (\<lambda>l. l\<lparr>ln_queue := ln_queue l @ [p]\<rparr>) s)\<lparr>la_enq := Reading\<rparr>)"
  by (rule order_change[OF assms(2,1,3), of _ "\<lambda>l. l\<lparr>ln_queue := ln_queue l @ [p]\<rparr>"]) (use assms(4-6) in \<open>auto simp: Let_def\<close>)

lemma order_admit_to:
  assumes "table_ok b s" "order_ok s" "i < length (la_lanes s)" "ln_key (la_lanes s ! i) = k" "la_enq s = Admit k p"
  shows "order_ok (admit_to i k p s)"
proof -
  have push: "order_ok ((with_lane i (\<lambda>l. l\<lparr>ln_queue := ln_queue l @ [p]\<rparr>) s)\<lparr>la_enq := Reading\<rparr>)"
    by (rule order_push[OF assms(1-4), of p]) (use assms(5) in simp_all)
  have "order_ok (s\<lparr>la_enq := WaitSend i k p\<rparr>)" "order_ok (s\<lparr>la_txs := hdel k (la_txs s), la_enq := Admit k p\<rparr>)"
    by (rule order_same[OF assms(2)]; use assms(5) in simp)+
  then show ?thesis unfolding admit_to_def using push by simp
qed

lemma lane_step_order:
  assumes "lane_step b s s'" "table_ok b s" "order_ok s"
  shows "order_ok s'"
  using assms
proof (induction rule: lane_step.induct)
  case (read s k p)
  have "subseq (ks k' (la_started s) @ lq k' (la_lanes s) @ (if k = k' then [p] else [])) (ks k' (la_read s) @ (if k = k' then [p] else []))" for k'
    using list_emb_append_mono[OF order_okD[OF read(4), of k'], of "if k = k' then [p] else []" "if k = k' then [p] else []"] read(1)
    by simp
  note grown = this
  have "subseq (ks k' (la_started s) @ lq k' (la_lanes s) @ pend k' (Acquire k p)) (ks k' (la_read s @ [(k, p)]))" for k'
    using grown[of k'] by (cases "k = k'") simp_all
  then show ?case by (simp add: order_ok_def start_enqueue_def)
next
  case (acquire s k p)
  then show ?case by (intro order_same[OF acquire(4)]) (simp_all add: acquire_def)
next
  case (drain s)
  then show ?case by (intro order_same[OF drain(3)]) (simp_all add: drain_def)
next
  case (others_take s)
  then show ?case by (intro order_same[OF others_take(3)]) simp_all
next
  case (others_return s)
  then show ?case by (intro order_same[OF others_return(3)]) simp_all
next
  case (admit s k p)
  obtain i s1 where s1: "admit_job k p s = admit_to i k p s1" "hget (la_txs s1) k = Some i" "la_enq s1 = la_enq s"
    "s1 = s \<or> (hget (la_txs s) k = None \<and> s1 = spawn_lane k s)" using admit_job_eq[of k p s] by (elim exE conjE)
  have nd: "\<not> la_draining s" using table_okD(5)[OF admit(2)] admit(1) by auto
  have t: "table_ok b s1" using s1(4) admit(2) table_spawn[OF admit(2) _ nd] by auto
  have "order_ok (spawn_lane k s)" using admit(3) by (simp add: order_ok_def spawn_lane_def)
  then have "order_ok s1" using s1(4) admit(3) by auto
  then show ?case unfolding s1(1) using table_okD(1)[OF t s1(2)] s1(3) admit(1) by (intro order_admit_to[OF t]) simp_all
next
  case (sent s i k p)
  note i = table_okD(4)[OF sent(2,1)]
  have push: "order_ok ((with_lane i (\<lambda>l. l\<lparr>ln_queue := ln_queue l @ [p]\<rparr>) s)\<lparr>la_enq := Reading\<rparr>)"
    by (rule order_push[OF sent(2,3), of i k p]) (use i sent(1) in simp_all)
  have again: "order_ok (s\<lparr>la_enq := Admit k p\<rparr>)"
    by (rule order_same[OF sent(3)]) (use sent(1) in simp_all)
  show ?case unfolding wait_send_def using push again sent(3) by simp
next
  case (worker s s')
  show ?case by (rule worker_step_order[OF worker])
qed

lemma lane_reach_order: "lane_reach b budget cap s \<Longrightarrow> order_ok s"
proof (induction rule: lane_reach.induct)
  case (start permits others)
  then show ?case by (simp add: lanes_new_def order_ok_def)
next
  case (step s s')
  then show ?case using lane_reach_ok[OF step(1)] by (blast intro: lane_step_order)
qed

text \<open>C31: Messages of one key are handled in order, each at most once, one at a time. However the read loop, the workers,
  the idle timers and other connections interleave: what the listener was given for a key, followed by what waits in the
  key's live lane and in the hand of the read loop, is a subsequence of what was read for it; at most one worker handles a
  message of a key; no queue is longer than its capacity and no more messages are in flight than the process allows. None
  is lost either, provided that a sender that waits for room in a full lane gets it before the lane has been idle for its
  whole idle time (\<open>prompt\<close>): then what was given, what is queued and what is in the hand of the read loop are
  exactly what was read. The code does not enforce this: \<open>waiting_message_can_be_lost\<close> is a run in which a lane
  retires while the sender waits, and the message is dropped.\<close>

theorem lanes_fifo:
  assumes "lane_reach prompt budget cap s"
  shows "(\<forall>k. subseq (ks k (la_started s) @ lq k (la_lanes s) @ pend k (la_enq s)) (ks k (la_read s)))
    \<and> (\<forall>i j p q. lane_in i s (\<lambda>w. w = Handling p) \<longrightarrow> lane_in j s (\<lambda>w. w = Handling q) \<longrightarrow>
         ln_key (la_lanes s ! i) = ln_key (la_lanes s ! j) \<longrightarrow> i = j)
    \<and> (\<forall>l \<in> set (la_lanes s). length (ln_queue l) \<le> cap)
    \<and> sum_list (map lane_held (la_lanes s)) + enq_held (la_enq s) + la_others s \<le> budget
    \<and> (prompt \<longrightarrow> (\<forall>k. ks k (la_read s) = ks k (la_started s) @ kq k (la_lanes s) @ pend k (la_enq s)))"
proof -
  note ok = lane_reach_ok[OF assms]
  have "i = j" if "lane_in i s (\<lambda>w. w = Handling p)" "lane_in j s (\<lambda>w. w = Handling q)" "ln_key (la_lanes s ! i) = ln_key (la_lanes s ! j)" for i j p q
    using table_okD(2)[of prompt s i j] ok that by (simp add: lane_in_def)
  then show ?thesis using ok order_okD[OF lane_reach_order[OF assms]] by (simp add: flow_ok_def permits_ok_def)
qed

section \<open>Draining ends\<close>

fun worker_load :: "'p worker \<Rightarrow> nat" where
  "worker_load Waiting = 2" | "worker_load (Handling p) = 3" | "worker_load Retiring = 1" | "worker_load Gone = 0"

definition lane_load :: "('k, 'p) lane \<Rightarrow> nat" where
  "lane_load l = 2 * length (ln_queue l) + worker_load (ln_worker l)"

definition load :: "('k, 'p) lane_set \<Rightarrow> nat" where
  "load s = sum_list (map lane_load (la_lanes s))"

lemma load_change:
  assumes "i < length (la_lanes s)" "la_lanes s' = la_lanes (with_lane i f s)" "lane_load (f (la_lanes s ! i)) < lane_load (la_lanes s ! i)"
  shows "load s' < load s"
proof -
  have "lane_load (la_lanes s ! i) \<le> sum_list (map lane_load (la_lanes s))"
    using assms(1) by (metis elem_le_sum_list length_map nth_map)
  then show ?thesis using assms by (simp add: load_def with_lane_def map_update sum_list_update)
qed

lemma load_take: "lane_in i s (\<lambda>w. w = Waiting) \<Longrightarrow> ln_queue (la_lanes s ! i) = p # q \<Longrightarrow> load (worker_take i s) < load s"
  by (rule load_change[of i s _ "\<lambda>l. l\<lparr>ln_queue := q, ln_worker := Handling p\<rparr>"])
    (simp_all add: lane_in_def worker_take_def Let_def lane_load_def)

lemma worker_step_load: "worker_step prompt s s' \<Longrightarrow> load s' < load s"
proof (induction rule: worker_step.induct)
  case (take i s)
  then show ?case by (cases "ln_queue (la_lanes s ! i)") (auto intro: load_take)
next
  case (finish i s p)
  then show ?case
    by (intro load_change[of i s _ "\<lambda>l. l\<lparr>ln_worker := Waiting\<rparr>"]) (simp_all add: lane_in_def worker_finish_def lane_load_def)
next
  case (idle i s)
  show ?case
  proof (cases "ln_queue (la_lanes s ! i)")
    case Nil
    then show ?thesis using idle(1)
      by (intro load_change[of i s _ "\<lambda>l. l\<lparr>ln_worker := Retiring\<rparr>"])
        (simp_all add: lane_in_def worker_idle_def Let_def lane_load_def with_lane_def)
  next
    case (Cons p q)
    then show ?thesis using load_take[OF idle(1)] by (simp add: worker_idle_def)
  qed
next
  case (stop i s)
  then show ?case
    by (intro load_change[of i s _ "\<lambda>l. l\<lparr>ln_worker := Retiring\<rparr>"]) (simp_all add: lane_in_def worker_stop_def lane_load_def)
next
  case (exit i s)
  then show ?case
    by (intro load_change[of i s _ "\<lambda>l. l\<lparr>ln_queue := [], ln_worker := Gone\<rparr>"]) (simp_all add: lane_in_def worker_exit_def lane_load_def)
qed

lemma drain_progress:
  assumes "table_ok b s" "la_draining s" "i < length (la_lanes s)" "ln_worker (la_lanes s ! i) \<noteq> Gone"
  shows "\<exists>s'. worker_step prompt s s'"
proof (cases "ln_worker (la_lanes s ! i)")
  case Waiting
  have "\<not> sender_held i s" using table_okD(5)[OF assms(1,2)] by (simp add: sender_held_def)
  then show ?thesis
    using Waiting assms(3) worker_step.stop[of i s prompt] worker_step.take[of i s prompt]
    by (cases "ln_queue (la_lanes s ! i) = []") (auto simp: lane_in_def)
next
  case (Handling p)
  then show ?thesis using assms(3) worker_step.finish[of i s p prompt] by (auto simp: lane_in_def)
next
  case Retiring
  then show ?thesis using assms(3) worker_step.exit[of i s prompt] by (auto simp: lane_in_def)
qed (use assms in simp)

lemma worker_steps_ok:
  "(worker_step b)\<^sup>*\<^sup>* s s' \<Longrightarrow> table_ok b s \<Longrightarrow> permits_ok budget cap s \<Longrightarrow> order_ok s \<Longrightarrow> (b \<longrightarrow> flow_ok s) \<Longrightarrow>
     table_ok b s' \<and> permits_ok budget cap s' \<and> order_ok s' \<and> (b \<longrightarrow> flow_ok s')"
proof (induction rule: rtranclp_induct)
  case (step t u)
  then show ?case using worker_step_ok[OF step(2)] worker_step_permits[OF step(2), of budget cap] worker_step_order[OF step(2)] by simp
qed simp

lemma worker_step_draining: "worker_step prompt s s' \<Longrightarrow> la_draining s' = la_draining s"
  by (induction rule: worker_step.induct)
    (simp_all add: worker_take_def worker_finish_def worker_idle_def worker_stop_def worker_exit_def Let_def split: list.split)

lemma worker_steps_draining: "(worker_step prompt)\<^sup>*\<^sup>* s s' \<Longrightarrow> la_draining s' = la_draining s"
  by (induction rule: rtranclp_induct) (simp_all add: worker_step_draining)

lemma worker_steps_load: "(worker_step prompt ^^ n) s s' \<Longrightarrow> load s' + n \<le> load s"
proof (induction n arbitrary: s')
  case (Suc n)
  then obtain t where "(worker_step prompt ^^ n) s t" "worker_step prompt t s'" by auto
  then show ?case using Suc.IH worker_step_load[of prompt t s'] by fastforce
qed auto

text \<open>C32: A connection drains in bounded time. Once the read loop has ended, the workers make at most a number of steps that
  is known in advance, whatever their order, and they stop only when every one of them is gone; then every permit was
  returned, and the listener was given a subsequence of the messages that were read for each key. With senders that
  are prompt (see \<open>lanes_fifo\<close>) it was given every message that was read.\<close>

theorem drain_terminates:
  assumes "lane_reach prompt budget cap s" "la_draining s"
  shows "(\<forall>n s'. (worker_step prompt ^^ n) s s' \<longrightarrow> n \<le> load s)
    \<and> (\<forall>s'. (worker_step prompt)\<^sup>*\<^sup>* s s' \<longrightarrow> (\<nexists>t. worker_step prompt s' t) \<longrightarrow>
         (\<forall>l \<in> set (la_lanes s'). ln_worker l = Gone) \<and> la_permits s' + la_others s' = budget
         \<and> (\<forall>k. subseq (ks k (la_started s')) (ks k (la_read s')))
         \<and> (prompt \<longrightarrow> (\<forall>k. ks k (la_started s') = ks k (la_read s'))))"
proof (intro conjI allI impI)
  show "n \<le> load s" if "(worker_step prompt ^^ n) s s'" for n s' using worker_steps_load[OF that] by simp
next
  fix s' assume r: "(worker_step prompt)\<^sup>*\<^sup>* s s'" and stuck: "\<nexists>t. worker_step prompt s' t"
  have ok: "table_ok prompt s'" "permits_ok budget cap s'" "order_ok s'" "prompt \<longrightarrow> flow_ok s'"
    using worker_steps_ok[OF r] lane_reach_ok[OF assms(1)] lane_reach_order[OF assms(1)] by blast+
  have d: "la_draining s'" using worker_steps_draining[OF r] assms(2) by simp
  have gone: "ln_worker (la_lanes s' ! i) = Gone" if "i < length (la_lanes s')" for i
    using drain_progress[OF ok(1) d that] stuck by blast
  then show g: "\<forall>l \<in> set (la_lanes s'). ln_worker l = Gone" by (auto simp: in_set_conv_nth)
  have enq: "la_enq s' = Reading" using table_okD(5)[OF ok(1) d] by simp
  have e: "\<forall>l \<in> set (la_lanes s'). ln_queue l = []" using ok(2) g by (simp add: permits_ok_def)
  show "subseq (ks k (la_started s')) (ks k (la_read s'))" for k
    using order_okD[OF ok(3), of k] enq lq_Nil[of "la_lanes s'" k] g by auto
  show "ks k (la_started s') = ks k (la_read s')" if "prompt" for k
    using flow_okD(2)[of s' k] that ok(4) kq_Nil[of "la_lanes s'" k] e enq by simp
  have "sum_list (map lane_held (la_lanes s')) = 0" using e g by (simp add: lane_held_def)
  moreover have "la_permits s' + la_others s' + sum_list (map lane_held (la_lanes s')) = budget"
    using ok(2) enq unfolding permits_ok_def by simp
  ultimately show "la_permits s' + la_others s' = budget" by linarith
qed

section \<open>A run\<close>

text \<open>Two messages of one key with room for one in the queue: the second waits for room.\<close>

definition demo_waiting :: "(unit, nat) lane_set" where
  "demo_waiting = admit_job () 2 (acquire () 2 (start_enqueue () 2 (admit_job () 1 (acquire () 1 (start_enqueue () 1 (lanes_new 3 0 1))))))"

lemmas lane_ops = lanes_new_def start_enqueue_def acquire_def admit_job_def admit_to_def spawn_lane_def with_lane_def wait_send_def
  worker_take_def worker_finish_def worker_idle_def worker_stop_def worker_exit_def drain_def Let_def

lemma demo_waiting_eq:
  "demo_waiting = \<lparr>la_lanes = [\<lparr>ln_key = (), ln_queue = [1], ln_worker = Waiting\<rparr>], la_txs = [((), 0)], la_permits = 1, la_others = 0,
     la_cap = 1, la_enq = WaitSend 0 () 2, la_draining = False, la_read = [((), 1), ((), 2)], la_started = []\<rparr>"
  by (simp add: demo_waiting_def lane_ops)

lemma demo_waiting_reach: "lane_reach prompt 3 1 demo_waiting"
  unfolding demo_waiting_def
  by (intro lane_reach.step[OF _ lane_step.admit] lane_reach.step[OF _ lane_step.acquire] lane_reach.step[OF _ lane_step.read] lane_reach.start)
    (simp_all add: lane_ops)

definition demo_drained :: "(unit, nat) lane_set" where
  "demo_drained = drain (wait_send 0 () 2 (worker_take 0 demo_waiting))"

lemma demo_drained_eq:
  "demo_drained = \<lparr>la_lanes = [\<lparr>ln_key = (), ln_queue = [2], ln_worker = Handling 1\<rparr>], la_txs = [], la_permits = 1, la_others = 0,
     la_cap = 1, la_enq = Reading, la_draining = True, la_read = [((), 1), ((), 2)], la_started = [((), 1)]\<rparr>"
  by (simp add: demo_drained_def demo_waiting_eq lane_ops)

lemma demo_drained_reach: "lane_reach prompt 3 1 demo_drained"
  unfolding demo_drained_def
  by (intro lane_reach.step[OF _ lane_step.drain] lane_reach.step[OF _ lane_step.sent] lane_reach.step[OF _ lane_step.worker, OF _ worker_step.take] demo_waiting_reach)
    (simp_all add: demo_waiting_eq lane_ops lane_in_def)

theorem lanes_fifo_witness: "ks () (la_read demo_waiting) = ks () (la_started demo_waiting) @ [1] @ [2]"
  using lanes_fifo[OF demo_waiting_reach] by (simp add: demo_waiting_eq)

definition demo_stopped :: "(unit, nat) lane_set" where
  "demo_stopped = worker_exit 0 (worker_stop 0 (worker_finish 0 (worker_take 0 (worker_finish 0 demo_drained))))"

lemma demo_stopped_steps: "(worker_step True)\<^sup>*\<^sup>* demo_drained demo_stopped"
proof -
  let ?a = "worker_finish 0 demo_drained" and ?b = "worker_take 0 (worker_finish 0 demo_drained)"
  let ?c = "worker_finish 0 ?b"
  note ev = demo_drained_eq lane_ops lane_in_def sender_held_def
  have 1: "worker_step True demo_drained ?a" by (rule worker_step.finish[where p = 1]) (simp_all add: ev)
  have 2: "worker_step True ?a ?b" by (rule worker_step.take) (simp_all add: ev)
  have 3: "worker_step True ?b ?c" by (rule worker_step.finish[where p = 2]) (simp_all add: ev)
  have 4: "worker_step True ?c (worker_stop 0 ?c)" by (rule worker_step.stop) (simp_all add: ev)
  have 5: "worker_step True (worker_stop 0 ?c) demo_stopped"
    unfolding demo_stopped_def by (rule worker_step.exit) (simp_all add: ev)
  show ?thesis
    by (rule converse_rtranclp_into_rtranclp[where r = "worker_step True", OF 1] converse_rtranclp_into_rtranclp[where r = "worker_step True", OF 2]
        converse_rtranclp_into_rtranclp[where r = "worker_step True", OF 3] converse_rtranclp_into_rtranclp[where r = "worker_step True", OF 4]
        r_into_rtranclp[where r = "worker_step True", OF 5])+
qed

theorem drain_terminates_witness:
  "(worker_step True)\<^sup>*\<^sup>* demo_drained demo_stopped \<and> ks () (la_started demo_stopped) = [1, 2] \<and> la_permits demo_stopped + la_others demo_stopped = 3"
proof -
  have "\<nexists>t. worker_step True demo_stopped t"
    by (auto elim!: worker_step.cases simp: lane_in_def demo_stopped_def demo_drained_eq lane_ops)
  then have "(\<forall>k. ks k (la_started demo_stopped) = ks k (la_read demo_stopped)) \<and> la_permits demo_stopped + la_others demo_stopped = 3"
    using drain_terminates[OF demo_drained_reach[of True]] demo_stopped_steps by (simp add: demo_drained_eq)
  moreover have "la_read demo_stopped = [((), 1), ((), 2)]" by (simp add: demo_stopped_def demo_drained_eq lane_ops)
  ultimately show ?thesis using demo_stopped_steps by simp
qed

text \<open>Why a waiting sender has to be prompt: a lane that retires just when the sender gets its room drops the message.\<close>

lemma waiting_message_can_be_lost:
  "\<exists>s :: (unit, nat) lane_set. lane_reach False 3 1 s \<and> la_enq s = Reading \<and> ks () (la_read s) = [1, 2] \<and> ks () (la_started s) = [1]
     \<and> kq () (la_lanes s) = []"
proof (intro exI conjI)
  let ?s = "worker_exit 0 (wait_send 0 () 2 (worker_idle 0 (worker_finish 0 (worker_take 0 demo_waiting))))"
  show "lane_reach False 3 1 ?s"
    by (intro lane_reach.step[OF _ lane_step.worker, OF _ worker_step.exit] lane_reach.step[OF _ lane_step.sent]
        lane_reach.step[OF _ lane_step.worker, OF _ worker_step.idle] lane_reach.step[OF _ lane_step.worker, OF _ worker_step.finish]
        lane_reach.step[OF _ lane_step.worker, OF _ worker_step.take] demo_waiting_reach)
      (simp_all add: demo_waiting_eq lane_ops lane_in_def)
qed (simp_all add: demo_waiting_eq lane_ops)

end
