(* ===== verification/Kim_Client_Wire.thy ===== *)
theory Kim_Client_Wire
  imports Kim_Gateway
begin

text \<open>
  What the client library writes and reads, \<open>crates/kim-client/src\<close>: the packets of its requests
  (\<open>wire.rs\<close>), the events it makes of the packets of the server (\<open>decode_event\<close>), and its request methods
  (\<open>client.rs\<close>), each a packet and the events it takes as its answer. The generated codecs of the message
  bodies and of the header are the record \<open>client_codec\<close>.
\<close>

section \<open>Data\<close>

record TalkResult =
  tr_message_id :: int
  tr_send_time :: int
  tr_sequence :: "32 word"

record IncomingTalk =
  it_command :: string
  it_dest :: string
  it_message_id :: int
  it_sender :: string
  it_msg_type :: int
  it_body :: string
  it_extra :: string
  it_send_time :: int

text \<open>An inbox row as the wire has it: the read state can be missing.\<close>

record InboxItemPb =
  ip_dest :: string
  ip_kind :: int
  ip_title :: string
  ip_avatar :: string
  ip_last_body :: string
  ip_last_sender :: string
  ip_last_message_id :: int
  ip_last_send_time :: int
  ip_unread :: int
  ip_read_state :: "ReadStatePb option"

record ClientInboxItem =
  ci_dest :: string
  ci_kind :: int
  ci_title :: string
  ci_avatar :: string
  ci_last_body :: string
  ci_last_sender :: string
  ci_last_message_id :: int
  ci_last_send_time :: int
  ci_unread :: int
  ci_last_read_message_id :: int
  ci_max_message_id :: int
  ci_state_version :: nat

datatype OutgoingContent = TextMsg string | ImageMsg string string | VoiceMsg string string | VideoMsg string string

definition MESSAGE_TYPE_VOICE :: int where "MESSAGE_TYPE_VOICE = 3"
definition MESSAGE_TYPE_VIDEO :: int where "MESSAGE_TYPE_VIDEO = 4"
definition DEFAULT_DEVICE :: string where "DEFAULT_DEVICE = ''mobile''"

text \<open>Rows that the client copies field by field keep the record of the wire.\<close>

datatype Event =
    EvPong
  | EvTalk IncomingTalk
  | EvTalkResp TalkResult
  | EvBotPending "32 word" "BotPendingItem list"
  | EvKickout string
  | EvTokenRenew string int
  | EvGroupCreate string "string list"
  | EvFriendRequest string string
  | EvFriendAccepted string string
  | EvProfileUpdated UserProfile
  | EvPresenceUpdated string int int
  | EvTypingUpdated TypingPush
  | EvReceiptRead string string int int
  | EvConversationRead "32 word" ReadStatePb
  | EvConversationStates "32 word" "ReadStatePb list"
  | EvConversationReadSync string ReadStatePb
  | EvRoomEnter "32 word" "PresenceEntry list"
  | EvUserList string "32 word" "UserProfile list"
  | EvProfile "32 word" UserProfile
  | EvInbox "32 word" "ClientInboxItem list"
  | EvHistory "32 word" string "HistoryEntry list"
  | EvOfflinePage "32 word" "MessageIndexRow list" bool
  | EvOfflineContent "32 word" "MessageContentRow list"
  | EvStatus string Status "32 word"
  | EvAgentSpecSync "32 word" "AgentSpecRecord list" "AgentProviderAccount list"
  | EvAgentSpecUpsert "32 word" AgentSpecRecord
  | EvClosed

datatype ClientError =
    NotConnected | AlreadyConnected | NotLoggedIn | HandshakeTimeout | Handshake string
  | StatusError Status | Protocol "string ProtocolError" | ClientUnauthorized | InvalidToken
  | CoreClosed | CoreError | OtherError string

definition is_fatal_auth :: "ClientError \<Rightarrow> bool" where
  "is_fatal_auth e \<longleftrightarrow> e = ClientUnauthorized \<or> e = InvalidToken"

text \<open>The generated codecs: an encoder per request body, a decoder per body the server sends.\<close>

record client_codec =
  wc_enc_header :: "Header \<Rightarrow> byte list"
  wc_dec_header :: "byte list \<Rightarrow> (string, Header) result"
  we_login :: "LoginReq \<Rightarrow> byte list"
  we_message :: "MessageReq \<Rightarrow> byte list"
  we_ack :: "MessageAckReq \<Rightarrow> byte list"
  we_index :: "MessageIndexReq \<Rightarrow> byte list"
  we_content :: "MessageContentReq \<Rightarrow> byte list"
  we_inbox :: "InboxReq \<Rightarrow> byte list"
  we_history :: "HistoryReq \<Rightarrow> byte list"
  we_read :: "ConversationReadReq \<Rightarrow> byte list"
  we_states :: "ConversationStatesReq \<Rightarrow> byte list"
  we_profile_update :: "UserProfileUpdate \<Rightarrow> byte list"
  we_search :: "UserSearchReq \<Rightarrow> byte list"
  we_room_enter :: "RoomEnterReq \<Rightarrow> byte list"
  we_room_leave :: "RoomLeaveReq \<Rightarrow> byte list"
  we_typing :: "TypingReq \<Rightarrow> byte list"
  we_bot_create :: "BotCreateReq \<Rightarrow> byte list"
  we_bot_update :: "BotUpdateReq \<Rightarrow> byte list"
  we_bot_reply :: "BotReplyReq \<Rightarrow> byte list"
  we_agent_upsert :: "AgentSpecUpsertReq \<Rightarrow> byte list"
  wd_kickout :: "string decoder"
  wd_login :: "string decoder"
  wd_auth :: "AuthResp decoder"
  wd_group_notify :: "(string \<times> string list) decoder"
  wd_friend :: "(string \<times> string) decoder"
  wd_profile :: "UserProfile decoder"
  wd_presence :: "PresenceEntry list decoder"
  wd_typing :: "TypingPush decoder"
  wd_receipt :: "(string \<times> string \<times> int \<times> int) decoder"
  wd_read_sync :: "(string \<times> ReadStatePb option) decoder"
  wd_read_state :: "ReadStatePb decoder"
  wd_read_states :: "ReadStatePb list decoder"
  wd_room_enter :: "PresenceEntry list decoder"
  wd_push :: "MessagePush decoder"
  wd_resp :: "MessageResp decoder"
  wd_search :: "UserProfile list decoder"
  wd_users :: "UserProfile list decoder"
  wd_bot_create :: "UserProfile option decoder"
  wd_bot_pending :: "BotPendingItem list decoder"
  wd_inbox :: "InboxItemPb list decoder"
  wd_history :: "HistoryEntry list decoder"
  wd_index :: "(MessageIndexRow list \<times> bool) decoder"
  wd_content :: "MessageContentRow list decoder"
  wd_agent_sync :: "(AgentSpecRecord list \<times> AgentProviderAccount list) decoder"
  wd_agent_upsert :: "AgentSpecRecord option decoder"

section \<open>Requests\<close>

definition encode_pkt :: "client_codec \<Rightarrow> LogicPkt \<Rightarrow> byte list" where
  "encode_pkt cc pkt = marshal (wc_enc_header cc) (LogicPacket pkt)"

definition request_pkt :: "Command \<Rightarrow> 32 word \<Rightarrow> byte list \<Rightarrow> LogicPkt" where
  "request_pkt c seq body = LogicPkt_write_body body (LogicPkt_new (Command_as_str c) seq [])"

definition encode_login :: "client_codec \<Rightarrow> string \<Rightarrow> string \<Rightarrow> LogicPkt" where
  "encode_login cc token device =
     request_pkt LoginSignIn 1 (we_login cc \<lparr>lg_token = token, lg_device = (if trim device = [] then DEFAULT_DEVICE else trim device),
       lg_device_credential = []\<rparr>)"

fun content_parts :: "OutgoingContent \<Rightarrow> int \<times> string \<times> string" where
  "content_parts (TextMsg text) = (MESSAGE_TYPE_TEXT, text, [])"
| "content_parts (ImageMsg url extra) = (MESSAGE_TYPE_IMAGE, url, extra)"
| "content_parts (VoiceMsg url extra) = (MESSAGE_TYPE_VOICE, url, extra)"
| "content_parts (VideoMsg url extra) = (MESSAGE_TYPE_VIDEO, url, extra)"

definition encode_outgoing :: "client_codec \<Rightarrow> 32 word \<Rightarrow> string \<Rightarrow> int \<Rightarrow> OutgoingContent \<Rightarrow> string \<Rightarrow> LogicPkt" where
  "encode_outgoing cc seq dest kind content client_id =
     (let command = if kind = INBOX_KIND_GROUP then GroupTalk else UserTalk;
          (msg_type, body, extra) = content_parts content in
      LogicPkt_write_body (we_message cc \<lparr>mr_type = msg_type, mr_body = body, mr_extra = extra, mr_client_id = client_id\<rparr>)
        (set_dest dest (LogicPkt_new (Command_as_str command) seq [])))"

definition encode_ack :: "client_codec \<Rightarrow> 32 word \<Rightarrow> int \<Rightarrow> LogicPkt" where
  "encode_ack cc seq message_id = request_pkt TalkAck seq (we_ack cc \<lparr>akq_message_id = message_id, akq_message_ids = []\<rparr>)"

definition encode_ack_batch :: "client_codec \<Rightarrow> 32 word \<Rightarrow> int list \<Rightarrow> LogicPkt" where
  "encode_ack_batch cc seq ids = request_pkt TalkAck seq (we_ack cc \<lparr>akq_message_id = 0, akq_message_ids = ids\<rparr>)"

definition encode_inbox_list :: "client_codec \<Rightarrow> 32 word \<Rightarrow> int \<Rightarrow> LogicPkt" where
  "encode_inbox_list cc seq limit = request_pkt InboxList seq (we_inbox cc \<lparr>ibq_limit = limit\<rparr>)"

definition encode_inbox_read :: "client_codec \<Rightarrow> 32 word \<Rightarrow> string \<Rightarrow> int \<Rightarrow> int \<Rightarrow> LogicPkt" where
  "encode_inbox_read cc seq dest kind message_id =
     set_dest dest (request_pkt InboxRead seq (we_read cc \<lparr>crq_kind = kind, crq_message_id = message_id\<rparr>))"

definition encode_inbox_states :: "client_codec \<Rightarrow> 32 word \<Rightarrow> (string \<times> int) list \<Rightarrow> LogicPkt" where
  "encode_inbox_states cc seq conversations =
     request_pkt InboxStates seq (we_states cc
       \<lparr>csq_conversations = map (\<lambda>(dest, kind). \<lparr>cky_dest = dest, cky_kind = kind\<rparr>) conversations\<rparr>)"

definition encode_history :: "client_codec \<Rightarrow> 32 word \<Rightarrow> string \<Rightarrow> int \<Rightarrow> int \<Rightarrow> int \<Rightarrow> LogicPkt" where
  "encode_history cc seq dest kind before_id limit =
     set_dest dest (request_pkt History seq (we_history cc \<lparr>hsq_kind = kind, hsq_before_id = before_id, hsq_limit = limit\<rparr>))"

definition encode_offline_index :: "client_codec \<Rightarrow> 32 word \<Rightarrow> LogicPkt" where
  "encode_offline_index cc seq = request_pkt OfflineIndex seq (we_index cc \<lparr>mxq_message_id = 0, mxq_resume = True\<rparr>)"

definition encode_offline_content :: "client_codec \<Rightarrow> 32 word \<Rightarrow> int list \<Rightarrow> LogicPkt" where
  "encode_offline_content cc seq ids = request_pkt OfflineContent seq (we_content cc \<lparr>mcq_message_ids = ids\<rparr>)"

definition encode_dest_cmd :: "Command \<Rightarrow> 32 word \<Rightarrow> string \<Rightarrow> LogicPkt" where
  "encode_dest_cmd c seq dest = set_dest dest (LogicPkt_new (Command_as_str c) seq [])"

definition encode_empty_cmd :: "Command \<Rightarrow> 32 word \<Rightarrow> LogicPkt" where
  "encode_empty_cmd c seq = LogicPkt_new (Command_as_str c) seq []"

definition encode_user_update :: "client_codec \<Rightarrow> 32 word \<Rightarrow> string \<Rightarrow> string \<Rightarrow> string \<Rightarrow> LogicPkt" where
  "encode_user_update cc seq nickname avatar bio =
     request_pkt UserUpdate seq (we_profile_update cc \<lparr>puq_nickname = nickname, puq_avatar = avatar, puq_bio = bio\<rparr>)"

definition encode_bot_create :: "client_codec \<Rightarrow> 32 word \<Rightarrow> string \<Rightarrow> string \<Rightarrow> string \<Rightarrow> string \<Rightarrow> BotConfig \<Rightarrow> LogicPkt" where
  "encode_bot_create cc seq client_profile_id nickname avatar bio config =
     request_pkt BotCreate seq (we_bot_create cc
       \<lparr>bcq_client_profile_id = client_profile_id, bcq_nickname = nickname, bcq_avatar = avatar, bcq_bio = bio,
        bcq_model = bc_model config, bcq_thinking_effort = bc_thinking_effort config,
        bcq_context_tokens = bc_context_tokens config, bcq_visibility = bc_visibility config\<rparr>)"

definition encode_bot_update :: "client_codec \<Rightarrow> 32 word \<Rightarrow> string \<Rightarrow> string \<Rightarrow> string \<Rightarrow> string \<Rightarrow> BotConfig \<Rightarrow> LogicPkt" where
  "encode_bot_update cc seq dest nickname avatar bio config =
     set_dest dest (request_pkt BotUpdate seq (we_bot_update cc
       \<lparr>buq_nickname = nickname, buq_avatar = avatar, buq_bio = bio, buq_model = bc_model config,
        buq_thinking_effort = bc_thinking_effort config, buq_context_tokens = bc_context_tokens config,
        buq_visibility = bc_visibility config\<rparr>))"

definition encode_bot_reply :: "client_codec \<Rightarrow> 32 word \<Rightarrow> string \<Rightarrow> string \<Rightarrow> string \<Rightarrow> string \<Rightarrow> int \<Rightarrow> LogicPkt" where
  "encode_bot_reply cc seq dest body extra client_id in_reply_to =
     set_dest dest (request_pkt BotReply seq (we_bot_reply cc
       \<lparr>brq_in_reply_to = in_reply_to,
        brq_message = Some \<lparr>mr_type = MESSAGE_TYPE_TEXT, mr_body = body, mr_extra = extra, mr_client_id = client_id\<rparr>\<rparr>))"

definition encode_bot_pending :: "client_codec \<Rightarrow> 32 word \<Rightarrow> string \<Rightarrow> int \<Rightarrow> LogicPkt" where
  "encode_bot_pending cc seq dest limit = set_dest dest (request_pkt BotPending seq (we_inbox cc \<lparr>ibq_limit = limit\<rparr>))"

definition encode_agent_spec_sync :: "32 word \<Rightarrow> LogicPkt" where
  "encode_agent_spec_sync seq = LogicPkt_new (Command_as_str AgentSpecSync) seq []"

definition encode_agent_spec_upsert ::
  "client_codec \<Rightarrow> 32 word \<Rightarrow> AgentSpecRecord option \<Rightarrow> AgentProviderAccount option \<Rightarrow> LogicPkt" where
  "encode_agent_spec_upsert cc seq rec acc =
     request_pkt AgentSpecUpsert seq (we_agent_upsert cc \<lparr>auq_record = rec, auq_account = acc\<rparr>)"

definition encode_user_search :: "client_codec \<Rightarrow> 32 word \<Rightarrow> string \<Rightarrow> LogicPkt" where
  "encode_user_search cc seq query = request_pkt UserSearch seq (we_search cc \<lparr>usq_query = query\<rparr>)"

definition encode_room_enter :: "client_codec \<Rightarrow> 32 word \<Rightarrow> string \<Rightarrow> int \<Rightarrow> LogicPkt" where
  "encode_room_enter cc seq dest kind = request_pkt RoomEnter seq (we_room_enter cc \<lparr>rmq_dest = dest, rmq_kind = kind\<rparr>)"

definition encode_room_leave :: "client_codec \<Rightarrow> 32 word \<Rightarrow> string \<Rightarrow> int \<Rightarrow> LogicPkt" where
  "encode_room_leave cc seq dest kind = request_pkt RoomLeave seq (we_room_leave cc \<lparr>rlq_dest = dest, rlq_kind = kind\<rparr>)"

definition encode_typing :: "client_codec \<Rightarrow> 32 word \<Rightarrow> string \<Rightarrow> int \<Rightarrow> bool \<Rightarrow> LogicPkt" where
  "encode_typing cc seq dest kind active =
     request_pkt Typing seq (we_typing cc \<lparr>tyq_dest = dest, tyq_kind = kind, tyq_active = active, tyq_phase = 0\<rparr>)"

definition encode_bot_typing :: "client_codec \<Rightarrow> 32 word \<Rightarrow> string \<Rightarrow> int \<Rightarrow> bool \<Rightarrow> LogicPkt" where
  "encode_bot_typing cc seq dest kind active =
     set_dest dest (request_pkt BotTyping seq (we_typing cc \<lparr>tyq_dest = dest, tyq_kind = kind, tyq_active = active, tyq_phase = 0\<rparr>))"

section \<open>Events\<close>

definition profile_kind :: "int \<Rightarrow> int" where
  "profile_kind kind = (if kind = PROFILE_KIND_BOT then PROFILE_KIND_BOT else PROFILE_KIND_USER)"

definition Profile_from_wire :: "UserProfile \<Rightarrow> UserProfile" where
  "Profile_from_wire u =
     u\<lparr>uf_nickname := (if uf_nickname u = [] then uf_account u else uf_nickname u), uf_kind := profile_kind (uf_kind u)\<rparr>"

definition default_profile :: UserProfile where
  "default_profile = \<lparr>uf_account = [], uf_nickname = [], uf_avatar = [], uf_bio = [], uf_kind = 0\<rparr>"

definition default_read_state :: ReadStatePb where
  "default_read_state = \<lparr>rp_dest = [], rp_kind = 0, rp_last_read_message_id = 0, rp_max_message_id = 0, rp_unread = 0,
     rp_version = 0, rp_exists = False\<rparr>"

definition default_agent_spec :: AgentSpecRecord where
  "default_agent_spec = \<lparr>as_profile_id = [], as_nickname = [], as_server_account = [], as_spec = [], as_key_ciphertext = [],
     as_updated_at = 0, as_deleted_at = 0\<rparr>"

definition unwrap_or :: "'a \<Rightarrow> 'a option \<Rightarrow> 'a" where
  "unwrap_or d x = (case x of None \<Rightarrow> d | Some a \<Rightarrow> a)"

definition inbox_item_from_proto :: "InboxItemPb \<Rightarrow> ClientInboxItem" where
  "inbox_item_from_proto i =
     (let read = unwrap_or default_read_state (ip_read_state i) in
      \<lparr>ci_dest = ip_dest i, ci_kind = ip_kind i, ci_title = ip_title i, ci_avatar = ip_avatar i,
       ci_last_body = ip_last_body i, ci_last_sender = ip_last_sender i, ci_last_message_id = ip_last_message_id i,
       ci_last_send_time = ip_last_send_time i, ci_unread = ip_unread i,
       ci_last_read_message_id = rp_last_read_message_id read,
       ci_max_message_id = (if rp_max_message_id read > 0 then rp_max_message_id read else ip_last_message_id i),
       ci_state_version = rp_version read\<rparr>)"

fun presence_code :: "PresenceStatus \<Rightarrow> int" where
  "presence_code PresenceOffline = 1"
| "presence_code PresenceOnline = 2"

definition read_body :: "'a decoder \<Rightarrow> LogicPkt \<Rightarrow> ('a \<Rightarrow> Event) \<Rightarrow> (ClientError, Event) result" where
  "read_body d p f = (case d (lp_body p) of Inl e \<Rightarrow> Err (Protocol e) | Inr a \<Rightarrow> Ok (f a))"

definition is_kickout :: "client_codec \<Rightarrow> LogicPkt \<Rightarrow> string option" where
  "is_kickout cc pkt =
     (if h_flag (lp_header pkt) \<noteq> Push then None
      else if h_command (lp_header pkt) \<noteq> Command_as_str LoginSignIn then None
      else case wd_kickout cc (lp_body pkt) of Inl _ \<Rightarrow> None | Inr c \<Rightarrow> Some c)"

definition status_event :: "Header \<Rightarrow> Event" where
  "status_event h = EvStatus (h_command h) (h_status h) (h_sequence h)"

text \<open>The pushes of the server.\<close>

definition decode_push :: "client_codec \<Rightarrow> string \<Rightarrow> LogicPkt \<Rightarrow> (ClientError, Event) result" where
  "decode_push cc me p =
     (let h = lp_header p; c = h_command h in
      if c = Command_as_str LoginRenew then read_body (wd_auth cc) p (\<lambda>b. EvTokenRenew (ar_token b) (ar_exp b))
      else if c = Command_as_str GroupCreate then read_body (wd_group_notify cc) p (\<lambda>(g, ms). EvGroupCreate g ms)
      else if c = Command_as_str FriendRequest \<or> c = Command_as_str FriendAccept then
        read_body (wd_friend cc) p (\<lambda>(sender, nick).
          if c = Command_as_str FriendAccept then EvFriendAccepted sender nick else EvFriendRequest sender nick)
      else if c = Command_as_str UserUpdated then read_body (wd_profile cc) p (\<lambda>u. EvProfileUpdated (Profile_from_wire u))
      else if c = Command_as_str Command.Presence then
        read_body (wd_presence cc) p (\<lambda>entries. case entries of
            [] \<Rightarrow> EvPresenceUpdated [] 0 0
          | e # _ \<Rightarrow> EvPresenceUpdated (pr_account e) (presence_code (pr_status e)) (pr_last_seen e))
      else if c = Command_as_str Typing then read_body (wd_typing cc) p EvTypingUpdated
      else if c = Command_as_str ReceiptRead then
        read_body (wd_receipt cc) p (\<lambda>(reader, dest, kind, message_id). EvReceiptRead reader dest kind message_id)
      else if c = Command_as_str InboxReadSync then
        read_body (wd_read_sync cc) p (\<lambda>(account, state). EvConversationReadSync account (unwrap_or default_read_state state))
      else if c = Command_as_str UserTalk \<or> c = Command_as_str GroupTalk then
        read_body (wd_push cc) p (\<lambda>push.
          let dest = if c = Command_as_str GroupTalk \<or> (me \<noteq> [] \<and> mp_sender push = me) then h_dest h else mp_sender push in
          EvTalk \<lparr>it_command = c, it_dest = dest, it_message_id = mp_message_id push, it_sender = mp_sender push,
            it_msg_type = mp_type push, it_body = mp_body push, it_extra = mp_extra push, it_send_time = mp_send_time push\<rparr>)
      else Ok (status_event h))"

text \<open>The commands whose response has a body the client reads, and how it reads it.\<close>

definition has_body :: "string \<Rightarrow> bool" where
  "has_body c \<longleftrightarrow> c \<in> set (map Command_as_str [InboxRead, InboxStates, RoomEnter, UserTalk, GroupTalk, BotReply, FriendList,
     FriendIncoming, UserSearch, BotCreate, BotPending, BotUpdate, UserProfile, UserUpdate, InboxList, History, OfflineIndex,
     OfflineContent, AgentSpecSync, AgentSpecUpsert])"

definition decode_body :: "client_codec \<Rightarrow> LogicPkt \<Rightarrow> (ClientError, Event) result" where
  "decode_body cc p =
     (let h = lp_header p; c = h_command h; seq = h_sequence h;
          profile = (\<lambda>u. EvProfile seq (Profile_from_wire u)) in
      if c = Command_as_str InboxRead then
        (if lp_body p = [] then Ok (status_event h) else read_body (wd_read_state cc) p (EvConversationRead seq))
      else if c = Command_as_str InboxStates then read_body (wd_read_states cc) p (EvConversationStates seq)
      else if c = Command_as_str RoomEnter then read_body (wd_room_enter cc) p (EvRoomEnter seq)
      else if c = Command_as_str UserTalk \<or> c = Command_as_str GroupTalk \<or> c = Command_as_str BotReply then
        read_body (wd_resp cc) p (\<lambda>r. EvTalkResp \<lparr>tr_message_id = mrs_message_id r, tr_send_time = mrs_send_time r, tr_sequence = seq\<rparr>)
      else if c = Command_as_str FriendList \<or> c = Command_as_str FriendIncoming \<or> c = Command_as_str UserSearch then
        read_body (if c = Command_as_str UserSearch then wd_search cc else wd_users cc) p (\<lambda>us. EvUserList c seq (map Profile_from_wire us))
      else if c = Command_as_str BotCreate then read_body (wd_bot_create cc) p (\<lambda>u. profile (unwrap_or default_profile u))
      else if c = Command_as_str BotPending then read_body (wd_bot_pending cc) p (EvBotPending seq)
      else if c = Command_as_str BotUpdate then read_body (wd_bot_create cc) p (\<lambda>u. profile (unwrap_or default_profile u))
      else if c = Command_as_str UserProfile \<or> c = Command_as_str UserUpdate then read_body (wd_profile cc) p profile
      else if c = Command_as_str InboxList then read_body (wd_inbox cc) p (\<lambda>is. EvInbox seq (map inbox_item_from_proto is))
      else if c = Command_as_str History then read_body (wd_history cc) p (EvHistory seq (h_dest h))
      else if c = Command_as_str OfflineIndex then read_body (wd_index cc) p (\<lambda>(rows, more). EvOfflinePage seq rows more)
      else if c = Command_as_str OfflineContent then read_body (wd_content cc) p (EvOfflineContent seq)
      else if c = Command_as_str AgentSpecSync then read_body (wd_agent_sync cc) p (\<lambda>(rs, as). EvAgentSpecSync seq rs as)
      else read_body (wd_agent_upsert cc) p (\<lambda>r. EvAgentSpecUpsert seq (unwrap_or default_agent_spec r)))"

text \<open>The chain of conditions of \<open>decode_logic\<close>, sorted by the flag of the packet.\<close>

definition decode_logic :: "client_codec \<Rightarrow> string \<Rightarrow> LogicPkt \<Rightarrow> (ClientError, Event) result" where
  "decode_logic cc me p =
     (case is_kickout cc p of
        Some channel \<Rightarrow> Ok (EvKickout channel)
      | None \<Rightarrow>
          (let h = lp_header p in
           case h_flag h of
             Push \<Rightarrow> decode_push cc me p
           | Response \<Rightarrow>
               if has_body (h_command h) then
                 if h_status h \<noteq> Success then Ok (status_event h) else decode_body cc p
               else Ok (status_event h)
           | Request \<Rightarrow> Ok (status_event h)))"

definition decode_event :: "client_codec \<Rightarrow> string \<Rightarrow> Frame \<Rightarrow> (ClientError, Event) result" where
  "decode_event cc me frame =
     (case read_packet (wc_dec_header cc) (payload frame) of
        Inl e \<Rightarrow> Err (Protocol e)
      | Inr (BasicPacket p) \<Rightarrow> if bp_code p = CODE_PONG then Ok EvPong else Err (OtherError ''unexpected basic packet'')
      | Inr (LogicPacket p) \<Rightarrow> decode_logic cc me p)"

section \<open>The methods of the client\<close>

datatype reply =
    RTalk TalkResult
  | RInbox "ClientInboxItem list"
  | RReadState "ReadStatePb option"
  | RReadStates "ReadStatePb list"
  | RHistory "HistoryEntry list"
  | RIndex "MessageIndexRow list"
  | RContent "MessageContentRow list"
  | RProfile UserProfile
  | RUsers "UserProfile list"
  | RSpecs "AgentSpecRecord list" "AgentProviderAccount list"
  | RSpec AgentSpecRecord
  | RPending "BotPendingItem list"
  | RPresence "PresenceEntry list"
  | RDone

text \<open>A method writes a packet and waits for an event that its closure takes.\<close>

record request =
  rq_pkt :: LogicPkt
  rq_take :: "Event \<Rightarrow> (ClientError, reply) result option"

definition when_seq :: "32 word \<Rightarrow> 32 word \<Rightarrow> 'a \<Rightarrow> 'a option" where
  "when_seq seq s r = (if s = seq then Some r else None)"

definition status_err :: "32 word \<Rightarrow> Event \<Rightarrow> (ClientError, reply) result option" where
  "status_err seq ev = (case ev of EvStatus _ st s \<Rightarrow> when_seq seq s (Err (StatusError st)) | _ \<Rightarrow> None)"

definition status_done :: "reply \<Rightarrow> 32 word \<Rightarrow> Event \<Rightarrow> (ClientError, reply) result option" where
  "status_done r seq ev =
     (case ev of EvStatus _ st s \<Rightarrow> when_seq seq s (if st = Success then Ok r else Err (StatusError st)) | _ \<Rightarrow> None)"

definition take_talk :: "32 word \<Rightarrow> Event \<Rightarrow> (ClientError, reply) result option" where
  "take_talk seq ev = (case ev of EvTalkResp r \<Rightarrow> when_seq seq (tr_sequence r) (Ok (RTalk r)) | _ \<Rightarrow> status_err seq ev)"

definition take_profile :: "32 word \<Rightarrow> Event \<Rightarrow> (ClientError, reply) result option" where
  "take_profile seq ev = (case ev of EvProfile s u \<Rightarrow> when_seq seq s (Ok (RProfile u)) | _ \<Rightarrow> status_err seq ev)"

definition take_users :: "32 word \<Rightarrow> Event \<Rightarrow> (ClientError, reply) result option" where
  "take_users seq ev = (case ev of EvUserList _ s us \<Rightarrow> when_seq seq s (Ok (RUsers us)) | _ \<Rightarrow> status_err seq ev)"

definition send_message :: "client_codec \<Rightarrow> string \<Rightarrow> int \<Rightarrow> OutgoingContent \<Rightarrow> string \<Rightarrow> 32 word \<Rightarrow> request" where
  "send_message cc dest kind content client_id seq =
     \<lparr>rq_pkt = encode_outgoing cc seq dest kind content client_id, rq_take = take_talk seq\<rparr>"

definition inbox_list :: "client_codec \<Rightarrow> int \<Rightarrow> 32 word \<Rightarrow> request" where
  "inbox_list cc limit seq = \<lparr>rq_pkt = encode_inbox_list cc seq limit,
     rq_take = (\<lambda>ev. case ev of EvInbox s items \<Rightarrow> when_seq seq s (Ok (RInbox items)) | _ \<Rightarrow> status_err seq ev)\<rparr>"

definition mark_read_state :: "client_codec \<Rightarrow> string \<Rightarrow> int \<Rightarrow> int \<Rightarrow> 32 word \<Rightarrow> request" where
  "mark_read_state cc dest kind message_id seq = \<lparr>rq_pkt = encode_inbox_read cc seq dest kind message_id,
     rq_take = (\<lambda>ev. case ev of EvConversationRead s st \<Rightarrow> when_seq seq s (Ok (RReadState (Some st)))
                    | _ \<Rightarrow> status_done (RReadState None) seq ev)\<rparr>"

definition conversation_states :: "client_codec \<Rightarrow> (string \<times> int) list \<Rightarrow> 32 word \<Rightarrow> request" where
  "conversation_states cc conversations seq = \<lparr>rq_pkt = encode_inbox_states cc seq conversations,
     rq_take = (\<lambda>ev. case ev of EvConversationStates s sts \<Rightarrow> when_seq seq s (Ok (RReadStates sts)) | _ \<Rightarrow> status_err seq ev)\<rparr>"

definition client_history :: "client_codec \<Rightarrow> string \<Rightarrow> int \<Rightarrow> int \<Rightarrow> int \<Rightarrow> 32 word \<Rightarrow> request" where
  "client_history cc dest kind before_id limit seq = \<lparr>rq_pkt = encode_history cc seq dest kind before_id limit,
     rq_take = (\<lambda>ev. case ev of EvHistory s _ ms \<Rightarrow> when_seq seq s (Ok (RHistory ms)) | _ \<Rightarrow> status_err seq ev)\<rparr>"

definition client_offline_index :: "client_codec \<Rightarrow> 32 word \<Rightarrow> request" where
  "client_offline_index cc seq = \<lparr>rq_pkt = encode_offline_index cc seq,
     rq_take = (\<lambda>ev. case ev of EvOfflinePage s rows _ \<Rightarrow> when_seq seq s (Ok (RIndex rows)) | _ \<Rightarrow> status_err seq ev)\<rparr>"

definition client_offline_content :: "client_codec \<Rightarrow> int list \<Rightarrow> 32 word \<Rightarrow> request" where
  "client_offline_content cc ids seq = \<lparr>rq_pkt = encode_offline_content cc seq ids,
     rq_take = (\<lambda>ev. case ev of EvOfflineContent s ms \<Rightarrow> when_seq seq s (Ok (RContent ms)) | _ \<Rightarrow> status_err seq ev)\<rparr>"

definition bot_create :: "client_codec \<Rightarrow> string \<Rightarrow> string \<Rightarrow> string \<Rightarrow> string \<Rightarrow> BotConfig \<Rightarrow> 32 word \<Rightarrow> request" where
  "bot_create cc client_profile_id nickname avatar bio config seq =
     \<lparr>rq_pkt = encode_bot_create cc seq client_profile_id nickname avatar bio config, rq_take = take_profile seq\<rparr>"

definition agent_spec_sync :: "32 word \<Rightarrow> request" where
  "agent_spec_sync seq = \<lparr>rq_pkt = encode_agent_spec_sync seq,
     rq_take = (\<lambda>ev. case ev of EvAgentSpecSync s rs as \<Rightarrow> when_seq seq s (Ok (RSpecs rs as)) | _ \<Rightarrow> status_err seq ev)\<rparr>"

definition agent_spec_upsert :: "client_codec \<Rightarrow> AgentSpecRecord option \<Rightarrow> AgentProviderAccount option \<Rightarrow> 32 word \<Rightarrow> request" where
  "agent_spec_upsert cc rec acc seq = \<lparr>rq_pkt = encode_agent_spec_upsert cc seq rec acc,
     rq_take = (\<lambda>ev. case ev of EvAgentSpecUpsert s r \<Rightarrow> when_seq seq s (Ok (RSpec r)) | _ \<Rightarrow> status_err seq ev)\<rparr>"

definition bot_update :: "client_codec \<Rightarrow> string \<Rightarrow> string \<Rightarrow> string \<Rightarrow> string \<Rightarrow> BotConfig \<Rightarrow> 32 word \<Rightarrow> request" where
  "bot_update cc dest nickname avatar bio config seq =
     \<lparr>rq_pkt = encode_bot_update cc seq dest nickname avatar bio config, rq_take = take_profile seq\<rparr>"

definition bot_reply :: "client_codec \<Rightarrow> string \<Rightarrow> string \<Rightarrow> int \<Rightarrow> string \<Rightarrow> 32 word \<Rightarrow> request" where
  "bot_reply cc dest body in_reply_to client_id seq =
     \<lparr>rq_pkt = encode_bot_reply cc seq dest body [] client_id in_reply_to, rq_take = take_talk seq\<rparr>"

definition bot_pending_call :: "client_codec \<Rightarrow> string \<Rightarrow> int \<Rightarrow> 32 word \<Rightarrow> request" where
  "bot_pending_call cc dest limit seq = \<lparr>rq_pkt = encode_bot_pending cc seq dest limit,
     rq_take = (\<lambda>ev. case ev of EvBotPending s items \<Rightarrow> when_seq seq s (Ok (RPending items)) | _ \<Rightarrow> status_err seq ev)\<rparr>"

definition client_profile :: "string \<Rightarrow> 32 word \<Rightarrow> request" where
  "client_profile dest seq = \<lparr>rq_pkt = encode_dest_cmd UserProfile seq dest, rq_take = take_profile seq\<rparr>"

definition update_profile_call :: "client_codec \<Rightarrow> string \<Rightarrow> string \<Rightarrow> string \<Rightarrow> 32 word \<Rightarrow> request" where
  "update_profile_call cc nickname avatar bio seq =
     \<lparr>rq_pkt = encode_user_update cc seq nickname avatar bio, rq_take = take_profile seq\<rparr>"

definition search_users :: "client_codec \<Rightarrow> string \<Rightarrow> 32 word \<Rightarrow> request" where
  "search_users cc query seq = \<lparr>rq_pkt = encode_user_search cc seq query, rq_take = take_users seq\<rparr>"

definition room_enter_call :: "client_codec \<Rightarrow> string \<Rightarrow> int \<Rightarrow> 32 word \<Rightarrow> request" where
  "room_enter_call cc dest kind seq = \<lparr>rq_pkt = encode_room_enter cc seq dest kind,
     rq_take = (\<lambda>ev. case ev of EvRoomEnter s ps \<Rightarrow> when_seq seq s (Ok (RPresence ps)) | _ \<Rightarrow> status_err seq ev)\<rparr>"

definition room_leave_call :: "client_codec \<Rightarrow> string \<Rightarrow> int \<Rightarrow> 32 word \<Rightarrow> request" where
  "room_leave_call cc dest kind seq = \<lparr>rq_pkt = encode_room_leave cc seq dest kind, rq_take = status_done RDone seq\<rparr>"

text \<open>Commands with a destination and a bare status: friend requests, accepts, rejects, removals, bot deletion.\<close>

definition dest_status :: "Command \<Rightarrow> string \<Rightarrow> 32 word \<Rightarrow> request" where
  "dest_status c dest seq = \<lparr>rq_pkt = encode_dest_cmd c seq dest, rq_take = status_done RDone seq\<rparr>"

text \<open>The friend list and the incoming requests.\<close>

definition user_list :: "Command \<Rightarrow> 32 word \<Rightarrow> request" where
  "user_list c seq = \<lparr>rq_pkt = encode_empty_cmd c seq, rq_take = take_users seq\<rparr>"

fun is_unsolicited :: "Event \<Rightarrow> bool" where
  "is_unsolicited (EvTalk _) \<longleftrightarrow> True"
| "is_unsolicited (EvKickout _) \<longleftrightarrow> True"
| "is_unsolicited (EvTokenRenew _ _) \<longleftrightarrow> True"
| "is_unsolicited (EvGroupCreate _ _) \<longleftrightarrow> True"
| "is_unsolicited (EvFriendRequest _ _) \<longleftrightarrow> True"
| "is_unsolicited (EvFriendAccepted _ _) \<longleftrightarrow> True"
| "is_unsolicited (EvProfileUpdated _) \<longleftrightarrow> True"
| "is_unsolicited (EvPresenceUpdated _ _ _) \<longleftrightarrow> True"
| "is_unsolicited (EvTypingUpdated _) \<longleftrightarrow> True"
| "is_unsolicited (EvReceiptRead _ _ _ _) \<longleftrightarrow> True"
| "is_unsolicited (EvConversationReadSync _ _) \<longleftrightarrow> True"
| "is_unsolicited EvClosed \<longleftrightarrow> True"
| "is_unsolicited _ \<longleftrightarrow> False"

section \<open>Requests and their responses\<close>

text \<open>The requests of the client: what its methods write with the sequence number they drew.\<close>

inductive client_request :: "client_codec \<Rightarrow> 32 word \<Rightarrow> request \<Rightarrow> bool" for cc seq where
  "client_request cc seq (send_message cc dest kind content client_id seq)"
| "client_request cc seq (inbox_list cc limit seq)"
| "client_request cc seq (mark_read_state cc dest kind message_id seq)"
| "client_request cc seq (conversation_states cc conversations seq)"
| "client_request cc seq (client_history cc dest kind before_id limit seq)"
| "client_request cc seq (client_offline_index cc seq)"
| "client_request cc seq (client_offline_content cc ids seq)"
| "client_request cc seq (bot_create cc client_profile_id nickname avatar bio config seq)"
| "client_request cc seq (agent_spec_sync seq)"
| "client_request cc seq (agent_spec_upsert cc record account seq)"
| "client_request cc seq (bot_update cc dest nickname avatar bio config seq)"
| "client_request cc seq (bot_reply cc dest body in_reply_to client_id seq)"
| "client_request cc seq (bot_pending_call cc dest limit seq)"
| "client_request cc seq (client_profile dest seq)"
| "client_request cc seq (update_profile_call cc nickname avatar bio seq)"
| "client_request cc seq (search_users cc query seq)"
| "client_request cc seq (room_enter_call cc dest kind seq)"
| "client_request cc seq (room_leave_call cc dest kind seq)"
| "c \<in> {FriendRequest, FriendAccept, FriendReject, FriendRemove, BotDelete} \<Longrightarrow> client_request cc seq (dest_status c dest seq)"
| "c \<in> {FriendList, FriendIncoming} \<Longrightarrow> client_request cc seq (user_list c seq)"

lemma Command_as_str_inj [simp]: "Command_as_str a = Command_as_str b \<longleftrightarrow> a = b"
  by (metis Command_parse_as_str option.inject)

lemmas call_defs = send_message_def inbox_list_def mark_read_state_def conversation_states_def client_history_def
  client_offline_index_def client_offline_content_def bot_create_def agent_spec_sync_def agent_spec_upsert_def bot_update_def
  bot_reply_def bot_pending_call_def client_profile_def update_profile_call_def search_users_def room_enter_call_def
  room_leave_call_def dest_status_def user_list_def

lemmas encode_defs = encode_outgoing_def encode_inbox_list_def encode_inbox_read_def encode_inbox_states_def encode_history_def
  encode_offline_index_def encode_offline_content_def encode_dest_cmd_def encode_empty_cmd_def encode_user_update_def
  encode_bot_create_def encode_bot_update_def encode_bot_reply_def encode_bot_pending_def encode_agent_spec_sync_def
  encode_agent_spec_upsert_def encode_user_search_def encode_room_enter_def encode_room_leave_def

lemmas take_defs = take_talk_def take_profile_def take_users_def status_err_def status_done_def when_seq_def

lemma request_pkt_header [simp]:
  "h_command (lp_header (request_pkt c seq b)) = Command_as_str c" "h_sequence (lp_header (request_pkt c seq b)) = seq"
  "h_flag (lp_header (request_pkt c seq b)) = Request" "h_channel_id (lp_header (request_pkt c seq b)) = []"
  "lp_body (request_pkt c seq b) = b"
  by (simp_all add: request_pkt_def LogicPkt_write_body_def LogicPkt_new_def Header_default_def del: Command_as_str.simps)

text \<open>A request carries its sequence number, and its channel is left to the gateway.\<close>

lemma client_request_header:
  assumes "client_request cc seq r"
  shows "h_sequence (lp_header (rq_pkt r)) = seq" "h_flag (lp_header (rq_pkt r)) = Request"
    "h_channel_id (lp_header (rq_pkt r)) = []"
  using assms
  by (induction rule: client_request.induct)
    (auto simp: call_defs encode_defs set_dest_def LogicPkt_new_def LogicPkt_write_body_def Header_default_def split_beta Let_def
      simp del: Command_as_str.simps)

text \<open>A response to a request, and that its body is one the decoder of its command reads.\<close>

definition response_to :: "request \<Rightarrow> LogicPkt \<Rightarrow> bool" where
  "response_to r p \<longleftrightarrow> h_flag (lp_header p) = Response \<and> h_command (lp_header p) = h_command (lp_header (rq_pkt r))
     \<and> h_sequence (lp_header p) = h_sequence (lp_header (rq_pkt r))"

lemma decode_response:
  assumes "h_flag (lp_header p) = Response"
  shows "decode_logic cc me p =
    (if has_body (h_command (lp_header p)) \<and> h_status (lp_header p) = Success then decode_body cc p
     else Ok (status_event (lp_header p)))"
  using assms by (simp add: decode_logic_def is_kickout_def Let_def)

lemma read_body_cases:
  "read_body d p f = Ok ev \<longleftrightarrow> (\<exists>a. d (lp_body p) = Ok a \<and> ev = f a)"
  by (auto simp: read_body_def split: sum.splits)

text \<open>The reply that a response makes for its request.\<close>

lemma response_taken:
  assumes "client_request cc seq r" "response_to r p" "decode_logic cc me p = Ok ev"
  shows "\<exists>res. rq_take r ev = Some res \<and> (h_status (lp_header p) \<noteq> Success \<longrightarrow> res = Err (StatusError (h_status (lp_header p))))
    \<and> (h_status (lp_header p) = Success \<longrightarrow> (\<exists>x. res = Ok x))"
  using assms
proof (induction rule: client_request.induct)
qed (auto simp: response_to_def decode_response call_defs encode_defs take_defs status_event_def has_body_def decode_body_def
    read_body_cases set_dest_def LogicPkt_new_def LogicPkt_write_body_def Header_default_def split_beta Let_def
    simp del: Command_as_str.simps split: if_splits)

end
