(* ===== verification/Kim_Client_Pump.thy ===== *)
theory Kim_Client_Pump
  imports Kim_Client_Wire
begin

text \<open>
  A logged-in connection of the client, \<open>crates/kim-client/src/pump.rs\<close>: requests register a oneshot under
  their sequence number and wait; a reader task decodes the frames of the server and sends an answer to
  the oneshot of its sequence number, everything else to the queue of events; the first reason for which
  the link dies is kept. The tasks and the callers are cut at their awaits and run in any order.
\<close>

section \<open>The reasons of a drop\<close>

datatype DropReason =
    ConnectFail | HandshakeTimeoutReason | ReadError | WriteTimeout | ClosedReason | DecodeReason | IdleTimeout | ProbeFail
  | ConfirmTimeout | SyncFailed | KickoutReason | AuthFailedReason | StopReason

fun DropReason_as_str :: "DropReason \<Rightarrow> string" where
  "DropReason_as_str ConnectFail = ''connect-fail''"
| "DropReason_as_str HandshakeTimeoutReason = ''handshake-timeout''"
| "DropReason_as_str ReadError = ''read-error''"
| "DropReason_as_str WriteTimeout = ''write-timeout''"
| "DropReason_as_str ClosedReason = ''closed''"
| "DropReason_as_str DecodeReason = ''decode''"
| "DropReason_as_str IdleTimeout = ''idle-timeout''"
| "DropReason_as_str ProbeFail = ''probe-fail''"
| "DropReason_as_str ConfirmTimeout = ''confirm-timeout''"
| "DropReason_as_str SyncFailed = ''sync-failed''"
| "DropReason_as_str KickoutReason = ''kickout''"
| "DropReason_as_str AuthFailedReason = ''auth-failed''"
| "DropReason_as_str StopReason = ''stop''"

definition is_fatal :: "DropReason \<Rightarrow> bool" where
  "is_fatal r \<longleftrightarrow> r \<in> {KickoutReason, AuthFailedReason, StopReason}"

definition EVENT_CAP :: nat where "EVENT_CAP = 64"

section \<open>The state\<close>

text \<open>The two halves of a oneshot: the sender waits in the table of pending requests, was used, or was dropped.\<close>

datatype slot = Open | Sent Event | Dropped

datatype stage = Writing | Waiting | Returned "(ClientError, reply) result"

record call =
  cl_seq :: "32 word"
  cl_take :: "Event \<Rightarrow> (ClientError, reply) result option"
  cl_slot :: slot
  cl_stage :: stage

text \<open>Calls are numbered in the order they start. A probe waits for a pong with a oneshot of its own: \<open>lv_ping\<close>
  says that one waits. \<open>lv_read\<close> records the events the reader made.\<close>

record live =
  lv_calls :: "call list"
  lv_pending :: "(32 word, nat) hmap"
  lv_ping :: bool
  lv_events :: "Event list"
  lv_death :: "DropReason option"
  lv_token :: string
  lv_reader :: bool
  lv_next_seq :: "32 word"
  lv_read :: "Event list"

definition live_new :: "string \<Rightarrow> 32 word \<Rightarrow> live" where
  "live_new token seq = \<lparr>lv_calls = [], lv_pending = [], lv_ping = False, lv_events = [], lv_death = None, lv_token = token,
     lv_reader = True, lv_next_seq = seq, lv_read = []\<rparr>"

definition die :: "DropReason \<Rightarrow> live \<Rightarrow> live" where
  "die reason s = (case lv_death s of None \<Rightarrow> s\<lparr>lv_death := Some reason\<rparr> | Some _ \<Rightarrow> s)"

definition set_call :: "nat \<Rightarrow> (call \<Rightarrow> call) \<Rightarrow> live \<Rightarrow> live" where
  "set_call i f s = s\<lparr>lv_calls := (lv_calls s)[i := f (lv_calls s ! i)]\<rparr>"

definition drop_sender :: "nat \<Rightarrow> live \<Rightarrow> live" where
  "drop_sender i s = set_call i (\<lambda>c. c\<lparr>cl_slot := Dropped\<rparr>) s"

text \<open>Inserting into the table drops the sender that was there, removing drops it too.\<close>

definition forget :: "32 word \<Rightarrow> live \<Rightarrow> live" where
  "forget seq s =
     (case hget (lv_pending s) seq of
        None \<Rightarrow> s
      | Some i \<Rightarrow> drop_sender i (s\<lparr>lv_pending := hdel seq (lv_pending s)\<rparr>))"

definition clear_pending :: "live \<Rightarrow> live" where
  "clear_pending s =
     s\<lparr>lv_pending := [], lv_calls := map (\<lambda>i. let c = lv_calls s ! i in
         if hget (lv_pending s) (cl_seq c) = Some i then c\<lparr>cl_slot := Dropped\<rparr> else c) [0..<length (lv_calls s)]\<rparr>"

section \<open>Callers\<close>

text \<open>A method draws a sequence number and registers its oneshot; then it writes the packet.\<close>

definition write_wait :: "(32 word \<Rightarrow> request) \<Rightarrow> live \<Rightarrow> live" where
  "write_wait mk s =
     (let seq = lv_next_seq s; s1 = forget seq (s\<lparr>lv_next_seq := seq + 1\<rparr>); i = length (lv_calls s1) in
      s1\<lparr>lv_calls := lv_calls s1 @ [\<lparr>cl_seq = seq, cl_take = rq_take (mk seq), cl_slot = Open, cl_stage = Writing\<rparr>],
         lv_pending := hput seq i (lv_pending s1)\<rparr>)"

definition write_done :: "nat \<Rightarrow> (ClientError, unit) result \<Rightarrow> live \<Rightarrow> live" where
  "write_done i res s =
     (case res of
        Inr _ \<Rightarrow> set_call i (\<lambda>c. c\<lparr>cl_stage := Waiting\<rparr>) s
      | Inl e \<Rightarrow> set_call i (\<lambda>c. c\<lparr>cl_stage := Returned (Err e)\<rparr>) (forget (cl_seq (lv_calls s ! i)) s))"

definition slot_result :: "call \<Rightarrow> (ClientError, reply) result option" where
  "slot_result c =
     (case cl_slot c of
        Open \<Rightarrow> None
      | Dropped \<Rightarrow> Some (Err CoreClosed)
      | Sent ev \<Rightarrow> Some (case cl_take c ev of None \<Rightarrow> Err (OtherError ''mismatched response'') | Some r \<Rightarrow> r))"

definition wake :: "nat \<Rightarrow> live \<Rightarrow> live" where
  "wake i s = (case slot_result (lv_calls s ! i) of
        None \<Rightarrow> s
      | Some r \<Rightarrow> set_call i (\<lambda>c. c\<lparr>cl_stage := Returned r\<rparr>) s)"

section \<open>The reader\<close>

definition answer :: "32 word \<Rightarrow> Event \<Rightarrow> live \<Rightarrow> live option" where
  "answer seq ev s =
     (case hget (lv_pending s) seq of
        None \<Rightarrow> None
      | Some i \<Rightarrow> Some (set_call i (\<lambda>c. c\<lparr>cl_slot := Sent ev\<rparr>) (s\<lparr>lv_pending := hdel seq (lv_pending s)\<rparr>)))"

definition try_queue :: "Event \<Rightarrow> live \<Rightarrow> live" where
  "try_queue ev s = (if length (lv_events s) < EVENT_CAP then s\<lparr>lv_events := lv_events s @ [ev]\<rparr> else s)"

text \<open>The events that \<open>dispatch\<close> matches with a pending request.\<close>

fun matched_seq :: "Event \<Rightarrow> 32 word option" where
  "matched_seq (EvTalkResp r) = Some (tr_sequence r)"
| "matched_seq (EvStatus _ _ s) = Some s"
| "matched_seq (EvUserList _ s _) = Some s"
| "matched_seq (EvProfile s _) = Some s"
| "matched_seq (EvInbox s _) = Some s"
| "matched_seq (EvHistory s _ _) = Some s"
| "matched_seq (EvOfflinePage s _ _) = Some s"
| "matched_seq (EvOfflineContent s _) = Some s"
| "matched_seq (EvAgentSpecSync s _ _) = Some s"
| "matched_seq (EvAgentSpecUpsert s _) = Some s"
| "matched_seq _ = None"

definition dispatch_other :: "Event \<Rightarrow> live \<Rightarrow> live" where
  "dispatch_other ev s =
     (case ev of
        EvPong \<Rightarrow> s\<lparr>lv_ping := False\<rparr>
      | EvTokenRenew token _ \<Rightarrow> try_queue ev (s\<lparr>lv_token := token\<rparr>)
      | EvKickout _ \<Rightarrow> try_queue ev (die KickoutReason s)
      | EvClosed \<Rightarrow> try_queue ev ((clear_pending (die ClosedReason s))\<lparr>lv_ping := False\<rparr>)
      | _ \<Rightarrow> try_queue ev s)"

definition dispatch :: "Event \<Rightarrow> live \<Rightarrow> live" where
  "dispatch ev s =
     (case matched_seq ev of
        Some seq \<Rightarrow> (case answer seq ev s of Some s' \<Rightarrow> s' | None \<Rightarrow> try_queue ev s)
      | None \<Rightarrow> dispatch_other ev s)"

text \<open>A round of the reader: a data frame decoded to an event or to an error, or the read failed.\<close>

definition reader_round :: "(ClientError, (ClientError, Event) result) result \<Rightarrow> live \<Rightarrow> live" where
  "reader_round res s =
     (case res of
        Inl _ \<Rightarrow> (dispatch EvClosed (die ReadError s))\<lparr>lv_reader := False\<rparr>
      | Inr (Inl _) \<Rightarrow> (dispatch EvClosed (die DecodeReason s))\<lparr>lv_reader := False\<rparr>
      | Inr (Inr ev) \<Rightarrow>
          (let s1 = s\<lparr>lv_read := lv_read s @ [ev]\<rparr>;
               s2 = (if ev = EvClosed then die ClosedReason s1 else s1);
               s3 = (case ev of EvKickout _ \<Rightarrow> die KickoutReason s2 | _ \<Rightarrow> s2);
               s4 = dispatch ev s3 in
           if ev = EvClosed then s4\<lparr>lv_reader := False\<rparr> else s4))"

section \<open>The other tasks\<close>

definition recv_event :: "live \<Rightarrow> live" where
  "recv_event s = s\<lparr>lv_events := drop 1 (lv_events s)\<rparr>"

definition probe_start :: "live \<Rightarrow> live" where
  "probe_start s = s\<lparr>lv_ping := True\<rparr>"

text \<open>The watchdog: nothing was read for longer than \<open>read_idle\<close>, outside a grace period.\<close>

definition watchdog_expired :: "nat \<Rightarrow> nat \<Rightarrow> nat option \<Rightarrow> nat \<Rightarrow> bool" where
  "watchdog_expired now last_read grace read_idle \<longleftrightarrow>
     \<not> (case grace of None \<Rightarrow> False | Some t \<Rightarrow> now < t) \<and> now - last_read > read_idle"

text \<open>\<open>shutdown\<close> aborts the tasks; the table of pending requests stays as it is.\<close>

definition shutdown :: "live \<Rightarrow> live" where
  "shutdown s = die StopReason (s\<lparr>lv_reader := False\<rparr>)"

section \<open>Runs\<close>

definition client_method :: "client_codec \<Rightarrow> (32 word \<Rightarrow> request) \<Rightarrow> bool" where
  "client_method cc mk \<longleftrightarrow> (\<forall>seq. client_request cc seq (mk seq))"

definition in_stage :: "nat \<Rightarrow> live \<Rightarrow> stage \<Rightarrow> bool" where
  "in_stage i s st \<longleftrightarrow> i < length (lv_calls s) \<and> cl_stage (lv_calls s ! i) = st"

inductive live_step :: "client_codec \<Rightarrow> string \<Rightarrow> live \<Rightarrow> live \<Rightarrow> bool" for cc me where
  call: "client_method cc mk \<Longrightarrow> live_step cc me s (write_wait mk s)"
| written: "in_stage i s Writing \<Longrightarrow> live_step cc me s (write_done i res s)"
| write_timeout: "in_stage i s Writing \<Longrightarrow>
    live_step cc me s (write_done i (Err (OtherError ''write-timeout'')) (die WriteTimeout s))"
| wake: "in_stage i s Waiting \<Longrightarrow> live_step cc me s (wake i s)"
| read: "lv_reader s \<Longrightarrow> live_step cc me s (reader_round (Ok (decode_event cc me frame)) s)"
| read_error: "lv_reader s \<Longrightarrow> live_step cc me s (reader_round (Err e) s)"
| recv: "live_step cc me s (recv_event s)"
| probe: "live_step cc me s (probe_start s)"
| task_death: "r \<in> {WriteTimeout, ProbeFail, IdleTimeout} \<Longrightarrow> live_step cc me s (die r s)"
| stop: "live_step cc me s (shutdown s)"

inductive live_reach :: "client_codec \<Rightarrow> string \<Rightarrow> live \<Rightarrow> bool" for cc me where
  start: "live_reach cc me (live_new token seq)"
| step: "live_reach cc me s \<Longrightarrow> live_step cc me s s' \<Longrightarrow> live_reach cc me s'"

section \<open>The table of pending requests\<close>

text \<open>The table holds exactly the open oneshots, each under the number of its call; a used one got an event of that
  number from the reader; and what a call returned as a success came out of such an event.\<close>

definition table_exact :: "live \<Rightarrow> bool" where
  "table_exact s \<longleftrightarrow>
     (\<forall>q i. hget (lv_pending s) q = Some i \<longrightarrow>
        i < length (lv_calls s) \<and> cl_seq (lv_calls s ! i) = q \<and> cl_slot (lv_calls s ! i) = Open)
     \<and> (\<forall>i < length (lv_calls s). cl_slot (lv_calls s ! i) = Open \<longrightarrow> hget (lv_pending s) (cl_seq (lv_calls s ! i)) = Some i)"

definition answered :: "live \<Rightarrow> call \<Rightarrow> bool" where
  "answered s c \<longleftrightarrow>
     (\<forall>ev. cl_slot c = Sent ev \<longrightarrow> ev \<in> set (lv_read s) \<and> matched_seq ev = Some (cl_seq c))
     \<and> (\<forall>x. cl_stage c = Returned (Ok x) \<longrightarrow>
          (\<exists>ev \<in> set (lv_read s). matched_seq ev = Some (cl_seq c) \<and> cl_take c ev = Some (Ok x)))"

definition live_ok :: "live \<Rightarrow> bool" where
  "live_ok s \<longleftrightarrow> table_exact s \<and> (\<forall>c \<in> set (lv_calls s). answered s c)"

lemma live_okI: "table_exact s \<Longrightarrow> (\<And>c. c \<in> set (lv_calls s) \<Longrightarrow> answered s c) \<Longrightarrow> live_ok s"
  by (simp add: live_ok_def)

lemma live_okD: "live_ok s \<Longrightarrow> table_exact s" "live_ok s \<Longrightarrow> c \<in> set (lv_calls s) \<Longrightarrow> answered s c"
  "live_ok s \<Longrightarrow> i < length (lv_calls s) \<Longrightarrow> answered s (lv_calls s ! i)"
  by (simp_all add: live_ok_def)

lemma table_exactD:
  "table_exact s \<Longrightarrow> hget (lv_pending s) q = Some i \<Longrightarrow>
     i < length (lv_calls s) \<and> cl_seq (lv_calls s ! i) = q \<and> cl_slot (lv_calls s ! i) = Open"
  "table_exact s \<Longrightarrow> i < length (lv_calls s) \<Longrightarrow> cl_slot (lv_calls s ! i) = Open \<Longrightarrow> hget (lv_pending s) (cl_seq (lv_calls s ! i)) = Some i"
  by (auto simp: table_exact_def)

lemma table_exactI:
  "(\<And>q i. hget (lv_pending s) q = Some i \<Longrightarrow> i < length (lv_calls s) \<and> cl_seq (lv_calls s ! i) = q \<and> cl_slot (lv_calls s ! i) = Open) \<Longrightarrow>
   (\<And>i. i < length (lv_calls s) \<Longrightarrow> cl_slot (lv_calls s ! i) = Open \<Longrightarrow> hget (lv_pending s) (cl_seq (lv_calls s ! i)) = Some i) \<Longrightarrow>
   table_exact s"
  by (simp add: table_exact_def)

lemma set_call_fields [simp]:
  "lv_pending (set_call i f s) = lv_pending s" "lv_ping (set_call i f s) = lv_ping s" "lv_events (set_call i f s) = lv_events s"
  "lv_death (set_call i f s) = lv_death s" "lv_reader (set_call i f s) = lv_reader s" "lv_read (set_call i f s) = lv_read s"
  "lv_next_seq (set_call i f s) = lv_next_seq s" "length (lv_calls (set_call i f s)) = length (lv_calls s)"
  by (simp_all add: set_call_def)

lemma set_call_nth: "j < length (lv_calls s) \<Longrightarrow> lv_calls (set_call i f s) ! j = (if j = i then f (lv_calls s ! i) else lv_calls s ! j)"
  by (simp add: set_call_def nth_list_update)

lemma die_fields [simp]:
  "lv_pending (die r s) = lv_pending s" "lv_calls (die r s) = lv_calls s" "lv_events (die r s) = lv_events s"
  "lv_reader (die r s) = lv_reader s" "lv_read (die r s) = lv_read s" "lv_ping (die r s) = lv_ping s" "lv_next_seq (die r s) = lv_next_seq s"
  by (simp_all add: die_def split: option.split)

text \<open>Changing the stage of a call, and taking the sender of call \<open>i\<close> out of the table.\<close>

lemma answered_mono: "answered s c \<Longrightarrow> set (lv_read s) \<subseteq> set (lv_read t) \<Longrightarrow> answered t c"
  unfolding answered_def by blast

lemma live_ok_same:
  assumes "live_ok s" "lv_calls t = lv_calls s" "lv_pending t = lv_pending s" "set (lv_read s) \<subseteq> set (lv_read t)"
  shows "live_ok t"
proof (rule live_okI)
  show "table_exact t" using live_okD(1)[OF assms(1)] assms(2,3) by (simp add: table_exact_def)
  show "answered t c" if "c \<in> set (lv_calls t)" for c
    using that assms(2) answered_mono[OF live_okD(2)[OF assms(1), of c] assms(4)] by simp
qed

lemma live_ok_stage:
  assumes "live_ok s" "i < length (lv_calls s)" "answered s ((lv_calls s ! i)\<lparr>cl_stage := st\<rparr>)"
  shows "live_ok (set_call i (\<lambda>c. c\<lparr>cl_stage := st\<rparr>) s)"
proof (rule live_okI)
  show "table_exact (set_call i (\<lambda>c. c\<lparr>cl_stage := st\<rparr>) s)"
  proof (rule table_exactI)
    fix q j assume "hget (lv_pending (set_call i (\<lambda>c. c\<lparr>cl_stage := st\<rparr>) s)) q = Some j"
    then show "j < length (lv_calls (set_call i (\<lambda>c. c\<lparr>cl_stage := st\<rparr>) s))
      \<and> cl_seq (lv_calls (set_call i (\<lambda>c. c\<lparr>cl_stage := st\<rparr>) s) ! j) = q \<and> cl_slot (lv_calls (set_call i (\<lambda>c. c\<lparr>cl_stage := st\<rparr>) s) ! j) = Open"
      using table_exactD(1)[OF live_okD(1)[OF assms(1)], of q j] by (auto simp: set_call_nth)
  next
    fix j assume "j < length (lv_calls (set_call i (\<lambda>c. c\<lparr>cl_stage := st\<rparr>) s))"
      "cl_slot (lv_calls (set_call i (\<lambda>c. c\<lparr>cl_stage := st\<rparr>) s) ! j) = Open"
    then show "hget (lv_pending (set_call i (\<lambda>c. c\<lparr>cl_stage := st\<rparr>) s)) (cl_seq (lv_calls (set_call i (\<lambda>c. c\<lparr>cl_stage := st\<rparr>) s) ! j)) = Some j"
      using table_exactD(2)[OF live_okD(1)[OF assms(1)], of j] by (auto simp: set_call_nth split: if_splits)
  qed
next
  fix c assume "c \<in> set (lv_calls (set_call i (\<lambda>c. c\<lparr>cl_stage := st\<rparr>) s))"
  then obtain j where "j < length (lv_calls s)" "c = lv_calls (set_call i (\<lambda>c. c\<lparr>cl_stage := st\<rparr>) s) ! j"
    by (auto simp: in_set_conv_nth)
  then show "answered (set_call i (\<lambda>c. c\<lparr>cl_stage := st\<rparr>) s) c"
    using assms live_okD(3)[OF assms(1), of j] by (auto simp: set_call_nth answered_def)
qed

lemma live_ok_take_sender:
  assumes ok: "live_ok s" and hit: "hget (lv_pending s) q = Some i" and sl: "sl \<noteq> Open"
    "\<And>ev. sl = Sent ev \<Longrightarrow> ev \<in> set (lv_read s) \<and> matched_seq ev = Some q"
  shows "live_ok (set_call i (\<lambda>c. c\<lparr>cl_slot := sl\<rparr>) (s\<lparr>lv_pending := hdel q (lv_pending s)\<rparr>))" (is "live_ok ?t")
proof (rule live_okI)
  note D = table_exactD(1)[OF live_okD(1)[OF ok] hit]
  note T = table_exactD[OF live_okD(1)[OF ok]]
  show "table_exact ?t"
  proof (rule table_exactI)
    fix q' j assume "hget (lv_pending ?t) q' = Some j"
    then have j: "hget (lv_pending s) q' = Some j" "q' \<noteq> q" by (simp_all add: hget_hdel split: if_splits)
    then have "j \<noteq> i" using T(1)[OF j(1)] D by auto
    then show "j < length (lv_calls ?t) \<and> cl_seq (lv_calls ?t ! j) = q' \<and> cl_slot (lv_calls ?t ! j) = Open"
      using T(1)[OF j(1)] by (simp add: set_call_def)
  next
    fix j assume "j < length (lv_calls ?t)" "cl_slot (lv_calls ?t ! j) = Open"
    then have j: "j < length (lv_calls s)" "j \<noteq> i" "cl_slot (lv_calls s ! j) = Open"
      using sl(1) by (cases "j = i"; simp add: set_call_def)+
    moreover have "cl_seq (lv_calls s ! j) \<noteq> q" using T(2)[OF j(1,3)] hit j(2) by auto
    ultimately show "hget (lv_pending ?t) (cl_seq (lv_calls ?t ! j)) = Some j"
      using T(2)[OF j(1,3)] by (simp add: set_call_def hget_hdel)
  qed
next
  fix c assume "c \<in> set (lv_calls ?t)"
  then obtain j where "j < length (lv_calls s)" "c = lv_calls ?t ! j" by (auto simp: in_set_conv_nth)
  then show "answered ?t c"
    using live_okD(3)[OF ok, of j] table_exactD(1)[OF live_okD(1)[OF ok] hit] sl
    by (cases "j = i") (auto simp: set_call_def answered_def)
qed

lemma live_ok_forget: "live_ok s \<Longrightarrow> live_ok (forget q s)"
  by (auto simp: forget_def drop_sender_def split: option.split intro!: live_ok_take_sender)

lemma forget_none: "hget (lv_pending (forget q s)) q = None"
  by (auto simp: forget_def drop_sender_def hget_hdel split: option.split)

lemma forget_fields [simp]:
  "length (lv_calls (forget q s)) = length (lv_calls s)" "lv_read (forget q s) = lv_read s" "lv_next_seq (forget q s) = lv_next_seq s"
  "lv_reader (forget q s) = lv_reader s"
  by (simp_all add: forget_def drop_sender_def split: option.split)

lemma live_ok_write_wait:
  assumes "live_ok s"
  shows "live_ok (write_wait mk s)"
proof -
  let ?q = "lv_next_seq s"
  let ?t = "forget ?q (s\<lparr>lv_next_seq := ?q + 1\<rparr>)"
  have ok: "live_ok ?t" by (rule live_ok_forget, rule live_ok_same[OF assms]) simp_all
  have none: "hget (lv_pending ?t) ?q = None" by (rule forget_none)
  note T = table_exactD[OF live_okD(1)[OF ok]]
  have "table_exact (write_wait mk s)"
  proof (rule table_exactI)
    fix q i assume "hget (lv_pending (write_wait mk s)) q = Some i"
    then show "i < length (lv_calls (write_wait mk s)) \<and> cl_seq (lv_calls (write_wait mk s) ! i) = q
      \<and> cl_slot (lv_calls (write_wait mk s) ! i) = Open"
      using T(1)[of q i] by (cases "q = ?q") (auto simp: write_wait_def Let_def hget_hput nth_append)
  next
    fix i assume i: "i < length (lv_calls (write_wait mk s))" "cl_slot (lv_calls (write_wait mk s) ! i) = Open"
    show "hget (lv_pending (write_wait mk s)) (cl_seq (lv_calls (write_wait mk s) ! i)) = Some i"
    proof (cases "i < length (lv_calls ?t)")
      case True
      have *: "lv_calls (write_wait mk s) ! i = lv_calls ?t ! i" using True by (simp add: write_wait_def Let_def nth_append)
      have **: "hget (lv_pending ?t) (cl_seq (lv_calls ?t ! i)) = Some i" using T(2)[OF True] i(2) * by simp
      then have "cl_seq (lv_calls ?t ! i) \<noteq> ?q" using none by auto
      then show ?thesis using * ** by (simp add: write_wait_def Let_def hget_hput)
    next
      case False
      then show ?thesis using i(1) by (simp add: write_wait_def Let_def hget_hput nth_append)
    qed
  qed
  moreover have "answered (write_wait mk s) c" if "c \<in> set (lv_calls (write_wait mk s))" for c
    using that live_okD(2)[OF ok, of c] by (auto simp: write_wait_def Let_def answered_def)
  ultimately show ?thesis by (rule live_okI)
qed

lemma live_ok_answer:
  "live_ok s \<Longrightarrow> ev \<in> set (lv_read s) \<Longrightarrow> matched_seq ev = Some q \<Longrightarrow> answer q ev s = Some t \<Longrightarrow> live_ok t"
  by (auto simp: answer_def split: option.splits intro!: live_ok_take_sender)

lemma clear_pending_fields [simp]:
  "lv_pending (clear_pending s) = []" "length (lv_calls (clear_pending s)) = length (lv_calls s)" "lv_read (clear_pending s) = lv_read s"
  "lv_events (clear_pending s) = lv_events s" "lv_reader (clear_pending s) = lv_reader s" "lv_death (clear_pending s) = lv_death s"
  by (simp_all add: clear_pending_def)

lemma clear_pending_nth:
  assumes "live_ok s" "j < length (lv_calls s)"
  shows "lv_calls (clear_pending s) ! j =
     (if cl_slot (lv_calls s ! j) = Open then (lv_calls s ! j)\<lparr>cl_slot := Dropped\<rparr> else lv_calls s ! j)"
proof -
  note T = table_exactD[OF live_okD(1)[OF assms(1)]]
  have "hget (lv_pending s) (cl_seq (lv_calls s ! j)) = Some j \<longleftrightarrow> cl_slot (lv_calls s ! j) = Open"
    using T(1)[of "cl_seq (lv_calls s ! j)" j] T(2)[OF assms(2)] by blast
  then show ?thesis using assms(2) by (simp add: clear_pending_def Let_def)
qed

lemma live_ok_clear: "live_ok s \<Longrightarrow> live_ok (clear_pending s)"
proof (rule live_okI)
  assume ok: "live_ok s"
  show "table_exact (clear_pending s)" by (rule table_exactI) (simp_all add: clear_pending_nth[OF ok] split: if_splits)
  fix c assume "c \<in> set (lv_calls (clear_pending s))"
  then obtain j where "j < length (lv_calls s)" "c = lv_calls (clear_pending s) ! j" by (auto simp: in_set_conv_nth)
  then show "answered (clear_pending s) c"
    using live_okD(3)[OF ok, of j] by (auto simp: clear_pending_nth[OF ok] answered_def)
qed

lemma try_queue_fields [simp]:
  "lv_pending (try_queue ev s) = lv_pending s" "lv_calls (try_queue ev s) = lv_calls s" "lv_read (try_queue ev s) = lv_read s"
  "lv_reader (try_queue ev s) = lv_reader s" "lv_death (try_queue ev s) = lv_death s"
  by (simp_all add: try_queue_def)

lemma live_ok_try_queue: "live_ok s \<Longrightarrow> live_ok (try_queue ev s)"
  by (erule live_ok_same) simp_all

lemma live_ok_die: "live_ok s \<Longrightarrow> live_ok (die r s)"
  by (erule live_ok_same) simp_all

lemma live_ok_upd:
  "live_ok s \<Longrightarrow> live_ok (s\<lparr>lv_ping := b\<rparr>)" "live_ok s \<Longrightarrow> live_ok (s\<lparr>lv_token := t\<rparr>)" "live_ok s \<Longrightarrow> live_ok (s\<lparr>lv_reader := b\<rparr>)"
  "live_ok s \<Longrightarrow> live_ok (s\<lparr>lv_read := lv_read s @ es\<rparr>)" "live_ok s \<Longrightarrow> live_ok (s\<lparr>lv_events := es\<rparr>)"
  by (erule live_ok_same; auto)+

lemmas live_ok_intros = live_ok_upd live_ok_die live_ok_try_queue live_ok_clear

lemma live_ok_dispatch:
  assumes "live_ok s" "ev \<in> set (lv_read s) \<or> ev = EvClosed"
  shows "live_ok (dispatch ev s)"
proof (cases "matched_seq ev")
  case None
  then show ?thesis using assms(1)
    by (auto simp: dispatch_def dispatch_other_def split: Event.split intro!: live_ok_intros)
next
  case (Some q)
  then have "ev \<in> set (lv_read s)" using assms(2) by auto
  then show ?thesis using Some assms(1) live_ok_answer[OF assms(1) _ Some]
    by (auto simp: dispatch_def split: option.split intro!: live_ok_intros)
qed

lemma live_ok_reader:
  assumes "live_ok s"
  shows "live_ok (reader_round res s)"
proof -
  have read: "live_ok (dispatch ev t)" if "live_ok t" "ev \<in> set (lv_read t)" for ev t using that by (simp add: live_ok_dispatch)
  have closed: "live_ok (dispatch EvClosed t)" if "live_ok t" for t using that by (simp add: live_ok_dispatch)
  show ?thesis
    using assms
    by (auto simp: reader_round_def Let_def split: sum.split Event.split intro!: live_ok_intros read closed)
qed

lemma live_ok_returned:
  assumes "live_ok s" "i < length (lv_calls s)" "slot_result (lv_calls s ! i) = Some r"
  shows "answered s ((lv_calls s ! i)\<lparr>cl_stage := Returned r\<rparr>)"
  using live_okD(3)[OF assms(1,2)] assms(3)
  by (fastforce simp: answered_def slot_result_def split: slot.splits option.splits)

lemma live_step_ok: "live_step cc me s s' \<Longrightarrow> live_ok s \<Longrightarrow> live_ok s'"
proof (induction rule: live_step.induct)
  case (wake i s)
  then show ?case
    by (auto simp: wake_def in_stage_def split: option.split intro!: live_ok_stage live_ok_returned)
next
  case (written i s res)
  then show ?case
    using live_ok_forget[OF written(2), of "cl_seq (lv_calls s ! i)"] live_okD(3)[OF written(2), of i]
      live_okD(3)[OF live_ok_forget[OF written(2)], of i "cl_seq (lv_calls s ! i)"]
    by (auto simp: write_done_def in_stage_def split: sum.split intro!: live_ok_stage) (auto simp: answered_def)
next
  case (write_timeout i s)
  have d: "live_ok (die WriteTimeout s)" by (rule live_ok_die[OF write_timeout(2)])
  then show ?case
    using live_ok_forget[OF d, of "cl_seq (lv_calls s ! i)"] write_timeout
      live_okD(3)[OF live_ok_forget[OF d], of i "cl_seq (lv_calls s ! i)"]
    by (auto simp: write_done_def in_stage_def intro!: live_ok_stage) (auto simp: answered_def)
qed (auto simp: live_ok_write_wait live_ok_reader recv_event_def probe_start_def shutdown_def intro!: live_ok_intros)

lemma live_reach_ok: "live_reach cc me s \<Longrightarrow> live_ok s"
proof (induction rule: live_reach.induct)
  case (start token seq)
  then show ?case by (auto simp: live_new_def intro!: live_okI) (simp add: table_exact_def)
qed (simp add: live_step_ok)

section \<open>What a caller gets\<close>

text \<open>C19: A call returns what its own request was answered with. When a method returns a value, the reader got an event
  with the sequence number of the call from the server, and the value is what the method takes from it.\<close>

theorem call_returns_own_answer:
  assumes "live_reach cc me s" "i < length (lv_calls s)" "cl_stage (lv_calls s ! i) = Returned (Ok x)"
  shows "\<exists>ev \<in> set (lv_read s). matched_seq ev = Some (cl_seq (lv_calls s ! i)) \<and> cl_take (lv_calls s ! i) ev = Some (Ok x)"
  using live_okD(3)[OF live_reach_ok[OF assms(1)] assms(2)] assms(3) by (simp add: answered_def)

text \<open>The successful responses whose events \<open>dispatch\<close> does not match with the table.\<close>

definition unmatched_response :: "LogicPkt \<Rightarrow> bool" where
  "unmatched_response p \<longleftrightarrow> h_status (lp_header p) = Success
     \<and> (h_command (lp_header p) \<in> set (map Command_as_str [InboxStates, RoomEnter, BotPending])
        \<or> (h_command (lp_header p) = Command_as_str InboxRead \<and> lp_body p \<noteq> []))"

lemma response_matched:
  assumes "client_request cc seq r" "response_to r p" "decode_logic cc me p = Ok ev"
  shows "matched_seq ev = (if unmatched_response p then None else Some seq)"
  using assms
  by (induction rule: client_request.induct)
    (auto simp: response_to_def decode_response call_defs encode_defs status_event_def has_body_def decode_body_def unmatched_response_def
      read_body_cases set_dest_def LogicPkt_new_def LogicPkt_write_body_def Header_default_def split_beta Let_def
      simp del: Command_as_str.simps split: if_splits)

lemma unmatched_response_event:
  assumes "client_request cc seq r" "response_to r p" "decode_logic cc me p = Ok ev" "unmatched_response p"
  shows "dispatch_other ev s = try_queue ev s \<and> ev \<noteq> EvClosed \<and> (\<forall>c. ev \<noteq> EvKickout c)"
  using assms
  by (induction rule: client_request.induct)
    (auto simp: response_to_def decode_response call_defs encode_defs status_event_def has_body_def decode_body_def unmatched_response_def
      read_body_cases set_dest_def LogicPkt_new_def LogicPkt_write_body_def Header_default_def split_beta Let_def dispatch_other_def
      simp del: Command_as_str.simps split: if_splits)

lemma matched_event: "matched_seq ev = Some q \<Longrightarrow> ev \<noteq> EvClosed \<and> (\<forall>c. ev \<noteq> EvKickout c)"
  by auto

lemma reader_event:
  assumes "ev \<noteq> EvClosed" "\<forall>c. ev \<noteq> EvKickout c"
  shows "reader_round (Ok (Ok ev)) s = dispatch ev (s\<lparr>lv_read := lv_read s @ [ev]\<rparr>)"
  using assms by (simp add: reader_round_def Let_def split: Event.split)

text \<open>C18: A response wakes its caller, and only its caller, except for four commands. While a call waits, the response to
  its request gives it the status of the response as an error, or a value when the request succeeded, and touches no other
  call. But the successful answers to the states of conversations, to entering a room, to the pending turns of a bot and,
  when they have a body, to reading a conversation do not: such an event is appended to the queue of events, or dropped
  when 64 events wait there, and its caller goes on waiting.\<close>

theorem response_wakes_its_call:
  assumes "live_reach cc me s" "i < length (lv_calls s)" "cl_slot (lv_calls s ! i) = Open"
    "client_request cc (cl_seq (lv_calls s ! i)) r" "cl_take (lv_calls s ! i) = rq_take r"
    "response_to r p" "decode_logic cc me p = Ok ev"
  shows "(\<forall>j < length (lv_calls s). j \<noteq> i \<longrightarrow> lv_calls (reader_round (Ok (Ok ev)) s) ! j = lv_calls s ! j)
    \<and> (if unmatched_response p
       then lv_calls (reader_round (Ok (Ok ev)) s) ! i = lv_calls s ! i
         \<and> lv_events (reader_round (Ok (Ok ev)) s) = (if length (lv_events s) < 64 then lv_events s @ [ev] else lv_events s)
       else \<exists>res. slot_result (lv_calls (reader_round (Ok (Ok ev)) s) ! i) = Some res
         \<and> (if h_status (lp_header p) = Success then \<exists>x. res = Ok x else res = Err (StatusError (h_status (lp_header p)))))"
proof (cases "unmatched_response p")
  case True
  then have "matched_seq ev = None" using response_matched[OF assms(4,6,7)] by simp
  then show ?thesis
    using True unmatched_response_event[OF assms(4,6,7) True, of "s\<lparr>lv_read := lv_read s @ [ev]\<rparr>"] reader_event[of ev s]
    by (simp add: dispatch_def try_queue_def EVENT_CAP_def)
next
  case False
  then have m: "matched_seq ev = Some (cl_seq (lv_calls s ! i))" using response_matched[OF assms(4,6,7)] by simp
  have "hget (lv_pending s) (cl_seq (lv_calls s ! i)) = Some i"
    by (rule table_exactD(2)[OF live_okD(1)[OF live_reach_ok[OF assms(1)]] assms(2,3)])
  then have "lv_calls (reader_round (Ok (Ok ev)) s) = (lv_calls s)[i := (lv_calls s ! i)\<lparr>cl_slot := Sent ev\<rparr>]"
    using m matched_event[OF m] by (simp add: reader_event dispatch_def answer_def set_call_def)
  moreover obtain res where "rq_take r ev = Some res"
    "if h_status (lp_header p) = Success then \<exists>x. res = Ok x else res = Err (StatusError (h_status (lp_header p)))"
    using response_taken[OF assms(4,6,7)] by auto
  ultimately show ?thesis using assms(2,5) False by (simp add: slot_result_def)
qed

section \<open>When the link ends\<close>

text \<open>A reader that stops by itself fails every call that still waits.\<close>

lemma reader_end_fails_calls:
  assumes "live_reach cc me s" "\<not> lv_reader (reader_round res s)" "lv_reader s" "i < length (lv_calls (reader_round res s))"
  shows "slot_result (lv_calls (reader_round res s) ! i) \<noteq> None"
proof -
  let ?s' = "reader_round res s"
  have ok: "live_ok ?s'" by (rule live_ok_reader[OF live_reach_ok[OF assms(1)]])
  have keeps: "lv_reader (dispatch ev t) = lv_reader t" for ev t
    by (auto simp: dispatch_def dispatch_other_def answer_def split: option.split Event.split)
  have closed: "lv_pending (dispatch EvClosed t) = []" for t by (simp add: dispatch_def dispatch_other_def)
  have "lv_pending ?s' = []"
    using assms(2,3) keeps closed
    by (auto simp: reader_round_def Let_def split: sum.splits if_splits Event.splits)
  then have "cl_slot (lv_calls ?s' ! i) \<noteq> Open" using table_exactD(2)[OF live_okD(1)[OF ok] assms(4)] by auto
  then show ?thesis by (simp add: slot_result_def split: slot.split)
qed

text \<open>A link that is shut down does not: a call that waits then never returns, whatever happens afterwards, unless its
  sequence number is drawn again.\<close>

definition stranded :: "nat \<Rightarrow> live \<Rightarrow> bool" where
  "stranded i s \<longleftrightarrow> \<not> lv_reader s \<and> i < length (lv_calls s) \<and> cl_slot (lv_calls s ! i) = Open \<and> cl_stage (lv_calls s ! i) = Waiting"

text \<open>Sequence numbers are drawn in order, so they repeat only after \<open>2 ^ 32\<close> calls.\<close>

definition seqs_ok :: "live \<Rightarrow> bool" where
  "seqs_ok s \<longleftrightarrow> (\<forall>i < length (lv_calls s). cl_seq (lv_calls s ! i) = lv_next_seq s - of_nat (length (lv_calls s) - i))"

lemma call_fields:
  "map cl_seq (lv_calls (set_call i f s)) = (map cl_seq (lv_calls s))[i := cl_seq (f (lv_calls s ! i))]"
  by (simp add: set_call_def map_update)

lemma same_seqs:
  "(\<And>c. cl_seq (f c) = cl_seq c) \<Longrightarrow> map cl_seq (lv_calls (set_call i f s)) = map cl_seq (lv_calls s)"
  "map cl_seq (lv_calls (forget q s)) = map cl_seq (lv_calls s)"
  "map cl_seq (lv_calls (clear_pending s)) = map cl_seq (lv_calls s)"
proof -
  show 1: "map cl_seq (lv_calls (set_call i f s)) = map cl_seq (lv_calls s)" if "\<And>c. cl_seq (f c) = cl_seq c" for i f s
    using that by (cases "i < length (lv_calls s)") (simp_all add: call_fields list_update_same_conv list_update_beyond)
  show "map cl_seq (lv_calls (forget q s)) = map cl_seq (lv_calls s)"
    by (auto simp: forget_def drop_sender_def 1 split: option.split)
  show "map cl_seq (lv_calls (clear_pending s)) = map cl_seq (lv_calls s)"
    by (rule nth_equalityI) (simp_all add: clear_pending_def Let_def)
qed

lemma seqs_ok_same:
  assumes "seqs_ok s" "map cl_seq (lv_calls t) = map cl_seq (lv_calls s)" "lv_next_seq t = lv_next_seq s"
  shows "seqs_ok t"
proof -
  have len: "length (lv_calls t) = length (lv_calls s)" using map_eq_imp_length_eq[OF assms(2)] .
  have "cl_seq (lv_calls t ! i) = cl_seq (lv_calls s ! i)" if "i < length (lv_calls s)" for i
    using arg_cong[OF assms(2), of "\<lambda>l. l ! i"] that len by simp
  then show ?thesis using assms(1,3) len by (simp add: seqs_ok_def)
qed

lemma seqs_ok_write_wait:
  assumes "seqs_ok s"
  shows "seqs_ok (write_wait mk s)"
proof -
  let ?t = "forget (lv_next_seq s) (s\<lparr>lv_next_seq := lv_next_seq s + 1\<rparr>)"
  have m: "map cl_seq (lv_calls ?t) = map cl_seq (lv_calls s)" by (simp add: same_seqs)
  have eq: "cl_seq (lv_calls ?t ! i) = cl_seq (lv_calls s ! i)" if "i < length (lv_calls s)" for i
    using arg_cong[OF m, of "\<lambda>l. l ! i"] that by simp
  show ?thesis
    unfolding seqs_ok_def
  proof (intro allI impI)
    fix i assume i: "i < length (lv_calls (write_wait mk s))"
    show "cl_seq (lv_calls (write_wait mk s) ! i) = lv_next_seq (write_wait mk s) - of_nat (length (lv_calls (write_wait mk s)) - i)"
    proof (cases "i < length (lv_calls s)")
      case True
      then show ?thesis using eq[OF True] assms
        by (simp add: write_wait_def Let_def nth_append seqs_ok_def Suc_diff_le)
    next
      case False
      then have "i = length (lv_calls s)" using i by (simp add: write_wait_def Let_def)
      then show ?thesis by (simp add: write_wait_def Let_def nth_append)
    qed
  qed
qed

lemma dispatch_seqs:
  "map cl_seq (lv_calls (dispatch ev s)) = map cl_seq (lv_calls s)" "lv_next_seq (dispatch ev s) = lv_next_seq s"
  by (auto simp: dispatch_def dispatch_other_def answer_def try_queue_def clear_pending_def[THEN arg_cong, of lv_next_seq]
      same_seqs split: option.split Event.split)

lemma reader_seqs:
  "map cl_seq (lv_calls (reader_round res s)) = map cl_seq (lv_calls s)" "lv_next_seq (reader_round res s) = lv_next_seq s"
  by (auto simp: reader_round_def Let_def dispatch_seqs split: sum.split Event.split)

lemma live_step_seqs: "live_step cc me s s' \<Longrightarrow> seqs_ok s \<Longrightarrow> seqs_ok s'"
proof (induction rule: live_step.induct)
  case (call mk s)
  then show ?case by (simp add: seqs_ok_write_wait)
qed (erule seqs_ok_same;
    auto simp: write_done_def wake_def reader_seqs recv_event_def probe_start_def shutdown_def same_seqs split: sum.split option.split)+

lemma seqs_distinct:
  assumes "seqs_ok s" "length (lv_calls s) < 2 ^ 32" "i < length (lv_calls s)" "j < length (lv_calls s)"
    "cl_seq (lv_calls s ! i) = cl_seq (lv_calls s ! j)"
  shows "i = j"
proof -
  define a b where "a = length (lv_calls s) - i" and "b = length (lv_calls s) - j"
  have ab: "(of_nat a :: 32 word) = of_nat b" using assms(1,3,4,5) by (simp add: seqs_ok_def a_def b_def del: of_nat_diff)
  have "a < 4294967296" "b < 4294967296" using assms(2) by (auto simp: a_def b_def)
  then have "a = b" using unat_u32_of_len[of a] unat_u32_of_len[of b] ab by metis
  then show ?thesis using assms(3,4) by (simp add: a_def b_def)
qed

lemma forget_other:
  assumes "table_exact s" "i < length (lv_calls s)" "cl_seq (lv_calls s ! i) \<noteq> q"
  shows "lv_calls (forget q s) ! i = lv_calls s ! i"
  using assms table_exactD(1)[OF assms(1), of q]
  by (auto simp: forget_def drop_sender_def set_call_def nth_list_update split: option.split)

lemma write_done_other:
  assumes "live_ok s" "i < length (lv_calls s)" "i \<noteq> j" "cl_seq (lv_calls s ! i) \<noteq> cl_seq (lv_calls s ! j)"
  shows "lv_calls (write_done j res s) ! i = lv_calls s ! i"
  using forget_other[OF live_okD(1)[OF assms(1)] assms(2,4)] assms(2,3)
  by (auto simp: write_done_def set_call_nth split: sum.split)

lemma stranded_step:
  assumes "live_step cc me s s'" "stranded i s" "live_ok s" "seqs_ok s" "length (lv_calls s') < 2 ^ 32"
  shows "stranded i s'"
  using assms
proof (induction rule: live_step.induct)
  case (call mk s)
  let ?w = "write_wait mk s"
  have i: "i < length (lv_calls s)" using call(2) by (simp add: stranded_def)
  have "cl_seq (lv_calls s ! i) \<noteq> lv_next_seq s"
  proof
    assume "cl_seq (lv_calls s ! i) = lv_next_seq s"
    then have "(of_nat (length (lv_calls s) - i) :: 32 word) = 0" using call(4) i by (simp add: seqs_ok_def)
    moreover have "length (lv_calls s) - i < 4294967296" using call(5) by (simp add: write_wait_def Let_def)
    ultimately have "length (lv_calls s) - i = 0" using unat_u32_of_len[of "length (lv_calls s) - i"] by simp
    then show False using i by simp
  qed
  then have "lv_calls ?w ! i = lv_calls s ! i"
    using i forget_other[of "s\<lparr>lv_next_seq := lv_next_seq s + 1\<rparr>" i "lv_next_seq s"] live_okD(1)[OF call(3)]
    by (simp add: write_wait_def Let_def nth_append table_exact_def)
  then show ?case using call(2) i by (simp add: stranded_def write_wait_def Let_def)
next
  case (written j s res)
  have "i \<noteq> j" using written(1,2) by (auto simp: stranded_def in_stage_def)
  then have "lv_calls (write_done j res s) ! i = lv_calls s ! i"
    using written seqs_distinct[OF written(4), of i j] write_done_other[OF written(3), of i j res]
    by (auto simp: stranded_def in_stage_def write_done_def split: sum.splits)
  then show ?case using written(2) by (auto simp: stranded_def write_done_def split: sum.split)
next
  case (write_timeout j s)
  let ?d = "die WriteTimeout s" and ?e = "Err (OtherError ''write-timeout'')"
  have "i \<noteq> j" using write_timeout(1,2) by (auto simp: stranded_def in_stage_def)
  then have "lv_calls (write_done j ?e ?d) ! i = lv_calls s ! i"
    using write_timeout seqs_distinct[OF write_timeout(4), of i j] write_done_other[OF live_ok_die[OF write_timeout(3), of WriteTimeout], of i j ?e]
    by (auto simp: stranded_def in_stage_def write_done_def)
  then show ?case using write_timeout(2) by (auto simp: stranded_def write_done_def)
next
  case (wake j s)
  then show ?case by (cases "i = j") (auto simp: stranded_def wake_def slot_result_def set_call_nth split: option.split)
qed (auto simp: stranded_def recv_event_def probe_start_def shutdown_def)

lemma live_reach_seqs: "live_reach cc me s \<Longrightarrow> seqs_ok s"
proof (induction rule: live_reach.induct)
  case (start token seq)
  then show ?case by (simp add: live_new_def seqs_ok_def)
qed (simp add: live_step_seqs)

lemma live_step_length: "live_step cc me s s' \<Longrightarrow> length (lv_calls s) \<le> length (lv_calls s')"
  by (induction rule: live_step.induct)
    (auto simp: write_wait_def write_done_def wake_def recv_event_def probe_start_def shutdown_def Let_def
      map_eq_imp_length_eq[OF reader_seqs(1)] split: sum.split option.split)

lemma live_steps_length: "(live_step cc me)\<^sup>*\<^sup>* s s' \<Longrightarrow> length (lv_calls s) \<le> length (lv_calls s')"
  by (induction rule: rtranclp_induct) (auto dest: live_step_length)

lemma shutdown_strands:
  assumes "live_reach cc me s" "i < length (lv_calls s)" "cl_slot (lv_calls s ! i) = Open" "cl_stage (lv_calls s ! i) = Waiting"
    "(live_step cc me)\<^sup>*\<^sup>* (shutdown s) s'" "length (lv_calls s') < 2 ^ 32"
  shows "cl_stage (lv_calls s' ! i) = Waiting"
proof -
  have "stranded i s' \<and> live_reach cc me s'"
    using assms(5,6)
  proof (induction rule: rtranclp_induct)
    case base
    then show ?case using assms(1-4) live_reach.step[OF assms(1) live_step.stop] by (simp add: stranded_def shutdown_def)
  next
    case (step t u)
    then have "stranded i t" "live_reach cc me t" using live_step_length[OF step(2)] by auto
    then show ?case
      using stranded_step[OF step(2)] live_reach_ok live_reach_seqs step(2,4) live_reach.step by blast
  qed
  then show ?thesis by (simp add: stranded_def)
qed

section \<open>A run\<close>

text \<open>Codecs of one talk: the body of the response is its message identifier.\<close>

definition demo_cc :: client_codec where
  "demo_cc = \<lparr>wc_enc_header = (\<lambda>_. []), wc_dec_header = (\<lambda>_. Ok (Header_default\<lparr>h_command := ''chat.user.talk'', h_flag := Response,
      h_sequence := 2, h_body_length := 1\<rparr>)),
    we_login = (\<lambda>_. []), we_message = (\<lambda>_. []), we_ack = (\<lambda>_. []), we_index = (\<lambda>_. []), we_content = (\<lambda>_. []), we_inbox = (\<lambda>_. []),
    we_history = (\<lambda>_. []), we_read = (\<lambda>_. []), we_states = (\<lambda>_. []), we_profile_update = (\<lambda>_. []), we_search = (\<lambda>_. []),
    we_room_enter = (\<lambda>_. []), we_room_leave = (\<lambda>_. []), we_typing = (\<lambda>_. []), we_bot_create = (\<lambda>_. []), we_bot_update = (\<lambda>_. []),
    we_bot_reply = (\<lambda>_. []), we_agent_upsert = (\<lambda>_. []), wd_kickout = (\<lambda>_. Err BadMagic), wd_login = (\<lambda>_. Err BadMagic),
    wd_auth = (\<lambda>_. Err BadMagic), wd_group_notify = (\<lambda>_. Err BadMagic), wd_friend = (\<lambda>_. Err BadMagic), wd_profile = (\<lambda>_. Err BadMagic),
    wd_presence = (\<lambda>_. Err BadMagic), wd_typing = (\<lambda>_. Err BadMagic), wd_receipt = (\<lambda>_. Err BadMagic), wd_read_sync = (\<lambda>_. Err BadMagic),
    wd_read_state = (\<lambda>_. Err BadMagic), wd_read_states = (\<lambda>_. Err BadMagic), wd_room_enter = (\<lambda>_. Err BadMagic), wd_push = (\<lambda>_. Err BadMagic),
    wd_resp = (\<lambda>b. case b of [x] \<Rightarrow> Ok \<lparr>mrs_message_id = uint x, mrs_send_time = 0\<rparr> | _ \<Rightarrow> Err BadMagic), wd_search = (\<lambda>_. Err BadMagic),
    wd_users = (\<lambda>_. Err BadMagic), wd_bot_create = (\<lambda>_. Err BadMagic), wd_bot_pending = (\<lambda>_. Err BadMagic), wd_inbox = (\<lambda>_. Err BadMagic),
    wd_history = (\<lambda>_. Err BadMagic), wd_index = (\<lambda>_. Err BadMagic), wd_content = (\<lambda>_. Err BadMagic), wd_agent_sync = (\<lambda>_. Err BadMagic),
    wd_agent_upsert = (\<lambda>_. Err BadMagic)\<rparr>"

definition demo_mk :: "32 word \<Rightarrow> request" where
  "demo_mk = send_message demo_cc ''bob'' 0 (TextMsg ''hi'') ''c1''"

definition demo_calling :: live where
  "demo_calling = write_done 0 (Ok ()) (write_wait demo_mk (live_new [] 2))"

lemma demo_calling_eq:
  "demo_calling = (live_new [] 2)\<lparr>lv_calls := [\<lparr>cl_seq = 2, cl_take = take_talk 2, cl_slot = Open, cl_stage = Waiting\<rparr>],
     lv_pending := [(2, 0)], lv_next_seq := 3\<rparr>"
  by (simp add: demo_calling_def write_wait_def write_done_def live_new_def forget_def set_call_def demo_mk_def send_message_def)

lemma demo_calling_reach: "live_reach demo_cc me demo_calling"
  unfolding demo_calling_def
proof (rule live_reach.step[OF live_reach.step[OF live_reach.start]])
  show "live_step demo_cc me (live_new [] 2) (write_wait demo_mk (live_new [] 2))"
    by (rule live_step.call) (simp add: client_method_def demo_mk_def client_request.intros)
  show "live_step demo_cc me (write_wait demo_mk (live_new [] 2)) (write_done 0 (Ok ()) (write_wait demo_mk (live_new [] 2)))"
    by (rule live_step.written) (simp add: in_stage_def write_wait_def live_new_def forget_def)
qed

definition demo_response :: LogicPkt where
  "demo_response = \<lparr>lp_header = Header_default\<lparr>h_command := ''chat.user.talk'', h_flag := Response, h_sequence := 2, h_body_length := 1\<rparr>,
     lp_body = [9]\<rparr>"

definition demo_answer :: Event where
  "demo_answer = EvTalkResp \<lparr>tr_message_id = 9, tr_send_time = 0, tr_sequence = 2\<rparr>"

lemma demo_decoded: "decode_logic demo_cc me demo_response = Ok demo_answer"
  by (simp add: decode_logic_def demo_response_def is_kickout_def Header_default_def has_body_def decode_body_def read_body_def demo_cc_def
      demo_answer_def)

theorem response_wakes_its_call_witness:
  "slot_result (lv_calls (reader_round (Ok (Ok demo_answer)) demo_calling) ! 0)
     = Some (Ok (RTalk \<lparr>tr_message_id = 9, tr_send_time = 0, tr_sequence = 2\<rparr>))
   \<and> (\<exists>res x. slot_result (lv_calls (reader_round (Ok (Ok demo_answer)) demo_calling) ! 0) = Some res \<and> res = Ok x)"
proof -
  have c: "i < length (lv_calls demo_calling) \<longleftrightarrow> i = 0" "lv_calls demo_calling ! 0 = \<lparr>cl_seq = 2, cl_take = take_talk 2, cl_slot = Open, cl_stage = Waiting\<rparr>" for i
    by (auto simp: demo_calling_eq)
  have r: "client_request demo_cc 2 (demo_mk 2)" "rq_take (demo_mk 2) = take_talk 2" "response_to (demo_mk 2) demo_response"
    by (simp_all add: demo_mk_def client_request.intros)
      (simp_all add: send_message_def response_to_def demo_response_def encode_outgoing_def LogicPkt_write_body_def set_dest_def LogicPkt_new_def
        Header_default_def INBOX_KIND_GROUP_def)
  have "\<not> unmatched_response demo_response" "h_status (lp_header demo_response) = Success"
    by (simp_all add: unmatched_response_def demo_response_def Header_default_def)
  then have "\<exists>res x. slot_result (lv_calls (reader_round (Ok (Ok demo_answer)) demo_calling) ! 0) = Some res \<and> res = Ok x"
    using response_wakes_its_call[OF demo_calling_reach, of 0 "demo_mk 2" demo_response "[]" demo_answer] c r demo_decoded by simp
  moreover have "slot_result (lv_calls (reader_round (Ok (Ok demo_answer)) demo_calling) ! 0)
     = Some (Ok (RTalk \<lparr>tr_message_id = 9, tr_send_time = 0, tr_sequence = 2\<rparr>))"
    by (simp add: demo_calling_eq demo_answer_def reader_round_def dispatch_def answer_def set_call_def slot_result_def take_talk_def when_seq_def live_new_def)
  ultimately show ?thesis by simp
qed

definition demo_returned :: live where
  "demo_returned = wake 0 (reader_round (Ok (Ok demo_answer)) demo_calling)"

lemma demo_frame: "decode_event demo_cc me \<lparr>opcode = Binary, payload = LogicPkt_encode (\<lambda>_. []) demo_response\<rparr> = Ok demo_answer"
proof -
  have "read_packet (wc_dec_header demo_cc) (LogicPkt_encode (\<lambda>_. []) demo_response) = Ok (LogicPacket demo_response)"
    by (simp add: read_packet_def LogicPkt_encode_def MAGIC_LOGIC_PKT_def MAGIC_BASIC_PKT_def LogicPkt_decode_def demo_cc_def demo_response_def
        put_u32_be_def put_u32_le_def from_u32_be_def from_u32_le_def)
  then show ?thesis by (simp add: decode_event_def demo_decoded)
qed

lemma demo_returned_reach: "live_reach demo_cc me demo_returned"
  unfolding demo_returned_def
proof (rule live_reach.step[OF live_reach.step[OF demo_calling_reach]])
  show "live_step demo_cc me demo_calling (reader_round (Ok (Ok demo_answer)) demo_calling)"
    using live_step.read[of demo_calling demo_cc me "\<lparr>opcode = Binary, payload = LogicPkt_encode (\<lambda>_. []) demo_response\<rparr>"]
    by (simp add: demo_frame) (simp add: demo_calling_eq live_new_def)
  show "live_step demo_cc me (reader_round (Ok (Ok demo_answer)) demo_calling) (wake 0 (reader_round (Ok (Ok demo_answer)) demo_calling))"
    by (rule live_step.wake)
      (simp add: in_stage_def demo_calling_eq demo_answer_def reader_round_def dispatch_def answer_def set_call_def live_new_def)
qed

theorem call_returns_own_answer_witness:
  "\<exists>ev \<in> {demo_answer}. matched_seq ev = Some 2 \<and> take_talk 2 ev = Some (Ok (RTalk \<lparr>tr_message_id = 9, tr_send_time = 0, tr_sequence = 2\<rparr>))"
proof -
  have s: "lv_calls demo_returned ! 0 = \<lparr>cl_seq = 2, cl_take = take_talk 2, cl_slot = Sent demo_answer,
      cl_stage = Returned (Ok (RTalk \<lparr>tr_message_id = 9, tr_send_time = 0, tr_sequence = 2\<rparr>))\<rparr>"
    "length (lv_calls demo_returned) = 1" "set (lv_read demo_returned) = {demo_answer}"
    by (simp_all add: demo_returned_def wake_def demo_calling_eq demo_answer_def reader_round_def dispatch_def answer_def set_call_def
        live_new_def slot_result_def take_talk_def when_seq_def)
  show ?thesis using call_returns_own_answer[OF demo_returned_reach, of 0] s by simp
qed

end
