(* ===== verification/Kim_Client_Sync.thy ===== *)
theory Kim_Client_Sync
  imports Kim_Client_Pump Kim_Message_Delivery
begin

text \<open>
  The catch-up of a client after login, \<open>crates/kim-client/src/sync.rs\<close>: the inbox, then pages of missed
  messages, each made durable before it is acknowledged to the server. The server, the persistence of
  the application and whatever else happens between two awaits are operations on a state of the
  environment; the catch-up is then run against the message store of the chat service.
\<close>

section \<open>Messages seen\<close>

definition SYNC_PAGE :: nat where "SYNC_PAGE = 200"
definition INBOX_LIMIT :: int where "INBOX_LIMIT = 200"
definition SEEN_CAP :: nat where "SEEN_CAP = 4096"

text \<open>The identifiers of the last messages, oldest first, with a set for the test.\<close>

record SeenSet =
  ss_seen :: "int list"
  ss_order :: "int list"

definition SeenSet_new :: SeenSet where
  "SeenSet_new = \<lparr>ss_seen = [], ss_order = []\<rparr>"

function evict :: "SeenSet \<Rightarrow> SeenSet" where
  "evict s =
     (if length (ss_order s) > SEEN_CAP then
        evict \<lparr>ss_seen = removeAll (hd (ss_order s)) (ss_seen s), ss_order = tl (ss_order s)\<rparr>
      else s)"
  by auto
termination by (relation "measure (\<lambda>s. length (ss_order s))") auto

declare evict.simps [simp del]

definition observe :: "int \<Rightarrow> SeenSet \<Rightarrow> bool \<times> SeenSet" where
  "observe i s =
     (if i = 0 then (True, s)
      else if i \<in> set (ss_seen s) then (False, s)
      else (True, evict \<lparr>ss_seen = i # ss_seen s, ss_order = ss_order s @ [i]\<rparr>))"

section \<open>Merging a page\<close>

definition talk_from_offline :: "string \<Rightarrow> MessageIndexRow \<Rightarrow> MessageContentRow \<Rightarrow> IncomingTalk" where
  "talk_from_offline account idx msg =
     (let group = mi_group idx \<noteq> [] in
      \<lparr>it_command = Command_as_str (if group then GroupTalk else UserTalk),
       it_dest = (if group then mi_group idx else mi_account_b idx),
       it_message_id = mc_message_id msg,
       it_sender = (if mi_direction idx = 1 then account else mi_account_b idx),
       it_msg_type = mc_msg_type msg, it_body = mc_body msg, it_extra = mc_extra msg, it_send_time = mi_send_time idx\<rparr>)"

text \<open>A hash map built from a list: the last row of an identifier wins.\<close>

definition by_id :: "MessageContentRow list \<Rightarrow> int \<Rightarrow> MessageContentRow option" where
  "by_id msgs i = List.find (\<lambda>m. mc_message_id m = i) (rev msgs)"

fun merge_rows :: "string \<Rightarrow> MessageContentRow list \<Rightarrow> MessageIndexRow list \<Rightarrow> SeenSet \<Rightarrow> IncomingTalk list \<times> SeenSet" where
  "merge_rows account msgs [] seen = ([], seen)"
| "merge_rows account msgs (idx # rows) seen =
     (case by_id msgs (mi_message_id idx) of
        None \<Rightarrow> merge_rows account msgs rows seen
      | Some msg \<Rightarrow>
          if mi_message_id idx = 0 then
            (let (ts, seen) = merge_rows account msgs rows seen in (talk_from_offline account idx msg # ts, seen))
          else case observe (mi_message_id idx) seen of
              (False, seen) \<Rightarrow> merge_rows account msgs rows seen
            | (True, seen) \<Rightarrow>
                (let (ts, seen) = merge_rows account msgs rows seen in (talk_from_offline account idx msg # ts, seen)))"

definition merge_offline :: "string \<Rightarrow> MessageIndexRow list \<Rightarrow> MessageContentRow list \<Rightarrow> SeenSet \<Rightarrow> IncomingTalk list \<times> SeenSet" where
  "merge_offline account indexes msgs seen = merge_rows account msgs (take SYNC_PAGE indexes) seen"

section \<open>The environment\<close>

datatype PersistError = Busy | StorageFull | Disk string | StaleEpoch

text \<open>The gate: the greatest cursor that the application passed to \<open>sync_confirm\<close>. The calls made so far are a list.\<close>

definition ConfirmGate_new :: int where "ConfirmGate_new = 0"

definition gate_confirm :: "int \<Rightarrow> int \<Rightarrow> int" where
  "gate_confirm cursor cur = (if cursor > cur then cursor else cur)"

definition gate_value :: "int list \<Rightarrow> int" where
  "gate_value calls = foldl (\<lambda>cur cursor. gate_confirm cursor cur) ConfirmGate_new calls"

text \<open>What else ends a wait for the gate.\<close>

datatype wait_end = TimedOut | StopNotified | Died DropReason | GateClosed

text \<open>The calls of the engine that await: requests to the server, the persistence hook, a wait. Each returns a new state of
  the environment, in which anything else may have happened. \<open>sy_watch\<close> is a wait on the gate: the calls of
  \<open>sync_confirm\<close> that had been made each time its value was looked at, and what ends the wait when none of
  the values is enough. \<open>sy_emit\<close> says whether a page event had a receiver.\<close>

record 's sync_env =
  sy_hook :: bool
  sy_account :: string
  sy_inbox :: "int \<Rightarrow> 's \<Rightarrow> (ClientError, ClientInboxItem list) result \<times> 's"
  sy_index :: "'s \<Rightarrow> (ClientError, MessageIndexRow list) result \<times> 's"
  sy_content :: "int list \<Rightarrow> 's \<Rightarrow> (ClientError, MessageContentRow list) result \<times> 's"
  sy_ack :: "int list \<Rightarrow> 's \<Rightarrow> (ClientError, unit) result \<times> 's"
  sy_begin_inbox :: "'s \<Rightarrow> (PersistError, nat) result \<times> 's"
  sy_persist_inbox :: "ClientInboxItem list \<Rightarrow> nat \<Rightarrow> 's \<Rightarrow> (PersistError, unit) result \<times> 's"
  sy_finish_inbox :: "nat \<Rightarrow> 's \<Rightarrow> 's"
  sy_persist :: "IncomingTalk list \<Rightarrow> 's \<Rightarrow> (PersistError, unit) result \<times> 's"
  sy_emit :: "int \<Rightarrow> IncomingTalk list \<Rightarrow> 's \<Rightarrow> bool \<times> 's"
  sy_dead :: "'s \<Rightarrow> DropReason option"
  sy_watch :: "'s \<Rightarrow> int list list \<times> wait_end \<times> 's"
  sy_seen :: "'s \<Rightarrow> SeenSet"
  sy_set_seen :: "SeenSet \<Rightarrow> 's \<Rightarrow> 's"

text \<open>What a run did, in order.\<close>

datatype sync_act =
    Fetched "MessageIndexRow list" "MessageContentRow list" SeenSet "IncomingTalk list"
  | Persisted "IncomingTalk list"
  | Emitted int "IncomingTalk list"
  | Confirmed int "int list"
  | Acked "int list"

definition CONFIRM_TIMEOUT :: ClientError where "CONFIRM_TIMEOUT = OtherError ''confirm-timeout''"

fun wait_error :: "wait_end \<Rightarrow> ClientError" where
  "wait_error TimedOut = CONFIRM_TIMEOUT"
| "wait_error StopNotified = OtherError ''stopped''"
| "wait_error (Died reason) = OtherError (DropReason_as_str reason)"
| "wait_error GateClosed = OtherError ''confirm closed''"

definition wait_confirm_once :: "'s sync_env \<Rightarrow> int \<Rightarrow> 's \<Rightarrow> ((ClientError, unit) result \<times> sync_act list) \<times> 's" where
  "wait_confirm_once env needed s =
     (let (looks, e, s) = sy_watch env s in
      case List.find (\<lambda>calls. gate_value calls \<ge> needed) looks of
        Some calls \<Rightarrow> ((Ok (), [Confirmed needed calls]), s)
      | None \<Rightarrow> ((Err (wait_error e), []), s))"

text \<open>A page that is not confirmed in time is sent once more.\<close>

definition wait_confirm :: "'s sync_env \<Rightarrow> int \<Rightarrow> IncomingTalk list \<Rightarrow> 's \<Rightarrow> ((ClientError, unit) result \<times> sync_act list) \<times> 's" where
  "wait_confirm env needed talks s =
     (if needed \<le> 0 then ((Ok (), []), s)
      else case sy_dead env s of
          Some reason \<Rightarrow> ((Err (OtherError (DropReason_as_str reason)), []), s)
        | None \<Rightarrow>
            (case wait_confirm_once env needed s of
               ((Inr _, acts), s) \<Rightarrow> ((Ok (), acts), s)
             | ((Inl e, _), s) \<Rightarrow>
                 if e \<noteq> CONFIRM_TIMEOUT then ((Err e, []), s)
                 else let (_, s) = sy_emit env needed talks s in wait_confirm_once env needed s))"

text \<open>A page ends the run with a result, or another one follows.\<close>

datatype page_end = Stop "(ClientError, nat) result" | Again nat

definition max_id :: "int list \<Rightarrow> int" where
  "max_id ids = (if ids = [] then 0 else Max (set ids))"

definition secure_page :: "'s sync_env \<Rightarrow> int list \<Rightarrow> IncomingTalk list \<Rightarrow> 's \<Rightarrow> (page_end option \<times> sync_act list) \<times> 's" where
  "secure_page env ids talks s =
     (if sy_hook env then
        if talks = [] then ((None, []), s)
        else case sy_persist env talks s of
            (Inr _, s) \<Rightarrow> ((None, [Persisted talks]), s)
          | (Inl _, s) \<Rightarrow> ((Some (Stop (Ok 0)), []), s)
      else if talks \<noteq> [] \<and> max_id ids > 0 then
        case sy_emit env (max_id ids) talks s of
            (False, s) \<Rightarrow> ((Some (Stop (Err (OtherError ''offline page not delivered''))), []), s)
          | (True, s) \<Rightarrow>
              (case wait_confirm env (max_id ids) talks s of
                 ((Inl e, acts), s) \<Rightarrow> ((Some (Stop (Err e)), Emitted (max_id ids) talks # acts), s)
               | ((Inr _, acts), s) \<Rightarrow> ((None, Emitted (max_id ids) talks # acts), s))
      else ((None, []), s))"

definition ack_batch :: "'s sync_env \<Rightarrow> int list \<Rightarrow> 's \<Rightarrow> (ClientError, unit) result \<times> 's" where
  "ack_batch env ids s = (if ids = [] then (Ok (), s) else sy_ack env ids s)"

definition sync_page :: "'s sync_env \<Rightarrow> nat \<Rightarrow> 's \<Rightarrow> page_end \<times> sync_act list \<times> 's" where
  "sync_page env pulled s =
     (case sy_index env s of
        (Inl e, s) \<Rightarrow> (Stop (Err e), [], s)
      | (Inr indexes, s) \<Rightarrow>
          if indexes = [] then (Stop (Ok pulled), [], s)
          else
            let short = length indexes < SYNC_PAGE; ids = take SYNC_PAGE (map mi_message_id indexes) in
            case sy_content env ids s of
              (Inl e, s) \<Rightarrow> (Stop (Err e), [], s)
            | (Inr msgs, s) \<Rightarrow>
                let old = sy_seen env s; (talks, seen) = merge_offline (sy_account env) indexes msgs old;
                    s = sy_set_seen env seen s; pulled = pulled + length talks in
                case secure_page env ids talks s of
                  ((Some (Stop (Inr _)), acts), s) \<Rightarrow> (Stop (Ok pulled), Fetched indexes msgs old talks # acts, s)
                | ((Some e, acts), s) \<Rightarrow> (e, Fetched indexes msgs old talks # acts, s)
                | ((None, acts), s) \<Rightarrow>
                    (case ack_batch env ids s of
                       (Inl e, s) \<Rightarrow> (Stop (Err e), Fetched indexes msgs old talks # acts, s)
                     | (Inr _, s) \<Rightarrow>
                         (if short then Stop (Ok pulled) else Again pulled, Fetched indexes msgs old talks # acts @ [Acked ids], s)))"

text \<open>The pages: as many as the server has; none comes out when they never end.\<close>

partial_function (option) sync_loop :: "'s sync_env \<Rightarrow> nat \<Rightarrow> 's \<Rightarrow> ((ClientError, nat) result \<times> sync_act list \<times> 's) option" where
  "sync_loop env pulled s =
     (let p = sync_page env pulled s in
      case fst p of
        Stop r \<Rightarrow> Some (r, snd p)
      | Again n \<Rightarrow>
          Option.bind (sync_loop env n (snd (snd p))) (\<lambda>q. Some (fst q, fst (snd p) @ fst (snd q), snd (snd q))))"

text \<open>The inbox is stored under a token of its own; a failure there ends the run quietly.\<close>

definition sync_inbox :: "'s sync_env \<Rightarrow> ClientInboxItem list \<Rightarrow> 's \<Rightarrow> bool \<times> 's" where
  "sync_inbox env items s =
     (if sy_hook env then
        case sy_begin_inbox env s of
          (Inl _, s) \<Rightarrow> (False, s)
        | (Inr token, s) \<Rightarrow>
            (case sy_persist_inbox env items token s of
               (r, s) \<Rightarrow> (case r of Inl _ \<Rightarrow> False | Inr _ \<Rightarrow> True, sy_finish_inbox env token s))
      else (True, s))"

definition sync_run :: "'s sync_env \<Rightarrow> 's \<Rightarrow> ((ClientError, nat) result \<times> sync_act list \<times> 's) option" where
  "sync_run env s =
     (case sy_inbox env INBOX_LIMIT s of
        (Inl e, s) \<Rightarrow> Some (Err e, [], s)
      | (Inr items, s) \<Rightarrow>
          (case sync_inbox env items s of
             (False, s) \<Rightarrow> Some (Ok 0, [], s)
           | (True, s) \<Rightarrow> sync_loop env 0 s))"

section \<open>The seen set\<close>

text \<open>The set holds what the queue holds.\<close>

lemma evict_subset: "set (ss_seen (evict s)) \<subseteq> set (ss_seen s)"
proof (induction s rule: evict.induct)
  case (1 s)
  then show ?case by (subst evict.simps) auto
qed

lemma observe_seen: "set (ss_seen (snd (observe i s))) \<subseteq> insert i (set (ss_seen s))"
  using evict_subset[of "\<lparr>ss_seen = i # ss_seen s, ss_order = ss_order s @ [i]\<rparr>"] by (auto simp: observe_def)

lemma observe_fresh: "i \<notin> set (ss_seen s) \<Longrightarrow> fst (observe i s)"
  by (simp add: observe_def)

lemma observe_refused: "\<not> fst (observe i s) \<Longrightarrow> i \<in> set (ss_seen s) \<and> snd (observe i s) = s"
  by (auto simp: observe_def split: if_splits)

lemma by_id_Some: "by_id msgs i = Some m \<Longrightarrow> mc_message_id m = i"
  by (auto simp: by_id_def find_Some_iff)

lemma talk_id [simp]: "it_message_id (talk_from_offline account idx msg) = mc_message_id msg"
  by (simp add: talk_from_offline_def Let_def)

text \<open>What a merge adds to the set are messages it made talks of; and every row with a content is among the talks,
  by its identifier, unless the message was seen before.\<close>

lemma merge_rows_covers:
  "set (ss_seen (snd (merge_rows account msgs rows seen))) \<subseteq> set (ss_seen seen) \<union> it_message_id ` set (fst (merge_rows account msgs rows seen))
   \<and> (\<forall>idx \<in> set rows. by_id msgs (mi_message_id idx) \<noteq> None \<longrightarrow>
        mi_message_id idx \<in> set (ss_seen seen) \<union> it_message_id ` set (fst (merge_rows account msgs rows seen)))"
proof (induction rows arbitrary: seen)
  case (Cons idx rows)
  show ?case
  proof (cases "by_id msgs (mi_message_id idx)")
    case None
    then show ?thesis using Cons.IH[of seen] by simp
  next
    case (Some msg)
    note id = by_id_Some[OF Some]
    show ?thesis
    proof (cases "mi_message_id idx = 0")
      case True
      then show ?thesis using Some id Cons.IH[of seen] by (auto simp: split_beta)
    next
      case nz: False
      obtain fresh seen' where o: "observe (mi_message_id idx) seen = (fresh, seen')" by fastforce
      have s': "set (ss_seen seen') \<subseteq> insert (mi_message_id idx) (set (ss_seen seen))"
        using observe_seen[of "mi_message_id idx" seen] o by simp
      show ?thesis
      proof (cases fresh)
        case True
        then show ?thesis using Some nz o id s' Cons.IH[of seen'] by (auto simp: split_beta)
      next
        case False
        then have "seen' = seen" "mi_message_id idx \<in> set (ss_seen seen)" using observe_refused[of "mi_message_id idx" seen] o by simp_all
        then show ?thesis using Some nz o False Cons.IH[of seen] by simp
      qed
    qed
  qed
qed simp

lemma merge_rows_fresh:
  "distinct (map mi_message_id rows) \<Longrightarrow> set (map mi_message_id rows) \<inter> set (ss_seen seen) = {} \<Longrightarrow>
   (\<And>idx. idx \<in> set rows \<Longrightarrow> by_id msgs (mi_message_id idx) \<noteq> None) \<Longrightarrow>
   map it_message_id (fst (merge_rows account msgs rows seen)) = map mi_message_id rows"
proof (induction rows arbitrary: seen)
  case (Cons idx rows)
  obtain msg where m: "by_id msgs (mi_message_id idx) = Some msg" using Cons.prems(3)[of idx] by auto
  note id = by_id_Some[OF m]
  show ?case
  proof (cases "mi_message_id idx = 0")
    case True
    then show ?thesis using m id Cons.IH[of seen] Cons.prems by (simp add: split_beta)
  next
    case False
    obtain seen' where o: "observe (mi_message_id idx) seen = (True, seen')"
      using observe_fresh[of "mi_message_id idx" seen] Cons.prems(2) by (cases "observe (mi_message_id idx) seen") auto
    have "set (ss_seen seen') \<subseteq> insert (mi_message_id idx) (set (ss_seen seen))"
      using observe_seen[of "mi_message_id idx" seen] o by simp
    moreover have "mi_message_id idx \<notin> set (map mi_message_id rows)" "set (map mi_message_id rows) \<inter> set (ss_seen seen) = {}"
      using Cons.prems(1,2) by simp_all
    ultimately have "set (map mi_message_id rows) \<inter> set (ss_seen seen') = {}" by blast
    then show ?thesis using False m id o Cons.IH[of seen'] Cons.prems by (simp add: split_beta)
  qed
qed simp

section \<open>Durable before acknowledged\<close>

text \<open>What precedes an acknowledgement of \<open>ids\<close>: the page was fetched and merged, and its new talks were stored by the
  hook or confirmed by the application.\<close>

definition secured_by :: "'s sync_env \<Rightarrow> int list \<Rightarrow> IncomingTalk list \<Rightarrow> sync_act list \<Rightarrow> bool" where
  "secured_by env ids talks secured \<longleftrightarrow>
     (if sy_hook env then secured = (if talks = [] then [] else [Persisted talks])
      else if talks \<noteq> [] \<and> max_id ids > 0
        then \<exists>calls. secured = [Emitted (max_id ids) talks, Confirmed (max_id ids) calls] \<and> max_id ids \<le> gate_value calls
      else secured = [])"

definition durable_page :: "'s sync_env \<Rightarrow> sync_act list \<Rightarrow> int list \<Rightarrow> bool" where
  "durable_page env pre ids \<longleftrightarrow>
     (\<exists>rest indexes msgs seen talks secured.
        pre = rest @ Fetched indexes msgs seen talks # secured
        \<and> ids = take SYNC_PAGE (map mi_message_id indexes)
        \<and> talks = fst (merge_offline (sy_account env) indexes msgs seen)
        \<and> secured_by env ids talks secured)"

definition trace_ok :: "'s sync_env \<Rightarrow> sync_act list \<Rightarrow> bool" where
  "trace_ok env acts \<longleftrightarrow> (\<forall>pre ids post. acts = pre @ Acked ids # post \<longrightarrow> durable_page env pre ids)"

lemma durable_page_append: "durable_page env pre ids \<Longrightarrow> durable_page env (a @ pre) ids"
  unfolding durable_page_def by (metis append_assoc)

lemma trace_okI: "(\<And>pre ids post. acts = pre @ Acked ids # post \<Longrightarrow> durable_page env pre ids) \<Longrightarrow> trace_ok env acts"
  by (simp add: trace_ok_def)

lemma trace_okD: "trace_ok env acts \<Longrightarrow> acts = pre @ Acked ids # post \<Longrightarrow> durable_page env pre ids"
  by (simp add: trace_ok_def)

lemma trace_ok_append:
  assumes "trace_ok env a" "trace_ok env b"
  shows "trace_ok env (a @ b)"
proof (rule trace_okI)
  fix pre ids post assume "a @ b = pre @ Acked ids # post"
  then obtain us where "a = pre @ us \<and> us @ b = Acked ids # post \<or> a @ us = pre \<and> b = us @ Acked ids # post"
    using append_eq_append_conv2[of a b pre "Acked ids # post"] by auto
  then consider (left) us' where "a = pre @ Acked ids # us'" | (right) us where "pre = a @ us" "b = us @ Acked ids # post"
    by (cases us) auto
  then show "durable_page env pre ids"
  proof cases
    case left
    then show ?thesis by (rule trace_okD[OF assms(1)])
  next
    case right
    then show ?thesis using durable_page_append[OF trace_okD[OF assms(2) right(2)]] by simp
  qed
qed

lemma trace_ok_silent:
  assumes "\<And>ids. Acked ids \<notin> set acts"
  shows "trace_ok env acts"
proof (rule trace_okI)
  fix pre ids post assume "acts = pre @ Acked ids # post"
  then have "Acked ids \<in> set acts" by simp
  then show "durable_page env pre ids" using assms by blast
qed

lemma trace_ok_page:
  assumes "\<And>ids'. Acked ids' \<notin> set acts" "durable_page env acts ids"
  shows "trace_ok env (acts @ [Acked ids])"
proof (rule trace_okI)
  fix pre ids' post assume e: "acts @ [Acked ids] = pre @ Acked ids' # post"
  show "durable_page env pre ids'"
  proof (cases post rule: rev_cases)
    case Nil
    then show ?thesis using e assms(2) by simp
  next
    case (snoc ys y)
    then have "acts = pre @ Acked ids' # ys" using e by simp
    then have "Acked ids' \<in> set acts" by simp
    then show ?thesis using assms(1) by blast
  qed
qed

lemma wait_confirm_once_Ok:
  assumes "wait_confirm_once env needed s = ((Ok u, acts), s')"
  shows "\<exists>calls. acts = [Confirmed needed calls] \<and> needed \<le> gate_value calls"
  using assms by (auto simp: wait_confirm_once_def find_Some_iff split: prod.splits option.splits)

lemma wait_confirm_Ok:
  assumes "wait_confirm env needed talks s = ((Ok u, acts), s')" "needed > 0"
  shows "\<exists>calls. acts = [Confirmed needed calls] \<and> needed \<le> gate_value calls"
  using assms
  by (auto simp: wait_confirm_def split: if_splits option.splits prod.splits sum.splits dest: wait_confirm_once_Ok)

lemma wait_confirm_acts:
  assumes "wait_confirm env needed talks s = ((r, acts), s')"
  shows "Acked ids \<notin> set acts"
  using assms
  by (auto simp: wait_confirm_def wait_confirm_once_def split: if_splits option.splits prod.splits sum.splits)

text \<open>A positive value of the gate is a cursor of the application.\<close>

lemma gate_value_from: "gate_value calls = 0 \<or> gate_value calls \<in> set calls"
proof -
  have "foldl (\<lambda>cur cursor. gate_confirm cursor cur) v calls = v \<or> foldl (\<lambda>cur cursor. gate_confirm cursor cur) v calls \<in> set calls" for v
    by (induction calls arbitrary: v) (auto simp: gate_confirm_def)
  then show ?thesis by (simp add: gate_value_def ConfirmGate_new_def)
qed

lemma secure_page_acts:
  assumes "secure_page env ids talks s = ((e, acts), s')"
  shows "\<And>ids'. Acked ids' \<notin> set acts"
    "e = None \<Longrightarrow> secured_by env ids talks acts"
proof -
  show "Acked ids' \<notin> set acts" for ids'
    using assms
    by (auto simp: secure_page_def split: if_splits prod.splits sum.splits bool.splits dest: wait_confirm_acts)
  show "secured_by env ids talks acts" if "e = None"
    using assms that
    by (auto simp: secure_page_def secured_by_def split: if_splits prod.splits sum.splits bool.splits dest: wait_confirm_Ok)
qed

lemma sync_page_trace:
  assumes "sync_page env pulled s = (e, acts, s')"
  shows "trace_ok env acts"
proof (cases "sy_index env s")
  case (Pair ri s1)
  show ?thesis
  proof (cases "\<exists>indexes. ri = Inr indexes \<and> indexes \<noteq> []")
    case False
    then show ?thesis using Pair assms by (auto simp: sync_page_def split: sum.splits intro!: trace_ok_silent)
  next
    case True
    then obtain indexes where i: "ri = Inr indexes" "indexes \<noteq> []" by auto
    define ids where "ids = take SYNC_PAGE (map mi_message_id indexes)"
    obtain rc s2 where c: "sy_content env ids s1 = (rc, s2)" by fastforce
    show ?thesis
    proof (cases rc)
      case (Inl e)
      then show ?thesis using Pair i c assms by (auto simp: sync_page_def ids_def Let_def intro!: trace_ok_silent)
    next
      case (Inr msgs)
      define old where "old = sy_seen env s2"
      obtain talks seen where m: "merge_offline (sy_account env) indexes msgs old = (talks, seen)" by fastforce
      obtain e' acts' s3 where q: "secure_page env ids talks (sy_set_seen env seen s2) = ((e', acts'), s3)"
        by (metis surj_pair)
      have silent: "Acked ids' \<notin> set (Fetched indexes msgs old talks # acts')" for ids' using secure_page_acts(1)[OF q] by auto
      have "acts = Fetched indexes msgs old talks # acts' \<or> e' = None \<and> acts = (Fetched indexes msgs old talks # acts') @ [Acked ids]"
        using Pair i c Inr m q assms
        by (auto simp: sync_page_def ids_def old_def Let_def split: option.splits page_end.splits sum.splits prod.splits)
      then show ?thesis
      proof (elim disjE conjE)
        assume "acts = Fetched indexes msgs old talks # acts'"
        then show ?thesis using silent by (intro trace_ok_silent) simp
      next
        assume e: "e' = None" and a: "acts = (Fetched indexes msgs old talks # acts') @ [Acked ids]"
        have "durable_page env (Fetched indexes msgs old talks # acts') ids"
          unfolding durable_page_def
          by (rule exI[of _ "[]"], rule exI[of _ indexes], rule exI[of _ msgs], rule exI[of _ old], rule exI[of _ talks], rule exI[of _ acts'])
            (use secure_page_acts(2)[OF q e] m in \<open>simp add: ids_def\<close>)
        then show ?thesis unfolding a by (intro trace_ok_page silent)
      qed
    qed
  qed
qed

lemma sync_loop_trace:
  assumes "sync_loop env pulled s = Some q"
  shows "trace_ok env (fst (snd q))"
proof (rule sync_loop.raw_induct[where P = "\<lambda>env pulled s q. trace_ok env (fst (snd q))", OF _ assms])
  fix f and env :: "'a sync_env" and pulled s q
  assume IH: "\<And>env pulled s q. f env pulled s = Some q \<Longrightarrow> trace_ok env (fst (snd q))"
    and body: "(let p = sync_page env pulled s in case fst p of Stop r \<Rightarrow> Some (r, snd p)
      | Again n \<Rightarrow> Option.bind (f env n (snd (snd p))) (\<lambda>q. Some (fst q, fst (snd p) @ fst (snd q), snd (snd q)))) = Some q"
  obtain e acts s1 where p: "sync_page env pulled s = (e, acts, s1)" by (metis prod_cases3)
  note t = sync_page_trace[OF p]
  show "trace_ok env (fst (snd q))"
  proof (cases e)
    case (Stop r)
    then show ?thesis using body p t by auto
  next
    case (Again n)
    then obtain q' where "f env n s1 = Some q'" "q = (fst q', acts @ fst (snd q'), snd (snd q'))"
      using body p by (auto simp: bind_eq_Some_conv)
    then show ?thesis using trace_ok_append[OF t IH] by simp
  qed
qed

text \<open>C17: Messages are durable before they are acknowledged. Whatever the server, the application and the persistence do,
  when the catch-up acknowledges a page, every message of the page whose content came had been seen earlier in the same
  connection or is one of the page's new talks, and these were secured before the acknowledgement: with a hook, it stored
  them; without one, they were handed to the application, and the engine then saw a gate value of at least the highest
  identifier of the page, which is a cursor that the application passed to \<open>sync_confirm\<close>. (The gate keeps the
  greatest cursor, so one cursor releases every page below it.)\<close>

theorem acked_after_durable:
  assumes "sync_run env s = Some (r, acts, s')" "acts = pre @ Acked ids # post"
  shows "\<exists>rest indexes msgs seen talks secured.
    pre = rest @ Fetched indexes msgs seen talks # secured \<and> ids = take SYNC_PAGE (map mi_message_id indexes)
    \<and> (\<forall>idx \<in> set (take SYNC_PAGE indexes). by_id msgs (mi_message_id idx) \<noteq> None \<longrightarrow>
         mi_message_id idx \<in> set (ss_seen seen) \<or> mi_message_id idx \<in> it_message_id ` set talks)
    \<and> (talks \<noteq> [] \<longrightarrow> (if sy_hook env then secured = [Persisted talks]
         else max_id ids > 0 \<longrightarrow>
           (\<exists>calls cursor. secured = [Emitted (max_id ids) talks, Confirmed (max_id ids) calls]
              \<and> cursor \<in> set calls \<and> max_id ids \<le> cursor)))"
proof -
  have "trace_ok env acts"
    using assms(1) sync_loop_trace[of env 0 _ "(r, acts, s')"]
    by (auto simp: sync_run_def split: prod.splits sum.splits bool.splits intro!: trace_ok_silent)
  from trace_okD[OF this assms(2)] obtain rest indexes msgs seen talks secured where
    d: "pre = rest @ Fetched indexes msgs seen talks # secured" "ids = take SYNC_PAGE (map mi_message_id indexes)"
      "talks = fst (merge_offline (sy_account env) indexes msgs seen)" "secured_by env ids talks secured"
    unfolding durable_page_def by (elim exE conjE)
  have "\<forall>idx \<in> set (take SYNC_PAGE indexes). by_id msgs (mi_message_id idx) \<noteq> None \<longrightarrow>
      mi_message_id idx \<in> set (ss_seen seen) \<or> mi_message_id idx \<in> it_message_id ` set talks"
    using merge_rows_covers[of "sy_account env" msgs "take SYNC_PAGE indexes" seen] unfolding d(3) merge_offline_def by blast
  moreover have "\<exists>calls cursor. secured = [Emitted (max_id ids) talks, Confirmed (max_id ids) calls]
      \<and> cursor \<in> set calls \<and> max_id ids \<le> cursor" if t: "talks \<noteq> []" "\<not> sy_hook env" "max_id ids > 0"
  proof -
    obtain calls where c: "secured = [Emitted (max_id ids) talks, Confirmed (max_id ids) calls]" "max_id ids \<le> gate_value calls"
      using d(4) t by (auto simp: secured_by_def)
    then have "gate_value calls \<in> set calls" using gate_value_from[of calls] t(3) by auto
    then show ?thesis using c by blast
  qed
  moreover have "sy_hook env \<Longrightarrow> talks \<noteq> [] \<Longrightarrow> secured = [Persisted talks]" using d(4) by (simp add: secured_by_def)
  ultimately show ?thesis using d(1,2) by (intro exI[of _ rest] exI[of _ indexes] exI[of _ msgs] exI[of _ seen] exI[of _ talks] exI[of _ secured]) simp
qed

section \<open>Against a server\<close>

text \<open>What the catch-up needs of the server: a first page of the pending messages in their order, the contents of
  pending messages, and that an acknowledgement takes exactly its messages off.\<close>

locale offline_server =
  fixes page_of :: "'s \<Rightarrow> MessageIndexRow list"
    and contents_of :: "int list \<Rightarrow> 's \<Rightarrow> MessageContentRow list"
    and ack_of :: "int list \<Rightarrow> 's \<Rightarrow> 's"
    and pend :: "'s \<Rightarrow> int list"
    and good :: "'s \<Rightarrow> bool"
  assumes index: "good s \<Longrightarrow> map mi_message_id (page_of s) = take SYNC_PAGE (pend s)"
    and content: "good s \<Longrightarrow> set ids \<subseteq> set (pend s) \<Longrightarrow> i \<in> set ids \<Longrightarrow> by_id (contents_of ids s) i \<noteq> None"
    and ack: "good s \<Longrightarrow> set ids \<subseteq> set (pend s) \<Longrightarrow> pend (ack_of ids s) = filter (\<lambda>i. i \<notin> set ids) (pend s)"
    and keep: "good s \<Longrightarrow> set ids \<subseteq> set (pend s) \<Longrightarrow> good (ack_of ids s)"
    and pend_distinct: "good s \<Longrightarrow> distinct (pend s)"

text \<open>The catch-up with such a server and a hook that stores every page: the state is the server's, what was stored,
  and the seen set.\<close>

definition closed_sync ::
  "string \<Rightarrow> ('s \<Rightarrow> MessageIndexRow list) \<Rightarrow> (int list \<Rightarrow> 's \<Rightarrow> MessageContentRow list) \<Rightarrow> (int list \<Rightarrow> 's \<Rightarrow> 's)
   \<Rightarrow> ('s \<times> IncomingTalk list \<times> SeenSet) sync_env" where
  "closed_sync account page_of contents_of ack_of =
     \<lparr>sy_hook = True, sy_account = account, sy_inbox = (\<lambda>_ s. (Ok [], s)),
      sy_index = (\<lambda>(s, x). (Ok (page_of s), s, x)),
      sy_content = (\<lambda>ids (s, x). (Ok (contents_of ids s), s, x)),
      sy_ack = (\<lambda>ids (s, x). (Ok (), ack_of ids s, x)),
      sy_begin_inbox = (\<lambda>s. (Ok 0, s)), sy_persist_inbox = (\<lambda>_ _ s. (Ok (), s)), sy_finish_inbox = (\<lambda>_ s. s),
      sy_persist = (\<lambda>talks (s, stored, seen). (Ok (), s, stored @ talks, seen)),
      sy_emit = (\<lambda>_ _ s. (True, s)), sy_dead = (\<lambda>_. None), sy_watch = (\<lambda>s. ([], TimedOut, s)),
      sy_seen = (\<lambda>(s, stored, seen). seen), sy_set_seen = (\<lambda>seen (s, stored, _). (s, stored, seen))\<rparr>"

lemma filter_not_taken:
  assumes "distinct xs"
  shows "filter (\<lambda>i. i \<notin> set (take n xs)) xs = drop n xs"
proof -
  have "distinct (map snd (map (Pair ()) xs))" using assms by (simp add: comp_def)
  from arg_cong[OF filter_take_drop[OF this, of n], of "map snd"] show ?thesis
    by (simp add: filter_map comp_def take_map drop_map)
qed

context offline_server
begin

lemma page_step:
  assumes "good s" "pend s \<noteq> []" "set (ss_seen seen) \<inter> set (pend s) = {}"
  shows "\<exists>e acts talks seen'. sync_page (closed_sync account page_of contents_of ack_of) pulled (s, stored, seen)
      = (e, acts, ack_of (take SYNC_PAGE (pend s)) s, stored @ talks, seen')
    \<and> map it_message_id talks = take SYNC_PAGE (pend s)
    \<and> set (ss_seen seen') \<subseteq> set (ss_seen seen) \<union> set (take SYNC_PAGE (pend s))
    \<and> e = (if length (pend s) < SYNC_PAGE then Stop (Ok (pulled + length talks)) else Again (pulled + length talks))"
proof -
  define ids where "ids = take SYNC_PAGE (pend s)"
  have ids: "map mi_message_id (page_of s) = ids" using index[OF assms(1)] by (simp add: ids_def)
  have sub: "set ids \<subseteq> set (pend s)" unfolding ids_def by (rule set_take_subset)
  have d: "distinct ids" using pend_distinct[OF assms(1)] by (simp add: ids_def)
  have len: "length (page_of s) = length ids" using arg_cong[OF ids, of length] by simp
  have small: "length ids \<le> SYNC_PAGE" by (simp add: ids_def)
  have ne: "ids \<noteq> []" using assms(2) by (simp add: ids_def SYNC_PAGE_def)
  then have ine: "page_of s \<noteq> []" using ids by auto
  obtain talks seen' where m: "merge_rows account (contents_of ids s) (page_of s) seen = (talks, seen')" by fastforce
  have has: "by_id (contents_of ids s) (mi_message_id idx) \<noteq> None" if "idx \<in> set (page_of s)" for idx
    using content[OF assms(1) sub] that ids by (metis image_eqI set_map)
  have t: "map it_message_id talks = ids"
    using merge_rows_fresh[of "page_of s" seen "contents_of ids s" account] d has sub assms(3) m unfolding ids by auto
  have tne: "talks \<noteq> []" using t ne by auto
  have seen': "set (ss_seen seen') \<subseteq> set (ss_seen seen) \<union> set ids"
    using merge_rows_covers[of account "contents_of ids s" "page_of s" seen] m t by (metis fst_conv set_map snd_conv)
  have tk: "take SYNC_PAGE (page_of s) = page_of s" "take SYNC_PAGE ids = ids" using len small by simp_all
  have short: "length (page_of s) < SYNC_PAGE \<longleftrightarrow> length (pend s) < SYNC_PAGE" by (auto simp: len ids_def min_def)
  have "sync_page (closed_sync account page_of contents_of ack_of) pulled (s, stored, seen)
      = (if length (pend s) < SYNC_PAGE then Stop (Ok (pulled + length talks)) else Again (pulled + length talks),
         Fetched (page_of s) (contents_of ids s) seen talks # [Persisted talks] @ [Acked ids], ack_of ids s, stored @ talks, seen')"
    using ine tne ne m by (simp add: sync_page_def closed_sync_def ids tk short merge_offline_def secure_page_def ack_batch_def Let_def)
  then show ?thesis using t seen' unfolding ids_def by blast
qed

lemma catch_up:
  assumes "good s" "set (ss_seen seen) \<inter> set (pend s) = {}"
  shows "\<exists>n acts s' stored' seen'. sync_loop (closed_sync account page_of contents_of ack_of) pulled (s, stored, seen)
      = Some (Ok n, acts, s', stored @ stored', seen')
    \<and> map it_message_id stored' = pend s \<and> pend s' = [] \<and> good s' \<and> n = pulled + length (pend s)"
  using assms
proof (induction "length (pend s)" arbitrary: s pulled stored seen rule: less_induct)
  case less
  let ?env = "closed_sync account page_of contents_of ack_of"
  show ?case
  proof (cases "pend s = []")
    case True
    then have "page_of s = []" using index[OF less.prems(1)] by simp
    then have "sync_page ?env pulled (s, stored, seen) = (Stop (Ok pulled), [], s, stored, seen)"
      by (simp add: sync_page_def closed_sync_def)
    then show ?thesis using True less.prems(1) by (subst sync_loop.simps) (simp add: exI[of _ "[]"])
  next
    case False
    let ?ids = "take SYNC_PAGE (pend s)" and ?s = "ack_of (take SYNC_PAGE (pend s)) s"
    have sub: "set ?ids \<subseteq> set (pend s)" by (rule set_take_subset)
    have rest: "pend ?s = drop SYNC_PAGE (pend s)"
      using ack[OF less.prems(1) sub] filter_not_taken[OF pend_distinct[OF less.prems(1)], of SYNC_PAGE] by simp
    have g: "good ?s" by (rule keep[OF less.prems(1) sub])
    obtain e acts talks seen' where p: "sync_page ?env pulled (s, stored, seen) = (e, acts, ?s, stored @ talks, seen')"
      "map it_message_id talks = ?ids" "set (ss_seen seen') \<subseteq> set (ss_seen seen) \<union> set ?ids"
      "e = (if length (pend s) < SYNC_PAGE then Stop (Ok (pulled + length talks)) else Again (pulled + length talks))"
      using page_step[OF less.prems(1) False less.prems(2), of account pulled stored] by (elim exE conjE)
    have lt: "length talks = length ?ids" using arg_cong[OF p(2), of length] by simp
    show ?thesis
    proof (cases "length (pend s) < SYNC_PAGE")
      case True
      then have "?ids = pend s" "pend ?s = []" using rest by simp_all
      then show ?thesis using p lt g True by (subst sync_loop.simps) simp
    next
      case long: False
      have short: "length (pend ?s) < length (pend s)" using rest False by (simp add: SYNC_PAGE_def)
      have "set ?ids \<inter> set (drop SYNC_PAGE (pend s)) = {}"
        using pend_distinct[OF less.prems(1)] by (metis append_take_drop_id distinct_append)
      then have "set (ss_seen seen') \<inter> set (pend ?s) = {}"
        using p(3) less.prems(2) set_drop_subset[of SYNC_PAGE "pend s"] unfolding rest by blast
      from less.hyps[OF short g this, of "pulled + length talks" "stored @ talks"]
      obtain n acts2 s' stored' seen2 where q:
        "sync_loop ?env (pulled + length talks) (?s, stored @ talks, seen') = Some (Ok n, acts2, s', (stored @ talks) @ stored', seen2)"
        "map it_message_id stored' = pend ?s" "pend s' = []" "good s'" "n = pulled + length talks + length (pend ?s)"
        by (elim exE conjE)
      have "sync_loop ?env pulled (s, stored, seen) = Some (Ok n, acts @ acts2, s', stored @ (talks @ stored'), seen2)"
        using p(1,4) q(1) long by (subst sync_loop.simps) simp
      moreover have "map it_message_id (talks @ stored') = pend s" using p(2) q(2) rest by simp
      moreover have "n = pulled + length (pend s)" using q(5) lt rest by simp
      ultimately show ?thesis using q(3,4) by blast
    qed
  qed
qed

end

section \<open>Against the message store\<close>

text \<open>The operations behind the handlers of the chat service (\<open>offline.rs\<close>, \<open>ack.rs\<close>) for one device, while its clock
  stands still.\<close>

definition store_page :: "nat \<Rightarrow> int \<Rightarrow> string \<Rightarrow> string \<Rightarrow> string \<Rightarrow> MemoryMessageStore \<Rightarrow> MessageIndexRow list" where
  "store_page now unow app a tid m = fst (fst (offline_index now unow app a tid 0 True m))"

definition store_contents :: "string \<Rightarrow> string \<Rightarrow> int list \<Rightarrow> MemoryMessageStore \<Rightarrow> MessageContentRow list" where
  "store_contents app a ids m = offline_content app a ids (mm_inner m)"

definition store_acked :: "nat \<Rightarrow> string \<Rightarrow> string \<Rightarrow> string \<Rightarrow> int list \<Rightarrow> MemoryMessageStore \<Rightarrow> MemoryMessageStore" where
  "store_acked now app a tid ids m = snd (snd (store_ack now app a tid (collect_ack_ids 0 ids) m))"

definition store_pending :: "nat \<Rightarrow> string \<Rightarrow> string \<Rightarrow> string \<Rightarrow> MemoryMessageStore \<Rightarrow> int list" where
  "store_pending now app a tid m = map snd (sort (pending_keys now app a tid (mm_inner m)))"

definition receipt_store :: "nat \<Rightarrow> string \<Rightarrow> string \<Rightarrow> string \<Rightarrow> MemoryMessageStore \<Rightarrow> bool" where
  "receipt_store now app a tid m \<longleftrightarrow> store_ok (mm_inner m) \<and> mm_pending_receipt m \<and> tid \<noteq> []
     \<and> no_ghosts app a tid (mm_inner m) \<and> 0 \<notin> set (store_pending now app a tid m)"

lemma set_store_pending: "set (store_pending now app a tid m) = snd ` set (pending_keys now app a tid (mm_inner m))"
  by (simp add: store_pending_def)

lemma set_collect_ack_ids: "set (collect_ack_ids 0 ids) = set ids - {0}"
  by (auto simp: collect_ack_ids_def Let_def set_dedup_loop)

lemma receipt_store_hwf: "receipt_store now app a tid m \<Longrightarrow> hwf (in_pending (mm_inner m))"
  by (simp add: receipt_store_def store_ok_hwf_pending)

lemma store_content_present:
  assumes g: "receipt_store now app a tid m" and i: "i \<in> set ids" "i \<in> set (store_pending now app a tid m)"
  shows "by_id (store_contents app a ids m) i \<noteq> None"
proof -
  obtain log where inv: "store_inv (mm_inner m) log" using g by (auto simp: receipt_store_def store_ok_def)
  have "i \<in> ir_message_id ` set (account_rows app a (mm_inner m))"
    using i(2) g no_ghosts_pending[of app a tid "mm_inner m"] unfolding set_store_pending by (auto simp: receipt_store_def)
  then obtain r where r: "r \<in> set (account_rows app a (mm_inner m))" "ir_message_id r = i" by auto
  have log: "r \<in> set log" "ir_app r = app" using r(1) store_invD(1)[OF inv] by (auto simp: idx_sim_def)
  then obtain c where c: "hget (in_contents (mm_inner m)) i = Some c" using store_invD(2)[OF inv] r(2) by blast
  have "sm_message_id c = i" "content_rows c (msg_rows i (mm_inner m))" using store_invD(3)[OF inv c] by auto
  moreover have "r \<in> set (msg_rows i (mm_inner m))" using store_invD(1)[OF inv] log(1) r(2) by (simp add: idx_sim_def)
  ultimately have "sm_app c = app"
    using log(2) by (auto simp: content_rows_def user_rows_def group_row_def Let_def split: MessageKind.splits)
  moreover have "list_ex (\<lambda>r. ir_message_id r = i) (account_rows app a (mm_inner m))" using r by (auto simp: list_ex_iff)
  ultimately have "\<lparr>mc_message_id = sm_message_id c, mc_msg_type = sm_msg_type c, mc_body = sm_body c, mc_extra = sm_extra c\<rparr>
      \<in> set (store_contents app a ids m)"
    using c i(1) unfolding store_contents_def offline_content_def set_map_filter by (intro CollectI bexI[of _ i]) simp_all
  moreover have "mc_message_id \<lparr>mc_message_id = sm_message_id c, mc_msg_type = sm_msg_type c, mc_body = sm_body c, mc_extra = sm_extra c\<rparr> = i"
    using \<open>sm_message_id c = i\<close> by simp
  ultimately have "\<exists>x \<in> set (store_contents app a ids m). mc_message_id x = i" by blast
  then show ?thesis by (auto simp: by_id_def find_None_iff)
qed

lemma store_acked_pending:
  assumes "receipt_store now app a tid m" "set ids \<subseteq> set (store_pending now app a tid m)"
  shows "store_pending now app a tid (store_acked now app a tid ids m) = filter (\<lambda>i. i \<notin> set ids) (store_pending now app a tid m)"
proof -
  have "0 \<notin> set ids" using assms by (auto simp: receipt_store_def)
  then have "set (collect_ack_ids 0 ids) = set ids" by (simp add: set_collect_ack_ids)
  then show ?thesis
    using pending_after_ack[OF receipt_store_hwf[OF assms(1)], of tid now app a now "collect_ack_ids 0 ids"] assms(1)
    by (simp add: store_pending_def store_acked_def receipt_store_def filter_sort[symmetric] filter_map comp_def case_prod_beta')
qed

interpretation store_sync: offline_server "store_page now unow app a tid" "store_contents app a" "store_acked now app a tid"
  "store_pending now app a tid" "receipt_store now app a tid" for now unow app a tid
proof
  fix m :: MemoryMessageStore and ids i
  assume g: "receipt_store now app a tid m"
  then show "map mi_message_id (store_page now unow app a tid m) = take SYNC_PAGE (store_pending now app a tid m)"
    using page_ids(1)[of m tid app a now unow]
    by (simp add: receipt_store_def store_page_def store_pending_def SYNC_PAGE_def MESSAGE_MAX_COUNT_PER_PAGE_def take_map)
  have "distinct (map snd (pending_keys now app a tid (mm_inner m)))" by (rule pending_keys_distinct[OF receipt_store_hwf[OF g]])
  then show "distinct (store_pending now app a tid m)"
    unfolding store_pending_def by (metis mset_eq_imp_distinct_iff mset_map mset_sort)
  assume s: "set ids \<subseteq> set (store_pending now app a tid m)"
  show "store_pending now app a tid (store_acked now app a tid ids m) = filter (\<lambda>i. i \<notin> set ids) (store_pending now app a tid m)"
    by (rule store_acked_pending[OF g s])
  then have "0 \<notin> set (store_pending now app a tid (store_acked now app a tid ids m))" using g by (simp add: receipt_store_def)
  then show "receipt_store now app a tid (store_acked now app a tid ids m)"
    using g store_ack_keeps(1,4)[where m = m and tid = tid and now = now and app = app and a = a and ids = "collect_ack_ids 0 ids"] store_ok_ack[of m now app a tid "collect_ack_ids 0 ids"]
      receipt_store_hwf[OF g]
    by (simp add: receipt_store_def store_acked_def)
  assume "i \<in> set ids"
  then show "by_id (store_contents app a ids m) i \<noteq> None" using store_content_present[OF g] s by blast
qed

text \<open>C16: With delivery receipts, a reconnecting device gets every message it missed, once and in order, and then has
  none pending. For a store that keeps delivery receipts (\<open>KIM_PENDING_RECEIPT\<close>, off by default), a device that names
  itself, and delivery records that each belong to a message in the account's index, the catch-up of a client whose calls
  all succeed ends, whatever the number of pending messages; what it stored are exactly the pending messages of the
  device, in the order of their delivery records; afterwards the store has nothing pending for the device. Without
  receipts this fails: see \<open>batch_ack_without_receipts\<close>.\<close>

theorem catch_up_complete:
  assumes "receipt_store now app a tid m"
  shows "\<exists>acts m' stored seen.
    sync_run (closed_sync a (store_page now unow app a tid) (store_contents app a) (store_acked now app a tid)) (m, [], SeenSet_new)
      = Some (Ok (length (pending_keys now app a tid (mm_inner m))), acts, m', stored, seen)
    \<and> map it_message_id stored = map snd (sort (pending_keys now app a tid (mm_inner m)))
    \<and> pending_keys now app a tid (mm_inner m') = []"
proof -
  let ?env = "closed_sync a (store_page now unow app a tid) (store_contents app a) (store_acked now app a tid)"
  have "set (ss_seen SeenSet_new) \<inter> set (store_pending now app a tid m) = {}" by (simp add: SeenSet_new_def)
  from store_sync.catch_up[OF assms this, where account = a and pulled = 0 and stored = "[]" and unow = unow]
  obtain n acts m' stored seen where q: "sync_loop ?env 0 (m, [], SeenSet_new) = Some (Ok n, acts, m', [] @ stored, seen)"
    "map it_message_id stored = store_pending now app a tid m" "store_pending now app a tid m' = []"
    "n = 0 + length (store_pending now app a tid m)"
    by (elim exE conjE)
  have "sync_run ?env (m, [], SeenSet_new) = sync_loop ?env 0 (m, [], SeenSet_new)"
    by (simp add: sync_run_def closed_sync_def sync_inbox_def)
  moreover have "pending_keys now app a tid (mm_inner m') = []" using arg_cong[OF q(3), of length] by (simp add: store_pending_def)
  ultimately show ?thesis using q by (auto simp: store_pending_def)
qed

theorem catch_up_complete_witness:
  "\<exists>acts m' stored seen.
     sync_run (closed_sync ''bob'' (store_page 10 0 ''kim'' ''bob'' ''d1'') (store_contents ''kim'' ''bob'') (store_acked 10 ''kim'' ''bob'' ''d1''))
       (demo_pending, [], SeenSet_new) = Some (Ok 1, acts, m', stored, seen)
     \<and> map it_message_id stored = [100] \<and> pending_keys 10 ''kim'' ''bob'' ''d1'' (mm_inner m') = []"
proof -
  have k: "pending_keys 10 ''kim'' ''bob'' ''d1'' (mm_inner demo_pending) = [(5, 100)]"
    by (simp add: pending_keys_def demo_pending_def)
  have "store_ok demo_sent" using msg_reach_ok[OF demo_sent_reach] by simp
  then have "store_ok (mm_inner demo_pending)" unfolding demo_pending_def by (simp add: store_ok_pending)
  moreover have "no_ghosts ''kim'' ''bob'' ''d1'' (mm_inner demo_pending)"
    by (simp add: no_ghosts_def demo_pending_def demo_sent_eq account_rows_def)
  ultimately have "receipt_store 10 ''kim'' ''bob'' ''d1'' demo_pending"
    using k by (simp add: receipt_store_def store_pending_def) (simp add: demo_pending_def)
  from catch_up_complete[OF this, of 0] show ?thesis unfolding k by simp
qed

text \<open>A page of one message that the application confirms.\<close>

definition demo_row :: MessageIndexRow where
  "demo_row = \<lparr>mi_message_id = 9, mi_direction = 0, mi_send_time = 1, mi_account_b = ''bob'', mi_group = []\<rparr>"

definition demo_msg :: MessageContentRow where
  "demo_msg = \<lparr>mc_message_id = 9, mc_msg_type = 1, mc_body = ''hi'', mc_extra = []\<rparr>"

definition demo_sync :: "SeenSet sync_env" where
  "demo_sync = \<lparr>sy_hook = False, sy_account = ''alice'', sy_inbox = (\<lambda>_ s. (Ok [], s)), sy_index = (\<lambda>s. (Ok [demo_row], s)),
     sy_content = (\<lambda>_ s. (Ok [demo_msg], s)), sy_ack = (\<lambda>_ s. (Ok (), s)), sy_begin_inbox = (\<lambda>s. (Ok 0, s)),
     sy_persist_inbox = (\<lambda>_ _ s. (Ok (), s)), sy_finish_inbox = (\<lambda>_ s. s), sy_persist = (\<lambda>_ s. (Ok (), s)), sy_emit = (\<lambda>_ _ s. (True, s)),
     sy_dead = (\<lambda>_. None), sy_watch = (\<lambda>s. ([[], [3], [3, 9]], TimedOut, s)), sy_seen = (\<lambda>s. s), sy_set_seen = (\<lambda>seen _. seen)\<rparr>"

definition demo_missed :: IncomingTalk where
  "demo_missed = talk_from_offline ''alice'' demo_row demo_msg"

lemma demo_sync_run:
  "sync_run demo_sync SeenSet_new = Some (Ok 1, [Fetched [demo_row] [demo_msg] SeenSet_new [demo_missed], Emitted 9 [demo_missed], Confirmed 9 [3, 9], Acked [9]],
     \<lparr>ss_seen = [9], ss_order = [9]\<rparr>)"
proof -
  have o: "observe 9 SeenSet_new = (True, \<lparr>ss_seen = [9], ss_order = [9]\<rparr>)"
    by (simp add: observe_def SeenSet_new_def evict.simps SEEN_CAP_def)
  have i: "mi_message_id demo_row = 9" by (simp add: demo_row_def)
  have m: "merge_offline ''alice'' [demo_row] [demo_msg] SeenSet_new = ([demo_missed], \<lparr>ss_seen = [9], ss_order = [9]\<rparr>)"
    using o by (simp add: merge_offline_def SYNC_PAGE_def by_id_def demo_missed_def) (simp add: demo_row_def demo_msg_def)
  have "sync_page demo_sync 0 SeenSet_new = (Stop (Ok 1),
      [Fetched [demo_row] [demo_msg] SeenSet_new [demo_missed], Emitted 9 [demo_missed], Confirmed 9 [3, 9], Acked [9]], \<lparr>ss_seen = [9], ss_order = [9]\<rparr>)"
    using m by (simp add: sync_page_def demo_sync_def secure_page_def wait_confirm_def wait_confirm_once_def gate_value_def gate_confirm_def ConfirmGate_new_def ack_batch_def max_id_def SYNC_PAGE_def i Let_def)
  then have l: "sync_loop demo_sync 0 SeenSet_new = Some (Ok 1,
      [Fetched [demo_row] [demo_msg] SeenSet_new [demo_missed], Emitted 9 [demo_missed], Confirmed 9 [3, 9], Acked [9]], \<lparr>ss_seen = [9], ss_order = [9]\<rparr>)"
    by (subst sync_loop.simps) simp
  have "sync_run demo_sync SeenSet_new = sync_loop demo_sync 0 SeenSet_new" by (simp add: sync_run_def sync_inbox_def demo_sync_def)
  then show ?thesis using l by simp
qed

theorem acked_after_durable_witness:
  "(\<exists>acts. sync_run demo_sync SeenSet_new = Some (Ok 1, acts, \<lparr>ss_seen = [9], ss_order = [9]\<rparr>)
      \<and> acts = [Fetched [demo_row] [demo_msg] SeenSet_new [demo_missed], Emitted 9 [demo_missed], Confirmed 9 [3, 9]] @ Acked [9] # [])
   \<and> (\<exists>cursor. cursor \<in> set [3, 9] \<and> (9 :: int) \<le> cursor)"
proof -
  let ?pre = "[Fetched [demo_row] [demo_msg] SeenSet_new [demo_missed], Emitted 9 [demo_missed], Confirmed 9 [3, 9]]"
  have run: "sync_run demo_sync SeenSet_new = Some (Ok 1, ?pre @ Acked [9] # [], \<lparr>ss_seen = [9], ss_order = [9]\<rparr>)"
    using demo_sync_run by simp
  have h: "\<not> sy_hook demo_sync" "max_id [9] = 9" by (simp_all add: demo_sync_def max_id_def)
  obtain rest indexes msgs seen talks secured where w: "?pre = rest @ Fetched indexes msgs seen talks # secured"
    "talks \<noteq> [] \<longrightarrow> (if sy_hook demo_sync then secured = [Persisted talks]
       else max_id [9] > 0 \<longrightarrow> (\<exists>calls cursor. secured = [Emitted (max_id [9]) talks, Confirmed (max_id [9]) calls]
          \<and> cursor \<in> set calls \<and> max_id [9] \<le> cursor))"
    using acked_after_durable[OF run refl] by (elim exE conjE)
  have "rest = []" "talks = [demo_missed]" "secured = [Emitted 9 [demo_missed], Confirmed 9 [3, 9]]"
    using w(1) by (auto simp: Cons_eq_append_conv)
  then show ?thesis using w(2) h run by auto
qed

text \<open>Without delivery receipts the store remembers one position per account, and a batch moves it to the first message of
  the batch only: the others are sent again after the next login.\<close>

lemma batch_ack_without_receipts:
  assumes "\<not> mm_pending_receipt m" "i \<noteq> 0"
  shows "snd (snd (store_ack now app a tid (i # ids) m)) = m\<lparr>mm_ack := ack_set now a i (mm_ack m)\<rparr>"
  using assms by (simp add: store_ack_def Let_def)

end
