(* ===== verification/Kim_Client_Link.thy ===== *)
theory Kim_Client_Link
  imports Kim_Client_Pump Kim_Routing
begin

text \<open>
  The life of a client's link, \<open>crates/kim-client/src\<close>: the session of the client and its connection
  (\<open>client.rs\<close>, \<open>login.rs\<close>, \<open>token.rs\<close>), one session from connecting to its end, and the loop that starts the
  next one after a pause (\<open>link/machine.rs\<close>, \<open>link/backoff.rs\<close>, \<open>supervisor.rs\<close>). What the network, the clock
  and the application do in a session is its environment.
\<close>

section \<open>Tokens\<close>

record UnverifiedClaims =
  uc_account :: string
  uc_exp :: int

definition EXP_SKEW_SECS :: int where "EXP_SKEW_SECS = 30"

text \<open>The base64 and JSON decoders are libraries: they give the optional account and expiry of a payload.\<close>

definition unverified_claims :: "(string \<Rightarrow> (string option \<times> int option) option) \<Rightarrow> string \<Rightarrow> (ClientError, UnverifiedClaims) result" where
  "unverified_claims decode token =
     (case split_char (CHR ''.'') token of
        _ # pl # _ \<Rightarrow>
          if pl = [] then Err InvalidToken
          else (case decode pl of
              None \<Rightarrow> Err InvalidToken
            | Some (acc, expiry) \<Rightarrow>
                (case acc of
                   None \<Rightarrow> Err InvalidToken
                 | Some account \<Rightarrow>
                     if account = [] then Err InvalidToken
                     else case expiry of None \<Rightarrow> Err InvalidToken | Some e \<Rightarrow> Ok \<lparr>uc_account = account, uc_exp = e\<rparr>))
      | _ \<Rightarrow> Err InvalidToken)"

definition token_unusable :: "(string \<Rightarrow> (string option \<times> int option) option) \<Rightarrow> int \<Rightarrow> string \<Rightarrow> ClientError option" where
  "token_unusable decode now token =
     (case unverified_claims decode token of
        Inl e \<Rightarrow> Some e
      | Inr claims \<Rightarrow> if uc_exp claims \<le> i64_saturating_add now EXP_SKEW_SECS then Some ClientUnauthorized else None)"

section \<open>The client\<close>

record MemorySession =
  me_channel_id :: string
  me_account :: string
  me_token :: string

definition MemorySession_default :: MemorySession where
  "MemorySession_default = \<lparr>me_channel_id = [], me_account = [], me_token = []\<rparr>"

datatype Io = IoOff | IoHandshake | IoLive

record client =
  kc_token :: string
  kc_device :: string
  kc_session :: MemorySession
  kc_io :: Io

definition client_new :: "string \<Rightarrow> string \<Rightarrow> client" where
  "client_new token device = \<lparr>kc_token = token, kc_device = device, kc_session = MemorySession_default, kc_io = IoOff\<rparr>"

definition is_logged_in :: "client \<Rightarrow> bool" where
  "is_logged_in c \<longleftrightarrow> me_channel_id (kc_session c) \<noteq> []"

definition login_token :: "client \<Rightarrow> string" where
  "login_token c = (if me_token (kc_session c) = [] then kc_token c else me_token (kc_session c))"

definition store_token :: "string \<Rightarrow> client \<Rightarrow> client" where
  "store_token token c = c\<lparr>kc_session := (kc_session c)\<lparr>me_token := token\<rparr>\<rparr>"

definition disconnect :: "client \<Rightarrow> client" where
  "disconnect c = c\<lparr>kc_io := IoOff, kc_session := MemorySession_default\<rparr>"

definition connect :: "(ClientError, unit) result \<Rightarrow> client \<Rightarrow> (ClientError, unit) result \<times> client" where
  "connect res c =
     (if kc_io c \<noteq> IoOff then (Err AlreadyConnected, c)
      else case res of Inl e \<Rightarrow> (Err e, c) | Inr _ \<Rightarrow> (Ok (), c\<lparr>kc_io := IoHandshake\<rparr>))"

section \<open>Login\<close>

text \<open>The frames that come until the response to the login; none when it has not come.\<close>

fun wait_login_resp :: "client_codec \<Rightarrow> (ClientError, Frame) result list \<Rightarrow> (ClientError, string) result option" where
  "wait_login_resp cc [] = None"
| "wait_login_resp cc (Inl e # rest) = Some (Err (if e = CoreClosed then Handshake ''closed'' else e))"
| "wait_login_resp cc (Inr frame # rest) =
     (case opcode frame of
        Close \<Rightarrow> Some (Err (Handshake ''closed''))
      | Ping \<Rightarrow> wait_login_resp cc rest
      | Pong \<Rightarrow> wait_login_resp cc rest
      | Continuation \<Rightarrow> wait_login_resp cc rest
      | _ \<Rightarrow>
          (case read_packet (wc_dec_header cc) (payload frame) of
             Inl e \<Rightarrow> Some (Err (Protocol e))
           | Inr (BasicPacket _) \<Rightarrow> wait_login_resp cc rest
           | Inr (LogicPacket p) \<Rightarrow>
               if h_command (lp_header p) \<noteq> Command_as_str LoginSignIn then wait_login_resp cc rest
               else if h_status (lp_header p) \<noteq> Success then
                 Some (Err (if h_status (lp_header p) = Unauthorized then ClientUnauthorized else Handshake ''status''))
               else case wd_login cc (lp_body p) of
                   Inl e \<Rightarrow> Some (Err (Protocol e))
                 | Inr channel \<Rightarrow>
                     if channel = [] \<or> channel = ''alice'' then Some (Err (Handshake ''bad channel_id'')) else Some (Ok channel)))"

definition login_with_device ::
  "client_codec \<Rightarrow> (string \<Rightarrow> (string option \<times> int option) option) \<Rightarrow> string \<Rightarrow> (ClientError, unit) result
   \<Rightarrow> (ClientError, Frame) result list \<Rightarrow> (ClientError, MemorySession) result" where
  "login_with_device cc decode token written reads =
     (case unverified_claims decode token of
        Inl e \<Rightarrow> Err e
      | Inr claims \<Rightarrow>
          (case written of
             Inl e \<Rightarrow> Err e
           | Inr _ \<Rightarrow>
               (case wait_login_resp cc reads of
                  None \<Rightarrow> Err HandshakeTimeout
                | Some (Inl e) \<Rightarrow> Err e
                | Some (Inr channel) \<Rightarrow> Ok \<lparr>me_channel_id = channel, me_account = uc_account claims, me_token = token\<rparr>)))"

definition client_login ::
  "client_codec \<Rightarrow> (string \<Rightarrow> (string option \<times> int option) option) \<Rightarrow> (ClientError, unit) result \<Rightarrow> (ClientError, Frame) result list
   \<Rightarrow> client \<Rightarrow> (ClientError, unit) result \<times> client" where
  "client_login cc decode written reads c =
     (if kc_io c \<noteq> IoHandshake then (Err NotConnected, c)
      else case login_with_device cc decode (login_token c) written reads of
          Inl e \<Rightarrow> (Err e, c)
        | Inr session \<Rightarrow> (Ok (), c\<lparr>kc_session := session, kc_io := IoLive\<rparr>))"

section \<open>A session\<close>

datatype SessionEnd = EndStop | EndDrop ClientError DropReason | EndAuthFailed ClientError | EndKicked string

datatype LinkState = Connecting | Online | Reconnecting "32 word" | Offline

text \<open>Why the dispatch loop ended: the event stream closed, a kick, the link died, or a stop.\<close>

datatype loop_exit = StreamClosed "DropReason option" | KickEvent string | LinkDead DropReason bool | StopNotified

fun dispatch_end :: "loop_exit \<Rightarrow> SessionEnd" where
  "dispatch_end (StreamClosed death) = EndDrop CoreClosed (case death of None \<Rightarrow> ClosedReason | Some r \<Rightarrow> r)"
| "dispatch_end (KickEvent channel) = EndKicked channel"
| "dispatch_end (LinkDead r stopped) =
     (if r = KickoutReason then EndKicked []
      else if r = StopReason \<or> stopped then EndStop
      else if is_fatal r then EndAuthFailed (OtherError (DropReason_as_str r))
      else EndDrop (OtherError (DropReason_as_str r)) r)"
| "dispatch_end StopNotified = EndStop"

text \<open>The catch-up failed first: with what, whether the client was stopped, the reason the link died of if any.\<close>

definition sync_end :: "ClientError \<Rightarrow> bool \<Rightarrow> DropReason option \<Rightarrow> SessionEnd" where
  "sync_end err stopped death =
     (if stopped then EndStop
      else case death of
          Some reason \<Rightarrow>
            if reason = KickoutReason then EndKicked []
            else if is_fatal reason then
              (if reason = StopReason then EndStop else if reason = AuthFailedReason then EndAuthFailed err else EndKicked [])
            else EndDrop err reason
        | None \<Rightarrow> EndDrop err (if err = OtherError ''confirm-timeout'' then ConfirmTimeout else SyncFailed))"

datatype serve_outcome = DispatchFirst loop_exit | SyncFailedFirst ClientError bool "DropReason option"

fun serve_end :: "serve_outcome \<Rightarrow> SessionEnd" where
  "serve_end (DispatchFirst x) = dispatch_end x"
| "serve_end (SyncFailedFirst err stopped death) = sync_end err stopped death"

record session_env =
  en_stopped :: bool
  en_now :: int
  en_connect :: "(ClientError, unit) result option"
  en_stopped_later :: bool
  en_written :: "(ClientError, unit) result"
  en_reads :: "(ClientError, Frame) result list"
  en_live :: bool
  en_renewed :: "string list"
  en_serve :: serve_outcome

record link =
  lk_client :: client
  lk_state :: LinkState
  lk_states :: "LinkState list"
  lk_delay :: nat
  lk_attempt :: "32 word"
  lk_last :: "DropReason option"
  lk_pauses :: "nat list"

definition set_state :: "LinkState \<Rightarrow> link \<Rightarrow> link" where
  "set_state st l = l\<lparr>lk_state := st, lk_states := lk_states l @ [st]\<rparr>"

definition handshake_reason :: "ClientError \<Rightarrow> DropReason" where
  "handshake_reason e = (if e = HandshakeTimeout then HandshakeTimeoutReason else ConnectFail)"

text \<open>A session starts by disconnecting what is left of the one before. Tokens renewed during the session are stored in it.\<close>

definition run_session ::
  "client_codec \<Rightarrow> (string \<Rightarrow> (string option \<times> int option) option) \<Rightarrow> session_env \<Rightarrow> link \<Rightarrow> SessionEnd \<times> link" where
  "run_session cc decode env l0 =
     (let l = l0\<lparr>lk_client := disconnect (lk_client l0)\<rparr> in
      if en_stopped env then (EndStop, l)
      else case token_unusable decode (en_now env) (login_token (lk_client l)) of
          Some err \<Rightarrow> (EndAuthFailed err, l)
        | None \<Rightarrow>
            (case en_connect env of
               None \<Rightarrow> (EndStop, l)
             | Some res \<Rightarrow>
                 (case connect res (lk_client l) of
                    (Inl err, _) \<Rightarrow> (EndDrop err (handshake_reason err), l\<lparr>lk_last := Some (handshake_reason err)\<rparr>)
                  | (Inr _, c) \<Rightarrow>
                      if en_stopped_later env then (EndStop, l\<lparr>lk_client := disconnect c\<rparr>)
                      else case client_login cc decode (en_written env) (en_reads env) c of
                          (Inl err, c) \<Rightarrow>
                            if is_fatal_auth err then (EndAuthFailed err, l\<lparr>lk_client := disconnect c\<rparr>)
                            else (EndDrop err (handshake_reason err),
                                  l\<lparr>lk_client := disconnect c, lk_last := Some (handshake_reason err)\<rparr>)
                        | (Inr _, c) \<Rightarrow>
                            let l = set_state Online (l\<lparr>lk_client := c, lk_attempt := 0, lk_delay := 1\<rparr>) in
                            if \<not> en_live env then (EndDrop CoreClosed ClosedReason, l\<lparr>lk_last := Some ClosedReason\<rparr>)
                            else (serve_end (en_serve env), l\<lparr>lk_client := foldl (\<lambda>c t. store_token t c) c (en_renewed env)\<rparr>))))"

section \<open>The loop\<close>

definition next_backoff :: "nat \<Rightarrow> nat" where
  "next_backoff current = min (current * 2) 60"

datatype pause = Slept | Hinted | PauseStopped

record round_env =
  rd_stopped :: bool
  rd_session :: session_env
  rd_stopped_after :: bool
  rd_hint_before :: bool
  rd_pause :: pause

text \<open>One turn of the loop; the first component says whether the loop goes on. A hint of the application (the network
  is back, the application is in the foreground) sets the number of attempts back and ends a pause. \<open>lk_pauses\<close> lists
  the seconds of the pauses that were begun: a turn sleeps \<open>delay\<close> and doubles it afterwards.\<close>

definition run_round ::
  "client_codec \<Rightarrow> (string \<Rightarrow> (string option \<times> int option) option) \<Rightarrow> round_env \<Rightarrow> link \<Rightarrow> bool \<times> link" where
  "run_round cc decode r l =
     (if rd_stopped r then (False, set_state Offline l)
      else case run_session cc decode (rd_session r) (set_state Connecting l) of
          (EndStop, l) \<Rightarrow> (False, set_state Offline (l\<lparr>lk_last := Some StopReason\<rparr>))
        | (EndAuthFailed _, l) \<Rightarrow> (False, set_state Offline (l\<lparr>lk_last := Some AuthFailedReason\<rparr>))
        | (EndKicked _, l) \<Rightarrow> (False, set_state Offline (l\<lparr>lk_last := Some KickoutReason\<rparr>))
        | (EndDrop _ reason, l) \<Rightarrow>
            (let l = l\<lparr>lk_last := Some reason\<rparr> in
             if rd_stopped_after r then (False, set_state Offline l)
             else
               let attempt = (if rd_hint_before r then 0 else lk_attempt l) + 1;
                   l = l\<lparr>lk_attempt := attempt, lk_delay := (if reason = ProbeFail then 1 else lk_delay l)\<rparr>;
                   l = set_state (Reconnecting attempt) l;
                   l = l\<lparr>lk_pauses := lk_pauses l @ [lk_delay l]\<rparr> in
               case rd_pause r of
                 Slept \<Rightarrow> (True, l\<lparr>lk_delay := next_backoff (lk_delay l)\<rparr>)
               | Hinted \<Rightarrow> (True, l\<lparr>lk_delay := 1, lk_attempt := 0\<rparr>)
               | PauseStopped \<Rightarrow> (False, set_state Offline l)))"

fun run_loop ::
  "client_codec \<Rightarrow> (string \<Rightarrow> (string option \<times> int option) option) \<Rightarrow> round_env list \<Rightarrow> link \<Rightarrow> bool \<times> link" where
  "run_loop cc decode [] l = (True, l)"
| "run_loop cc decode (r # rs) l =
     (case run_round cc decode r l of (False, l) \<Rightarrow> (False, l) | (True, l) \<Rightarrow> run_loop cc decode rs l)"

definition link_new :: "string \<Rightarrow> string \<Rightarrow> link" where
  "link_new token device =
     \<lparr>lk_client = client_new token device, lk_state = Connecting, lk_states = [], lk_delay = 1, lk_attempt = 0, lk_last = None, lk_pauses = []\<rparr>"

section \<open>Backing off\<close>

definition delay_ok :: "link \<Rightarrow> bool" where
  "delay_ok l \<longleftrightarrow> 1 \<le> lk_delay l \<and> lk_delay l \<le> 60"

lemma set_state_fields [simp]:
  "lk_delay (set_state st l) = lk_delay l" "lk_attempt (set_state st l) = lk_attempt l" "lk_client (set_state st l) = lk_client l"
  "lk_last (set_state st l) = lk_last l" "lk_state (set_state st l) = st" "lk_pauses (set_state st l) = lk_pauses l"
  by (simp_all add: set_state_def)

lemma next_backoff_ok: "1 \<le> d \<Longrightarrow> 1 \<le> next_backoff d \<and> next_backoff d \<le> 60"
  by (simp add: next_backoff_def)

lemma run_session_delay: "run_session cc decode env l = (e, l') \<Longrightarrow> delay_ok l \<Longrightarrow> delay_ok l'"
  by (auto simp: run_session_def delay_ok_def Let_def split: if_splits option.splits prod.splits sum.splits)

definition goes_on :: "round_env \<Rightarrow> SessionEnd \<Rightarrow> bool" where
  "goes_on r e \<longleftrightarrow> \<not> rd_stopped r \<and> (\<exists>err reason. e = EndDrop err reason) \<and> \<not> rd_stopped_after r \<and> rd_pause r \<noteq> PauseStopped"

lemma run_round_result:
  assumes "run_session cc decode (rd_session r) (set_state Connecting l) = (e, l1)" "run_round cc decode r l = (b, l')"
  shows "b \<longleftrightarrow> goes_on r e" "\<not> b \<Longrightarrow> lk_state l' = Offline"
    "b \<Longrightarrow> \<exists>n. lk_state l' = Reconnecting n" "delay_ok l \<Longrightarrow> b \<Longrightarrow> delay_ok l'"
proof -
  have d: "delay_ok l \<Longrightarrow> delay_ok l1" using run_session_delay[OF assms(1)] by (simp add: delay_ok_def)
  show "b \<longleftrightarrow> goes_on r e" "\<not> b \<Longrightarrow> lk_state l' = Offline" "b \<Longrightarrow> \<exists>n. lk_state l' = Reconnecting n"
    using assms by (auto simp: run_round_def goes_on_def Let_def split: if_splits SessionEnd.splits pause.splits)
  show "delay_ok l'" if ok: "delay_ok l" and on: "b"
  proof -
    note k = next_backoff_ok[of "lk_delay l1"] next_backoff_ok[of 1] d[OF ok]
    obtain err reason where "e = EndDrop err reason" using \<open>b \<longleftrightarrow> goes_on r e\<close> on by (auto simp: goes_on_def)
    then show ?thesis
      using assms on k by (cases "rd_pause r") (auto simp: run_round_def Let_def delay_ok_def split: if_splits)
  qed
qed

text \<open>The causes, read off what happens in a session. While it is served: a kick, a stop, or a link that died of a fatal
  reason, but not an event stream that closed, whatever the link died of. Before: a stop, a token that is not a token or
  expires within thirty seconds, a login that the server refuses as unauthorized.\<close>

fun final_serve :: "serve_outcome \<Rightarrow> bool" where
  "final_serve (DispatchFirst (StreamClosed death)) = False"
| "final_serve (DispatchFirst (KickEvent channel)) = True"
| "final_serve (DispatchFirst (LinkDead r stopped)) = (r \<in> {KickoutReason, AuthFailedReason, StopReason} \<or> stopped)"
| "final_serve (DispatchFirst StopNotified) = True"
| "final_serve (SyncFailedFirst err stopped death) =
     (stopped \<or> death \<in> {Some KickoutReason, Some AuthFailedReason, Some StopReason})"

definition login_answer :: "client_codec \<Rightarrow> session_env \<Rightarrow> (ClientError, string) result" where
  "login_answer cc env =
     res_bind (en_written env) (\<lambda>_. case wait_login_resp cc (en_reads env) of None \<Rightarrow> Err HandshakeTimeout | Some r \<Rightarrow> r)"

definition session_final :: "client_codec \<Rightarrow> (string \<Rightarrow> (string option \<times> int option) option) \<Rightarrow> string \<Rightarrow> session_env \<Rightarrow> bool" where
  "session_final cc decode token env \<longleftrightarrow>
     en_stopped env \<or> token_unusable decode (en_now env) token \<noteq> None \<or> en_connect env = None
     \<or> en_connect env = Some (Ok ())
       \<and> (en_stopped_later env \<or> login_answer cc env \<in> {Err ClientUnauthorized, Err InvalidToken}
          \<or> (\<exists>channel. login_answer cc env = Ok channel) \<and> en_live env \<and> final_serve (en_serve env))"

lemma serve_end_final: "(\<exists>err reason. serve_end x = EndDrop err reason) \<longleftrightarrow> \<not> final_serve x"
proof (cases x)
  case (DispatchFirst y)
  then show ?thesis by (cases y) (auto simp: is_fatal_def)
next
  case (SyncFailedFirst err stopped death)
  then show ?thesis by (cases death) (auto simp: sync_end_def is_fatal_def)
qed

text \<open>The same death of the link ends the client when the dispatch loop looks at it, and is a drop when the loop sees the
  closed event stream first.\<close>

lemma kick_seen_as_close:
  "serve_end (DispatchFirst (LinkDead KickoutReason stopped)) = EndKicked []"
  "serve_end (DispatchFirst (StreamClosed (Some KickoutReason))) = EndDrop CoreClosed KickoutReason"
  by simp_all

lemma run_session_final:
  assumes "run_session cc decode env l = (e, l1)"
  shows "(\<exists>err reason. e = EndDrop err reason) \<longleftrightarrow> \<not> session_final cc decode (kc_token (lk_client l)) env"
    and "kc_token (lk_client l1) = kc_token (lk_client l)" "lk_pauses l1 = lk_pauses l"
proof -
  have tok: "login_token (disconnect (lk_client l)) = kc_token (lk_client l)"
    by (simp add: login_token_def disconnect_def MemorySession_default_def)
  have renew: "kc_token (foldl (\<lambda>c t. store_token t c) c ts) = kc_token c" for c ts
    by (induction ts arbitrary: c) (simp_all add: store_token_def)
  have claims: "\<exists>cl. unverified_claims decode (kc_token (lk_client l)) = Ok cl" if "token_unusable decode (en_now env) (kc_token (lk_client l)) = None"
    using that by (auto simp: token_unusable_def split: sum.splits)
  have log: "client_login cc decode (en_written env) (en_reads env) ((disconnect (lk_client l))\<lparr>kc_io := IoHandshake\<rparr>)
      = (case login_answer cc env of
           Inl err \<Rightarrow> (Err err, (disconnect (lk_client l))\<lparr>kc_io := IoHandshake\<rparr>)
         | Inr channel \<Rightarrow> (Ok (), (disconnect (lk_client l))\<lparr>kc_io := IoLive,
             kc_session := \<lparr>me_channel_id = channel, me_account = uc_account cl, me_token = kc_token (lk_client l)\<rparr>\<rparr>))"
    if "unverified_claims decode (kc_token (lk_client l)) = Ok cl" for cl
  proof -
    have "login_token ((disconnect (lk_client l))\<lparr>kc_io := IoHandshake\<rparr>) = kc_token (lk_client l)"
      by (simp add: login_token_def disconnect_def MemorySession_default_def)
    then show ?thesis
      using that by (simp add: client_login_def login_with_device_def login_answer_def res_bind_def disconnect_def split: sum.split option.split)
  qed
  have "((\<exists>err reason. e = EndDrop err reason) \<longleftrightarrow> \<not> session_final cc decode (kc_token (lk_client l)) env)
    \<and> kc_token (lk_client l1) = kc_token (lk_client l) \<and> lk_pauses l1 = lk_pauses l"
  proof (cases "en_stopped env \<or> token_unusable decode (en_now env) (kc_token (lk_client l)) \<noteq> None \<or> en_connect env \<noteq> Some (Ok ()) \<or> en_stopped_later env")
    case True
    then show ?thesis
      using assms tok
      by (auto simp: run_session_def session_final_def connect_def disconnect_def Let_def split: if_splits option.splits sum.splits)
  next
    case False
    then obtain cl where "unverified_claims decode (kc_token (lk_client l)) = Ok cl" using claims by blast
    note log = log[OF this]
    have io: "connect (Ok ()) (disconnect (lk_client l)) = (Ok (), (disconnect (lk_client l))\<lparr>kc_io := IoHandshake\<rparr>)"
      by (simp add: connect_def disconnect_def)
    have d: "kc_token (disconnect c) = kc_token c" for c by (simp add: disconnect_def)
    show ?thesis
    proof (cases "login_answer cc env")
      case (Inl err)
      then show ?thesis
        using assms False tok log io
        by (cases "is_fatal_auth err") (auto simp: run_session_def session_final_def is_fatal_auth_def d Let_def)
    next
      case (Inr channel)
      show ?thesis
      proof (cases "en_live env")
        case True
        then show ?thesis
          using assms False tok log io Inr serve_end_final[of "en_serve env"] renew
          by (auto simp: run_session_def session_final_def d Let_def)
      next
        case dead: False
        then show ?thesis
          using assms False tok log io Inr by (auto simp: run_session_def session_final_def d Let_def)
      qed
    qed
  qed
  then show "(\<exists>err reason. e = EndDrop err reason) \<longleftrightarrow> \<not> session_final cc decode (kc_token (lk_client l)) env"
    "kc_token (lk_client l1) = kc_token (lk_client l)" "lk_pauses l1 = lk_pauses l" by simp_all
qed

text \<open>What a turn does, and what holds between turns.\<close>

definition link_ok :: "string \<Rightarrow> link \<Rightarrow> bool" where
  "link_ok token l \<longleftrightarrow> delay_ok l \<and> kc_token (lk_client l) = token"

lemma run_round_pauses:
  assumes "run_round cc decode r l = (b, l')" "link_ok token l"
  shows "b \<Longrightarrow> \<exists>d. lk_pauses l' = lk_pauses l @ [d] \<and> 1 \<le> d \<and> d \<le> 60" "b \<Longrightarrow> link_ok token l'"
proof -
  obtain e l1 where e: "run_session cc decode (rd_session r) (set_state Connecting l) = (e, l1)" by fastforce
  note f = run_session_final[OF e]
  have ok: "delay_ok l" "kc_token (lk_client l) = token" using assms(2) by (simp_all add: link_ok_def)
  have d: "delay_ok l1" using run_session_delay[OF e] ok by (simp add: delay_ok_def)
  assume b
  then obtain err reason where drop: "e = EndDrop err reason" using run_round_result(1)[OF e assms(1)] by (auto simp: goes_on_def)
  show "\<exists>d. lk_pauses l' = lk_pauses l @ [d] \<and> 1 \<le> d \<and> d \<le> 60"
    using assms(1) e drop \<open>b\<close> d f(3) by (cases "rd_pause r") (auto simp: run_round_def delay_ok_def Let_def split: if_splits)
  have "kc_token (lk_client l') = token"
    using assms(1) e drop \<open>b\<close> f(2) ok(2) by (cases "rd_pause r") (auto simp: run_round_def Let_def split: if_splits)
  then show "link_ok token l'" using run_round_result(4)[OF e assms(1) ok(1)] \<open>b\<close> by (simp add: link_ok_def)
qed

lemma run_loop_ok: "run_loop cc decode rs l = (True, l') \<Longrightarrow> link_ok token l \<Longrightarrow> link_ok token l'"
proof (induction rs arbitrary: l)
  case (Cons r rs)
  obtain b l2 where r: "run_round cc decode r l = (b, l2)" by fastforce
  have b: "b" using Cons.prems(1) r by (cases b) simp_all
  show ?case using Cons.IH[of l2] Cons.prems r b run_round_pauses(2)[OF r Cons.prems(2) b] by simp
qed simp

text \<open>C20: The link is given up exactly for a cause, and otherwise always tried again. After any number of turns, the next
  turn of the loop is the last one exactly when the client is stopped before, during or after its session or in the pause,
  the configured token is unusable, the server refuses the login as unauthorized, or the session is kicked, stopped or
  dies of a fatal reason while it is served (\<open>session_final\<close>); the client is then offline. After every other session
  the client is reconnecting and has begun one pause, of one second to one minute, which a hint may cut short. An event
  stream that closes always leads to a reconnection, even when the link died of a kick.\<close>

theorem link_given_up_for_cause:
  assumes "run_loop cc decode rs (link_new token device) = (True, l)" "run_round cc decode r l = (b, l')"
  shows "(b \<longleftrightarrow> \<not> rd_stopped r \<and> \<not> session_final cc decode token (rd_session r) \<and> \<not> rd_stopped_after r \<and> rd_pause r \<noteq> PauseStopped)
    \<and> (if b then (\<exists>n. lk_state l' = Reconnecting n) \<and> (\<exists>d. lk_pauses l' = lk_pauses l @ [d] \<and> 1 \<le> d \<and> d \<le> 60)
       else lk_state l' = Offline)"
proof -
  obtain e l1 where e: "run_session cc decode (rd_session r) (set_state Connecting l) = (e, l1)" by fastforce
  have ok: "link_ok token l"
    by (rule run_loop_ok[OF assms(1)]) (simp add: link_ok_def delay_ok_def link_new_def client_new_def)
  have "(\<exists>err reason. e = EndDrop err reason) \<longleftrightarrow> \<not> session_final cc decode token (rd_session r)"
    using run_session_final(1)[OF e] ok by (simp add: link_ok_def)
  then show ?thesis
    using run_round_result(1-3)[OF e assms(2)] run_round_pauses(1)[OF assms(2) ok] by (auto simp: goes_on_def)
qed

text \<open>A turn in which the server cannot be reached.\<close>

definition unreachable :: "(string \<Rightarrow> (string option \<times> int option) option) \<Rightarrow> string \<Rightarrow> round_env \<Rightarrow> bool" where
  "unreachable decode token r \<longleftrightarrow> \<not> rd_stopped r \<and> \<not> en_stopped (rd_session r)
     \<and> token_unusable decode (en_now (rd_session r)) token = None
     \<and> (\<exists>e. en_connect (rd_session r) = Some (Err e)) \<and> \<not> rd_stopped_after r \<and> \<not> rd_hint_before r \<and> rd_pause r = Slept"

lemma unreachable_round:
  assumes "unreachable decode (kc_token (lk_client l)) r"
  shows "\<exists>l'. run_round cc decode r l = (True, l') \<and> lk_delay l' = next_backoff (lk_delay l) \<and> lk_attempt l' = lk_attempt l + 1 \<and> lk_pauses l' = lk_pauses l @ [lk_delay l]
    \<and> lk_state l' = Reconnecting (lk_attempt l + 1) \<and> kc_token (lk_client l') = kc_token (lk_client l)"
proof -
  obtain e where e: "en_connect (rd_session r) = Some (Err e)" using assms by (auto simp: unreachable_def)
  have "handshake_reason e \<noteq> ProbeFail" by (simp add: handshake_reason_def)
  then show ?thesis
    using assms e by (simp add: run_round_def run_session_def unreachable_def disconnect_def login_token_def MemorySession_default_def
        connect_def Let_def)
qed

lemma backoff_power: "next_backoff (min (2 ^ n) 60) = min (2 ^ Suc n) 60"
  by (auto simp: next_backoff_def min_def)

text \<open>C21: The pauses double up to a minute. In \<open>n\<close> turns from the start in which the server cannot be reached and no
  hint comes, the client sleeps 1, 2, 4, ... seconds, at most sixty: the pause of the turn after \<open>k\<close> failed ones is
  \<open>min (2 ^ k) 60\<close> seconds; and it counts \<open>n\<close> attempts.\<close>

theorem link_backoff_exact:
  assumes "\<forall>r \<in> set rs. unreachable decode token r"
  shows "\<exists>l. run_loop cc decode rs (link_new token device) = (True, l) \<and> lk_pauses l = map (\<lambda>k. min (2 ^ k) 60) [0..<length rs]
    \<and> lk_attempt l = of_nat (length rs) \<and> (rs \<noteq> [] \<longrightarrow> lk_state l = Reconnecting (of_nat (length rs)))"
proof -
  have "\<exists>l'. run_loop cc decode rs l = (True, l') \<and> lk_pauses l' = lk_pauses l @ map (\<lambda>k. min (2 ^ k) 60) [n..<n + length rs]
      \<and> lk_attempt l' = of_nat (n + length rs) \<and> (rs \<noteq> [] \<longrightarrow> lk_state l' = Reconnecting (of_nat (n + length rs)))"
    if "kc_token (lk_client l) = token" "lk_delay l = min (2 ^ n) 60" "lk_attempt l = of_nat n" for l n
    using that assms
  proof (induction rs arbitrary: l n)
    case (Cons r rs)
    obtain l1 where l1: "run_round cc decode r l = (True, l1)" "lk_delay l1 = next_backoff (lk_delay l)" "lk_attempt l1 = lk_attempt l + 1"
      "lk_pauses l1 = lk_pauses l @ [lk_delay l]" "lk_state l1 = Reconnecting (lk_attempt l + 1)" "kc_token (lk_client l1) = kc_token (lk_client l)"
      using unreachable_round[of decode l r cc] Cons.prems(1,4) by auto
    have "lk_delay l1 = min (2 ^ Suc n) 60" "lk_attempt l1 = of_nat (Suc n)"
      using l1(2,3) Cons.prems(2,3) backoff_power[of n] by simp_all
    from Cons.IH[OF _ this] l1(6) Cons.prems(1,4)
    obtain l2 where "run_loop cc decode rs l1 = (True, l2)" "lk_pauses l2 = lk_pauses l1 @ map (\<lambda>k. min (2 ^ k) 60) [Suc n..<Suc n + length rs]"
      "lk_attempt l2 = of_nat (Suc n + length rs)" "rs \<noteq> [] \<longrightarrow> lk_state l2 = Reconnecting (of_nat (Suc n + length rs))" by auto
    moreover have "[n..<n + length (r # rs)] = n # [Suc n..<Suc n + length rs]" by (simp add: upt_rec)
    ultimately show ?case using l1(1,4,5) Cons.prems(2,3) by (cases rs) (auto simp: add.commute)
  qed simp
  from this[of "link_new token device" 0] show ?thesis by (simp add: link_new_def client_new_def)
qed

section \<open>Renewed tokens\<close>

text \<open>The token that a session starts with is always the configured one: the session, with the token the server renewed,
  is forgotten when the connection before it ends. When the configured token has expired the client gives up as
  unauthorized, though it was given a newer token.\<close>

lemma renewed_token_not_used:
  assumes "token_unusable decode (en_now env) (kc_token (lk_client l)) = Some err" "\<not> en_stopped env"
  shows "fst (run_session cc decode env (l\<lparr>lk_client := store_token renewed (lk_client l)\<rparr>)) = EndAuthFailed err"
  using assms by (simp add: run_session_def Let_def disconnect_def login_token_def MemorySession_default_def store_token_def)

section \<open>A run\<close>

definition demo_claims :: "string \<Rightarrow> (string option \<times> int option) option" where
  "demo_claims pl = Some (Some pl, Some 1000)"

definition demo_round :: round_env where
  "demo_round = \<lparr>rd_stopped = False, rd_session = \<lparr>en_stopped = False, en_now = 0, en_connect = Some (Err CoreError), en_stopped_later = False,
      en_written = Ok (), en_reads = [], en_live = True, en_renewed = [], en_serve = DispatchFirst StopNotified\<rparr>,
    rd_stopped_after = False, rd_hint_before = False, rd_pause = Slept\<rparr>"

lemma demo_unreachable: "unreachable demo_claims ''a.b.c'' demo_round"
  by (simp add: unreachable_def demo_round_def token_unusable_def unverified_claims_def demo_claims_def EXP_SKEW_SECS_def i64_saturating_add_def)

theorem link_backoff_exact_witness:
  "\<exists>l. run_loop demo_cc demo_claims (replicate 7 demo_round) (link_new ''a.b.c'' ''mobile'') = (True, l)
     \<and> lk_pauses l = [1, 2, 4, 8, 16, 32, 60] \<and> lk_attempt l = 7"
  using link_backoff_exact[of "replicate 7 demo_round" demo_claims "''a.b.c''" demo_cc "''mobile''"] demo_unreachable
  by (auto simp: upt_rec eval_nat_numeral)

text \<open>A client whose token expires between two turns.\<close>

theorem link_given_up_for_cause_witness:
  "\<exists>l l'. run_loop demo_cc demo_claims [demo_round] (link_new ''a.b.c'' ''mobile'') = (True, l)
     \<and> run_round demo_cc demo_claims (demo_round\<lparr>rd_session := (rd_session demo_round)\<lparr>en_now := 1000\<rparr>\<rparr>) l = (False, l') \<and> lk_state l' = Offline"
proof -
  let ?r = "demo_round\<lparr>rd_session := (rd_session demo_round)\<lparr>en_now := 1000\<rparr>\<rparr>"
  obtain l where l: "run_loop demo_cc demo_claims [demo_round] (link_new ''a.b.c'' ''mobile'') = (True, l)"
    using unreachable_round[of demo_claims "link_new ''a.b.c'' ''mobile''" demo_round demo_cc] demo_unreachable
    by (auto simp: link_new_def client_new_def)
  obtain b l' where r: "run_round demo_cc demo_claims ?r l = (b, l')" by fastforce
  have "session_final demo_cc demo_claims ''a.b.c'' (rd_session ?r)"
    by (simp add: session_final_def demo_round_def token_unusable_def unverified_claims_def demo_claims_def EXP_SKEW_SECS_def i64_saturating_add_def)
  then show ?thesis using link_given_up_for_cause[OF l r] l r by auto
qed

end
