(* ===== verification/Kim_Directory_Cache.thy ===== *)
theory Kim_Directory_Cache
  imports Kim_Users
begin

text \<open>
  The caches in front of the social and the user directory, \<open>services/chat/src/social_cache.rs\<close>: answers
  to \<open>is_friend\<close>, \<open>is_blocked_either\<close> and to the presence of a user are kept for a while, concurrent
  questions share one fetch, and a write evicts the entries it may change. The source has the same cache
  twice; here it is one, over the type of its keys and values. Times are milliseconds.
\<close>

section \<open>The cache\<close>

definition DEFAULT_TTL :: nat where "DEFAULT_TTL = 30000"
definition DEFAULT_CAP :: nat where "DEFAULT_CAP = 10000"

text \<open>A fifth more or less, by the nanoseconds of the clock.\<close>

definition jittered_ttl :: "nat \<Rightarrow> nat \<Rightarrow> nat" where
  "jittered_ttl base nanos =
     (if base = 0 then 0
      else let span = max (base * 20 div 100) 1; delta = nanos mod (span * 2 + 1) in
        nat (max 1 (int base + (int delta - int span))))"

record 'v Entry =
  ce_value :: 'v
  ce_expire :: nat

record ('k, 'v) ttl_cache =
  tc_entries :: "('k, 'v Entry) hmap"
  tc_inflight :: "('k, nat) hmap"
  tc_ttl :: nat
  tc_cap :: nat

definition cache_wrap :: "nat \<Rightarrow> ('k, 'v) ttl_cache" where
  "cache_wrap ttl = \<lparr>tc_entries = [], tc_inflight = [], tc_ttl = ttl, tc_cap = DEFAULT_CAP\<rparr>"

definition cache_lookup :: "nat \<Rightarrow> 'k \<Rightarrow> ('k, 'v) ttl_cache \<Rightarrow> 'v option \<times> ('k, 'v) ttl_cache" where
  "cache_lookup now key c =
     (if tc_ttl c = 0 then (None, c)
      else case hget (tc_entries c) key of
          None \<Rightarrow> (None, c)
        | Some e \<Rightarrow>
            if ce_expire e > now then (Some (ce_value e), c)
            else (None, c\<lparr>tc_entries := hdel key (tc_entries c)\<rparr>))"

definition evict_oldest_tenth :: "('k, 'v Entry) hmap \<Rightarrow> ('k, 'v Entry) hmap" where
  "evict_oldest_tenth m =
     (if m = [] then m
      else foldl (\<lambda>m k. hdel k m) m (map fst (take (max (length m div 10) 1) (sort_key (\<lambda>(k, e). ce_expire e) m))))"

definition cache_store :: "nat \<Rightarrow> nat \<Rightarrow> 'k \<Rightarrow> 'v \<Rightarrow> ('k, 'v) ttl_cache \<Rightarrow> ('k, 'v) ttl_cache" where
  "cache_store now nanos key v c =
     (if tc_ttl c = 0 then c
      else let m = (if length (tc_entries c) \<ge> tc_cap c then evict_oldest_tenth (tc_entries c) else tc_entries c) in
        c\<lparr>tc_entries := hput key \<lparr>ce_value = v, ce_expire = now + jittered_ttl (tc_ttl c) nanos\<rparr> m\<rparr>)"

definition cache_evict :: "'k list \<Rightarrow> ('k, 'v) ttl_cache \<Rightarrow> ('k, 'v) ttl_cache" where
  "cache_evict keys c = c\<lparr>tc_entries := foldl (\<lambda>m k. hdel k m) (tc_entries c) keys\<rparr>"

text \<open>The beginning of a question: answered from the cache, asked past it when it is off, joined to a fetch that is under
  way, or a fetch of its own; and the end of a fetch, whose result every caller that joined gets.\<close>

datatype 'v begun = Hit 'v | Bypass | Joined | Fetch

definition cached_begin :: "nat \<Rightarrow> 'k \<Rightarrow> ('k, 'v) ttl_cache \<Rightarrow> 'v begun \<times> ('k, 'v) ttl_cache" where
  "cached_begin now key c =
     (case cache_lookup now key c of
        (Some v, c) \<Rightarrow> (Hit v, c)
      | (None, c) \<Rightarrow>
          if tc_ttl c = 0 then (Bypass, c)
          else case hget (tc_inflight c) key of
              Some n \<Rightarrow> (Joined, c\<lparr>tc_inflight := hput key (n + 1) (tc_inflight c)\<rparr>)
            | None \<Rightarrow> (Fetch, c\<lparr>tc_inflight := hput key 0 (tc_inflight c)\<rparr>))"

definition cached_finish :: "nat \<Rightarrow> nat \<Rightarrow> 'k \<Rightarrow> ('e, 'v) result \<Rightarrow> ('k, 'v) ttl_cache \<Rightarrow> ('k, 'v) ttl_cache" where
  "cached_finish now nanos key result c =
     (let c = c\<lparr>tc_inflight := hdel key (tc_inflight c)\<rparr> in
      case result of Inl _ \<Rightarrow> c | Inr v \<Rightarrow> cache_store now nanos key v c)"

section \<open>Questions one after the other\<close>

text \<open>A call that is not overlapped by another: nobody is there to join.\<close>

definition cached_ask :: "nat \<Rightarrow> nat \<Rightarrow> 'k \<Rightarrow> ('e, 'v) result \<Rightarrow> ('k, 'v) ttl_cache \<Rightarrow> ('e, 'v) result \<times> ('k, 'v) ttl_cache" where
  "cached_ask now nanos key inner c =
     (case cached_begin now key c of
        (Hit v, c) \<Rightarrow> (Ok v, c)
      | (Bypass, c) \<Rightarrow> (inner, c)
      | (Joined, c) \<Rightarrow> (inner, c)
      | (Fetch, c) \<Rightarrow> (inner, cached_finish now nanos key inner c))"

datatype ('q, 'w) call = Ask 'q | Write 'w

datatype ('x, 'r) answer = Asked 'x | Written 'r

text \<open>The same calls on the directory and on the cache in front of it.\<close>

fun plain_run :: "('q \<Rightarrow> 's \<Rightarrow> 'x) \<Rightarrow> ('w \<Rightarrow> 's \<Rightarrow> 'r \<times> 's) \<Rightarrow> (nat \<times> nat \<times> ('q, 'w) call) list \<Rightarrow> 's \<Rightarrow> ('x, 'r) answer list \<times> 's" where
  "plain_run ask wr [] s = ([], s)"
| "plain_run ask wr ((now, nanos, Ask q) # cs) s = (let (as, s') = plain_run ask wr cs s in (Asked (ask q s) # as, s'))"
| "plain_run ask wr ((now, nanos, Write w) # cs) s =
     (let (r, s1) = wr w s; (as, s') = plain_run ask wr cs s1 in (Written r # as, s'))"

fun cached_run ::
  "('q \<Rightarrow> 'k) \<Rightarrow> ('w \<Rightarrow> 'r \<Rightarrow> 'k list) \<Rightarrow> ('q \<Rightarrow> 's \<Rightarrow> ('e, 'v) result) \<Rightarrow> ('w \<Rightarrow> 's \<Rightarrow> 'r \<times> 's)
   \<Rightarrow> (nat \<times> nat \<times> ('q, 'w) call) list \<Rightarrow> ('k, 'v) ttl_cache \<Rightarrow> 's \<Rightarrow> (('e, 'v) result, 'r) answer list \<times> ('k, 'v) ttl_cache \<times> 's" where
  "cached_run key ev ask wr [] c s = ([], c, s)"
| "cached_run key ev ask wr ((now, nanos, Ask q) # cs) c s =
     (let (x, c1) = cached_ask now nanos (key q) (ask q s) c; (as, t) = cached_run key ev ask wr cs c1 s in (Asked x # as, t))"
| "cached_run key ev ask wr ((now, nanos, Write w) # cs) c s =
     (let (r, s1) = wr w s; (as, t) = cached_run key ev ask wr cs (cache_evict (ev w r) c) s1 in (Written r # as, t))"

text \<open>What the cache needs of a directory: questions with one key have one answer, and a write changes no answer but
  those under the keys that are evicted after it. \<open>allowed\<close> restricts the writes.\<close>

locale cached_directory =
  fixes key :: "'q \<Rightarrow> 'k"
    and ev :: "'w \<Rightarrow> 'r \<Rightarrow> 'k list"
    and ask :: "'q \<Rightarrow> 's \<Rightarrow> ('e, 'v) result"
    and wr :: "'w \<Rightarrow> 's \<Rightarrow> 'r \<times> 's"
    and allowed :: "'w \<Rightarrow> bool"
  assumes one_answer: "key q = key q' \<Longrightarrow> ask q s = ask q' s"
    and writes_local: "allowed w \<Longrightarrow> wr w s = (r, s') \<Longrightarrow> key q \<notin> set (ev w r) \<Longrightarrow> ask q s' = ask q s"

definition agrees :: "('q \<Rightarrow> 'k) \<Rightarrow> ('q \<Rightarrow> 's \<Rightarrow> ('e, 'v) result) \<Rightarrow> ('k, 'v) ttl_cache \<Rightarrow> 's \<Rightarrow> bool" where
  "agrees key ask c s \<longleftrightarrow> tc_inflight c = [] \<and> (\<forall>q e. hget (tc_entries c) (key q) = Some e \<longrightarrow> ask q s = Ok (ce_value e))"

lemma agreesI:
  "tc_inflight c = [] \<Longrightarrow> (\<And>q e. hget (tc_entries c) (key q) = Some e \<Longrightarrow> ask q s = Ok (ce_value e)) \<Longrightarrow> agrees key ask c s"
  by (simp add: agrees_def)

lemma agreesD:
  "agrees key ask c s \<Longrightarrow> tc_inflight c = []"
  "agrees key ask c s \<Longrightarrow> hget (tc_entries c) (key q) = Some e \<Longrightarrow> ask q s = Ok (ce_value e)"
  by (simp_all add: agrees_def)

lemma hdel_fold: "hget (foldl (\<lambda>m k. hdel k m) m ks) k' = (if k' \<in> set ks then None else hget m k')"
  by (induction ks arbitrary: m) (auto simp: hget_hdel)

lemma evict_oldest_Some: "hget (evict_oldest_tenth m) k = Some e \<Longrightarrow> hget m k = Some e"
  by (auto simp: evict_oldest_tenth_def hdel_fold split: if_splits)

context cached_directory
begin

lemma ask_agrees:
  assumes "agrees key ask c s" "cached_ask now nanos (key q) (ask q s) c = (x, c1)"
  shows "x = ask q s \<and> agrees key ask c1 s"
proof -
  obtain r c' where l: "cache_lookup now (key q) c = (r, c')" by fastforce
  have c': "agrees key ask c' s" "tc_inflight c' = []" "tc_ttl c' = tc_ttl c"
    using l assms(1)
    by (auto simp: cache_lookup_def hget_hdel agrees_def split: if_splits option.splits)
  have hit: "ask q s = Ok v" if "r = Some v" for v
    using l that agreesD(2)[OF assms(1), of q] by (auto simp: cache_lookup_def split: if_splits option.splits)
  have stored: "agrees key ask (cached_finish now nanos (key q) (ask q s) d) s"
    if d: "tc_entries d = tc_entries c'" "tc_ttl d = tc_ttl c'" "tc_inflight d = [(key q, 0)]" for d
  proof (cases "ask q s")
    case (Inl e)
    then show ?thesis using c'(1) d by (simp add: cached_finish_def agrees_def)
  next
    case (Inr v)
    show ?thesis
    proof (rule agreesI)
      show "tc_inflight (cached_finish now nanos (key q) (ask q s) d) = []"
        using Inr d by (simp add: cached_finish_def cache_store_def Let_def)
    next
      fix q' e assume e: "hget (tc_entries (cached_finish now nanos (key q) (ask q s) d)) (key q') = Some e"
      show "ask q' s = Ok (ce_value e)"
      proof (cases "key q' = key q \<and> tc_ttl d \<noteq> 0")
        case True
        then show ?thesis using e Inr one_answer[of q' q s] by (auto simp: cached_finish_def cache_store_def Let_def)
      next
        case False
        then have "hget (tc_entries c') (key q') = Some e"
          using e Inr d(1) evict_oldest_Some[of "tc_entries c'" "key q'" e]
          by (auto simp: cached_finish_def cache_store_def Let_def hget_hput split: if_splits)
        then show ?thesis by (rule agreesD(2)[OF c'(1)])
      qed
    qed
  qed
  show ?thesis
    using assms(2) l c' hit stored[of "c'\<lparr>tc_inflight := [(key q, 0)]\<rparr>"]
    by (cases r) (auto simp: cached_ask_def cached_begin_def split: if_splits)
qed

lemma write_agrees:
  assumes "agrees key ask c s" "allowed w" "wr w s = (r, s1)"
  shows "agrees key ask (cache_evict (ev w r) c) s1"
proof (rule agreesI)
  show "tc_inflight (cache_evict (ev w r) c) = []" using agreesD(1)[OF assms(1)] by (simp add: cache_evict_def)
next
  fix q e assume "hget (tc_entries (cache_evict (ev w r) c)) (key q) = Some e"
  then have "key q \<notin> set (ev w r)" "hget (tc_entries c) (key q) = Some e" by (auto simp: cache_evict_def hdel_fold split: if_splits)
  then show "ask q s1 = Ok (ce_value e)" using writes_local[OF assms(2,3)] agreesD(2)[OF assms(1)] by metis
qed

lemma run_equal:
  assumes "agrees key ask c s" "\<And>now nanos w. (now, nanos, Write w) \<in> set cs \<Longrightarrow> allowed w"
  shows "fst (cached_run key ev ask wr cs c s) = fst (plain_run ask wr cs s)
    \<and> snd (snd (cached_run key ev ask wr cs c s)) = snd (plain_run ask wr cs s)"
  using assms
proof (induction cs arbitrary: c s)
  case (Cons x cs)
  obtain now nanos d where x: "x = (now, nanos, d)" by (cases x) auto
  show ?case
  proof (cases d)
    case (Ask q)
    obtain y c1 where y: "cached_ask now nanos (key q) (ask q s) c = (y, c1)" by fastforce
    have "fst (cached_run key ev ask wr cs c1 s) = fst (plain_run ask wr cs s)
        \<and> snd (snd (cached_run key ev ask wr cs c1 s)) = snd (plain_run ask wr cs s)"
      by (rule Cons.IH) (use ask_agrees[OF Cons.prems(1) y] Cons.prems(2) in auto)
    then show ?thesis using ask_agrees[OF Cons.prems(1) y] x Ask y by (simp add: split_beta)
  next
    case (Write w)
    obtain r s1 where r: "wr w s = (r, s1)" by fastforce
    have w: "allowed w" using Cons.prems(2) x Write by auto
    have "fst (cached_run key ev ask wr cs (cache_evict (ev w r) c) s1) = fst (plain_run ask wr cs s1)
        \<and> snd (snd (cached_run key ev ask wr cs (cache_evict (ev w r) c) s1)) = snd (plain_run ask wr cs s1)"
      by (rule Cons.IH) (use write_agrees[OF Cons.prems(1) w r] Cons.prems(2) in auto)
    then show ?thesis using x Write r by (simp add: split_beta)
  qed
qed simp

end

section \<open>The cache of friendships and blocks\<close>

datatype SocialQueryKind = FriendQuery | BlockedEither

type_synonym SocialKey = "SocialQueryKind \<times> string \<times> string \<times> string"

definition make_key :: "SocialQueryKind \<Rightarrow> string \<Rightarrow> string \<Rightarrow> string \<Rightarrow> SocialKey" where
  "make_key kind app a b = (kind, app, ordered_pair a b)"

definition social_pair :: "string \<Rightarrow> string \<Rightarrow> string \<Rightarrow> SocialKey list" where
  "social_pair app a b = [make_key FriendQuery app a b, make_key BlockedEither app a b]"

datatype social_query = IsFriend string string string | IsBlockedEither string string string

datatype social_write =
    WRequest string string string
  | WAccept string string string
  | WReject string string string
  | WRemove string string string
  | WBlock string string string
  | WUnblock string string string
  | WEnsureFriends string string string

fun social_key :: "social_query \<Rightarrow> SocialKey" where
  "social_key (IsFriend app a b) = make_key FriendQuery app a b"
| "social_key (IsBlockedEither app a b) = make_key BlockedEither app a b"

fun social_ask :: "social_query \<Rightarrow> MemorySocialDirectory \<Rightarrow> (SocialError, bool) result" where
  "social_ask (IsFriend app a b) s = Ok (is_friend app a b s)"
| "social_ask (IsBlockedEither app a b) s = Ok (is_blocked_either app a b s)"

definition no_outcome :: "('e, unit) result \<times> 's \<Rightarrow> ('e, FriendRequestOutcome option) result \<times> 's" where
  "no_outcome x = (case fst x of Inl e \<Rightarrow> Err e | Inr _ \<Rightarrow> Ok None, snd x)"

fun social_wr :: "social_write \<Rightarrow> MemorySocialDirectory \<Rightarrow> (SocialError, FriendRequestOutcome option) result \<times> MemorySocialDirectory" where
  "social_wr (WRequest app from to) s =
     (let (r, s) = social_request app from to s in (case r of Inl e \<Rightarrow> Err e | Inr out \<Rightarrow> Ok (Some out), s))"
| "social_wr (WAccept app account from) s = no_outcome (social_accept app account from s)"
| "social_wr (WReject app account from) s = (Ok None, social_reject app account from s)"
| "social_wr (WRemove app account peer) s = (Ok None, social_remove app account peer s)"
| "social_wr (WBlock app account peer) s = no_outcome (social_block app account peer s)"
| "social_wr (WUnblock app account peer) s = (Ok None, social_unblock app account peer s)"
| "social_wr (WEnsureFriends app a b) s = no_outcome (ensure_friends app a b s)"

text \<open>The pair a write is about; its entries go when the write succeeded.\<close>

fun written_pair :: "social_write \<Rightarrow> SocialKey list" where
  "written_pair (WRequest app from to) = social_pair app from to"
| "written_pair (WAccept app account from) = social_pair app account from"
| "written_pair (WReject app account from) = social_pair app account from"
| "written_pair (WRemove app account peer) = social_pair app account peer"
| "written_pair (WBlock app account peer) = social_pair app account peer"
| "written_pair (WUnblock app account peer) = social_pair app account peer"
| "written_pair (WEnsureFriends app a b) = social_pair app a b"

definition social_evicts :: "social_write \<Rightarrow> (SocialError, FriendRequestOutcome option) result \<Rightarrow> SocialKey list" where
  "social_evicts w r = (case r of Inl _ \<Rightarrow> [] | Inr _ \<Rightarrow> written_pair w)"

definition CachedSocial_run ::
  "(nat \<times> nat \<times> (social_query, social_write) call) list \<Rightarrow> (SocialKey, bool) ttl_cache \<Rightarrow> MemorySocialDirectory
   \<Rightarrow> ((SocialError, bool) result, (SocialError, FriendRequestOutcome option) result) answer list
      \<times> (SocialKey, bool) ttl_cache \<times> MemorySocialDirectory" where
  "CachedSocial_run = cached_run social_key social_evicts social_ask social_wr"

lemma ordered_pair_eq: "ordered_pair a b = ordered_pair c d \<longleftrightarrow> a = c \<and> b = d \<or> a = d \<and> b = c"
  by (auto simp: ordered_pair_def split: if_splits)

lemma make_key_eq [simp]:
  "make_key k app a b = make_key k' app' c d \<longleftrightarrow> k = k' \<and> app = app' \<and> (a = c \<and> b = d \<or> a = d \<and> b = c)"
  by (simp add: make_key_def ordered_pair_eq)

text \<open>An answer about a pair only reads the rows of that pair.\<close>

lemma social_ask_unchanged:
  assumes "\<And>app a b. q = IsFriend app a b \<Longrightarrow> a \<noteq> b \<Longrightarrow> friend_key app a b \<in> set (so_friends s') \<longleftrightarrow> friend_key app a b \<in> set (so_friends s)"
    and "\<And>app a b. q = IsBlockedEither app a b \<Longrightarrow> (app, a, b) \<in> set (so_blocks s') \<longleftrightarrow> (app, a, b) \<in> set (so_blocks s)"
    and "\<And>app a b. q = IsBlockedEither app a b \<Longrightarrow> (app, b, a) \<in> set (so_blocks s') \<longleftrightarrow> (app, b, a) \<in> set (so_blocks s)"
  shows "social_ask q s' = social_ask q s"
  by (cases q) (use assms in \<open>auto simp: is_friend_def is_blocked_either_def\<close>)

lemma social_wr_local:
  assumes "social_wr w s = (r, s')" "social_key q \<notin> set (social_evicts w r)"
  shows "social_ask q s' = social_ask q s"
proof (rule social_ask_unchanged)
  fix app a b assume q: "q = IsFriend app a b"
  show "friend_key app a b \<in> set (so_friends s') \<longleftrightarrow> friend_key app a b \<in> set (so_friends s)"
    using assms unfolding q
    by (cases w) (auto simp: social_evicts_def social_pair_def no_outcome_def friend_key_eq social_request_def social_accept_def
        social_reject_def social_remove_def social_block_def social_unblock_def ensure_friends_def Let_def split: if_splits)
next
  fix app a b assume q: "q = IsBlockedEither app a b"
  show "(app, a, b) \<in> set (so_blocks s') \<longleftrightarrow> (app, a, b) \<in> set (so_blocks s)"
    using assms unfolding q
    by (cases w) (auto simp: social_evicts_def social_pair_def no_outcome_def social_request_def social_accept_def
        social_reject_def social_remove_def social_block_def social_unblock_def ensure_friends_def Let_def split: if_splits)
  show "(app, b, a) \<in> set (so_blocks s') \<longleftrightarrow> (app, b, a) \<in> set (so_blocks s)"
    using assms unfolding q
    by (cases w) (auto simp: social_evicts_def social_pair_def no_outcome_def social_request_def social_accept_def
        social_reject_def social_remove_def social_block_def social_unblock_def ensure_friends_def Let_def split: if_splits)
qed

interpretation sc: cached_directory social_key social_evicts social_ask social_wr "\<lambda>_. True"
proof unfold_locales
  show "social_ask q s = social_ask q' s" if "social_key q = social_key q'" for q q' s
    using that by (cases q; cases q') (auto simp: is_friend_def is_blocked_either_def friend_key_sym)
  show "social_ask q s' = social_ask q s" if "social_wr w s = (r, s')" "social_key q \<notin> set (social_evicts w r)" for w s r s' q
    by (rule social_wr_local[OF that])
qed

lemma wrap_agrees: "agrees key ask (cache_wrap ttl) s"
  by (rule agreesI) (simp_all add: cache_wrap_def)

text \<open>C38: The cache in front of the social directory cannot be told from the directory, as long as calls do not overlap.
  For every time to live, every clock and every sequence of \<open>is_friend\<close> and \<open>is_blocked_either\<close> questions and of requests,
  accepts, rejections, removals, blocks, unblocks and forced friendships, the cached directory gives the same answer to every
  call as the directory without it and leaves it in the same state: in particular a block is seen by the next question, although
  the answer before it is still in its time to live.\<close>

theorem social_cache_equivalent:
  "fst (CachedSocial_run calls (cache_wrap ttl) s) = fst (plain_run social_ask social_wr calls s)
   \<and> snd (snd (CachedSocial_run calls (cache_wrap ttl) s)) = snd (plain_run social_ask social_wr calls s)"
  unfolding CachedSocial_run_def by (rule sc.run_equal) (simp_all add: wrap_agrees)

section \<open>The cache of user presence\<close>

definition absent_user :: UserPresence where
  "absent_user = \<lparr>up_exists = False, up_kind = 0, up_owner_account = []\<rparr>"

fun presence_ask :: "string \<times> string \<Rightarrow> MemoryUserDirectory \<Rightarrow> (UserError, UserPresence) result" where
  "presence_ask (app, account) d = Ok (case lookup app account d of Some p \<Rightarrow> p | None \<Rightarrow> absent_user)"

text \<open>The three questions that are answered from a presence.\<close>

definition presence_exists :: "UserPresence \<Rightarrow> bool" where
  "presence_exists p = up_exists p"

definition presence_bot_owner :: "UserPresence \<Rightarrow> string option" where
  "presence_bot_owner p =
     (if up_exists p \<and> up_kind p = PROFILE_KIND_BOT \<and> up_owner_account p \<noteq> [] then Some (up_owner_account p) else None)"

definition presence_lookup :: "UserPresence \<Rightarrow> UserPresence option" where
  "presence_lookup p = (if up_exists p then Some p else None)"

lemma presence_answers:
  assumes "presence_ask (app, account) d = Ok p"
  shows "presence_exists p = user_exists app account d" "presence_bot_owner p = bot_owner app account d"
    "presence_lookup p = lookup app account d"
  using assms
  by (auto simp: presence_exists_def user_exists_def presence_bot_owner_def bot_owner_def presence_lookup_def lookup_def
      absent_user_def presence_from_record_def PROFILE_KIND_BOT_def split: option.splits)

datatype user_write =
    UUpsert string string
  | UCreate string string string
  | UUpdateProfile string string ProfilePatch
  | USetPassword string string string
  | UBumpEpoch string string
  | USetPasswordBump string string string
  | UCreateBot "(IdError, int) result option" string CreateBot
  | UUpdateBot string string string BotPatch
  | UDeleteBot string string string

datatype user_written = RDone | RProfile UserProfile | REpoch nat | RBot BotRecord

definition res_as :: "('a \<Rightarrow> user_written) \<Rightarrow> ('e, 'a) result \<times> 's \<Rightarrow> ('e, user_written) result \<times> 's" where
  "res_as f x = (case fst x of Inl e \<Rightarrow> Err e | Inr a \<Rightarrow> Ok (f a), snd x)"

fun user_wr :: "user_write \<Rightarrow> MemoryUserDirectory \<Rightarrow> (UserError, user_written) result \<times> MemoryUserDirectory" where
  "user_wr (UUpsert app account) d = (Ok RDone, user_upsert app account d)"
| "user_wr (UCreate app account hash) d = res_as (\<lambda>_. RDone) (user_create app account hash d)"
| "user_wr (UUpdateProfile app account patch) d = res_as RProfile (update_profile app account patch d)"
| "user_wr (USetPassword app account hash) d = res_as (\<lambda>_. RDone) (set_password app account hash d)"
| "user_wr (UBumpEpoch app account) d = res_as REpoch (bump_token_epoch app account d)"
| "user_wr (USetPasswordBump app account hash) d = res_as REpoch (set_password_and_bump_epoch app account hash d)"
| "user_wr (UCreateBot idgen app req) d = res_as RBot (create_bot idgen app req d)"
| "user_wr (UUpdateBot app owner account patch) d = res_as RBot (update_bot app owner account patch d)"
| "user_wr (UDeleteBot app owner account) d = res_as (\<lambda>_. RDone) (delete_bot app owner account d)"

text \<open>A created bot is evicted under the account of the record the directory answers.\<close>

fun user_evicts :: "user_write \<Rightarrow> (UserError, user_written) result \<Rightarrow> (string \<times> string) list" where
  "user_evicts w (Inl e) = []"
| "user_evicts (UUpsert app account) (Inr r) = [(app, account)]"
| "user_evicts (UCreate app account hash) (Inr r) = [(app, account)]"
| "user_evicts (UCreateBot idgen app req) (Inr (RBot record)) = [(app, uf_account (br_profile record))]"
| "user_evicts (UUpdateBot app owner account patch) (Inr r) = [(app, account)]"
| "user_evicts (UDeleteBot app owner account) (Inr r) = [(app, account)]"
| "user_evicts w (Inr r) = []"

text \<open>A bot whose generated name is its owner's is stored before the friendship with itself is refused: \<open>create_bot\<close> then
  fails after its write, and nothing is evicted. Generated names start with \<open>b_\<close>.\<close>

fun bot_not_owner :: "user_write \<Rightarrow> bool" where
  "bot_not_owner (UCreateBot (Some (Inr i)) app req) = (cb_owner req \<noteq> ''b_'' @ base36_upper i)"
| "bot_not_owner w = True"

definition CachedUserDirectory_run ::
  "(nat \<times> nat \<times> (string \<times> string, user_write) call) list \<Rightarrow> (string \<times> string, UserPresence) ttl_cache \<Rightarrow> MemoryUserDirectory
   \<Rightarrow> ((UserError, UserPresence) result, (UserError, user_written) result) answer list
      \<times> (string \<times> string, UserPresence) ttl_cache \<times> MemoryUserDirectory" where
  "CachedUserDirectory_run = cached_run (\<lambda>k. k) user_evicts presence_ask user_wr"

lemma lookup_with_record:
  assumes "\<And>rec. presence_from_record (f rec) = presence_from_record rec"
  shows "lookup app account (snd (with_record app' account' f g d)) = lookup app account d"
  using assms by (auto simp: lookup_def with_record_def split: option.splits)

lemma lookup_befriend: "lookup app account (snd (befriend_bot app' owner account' x d)) = lookup app account d"
  by (simp add: lookup_def)

lemma lookup_touch_bot: "lookup app account (snd (touch_bot app' owner account' rec config d)) = lookup app account d"
  by (auto simp: touch_bot_def Let_def lookup_befriend lookup_def presence_from_record_def split: option.splits)

lemma draft_bot_name:
  "draft_bot next_id app req config d = Ok (account, rec) \<Longrightarrow> \<exists>i. next_id = Ok i \<and> account = ''b_'' @ base36_upper i"
  by (auto simp: draft_bot_def res_bind_def Let_def split: sum.splits if_splits)

lemma befriend_bot_result:
  assumes "ud_social d = Some so" "owner \<noteq> []" "account \<noteq> []" "owner \<noteq> account"
  shows "fst (befriend_bot app owner account x d) = Ok x"
  using assms by (simp add: befriend_bot_def ensure_friends_def)

text \<open>A successful creation changes the presence of the account it answers and of no other; one that fails changes none.\<close>

lemma create_bot_local:
  assumes "bot_not_owner (UCreateBot idgen app req)" "create_bot idgen app req d = (r, d')"
    "\<And>b. r = Ok b \<Longrightarrow> (app', account) \<noteq> (app, uf_account (br_profile b))"
  shows "lookup app' account d' = lookup app' account d"
proof (cases "d' = d")
  case False
  then obtain so next_id config where c: "ud_social d = Some so" "idgen = Some next_id" "cb_owner req \<noteq> []"
    and n: "(case find_bot_by_profile (ud_inner d) app (cb_owner req) (cb_client_profile_id req) of
              Some (account, rec) \<Rightarrow> touch_bot app (cb_owner req) account rec config d
            | None \<Rightarrow> (case draft_bot next_id app req config d of
                  Inl e \<Rightarrow> (Err e, d) | Inr draft \<Rightarrow> commit_bot app req config draft d)) = (r, d')"
    using assms(2) by (auto simp: create_bot_def split: option.splits if_splits sum.splits)
  show ?thesis
  proof (cases "find_bot_by_profile (ud_inner d) app (cb_owner req) (cb_client_profile_id req)")
    case (Some x)
    then show ?thesis
      using n lookup_touch_bot[of app' account app "cb_owner req" "fst x" "snd x" config d] by (cases x) simp
  next
    case None
    obtain acc rec where dr: "draft_bot next_id app req config d = Ok (acc, rec)"
      using n None False by (auto split: sum.splits)
    obtain i where i: "next_id = Ok i" "acc = ''b_'' @ base36_upper i" using draft_bot_name[OF dr] by blast
    define d1 where "d1 = d\<lparr>ud_inner := hput (app, acc) rec (ud_inner d)\<rparr>"
    obtain b where b: "befriend_bot app (cb_owner req) acc b d1 = (r, d')" "uf_account (br_profile b) = acc"
      using n None dr False by (auto simp: commit_bot_def d1_def split: if_splits)
    have "r = Ok b"
      using befriend_bot_result[of d1 so "cb_owner req" acc app b] b(1) assms(1) c i by (simp add: d1_def)
    then have "(app', account) \<noteq> (app, acc)" using assms(3) b(2) by blast
    moreover have "ud_inner d' = ud_inner d1" using b(1) ud_inner_befriend[of app "cb_owner req" acc b d1] by simp
    ultimately show ?thesis by (auto simp: lookup_def d1_def)
  qed
qed simp

lemmas presence_kept = lookup_with_record presence_from_record_def

lemma user_wr_local:
  assumes "bot_not_owner w" "user_wr w d = (r, d')" "(app, account) \<notin> set (user_evicts w r)"
  shows "lookup app account d' = lookup app account d"
proof (cases w)
  case (UUpsert app' account')
  then show ?thesis using assms by (auto simp: user_upsert_def lookup_def hget_hor_insert)
next
  case (UCreate app' account' hash)
  then show ?thesis using assms by (auto simp: res_as_def user_create_def lookup_def split: option.splits)
next
  case (UUpdateProfile app' account' patch)
  then show ?thesis using assms(2) by (auto simp: res_as_def update_profile_def presence_kept split: sum.splits)
next
  case (UCreateBot idgen app' req)
  obtain x where x: "create_bot idgen app' req d = (x, d')" using assms(2) UCreateBot
    by (cases "create_bot idgen app' req d") (auto simp: res_as_def)
  show ?thesis
    by (rule create_bot_local[OF _ x]) (use assms x UCreateBot in \<open>auto simp: res_as_def split: sum.splits\<close>)
next
  case (UUpdateBot app' owner account' patch)
  then show ?thesis using assms(2) by (auto simp: res_as_def update_bot_def write_bot_def presence_kept split: sum.splits)
next
  case (UDeleteBot app' owner account')
  then show ?thesis using assms by (auto simp: res_as_def delete_bot_def lookup_def split: sum.splits)
qed (use assms(2) in \<open>auto simp: res_as_def set_password_def bump_token_epoch_def set_password_and_bump_epoch_def presence_kept\<close>)

interpretation uc: cached_directory "\<lambda>k. k" user_evicts presence_ask user_wr bot_not_owner
proof unfold_locales
  show "presence_ask q s' = presence_ask q s"
    if "bot_not_owner w" "user_wr w s = (r, s')" "q \<notin> set (user_evicts w r)" for w s r s' q
    using that user_wr_local[OF that(1,2)] by (cases q) simp
qed simp

text \<open>The same for the user directory: presence, existence and ownership asked through the cache are the directory's.\<close>

lemma user_cache_equivalent:
  assumes "\<And>now nanos w. (now, nanos, Write w) \<in> set calls \<Longrightarrow> bot_not_owner w"
  shows "fst (CachedUserDirectory_run calls (cache_wrap ttl) d) = fst (plain_run presence_ask user_wr calls d)
    \<and> snd (snd (CachedUserDirectory_run calls (cache_wrap ttl) d)) = snd (plain_run presence_ask user_wr calls d)"
  unfolding CachedUserDirectory_run_def by (rule uc.run_equal[OF wrap_agrees assms])

section \<open>Bounds\<close>

text \<open>An entry lives between four and six fifths of the time to live (at least a millisecond), and the cache never holds more
  entries than its capacity.\<close>

lemma jittered_ttl_bounds:
  assumes "0 < base"
  shows "1 \<le> jittered_ttl base nanos" "jittered_ttl base nanos \<le> base + max (base * 20 div 100) 1"
    "base - max (base * 20 div 100) 1 \<le> jittered_ttl base nanos"
proof -
  define span where "span = max (base * 20 div 100) 1"
  define delta where "delta = nanos mod (span * 2 + 1)"
  have d: "delta \<le> 2 * span"
    using mod_less_divisor[of "span * 2 + 1" nanos] unfolding delta_def by linarith
  have j: "jittered_ttl base nanos = nat (max 1 (int base + (int delta - int span)))"
    using assms by (simp add: jittered_ttl_def span_def delta_def Let_def)
  have *: "1 \<le> jittered_ttl base nanos \<and> jittered_ttl base nanos \<le> base + span \<and> base - span \<le> jittered_ttl base nanos"
    unfolding j using d assms by linarith
  then show "1 \<le> jittered_ttl base nanos" "jittered_ttl base nanos \<le> base + max (base * 20 div 100) 1"
    "base - max (base * 20 div 100) 1 \<le> jittered_ttl base nanos"
    by (simp_all add: span_def)
qed

lemma length_hdel_le: "length (hdel k m) \<le> length m"
  by (simp add: AList.delete_eq)

lemma length_hdel_less: "k \<in> fst ` set m \<Longrightarrow> length (hdel k m) < length m"
  by (induction m) (auto simp: AList.delete_eq le_imp_less_Suc)

lemma length_hdel_fold: "length (foldl (\<lambda>m k. hdel k m) m ks) \<le> length m"
proof (induction ks arbitrary: m)
  case (Cons k ks)
  then show ?case using order_trans[OF Cons length_hdel_le] by simp
qed simp

lemma length_hput_le: "length (hput k v m) \<le> Suc (length m)"
  by (induction m) auto

lemma evict_oldest_shrinks: "m \<noteq> [] \<Longrightarrow> length (evict_oldest_tenth m) < length m"
proof -
  assume m: "m \<noteq> []"
  define ks where "ks = map fst (take (max (length m div 10) 1) (sort_key (\<lambda>(k, e). ce_expire e) m))"
  have "length ks = min (length m) (max (length m div 10) 1)" by (simp add: ks_def)
  moreover have "0 < length m" using m by simp
  ultimately have "length ks \<noteq> 0" by linarith
  then have "ks \<noteq> []" by simp
  then obtain k ks' where ks: "ks = k # ks'" by (cases ks) auto
  have "set (take n (sort_key (\<lambda>(k, e). ce_expire e) m)) \<subseteq> set m" for n
    using set_take_subset[of n "sort_key (\<lambda>(k, e). ce_expire e) m"] by simp
  then have "set ks \<subseteq> fst ` set m" unfolding ks_def set_map by (rule image_mono)
  then have "k \<in> fst ` set m" using ks by auto
  then have "length (foldl (\<lambda>m k. hdel k m) m ks) < length m"
    using le_less_trans[OF length_hdel_fold[of "hdel k m" ks'] length_hdel_less] ks by simp
  then show ?thesis using m by (simp add: evict_oldest_tenth_def ks_def)
qed

lemma cache_store_bounded:
  assumes "0 < tc_cap c" "length (tc_entries c) \<le> tc_cap c"
  shows "length (tc_entries (cache_store now nanos key v c)) \<le> tc_cap c"
proof -
  define m where "m = (if tc_cap c \<le> length (tc_entries c) then evict_oldest_tenth (tc_entries c) else tc_entries c)"
  have "length m < tc_cap c"
    using assms evict_oldest_shrinks[of "tc_entries c"] unfolding m_def by auto
  then show ?thesis
    using assms(2) le_trans[OF length_hput_le[of key _ m]] by (simp add: cache_store_def Let_def m_def)
qed

section \<open>Overlapping calls\<close>

text \<open>A question that is under way when a pair is blocked: it has read the directory before the block, the block evicts
  nothing because nothing is stored yet, and then the old answer is stored. Until it expires the cache says that the pair
  is not blocked.\<close>

lemma stale_after_block:
  assumes "0 < ttl" "a \<noteq> b" "\<not> is_blocked_either app a b s"
    and begun: "cached_begin t0 (make_key BlockedEither app a b) (cache_wrap ttl) = (x, c1)"
    and blocked: "social_wr (WBlock app a b) s = (r, s1)"
    and stored: "c2 = cached_finish t1 nanos (make_key BlockedEither app a b) (social_ask (IsBlockedEither app a b) s)
      (cache_evict (social_evicts (WBlock app a b) r) c1)"
    and soon: "t2 < t1 + jittered_ttl ttl nanos"
  shows "x = Fetch \<and> is_blocked_either app a b s1
    \<and> fst (cached_ask t2 n (make_key BlockedEither app a b) (social_ask (IsBlockedEither app a b) s1) c2) = Ok False"
proof -
  have x: "x = Fetch" "c1 = (cache_wrap ttl)\<lparr>tc_inflight := [(make_key BlockedEither app a b, 0)]\<rparr>"
    using begun assms(1) by (auto simp: cached_begin_def cache_lookup_def cache_wrap_def)
  have s1: "is_blocked_either app a b s1" "r = Ok None"
    using blocked assms(2) by (auto simp: no_outcome_def social_block_def is_blocked_either_def)
  have "hget (tc_entries c2) (make_key BlockedEither app a b) = Some \<lparr>ce_value = False, ce_expire = t1 + jittered_ttl ttl nanos\<rparr>"
    "tc_ttl c2 = ttl"
    using assms(1,3) x s1(2)
    by (simp_all add: stored cached_finish_def cache_store_def cache_evict_def social_evicts_def social_pair_def cache_wrap_def
        DEFAULT_CAP_def Let_def)
  then show ?thesis
    using x s1 soon assms(1) by (simp add: cached_ask_def cached_begin_def cache_lookup_def)
qed

end
