(* ===== verification/Kim_Sdk_Model.thy ===== *)
theory Kim_Sdk_Model
  imports Kim_Client_Wire
begin

text \<open>
  The closed sets of the client SDK, \<open>crates/kim-sdk/src\<close>: kinds of threads and media with their column and wire forms, the
  classification of message bodies and the preview of a thread (\<open>model.rs\<close>), the keys of local rows (\<open>ids.rs\<close>), the states of a
  send (\<open>command.rs\<close>) and the errors with what is retried (\<open>error.rs\<close>). The JSON parser is third-party code: \<open>json_parse\<close>
  gives the fields of a text that is a JSON object.
\<close>

section \<open>Kinds\<close>

datatype ThreadKind = UserThread | GroupThread

fun ThreadKind_as_wire :: "ThreadKind \<Rightarrow> int" where
  "ThreadKind_as_wire UserThread = INBOX_KIND_USER"
| "ThreadKind_as_wire GroupThread = INBOX_KIND_GROUP"

definition ThreadKind_from_wire :: "int \<Rightarrow> ThreadKind" where
  "ThreadKind_from_wire kind = (if kind = INBOX_KIND_GROUP then GroupThread else UserThread)"

fun ThreadKind_as_db :: "ThreadKind \<Rightarrow> string" where
  "ThreadKind_as_db UserThread = ''user''"
| "ThreadKind_as_db GroupThread = ''group''"

definition ThreadKind_from_db :: "string \<Rightarrow> ThreadKind" where
  "ThreadKind_from_db name = (if name = ''group'' then GroupThread else UserThread)"

datatype MediaKind = TextMedia | ImageMedia | VideoMedia | VoiceMedia | CardMedia

fun MediaKind_as_wire :: "MediaKind \<Rightarrow> int" where
  "MediaKind_as_wire TextMedia = MESSAGE_TYPE_TEXT"
| "MediaKind_as_wire CardMedia = MESSAGE_TYPE_TEXT"
| "MediaKind_as_wire ImageMedia = MESSAGE_TYPE_IMAGE"
| "MediaKind_as_wire VideoMedia = MESSAGE_TYPE_VIDEO"
| "MediaKind_as_wire VoiceMedia = MESSAGE_TYPE_VOICE"

definition MediaKind_from_wire :: "int \<Rightarrow> MediaKind" where
  "MediaKind_from_wire kind =
     (if kind = MESSAGE_TYPE_IMAGE then ImageMedia else if kind = MESSAGE_TYPE_VIDEO then VideoMedia
      else if kind = MESSAGE_TYPE_VOICE then VoiceMedia else TextMedia)"

fun MediaKind_as_db :: "MediaKind \<Rightarrow> string" where
  "MediaKind_as_db TextMedia = ''text''"
| "MediaKind_as_db ImageMedia = ''image''"
| "MediaKind_as_db VideoMedia = ''video''"
| "MediaKind_as_db VoiceMedia = ''voice''"
| "MediaKind_as_db CardMedia = ''card''"

section \<open>Errors\<close>

datatype SdkError =
    NotFriends string | SdkBlocked string | UserNotFound string | CannotChatSelf | AuthExpired | SdkUnauthorized
  | SdkNotConnected | StorageFull | SqliteBusy | Disk string | RateLimited int | PayloadTooLarge int int
  | UnsupportedMedia string | SdkBusy string | StaleEpoch nat nat | SdkNotFound string | InvalidArgument string
  | BootstrapMissing | SdkProtocol int | Internal string

fun retryable :: "SdkError \<Rightarrow> bool" where
  "retryable SdkNotConnected = True"
| "retryable (SdkBusy _) = True"
| "retryable SqliteBusy = True"
| "retryable (RateLimited _) = True"
| "retryable _ = False"

definition ends_identity :: "SdkError \<Rightarrow> bool" where
  "ends_identity e \<longleftrightarrow> e = AuthExpired \<or> e = SdkUnauthorized"

definition retryable_send :: "SdkError \<Rightarrow> bool" where
  "retryable_send e \<longleftrightarrow> retryable e \<or> (case e of SdkProtocol status \<Rightarrow> status = 3 \<or> (300 \<le> status \<and> status < 400) | _ \<Rightarrow> False)"

definition status_to_sdk_error :: "int \<Rightarrow> string \<Rightarrow> SdkError" where
  "status_to_sdk_error status dest =
     (if status = 109 then NotFriends dest else if status = 110 then SdkBlocked dest else if status = 108 then UserNotFound dest
      else if status = 101 then SdkProtocol 101 else if status = 105 then SdkUnauthorized else SdkProtocol status)"

text \<open>What SQLite reports: the primary result code is in the low byte.\<close>

definition map_sqlite_code :: "int option \<Rightarrow> SdkError" where
  "map_sqlite_code code =
     (case code of
        Some c \<Rightarrow>
          let p = c mod 256 in
          if p = 5 \<or> p = 6 then SqliteBusy else if p = 13 then StorageFull else Disk ''sqlite error''
      | None \<Rightarrow> Disk ''sqlite error'')"

definition MediaKind_from_db :: "string \<Rightarrow> (SdkError, MediaKind) result" where
  "MediaKind_from_db name =
     (if name = ''text'' then Ok TextMedia else if name = ''image'' then Ok ImageMedia else if name = ''video'' then Ok VideoMedia
      else if name = ''voice'' then Ok VoiceMedia else if name = ''card'' then Ok CardMedia
      else Err (InvalidArgument (''unknown media kind '' @ name)))"

lemma kind_roundtrips [kim_codec, simp]:
  "MediaKind_from_db (MediaKind_as_db m) = Ok m"
  "ThreadKind_from_db (ThreadKind_as_db t) = t"
  "ThreadKind_from_wire (ThreadKind_as_wire t) = t"
  by (cases m; simp add: MediaKind_from_db_def)
    (cases t; simp add: ThreadKind_from_db_def ThreadKind_from_wire_def INBOX_KIND_USER_def INBOX_KIND_GROUP_def)+

section \<open>The state of a send\<close>

datatype SendStatus = Pending | Uploading | Sending | SentStatus | FailedStatus | CancelledStatus

fun SendStatus_as_str :: "SendStatus \<Rightarrow> string" where
  "SendStatus_as_str Pending = ''pending''"
| "SendStatus_as_str Uploading = ''uploading''"
| "SendStatus_as_str Sending = ''sending''"
| "SendStatus_as_str SentStatus = ''sent''"
| "SendStatus_as_str FailedStatus = ''failed''"
| "SendStatus_as_str CancelledStatus = ''cancelled''"

definition SendStatus_from_db :: "string \<Rightarrow> SendStatus" where
  "SendStatus_from_db raw =
     (if raw = ''pending'' \<or> raw = ''sending'' then Pending else if raw = ''uploading'' then Uploading
      else if raw = ''sent'' then SentStatus else if raw = ''failed'' then FailedStatus
      else if raw = ''cancelled'' then CancelledStatus else SentStatus)"

fun message_status :: "SendStatus \<Rightarrow> string" where
  "message_status Pending = ''sending''"
| "message_status Uploading = ''sending''"
| "message_status Sending = ''sending''"
| "message_status SentStatus = ''sent''"
| "message_status FailedStatus = ''failed''"
| "message_status CancelledStatus = ''cancelled''"

section \<open>Keys of rows\<close>

definition incoming_message_key :: "int \<Rightarrow> int \<Rightarrow> string \<Rightarrow> string" where
  "incoming_message_key message_id send_time sender =
     (if message_id \<noteq> 0 then CHR ''m'' # show_int message_id else ''talk-'' @ show_int send_time @ ''-'' @ sender)"

definition is_client_key :: "string \<Rightarrow> bool" where
  "is_client_key key \<longleftrightarrow> length key = 36 \<and> key ! 8 = CHR ''-'' \<and> key ! 13 = CHR ''-'' \<and> key ! 18 = CHR ''-'' \<and> key ! 23 = CHR ''-''"

definition prefer_key :: "string \<Rightarrow> string \<Rightarrow> string" where
  "prefer_key a b =
     (if is_client_key a \<and> \<not> is_client_key b then a else if is_client_key b \<and> \<not> is_client_key a then b else a)"

text \<open>The key of a numbered message is never a client key: behind the letter there is at most one sign.\<close>

lemma numbered_not_client: "message_id \<noteq> 0 \<Longrightarrow> \<not> is_client_key (incoming_message_key message_id send_time sender)"
proof
  assume m: "message_id \<noteq> 0" and c: "is_client_key (incoming_message_key message_id send_time sender)"
  then have l: "length (show_int message_id) = 35" "show_int message_id ! 7 = CHR ''-''"
    by (simp_all add: incoming_message_key_def is_client_key_def nth_Cons split: nat.splits)
  have dash: "CHR ''-'' \<notin> set (show_nat n)" for n
    by (rule show_nat_no_char) (simp add: is_digit_def)
  show False
  proof (cases "message_id < 0")
    case True
    then have "length (show_nat (nat (- message_id))) = 34" "show_nat (nat (- message_id)) ! 6 = CHR ''-''"
      using l by (simp_all add: show_int_def)
    then show False using dash[of "nat (- message_id)"] nth_mem[of 6 "show_nat (nat (- message_id))"] by simp
  next
    case False
    then have "length (show_nat (nat message_id)) = 35" "show_nat (nat message_id) ! 7 = CHR ''-''"
      using l by (simp_all add: show_int_def)
    then show False using dash[of "nat message_id"] nth_mem[of 7 "show_nat (nat message_id)"] by simp
  qed
qed

section \<open>Classification\<close>

datatype json = JStr string | JBool bool | JInt int | JOther string

type_synonym json_parse = "string \<Rightarrow> (string \<rightharpoonup> json) option"

fun json_to_string :: "json \<Rightarrow> string" where
  "json_to_string (JStr s) = s"
| "json_to_string (JBool b) = (if b then ''true'' else ''false'')"
| "json_to_string (JInt i) = show_int i"
| "json_to_string (JOther s) = s"

definition json_string :: "json option \<Rightarrow> string" where
  "json_string v = (case v of None \<Rightarrow> [] | Some j \<Rightarrow> json_to_string j)"

fun as_str :: "json option \<Rightarrow> string option" where
  "as_str (Some (JStr s)) = Some s"
| "as_str _ = None"

fun as_i64 :: "json option \<Rightarrow> int option" where
  "as_i64 (Some (JInt i)) = Some i"
| "as_i64 _ = None"

fun as_bool :: "json option \<Rightarrow> bool option" where
  "as_bool (Some (JBool b)) = Some b"
| "as_bool _ = None"

datatype AgentCardType = ToolCard | ActionRequired
datatype AgentCardState = CardPending | CardOk | CardError

record AgentCard =
  cd_call_id :: string
  cd_name :: string
  cd_type :: AgentCardType
  cd_state :: AgentCardState
  cd_preview :: string
  cd_ok :: bool

definition parse_agent_card :: "json_parse \<Rightarrow> string \<Rightarrow> AgentCard option" where
  "parse_agent_card parse body =
     (case parse (trim body) of
        None \<Rightarrow> None
      | Some obj \<Rightarrow>
          let type_raw = as_str (obj ''type'');
              card_type = (if type_raw = Some ''action_required'' then Some ActionRequired
                else if type_raw = Some ''tool'' then Some ToolCard
                else if type_raw = None \<and> obj ''call_id'' \<noteq> None then Some ToolCard else None);
              state_raw = (case as_str (obj ''state'') of Some s \<Rightarrow> s | None \<Rightarrow> ''pending'');
              state = (if state_raw = ''ok'' then CardOk else if state_raw = ''error'' then CardError else CardPending)
          in map_option (\<lambda>t. \<lparr>cd_call_id = json_string (obj ''call_id''), cd_name = json_string (obj ''name''), cd_type = t,
               cd_state = state, cd_preview = json_string (obj ''preview''),
               cd_ok = (as_bool (obj ''ok'') = Some True \<or> state = CardOk)\<rparr>) card_type)"

definition starts_with :: "string \<Rightarrow> string \<Rightarrow> bool" where
  "starts_with p s \<longleftrightarrow> take (length p) s = p"

definition ends_with :: "string \<Rightarrow> string \<Rightarrow> bool" where
  "ends_with p s \<longleftrightarrow> starts_with (rev p) (rev s)"

definition until_any :: "char list \<Rightarrow> string \<Rightarrow> string" where
  "until_any seps s = takeWhile (\<lambda>c. c \<notin> set seps) s"

definition ascii_lower :: "char \<Rightarrow> char" where
  "ascii_lower c = (let n = (of_char c :: nat) in if 65 \<le> n \<and> n \<le> 90 then char_of (n + 32) else c)"

definition extension_kind :: "string \<Rightarrow> MediaKind option" where
  "extension_kind path =
     (let stem = until_any ''?#'' (map ascii_lower path) in
      if \<exists>x \<in> set [''.mp4'', ''.mov'', ''.webm'', ''.m4v'']. ends_with x stem then Some VideoMedia
      else if \<exists>x \<in> set [''.jpg'', ''.jpeg'', ''.png'', ''.webp'', ''.gif'']. ends_with x stem then Some ImageMedia
      else None)"

definition MEDIA_HOST :: string where "MEDIA_HOST = ''media.kim.ainexc.com''"

definition is_remote_url :: "string \<Rightarrow> bool" where
  "is_remote_url body \<longleftrightarrow> starts_with ''http://'' body \<or> starts_with ''https://'' body"

text \<open>The part of a URL behind the first \<open>://\<close>, up to the next one.\<close>

fun after_scheme :: "string \<Rightarrow> string option" where
  "after_scheme [] = None"
| "after_scheme (c # s) = (if starts_with ''://'' (c # s) then Some (drop 3 (c # s)) else after_scheme s)"

fun until_scheme :: "string \<Rightarrow> string" where
  "until_scheme [] = []"
| "until_scheme (c # s) = (if starts_with ''://'' (c # s) then [] else c # until_scheme s)"

definition media_kind_from_url :: "string \<Rightarrow> MediaKind option" where
  "media_kind_from_url body =
     (let url = trim body in
      if \<not> is_remote_url url then extension_kind url
      else case extension_kind (until_any ''?#'' url) of
          Some kind \<Rightarrow> Some kind
        | None \<Rightarrow>
            let host = (case after_scheme url of None \<Rightarrow> [] | Some rest \<Rightarrow> until_any ''/?#'' (until_scheme rest)) in
            if map ascii_lower host = map ascii_lower MEDIA_HOST then Some ImageMedia else None)"

definition classify_kind :: "json_parse \<Rightarrow> int \<Rightarrow> string \<Rightarrow> MediaKind" where
  "classify_kind parse msg_type body =
     (if msg_type = MESSAGE_TYPE_IMAGE then ImageMedia
      else if msg_type = MESSAGE_TYPE_VIDEO then VideoMedia
      else if msg_type = MESSAGE_TYPE_VOICE then VoiceMedia
      else if parse_agent_card parse body \<noteq> None then CardMedia
      else case media_kind_from_url body of Some kind \<Rightarrow> kind | None \<Rightarrow> TextMedia)"

definition clamp_dim :: "int option \<Rightarrow> int" where
  "clamp_dim v = (case v of None \<Rightarrow> 0 | Some i \<Rightarrow> max 0 (min i32_max i))"

definition parse_image_extra :: "json_parse \<Rightarrow> string \<Rightarrow> int \<times> int" where
  "parse_image_extra parse extra =
     (let raw = trim extra in
      if \<not> starts_with ''{'' raw then (0, 0)
      else case parse raw of
          None \<Rightarrow> (0, 0)
        | Some v \<Rightarrow> (clamp_dim (as_i64 (v ''w'')), clamp_dim (as_i64 (v ''h''))))"

text \<open>The marker in the \<open>extra\<close> column of a bot reply.\<close>

definition encode_bot_reply_extra :: "int \<Rightarrow> string" where
  "encode_bot_reply_extra in_reply_to = ''{\"bot_reply\":1,\"in_reply_to\":'' @ show_int in_reply_to @ ''}''"

definition bot_reply_in_reply_to :: "json_parse \<Rightarrow> string \<Rightarrow> int option" where
  "bot_reply_in_reply_to parse extra =
     (case parse extra of
        None \<Rightarrow> None
      | Some v \<Rightarrow>
          (case v ''bot_reply'' of
             None \<Rightarrow> None
           | Some marker \<Rightarrow>
               if as_i64 (Some marker) = Some 1 \<or> as_bool (Some marker) = Some True then as_i64 (v ''in_reply_to'') else None))"

end
