(* ===== verification/Kim_Sdk_Store.thy ===== *)
theory Kim_Sdk_Store
  imports Kim_Sdk_Model
begin

text \<open>
  The local store of the client SDK, \<open>crates/kim-sdk/src/store\<close>: the tables of conversations, messages, unsent messages and
  read positions as maps from their primary keys to rows, a definition per SQL statement, the transactions of \<open>mod.rs\<close> and the
  worker that runs them one after the other. A statement that would break the unique index on message numbers is an error, and
  a failed transaction leaves the tables as they were. The clock is read once per transaction.
\<close>

section \<open>Tables\<close>

definition MAX_MESSAGES :: nat where "MAX_MESSAGES = 400"

record MessageRow =
  mr_sender :: string
  mr_body :: string
  mr_at :: int
  mr_sys :: bool
  mr_failed :: bool
  mr_kind :: MediaKind
  mr_width :: int
  mr_height :: int
  mr_message_id :: int
  mr_batch_id :: string
  mr_status :: string
  mr_local_path :: string
  mr_thread_kind :: ThreadKind

record SdkOutboxRow =
  ob_dest :: string
  ob_kind :: int
  ob_payload_type :: int
  ob_body :: string
  ob_extra :: string
  ob_local_path :: string
  ob_mime :: string
  ob_width :: int
  ob_height :: int
  ob_byte_size :: int
  ob_batch_id :: string
  ob_status :: string
  ob_attempt :: int
  ob_next_attempt_at :: int
  ob_message_id :: int
  ob_last_error :: string
  ob_created_at :: int
  ob_updated_at :: int

record StoredThread =
  th_kind :: ThreadKind
  th_title :: string
  th_avatar :: string
  th_last_body :: string
  th_last_kind :: MediaKind
  th_last_sys :: bool
  th_last_at :: int
  th_unread :: int
  th_last_message_id :: int

record Watermark =
  wm_last_read_message_id :: int
  wm_last_read_at :: int
  wm_kind :: int
  wm_confirmed_message_id :: int
  wm_retry_count :: int
  wm_next_retry_at :: int
  wm_last_error :: string

record ReadStateRow =
  rs_kind :: int
  rs_server_version :: int
  rs_server_read_id :: int
  rs_server_max_message_id :: int
  rs_server_unread :: int
  rs_local_generation :: int
  rs_known_max_message_id :: int

type_synonym messages_table = "(string \<times> string \<times> string, MessageRow) hmap"

record db =
  t_messages :: messages_table
  t_outbox :: "(string \<times> string, SdkOutboxRow) hmap"
  t_threads :: "(string \<times> string, StoredThread) hmap"
  t_watermarks :: "(string \<times> string, Watermark) hmap"
  t_read_state :: "(string \<times> string, ReadStateRow) hmap"
  t_timeline :: "(string \<times> string, int) hmap"

definition db_new :: db where
  "db_new = \<lparr>t_messages = [], t_outbox = [], t_threads = [], t_watermarks = [], t_read_state = [], t_timeline = []\<rparr>"

text \<open>\<open>UPDATE \<dots> WHERE\<close> on a table.\<close>

definition hmodify :: "('k \<Rightarrow> 'v \<Rightarrow> bool) \<Rightarrow> ('v \<Rightarrow> 'v) \<Rightarrow> ('k, 'v) hmap \<Rightarrow> ('k, 'v) hmap" where
  "hmodify P f m = map (\<lambda>(k, v). (k, if P k v then f v else v)) m"

lemma hget_hmodify [kim_map, simp]: "hget (hmodify P f m) k = map_option (\<lambda>v. if P k v then f v else v) (hget m k)"
  by (induction m) (auto simp: hmodify_def)

lemma keys_hmodify [simp]: "map fst (hmodify P f m) = map fst m"
  by (induction m) (auto simp: hmodify_def)

text \<open>The unique index on (account, conversation, message number) for messages with a number.\<close>

definition mid_key :: "(string \<times> string \<times> string) \<times> MessageRow \<Rightarrow> string \<times> string \<times> int" where
  "mid_key e = (case e of ((account, dest, key), r) \<Rightarrow> (account, dest, mr_message_id r))"

definition mid_unique :: "messages_table \<Rightarrow> bool" where
  "mid_unique m \<longleftrightarrow> distinct (map mid_key (filter (\<lambda>(k, r). mr_message_id r \<noteq> 0) m))"

definition put_messages :: "messages_table \<Rightarrow> db \<Rightarrow> (SdkError, db) result" where
  "put_messages m d = (if mid_unique m then Ok (d\<lparr>t_messages := m\<rparr>) else Err (Disk ''sqlite error''))"

section \<open>Messages\<close>

record StoredMsg =
  sm_key :: string
  sm_dest :: string
  sm_sender :: string
  sm_body :: string
  sm_at :: int
  sm_sys :: bool
  sm_kind :: MediaKind
  sm_width :: int
  sm_height :: int
  sm_message_id :: int
  sm_batch_id :: string
  sm_status :: string
  sm_local_path :: string
  sm_thread_kind :: ThreadKind

definition stored_from_row :: "string \<Rightarrow> string \<Rightarrow> MessageRow \<Rightarrow> StoredMsg" where
  "stored_from_row dest key r =
     \<lparr>sm_key = key, sm_dest = dest, sm_sender = mr_sender r, sm_body = mr_body r, sm_at = mr_at r, sm_sys = mr_sys r,
      sm_kind = mr_kind r, sm_width = mr_width r, sm_height = mr_height r, sm_message_id = mr_message_id r,
      sm_batch_id = mr_batch_id r, sm_status = mr_status r, sm_local_path = mr_local_path r, sm_thread_kind = mr_thread_kind r\<rparr>"

record OwnInsert =
  oi_dest :: string
  oi_key :: string
  oi_sender :: string
  oi_body :: string
  oi_at :: int
  oi_kind :: MediaKind
  oi_width :: int
  oi_height :: int
  oi_batch_id :: string
  oi_status :: SendStatus
  oi_local_path :: string
  oi_thread_kind :: ThreadKind

definition insert_own :: "string \<Rightarrow> OwnInsert \<Rightarrow> db \<Rightarrow> (SdkError, db) result" where
  "insert_own account row d =
     (let k = (account, oi_dest row, oi_key row);
          r = (case hget (t_messages d) k of
             None \<Rightarrow> \<lparr>mr_sender = oi_sender row, mr_body = oi_body row, mr_at = oi_at row, mr_sys = False,
                mr_failed = (oi_status row = FailedStatus), mr_kind = oi_kind row, mr_width = oi_width row,
                mr_height = oi_height row, mr_message_id = 0, mr_batch_id = oi_batch_id row,
                mr_status = message_status (oi_status row), mr_local_path = oi_local_path row,
                mr_thread_kind = oi_thread_kind row\<rparr>
           | Some r \<Rightarrow> r\<lparr>mr_body := oi_body row, mr_at := oi_at row, mr_failed := (oi_status row = FailedStatus),
                mr_kind := oi_kind row, mr_width := oi_width row, mr_height := oi_height row,
                mr_batch_id := oi_batch_id row, mr_status := message_status (oi_status row),
                mr_local_path := oi_local_path row, mr_thread_kind := oi_thread_kind row\<rparr>)
      in put_messages (hput k r (t_messages d)) d)"

definition live_status :: "string \<Rightarrow> bool" where
  "live_status s \<longleftrightarrow> s \<noteq> ''sent'' \<and> s \<noteq> ''cancelled''"

definition live_ids :: "string \<Rightarrow> string \<Rightarrow> db \<Rightarrow> string list" where
  "live_ids account dest d =
     map (\<lambda>((a, c), o'). c) (filter (\<lambda>((a, c), o'). a = account \<and> ob_dest o' = dest \<and> live_status (ob_status o')) (t_outbox d))"

definition conversation :: "string \<Rightarrow> string \<Rightarrow> db \<Rightarrow> (string \<times> MessageRow) list" where
  "conversation account dest d =
     map (\<lambda>((a, c, k), r). (k, r)) (filter (\<lambda>((a, c, k), r). a = account \<and> c = dest) (t_messages d))"

definition newest_first :: "(string \<times> MessageRow) list \<Rightarrow> (string \<times> MessageRow) list" where
  "newest_first rows = rev (sort_key (\<lambda>(k, r). (mr_at r, k)) rows)"

definition prune :: "string \<Rightarrow> string \<Rightarrow> db \<Rightarrow> db" where
  "prune account dest d =
     (let live = live_ids account dest d;
          newest = map fst (take MAX_MESSAGES (newest_first (conversation account dest d)))
      in d\<lparr>t_messages := hretain (\<lambda>(a, c, k) r. \<not> (a = account \<and> c = dest) \<or> k \<in> set live \<or> k \<in> set newest) (t_messages d)\<rparr>)"

definition bump_timeline_version :: "string \<Rightarrow> string \<Rightarrow> db \<Rightarrow> db" where
  "bump_timeline_version account dest d =
     d\<lparr>t_timeline := hput (account, dest) (case hget (t_timeline d) (account, dest) of None \<Rightarrow> 1 | Some v \<Rightarrow> v + 1) (t_timeline d)\<rparr>"

definition find_by_mid :: "string \<Rightarrow> string \<Rightarrow> int \<Rightarrow> db \<Rightarrow> StoredMsg option" where
  "find_by_mid account dest mid d =
     map_option (\<lambda>(k, r). stored_from_row dest k r)
       (List.find (\<lambda>(k, r). mr_message_id r = mid \<and> mr_message_id r \<noteq> 0) (conversation account dest d))"

definition find_by_key :: "string \<Rightarrow> string \<Rightarrow> string \<Rightarrow> db \<Rightarrow> StoredMsg option" where
  "find_by_key account dest key d = map_option (stored_from_row dest key) (hget (t_messages d) (account, dest, key))"

definition delete_key :: "string \<Rightarrow> string \<Rightarrow> string \<Rightarrow> db \<Rightarrow> db" where
  "delete_key account dest key d = d\<lparr>t_messages := hdel (account, dest, key) (t_messages d)\<rparr>"

definition put_msg :: "string \<Rightarrow> StoredMsg \<Rightarrow> db \<Rightarrow> (SdkError, db) result" where
  "put_msg account m d =
     (let k = (account, sm_dest m, sm_key m);
          r = (case hget (t_messages d) k of
             None \<Rightarrow> \<lparr>mr_sender = sm_sender m, mr_body = sm_body m, mr_at = sm_at m, mr_sys = sm_sys m, mr_failed = False,
                mr_kind = sm_kind m, mr_width = sm_width m, mr_height = sm_height m, mr_message_id = sm_message_id m,
                mr_batch_id = sm_batch_id m, mr_status = sm_status m, mr_local_path = sm_local_path m,
                mr_thread_kind = sm_thread_kind m\<rparr>
           | Some r \<Rightarrow> r\<lparr>mr_sender := sm_sender m, mr_body := sm_body m, mr_at := sm_at m, mr_sys := sm_sys m,
                mr_kind := sm_kind m, mr_width := sm_width m, mr_height := sm_height m,
                mr_message_id := (if sm_message_id m \<noteq> 0 then sm_message_id m else mr_message_id r),
                mr_batch_id := (if sm_batch_id m \<noteq> [] then sm_batch_id m else mr_batch_id r),
                mr_status := sm_status m,
                mr_local_path := (if sm_local_path m \<noteq> [] then sm_local_path m else mr_local_path r),
                mr_thread_kind := sm_thread_kind m\<rparr>)
      in put_messages (hput k r (t_messages d)) d)"

definition merge_stored :: "StoredMsg \<Rightarrow> StoredMsg \<Rightarrow> StoredMsg" where
  "merge_stored prev nxt =
     \<lparr>sm_key = sm_key prev, sm_dest = sm_dest prev,
      sm_sender = (if sm_sender nxt = [] then sm_sender prev else sm_sender nxt),
      sm_body = (if is_remote_url (sm_body prev) \<and> \<not> is_remote_url (sm_body nxt) then sm_body prev else sm_body nxt),
      sm_at = (if sm_at nxt = 0 then sm_at prev else sm_at nxt),
      sm_sys = sm_sys nxt, sm_kind = sm_kind nxt,
      sm_width = (if sm_width nxt = 0 then sm_width prev else sm_width nxt),
      sm_height = (if sm_height nxt = 0 then sm_height prev else sm_height nxt),
      sm_message_id = (if sm_message_id nxt = 0 then sm_message_id prev else sm_message_id nxt),
      sm_batch_id = (if sm_batch_id nxt = [] then sm_batch_id prev else sm_batch_id nxt),
      sm_status = sm_status nxt,
      sm_local_path = (if sm_local_path nxt = [] then sm_local_path prev else sm_local_path nxt),
      sm_thread_kind = (if sm_thread_kind nxt = UserThread then sm_thread_kind prev else sm_thread_kind nxt)\<rparr>"

definition i64_saturating_mul :: "int \<Rightarrow> int \<Rightarrow> int" where
  "i64_saturating_mul a b = max i64_min (min i64_max (a * b))"

definition i64_saturating_add :: "int \<Rightarrow> int \<Rightarrow> int" where
  "i64_saturating_add a b = max i64_min (min i64_max (a + b))"

definition send_time_ms :: "int \<Rightarrow> int \<Rightarrow> int" where
  "send_time_ms now send_time =
     (if send_time \<le> 0 then now
      else if send_time > 10000000000000000 then send_time div 1000000
      else if send_time > 100000000000000 then send_time div 1000
      else if send_time > 100000000000 then send_time
      else i64_saturating_mul send_time 1000)"

fun contains_str :: "string \<Rightarrow> string \<Rightarrow> bool" where
  "contains_str p [] = (p = [])"
| "contains_str p (c # s) = (starts_with p (c # s) \<or> contains_str p s)"

datatype UnreadPolicy = Keep | IfInserted

record ApplyOutcome =
  ao_dest :: string
  ao_inserted :: bool
  ao_unread_delta :: int
  ao_msg :: StoredMsg
  ao_fields_changed :: bool
  ao_had_loser :: bool

definition needs_publish :: "ApplyOutcome \<Rightarrow> bool" where
  "needs_publish o' \<longleftrightarrow> ao_inserted o' \<or> ao_unread_delta o' \<noteq> 0 \<or> ao_fields_changed o' \<or> ao_had_loser o'"

text \<open>The row an incoming message becomes, when it names a conversation and has a body.\<close>

definition incoming_row :: "json_parse \<Rightarrow> int \<Rightarrow> IncomingTalk \<Rightarrow> StoredMsg option" where
  "incoming_row parse now talk =
     (let dest = (if it_dest talk = [] then it_sender talk else it_dest talk) in
      if dest = [] \<or> it_body talk = [] then None
      else
        let sender = (if it_sender talk = [] then dest else it_sender talk);
            (width, height) = parse_image_extra parse (it_extra talk)
        in Some \<lparr>sm_key = incoming_message_key (it_message_id talk) (it_send_time talk) sender, sm_dest = dest, sm_sender = sender,
             sm_body = it_body talk, sm_at = send_time_ms now (it_send_time talk), sm_sys = False,
             sm_kind = classify_kind parse (it_msg_type talk) (it_body talk), sm_width = width, sm_height = height,
             sm_message_id = it_message_id talk, sm_batch_id = [], sm_status = ''sent'', sm_local_path = [],
             sm_thread_kind = (if contains_str ''group'' (it_command talk) then GroupThread else UserThread)\<rparr>)"

text \<open>A row with the number and a row with the key of the message: at most one survives.\<close>

definition choose_rows :: "StoredMsg option \<Rightarrow> StoredMsg option \<Rightarrow> StoredMsg option \<times> StoredMsg option" where
  "choose_rows by_mid by_key =
     (case (by_mid, by_key) of
        (Some mid, Some key_row) \<Rightarrow>
          if sm_key mid \<noteq> sm_key key_row then
            if prefer_key (sm_key key_row) (sm_key mid) = sm_key key_row then (Some key_row, Some mid) else (Some mid, Some key_row)
          else (Some mid, None)
      | (Some mid, None) \<Rightarrow> (Some mid, None)
      | (None, key_row) \<Rightarrow> (key_row, None))"

definition apply_talk ::
  "json_parse \<Rightarrow> int \<Rightarrow> string \<Rightarrow> IncomingTalk \<Rightarrow> UnreadPolicy \<Rightarrow> db \<Rightarrow> (SdkError, ApplyOutcome option \<times> db) result" where
  "apply_talk parse now account talk policy d =
     (case incoming_row parse now talk of
        None \<Rightarrow> Ok (None, d)
      | Some inc \<Rightarrow>
          let dest = sm_dest inc;
              by_mid = (if sm_message_id inc \<noteq> 0 then find_by_mid account dest (sm_message_id inc) d else None);
              by_key = find_by_key account dest (sm_key inc) d;
              (survivor, loser) = choose_rows by_mid by_key;
              inserted = (survivor = None);
              merged = (case survivor of None \<Rightarrow> inc | Some prev \<Rightarrow> merge_stored prev inc);
              had_loser = (case loser of None \<Rightarrow> False | Some l \<Rightarrow> sm_key l \<noteq> sm_key merged);
              d1 = (case loser of Some l \<Rightarrow> if sm_key l \<noteq> sm_key merged then delete_key account dest (sm_key l) d else d | None \<Rightarrow> d);
              unread_delta = (if policy = IfInserted \<and> inserted \<and> \<not> sm_sys merged \<and> sm_sender merged \<noteq> account then 1 else 0);
              fields_changed = (case survivor of None \<Rightarrow> True | Some prev \<Rightarrow> merged \<noteq> prev);
              out = \<lparr>ao_dest = dest, ao_inserted = inserted, ao_unread_delta = unread_delta, ao_msg = merged,
                     ao_fields_changed = fields_changed, ao_had_loser = had_loser\<rparr>
          in if \<not> (inserted \<or> unread_delta \<noteq> 0 \<or> fields_changed \<or> had_loser)
             then Ok (Some (out\<lparr>ao_fields_changed := False, ao_had_loser := False\<rparr>), d1)
             else res_bind (put_msg account merged d1) (\<lambda>d2. Ok (Some out, d2)))"

section \<open>Unsent messages\<close>

definition outbox_insert :: "string \<Rightarrow> string \<Rightarrow> SdkOutboxRow \<Rightarrow> db \<Rightarrow> db" where
  "outbox_insert account client_id row d =
     (let r = (case hget (t_outbox d) (account, client_id) of
         None \<Rightarrow> row\<lparr>ob_attempt := 0, ob_next_attempt_at := 0, ob_message_id := 0, ob_last_error := []\<rparr>
       | Some r \<Rightarrow> row\<lparr>ob_attempt := ob_attempt r, ob_next_attempt_at := ob_next_attempt_at r, ob_message_id := ob_message_id r,
           ob_last_error := ob_last_error r, ob_created_at := ob_created_at r\<rparr>)
      in d\<lparr>t_outbox := hput (account, client_id) r (t_outbox d)\<rparr>)"

definition load_due :: "string \<Rightarrow> int \<Rightarrow> db \<Rightarrow> (string \<times> SdkOutboxRow) list" where
  "load_due account now d =
     sort_key (\<lambda>(c, r). (ob_created_at r, c))
       (map (\<lambda>((a, c), r). (c, r))
         (filter (\<lambda>((a, c), r). a = account \<and> ob_status r = ''pending'' \<and> ob_next_attempt_at r \<le> now) (t_outbox d)))"

definition get_row :: "string \<Rightarrow> string \<Rightarrow> db \<Rightarrow> SdkOutboxRow option" where
  "get_row account client_id d = hget (t_outbox d) (account, client_id)"

definition dest_for_client_id :: "string \<Rightarrow> string \<Rightarrow> db \<Rightarrow> string option" where
  "dest_for_client_id account client_id d = map_option ob_dest (hget (t_outbox d) (account, client_id))"

definition outbox_alive :: "string \<Rightarrow> string \<Rightarrow> db \<Rightarrow> bool" where
  "outbox_alive account client_id d =
     (case hget (t_outbox d) (account, client_id) of None \<Rightarrow> False | Some r \<Rightarrow> live_status (ob_status r))"

text \<open>\<open>UPDATE messages \<dots> WHERE account = ? AND key = ?\<close>: the row of the key in every conversation.\<close>

definition update_key :: "string \<Rightarrow> string \<Rightarrow> (MessageRow \<Rightarrow> MessageRow) \<Rightarrow> db \<Rightarrow> (SdkError, db) result" where
  "update_key account key f d = put_messages (hmodify (\<lambda>(a, c, k) r. a = account \<and> k = key) f (t_messages d)) d"

definition update_outbox :: "string \<Rightarrow> string \<Rightarrow> (SdkOutboxRow \<Rightarrow> SdkOutboxRow) \<Rightarrow> db \<Rightarrow> db" where
  "update_outbox account client_id f d = d\<lparr>t_outbox := hmodify (\<lambda>k r. k = (account, client_id)) f (t_outbox d)\<rparr>"

definition outbox_requeue :: "string \<Rightarrow> string \<Rightarrow> int \<Rightarrow> db \<Rightarrow> (SdkError, db) result" where
  "outbox_requeue account client_id now d =
     (case hget (t_outbox d) (account, client_id) of
        Some r \<Rightarrow>
          if ob_status r = ''pending'' \<or> ob_status r = ''failed'' then
            update_key account client_id (\<lambda>m. m\<lparr>mr_status := ''sending'', mr_failed := False\<rparr>)
              (update_outbox account client_id (\<lambda>r. r\<lparr>ob_status := ''pending'', ob_next_attempt_at := 0, ob_updated_at := now\<rparr>) d)
          else Err (SdkNotFound ''outbox'')
      | None \<Rightarrow> Err (SdkNotFound ''outbox''))"

definition wake_pending :: "string \<Rightarrow> int \<Rightarrow> db \<Rightarrow> db" where
  "wake_pending account now d =
     d\<lparr>t_outbox := hmodify (\<lambda>(a, c) r. a = account \<and> ob_status r = ''pending'')
        (\<lambda>r. r\<lparr>ob_next_attempt_at := 0, ob_updated_at := now\<rparr>) (t_outbox d)\<rparr>"

definition outbox_mark_retry :: "string \<Rightarrow> string \<Rightarrow> int \<Rightarrow> int \<Rightarrow> int \<Rightarrow> db \<Rightarrow> db" where
  "outbox_mark_retry account client_id attempt next_attempt_at now =
     update_outbox account client_id
       (\<lambda>r. r\<lparr>ob_status := ''pending'', ob_attempt := attempt, ob_next_attempt_at := next_attempt_at, ob_updated_at := now\<rparr>)"

definition outbox_mark_sent :: "string \<Rightarrow> string \<Rightarrow> int \<Rightarrow> int \<Rightarrow> db \<Rightarrow> (SdkError, db) result" where
  "outbox_mark_sent account client_id message_id now d =
     update_key account client_id
       (\<lambda>m. m\<lparr>mr_status := ''sent'', mr_failed := False, mr_message_id := (if message_id \<noteq> 0 then message_id else mr_message_id m)\<rparr>)
       (update_outbox account client_id (\<lambda>r. r\<lparr>ob_status := ''sent'', ob_message_id := message_id, ob_updated_at := now\<rparr>) d)"

definition outbox_mark_failed :: "string \<Rightarrow> string \<Rightarrow> int \<Rightarrow> db \<Rightarrow> (SdkError, db) result" where
  "outbox_mark_failed account client_id now d =
     update_key account client_id (\<lambda>m. m\<lparr>mr_status := ''failed'', mr_failed := True\<rparr>)
       (update_outbox account client_id (\<lambda>r. r\<lparr>ob_status := ''failed'', ob_updated_at := now\<rparr>) d)"

definition outbox_cancel :: "string \<Rightarrow> string \<Rightarrow> db \<Rightarrow> db" where
  "outbox_cancel account client_id d =
     d\<lparr>t_outbox := hdel (account, client_id) (t_outbox d),
       t_messages := hretain (\<lambda>(a, c, k) r. \<not> (a = account \<and> k = client_id)) (t_messages d)\<rparr>"

definition outbox_delete_thread :: "string \<Rightarrow> string \<Rightarrow> db \<Rightarrow> db" where
  "outbox_delete_thread account dest d =
     d\<lparr>t_outbox := hretain (\<lambda>(a, c) r. \<not> (a = account \<and> ob_dest r = dest)) (t_outbox d),
       t_messages := hretain (\<lambda>(a, c, k) r. \<not> (a = account \<and> c = dest)) (t_messages d),
       t_threads := hdel (account, dest) (t_threads d),
       t_watermarks := hretain (\<lambda>k w. \<not> (k = (account, dest) \<and> wm_last_read_message_id w \<le> wm_confirmed_message_id w)) (t_watermarks d),
       t_timeline := hdel (account, dest) (t_timeline d)\<rparr>"

section \<open>Read positions\<close>

definition watermark_of :: "string \<Rightarrow> string \<Rightarrow> db \<Rightarrow> int" where
  "watermark_of account dest d =
     (case hget (t_watermarks d) (account, dest) of None \<Rightarrow> 0 | Some w \<Rightarrow> wm_last_read_message_id w)"

definition server_read_of :: "string \<Rightarrow> string \<Rightarrow> db \<Rightarrow> int" where
  "server_read_of account dest d =
     (case hget (t_read_state d) (account, dest) of None \<Rightarrow> 0 | Some r \<Rightarrow> rs_server_read_id r)"

definition effective_read :: "string \<Rightarrow> string \<Rightarrow> db \<Rightarrow> int" where
  "effective_read account dest d = max (watermark_of account dest d) (server_read_of account dest d)"

definition unread_of :: "string \<Rightarrow> string \<Rightarrow> db \<Rightarrow> int" where
  "unread_of account dest d = (case hget (t_threads d) (account, dest) of None \<Rightarrow> 0 | Some t \<Rightarrow> th_unread t)"

definition peek :: "string \<Rightarrow> string \<Rightarrow> db \<Rightarrow> int \<times> int" where
  "peek account dest d = (unread_of account dest d, effective_read account dest d)"

definition thread_tip :: "string \<Rightarrow> string \<Rightarrow> db \<Rightarrow> int" where
  "thread_tip account dest d = (case hget (t_threads d) (account, dest) of None \<Rightarrow> 0 | Some t \<Rightarrow> th_last_message_id t)"

definition max_message_id :: "string \<Rightarrow> string \<Rightarrow> db \<Rightarrow> int" where
  "max_message_id account dest d =
     (case conversation account dest d of [] \<Rightarrow> 0 | rows \<Rightarrow> Max (set (map (\<lambda>(k, r). mr_message_id r) rows)))"

definition known_max_of :: "string \<Rightarrow> string \<Rightarrow> db \<Rightarrow> int" where
  "known_max_of account dest d =
     (case hget (t_read_state d) (account, dest) of None \<Rightarrow> 0 | Some r \<Rightarrow> rs_known_max_message_id r)"

definition known_tip :: "string \<Rightarrow> string \<Rightarrow> db \<Rightarrow> int" where
  "known_tip account dest d = max (max (thread_tip account dest d) (max_message_id account dest d)) (known_max_of account dest d)"

definition bump_known_max :: "string \<Rightarrow> string \<Rightarrow> int \<Rightarrow> int \<Rightarrow> db \<Rightarrow> db" where
  "bump_known_max account dest kind message_id d =
     (if message_id \<le> 0 then d
      else let r = (case hget (t_read_state d) (account, dest) of
          None \<Rightarrow> \<lparr>rs_kind = kind, rs_server_version = 0, rs_server_read_id = 0, rs_server_max_message_id = 0,
             rs_server_unread = 0, rs_local_generation = 1, rs_known_max_message_id = message_id\<rparr>
        | Some r \<Rightarrow> r\<lparr>rs_kind := kind, rs_known_max_message_id := max (rs_known_max_message_id r) message_id,
             rs_local_generation := rs_local_generation r + 1\<rparr>)
      in d\<lparr>t_read_state := hput (account, dest) r (t_read_state d)\<rparr>)"

definition new_watermark :: "int \<Rightarrow> int \<Rightarrow> int \<Rightarrow> int \<Rightarrow> Watermark" where
  "new_watermark message_id at kind next_retry_at =
     \<lparr>wm_last_read_message_id = message_id, wm_last_read_at = at, wm_kind = kind, wm_confirmed_message_id = 0,
      wm_retry_count = 0, wm_next_retry_at = next_retry_at, wm_last_error = []\<rparr>"

definition upsert_watermark :: "string \<Rightarrow> string \<Rightarrow> Watermark \<Rightarrow> (Watermark \<Rightarrow> Watermark) \<Rightarrow> db \<Rightarrow> db" where
  "upsert_watermark account dest fresh f d =
     d\<lparr>t_watermarks := hput (account, dest)
         (case hget (t_watermarks d) (account, dest) of None \<Rightarrow> fresh | Some w \<Rightarrow> f w) (t_watermarks d)\<rparr>"

definition advance_id :: "string \<Rightarrow> string \<Rightarrow> int \<Rightarrow> int \<Rightarrow> int \<Rightarrow> db \<Rightarrow> int \<times> db" where
  "advance_id account dest kind message_id now d =
     (if message_id \<le> 0 then (effective_read account dest d, d)
      else
        let d1 = upsert_watermark account dest (new_watermark message_id now kind 0)
               (\<lambda>w. w\<lparr>wm_last_read_message_id := max (wm_last_read_message_id w) message_id, wm_last_read_at := now, wm_kind := kind\<rparr>) d;
            d2 = bump_known_max account dest kind message_id d1
        in (effective_read account dest d2, d2))"

definition queue_sync :: "string \<Rightarrow> string \<Rightarrow> int \<Rightarrow> int \<Rightarrow> int \<Rightarrow> db \<Rightarrow> db" where
  "queue_sync account dest kind message_id now d =
     (if message_id \<le> 0 then d
      else upsert_watermark account dest (new_watermark message_id now kind now)
        (\<lambda>w. w\<lparr>wm_last_read_message_id := max (wm_last_read_message_id w) message_id, wm_last_read_at := now, wm_kind := kind,
           wm_next_retry_at := (if wm_last_read_message_id w > wm_confirmed_message_id w \<and> wm_next_retry_at w > 0
              then min (wm_next_retry_at w) now else now)\<rparr>) d)"

definition set_unread :: "string \<Rightarrow> string \<Rightarrow> int \<Rightarrow> db \<Rightarrow> db" where
  "set_unread account dest unread d =
     d\<lparr>t_threads := hmodify (\<lambda>k t. k = (account, dest)) (\<lambda>t. t\<lparr>th_unread := max unread 0\<rparr>) (t_threads d)\<rparr>"

definition version_i64 :: "nat \<Rightarrow> int" where
  "version_i64 v = min (int v) i64_max"

definition upsert_server_state :: "string \<Rightarrow> string \<Rightarrow> ReadStatePb \<Rightarrow> db \<Rightarrow> db" where
  "upsert_server_state account dest st d =
     (let v = version_i64 (rp_version st);
          newer = (\<lambda>r. v \<noteq> 0 \<and> v \<ge> rs_server_version r);
          known = max (rp_max_message_id st) (rp_last_read_message_id st);
          r = (case hget (t_read_state d) (account, dest) of
            None \<Rightarrow> \<lparr>rs_kind = rp_kind st, rs_server_version = v, rs_server_read_id = rp_last_read_message_id st,
               rs_server_max_message_id = rp_max_message_id st, rs_server_unread = rp_unread st, rs_local_generation = 1,
               rs_known_max_message_id = known\<rparr>
          | Some r \<Rightarrow> r\<lparr>rs_kind := rp_kind st, rs_server_version := (if newer r then v else rs_server_version r),
               rs_server_read_id := max (rs_server_read_id r) (rp_last_read_message_id st),
               rs_server_max_message_id := max (rs_server_max_message_id r) (rp_max_message_id st),
               rs_server_unread := (if newer r then rp_unread st else rs_server_unread r),
               rs_known_max_message_id := max (rs_known_max_message_id r) known\<rparr>)
      in d\<lparr>t_read_state := hput (account, dest) r (t_read_state d)\<rparr>)"

definition apply_server_state :: "string \<Rightarrow> string \<Rightarrow> ReadStatePb \<Rightarrow> bool \<Rightarrow> db \<Rightarrow> db" where
  "apply_server_state account dest0 st from_own_ack d =
     (if dest0 = [] \<and> rp_dest st = [] then d
      else
        let dest = (if dest0 = [] then rp_dest st else dest0);
            local_read = effective_read account dest d;
            stored_version = (case hget (t_read_state d) (account, dest) of None \<Rightarrow> 0 | Some r \<Rightarrow> rs_server_version r);
            v = version_i64 (rp_version st);
            version_ok = (v = 0 \<or> v \<ge> stored_version);
            d1 = upsert_server_state account dest st d;
            d2 = (if rp_last_read_message_id st > 0
                  then upsert_watermark account dest (new_watermark (rp_last_read_message_id st) 0 (rp_kind st) 0)
                    (\<lambda>w. w\<lparr>wm_last_read_message_id := max (wm_last_read_message_id w) (rp_last_read_message_id st), wm_kind := rp_kind st\<rparr>) d1
                  else d1);
            effective = effective_read account dest d2;
            tip = known_tip account dest d2
        in if effective \<ge> tip \<and> tip > 0 then set_unread account dest 0 d2
           else if version_ok \<and> from_own_ack \<and> rp_last_read_message_id st \<ge> local_read then set_unread account dest (max (rp_unread st) 0) d2
           else if version_ok \<and> rp_last_read_message_id st \<ge> local_read \<and> effective \<ge> tip then set_unread account dest 0 d2
           else d2)"

definition watermark_confirm :: "string \<Rightarrow> string \<Rightarrow> int \<Rightarrow> ReadStatePb option \<Rightarrow> db \<Rightarrow> db" where
  "watermark_confirm account dest confirmed_id server d =
     (if confirmed_id \<le> 0 then d
      else
        let d1 = d\<lparr>t_watermarks := hmodify (\<lambda>k w. k = (account, dest))
               (\<lambda>w. w\<lparr>wm_confirmed_message_id := max (wm_confirmed_message_id w) confirmed_id, wm_retry_count := 0,
                  wm_next_retry_at := 0, wm_last_error := []\<rparr>) (t_watermarks d)\<rparr>
        in case server of None \<Rightarrow> d1 | Some st \<Rightarrow> apply_server_state account dest st True d1)"

definition retry_delay :: "int \<Rightarrow> int" where
  "retry_delay retry = max 1000 (min 60000 (1000 * 2 ^ nat (max 0 (min 6 retry))))"

definition mark_due_failed :: "string \<Rightarrow> string \<Rightarrow> int \<Rightarrow> string \<Rightarrow> db \<Rightarrow> db" where
  "mark_due_failed account dest now err d =
     (let retry = (case hget (t_watermarks d) (account, dest) of None \<Rightarrow> 0 | Some w \<Rightarrow> wm_retry_count w);
          at = i64_saturating_add (i64_saturating_add now (retry_delay retry)) (\<bar>now\<bar> mod 250)
      in d\<lparr>t_watermarks := hmodify (\<lambda>k w. k = (account, dest))
          (\<lambda>w. w\<lparr>wm_retry_count := wm_retry_count w + 1, wm_next_retry_at := at, wm_last_error := err\<rparr>) (t_watermarks d)\<rparr>)"

record DueRead =
  dr_dest :: string
  dr_kind :: int
  dr_message_id :: int

definition due_reads :: "string \<Rightarrow> int \<Rightarrow> db \<Rightarrow> DueRead list" where
  "due_reads account now d =
     take 20 (map (\<lambda>((a, c), w). \<lparr>dr_dest = c, dr_kind = wm_kind w, dr_message_id = wm_last_read_message_id w\<rparr>)
       (sort_key (\<lambda>(k, w). wm_last_read_at w)
         (filter (\<lambda>((a, c), w). a = account \<and> wm_last_read_message_id w > wm_confirmed_message_id w \<and> wm_last_read_message_id w > 0
            \<and> (wm_next_retry_at w = 0 \<or> wm_next_retry_at w \<le> now)) (t_watermarks d))))"

definition watermark_advance :: "string \<Rightarrow> string \<Rightarrow> int \<Rightarrow> int \<Rightarrow> db \<Rightarrow> db" where
  "watermark_advance account dest message_id now d =
     (if message_id \<le> 0 then d
      else
        let kind = (case hget (t_threads d) (account, dest) of Some t \<Rightarrow> (if th_kind t = GroupThread then 1 else 0) | None \<Rightarrow> 0);
            (watermark, d1) = advance_id account dest kind message_id now d;
            d2 = queue_sync account dest kind watermark now d1
        in if watermark \<ge> known_tip account dest d2 then set_unread account dest 0 d2 else d2)"

section \<open>Conversations\<close>

definition thread_put :: "string \<Rightarrow> string \<Rightarrow> StoredThread \<Rightarrow> db \<Rightarrow> db" where
  "thread_put account dest t d = d\<lparr>t_threads := hput (account, dest) t (t_threads d)\<rparr>"

definition thread_find :: "string \<Rightarrow> string \<Rightarrow> db \<Rightarrow> StoredThread option" where
  "thread_find account dest d = hget (t_threads d) (account, dest)"

definition upsert_on_send :: "string \<Rightarrow> string \<Rightarrow> ThreadKind \<Rightarrow> string \<Rightarrow> int \<Rightarrow> MediaKind \<Rightarrow> bool \<Rightarrow> db \<Rightarrow> db" where
  "upsert_on_send account dest kind last_body last_at media sys d =
     thread_put account dest
       (case thread_find account dest d of
          None \<Rightarrow> \<lparr>th_kind = kind, th_title = dest, th_avatar = [], th_last_body = last_body, th_last_kind = media,
             th_last_sys = sys, th_last_at = last_at, th_unread = 0, th_last_message_id = 0\<rparr>
        | Some t \<Rightarrow> t\<lparr>th_last_body := last_body, th_last_kind := media, th_last_sys := sys,
             th_last_at := (if last_at \<ge> th_last_at t then last_at else th_last_at t), th_kind := kind\<rparr>) d"

definition upsert_full :: "string \<Rightarrow> string \<Rightarrow> StoredThread \<Rightarrow> db \<Rightarrow> db" where
  "upsert_full account dest t d =
     thread_put account dest
       (case thread_find account dest d of
          None \<Rightarrow> t
        | Some o' \<Rightarrow> t\<lparr>th_avatar := (if th_avatar t \<noteq> [] then th_avatar t else th_avatar o'),
             th_last_message_id := (if th_last_message_id t \<ge> th_last_message_id o' then th_last_message_id t else th_last_message_id o')\<rparr>) d"

definition apply_incoming :: "string \<Rightarrow> StoredMsg \<Rightarrow> int \<Rightarrow> db \<Rightarrow> db" where
  "apply_incoming account msg unread_delta d =
     (let dest = sm_dest msg in
      upsert_full account dest
        (case thread_find account dest d of
           None \<Rightarrow> \<lparr>th_kind = sm_thread_kind msg, th_title = dest, th_avatar = [], th_last_body = sm_body msg,
              th_last_kind = sm_kind msg, th_last_sys = sm_sys msg, th_last_at = sm_at msg, th_unread = max unread_delta 0,
              th_last_message_id = max 0 (sm_message_id msg)\<rparr>
         | Some t \<Rightarrow>
             let newer = (sm_at msg \<ge> th_last_at t) in
             \<lparr>th_kind = th_kind t, th_title = th_title t, th_avatar = th_avatar t,
              th_last_body = (if newer then sm_body msg else th_last_body t),
              th_last_kind = (if newer then sm_kind msg else th_last_kind t),
              th_last_sys = (if newer then sm_sys msg else th_last_sys t),
              th_last_at = max (th_last_at t) (sm_at msg), th_unread = max (th_unread t + unread_delta) 0,
              th_last_message_id = max (th_last_message_id t) (sm_message_id msg)\<rparr>) d)"

definition merged_unread :: "StoredThread option \<Rightarrow> ClientInboxItem \<Rightarrow> int \<Rightarrow> int" where
  "merged_unread prev item local_read =
     (let effective = max local_read (ci_last_read_message_id item);
          tip = max (max (ci_max_message_id item) (ci_last_message_id item))
                  (case prev of None \<Rightarrow> 0 | Some t \<Rightarrow> th_last_message_id t)
      in if effective > 0 \<and> tip > 0 \<and> effective \<ge> tip then 0
         else if local_read > ci_last_read_message_id item \<and> (case prev of Some t \<Rightarrow> th_unread t = 0 | None \<Rightarrow> False) then 0
         else ci_unread item)"

definition persist_inbox_item :: "json_parse \<Rightarrow> int \<Rightarrow> string \<Rightarrow> ClientInboxItem \<Rightarrow> db \<Rightarrow> StoredThread \<times> db" where
  "persist_inbox_item parse now account item d =
     (let prev = thread_find account (ci_dest item) d;
          unread = merged_unread prev item (effective_read account (ci_dest item) d);
          title = (if ci_title item = []
            then (case prev of Some t \<Rightarrow> (if th_title t \<noteq> [] then th_title t else ci_dest item) | None \<Rightarrow> ci_dest item)
            else ci_title item);
          (last_body, last_kind, last_sys) = (if ci_last_body item = []
            then (case prev of Some t \<Rightarrow> (th_last_body t, th_last_kind t, th_last_sys t) | None \<Rightarrow> ([], TextMedia, False))
            else (ci_last_body item, classify_kind parse MESSAGE_TYPE_TEXT (ci_last_body item), False));
          last_at = (if ci_last_send_time item = 0 then (case prev of Some t \<Rightarrow> th_last_at t | None \<Rightarrow> 0)
            else send_time_ms now (ci_last_send_time item));
          avatar = (if ci_avatar item = [] then (case prev of Some t \<Rightarrow> th_avatar t | None \<Rightarrow> []) else ci_avatar item);
          t = \<lparr>th_kind = ThreadKind_from_wire (ci_kind item), th_title = title, th_avatar = avatar, th_last_body = last_body,
               th_last_kind = last_kind, th_last_sys = last_sys, th_last_at = last_at, th_unread = unread,
               th_last_message_id = max (ci_last_message_id item) (case prev of Some t \<Rightarrow> th_last_message_id t | None \<Rightarrow> 0)\<rparr>
      in (t, upsert_full account (ci_dest item) t d))"

definition thread_ensure :: "string \<Rightarrow> string \<Rightarrow> ThreadKind \<Rightarrow> db \<Rightarrow> db" where
  "thread_ensure account dest kind d =
     (case thread_find account dest d of
        Some _ \<Rightarrow> d
      | None \<Rightarrow> thread_put account dest \<lparr>th_kind = kind, th_title = dest, th_avatar = [], th_last_body = [], th_last_kind = TextMedia,
          th_last_sys = False, th_last_at = 0, th_unread = 0, th_last_message_id = 0\<rparr> d)"

section \<open>Transactions\<close>

datatype ChangedQuery = TimelineQuery string | InboxQuery | ContactsQuery

definition timeline_and_inbox :: "string \<Rightarrow> ChangedQuery set" where
  "timeline_and_inbox dest = {TimelineQuery dest, InboxQuery}"

definition dest_effect :: "(string \<Rightarrow> ChangedQuery set) \<Rightarrow> string option \<Rightarrow> ChangedQuery set" where
  "dest_effect f dest = (case dest of None \<Rightarrow> {} | Some c \<Rightarrow> f c)"

datatype SdkContent = SText string | SImage string string int int int | SVideo string int | SVoice string int

fun media_kind :: "SdkContent \<Rightarrow> MediaKind" where
  "media_kind (SText body) = TextMedia"
| "media_kind (SImage path mime w h n) = ImageMedia"
| "media_kind (SVideo path n) = VideoMedia"
| "media_kind (SVoice path n) = VoiceMedia"

record SendMessageCommand =
  sc_dest :: string
  sc_kind :: ThreadKind
  sc_payload :: SdkContent
  sc_client_id :: "string option"
  sc_batch_id :: "string option"

record CommandReceipt =
  rc_request_id :: string
  rc_client_id :: string
  rc_dest :: string
  rc_accepted_at :: int
  rc_send_status :: SendStatus

text \<open>Body, local path, type, width, height and size of what is sent.\<close>

fun payload_columns :: "SdkContent \<Rightarrow> string \<times> string \<times> string \<times> int \<times> int \<times> int" where
  "payload_columns (SText body) = (body, [], [], 0, 0, 0)"
| "payload_columns (SImage path mime w h n) = (path, path, mime, w, h, n)"
| "payload_columns (SVideo path n) = (path, path, [], 0, 0, n)"
| "payload_columns (SVoice path n) = (path, path, [], 0, 0, n)"

text \<open>The transaction of a send: the own message, its row in the outbox, the conversation, and the oldest messages dropped.\<close>

definition enqueue_tx :: "string \<Rightarrow> OwnInsert \<Rightarrow> SdkOutboxRow \<Rightarrow> db \<Rightarrow> (SdkError, db) result" where
  "enqueue_tx account own row d =
     res_bind (insert_own account own d) (\<lambda>d1.
       let dest = oi_dest own;
           d2 = outbox_insert account (oi_key own) row d1;
           d3 = upsert_on_send account dest (oi_thread_kind own) (oi_body own) (oi_at own) (oi_kind own) False d2;
           d4 = bump_timeline_version account dest d3
       in Ok (prune account dest d4))"

definition persist_enqueue ::
  "int \<Rightarrow> string \<Rightarrow> string \<Rightarrow> string \<Rightarrow> SendMessageCommand \<Rightarrow> db \<Rightarrow> (SdkError, (CommandReceipt \<times> ChangedQuery set) \<times> db) result" where
  "persist_enqueue now fresh request_id account cmd d =
     (if sc_dest cmd = [] then Err (InvalidArgument ''dest is required'')
      else if sc_dest cmd = account then Err CannotChatSelf
      else
        let client_id = (case sc_client_id cmd of Some i \<Rightarrow> (if i \<noteq> [] then i else fresh) | None \<Rightarrow> fresh);
            batch_id = (case sc_batch_id cmd of None \<Rightarrow> [] | Some b \<Rightarrow> b);
            (body, local_path, mime, width, height, byte_size) = payload_columns (sc_payload cmd);
            own = \<lparr>oi_dest = sc_dest cmd, oi_key = client_id, oi_sender = account, oi_body = body, oi_at = now,
                   oi_kind = media_kind (sc_payload cmd), oi_width = width, oi_height = height, oi_batch_id = batch_id,
                   oi_status = Pending, oi_local_path = local_path, oi_thread_kind = sc_kind cmd\<rparr>;
            row = \<lparr>ob_dest = sc_dest cmd, ob_kind = ThreadKind_as_wire (sc_kind cmd),
                   ob_payload_type = MediaKind_as_wire (media_kind (sc_payload cmd)), ob_body = body, ob_extra = [],
                   ob_local_path = local_path, ob_mime = mime, ob_width = width, ob_height = height, ob_byte_size = byte_size,
                   ob_batch_id = batch_id, ob_status = SendStatus_as_str Pending, ob_attempt = 0, ob_next_attempt_at = 0,
                   ob_message_id = 0, ob_last_error = [], ob_created_at = now, ob_updated_at = now\<rparr>
        in res_bind (enqueue_tx account own row d) (\<lambda>d1.
             Ok ((\<lparr>rc_request_id = request_id, rc_client_id = client_id, rc_dest = sc_dest cmd, rc_accepted_at = now,
                   rc_send_status = Pending\<rparr>, timeline_and_inbox (sc_dest cmd)), d1)))"

definition persist_enqueue_bot_reply ::
  "int \<Rightarrow> string \<Rightarrow> string \<Rightarrow> string \<Rightarrow> string \<Rightarrow> string \<Rightarrow> int \<Rightarrow> string \<Rightarrow> db
   \<Rightarrow> (SdkError, (CommandReceipt \<times> ChangedQuery set) \<times> db) result" where
  "persist_enqueue_bot_reply now fresh request_id account dest body0 in_reply_to client_id0 d =
     (if dest = [] then Err (InvalidArgument ''dest is required'')
      else if dest = account then Err CannotChatSelf
      else
        let body = trim body0 in
        if body = [] then Err (InvalidArgument ''body is required'')
        else
          let client_id = (if client_id0 = [] then fresh else client_id0);
              own = \<lparr>oi_dest = dest, oi_key = client_id, oi_sender = dest, oi_body = body, oi_at = now, oi_kind = TextMedia,
                     oi_width = 0, oi_height = 0, oi_batch_id = [], oi_status = Pending, oi_local_path = [],
                     oi_thread_kind = UserThread\<rparr>;
              row = \<lparr>ob_dest = dest, ob_kind = ThreadKind_as_wire UserThread, ob_payload_type = MESSAGE_TYPE_TEXT, ob_body = body,
                     ob_extra = encode_bot_reply_extra in_reply_to, ob_local_path = [], ob_mime = [], ob_width = 0, ob_height = 0,
                     ob_byte_size = 0, ob_batch_id = [], ob_status = SendStatus_as_str Pending, ob_attempt = 0,
                     ob_next_attempt_at = 0, ob_message_id = 0, ob_last_error = [], ob_created_at = now, ob_updated_at = now\<rparr>
          in res_bind (enqueue_tx account own row d) (\<lambda>d1.
               Ok ((\<lparr>rc_request_id = request_id, rc_client_id = client_id, rc_dest = dest, rc_accepted_at = now,
                     rc_send_status = Pending\<rparr>, timeline_and_inbox dest), d1)))"

text \<open>One incoming message of a batch; the conversation it changed, if any.\<close>

definition persist_talk ::
  "json_parse \<Rightarrow> int \<Rightarrow> string \<Rightarrow> UnreadPolicy \<Rightarrow> string option \<Rightarrow> IncomingTalk \<Rightarrow> db \<Rightarrow> (SdkError, string option \<times> db) result" where
  "persist_talk parse now account policy active_dest talk d =
     res_bind (apply_talk parse now account talk policy d) (\<lambda>(r, d1). case r of
         None \<Rightarrow> Ok (None, d1)
       | Some out0 \<Rightarrow>
           let dest = ao_dest out0; mid = sm_message_id (ao_msg out0); kind = ThreadKind_as_wire (sm_thread_kind (ao_msg out0));
               last_read = effective_read account dest d1;
               active = (active_dest = Some dest);
               out = (if active \<or> (ao_unread_delta out0 = 1 \<and> mid > 0 \<and> mid \<le> last_read) then out0\<lparr>ao_unread_delta := 0\<rparr> else out0);
               d2 = (if mid > 0 then bump_known_max account dest kind mid d1 else d1);
               d3 = (if active \<and> mid > 0 then
                   let (watermark, e) = advance_id account dest kind mid now d2 in
                   set_unread account dest 0 (queue_sync account dest kind watermark now e)
                 else d2)
           in if \<not> needs_publish out \<and> \<not> active then Ok (None, d3)
              else Ok (Some dest, apply_incoming account (ao_msg out) (ao_unread_delta out) d3))"

fun persist_each ::
  "json_parse \<Rightarrow> int \<Rightarrow> string \<Rightarrow> UnreadPolicy \<Rightarrow> string option \<Rightarrow> IncomingTalk list \<Rightarrow> db \<Rightarrow> (SdkError, string list \<times> db) result" where
  "persist_each parse now account policy active [] d = Ok ([], d)"
| "persist_each parse now account policy active (talk # talks) d =
     res_bind (persist_talk parse now account policy active talk d) (\<lambda>(r, d1).
       res_bind (persist_each parse now account policy active talks d1) (\<lambda>(dests, d2).
         Ok ((case r of None \<Rightarrow> dests | Some c \<Rightarrow> c # dests), d2)))"

definition persist_talks_tx ::
  "json_parse \<Rightarrow> int \<Rightarrow> string \<Rightarrow> IncomingTalk list \<Rightarrow> UnreadPolicy \<Rightarrow> string option \<Rightarrow> db \<Rightarrow> (SdkError, ChangedQuery set \<times> db) result" where
  "persist_talks_tx parse now account talks policy active d =
     (if talks = [] then Ok ({}, d)
      else res_bind (persist_each parse now account policy active talks d) (\<lambda>(dests, d1).
        let dests = remdups_adj (sort dests);
            d2 = foldl (\<lambda>d dest. prune account dest (bump_timeline_version account dest d)) d1 dests
        in Ok (if dests = [] then {} else insert InboxQuery (TimelineQuery ` set dests), d2)))"

definition from_inbox_item :: "ClientInboxItem \<Rightarrow> ReadStatePb" where
  "from_inbox_item item = \<lparr>rp_dest = ci_dest item, rp_kind = ci_kind item, rp_last_read_message_id = ci_last_read_message_id item,
     rp_max_message_id = max (ci_max_message_id item) (ci_last_message_id item), rp_unread = ci_unread item,
     rp_version = ci_state_version item, rp_exists = True\<rparr>"

fun persist_inbox :: "json_parse \<Rightarrow> int \<Rightarrow> string \<Rightarrow> ClientInboxItem list \<Rightarrow> db \<Rightarrow> StoredThread list \<times> db" where
  "persist_inbox parse now account [] d = ([], d)"
| "persist_inbox parse now account (item # items) d =
     (let d1 = (if ci_last_read_message_id item > 0 \<or> ci_state_version item > 0
                then apply_server_state account (ci_dest item) (from_inbox_item item) False d else d);
          (t, d2) = persist_inbox_item parse now account item d1;
          (ts, d3) = persist_inbox parse now account items d2
      in (t # ts, d3))"

definition mark_read_tx :: "int \<Rightarrow> string \<Rightarrow> string \<Rightarrow> int \<Rightarrow> db \<Rightarrow> ChangedQuery set \<times> db" where
  "mark_read_tx now account dest message_id d =
     (if message_id \<le> 0 then ({}, d)
      else let (unread, last_read) = peek account dest d in
        if unread = 0 \<and> message_id \<le> last_read then ({}, d)
        else (timeline_and_inbox dest, watermark_advance account dest message_id now d))"

definition mark_thread_read_tx :: "int \<Rightarrow> string \<Rightarrow> string \<Rightarrow> int \<Rightarrow> db \<Rightarrow> ChangedQuery set \<times> db" where
  "mark_thread_read_tx now account dest kind d =
     (let tip = known_tip account dest d in
      if tip \<le> 0 then ({}, d)
      else
        let (watermark, d1) = advance_id account dest kind tip now d
        in (timeline_and_inbox dest, set_unread account dest 0 (queue_sync account dest kind watermark now d1)))"

section \<open>The write worker\<close>

record ActiveVisibility =
  av_epoch :: nat
  av_generation :: nat
  av_foreground :: bool
  av_dest :: "string option"
  av_kind :: int

definition active_dest :: "ActiveVisibility \<Rightarrow> nat \<Rightarrow> string option" where
  "active_dest v current_epoch = (if av_epoch v = current_epoch \<and> av_foreground v then av_dest v else None)"

record CommitNotice =
  no_account :: string
  no_epoch :: nat
  no_sequence :: nat
  no_queries :: "ChangedQuery set"

record ChangeLog =
  cl_inner :: "CommitNotice option"
  cl_sequence :: nat

definition changes_record :: "string \<Rightarrow> nat \<Rightarrow> ChangedQuery set \<Rightarrow> ChangeLog \<Rightarrow> nat \<times> ChangeLog" where
  "changes_record account epoch effect l =
     (if effect = {} then (cl_sequence l, l)
      else
        let seq = cl_sequence l + 1;
            n = (case cl_inner l of
              Some n \<Rightarrow>
                if no_epoch n = epoch \<and> no_account n = account then n\<lparr>no_queries := no_queries n \<union> effect, no_sequence := seq\<rparr>
                else \<lparr>no_account = account, no_epoch = epoch, no_sequence = seq, no_queries = effect\<rparr>
            | None \<Rightarrow> \<lparr>no_account = account, no_epoch = epoch, no_sequence = seq, no_queries = effect\<rparr>)
        in (seq, \<lparr>cl_inner = Some n, cl_sequence = seq\<rparr>))"

definition take_pending :: "ChangeLog \<Rightarrow> CommitNotice option \<times> ChangeLog" where
  "take_pending l = (cl_inner l, l\<lparr>cl_inner := None\<rparr>)"

text \<open>The publisher takes the notice and what was recorded meanwhile.\<close>

definition drain_one :: "CommitNotice \<Rightarrow> CommitNotice \<Rightarrow> CommitNotice" where
  "drain_one notice nxt =
     (if no_account nxt = no_account notice \<and> no_epoch nxt = no_epoch notice
      then notice\<lparr>no_queries := no_queries notice \<union> no_queries nxt, no_sequence := no_sequence nxt\<rparr> else nxt)"

record Store =
  st_db :: db
  st_epoch :: nat
  st_visibility :: ActiveVisibility
  st_changes :: ChangeLog

definition store_open :: "db \<Rightarrow> Store" where
  "store_open d = \<lparr>st_db = d, st_epoch = 0,
     st_visibility = \<lparr>av_epoch = 0, av_generation = 0, av_foreground = False, av_dest = None, av_kind = 0\<rparr>,
     st_changes = \<lparr>cl_inner = None, cl_sequence = 0\<rparr>\<rparr>"

datatype WriteOp =
    Enqueue SendMessageCommand string string
  | EnqueueBotReply string string int string string string
  | PersistTalks "IncomingTalk list" UnreadPolicy
  | PersistInbox "ClientInboxItem list"
  | CancelSend string
  | DeleteThread string
  | MarkSent string int
  | MarkFailed string
  | MarkRetry string int int
  | Requeue string
  | MarkRead string int
  | MarkThreadRead string int
  | SetVisibility nat bool "string option" int
  | ConfirmRead string int "ReadStatePb option"
  | ApplyReadState ReadStatePb
  | DueNow

datatype WriteReply = NoReply | Receipt CommandReceipt | Threads "StoredThread list"

text \<open>An operation of the current session on the tables; \<open>SetVisibility\<close> has also set the visibility.\<close>

fun run_op ::
  "json_parse \<Rightarrow> int \<Rightarrow> string \<Rightarrow> string option \<Rightarrow> WriteOp \<Rightarrow> db \<Rightarrow> (SdkError, (WriteReply \<times> ChangedQuery set) \<times> db) result" where
  "run_op parse now account active (Enqueue cmd fresh request_id) d =
     res_bind (persist_enqueue now fresh request_id account cmd d) (\<lambda>((r, e), d). Ok ((Receipt r, e), d))"
| "run_op parse now account active (EnqueueBotReply dest body in_reply_to client_id fresh request_id) d =
     res_bind (persist_enqueue_bot_reply now fresh request_id account dest body in_reply_to client_id d) (\<lambda>((r, e), d). Ok ((Receipt r, e), d))"
| "run_op parse now account active (PersistTalks talks policy) d =
     res_bind (persist_talks_tx parse now account talks policy active d) (\<lambda>(e, d). Ok ((NoReply, e), d))"
| "run_op parse now account active (PersistInbox items) d =
     (let (ts, d) = persist_inbox parse now account items d in Ok ((Threads ts, {InboxQuery}), d))"
| "run_op parse now account active (CancelSend client_id) d =
     Ok ((NoReply, dest_effect timeline_and_inbox (dest_for_client_id account client_id d)), outbox_cancel account client_id d)"
| "run_op parse now account active (DeleteThread dest) d = Ok ((NoReply, timeline_and_inbox dest), outbox_delete_thread account dest d)"
| "run_op parse now account active (MarkSent client_id message_id) d =
     res_bind (outbox_mark_sent account client_id message_id now d) (\<lambda>d1.
       Ok ((NoReply, dest_effect timeline_and_inbox (dest_for_client_id account client_id d)), d1))"
| "run_op parse now account active (MarkFailed client_id) d =
     res_bind (outbox_mark_failed account client_id now d) (\<lambda>d1.
       Ok ((NoReply, dest_effect (\<lambda>c. {TimelineQuery c}) (dest_for_client_id account client_id d)), d1))"
| "run_op parse now account active (MarkRetry client_id attempt next_attempt_at) d =
     Ok ((NoReply, dest_effect (\<lambda>c. {TimelineQuery c}) (dest_for_client_id account client_id d)),
         outbox_mark_retry account client_id attempt next_attempt_at now d)"
| "run_op parse now account active (Requeue client_id) d =
     res_bind (outbox_requeue account client_id now d) (\<lambda>d1.
       Ok ((NoReply, dest_effect (\<lambda>c. {TimelineQuery c}) (dest_for_client_id account client_id d)), d1))"
| "run_op parse now account active (MarkRead dest message_id) d =
     (let (e, d) = mark_read_tx now account dest message_id d in Ok ((NoReply, e), d))"
| "run_op parse now account active (MarkThreadRead dest kind) d =
     (let (e, d) = mark_thread_read_tx now account dest kind d in Ok ((NoReply, e), d))"
| "run_op parse now account active (SetVisibility generation foreground dest kind) d =
     (case active of
        None \<Rightarrow> Ok ((NoReply, {}), d)
      | Some c \<Rightarrow> let (e, d) = mark_thread_read_tx now account c kind d in Ok ((NoReply, e), d))"
| "run_op parse now account active (ConfirmRead dest confirmed_id server) d =
     Ok ((NoReply, timeline_and_inbox dest), watermark_confirm account dest confirmed_id server d)"
| "run_op parse now account active (ApplyReadState st) d =
     (if rp_dest st = [] then Ok ((NoReply, {}), d)
      else Ok ((NoReply, timeline_and_inbox (rp_dest st)), apply_server_state account (rp_dest st) st False d))"
| "run_op parse now account active DueNow d = Ok ((NoReply, {}), wake_pending account now d)"

text \<open>A call of another session than the current one is refused. The visibility is set before the tables are touched; an
  older generation of the same session is ignored.\<close>

definition set_visibility :: "nat \<Rightarrow> WriteOp \<Rightarrow> ActiveVisibility \<Rightarrow> ActiveVisibility" where
  "set_visibility op_epoch op v =
     (case op of
        SetVisibility generation foreground dest kind \<Rightarrow>
          \<lparr>av_epoch = op_epoch, av_generation = generation, av_foreground = foreground, av_dest = dest, av_kind = kind\<rparr>
      | _ \<Rightarrow> v)"

definition visibility_old :: "nat \<Rightarrow> WriteOp \<Rightarrow> ActiveVisibility \<Rightarrow> bool" where
  "visibility_old op_epoch op v =
     (case op of SetVisibility generation _ _ _ \<Rightarrow> generation < av_generation v \<and> av_epoch v = op_epoch | _ \<Rightarrow> False)"

definition write_worker ::
  "json_parse \<Rightarrow> int \<Rightarrow> SdkError option \<Rightarrow> nat \<Rightarrow> string \<Rightarrow> WriteOp \<Rightarrow> Store \<Rightarrow> (SdkError, WriteReply \<times> nat) result \<times> Store" where
  "write_worker parse now fault op_epoch account op s =
     (if op_epoch \<noteq> st_epoch s then (Err (StaleEpoch op_epoch (st_epoch s)), s)
      else if visibility_old op_epoch op (st_visibility s) then (Ok (NoReply, 0), s)
      else
        let v = set_visibility op_epoch op (st_visibility s); s = s\<lparr>st_visibility := v\<rparr> in
        case fault of
          Some e \<Rightarrow> (Err e, s)
        | None \<Rightarrow>
            (case run_op parse now account (active_dest v (st_epoch s)) op (st_db s) of
               Inl e \<Rightarrow> (Err e, s)
             | Inr ((r, e), d) \<Rightarrow>
                 let (seq, l) = changes_record account op_epoch e (st_changes s) in
                 (Ok (r, if e = {} then 0 else seq), s\<lparr>st_db := d, st_changes := l\<rparr>)))"

text \<open>\<open>EnsureThread\<close> carries no session: its notice has the number 0.\<close>

definition ensure_thread :: "string \<Rightarrow> string \<Rightarrow> int \<Rightarrow> Store \<Rightarrow> nat \<times> Store" where
  "ensure_thread account dest kind s =
     (let e = (if thread_find account dest (st_db s) \<noteq> None then {} else {InboxQuery});
          (seq, l) = changes_record account 0 e (st_changes s)
      in (if e = {} then 0 else seq, s\<lparr>st_db := thread_ensure account dest (ThreadKind_from_wire kind) (st_db s), st_changes := l\<rparr>))"

definition bump_epoch :: "Store \<Rightarrow> Store" where
  "bump_epoch s = s\<lparr>st_epoch := st_epoch s + 1\<rparr>"

end
