(* ===== verification/Kim_Sdk_Outbox.thy ===== *)
theory Kim_Sdk_Outbox
  imports Kim_Sdk_Store
begin

text \<open>
  What the local store of the SDK promises, and the pump that sends what waits in it (\<open>outbox/pump.rs\<close>): every message in the
  outbox is in its conversation, a message that was accepted is not lost, a read position does not go back, and the pump calls
  the server with the due messages in order and settles each by the answer.
\<close>

section \<open>Tables an operation leaves alone\<close>

lemma messages_frame [simp]:
  "t_messages (bump_timeline_version account dest d) = t_messages d"
  "t_messages (outbox_insert account c row d) = t_messages d"
  "t_messages (update_outbox account c f d) = t_messages d"
  "t_messages (wake_pending account now d) = t_messages d"
  "t_messages (outbox_mark_retry account c attempt at now d) = t_messages d"
  "t_messages (bump_known_max account dest kind mid d) = t_messages d"
  "t_messages (upsert_watermark account dest w g d) = t_messages d"
  "t_messages (set_unread account dest u d) = t_messages d"
  "t_messages (upsert_server_state account dest st d) = t_messages d"
  "t_messages (thread_put account dest t d) = t_messages d"
  by (simp_all add: bump_timeline_version_def outbox_insert_def update_outbox_def wake_pending_def outbox_mark_retry_def
      bump_known_max_def upsert_watermark_def set_unread_def upsert_server_state_def thread_put_def Let_def)

lemma outbox_frame [simp]:
  "t_outbox (bump_timeline_version account dest d) = t_outbox d"
  "t_outbox (bump_known_max account dest kind mid d) = t_outbox d"
  "t_outbox (upsert_watermark account dest w g d) = t_outbox d"
  "t_outbox (set_unread account dest u d) = t_outbox d"
  "t_outbox (upsert_server_state account dest st d) = t_outbox d"
  "t_outbox (thread_put account dest t d) = t_outbox d"
  "t_outbox (prune account dest d) = t_outbox d"
  "t_outbox (delete_key account dest k d) = t_outbox d"
  by (simp_all add: bump_timeline_version_def bump_known_max_def upsert_watermark_def set_unread_def upsert_server_state_def
      thread_put_def prune_def delete_key_def Let_def)

lemma messages_advance [simp]:
  "t_messages (snd (advance_id account dest kind mid now d)) = t_messages d"
  "t_messages (queue_sync account dest kind mid now d) = t_messages d"
  by (simp_all add: advance_id_def queue_sync_def Let_def)

lemma messages_server [simp]: "t_messages (apply_server_state account dest st own d) = t_messages d"
  by (simp add: apply_server_state_def Let_def)

lemma messages_threads [simp]:
  "t_messages (upsert_on_send account dest tk body at media sys d) = t_messages d"
  "t_messages (upsert_full account dest t d) = t_messages d"
  "t_messages (thread_ensure account dest tk d) = t_messages d"
  by (simp_all add: upsert_on_send_def upsert_full_def thread_ensure_def split: option.splits)

lemma messages_rest [simp]:
  "t_messages (watermark_confirm account dest cid server d) = t_messages d"
  "t_messages (watermark_advance account dest mid now d) = t_messages d"
  "t_messages (apply_incoming account msg u d) = t_messages d"
  "t_messages (snd (persist_inbox_item parse now account item d)) = t_messages d"
  "t_messages (snd (mark_read_tx now account dest mid d)) = t_messages d"
  "t_messages (snd (mark_thread_read_tx now account dest kind d)) = t_messages d"
  by (simp_all add: watermark_confirm_def watermark_advance_def apply_incoming_def persist_inbox_item_def mark_read_tx_def
      mark_thread_read_tx_def Let_def split_beta split: option.splits)

lemma messages_inbox [simp]: "t_messages (snd (persist_inbox parse now account items d)) = t_messages d"
  by (induction items arbitrary: d) (simp_all add: Let_def split_beta)

lemma outbox_advance [simp]:
  "t_outbox (snd (advance_id account dest kind mid now d)) = t_outbox d"
  "t_outbox (queue_sync account dest kind mid now d) = t_outbox d"
  by (simp_all add: advance_id_def queue_sync_def Let_def)

lemma outbox_server [simp]: "t_outbox (apply_server_state account dest st own d) = t_outbox d"
  by (simp add: apply_server_state_def Let_def)

lemma outbox_threads [simp]:
  "t_outbox (upsert_on_send account dest tk body at media sys d) = t_outbox d"
  "t_outbox (upsert_full account dest t d) = t_outbox d"
  "t_outbox (thread_ensure account dest tk d) = t_outbox d"
  by (simp_all add: upsert_on_send_def upsert_full_def thread_ensure_def split: option.splits)

lemma outbox_rest [simp]:
  "t_outbox (watermark_confirm account dest cid server d) = t_outbox d"
  "t_outbox (watermark_advance account dest mid now d) = t_outbox d"
  "t_outbox (apply_incoming account msg u d) = t_outbox d"
  "t_outbox (snd (persist_inbox_item parse now account item d)) = t_outbox d"
  "t_outbox (snd (mark_read_tx now account dest mid d)) = t_outbox d"
  "t_outbox (snd (mark_thread_read_tx now account dest kind d)) = t_outbox d"
  by (simp_all add: watermark_confirm_def watermark_advance_def apply_incoming_def persist_inbox_item_def mark_read_tx_def
      mark_thread_read_tx_def Let_def split_beta split: option.splits)

lemma outbox_inbox [simp]: "t_outbox (snd (persist_inbox parse now account items d)) = t_outbox d"
  by (induction items arbitrary: d) (simp_all add: Let_def split_beta)

section \<open>The invariant\<close>

definition backed :: "db \<Rightarrow> bool" where
  "backed d \<longleftrightarrow> (\<forall>a c r. hget (t_outbox d) (a, c) = Some r \<and> live_status (ob_status r) \<and> is_client_key c
     \<longrightarrow> hget (t_messages d) (a, ob_dest r, c) \<noteq> None)"

definition db_inv :: "db \<Rightarrow> bool" where
  "db_inv d \<longleftrightarrow> hwf (t_messages d) \<and> hwf (t_outbox d) \<and> mid_unique (t_messages d) \<and> backed d"

lemma db_invI:
  "hwf (t_messages d) \<Longrightarrow> hwf (t_outbox d) \<Longrightarrow> mid_unique (t_messages d)
   \<Longrightarrow> (\<And>a c r. hget (t_outbox d) (a, c) = Some r \<Longrightarrow> live_status (ob_status r) \<Longrightarrow> is_client_key c
        \<Longrightarrow> hget (t_messages d) (a, ob_dest r, c) \<noteq> None) \<Longrightarrow> db_inv d"
  by (auto simp: db_inv_def backed_def)

lemma db_invD:
  assumes "db_inv d"
  shows "hwf (t_messages d)" "hwf (t_outbox d)" "mid_unique (t_messages d)"
    "hget (t_outbox d) (a, c) = Some r \<Longrightarrow> live_status (ob_status r) \<Longrightarrow> is_client_key c \<Longrightarrow> hget (t_messages d) (a, ob_dest r, c) \<noteq> None"
  using assms by (auto simp: db_inv_def backed_def)

lemma db_inv_same: "t_messages d' = t_messages d \<Longrightarrow> t_outbox d' = t_outbox d \<Longrightarrow> db_inv d' = db_inv d"
  by (simp add: db_inv_def backed_def)

lemma db_inv_keep: "db_inv d \<Longrightarrow> t_messages d' = t_messages d \<Longrightarrow> t_outbox d' = t_outbox d \<Longrightarrow> db_inv d'"
  by (simp add: db_inv_same[of d' d])

lemma db_inv_new: "db_inv db_new"
  by (simp add: db_inv_def backed_def db_new_def mid_unique_def)

lemma mid_unique_filter: "mid_unique m \<Longrightarrow> mid_unique (filter P m)"
proof -
  assume "mid_unique m"
  then have "distinct (map mid_key (filter P (filter (\<lambda>(k, r). mr_message_id r \<noteq> 0) m)))"
    unfolding mid_unique_def by (rule distinct_map_filter)
  moreover have "filter P (filter (\<lambda>(k, r). mr_message_id r \<noteq> 0) m) = filter (\<lambda>(k, r). mr_message_id r \<noteq> 0) (filter P m)"
    by (induction m) auto
  ultimately show ?thesis by (simp add: mid_unique_def)
qed

lemma mid_unique_hretain: "mid_unique m \<Longrightarrow> mid_unique (hretain P m)"
  unfolding hretain_def by (rule mid_unique_filter)

lemma mid_unique_hdel: "mid_unique m \<Longrightarrow> mid_unique (hdel k m)"
  unfolding AList.delete_eq by (rule mid_unique_filter)

lemma put_messages_Ok: "put_messages m d = Ok d' \<longleftrightarrow> mid_unique m \<and> d' = d\<lparr>t_messages := m\<rparr>"
  by (auto simp: put_messages_def)

text \<open>Fewer messages, as long as those of the outbox stay.\<close>

lemma db_inv_fewer:
  assumes "db_inv d"
    and "\<And>a c r. hget (t_outbox d) (a, c) = Some r \<Longrightarrow> live_status (ob_status r) \<Longrightarrow> is_client_key c
      \<Longrightarrow> hget (t_messages d) (a, ob_dest r, c) \<noteq> None \<Longrightarrow> P (a, ob_dest r, c) (the (hget (t_messages d) (a, ob_dest r, c)))"
  shows "db_inv (d\<lparr>t_messages := hretain P (t_messages d)\<rparr>)"
proof (rule db_invI)
  fix a c r assume *: "hget (t_outbox (d\<lparr>t_messages := hretain P (t_messages d)\<rparr>)) (a, c) = Some r" "live_status (ob_status r)" "is_client_key c"
  then show "hget (t_messages (d\<lparr>t_messages := hretain P (t_messages d)\<rparr>)) (a, ob_dest r, c) \<noteq> None"
    using assms(2)[of a c r] db_invD(4)[OF assms(1), of a c r] hget_hretain[OF db_invD(1)[OF assms(1)]]
    by (auto split: option.splits)
qed (use db_invD[OF assms(1)] in \<open>auto intro: mid_unique_hretain\<close>)

lemma db_inv_put:
  assumes "db_inv d" "put_messages (hput k r (t_messages d)) d = Ok d'"
  shows "db_inv d'" "t_outbox d' = t_outbox d" "t_messages d' = hput k r (t_messages d)"
proof -
  have d': "d' = d\<lparr>t_messages := hput k r (t_messages d)\<rparr>" "mid_unique (hput k r (t_messages d))"
    using assms(2) by (auto simp: put_messages_Ok)
  show "db_inv d'"
    unfolding d'(1) by (rule db_invI) (use db_invD[OF assms(1)] d'(2) in auto)
  show "t_outbox d' = t_outbox d" "t_messages d' = hput k r (t_messages d)" by (simp_all add: d')
qed

lemma db_inv_update_key:
  assumes "db_inv d" "update_key account key f d = Ok d'"
  shows "db_inv d'" "t_outbox d' = t_outbox d"
proof -
  let ?m = "hmodify (\<lambda>(a, c, k) r. a = account \<and> k = key) f (t_messages d)"
  have d': "d' = d\<lparr>t_messages := ?m\<rparr>" "mid_unique ?m"
    using assms(2) by (auto simp: update_key_def put_messages_Ok)
  show "db_inv d'"
    unfolding d'(1) by (rule db_invI) (use db_invD[OF assms(1)] d'(2) in auto)
  show "t_outbox d' = t_outbox d" by (simp add: d')
qed

text \<open>A row of the outbox may change or go, as long as it does not become alive or move.\<close>

lemma db_inv_outbox:
  assumes "db_inv d" "hwf ob"
    and "\<And>a c r. hget ob (a, c) = Some r \<Longrightarrow> live_status (ob_status r) \<Longrightarrow> is_client_key c
      \<Longrightarrow> hget (t_messages d) (a, ob_dest r, c) \<noteq> None"
  shows "db_inv (d\<lparr>t_outbox := ob\<rparr>)"
  by (rule db_invI) (use db_invD[OF assms(1)] assms(2,3) in auto)

lemma db_inv_update_outbox:
  assumes "db_inv d" "\<And>r. hget (t_outbox d) (account, c) = Some r \<Longrightarrow> live_status (ob_status (f r)) \<Longrightarrow> live_status (ob_status r)"
    "\<And>r. ob_dest (f r) = ob_dest r"
  shows "db_inv (update_outbox account c f d)"
  unfolding update_outbox_def
proof (rule db_inv_outbox[OF assms(1)])
  fix a c' r assume r: "hget (hmodify (\<lambda>k r. k = (account, c)) f (t_outbox d)) (a, c') = Some r" "live_status (ob_status r)" "is_client_key c'"
  then obtain r0 where "hget (t_outbox d) (a, c') = Some r0" "r = (if (a, c') = (account, c) then f r0 else r0)" by auto
  then show "hget (t_messages d) (a, ob_dest r, c') \<noteq> None"
    using r db_invD(4)[OF assms(1), of a c' r0] assms(2)[of r0] assms(3)[of r0] by (auto split: if_splits)
qed (use db_invD[OF assms(1)] in simp)

section \<open>Every transaction keeps it\<close>

lemma live_ids_mem:
  "hget (t_outbox d) (account, c) = Some r \<Longrightarrow> live_status (ob_status r) \<Longrightarrow> c \<in> set (live_ids account (ob_dest r) d)"
  by (force simp: live_ids_def dest: hget_SomeD)

lemma prune_inv: "db_inv d \<Longrightarrow> db_inv (prune account dest d)"
  unfolding prune_def Let_def by (erule db_inv_fewer) (use live_ids_mem in auto)

lemma enqueue_tx_inv:
  assumes "db_inv d" "enqueue_tx account own row d = Ok d'" "ob_dest row = oi_dest own"
  shows "db_inv d'"
proof -
  obtain d1 where d1: "insert_own account own d = Ok d1" using assms(2) by (auto simp: enqueue_tx_def res_bind_eq_Inr)
  have p: "db_inv d1" "t_outbox d1 = t_outbox d" "hget (t_messages d1) (account, oi_dest own, oi_key own) \<noteq> None"
    using d1 db_inv_put[OF assms(1)] by (auto simp: insert_own_def Let_def)
  have "db_inv (outbox_insert account (oi_key own) row d1)"
    unfolding outbox_insert_def Let_def
  proof (rule db_inv_outbox[OF p(1)])
    fix a c r
    assume "hget (hput (account, oi_key own) (case hget (t_outbox d1) (account, oi_key own) of
         None \<Rightarrow> row\<lparr>ob_attempt := 0, ob_next_attempt_at := 0, ob_message_id := 0, ob_last_error := []\<rparr>
       | Some r \<Rightarrow> row\<lparr>ob_attempt := ob_attempt r, ob_next_attempt_at := ob_next_attempt_at r, ob_message_id := ob_message_id r,
           ob_last_error := ob_last_error r, ob_created_at := ob_created_at r\<rparr>) (t_outbox d1)) (a, c) = Some r"
      "live_status (ob_status r)" "is_client_key c"
    then show "hget (t_messages d1) (a, ob_dest r, c) \<noteq> None"
      using p(3) assms(3) db_invD(4)[OF p(1), of a c r] by (auto split: if_splits option.splits)
  qed (use db_invD[OF p(1)] in auto)
  then show ?thesis
    using assms(2) d1 by (auto simp: enqueue_tx_def Let_def intro!: prune_inv elim!: db_inv_same[THEN iffD2, rotated 2])
qed

lemma persist_enqueue_inv:
  "db_inv d \<Longrightarrow> persist_enqueue now fresh req account cmd d = Ok (r, d') \<Longrightarrow> db_inv d'"
  by (auto simp: persist_enqueue_def Let_def split_beta res_bind_eq_Inr split: if_splits elim!: enqueue_tx_inv)

lemma persist_enqueue_bot_reply_inv:
  "db_inv d \<Longrightarrow> persist_enqueue_bot_reply now fresh req account dest body irt c d = Ok (r, d') \<Longrightarrow> db_inv d'"
  by (auto simp: persist_enqueue_bot_reply_def Let_def res_bind_eq_Inr split: if_splits elim!: enqueue_tx_inv)

text \<open>The row that loses against another is never one of the client's own.\<close>

lemma loser_not_client:
  assumes "choose_rows by_mid by_key = (s, Some l)" "\<And>k. by_key = Some k \<Longrightarrow> \<not> is_client_key (sm_key k)"
  shows "\<not> is_client_key (sm_key l)"
  using assms by (auto simp: choose_rows_def prefer_key_def split: option.splits if_splits)

lemma find_by_key_key: "find_by_key account dest key d = Some m \<Longrightarrow> sm_key m = key"
  by (auto simp: find_by_key_def stored_from_row_def)

lemma apply_talk_inv:
  assumes "db_inv d" "apply_talk parse now account talk policy d = Ok (r, d')"
  shows "db_inv d' \<and> t_outbox d' = t_outbox d"
proof (cases "incoming_row parse now talk")
  case None
  then show ?thesis using assms by (simp add: apply_talk_def)
next
  case (Some inc)
  define by_mid where "by_mid = (if sm_message_id inc \<noteq> 0 then find_by_mid account (sm_dest inc) (sm_message_id inc) d else None)"
  define by_key where "by_key = find_by_key account (sm_dest inc) (sm_key inc) d"
  obtain sv lo where sl: "choose_rows by_mid by_key = (sv, lo)" by fastforce
  define merged where "merged = (case sv of None \<Rightarrow> inc | Some prev \<Rightarrow> merge_stored prev inc)"
  define d1 where "d1 = (case lo of Some l \<Rightarrow> if sm_key l \<noteq> sm_key merged then delete_key account (sm_dest inc) (sm_key l) d else d | None \<Rightarrow> d)"
  have nc: "\<not> is_client_key (sm_key l)" if l: "lo = Some l" for l
  proof (rule loser_not_client[OF sl[unfolded l]])
    fix k assume k: "by_key = Some k"
    have "by_mid \<noteq> None" using sl l k by (auto simp: choose_rows_def split: option.splits)
    then have "sm_message_id inc \<noteq> 0" by (auto simp: by_mid_def split: if_splits)
    then have "\<not> is_client_key (sm_key inc)"
      using Some by (auto simp: incoming_row_def Let_def split_beta numbered_not_client split: if_splits)
    then show "\<not> is_client_key (sm_key k)" using k find_by_key_key by (auto simp: by_key_def)
  qed
  have "db_inv (delete_key account (sm_dest inc) (sm_key l) d)" if l: "lo = Some l" for l
  proof -
    have "hdel k m = hretain (\<lambda>k' r. k' \<noteq> k) m" for k and m :: messages_table
      by (auto simp: hretain_def AList.delete_eq intro: filter_cong)
    then show ?thesis
      unfolding delete_key_def using nc[OF l] by (auto intro!: db_inv_fewer[OF assms(1)])
  qed
  then have i1: "db_inv d1" "t_outbox d1 = t_outbox d"
    using assms(1) by (auto simp: d1_def split: option.splits)
  have "d' = d1 \<or> put_msg account merged d1 = Ok d'"
    using assms(2) Some sl unfolding by_mid_def by_key_def d1_def merged_def
    by (auto simp: apply_talk_def Let_def res_bind_eq_Inr split: if_splits)
  then show ?thesis
  proof
    assume "put_msg account merged d1 = Ok d'"
    then show ?thesis using db_inv_put[OF i1(1)] i1(2) by (auto simp: put_msg_def Let_def)
  qed (simp add: i1)
qed

lemma persist_talk_frame:
  assumes "persist_talk parse now account policy active talk d = Ok (r, d')"
  obtains r1 d1 where "apply_talk parse now account talk policy d = Ok (r1, d1)"
    "t_messages d' = t_messages d1" "t_outbox d' = t_outbox d1"
proof -
  obtain r1 d1 where a: "apply_talk parse now account talk policy d = Ok (r1, d1)"
    using assms by (auto simp: persist_talk_def res_bind_eq_Inr)
  have "t_messages d' = t_messages d1 \<and> t_outbox d' = t_outbox d1"
    using assms by (cases r1) (auto simp: persist_talk_def a Let_def split_beta split: if_splits)
  then show ?thesis using that a by blast
qed

lemma persist_each_inv:
  "db_inv d \<Longrightarrow> persist_each parse now account policy active talks d = Ok (dests, d') \<Longrightarrow> db_inv d' \<and> t_outbox d' = t_outbox d"
proof (induction talks arbitrary: d dests)
  case (Cons talk talks)
  obtain r d1 ds where 1: "persist_talk parse now account policy active talk d = Ok (r, d1)"
    "persist_each parse now account policy active talks d1 = Ok (ds, d')"
    using Cons.prems(2) by (auto simp: res_bind_eq_Inr)
  obtain r0 d0 where "apply_talk parse now account talk policy d = Ok (r0, d0)" "t_messages d1 = t_messages d0" "t_outbox d1 = t_outbox d0"
    by (rule persist_talk_frame[OF 1(1)])
  then have "db_inv d1 \<and> t_outbox d1 = t_outbox d"
    using apply_talk_inv[OF Cons.prems(1)] db_inv_same[of d1 d0] by auto
  then show ?case using Cons.IH[OF _ 1(2)] by simp
qed simp

lemma prune_all:
  "db_inv d \<Longrightarrow> db_inv (foldl (\<lambda>d dest. prune account dest (bump_timeline_version account dest d)) d dests)
     \<and> t_outbox (foldl (\<lambda>d dest. prune account dest (bump_timeline_version account dest d)) d dests) = t_outbox d"
proof (induction dests arbitrary: d)
  case (Cons c cs)
  have "db_inv (prune account c (bump_timeline_version account c d))"
    by (rule prune_inv) (use Cons.prems db_inv_same[of "bump_timeline_version account c d" d] in simp)
  then show ?case using Cons.IH by simp
qed simp

lemma persist_talks_inv:
  "db_inv d \<Longrightarrow> persist_talks_tx parse now account talks policy active d = Ok (e, d') \<Longrightarrow> db_inv d' \<and> t_outbox d' = t_outbox d"
  using persist_each_inv prune_all by (fastforce simp: persist_talks_tx_def Let_def res_bind_eq_Inr split: if_splits)

lemma cancel_inv:
  assumes "db_inv d"
  shows "db_inv (outbox_cancel account c d)"
proof -
  have "db_inv (d\<lparr>t_outbox := hdel (account, c) (t_outbox d)\<rparr>)"
    by (rule db_inv_outbox[OF assms]) (use db_invD[OF assms] in \<open>auto split: if_splits\<close>)
  then have "db_inv ((d\<lparr>t_outbox := hdel (account, c) (t_outbox d)\<rparr>)
      \<lparr>t_messages := hretain (\<lambda>(a, c', k) r. \<not> (a = account \<and> k = c)) (t_messages (d\<lparr>t_outbox := hdel (account, c) (t_outbox d)\<rparr>))\<rparr>)"
    by (rule db_inv_fewer) (auto split: if_splits)
  then show ?thesis by (simp add: outbox_cancel_def)
qed

lemma delete_thread_inv:
  assumes "db_inv d"
  shows "db_inv (outbox_delete_thread account dest d)"
proof -
  let ?ob = "hretain (\<lambda>(a, c) r. \<not> (a = account \<and> ob_dest r = dest)) (t_outbox d)"
  have ob: "hget ?ob k = Some r \<Longrightarrow> hget (t_outbox d) k = Some r \<and> \<not> (fst k = account \<and> ob_dest r = dest)" for k r
    using hget_hretain[OF db_invD(2)[OF assms]] by (cases k) (auto split: option.splits if_splits)
  have "db_inv (d\<lparr>t_outbox := ?ob\<rparr>)"
  proof (rule db_inv_outbox[OF assms])
    show "hwf ?ob" by (rule hwf_hretain[OF db_invD(2)[OF assms]])
    show "hget (t_messages d) (a, ob_dest r, c) \<noteq> None" if "hget ?ob (a, c) = Some r" "live_status (ob_status r)" "is_client_key c" for a c r
      by (rule db_invD(4)[OF assms _ that(2,3)]) (use ob[OF that(1)] in blast)
  qed
  then have "db_inv ((d\<lparr>t_outbox := ?ob\<rparr>)
      \<lparr>t_messages := hretain (\<lambda>(a, c, k) r. \<not> (a = account \<and> c = dest)) (t_messages (d\<lparr>t_outbox := ?ob\<rparr>))\<rparr>)"
  proof (rule db_inv_fewer)
    fix a c r assume "hget (t_outbox (d\<lparr>t_outbox := ?ob\<rparr>)) (a, c) = Some r"
    then have "\<not> (a = account \<and> ob_dest r = dest)" using ob[of "(a, c)" r] by simp
    then show "(case (a, ob_dest r, c) of (a, c, k) \<Rightarrow> \<lambda>r. \<not> (a = account \<and> c = dest))
        (the (hget (t_messages (d\<lparr>t_outbox := ?ob\<rparr>)) (a, ob_dest r, c)))" by simp
  qed
  then show ?thesis by (rule db_inv_same[THEN iffD2, rotated 2]) (simp_all add: outbox_delete_thread_def)
qed

text \<open>\<open>mark_retry\<close> and \<open>mark_failed\<close> are called by the pump, for rows it has found alive.\<close>

fun op_ok :: "string \<Rightarrow> WriteOp \<Rightarrow> db \<Rightarrow> bool" where
  "op_ok account (MarkRetry c attempt at) d = (hget (t_outbox d) (account, c) = None \<or> outbox_alive account c d)"
| "op_ok account (MarkFailed c) d = (hget (t_outbox d) (account, c) = None \<or> outbox_alive account c d)"
| "op_ok account op d = True"

lemma wake_pending_inv: "db_inv d \<Longrightarrow> db_inv (wake_pending account now d)"
  unfolding wake_pending_def
  by (rule db_inv_outbox) (use db_invD in \<open>auto split: if_splits\<close>)

lemma run_op_inv:
  assumes inv: "db_inv d" and ok: "op_ok account op d" and run: "run_op parse now account active op d = Ok (r, d')"
  shows "db_inv d'"
proof (cases op)
  case (Enqueue cmd fresh req)
  then show ?thesis using run persist_enqueue_inv[OF inv] by (auto simp: res_bind_eq_Inr)
next
  case (EnqueueBotReply dest body irt c fresh req)
  then show ?thesis using run persist_enqueue_bot_reply_inv[OF inv] by (auto simp: res_bind_eq_Inr)
next
  case (PersistTalks talks policy)
  then show ?thesis using run persist_talks_inv[OF inv] by (auto simp: res_bind_eq_Inr)
next
  case (CancelSend c)
  then show ?thesis using run cancel_inv[OF inv] by auto
next
  case (DeleteThread dest)
  then show ?thesis using run delete_thread_inv[OF inv] by auto
next
  case (MarkSent c mid)
  have "db_inv (update_outbox account c (\<lambda>r. r\<lparr>ob_status := ''sent'', ob_message_id := mid, ob_updated_at := now\<rparr>) d)"
    by (rule db_inv_update_outbox[OF inv]) (simp_all add: live_status_def)
  then show ?thesis using run MarkSent by (auto simp: outbox_mark_sent_def res_bind_eq_Inr dest: db_inv_update_key)
next
  case (MarkFailed c)
  have "db_inv (update_outbox account c (\<lambda>r. r\<lparr>ob_status := ''failed'', ob_updated_at := now\<rparr>) d)"
    by (rule db_inv_update_outbox[OF inv]) (use ok MarkFailed in \<open>auto simp: outbox_alive_def\<close>)
  then show ?thesis using run MarkFailed by (auto simp: outbox_mark_failed_def res_bind_eq_Inr dest: db_inv_update_key)
next
  case (MarkRetry c attempt at)
  have "db_inv (outbox_mark_retry account c attempt at now d)"
    unfolding outbox_mark_retry_def
    by (rule db_inv_update_outbox[OF inv]) (use ok MarkRetry in \<open>auto simp: outbox_alive_def\<close>)
  then show ?thesis using run MarkRetry by auto
next
  case (Requeue c)
  have "db_inv (update_outbox account c (\<lambda>r. r\<lparr>ob_status := ''pending'', ob_next_attempt_at := 0, ob_updated_at := now\<rparr>) d)"
    if "hget (t_outbox d) (account, c) = Some r" "ob_status r = ''pending'' \<or> ob_status r = ''failed''" for r
    by (rule db_inv_update_outbox[OF inv]) (use that in \<open>auto simp: live_status_def\<close>)
  then show ?thesis
    using run Requeue by (auto simp: outbox_requeue_def res_bind_eq_Inr dest: db_inv_update_key split: option.splits if_splits)
next
  case DueNow
  then show ?thesis using run wake_pending_inv[OF inv] by auto
next
  case (SetVisibility generation foreground dest kind)
  show ?thesis
  proof (cases active)
    case None
    then show ?thesis using run inv SetVisibility by simp
  next
    case (Some c)
    then have "d' = snd (mark_thread_read_tx now account c kind d)" using run SetVisibility by (simp add: split_beta)
    then show ?thesis by (intro db_inv_keep[OF inv]) simp_all
  qed
next
  case (PersistInbox items)
  then have "d' = snd (persist_inbox parse now account items d)" using run by (simp add: split_beta)
  then show ?thesis by (intro db_inv_keep[OF inv]) simp_all
next
  case (MarkRead dest mid)
  then have "d' = snd (mark_read_tx now account dest mid d)" using run by (simp add: split_beta)
  then show ?thesis by (intro db_inv_keep[OF inv]) simp_all
next
  case (MarkThreadRead dest kind)
  then have "d' = snd (mark_thread_read_tx now account dest kind d)" using run by (simp add: split_beta)
  then show ?thesis by (intro db_inv_keep[OF inv]) simp_all
next
  case (ConfirmRead dest cid server)
  then have "d' = watermark_confirm account dest cid server d" using run by simp
  then show ?thesis by (intro db_inv_keep[OF inv]) simp_all
next
  case (ApplyReadState st)
  then have "d' = d \<or> d' = apply_server_state account (rp_dest st) st False d" using run by (auto split: if_splits)
  then show ?thesis by (elim disjE) (intro db_inv_keep[OF inv], simp_all)+
qed

section \<open>Runs of the store\<close>

text \<open>Calls of the worker in any order, with any outcome of the storage; \<open>allowed\<close> restricts the operations of a run. Threads
  opened outside a session, changes of session, the publisher, a failed confirmation of a read, and a restart that keeps the
  tables.\<close>

inductive sdk_step :: "(string \<Rightarrow> WriteOp \<Rightarrow> bool) \<Rightarrow> Store \<Rightarrow> Store \<Rightarrow> bool" for allowed where
  op: "allowed account op \<Longrightarrow> op_ok account op (st_db s) \<Longrightarrow> sdk_step allowed s (snd (write_worker parse now fault ep account op s))"
| ensure: "sdk_step allowed s (snd (ensure_thread account dest kind s))"
| epoch: "sdk_step allowed s (bump_epoch s)"
| published: "sdk_step allowed s (s\<lparr>st_changes := snd (take_pending (st_changes s))\<rparr>)"
| read_failed: "sdk_step allowed s (s\<lparr>st_db := mark_due_failed account dest now err (st_db s)\<rparr>)"
| reopen: "sdk_step allowed s (store_open (st_db s))"

definition sdk_runs :: "(string \<Rightarrow> WriteOp \<Rightarrow> bool) \<Rightarrow> Store \<Rightarrow> Store \<Rightarrow> bool" where
  "sdk_runs allowed = (sdk_step allowed)\<^sup>*\<^sup>*"

definition sdk_reach :: "Store \<Rightarrow> bool" where
  "sdk_reach = sdk_runs (\<lambda>_ _. True) (store_open db_new)"

lemma write_worker_cases:
  obtains (same) "st_db (snd (write_worker parse now fault ep account op s)) = st_db s"
  | (run) active r where "run_op parse now account active op (st_db s) = Ok (r, st_db (snd (write_worker parse now fault ep account op s)))"
proof (cases "ep = st_epoch s \<and> \<not> visibility_old ep op (st_visibility s) \<and> fault = None")
  case True
  define act where "act = active_dest (set_visibility ep op (st_visibility s)) (st_epoch s)"
  show ?thesis
  proof (cases "run_op parse now account act op (st_db s)")
    case (Inl e)
    then have "st_db (snd (write_worker parse now fault ep account op s)) = st_db s"
      using True by (simp add: write_worker_def act_def Let_def)
    then show ?thesis by (rule same)
  next
    case (Inr x)
    obtain r e d where x: "x = ((r, e), d)" by (metis prod.exhaust)
    have "st_db (snd (write_worker parse now fault ep account op s)) = d"
      using True Inr x by (auto simp: write_worker_def act_def Let_def split_beta)
    then show ?thesis using run[of act "(r, e)"] Inr x by simp
  qed
next
  case False
  then have "st_db (snd (write_worker parse now fault ep account op s)) = st_db s"
    by (auto simp: write_worker_def Let_def split: option.splits)
  then show ?thesis by (rule same)
qed

text \<open>What a run keeps of the tables.\<close>

lemma sdk_runs_keep:
  assumes runs: "sdk_runs allowed s s'" and start: "P (st_db s)"
    and ops: "\<And>account op d parse now active r d'. allowed account op \<Longrightarrow> op_ok account op d \<Longrightarrow> P d
      \<Longrightarrow> run_op parse now account active op d = Ok (r, d') \<Longrightarrow> P d'"
    and ens: "\<And>account dest kind d. P d \<Longrightarrow> P (thread_ensure account dest kind d)"
    and fld: "\<And>account dest now err d. P d \<Longrightarrow> P (mark_due_failed account dest now err d)"
  shows "P (st_db s')"
  using runs unfolding sdk_runs_def
proof (induction rule: rtranclp_induct)
  case base
  show ?case by (rule start)
next
  case (step s1 s2)
  from step.hyps(2) show ?case
  proof (cases rule: sdk_step.cases)
    case (op account op parse now fault ep)
    show ?thesis
      unfolding op(1)
    proof (cases rule: write_worker_cases[of parse now fault ep account op s1])
      case same
      then show "P (st_db (snd (write_worker parse now fault ep account op s1)))" using step.IH by simp
    next
      case (run active r)
      show "P (st_db (snd (write_worker parse now fault ep account op s1)))" by (rule ops[OF op(2,3) step.IH run])
    qed
  next
    case (ensure account dest kind)
    then show ?thesis using ens[OF step.IH] by (simp add: ensure_thread_def Let_def split_beta)
  next
    case (read_failed account dest now err)
    then show ?thesis using fld[OF step.IH] by simp
  qed (use step.IH in \<open>simp_all add: bump_epoch_def store_open_def\<close>)
qed

lemma mark_due_failed_frame [simp]:
  "t_messages (mark_due_failed account dest now err d) = t_messages d" "t_outbox (mark_due_failed account dest now err d) = t_outbox d"
  by (simp_all add: mark_due_failed_def Let_def)

lemma sdk_runs_inv: "sdk_runs allowed s s' \<Longrightarrow> db_inv (st_db s) \<Longrightarrow> db_inv (st_db s')"
  by (erule sdk_runs_keep) (auto elim: run_op_inv db_inv_keep)

lemma sdk_reach_inv: "sdk_reach s \<Longrightarrow> db_inv (st_db s)"
  unfolding sdk_reach_def by (erule sdk_runs_inv) (simp add: store_open_def db_inv_new)

lemma mid_uniqueD:
  assumes "mid_unique m" "hget m (a, c, k) = Some r" "hget m (a, c, k') = Some r'" "mr_message_id r = mr_message_id r'" "mr_message_id r \<noteq> 0"
  shows "k = k'"
proof -
  have inj: "inj_on mid_key (set (filter (\<lambda>(k, r). mr_message_id r \<noteq> 0) m))" using assms(1) by (simp add: mid_unique_def distinct_map)
  have "((a, c, k), r) = ((a, c, k'), r')"
    by (rule inj_onD[OF inj]) (use assms hget_SomeD[OF assms(2)] hget_SomeD[OF assms(3)] in \<open>auto simp: mid_key_def\<close>)
  then show ?thesis by simp
qed

text \<open>C27: In every state the local store can get into, by any sequence of the worker's operations for any accounts and sessions,
  with storage failures and restarts in between, a message that is in the outbox under an identifier of the client and neither
  sent nor cancelled is also in its conversation: neither the limit on stored messages nor the merge with a copy from the server
  removes it. And no two messages of a conversation have the same number.\<close>

theorem outbox_backed:
  assumes "sdk_reach s"
  shows "(hget (t_outbox (st_db s)) (account, c) = Some r \<and> live_status (ob_status r) \<and> is_client_key c
      \<longrightarrow> (\<exists>m. hget (t_messages (st_db s)) (account, ob_dest r, c) = Some m))
    \<and> (hget (t_messages (st_db s)) (account, dest, k) = Some m \<and> hget (t_messages (st_db s)) (account, dest, k') = Some m'
      \<and> mr_message_id m = mr_message_id m' \<and> mr_message_id m \<noteq> 0 \<longrightarrow> k = k')"
  using db_invD(4)[OF sdk_reach_inv[OF assms], of account c r]
    mid_uniqueD[OF db_invD(3)[OF sdk_reach_inv[OF assms]], of account dest k m k' m'] by blast

section \<open>An accepted message\<close>

definition chosen_id :: "string option \<Rightarrow> string \<Rightarrow> string" where
  "chosen_id given fresh = (case given of Some i \<Rightarrow> (if i \<noteq> [] then i else fresh) | None \<Rightarrow> fresh)"

text \<open>The operations that end or replace the send \<open>c\<close> of an account.\<close>

fun settles :: "string \<Rightarrow> string \<Rightarrow> WriteOp \<Rightarrow> bool" where
  "settles c dest (MarkSent c' mid) = (c' = c)"
| "settles c dest (MarkFailed c') = (c' = c)"
| "settles c dest (CancelSend c') = (c' = c)"
| "settles c dest (DeleteThread dest') = (dest' = dest)"
| "settles c dest (Enqueue cmd fresh req) = (chosen_id (sc_client_id cmd) fresh = c)"
| "settles c dest (EnqueueBotReply dest' body irt c' fresh req) = (chosen_id (Some c') fresh = c)"
| "settles c dest op = False"

definition waiting :: "string \<Rightarrow> string \<Rightarrow> string \<Rightarrow> string \<Rightarrow> db \<Rightarrow> bool" where
  "waiting account c dest body d \<longleftrightarrow>
     (\<exists>r. hget (t_outbox d) (account, c) = Some r \<and> ob_status r = ''pending'' \<and> ob_dest r = dest \<and> ob_body r = body)"

lemma waiting_same: "hget (t_outbox d') (account, c) = hget (t_outbox d) (account, c) \<Longrightarrow> waiting account c dest body d \<Longrightarrow> waiting account c dest body d'"
  by (simp add: waiting_def)

lemma enqueue_tx_outbox:
  assumes "enqueue_tx account own row d = Ok d'"
  shows "hget (t_outbox d') k = (if k = (account, oi_key own) then hget (t_outbox (outbox_insert account (oi_key own) row d)) k else hget (t_outbox d) k)"
proof -
  obtain d1 where d1: "insert_own account own d = Ok d1" using assms by (auto simp: enqueue_tx_def res_bind_eq_Inr)
  then have "t_outbox d1 = t_outbox d" by (auto simp: insert_own_def Let_def put_messages_Ok)
  moreover have "t_outbox d' = t_outbox (outbox_insert account (oi_key own) row d1)"
    using assms d1 by (auto simp: enqueue_tx_def Let_def)
  ultimately show ?thesis by (simp add: outbox_insert_def Let_def)
qed

lemma persist_enqueue_outbox:
  assumes "persist_enqueue now fresh req account cmd d = Ok ((rc, e), d')"
  shows "rc_client_id rc = chosen_id (sc_client_id cmd) fresh" "rc_dest rc = sc_dest cmd"
    "waiting account (rc_client_id rc) (sc_dest cmd) (fst (payload_columns (sc_payload cmd))) d'"
    "k \<noteq> (account, rc_client_id rc) \<Longrightarrow> hget (t_outbox d') k = hget (t_outbox d) k"
proof -
  obtain own row where t: "enqueue_tx account own row d = Ok d'" "oi_key own = chosen_id (sc_client_id cmd) fresh"
      "ob_status row = ''pending''" "ob_dest row = sc_dest cmd" "ob_body row = fst (payload_columns (sc_payload cmd))"
    and r: "rc_client_id rc = chosen_id (sc_client_id cmd) fresh" "rc_dest rc = sc_dest cmd"
    using assms by (auto simp: persist_enqueue_def Let_def split_beta res_bind_eq_Inr chosen_id_def split: if_splits)
  note o = enqueue_tx_outbox[OF t(1)]
  show "rc_client_id rc = chosen_id (sc_client_id cmd) fresh" "rc_dest rc = sc_dest cmd" by (rule r)+
  show "waiting account (rc_client_id rc) (sc_dest cmd) (fst (payload_columns (sc_payload cmd))) d'"
    using t(2-5) r by (auto simp: waiting_def o outbox_insert_def Let_def split: option.splits)
  show "k \<noteq> (account, rc_client_id rc) \<Longrightarrow> hget (t_outbox d') k = hget (t_outbox d) k"
    using t(2) r by (simp add: o)
qed

lemma persist_bot_reply_outbox:
  assumes "persist_enqueue_bot_reply now fresh req account dest body irt c d = Ok (r, d')" "k \<noteq> (account, chosen_id (Some c) fresh)"
  shows "hget (t_outbox d') k = hget (t_outbox d) k"
  using assms
  by (auto simp: persist_enqueue_bot_reply_def Let_def res_bind_eq_Inr chosen_id_def split: if_splits dest!: enqueue_tx_outbox[where k = k])

lemma update_key_outbox: "update_key account key f d = Ok d' \<Longrightarrow> t_outbox d' = t_outbox d"
  by (auto simp: update_key_def put_messages_Ok)

lemma waiting_update:
  assumes "waiting account c dest body d" "\<And>r. ob_dest (f r) = ob_dest r \<and> ob_body (f r) = ob_body r"
    "\<And>r. (a, c') = (account, c) \<Longrightarrow> ob_status r = ''pending'' \<Longrightarrow> ob_status (f r) = ''pending''"
  shows "waiting account c dest body (update_outbox a c' f d)"
proof -
  obtain r where r: "hget (t_outbox d) (account, c) = Some r" "ob_status r = ''pending''" "ob_dest r = dest" "ob_body r = body"
    using assms(1) by (auto simp: waiting_def)
  have "hget (t_outbox (update_outbox a c' f d)) (account, c) = Some (if (a, c') = (account, c) then f r else r)"
    using r(1) by (auto simp: update_outbox_def)
  then show ?thesis
    using r assms(2)[of r] assms(3)[of r] unfolding waiting_def by (cases "(a, c') = (account, c)") auto
qed

lemma waiting_updated:
  assumes "t_outbox d' = t_outbox (update_outbox a c' f d)" "waiting account c dest body d"
    "\<And>r. ob_dest (f r) = ob_dest r \<and> ob_body (f r) = ob_body r"
    "\<And>r. (a, c') = (account, c) \<Longrightarrow> ob_status r = ''pending'' \<Longrightarrow> ob_status (f r) = ''pending''"
  shows "waiting account c dest body d'"
  by (rule waiting_same[OF _ waiting_update[OF assms(2-4)]]) (simp_all add: assms(1))

lemma run_op_waiting:
  assumes inv: "db_inv d" and wait: "waiting account c dest body d" and keeps: "a \<noteq> account \<or> \<not> settles c dest op"
    and run: "run_op parse now a active op d = Ok (r, d')"
  shows "waiting account c dest body d'"
proof (cases op)
  case (Enqueue cmd fresh req)
  then obtain rc e where e: "persist_enqueue now fresh req a cmd d = Ok ((rc, e), d')" using run by (auto simp: res_bind_eq_Inr)
  show ?thesis
    by (rule waiting_same[OF _ wait], rule persist_enqueue_outbox(4)[OF e])
      (use keeps Enqueue persist_enqueue_outbox(1)[OF e] in auto)
next
  case (EnqueueBotReply dest' body' irt c' fresh req)
  then obtain x where e: "persist_enqueue_bot_reply now fresh req a dest' body' irt c' d = Ok (x, d')" using run by (auto simp: res_bind_eq_Inr)
  show ?thesis
    by (rule waiting_same[OF _ wait], rule persist_bot_reply_outbox[OF e]) (use keeps EnqueueBotReply in auto)
next
  case (PersistTalks talks policy)
  then obtain e where "persist_talks_tx parse now a talks policy active d = Ok (e, d')" using run by (auto simp: res_bind_eq_Inr)
  from persist_talks_inv[OF inv this] show ?thesis by (intro waiting_same[OF _ wait]) simp
next
  case (CancelSend c')
  then have "d' = outbox_cancel a c' d" using run by simp
  then show ?thesis by (intro waiting_same[OF _ wait]) (use keeps CancelSend in \<open>auto simp: outbox_cancel_def\<close>)
next
  case (DeleteThread dest')
  then have d': "d' = outbox_delete_thread a dest' d" using run by simp
  show ?thesis
    using wait keeps DeleteThread hget_hretain[OF db_invD(2)[OF inv]] unfolding d'
    by (auto simp: waiting_def outbox_delete_thread_def)
next
  case (MarkSent c' mid)
  then have "t_outbox d' = t_outbox (update_outbox a c' (\<lambda>r. r\<lparr>ob_status := ''sent'', ob_message_id := mid, ob_updated_at := now\<rparr>) d)"
    using run by (auto simp: outbox_mark_sent_def res_bind_eq_Inr dest: update_key_outbox)
  then show ?thesis by (rule waiting_updated[OF _ wait]) (use keeps MarkSent in auto)
next
  case (MarkFailed c')
  then have "t_outbox d' = t_outbox (update_outbox a c' (\<lambda>r. r\<lparr>ob_status := ''failed'', ob_updated_at := now\<rparr>) d)"
    using run by (auto simp: outbox_mark_failed_def res_bind_eq_Inr dest: update_key_outbox)
  then show ?thesis by (rule waiting_updated[OF _ wait]) (use keeps MarkFailed in auto)
next
  case (MarkRetry c' attempt at)
  then have "d' = outbox_mark_retry a c' attempt at now d" using run by simp
  then show ?thesis unfolding outbox_mark_retry_def by (simp add: waiting_update[OF wait])
next
  case (Requeue c')
  then have "t_outbox d' = t_outbox (update_outbox a c' (\<lambda>r. r\<lparr>ob_status := ''pending'', ob_next_attempt_at := 0, ob_updated_at := now\<rparr>) d)"
    using run by (auto simp: outbox_requeue_def res_bind_eq_Inr dest: update_key_outbox split: option.splits if_splits)
  then show ?thesis by (rule waiting_updated[OF _ wait]) auto
next
  case DueNow
  then have d': "d' = wake_pending a now d" using run by simp
  obtain r where r: "hget (t_outbox d) (account, c) = Some r" "ob_status r = ''pending''" "ob_dest r = dest" "ob_body r = body"
    using wait by (auto simp: waiting_def)
  then have "hget (t_outbox d') (account, c) = Some (if a = account then r\<lparr>ob_next_attempt_at := 0, ob_updated_at := now\<rparr> else r)"
    by (simp add: d' wake_pending_def)
  then show ?thesis using r by (cases "a = account") (simp_all add: waiting_def)
next
  case (PersistInbox items)
  then have "d' = snd (persist_inbox parse now a items d)" using run by (simp add: split_beta)
  then show ?thesis by (intro waiting_same[OF _ wait]) simp
next
  case (MarkRead dest' mid)
  then have "d' = snd (mark_read_tx now a dest' mid d)" using run by (simp add: split_beta)
  then show ?thesis by (intro waiting_same[OF _ wait]) simp
next
  case (MarkThreadRead dest' kind)
  then have "d' = snd (mark_thread_read_tx now a dest' kind d)" using run by (simp add: split_beta)
  then show ?thesis by (intro waiting_same[OF _ wait]) simp
next
  case (SetVisibility generation foreground dest' kind)
  then have "d' = d \<or> (\<exists>c'. d' = snd (mark_thread_read_tx now a c' kind d))" using run by (cases active) (auto simp: split_beta)
  then show ?thesis by (intro waiting_same[OF _ wait]) auto
next
  case (ConfirmRead dest' cid server)
  then have "d' = watermark_confirm a dest' cid server d" using run by simp
  then show ?thesis by (intro waiting_same[OF _ wait]) simp
next
  case (ApplyReadState st)
  then have "d' = d \<or> d' = apply_server_state a (rp_dest st) st False d" using run by (auto split: if_splits)
  then show ?thesis by (intro waiting_same[OF _ wait]) auto
qed

lemma sdk_runs_waiting:
  assumes "sdk_runs (\<lambda>a op. a \<noteq> account \<or> \<not> settles c dest op) s s'" "db_inv (st_db s)" "waiting account c dest body (st_db s)"
  shows "db_inv (st_db s') \<and> waiting account c dest body (st_db s')"
proof (rule sdk_runs_keep[OF assms(1), where P = "\<lambda>d. db_inv d \<and> waiting account c dest body d"])
  show "db_inv (st_db s) \<and> waiting account c dest body (st_db s)" using assms(2,3) by simp
  show "db_inv d' \<and> waiting account c dest body d'"
    if "a \<noteq> account \<or> \<not> settles c dest op" "op_ok a op d" "db_inv d \<and> waiting account c dest body d" "run_op parse now a active op d = Ok (r, d')"
    for a op d parse now active r d'
    using run_op_inv[OF _ that(2,4)] run_op_waiting[OF _ _ that(1,4)] that(3) by blast
  show "db_inv (thread_ensure a dest' kind d) \<and> waiting account c dest body (thread_ensure a dest' kind d)"
    if "db_inv d \<and> waiting account c dest body d" for a dest' kind d
    using that by (auto intro: db_inv_keep waiting_same[of _ _ _ d])
  show "db_inv (mark_due_failed a dest' now err d) \<and> waiting account c dest body (mark_due_failed a dest' now err d)"
    if "db_inv d \<and> waiting account c dest body d" for a dest' now err d
    using that by (auto intro: db_inv_keep waiting_same[of _ _ _ d])
qed

lemma load_due_mem:
  "hget (t_outbox d) (account, c) = Some r \<Longrightarrow> ob_status r = ''pending'' \<Longrightarrow> ob_next_attempt_at r \<le> t \<Longrightarrow> (c, r) \<in> set (load_due account t d)"
  by (force simp: load_due_def dest: hget_SomeD)

text \<open>C25: A message that the store has accepted is not lost. Once a send was answered with a receipt, the message waits in the
  outbox with its conversation and body through every further operation of the store, for any account, storage failures, new
  sessions and restarts, until an operation settles it: it is marked sent or failed, cancelled, sent anew under the same
  identifier, or its conversation is deleted. While it waits it is among the due messages from the time of its next attempt on,
  and its conversation shows it if its identifier is one the client made.\<close>

theorem send_not_lost:
  assumes "sdk_reach s"
    and "write_worker parse now None ep account (Enqueue cmd fresh req) s = (Ok (Receipt rc, n), s1)"
    and "sdk_runs (\<lambda>a op. a \<noteq> account \<or> \<not> settles (rc_client_id rc) (sc_dest cmd) op) s1 s2"
  shows "\<exists>r. hget (t_outbox (st_db s2)) (account, rc_client_id rc) = Some r \<and> ob_dest r = sc_dest cmd
      \<and> ob_body r = fst (payload_columns (sc_payload cmd))
      \<and> (\<forall>t. ob_next_attempt_at r \<le> t \<longrightarrow> (rc_client_id rc, r) \<in> set (load_due account t (st_db s2)))
      \<and> (is_client_key (rc_client_id rc) \<longrightarrow> hget (t_messages (st_db s2)) (account, sc_dest cmd, rc_client_id rc) \<noteq> None)"
proof -
  obtain active e where e: "persist_enqueue now fresh req account cmd (st_db s) = Ok ((rc, e), st_db s1)"
    using assms(2) by (auto simp: write_worker_def visibility_old_def Let_def split_beta res_bind_eq_Inr split: if_splits sum.splits)
  have "db_inv (st_db s1)" by (rule persist_enqueue_inv[OF sdk_reach_inv[OF assms(1)] e])
  from sdk_runs_waiting[OF assms(3) this persist_enqueue_outbox(3)[OF e]]
  have i: "db_inv (st_db s2)" and "waiting account (rc_client_id rc) (sc_dest cmd) (fst (payload_columns (sc_payload cmd))) (st_db s2)"
    by blast+
  then obtain r where r: "hget (t_outbox (st_db s2)) (account, rc_client_id rc) = Some r" "ob_status r = ''pending''"
    "ob_dest r = sc_dest cmd" "ob_body r = fst (payload_columns (sc_payload cmd))"
    by (auto simp: waiting_def)
  then show ?thesis
    using load_due_mem[OF r(1,2)] db_invD(4)[OF i r(1)] by (auto simp: live_status_def)
qed

section \<open>Read positions\<close>

definition reads_le :: "db \<Rightarrow> db \<Rightarrow> bool" where
  "reads_le d d' \<longleftrightarrow> (\<forall>a c. watermark_of a c d \<le> watermark_of a c d' \<and> max 0 (server_read_of a c d) \<le> max 0 (server_read_of a c d'))"

lemma reads_le_refl [simp]: "reads_le d d"
  by (simp add: reads_le_def)

lemma reads_le_trans: "reads_le d d1 \<Longrightarrow> reads_le d1 d2 \<Longrightarrow> reads_le d d2"
  unfolding reads_le_def by (meson order_trans)

lemma reads_le_same: "t_watermarks d' = t_watermarks d \<Longrightarrow> t_read_state d' = t_read_state d \<Longrightarrow> reads_le d0 d \<Longrightarrow> reads_le d0 d'"
  by (simp add: reads_le_def watermark_of_def server_read_of_def)

lemma reads_le_upsert:
  assumes "reads_le d0 d" "0 < wm_last_read_message_id w" "\<And>w. wm_last_read_message_id w \<le> wm_last_read_message_id (f w)"
  shows "reads_le d0 (upsert_watermark account dest w f d)"
proof -
  have "watermark_of a c d \<le> watermark_of a c (upsert_watermark account dest w f d)" for a c
    using assms(2,3) by (auto simp: watermark_of_def upsert_watermark_def split: option.splits)
  moreover have "server_read_of a c (upsert_watermark account dest w f d) = server_read_of a c d" for a c
    by (simp add: server_read_of_def upsert_watermark_def)
  ultimately have "reads_le d (upsert_watermark account dest w f d)" by (simp add: reads_le_def)
  then show ?thesis by (rule reads_le_trans[OF assms(1)])
qed

lemma reads_le_known_max: "reads_le d0 d \<Longrightarrow> reads_le d0 (bump_known_max account dest kind mid d)"
proof (erule reads_le_trans)
  show "reads_le d (bump_known_max account dest kind mid d)"
    by (auto simp: reads_le_def watermark_of_def server_read_of_def bump_known_max_def Let_def split: option.splits)
qed

lemma reads_le_server: "reads_le d0 d \<Longrightarrow> reads_le d0 (upsert_server_state account dest st d)"
proof (erule reads_le_trans)
  show "reads_le d (upsert_server_state account dest st d)"
    by (auto simp: reads_le_def watermark_of_def server_read_of_def upsert_server_state_def Let_def split: option.splits)
qed

lemma reads_le_advance: "reads_le d0 d \<Longrightarrow> reads_le d0 (snd (advance_id account dest kind mid now d))"
  by (auto simp: advance_id_def new_watermark_def Let_def intro!: reads_le_known_max reads_le_upsert)

lemma reads_le_queue: "reads_le d0 d \<Longrightarrow> reads_le d0 (queue_sync account dest kind mid now d)"
  by (auto simp: queue_sync_def new_watermark_def intro!: reads_le_upsert)

lemma reads_le_threads:
  "reads_le d0 d \<Longrightarrow> reads_le d0 (set_unread account dest u d)"
  "reads_le d0 d \<Longrightarrow> reads_le d0 (thread_put account dest t d)"
  by (erule reads_le_same[rotated 2], simp_all add: set_unread_def thread_put_def)+

lemma reads_le_apply: "reads_le d0 d \<Longrightarrow> reads_le d0 (apply_server_state account dest st own d)"
  by (auto simp: apply_server_state_def new_watermark_def Let_def intro!: reads_le_threads reads_le_server reads_le_upsert)

lemma reads_le_confirm: "reads_le d0 d \<Longrightarrow> reads_le d0 (watermark_confirm account dest cid server d)"
proof -
  assume d: "reads_le d0 d"
  let ?d1 = "d\<lparr>t_watermarks := hmodify (\<lambda>k w. k = (account, dest))
      (\<lambda>w. w\<lparr>wm_confirmed_message_id := max (wm_confirmed_message_id w) cid, wm_retry_count := 0,
         wm_next_retry_at := 0, wm_last_error := []\<rparr>) (t_watermarks d)\<rparr>"
  have "reads_le d ?d1" by (auto simp: reads_le_def watermark_of_def server_read_of_def split: option.splits)
  then have "reads_le d0 ?d1" by (rule reads_le_trans[OF d])
  then show ?thesis using d by (auto simp: watermark_confirm_def Let_def intro: reads_le_apply split: option.splits)
qed

lemma reads_le_failed: "reads_le d0 d \<Longrightarrow> reads_le d0 (mark_due_failed account dest now err d)"
proof (erule reads_le_trans)
  show "reads_le d (mark_due_failed account dest now err d)"
    by (auto simp: reads_le_def watermark_of_def server_read_of_def mark_due_failed_def Let_def split: option.splits)
qed

lemmas reads_le_rules = reads_le_advance reads_le_queue reads_le_threads reads_le_apply reads_le_known_max

lemma reads_le_full:
  "reads_le d0 d \<Longrightarrow> reads_le d0 (upsert_full account dest t d)"
  "reads_le d0 d \<Longrightarrow> reads_le d0 (upsert_on_send account dest tk body at media sys d)"
  "reads_le d0 d \<Longrightarrow> reads_le d0 (thread_ensure account dest tk d)"
  "reads_le d0 d \<Longrightarrow> reads_le d0 (apply_incoming account msg u d)"
  "reads_le d0 d \<Longrightarrow> reads_le d0 (snd (persist_inbox_item parse now account item d))"
  by (auto simp: upsert_full_def upsert_on_send_def thread_ensure_def apply_incoming_def persist_inbox_item_def Let_def split_beta
      intro!: reads_le_threads split: option.splits)

lemma reads_le_inbox: "reads_le d0 d \<Longrightarrow> reads_le d0 (snd (persist_inbox parse now account items d))"
proof (induction items arbitrary: d)
  case (Cons item items)
  have "reads_le d0 (if 0 < ci_last_read_message_id item \<or> 0 < ci_state_version item
      then apply_server_state account (ci_dest item) (from_inbox_item item) False d else d)"
    using Cons.prems reads_le_apply by simp
  from Cons.IH[OF reads_le_full(5)[OF this]] show ?case by (simp only: persist_inbox.simps Let_def split_beta snd_conv)
qed simp

lemma reads_le_mark:
  "reads_le d0 d \<Longrightarrow> reads_le d0 (snd (mark_read_tx now account dest mid d))"
  "reads_le d0 d \<Longrightarrow> reads_le d0 (snd (mark_thread_read_tx now account dest kind d))"
  by (auto simp: mark_read_tx_def watermark_advance_def mark_thread_read_tx_def Let_def split_beta intro!: reads_le_rules)

text \<open>The tables of messages and of the outbox carry no read positions.\<close>

lemma reads_le_put: "put_messages m d = Ok d' \<Longrightarrow> reads_le d0 d \<Longrightarrow> reads_le d0 d'"
  by (erule reads_le_same[rotated 2], auto simp: put_messages_Ok)

lemma reads_le_update_key: "update_key account key f d = Ok d' \<Longrightarrow> reads_le d0 d \<Longrightarrow> reads_le d0 d'"
  unfolding update_key_def by (rule reads_le_put)

lemma reads_le_tables:
  "reads_le d0 d \<Longrightarrow> reads_le d0 (update_outbox account c f d)"
  "reads_le d0 d \<Longrightarrow> reads_le d0 (outbox_insert account c row d)"
  "reads_le d0 d \<Longrightarrow> reads_le d0 (wake_pending account now d)"
  "reads_le d0 d \<Longrightarrow> reads_le d0 (prune account dest d)"
  "reads_le d0 d \<Longrightarrow> reads_le d0 (bump_timeline_version account dest d)"
  "reads_le d0 d \<Longrightarrow> reads_le d0 (delete_key account dest k d)"
  "reads_le d0 d \<Longrightarrow> reads_le d0 (outbox_cancel account c d)"
  by (erule reads_le_same[rotated 2], simp_all add: update_outbox_def outbox_insert_def wake_pending_def prune_def
      bump_timeline_version_def delete_key_def outbox_cancel_def Let_def)+

lemma reads_le_enqueue: "enqueue_tx account own row d = Ok d' \<Longrightarrow> reads_le d0 d \<Longrightarrow> reads_le d0 d'"
  by (auto simp: enqueue_tx_def insert_own_def Let_def res_bind_eq_Inr intro!: reads_le_tables reads_le_full elim!: reads_le_put)

lemma reads_le_talk: "apply_talk parse now account talk policy d = Ok (r, d') \<Longrightarrow> reads_le d0 d \<Longrightarrow> reads_le d0 d'"
  by (auto simp: apply_talk_def put_msg_def Let_def split_beta res_bind_eq_Inr intro: reads_le_tables elim!: reads_le_put
      split: option.splits if_splits)

lemma reads_le_persist:
  assumes "persist_talk parse now account policy active talk d = Ok (r, d')" "reads_le d0 d"
  shows "reads_le d0 d'"
proof -
  obtain r1 d1 where a: "apply_talk parse now account talk policy d = Ok (r1, d1)"
    using assms(1) by (auto simp: persist_talk_def res_bind_eq_Inr)
  note d1 = reads_le_talk[OF a assms(2)]
  show ?thesis
  proof (cases r1)
    case None
    then show ?thesis using assms(1) a d1 by (simp add: persist_talk_def)
  next
    case (Some out)
    define mid where "mid = sm_message_id (ao_msg out)"
    define kind where "kind = ThreadKind_as_wire (sm_thread_kind (ao_msg out))"
    define d2 where "d2 = (if mid > 0 then bump_known_max account (ao_dest out) kind mid d1 else d1)"
    define e where "e = advance_id account (ao_dest out) kind mid now d2"
    define d3 where "d3 = (if active = Some (ao_dest out) \<and> mid > 0
      then set_unread account (ao_dest out) 0 (queue_sync account (ao_dest out) kind (fst e) now (snd e)) else d2)"
    have "reads_le d0 d2" using d1 by (simp add: d2_def reads_le_known_max)
    then have d3: "reads_le d0 d3" by (simp add: d3_def e_def reads_le_rules)
    have "d' = d3 \<or> (\<exists>m u. d' = apply_incoming account m u d3)"
      using assms(1) unfolding persist_talk_def a Some res_bind_simps Let_def split_beta fst_conv snd_conv option.case
        mid_def[symmetric] kind_def[symmetric] d2_def[symmetric] e_def[symmetric] d3_def[symmetric]
      by (auto split: if_splits)
    then show ?thesis using d3 reads_le_full(4) by auto
  qed
qed

lemma reads_le_each: "persist_each parse now account policy active talks d = Ok (r, d') \<Longrightarrow> reads_le d0 d \<Longrightarrow> reads_le d0 d'"
  by (induction talks arbitrary: d r) (auto simp: res_bind_eq_Inr dest: reads_le_persist)

lemma reads_le_prunes:
  "reads_le d0 d \<Longrightarrow> reads_le d0 (foldl (\<lambda>d dest. prune account dest (bump_timeline_version account dest d)) d dests)"
proof (induction dests arbitrary: d)
  case (Cons c cs)
  from Cons.IH[OF reads_le_tables(4)[OF reads_le_tables(5)[OF Cons.prems]]] show ?case by simp
qed simp

lemma hget_hretain_all: "(\<And>v. P k v) \<Longrightarrow> hget (hretain P m) k = hget m k"
  by (induction m) (auto simp: hretain_def)

lemma delete_thread_reads:
  "(a, dest') \<noteq> (account, dest) \<Longrightarrow> watermark_of account dest (outbox_delete_thread a dest' d) = watermark_of account dest d
   \<and> server_read_of account dest (outbox_delete_thread a dest' d) = server_read_of account dest d"
  by (auto simp: watermark_of_def server_read_of_def outbox_delete_thread_def hget_hretain_all)

lemma run_op_reads:
  assumes keeps: "\<And>dest. op \<noteq> DeleteThread dest" and run: "run_op parse now account active op d = Ok (r, d')"
  shows "reads_le d d'"
proof -
  have d: "reads_le d d" by simp
  show ?thesis
  proof (cases op)
    case (Enqueue cmd fresh req)
    then show ?thesis using run by (auto simp: persist_enqueue_def Let_def split_beta res_bind_eq_Inr elim: reads_le_enqueue split: if_splits)
  next
    case (EnqueueBotReply dest' body' irt c' fresh req)
    then show ?thesis using run by (auto simp: persist_enqueue_bot_reply_def Let_def res_bind_eq_Inr elim: reads_le_enqueue split: if_splits)
  next
    case (PersistTalks talks policy)
    then obtain e where "persist_talks_tx parse now account talks policy active d = Ok (e, d')" using run by (auto simp: res_bind_eq_Inr)
    then show ?thesis
      by (auto simp: persist_talks_tx_def Let_def res_bind_eq_Inr split: if_splits intro!: reads_le_prunes elim!: reads_le_each)
  next
    case (SetVisibility generation foreground dest' kind)
    then have "d' = d \<or> (\<exists>c'. d' = snd (mark_thread_read_tx now account c' kind d))" using run by (cases active) (auto simp: split_beta)
    then show ?thesis using reads_le_mark(2)[OF d] by auto
  next
    case (MarkSent c mid)
    then show ?thesis using run
      by (auto simp: outbox_mark_sent_def res_bind_eq_Inr elim!: reads_le_update_key intro!: reads_le_tables)
  next
    case (MarkFailed c)
    then show ?thesis using run
      by (auto simp: outbox_mark_failed_def res_bind_eq_Inr elim!: reads_le_update_key intro!: reads_le_tables)
  next
    case (Requeue c)
    then show ?thesis using run
      by (auto simp: outbox_requeue_def res_bind_eq_Inr elim!: reads_le_update_key intro!: reads_le_tables split: option.splits if_splits)
  next
    case (MarkRetry c attempt at)
    then show ?thesis using run by (auto simp: outbox_mark_retry_def intro!: reads_le_tables)
  next
    case (PersistInbox items)
    then show ?thesis using run reads_le_inbox[OF d, of parse now account items] by (simp add: split_beta)
  next
    case (MarkRead dest' mid)
    then show ?thesis using run reads_le_mark(1)[OF d, of now account dest' mid] by (simp add: split_beta)
  next
    case (MarkThreadRead dest' kind)
    then show ?thesis using run reads_le_mark(2)[OF d, of now account dest' kind] by (simp add: split_beta)
  next
    case (ConfirmRead dest' cid server)
    then show ?thesis using run reads_le_confirm[OF d, of account dest' cid server] by simp
  next
    case (ApplyReadState st)
    then show ?thesis using run reads_le_apply[OF d, of account "rp_dest st" st False] by (auto split: if_splits)
  next
    case (CancelSend c)
    then show ?thesis using run reads_le_tables(7)[OF d, of account c] by simp
  next
    case DueNow
    then show ?thesis using run reads_le_tables(3)[OF d, of account now] by simp
  qed (use keeps in auto)
qed

lemma sdk_runs_read:
  assumes "sdk_runs (\<lambda>a op. (a, op) \<noteq> (account, DeleteThread dest)) s s'" "0 < m" "m \<le> effective_read account dest (st_db s)"
  shows "m \<le> effective_read account dest (st_db s')"
proof (rule sdk_runs_keep[OF assms(1), where P = "\<lambda>d. m \<le> effective_read account dest d"])
  have le: "m \<le> effective_read account dest d'" if "m \<le> effective_read account dest d" "reads_le d d'" for d d'
    using that assms(2) unfolding effective_read_def reads_le_def by (smt (verit))
  show "m \<le> effective_read account dest (st_db s)" by (rule assms(3))
  show "m \<le> effective_read account dest d'"
    if "(a, op) \<noteq> (account, DeleteThread dest)" "m \<le> effective_read account dest d" "run_op parse now a active op d = Ok (r, d')"
    for a op d parse now active r d'
  proof (cases "\<exists>dest'. op = DeleteThread dest'")
    case True
    then obtain dest' where "op = DeleteThread dest'" by blast
    then show ?thesis using that delete_thread_reads[of a dest' account dest d] by (simp add: effective_read_def)
  next
    case False
    then show ?thesis using le[OF that(2) run_op_reads[OF _ that(3)]] by blast
  qed
  show "m \<le> effective_read account dest (thread_ensure a dest' kind d)" if "m \<le> effective_read account dest d" for a dest' kind d
    by (rule le[OF that reads_le_full(3)[OF reads_le_refl]])
  show "m \<le> effective_read account dest (mark_due_failed a dest' now err d)" if "m \<le> effective_read account dest d" for a dest' now err d
    by (rule le[OF that reads_le_failed[OF reads_le_refl]])
qed

lemma advance_reaches:
  assumes "0 < mid"
  shows "mid \<le> effective_read account dest (snd (advance_id account dest kind mid now d))"
    and "fst (advance_id account dest kind mid now d) = effective_read account dest (snd (advance_id account dest kind mid now d))"
proof -
  define d1 where "d1 = upsert_watermark account dest (new_watermark mid now kind 0)
    (\<lambda>w. w\<lparr>wm_last_read_message_id := max (wm_last_read_message_id w) mid, wm_last_read_at := now, wm_kind := kind\<rparr>) d"
  have "mid \<le> watermark_of account dest d1"
    by (auto simp: d1_def watermark_of_def upsert_watermark_def new_watermark_def split: option.splits)
  also have "watermark_of account dest d1 \<le> watermark_of account dest (bump_known_max account dest kind mid d1)"
    using reads_le_known_max[OF reads_le_refl, of d1] by (simp add: reads_le_def)
  finally show "mid \<le> effective_read account dest (snd (advance_id account dest kind mid now d))"
    using assms by (simp add: advance_id_def d1_def effective_read_def Let_def)
  show "fst (advance_id account dest kind mid now d) = effective_read account dest (snd (advance_id account dest kind mid now d))"
    using assms by (simp add: advance_id_def Let_def)
qed

lemma message_le_tip:
  assumes "hget (t_messages d) (account, dest, k) = Some m"
  shows "mr_message_id m \<le> known_tip account dest d"
proof -
  have "(k, m) \<in> set (conversation account dest d)" using hget_SomeD[OF assms] by (force simp: conversation_def)
  then have "mr_message_id m \<le> max_message_id account dest d"
    by (force simp: max_message_id_def split: list.splits intro: Max_ge)
  then show ?thesis by (simp add: known_tip_def)
qed

lemma mark_thread_read_exact:
  assumes "0 < known_tip account dest d" "mark_thread_read_tx now account dest kind d = (e, d')"
  shows "known_tip account dest d \<le> effective_read account dest d'" "unread_of account dest d' = 0"
proof -
  let ?a = "advance_id account dest kind (known_tip account dest d) now d"
  have d': "d' = set_unread account dest 0 (queue_sync account dest kind (fst ?a) now (snd ?a))"
    using assms by (simp add: mark_thread_read_tx_def Let_def split_beta)
  have "reads_le (snd ?a) d'" unfolding d' by (rule reads_le_threads(1), rule reads_le_queue, rule reads_le_refl)
  then have "max 0 (effective_read account dest (snd ?a)) \<le> max 0 (effective_read account dest d')"
    unfolding reads_le_def effective_read_def by (smt (verit))
  then show "known_tip account dest d \<le> effective_read account dest d'"
    using advance_reaches(1)[OF assms(1), of account dest kind now d] assms(1) by linarith
  show "unread_of account dest d' = 0"
    by (auto simp: d' unread_of_def set_unread_def split: option.splits)
qed

text \<open>C28: A conversation that was marked read stays read. When the worker has marked it, its count of unread messages is zero, and
  in every later state, whatever messages, inbox pages and read states of the server arrive in whatever order, for any accounts,
  sessions and restarts, the read position is at or above every message that was in the conversation, unless the conversation is
  deleted.\<close>

theorem read_position_kept:
  assumes "write_worker parse now None ep account (MarkThreadRead dest kind) s = (Ok reply, s1)"
    and "0 < known_tip account dest (st_db s)"
    and "sdk_runs (\<lambda>a op. (a, op) \<noteq> (account, DeleteThread dest)) s1 s2"
  shows "unread_of account dest (st_db s1) = 0 \<and> known_tip account dest (st_db s) \<le> effective_read account dest (st_db s2)
    \<and> (hget (t_messages (st_db s)) (account, dest, k) = Some m \<longrightarrow> mr_message_id m \<le> effective_read account dest (st_db s2))"
proof -
  have "st_db s1 = snd (mark_thread_read_tx now account dest kind (st_db s))"
    using assms(1) by (auto simp: write_worker_def visibility_old_def Let_def split_beta split: if_splits)
  then obtain e where e: "mark_thread_read_tx now account dest kind (st_db s) = (e, st_db s1)" by (metis prod.collapse)
  note r = mark_thread_read_exact[OF assms(2) e]
  have "known_tip account dest (st_db s) \<le> effective_read account dest (st_db s2)"
    by (rule sdk_runs_read[OF assms(3,2) r(1)])
  then show ?thesis using r(2) message_le_tip[of "st_db s" account dest k m] by auto
qed

section \<open>The pump\<close>

text \<open>What the environment does while a due row has its turn: the session is cancelled or changed, other operations run
  before the row is looked at, during the upload and during the call, and the server answers.\<close>

record row_env =
  re_cancelled :: bool
  re_before :: "Store \<Rightarrow> Store"
  re_upload :: "(SdkError, string) result"
  re_uploading :: "Store \<Rightarrow> Store"
  re_cancelled_then :: bool
  re_answer :: "(SdkError, int) result"
  re_calling :: "Store \<Rightarrow> Store"
  re_cancelled_after :: bool
  re_now :: int
  re_fault :: "SdkError option"

record ServerCall =
  sv_client_id :: string
  sv_dest :: string
  sv_kind :: int
  sv_body :: string
  sv_extra :: string
  sv_payload_type :: int
  sv_in_reply_to :: "int option"

definition image_extra :: "int \<Rightarrow> int \<Rightarrow> string" where
  "image_extra width height =
     (if width \<le> 0 \<or> height \<le> 0 then [] else ''{\"w\":'' @ show_int width @ '',\"h\":'' @ show_int height @ ''}'')"

definition backoff_delay :: "int \<Rightarrow> int" where
  "backoff_delay attempt = i64_saturating_mul 1000 (2 ^ nat (min attempt 6))"

text \<open>The write that settles a call, by its answer; a bot reply must have been given a number.\<close>

definition settle_op :: "int \<Rightarrow> bool \<Rightarrow> string \<Rightarrow> SdkOutboxRow \<Rightarrow> (SdkError, int) result \<Rightarrow> WriteOp" where
  "settle_op now is_reply client_id row ans =
     (case ans of
        Inr message_id \<Rightarrow> if is_reply \<and> message_id = 0 then MarkFailed client_id else MarkSent client_id message_id
      | Inl err \<Rightarrow>
          if retryable_send err then
            let attempt = i32_saturating_add (ob_attempt row) 1 in
            MarkRetry client_id attempt (i64_saturating_add now (backoff_delay attempt))
          else MarkFailed client_id)"

text \<open>After an answer that is a success the pump stops silently when it was cancelled meanwhile.\<close>

definition settles_silently :: "bool \<Rightarrow> WriteOp \<Rightarrow> bool" where
  "settles_silently cancelled op \<longleftrightarrow> cancelled \<and> (case op of MarkSent _ _ \<Rightarrow> True | _ \<Rightarrow> False)"

datatype row_end = Next nat | Stop "(SdkError, nat) result"

definition pump_row ::
  "json_parse \<Rightarrow> nat \<Rightarrow> string \<Rightarrow> row_env \<Rightarrow> string \<times> SdkOutboxRow \<Rightarrow> nat \<Rightarrow> Store \<Rightarrow> row_end \<times> ServerCall list \<times> Store" where
  "pump_row parse epoch account env cr sent s =
     (let (c, row) = cr in
      if re_cancelled env then (Stop (Ok sent), [], s)
      else if st_epoch s \<noteq> epoch then (Stop (Err (StaleEpoch epoch (st_epoch s))), [], s)
      else
        let s = re_before env s in
        if \<not> outbox_alive account c (st_db s) then (Next sent, [], s)
        else
          let body0 = (if ob_local_path row = [] then ob_body row else ob_local_path row);
              upload = (ob_payload_type row = MESSAGE_TYPE_IMAGE \<and> \<not> starts_with ''http'' body0) in
          case (if upload then map_sum (\<lambda>e. e) (\<lambda>url. (url, image_extra (ob_width row) (ob_height row))) (re_upload env)
                else Ok (body0, ob_extra row)) of
            Inl e \<Rightarrow> (Stop (Err e), [], s)
          | Inr (body, extra) \<Rightarrow>
              let s = (if upload then re_uploading env s else s) in
              if re_cancelled_then env \<or> \<not> outbox_alive account c (st_db s) then (Next sent, [], s)
              else
                let reply_to = bot_reply_in_reply_to parse (ob_extra row);
                    call = (if reply_to \<noteq> None
                      then \<lparr>sv_client_id = c, sv_dest = ob_dest row, sv_kind = INBOX_KIND_USER, sv_body = ob_body row, sv_extra = [],
                            sv_payload_type = MESSAGE_TYPE_TEXT, sv_in_reply_to = reply_to\<rparr>
                      else \<lparr>sv_client_id = c, sv_dest = ob_dest row, sv_kind = ob_kind row, sv_body = body, sv_extra = extra,
                            sv_payload_type = ob_payload_type row, sv_in_reply_to = None\<rparr>);
                    s = re_calling env s;
                    op = settle_op (re_now env) (reply_to \<noteq> None) c row (re_answer env)
                in if settles_silently (re_cancelled_after env) op then (Next sent, [call], s)
                   else case write_worker parse (re_now env) (re_fault env) epoch account op s of
                       (Inl e, s) \<Rightarrow> (Stop (Err e), [call], s)
                     | (Inr _, s) \<Rightarrow> (Next (if (case op of MarkSent _ _ \<Rightarrow> True | _ \<Rightarrow> False) then sent + 1 else sent), [call], s))"

fun pump_rows ::
  "json_parse \<Rightarrow> nat \<Rightarrow> string \<Rightarrow> (row_env \<times> string \<times> SdkOutboxRow) list \<Rightarrow> nat \<Rightarrow> Store \<Rightarrow> (SdkError, nat) result \<times> ServerCall list \<times> Store" where
  "pump_rows parse epoch account [] sent s = (Ok sent, [], s)"
| "pump_rows parse epoch account ((env, cr) # rows) sent s =
     (case pump_row parse epoch account env cr sent s of
        (Stop r, calls, s) \<Rightarrow> (r, calls, s)
      | (Next sent, calls, s) \<Rightarrow>
          let (r, calls', s) = pump_rows parse epoch account rows sent s in (r, calls @ calls', s))"

definition run_once ::
  "json_parse \<Rightarrow> string \<Rightarrow> int \<Rightarrow> (nat \<Rightarrow> row_env) \<Rightarrow> Store \<Rightarrow> (SdkError, nat) result \<times> ServerCall list \<times> Store" where
  "run_once parse account now envs s =
     (let due = load_due account now (st_db s) in
      pump_rows parse (st_epoch s) account (map (\<lambda>i. (envs i, due ! i)) [0..<length due]) 0 s)"

section \<open>What a run of the pump does\<close>

lemma mid_uniqueI:
  assumes "hwf m" "\<And>a c k r k' r'. hget m (a, c, k) = Some r \<Longrightarrow> hget m (a, c, k') = Some r' \<Longrightarrow> mr_message_id r = mr_message_id r'
      \<Longrightarrow> mr_message_id r \<noteq> 0 \<Longrightarrow> k = k'"
  shows "mid_unique m"
proof -
  have "inj_on mid_key (set (filter (\<lambda>(k, r). mr_message_id r \<noteq> 0) m))"
  proof (rule inj_onI)
    fix x y assume x: "x \<in> set (filter (\<lambda>(k, r). mr_message_id r \<noteq> 0) m)" and y: "y \<in> set (filter (\<lambda>(k, r). mr_message_id r \<noteq> 0) m)"
      and eq: "mid_key x = mid_key y"
    obtain a c k r a' c' k' r' where xy: "x = ((a, c, k), r)" "y = ((a', c', k'), r')" by (metis prod.exhaust)
    then have s: "a' = a" "c' = c" "mr_message_id r = mr_message_id r'" "mr_message_id r \<noteq> 0" using eq x by (auto simp: mid_key_def)
    have g: "hget m (a, c, k) = Some r" "hget m (a, c, k') = Some r'" using x y xy s hget_in_set[OF assms(1)] by auto
    from assms(2)[OF g s(3,4)] g show "x = y" using xy s by simp
  qed
  moreover have "distinct m" using assms(1) by (simp add: distinct_map)
  ultimately show ?thesis by (simp add: mid_unique_def distinct_map)
qed

text \<open>A number that no message of the account has can be given to a send.\<close>

lemma mark_sent_Ok:
  assumes inv: "db_inv d" and fresh: "mid \<noteq> 0" "\<And>dest k m. hget (t_messages d) (account, dest, k) = Some m \<Longrightarrow> mr_message_id m \<noteq> mid"
  obtains d' where "outbox_mark_sent account c mid now d = Ok d'"
proof -
  let ?f = "\<lambda>m. m\<lparr>mr_status := ''sent'', mr_failed := False, mr_message_id := (if mid \<noteq> 0 then mid else mr_message_id m)\<rparr>"
  let ?d1 = "update_outbox account c (\<lambda>r. r\<lparr>ob_status := ''sent'', ob_message_id := mid, ob_updated_at := now\<rparr>) d"
  let ?m = "hmodify (\<lambda>(a, c', k) r. a = account \<and> k = c) ?f (t_messages d)"
  have get: "hget ?m (a, dest, k) = map_option (\<lambda>r. if a = account \<and> k = c then ?f r else r) (hget (t_messages d) (a, dest, k))" for a dest k
    by simp
  have "mid_unique ?m"
  proof (rule mid_uniqueI)
    show "hwf ?m" using db_invD(1)[OF inv] by simp
    fix a dest k r k' r'
    assume g: "hget ?m (a, dest, k) = Some r" "hget ?m (a, dest, k') = Some r'" "mr_message_id r = mr_message_id r'" "mr_message_id r \<noteq> 0"
    obtain r0 where r0: "hget (t_messages d) (a, dest, k) = Some r0" "r = (if a = account \<and> k = c then ?f r0 else r0)"
      using g(1) unfolding get by auto
    obtain r0' where r0': "hget (t_messages d) (a, dest, k') = Some r0'" "r' = (if a = account \<and> k' = c then ?f r0' else r0')"
      using g(2) unfolding get by auto
    show "k = k'"
    proof (cases "a = account \<and> (k = c \<or> k' = c)")
      case True
      then show ?thesis using r0 r0' g(3) fresh(1) fresh(2)[of dest k r0] fresh(2)[of dest k' r0'] by (auto split: if_splits)
    next
      case False
      then show ?thesis using mid_uniqueD[OF db_invD(3)[OF inv] r0(1) r0'(1)] r0(2) r0'(2) g(3,4) by auto
    qed
  qed
  then have "outbox_mark_sent account c mid now d = Ok (?d1\<lparr>t_messages := ?m\<rparr>)"
    by (simp add: outbox_mark_sent_def update_key_def put_messages_def)
  then show ?thesis by (rule that)
qed

lemma mark_sent_outbox:
  assumes "outbox_mark_sent account c mid now d = Ok d'"
  shows "hget (t_outbox d') k = (if k = (account, c)
       then map_option (\<lambda>r. r\<lparr>ob_status := ''sent'', ob_message_id := mid, ob_updated_at := now\<rparr>) (hget (t_outbox d) k) else hget (t_outbox d) k)"
  using update_key_outbox[OF assms[unfolded outbox_mark_sent_def]] by (simp add: update_outbox_def option.map_ident)

lemma mark_sent_numbers:
  assumes "outbox_mark_sent account c mid now d = Ok d'" "hget (t_messages d') (account, dest, k) = Some m" "mid \<noteq> 0"
  shows "mr_message_id m = mid \<or> (\<exists>m0. hget (t_messages d) (account, dest, k) = Some m0 \<and> mr_message_id m = mr_message_id m0)"
  using assms by (auto simp: outbox_mark_sent_def update_key_def put_messages_Ok split: if_splits)

text \<open>An environment that does not disturb the pump and whose server stores the message under a number.\<close>

definition quiet_env :: "int \<Rightarrow> row_env \<Rightarrow> bool" where
  "quiet_env mid env \<longleftrightarrow> \<not> re_cancelled env \<and> re_before env = id \<and> (\<exists>url. re_upload env = Ok url) \<and> re_uploading env = id
     \<and> \<not> re_cancelled_then env \<and> re_answer env = Ok mid \<and> re_calling env = id \<and> \<not> re_cancelled_after env \<and> re_fault env = None"

lemma outbox_mark_sent_inv: "db_inv d \<Longrightarrow> outbox_mark_sent account c mid now d = Ok d' \<Longrightarrow> db_inv d'"
proof -
  assume inv: "db_inv d" and m: "outbox_mark_sent account c mid now d = Ok d'"
  have "db_inv (update_outbox account c (\<lambda>r. r\<lparr>ob_status := ''sent'', ob_message_id := mid, ob_updated_at := now\<rparr>) d)"
    by (rule db_inv_update_outbox[OF inv]) (simp_all add: live_status_def)
  then show "db_inv d'" using m unfolding outbox_mark_sent_def by (rule db_inv_update_key(1))
qed

lemma pump_row_sent:
  assumes "db_inv (st_db s)" "quiet_env mid env" "0 < mid" "st_epoch s = epoch" "hget (t_outbox (st_db s)) (account, c) = Some row"
    "ob_status row = ''pending''" "\<And>dest k m. hget (t_messages (st_db s)) (account, dest, k) = Some m \<Longrightarrow> mr_message_id m \<noteq> mid"
  obtains call s' where "pump_row parse epoch account env (c, row) sent s = (Next (sent + 1), [call], s')" "sv_client_id call = c"
    "st_epoch s' = epoch" "outbox_mark_sent account c mid (re_now env) (st_db s) = Ok (st_db s')"
proof -
  have "mid \<noteq> 0" using assms(3) by simp
  obtain d' where d': "outbox_mark_sent account c mid (re_now env) (st_db s) = Ok d'"
  proof (rule mark_sent_Ok[OF assms(1) \<open>mid \<noteq> 0\<close> assms(7)])
    fix d' assume "outbox_mark_sent account c mid (re_now env) (st_db s) = Ok d'"
    then show thesis by (rule that)
  qed
  have alive: "outbox_alive account c (st_db s)" using assms(5,6) by (simp add: outbox_alive_def live_status_def)
  obtain url where env: "\<not> re_cancelled env" "re_before env = id" "re_upload env = Ok url" "re_uploading env = id"
    "\<not> re_cancelled_then env" "re_answer env = Ok mid" "re_calling env = id" "\<not> re_cancelled_after env" "re_fault env = None"
    using assms(2) by (auto simp: quiet_env_def)
  define b where "b = (bot_reply_in_reply_to parse (ob_extra row) \<noteq> None)"
  have op: "settle_op (re_now env) b c row (re_answer env) = MarkSent c mid" using env(6) assms(3) by (simp add: settle_op_def)
  obtain x s' where w: "write_worker parse (re_now env) None epoch account (MarkSent c mid) s = (Ok x, s')" "st_epoch s' = epoch" "st_db s' = d'"
    using assms(4) d' by (auto simp: write_worker_def visibility_old_def Let_def split_beta)
  obtain call where "pump_row parse epoch account env (c, row) sent s = (Next (sent + 1), [call], s')" "sv_client_id call = c"
    using alive env op[unfolded b_def] w(1) assms(4)
    by (cases "ob_payload_type row = MESSAGE_TYPE_IMAGE \<and> \<not> starts_with ''http'' (if ob_local_path row = [] then ob_body row else ob_local_path row)";
        cases "bot_reply_in_reply_to parse (ob_extra row)")
      (auto simp: pump_row_def Let_def settles_silently_def)
  then show ?thesis by (rule that) (use w d' in auto)
qed

text \<open>The due rows one after the other.\<close>

lemma pump_rows_sent:
  assumes "db_inv (st_db s)" "st_epoch s = epoch" "distinct (map (fst \<circ> snd) rows)" "length mids = length rows" "distinct mids"
    "\<And>i. i < length rows \<Longrightarrow> quiet_env (mids ! i) (fst (rows ! i)) \<and> 0 < mids ! i
       \<and> hget (t_outbox (st_db s)) (account, fst (snd (rows ! i))) = Some (snd (snd (rows ! i))) \<and> ob_status (snd (snd (rows ! i))) = ''pending''"
    "\<And>dest k m. hget (t_messages (st_db s)) (account, dest, k) = Some m \<Longrightarrow> mr_message_id m \<notin> set mids"
  shows "\<exists>calls s'. pump_rows parse epoch account rows sent s = (Ok (sent + length rows), calls, s') \<and> db_inv (st_db s')
    \<and> map sv_client_id calls = map (fst \<circ> snd) rows
    \<and> (\<forall>i < length rows. \<exists>r. hget (t_outbox (st_db s')) (account, fst (snd (rows ! i))) = Some r \<and> ob_status r = ''sent''
         \<and> ob_message_id r = mids ! i)
    \<and> (\<forall>k. k \<notin> (\<lambda>x. (account, fst (snd x))) ` set rows \<longrightarrow> hget (t_outbox (st_db s')) k = hget (t_outbox (st_db s)) k)"
  using assms
proof (induction rows arbitrary: s mids sent)
  case (Cons x rows)
  obtain env c row where x: "x = (env, c, row)" by (metis prod.exhaust)
  obtain mid ms where mids: "mids = mid # ms" using Cons.prems(4) by (cases mids) auto
  have h: "quiet_env mid env" "0 < mid" "hget (t_outbox (st_db s)) (account, c) = Some row" "ob_status row = ''pending''"
    using Cons.prems(6)[of 0] x mids by auto
  have fresh: "mr_message_id m \<noteq> mid" if "hget (t_messages (st_db s)) (account, dest, k) = Some m" for dest k m
    using Cons.prems(7)[OF that] mids by auto
  obtain call s1 where r: "pump_row parse epoch account env (c, row) sent s = (Next (sent + 1), [call], s1)" "sv_client_id call = c"
    "st_epoch s1 = epoch" "outbox_mark_sent account c mid (re_now env) (st_db s) = Ok (st_db s1)"
    by (rule pump_row_sent[OF Cons.prems(1) h(1,2) Cons.prems(2) h(3,4) fresh])
  have ob: "hget (t_outbox (st_db s1)) k = (if k = (account, c)
       then map_option (\<lambda>r. r\<lparr>ob_status := ''sent'', ob_message_id := mid, ob_updated_at := re_now env\<rparr>) (hget (t_outbox (st_db s)) k)
       else hget (t_outbox (st_db s)) k)"
    and ms: "hget (t_messages (st_db s1)) (account, dest, k') = Some m
      \<Longrightarrow> mr_message_id m = mid \<or> (\<exists>m0. hget (t_messages (st_db s)) (account, dest, k') = Some m0 \<and> mr_message_id m = mr_message_id m0)"
    for k dest k' m
    using mark_sent_outbox[OF r(4)] mark_sent_numbers[OF r(4)] h(2) by auto
  have fr: "(account, fst (snd (rows ! i))) \<noteq> (account, c)" if "i < length rows" for i
    using Cons.prems(3) x nth_mem[OF that] by auto
  obtain calls s' where ih: "pump_rows parse epoch account rows (sent + 1) s1 = (Ok (sent + 1 + length rows), calls, s')" "db_inv (st_db s')"
    "map sv_client_id calls = map (fst \<circ> snd) rows"
    "\<forall>i < length rows. \<exists>r. hget (t_outbox (st_db s')) (account, fst (snd (rows ! i))) = Some r \<and> ob_status r = ''sent'' \<and> ob_message_id r = ms ! i"
    "\<forall>k. k \<notin> (\<lambda>x. (account, fst (snd x))) ` set rows \<longrightarrow> hget (t_outbox (st_db s')) k = hget (t_outbox (st_db s1)) k"
  proof (atomize_elim, rule Cons.IH)
    show "db_inv (st_db s1)" by (rule outbox_mark_sent_inv[OF Cons.prems(1) r(4)])
    show "st_epoch s1 = epoch" by (rule r(3))
    show "distinct (map (fst \<circ> snd) rows)" "length ms = length rows" "distinct ms"
      using Cons.prems(3-5) mids by (auto simp: comp_def)
    fix i assume "i < length rows"
    then show "quiet_env (ms ! i) (fst (rows ! i)) \<and> 0 < ms ! i
       \<and> hget (t_outbox (st_db s1)) (account, fst (snd (rows ! i))) = Some (snd (snd (rows ! i))) \<and> ob_status (snd (snd (rows ! i))) = ''pending''"
      using Cons.prems(6)[of "Suc i"] mids fr[of i] by (simp add: ob)
  next
    fix dest k m assume "hget (t_messages (st_db s1)) (account, dest, k) = Some m"
    from ms[OF this] show "mr_message_id m \<notin> set ms"
      using Cons.prems(5,7) mids by auto
  qed
  have c: "(account, c) \<notin> (\<lambda>x. (account, fst (snd x))) ` set rows" using Cons.prems(3) x by auto
  have "\<exists>r. hget (t_outbox (st_db s')) (account, c) = Some r \<and> ob_status r = ''sent'' \<and> ob_message_id r = mid"
    using ih(5) c h(3) by (simp add: ob)
  then have all: "\<forall>i < length (x # rows). \<exists>r. hget (t_outbox (st_db s')) (account, fst (snd ((x # rows) ! i))) = Some r \<and> ob_status r = ''sent''
         \<and> ob_message_id r = mids ! i"
    using ih(4) x mids by (auto simp: nth_Cons split: nat.splits)
  show ?case
    by (rule exI[of _ "call # calls"], rule exI[of _ s']) (use x r(1,2) ih(1-3,5) all ob in auto)
qed simp

lemma load_due_rows:
  assumes "hwf (t_outbox d)"
  shows "(c, r) \<in> set (load_due account now d) \<longleftrightarrow>
      hget (t_outbox d) (account, c) = Some r \<and> ob_status r = ''pending'' \<and> ob_next_attempt_at r \<le> now"
    and "distinct (map fst (load_due account now d))"
proof -
  show "(c, r) \<in> set (load_due account now d) \<longleftrightarrow>
      hget (t_outbox d) (account, c) = Some r \<and> ob_status r = ''pending'' \<and> ob_next_attempt_at r \<le> now"
    using hget_in_set[OF assms] by (force simp: load_due_def)
  let ?F = "filter (\<lambda>((a, c), r). a = account \<and> ob_status r = ''pending'' \<and> ob_next_attempt_at r \<le> now) (t_outbox d)"
  have "distinct (map fst ?F)" using assms by (rule distinct_map_filter)
  then have "distinct (map snd (map fst ?F))"
    by (rule distinct_map[THEN iffD2, OF conjI]) (auto simp: inj_on_def)
  moreover have "map snd (map fst ?F) = map fst (map (\<lambda>((a, c), r). (c, r)) ?F)" by (simp add: split_beta)
  ultimately have "distinct (map fst (map (\<lambda>((a, c), r). (c, r)) ?F))" by argo
  then show "distinct (map fst (load_due account now d))"
    unfolding load_due_def by (rule mset_eq_imp_distinct_iff[THEN iffD1, rotated]) (simp only: mset_map mset_sort)
qed

text \<open>When every due row is sent and no other row has changed, nothing is due any more.\<close>

lemma load_due_settled:
  assumes "hwf (t_outbox d)" "hwf (t_outbox d')"
    and "\<forall>i < length (load_due account now d). \<exists>r. hget (t_outbox d') (account, fst (load_due account now d ! i)) = Some r
       \<and> ob_status r = ''sent'' \<and> ob_message_id r = mids ! i"
    and "\<And>c. c \<notin> fst ` set (load_due account now d) \<Longrightarrow> hget (t_outbox d') (account, c) = hget (t_outbox d) (account, c)"
  shows "load_due account now d' = []"
proof -
  have "(c, r) \<notin> set (load_due account now d')" for c r
  proof
    assume "(c, r) \<in> set (load_due account now d')"
    then have m: "hget (t_outbox d') (account, c) = Some r" "ob_status r = ''pending''" "ob_next_attempt_at r \<le> now"
      using load_due_rows(1)[OF assms(2)] by blast+
    have c: "c \<notin> fst ` set (load_due account now d)"
    proof
      assume "c \<in> fst ` set (load_due account now d)"
      then obtain i where "i < length (load_due account now d)" "fst (load_due account now d ! i) = c" by (metis imageE in_set_conv_nth)
      then show False using assms(3) m(1,2) by fastforce
    qed
    then have "(c, r) \<in> set (load_due account now d)" using load_due_rows(1)[OF assms(1)] assms(4) m by auto
    then show False using c by force
  qed
  then show ?thesis by (metis list.set_intros(1) neq_Nil_conv surj_pair)
qed

text \<open>C26: A run of the pump that is not disturbed sends everything that is due. It calls the server once for each due message, in the
  order in which the messages were accepted, with its own identifier, and when the server stores each under a number of its own,
  the run ends with all of them marked sent under their numbers, reports how many it has sent, and nothing is due any more.\<close>

theorem pump_drains:
  assumes "sdk_reach s" "due = load_due account now (st_db s)" "length mids = length due" "distinct mids"
    and "\<forall>i < length due. quiet_env (mids ! i) (envs i) \<and> 0 < mids ! i"
    and "\<forall>dest k m. hget (t_messages (st_db s)) (account, dest, k) = Some m \<longrightarrow> mr_message_id m \<notin> set mids"
  shows "\<exists>calls s'. run_once parse account now envs s = (Ok (length due), calls, s') \<and> map sv_client_id calls = map fst due
    \<and> sorted (map (\<lambda>(c, r). (ob_created_at r, c)) due) \<and> load_due account now (st_db s') = []
    \<and> (\<forall>i < length due. \<exists>r. hget (t_outbox (st_db s')) (account, fst (due ! i)) = Some r \<and> ob_status r = ''sent'' \<and> ob_message_id r = mids ! i)"
proof -
  note inv = sdk_reach_inv[OF assms(1)]
  note due = load_due_rows[OF db_invD(2)[OF inv]]
  define rows where "rows = map (\<lambda>i. (envs i, due ! i)) [0..<length due]"
  have rows: "length rows = length due" "\<And>i. i < length due \<Longrightarrow> rows ! i = (envs i, due ! i)" "map snd rows = due"
    by (simp_all add: rows_def comp_def map_nth)
  have "map (fst \<circ> snd) rows = map fst due" unfolding rows(3)[symmetric] by simp
  note ids = this
  obtain calls s' where p: "pump_rows parse (st_epoch s) account rows 0 s = (Ok (0 + length rows), calls, s')" "db_inv (st_db s')"
    "map sv_client_id calls = map (fst \<circ> snd) rows"
    "\<forall>i < length rows. \<exists>r. hget (t_outbox (st_db s')) (account, fst (snd (rows ! i))) = Some r \<and> ob_status r = ''sent'' \<and> ob_message_id r = mids ! i"
    "\<forall>k. k \<notin> (\<lambda>x. (account, fst (snd x))) ` set rows \<longrightarrow> hget (t_outbox (st_db s')) k = hget (t_outbox (st_db s)) k"
  proof (atomize_elim, rule pump_rows_sent[OF inv refl])
    show "distinct (map (fst \<circ> snd) rows)" using due(2) ids assms(2) by simp
    show "length mids = length rows" "distinct mids" using assms(3,4) rows(1) by simp_all
    fix i assume i: "i < length rows"
    then have "due ! i \<in> set due" using rows(1) by simp
    then show "quiet_env (mids ! i) (fst (rows ! i)) \<and> 0 < mids ! i
       \<and> hget (t_outbox (st_db s)) (account, fst (snd (rows ! i))) = Some (snd (snd (rows ! i))) \<and> ob_status (snd (snd (rows ! i))) = ''pending''"
      using i rows(1,2) assms(5) due(1)[of "fst (due ! i)" "snd (due ! i)" account now] assms(2) by simp
  next
    fix dest k m assume "hget (t_messages (st_db s)) (account, dest, k) = Some m"
    then show "mr_message_id m \<notin> set mids" using assms(6) by blast
  qed
  have sorted: "sorted (map (\<lambda>(c, r). (ob_created_at r, c)) due)" unfolding assms(2) load_due_def by (rule sorted_sort_key)
  have snt: "\<forall>i < length due. \<exists>r. hget (t_outbox (st_db s')) (account, fst (due ! i)) = Some r \<and> ob_status r = ''sent'' \<and> ob_message_id r = mids ! i"
    using p(4) rows by auto
  have img: "(account, c) \<notin> (\<lambda>x. (account, fst (snd x))) ` set rows" if "c \<notin> fst ` set due" for c
    using that unfolding rows(3)[symmetric] by auto
  have "load_due account now (st_db s') = []"
    by (rule load_due_settled[OF db_invD(2)[OF inv] db_invD(2)[OF p(2)] snt[unfolded assms(2)]])
      (use p(5) img assms(2) in blast)
  then show ?thesis
    using p(1,3) ids rows(1) snt sorted unfolding run_once_def assms(2)[symmetric] Let_def rows_def[symmetric] by auto
qed

text \<open>Two ways to block the outbox. When a copy of the message from the server was stored first, its number is taken in the
  conversation: the send cannot be marked, the run stops there, and nothing in the tables has changed. And an image that cannot
  be uploaded stops the run before the messages behind it.\<close>

lemma stored_copy_blocks:
  assumes "hget (t_messages d) (account, dest, k) = Some m" "mr_message_id m = mid" "mid \<noteq> 0" "k \<noteq> c"
    "hget (t_messages d) (account, dest, c) = Some own"
  shows "outbox_mark_sent account c mid now d = Err (Disk ''sqlite error'')"
proof -
  let ?f = "\<lambda>m. m\<lparr>mr_status := ''sent'', mr_failed := False, mr_message_id := (if mid \<noteq> 0 then mid else mr_message_id m)\<rparr>"
  let ?m = "hmodify (\<lambda>(a, c', k) r. a = account \<and> k = c) ?f (t_messages d)"
  have "hget ?m (account, dest, k) = Some m" "hget ?m (account, dest, c) = Some (?f own)" using assms by simp_all
  from mid_uniqueD[OF _ this] have "\<not> mid_unique ?m" using assms(2-4) by auto
  then show ?thesis by (simp add: outbox_mark_sent_def update_key_def put_messages_def)
qed

lemma pump_stops_at_upload:
  assumes "\<not> re_cancelled env" "re_before env = id" "st_epoch s = epoch" "outbox_alive account c (st_db s)"
    "ob_payload_type row = MESSAGE_TYPE_IMAGE" "\<not> starts_with ''http'' (ob_local_path row)" "ob_local_path row \<noteq> []" "re_upload env = Err e"
  shows "pump_rows parse epoch account ((env, c, row) # rows) sent s = (Err e, [], s)"
  using assms by (simp add: pump_row_def Let_def)

lemma pump_stops_at_copy:
  assumes "quiet_env mid env" "mid \<noteq> 0" "st_epoch s = epoch" "outbox_alive account c (st_db s)" "ob_payload_type row = MESSAGE_TYPE_TEXT"
    "outbox_mark_sent account c mid (re_now env) (st_db s) = Err e"
  shows "\<exists>call s'. pump_rows parse epoch account ((env, c, row) # rows) sent s = (Err e, [call], s') \<and> st_db s' = st_db s"
  using assms
  by (cases "bot_reply_in_reply_to parse (ob_extra row)")
    (auto simp: quiet_env_def pump_row_def Let_def settle_op_def settles_silently_def write_worker_def visibility_old_def
      set_visibility_def MESSAGE_TYPE_TEXT_def MESSAGE_TYPE_IMAGE_def)

text \<open>A thread opened while a notice of the running session waits replaces the notice: the timeline is not refreshed.\<close>

lemma ensure_thread_drops_notice:
  assumes "cl_inner (st_changes s) = Some n" "no_epoch n \<noteq> 0" "thread_find account dest (st_db s) = None" "ensure_thread account dest kind s = (seq, s')"
  shows "cl_inner (st_changes s') = Some \<lparr>no_account = account, no_epoch = 0, no_sequence = cl_sequence (st_changes s) + 1, no_queries = {InboxQuery}\<rparr>"
  using assms by (auto simp: ensure_thread_def changes_record_def Let_def)

text \<open>The pause before the next attempt: it doubles from two seconds up to sixty-four.\<close>

lemma backoff_delay_bounds: "0 \<le> attempt \<Longrightarrow> 1000 \<le> backoff_delay attempt \<and> backoff_delay attempt \<le> 64000"
proof -
  assume "0 \<le> attempt"
  define n where "n = nat (min attempt 6)"
  have "n \<le> 6" by (simp add: n_def)
  then have "n = 0 \<or> n = 1 \<or> n = 2 \<or> n = 3 \<or> n = 4 \<or> n = 5 \<or> n = 6" by linarith
  then show ?thesis unfolding backoff_delay_def n_def[symmetric] i64_saturating_mul_def by (elim disjE) simp_all
qed

section \<open>Witnesses\<close>

definition demo_json :: json_parse where "demo_json = (\<lambda>_. None)"

definition demo_id :: string where "demo_id = ''11111111-2222-4333-8444-555555555555''"

definition demo_send :: SendMessageCommand where
  "demo_send = \<lparr>sc_dest = ''bob'', sc_kind = UserThread, sc_payload = SText ''hi'', sc_client_id = Some demo_id, sc_batch_id = None\<rparr>"

definition demo_step :: "int \<Rightarrow> WriteOp \<Rightarrow> Store \<Rightarrow> Store" where
  "demo_step now op s = snd (write_worker demo_json now None 0 ''ann'' op s)"

definition demo_sending :: Store where
  "demo_sending = demo_step 1000 (Enqueue demo_send ''x'' ''r'') (store_open db_new)"

lemma demo_sending_reach: "sdk_reach demo_sending"
  unfolding sdk_reach_def sdk_runs_def demo_sending_def demo_step_def by (rule r_into_rtranclp, rule sdk_step.op) simp_all

lemma demo_sending_receipt:
  "write_worker demo_json 1000 None 0 ''ann'' (Enqueue demo_send ''x'' ''r'') (store_open db_new) =
     (Ok (Receipt \<lparr>rc_request_id = ''r'', rc_client_id = demo_id, rc_dest = ''bob'', rc_accepted_at = 1000, rc_send_status = Pending\<rparr>, 1), demo_sending)"
  by code_simp

theorem outbox_backed_witness:
  "\<exists>r m. hget (t_outbox (st_db demo_sending)) (''ann'', demo_id) = Some r \<and> ob_dest r = ''bob'' \<and> live_status (ob_status r)
    \<and> hget (t_messages (st_db demo_sending)) (''ann'', ''bob'', demo_id) = Some m"
proof -
  have "case hget (t_outbox (st_db demo_sending)) (''ann'', demo_id) of
      Some r \<Rightarrow> ob_dest r = ''bob'' \<and> live_status (ob_status r) | None \<Rightarrow> False"
    by code_simp
  then obtain r where r: "hget (t_outbox (st_db demo_sending)) (''ann'', demo_id) = Some r" "ob_dest r = ''bob''" "live_status (ob_status r)"
    by (auto split: option.splits)
  have "is_client_key demo_id" by code_simp
  then show ?thesis using outbox_backed[OF demo_sending_reach, of "''ann''" demo_id r] r by auto
qed

definition demo_retried :: Store where
  "demo_retried = demo_step 2000 (MarkRetry demo_id 1 3000) demo_sending"

theorem send_not_lost_witness:
  "\<exists>r. hget (t_outbox (st_db demo_retried)) (''ann'', demo_id) = Some r \<and> ob_dest r = ''bob'' \<and> ob_body r = ''hi''
    \<and> (demo_id, r) \<in> set (load_due ''ann'' (ob_next_attempt_at r) (st_db demo_retried))
    \<and> hget (t_messages (st_db demo_retried)) (''ann'', ''bob'', demo_id) \<noteq> None"
proof -
  have start: "sdk_reach (store_open db_new)" by (simp add: sdk_reach_def sdk_runs_def)
  have "op_ok ''ann'' (MarkRetry demo_id 1 3000) (st_db demo_sending)" by code_simp
  then have run: "sdk_runs (\<lambda>a op. a \<noteq> ''ann'' \<or> \<not> settles demo_id ''bob'' op) demo_sending demo_retried"
    unfolding sdk_runs_def demo_retried_def demo_step_def by (intro r_into_rtranclp sdk_step.op) simp
  have "is_client_key demo_id" by code_simp
  then show ?thesis
    using send_not_lost[OF start demo_sending_receipt, of demo_retried] run by (auto simp: demo_send_def)
qed

definition demo_talk :: IncomingTalk where
  "demo_talk = \<lparr>it_command = ''chat.user.talk'', it_dest = ''bob'', it_message_id = 7, it_sender = ''bob'', it_msg_type = 1,
     it_body = ''hello'', it_extra = [], it_send_time = 0\<rparr>"

definition demo_unread :: Store where
  "demo_unread = demo_step 1000 (PersistTalks [demo_talk] IfInserted) (store_open db_new)"

definition demo_item :: ClientInboxItem where
  "demo_item = \<lparr>ci_dest = ''bob'', ci_kind = 0, ci_title = [], ci_avatar = [], ci_last_body = ''hello'', ci_last_sender = ''bob'',
     ci_last_message_id = 7, ci_last_send_time = 0, ci_unread = 1, ci_last_read_message_id = 2, ci_max_message_id = 7, ci_state_version = 3\<rparr>"

theorem read_position_kept_witness:
  "unread_of ''ann'' ''bob'' (st_db demo_unread) = 1 \<and> unread_of ''ann'' ''bob'' (st_db (demo_step 2000 (MarkThreadRead ''bob'' 0) demo_unread)) = 0
   \<and> 7 \<le> effective_read ''ann'' ''bob'' (st_db (demo_step 3000 (PersistInbox [demo_item]) (demo_step 2000 (MarkThreadRead ''bob'' 0) demo_unread)))"
proof -
  let ?s1 = "demo_step 2000 (MarkThreadRead ''bob'' 0) demo_unread"
  have u: "unread_of ''ann'' ''bob'' (st_db demo_unread) = 1" by code_simp
  have tip: "known_tip ''ann'' ''bob'' (st_db demo_unread) = 7" by code_simp
  have ok: "fst (write_worker demo_json 2000 None 0 ''ann'' (MarkThreadRead ''bob'' 0) demo_unread) = Ok (NoReply, 2)" by code_simp
  then have w: "write_worker demo_json 2000 None 0 ''ann'' (MarkThreadRead ''bob'' 0) demo_unread = (Ok (NoReply, 2), ?s1)"
    unfolding demo_step_def by (metis prod.collapse)
  have run: "sdk_runs (\<lambda>a op. (a, op) \<noteq> (''ann'', DeleteThread ''bob'')) ?s1 (demo_step 3000 (PersistInbox [demo_item]) ?s1)"
    unfolding sdk_runs_def demo_step_def[of 3000] by (intro r_into_rtranclp sdk_step.op) simp_all
  show ?thesis using read_position_kept[OF w _ run] u tip by auto
qed

definition demo_env :: row_env where
  "demo_env = \<lparr>re_cancelled = False, re_before = id, re_upload = Ok [], re_uploading = id, re_cancelled_then = False,
     re_answer = Ok 9, re_calling = id, re_cancelled_after = False, re_now = 1500, re_fault = None\<rparr>"

theorem pump_drains_witness:
  "\<exists>calls s'. run_once demo_json ''ann'' 1000 (\<lambda>_. demo_env) demo_sending = (Ok 1, calls, s') \<and> map sv_client_id calls = [demo_id]
    \<and> load_due ''ann'' 1000 (st_db s') = []"
proof -
  define due where "due = load_due ''ann'' 1000 (st_db demo_sending)"
  have "map fst (load_due ''ann'' 1000 (st_db demo_sending)) = [demo_id]" by code_simp
  then have ids: "map fst due = [demo_id]" by (simp add: due_def)
  then have len: "length due = 1" by (metis One_nat_def length_map length_Cons list.size(3))
  have "list_all (\<lambda>(k, m). mr_message_id m \<noteq> 9) (t_messages (st_db demo_sending))" by code_simp
  then have "\<forall>dest k m. hget (t_messages (st_db demo_sending)) (''ann'', dest, k) = Some m \<longrightarrow> mr_message_id m \<notin> set [9]"
    by (auto simp: list_all_iff dest!: hget_SomeD)
  moreover have "\<forall>i < length due. quiet_env ([9] ! i) demo_env \<and> 0 < ([9] :: int list) ! i"
    using len by (simp add: quiet_env_def demo_env_def)
  ultimately show ?thesis
    using pump_drains[OF demo_sending_reach due_def, of "[9]" "\<lambda>_. demo_env" demo_json] len ids by auto
qed

end
