(* ===== verification/Kim_Royal_Auth.thy ===== *)
theory Kim_Royal_Auth
  imports Kim_Gateway Kim_Chat_Memory Kim_Hmac
begin

text \<open>
  The accounts of the Royal service: sealed passwords (\<open>kim-protocol/src/password_seal.rs\<close>), revoked
  tokens (\<open>services/royal/src/revoke.rs\<close>), device credentials (\<open>device.rs\<close>) and the endpoints that
  register, log in and out, and change a password (\<open>auth.rs\<close>), together with the three internal
  endpoints the gateway asks about a token. Argon2, the JWT library, the sealed box, SHA-256, base64,
  the protobuf codecs, the clocks and the generated identifiers are an environment; each call has its
  own.
\<close>

section \<open>Sealed passwords\<close>

definition PASSWORD_SEAL_ALG :: string where "PASSWORD_SEAL_ALG = ''x25519-seal''"
definition PASSWORD_KEY_ID_MISMATCH :: string where "PASSWORD_KEY_ID_MISMATCH = ''password key id mismatch''"
definition KEY_LEN :: nat where "KEY_LEN = 32"

datatype PasswordSealError = SealInvalidKey | SealFailed | UnsealFailed | SealKeyIdMismatch

record seal_crypto =
  sx_public :: "byte list \<Rightarrow> byte list"
  sx_seal :: "byte list \<Rightarrow> byte list \<Rightarrow> byte list option"
  sx_unseal :: "byte list \<Rightarrow> byte list \<Rightarrow> byte list option"
  sx_sha256 :: "byte list \<Rightarrow> byte list"
  sx_b64_enc :: "byte list \<Rightarrow> string"
  sx_b64_dec :: "string \<Rightarrow> byte list option"

record PasswordSealKey =
  sk_secret :: "byte list"
  sk_public :: "byte list"
  sk_key_id :: string

definition fingerprint_public :: "seal_crypto \<Rightarrow> byte list \<Rightarrow> string" where
  "fingerprint_public cx pk = ''x25519-'' @ hex_encode (take 8 (sx_sha256 cx pk))"

definition seal_key_generate :: "seal_crypto \<Rightarrow> byte list \<Rightarrow> string option \<Rightarrow> PasswordSealKey" where
  "seal_key_generate cx secret key_id =
     (let public = sx_public cx secret in
      \<lparr>sk_secret = secret, sk_public = public,
       sk_key_id = (case nonblank key_id of Some i \<Rightarrow> i | None \<Rightarrow> fingerprint_public cx public)\<rparr>)"

definition from_secret_bytes :: "seal_crypto \<Rightarrow> byte list \<Rightarrow> string option \<Rightarrow> (PasswordSealError, PasswordSealKey) result" where
  "from_secret_bytes cx secret key_id = Ok (seal_key_generate cx secret key_id)"

definition key_bytes :: "seal_crypto \<Rightarrow> string \<Rightarrow> (PasswordSealError, byte list) result" where
  "key_bytes cx b64 =
     (case sx_b64_dec cx (trim b64) of
        None \<Rightarrow> Err SealInvalidKey
      | Some raw \<Rightarrow> if length raw = KEY_LEN then Ok raw else Err SealInvalidKey)"

definition from_private_b64 :: "seal_crypto \<Rightarrow> string \<Rightarrow> string option \<Rightarrow> (PasswordSealError, PasswordSealKey) result" where
  "from_private_b64 cx private_b64 key_id =
     res_bind (key_bytes cx private_b64) (\<lambda>bytes. from_secret_bytes cx bytes key_id)"

definition public_key_b64 :: "seal_crypto \<Rightarrow> PasswordSealKey \<Rightarrow> string" where
  "public_key_b64 cx key = sx_b64_enc cx (sk_public key)"

definition private_key_b64 :: "seal_crypto \<Rightarrow> PasswordSealKey \<Rightarrow> string" where
  "private_key_b64 cx key = sx_b64_enc cx (sk_secret key)"

definition unseal :: "seal_crypto \<Rightarrow> PasswordSealKey \<Rightarrow> byte list \<Rightarrow> (PasswordSealError, byte list) result" where
  "unseal cx key ciphertext = (case sx_unseal cx (sk_secret key) ciphertext of None \<Rightarrow> Err UnsealFailed | Some m \<Rightarrow> Ok m)"

definition ensure_key_id :: "PasswordSealKey \<Rightarrow> string \<Rightarrow> (PasswordSealError, unit) result" where
  "ensure_key_id key key_id = (if trim key_id = sk_key_id key then Ok () else Err SealKeyIdMismatch)"

record PasswordSealPublic =
  sp_key_id :: string
  sp_public :: "byte list"

definition seal_public_from_b64 :: "seal_crypto \<Rightarrow> string \<Rightarrow> string \<Rightarrow> (PasswordSealError, PasswordSealPublic) result" where
  "seal_public_from_b64 cx key_id public_b64 =
     res_bind (key_bytes cx public_b64) (\<lambda>bytes. Ok \<lparr>sp_key_id = key_id, sp_public = bytes\<rparr>)"

definition seal_with_public :: "seal_crypto \<Rightarrow> byte list \<Rightarrow> byte list \<Rightarrow> (PasswordSealError, byte list) result" where
  "seal_with_public cx public plaintext = (case sx_seal cx public plaintext of None \<Rightarrow> Err SealFailed | Some c \<Rightarrow> Ok c)"

section \<open>Revoked tokens\<close>

text \<open>Instants are nanoseconds of the monotonic clock.\<close>

record MemoryRevocation =
  vo_inner :: "(string, nat) hmap"
  vo_epochs :: "(string, nat) hmap"

definition revocation_new :: MemoryRevocation where
  "revocation_new = \<lparr>vo_inner = [], vo_epochs = []\<rparr>"

definition revoke_jti :: "nat \<Rightarrow> string \<Rightarrow> nat \<Rightarrow> MemoryRevocation \<Rightarrow> MemoryRevocation" where
  "revoke_jti now jti ttl_secs r = r\<lparr>vo_inner := hput jti (now + max ttl_secs 1 * NANOS_PER_SEC) (vo_inner r)\<rparr>"

definition is_revoked :: "nat \<Rightarrow> string \<Rightarrow> MemoryRevocation \<Rightarrow> bool \<times> MemoryRevocation" where
  "is_revoked now jti r =
     (let inner = hretain (\<lambda>_ exp. exp > now) (vo_inner r) in (hget inner jti \<noteq> None, r\<lparr>vo_inner := inner\<rparr>))"

definition get_epoch :: "string \<Rightarrow> MemoryRevocation \<Rightarrow> nat" where
  "get_epoch account r = (case hget (vo_epochs r) account of None \<Rightarrow> 0 | Some v \<Rightarrow> v)"

definition set_epoch :: "string \<Rightarrow> nat \<Rightarrow> MemoryRevocation \<Rightarrow> MemoryRevocation" where
  "set_epoch account ver r = r\<lparr>vo_epochs := hput account ver (vo_epochs r)\<rparr>"

section \<open>Devices\<close>

record DeviceRecord =
  dv_device_id :: string
  dv_account :: string
  dv_secret_hash :: string
  dv_revoked :: bool

type_synonym MemoryDeviceDirectory = "(string, string \<times> string \<times> string \<times> bool) hmap"
type_synonym MemoryDeviceHot = "(string, string) hmap"

definition device_enroll :: "string \<Rightarrow> string \<Rightarrow> string \<Rightarrow> string \<Rightarrow> MemoryDeviceDirectory \<Rightarrow> MemoryDeviceDirectory" where
  "device_enroll app account device_id secret_hash d = hput device_id (app, account, secret_hash, False) d"

definition device_lookup_hash :: "string \<Rightarrow> string \<Rightarrow> string \<Rightarrow> MemoryDeviceDirectory \<Rightarrow> DeviceRecord option" where
  "device_lookup_hash app account secret_hash d =
     map_option (\<lambda>(i, _, acc, hash, _). \<lparr>dv_device_id = i, dv_account = acc, dv_secret_hash = hash, dv_revoked = False\<rparr>)
       (List.find (\<lambda>(_, a, acc, hash, revoked). a = app \<and> acc = account \<and> hash = secret_hash \<and> \<not> revoked) d)"

definition device_get :: "string \<Rightarrow> MemoryDeviceDirectory \<Rightarrow> DeviceRecord option" where
  "device_get device_id d =
     map_option (\<lambda>(_, account, hash, revoked). \<lparr>dv_device_id = device_id, dv_account = account, dv_secret_hash = hash, dv_revoked = revoked\<rparr>)
       (hget d device_id)"

definition device_revoke :: "string \<Rightarrow> MemoryDeviceDirectory \<Rightarrow> MemoryDeviceDirectory" where
  "device_revoke device_id d =
     (case hget d device_id of None \<Rightarrow> d | Some (app, account, hash, _) \<Rightarrow> hput device_id (app, account, hash, True) d)"

definition hot_put :: "string \<Rightarrow> string \<Rightarrow> MemoryDeviceHot \<Rightarrow> MemoryDeviceHot" where
  "hot_put device_id account h = hput device_id account h"

definition hot_drop_key :: "string \<Rightarrow> MemoryDeviceHot \<Rightarrow> MemoryDeviceHot" where
  "hot_drop_key device_id h = hdel device_id h"

definition hot_ok :: "string \<Rightarrow> string \<Rightarrow> MemoryDeviceHot \<Rightarrow> bool" where
  "hot_ok device_id account h \<longleftrightarrow> hget h device_id = Some account"

section \<open>The state of the service\<close>

record JwtConfig =
  jc_secret :: string
  jc_ttl_secs :: int

text \<open>\<open>ro_ids\<close> are the draws the shared identifier generator will still make; \<open>ro_nonce\<close> is the nonce guard of the
  internal requests.\<close>

record RoyalState =
  ro_store :: MemoryMessageStore
  ro_groups :: MemoryGroupDirectory
  ro_users :: MemoryUserDirectory
  ro_social :: MemorySocialDirectory
  ro_specs :: MemoryAgentSpecStore
  ro_ids :: "nat \<Rightarrow> (IdError, int) result"
  ro_jwt :: JwtConfig
  ro_revoke :: MemoryRevocation
  ro_devices :: MemoryDeviceDirectory
  ro_device_hot :: MemoryDeviceHot
  ro_app :: string
  ro_chat_url :: string
  ro_hmac_secret :: "byte list"
  ro_nonce :: "(string, nat) hmap"
  ro_pending_receipt :: bool
  ro_password_seal :: "PasswordSealKey option"
  ro_allow_plaintext :: bool

definition memory_with_jwt_receipt :: "byte list \<Rightarrow> (nat \<Rightarrow> (IdError, int) result) \<Rightarrow> JwtConfig \<Rightarrow> bool \<Rightarrow> RoyalState" where
  "memory_with_jwt_receipt hmac ids jwt pending_receipt =
     \<lparr>ro_store = message_store_new pending_receipt, ro_groups = [], ro_users = user_dir_new None, ro_social = social_new,
      ro_specs = agent_store_new, ro_ids = ids, ro_jwt = jwt, ro_revoke = revocation_new, ro_devices = [],
      ro_device_hot = [], ro_app = ''kim'', ro_chat_url = [], ro_hmac_secret = hmac, ro_nonce = [],
      ro_pending_receipt = pending_receipt, ro_password_seal = None, ro_allow_plaintext = True\<rparr>"

definition with_app :: "string \<Rightarrow> RoyalState \<Rightarrow> RoyalState" where
  "with_app app st = st\<lparr>ro_app := (if app = [] then ''kim'' else app)\<rparr>"

definition with_password_seal :: "PasswordSealKey \<Rightarrow> bool \<Rightarrow> RoyalState \<Rightarrow> RoyalState" where
  "with_password_seal key allow st = st\<lparr>ro_password_seal := Some key, ro_allow_plaintext := allow\<rparr>"

section \<open>Requests and their environment\<close>

record AuthReq =
  aq_account :: string
  aq_password :: string
  aq_device_credential :: string
  aq_enroll_device :: bool
  aq_password_sealed :: "byte list"
  aq_key_id :: string

record PasswordChangeReq =
  pcq_old_password :: string
  pcq_new_password :: string
  pcq_old_sealed :: "byte list"
  pcq_new_sealed :: "byte list"
  pcq_key_id :: string

text \<open>\<open>ae_hash\<close> is Argon2 with the call's salt; \<open>ae_verify\<close> is its verification, and \<open>None\<close> when the blocking task dies.\<close>

record auth_env =
  ae_now :: int
  ae_instant :: nat
  ae_jti :: string
  ae_device_id :: string
  ae_secret :: string
  ae_crypto :: seal_crypto
  ae_hash :: "string \<Rightarrow> string option"
  ae_verify :: "string \<Rightarrow> string \<Rightarrow> bool option"
  ae_jwt_enc :: jwt_encode
  ae_jwt_dec :: jwt_decode
  ae_dec_auth :: "byte list \<Rightarrow> (string, AuthReq) result"
  ae_dec_change :: "byte list \<Rightarrow> (string, PasswordChangeReq) result"

text \<open>An HTTP error is a status and a message.\<close>

type_synonym http_err = "nat \<times> string"

fun UserError_show :: "UserError \<Rightarrow> string" where
  "UserError_show UserConflict = ''conflict''"
| "UserError_show UserMissing = ''not found''"
| "UserError_show InvalidProfile = ''invalid profile''"
| "UserError_show UserLimit = ''limit''"
| "UserError_show UserNotBotOwner = ''not bot owner''"
| "UserError_show (UserBackend e) = e"

definition PASSWORD_MIN :: nat where "PASSWORD_MIN = 8"
definition PASSWORD_MAX :: nat where "PASSWORD_MAX = 128"

definition bad_request :: "string \<Rightarrow> http_err" where "bad_request msg = (400, msg)"

text \<open>The messages for a wrong account or password and for an account that is taken, as UTF-8 bytes.\<close>

definition WRONG_LOGIN :: string where
  "WRONG_LOGIN = str_of_bytes [0xE8, 0xB4, 0xA6, 0xE5, 0x8F, 0xB7, 0xE6, 0x88, 0x96, 0xE5, 0xAF, 0x86, 0xE7, 0xA0, 0x81,
     0xE9, 0x94, 0x99, 0xE8, 0xAF, 0xAF]"

definition ACCOUNT_TAKEN :: string where
  "ACCOUNT_TAKEN = str_of_bytes [0xE8, 0xB4, 0xA6, 0xE5, 0x8F, 0xB7, 0xE5, 0xB7, 0xB2, 0xE5, 0xAD, 0x98, 0xE5, 0x9C, 0xA8]"

definition unauthorized :: http_err where "unauthorized = (401, WRONG_LOGIN)"
definition bearer_denied :: http_err where "bearer_denied = (401, ''unauthorized'')"

definition valid_account :: "string \<Rightarrow> (http_err, string) result" where
  "valid_account raw =
     (case (AccountId_parse raw :: (unit ProtocolError, string) result) of
        Inl _ \<Rightarrow> Err (bad_request ''invalid account'')
      | Inr _ \<Rightarrow> Ok (trim raw))"

definition valid_password :: "string \<Rightarrow> (http_err, string) result" where
  "valid_password raw =
     (if length raw < PASSWORD_MIN \<or> length raw > PASSWORD_MAX then Err (bad_request ''invalid password'') else Ok raw)"

definition plaintext_allowed :: "RoyalState \<Rightarrow> bool" where
  "plaintext_allowed st \<longleftrightarrow> ro_allow_plaintext st \<or> ro_password_seal st = None"

definition resolve_password_field :: "seal_crypto \<Rightarrow> RoyalState \<Rightarrow> string \<Rightarrow> byte list \<Rightarrow> string \<Rightarrow> (http_err, string) result" where
  "resolve_password_field cx st plaintext sealed key_id =
     (if sealed \<noteq> [] then
        (case ro_password_seal st of
           None \<Rightarrow> Err (bad_request ''password seal not configured'')
         | Some key \<Rightarrow>
             (case ensure_key_id key key_id of
                Inl _ \<Rightarrow> Err (bad_request PASSWORD_KEY_ID_MISMATCH)
              | Inr _ \<Rightarrow>
                  (case unseal cx key sealed of
                     Inl _ \<Rightarrow> Err (bad_request ''invalid sealed password'')
                   | Inr opened \<Rightarrow>
                       (case from_utf8 opened of
                          None \<Rightarrow> Err (bad_request ''invalid sealed password'')
                        | Some raw \<Rightarrow> valid_password raw))))
      else if plaintext = [] then Err (bad_request ''password required'')
      else if \<not> plaintext_allowed st then Err (bad_request ''plaintext password not allowed'')
      else valid_password plaintext)"

section \<open>Issuing a token\<close>

definition token_ttl :: "RoyalState \<Rightarrow> int" where
  "token_ttl st = (if jc_ttl_secs (ro_jwt st) > 0 then jc_ttl_secs (ro_jwt st) else 86400)"

definition issue :: "auth_env \<Rightarrow> string \<Rightarrow> string option \<Rightarrow> string option \<Rightarrow> RoyalState \<Rightarrow> (http_err, AuthResp) result" where
  "issue env account did device_secret st =
     (let exp = i64_saturating_add (ae_now env) (token_ttl st);
          ver = token_epoch (ro_app st) account (ro_users st)
      in case (generate_with_device (ae_jwt_enc env) (jc_secret (ro_jwt st)) account (ro_app st) exp (ae_jti env) ver did
                 :: (string ProtocolError, string) result) of
           Inl e \<Rightarrow> Err (if e = InvalidAccount then bad_request ''invalid account'' else (500, ''token''))
         | Inr token \<Rightarrow>
             Ok \<lparr>ar_token = token, ar_exp = exp, ar_account = account, ar_device_id = or_blank did,
                 ar_device_credential = or_blank device_secret\<rparr>)"

definition hash_secret :: "seal_crypto \<Rightarrow> string \<Rightarrow> string" where
  "hash_secret cx secret = hex_encode (sx_sha256 cx (bytes_of_str secret))"

text \<open>The bound device: its identifier, and its secret when it was enrolled just now.\<close>

definition bind_device ::
  "auth_env \<Rightarrow> string \<Rightarrow> AuthReq \<Rightarrow> RoyalState \<Rightarrow> (http_err, (string \<times> string option) option) result \<times> RoyalState" where
  "bind_device env account req st =
     (let cred = trim (aq_device_credential req) in
      if cred \<noteq> [] then
        (case device_lookup_hash (ro_app st) account (hash_secret (ae_crypto env) cred) (ro_devices st) of
           None \<Rightarrow> (Err unauthorized, st)
         | Some rec \<Rightarrow>
             (Ok (Some (dv_device_id rec, None)), st\<lparr>ro_device_hot := hot_put (dv_device_id rec) account (ro_device_hot st)\<rparr>))
      else if aq_enroll_device req then
        (Ok (Some (ae_device_id env, Some (ae_secret env))),
         st\<lparr>ro_device_hot := hot_put (ae_device_id env) account (ro_device_hot st),
            ro_devices := device_enroll (ro_app st) account (ae_device_id env) (hash_secret (ae_crypto env) (ae_secret env)) (ro_devices st)\<rparr>)
      else (Ok None, st))"

definition finish_auth :: "auth_env \<Rightarrow> string \<Rightarrow> AuthReq \<Rightarrow> RoyalState \<Rightarrow> (http_err, AuthResp) result \<times> RoyalState" where
  "finish_auth env account req st =
     (case bind_device env account req st of
        (Inl e, st') \<Rightarrow> (Err e, st')
      | (Inr (Some (i, secret)), st') \<Rightarrow> (issue env account (Some i) secret st', st')
      | (Inr None, st') \<Rightarrow> (issue env account None None st', st'))"

section \<open>Register and log in\<close>

definition register :: "auth_env \<Rightarrow> byte list \<Rightarrow> RoyalState \<Rightarrow> (http_err, AuthResp) result \<times> RoyalState" where
  "register env body st =
     (case ae_dec_auth env body of
        Inl e \<Rightarrow> (Err (bad_request e), st)
      | Inr req \<Rightarrow>
          (case valid_account (aq_account req) of
             Inl e \<Rightarrow> (Err e, st)
           | Inr account \<Rightarrow>
               (case resolve_password_field (ae_crypto env) st (aq_password req) (aq_password_sealed req) (aq_key_id req) of
                  Inl e \<Rightarrow> (Err e, st)
                | Inr password \<Rightarrow>
                    (case ae_hash env password of
                       None \<Rightarrow> (Err (500, ''hash''), st)
                     | Some hashed \<Rightarrow>
                         (case user_create (ro_app st) account hashed (ro_users st) of
                            (Inr _, d) \<Rightarrow> finish_auth env account req (st\<lparr>ro_users := d\<rparr>)
                          | (Inl UserConflict, d) \<Rightarrow> (Err (409, ACCOUNT_TAKEN), st\<lparr>ro_users := d\<rparr>)
                          | (Inl (UserBackend e), d) \<Rightarrow> (Err (500, e), st\<lparr>ro_users := d\<rparr>)
                          | (Inl _, d) \<Rightarrow> (Err (500, ''create''), st\<lparr>ro_users := d\<rparr>))))))"

definition login :: "auth_env \<Rightarrow> byte list \<Rightarrow> RoyalState \<Rightarrow> (http_err, AuthResp) result \<times> RoyalState" where
  "login env body st =
     (case ae_dec_auth env body of
        Inl e \<Rightarrow> (Err (bad_request e), st)
      | Inr req \<Rightarrow>
          (case valid_account (aq_account req) of
             Inl e \<Rightarrow> (Err e, st)
           | Inr account \<Rightarrow>
               (case resolve_password_field (ae_crypto env) st (aq_password req) (aq_password_sealed req) (aq_key_id req) of
                  Inl e \<Rightarrow> (Err e, st)
                | Inr password \<Rightarrow>
                    if (case lookup (ro_app st) account (ro_users st) of Some p \<Rightarrow> up_kind p = PROFILE_KIND_BOT | None \<Rightarrow> False)
                    then (Err unauthorized, st)
                    else case user_password_hash (ro_app st) account (ro_users st) of
                        None \<Rightarrow> (Err unauthorized, st)
                      | Some hash \<Rightarrow>
                          (case ae_verify env password hash of
                             None \<Rightarrow> (Err (500, ''verify''), st)
                           | Some False \<Rightarrow> (Err unauthorized, st)
                           | Some True \<Rightarrow> finish_auth env account req st))))"

section \<open>The bearer of a token\<close>

definition strip_prefix :: "string \<Rightarrow> string \<Rightarrow> string option" where
  "strip_prefix p s = (if take (length p) s = p then Some (drop (length p) s) else None)"

text \<open>\<open>authorization\<close> is the header's value, absent also when it is not printable ASCII.\<close>

definition bearer_token :: "string option \<Rightarrow> string" where
  "bearer_token authorization =
     (let raw = or_blank authorization in
      trim (case strip_prefix ''Bearer '' raw of
              Some t \<Rightarrow> t
            | None \<Rightarrow> or_blank (strip_prefix ''bearer '' raw)))"

definition bearer_claims :: "auth_env \<Rightarrow> string option \<Rightarrow> RoyalState \<Rightarrow> (http_err, Claims) result" where
  "bearer_claims env authorization st =
     (let token = bearer_token authorization in
      if token = [] then Err bearer_denied
      else case (parse_token (ae_jwt_dec env) (jc_secret (ro_jwt st)) token :: (string ProtocolError, Claims) result) of
          Inl _ \<Rightarrow> Err bearer_denied
        | Inr claims \<Rightarrow> if cl_app claims \<noteq> ro_app st \<or> cl_account claims = [] then Err bearer_denied else Ok claims)"

text \<open>\<open>users.token_epoch\<close> is durable, the cached epoch is warmed from it. Memory ignores the time to live
  \<open>epoch_ttl_secs\<close>.\<close>

definition account_epoch :: "string \<Rightarrow> RoyalState \<Rightarrow> nat \<times> RoyalState" where
  "account_epoch account st =
     (let cached = get_epoch account (ro_revoke st);
          durable = token_epoch (ro_app st) account (ro_users st);
          epoch = max cached durable
      in (epoch, if durable > cached then st\<lparr>ro_revoke := set_epoch account epoch (ro_revoke st)\<rparr> else st))"

definition live_claims :: "auth_env \<Rightarrow> string option \<Rightarrow> RoyalState \<Rightarrow> (http_err, Claims) result \<times> RoyalState" where
  "live_claims env authorization st =
     (case bearer_claims env authorization st of
        Inl e \<Rightarrow> (Err e, st)
      | Inr claims \<Rightarrow>
          let (revoked, st1) =
                (case cl_jti claims of
                   None \<Rightarrow> (False, st)
                 | Some jti \<Rightarrow> let (b, r) = is_revoked (ae_instant env) jti (ro_revoke st) in (b, st\<lparr>ro_revoke := r\<rparr>))
          in if revoked then (Err bearer_denied, st1)
             else
               let (epoch, st2) = account_epoch (cl_account claims) st1
               in if cl_ver claims < epoch then (Err bearer_denied, st2) else (Ok claims, st2))"

definition me :: "auth_env \<Rightarrow> string option \<Rightarrow> RoyalState \<Rightarrow> (http_err, string \<times> string) result \<times> RoyalState" where
  "me env authorization st =
     (case live_claims env authorization st of
        (Inl e, st') \<Rightarrow> (Err e, st')
      | (Inr claims, st') \<Rightarrow> (Ok (cl_account claims, ro_app st'), st'))"

definition password_key :: "seal_crypto \<Rightarrow> RoyalState \<Rightarrow> (http_err, string \<times> string \<times> string) result" where
  "password_key cx st =
     (case ro_password_seal st of
        None \<Rightarrow> Err (404, ''password seal not configured'')
      | Some key \<Rightarrow> Ok (sk_key_id key, PASSWORD_SEAL_ALG, public_key_b64 cx key))"

section \<open>Log out and change a password\<close>

record KickAccount =
  kk_account :: string
  kk_app :: string

text \<open>The kick sent to the chat service; its outcome is only logged. Signing fails without a secret.\<close>

definition kick_account :: "RoyalState \<Rightarrow> string \<Rightarrow> KickAccount list" where
  "kick_account st account =
     (if ro_chat_url st = [] \<or> account = [] then []
      else if ro_hmac_secret st = [] then []
      else [\<lparr>kk_account = account, kk_app = ro_app st\<rparr>])"

definition jti_ttl :: "int \<Rightarrow> Claims \<Rightarrow> nat" where
  "jti_ttl now claims = nat (max (i64_saturating_sub (cl_exp claims) now) 1)"

definition revoke_bearer :: "auth_env \<Rightarrow> Claims \<Rightarrow> RoyalState \<Rightarrow> RoyalState" where
  "revoke_bearer env claims st =
     (case cl_jti claims of
        None \<Rightarrow> st
      | Some jti \<Rightarrow> st\<lparr>ro_revoke := revoke_jti (ae_instant env) jti (jti_ttl (ae_now env) claims) (ro_revoke st)\<rparr>)"

definition logout :: "auth_env \<Rightarrow> string option \<Rightarrow> RoyalState \<Rightarrow> (http_err, unit) result \<times> RoyalState \<times> KickAccount list" where
  "logout env authorization st =
     (case bearer_claims env authorization st of
        Inl e \<Rightarrow> (Err e, st, [])
      | Inr claims \<Rightarrow>
          let st' = revoke_bearer env claims st in (Ok (), st', kick_account st' (cl_account claims)))"

definition change_password ::
  "auth_env \<Rightarrow> string option \<Rightarrow> byte list \<Rightarrow> RoyalState \<Rightarrow> (http_err, unit) result \<times> RoyalState \<times> KickAccount list" where
  "change_password env authorization body st =
     (case live_claims env authorization st of
        (Inl e, st1) \<Rightarrow> (Err e, st1, [])
      | (Inr claims, st1) \<Rightarrow>
          let account = cl_account claims in
          (case ae_dec_change env body of
             Inl e \<Rightarrow> (Err (bad_request e), st1, [])
           | Inr req \<Rightarrow>
               (case resolve_password_field (ae_crypto env) st1 (pcq_old_password req) (pcq_old_sealed req) (pcq_key_id req) of
                  Inl e \<Rightarrow> (Err e, st1, [])
                | Inr old \<Rightarrow>
                    (case resolve_password_field (ae_crypto env) st1 (pcq_new_password req) (pcq_new_sealed req) (pcq_key_id req) of
                       Inl e \<Rightarrow> (Err e, st1, [])
                     | Inr new \<Rightarrow>
                         (case user_password_hash (ro_app st1) account (ro_users st1) of
                            None \<Rightarrow> (Err unauthorized, st1, [])
                          | Some hash \<Rightarrow>
                              (case ae_verify env old hash of
                                 None \<Rightarrow> (Err (500, ''verify''), st1, [])
                               | Some False \<Rightarrow> (Err unauthorized, st1, [])
                               | Some True \<Rightarrow>
                                   (case ae_hash env new of
                                      None \<Rightarrow> (Err (500, ''hash''), st1, [])
                                    | Some hashed \<Rightarrow>
                                        (case set_password_and_bump_epoch (ro_app st1) account hashed (ro_users st1) of
                                           (Inl e, d) \<Rightarrow> (Err (500, UserError_show e), st1\<lparr>ro_users := d\<rparr>, [])
                                         | (Inr ver, d) \<Rightarrow>
                                             let st2 = st1\<lparr>ro_users := d, ro_revoke := set_epoch account ver (ro_revoke st1)\<rparr>;
                                                 st3 = revoke_bearer env claims st2
                                             in (Ok (), st3, kick_account st3 account)))))))))"

section \<open>What the gateway asks\<close>

definition revoke_check :: "nat \<Rightarrow> string \<Rightarrow> RoyalState \<Rightarrow> (http_err, bool) result \<times> RoyalState" where
  "revoke_check now jti st =
     (if jti = [] then (Err (bad_request ''empty jti''), st)
      else let (b, r) = is_revoked now jti (ro_revoke st) in (Ok b, st\<lparr>ro_revoke := r\<rparr>))"

definition token_epoch_check :: "string \<Rightarrow> RoyalState \<Rightarrow> (http_err, nat) result \<times> RoyalState" where
  "token_epoch_check account st =
     (if account = [] then (Err (bad_request ''empty account''), st)
      else let (epoch, st') = account_epoch account st in (Ok epoch, st'))"

definition device_check :: "seal_crypto \<Rightarrow> string \<Rightarrow> string \<Rightarrow> string \<Rightarrow> RoyalState \<Rightarrow> (http_err, bool) result" where
  "device_check cx account device_id device_credential st =
     (if device_id = [] then Err (bad_request ''empty device id'')
      else if device_credential \<noteq> [] then
        Ok (case device_lookup_hash (ro_app st) account (hash_secret cx device_credential) (ro_devices st) of
              Some rec \<Rightarrow> dv_device_id rec = device_id \<and> \<not> dv_revoked rec
            | None \<Rightarrow> False)
      else
        Ok (case device_get device_id (ro_devices st) of
              Some rec \<Rightarrow> \<not> dv_revoked rec \<and> dv_account rec = account
            | None \<Rightarrow> hot_ok device_id account (ro_device_hot st)))"

end
