(* ===== verification/Kim_Royal.thy ===== *)
theory Kim_Royal
  imports Kim_Royal_Auth
begin

text \<open>
  The endpoints the chat service and the gateway call on Royal (\<open>services/royal/src/lib.rs\<close>,
  \<open>product.rs\<close>, \<open>bot.rs\<close>, \<open>agent_spec.rs\<close>): requests signed with the shared secret, over the in-memory
  directories and message store. A request is a route with its decoded message, a response its decoded
  message; the generated codecs are a parameter.
\<close>

section \<open>Messages\<close>

record InsertMessageReq =
  iq_sender :: string
  iq_dest :: string
  iq_send_time :: int
  iq_message :: "MessageReq option"
  iq_members :: "string list"
  iq_client_id :: string
  iq_online_targets :: "DeliveryTarget list"

record AckMessageReq =
  kq_account :: string
  kq_message_id :: int
  kq_message_ids :: "int list"
  kq_target_id :: string
  kq_app :: string

record OfflineIndexReq =
  oq_account :: string
  oq_message_id :: int
  oq_target_id :: string
  oq_app :: string
  oq_resume :: bool

record BotConfigPb =
  bp_model :: string
  bp_thinking_effort :: string
  bp_context_tokens :: "int option"
  bp_visibility :: string

text \<open>A fan-out as it travels: the kind is a number.\<close>

record InsertFanout =
  if_type :: int
  if_body :: string
  if_extra :: string
  if_sender :: string
  if_dest :: string
  if_kind :: int
  if_recipients :: "string list"

text \<open>One constructor per route; its arguments are the fields of the route's message.\<close>

datatype royal_req =
    RUserLookup string
  | RUserUpsert string
  | RRevokeCheck string
  | RTokenEpoch string
  | RDeviceCheck string string string
  | RInsertUser InsertMessageReq
  | RInsertGroup InsertMessageReq
  | RAck AckMessageReq
  | ROfflineIndex OfflineIndexReq
  | RBackfill string string string
  | ROfflineContent string string "int list"
  | RGroupCreate string CreateGroup
  | RGroupJoin string string string
  | RGroupQuit string string string
  | RGroupMembers string string
  | RGroupDetail string string
  | RGroupSummaries string "string list"
  | RUserProfile string
  | RUserUpdate string ProfilePatch
  | RUserProfiles "string list"
  | RUserSearch string "string list" int
  | RFriendRequest string string
  | RFriendAccept string string
  | RFriendReject string string
  | RFriendRemove string string
  | RFriendList string
  | RFriendIncoming string
  | RFriendCheck string string
  | RBlockAdd string string
  | RBlockRemove string string
  | RBlockList string
  | RBlockCheck string string
  | RInboxList string int
  | RHistory string string int int int
  | RInboxRead string string int int
  | RInboxStates string "ConversationKey list"
  | RBotCreate CreateBot
  | RBotDelete string string
  | RPurgeDm string string
  | RBotUpdate string string BotPatch
  | RBotConfig string string
  | RBotReply string string int "InsertMessageReq option"
  | RBotPending string string int
  | RSpecSync string
  | RSpecUpsert string "AgentSpecRecord option" "AgentProviderAccount option"

datatype royal_resp =
    XEmpty
  | XAccountExists bool int string
  | XRevokeStatus bool
  | XTokenEpoch nat
  | XDeviceCheck bool
  | XInsert int int bool "InsertFanout option"
  | XIndex "MessageIndexRow list" bool
  | XContent "MessageContentRow list"
  | XGroupCreate string
  | XGroupMembers "string list"
  | XGroupDetail GroupInfo
  | XGroupList "GroupSummary list"
  | XProfile UserProfile
  | XUsers "UserProfile list"
  | XSearch "UserProfile list"
  | XAccounts "string list"
  | XInbox "InboxItem list"
  | XHistory "HistoryEntry list"
  | XReadState ReadStatePb
  | XReadStates "ReadStatePb list"
  | XBotRecord "UserProfile option" "BotConfigPb option"
  | XBotConfig string string "BotConfigPb option"
  | XBotPending "BotPendingItem list"
  | XSpecSync "AgentSpecRecord list" "AgentProviderAccount list"
  | XSpecUpsert "AgentSpecRecord option"

section \<open>Routes\<close>

fun req_path :: "royal_req \<Rightarrow> string" where
  "req_path (RUserLookup _) = ''/internal/user/lookup''"
| "req_path (RUserUpsert _) = ''/internal/user/upsert''"
| "req_path (RRevokeCheck _) = ''/internal/revoke/check''"
| "req_path (RTokenEpoch _) = ''/internal/token-epoch''"
| "req_path (RDeviceCheck _ _ _) = ''/internal/device/check''"
| "req_path (RInsertUser _) = ''/api/v1/message/user''"
| "req_path (RInsertGroup _) = ''/api/v1/message/group''"
| "req_path (RAck _) = ''/api/v1/message/ack''"
| "req_path (ROfflineIndex _) = ''/api/v1/offline/index''"
| "req_path (RBackfill _ _ _) = ''/api/v1/delivery/backfill''"
| "req_path (ROfflineContent _ _ _) = ''/api/v1/offline/content''"
| "req_path (RGroupCreate _ _) = ''/api/v1/group''"
| "req_path (RGroupJoin _ _ _) = ''/api/v1/group/member''"
| "req_path (RGroupQuit _ _ _) = ''/api/v1/group/quit''"
| "req_path (RGroupMembers _ _) = ''/api/v1/group/members''"
| "req_path (RGroupDetail _ _) = ''/api/v1/group/detail''"
| "req_path (RGroupSummaries _ _) = ''/api/v1/group/summaries''"
| "req_path (RUserProfile _) = ''/api/v1/user/profile''"
| "req_path (RUserUpdate _ _) = ''/api/v1/user/update''"
| "req_path (RUserProfiles _) = ''/api/v1/user/profiles''"
| "req_path (RUserSearch _ _ _) = ''/api/v1/user/search''"
| "req_path (RFriendRequest _ _) = ''/api/v1/friend/request''"
| "req_path (RFriendAccept _ _) = ''/api/v1/friend/accept''"
| "req_path (RFriendReject _ _) = ''/api/v1/friend/reject''"
| "req_path (RFriendRemove _ _) = ''/api/v1/friend/remove''"
| "req_path (RFriendList _) = ''/api/v1/friend/list''"
| "req_path (RFriendIncoming _) = ''/api/v1/friend/incoming''"
| "req_path (RFriendCheck _ _) = ''/api/v1/friend/check''"
| "req_path (RBlockAdd _ _) = ''/api/v1/block/add''"
| "req_path (RBlockRemove _ _) = ''/api/v1/block/remove''"
| "req_path (RBlockList _) = ''/api/v1/block/list''"
| "req_path (RBlockCheck _ _) = ''/api/v1/block/check''"
| "req_path (RInboxList _ _) = ''/api/v1/inbox''"
| "req_path (RHistory _ _ _ _ _) = ''/api/v1/history''"
| "req_path (RInboxRead _ _ _ _) = ''/api/v1/inbox/read''"
| "req_path (RInboxStates _ _) = ''/api/v1/inbox/states''"
| "req_path (RBotCreate _) = ''/api/v1/bot''"
| "req_path (RBotDelete _ _) = ''/api/v1/bot''"
| "req_path (RPurgeDm _ _) = ''/api/v1/message/purge-dm''"
| "req_path (RBotUpdate _ _ _) = ''/api/v1/bot/update''"
| "req_path (RBotConfig _ _) = ''/api/v1/bot/config''"
| "req_path (RBotReply _ _ _ _) = ''/api/v1/bot/reply''"
| "req_path (RBotPending _ _ _) = ''/api/v1/bot/pending''"
| "req_path (RSpecSync _) = ''/api/v1/agent/spec/sync''"
| "req_path (RSpecUpsert _ _ _) = ''/api/v1/agent/spec/upsert''"

definition req_method :: "royal_req \<Rightarrow> string" where
  "req_method rq = (case rq of RBotDelete _ _ \<Rightarrow> ''DELETE'' | _ \<Rightarrow> ''POST'')"

section \<open>The environment and the directories\<close>

text \<open>The monotonic clock and its distance to the wall clock, the store's wall clock, the keyed hash, SHA-256 and the
  codecs.\<close>

record royal_env =
  ry_instant :: nat
  ry_epoch :: nat
  ry_unix :: int
  ry_mac :: mac_fun
  ry_crypto :: seal_crypto
  ry_dec :: "string \<Rightarrow> string \<Rightarrow> byte list \<Rightarrow> (string, royal_req) result"
  ry_enc_resp :: "royal_resp \<Rightarrow> byte list"

text \<open>The directories, store and identifier generator of the service in the shape in which the in-memory
  components are modelled: the chat state, with no sessions, tasks and room interest of its own.\<close>

definition dirs :: "RoyalState \<Rightarrow> ChatState" where
  "dirs st =
     \<lparr>hb_gens = [], hb_tasks = [], ch_sessions = mem_new, ch_users = ro_users st, ch_social = ro_social st,
      ch_groups = ro_groups st, ch_interest = interest_new, ch_store = ro_store st, ch_specs = ro_specs st, ch_ids = ro_ids st\<rparr>"

definition put_dirs :: "ChatState \<Rightarrow> RoyalState \<Rightarrow> RoyalState" where
  "put_dirs s st =
     st\<lparr>ro_users := ch_users s, ro_social := ch_social s, ro_groups := ch_groups s, ro_store := ch_store s,
        ro_specs := ch_specs s, ro_ids := ch_ids s\<rparr>"

type_synonym endpoint = "RoyalState \<Rightarrow> (http_err, royal_resp) result \<times> RoyalState"

definition refuse :: "http_err \<Rightarrow> endpoint" where
  "refuse e st = (Err e, st)"

definition on_read :: "(ChatState \<Rightarrow> ('e, 'a) result) \<Rightarrow> ('e \<Rightarrow> http_err) \<Rightarrow> ('a \<Rightarrow> royal_resp) \<Rightarrow> endpoint" where
  "on_read f err out st = (case f (dirs st) of Inl e \<Rightarrow> (Err (err e), st) | Inr v \<Rightarrow> (Ok (out v), st))"

definition on_write :: "(ChatState \<Rightarrow> ('e, 'a) result \<times> ChatState) \<Rightarrow> ('e \<Rightarrow> http_err) \<Rightarrow> ('a \<Rightarrow> royal_resp) \<Rightarrow> endpoint" where
  "on_write f err out st =
     (case f (dirs st) of
        (Inl e, s) \<Rightarrow> (Err (err e), put_dirs s st)
      | (Inr v, s) \<Rightarrow> (Ok (out v), put_dirs s st))"

abbreviation royal_store :: "royal_env \<Rightarrow> ChatState MessageStore" where
  "royal_store env \<equiv> memory_store (ry_instant env) (ry_unix env)"

section \<open>Errors as statuses\<close>

fun StoreError_show :: "StoreError \<Rightarrow> string" where
  "StoreError_show (StoreId e) = ''idgen: '' @ IdError_show e"
| "StoreError_show (StoreHttp status msg) = ''royal http '' @ show_nat status @ '': '' @ msg"
| "StoreError_show (StoreInvalid msg) = ''invalid: '' @ msg"
| "StoreError_show StoreNotFound = ''not found''"
| "StoreError_show (StoreBackend e) = e"

fun GroupError_show :: "GroupError \<Rightarrow> string" where
  "GroupError_show (GroupId e) = ''idgen: '' @ IdError_show e"
| "GroupError_show GroupNotFound = ''group not found''"
| "GroupError_show (GroupBackend e) = e"

definition backend :: "string \<Rightarrow> http_err" where "backend msg = (500, msg)"

definition group_http :: "GroupError \<Rightarrow> http_err" where
  "group_http e = (case e of GroupNotFound \<Rightarrow> (404, GroupError_show e) | _ \<Rightarrow> backend (GroupError_show e))"

fun social_http :: "SocialError \<Rightarrow> http_err" where
  "social_http SelfOp = (400, ''self'')"
| "social_http SocialBlocked = (403, ''blocked'')"
| "social_http BotSocialDenied = (403, ''bot-social-denied'')"
| "social_http SocialNotFound = (404, ''not found'')"
| "social_http (SocialBackend e) = backend e"

fun user_http :: "UserError \<Rightarrow> http_err" where
  "user_http UserMissing = (404, ''not found'')"
| "user_http InvalidProfile = (400, ''invalid profile'')"
| "user_http UserLimit = (400, ''limit'')"
| "user_http UserNotBotOwner = (403, ''not bot owner'')"
| "user_http UserConflict = (409, ''conflict'')"
| "user_http (UserBackend e) = backend e"

text \<open>\<open>StatusCode::from_u16\<close> accepts 100 to 999.\<close>

definition store_http :: "StoreError \<Rightarrow> http_err" where
  "store_http e =
     (case e of
        StoreInvalid msg \<Rightarrow> (400, msg)
      | StoreNotFound \<Rightarrow> (404, ''not found'')
      | StoreHttp status msg \<Rightarrow> (if 100 \<le> status \<and> status \<le> 999 then status else 500, msg)
      | _ \<Rightarrow> backend (StoreError_show e))"

definition store_backend :: "StoreError \<Rightarrow> http_err" where
  "store_backend e = backend (StoreError_show e)"

fun spec_http :: "AgentSpecError \<Rightarrow> http_err" where
  "spec_http AgentInvalid = (400, ''invalid'')"
| "spec_http AgentNotOwner = (403, ''not bot owner'')"
| "spec_http (AgentBackend e) = backend e"

section \<open>Messages\<close>

definition PENDING_NOT_ENABLED :: string where "PENDING_NOT_ENABLED = ''pending-not-enabled''"
definition pending_disabled :: http_err where "pending_disabled = (503, PENDING_NOT_ENABLED)"

definition resolve_req_app :: "RoyalState \<Rightarrow> string \<Rightarrow> (http_err, string) result" where
  "resolve_req_app st req_app =
     (if req_app = [] \<or> req_app = ro_app st then Ok (ro_app st) else Err (bad_request ''app mismatch''))"

definition is_new_ack :: "AckMessageReq \<Rightarrow> bool" where
  "is_new_ack req \<longleftrightarrow> kq_target_id req \<noteq> [] \<or> kq_message_ids req \<noteq> [] \<or> kq_app req \<noteq> []"

definition is_new_index :: "OfflineIndexReq \<Rightarrow> bool" where
  "is_new_index req \<longleftrightarrow> oq_target_id req \<noteq> [] \<or> oq_resume req \<or> oq_app req \<noteq> []"

definition insert_from_req :: "InsertMessageReq \<Rightarrow> InsertMessage" where
  "insert_from_req req =
     (let msg = (case iq_message req of Some m \<Rightarrow> m | None \<Rightarrow> \<lparr>mr_type = 0, mr_body = [], mr_extra = [], mr_client_id = []\<rparr>) in
      \<lparr>im_sender = iq_sender req, im_dest = iq_dest req, im_send_time = iq_send_time req, im_msg_type = mr_type msg,
       im_body = mr_body msg, im_extra = mr_extra msg,
       im_client_id = (if iq_client_id req = [] then mr_client_id msg else iq_client_id req),
       im_online_targets = iq_online_targets req\<rparr>)"

definition kind_number :: "MessageKind \<Rightarrow> int" where
  "kind_number kind = (case kind of UserMsg \<Rightarrow> 0 | GroupMsg \<Rightarrow> 1)"

definition encode_insert :: "InsertResult \<Rightarrow> royal_resp" where
  "encode_insert r =
     XInsert (res_message_id r) (res_send_time r) (res_duplicate r)
       (let f = res_fanout r in
        Some \<lparr>if_type = fo_msg_type f, if_body = fo_body f, if_extra = fo_extra f, if_sender = fo_sender f,
              if_dest = fo_dest f, if_kind = kind_number (fo_kind f), if_recipients = fo_recipients f\<rparr>)"

definition ep_insert_user :: "royal_env \<Rightarrow> InsertMessageReq \<Rightarrow> endpoint" where
  "ep_insert_user env req st =
     on_write (mst_insert (royal_store env) (ro_app st) UserMsg (insert_from_req req) []) store_backend encode_insert st"

definition ep_insert_group :: "royal_env \<Rightarrow> InsertMessageReq \<Rightarrow> endpoint" where
  "ep_insert_group env req st =
     (case (if iq_members req = [] then gd_group_members memory_groups (ro_app st) (iq_dest req) (dirs st) else Ok (iq_members req)) of
        Inl e \<Rightarrow> (Err (backend (GroupError_show e)), st)
      | Inr members \<Rightarrow>
          on_write (mst_insert (royal_store env) (ro_app st) GroupMsg (insert_from_req req) members) store_backend encode_insert st)"

definition ep_ack :: "royal_env \<Rightarrow> AckMessageReq \<Rightarrow> endpoint" where
  "ep_ack env req st =
     (if is_new_ack req then
        if \<not> ro_pending_receipt st then (Err pending_disabled, st)
        else case resolve_req_app st (kq_app req) of
            Inl e \<Rightarrow> (Err e, st)
          | Inr app \<Rightarrow>
              on_write (mst_store_ack (royal_store env) app (kq_account req) (kq_target_id req)
                (collect_ack_ids (kq_message_id req) (kq_message_ids req))) store_backend (\<lambda>_. XEmpty) st
      else
        on_write (mst_store_ack (royal_store env) (ro_app st) (kq_account req) [] (collect_ack_ids (kq_message_id req) []))
          store_backend (\<lambda>_. XEmpty) st)"

definition ep_offline_index :: "royal_env \<Rightarrow> OfflineIndexReq \<Rightarrow> endpoint" where
  "ep_offline_index env req st =
     (if is_new_index req then
        if \<not> ro_pending_receipt st then (Err pending_disabled, st)
        else case resolve_req_app st (oq_app req) of
            Inl e \<Rightarrow> (Err e, st)
          | Inr app \<Rightarrow>
              on_write (mst_offline_index (royal_store env) app (oq_account req) (oq_target_id req) (oq_message_id req) (oq_resume req))
                store_backend (\<lambda>(rows, more). XIndex rows more) st
      else
        on_write (mst_offline_index (royal_store env) (ro_app st) (oq_account req) [] (oq_message_id req) False)
          store_backend (\<lambda>(rows, more). XIndex rows more) st)"

definition ep_backfill :: "royal_env \<Rightarrow> string \<Rightarrow> string \<Rightarrow> string \<Rightarrow> endpoint" where
  "ep_backfill env app account target st =
     (if \<not> ro_pending_receipt st then (Err pending_disabled, st)
      else case resolve_req_app st app of
          Inl e \<Rightarrow> (Err e, st)
        | Inr app \<Rightarrow> on_write (mst_backfill (royal_store env) app account target) store_backend (\<lambda>_. XEmpty) st)"

definition ep_offline_content :: "royal_env \<Rightarrow> string \<Rightarrow> string \<Rightarrow> int list \<Rightarrow> endpoint" where
  "ep_offline_content env app account ids st =
     (if app = [] \<or> account = [] then (Err (bad_request ''empty app or account''), st)
      else on_read (mst_offline_content (royal_store env) app account ids) store_backend XContent st)"

definition ep_inbox_list :: "royal_env \<Rightarrow> string \<Rightarrow> int \<Rightarrow> endpoint" where
  "ep_inbox_list env account limit st =
     on_read (mst_inbox (royal_store env) (ro_app st) account limit) store_backend
       (\<lambda>rows. XInbox (map (\<lambda>row.
          \<lparr>ii_dest = ie_dest row, ii_kind = kind_number (ie_kind row), ii_title = [], ii_avatar = [],
           ii_last_body = ie_last_body row, ii_last_sender = ie_last_sender row, ii_last_message_id = ie_last_message_id row,
           ii_last_send_time = ie_last_send_time row, ii_unread = ie_unread row,
           ii_read_state = to_proto (read_state row)\<rparr>) rows)) st"

definition ep_history :: "royal_env \<Rightarrow> string \<Rightarrow> string \<Rightarrow> int \<Rightarrow> int \<Rightarrow> int \<Rightarrow> endpoint" where
  "ep_history env account dest kind before_id limit st =
     (case parse_kind kind of
        None \<Rightarrow> (Err (bad_request ''kind''), st)
      | Some k \<Rightarrow> on_read (mst_history (royal_store env) (ro_app st) account dest k before_id limit) store_backend XHistory st)"

definition ep_inbox_read :: "royal_env \<Rightarrow> string \<Rightarrow> string \<Rightarrow> int \<Rightarrow> int \<Rightarrow> endpoint" where
  "ep_inbox_read env account dest kind message_id st =
     (case parse_kind kind of
        None \<Rightarrow> (Err (bad_request ''kind''), st)
      | Some k \<Rightarrow>
          on_write (mst_mark_read (royal_store env) (ro_app st) account dest k message_id) store_backend (\<lambda>s. XReadState (to_proto s)) st)"

fun state_keys :: "ConversationKey list \<Rightarrow> (http_err, ConversationStateKey list) result" where
  "state_keys [] = Ok []"
| "state_keys (key # rest) =
     (case parse_kind (cky_kind key) of
        None \<Rightarrow> Err (bad_request ''kind'')
      | Some kind \<Rightarrow>
          if cky_dest key = [] then Err (bad_request ''dest'')
          else res_bind (state_keys rest) (\<lambda>ks. Ok (\<lparr>ck_dest = cky_dest key, ck_kind = kind\<rparr> # ks)))"

definition ep_inbox_states :: "royal_env \<Rightarrow> string \<Rightarrow> ConversationKey list \<Rightarrow> endpoint" where
  "ep_inbox_states env account conversations st =
     (if account = [] then (Err (bad_request ''account''), st)
      else if length conversations > 100 then (Err (bad_request ''too many keys''), st)
      else case state_keys conversations of
          Inl e \<Rightarrow> (Err e, st)
        | Inr keys \<Rightarrow>
            on_read (mst_states (royal_store env) (ro_app st) account keys) store_backend (\<lambda>ss. XReadStates (map to_proto ss)) st)"

section \<open>Groups\<close>

definition require_app :: "string \<Rightarrow> endpoint \<Rightarrow> endpoint" where
  "require_app app k st = (if app = [] then (Err (bad_request ''empty app''), st) else k st)"

definition GROUP_SUMMARIES_CAP :: nat where "GROUP_SUMMARIES_CAP = 256"

definition ep_group_create :: "string \<Rightarrow> CreateGroup \<Rightarrow> endpoint" where
  "ep_group_create app req = require_app app (on_write (gd_group_create memory_groups app req) group_http XGroupCreate)"

definition ep_group_join :: "string \<Rightarrow> string \<Rightarrow> string \<Rightarrow> endpoint" where
  "ep_group_join app group_id account =
     require_app app (on_write (gd_group_join memory_groups app group_id account) group_http (\<lambda>_. XEmpty))"

definition ep_group_quit :: "string \<Rightarrow> string \<Rightarrow> string \<Rightarrow> endpoint" where
  "ep_group_quit app group_id account =
     require_app app (on_write (gd_group_quit memory_groups app group_id account) group_http (\<lambda>_. XEmpty))"

definition ep_group_members :: "string \<Rightarrow> string \<Rightarrow> endpoint" where
  "ep_group_members app group_id = require_app app (on_read (gd_group_members memory_groups app group_id) group_http XGroupMembers)"

definition ep_group_detail :: "string \<Rightarrow> string \<Rightarrow> endpoint" where
  "ep_group_detail app group_id = require_app app (on_read (gd_group_detail memory_groups app group_id) group_http XGroupDetail)"

definition ep_group_summaries :: "string \<Rightarrow> string list \<Rightarrow> endpoint" where
  "ep_group_summaries app group_ids =
     require_app app (\<lambda>st.
       if length group_ids > GROUP_SUMMARIES_CAP then (Err (bad_request ''too many group ids''), st)
       else on_read (gd_group_summaries memory_groups app group_ids) group_http XGroupList st)"

section \<open>Users\<close>

definition ep_user_lookup :: "string \<Rightarrow> endpoint" where
  "ep_user_lookup account st =
     (if account = [] then (Err (bad_request ''empty account''), st)
      else on_read (us_lookup memory_users (ro_app st) account) user_http
        (\<lambda>p. case p of None \<Rightarrow> XAccountExists False 0 [] | Some p \<Rightarrow> XAccountExists (up_exists p) (up_kind p) (up_owner_account p)) st)"

definition ep_user_upsert :: "string \<Rightarrow> endpoint" where
  "ep_user_upsert account st =
     (if account = [] then (Err (bad_request ''empty account''), st)
      else on_write (us_upsert memory_users (ro_app st) account) user_http (\<lambda>_. XEmpty) st)"

definition ep_user_profile :: "string \<Rightarrow> endpoint" where
  "ep_user_profile account st =
     (case us_profile memory_users (ro_app st) account (dirs st) of
        Inr (Some p) \<Rightarrow> (Ok (XProfile p), st)
      | Inr None \<Rightarrow> (Err (404, ''not found''), st)
      | Inl e \<Rightarrow> (Err (user_http e), st))"

definition ep_user_update :: "string \<Rightarrow> ProfilePatch \<Rightarrow> endpoint" where
  "ep_user_update account patch st = on_write (us_update_profile memory_users (ro_app st) account patch) user_http XProfile st"

definition ep_user_profiles :: "string list \<Rightarrow> endpoint" where
  "ep_user_profiles accounts st = on_read (us_profiles memory_users (ro_app st) accounts) user_http XUsers st"

definition ep_user_search :: "string \<Rightarrow> string list \<Rightarrow> int \<Rightarrow> endpoint" where
  "ep_user_search query exclude limit st =
     on_read (us_search memory_users (ro_app st) query exclude (nat (max limit 0))) user_http XSearch st"

section \<open>Friends and blocks\<close>

definition bot_social_refused :: "RoyalState \<Rightarrow> string \<Rightarrow> string \<Rightarrow> (http_err, unit) result" where
  "bot_social_refused st account peer =
     (case us_lookup memory_users (ro_app st) peer (dirs st) of
        Inr (Some p) \<Rightarrow>
          if up_kind p = PROFILE_KIND_BOT then
            if up_owner_account p = account then Err (403, ''bot-social-denied'') else Err (404, ''not found'')
          else Ok ()
      | Inr None \<Rightarrow> Ok ()
      | Inl e \<Rightarrow> Err (user_http e))"

definition unless_bot :: "string \<Rightarrow> string \<Rightarrow> endpoint \<Rightarrow> endpoint" where
  "unless_bot account peer k st = (case bot_social_refused st account peer of Inl e \<Rightarrow> (Err e, st) | Inr _ \<Rightarrow> k st)"

definition ep_friend_request :: "string \<Rightarrow> string \<Rightarrow> endpoint" where
  "ep_friend_request account peer = unless_bot account peer (\<lambda>st.
     on_write (sd_request memory_social (ro_app st) account peer) social_http
       (\<lambda>outcome. XAccountExists (outcome = AutoAccepted \<or> outcome = AlreadyFriends) 0 []) st)"

definition ep_friend_accept :: "string \<Rightarrow> string \<Rightarrow> endpoint" where
  "ep_friend_accept account peer = unless_bot account peer (\<lambda>st.
     on_write (sd_accept memory_social (ro_app st) account peer) social_http (\<lambda>_. XEmpty) st)"

definition ep_friend_reject :: "string \<Rightarrow> string \<Rightarrow> endpoint" where
  "ep_friend_reject account peer st = on_write (sd_reject memory_social (ro_app st) account peer) social_http (\<lambda>_. XEmpty) st"

definition ep_friend_remove :: "string \<Rightarrow> string \<Rightarrow> endpoint" where
  "ep_friend_remove account peer = unless_bot account peer (\<lambda>st.
     on_write (sd_remove memory_social (ro_app st) account peer) social_http (\<lambda>_. XEmpty) st)"

definition ep_friend_list :: "string \<Rightarrow> endpoint" where
  "ep_friend_list account st = on_read (sd_list_friends memory_social (ro_app st) account) social_http XAccounts st"

definition ep_friend_incoming :: "string \<Rightarrow> endpoint" where
  "ep_friend_incoming account st = on_read (sd_incoming memory_social (ro_app st) account) social_http XAccounts st"

definition ep_friend_check :: "string \<Rightarrow> string \<Rightarrow> endpoint" where
  "ep_friend_check account peer st =
     on_read (sd_is_friend memory_social (ro_app st) account peer) social_http (\<lambda>b. XAccountExists b 0 []) st"

definition ep_block_add :: "string \<Rightarrow> string \<Rightarrow> endpoint" where
  "ep_block_add account peer = unless_bot account peer (\<lambda>st.
     on_write (sd_block memory_social (ro_app st) account peer) social_http (\<lambda>_. XEmpty) st)"

definition ep_block_remove :: "string \<Rightarrow> string \<Rightarrow> endpoint" where
  "ep_block_remove account peer = unless_bot account peer (\<lambda>st.
     on_write (sd_unblock memory_social (ro_app st) account peer) social_http (\<lambda>_. XEmpty) st)"

definition ep_block_list :: "string \<Rightarrow> endpoint" where
  "ep_block_list account st = on_read (sd_list_blocked memory_social (ro_app st) account) social_http XAccounts st"

definition ep_block_check :: "string \<Rightarrow> string \<Rightarrow> endpoint" where
  "ep_block_check account peer st =
     on_read (sd_is_blocked_either memory_social (ro_app st) account peer) social_http (\<lambda>b. XAccountExists b 0 []) st"

section \<open>Bots and agent specifications\<close>

definition to_pb_config :: "BotConfig \<Rightarrow> BotConfigPb" where
  "to_pb_config c =
     \<lparr>bp_model = bc_model c, bp_thinking_effort = bc_thinking_effort c, bp_context_tokens = bc_context_tokens c,
      bp_visibility = bc_visibility c\<rparr>"

definition bot_record :: "BotRecord \<Rightarrow> royal_resp" where
  "bot_record r = XBotRecord (Some (br_profile r)) (Some (to_pb_config (br_config r)))"

definition ep_bot_create :: "CreateBot \<Rightarrow> endpoint" where
  "ep_bot_create req st = on_write (us_create_bot memory_users (ro_app st) req) user_http bot_record st"

definition ep_bot_delete :: "royal_env \<Rightarrow> string \<Rightarrow> string \<Rightarrow> endpoint" where
  "ep_bot_delete env account peer st =
     (case us_delete_bot memory_users (ro_app st) account peer (dirs st) of
        (Inl e, s) \<Rightarrow> (Err (user_http e), put_dirs s st)
      | (Inr _, s) \<Rightarrow>
          on_write (mst_purge (royal_store env) (ro_app st) account peer) store_http (\<lambda>_. XAccountExists True 0 []) (put_dirs s st))"

definition ep_purge_dm :: "royal_env \<Rightarrow> string \<Rightarrow> string \<Rightarrow> endpoint" where
  "ep_purge_dm env account peer st =
     on_write (mst_purge (royal_store env) (ro_app st) account peer) store_http (\<lambda>_. XAccountExists True 0 []) st"

definition ep_bot_update :: "string \<Rightarrow> string \<Rightarrow> BotPatch \<Rightarrow> endpoint" where
  "ep_bot_update owner account patch st = on_write (us_update_bot memory_users (ro_app st) owner account patch) user_http bot_record st"

definition ep_bot_config :: "string \<Rightarrow> string \<Rightarrow> endpoint" where
  "ep_bot_config owner account st =
     on_read (\<lambda>s. bot_config (ro_app st) owner account (ch_users s)) user_http (\<lambda>c. XBotConfig owner account (Some (to_pb_config c))) st"

definition ep_bot_reply :: "royal_env \<Rightarrow> string \<Rightarrow> string \<Rightarrow> int \<Rightarrow> InsertMessageReq option \<Rightarrow> endpoint" where
  "ep_bot_reply env owner bot_account in_reply_to ins st =
     (case ins of
        None \<Rightarrow> (Err (bad_request ''insert''), st)
      | Some req \<Rightarrow>
          on_write (mst_insert_bot_reply (royal_store env) (ro_app st) owner bot_account in_reply_to (insert_from_req req))
            store_http encode_insert st)"

definition ep_bot_pending :: "royal_env \<Rightarrow> string \<Rightarrow> string \<Rightarrow> int \<Rightarrow> endpoint" where
  "ep_bot_pending env owner bot_account limit st =
     (case us_lookup memory_users (ro_app st) bot_account (dirs st) of
        Inr (Some p) \<Rightarrow>
          if up_kind p = PROFILE_KIND_BOT \<and> up_owner_account p = owner
          then on_read (mst_bot_pending (royal_store env) (ro_app st) owner bot_account limit) store_http XBotPending st
          else if up_kind p = PROFILE_KIND_BOT then (Err (403, ''not bot owner''), st)
          else (Err (404, ''not found''), st)
      | Inr None \<Rightarrow> (Err (404, ''not found''), st)
      | Inl e \<Rightarrow> (Err (user_http e), st))"

definition require_owner :: "string \<Rightarrow> endpoint \<Rightarrow> endpoint" where
  "require_owner owner k st = (if owner = [] then (Err (bad_request ''empty owner''), st) else k st)"

definition ep_spec_sync :: "string \<Rightarrow> endpoint" where
  "ep_spec_sync owner = require_owner owner (\<lambda>st.
     (case sp_spec_list memory_specs (ro_app st) owner (dirs st) of
        Inl e \<Rightarrow> (Err (spec_http e), st)
      | Inr records \<Rightarrow> on_read (sp_account_list memory_specs (ro_app st) owner) spec_http (XSpecSync records) st))"

definition ep_spec_upsert :: "string \<Rightarrow> AgentSpecRecord option \<Rightarrow> AgentProviderAccount option \<Rightarrow> endpoint" where
  "ep_spec_upsert owner rec acc = require_owner owner (\<lambda>st.
     if rec = None \<and> acc = None then (Err (bad_request ''empty upsert''), st)
     else
       (case (case acc of None \<Rightarrow> (Ok (), dirs st)
              | Some a \<Rightarrow> (let (r, s) = sp_account_upsert memory_specs (ro_app st) owner a (dirs st) in (res_bind r (\<lambda>_. Ok ()), s))) of
          (Inl e, s) \<Rightarrow> (Err (spec_http e), put_dirs s st)
        | (Inr _, s) \<Rightarrow>
            (case rec of
               None \<Rightarrow> (Ok (XSpecUpsert None), put_dirs s st)
             | Some r \<Rightarrow>
                 on_write (sp_spec_upsert memory_specs (ro_app st) owner r) spec_http (\<lambda>x. XSpecUpsert (Some x)) (put_dirs s st))))"

section \<open>The gateway's questions\<close>

definition ep_revoke_check :: "royal_env \<Rightarrow> string \<Rightarrow> endpoint" where
  "ep_revoke_check env jti st =
     (let (r, st') = revoke_check (ry_instant env) jti st in (res_bind r (\<lambda>b. Ok (XRevokeStatus b)), st'))"

definition ep_token_epoch :: "string \<Rightarrow> endpoint" where
  "ep_token_epoch account st = (let (r, st') = token_epoch_check account st in (res_bind r (\<lambda>n. Ok (XTokenEpoch n)), st'))"

definition ep_device_check :: "royal_env \<Rightarrow> string \<Rightarrow> string \<Rightarrow> string \<Rightarrow> endpoint" where
  "ep_device_check env account device_id device_credential st =
     (res_bind (device_check (ry_crypto env) account device_id device_credential st) (\<lambda>b. Ok (XDeviceCheck b)), st)"

section \<open>The router\<close>

fun handle :: "royal_env \<Rightarrow> royal_req \<Rightarrow> endpoint" where
  "handle env (RUserLookup a) = ep_user_lookup a"
| "handle env (RUserUpsert a) = ep_user_upsert a"
| "handle env (RRevokeCheck j) = ep_revoke_check env j"
| "handle env (RTokenEpoch a) = ep_token_epoch a"
| "handle env (RDeviceCheck a d c) = ep_device_check env a d c"
| "handle env (RInsertUser r) = ep_insert_user env r"
| "handle env (RInsertGroup r) = ep_insert_group env r"
| "handle env (RAck r) = ep_ack env r"
| "handle env (ROfflineIndex r) = ep_offline_index env r"
| "handle env (RBackfill app a t) = ep_backfill env app a t"
| "handle env (ROfflineContent app a ids) = ep_offline_content env app a ids"
| "handle env (RGroupCreate app r) = ep_group_create app r"
| "handle env (RGroupJoin app g a) = ep_group_join app g a"
| "handle env (RGroupQuit app g a) = ep_group_quit app g a"
| "handle env (RGroupMembers app g) = ep_group_members app g"
| "handle env (RGroupDetail app g) = ep_group_detail app g"
| "handle env (RGroupSummaries app gs) = ep_group_summaries app gs"
| "handle env (RUserProfile a) = ep_user_profile a"
| "handle env (RUserUpdate a p) = ep_user_update a p"
| "handle env (RUserProfiles as) = ep_user_profiles as"
| "handle env (RUserSearch q ex l) = ep_user_search q ex l"
| "handle env (RFriendRequest a b) = ep_friend_request a b"
| "handle env (RFriendAccept a b) = ep_friend_accept a b"
| "handle env (RFriendReject a b) = ep_friend_reject a b"
| "handle env (RFriendRemove a b) = ep_friend_remove a b"
| "handle env (RFriendList a) = ep_friend_list a"
| "handle env (RFriendIncoming a) = ep_friend_incoming a"
| "handle env (RFriendCheck a b) = ep_friend_check a b"
| "handle env (RBlockAdd a b) = ep_block_add a b"
| "handle env (RBlockRemove a b) = ep_block_remove a b"
| "handle env (RBlockList a) = ep_block_list a"
| "handle env (RBlockCheck a b) = ep_block_check a b"
| "handle env (RInboxList a l) = ep_inbox_list env a l"
| "handle env (RHistory a d k b l) = ep_history env a d k b l"
| "handle env (RInboxRead a d k m) = ep_inbox_read env a d k m"
| "handle env (RInboxStates a ks) = ep_inbox_states env a ks"
| "handle env (RBotCreate r) = ep_bot_create r"
| "handle env (RBotDelete a b) = ep_bot_delete env a b"
| "handle env (RPurgeDm a b) = ep_purge_dm env a b"
| "handle env (RBotUpdate o' a p) = ep_bot_update o' a p"
| "handle env (RBotConfig o' a) = ep_bot_config o' a"
| "handle env (RBotReply o' b irt ins) = ep_bot_reply env o' b irt ins"
| "handle env (RBotPending o' b l) = ep_bot_pending env o' b l"
| "handle env (RSpecSync o') = ep_spec_sync o'"
| "handle env (RSpecUpsert o' r a) = ep_spec_upsert o' r a"

text \<open>A response: a status, \<open>204\<close> for the endpoint without a message, and the bytes of the message or of the error.\<close>

definition success_status :: "royal_req \<Rightarrow> nat" where
  "success_status rq = (case rq of RUserUpsert _ \<Rightarrow> 204 | _ \<Rightarrow> 200)"

text \<open>\<open>ry_dec\<close> is what the router makes of a method, a path and a body: no route and an undecodable body are errors.\<close>

definition deny_status :: "HmacDenial \<Rightarrow> nat \<times> string" where
  "deny_status d =
     (case d of HmacUnauthorized \<Rightarrow> (401, ''unauthorized'') | PayloadTooLarge \<Rightarrow> (413, ''payload too large'')
      | HmacUnavailable \<Rightarrow> (503, ''unavailable''))"

definition royal_http :: "royal_env \<Rightarrow> HttpRequest \<Rightarrow> RoyalState \<Rightarrow> (nat \<times> byte list) \<times> RoyalState" where
  "royal_http env req st =
     (case require_hmac (ry_mac env) (ro_hmac_secret st) (ry_epoch env) (ry_instant env) req (ro_nonce st) of
        (Inl d, seen) \<Rightarrow> (let (status, msg) = deny_status d in ((status, bytes_of_str msg), st\<lparr>ro_nonce := seen\<rparr>))
      | (Inr _, seen) \<Rightarrow>
          let st = st\<lparr>ro_nonce := seen\<rparr> in
          (case ry_dec env (hr_method req) (hr_path req) (hr_body req) of
             Inl e \<Rightarrow> ((400, bytes_of_str e), st)
           | Inr rq \<Rightarrow>
               (case handle env rq st of
                  (Inl (status, msg), st') \<Rightarrow> ((status, bytes_of_str msg), st')
                | (Inr x, st') \<Rightarrow> ((success_status rq, ry_enc_resp env x), st'))))"

end
