(* ===== verification/Kim_Royal_Wire.thy ===== *)
theory Kim_Royal_Wire
  imports Kim_Royal
begin

text \<open>
  One signed request to Royal and what can become of it on the network, and the gateway's client for its
  three questions (\<open>HttpRevoke\<close> in \<open>services/gateway/src/lib.rs\<close>).
\<close>

section \<open>One request\<close>

text \<open>A request may not arrive, or arrive and lose its reply; otherwise the caller reads the status and the body, or
  fails while it reads the body.\<close>

datatype wire_fate = Undelivered | ReplyLost | BodyLost | Answered

text \<open>The codecs of the caller, its secret, the generated nonce and the wall clock when it signs, and the server's
  environment while it serves the request.\<close>

record caller =
  ca_enc :: "royal_req \<Rightarrow> byte list"
  ca_dec :: "string \<Rightarrow> byte list \<Rightarrow> (string, royal_resp) result"
  ca_secret :: "byte list"
  ca_mac :: mac_fun

record wire =
  wr_nonce :: string
  wr_signed_at :: int
  wr_fate :: wire_fate
  wr_server :: royal_env

definition sign_request :: "caller \<Rightarrow> wire \<Rightarrow> royal_req \<Rightarrow> (string ProtocolError, HttpRequest) result" where
  "sign_request ca w rq =
     res_bind (sign_at (ca_mac ca) (wr_nonce w) (ca_secret ca) (req_method rq) (req_path rq) (ca_enc ca rq) (wr_signed_at w))
       (\<lambda>headers. Ok \<lparr>hr_method = req_method rq, hr_path = req_path rq, hr_body = ca_enc ca rq, hr_headers = headers\<rparr>)"

text \<open>The message type a caller decodes from the answer to a request.\<close>

fun resp_name :: "royal_resp \<Rightarrow> string" where
  "resp_name XEmpty = []"
| "resp_name (XAccountExists _ _ _) = ''AccountExists''"
| "resp_name (XRevokeStatus _) = ''RevokeStatus''"
| "resp_name (XTokenEpoch _) = ''TokenEpoch''"
| "resp_name (XDeviceCheck _) = ''DeviceCheckStatus''"
| "resp_name (XInsert _ _ _ _) = ''InsertMessageResp''"
| "resp_name (XIndex _ _) = ''MessageIndexResp''"
| "resp_name (XContent _) = ''MessageContentResp''"
| "resp_name (XGroupCreate _) = ''GroupCreateResp''"
| "resp_name (XGroupMembers _) = ''GroupMembersResp''"
| "resp_name (XGroupDetail _) = ''GroupDetail''"
| "resp_name (XGroupList _) = ''GroupListResp''"
| "resp_name (XProfile _) = ''UserProfile''"
| "resp_name (XUsers _) = ''UserListResp''"
| "resp_name (XSearch _) = ''UserSearchResp''"
| "resp_name (XAccounts _) = ''AccountList''"
| "resp_name (XInbox _) = ''InboxResp''"
| "resp_name (XHistory _) = ''HistoryResp''"
| "resp_name (XReadState _) = ''ConversationReadState''"
| "resp_name (XReadStates _) = ''ConversationStatesResp''"
| "resp_name (XBotRecord _ _) = ''BotCreateResp''"
| "resp_name (XBotConfig _ _ _) = ''InternalBotConfig''"
| "resp_name (XBotPending _) = ''BotPendingResp''"
| "resp_name (XSpecSync _ _) = ''AgentSpecSyncResp''"
| "resp_name (XSpecUpsert _) = ''AgentSpecUpsertResp''"

text \<open>What the caller gets: no response, a response whose body is lost, or a status and a body.\<close>

datatype wire_reply = NoReply | Broken nat | Reply nat "byte list"

definition deliver :: "wire \<Rightarrow> HttpRequest \<Rightarrow> RoyalState \<Rightarrow> wire_reply \<times> RoyalState" where
  "deliver w req st =
     (if wr_fate w = Undelivered then (NoReply, st)
      else
        let ((status, body), st') = royal_http (wr_server w) req st in
        (case wr_fate w of ReplyLost \<Rightarrow> NoReply | BodyLost \<Rightarrow> Broken status | _ \<Rightarrow> Reply status body, st'))"

definition is_success :: "nat \<Rightarrow> bool" where
  "is_success status \<longleftrightarrow> 200 \<le> status \<and> status \<le> 299"

section \<open>The gateway's client\<close>

text \<open>The texts of transport errors are the HTTP library's.\<close>

definition post_pb :: "caller \<Rightarrow> wire \<Rightarrow> royal_req \<Rightarrow> string \<Rightarrow> RoyalState \<Rightarrow> (string, royal_resp) result \<times> RoyalState" where
  "post_pb ca w rq want st =
     (case sign_request ca w rq of
        Inl _ \<Rightarrow> (Err ''invalid hmac secret'', st)
      | Inr req \<Rightarrow>
          (case deliver w req st of
             (NoReply, st') \<Rightarrow> (Err ''transport'', st')
           | (Broken status, st') \<Rightarrow>
               (Err (if is_success status then ''transport'' else ''royal http '' @ show_nat status), st')
           | (Reply status body, st') \<Rightarrow>
               (if \<not> is_success status then Err (''royal http '' @ show_nat status) else ca_dec ca want body, st')))"

definition http_is_revoked :: "caller \<Rightarrow> wire \<Rightarrow> string \<Rightarrow> RoyalState \<Rightarrow> (string, bool) result \<times> RoyalState" where
  "http_is_revoked ca w jti st =
     (let (r, st') = post_pb ca w (RRevokeCheck jti) ''RevokeStatus'' st
      in (res_bind r (\<lambda>x. case x of XRevokeStatus b \<Rightarrow> Ok b | _ \<Rightarrow> Err ''decode''), st'))"

definition http_token_epoch :: "caller \<Rightarrow> wire \<Rightarrow> string \<Rightarrow> RoyalState \<Rightarrow> (string, nat) result \<times> RoyalState" where
  "http_token_epoch ca w account st =
     (let (r, st') = post_pb ca w (RTokenEpoch account) ''TokenEpoch'' st
      in (res_bind r (\<lambda>x. case x of XTokenEpoch n \<Rightarrow> Ok n | _ \<Rightarrow> Err ''decode''), st'))"

definition http_device_ok :: "caller \<Rightarrow> wire \<Rightarrow> string \<Rightarrow> string \<Rightarrow> RoyalState \<Rightarrow> (string, bool) result \<times> RoyalState" where
  "http_device_ok ca w account did st =
     (let (r, st') = post_pb ca w (RDeviceCheck account did []) ''DeviceCheckStatus'' st
      in (res_bind r (\<lambda>x. case x of XDeviceCheck b \<Rightarrow> Ok b | _ \<Rightarrow> Err ''decode''), st'))"

text \<open>The gateway's revocation store while Royal is in a state \<open>st\<close>: the three questions, each on a request of its own.\<close>

definition HttpRevoke :: "caller \<Rightarrow> (nat \<Rightarrow> wire) \<Rightarrow> RoyalState \<Rightarrow> RevokeCheck" where
  "HttpRevoke ca w st =
     \<lparr>rv_is_revoked = \<lambda>jti. fst (http_is_revoked ca (w 0) jti st),
      rv_token_epoch = \<lambda>account. fst (http_token_epoch ca (w 1) account st),
      rv_device_ok = \<lambda>account did. fst (http_device_ok ca (w 2) account did st)\<rparr>"

section \<open>Lemmas\<close>

text \<open>The codecs of the caller and the server agree on a request and on every answer to it.\<close>

definition codecs_agree :: "caller \<Rightarrow> wire \<Rightarrow> royal_req \<Rightarrow> bool" where
  "codecs_agree ca w rq \<longleftrightarrow>
     ry_dec (wr_server w) (req_method rq) (req_path rq) (ca_enc ca rq) = Ok rq
     \<and> (\<forall>x \<in> range (\<lambda>st. fst (handle (wr_server w) rq st)). \<forall>r. x = Ok r \<longrightarrow>
           ca_dec ca (resp_name r) (ry_enc_resp (wr_server w) r) = Ok r)"

lemma codecs_agreeD:
  assumes "codecs_agree ca w rq"
  shows "ry_dec (wr_server w) (req_method rq) (req_path rq) (ca_enc ca rq) = Ok rq"
    and "fst (handle (wr_server w) rq st) = Ok r \<Longrightarrow> ca_dec ca (resp_name r) (ry_enc_resp (wr_server w) r) = Ok r"
  using assms unfolding codecs_agree_def by (metis rangeI)+

text \<open>What a served request does to the state: nothing beyond the nonce guard, or the work of its endpoint.\<close>

lemma royal_http_cases:
  obtains (denied) seen where "snd (royal_http env req st) = st\<lparr>ro_nonce := seen\<rparr>" "fst (fst (royal_http env req st)) \<in> {401, 413, 503, 400}"
  | (served) seen rq where "ry_dec env (hr_method req) (hr_path req) (hr_body req) = Ok rq"
      "snd (royal_http env req st) = snd (handle env rq (st\<lparr>ro_nonce := seen\<rparr>))"
      "fst (royal_http env req st) = (case fst (handle env rq (st\<lparr>ro_nonce := seen\<rparr>)) of
         Inl (status, msg) \<Rightarrow> (status, bytes_of_str msg) | Inr x \<Rightarrow> (success_status rq, ry_enc_resp env x))"
proof -
  obtain r seen where h: "require_hmac (ry_mac env) (ro_hmac_secret st) (ry_epoch env) (ry_instant env) req (ro_nonce st) = (r, seen)" by fastforce
  show thesis
  proof (cases r)
    case (Inl d)
    then show thesis using h by (intro denied[of seen]; cases d) (simp_all add: royal_http_def deny_status_def)
  next
    case (Inr u)
    show thesis
    proof (cases "ry_dec env (hr_method req) (hr_path req) (hr_body req)")
      case (Inl e)
      then show thesis using h Inr by (intro denied[of seen]) (simp_all add: royal_http_def Let_def)
    next
      case (Inr rq)
      then show thesis
        using h \<open>r = Inr u\<close> by (intro served[of rq seen])
          (auto simp: royal_http_def Let_def split: prod.splits sum.splits)
    qed
  qed
qed

lemma resp_kinds:
  "fst (handle env (RRevokeCheck j) st) = Ok x \<Longrightarrow> resp_name x = ''RevokeStatus''"
  "fst (handle env (RTokenEpoch a) st) = Ok x \<Longrightarrow> resp_name x = ''TokenEpoch''"
  "fst (handle env (RDeviceCheck a d c) st) = Ok x \<Longrightarrow> resp_name x = ''DeviceCheckStatus''"
  by (auto simp: ep_revoke_check_def ep_token_epoch_def ep_device_check_def revoke_check_def token_epoch_check_def Let_def
      split: prod.splits if_splits sum.splits simp: res_bind_eq_Inr)

text \<open>When the gateway reads an answer, it is the endpoint's answer on the state it asked.\<close>

lemma post_pb_Ok:
  assumes "fst (post_pb ca w rq want st) = Ok x" "codecs_agree ca w rq"
    and want: "\<And>seen y. fst (handle (wr_server w) rq (st\<lparr>ro_nonce := seen\<rparr>)) = Ok y \<Longrightarrow> resp_name y = want"
    and errs: "\<And>seen status msg. fst (handle (wr_server w) rq (st\<lparr>ro_nonce := seen\<rparr>)) = Err (status, msg) \<Longrightarrow> \<not> is_success status"
  shows "\<exists>seen. fst (handle (wr_server w) rq (st\<lparr>ro_nonce := seen\<rparr>)) = Ok x"
proof -
  obtain req where rq: "sign_request ca w rq = Ok req" using assms(1) by (auto simp: post_pb_def split: sum.splits)
  have req: "hr_method req = req_method rq" "hr_path req = req_path rq" "hr_body req = ca_enc ca rq"
    using rq by (auto simp: sign_request_def res_bind_eq_Inr)
  obtain status body where r: "fst (royal_http (wr_server w) req st) = (status, body)" "is_success status" "ca_dec ca want body = Ok x"
    using assms(1) rq
    by (auto simp: post_pb_def deliver_def Let_def split: prod.splits wire_fate.splits if_splits)
  show ?thesis
  proof (cases rule: royal_http_cases[of "wr_server w" req st])
    case (denied seen)
    then show ?thesis using r(1,2) by (auto simp: is_success_def)
  next
    case (served seen rq')
    have "rq' = rq" using served(1) req codecs_agreeD(1)[OF assms(2)] by simp
    note h = served(3)[unfolded \<open>rq' = rq\<close> r(1)]
    obtain y where y: "fst (handle (wr_server w) rq (st\<lparr>ro_nonce := seen\<rparr>)) = Ok y"
      using h r(2) errs[of seen] by (cases "fst (handle (wr_server w) rq (st\<lparr>ro_nonce := seen\<rparr>))") (auto split: prod.splits)
    then have "ca_dec ca want body = Ok y" using h codecs_agreeD(2)[OF assms(2) y] want[OF y] by simp
    then show ?thesis using y r(3) by auto
  qed
qed

end
