(* ===== verification/Kim_Royal_Live.thy ===== *)
theory Kim_Royal_Live
  imports Kim_Royal_Wire
begin

text \<open>
  What becomes of a token: everything the Royal service can do, the accounts it keeps, who gets a token,
  and how a password change and a logout end one, for Royal itself and for the gateway that asks it.
\<close>

section \<open>Everything the service does\<close>

inductive royal_step :: "RoyalState \<Rightarrow> RoyalState \<Rightarrow> bool" where
  register: "royal_step st (snd (register env body st))"
| login: "royal_step st (snd (login env body st))"
| logout: "royal_step st (fst (snd (logout env hdr st)))"
| me: "royal_step st (snd (me env hdr st))"
| change: "royal_step st (fst (snd (change_password env hdr body st)))"
| request: "royal_step st (snd (royal_http renv req st))"

text \<open>The service starts with an empty user directory and nothing revoked, in any configuration.\<close>

inductive royal_reach :: "RoyalState \<Rightarrow> bool" where
  start: "ro_users st = user_dir_new None \<Longrightarrow> ro_revoke st = revocation_new \<Longrightarrow> royal_reach st"
| step: "royal_reach st \<Longrightarrow> royal_step st st' \<Longrightarrow> royal_reach st'"

section \<open>Accounts are kept\<close>

definition accounts_kept :: "MemoryUserDirectory \<Rightarrow> MemoryUserDirectory \<Rightarrow> bool" where
  "accounts_kept d d' \<longleftrightarrow> (users_inv d \<longrightarrow> users_inv d' \<and> (\<forall>k r. hget (ud_inner d) k = Some r \<longrightarrow> ur_kind r \<noteq> PROFILE_KIND_BOT \<longrightarrow>
     (\<exists>r'. hget (ud_inner d') k = Some r' \<and> ur_kind r' = ur_kind r \<and> ur_token_epoch r \<le> ur_token_epoch r')))"

lemma accounts_kept_refl [simp]: "accounts_kept d d"
  by (auto simp: accounts_kept_def)

lemma accounts_kept_trans: "accounts_kept d d' \<Longrightarrow> accounts_kept d' d'' \<Longrightarrow> accounts_kept d d''"
  unfolding accounts_kept_def by (fastforce intro: le_trans)

lemma accounts_kept_step: "user_step d d' \<Longrightarrow> accounts_kept d d'"
  using user_step_inv user_step_keeps unfolding accounts_kept_def by blast

lemma accounts_kept_social [simp]:
  "accounts_kept (d\<lparr>ud_social := x\<rparr>) d' = accounts_kept d d'" "accounts_kept d (d'\<lparr>ud_social := x\<rparr>) = accounts_kept d d'"
  by (simp_all add: accounts_kept_def users_inv_def)

lemma accounts_keptD:
  assumes "accounts_kept d d'" "users_inv d"
  shows "users_inv d'" "hget (ud_inner d) k = Some r \<Longrightarrow> ur_kind r \<noteq> PROFILE_KIND_BOT \<Longrightarrow>
     \<exists>r'. hget (ud_inner d') k = Some r' \<and> ur_kind r' = ur_kind r \<and> ur_token_epoch r \<le> ur_token_epoch r'"
  using assms unfolding accounts_kept_def by blast+

lemma create_bot_kept: "accounts_kept d (snd (create_bot idgen app req d))"
proof -
  obtain r d' where c: "create_bot idgen app req d = (r, d')" by fastforce
  then show ?thesis
  proof (cases rule: create_bot_cases)
    case (touch account rec config)
    then show ?thesis using c accounts_kept_step[OF user_step.touch] by simp
  next
    case (new next_id draft config)
    then show ?thesis using c accounts_kept_step[OF user_step.commit[OF new(4)]] by simp
  qed (use c in simp)
qed

lemma update_bot_kept: "accounts_kept d (snd (update_bot app owner account patch d))"
  unfolding update_bot_def
  by (auto split: sum.splits prod.splits intro!: accounts_kept_step intro: user_step.write_bot)

section \<open>What a request changes\<close>

definition same_config :: "RoyalState \<Rightarrow> RoyalState \<Rightarrow> bool" where
  "same_config st st' \<longleftrightarrow> ro_app st' = ro_app st \<and> ro_jwt st' = ro_jwt st \<and> ro_hmac_secret st' = ro_hmac_secret st"

definition step_kept :: "RoyalState \<Rightarrow> RoyalState \<Rightarrow> bool" where
  "step_kept st st' \<longleftrightarrow> same_config st st' \<and> accounts_kept (ro_users st) (ro_users st')"

lemma step_keptI: "same_config st st' \<Longrightarrow> accounts_kept (ro_users st) (ro_users st') \<Longrightarrow> step_kept st st'"
  by (simp add: step_kept_def)

lemma step_kept_trans: "step_kept st st' \<Longrightarrow> step_kept st' st'' \<Longrightarrow> step_kept st st''"
  unfolding step_kept_def same_config_def by (auto intro: accounts_kept_trans)

lemma step_kept_refl [simp]: "step_kept st st"
  by (simp add: step_kept_def same_config_def)

lemma put_dirs_fields [simp]:
  "ro_users (put_dirs s st) = ch_users s" "ro_app (put_dirs s st) = ro_app st" "ro_jwt (put_dirs s st) = ro_jwt st"
  "ro_hmac_secret (put_dirs s st) = ro_hmac_secret st" "ro_revoke (put_dirs s st) = ro_revoke st" "ch_users (dirs st) = ro_users st"
  by (simp_all add: put_dirs_def dirs_def)

named_theorems kept_rules

lemma refuse_kept [kept_rules]: "step_kept st (snd (Err e, st))" "step_kept st (snd (Ok x, st))"
  by simp_all

lemma on_read_kept [kept_rules]: "step_kept st (snd (on_read f err out st))"
  by (simp add: on_read_def split: sum.splits)

lemma on_write_kept [kept_rules]: "accounts_kept (ro_users st) (ch_users (snd (f (dirs st)))) \<Longrightarrow> step_kept st (snd (on_write f err out st))"
  by (auto simp: on_write_def step_kept_def same_config_def split: prod.splits sum.splits)

lemma if_kept [kept_rules]: "(b \<Longrightarrow> step_kept st (snd p)) \<Longrightarrow> (\<not> b \<Longrightarrow> step_kept st (snd q)) \<Longrightarrow> step_kept st (snd (if b then p else q))"
  by simp

lemma case_kept [kept_rules]:
  "(\<And>e. r = Inl e \<Longrightarrow> step_kept st (snd (f e))) \<Longrightarrow> (\<And>v. r = Inr v \<Longrightarrow> step_kept st (snd (g v))) \<Longrightarrow>
     step_kept st (snd (case r of Inl e \<Rightarrow> f e | Inr v \<Rightarrow> g v))"
  "(x = None \<Longrightarrow> step_kept st (snd n)) \<Longrightarrow> (\<And>y. x = Some y \<Longrightarrow> step_kept st (snd (h y))) \<Longrightarrow>
     step_kept st (snd (case x of None \<Rightarrow> n | Some y \<Rightarrow> h y))"
  by (auto split: sum.splits option.splits)

text \<open>The operations of the directories and the store on the accounts.\<close>

lemma users_untouched [simp]:
  "ch_users (snd (on_store f s)) = ch_users s"
  "ch_users (use_ids n s) = ch_users s"
  "ch_users (snd (gd_group_create memory_groups app g s)) = ch_users s"
  "ch_users (snd (gd_group_join memory_groups app gid a s)) = ch_users s"
  "ch_users (snd (gd_group_quit memory_groups app gid a s)) = ch_users s"
  "ch_users (snd (sd_request memory_social app a b s)) = ch_users s"
  "ch_users (snd (sd_accept memory_social app a b s)) = ch_users s"
  "ch_users (snd (sd_reject memory_social app a b s)) = ch_users s"
  "ch_users (snd (sd_remove memory_social app a b s)) = ch_users s"
  "ch_users (snd (sd_block memory_social app a b s)) = ch_users s"
  "ch_users (snd (sd_unblock memory_social app a b s)) = ch_users s"
  "ch_users (snd (sp_spec_upsert memory_specs app a rec s)) = ch_users s"
  "ch_users (snd (sp_account_upsert memory_specs app a acc s)) = ch_users s"
  by (simp_all add: on_store_def use_ids_def memory_groups_def memory_social_def memory_specs_def Let_def split_beta)

lemma users_untouched_store [simp]:
  "ch_users (snd (mst_insert (memory_store now unix) app kind im ms s)) = ch_users s"
  "ch_users (snd (mst_insert_bot_reply (memory_store now unix) app o' b irt im s)) = ch_users s"
  "ch_users (snd (mst_store_ack (memory_store now unix) app a t ids s)) = ch_users s"
  "ch_users (snd (mst_offline_index (memory_store now unix) app a t mid resume s)) = ch_users s"
  "ch_users (snd (mst_backfill (memory_store now unix) app a t s)) = ch_users s"
  "ch_users (snd (mst_mark_read (memory_store now unix) app a d kind mid s)) = ch_users s"
  "ch_users (snd (mst_purge (memory_store now unix) app a b s)) = ch_users s"
  by (simp_all add: memory_store_def Let_def split_beta)

lemma with_social_kept:
  assumes "\<And>d. accounts_kept d (snd (f d))"
  shows "accounts_kept (ch_users s) (ch_users (snd (with_social f s)))"
  using assms[of "(ch_users s)\<lparr>ud_social := Some (ch_social s)\<rparr>"] by (auto simp: with_social_def Let_def split: prod.splits)

lemma users_kept [kept_rules]:
  "accounts_kept (ch_users s) (ch_users (snd (us_upsert memory_users app a s)))"
  "accounts_kept (ch_users s) (ch_users (snd (us_update_profile memory_users app a patch s)))"
  "accounts_kept (ch_users s) (ch_users (snd (us_create_bot memory_users app req s)))"
  "accounts_kept (ch_users s) (ch_users (snd (us_update_bot memory_users app a b bpatch s)))"
  "accounts_kept (ch_users s) (ch_users (snd (us_delete_bot memory_users app a b s)))"
  using accounts_kept_step[OF user_step.upsert] accounts_kept_step[OF user_step.profile] update_bot_kept
    with_social_kept[OF create_bot_kept] with_social_kept[of "delete_bot app a b", OF accounts_kept_step[OF user_step.delete]]
  by (simp_all add: memory_users_def Let_def split_beta)

lemma users_kept_dirs [kept_rules]:
  "accounts_kept (ro_users st) (ch_users (snd (us_upsert memory_users app a (dirs st))))"
  "accounts_kept (ro_users st) (ch_users (snd (us_update_profile memory_users app a patch (dirs st))))"
  "accounts_kept (ro_users st) (ch_users (snd (us_create_bot memory_users app req (dirs st))))"
  "accounts_kept (ro_users st) (ch_users (snd (us_update_bot memory_users app a b bpatch (dirs st))))"
  "accounts_kept (ro_users st) (ch_users (snd (us_delete_bot memory_users app a b (dirs st))))"
  using users_kept[of "dirs st"] by simp_all

lemma guards_kept [kept_rules]:
  "step_kept st (snd (k st)) \<Longrightarrow> step_kept st (snd (require_app app k st))"
  "step_kept st (snd (k st)) \<Longrightarrow> step_kept st (snd (require_owner o' k st))"
  "step_kept st (snd (k st)) \<Longrightarrow> step_kept st (snd (unless_bot a b k st))"
  by (simp_all add: require_app_def require_owner_def unless_bot_def split: sum.splits)

lemma account_epoch_kept: "step_kept st (snd (account_epoch a st))"
  by (simp add: account_epoch_def Let_def step_kept_def same_config_def)

lemma revoke_kept: "step_kept st (st\<lparr>ro_revoke := r\<rparr>)" "step_kept st (st\<lparr>ro_nonce := n\<rparr>)"
  by (simp_all add: step_kept_def same_config_def)

lemma gate_questions_kept:
  "step_kept st (snd (ep_revoke_check env j st))"
  "step_kept st (snd (ep_token_epoch a st))"
  "step_kept st (snd (ep_device_check env a d c st))"
  using account_epoch_kept[of st a]
  by (auto simp: ep_revoke_check_def ep_token_epoch_def ep_device_check_def revoke_check_def token_epoch_check_def is_revoked_def Let_def
      revoke_kept split: prod.splits)

lemma bot_delete_kept: "step_kept st (snd (ep_bot_delete env a b st))"
proof -
  obtain r s where d: "us_delete_bot memory_users (ro_app st) a b (dirs st) = (r, s)" by fastforce
  have k: "step_kept st (put_dirs s st)"
    using users_kept_dirs(5)[of st "ro_app st" a b] d by (auto simp: step_kept_def same_config_def)
  have "step_kept (put_dirs s st) (snd (on_write (mst_purge (royal_store env) (ro_app st) a b) store_http (\<lambda>_. XAccountExists True 0 []) (put_dirs s st)))"
    by (rule on_write_kept) simp
  then show ?thesis using d k step_kept_trans[OF k] by (auto simp: ep_bot_delete_def split: sum.splits)
qed

lemma spec_upsert_kept: "step_kept st (snd (ep_spec_upsert o' rec acc st))"
proof -
  define p where "p = (case acc of None \<Rightarrow> (Ok (), dirs st)
      | Some a \<Rightarrow> (let (r, s) = sp_account_upsert memory_specs (ro_app st) o' a (dirs st) in (res_bind r (\<lambda>_. Ok ()), s)))"
  have p: "step_kept st (put_dirs (snd p) st)"
    by (auto simp: p_def step_kept_def same_config_def Let_def split_beta split: option.splits)
  have "step_kept st (snd (on_write (sp_spec_upsert memory_specs (ro_app st) o' r) spec_http (\<lambda>x. XSpecUpsert (Some x)) (put_dirs (snd p) st)))" for r
    by (rule step_kept_trans[OF p on_write_kept]) simp
  then show ?thesis
    using p unfolding ep_spec_upsert_def require_owner_def p_def[symmetric]
    by (auto split: prod.splits sum.splits option.splits)
qed

lemma message_endpoints_kept:
  "step_kept st (snd (ep_insert_user env r st))"
  "step_kept st (snd (ep_insert_group env r st))"
  "step_kept st (snd (ep_ack env k st))"
  "step_kept st (snd (ep_offline_index env i st))"
  "step_kept st (snd (ep_backfill env app a t st))"
  "step_kept st (snd (ep_offline_content env app a ids st))"
  "step_kept st (snd (ep_inbox_list env a l st))"
  "step_kept st (snd (ep_history env a d n bid l st))"
  "step_kept st (snd (ep_inbox_read env a d n mid st))"
  "step_kept st (snd (ep_inbox_states env a ks st))"
  unfolding ep_insert_user_def ep_insert_group_def ep_ack_def ep_offline_index_def ep_backfill_def ep_offline_content_def
    ep_inbox_list_def ep_history_def ep_inbox_read_def ep_inbox_states_def
  by (intro kept_rules; simp)+

lemma directory_endpoints_kept:
  "step_kept st (snd (ep_group_create app g st))"
  "step_kept st (snd (ep_group_join app gid a st))"
  "step_kept st (snd (ep_group_quit app gid a st))"
  "step_kept st (snd (ep_group_members app gid st))"
  "step_kept st (snd (ep_group_detail app gid st))"
  "step_kept st (snd (ep_group_summaries app gids st))"
  "step_kept st (snd (ep_user_lookup a st))"
  "step_kept st (snd (ep_user_upsert a st))"
  "step_kept st (snd (ep_user_profile a st))"
  "step_kept st (snd (ep_user_update a patch st))"
  "step_kept st (snd (ep_user_profiles accs st))"
  "step_kept st (snd (ep_user_search q ex l st))"
  unfolding ep_group_create_def ep_group_join_def ep_group_quit_def ep_group_members_def ep_group_detail_def
    ep_group_summaries_def ep_user_lookup_def ep_user_upsert_def ep_user_profile_def ep_user_update_def ep_user_profiles_def ep_user_search_def
  by (intro kept_rules; simp)+

lemma social_endpoints_kept:
  "step_kept st (snd (ep_friend_request a b st))"
  "step_kept st (snd (ep_friend_accept a b st))"
  "step_kept st (snd (ep_friend_reject a b st))"
  "step_kept st (snd (ep_friend_remove a b st))"
  "step_kept st (snd (ep_friend_list a st))"
  "step_kept st (snd (ep_friend_incoming a st))"
  "step_kept st (snd (ep_friend_check a b st))"
  "step_kept st (snd (ep_block_add a b st))"
  "step_kept st (snd (ep_block_remove a b st))"
  "step_kept st (snd (ep_block_list a st))"
  "step_kept st (snd (ep_block_check a b st))"
  unfolding ep_friend_request_def ep_friend_accept_def ep_friend_reject_def ep_friend_remove_def ep_friend_list_def
    ep_friend_incoming_def ep_friend_check_def ep_block_add_def ep_block_remove_def ep_block_list_def ep_block_check_def
  by (intro kept_rules; simp)+

lemma bot_endpoints_kept:
  "step_kept st (snd (ep_bot_create req st))"
  "step_kept st (snd (ep_purge_dm env a b st))"
  "step_kept st (snd (ep_bot_update o' a bpatch st))"
  "step_kept st (snd (ep_bot_config o' a st))"
  "step_kept st (snd (ep_bot_reply env o' b irt ins st))"
  "step_kept st (snd (ep_bot_pending env o' b l st))"
  "step_kept st (snd (ep_spec_sync o' st))"
  unfolding ep_bot_create_def ep_purge_dm_def ep_bot_update_def ep_bot_config_def ep_bot_reply_def ep_bot_pending_def ep_spec_sync_def
  by (intro kept_rules; simp)+

lemmas endpoints_kept = message_endpoints_kept directory_endpoints_kept social_endpoints_kept bot_endpoints_kept gate_questions_kept
  bot_delete_kept spec_upsert_kept

lemma handle_kept: "step_kept st (snd (handle env rq st))"
  by (cases rq) (simp_all add: endpoints_kept)

lemma http_kept: "step_kept st (snd (royal_http env req st))"
proof (cases rule: royal_http_cases[of env req st])
  case (denied seen)
  then show ?thesis by (simp add: revoke_kept)
next
  case (served seen rq)
  then show ?thesis using step_kept_trans[OF revoke_kept(2) handle_kept] by simp
qed

section \<open>What the account endpoints change\<close>

lemma finish_auth_state:
  "ro_users (snd (finish_auth env account req st)) = ro_users st" "same_config st (snd (finish_auth env account req st))"
  by (auto simp: finish_auth_def bind_device_def Let_def same_config_def split: prod.splits sum.splits option.splits if_splits)

lemma live_claims_state:
  "ro_users (snd (live_claims env hdr st)) = ro_users st" "same_config st (snd (live_claims env hdr st))"
  by (auto simp: live_claims_def account_epoch_def Let_def same_config_def is_revoked_def split: prod.splits sum.splits option.splits if_splits)

lemma revoke_bearer_state [simp]:
  "ro_users (revoke_bearer env c st) = ro_users st" "ro_app (revoke_bearer env c st) = ro_app st" "ro_jwt (revoke_bearer env c st) = ro_jwt st"
  "ro_hmac_secret (revoke_bearer env c st) = ro_hmac_secret st"
  by (auto simp: revoke_bearer_def split: option.splits)

lemma register_kept: "step_kept st (snd (register env body st))"
proof -
  have k: "step_kept st (st\<lparr>ro_users := snd (user_create app a h (ro_users st))\<rparr>)" for app a h
    using accounts_kept_step[OF user_step.create] by (simp add: step_kept_def same_config_def)
  have f: "step_kept st (snd (finish_auth env a req (st\<lparr>ro_users := snd (user_create app a h (ro_users st))\<rparr>)))" for app a h req
    using k[of app a h] finish_auth_state[where st = "st\<lparr>ro_users := snd (user_create app a h (ro_users st))\<rparr>"]
    by (simp add: step_kept_def same_config_def)
  show ?thesis
    unfolding register_def
  proof (intro kept_rules)
    fix req a pw h
    show "step_kept st (snd (case user_create (ro_app st) a h (ro_users st) of
        (Inl UserConflict, d) \<Rightarrow> (Err (409, ACCOUNT_TAKEN), st\<lparr>ro_users := d\<rparr>)
      | (Inl UserMissing, d) \<Rightarrow> (Err (500, ''create''), st\<lparr>ro_users := d\<rparr>)
      | (Inl InvalidProfile, d) \<Rightarrow> (Err (500, ''create''), st\<lparr>ro_users := d\<rparr>)
      | (Inl UserLimit, d) \<Rightarrow> (Err (500, ''create''), st\<lparr>ro_users := d\<rparr>)
      | (Inl UserNotBotOwner, d) \<Rightarrow> (Err (500, ''create''), st\<lparr>ro_users := d\<rparr>)
      | (Inl (UserBackend e), d) \<Rightarrow> (Err (500, e), st\<lparr>ro_users := d\<rparr>)
      | (Inr x, d) \<Rightarrow> finish_auth env a req (st\<lparr>ro_users := d\<rparr>)))"
      using k[of "ro_app st" a h] f[of a req "ro_app st" h]
      by (cases "user_create (ro_app st) a h (ro_users st)") (auto split: sum.splits UserError.splits)
  qed
qed

lemma login_kept: "step_kept st (snd (login env body st))"
  unfolding login_def using finish_auth_state[where st = st]
  by (auto split: sum.splits option.splits bool.splits simp: step_kept_def same_config_def)

lemma live_claims_kept: "step_kept st (snd (live_claims env hdr st))"
  using live_claims_state by (simp add: step_kept_def)

lemma me_kept: "step_kept st (snd (me env hdr st))"
  using live_claims_kept[of st env hdr] by (auto simp: me_def split: prod.splits sum.splits)

lemma logout_kept: "step_kept st (fst (snd (logout env hdr st)))"
  by (auto simp: logout_def Let_def step_kept_def same_config_def split: sum.splits)

lemma change_kept: "step_kept st (fst (snd (change_password env hdr body st)))"
proof -
  obtain r st1 where l: "live_claims env hdr st = (r, st1)" by fastforce
  have k: "step_kept st st1" using live_claims_kept[of st env hdr] l by simp
  have b: "step_kept st1 (st1\<lparr>ro_users := snd (set_password_and_bump_epoch app a h (ro_users st1)), ro_revoke := v\<rparr>)"
    "step_kept st1 (st1\<lparr>ro_users := snd (set_password_and_bump_epoch app a h (ro_users st1))\<rparr>)"
    "step_kept st1 (revoke_bearer env c (st1\<lparr>ro_users := snd (set_password_and_bump_epoch app a h (ro_users st1)), ro_revoke := v\<rparr>))" for app a h v c
    using accounts_kept_step[OF user_step.password_bump] by (simp_all add: step_kept_def same_config_def)
  show ?thesis
    unfolding change_password_def l prod.case Let_def
    using k step_kept_trans[OF k b(1)] step_kept_trans[OF k b(2)] step_kept_trans[OF k b(3)]
    by (auto split: sum.splits option.splits bool.splits prod.splits) (metis snd_conv)+
qed

lemma royal_step_kept: "royal_step st st' \<Longrightarrow> step_kept st st'"
  by (induction rule: royal_step.induct)
    (simp_all add: register_kept login_kept logout_kept me_kept change_kept http_kept)

lemma royal_steps_kept: "royal_step\<^sup>*\<^sup>* st st' \<Longrightarrow> step_kept st st'"
  by (induction rule: rtranclp_induct) (auto intro: step_kept_trans royal_step_kept)

lemma royal_reach_inv: "royal_reach st \<Longrightarrow> users_inv (ro_users st)"
proof (induction rule: royal_reach.induct)
  case (start st)
  then show ?case using user_reach_inv[OF user_reach.start] by simp
next
  case (step st st')
  then show ?case using royal_step_kept accounts_keptD(1) unfolding step_kept_def by blast
qed

section \<open>Who gets a token\<close>

text \<open>The claims of an issued token.\<close>

definition issued_claims :: "auth_env \<Rightarrow> string \<Rightarrow> string option \<Rightarrow> RoyalState \<Rightarrow> Claims" where
  "issued_claims env account did st =
     \<lparr>cl_account = account, cl_app = ro_app st, cl_exp = i64_saturating_add (ae_now env) (token_ttl st),
      cl_jti = nonblank (Some (ae_jti env)), cl_ver = token_epoch (ro_app st) account (ro_users st), cl_did = nonblank did\<rparr>"

text \<open>A device: the one its presented credential belongs to, a new one on request, or none.\<close>

definition device_bound :: "auth_env \<Rightarrow> string \<Rightarrow> AuthReq \<Rightarrow> RoyalState \<Rightarrow> string option \<Rightarrow> string \<Rightarrow> bool" where
  "device_bound env account req st did secret \<longleftrightarrow>
     (let cred = trim (aq_device_credential req) in
      if cred \<noteq> [] then secret = [] \<and> (\<exists>rec. did = Some (dv_device_id rec)
           \<and> device_lookup_hash (ro_app st) account (hash_secret (ae_crypto env) cred) (ro_devices st) = Some rec)
      else if aq_enroll_device req then did = Some (ae_device_id env) \<and> secret = ae_secret env
      else did = None \<and> secret = [])"

lemma account_checked:
  assumes "valid_account raw = Ok account"
  shows "check_account account = Ok ()" "AccountId_parse raw = (Ok account :: (unit ProtocolError, string) result)"
proof -
  show a: "AccountId_parse raw = (Ok account :: (unit ProtocolError, string) result)"
    using assms AccountId_parse_Ok[of raw] by (auto simp: valid_account_def split: sum.splits)
  have "\<not> is_ascii_control c" if "account_char c" for c
    using that by (auto simp: account_char_def is_ascii_alnum_def is_ascii_control_def)
  then show "check_account account = Ok ()"
    using AccountId_parse_Ok[OF a] by (auto simp: check_account_def list_all_iff list_ex_iff)
qed

lemma issue_Ok:
  assumes "check_account account = (Ok () :: (string ProtocolError, unit) result)"
  shows "issue env account did secret st = Ok ans \<longleftrightarrow>
     (\<exists>token. ae_jwt_enc env (jc_secret (ro_jwt st)) (issued_claims env account did st) = Ok token
       \<and> ans = \<lparr>ar_token = token, ar_exp = i64_saturating_add (ae_now env) (token_ttl st), ar_account = account,
                 ar_device_id = or_blank did, ar_device_credential = or_blank secret\<rparr>)"
  using assms by (auto simp: issue_def issued_claims_def generate_with_device_def Let_def res_bind_eq_Inr split: sum.splits)

lemma issued_claims_kept:
  "ro_users st' = ro_users st \<Longrightarrow> same_config st st' \<Longrightarrow> issued_claims env account did st' = issued_claims env account did st"
  by (simp add: issued_claims_def same_config_def token_ttl_def)

lemma bind_device_cases:
  "fst (bind_device env account req st) = Ok bound \<longleftrightarrow>
     (\<exists>did secret. device_bound env account req st did secret
       \<and> bound = (case did of None \<Rightarrow> None | Some i \<Rightarrow> Some (i, if trim (aq_device_credential req) \<noteq> [] then None else Some secret)))"
  by (auto simp: bind_device_def device_bound_def Let_def split: option.splits)

lemma bind_device_state:
  "ro_users (snd (bind_device env account req st)) = ro_users st" "same_config st (snd (bind_device env account req st))"
  by (auto simp: bind_device_def Let_def same_config_def split: option.splits)

lemma finish_auth_Ok:
  assumes "check_account account = (Ok () :: (string ProtocolError, unit) result)"
  shows "fst (finish_auth env account req st) = Ok ans \<longleftrightarrow>
     (\<exists>did secret token. device_bound env account req st did secret
       \<and> ae_jwt_enc env (jc_secret (ro_jwt st)) (issued_claims env account did st) = Ok token
       \<and> ans = \<lparr>ar_token = token, ar_exp = i64_saturating_add (ae_now env) (token_ttl st), ar_account = account,
                 ar_device_id = or_blank did, ar_device_credential = secret\<rparr>)"
proof -
  obtain b st' where b: "bind_device env account req st = (b, st')" by fastforce
  have st': "ro_users st' = ro_users st" "same_config st st'"
    using bind_device_state(1)[of env account req st] bind_device_state(2)[of st env account req] b by simp_all
  have i: "issue env account did secret st' = Ok ans \<longleftrightarrow>
     (\<exists>token. ae_jwt_enc env (jc_secret (ro_jwt st)) (issued_claims env account did st) = Ok token
       \<and> ans = \<lparr>ar_token = token, ar_exp = i64_saturating_add (ae_now env) (token_ttl st), ar_account = account,
                 ar_device_id = or_blank did, ar_device_credential = or_blank secret\<rparr>)" for did secret
    using issue_Ok[OF assms, of env did secret st' ans] issued_claims_kept[OF st'] st'(2) by (simp add: same_config_def token_ttl_def)
  have bo: "b = Ok bound \<longleftrightarrow> (\<exists>did secret. device_bound env account req st did secret
       \<and> bound = (case did of None \<Rightarrow> None | Some i \<Rightarrow> Some (i, if trim (aq_device_credential req) \<noteq> [] then None else Some secret)))" for bound
    using bind_device_cases[of env account req st bound] b by simp
  have sec: "secret = []" if "device_bound env account req st did secret" "did = None \<or> trim (aq_device_credential req) \<noteq> []" for did secret
    using that by (auto simp: device_bound_def Let_def split: if_splits)
  have uniq: "did = did' \<and> secret = secret'" if "device_bound env account req st did secret" "device_bound env account req st did' secret'"
    for did secret did' secret'
    using that by (auto simp: device_bound_def Let_def split: if_splits)
  show ?thesis
  proof (cases b)
    case (Inl e)
    then show ?thesis using b bo by (auto simp: finish_auth_def)
  next
    case (Inr bound)
    then obtain did secret where d: "device_bound env account req st did secret"
      "bound = (case did of None \<Rightarrow> None | Some i \<Rightarrow> Some (i, if trim (aq_device_credential req) \<noteq> [] then None else Some secret))"
      using bo by blast
    define given where "given = (if did = None \<or> trim (aq_device_credential req) \<noteq> [] then None else Some secret)"
    have blank: "or_blank given = secret" using sec[OF d(1)] by (auto simp: given_def or_blank_def)
    have "fst (finish_auth env account req st) = issue env account did given st'"
      using b Inr d(2) by (auto simp: finish_auth_def given_def split: option.splits)
    then have "fst (finish_auth env account req st) = Ok ans \<longleftrightarrow>
       (\<exists>token. ae_jwt_enc env (jc_secret (ro_jwt st)) (issued_claims env account did st) = Ok token
         \<and> ans = \<lparr>ar_token = token, ar_exp = i64_saturating_add (ae_now env) (token_ttl st), ar_account = account,
                   ar_device_id = or_blank did, ar_device_credential = secret\<rparr>)"
      unfolding blank[symmetric] using i[of did given] by simp
    then show ?thesis using d(1) uniq[OF d(1)] by metis
  qed
qed


section \<open>The end of a token\<close>

text \<open>A token binds its claims: whatever decodes from it is what was signed.\<close>

definition jwt_binds :: "jwt_encode \<Rightarrow> jwt_decode \<Rightarrow> string \<Rightarrow> string \<Rightarrow> bool" where
  "jwt_binds enc dec secret token \<longleftrightarrow> (\<forall>c c'. enc secret c = Ok token \<longrightarrow> dec secret token = Ok c' \<longrightarrow> c' = c)"

text \<open>The account of an issued token exists and is not a bot, and the token carries its epoch.\<close>

lemma issued_facts:
  assumes "login env body st = (Ok ans, st') \<or> register env body st = (Ok ans, st')"
  obtains c rec where "ae_jwt_enc env (jc_secret (ro_jwt st')) c = Ok (ar_token ans)" "cl_account c = ar_account ans"
    "hget (ud_inner (ro_users st')) (ro_app st', ar_account ans) = Some rec" "ur_kind rec \<noteq> PROFILE_KIND_BOT" "cl_ver c = ur_token_epoch rec"
proof -
  note fact = that
  have step: thesis
    if f: "finish_auth env account req st0 = (Ok ans, st')" "valid_account raw = Ok account"
      and rec: "hget (ud_inner (ro_users st0)) (ro_app st0, account) = Some rec" "ur_kind rec \<noteq> PROFILE_KIND_BOT" for account req raw st0 rec
  proof -
    have st': "ro_users st' = ro_users st0" "same_config st0 st'"
      using finish_auth_state(1)[of env account req st0] finish_auth_state(2)[of st0 env account req] f(1) by simp_all
    obtain did secret token where "ae_jwt_enc env (jc_secret (ro_jwt st0)) (issued_claims env account did st0) = Ok token"
      "ar_token ans = token" "ar_account ans = account"
      using finish_auth_Ok[OF account_checked(1)[OF f(2)], of env req st0 ans] f(1) by auto
    then show thesis
      by (intro fact[of "issued_claims env account did st0" rec]) (use st' rec in \<open>simp_all add: issued_claims_def same_config_def token_epoch_def\<close>)
  qed
  from assms show thesis
  proof
    assume l: "login env body st = (Ok ans, st')"
    then obtain req account rec where "valid_account (aq_account req) = Ok account" "finish_auth env account req st = (Ok ans, st')"
      "hget (ud_inner (ro_users st)) (ro_app st, account) = Some rec" "ur_kind rec \<noteq> PROFILE_KIND_BOT"
      by (auto simp: login_def lookup_def presence_from_record_def user_password_hash_def split: sum.splits option.splits if_splits bool.splits)
    then show thesis using step by blast
  next
    assume "register env body st = (Ok ans, st')"
    then obtain req account h d where r: "valid_account (aq_account req) = Ok account"
      "user_create (ro_app st) account h (ro_users st) = (Ok (), d)" "finish_auth env account req (st\<lparr>ro_users := d\<rparr>) = (Ok ans, st')"
      by (auto simp: register_def split: sum.splits option.splits prod.splits UserError.splits)
    have "hget (ud_inner d) (ro_app st, account) = Some (human_record account (Some h))"
      using r(2) by (auto simp: user_create_def split: option.splits)
    then show thesis
      using step[OF r(3,1)] by (simp add: human_record_def PROFILE_KIND_USER_def PROFILE_KIND_BOT_def)
  qed
qed

lemma bearer_claims_same: "same_config st st' \<Longrightarrow> bearer_claims env hdr st' = bearer_claims env hdr st"
  by (auto simp: bearer_claims_def same_config_def Let_def split: sum.splits)

lemma account_epoch_ge: "token_epoch (ro_app st) a (ro_users st) \<le> fst (account_epoch a st)"
  by (simp add: account_epoch_def Let_def)

lemma live_claims_outdated:
  assumes "bearer_token hdr = token" "ae_jwt_enc enc_env (jc_secret (ro_jwt st)) c = Ok token"
    "jwt_binds (ae_jwt_enc enc_env) (ae_jwt_dec env) (jc_secret (ro_jwt st)) token"
    "cl_ver c < token_epoch (ro_app st) (cl_account c) (ro_users st)"
  shows "fst (live_claims env hdr st) = Err bearer_denied"
proof -
  have "bearer_claims env hdr st = Err bearer_denied \<or> bearer_claims env hdr st = Ok c"
    using assms(1-3) by (auto simp: bearer_claims_def Let_def jwt_binds_def parse_token_Ok split: sum.splits)
  moreover have "cl_ver c < fst (account_epoch (cl_account c) (st\<lparr>ro_revoke := r\<rparr>))" for r
    using assms(4) account_epoch_ge[of "st\<lparr>ro_revoke := r\<rparr>" "cl_account c"] by simp
  moreover have "cl_ver c < fst (account_epoch (cl_account c) st)" using assms(4) account_epoch_ge[of st "cl_account c"] by simp
  ultimately show ?thesis
    by (auto simp: live_claims_def Let_def split: option.splits prod.splits)
      (metis fst_conv)+
qed

lemma epoch_answer:
  assumes "rv_token_epoch (HttpRevoke ca w st) a = Ok n" "codecs_agree ca (w 1) (RTokenEpoch a)"
  shows "token_epoch (ro_app st) a (ro_users st) \<le> n"
proof -
  obtain x where x: "fst (post_pb ca (w 1) (RTokenEpoch a) ''TokenEpoch'' st) = Ok x"
    "(case x of XTokenEpoch n \<Rightarrow> Ok n | _ \<Rightarrow> Err ''decode'') = Ok n"
    using assms(1) by (auto simp: HttpRevoke_def http_token_epoch_def Let_def split_beta res_bind_eq_Inr)
  have xn: "x = XTokenEpoch n" using x(2) by (cases x) simp_all
  have "\<exists>seen. fst (handle (wr_server (w 1)) (RTokenEpoch a) (st\<lparr>ro_nonce := seen\<rparr>)) = Ok x"
    by (rule post_pb_Ok[OF x(1) assms(2)])
      (auto intro: resp_kinds(2) simp: ep_token_epoch_def token_epoch_check_def bad_request_def is_success_def Let_def split_beta split: if_splits)
  then obtain seen where "n = fst (account_epoch a (st\<lparr>ro_nonce := seen\<rparr>))"
    using xn by (auto simp: ep_token_epoch_def token_epoch_check_def Let_def split_beta split: if_splits)
  then show ?thesis using account_epoch_ge[of "st\<lparr>ro_nonce := seen\<rparr>" a] by simp
qed

lemma change_password_epoch:
  assumes "change_password env hdr body st = (Ok (), st', kicks)" "bearer_claims env hdr st = Ok c"
    "token_epoch (ro_app st) (cl_account c) (ro_users st) < u32_max"
    "hget (ud_inner (ro_users st)) (ro_app st, cl_account c) = Some rec"
  shows "\<exists>rec'. hget (ud_inner (ro_users st')) (ro_app st, cl_account c) = Some rec' \<and> ur_kind rec' = ur_kind rec
    \<and> ur_token_epoch rec' = Suc (ur_token_epoch rec)"
proof -
  obtain st1 where l: "live_claims env hdr st = (Ok c, st1)"
    using assms(1,2) by (auto simp: change_password_def live_claims_def Let_def split: prod.splits if_splits sum.splits)
  have u: "ro_users st1 = ro_users st" "ro_app st1 = ro_app st"
    using live_claims_state(1)[of env hdr st] live_claims_state(2)[of st env hdr] l by (simp_all add: same_config_def)
  obtain hashed ver d where d: "set_password_and_bump_epoch (ro_app st) (cl_account c) hashed (ro_users st) = (Ok ver, d)" "ro_users st' = d"
    using assms(1) unfolding change_password_def l Let_def
    by (auto simp: u split: sum.splits option.splits bool.splits prod.splits)
  have "ur_token_epoch rec < u32_max" using assms(3,4) by (simp add: token_epoch_def)
  then show ?thesis
    unfolding d(2) using d(1) assms(4) by (auto simp: set_password_and_bump_epoch_def with_record_def u32_saturating_add_def)
qed

text \<open>C22: A password change ends every earlier token. Take a token that Royal issued to an account, by registration or
  login; whatever the service does afterwards, once the account's owner has changed the password (with the epoch
  counter not exhausted), and whatever it does after that, the token is refused: by Royal itself, and by a gateway
  that asks Royal about it, however the network treats the gateway's questions. Requests are served one after the
  other; it is assumed that the JWT library decodes the token, if it decodes it, to the claims that were signed into
  it (\<open>jwt_binds\<close>), that gateway and Royal agree on the encoding of the epoch question (\<open>codecs_agree\<close>), and that
  the gateway has the revocation check configured, with Royal's secret.\<close>

theorem password_change_ends_tokens:
  assumes "royal_reach st0" and issued: "login env0 body0 st0 = (Ok ans, st1) \<or> register env0 body0 st0 = (Ok ans, st1)"
    and "royal_step\<^sup>*\<^sup>* st1 st2"
    and change: "change_password env hdr body st2 = (Ok (), st3, kicks)" "bearer_claims env hdr st2 = Ok c" "cl_account c = ar_account ans"
    and "token_epoch (ro_app st2) (ar_account ans) (ro_users st2) < u32_max"
    and "royal_step\<^sup>*\<^sup>* st3 st4"
    and jwt: "jwt_binds (ae_jwt_enc env0) (ae_jwt_dec env') (jc_secret (ro_jwt st4)) (ar_token ans)"
      "jwt_binds (ae_jwt_enc env0) (gv_jwt_dec genv) (jc_secret (ro_jwt st4)) (ar_token ans)"
    and gateway: "gv_revoke genv = Some (HttpRevoke ca w st4)" "gw_jwt_secret h = jc_secret (ro_jwt st4)"
      "codecs_agree ca (w 1) (RTokenEpoch (ar_account ans))"
  shows "(bearer_token hdr' = ar_token ans \<longrightarrow> fst (live_claims env' hdr' st4) = Err bearer_denied)
    \<and> (lg_token req = ar_token ans \<longrightarrow> authenticate genv h pkt \<noteq> Ok (req, claims))"
proof -
  obtain c0 rec where c0: "ae_jwt_enc env0 (jc_secret (ro_jwt st1)) c0 = Ok (ar_token ans)" "cl_account c0 = ar_account ans"
    "hget (ud_inner (ro_users st1)) (ro_app st1, ar_account ans) = Some rec" "ur_kind rec \<noteq> PROFILE_KIND_BOT" "cl_ver c0 = ur_token_epoch rec"
    using issued by (rule issued_facts)
  have "step_kept st0 st1" using issued login_kept[of st0 env0 body0] register_kept[of st0 env0 body0] by auto
  then have k1: "users_inv (ro_users st1)" using accounts_keptD(1) royal_reach_inv[OF assms(1)] unfolding step_kept_def by blast
  note k12 = royal_steps_kept[OF assms(3), unfolded step_kept_def]
  have k2: "users_inv (ro_users st2)" using accounts_keptD(1) k12 k1 by blast
  obtain r2 where r2: "hget (ud_inner (ro_users st2)) (ro_app st2, ar_account ans) = Some r2" "ur_kind r2 = ur_kind rec" "ur_token_epoch rec \<le> ur_token_epoch r2"
    using accounts_keptD(2)[OF _ k1 c0(3,4), of "ro_users st2"] k12 by (auto simp: same_config_def)
  obtain r3 where r3: "hget (ud_inner (ro_users st3)) (ro_app st2, ar_account ans) = Some r3" "ur_kind r3 = ur_kind r2" "ur_token_epoch r3 = Suc (ur_token_epoch r2)"
    using change_password_epoch[OF change(1,2)] assms(7) r2(1) change(3) by auto
  have k23: "step_kept st2 st3" using change_kept[of st2 env hdr body] change(1) by simp
  have k3: "users_inv (ro_users st3)" using accounts_keptD(1) k23 k2 unfolding step_kept_def by blast
  note k34 = royal_steps_kept[OF assms(8), unfolded step_kept_def]
  obtain r4 where r4: "hget (ud_inner (ro_users st4)) (ro_app st2, ar_account ans) = Some r4" "ur_token_epoch r3 \<le> ur_token_epoch r4"
    using accounts_keptD(2)[OF _ k3 r3(1), of "ro_users st4"] k34 r3(2) r2(2) c0(4) by auto
  have cfg: "ro_app st4 = ro_app st2" "jc_secret (ro_jwt st1) = jc_secret (ro_jwt st4)"
    using k12 k23 k34 by (simp_all add: step_kept_def same_config_def)
  have old: "cl_ver c0 < token_epoch (ro_app st4) (cl_account c0) (ro_users st4)"
    using r4 r3(3) r2(3) c0(2,5) cfg(1) by (simp add: token_epoch_def)
  have "authenticate genv h pkt \<noteq> Ok (req, claims)" if "lg_token req = ar_token ans"
  proof
    assume "authenticate genv h pkt = Ok (req, claims)"
    then have a: "admissible genv h pkt req claims" by (simp add: authenticate_Ok)
    then have "claims = c0" using jwt(2) c0(1) that cfg(2) gateway(2) by (auto simp: admissible_def jwt_binds_def)
    then obtain n where "n \<le> cl_ver c0" "rv_token_epoch (HttpRevoke ca w st4) (ar_account ans) = Ok n"
      using a gateway(1) c0(2) by (auto simp: admissible_def revocation_clear_def)
    then show False using epoch_answer[of ca w st4 "ar_account ans" n] gateway(3) old c0(2) by simp
  qed
  then show ?thesis using live_claims_outdated[OF _ c0(1)[unfolded cfg(2)] jwt(1) old] by blast
qed

section \<open>Logging out\<close>

text \<open>Only the gateway's questions touch what is revoked, and they only forget entries that have run out.\<close>

lemma plain_revoke [simp]:
  "ro_revoke (snd (on_read f err out st)) = ro_revoke st"
  "ro_revoke (snd (on_write g err out st)) = ro_revoke st"
  by (auto simp: on_read_def on_write_def split: sum.splits prod.splits)

lemma guarded_revoke [simp]:
  "ro_revoke (snd (k st)) = ro_revoke st \<Longrightarrow> ro_revoke (snd (require_app app k st)) = ro_revoke st"
  "ro_revoke (snd (k st)) = ro_revoke st \<Longrightarrow> ro_revoke (snd (require_owner o' k st)) = ro_revoke st"
  "ro_revoke (snd (k st)) = ro_revoke st \<Longrightarrow> ro_revoke (snd (unless_bot a b k st)) = ro_revoke st"
  by (simp_all add: require_app_def require_owner_def unless_bot_def split: sum.splits)

lemma message_endpoints_revoke:
  "ro_revoke (snd (ep_insert_user env r st)) = ro_revoke st"
  "ro_revoke (snd (ep_insert_group env r st)) = ro_revoke st"
  "ro_revoke (snd (ep_ack env k st)) = ro_revoke st"
  "ro_revoke (snd (ep_offline_index env i st)) = ro_revoke st"
  "ro_revoke (snd (ep_backfill env app a t st)) = ro_revoke st"
  "ro_revoke (snd (ep_offline_content env app a ids st)) = ro_revoke st"
  "ro_revoke (snd (ep_inbox_list env a l st)) = ro_revoke st"
  "ro_revoke (snd (ep_history env a d n bid l st)) = ro_revoke st"
  "ro_revoke (snd (ep_inbox_read env a d n mid st)) = ro_revoke st"
  "ro_revoke (snd (ep_inbox_states env a ks st)) = ro_revoke st"
  by (auto simp: ep_insert_user_def ep_insert_group_def ep_ack_def ep_offline_index_def ep_backfill_def ep_offline_content_def
      ep_inbox_list_def ep_history_def ep_inbox_read_def ep_inbox_states_def split: sum.splits option.splits)

lemma directory_endpoints_revoke:
  "ro_revoke (snd (ep_group_create app g st)) = ro_revoke st"
  "ro_revoke (snd (ep_group_join app gid a st)) = ro_revoke st"
  "ro_revoke (snd (ep_group_quit app gid a st)) = ro_revoke st"
  "ro_revoke (snd (ep_group_members app gid st)) = ro_revoke st"
  "ro_revoke (snd (ep_group_detail app gid st)) = ro_revoke st"
  "ro_revoke (snd (ep_group_summaries app gids st)) = ro_revoke st"
  "ro_revoke (snd (ep_user_lookup a st)) = ro_revoke st"
  "ro_revoke (snd (ep_user_upsert a st)) = ro_revoke st"
  "ro_revoke (snd (ep_user_profile a st)) = ro_revoke st"
  "ro_revoke (snd (ep_user_update a patch st)) = ro_revoke st"
  "ro_revoke (snd (ep_user_profiles accs st)) = ro_revoke st"
  "ro_revoke (snd (ep_user_search q ex l st)) = ro_revoke st"
  by (auto simp: ep_group_create_def ep_group_join_def ep_group_quit_def ep_group_members_def ep_group_detail_def
    ep_group_summaries_def ep_user_lookup_def ep_user_upsert_def ep_user_profile_def ep_user_update_def ep_user_profiles_def
    ep_user_search_def split: sum.splits option.splits)

lemma social_endpoints_revoke:
  "ro_revoke (snd (ep_friend_request a b st)) = ro_revoke st"
  "ro_revoke (snd (ep_friend_accept a b st)) = ro_revoke st"
  "ro_revoke (snd (ep_friend_reject a b st)) = ro_revoke st"
  "ro_revoke (snd (ep_friend_remove a b st)) = ro_revoke st"
  "ro_revoke (snd (ep_friend_list a st)) = ro_revoke st"
  "ro_revoke (snd (ep_friend_incoming a st)) = ro_revoke st"
  "ro_revoke (snd (ep_friend_check a b st)) = ro_revoke st"
  "ro_revoke (snd (ep_block_add a b st)) = ro_revoke st"
  "ro_revoke (snd (ep_block_remove a b st)) = ro_revoke st"
  "ro_revoke (snd (ep_block_list a st)) = ro_revoke st"
  "ro_revoke (snd (ep_block_check a b st)) = ro_revoke st"
  by (simp_all add: ep_friend_request_def ep_friend_accept_def ep_friend_reject_def ep_friend_remove_def ep_friend_list_def
    ep_friend_incoming_def ep_friend_check_def ep_block_add_def ep_block_remove_def ep_block_list_def ep_block_check_def)

lemma bot_endpoints_revoke:
  "ro_revoke (snd (ep_bot_create req st)) = ro_revoke st"
  "ro_revoke (snd (ep_bot_delete env a b st)) = ro_revoke st"
  "ro_revoke (snd (ep_purge_dm env a b st)) = ro_revoke st"
  "ro_revoke (snd (ep_bot_update o' a bpatch st)) = ro_revoke st"
  "ro_revoke (snd (ep_bot_config o' a st)) = ro_revoke st"
  "ro_revoke (snd (ep_bot_reply env o' b irt ins st)) = ro_revoke st"
  "ro_revoke (snd (ep_bot_pending env o' b l st)) = ro_revoke st"
  "ro_revoke (snd (ep_spec_sync o' st)) = ro_revoke st"
  "ro_revoke (snd (ep_spec_upsert o' rec acc st)) = ro_revoke st"
  by (auto simp: ep_bot_create_def ep_bot_delete_def ep_purge_dm_def ep_bot_update_def ep_bot_config_def ep_bot_reply_def
    ep_bot_pending_def ep_spec_sync_def ep_spec_upsert_def split: sum.splits option.splits prod.splits)

lemmas endpoints_revoke = message_endpoints_revoke directory_endpoints_revoke social_endpoints_revoke bot_endpoints_revoke

lemma handle_revoke:
  "vo_inner (ro_revoke (snd (handle env rq st))) \<in> {vo_inner (ro_revoke st), hretain (\<lambda>_ exp. exp > ry_instant env) (vo_inner (ro_revoke st))}"
proof (cases rq)
  case (RRevokeCheck j)
  then show ?thesis by (auto simp: ep_revoke_check_def revoke_check_def is_revoked_def Let_def)
next
  case (RTokenEpoch a)
  then show ?thesis by (auto simp: ep_token_epoch_def token_epoch_check_def account_epoch_def set_epoch_def Let_def)
next
  case (RDeviceCheck a d c)
  then show ?thesis by (simp add: ep_device_check_def)
qed (simp_all add: endpoints_revoke)

lemma http_revoke:
  "vo_inner (ro_revoke (snd (royal_http env req st))) \<in> {vo_inner (ro_revoke st), hretain (\<lambda>_ exp. exp > ry_instant env) (vo_inner (ro_revoke st))}"
proof (cases rule: royal_http_cases[of env req st])
  case (served seen rq)
  then show ?thesis using handle_revoke[of env rq "st\<lparr>ro_nonce := seen\<rparr>"] by simp
qed simp

fun serve_all :: "(royal_env \<times> HttpRequest) list \<Rightarrow> RoyalState \<Rightarrow> RoyalState" where
  "serve_all [] st = st"
| "serve_all ((env, req) # rest) st = serve_all rest (snd (royal_http env req st))"

definition revoked_entry :: "string \<Rightarrow> nat \<Rightarrow> RoyalState \<Rightarrow> bool" where
  "revoked_entry j t st \<longleftrightarrow> hwf (vo_inner (ro_revoke st)) \<and> hget (vo_inner (ro_revoke st)) j = Some t"

lemma serve_all_entry:
  "revoked_entry j t st \<Longrightarrow> list_all (\<lambda>(env, _). ry_instant env < t) served \<Longrightarrow> revoked_entry j t (serve_all served st)"
proof (induction served arbitrary: st)
  case (Cons x served)
  obtain env req where x: "x = (env, req)" by (cases x)
  have "revoked_entry j t (snd (royal_http env req st))"
    using Cons.prems http_revoke[of env req st] x by (auto simp: revoked_entry_def hget_hretain)
  then show ?case using Cons x by simp
qed simp

lemma is_revoked_entry: "revoked_entry j t st \<Longrightarrow> now < t \<Longrightarrow> fst (is_revoked now j (ro_revoke st))"
  by (simp add: revoked_entry_def is_revoked_def Let_def hget_hretain)

lemma royal_step_hwf: "royal_step st st' \<Longrightarrow> hwf (vo_inner (ro_revoke st)) \<Longrightarrow> hwf (vo_inner (ro_revoke st'))"
proof (induction rule: royal_step.induct)
  case (request st renv req)
  then show ?case using http_revoke[of renv req st] by auto
next
  case (register st env body)
  then show ?case
    by (auto simp: register_def finish_auth_def bind_device_def Let_def split: sum.splits option.splits prod.splits UserError.splits if_splits)
next
  case (login st env body)
  then show ?case
    by (auto simp: login_def finish_auth_def bind_device_def Let_def split: sum.splits option.splits prod.splits bool.splits if_splits)
next
  case (logout st env hdr)
  then show ?case by (auto simp: logout_def revoke_bearer_def revoke_jti_def Let_def split: sum.splits option.splits)
next
  case (me st env hdr)
  then show ?case
    by (auto simp: me_def live_claims_def is_revoked_def account_epoch_def set_epoch_def Let_def split: sum.splits option.splits prod.splits if_splits)
next
  case (change st env hdr body)
  obtain r st1 where l: "live_claims env hdr st = (r, st1)" by fastforce
  have "hwf (vo_inner (ro_revoke st1))"
    using change l by (auto simp: live_claims_def is_revoked_def account_epoch_def set_epoch_def Let_def split: sum.splits option.splits prod.splits if_splits)
  then show ?case
    unfolding change_password_def l prod.case Let_def
    by (auto simp: revoke_bearer_def revoke_jti_def set_epoch_def split: sum.splits option.splits bool.splits prod.splits)
qed

lemma royal_reach_hwf: "royal_reach st \<Longrightarrow> hwf (vo_inner (ro_revoke st))"
  by (induction rule: royal_reach.induct) (auto simp: revocation_new_def intro: royal_step_hwf)

definition revoked_until :: "auth_env \<Rightarrow> Claims \<Rightarrow> nat" where
  "revoked_until env c = ae_instant env + jti_ttl (ae_now env) c * NANOS_PER_SEC"

lemma logout_state:
  assumes "logout env hdr st = (Ok (), st1, kicks)" "bearer_claims env hdr st = Ok c"
  shows "st1 = revoke_bearer env c st" "kicks = kick_account st (cl_account c)"
proof -
  have s: "st1 = revoke_bearer env c st" "kicks = kick_account (revoke_bearer env c st) (cl_account c)"
    using assms by (auto simp: logout_def Let_def)
  then show "st1 = revoke_bearer env c st" by simp
  have "ro_chat_url (revoke_bearer env c st) = ro_chat_url st" by (simp add: revoke_bearer_def split: option.splits)
  then show "kicks = kick_account st (cl_account c)" using s(2) by (simp add: kick_account_def)
qed

lemma logout_entry:
  assumes "hwf (vo_inner (ro_revoke st))" "cl_jti c = Some j"
  shows "revoked_entry j (revoked_until env c) (revoke_bearer env c st)"
proof -
  have "max (jti_ttl (ae_now env) c) 1 = jti_ttl (ae_now env) c" by (simp add: jti_ttl_def)
  then show ?thesis using assms by (simp add: revoked_entry_def revoke_bearer_def revoke_jti_def revoked_until_def distinct_update)
qed

lemma revoked_answer:
  assumes "rv_is_revoked (HttpRevoke ca w st) j = Ok b" "codecs_agree ca (w 0) (RRevokeCheck j)"
    "revoked_entry j t st" "ry_instant (wr_server (w 0)) < t"
  shows b
proof -
  obtain x where x: "fst (post_pb ca (w 0) (RRevokeCheck j) ''RevokeStatus'' st) = Ok x"
    "(case x of XRevokeStatus b \<Rightarrow> Ok b | _ \<Rightarrow> Err ''decode'') = Ok b"
    using assms(1) by (auto simp: HttpRevoke_def http_is_revoked_def Let_def split_beta res_bind_eq_Inr)
  have xb: "x = XRevokeStatus b" using x(2) by (cases x) simp_all
  have "\<exists>seen. fst (handle (wr_server (w 0)) (RRevokeCheck j) (st\<lparr>ro_nonce := seen\<rparr>)) = Ok x"
    by (rule post_pb_Ok[OF x(1) assms(2)])
      (auto intro: resp_kinds(1) simp: ep_revoke_check_def revoke_check_def bad_request_def is_success_def Let_def split_beta split: if_splits)
  then have "b = fst (is_revoked (ry_instant (wr_server (w 0))) j (ro_revoke st))"
    using xb by (auto simp: ep_revoke_check_def revoke_check_def Let_def split_beta split: if_splits)
  then show ?thesis using is_revoked_entry[OF assms(3,4)] by simp
qed

text \<open>A logout ends the session until its token would have expired. After an owner has logged out, and whatever
  requests Royal has served since, every token with the session's identifier is refused as long as the presented
  token had left to live: by Royal, and by a gateway that asks it, however the network treats the question. And the
  chat service is told to disconnect the account.\<close>

theorem logout_ends_token:
  assumes "royal_reach st" "logout env hdr st = (Ok (), st1, kicks)" "bearer_claims env hdr st = Ok c" "cl_jti c = Some j"
    and "list_all (\<lambda>(renv, _). ry_instant renv < revoked_until env c) served" "st2 = serve_all served st1"
    and "ae_instant env' < revoked_until env c" "bearer_claims env' hdr' st2 = Ok c'" "cl_jti c' = Some j"
    and gateway: "gv_revoke genv = Some (HttpRevoke ca w st2)" "ry_instant (wr_server (w 0)) < revoked_until env c"
      "codecs_agree ca (w 0) (RRevokeCheck j)"
  shows "fst (live_claims env' hdr' st2) = Err bearer_denied
    \<and> (nonblank (cl_jti claims) = Some j \<longrightarrow> authenticate genv h pkt \<noteq> Ok (req, claims))
    \<and> kicks = kick_account st (cl_account c)"
proof -
  have e: "revoked_entry j (revoked_until env c) st2"
    using serve_all_entry[OF logout_entry[OF royal_reach_hwf[OF assms(1)] assms(4)] assms(5)] logout_state(1)[OF assms(2,3)] assms(6) by simp
  have "fst (live_claims env' hdr' st2) = Err bearer_denied"
    using is_revoked_entry[OF e assms(7)] assms(8,9) by (simp add: live_claims_def Let_def split_beta)
  moreover have "authenticate genv h pkt \<noteq> Ok (req, claims)" if "nonblank (cl_jti claims) = Some j"
  proof
    assume "authenticate genv h pkt = Ok (req, claims)"
    then have "rv_is_revoked (HttpRevoke ca w st2) j = Ok False"
      using gateway(1) that by (auto simp: authenticate_Ok admissible_def revocation_clear_def)
    then show False using revoked_answer[of ca w st2 j False] gateway(2,3) e by blast
  qed
  ultimately show ?thesis using logout_state(2)[OF assms(2,3)] by blast
qed

text \<open>The revocation lasts only as long as the presented token had left. A token of the same session with a later expiry,
  as the gateway's heartbeat issues them, is accepted again afterwards; so is the presented one in the seconds of
  grace the JWT library allows past the expiry.\<close>

lemma logout_lapses:
  assumes "logout env hdr st = (Ok (), st1, kicks)" "bearer_claims env hdr st = Ok c" "cl_jti c = Some j" "hwf (vo_inner (ro_revoke st))"
    "revoked_until env c \<le> ae_instant env'" "bearer_claims env' hdr' st1 = Ok c'" "cl_jti c' = Some j"
    "get_epoch (cl_account c') (ro_revoke st) \<le> cl_ver c'" "token_epoch (ro_app st) (cl_account c') (ro_users st) \<le> cl_ver c'"
  shows "fst (live_claims env' hdr' st1) = Ok c'"
proof -
  have e: "revoked_entry j (revoked_until env c) st1" using logout_entry[OF assms(4,3)] logout_state(1)[OF assms(1,2)] by simp
  have s: "get_epoch a (ro_revoke st1) = get_epoch a (ro_revoke st)" "ro_users st1 = ro_users st" "ro_app st1 = ro_app st" for a
    unfolding logout_state(1)[OF assms(1,2)] by (simp_all add: revoke_bearer_def revoke_jti_def get_epoch_def split: option.splits)
  have "\<not> fst (is_revoked (ae_instant env') j (ro_revoke st1))"
    using e assms(5) by (simp add: revoked_entry_def is_revoked_def Let_def hget_hretain)
  moreover have "\<not> cl_ver c' < fst (account_epoch (cl_account c') (st1\<lparr>ro_revoke := snd (is_revoked (ae_instant env') j (ro_revoke st1))\<rparr>))"
    using assms(8,9) s by (simp add: account_epoch_def is_revoked_def get_epoch_def Let_def)
  ultimately show ?thesis using assms(6,7) by (simp add: live_claims_def Let_def split_beta)
qed

text \<open>A token that is revoked or outdated can still log out: the account's connections are closed.\<close>

lemma withdrawn_token_kicks:
  assumes "bearer_claims env hdr st = Ok c" "ro_chat_url st \<noteq> []" "ro_hmac_secret st \<noteq> []"
  shows "\<exists>st1. logout env hdr st = (Ok (), st1, [\<lparr>kk_account = cl_account c, kk_app = ro_app st\<rparr>])"
proof -
  have "cl_account c \<noteq> []" using assms(1) by (auto simp: bearer_claims_def Let_def split: sum.splits if_splits)
  moreover have "logout env hdr st = (Ok (), revoke_bearer env c st, kick_account st (cl_account c))"
    using assms(1) logout_state[of env hdr st _ _ c] by (auto simp: logout_def Let_def)
  ultimately show ?thesis using assms(2,3) by (simp add: kick_account_def)
qed

section \<open>Sealed passwords arrive\<close>

text \<open>What the sealed box and base64 promise.\<close>

definition seal_laws :: "seal_crypto \<Rightarrow> bool" where
  "seal_laws cx \<longleftrightarrow> (\<forall>b. sx_b64_dec cx (sx_b64_enc cx b) = Some b \<and> trim (sx_b64_enc cx b) = sx_b64_enc cx b)
     \<and> (\<forall>s. length (sx_public cx s) = KEY_LEN)
     \<and> (\<forall>s m c. sx_seal cx (sx_public cx s) m = Some c \<longrightarrow> c \<noteq> [] \<and> sx_unseal cx s c = Some m)"

text \<open>A password that a client seals for the published key is the password the service verifies, and no other key
  identifier is accepted with it.\<close>

lemma sealed_password_arrives:
  assumes "seal_laws cx" "ro_password_seal st = Some (seal_key_generate cx secret (Some key_id))" "trim key_id = key_id" "key_id \<noteq> []"
    and pub: "password_key cx st = Ok (kid, alg, pub64)" "seal_public_from_b64 cx kid pub64 = Ok pk"
    and seal: "seal_with_public cx (sp_public pk) (bytes_of_str password) = Ok sealed"
    and pw: "from_utf8 (bytes_of_str password) = Some password" "PASSWORD_MIN \<le> length password" "length password \<le> PASSWORD_MAX"
  shows "resolve_password_field cx st [] sealed (sp_key_id pk) = Ok password
    \<and> (trim other \<noteq> key_id \<longrightarrow> resolve_password_field cx st [] sealed other = Err (400, PASSWORD_KEY_ID_MISMATCH))"
proof -
  have k: "kid = key_id" "pub64 = sx_b64_enc cx (sx_public cx secret)"
    using pub(1) assms(2-4) by (auto simp: password_key_def seal_key_generate_def public_key_b64_def nonblank_def Let_def)
  have p: "sp_public pk = sx_public cx secret" "sp_key_id pk = key_id"
    using pub(2) assms(1) k by (auto simp: seal_public_from_b64_def key_bytes_def seal_laws_def)
  have u: "sealed \<noteq> []" "sx_unseal cx secret sealed = Some (bytes_of_str password)"
    using seal p(1) assms(1) by (auto simp: seal_with_public_def seal_laws_def split: option.splits)
  show ?thesis
    using u p(2) assms(2-4) pw
    by (auto simp: resolve_password_field_def ensure_key_id_def seal_key_generate_def nonblank_def unseal_def valid_password_def bad_request_def Let_def)
qed

section \<open>Witnesses\<close>

definition demo_seal :: seal_crypto where
  "demo_seal = \<lparr>sx_public = \<lambda>s. s, sx_seal = \<lambda>_ m. Some m, sx_unseal = \<lambda>_ c. Some c, sx_sha256 = \<lambda>b. b, sx_b64_enc = \<lambda>b. str_of_bytes b,
     sx_b64_dec = \<lambda>s. Some (bytes_of_str s)\<rparr>"

definition demo_issued :: Claims where
  "demo_issued = \<lparr>cl_account = ''alice'', cl_app = ''kim'', cl_exp = 86500, cl_jti = Some ''j1'', cl_ver = 0, cl_did = None\<rparr>"

definition demo_jwt_enc :: jwt_encode where
  "demo_jwt_enc = (\<lambda>_ c. if c = demo_issued then Ok ''tok'' else Err JwtOther)"

definition demo_jwt_dec :: jwt_decode where
  "demo_jwt_dec = (\<lambda>_ t. if t = ''tok'' then Ok demo_issued else Err JwtOther)"

definition demo_auth_env :: auth_env where
  "demo_auth_env =
     \<lparr>ae_now = 100, ae_instant = 0, ae_jti = ''j1'', ae_device_id = ''d1'', ae_secret = ''s1'', ae_crypto = demo_seal,
      ae_hash = Some, ae_verify = \<lambda>p h. Some (p = h), ae_jwt_enc = demo_jwt_enc, ae_jwt_dec = demo_jwt_dec,
      ae_dec_auth = \<lambda>_. Ok \<lparr>aq_account = ''alice'', aq_password = ''password'', aq_device_credential = [], aq_enroll_device = False,
         aq_password_sealed = [], aq_key_id = []\<rparr>,
      ae_dec_change = \<lambda>_. Ok \<lparr>pcq_old_password = ''password'', pcq_new_password = ''password2'', pcq_old_sealed = [], pcq_new_sealed = [],
         pcq_key_id = []\<rparr>\<rparr>"

definition demo_royal :: RoyalState where
  "demo_royal = (memory_with_jwt_receipt [1] (\<lambda>_. Err IdOverflow) \<lparr>jc_secret = ''s'', jc_ttl_secs = 0\<rparr> False)\<lparr>ro_chat_url := ''http://chat''\<rparr>"

definition demo_registered :: RoyalState where "demo_registered = snd (register demo_auth_env [] demo_royal)"
definition demo_changed :: RoyalState where
  "demo_changed = fst (snd (change_password demo_auth_env (Some ''Bearer tok'') [] demo_registered))"

definition demo_server :: royal_env where
  "demo_server =
     \<lparr>ry_instant = 5, ry_epoch = 0, ry_unix = 0, ry_mac = \<lambda>k m. k, ry_crypto = demo_seal,
      ry_dec = \<lambda>_ path _. Ok (if path = ''/internal/token-epoch'' then RTokenEpoch ''alice'' else RRevokeCheck ''j1''),
      ry_enc_resp = \<lambda>x. case x of XTokenEpoch n \<Rightarrow> 0 # replicate n 0 | XRevokeStatus b \<Rightarrow> if b then [1] else [2] | _ \<Rightarrow> []\<rparr>"

definition demo_caller :: caller where
  "demo_caller =
     \<lparr>ca_enc = \<lambda>_. [], ca_dec = \<lambda>n b. Ok (if n = ''TokenEpoch'' then XTokenEpoch (length b - 1) else XRevokeStatus (b = [1])),
      ca_secret = [1], ca_mac = \<lambda>k m. k\<rparr>"

definition demo_wire :: "nat \<Rightarrow> wire" where
  "demo_wire i = \<lparr>wr_nonce = ''nonce123'', wr_signed_at = 0, wr_fate = Answered, wr_server = demo_server\<rparr>"

definition demo_gate :: "RoyalState \<Rightarrow> gateway_env" where
  "demo_gate st = demo_gateway_env\<lparr>gv_jwt_dec := demo_jwt_dec, gv_revoke := Some (HttpRevoke demo_caller demo_wire st),
     gv_dec_login := \<lambda>_. Ok \<lparr>lg_token = ''tok'', lg_device = [], lg_device_credential = []\<rparr>\<rparr>"

definition demo_login_pkt :: LogicPkt where
  "demo_login_pkt = \<lparr>lp_header = demo_login_header, lp_body = []\<rparr>"

lemma demo_codecs: "codecs_agree demo_caller (demo_wire i) (RTokenEpoch ''alice'')" "codecs_agree demo_caller (demo_wire i) (RRevokeCheck ''j1'')"
  unfolding codecs_agree_def
  by (auto simp: demo_caller_def demo_wire_def demo_server_def req_method_def ep_token_epoch_def token_epoch_check_def ep_revoke_check_def
      revoke_check_def Let_def split_beta res_bind_eq_Inr split: if_splits)

lemma demo_binds: "jwt_binds demo_jwt_enc demo_jwt_dec secret token"
  by (auto simp: jwt_binds_def demo_jwt_enc_def demo_jwt_dec_def split: if_splits)

lemma demo_trim: "trim ''alice'' = ''alice''" "trim ''tok'' = ''tok''" "trim ''j1'' = ''j1''" "trim [] = []"
  by code_simp+

lemma demo_account: "valid_account ''alice'' = Ok ''alice''"
  by code_simp

lemma demo_registration:
  "register demo_auth_env [] demo_royal =
     (Ok \<lparr>ar_token = ''tok'', ar_exp = 86500, ar_account = ''alice'', ar_device_id = [], ar_device_credential = []\<rparr>,
      demo_royal\<lparr>ro_users := (user_dir_new None)\<lparr>ud_inner := [((''kim'', ''alice''), human_record ''alice'' (Some ''password''))]\<rparr>\<rparr>)"
  by (simp add: register_def demo_auth_env_def demo_account resolve_password_field_def plaintext_allowed_def valid_password_def PASSWORD_MIN_def
      PASSWORD_MAX_def demo_royal_def memory_with_jwt_receipt_def user_create_def user_dir_new_def finish_auth_def bind_device_def demo_trim
      issue_def token_ttl_def i64_saturating_add_def generate_with_device_def check_account_def is_ascii_control_def demo_jwt_enc_def
      demo_issued_def nonblank_def token_epoch_def human_record_def or_blank_def)

lemma demo_registered_eq:
  "demo_registered = demo_royal\<lparr>ro_users := (user_dir_new None)\<lparr>ud_inner := [((''kim'', ''alice''), human_record ''alice'' (Some ''password''))]\<rparr>\<rparr>"
  by (simp add: demo_registered_def demo_registration)

lemma demo_bearer: "bearer_token (Some ''Bearer tok'') = ''tok''"
  by code_simp

lemma demo_runs:
  "bearer_claims demo_auth_env (Some ''Bearer tok'') demo_registered = Ok demo_issued"
  "token_epoch (ro_app demo_registered) ''alice'' (ro_users demo_registered) = 0"
  "fst (live_claims demo_auth_env (Some ''Bearer tok'') demo_registered) = Ok demo_issued"
  "fst (change_password demo_auth_env (Some ''Bearer tok'') [] demo_registered) = Ok ()"
  "ro_jwt demo_changed = ro_jwt demo_registered"
proof -
  note d = demo_registered_eq
  have st: "ro_app demo_registered = ''kim''" "ro_revoke demo_registered = revocation_new"
    "ro_users demo_registered = (user_dir_new None)\<lparr>ud_inner := [((''kim'', ''alice''), human_record ''alice'' (Some ''password''))]\<rparr>"
    "ro_password_seal demo_registered = None"
    by (simp_all add: d demo_royal_def memory_with_jwt_receipt_def)
  show b: "bearer_claims demo_auth_env (Some ''Bearer tok'') demo_registered = Ok demo_issued"
    by (simp add: bearer_claims_def demo_bearer demo_auth_env_def demo_jwt_dec_def parse_token_def check_account_def demo_issued_def
        is_ascii_control_def st)
  show t: "token_epoch (ro_app demo_registered) ''alice'' (ro_users demo_registered) = 0"
    by (simp add: token_epoch_def st user_dir_new_def human_record_def)
  have l: "live_claims demo_auth_env (Some ''Bearer tok'') demo_registered = (Ok demo_issued, demo_registered)"
    using b t by (simp add: live_claims_def demo_issued_def is_revoked_def st(2) revocation_new_def hretain_def account_epoch_def get_epoch_def Let_def)
  then show "fst (live_claims demo_auth_env (Some ''Bearer tok'') demo_registered) = Ok demo_issued" by simp
  show c: "fst (change_password demo_auth_env (Some ''Bearer tok'') [] demo_registered) = Ok ()"
    unfolding change_password_def l
    by (simp add: demo_issued_def demo_auth_env_def resolve_password_field_def plaintext_allowed_def st valid_password_def PASSWORD_MIN_def PASSWORD_MAX_def
        user_password_hash_def user_dir_new_def human_record_def set_password_and_bump_epoch_def with_record_def Let_def)
  show "ro_jwt demo_changed = ro_jwt demo_registered"
    using change_kept[of demo_registered demo_auth_env "Some ''Bearer tok''" "[]"] by (simp add: demo_changed_def step_kept_def same_config_def)
qed

theorem password_change_ends_tokens_witness:
  "fst (live_claims demo_auth_env (Some ''Bearer tok'') demo_registered) = Ok demo_issued
   \<and> fst (live_claims demo_auth_env (Some ''Bearer tok'') demo_changed) = Err bearer_denied
   \<and> authenticate (demo_gate demo_changed) (demo_gw0\<lparr>gw_jwt_secret := ''s''\<rparr>) demo_login_pkt
       \<noteq> Ok (\<lparr>lg_token = ''tok'', lg_device = [], lg_device_credential = []\<rparr>, demo_issued)"
proof -
  have r: "royal_reach demo_royal"
    by (rule royal_reach.start) (simp_all add: demo_royal_def memory_with_jwt_receipt_def)
  obtain kicks where c: "change_password demo_auth_env (Some ''Bearer tok'') [] demo_registered = (Ok (), demo_changed, kicks)"
    using demo_runs(4) unfolding demo_changed_def by (metis prod.collapse)
  have i: "register demo_auth_env [] demo_royal =
     (Ok \<lparr>ar_token = ''tok'', ar_exp = 86500, ar_account = ''alice'', ar_device_id = [], ar_device_credential = []\<rparr>, demo_registered)"
    by (simp add: demo_registered_def demo_registration)
  let ?ans = "\<lparr>ar_token = ''tok'', ar_exp = 86500, ar_account = ''alice'', ar_device_id = [], ar_device_credential = []\<rparr> :: AuthResp"
  have a: "cl_account demo_issued = ar_account ?ans" by (simp add: demo_issued_def)
  have e: "token_epoch (ro_app demo_registered) (ar_account ?ans) (ro_users demo_registered) < u32_max" using demo_runs(2) by simp
  have j: "jwt_binds (ae_jwt_enc demo_auth_env) (ae_jwt_dec demo_auth_env) x y" "jwt_binds (ae_jwt_enc demo_auth_env) (gv_jwt_dec (demo_gate st)) x y" for x y st
    using demo_binds by (simp_all add: demo_auth_env_def demo_gate_def)
  have g: "gv_revoke (demo_gate st) = Some (HttpRevoke demo_caller demo_wire st)" for st by (simp add: demo_gate_def)
  have sec: "gw_jwt_secret (demo_gw0\<lparr>gw_jwt_secret := ''s''\<rparr>) = jc_secret (ro_jwt demo_changed)"
    unfolding demo_runs(5) by (simp add: demo_registered_eq demo_royal_def memory_with_jwt_receipt_def)
  have cod: "codecs_agree demo_caller (demo_wire 1) (RTokenEpoch (ar_account ?ans))" using demo_codecs(1) by simp
  show ?thesis
    using password_change_ends_tokens[OF r disjI2[OF i] rtranclp.rtrancl_refl c demo_runs(1) a e rtranclp.rtrancl_refl j g sec cod,
        of "Some ''Bearer tok''" "\<lparr>lg_token = ''tok'', lg_device = [], lg_device_credential = []\<rparr>" demo_login_pkt demo_issued]
      demo_runs(3) demo_bearer
    by simp
qed

theorem logout_ends_token_witness:
  "fst (live_claims demo_auth_env (Some ''Bearer tok'') (fst (snd (logout demo_auth_env (Some ''Bearer tok'') demo_registered)))) = Err bearer_denied
   \<and> snd (snd (logout demo_auth_env (Some ''Bearer tok'') demo_registered)) = [\<lparr>kk_account = ''alice'', kk_app = ''kim''\<rparr>]"
proof -
  let ?st1 = "fst (snd (logout demo_auth_env (Some ''Bearer tok'') demo_registered))"
  have r: "royal_reach demo_registered"
    unfolding demo_registered_def
    by (rule royal_reach.step[OF royal_reach.start royal_step.register]) (simp_all add: demo_royal_def memory_with_jwt_receipt_def)
  have l: "logout demo_auth_env (Some ''Bearer tok'') demo_registered =
      (Ok (), ?st1, snd (snd (logout demo_auth_env (Some ''Bearer tok'') demo_registered)))"
    using demo_runs(1) by (simp add: logout_def Let_def)
  have b: "bearer_claims demo_auth_env (Some ''Bearer tok'') ?st1 = Ok demo_issued"
    using demo_runs(1) bearer_claims_same[of demo_registered ?st1] logout_kept[of demo_registered demo_auth_env "Some ''Bearer tok''"]
    by (simp add: step_kept_def)
  have t: "revoked_until demo_auth_env demo_issued = 86400000000000"
    by (simp add: revoked_until_def jti_ttl_def demo_auth_env_def demo_issued_def i64_saturating_sub_def)
  have k: "kick_account demo_registered ''alice'' = [\<lparr>kk_account = ''alice'', kk_app = ''kim''\<rparr>]"
    by (simp add: kick_account_def demo_registered_eq demo_royal_def memory_with_jwt_receipt_def)
  have "cl_jti demo_issued = Some ''j1''" "ae_instant demo_auth_env < revoked_until demo_auth_env demo_issued"
    "ry_instant (wr_server (demo_wire 0)) < revoked_until demo_auth_env demo_issued"
    unfolding t by (simp_all add: demo_issued_def demo_auth_env_def demo_wire_def demo_server_def)
  note h = this
  show ?thesis
    using logout_ends_token[OF r l demo_runs(1) h(1), of "[]" ?st1 demo_auth_env "Some ''Bearer tok''" demo_issued "demo_gate ?st1" demo_caller demo_wire]
      b h demo_codecs(2) k by (simp add: demo_gate_def demo_issued_def)
qed

end
