(* ===== verification/Kim_Royal_Pool.thy ===== *)
theory Kim_Royal_Pool
  imports Kim_Royal_Wire
begin

text \<open>
  How the chat service reaches Royal: the pool of instances with its round robin and circuit breakers, and
  the call that tries up to three times (\<open>services/chat/src/royal_pool.rs\<close>, \<open>RoyalClient\<close> in
  \<open>services/chat/src/royal.rs\<close>). The instances are Royal processes over the same backends, so they are
  one Royal state. The clock, the deadline of the surrounding request and what the network does are an
  environment, one entry for each attempt.
\<close>

section \<open>Clients\<close>

definition RETRIES :: nat where "RETRIES = 3"
definition CIRCUIT_FAILS :: nat where "CIRCUIT_FAILS = 5"
definition HALF_OPEN_MS :: nat where "HALF_OPEN_MS = 30000"

record RoyalClient =
  rl_base :: string
  rl_fails :: "32 word"
  rl_opened :: bool
  rl_half_open_at :: nat

fun trim_slashes_rev :: "string \<Rightarrow> string" where
  "trim_slashes_rev (c # s) = (if c = CHR ''/'' then trim_slashes_rev s else c # s)"
| "trim_slashes_rev [] = []"

definition client_with_hmac :: "string \<Rightarrow> RoyalClient" where
  "client_with_hmac base =
     \<lparr>rl_base = rev (trim_slashes_rev (rev base)), rl_fails = 0, rl_opened = False, rl_half_open_at = 0\<rparr>"

definition client_try_probe :: "nat \<Rightarrow> RoyalClient \<Rightarrow> bool \<times> RoyalClient" where
  "client_try_probe now c =
     (if \<not> rl_opened c then (True, c)
      else if now < rl_half_open_at c then (False, c)
      else (True, c\<lparr>rl_half_open_at := u64_saturating_add now HALF_OPEN_MS\<rparr>))"

definition client_report_success :: "RoyalClient \<Rightarrow> RoyalClient" where
  "client_report_success c = c\<lparr>rl_fails := 0, rl_opened := False\<rparr>"

text \<open>The counter wraps around at 32 bits; the value looked at is one above the old value, saturated.\<close>

definition client_report_failure :: "nat \<Rightarrow> RoyalClient \<Rightarrow> RoyalClient" where
  "client_report_failure now c =
     (let n = u32_saturating_add (unat (rl_fails c)) 1;
          c = c\<lparr>rl_fails := rl_fails c + 1\<rparr>
      in if n \<ge> CIRCUIT_FAILS then c\<lparr>rl_opened := True, rl_half_open_at := u64_saturating_add now HALF_OPEN_MS\<rparr> else c)"

section \<open>The pool\<close>

text \<open>Clients are shared by reference: \<open>rp_cells\<close> holds them, the list in use and the bootstrap client name cells.\<close>

record RoyalPool =
  rp_cells :: "RoyalClient list"
  rp_clients :: "nat list"
  rp_rr :: "64 word"
  rp_bootstrap :: "nat option"
  rp_naming :: bool

definition pool_new :: "string option \<Rightarrow> bool \<Rightarrow> (StoreError, RoyalPool) result" where
  "pool_new royal_url naming =
     (case royal_url of
        Some url \<Rightarrow>
          if trim url \<noteq> [] then Ok \<lparr>rp_cells = [client_with_hmac url], rp_clients = [0], rp_rr = 0, rp_bootstrap = Some 0, rp_naming = naming\<rparr>
          else if naming then Ok \<lparr>rp_cells = [], rp_clients = [], rp_rr = 0, rp_bootstrap = None, rp_naming = naming\<rparr>
          else Err (StoreBackend ''no royal url or naming'')
      | None \<Rightarrow>
          if naming then Ok \<lparr>rp_cells = [], rp_clients = [], rp_rr = 0, rp_bootstrap = None, rp_naming = naming\<rparr>
          else Err (StoreBackend ''no royal url or naming''))"

abbreviation cell :: "RoyalPool \<Rightarrow> nat \<Rightarrow> RoyalClient" where "cell p i \<equiv> rp_cells p ! i"

definition put_cell :: "nat \<Rightarrow> RoyalClient \<Rightarrow> RoyalPool \<Rightarrow> RoyalPool" where
  "put_cell i c p = p\<lparr>rp_cells := (rp_cells p)[i := c]\<rparr>"

fun replace_loop :: "string list \<Rightarrow> nat list \<Rightarrow> RoyalPool \<Rightarrow> nat list \<times> RoyalPool" where
  "replace_loop [] cur p = ([], p)"
| "replace_loop (base # bases) cur p =
     (case List.find (\<lambda>i. rl_base (cell p i) = base) cur of
        Some i \<Rightarrow> (let (nx, p') = replace_loop bases cur p in (i # nx, p'))
      | None \<Rightarrow>
          (let p1 = p\<lparr>rp_cells := rp_cells p @ [client_with_hmac base]\<rparr>;
               (nx, p') = replace_loop bases cur p1
           in (length (rp_cells p) # nx, p')))"

definition replace_with :: "string list \<Rightarrow> RoyalPool \<Rightarrow> RoyalPool" where
  "replace_with bases p =
     (if bases = [] then
        (case rp_bootstrap p of Some b \<Rightarrow> p\<lparr>rp_clients := [b]\<rparr> | None \<Rightarrow> p)
      else let (nx, p') = replace_loop bases (rp_clients p) p in p'\<lparr>rp_clients := nx\<rparr>)"

text \<open>A discovered registration: its protocol (the \<open>protocol\<close> entry of its metadata first), public address and port.\<close>

definition royal_base :: "string option \<Rightarrow> string \<Rightarrow> string \<Rightarrow> nat \<Rightarrow> string option" where
  "royal_base meta_protocol protocol address port =
     (let proto = to_ascii_lowercase (case meta_protocol of Some p \<Rightarrow> p | None \<Rightarrow> protocol) in
      if proto \<noteq> [] \<and> proto \<noteq> ''http'' \<and> proto \<noteq> ''https'' then None
      else if address = [] \<or> port = 0 then None
      else Some ((if proto = ''https'' then ''https'' else ''http'') @ ''://'' @ address @ '':'' @ show_nat port))"

definition refresh_once :: "(string, (string option \<times> string \<times> string \<times> nat) list) result \<Rightarrow> RoyalPool \<Rightarrow> (StoreError, unit) result \<times> RoyalPool" where
  "refresh_once found p =
     (case found of
        Inl e \<Rightarrow> (Err (StoreBackend e), p)
      | Inr regs \<Rightarrow> (Ok (), replace_with (List.map_filter (\<lambda>(m, pr, a, n). royal_base m pr a n) regs) p))"

fun probe_loop :: "nat \<Rightarrow> nat list \<Rightarrow> RoyalPool \<Rightarrow> nat option \<times> RoyalPool" where
  "probe_loop now [] p = (None, p)"
| "probe_loop now (i # is) p =
     (if rl_opened (cell p i) then
        (let (ok, c) = client_try_probe now (cell p i); p' = put_cell i c p in if ok then (Some i, p') else probe_loop now is p')
      else probe_loop now is p)"

definition pick :: "nat \<Rightarrow> RoyalPool \<Rightarrow> (StoreError, nat) result \<times> RoyalPool" where
  "pick now p =
     (case probe_loop now (rp_clients p) p of
        (Some i, p1) \<Rightarrow> (Ok i, p1)
      | (None, p1) \<Rightarrow>
          let healthy = filter (\<lambda>i. \<not> rl_opened (cell p1 i)) (rp_clients p1) in
          if healthy \<noteq> [] then (Ok (healthy ! (unat (rp_rr p1) mod length healthy)), p1\<lparr>rp_rr := rp_rr p1 + 1\<rparr>)
          else case rp_bootstrap p1 of
              Some b \<Rightarrow>
                if \<not> rl_opened (cell p1 b) then (Ok b, p1)
                else let (ok, c) = client_try_probe now (cell p1 b); p2 = put_cell b c p1
                  in if ok then (Ok b, p2) else (Err (StoreBackend ''no royal available''), p2)
            | None \<Rightarrow> (Err (StoreBackend ''no royal available''), p1))"

definition report_success :: "nat \<Rightarrow> RoyalPool \<Rightarrow> RoyalPool" where
  "report_success i p = put_cell i (client_report_success (cell p i)) p"

definition report_failure :: "nat \<Rightarrow> nat \<Rightarrow> RoyalPool \<Rightarrow> RoyalPool" where
  "report_failure now i p = put_cell i (client_report_failure now (cell p i)) p"

section \<open>A call\<close>

text \<open>\<open>at_time_up\<close>: the deadline of the surrounding request leaves no time for the attempt.\<close>

record attempt =
  at_time_up :: bool
  at_pick_ms :: nat
  at_report_ms :: nat
  at_wire :: wire

definition retry_http :: "nat \<Rightarrow> bool" where
  "retry_http status \<longleftrightarrow> 500 \<le> status \<and> status \<le> 599 \<and> status \<noteq> 503"

definition circuit_failure_status :: "nat \<Rightarrow> bool" where
  "circuit_failure_status status \<longleftrightarrow> status \<in> {500, 502, 503, 504}"

text \<open>Error bodies are UTF-8, on which \<open>from_utf8_lossy\<close> is the identity.\<close>

definition http_status_err :: "nat \<Rightarrow> byte list \<Rightarrow> StoreError" where
  "http_status_err status body = StoreHttp status (str_of_bytes body)"

text \<open>The pause before the next attempt, taken only when the deadline allows it.\<close>

definition backoff_ms :: "nat \<Rightarrow> nat \<Rightarrow> nat" where
  "backoff_ms att subsec_millis = 100 * 2 ^ min att 2 + subsec_millis mod 50"

definition settle_status :: "nat \<Rightarrow> nat \<Rightarrow> nat \<Rightarrow> RoyalPool \<Rightarrow> RoyalPool" where
  "settle_status now status i p = (if circuit_failure_status status then report_failure now i p else report_success i p)"

text \<open>The attempts that are left. The log lists the requests that were sent and what came back.\<close>

fun send_loop ::
  "caller \<Rightarrow> (nat \<Rightarrow> attempt) \<Rightarrow> royal_req \<Rightarrow> nat \<Rightarrow> StoreError \<Rightarrow> RoyalPool \<Rightarrow> RoyalState \<Rightarrow> (wire \<times> HttpRequest \<times> wire_reply) list
   \<Rightarrow> (StoreError, byte list) result \<times> RoyalPool \<times> RoyalState \<times> (wire \<times> HttpRequest \<times> wire_reply) list" where
  "send_loop ca at rq 0 prev p st log = (Err prev, p, st, log)"
| "send_loop ca at rq (Suc n) prev p st log =
     (let a = at (RETRIES - Suc n) in
      if at_time_up a then (Err prev, p, st, log)
      else
        (case pick (at_pick_ms a) p of
           (Inl e, p1) \<Rightarrow> (Err e, p1, st, log)
         | (Inr i, p1) \<Rightarrow>
             (case sign_request ca (at_wire a) rq of
                Inl _ \<Rightarrow> (Err (StoreBackend ''invalid hmac secret''), p1, st, log)
              | Inr req \<Rightarrow>
                  let (rep, st1) = deliver (at_wire a) req st; log1 = log @ [(at_wire a, req, rep)] in
                  (case rep of
                     Reply status body \<Rightarrow>
                       if is_success status then (Ok body, report_success i p1, st1, log1)
                       else if retry_http status
                         then send_loop ca at rq n (http_status_err status body) (settle_status (at_report_ms a) status i p1) st1 log1
                       else (Err (http_status_err status body), settle_status (at_report_ms a) status i p1, st1, log1)
                   | _ \<Rightarrow> send_loop ca at rq n (StoreBackend ''transport'') (report_failure (at_report_ms a) i p1) st1 log1))))"

definition send :: "caller \<Rightarrow> (nat \<Rightarrow> attempt) \<Rightarrow> royal_req \<Rightarrow> RoyalPool \<Rightarrow> RoyalState
   \<Rightarrow> (StoreError, byte list) result \<times> RoyalPool \<times> RoyalState \<times> (wire \<times> HttpRequest \<times> wire_reply) list" where
  "send ca at rq p st = send_loop ca at rq RETRIES (StoreBackend ''royal request failed'') p st []"

text \<open>The chat service's end of the link and Royal.\<close>

type_synonym link = "RoyalPool \<times> RoyalState"

definition send_pb :: "caller \<Rightarrow> (nat \<Rightarrow> attempt) \<Rightarrow> royal_req \<Rightarrow> string \<Rightarrow> link \<Rightarrow> (StoreError, royal_resp) result \<times> link" where
  "send_pb ca at rq want l =
     (let (r, p, st, _) = send ca at rq (fst l) (snd l)
      in (case r of Inl e \<Rightarrow> Err e | Inr body \<Rightarrow> (case ca_dec ca want body of Inl e \<Rightarrow> Err (StoreBackend e) | Inr x \<Rightarrow> Ok x), p, st))"

definition post_maybe_empty :: "caller \<Rightarrow> (nat \<Rightarrow> attempt) \<Rightarrow> royal_req \<Rightarrow> link \<Rightarrow> (StoreError, unit) result \<times> link" where
  "post_maybe_empty ca at rq l =
     (let (r, p, st, _) = send ca at rq (fst l) (snd l) in (res_bind r (\<lambda>_. Ok ()), p, st))"

section \<open>What a call does\<close>

definition replay :: "(wire \<times> HttpRequest \<times> wire_reply) list \<Rightarrow> RoyalState \<Rightarrow> RoyalState" where
  "replay log st = fold (\<lambda>(w, req, _) st. snd (deliver w req st)) log st"

definition retried :: "wire_reply \<Rightarrow> bool" where
  "retried rep \<longleftrightarrow> (case rep of Reply status _ \<Rightarrow> retry_http status | _ \<Rightarrow> True)"

definition answered :: "(wire \<times> HttpRequest \<times> wire_reply) list \<Rightarrow> byte list \<Rightarrow> bool" where
  "answered log body \<longleftrightarrow> log \<noteq> [] \<and> (\<exists>status. snd (snd (last log)) = Reply status body \<and> is_success status)"

lemma replay_snoc: "replay (log @ [(w, req, rep)]) st = snd (deliver w req (replay log st))"
  by (simp add: replay_def)

lemma send_loop_spec:
  assumes "send_loop ca at rq n prev p (replay log st0) log = (r, p', st', log')"
    "list_all (\<lambda>(w, req, rep). sign_request ca w rq = Ok req \<and> retried rep) log"
  shows "st' = replay log' st0 \<and> (\<exists>new. log' = log @ new \<and> length new \<le> n)
    \<and> list_all (\<lambda>(w, req, rep). sign_request ca w rq = Ok req) log' \<and> list_all (\<lambda>(_, _, rep). retried rep) (butlast log')
    \<and> (\<forall>body. r = Ok body \<longrightarrow> answered log' body)"
  using assms
proof (induction n arbitrary: prev p log)
  case 0
  then show ?case by (auto simp: list_all_iff dest: in_set_butlastD)
next
  case (Suc n)
  define a where "a = at (RETRIES - Suc n)"
  have keep: ?case if "r = Err e" "st' = replay log st0" "log' = log" for e
    using that Suc.prems(2) by (auto simp: list_all_iff dest: in_set_butlastD)
  note pr = Suc.prems(1)[unfolded send_loop.simps Let_def, folded a_def]
  show ?case
  proof (cases "at_time_up a")
    case True
    then show ?thesis using pr by (intro keep[of prev]) auto
  next
    case up: False
    obtain q p1 where q: "pick (at_pick_ms a) p = (q, p1)" by fastforce
    show ?thesis
    proof (cases q)
      case (Inl e)
      then show ?thesis using pr up q by (intro keep[of e]) auto
    next
      case (Inr i)
      show ?thesis
      proof (cases "sign_request ca (at_wire a) rq")
        case (Inl e)
        then show ?thesis using pr up q Inr by (intro keep[of "StoreBackend ''invalid hmac secret''"]) auto
      next
        case req: (Inr req)
        obtain rep st1 where d: "deliver (at_wire a) req (replay log st0) = (rep, st1)" by fastforce
        let ?log = "log @ [(at_wire a, req, rep)]"
        have st1: "st1 = replay ?log st0" using d by (simp add: replay_snoc)
        have again: ?thesis if "send_loop ca at rq n e p2 st1 ?log = (r, p', st', log')" "retried rep" for e p2
        proof -
          have "list_all (\<lambda>(w, req, rep). sign_request ca w rq = Ok req \<and> retried rep) ?log" using Suc.prems(2) req that(2) by simp
          note ih = Suc.IH[OF that(1)[unfolded st1] this]
          then obtain new where "log' = ?log @ new" "length new \<le> n" by blast
          then have "\<exists>new. log' = log @ new \<and> length new \<le> Suc n" by (intro exI[of _ "(at_wire a, req, rep) # new"]) simp
          then show ?thesis using ih by blast
        qed
        have stop: ?thesis if "st' = st1" "log' = ?log" "\<And>body. r = Ok body \<Longrightarrow> answered ?log body"
          using that Suc.prems(2) req st1 by (auto simp: list_all_iff)
        show ?thesis
        proof (cases rep)
          case (Reply status body)
          consider "is_success status" | "\<not> is_success status" "\<not> retry_http status" | "\<not> is_success status" "retry_http status" by blast
          then show ?thesis
          proof cases
            case 1
            then show ?thesis using pr up q Inr req d Reply by (intro stop) (auto simp: answered_def)
          next
            case 2
            then show ?thesis using pr up q Inr req d Reply by (intro stop) auto
          next
            case 3
            then show ?thesis using pr up q Inr req d Reply by (intro again) (auto simp: retried_def)
          qed
        next
          case NoReply
          then show ?thesis using pr up q Inr req d by (intro again) (auto simp: retried_def)
        next
          case (Broken status)
          then show ?thesis using pr up q Inr req d by (intro again) (auto simp: retried_def)
        qed
      qed
    qed
  qed
qed

text \<open>A call to Royal is made at most three times and is answered by its last attempt. Whatever the pool and the
  network do, the call sends at most three requests, each the signed encoding of the call; a further one is sent only
  when the one before got no readable reply or a server error that may pass; Royal changes by these requests and by
  nothing else; and when the call returns a body, the last request was answered with it.\<close>

theorem royal_call_bounded:
  assumes "send ca at rq p st = (r, p', st', log)"
  shows "length log \<le> 3 \<and> list_all (\<lambda>(w, req, rep). sign_request ca w rq = Ok req) log
    \<and> list_all (\<lambda>(_, _, rep). retried rep) (butlast log) \<and> st' = replay log st \<and> (\<forall>body. r = Ok body \<longrightarrow> answered log body)"
  using send_loop_spec[of ca at rq RETRIES "StoreBackend ''royal request failed''" p "[]" st r p' st' log] assms
  by (auto simp: send_def replay_def RETRIES_def)

section \<open>The circuit breaker\<close>

definition pool_wf :: "RoyalPool \<Rightarrow> bool" where
  "pool_wf p \<longleftrightarrow> (\<forall>i \<in> set (rp_clients p). i < length (rp_cells p)) \<and> (\<forall>b. rp_bootstrap p = Some b \<longrightarrow> b < length (rp_cells p))"

lemma put_cell_wf [simp]: "pool_wf (put_cell i c p) = pool_wf p"
  by (simp add: pool_wf_def put_cell_def)

lemma pool_new_wf: "pool_new url naming = Ok p \<Longrightarrow> pool_wf p"
  by (auto simp: pool_new_def pool_wf_def split: option.splits if_splits)

lemma replace_loop_wf:
  "replace_loop bases cur p = (nx, p') \<Longrightarrow> \<forall>i \<in> set cur. i < length (rp_cells p) \<Longrightarrow>
     (\<forall>i \<in> set nx. i < length (rp_cells p')) \<and> length (rp_cells p) \<le> length (rp_cells p') \<and> rp_bootstrap p' = rp_bootstrap p"
proof (induction bases cur p arbitrary: nx p' rule: replace_loop.induct)
  case (2 base bases cur p)
  show ?case
  proof (cases "List.find (\<lambda>i. rl_base (cell p i) = base) cur")
    case None
    obtain nx1 p1 where r: "replace_loop bases cur (p\<lparr>rp_cells := rp_cells p @ [client_with_hmac base]\<rparr>) = (nx1, p1)" by fastforce
    have "\<forall>i \<in> set cur. i < length (rp_cells (p\<lparr>rp_cells := rp_cells p @ [client_with_hmac base]\<rparr>))" using 2(4) by auto
    from 2(1)[OF None refl r this] show ?thesis using 2(3) None r by (auto simp: Let_def)
  next
    case (Some i)
    obtain nx1 p1 where r: "replace_loop bases cur p = (nx1, p1)" by fastforce
    have "i < length (rp_cells p)" using Some 2(4) by (auto simp: find_Some_iff)
    then show ?thesis using 2(2)[OF Some r 2(4)] 2(3) Some r by (auto simp: Let_def)
  qed
qed simp

lemma replace_with_wf: "pool_wf p \<Longrightarrow> pool_wf (replace_with bases p)"
proof (cases "bases = []")
  case False
  assume wf: "pool_wf p"
  obtain nx p' where r: "replace_loop bases (rp_clients p) p = (nx, p')" by fastforce
  have w: "\<forall>i \<in> set nx. i < length (rp_cells p')" "length (rp_cells p) \<le> length (rp_cells p')" "rp_bootstrap p' = rp_bootstrap p"
    using replace_loop_wf[OF r] wf by (auto simp: pool_wf_def)
  have "b < length (rp_cells p')" if "rp_bootstrap p = Some b" for b
    using wf that w(2) unfolding pool_wf_def by (meson less_le_trans)
  then show ?thesis using w r False by (simp add: replace_with_def pool_wf_def)
qed (auto simp: replace_with_def pool_wf_def split: option.splits)

definition gated :: "nat \<Rightarrow> RoyalClient \<Rightarrow> bool" where
  "gated now c \<longleftrightarrow> rl_opened c \<and> now < rl_half_open_at c"

lemma try_probe_eq: "client_try_probe now c =
   (\<not> gated now c, if rl_opened c \<and> \<not> gated now c then c\<lparr>rl_half_open_at := u64_saturating_add now HALF_OPEN_MS\<rparr> else c)"
  by (auto simp: client_try_probe_def gated_def)

lemma put_cell_same: "put_cell i (cell p i) p = p"
  by (simp add: put_cell_def)

lemma probe_loop_spec:
  "probe_loop now is p = (case List.find (\<lambda>i. rl_opened (cell p i) \<and> \<not> gated now (cell p i)) is of
      None \<Rightarrow> (None, p)
    | Some i \<Rightarrow> (Some i, put_cell i ((cell p i)\<lparr>rl_half_open_at := u64_saturating_add now HALF_OPEN_MS\<rparr>) p))"
  by (induction "is") (auto simp: try_probe_eq Let_def put_cell_same)

text \<open>The breaker keeps calls away from an instance that fails. A client whose breaker is open is picked only when its
  thirty seconds are over, and this one probe closes the gate for another thirty seconds.\<close>

lemma breaker_spares:
  assumes "pool_wf p" "pick now p = (Ok i, p')" "rl_opened (cell p i)"
  shows "rl_half_open_at (cell p i) \<le> now \<and> rl_opened (cell p' i) \<and> rl_half_open_at (cell p' i) = u64_saturating_add now HALF_OPEN_MS"
proof (cases "List.find (\<lambda>i. rl_opened (cell p i) \<and> \<not> gated now (cell p i)) (rp_clients p)")
  case (Some j)
  have "i = j" "p' = put_cell i ((cell p i)\<lparr>rl_half_open_at := u64_saturating_add now HALF_OPEN_MS\<rparr>) p"
    using assms(2) Some by (auto simp: pick_def probe_loop_spec)
  moreover have "\<not> gated now (cell p j)" "j \<in> set (rp_clients p)" using Some by (auto simp: find_Some_iff)
  ultimately show ?thesis using assms(1,3) by (auto simp: put_cell_def gated_def pool_wf_def)
next
  case None
  define healthy where "healthy = filter (\<lambda>i. \<not> rl_opened (cell p i)) (rp_clients p)"
  have p: "pick now p = (if healthy \<noteq> [] then (Ok (healthy ! (unat (rp_rr p) mod length healthy)), p\<lparr>rp_rr := rp_rr p + 1\<rparr>)
      else case rp_bootstrap p of
          Some b \<Rightarrow> if \<not> rl_opened (cell p b) then (Ok b, p)
            else let (ok, c) = client_try_probe now (cell p b); p2 = put_cell b c p
              in if ok then (Ok b, p2) else (Err (StoreBackend ''no royal available''), p2)
        | None \<Rightarrow> (Err (StoreBackend ''no royal available''), p))"
    using None by (simp add: pick_def probe_loop_spec healthy_def Let_def)
  show ?thesis
  proof (cases "healthy = []")
    case False
    then have "healthy ! (unat (rp_rr p) mod length healthy) \<in> set healthy" by simp
    then have "\<not> rl_opened (cell p i)" using assms(2) p False by (auto simp: healthy_def)
    then show ?thesis using assms(3) by simp
  next
    case True
    then obtain b where b: "rp_bootstrap p = Some b" "i = b" "p' = put_cell b (snd (client_try_probe now (cell p b))) p" "\<not> gated now (cell p b)"
      using assms(2,3) unfolding p by (auto simp: try_probe_eq Let_def split: option.splits if_splits)
    then show ?thesis using assms(1,3) by (auto simp: try_probe_eq put_cell_def gated_def pool_wf_def)
  qed
qed

text \<open>The pool gives up only when every instance in use and the bootstrap instance are shut out.\<close>

lemma pick_available:
  assumes "i \<in> set (rp_clients p) \<or> rp_bootstrap p = Some i" "\<not> gated now (cell p i)"
  shows "\<exists>j p'. pick now p = (Ok j, p')"
proof (cases "List.find (\<lambda>i. rl_opened (cell p i) \<and> \<not> gated now (cell p i)) (rp_clients p)")
  case None
  then have n: "\<And>j. j \<in> set (rp_clients p) \<Longrightarrow> rl_opened (cell p j) \<Longrightarrow> gated now (cell p j)" by (auto simp: find_None_iff)
  show ?thesis
    using assms n[of i] None
    by (auto simp: pick_def probe_loop_spec try_probe_eq Let_def filter_empty_conv split: option.splits)
qed (simp add: pick_def probe_loop_spec)

text \<open>Five failures in a row open the breaker; a success closes it.\<close>

lemma failures_open:
  assumes "rl_fails c = 0"
  shows "rl_opened ((client_report_failure t5 \<circ> client_report_failure t4 \<circ> client_report_failure t3 \<circ> client_report_failure t2 \<circ> client_report_failure t1) c)"
    and "\<not> rl_opened (client_report_success c')" "rl_fails (client_report_success c') = 0"
  using assms by (simp_all add: client_report_failure_def client_report_success_def CIRCUIT_FAILS_def u32_saturating_add_def Let_def)

section \<open>Witness\<close>

text \<open>A call to a single instance while the network is down: three requests are sent, none arrives.\<close>

definition demo_down :: "nat \<Rightarrow> attempt" where
  "demo_down i = \<lparr>at_time_up = False, at_pick_ms = 0, at_report_ms = 0,
     at_wire = \<lparr>wr_nonce = ''nonce123'', wr_signed_at = 0, wr_fate = Undelivered,
       wr_server = \<lparr>ry_instant = 0, ry_epoch = 0, ry_unix = 0, ry_mac = \<lambda>k m. k,
         ry_crypto = \<lparr>sx_public = \<lambda>s. s, sx_seal = \<lambda>_ m. Some m, sx_unseal = \<lambda>_ c. Some c, sx_sha256 = \<lambda>b. b, sx_b64_enc = \<lambda>_. [], sx_b64_dec = \<lambda>_. None\<rparr>,
         ry_dec = \<lambda>_ _ _. Err [], ry_enc_resp = \<lambda>_. []\<rparr>\<rparr>\<rparr>"

definition demo_link_caller :: caller where
  "demo_link_caller = \<lparr>ca_enc = \<lambda>_. [], ca_dec = \<lambda>_ _. Err [], ca_secret = [1], ca_mac = \<lambda>k m. k\<rparr>"

definition demo_pool :: RoyalPool where
  "demo_pool = \<lparr>rp_cells = [client_with_hmac ''http://royal''], rp_clients = [0], rp_rr = 0, rp_bootstrap = Some 0, rp_naming = False\<rparr>"

definition demo_site :: RoyalState where
  "demo_site = memory_with_jwt_receipt [1] (\<lambda>_. Err IdOverflow) \<lparr>jc_secret = ''s'', jc_ttl_secs = 0\<rparr> False"

theorem royal_call_bounded_witness:
  "\<exists>log. send demo_link_caller demo_down (RFriendList ''alice'') demo_pool demo_site
       = (Err (StoreBackend ''transport''), report_failure 0 0 (report_failure 0 0 (report_failure 0 0 demo_pool))\<lparr>rp_rr := 3\<rparr>, demo_site, log)
     \<and> length log = 3 \<and> length log \<le> 3 \<and> demo_site = replay log demo_site"
proof -
  have three: "RETRIES = Suc (Suc (Suc 0))" by (simp add: RETRIES_def)
  have "send demo_link_caller demo_down (RFriendList ''alice'') demo_pool demo_site
       = (Err (StoreBackend ''transport''), report_failure 0 0 (report_failure 0 0 (report_failure 0 0 demo_pool))\<lparr>rp_rr := 3\<rparr>, demo_site,
          snd (snd (snd (send demo_link_caller demo_down (RFriendList ''alice'') demo_pool demo_site))))
     \<and> length (snd (snd (snd (send demo_link_caller demo_down (RFriendList ''alice'') demo_pool demo_site)))) = 3"
    by (simp add: send_def three demo_down_def pick_def demo_pool_def client_with_hmac_def sign_request_def sign_at_def
        demo_link_caller_def deliver_def report_failure_def client_report_failure_def put_cell_def u32_saturating_add_def CIRCUIT_FAILS_def Let_def)
  then show ?thesis using royal_call_bounded by blast
qed

end
