(* ===== verification/Kim_Royal_Backends.thy ===== *)
theory Kim_Royal_Backends
  imports Kim_Royal_Pool "HOL-Library.Countable"
begin

text \<open>
  The chat service's directories and message store on Royal (\<open>HttpMessageStore\<close>, \<open>HttpGroupDirectory\<close>,
  \<open>HttpUserDirectory\<close>, \<open>HttpSocialDirectory\<close> and \<open>HttpAgentSpecStore\<close> in \<open>services/chat/src/royal.rs\<close>):
  every operation is a call on the link, its answer turned back into the trait's result. An answer that
  decodes to another message type cannot occur, since the caller names the type it decodes; it is an error
  here.
\<close>

section \<open>Calls\<close>

record http_env =
  he_caller :: caller
  he_attempts :: "nat \<Rightarrow> attempt"
  he_pending_receipt :: bool

type_synonym ('e, 'a) http_op = "link \<Rightarrow> ('e, 'a) result \<times> link"

definition call_pb :: "http_env \<Rightarrow> royal_req \<Rightarrow> string \<Rightarrow> (StoreError \<Rightarrow> 'e) \<Rightarrow> (royal_resp \<Rightarrow> ('e, 'a) result) \<Rightarrow> ('e, 'a) http_op" where
  "call_pb env rq want err out l =
     (let (r, l') = send_pb (he_caller env) (he_attempts env) rq want l
      in (case r of Inl e \<Rightarrow> Err (err e) | Inr x \<Rightarrow> out x, l'))"

definition call_unit :: "http_env \<Rightarrow> royal_req \<Rightarrow> (StoreError \<Rightarrow> 'e) \<Rightarrow> ('e, unit) http_op" where
  "call_unit env rq err l =
     (let (r, l') = post_maybe_empty (he_caller env) (he_attempts env) rq l
      in (case r of Inl e \<Rightarrow> Err (err e) | Inr _ \<Rightarrow> Ok (), l'))"

abbreviation unexpected :: StoreError where "unexpected \<equiv> StoreBackend ''decode''"

section \<open>The message store\<close>

definition fanout_from_resp :: "InsertFanout option \<Rightarrow> Fanout" where
  "fanout_from_resp fanout =
     (case fanout of
        Some f \<Rightarrow>
          \<lparr>fo_msg_type = if_type f, fo_body = if_body f, fo_extra = if_extra f, fo_sender = if_sender f, fo_dest = if_dest f,
           fo_kind = (case parse_kind (if_kind f) of Some k \<Rightarrow> k | None \<Rightarrow> UserMsg), fo_recipients = if_recipients f\<rparr>
      | None \<Rightarrow>
          \<lparr>fo_msg_type = 0, fo_body = [], fo_extra = [], fo_sender = [], fo_dest = [], fo_kind = UserMsg, fo_recipients = []\<rparr>)"

definition insert_resp :: "royal_resp \<Rightarrow> (StoreError, InsertResult) result" where
  "insert_resp x =
     (case x of
        XInsert mid time dup fanout \<Rightarrow>
          Ok \<lparr>res_message_id = mid, res_send_time = time, res_duplicate = dup, res_fanout = fanout_from_resp fanout\<rparr>
      | _ \<Rightarrow> Err unexpected)"

definition insert_req :: "InsertMessage \<Rightarrow> string list \<Rightarrow> InsertMessageReq" where
  "insert_req im members =
     \<lparr>iq_sender = im_sender im, iq_dest = im_dest im, iq_send_time = im_send_time im,
      iq_message = Some \<lparr>mr_type = im_msg_type im, mr_body = im_body im, mr_extra = im_extra im, mr_client_id = im_client_id im\<rparr>,
      iq_members = members, iq_client_id = im_client_id im, iq_online_targets = im_online_targets im\<rparr>"



definition http_ack :: "http_env \<Rightarrow> string \<Rightarrow> string \<Rightarrow> string \<Rightarrow> int list \<Rightarrow> (StoreError, unit) http_op" where
  "http_ack env app account target message_ids =
     call_unit env (RAck
       (if he_pending_receipt env
        then \<lparr>kq_account = account, kq_message_id = 0, kq_message_ids = message_ids, kq_target_id = target, kq_app = app\<rparr>
        else \<lparr>kq_account = account, kq_message_id = (case message_ids of [] \<Rightarrow> 0 | i # _ \<Rightarrow> i), kq_message_ids = [], kq_target_id = [],
              kq_app = []\<rparr>)) id"

definition http_offline_index :: "http_env \<Rightarrow> string \<Rightarrow> string \<Rightarrow> string \<Rightarrow> int \<Rightarrow> bool \<Rightarrow> (StoreError, MessageIndexRow list \<times> bool) http_op" where
  "http_offline_index env app account target message_id resume =
     call_pb env (ROfflineIndex
       (if he_pending_receipt env
        then \<lparr>oq_account = account, oq_message_id = message_id, oq_target_id = target, oq_app = app, oq_resume = resume\<rparr>
        else \<lparr>oq_account = account, oq_message_id = message_id, oq_target_id = [], oq_app = [], oq_resume = False\<rparr>))
       ''MessageIndexResp'' id (\<lambda>x. case x of XIndex rows mo \<Rightarrow> Ok (rows, mo) | _ \<Rightarrow> Err unexpected)"

definition http_backfill :: "http_env \<Rightarrow> string \<Rightarrow> string \<Rightarrow> string \<Rightarrow> (StoreError, unit) http_op" where
  "http_backfill env app account target l =
     (if \<not> he_pending_receipt env then (Ok (), l) else call_unit env (RBackfill app account target) id l)"

definition http_offline_content :: "http_env \<Rightarrow> string \<Rightarrow> string \<Rightarrow> int list \<Rightarrow> (StoreError, MessageContentRow list) http_op" where
  "http_offline_content env app account ids =
     call_pb env (ROfflineContent app account ids) ''MessageContentResp'' id (\<lambda>x. case x of XContent rows \<Rightarrow> Ok rows | _ \<Rightarrow> Err unexpected)"

definition inbox_entry :: "InboxItem \<Rightarrow> InboxEntry option" where
  "inbox_entry i =
     map_option (\<lambda>kind.
       \<lparr>ie_dest = ii_dest i, ie_kind = kind, ie_last_message_id = ii_last_message_id i, ie_last_send_time = ii_last_send_time i,
        ie_last_body = ii_last_body i, ie_last_sender = ii_last_sender i, ie_last_msg_type = 0, ie_unread = ii_unread i,
        ie_last_read_message_id = rp_last_read_message_id (ii_read_state i), ie_max_message_id = rp_max_message_id (ii_read_state i),
        ie_state_version = rp_version (ii_read_state i)\<rparr>) (parse_kind (ii_kind i))"

definition http_inbox :: "http_env \<Rightarrow> string \<Rightarrow> int \<Rightarrow> (StoreError, InboxEntry list) http_op" where
  "http_inbox env account limit =
     call_pb env (RInboxList account limit) ''InboxResp'' id (\<lambda>x. case x of XInbox items \<Rightarrow> Ok (List.map_filter inbox_entry items) | _ \<Rightarrow> Err unexpected)"

definition http_history :: "http_env \<Rightarrow> string \<Rightarrow> string \<Rightarrow> MessageKind \<Rightarrow> int \<Rightarrow> int \<Rightarrow> (StoreError, HistoryEntry list) http_op" where
  "http_history env account dest kind before_id limit =
     call_pb env (RHistory account dest (kind_number kind) before_id limit) ''HistoryResp'' id
       (\<lambda>x. case x of XHistory rows \<Rightarrow> Ok rows | _ \<Rightarrow> Err unexpected)"

definition state_from_pb :: "string \<Rightarrow> MessageKind \<Rightarrow> ReadStatePb \<Rightarrow> ConversationReadState" where
  "state_from_pb dest kind pb =
     \<lparr>cr_dest = dest, cr_kind = (case parse_kind (rp_kind pb) of Some k \<Rightarrow> k | None \<Rightarrow> kind),
      cr_last_read_message_id = rp_last_read_message_id pb, cr_max_message_id = rp_max_message_id pb, cr_unread = rp_unread pb,
      cr_version = rp_version pb, cr_exists = rp_exists pb\<rparr>"

definition http_mark_read :: "http_env \<Rightarrow> string \<Rightarrow> string \<Rightarrow> MessageKind \<Rightarrow> int \<Rightarrow> (StoreError, ConversationReadState) http_op" where
  "http_mark_read env account dest kind message_id =
     call_pb env (RInboxRead account dest (kind_number kind) message_id) ''ConversationReadState'' id
       (\<lambda>x. case x of XReadState pb \<Rightarrow> Ok (state_from_pb (if rp_dest pb = [] then dest else rp_dest pb) kind pb) | _ \<Rightarrow> Err unexpected)"

definition http_states :: "http_env \<Rightarrow> string \<Rightarrow> ConversationStateKey list \<Rightarrow> (StoreError, ConversationReadState list) http_op" where
  "http_states env account keys =
     call_pb env (RInboxStates account (map (\<lambda>k. \<lparr>cky_dest = ck_dest k, cky_kind = kind_number (ck_kind k)\<rparr>) keys)) ''ConversationStatesResp'' id
       (\<lambda>x. case x of XReadStates ss \<Rightarrow> Ok (map (\<lambda>pb. state_from_pb (rp_dest pb) UserMsg pb) ss) | _ \<Rightarrow> Err unexpected)"

definition http_insert_bot_reply :: "http_env \<Rightarrow> string \<Rightarrow> string \<Rightarrow> int \<Rightarrow> InsertMessage \<Rightarrow> (StoreError, InsertResult) http_op" where
  "http_insert_bot_reply env owner b in_reply_to im =
     call_pb env (RBotReply owner b in_reply_to (Some (insert_req im []))) ''InsertMessageResp'' id insert_resp"

definition http_bot_pending :: "http_env \<Rightarrow> string \<Rightarrow> string \<Rightarrow> int \<Rightarrow> (StoreError, BotPendingItem list) http_op" where
  "http_bot_pending env owner b limit =
     call_pb env (RBotPending owner b limit) ''BotPendingResp'' id (\<lambda>x. case x of XBotPending items \<Rightarrow> Ok items | _ \<Rightarrow> Err unexpected)"

definition http_purge :: "http_env \<Rightarrow> string \<Rightarrow> string \<Rightarrow> (StoreError, unit) http_op" where
  "http_purge env account peer = call_unit env (RPurgeDm account peer) id"

section \<open>The group directory\<close>

definition group_err :: "StoreError \<Rightarrow> GroupError" where
  "group_err e =
     (case e of
        StoreHttp status msg \<Rightarrow> if status = 404 then GroupNotFound else GroupBackend (''royal http '' @ show_nat status @ '': '' @ msg)
      | StoreBackend s \<Rightarrow> GroupBackend s
      | StoreInvalid s \<Rightarrow> GroupBackend s
      | StoreNotFound \<Rightarrow> GroupNotFound
      | StoreId e \<Rightarrow> GroupId e)"

abbreviation group_odd :: GroupError where "group_odd \<equiv> group_err unexpected"

definition http_group_create :: "http_env \<Rightarrow> string \<Rightarrow> CreateGroup \<Rightarrow> (GroupError, string) http_op" where
  "http_group_create env app req =
     call_pb env (RGroupCreate app req) ''GroupCreateResp'' group_err (\<lambda>x. case x of XGroupCreate g \<Rightarrow> Ok g | _ \<Rightarrow> Err group_odd)"

definition http_group_members :: "http_env \<Rightarrow> string \<Rightarrow> string \<Rightarrow> (GroupError, string list) http_op" where
  "http_group_members env app g =
     call_pb env (RGroupMembers app g) ''GroupMembersResp'' group_err (\<lambda>x. case x of XGroupMembers ms \<Rightarrow> Ok ms | _ \<Rightarrow> Err group_odd)"

definition http_group_join :: "http_env \<Rightarrow> string \<Rightarrow> string \<Rightarrow> string \<Rightarrow> (GroupError, unit) http_op" where
  "http_group_join env app g a = call_unit env (RGroupJoin app g a) group_err"

definition http_group_quit :: "http_env \<Rightarrow> string \<Rightarrow> string \<Rightarrow> string \<Rightarrow> (GroupError, unit) http_op" where
  "http_group_quit env app g a = call_unit env (RGroupQuit app g a) group_err"

definition http_group_detail :: "http_env \<Rightarrow> string \<Rightarrow> string \<Rightarrow> (GroupError, GroupInfo) http_op" where
  "http_group_detail env app g =
     call_pb env (RGroupDetail app g) ''GroupDetail'' group_err (\<lambda>x. case x of XGroupDetail i \<Rightarrow> Ok i | _ \<Rightarrow> Err group_odd)"

definition http_group_summaries :: "http_env \<Rightarrow> string \<Rightarrow> string list \<Rightarrow> (GroupError, GroupSummary list) http_op" where
  "http_group_summaries env app gs l =
     (if gs = [] then (Ok [], l)
      else call_pb env (RGroupSummaries app gs) ''GroupListResp'' group_err (\<lambda>x. case x of XGroupList rows \<Rightarrow> Ok rows | _ \<Rightarrow> Err group_odd) l)"

section \<open>The user directory\<close>

fun contains :: "string \<Rightarrow> string \<Rightarrow> bool" where
  "contains [] sub \<longleftrightarrow> sub = []"
| "contains (c # s) sub \<longleftrightarrow> take (length sub) (c # s) = sub \<or> contains s sub"

definition user_err :: "StoreError \<Rightarrow> UserError" where
  "user_err e =
     (case e of
        StoreHttp status msg \<Rightarrow>
          if status = 404 then UserMissing
          else if status = 409 then UserConflict
          else if status = 403 then UserNotBotOwner
          else if status = 400 then (if contains msg ''limit'' then UserLimit else InvalidProfile)
          else UserBackend (StoreError_show e)
      | _ \<Rightarrow> UserBackend (StoreError_show e))"

abbreviation user_odd :: UserError where "user_odd \<equiv> user_err unexpected"

definition from_pb_profile :: "UserProfile \<Rightarrow> UserProfile" where
  "from_pb_profile p = p\<lparr>uf_kind := Kim_Protocol.profile_kind (uf_kind p)\<rparr>"

definition from_pb_config :: "BotConfigPb option \<Rightarrow> BotConfig" where
  "from_pb_config cfg =
     (case cfg of
        Some c \<Rightarrow>
          \<lparr>bc_model = bp_model c, bc_thinking_effort = bp_thinking_effort c, bc_context_tokens = bp_context_tokens c,
           bc_visibility = (if bp_visibility c = [] then ''private'' else bp_visibility c)\<rparr>
      | None \<Rightarrow> \<lparr>bc_model = [], bc_thinking_effort = [], bc_context_tokens = None, bc_visibility = ''private''\<rparr>)"

definition http_upsert :: "http_env \<Rightarrow> string \<Rightarrow> (UserError, unit) http_op" where
  "http_upsert env account = call_unit env (RUserUpsert account) user_err"

text \<open>The operations on credentials stay with Royal.\<close>

definition royal_only :: "string \<Rightarrow> (UserError, 'a) http_op" where
  "royal_only name l = (Err (UserBackend (name @ '' is royal-only'')), l)"

definition http_exists :: "http_env \<Rightarrow> string \<Rightarrow> (UserError, bool) http_op" where
  "http_exists env account =
     call_pb env (RUserLookup account) ''AccountExists'' user_err (\<lambda>x. case x of XAccountExists b _ _ \<Rightarrow> Ok b | _ \<Rightarrow> Err user_odd)"

definition http_lookup :: "http_env \<Rightarrow> string \<Rightarrow> (UserError, UserPresence option) http_op" where
  "http_lookup env account =
     call_pb env (RUserLookup account) ''AccountExists'' user_err
       (\<lambda>x. case x of
          XAccountExists b kind owner \<Rightarrow>
            Ok (if b then Some \<lparr>up_exists = True, up_kind = Kim_Protocol.profile_kind kind, up_owner_account = owner\<rparr> else None)
        | _ \<Rightarrow> Err user_odd)"

definition http_bot_owner :: "http_env \<Rightarrow> string \<Rightarrow> (UserError, string option) http_op" where
  "http_bot_owner env account l =
     (let (r, l') = http_lookup env account l
      in (res_bind r (\<lambda>p. Ok (case p of
            Some p \<Rightarrow> if up_kind p = PROFILE_KIND_BOT \<and> up_owner_account p \<noteq> [] then Some (up_owner_account p) else None
          | None \<Rightarrow> None)), l'))"

definition http_profile :: "http_env \<Rightarrow> string \<Rightarrow> (UserError, UserProfile option) http_op" where
  "http_profile env account l =
     (let (r, l') = send_pb (he_caller env) (he_attempts env) (RUserProfile account) ''UserProfile'' l
      in (case r of
            Inr (XProfile p) \<Rightarrow> Ok (Some (from_pb_profile p))
          | Inr _ \<Rightarrow> Err user_odd
          | Inl (StoreHttp status msg) \<Rightarrow> if status = 404 then Ok None else Err (user_err (StoreHttp status msg))
          | Inl e \<Rightarrow> Err (user_err e), l'))"

definition http_update_profile :: "http_env \<Rightarrow> string \<Rightarrow> ProfilePatch \<Rightarrow> (UserError, UserProfile) http_op" where
  "http_update_profile env account patch =
     call_pb env (RUserUpdate account patch) ''UserProfile'' user_err (\<lambda>x. case x of XProfile p \<Rightarrow> Ok (from_pb_profile p) | _ \<Rightarrow> Err user_odd)"

definition http_profiles :: "http_env \<Rightarrow> string list \<Rightarrow> (UserError, UserProfile list) http_op" where
  "http_profiles env accounts l =
     (if accounts = [] then (Ok [], l)
      else call_pb env (RUserProfiles accounts) ''UserListResp'' user_err
        (\<lambda>x. case x of XUsers us \<Rightarrow> Ok (map from_pb_profile us) | _ \<Rightarrow> Err user_odd) l)"

definition http_search :: "http_env \<Rightarrow> string \<Rightarrow> string list \<Rightarrow> nat \<Rightarrow> (UserError, UserProfile list) http_op" where
  "http_search env query exclude limit =
     call_pb env (RUserSearch query exclude (if int limit \<le> i32_max then int limit else 20)) ''UserSearchResp'' user_err
       (\<lambda>x. case x of XSearch us \<Rightarrow> Ok (map from_pb_profile us) | _ \<Rightarrow> Err user_odd)"

definition bot_resp :: "string \<Rightarrow> royal_resp \<Rightarrow> (UserError, BotRecord) result" where
  "bot_resp missing x =
     (case x of
        XBotRecord (Some p) cfg \<Rightarrow> Ok \<lparr>br_profile = from_pb_profile p, br_config = from_pb_config cfg\<rparr>
      | XBotRecord None _ \<Rightarrow> Err (UserBackend missing)
      | _ \<Rightarrow> Err user_odd)"

definition http_create_bot :: "http_env \<Rightarrow> CreateBot \<Rightarrow> (UserError, BotRecord) http_op" where
  "http_create_bot env req = call_pb env (RBotCreate req) ''BotCreateResp'' user_err (bot_resp ''bot create missing profile'')"

definition http_update_bot :: "http_env \<Rightarrow> string \<Rightarrow> string \<Rightarrow> BotPatch \<Rightarrow> (UserError, BotRecord) http_op" where
  "http_update_bot env owner account patch =
     call_pb env (RBotUpdate owner account patch) ''BotCreateResp'' user_err (bot_resp ''bot update missing profile'')"

definition http_bot_config :: "http_env \<Rightarrow> string \<Rightarrow> string \<Rightarrow> (UserError, BotConfig) http_op" where
  "http_bot_config env owner account =
     call_pb env (RBotConfig owner account) ''InternalBotConfig'' user_err
       (\<lambda>x. case x of XBotConfig _ _ cfg \<Rightarrow> Ok (from_pb_config cfg) | _ \<Rightarrow> Err user_odd)"

definition http_delete_bot :: "http_env \<Rightarrow> string \<Rightarrow> string \<Rightarrow> (UserError, unit) http_op" where
  "http_delete_bot env owner account =
     call_pb env (RBotDelete owner account) ''AccountExists'' user_err (\<lambda>x. case x of XAccountExists _ _ _ \<Rightarrow> Ok () | _ \<Rightarrow> Err user_odd)"

section \<open>The social directory\<close>

definition social_err :: "StoreError \<Rightarrow> SocialError" where
  "social_err e =
     (case e of
        StoreHttp status msg \<Rightarrow>
          if status = 403 then (if contains msg ''bot-social'' then BotSocialDenied else SocialBlocked)
          else if status = 404 then SocialNotFound
          else if status = 400 then SelfOp
          else SocialBackend (''royal http '' @ show_nat status @ '': '' @ msg)
      | _ \<Rightarrow> SocialBackend (StoreError_show e))"

abbreviation social_odd :: SocialError where "social_odd \<equiv> social_err unexpected"

definition http_request :: "http_env \<Rightarrow> string \<Rightarrow> string \<Rightarrow> (SocialError, FriendRequestOutcome) http_op" where
  "http_request env a b =
     call_pb env (RFriendRequest a b) ''AccountExists'' social_err
       (\<lambda>x. case x of XAccountExists e _ _ \<Rightarrow> Ok (if e then AutoAccepted else Sent) | _ \<Rightarrow> Err social_odd)"

definition http_accept :: "http_env \<Rightarrow> string \<Rightarrow> string \<Rightarrow> (SocialError, unit) http_op" where
  "http_accept env a b = call_unit env (RFriendAccept a b) social_err"

definition http_reject :: "http_env \<Rightarrow> string \<Rightarrow> string \<Rightarrow> (SocialError, unit) http_op" where
  "http_reject env a b = call_unit env (RFriendReject a b) social_err"

definition http_remove :: "http_env \<Rightarrow> string \<Rightarrow> string \<Rightarrow> (SocialError, unit) http_op" where
  "http_remove env a b = call_unit env (RFriendRemove a b) social_err"

definition http_block :: "http_env \<Rightarrow> string \<Rightarrow> string \<Rightarrow> (SocialError, unit) http_op" where
  "http_block env a b = call_unit env (RBlockAdd a b) social_err"

definition http_unblock :: "http_env \<Rightarrow> string \<Rightarrow> string \<Rightarrow> (SocialError, unit) http_op" where
  "http_unblock env a b = call_unit env (RBlockRemove a b) social_err"

definition accounts_resp :: "royal_resp \<Rightarrow> (SocialError, string list) result" where
  "accounts_resp x = (case x of XAccounts as \<Rightarrow> Ok as | _ \<Rightarrow> Err social_odd)"

definition check_resp :: "royal_resp \<Rightarrow> (SocialError, bool) result" where
  "check_resp x = (case x of XAccountExists b _ _ \<Rightarrow> Ok b | _ \<Rightarrow> Err social_odd)"

definition http_list_friends :: "http_env \<Rightarrow> string \<Rightarrow> (SocialError, string list) http_op" where
  "http_list_friends env a = call_pb env (RFriendList a) ''AccountList'' social_err accounts_resp"

definition http_incoming :: "http_env \<Rightarrow> string \<Rightarrow> (SocialError, string list) http_op" where
  "http_incoming env a = call_pb env (RFriendIncoming a) ''AccountList'' social_err accounts_resp"

definition http_list_blocked :: "http_env \<Rightarrow> string \<Rightarrow> (SocialError, string list) http_op" where
  "http_list_blocked env a = call_pb env (RBlockList a) ''AccountList'' social_err accounts_resp"

definition http_is_friend :: "http_env \<Rightarrow> string \<Rightarrow> string \<Rightarrow> (SocialError, bool) http_op" where
  "http_is_friend env a b = call_pb env (RFriendCheck a b) ''AccountExists'' social_err check_resp"

definition http_is_blocked_either :: "http_env \<Rightarrow> string \<Rightarrow> string \<Rightarrow> (SocialError, bool) http_op" where
  "http_is_blocked_either env a b = call_pb env (RBlockCheck a b) ''AccountExists'' social_err check_resp"

definition http_ensure_friends :: "string \<Rightarrow> string \<Rightarrow> (SocialError, unit) http_op" where
  "http_ensure_friends a b l = (Ok (), l)"

section \<open>Agent specifications\<close>

definition spec_err :: "StoreError \<Rightarrow> AgentSpecError" where
  "spec_err e =
     (case e of
        StoreHttp status msg \<Rightarrow>
          if status = 400 then AgentInvalid else if status = 403 then AgentNotOwner else AgentBackend (StoreError_show e)
      | _ \<Rightarrow> AgentBackend (StoreError_show e))"

abbreviation spec_odd :: AgentSpecError where "spec_odd \<equiv> spec_err unexpected"

definition http_spec_list :: "http_env \<Rightarrow> string \<Rightarrow> (AgentSpecError, AgentSpecRecord list) http_op" where
  "http_spec_list env owner =
     call_pb env (RSpecSync owner) ''AgentSpecSyncResp'' spec_err (\<lambda>x. case x of XSpecSync rs _ \<Rightarrow> Ok rs | _ \<Rightarrow> Err spec_odd)"

definition http_spec_upsert :: "http_env \<Rightarrow> string \<Rightarrow> AgentSpecRecord \<Rightarrow> (AgentSpecError, AgentSpecRecord) http_op" where
  "http_spec_upsert env owner rec =
     call_pb env (RSpecUpsert owner (Some rec) None) ''AgentSpecUpsertResp'' spec_err
       (\<lambda>x. case x of XSpecUpsert (Some r) \<Rightarrow> Ok r | XSpecUpsert None \<Rightarrow> Err (AgentBackend ''upsert missing record'') | _ \<Rightarrow> Err spec_odd)"

definition http_account_list :: "http_env \<Rightarrow> string \<Rightarrow> (AgentSpecError, AgentProviderAccount list) http_op" where
  "http_account_list env owner =
     call_pb env (RSpecSync owner) ''AgentSpecSyncResp'' spec_err (\<lambda>x. case x of XSpecSync _ as \<Rightarrow> Ok as | _ \<Rightarrow> Err spec_odd)"

definition http_account_upsert :: "http_env \<Rightarrow> string \<Rightarrow> AgentProviderAccount \<Rightarrow> (AgentSpecError, AgentProviderAccount) http_op" where
  "http_account_upsert env owner rec =
     call_pb env (RSpecUpsert owner None (Some rec)) ''AgentSpecUpsertResp'' spec_err (\<lambda>x. case x of XSpecUpsert _ \<Rightarrow> Ok rec | _ \<Rightarrow> Err spec_odd)"

section \<open>Calls that are repeated\<close>


section \<open>Sending a message once\<close>


lemma insert_from_req_of [simp]: "insert_from_req (insert_req im members) = im"
  by (simp add: insert_from_req_def insert_req_def Let_def)











section \<open>Remote and local directories\<close>

text \<open>A call whose first attempt gets through: the pool has an instance, the request passes the signature and nonce checks
  and the reply arrives.\<close>

definition clean_call :: "http_env \<Rightarrow> royal_req \<Rightarrow> link \<Rightarrow> bool" where
  "clean_call env rq l \<longleftrightarrow>
     (let a = he_attempts env 0; w = at_wire a; srv = wr_server w in
      \<not> at_time_up a \<and> (\<exists>i p1. pick (at_pick_ms a) (fst l) = (Ok i, p1)) \<and> wr_fate w = Answered \<and> codecs_agree (he_caller env) w rq
      \<and> (\<exists>req seen. sign_request (he_caller env) w rq = Ok req
          \<and> require_hmac (ry_mac srv) (ro_hmac_secret (snd l)) (ry_epoch srv) (ry_instant srv) req (ro_nonce (snd l)) = (Ok (), seen)))"

abbreviation server_of :: "http_env \<Rightarrow> royal_env" where
  "server_of env \<equiv> wr_server (at_wire (he_attempts env 0))"

text \<open>Such a call is one run of the endpoint, unless its error is one that is tried again.\<close>

lemma clean_send:
  assumes "clean_call env rq (p, st)"
  obtains p' seen log where "send (he_caller env) (he_attempts env) rq p st =
      (case fst (handle (server_of env) rq (st\<lparr>ro_nonce := seen\<rparr>)) of
         Inr x \<Rightarrow> Ok (ry_enc_resp (server_of env) x) | Inl (status, msg) \<Rightarrow> Err (StoreHttp status msg),
       p', snd (handle (server_of env) rq (st\<lparr>ro_nonce := seen\<rparr>)), log)"
    | seen status msg where "fst (handle (server_of env) rq (st\<lparr>ro_nonce := seen\<rparr>)) = Err (status, msg)"
        "is_success status \<or> retry_http status"
proof -
  let ?a = "he_attempts env 0" and ?srv = "server_of env"
  obtain i p1 req seen where c: "\<not> at_time_up ?a" "pick (at_pick_ms ?a) p = (Ok i, p1)" "wr_fate (at_wire ?a) = Answered"
    "codecs_agree (he_caller env) (at_wire ?a) rq" "sign_request (he_caller env) (at_wire ?a) rq = Ok req"
    "require_hmac (ry_mac ?srv) (ro_hmac_secret st) (ry_epoch ?srv) (ry_instant ?srv) req (ro_nonce st) = (Ok (), seen)"
    using assms by (auto simp: clean_call_def Let_def)
  have "hr_method req = req_method rq" "hr_path req = req_path rq" "hr_body req = ca_enc (he_caller env) rq"
    using c(5) by (auto simp: sign_request_def res_bind_eq_Inr)
  then have dec: "ry_dec ?srv (hr_method req) (hr_path req) (hr_body req) = Ok rq" using codecs_agreeD(1)[OF c(4)] by simp
  obtain h s1 where h: "handle ?srv rq (st\<lparr>ro_nonce := seen\<rparr>) = (h, s1)" by fastforce
  have three: "RETRIES = Suc (Suc (Suc 0))" by (simp add: RETRIES_def)
  show thesis
  proof (cases h)
    case (Inr x)
    have "is_success (success_status rq)" by (cases rq) (simp_all add: is_success_def success_status_def)
    then show thesis
      using that(1)[of seen] c h dec Inr
      by (simp add: send_def three deliver_def royal_http_def Let_def)
  next
    case (Inl e)
    obtain status msg where e: "e = (status, msg)" by fastforce
    show thesis
    proof (cases "is_success status \<or> retry_http status")
      case True
      then show thesis using that(2)[of seen status msg] h Inl e by simp
    next
      case False
      then show thesis
        using that(1)[of seen] c h dec Inl e
        by (simp add: send_def three deliver_def royal_http_def http_status_err_def comp_def Let_def)
    qed
  qed
qed

text \<open>\<open>remote_is\<close>: the remote operation has the result of the local one on Royal's directories and leaves them as the local
  one does.\<close>

definition remote_is :: "http_env \<Rightarrow> royal_req \<Rightarrow> ('e, 'a) http_op \<Rightarrow> (ChatState \<Rightarrow> ('e, 'a) result \<times> ChatState) \<Rightarrow> link \<Rightarrow> bool" where
  "remote_is env rq remote here l \<longleftrightarrow>
     (clean_call env rq l \<longrightarrow> fst (remote l) = fst (here (dirs (snd l))) \<and> dirs (snd (snd (remote l))) = snd (here (dirs (snd l))))"

lemma dirs_nonce [simp]: "dirs (st\<lparr>ro_nonce := seen\<rparr>) = dirs st"
  by (simp add: dirs_def)

lemma remote_pb:
  assumes handled: "\<And>seen. fst (handle (server_of env) rq (st\<lparr>ro_nonce := seen\<rparr>)) = map_sum eh out (fst (here (dirs st)))"
      "\<And>seen. dirs (snd (handle (server_of env) rq (st\<lparr>ro_nonce := seen\<rparr>))) = snd (here (dirs st))"
    and name: "\<And>v. resp_name (out v) = want" and undo: "\<And>v. fst (here (dirs st)) = Ok v \<Longrightarrow> inp (out v) = Ok v"
    and errors: "\<And>e. fst (here (dirs st)) = Err e \<Longrightarrow>
      \<not> is_success (fst (eh e)) \<and> \<not> retry_http (fst (eh e)) \<and> err (StoreHttp (fst (eh e)) (snd (eh e))) = e"
  shows "remote_is env rq (call_pb env rq want err inp) here (p, st)"
  unfolding remote_is_def
proof
  assume c: "clean_call env rq (p, st)"
  then have cod: "codecs_agree (he_caller env) (at_wire (he_attempts env 0)) rq" by (simp add: clean_call_def Let_def)
  show "fst (call_pb env rq want err inp (p, st)) = fst (here (dirs (snd (p, st))))
      \<and> dirs (snd (snd (call_pb env rq want err inp (p, st)))) = snd (here (dirs (snd (p, st))))"
  proof (cases rule: clean_send[OF c])
    case (1 p' seen log)
    show ?thesis
    proof (cases "fst (here (dirs st))")
      case (Inl e)
      then show ?thesis using 1 handled(1)[of seen] handled(2)[of seen] errors[OF Inl] by (simp add: call_pb_def send_pb_def split_beta)
    next
      case (Inr v)
      have x: "fst (handle (server_of env) rq (st\<lparr>ro_nonce := seen\<rparr>)) = Ok (out v)" using handled(1)[of seen] Inr by simp
      have "ca_dec (he_caller env) want (ry_enc_resp (server_of env) (out v)) = Ok (out v)"
        using codecs_agreeD(2)[OF cod x] name by simp
      then show ?thesis using 1 x handled(2)[of seen] Inr undo[OF Inr] by (simp add: call_pb_def send_pb_def)
    qed
  next
    case (2 seen status msg)
    then show ?thesis using handled(1)[of seen] errors by (cases "fst (here (dirs st))") auto
  qed
qed

lemma remote_unit:
  assumes handled: "\<And>seen. fst (handle (server_of env) rq (st\<lparr>ro_nonce := seen\<rparr>)) = map_sum eh out (fst (here (dirs st)))"
      "\<And>seen. dirs (snd (handle (server_of env) rq (st\<lparr>ro_nonce := seen\<rparr>))) = snd (here (dirs st))"
    and errors: "\<And>e. fst (here (dirs st)) = Err e \<Longrightarrow>
      \<not> is_success (fst (eh e)) \<and> \<not> retry_http (fst (eh e)) \<and> err (StoreHttp (fst (eh e)) (snd (eh e))) = e"
  shows "remote_is env rq (call_unit env rq err) here (p, st)"
  unfolding remote_is_def
proof
  assume c: "clean_call env rq (p, st)"
  show "fst (call_unit env rq err (p, st)) = fst (here (dirs (snd (p, st))))
      \<and> dirs (snd (snd (call_unit env rq err (p, st)))) = snd (here (dirs (snd (p, st))))"
  proof (cases rule: clean_send[OF c])
    case (1 p' seen log)
    show ?thesis
      using 1 handled(1)[of seen] handled(2)[of seen] errors
      by (cases "fst (here (dirs st))") (simp_all add: call_unit_def post_maybe_empty_def split_beta)
  next
    case (2 seen status msg)
    then show ?thesis using handled(1)[of seen] errors by (cases "fst (here (dirs st))") auto
  qed
qed

lemma handled_read:
  assumes "handle env rq = on_read f eh out"
  shows "fst (handle env rq (st\<lparr>ro_nonce := seen\<rparr>)) = map_sum eh out (fst (f (dirs st), dirs st))"
    "dirs (snd (handle env rq (st\<lparr>ro_nonce := seen\<rparr>))) = snd (f (dirs st), dirs st)"
  using assms by (simp_all add: on_read_def split: sum.split)

text \<open>The writes of a directory leave the rest of the chat state alone.\<close>

definition within :: "(ChatState \<Rightarrow> 'a \<times> ChatState) \<Rightarrow> bool" where
  "within f \<longleftrightarrow> (\<forall>st. dirs (put_dirs (snd (f (dirs st))) st) = snd (f (dirs st)))"

lemma handled_write:
  assumes "\<And>seen. handle env rq (st\<lparr>ro_nonce := seen\<rparr>) = on_write f eh out (st\<lparr>ro_nonce := seen\<rparr>)" "within f"
  shows "fst (handle env rq (st\<lparr>ro_nonce := seen\<rparr>)) = map_sum eh out (fst (f (dirs st)))"
    "dirs (snd (handle env rq (st\<lparr>ro_nonce := seen\<rparr>))) = snd (f (dirs st))"
proof -
  have "dirs (put_dirs (snd (f (dirs (st\<lparr>ro_nonce := seen\<rparr>)))) (st\<lparr>ro_nonce := seen\<rparr>)) = snd (f (dirs (st\<lparr>ro_nonce := seen\<rparr>)))"
    using assms(2) unfolding within_def by blast
  then show "fst (handle env rq (st\<lparr>ro_nonce := seen\<rparr>)) = map_sum eh out (fst (f (dirs st)))"
    "dirs (snd (handle env rq (st\<lparr>ro_nonce := seen\<rparr>))) = snd (f (dirs st))"
    using assms(1)[of seen] by (auto simp: on_write_def split: sum.splits prod.splits)
qed

lemma social_within [simp]:
  "within (sd_request memory_social app a b)" "within (sd_accept memory_social app a b)" "within (sd_reject memory_social app a b)"
  "within (sd_remove memory_social app a b)" "within (sd_block memory_social app a b)" "within (sd_unblock memory_social app a b)"
  "within (gd_group_quit memory_groups app g a)"
  by (simp_all add: within_def memory_social_def memory_groups_def dirs_def put_dirs_def split_beta)

lemma social_errors:
  assumes "e = SelfOp \<or> e = SocialBlocked \<or> e = SocialNotFound"
  shows "\<not> is_success (fst (social_http e)) \<and> \<not> retry_http (fst (social_http e))
    \<and> social_err (StoreHttp (fst (social_http e)) (snd (social_http e))) = e"
  using assms by (auto simp: is_success_def retry_http_def social_err_def)

lemma local_errors:
  "fst (sd_request memory_social app a b s) = Err e \<Longrightarrow> e = SelfOp \<or> e = SocialBlocked \<or> e = SocialNotFound"
  "fst (sd_accept memory_social app a b s) = Err e \<Longrightarrow> e = SelfOp \<or> e = SocialBlocked \<or> e = SocialNotFound"
  "fst (sd_block memory_social app a b s) = Err e \<Longrightarrow> e = SelfOp \<or> e = SocialBlocked \<or> e = SocialNotFound"
  "fst (sd_reject memory_social app a b s) = Err e \<Longrightarrow> e = SelfOp \<or> e = SocialBlocked \<or> e = SocialNotFound"
  "fst (sd_remove memory_social app a b s) = Err e \<Longrightarrow> e = SelfOp \<or> e = SocialBlocked \<or> e = SocialNotFound"
  "fst (sd_unblock memory_social app a b s) = Err e \<Longrightarrow> e = SelfOp \<or> e = SocialBlocked \<or> e = SocialNotFound"
  "fst (gd_group_quit memory_groups app g a s) = Err ge \<Longrightarrow> ge = GroupNotFound"
  "gd_group_members memory_groups app g s = Err ge \<Longrightarrow> ge = GroupNotFound"
  "gd_group_detail memory_groups app g s = Err ge \<Longrightarrow> ge = GroupNotFound"
  by (auto simp: memory_social_def memory_groups_def social_request_def social_accept_def social_block_def group_quit_def group_members_def
      group_detail_def Let_def split: if_splits option.splits prod.splits)

lemma group_not_found:
  assumes "ge = GroupNotFound"
  shows "\<not> is_success (fst (group_http ge)) \<and> \<not> retry_http (fst (group_http ge))
    \<and> group_err (StoreHttp (fst (group_http ge)) (snd (group_http ge))) = ge"
  using assms by (simp add: is_success_def retry_http_def group_err_def group_http_def)

text \<open>The answer to a friend request on the wire: whether the two are friends now.\<close>

definition seen_outcome :: "FriendRequestOutcome \<Rightarrow> FriendRequestOutcome" where
  "seen_outcome o' = (if o' = AlreadyFriends then AutoAccepted else o')"

lemma remote_writes:
  assumes "bot_social_refused st a b = Ok ()"
  shows "remote_is env (RFriendAccept a b) (http_accept env a b) (sd_accept memory_social (ro_app st) a b) (p, st)"
    and "remote_is env (RFriendRemove a b) (http_remove env a b) (sd_remove memory_social (ro_app st) a b) (p, st)"
    and "remote_is env (RBlockAdd a b) (http_block env a b) (sd_block memory_social (ro_app st) a b) (p, st)"
    and "remote_is env (RBlockRemove a b) (http_unblock env a b) (sd_unblock memory_social (ro_app st) a b) (p, st)"
    and "remote_is env (RFriendRequest a b) (http_request env a b)
      (\<lambda>s. map_prod (map_sum id seen_outcome) id (sd_request memory_social (ro_app st) a b s)) (p, st)"
proof -
  have bot: "bot_social_refused (st\<lparr>ro_nonce := seen\<rparr>) a b = Ok ()" for seen using assms by (simp add: bot_social_refused_def)
  note w = handled_write[where st = st and eh = social_http]
  show "remote_is env (RFriendAccept a b) (http_accept env a b) (sd_accept memory_social (ro_app st) a b) (p, st)"
    unfolding http_accept_def
    by (rule remote_unit[OF w social_errors[OF local_errors(2)]]) (simp_all add: ep_friend_accept_def unless_bot_def bot)
  show "remote_is env (RFriendRemove a b) (http_remove env a b) (sd_remove memory_social (ro_app st) a b) (p, st)"
    unfolding http_remove_def
    by (rule remote_unit[OF w social_errors[OF local_errors(5)]]) (simp_all add: ep_friend_remove_def unless_bot_def bot)
  show "remote_is env (RBlockAdd a b) (http_block env a b) (sd_block memory_social (ro_app st) a b) (p, st)"
    unfolding http_block_def
    by (rule remote_unit[OF w social_errors[OF local_errors(3)]]) (simp_all add: ep_block_add_def unless_bot_def bot)
  show "remote_is env (RBlockRemove a b) (http_unblock env a b) (sd_unblock memory_social (ro_app st) a b) (p, st)"
    unfolding http_unblock_def
    by (rule remote_unit[OF w social_errors[OF local_errors(6)]]) (simp_all add: ep_block_remove_def unless_bot_def bot)
  have r: "handle (server_of env) (RFriendRequest a b) (st\<lparr>ro_nonce := seen\<rparr>) = on_write (sd_request memory_social (ro_app st) a b) social_http
      (\<lambda>outcome. XAccountExists (outcome = AutoAccepted \<or> outcome = AlreadyFriends) 0 []) (st\<lparr>ro_nonce := seen\<rparr>)" for seen
    by (simp add: ep_friend_request_def unless_bot_def bot)
  note h = handled_write[OF r social_within(1)]
  have out: "map_sum social_http (\<lambda>outcome. XAccountExists (outcome = AutoAccepted \<or> outcome = AlreadyFriends) 0 []) x
      = map_sum social_http (\<lambda>outcome. XAccountExists (outcome = AutoAccepted) 0 []) (map_sum id seen_outcome x)" for x
    by (cases x) (auto simp: seen_outcome_def)
  show "remote_is env (RFriendRequest a b) (http_request env a b)
      (\<lambda>s. map_prod (map_sum id seen_outcome) id (sd_request memory_social (ro_app st) a b s)) (p, st)"
    unfolding http_request_def
  proof (rule remote_pb[where eh = social_http and out = "\<lambda>outcome. XAccountExists (outcome = AutoAccepted) 0 []"], goal_cases)
    case (5 e)
    then have "fst (sd_request memory_social (ro_app st) a b (dirs st)) = Err e"
      by (cases "fst (sd_request memory_social (ro_app st) a b (dirs st))") simp_all
    then show ?case by (rule social_errors[OF local_errors(1)])
  next
    case (4 v)
    then have "v \<noteq> AlreadyFriends"
      by (cases "fst (sd_request memory_social (ro_app st) a b (dirs st))") (auto simp: seen_outcome_def split: if_splits)
    then show ?case by (cases v) simp_all
  qed (simp_all add: h[simplified] out)
qed

lemma remote_reads:
  shows "remote_is env (RFriendReject a b) (http_reject env a b) (sd_reject memory_social (ro_app st) a b) (p, st)"
    and "remote_is env (RFriendList a) (http_list_friends env a) (\<lambda>s. (sd_list_friends memory_social (ro_app st) a s, s)) (p, st)"
    and "remote_is env (RFriendIncoming a) (http_incoming env a) (\<lambda>s. (sd_incoming memory_social (ro_app st) a s, s)) (p, st)"
    and "remote_is env (RBlockList a) (http_list_blocked env a) (\<lambda>s. (sd_list_blocked memory_social (ro_app st) a s, s)) (p, st)"
    and "remote_is env (RFriendCheck a b) (http_is_friend env a b) (\<lambda>s. (sd_is_friend memory_social (ro_app st) a b s, s)) (p, st)"
    and "remote_is env (RBlockCheck a b) (http_is_blocked_either env a b) (\<lambda>s. (sd_is_blocked_either memory_social (ro_app st) a b s, s)) (p, st)"
    and "remote_is env (RHistory a d (kind_number k) before limit) (http_history env a d k before limit)
      (\<lambda>s. (mst_history (royal_store (server_of env)) (ro_app st) a d k before limit s, s)) (p, st)"
proof -
  show "remote_is env (RFriendReject a b) (http_reject env a b) (sd_reject memory_social (ro_app st) a b) (p, st)"
    unfolding http_reject_def
    by (rule remote_unit[OF handled_write social_errors[OF local_errors(4)]]) (simp_all add: ep_friend_reject_def)
  have total: "sd_list_friends memory_social app a s \<noteq> Err e" "sd_incoming memory_social app a s \<noteq> Err e"
    "sd_list_blocked memory_social app a s \<noteq> Err e" "sd_is_friend memory_social app a b s \<noteq> Err e"
    "sd_is_blocked_either memory_social app a b s \<noteq> Err e" "mst_history (royal_store v) app a d k before limit s \<noteq> Err e'" for app s e e' v
    by (simp_all add: memory_social_def memory_store_def)
  note rd = handled_read[where st = st]
  have kind: "parse_kind (kind_number k) = Some k"
    by (cases k) (simp_all add: parse_kind_def kind_number_def INBOX_KIND_USER_def INBOX_KIND_GROUP_def)
  show "remote_is env (RFriendList a) (http_list_friends env a) (\<lambda>s. (sd_list_friends memory_social (ro_app st) a s, s)) (p, st)"
    unfolding http_list_friends_def
    by (rule remote_pb[where eh = social_http and out = XAccounts]) (simp_all add: total ep_friend_list_def on_read_def accounts_resp_def split: sum.split)
  show "remote_is env (RFriendIncoming a) (http_incoming env a) (\<lambda>s. (sd_incoming memory_social (ro_app st) a s, s)) (p, st)"
    unfolding http_incoming_def
    by (rule remote_pb[where eh = social_http and out = XAccounts]) (simp_all add: total ep_friend_incoming_def on_read_def accounts_resp_def split: sum.split)
  show "remote_is env (RBlockList a) (http_list_blocked env a) (\<lambda>s. (sd_list_blocked memory_social (ro_app st) a s, s)) (p, st)"
    unfolding http_list_blocked_def
    by (rule remote_pb[where eh = social_http and out = XAccounts]) (simp_all add: total ep_block_list_def on_read_def accounts_resp_def split: sum.split)
  show "remote_is env (RFriendCheck a b) (http_is_friend env a b) (\<lambda>s. (sd_is_friend memory_social (ro_app st) a b s, s)) (p, st)"
    unfolding http_is_friend_def
    by (rule remote_pb[where eh = social_http and out = "\<lambda>b. XAccountExists b 0 []"])
      (simp_all add: total ep_friend_check_def on_read_def check_resp_def split: sum.split)
  show "remote_is env (RBlockCheck a b) (http_is_blocked_either env a b) (\<lambda>s. (sd_is_blocked_either memory_social (ro_app st) a b s, s)) (p, st)"
    unfolding http_is_blocked_either_def
    by (rule remote_pb[where eh = social_http and out = "\<lambda>b. XAccountExists b 0 []"])
      (simp_all add: total ep_block_check_def on_read_def check_resp_def split: sum.split)
  show "remote_is env (RHistory a d (kind_number k) before limit) (http_history env a d k before limit)
      (\<lambda>s. (mst_history (royal_store (server_of env)) (ro_app st) a d k before limit s, s)) (p, st)"
    unfolding http_history_def
    by (rule remote_pb[where eh = store_backend and out = XHistory]) (simp_all add: total ep_history_def kind on_read_def split: sum.split)
qed

lemma remote_groups:
  assumes "app \<noteq> []"
  shows "remote_is env (RGroupMembers app g) (http_group_members env app g) (\<lambda>s. (gd_group_members memory_groups app g s, s)) (p, st)"
    and "remote_is env (RGroupDetail app g) (http_group_detail env app g) (\<lambda>s. (gd_group_detail memory_groups app g s, s)) (p, st)"
    and "remote_is env (RGroupQuit app g a) (http_group_quit env app g a) (gd_group_quit memory_groups app g a) (p, st)"
proof -
  show "remote_is env (RGroupMembers app g) (http_group_members env app g) (\<lambda>s. (gd_group_members memory_groups app g s, s)) (p, st)"
    unfolding http_group_members_def
    by (rule remote_pb[where eh = group_http and out = XGroupMembers])
      (use group_not_found[OF local_errors(8)] assms in \<open>auto simp: ep_group_members_def require_app_def on_read_def split: sum.splits\<close>)
  show "remote_is env (RGroupDetail app g) (http_group_detail env app g) (\<lambda>s. (gd_group_detail memory_groups app g s, s)) (p, st)"
    unfolding http_group_detail_def
    by (rule remote_pb[where eh = group_http and out = XGroupDetail])
      (use group_not_found[OF local_errors(9)] assms in \<open>auto simp: ep_group_detail_def require_app_def on_read_def split: sum.splits\<close>)
  show "remote_is env (RGroupQuit app g a) (http_group_quit env app g a) (gd_group_quit memory_groups app g a) (p, st)"
    unfolding http_group_quit_def
    by (rule remote_unit[OF handled_write group_not_found[OF local_errors(7)]]) (simp_all add: ep_group_quit_def require_app_def assms)
qed

text \<open>The directories over Royal are the local ones. When the first attempt of a call gets through, the social
  directory, the group lookups and the history that the chat service asks from Royal return exactly what the in-memory
  components return on Royal's state, errors included, and a write changes Royal's directories exactly as the
  in-memory component would; the answer to a friend request only tells whether the two are friends now. Writes to a
  bot, which Royal refuses itself, and an empty application name are left out.\<close>

theorem remote_directories_equal_local:
  "(bot_social_refused st a b = Ok () \<longrightarrow>
     remote_is env (RFriendRequest a b) (http_request env a b)
       (\<lambda>s. map_prod (map_sum id seen_outcome) id (sd_request memory_social (ro_app st) a b s)) (p, st)
     \<and> remote_is env (RFriendAccept a b) (http_accept env a b) (sd_accept memory_social (ro_app st) a b) (p, st)
     \<and> remote_is env (RFriendRemove a b) (http_remove env a b) (sd_remove memory_social (ro_app st) a b) (p, st)
     \<and> remote_is env (RBlockAdd a b) (http_block env a b) (sd_block memory_social (ro_app st) a b) (p, st)
     \<and> remote_is env (RBlockRemove a b) (http_unblock env a b) (sd_unblock memory_social (ro_app st) a b) (p, st))
   \<and> remote_is env (RFriendReject a b) (http_reject env a b) (sd_reject memory_social (ro_app st) a b) (p, st)
   \<and> remote_is env (RFriendList a) (http_list_friends env a) (\<lambda>s. (sd_list_friends memory_social (ro_app st) a s, s)) (p, st)
   \<and> remote_is env (RFriendIncoming a) (http_incoming env a) (\<lambda>s. (sd_incoming memory_social (ro_app st) a s, s)) (p, st)
   \<and> remote_is env (RBlockList a) (http_list_blocked env a) (\<lambda>s. (sd_list_blocked memory_social (ro_app st) a s, s)) (p, st)
   \<and> remote_is env (RFriendCheck a b) (http_is_friend env a b) (\<lambda>s. (sd_is_friend memory_social (ro_app st) a b s, s)) (p, st)
   \<and> remote_is env (RBlockCheck a b) (http_is_blocked_either env a b) (\<lambda>s. (sd_is_blocked_either memory_social (ro_app st) a b s, s)) (p, st)
   \<and> remote_is env (RHistory a d (kind_number k) before limit) (http_history env a d k before limit)
       (\<lambda>s. (mst_history (royal_store (server_of env)) (ro_app st) a d k before limit s, s)) (p, st)
   \<and> (app \<noteq> [] \<longrightarrow>
     remote_is env (RGroupMembers app g) (http_group_members env app g) (\<lambda>s. (gd_group_members memory_groups app g s, s)) (p, st)
     \<and> remote_is env (RGroupDetail app g) (http_group_detail env app g) (\<lambda>s. (gd_group_detail memory_groups app g s, s)) (p, st)
     \<and> remote_is env (RGroupQuit app g a) (http_group_quit env app g a) (gd_group_quit memory_groups app g a) (p, st))"
  by (intro conjI impI remote_writes remote_reads remote_groups)

section \<open>Witnesses\<close>

text \<open>A request signed with the shared secret by a clock that agrees passes, unless its nonce was seen.\<close>

lemma signed_passes:
  assumes "sign_request ca w rq = Ok req" "ca_mac ca = mac" "ca_secret ca = secret" "valid_nonce (wr_nonce w)"
    "i64_min \<le> wr_signed_at w" "wr_signed_at w \<le> i64_max" "\<bar>now_unix epoch now - wr_signed_at w\<bar> \<le> MAX_SKEW_SECS"
    "length (ca_enc ca rq) \<le> 4 * 1024 * 1024" "hget (hretain (\<lambda>_ t. nonce_live now t) seen) (wr_nonce w) = None"
  shows "require_hmac mac secret epoch now req seen = (Ok (), hput (wr_nonce w) now (hretain (\<lambda>_ t. nonce_live now t) seen))"
  using assms
  by (auto simp: sign_request_def sign_at_def res_bind_eq_Inr require_hmac_def verify_at_def parse_int_show_int hex_decode_encode claim_at_def
      Let_def split: if_splits)

definition demo_reach :: "royal_req \<Rightarrow> (royal_resp \<Rightarrow> byte list) \<Rightarrow> (string \<Rightarrow> byte list \<Rightarrow> (string, royal_resp) result) \<Rightarrow> wire_fate \<Rightarrow> http_env" where
  "demo_reach rq enc dec fate =
     \<lparr>he_caller = \<lparr>ca_enc = \<lambda>_. [], ca_dec = dec, ca_secret = [1], ca_mac = \<lambda>k m. k\<rparr>,
      he_attempts = \<lambda>i. \<lparr>at_time_up = False, at_pick_ms = 0, at_report_ms = 0,
        at_wire = \<lparr>wr_nonce = (if i = 0 then ''nonce123'' else ''nonce456''), wr_signed_at = 0, wr_fate = (if i = 0 then fate else Answered),
          wr_server = wr_server (at_wire (demo_down 0))\<lparr>ry_dec := \<lambda>_ _ _. Ok rq, ry_enc_resp := enc\<rparr>\<rparr>\<rparr>,
      he_pending_receipt = False\<rparr>"

definition demo_block_env :: http_env where
  "demo_block_env = demo_reach (RBlockAdd ''alice'' ''bob'') (\<lambda>_. []) (\<lambda>_ _. Ok XEmpty) Answered"

lemma demo_nonces: "valid_nonce ''nonce123''" "valid_nonce ''nonce456''"
  by (simp_all add: valid_nonce_def NONCE_MIN_def NONCE_MAX_def is_ascii_alnum_def)

lemma demo_block_clean: "clean_call demo_block_env (RBlockAdd ''alice'' ''bob'') (demo_pool, demo_site)"
proof -
  let ?w = "at_wire (he_attempts demo_block_env 0)"
  have pick: "\<exists>i p1. pick (at_pick_ms (he_attempts demo_block_env 0)) demo_pool = (Ok i, p1)"
    by (simp add: demo_block_env_def demo_reach_def pick_def demo_pool_def client_with_hmac_def)
  have cod: "codecs_agree (he_caller demo_block_env) ?w (RBlockAdd ''alice'' ''bob'')"
    unfolding codecs_agree_def
    by (auto simp: demo_block_env_def demo_reach_def ep_block_add_def unless_bot_def on_write_def split: sum.splits prod.splits)
  obtain req where req: "sign_request (he_caller demo_block_env) ?w (RBlockAdd ''alice'' ''bob'') = Ok req"
    by (simp add: sign_request_def sign_at_def demo_block_env_def demo_reach_def Let_def)
  have "\<exists>seen. require_hmac (ry_mac (wr_server ?w)) (ro_hmac_secret demo_site) (ry_epoch (wr_server ?w)) (ry_instant (wr_server ?w)) req (ro_nonce demo_site)
      = (Ok (), seen)"
    using signed_passes[OF req, of "ry_mac (wr_server ?w)" "ro_hmac_secret demo_site" "ry_epoch (wr_server ?w)" "ry_instant (wr_server ?w)" "ro_nonce demo_site"]
    by (simp add: demo_block_env_def demo_reach_def demo_down_def demo_site_def memory_with_jwt_receipt_def demo_nonces now_unix_def MAX_SKEW_SECS_def hretain_def)
  then show ?thesis
    using pick cod req by (simp add: clean_call_def Let_def) (simp add: demo_block_env_def demo_reach_def)
qed

theorem remote_directories_equal_local_witness:
  "fst (http_block demo_block_env ''alice'' ''bob'' (demo_pool, demo_site)) = Ok ()
   \<and> so_blocks (ro_social (snd (snd (http_block demo_block_env ''alice'' ''bob'' (demo_pool, demo_site))))) = [(''kim'', ''alice'', ''bob'')]"
proof -
  have bot: "bot_social_refused demo_site ''alice'' ''bob'' = Ok ()"
    by (simp add: bot_social_refused_def memory_users_def demo_site_def memory_with_jwt_receipt_def dirs_def lookup_def user_dir_new_def)
  have site: "ro_app demo_site = ''kim''" "ro_social demo_site = social_new" by (simp_all add: demo_site_def memory_with_jwt_receipt_def)
  have "remote_is demo_block_env (RBlockAdd ''alice'' ''bob'') (http_block demo_block_env ''alice'' ''bob'')
      (sd_block memory_social (ro_app demo_site) ''alice'' ''bob'') (demo_pool, demo_site)"
    using remote_directories_equal_local[of demo_site "''alice''" "''bob''" demo_block_env demo_pool] bot by blast
  then have r: "fst (http_block demo_block_env ''alice'' ''bob'' (demo_pool, demo_site)) = fst (sd_block memory_social ''kim'' ''alice'' ''bob'' (dirs demo_site))"
    "dirs (snd (snd (http_block demo_block_env ''alice'' ''bob'' (demo_pool, demo_site)))) = snd (sd_block memory_social ''kim'' ''alice'' ''bob'' (dirs demo_site))"
    using demo_block_clean by (simp_all add: remote_is_def site)
  have l: "fst (sd_block memory_social ''kim'' ''alice'' ''bob'' (dirs demo_site)) = Ok ()"
    "so_blocks (ch_social (snd (sd_block memory_social ''kim'' ''alice'' ''bob'' (dirs demo_site)))) = [(''kim'', ''alice'', ''bob'')]"
    by (simp_all add: memory_social_def social_block_def dirs_def site social_new_def)
  have "ro_social st = ch_social (dirs st)" for st by (simp add: dirs_def)
  then show ?thesis using r l by simp
qed










end
