(* ===== verification/Spec2Isabelle.thy ===== *)
theory Spec2Isabelle
  imports Kim_Protocol Kim_Session Kim_Session_Cache Kim_Message_Delivery Kim_Social Kim_Groups Kim_Interest Kim_Users Kim_Talk Kim_Hmac Kim_Deployment Kim_Lanes Kim_Client_Sync Kim_Client_Link Kim_Directory_Cache Kim_Sdk_Outbox Kim_Royal_Live Kim_Royal_Backends
begin

text \<open>
  A verification development for the kim instant-messaging system (Rust, \<open>src/\<close>).

  \<^bold>\<open>The program.\<close> Clients hold a WebSocket or TCP connection to a gateway. A gateway frames bytes into
  packets, authenticates the first packet and forwards the others to the chat service over TCP; the chat
  service looks up the session of the connection, routes the command to its handler, and answers through
  the gateway. The handlers read and write six backends behind traits: the session storage, the user,
  social and group directories, the message store, the room interest store and the store of agent
  specifications. Every backend has an in-memory implementation and one on Postgres or Redis; five of them
  can also be reached over HTTP in the Royal service, which owns the accounts, passwords and tokens and which
  the gateways ask whether a token is still good. On the other side are the client library, which keeps one
  link to a gateway alive and catches up on missed messages, and the SDK above it with a local store and an
  outbox.

  \<^bold>\<open>The theories and what they model.\<close>

  \<^item> \<open>Kim_Prelude\<close>: results (\<open>Ok\<close>, \<open>Err\<close>) as a sum type, hash maps as association lists without
    duplicate keys (\<open>hget\<close>, \<open>hput\<close>, \<open>hdel\<close>, \<open>hretain\<close>), byte and string codecs, saturating arithmetic, the
    collections \<open>kim_codec\<close> and \<open>kim_inv\<close>. The order of an association list stands for the iteration order
    of a hash map; no theorem depends on which order it is.
  \<^item> \<open>Kim_Protocol\<close>: \<open>kim-core\<close> opcodes and frames, the frame codec and reader of \<open>kim-tcp\<close>, basic and logic
    packets, meta entries, commands and identifiers of \<open>kim-protocol\<close>. A stream cut into arbitrary chunks
    yields the frames that were written; packets, commands and identifiers round-trip.
  \<^item> \<open>Kim_Lanes\<close>: the read side of a connection (\<open>kim-core/src/channel.rs\<close>): the lanes of messages, their workers
    and the budget in flight, interleaved at their awaits. Order, the budget and the drain of a closed
    connection; that nothing is lost only with prompt senders (\<open>lane_step\<close>), and a run that loses a message.
  \<^item> \<open>Kim_Hmac\<close>: the signed internal requests (\<open>internal_hmac.rs\<close>, \<open>hmac_nonce.rs\<close>, the middleware of
    \<open>royal\<close>): a signed request verifies, and no request is accepted twice while its time stamp is valid.
  \<^item> \<open>Kim_Session\<close>, \<open>Kim_Session_Cache\<close>: the session storage contract as a registry of sessions (locale
    \<open>session_store\<close>), the in-memory and dual-write stores as refinements of it, and the cache in front of a
    store with its lock-delimited segments interleaved in any order.
  \<^item> \<open>Kim_Message_Store\<close>, \<open>Kim_Message_Query\<close>, \<open>Kim_Message_Delivery\<close>: the in-memory message store of
    \<open>services/chat/src/store/mod.rs\<close>: insertion with client identifiers, delivery receipts, read marks,
    conversation states, offline index and content, history, bot turns, purge; the invariant of reachable
    stores and what each operation does to what an account sees.
  \<^item> \<open>Kim_Social\<close>, \<open>Kim_Groups\<close>, \<open>Kim_Interest\<close>, \<open>Kim_Users\<close>: the in-memory directories of friends and blocks,
    groups and identifiers, room viewers, users and bots, each with its step relation and invariant.
    \<open>Kim_Directory_Cache\<close>: the caches in front of two of them (\<open>social_cache.rs\<close>).
  \<^item> \<open>Kim_Router\<close>: the request context and router of \<open>kim-router\<close>: responses, pushes grouped by gateway.
  \<^item> \<open>Kim_Talk\<close>: content filters and the two talk handlers.
  \<^item> \<open>Kim_Chat_Types\<close>, \<open>Kim_Chat_Base\<close>: the backend traits as records of operations on an abstract state, the
    service's dependencies \<open>ChatSvc\<close>, handlers as programs over the state and the log of pushes, the
    notifications of \<open>notify.rs\<close>, and two calculi over programs: \<open>sends\<close> (what is sent) and \<open>post\<close> (what is kept).
  \<^item> \<open>Kim_Chat_Messages\<close>, \<open>Kim_Chat_Social\<close>, \<open>Kim_Chat_Groups\<close>, \<open>Kim_Chat_Bots\<close>, \<open>Kim_Chat_Presence\<close>: every command
    handler of the chat service, and the presence hub with its spawned tasks cut into steps.
  \<^item> \<open>Kim_Chat_Service\<close>: the dispatcher, the handler table and \<open>receive\<close> of \<open>services/chat/src/lib.rs\<close>.
  \<^item> \<open>Kim_Chat_Contract\<close>: the locale \<open>chat_backend\<close>, what the handlers need of the backends to keep an invariant,
    and the proof, once for all backends, that every handler, task and packet keeps it.
  \<^item> \<open>Kim_Chat_World\<close>, \<open>Kim_Chat_Memory\<close>: who is a person and who is a bot, the service on its in-memory
    backends (\<open>ChatHandler::new_with_node\<close>), and the interpretation of the contract on it.
  \<^item> \<open>Kim_Chat_System\<close>: the running service as a state machine over packets and task steps, and the
    properties of all its reachable states.
  \<^item> \<open>Kim_Token\<close>, \<open>Kim_Routing\<close>, \<open>Kim_Container\<close>: tokens and revocation keys, the choice of an instance or a
    gateway for a request, and the container with its outbound connections.
  \<^item> \<open>Kim_Gateway\<close>, \<open>Kim_Deployment\<close>: the gateway handler (handshake, heartbeat, forwarding, disconnection),
    and gateways with the chat service as one system: what a client sends is served in its own name only.
  \<^item> \<open>Kim_Royal_Auth\<close>, \<open>Kim_Royal\<close>, \<open>Kim_Royal_Live\<close>: Royal's accounts, tokens and devices (\<open>auth.rs\<close>, \<open>revoke.rs\<close>,
    \<open>device.rs\<close>, \<open>password_seal.rs\<close>), its signed endpoints (\<open>lib.rs\<close>, \<open>product.rs\<close>, \<open>bot.rs\<close>, \<open>agent_spec.rs\<close>),
    and the life of a token from login to password change and logout.
  \<^item> \<open>Kim_Royal_Wire\<close>, \<open>Kim_Royal_Pool\<close>, \<open>Kim_Royal_Backends\<close>: a request on a network that may lose it or its
    reply, the gateway's three questions, the pool of instances with retries and circuit breakers, and the
    chat service's directories and message store over it (\<open>services/chat/src/royal.rs\<close>, \<open>royal_pool.rs\<close>). The locale
    \<open>remote_call\<close> lifts what an endpoint keeps to a call with its retries.
  \<^item> \<open>Kim_Client_Wire\<close>, \<open>Kim_Client_Pump\<close>, \<open>Kim_Client_Sync\<close>, \<open>Kim_Client_Link\<close>: the client library: its packets and
    events, the calls that wait for answers, the catch-up with its confirmation gate, and the reconnect loop.
  \<^item> \<open>Kim_Sdk_Model\<close>, \<open>Kim_Sdk_Store\<close>, \<open>Kim_Sdk_Outbox\<close>: the SDK's local store, a definition per SQL statement,
    its write worker, and the pump that sends what waits in the outbox.

  \<^bold>\<open>How code becomes a definition.\<close> A struct is a record, an enum a datatype, an operation one definition.
  Fallible code returns a result; \<open>?\<close> is \<open>res_bind\<close> or \<open>followed\<close>. Integers that can overflow are words or carry
  their bounds (\<open>i64_saturating_sub\<close>, \<open>u32_saturating_add\<close>, frame lengths, generations); identifiers and clocks are
  \<open>int\<close> or \<open>nat\<close>.

  \<^bold>\<open>Interleaving.\<close> Code is cut at its awaits and locks, and its segments run in any order, in the session cache,
  the presence tasks, the container, the lanes, the client's pump and the outbox. Elsewhere a whole operation is
  one step: \<open>chat_step\<close> handles a packet in one step, and Royal a request, although the code can interleave two
  handlers at their awaits. What rests on this is a check that one handler makes before another one writes: the
  limit of 500 members of a group (\<open>concurrent_invites_exceed_limit\<close>), and the bot and friendship checks before a write.
  \<open>require_hmac\<close> uses one instant for the age of the signature and for the nonce, where the code reads the wall
  clock and then the monotonic one: the two are assumed to run together. The local store of the SDK is written by
  its one worker, as in the code; that only one pump settles messages is the guard \<open>op_ok\<close> of \<open>sdk_step\<close>.

  \<^bold>\<open>Parameters and hypotheses.\<close> Generated or third-party code is an argument of the definitions that use it: the
  protobuf codecs (\<open>chat_codec\<close>, header codecs, Royal's codecs), HMAC-SHA256, JWT signing, Argon2, the sealed box,
  SHA-256, base64 and CRC-32, the snowflake generator (a sequence of draws), the network (\<open>dispatcher\<close>, the outcome of
  every push, the fate of every request), clocks, random identifiers, and timers (whether a budget passes, after how
  many pushes a fan-out is cut). A timer passes while its lookup is pending, not while a response is being written.
  Hypotheses on them are stated where they are used and named in the text of each property:
  an encoder and its decoder are inverse (round trips, \<open>session_codec\<close>, \<open>codecs_agree\<close>); a JWT decodes to the claims that
  were signed (\<open>jwt_binds\<close>); the identifier generator does not repeat itself (\<open>distinct_draws\<close>, \<open>ids_fresh\<close>); the
  connection named by a login is not one of another account (\<open>login_owned\<close>, which \<open>Kim_Deployment\<close> discharges for
  gateways whose identifiers have no underscore, \<open>gateway_name\<close>); a typing request names a well-formed account
  (\<open>typing_named\<close>; the theorem \<open>typing_answers_twice\<close> shows why); a waiting sender is prompt (\<open>prompt\<close>); the store keeps
  delivery receipts and the device names itself (\<open>receipt_store\<close>). Each property with a hypothesis has a witness.

  \<^bold>\<open>Termination and bounds.\<close> Loops over finite data are structural recursions or have a measure. A call to Royal
  makes at most \<open>RETRIES\<close> attempts. Three loops of the client depend on their surroundings and take a number of
  rounds: the pages of the catch-up and of a history (the properties give a number that is enough) and the
  reconnect loop, which does not end by itself.

  \<^bold>\<open>Not modelled.\<close> The Postgres and Redis backends (systems outside the repository), cryptography, metrics and
  logging, sockets and servers, configuration, the facade of the SDK and the FFI crates with their generated
  code, the mobile and web applications, the agent host and the desktop runtime. \<open>PROJECT.json\<close> lists them
  with the reason.
\<close>

end
